(* ===== verification/Prelude.thy ===== *)
theory Prelude
  imports Main "HOL-Library.Signed_Division" "HOL-Library.Sublist"
begin

text \<open>
  What every component of the gateway shares: the reading of Go's basic types, the parts of
  Go's standard library the modelled code calls, and the generic lemmas of the component
  proofs.

  \<^item> An instant (\<open>time.Time\<close>) and a span (\<open>time.Duration\<close>) are integers counting nanoseconds;
    \<open>t.After(u)\<close> is \<open>u < t\<close>, \<open>t.Add(d)\<close> is \<open>t + d\<close>, \<open>t.Sub(u)\<close> is \<open>t - u\<close>.
  \<^item> A Go \<open>string\<close> is a sequence of bytes, here a \<open>char list\<close>; \<open>len\<close> is \<open>length\<close>.
  \<^item> A pointer that may be \<open>nil\<close> is an \<open>option\<close>; a map with nil as a value of its own is a
    map \<open>'k \<rightharpoonup> 'v\<close>.
  \<^item> A call that returns \<open>(T, error)\<close> has the result type \<open>'e + 't\<close>, \<open>Inl\<close> being the error.
\<close>

named_theorems go_simps \<open>unfolding rules for the translated Go operations\<close>

type_synonym time = int
type_synonym duration = int

abbreviation Nanosecond :: duration where "Nanosecond \<equiv> 1"
abbreviation Millisecond :: duration where "Millisecond \<equiv> 1000000"
abbreviation Second :: duration where "Second \<equiv> 1000000000"
abbreviation Minute :: duration where "Minute \<equiv> 60000000000"
abbreviation Hour :: duration where "Hour \<equiv> 3600000000000"

abbreviation MaxInt64 :: int where "MaxInt64 \<equiv> 9223372036854775807"
abbreviation MinInt64 :: int where "MinInt64 \<equiv> - 9223372036854775808"

section \<open>Lists and options\<close>

text \<open>The first element that satisfies a predicate, replaced; the others unchanged. It is the
  effect of an SQL \<open>UPDATE ... WHERE\<close> on a table whose rows the condition tells apart.\<close>

definition update_where :: "('a \<Rightarrow> bool) \<Rightarrow> ('a \<Rightarrow> 'a) \<Rightarrow> 'a list \<Rightarrow> 'a list" where
  "update_where p f xs = map (\<lambda>x. if p x then f x else x) xs"

lemma length_update_where [simp]: "length (update_where p f xs) = length xs"
  by (simp add: update_where_def)

lemma update_where_Nil [simp]: "update_where p f [] = []"
  by (simp add: update_where_def)

lemma update_where_Cons [simp]:
  "update_where p f (x # xs) = (if p x then f x else x) # update_where p f xs"
  by (simp add: update_where_def)

lemma set_update_where:
  "set (update_where p f xs) = {x \<in> set xs. \<not> p x} \<union> f ` {x \<in> set xs. p x}"
  by (auto simp: update_where_def)

lemma update_where_id: "(\<And>x. x \<in> set xs \<Longrightarrow> \<not> p x) \<Longrightarrow> update_where p f xs = xs"
  by (induction xs) auto

lemma map_update_where:
  "(\<And>x. x \<in> set xs \<Longrightarrow> p x \<Longrightarrow> g (f x) = g x) \<Longrightarrow> map g (update_where p f xs) = map g xs"
  by (induction xs) auto

lemma find_Some_in: "List.find p xs = Some x \<Longrightarrow> x \<in> set xs \<and> p x"
  by (auto simp: find_Some_iff)

lemma find_append_Some: "List.find p xs = Some x \<Longrightarrow> List.find p (xs @ ys) = Some x"
  by (induction xs) (auto split: if_splits)

lemma find_append_None: "List.find p xs = None \<Longrightarrow> List.find p (xs @ ys) = List.find p ys"
  by (induction xs) (auto split: if_splits)

lemma find_update_where:
  assumes "\<And>x. q (f x) = q x"
  shows "List.find q (update_where p f xs) =
    map_option (\<lambda>x. if p x then f x else x) (List.find q xs)"
  by (induction xs) (auto simp: assms)

text \<open>A key that is distinct over a list finds exactly the element it belongs to.\<close>

lemma find_by_key:
  "distinct (map k xs) \<Longrightarrow> x \<in> set xs \<Longrightarrow> List.find (\<lambda>y. k y = k x) xs = Some x"
proof (induction xs)
  case Nil
  then show ?case by simp
next
  case (Cons a xs)
  then show ?case by (cases "a = x") (auto simp: image_iff)
qed

lemma distinct_map_same:
  "distinct (map k xs) \<Longrightarrow> x \<in> set xs \<Longrightarrow> y \<in> set xs \<Longrightarrow> k x = k y \<Longrightarrow> x = y"
  by (auto simp: distinct_map dest: inj_onD)

section \<open>Integer division\<close>

text \<open>Go's \<open>/\<close> on integers truncates towards zero: \<open>sdiv\<close> of the library.\<close>

lemma le_div_iff_mult:
  assumes "0 < (b :: int)"
  shows "k \<le> a div b \<longleftrightarrow> k * b \<le> a"
proof
  assume "k \<le> a div b"
  then have "k * b \<le> a div b * b" using assms by (simp add: mult_right_mono)
  also have "\<dots> \<le> a" using assms by (simp add: minus_mod_eq_div_mult [symmetric])
  finally show "k * b \<le> a" .
next
  assume "k * b \<le> a"
  then have "k * b div b \<le> a div b" using assms by (intro zdiv_mono1)
  then show "k \<le> a div b" using assms by simp
qed

lemma sdiv_nonneg: "0 \<le> a \<Longrightarrow> 0 \<le> b \<Longrightarrow> a sdiv b = (a :: int) div b"
  by (cases "b = 0") (auto simp: signed_divide_int_def sgn_if)

lemma sdiv_nonpos_le: "a \<le> 0 \<Longrightarrow> 0 < b \<Longrightarrow> a sdiv b \<le> (0 :: int)"
proof -
  assume "a \<le> 0" and "0 < b"
  then have "0 \<le> (- a) div b" by (intro div_int_pos_iff [THEN iffD2]) auto
  with \<open>a \<le> 0\<close> \<open>0 < b\<close> show ?thesis by (auto simp: signed_divide_int_def sgn_if)
qed

section \<open>strconv\<close>

text \<open>\<open>strconv.Itoa\<close> / \<open>strconv.FormatInt\<close> in base 10, and \<open>strconv.Atoi\<close>, which accepts an
  optional sign and at least one digit and refuses a value outside 64 bits.\<close>

definition digit_char :: "nat \<Rightarrow> char" where
  "digit_char d = char_of (48 + d)"

fun utoa :: "nat \<Rightarrow> string" where
  "utoa n = (if n < 10 then [digit_char n] else utoa (n div 10) @ [digit_char (n mod 10)])"

declare utoa.simps [simp del]

definition itoa :: "int \<Rightarrow> string" where
  "itoa i = (if i < 0 then CHR ''-'' # utoa (nat (- i)) else utoa (nat i))"

definition is_digit :: "char \<Rightarrow> bool" where
  "is_digit c = (48 \<le> (of_char c :: nat) \<and> of_char c \<le> (57 :: nat))"

fun parse_digits :: "nat \<Rightarrow> string \<Rightarrow> nat option" where
  "parse_digits acc [] = Some acc"
| "parse_digits acc (c # cs) =
     (if is_digit c then parse_digits (acc * 10 + (of_char c - 48)) cs else None)"

definition parse_nat :: "string \<Rightarrow> nat option" where
  "parse_nat s = (if s = [] then None else parse_digits 0 s)"

definition atoi :: "string \<Rightarrow> int option" where
  "atoi s =
     (let v = (case s of
                 CHR ''-'' # r \<Rightarrow> map_option (\<lambda>n. - int n) (parse_nat r)
               | CHR ''+'' # r \<Rightarrow> map_option int (parse_nat r)
               | _ \<Rightarrow> map_option int (parse_nat s))
      in case v of None \<Rightarrow> None
         | Some i \<Rightarrow> if MinInt64 \<le> i \<and> i \<le> MaxInt64 then Some i else None)"

lemma digit_char_code [simp]: "d < 10 \<Longrightarrow> (of_char (digit_char d) :: nat) = 48 + d"
  by (simp add: digit_char_def)

lemma is_digit_digit_char [simp]: "d < 10 \<Longrightarrow> is_digit (digit_char d)"
  by (simp add: is_digit_def)

lemma parse_digits_append:
  "parse_digits acc (xs @ ys) =
     (case parse_digits acc xs of None \<Rightarrow> None | Some a \<Rightarrow> parse_digits a ys)"
  by (induction xs arbitrary: acc) auto

lemma utoa_nonempty [simp]: "utoa n \<noteq> []"
  by (subst utoa.simps) simp

lemma utoa_digits: "\<forall>c \<in> set (utoa n). is_digit c"
proof (induction n rule: utoa.induct)
  case (1 n)
  then show ?case by (subst utoa.simps) auto
qed

lemma parse_digits_utoa: "parse_digits 0 (utoa n) = Some n"
proof (induction n rule: utoa.induct)
  case (1 n)
  show ?case
  proof (cases "n < 10")
    case True
    then show ?thesis by (subst utoa.simps) simp
  next
    case False
    with 1 have "parse_digits 0 (utoa (n div 10)) = Some (n div 10)" by simp
    moreover have "utoa n = utoa (n div 10) @ [digit_char (n mod 10)]"
      using False by (subst utoa.simps) simp
    ultimately show ?thesis by (simp add: parse_digits_append)
  qed
qed

lemma parse_nat_utoa [simp]: "parse_nat (utoa n) = Some n"
  by (simp add: parse_nat_def parse_digits_utoa)

lemma utoa_hd_digit: "utoa n = c # cs \<Longrightarrow> is_digit c"
  using utoa_digits [of n] by simp

lemma atoi_itoa:
  assumes "MinInt64 \<le> i" and "i \<le> MaxInt64"
  shows "atoi (itoa i) = Some i"
proof (cases "i < 0")
  case True
  with assms show ?thesis by (simp add: atoi_def itoa_def)
next
  case False
  obtain c cs where u: "utoa (nat i) = c # cs" by (cases "utoa (nat i)") auto
  then have "is_digit c" by (rule utoa_hd_digit)
  then have "c \<noteq> CHR ''-''" and "c \<noteq> CHR ''+''" by (auto simp: is_digit_def)
  with u have "(case c # cs of CHR ''-'' # r \<Rightarrow> map_option (\<lambda>n. - int n) (parse_nat r)
      | CHR ''+'' # r \<Rightarrow> map_option int (parse_nat r)
      | _ \<Rightarrow> map_option int (parse_nat (c # cs))) = map_option int (parse_nat (c # cs))"
    by (auto split: char.split bool.split)
  moreover have "parse_nat (c # cs) = Some (nat i)" using parse_nat_utoa [of "nat i"] u by simp
  ultimately show ?thesis using False assms u by (simp add: atoi_def itoa_def)
qed

lemma itoa_nonempty [simp]: "itoa i \<noteq> []"
  by (simp add: itoa_def)

lemma utoa_not_minus [simp]: "utoa n \<noteq> CHR ''-'' # s"
  using utoa_hd_digit [of n "CHR ''-''" s] by (auto simp: is_digit_def)

lemma utoa_inject [simp]: "utoa m = utoa n \<longleftrightarrow> m = n"
  by (metis option.inject parse_nat_utoa)

lemma itoa_inject [simp]: "itoa i = itoa j \<longleftrightarrow> i = j"
  using utoa_not_minus [symmetric] by (auto simp: itoa_def)

lemma itoa_no_colon: "CHR '':'' \<notin> set (itoa i)"
proof -
  have "\<not> is_digit CHR '':''" by (simp add: is_digit_def)
  then have "CHR '':'' \<notin> set (utoa n)" for n using utoa_digits [of n] by blast
  then show ?thesis by (simp add: itoa_def)
qed

end
