(* ===== verification/App_Errors.thy ===== *)
theory App_Errors
  imports Prelude
begin

text \<open>
  The error values of the gateway (\<open>src/backend/internal/pkg/errors\<close>): the application error
  with its HTTP status code, reason, message and metadata, other Go errors with what they
  wrap, the walk \<open>errors.As\<close> takes along a chain of wrapped errors, and the constructors and
  classifiers of \<open>types.go\<close>. An \<open>error\<close> that may be \<open>nil\<close> is a \<open>go_error option\<close>. The deep
  copies of \<open>Clone\<close> are the identity on values.
\<close>

section \<open>Data and operations\<close>

datatype go_error =
    ApplicationError (ae_Code: int) (ae_Reason: string) (ae_Message: string)
      (ae_Metadata: "(string \<rightharpoonup> string) option") (ae_cause: "go_error option")
  | OtherError (oe_Error: string) (oe_Unwrap: "go_error option")

definition UnknownCode :: int where "UnknownCode = 500"
definition UnknownReason :: string where "UnknownReason = ''''"
definition UnknownMessage :: string where "UnknownMessage = ''internal error''"

definition New :: "int \<Rightarrow> string \<Rightarrow> string \<Rightarrow> go_error" where
  "New code reason message =
     ApplicationError (signed_take_bit 31 code) reason message None None"

fun WithCause :: "go_error \<Rightarrow> go_error option \<Rightarrow> go_error" where
  "WithCause (ApplicationError c r m md _) cause = ApplicationError c r m md cause"
| "WithCause e _ = e"

fun WithMetadata :: "go_error \<Rightarrow> (string \<rightharpoonup> string) option \<Rightarrow> go_error" where
  "WithMetadata (ApplicationError c r m _ ca) md = ApplicationError c r m md ca"
| "WithMetadata e _ = e"

text \<open>\<open>errors.As(err, &appErr)\<close>: the first application error of the chain.\<close>

fun errors_As :: "go_error \<Rightarrow> go_error option" where
  "errors_As (ApplicationError c r m md ca) = Some (ApplicationError c r m md ca)"
| "errors_As (OtherError t None) = None"
| "errors_As (OtherError t (Some e)) = errors_As e"

definition Is :: "go_error \<Rightarrow> go_error \<Rightarrow> bool" where
  "Is e err = (case errors_As err of
     None \<Rightarrow> False
   | Some se \<Rightarrow> ae_Code se = ae_Code e \<and> ae_Reason se = ae_Reason e)"

definition FromError :: "go_error option \<Rightarrow> go_error option" where
  "FromError err = (case err of
     None \<Rightarrow> None
   | Some e \<Rightarrow> (case errors_As e of
        Some se \<Rightarrow> Some se
      | None \<Rightarrow> Some (WithCause (New UnknownCode UnknownReason UnknownMessage) (Some e))))"

definition Code :: "go_error option \<Rightarrow> int" where
  "Code err = (case FromError err of None \<Rightarrow> 200 | Some e \<Rightarrow> ae_Code e)"

definition Reason :: "go_error option \<Rightarrow> string" where
  "Reason err = (case FromError err of None \<Rightarrow> UnknownReason | Some e \<Rightarrow> ae_Reason e)"

definition Message :: "go_error option \<Rightarrow> string" where
  "Message err = (case FromError err of None \<Rightarrow> '''' | Some e \<Rightarrow> ae_Message e)"

text \<open>\<open>Status\<close> and \<open>ToHTTP\<close>: the response status and body of an error.\<close>

record Status =
  st_Code :: int
  st_Reason :: string
  st_Message :: string
  st_Metadata :: "(string \<rightharpoonup> string) option"

definition ToHTTP :: "go_error option \<Rightarrow> int \<times> Status" where
  "ToHTTP err = (case FromError err of
     None \<Rightarrow> (200, \<lparr>st_Code = 200, st_Reason = '''', st_Message = '''', st_Metadata = None\<rparr>)
   | Some e \<Rightarrow> (ae_Code e, \<lparr>st_Code = ae_Code e, st_Reason = ae_Reason e,
                 st_Message = ae_Message e, st_Metadata = ae_Metadata e\<rparr>))"

definition BadRequest :: "string \<Rightarrow> string \<Rightarrow> go_error" where "BadRequest = New 400"
definition IsBadRequest :: "go_error option \<Rightarrow> bool" where "IsBadRequest err = (Code err = 400)"
definition TooManyRequests :: "string \<Rightarrow> string \<Rightarrow> go_error" where "TooManyRequests = New 429"
definition IsTooManyRequests :: "go_error option \<Rightarrow> bool" where
  "IsTooManyRequests err = (Code err = 429)"
definition Unauthorized :: "string \<Rightarrow> string \<Rightarrow> go_error" where "Unauthorized = New 401"
definition IsUnauthorized :: "go_error option \<Rightarrow> bool" where "IsUnauthorized err = (Code err = 401)"
definition Forbidden :: "string \<Rightarrow> string \<Rightarrow> go_error" where "Forbidden = New 403"
definition IsForbidden :: "go_error option \<Rightarrow> bool" where "IsForbidden err = (Code err = 403)"
definition NotFound :: "string \<Rightarrow> string \<Rightarrow> go_error" where "NotFound = New 404"
definition IsNotFound :: "go_error option \<Rightarrow> bool" where "IsNotFound err = (Code err = 404)"
definition Conflict :: "string \<Rightarrow> string \<Rightarrow> go_error" where "Conflict = New 409"
definition IsConflict :: "go_error option \<Rightarrow> bool" where "IsConflict err = (Code err = 409)"
definition InternalServer :: "string \<Rightarrow> string \<Rightarrow> go_error" where "InternalServer = New 500"
definition IsInternalServer :: "go_error option \<Rightarrow> bool" where
  "IsInternalServer err = (Code err = 500)"
definition ServiceUnavailable :: "string \<Rightarrow> string \<Rightarrow> go_error" where "ServiceUnavailable = New 503"
definition IsServiceUnavailable :: "go_error option \<Rightarrow> bool" where
  "IsServiceUnavailable err = (Code err = 503)"
definition GatewayTimeout :: "string \<Rightarrow> string \<Rightarrow> go_error" where "GatewayTimeout = New 504"
definition IsGatewayTimeout :: "go_error option \<Rightarrow> bool" where
  "IsGatewayTimeout err = (Code err = 504)"
definition ClientClosed :: "string \<Rightarrow> string \<Rightarrow> go_error" where "ClientClosed = New 499"
definition IsClientClosed :: "go_error option \<Rightarrow> bool" where "IsClientClosed err = (Code err = 499)"

section \<open>Lemmas\<close>

lemmas error_constructors =
  BadRequest_def TooManyRequests_def Unauthorized_def Forbidden_def NotFound_def Conflict_def
  InternalServer_def ServiceUnavailable_def GatewayTimeout_def ClientClosed_def

lemmas error_classifiers =
  IsBadRequest_def IsTooManyRequests_def IsUnauthorized_def IsForbidden_def IsNotFound_def
  IsConflict_def IsInternalServer_def IsServiceUnavailable_def IsGatewayTimeout_def
  IsClientClosed_def

lemma small_code: "0 \<le> c \<Longrightarrow> c < 2 ^ 31 \<Longrightarrow> signed_take_bit 31 c = (c :: int)"
  by (simp add: signed_take_bit_int_eq_self)

lemma WithCause_fields [simp]:
  "ae_Code (WithCause (New c r m) ca) = ae_Code (New c r m)"
  "ae_Reason (WithCause (New c r m) ca) = r"
  "ae_Message (WithCause (New c r m) ca) = m"
  by (simp_all add: New_def)

lemma New_fields [simp]:
  "ae_Reason (New c r m) = r" "ae_Message (New c r m) = m" "ae_Metadata (New c r m) = None"
  "ae_cause (New c r m) = None"
  by (simp_all add: New_def)

lemma errors_As_app: "errors_As e = Some se \<Longrightarrow> is_ApplicationError se"
  by (induction e rule: errors_As.induct) auto

text \<open>The chain of errors a caller builds by wrapping (\<open>fmt.Errorf("...: %w", err)\<close>).\<close>

fun wrap :: "string list \<Rightarrow> go_error \<Rightarrow> go_error" where
  "wrap [] e = e"
| "wrap (t # ts) e = OtherError t (Some (wrap ts e))"

lemma errors_As_wrap: "errors_As (wrap ts e) = errors_As e"
  by (induction ts) auto

lemma FromError_wrap:
  "is_ApplicationError e \<Longrightarrow> FromError (Some (wrap ts e)) = Some e"
  by (cases e) (auto simp: FromError_def errors_As_wrap)

end
