(* ===== verification/Idempotency_Repo.thy ===== *)
theory Idempotency_Repo
  imports App_Errors
begin

text \<open>
  The store of idempotency records: \<open>IdempotencyRecord\<close> and the repository interface of
  \<open>service/idempotency.go\<close>, and its PostgreSQL implementation
  \<open>repository/idempotency_repo.go\<close>.

  The table is the list of its rows with the sequence that numbers them; each statement of the
  repository is one atomic function on the table (\<open>\<dots>_sql\<close>), with the database clock
  \<open>NOW()\<close> as an argument. The repository the services call works on a \<open>db_state\<close>: besides the
  table it holds a script of turns, one per call, which says what other processes do to the
  table before the call (\<open>repo_op list\<close>) and whether the call fails, before or after its
  statement took effect. Quantifying over the script quantifies over every interleaving with
  other processes and every pattern of database failures.

  The locale \<open>lease_store\<close> states what the clients rely on: every operation keeps the
  table well formed, and an operation that is foreign to a held lease leaves its row as it is.
  It is interpreted on the SQL statements below.
\<close>

section \<open>Records, table, statements\<close>

definition IdempotencyStatusProcessing :: string where
  "IdempotencyStatusProcessing = ''processing''"
definition IdempotencyStatusSucceeded :: string where
  "IdempotencyStatusSucceeded = ''succeeded''"
definition IdempotencyStatusFailedRetryable :: string where
  "IdempotencyStatusFailedRetryable = ''failed_retryable''"

lemmas idem_status_defs =
  IdempotencyStatusProcessing_def IdempotencyStatusSucceeded_def
  IdempotencyStatusFailedRetryable_def

record IdempotencyRecord =
  idr_ID :: int
  idr_Scope :: string
  idr_IdempotencyKeyHash :: string
  idr_RequestFingerprint :: string
  idr_Status :: string
  idr_ResponseStatus :: "int option"
  idr_ResponseBody :: "string option"
  idr_ErrorReason :: "string option"
  idr_LockedUntil :: "time option"
  idr_ExpiresAt :: time
  idr_CreatedAt :: time
  idr_UpdatedAt :: time

record idem_table =
  it_rows :: "IdempotencyRecord list"
  it_next_id :: int

definition idem_key :: "IdempotencyRecord \<Rightarrow> string \<times> string" where
  "idem_key r = (idr_Scope r, idr_IdempotencyKeyHash r)"

text \<open>\<open>INSERT ... ON CONFLICT (scope, idempotency_key_hash) DO NOTHING RETURNING id, ...\<close>. The
  sequence is advanced by the attempt, whether or not the row is inserted. The result is
  whether a row came back, and the record with the id and timestamps it was given.\<close>

definition CreateProcessing_sql ::
  "time \<Rightarrow> IdempotencyRecord \<Rightarrow> idem_table \<Rightarrow> (bool \<times> IdempotencyRecord) \<times> idem_table" where
  "CreateProcessing_sql dbnow rec t =
     (let nid = it_next_id t; t1 = t\<lparr>it_next_id := nid + 1\<rparr>
      in if \<exists>r \<in> set (it_rows t). idem_key r = idem_key rec then ((False, rec), t1)
         else let row = \<lparr>idr_ID = nid, idr_Scope = idr_Scope rec,
                         idr_IdempotencyKeyHash = idr_IdempotencyKeyHash rec,
                         idr_RequestFingerprint = idr_RequestFingerprint rec,
                         idr_Status = idr_Status rec, idr_ResponseStatus = None,
                         idr_ResponseBody = None, idr_ErrorReason = None,
                         idr_LockedUntil = idr_LockedUntil rec,
                         idr_ExpiresAt = idr_ExpiresAt rec,
                         idr_CreatedAt = dbnow, idr_UpdatedAt = dbnow\<rparr>
              in ((True, rec\<lparr>idr_ID := nid, idr_CreatedAt := dbnow, idr_UpdatedAt := dbnow\<rparr>),
                  t1\<lparr>it_rows := it_rows t @ [row]\<rparr>))"

definition GetByScopeAndKeyHash_sql ::
  "string \<Rightarrow> string \<Rightarrow> idem_table \<Rightarrow> IdempotencyRecord option" where
  "GetByScopeAndKeyHash_sql scope keyHash t =
     List.find (\<lambda>r. idem_key r = (scope, keyHash)) (it_rows t)"

text \<open>The \<open>UPDATE\<close>s: the rows that satisfy the \<open>WHERE\<close> condition are rewritten, and the
  statement reports whether there were any (\<open>RowsAffected() > 0\<close>).\<close>

definition update_rows ::
  "(IdempotencyRecord \<Rightarrow> bool) \<Rightarrow> (IdempotencyRecord \<Rightarrow> IdempotencyRecord) \<Rightarrow> idem_table
     \<Rightarrow> bool \<times> idem_table" where
  "update_rows p f t =
     (\<exists>r \<in> set (it_rows t). p r, t\<lparr>it_rows := update_where p f (it_rows t)\<rparr>)"

definition TryReclaim_sql ::
  "time \<Rightarrow> int \<Rightarrow> string \<Rightarrow> time \<Rightarrow> time \<Rightarrow> time \<Rightarrow> idem_table \<Rightarrow> bool \<times> idem_table" where
  "TryReclaim_sql dbnow rid fromStatus now newLockedUntil newExpiresAt =
     update_rows
       (\<lambda>r. idr_ID r = rid \<and> idr_Status r = fromStatus \<and>
            (case idr_LockedUntil r of None \<Rightarrow> True | Some l \<Rightarrow> l \<le> now))
       (\<lambda>r. r\<lparr>idr_Status := IdempotencyStatusProcessing, idr_LockedUntil := Some newLockedUntil,
              idr_ErrorReason := None, idr_UpdatedAt := dbnow, idr_ExpiresAt := newExpiresAt\<rparr>)"

definition ExtendProcessingLock_sql ::
  "time \<Rightarrow> int \<Rightarrow> string \<Rightarrow> time \<Rightarrow> time \<Rightarrow> idem_table \<Rightarrow> bool \<times> idem_table" where
  "ExtendProcessingLock_sql dbnow rid requestFingerprint newLockedUntil newExpiresAt =
     update_rows
       (\<lambda>r. idr_ID r = rid \<and> idr_Status r = IdempotencyStatusProcessing \<and>
            idr_RequestFingerprint r = requestFingerprint)
       (\<lambda>r. r\<lparr>idr_LockedUntil := Some newLockedUntil, idr_ExpiresAt := newExpiresAt,
              idr_UpdatedAt := dbnow\<rparr>)"

definition MarkSucceeded_sql ::
  "time \<Rightarrow> int \<Rightarrow> int \<Rightarrow> string \<Rightarrow> time \<Rightarrow> idem_table \<Rightarrow> bool \<times> idem_table" where
  "MarkSucceeded_sql dbnow rid responseStatus responseBody expiresAt =
     update_rows (\<lambda>r. idr_ID r = rid)
       (\<lambda>r. r\<lparr>idr_Status := IdempotencyStatusSucceeded,
              idr_ResponseStatus := Some responseStatus, idr_ResponseBody := Some responseBody,
              idr_ErrorReason := None, idr_LockedUntil := None, idr_ExpiresAt := expiresAt,
              idr_UpdatedAt := dbnow\<rparr>)"

definition MarkFailedRetryable_sql ::
  "time \<Rightarrow> int \<Rightarrow> string \<Rightarrow> time \<Rightarrow> time \<Rightarrow> idem_table \<Rightarrow> bool \<times> idem_table" where
  "MarkFailedRetryable_sql dbnow rid errorReason lockedUntil expiresAt =
     update_rows (\<lambda>r. idr_ID r = rid)
       (\<lambda>r. r\<lparr>idr_Status := IdempotencyStatusFailedRetryable,
              idr_ErrorReason := Some errorReason, idr_LockedUntil := Some lockedUntil,
              idr_ExpiresAt := expiresAt, idr_UpdatedAt := dbnow\<rparr>)"

text \<open>\<open>DELETE\<close> of the oldest expired rows, \<open>limit\<close> at most (500 when the argument is not
  positive); rows that expire at the same instant are taken in table order.\<close>

definition DeleteExpired_sql :: "time \<Rightarrow> int \<Rightarrow> idem_table \<Rightarrow> nat \<times> idem_table" where
  "DeleteExpired_sql now limit t =
     (let lim = (if limit \<le> 0 then 500 else limit);
          victims = take (nat lim)
            (sort_key idr_ExpiresAt (filter (\<lambda>r. idr_ExpiresAt r \<le> now) (it_rows t)));
          ids = map idr_ID victims;
          kept = filter (\<lambda>r. idr_ID r \<notin> set ids) (it_rows t)
      in (length (it_rows t) - length kept, t\<lparr>it_rows := kept\<rparr>))"

section \<open>The repository as the services see it\<close>

record 's IdempotencyRepository =
  CreateProcessing :: "IdempotencyRecord \<Rightarrow> 's \<Rightarrow> (go_error + bool \<times> IdempotencyRecord) \<times> 's"
  GetByScopeAndKeyHash :: "string \<Rightarrow> string \<Rightarrow> 's \<Rightarrow> (go_error + IdempotencyRecord option) \<times> 's"
  TryReclaim :: "int \<Rightarrow> string \<Rightarrow> time \<Rightarrow> time \<Rightarrow> time \<Rightarrow> 's \<Rightarrow> (go_error + bool) \<times> 's"
  ExtendProcessingLock :: "int \<Rightarrow> string \<Rightarrow> time \<Rightarrow> time \<Rightarrow> 's \<Rightarrow> (go_error + bool) \<times> 's"
  MarkSucceeded :: "int \<Rightarrow> int \<Rightarrow> string \<Rightarrow> time \<Rightarrow> 's \<Rightarrow> go_error option \<times> 's"
  MarkFailedRetryable :: "int \<Rightarrow> string \<Rightarrow> time \<Rightarrow> time \<Rightarrow> 's \<Rightarrow> go_error option \<times> 's"
  DeleteExpired :: "time \<Rightarrow> int \<Rightarrow> 's \<Rightarrow> (go_error + nat) \<times> 's"

text \<open>What another process can do to the table: any statement of the repository.\<close>

datatype repo_op =
    OpCreate time IdempotencyRecord
  | OpReclaim time int string time time time
  | OpExtend time int string time time
  | OpSucceed time int int string time
  | OpFail time int string time time
  | OpDelete time int

fun apply_op :: "repo_op \<Rightarrow> idem_table \<Rightarrow> idem_table" where
  "apply_op (OpCreate d r) t = snd (CreateProcessing_sql d r t)"
| "apply_op (OpReclaim d i st n l e) t = snd (TryReclaim_sql d i st n l e t)"
| "apply_op (OpExtend d i fp l e) t = snd (ExtendProcessingLock_sql d i fp l e t)"
| "apply_op (OpSucceed d i st b e) t = snd (MarkSucceeded_sql d i st b e t)"
| "apply_op (OpFail d i rs l e) t = snd (MarkFailedRetryable_sql d i rs l e t)"
| "apply_op (OpDelete n lim) t = snd (DeleteExpired_sql n lim t)"

definition apply_ops :: "repo_op list \<Rightarrow> idem_table \<Rightarrow> idem_table" where
  "apply_ops ops t = fold apply_op ops t"

datatype sql_fault = NoFault | FailBefore go_error | FailAfter go_error

record db_state =
  db_table :: idem_table
  db_clock :: time
  db_turns :: "(repo_op list \<times> sql_fault) list"

text \<open>One call: the other processes' operations of this turn, then the statement, unless the
  call fails first.\<close>

definition sql_call :: "(idem_table \<Rightarrow> 'r \<times> idem_table) \<Rightarrow> db_state \<Rightarrow> (go_error + 'r) \<times> db_state" where
  "sql_call stmt s =
     (let (ops, fault) = (case db_turns s of [] \<Rightarrow> ([], NoFault) | x # _ \<Rightarrow> x);
          s1 = s\<lparr>db_table := apply_ops ops (db_table s), db_turns := tl (db_turns s)\<rparr>;
          (r, t2) = stmt (db_table s1)
      in case fault of
           NoFault \<Rightarrow> (Inr r, s1\<lparr>db_table := t2\<rparr>)
         | FailBefore e \<Rightarrow> (Inl e, s1)
         | FailAfter e \<Rightarrow> (Inl e, s1\<lparr>db_table := t2\<rparr>))"

definition sql_error :: "(go_error + 'r) \<times> db_state \<Rightarrow> go_error option \<times> db_state" where
  "sql_error x = (case x of (Inl e, s) \<Rightarrow> (Some e, s) | (Inr _, s) \<Rightarrow> (None, s))"

definition idempotencyRepository :: "db_state IdempotencyRepository" where
  "idempotencyRepository =
     \<lparr>CreateProcessing = (\<lambda>rec s. sql_call (CreateProcessing_sql (db_clock s) rec) s),
      GetByScopeAndKeyHash = (\<lambda>sc k s. sql_call (\<lambda>t. (GetByScopeAndKeyHash_sql sc k t, t)) s),
      TryReclaim = (\<lambda>i st n l e s. sql_call (TryReclaim_sql (db_clock s) i st n l e) s),
      ExtendProcessingLock = (\<lambda>i fp l e s.
        sql_call (ExtendProcessingLock_sql (db_clock s) i fp l e) s),
      MarkSucceeded = (\<lambda>i st b e s.
        sql_error (sql_call (MarkSucceeded_sql (db_clock s) i st b e) s)),
      MarkFailedRetryable = (\<lambda>i rs l e s.
        sql_error (sql_call (MarkFailedRetryable_sql (db_clock s) i rs l e) s)),
      DeleteExpired = (\<lambda>n lim s. sql_call (DeleteExpired_sql n lim) s)\<rparr>"

section \<open>Well-formed tables\<close>

text \<open>The primary key and the unique index of the table, and the sequence ahead of every id.\<close>

definition table_wf :: "idem_table \<Rightarrow> bool" where
  "table_wf t \<longleftrightarrow>
     distinct (map idr_ID (it_rows t)) \<and> distinct (map idem_key (it_rows t)) \<and>
     0 < it_next_id t \<and> (\<forall>r \<in> set (it_rows t). 0 < idr_ID r \<and> idr_ID r < it_next_id t)"

text \<open>\<open>row_of t rid\<close> is the row with this primary key.\<close>

definition row_of :: "idem_table \<Rightarrow> int \<Rightarrow> IdempotencyRecord option" where
  "row_of t rid = List.find (\<lambda>r. idr_ID r = rid) (it_rows t)"

lemma row_of_Some: "row_of t rid = Some r \<Longrightarrow> r \<in> set (it_rows t) \<and> idr_ID r = rid"
  by (auto simp: row_of_def dest: find_Some_in)

lemma row_of_mem: "table_wf t \<Longrightarrow> r \<in> set (it_rows t) \<Longrightarrow> row_of t (idr_ID r) = Some r"
  unfolding row_of_def table_wf_def by (intro find_by_key) auto

lemma row_of_unique:
  "table_wf t \<Longrightarrow> row_of t rid = Some r \<Longrightarrow> q \<in> set (it_rows t) \<Longrightarrow> idr_ID q = rid \<Longrightarrow> q = r"
  using row_of_mem by fastforce

lemma Get_Some:
  "GetByScopeAndKeyHash_sql sc k t = Some r \<Longrightarrow> r \<in> set (it_rows t) \<and> idem_key r = (sc, k)"
  by (auto simp: GetByScopeAndKeyHash_sql_def dest: find_Some_in)

lemma Get_mem:
  "table_wf t \<Longrightarrow> r \<in> set (it_rows t) \<Longrightarrow> idem_key r = (sc, k) \<Longrightarrow>
     GetByScopeAndKeyHash_sql sc k t = Some r"
  using find_by_key [of idem_key "it_rows t" r]
  by (simp add: GetByScopeAndKeyHash_sql_def table_wf_def)

text \<open>An update that keeps the two keys keeps the table well formed and leaves every other row
  as it was.\<close>

definition keeps_keys :: "(IdempotencyRecord \<Rightarrow> IdempotencyRecord) \<Rightarrow> bool" where
  "keeps_keys f \<longleftrightarrow> (\<forall>r. idr_ID (f r) = idr_ID r \<and> idem_key (f r) = idem_key r)"

lemma update_rows_wf:
  "keeps_keys f \<Longrightarrow> table_wf t \<Longrightarrow> table_wf (snd (update_rows p f t))"
  by (auto simp: update_rows_def table_wf_def map_update_where keeps_keys_def set_update_where)

lemma update_rows_row_of:
  "keeps_keys f \<Longrightarrow>
     row_of (snd (update_rows p f t)) rid = map_option (\<lambda>r. if p r then f r else r) (row_of t rid)"
  unfolding row_of_def update_rows_def
  by (simp, subst find_update_where) (auto simp: keeps_keys_def)

lemma update_rows_Get:
  "keeps_keys f \<Longrightarrow>
     GetByScopeAndKeyHash_sql sc k (snd (update_rows p f t)) =
       map_option (\<lambda>r. if p r then f r else r) (GetByScopeAndKeyHash_sql sc k t)"
  unfolding GetByScopeAndKeyHash_sql_def update_rows_def
  by (simp, subst find_update_where) (auto simp: keeps_keys_def)

lemma update_rows_hit:
  "fst (update_rows p f t) \<longleftrightarrow> (\<exists>r \<in> set (it_rows t). p r)"
  by (simp add: update_rows_def)

lemmas update_stmts =
  TryReclaim_sql_def ExtendProcessingLock_sql_def MarkSucceeded_sql_def MarkFailedRetryable_sql_def


lemma keeps_keys_stmts [simp]:
  "keeps_keys (\<lambda>r. r\<lparr>idr_Status := a, idr_LockedUntil := b, idr_ErrorReason := c,
     idr_UpdatedAt := d, idr_ExpiresAt := e\<rparr>)"
  "keeps_keys (\<lambda>r. r\<lparr>idr_LockedUntil := b, idr_ExpiresAt := e, idr_UpdatedAt := d\<rparr>)"
  "keeps_keys (\<lambda>r. r\<lparr>idr_Status := a, idr_ResponseStatus := f, idr_ResponseBody := g,
     idr_ErrorReason := c, idr_LockedUntil := b, idr_ExpiresAt := e, idr_UpdatedAt := d\<rparr>)"
  "keeps_keys (\<lambda>r. r\<lparr>idr_Status := a, idr_ErrorReason := c, idr_LockedUntil := b,
     idr_ExpiresAt := e, idr_UpdatedAt := d\<rparr>)"
  by (simp_all add: keeps_keys_def idem_key_def)

lemma CreateProcessing_wf: "table_wf t \<Longrightarrow> table_wf (snd (CreateProcessing_sql d r t))"
  by (auto simp: CreateProcessing_sql_def table_wf_def Let_def idem_key_def image_iff)

lemma CreateProcessing_row_of:
  "row_of t rid = Some q \<Longrightarrow> row_of (snd (CreateProcessing_sql d r t)) rid = Some q"
  by (auto simp: CreateProcessing_sql_def row_of_def Let_def find_append_Some)

lemma DeleteExpired_rows:
  "set (it_rows (snd (DeleteExpired_sql n lim t))) \<subseteq> set (it_rows t)"
  by (auto simp: DeleteExpired_sql_def Let_def)

lemma DeleteExpired_wf: "table_wf t \<Longrightarrow> table_wf (snd (DeleteExpired_sql n lim t))"
  by (auto simp: DeleteExpired_sql_def table_wf_def Let_def distinct_map_filter)

lemma DeleteExpired_keeps_live:
  assumes "table_wf t" and "q \<in> set (it_rows t)" and "n < idr_ExpiresAt q"
  shows "q \<in> set (it_rows (snd (DeleteExpired_sql n lim t)))"
proof -
  have kept: "idr_ID v \<noteq> idr_ID q"
    if "v \<in> set (take m (sort_key idr_ExpiresAt (filter (\<lambda>r. idr_ExpiresAt r \<le> n) (it_rows t))))"
    for v m
  proof
    assume eq: "idr_ID v = idr_ID q"
    from set_take_subset [THEN subsetD, OF that]
    have v: "v \<in> set (it_rows t)" and exp: "idr_ExpiresAt v \<le> n" by auto
    have "v = q" using assms(1,2) v eq by (auto simp: table_wf_def intro: distinct_map_same)
    with exp assms(3) show False by simp
  qed
  have "idr_ID q \<notin> idr_ID ` set (take m (sort_key idr_ExpiresAt
      (filter (\<lambda>r. idr_ExpiresAt r \<le> n) (it_rows t))))" for m
    by (rule notI, erule imageE) (drule kept, simp)
  then show ?thesis using assms(2) by (simp add: DeleteExpired_sql_def Let_def)
qed

lemma apply_op_wf: "table_wf t \<Longrightarrow> table_wf (apply_op op t)"
  by (cases op) (auto simp: CreateProcessing_wf DeleteExpired_wf update_stmts update_rows_wf)

section \<open>Leases\<close>

text \<open>An operation is foreign to a row when it comes from a process that does not hold the row:
  it does not mark the row's outcome, does not extend its lock, tries to take it over only
  while the lock is in force or from another status, and deletes expired rows only before the
  row expires.\<close>

fun foreign_op :: "IdempotencyRecord \<Rightarrow> repo_op \<Rightarrow> bool" where
  "foreign_op r (OpCreate _ _) = True"
| "foreign_op r (OpReclaim _ i st n _ _) =
     (i \<noteq> idr_ID r \<or> st \<noteq> idr_Status r \<or>
      (case idr_LockedUntil r of None \<Rightarrow> False | Some l \<Rightarrow> n < l))"
| "foreign_op r (OpExtend _ i fp _ _) =
     (i \<noteq> idr_ID r \<or> idr_Status r \<noteq> IdempotencyStatusProcessing \<or> fp \<noteq> idr_RequestFingerprint r)"
| "foreign_op r (OpSucceed _ i _ _ _) = (i \<noteq> idr_ID r)"
| "foreign_op r (OpFail _ i _ _ _) = (i \<noteq> idr_ID r)"
| "foreign_op r (OpDelete n _) = (n < idr_ExpiresAt r)"

locale lease_store =
  fixes wf :: "'t \<Rightarrow> bool"
    and row :: "'t \<Rightarrow> int \<Rightarrow> 'r option"
    and step :: "'op \<Rightarrow> 't \<Rightarrow> 't"
    and foreign :: "'r \<Rightarrow> 'op \<Rightarrow> bool"
  assumes wf_step: "wf t \<Longrightarrow> wf (step op t)"
    and foreign_step: "wf t \<Longrightarrow> row t i = Some r \<Longrightarrow> foreign r op \<Longrightarrow> row (step op t) i = Some r"
begin

lemma wf_run: "wf t \<Longrightarrow> wf (fold step ops t)"
  by (induction ops arbitrary: t) (auto simp: wf_step)

lemma lease_held:
  "wf t \<Longrightarrow> row t i = Some r \<Longrightarrow> list_all (foreign r) ops \<Longrightarrow> row (fold step ops t) i = Some r"
  by (induction ops arbitrary: t) (auto simp: wf_step foreign_step)

end

lemma foreign_apply_op:
  assumes "table_wf t" and "row_of t i = Some r" and "foreign_op r op"
  shows "row_of (apply_op op t) i = Some r"
proof (cases op)
  case (OpDelete n lim)
  from row_of_Some [OF assms(2)] have "r \<in> set (it_rows t)" and i: "idr_ID r = i" by auto
  with DeleteExpired_keeps_live [OF assms(1), of r n lim] assms(3) OpDelete
  have "r \<in> set (it_rows (apply_op op t))" by simp
  with row_of_mem [OF apply_op_wf [OF assms(1)], of r op] i show ?thesis by simp
next
  case (OpReclaim d j st n l e)
  with assms row_of_Some [OF assms(2)] show ?thesis
    by (auto simp: update_stmts update_rows_row_of split: option.splits)
qed (use assms row_of_Some [OF assms(2)] in
      \<open>auto simp: CreateProcessing_row_of update_stmts update_rows_row_of\<close>)

interpretation sql: lease_store table_wf row_of apply_op foreign_op
  by unfold_locales (auto simp: apply_op_wf foreign_apply_op)

lemma apply_ops_wf: "table_wf t \<Longrightarrow> table_wf (apply_ops ops t)"
  unfolding apply_ops_def by (rule sql.wf_run)

lemma apply_ops_foreign:
  "table_wf t \<Longrightarrow> row_of t i = Some r \<Longrightarrow> list_all (foreign_op r) ops \<Longrightarrow>
     row_of (apply_ops ops t) i = Some r"
  unfolding apply_ops_def by (rule sql.lease_held)

section \<open>Calls\<close>

text \<open>The other processes' operations of the turn a call takes.\<close>

definition turn_ops :: "db_state \<Rightarrow> repo_op list" where
  "turn_ops s = (case db_turns s of [] \<Rightarrow> [] | (ops, _) # _ \<Rightarrow> ops)"

definition turn_fault :: "db_state \<Rightarrow> sql_fault" where
  "turn_fault s = (case db_turns s of [] \<Rightarrow> NoFault | (_, f) # _ \<Rightarrow> f)"

definition turn_table :: "db_state \<Rightarrow> idem_table" where
  "turn_table s = apply_ops (turn_ops s) (db_table s)"

lemma sql_call_eq:
  "sql_call stmt s =
     (let r = stmt (turn_table s);
          s1 = s\<lparr>db_table := turn_table s, db_turns := tl (db_turns s)\<rparr>
      in case turn_fault s of
           NoFault \<Rightarrow> (Inr (fst r), s1\<lparr>db_table := snd r\<rparr>)
         | FailBefore e \<Rightarrow> (Inl e, s1)
         | FailAfter e \<Rightarrow> (Inl e, s1\<lparr>db_table := snd r\<rparr>))"
  by (auto simp: sql_call_def turn_table_def turn_ops_def turn_fault_def Let_def
      split: list.split prod.split sql_fault.split)

lemma turn_table_wf [simp]: "table_wf (db_table s) \<Longrightarrow> table_wf (turn_table s)"
  by (simp add: turn_table_def apply_ops_wf)

lemma sql_call_wf:
  assumes "\<And>t. table_wf t \<Longrightarrow> table_wf (snd (stmt t))" and "table_wf (db_table s)"
  shows "table_wf (db_table (snd (sql_call stmt s)))"
  using assms by (auto simp: sql_call_eq Let_def split: sql_fault.split)

lemma sql_call_Inr:
  "sql_call stmt s = (Inr r, s') \<Longrightarrow>
     turn_fault s = NoFault \<and> r = fst (stmt (turn_table s)) \<and> db_table s' = snd (stmt (turn_table s)) \<and>
     db_clock s' = db_clock s \<and> db_turns s' = tl (db_turns s)"
  by (auto simp: sql_call_eq Let_def split: sql_fault.splits)

lemma sql_call_quiet:
  "db_turns s = [] \<Longrightarrow>
     sql_call stmt s = (Inr (fst (stmt (db_table s))), s\<lparr>db_table := snd (stmt (db_table s))\<rparr>)"
  by (simp add: sql_call_eq turn_fault_def turn_table_def turn_ops_def apply_ops_def Let_def)

lemma sql_error_quiet [simp]: "sql_error (Inr r, s) = (None, s)"
  by (simp add: sql_error_def)

section \<open>What a row keeps\<close>

text \<open>A row's primary key, unique key and fingerprint never change, and ids are not reused.\<close>

definition row_ident :: "IdempotencyRecord \<Rightarrow> int \<times> (string \<times> string) \<times> string" where
  "row_ident r = (idr_ID r, idem_key r, idr_RequestFingerprint r)"

definition extends_rows :: "idem_table \<Rightarrow> idem_table \<Rightarrow> bool" where
  "extends_rows t t' \<longleftrightarrow> it_next_id t \<le> it_next_id t' \<and>
     (\<forall>q \<in> set (it_rows t'). idr_ID q < it_next_id t \<longrightarrow> row_ident q \<in> row_ident ` set (it_rows t))"

lemma extends_rows_refl [simp]: "extends_rows t t"
  by (simp add: extends_rows_def)

lemma extends_rows_trans: "extends_rows t u \<Longrightarrow> extends_rows u v \<Longrightarrow> extends_rows t v"
  unfolding extends_rows_def by (fastforce simp: row_ident_def)

lemma update_rows_extends:
  "(\<And>r. row_ident (f r) = row_ident r) \<Longrightarrow> extends_rows t (snd (update_rows p f t))"
  by (auto simp: extends_rows_def update_rows_def set_update_where)

lemma apply_op_extends: "extends_rows t (apply_op op t)"
proof (cases op)
  case (OpCreate d r)
  then show ?thesis by (auto simp: extends_rows_def CreateProcessing_sql_def Let_def)
next
  case (OpDelete n lim)
  have "it_next_id (snd (DeleteExpired_sql n lim t)) = it_next_id t"
    by (simp add: DeleteExpired_sql_def Let_def)
  with OpDelete DeleteExpired_rows [of n lim t] show ?thesis
    by (auto simp: extends_rows_def)
qed (auto simp: update_stmts intro!: update_rows_extends simp: row_ident_def idem_key_def)

lemma apply_ops_extends: "extends_rows t (apply_ops ops t)"
  unfolding apply_ops_def
  by (induction ops arbitrary: t) (auto intro: extends_rows_trans apply_op_extends)

lemma extends_rows_ident:
  assumes "extends_rows t t'" and "table_wf t" and "r \<in> set (it_rows t)"
    and "q \<in> set (it_rows t')" and "idr_ID q = idr_ID r"
  shows "row_ident q = row_ident r"
proof -
  from assms have "idr_ID q < it_next_id t" by (auto simp: table_wf_def)
  with assms(1,4) obtain q0 where q0: "q0 \<in> set (it_rows t)" "row_ident q = row_ident q0"
    by (auto simp: extends_rows_def)
  with assms(5) have "idr_ID q0 = idr_ID r" by (simp add: row_ident_def)
  with q0(1) assms(2,3) have "q0 = r" by (auto simp: table_wf_def intro: distinct_map_same)
  with q0(2) show ?thesis by simp
qed

section \<open>A row that is held\<close>

text \<open>\<open>held r s\<close>: the row is in the table and every operation the script lets other processes do
  is foreign to it. \<open>faultless s\<close>: no call of the script fails.\<close>

definition held :: "IdempotencyRecord \<Rightarrow> db_state \<Rightarrow> bool" where
  "held r s \<longleftrightarrow> table_wf (db_table s) \<and> row_of (db_table s) (idr_ID r) = Some r \<and>
     list_all (\<lambda>(ops, _). list_all (foreign_op r) ops) (db_turns s)"

definition faultless :: "db_state \<Rightarrow> bool" where
  "faultless s \<longleftrightarrow> list_all (\<lambda>(_, f). f = NoFault) (db_turns s)"

lemma held_turn:
  assumes "held r s"
  shows "table_wf (turn_table s)" and "row_of (turn_table s) (idr_ID r) = Some r"
proof -
  have "list_all (foreign_op r) (turn_ops s)"
    using assms by (auto simp: held_def turn_ops_def split: list.split)
  with assms show "table_wf (turn_table s)" and "row_of (turn_table s) (idr_ID r) = Some r"
    by (auto simp: held_def turn_table_def apply_ops_wf apply_ops_foreign)
qed

lemma held_call:
  assumes "held r s" and "sql_call stmt s = (res, s')"
    and "\<And>t. table_wf t \<Longrightarrow> row_of t (idr_ID r) = Some r \<Longrightarrow>
           table_wf (snd (stmt t)) \<and> row_of (snd (stmt t)) (idr_ID r) = Some r"
  shows "held r s'"
  using assms(1,2) assms(3) [OF held_turn [OF assms(1)]] held_turn [OF assms(1)]
  by (cases "db_turns s") (auto simp: held_def sql_call_eq Let_def split: sql_fault.splits)

lemma faultless_call:
  assumes "faultless s"
  shows "\<exists>s'. sql_call stmt s = (Inr (fst (stmt (turn_table s))), s') \<and> faultless s'"
  using assms
  by (cases "db_turns s") (auto simp: faultless_def sql_call_eq turn_fault_def Let_def)

lemma held_Create:
  "held r s \<Longrightarrow> idem_key rec = idem_key r \<Longrightarrow>
     fst (fst (CreateProcessing_sql d rec (turn_table s))) = False"
  by (drule held_turn(2), drule row_of_Some) (auto simp: CreateProcessing_sql_def Let_def)

lemma held_Get:
  "held r s \<Longrightarrow> idem_key r = (sc, k) \<Longrightarrow> GetByScopeAndKeyHash_sql sc k (turn_table s) = Some r"
  using held_turn [of r s] row_of_Some [of "turn_table s" "idr_ID r" r]
  by (auto intro: Get_mem)

end
