(* ===== verification/Go_Strings.thy ===== *)
theory Go_Strings
  imports Prelude
begin

text \<open>
  The parts of Go's \<open>strings\<close> and \<open>unicode/utf8\<close> packages that the gateway calls, on byte
  strings. \<open>trim_space\<close> is \<open>strings.TrimSpace\<close> (the ASCII and the Unicode white space of
  \<open>unicode.IsSpace\<close>, as byte sequences), \<open>to_lower\<close>/\<open>to_upper\<close> are \<open>strings.ToLower\<close> and
  \<open>strings.ToUpper\<close> on ASCII letters (bytes outside ASCII are left as they are), and
  \<open>valid_utf8\<close> is \<open>utf8.ValidString\<close>.
\<close>

section \<open>Definitions\<close>

definition byte :: "char \<Rightarrow> nat" where
  "byte c = of_char c"

text \<open>The encodings of the white-space runes: tab, newline, vertical tab, form feed, carriage
  return, space; U+0085, U+00A0; U+1680; U+2000 to U+200A; U+2028, U+2029, U+202F; U+205F;
  U+3000.\<close>

definition space_runes :: "string list" where
  "space_runes =
     map (\<lambda>n. [char_of (n::nat)]) [9, 10, 11, 12, 13, 32]
     @ map (\<lambda>n. [char_of (194::nat), char_of (n::nat)]) [133, 160]
     @ [[char_of (225::nat), char_of (154::nat), char_of (128::nat)]]
     @ map (\<lambda>n. [char_of (226::nat), char_of (128::nat), char_of (n::nat)])
         ([128..<139] @ [168, 169, 175])
     @ [[char_of (226::nat), char_of (129::nat), char_of (159::nat)],
        [char_of (227::nat), char_of (128::nat), char_of (128::nat)]]"

text \<open>The same list with its bytes written out, for evaluation.\<close>

lemma space_runes_code [code]:
  "space_runes =
     [[CHR 0x09],
      [CHR 0x0A],
      [CHR 0x0B],
      [CHR 0x0C],
      [CHR 0x0D],
      [CHR 0x20],
      [CHR 0xC2, CHR 0x85],
      [CHR 0xC2, CHR 0xA0],
      [CHR 0xE1, CHR 0x9A, CHR 0x80],
      [CHR 0xE2, CHR 0x80, CHR 0x80],
      [CHR 0xE2, CHR 0x80, CHR 0x81],
      [CHR 0xE2, CHR 0x80, CHR 0x82],
      [CHR 0xE2, CHR 0x80, CHR 0x83],
      [CHR 0xE2, CHR 0x80, CHR 0x84],
      [CHR 0xE2, CHR 0x80, CHR 0x85],
      [CHR 0xE2, CHR 0x80, CHR 0x86],
      [CHR 0xE2, CHR 0x80, CHR 0x87],
      [CHR 0xE2, CHR 0x80, CHR 0x88],
      [CHR 0xE2, CHR 0x80, CHR 0x89],
      [CHR 0xE2, CHR 0x80, CHR 0x8A],
      [CHR 0xE2, CHR 0x80, CHR 0xA8],
      [CHR 0xE2, CHR 0x80, CHR 0xA9],
      [CHR 0xE2, CHR 0x80, CHR 0xAF],
      [CHR 0xE2, CHR 0x81, CHR 0x9F],
      [CHR 0xE3, CHR 0x80, CHR 0x80]]"
  by code_simp

function strip_prefixes :: "string list \<Rightarrow> string \<Rightarrow> string" where
  "strip_prefixes ps s =
     (case List.find (\<lambda>p. p \<noteq> [] \<and> prefix p s) ps of
        None \<Rightarrow> s
      | Some p \<Rightarrow> strip_prefixes ps (drop (length p) s))"
  by pat_completeness auto
termination
proof (relation "measure (\<lambda>(ps, s). length s)", goal_cases)
  case 1
  show ?case by simp
next
  case (2 ps s p)
  then have "p \<noteq> [] \<and> prefix p s" by (auto dest: find_Some_in)
  then show ?case using prefix_length_le [of p s] by (cases p) auto
qed

declare strip_prefixes.simps [simp del]

definition trim_space :: "string \<Rightarrow> string" where
  "trim_space s =
     rev (strip_prefixes (map rev space_runes) (rev (strip_prefixes space_runes s)))"

definition lower_char :: "char \<Rightarrow> char" where
  "lower_char c = (if 65 \<le> byte c \<and> byte c \<le> 90 then char_of (byte c + 32) else c)"

definition upper_char :: "char \<Rightarrow> char" where
  "upper_char c = (if 97 \<le> byte c \<and> byte c \<le> 122 then char_of (byte c - 32) else c)"

definition to_lower :: "string \<Rightarrow> string" where
  "to_lower s = map lower_char s"

definition to_upper :: "string \<Rightarrow> string" where
  "to_upper s = map upper_char s"

text \<open>\<open>graphic\<close>: a printable ASCII character other than the space.\<close>

definition graphic :: "char \<Rightarrow> bool" where
  "graphic c = (33 \<le> byte c \<and> byte c \<le> 126)"

text \<open>\<open>rune_len\<close> is the length of the well-formed encoding at the start of a byte sequence, 0
  when there is none: Table 3-7 of the Unicode standard, which \<open>unicode/utf8\<close> implements.\<close>

definition cont_byte :: "nat \<Rightarrow> bool" where
  "cont_byte b = (128 \<le> b \<and> b \<le> 191)"

fun rune_len :: "nat list \<Rightarrow> nat" where
  "rune_len [] = 0"
| "rune_len (a # bs) =
     (if a < 128 then 1
      else if 194 \<le> a \<and> a \<le> 223 then
        (case bs of b # _ \<Rightarrow> if cont_byte b then 2 else 0 | _ \<Rightarrow> 0)
      else if 224 \<le> a \<and> a \<le> 239 then
        (case bs of b # c # _ \<Rightarrow>
           if cont_byte b \<and> cont_byte c \<and> (a = 224 \<longrightarrow> 160 \<le> b) \<and> (a = 237 \<longrightarrow> b \<le> 159)
           then 3 else 0
         | _ \<Rightarrow> 0)
      else if 240 \<le> a \<and> a \<le> 244 then
        (case bs of b # c # d # _ \<Rightarrow>
           if cont_byte b \<and> cont_byte c \<and> cont_byte d \<and>
              (a = 240 \<longrightarrow> 144 \<le> b) \<and> (a = 244 \<longrightarrow> b \<le> 143)
           then 4 else 0
         | _ \<Rightarrow> 0)
      else 0)"

function valid_bytes :: "nat list \<Rightarrow> bool" where
  "valid_bytes bs =
     (if bs = [] then True
      else if rune_len bs = 0 then False
      else valid_bytes (drop (rune_len bs) bs))"
  by pat_completeness auto
termination
  by (relation "measure length") auto

declare valid_bytes.simps [simp del]

definition valid_utf8 :: "string \<Rightarrow> bool" where
  "valid_utf8 s = valid_bytes (map byte s)"

section \<open>Trimming\<close>

lemma strip_prefixes_none:
  "(\<And>p. p \<in> set ps \<Longrightarrow> p \<noteq> [] \<Longrightarrow> \<not> prefix p s) \<Longrightarrow> strip_prefixes ps s = s"
  by (subst strip_prefixes.simps) (auto simp: find_None_iff split: option.split dest: find_Some_in)

lemma strip_prefixes_suffix: "suffix (strip_prefixes ps s) s"
proof (induction ps s rule: strip_prefixes.induct)
  case (1 ps s)
  then show ?case
    by (subst strip_prefixes.simps)
      (auto split: option.split intro: suffix_order.trans [OF _ suffix_drop])
qed

lemma set_trim_space: "set (trim_space s) \<subseteq> set s"
  using set_mono_suffix [OF strip_prefixes_suffix [of space_runes s]]
    set_mono_suffix [OF strip_prefixes_suffix
      [of "map rev space_runes" "rev (strip_prefixes space_runes s)"]]
  by (auto simp: trim_space_def)

lemma length_trim_space: "length (trim_space s) \<le> length s"
  using suffix_length_le [OF strip_prefixes_suffix [of space_runes s]]
    suffix_length_le [OF strip_prefixes_suffix
      [of "map rev space_runes" "rev (strip_prefixes space_runes s)"]]
  by (simp add: trim_space_def)

lemma trim_space_Nil [simp]: "trim_space [] = []"
  using length_trim_space [of "[]"] by simp

lemma graphic_iff: "graphic c \<longleftrightarrow> \<not> (byte c < 33 \<or> 126 < byte c)"
  by (auto simp: graphic_def)

lemma space_runes_not_graphic:
  "p \<in> set space_runes \<Longrightarrow> p \<noteq> [] \<and> \<not> graphic (hd p) \<and> \<not> graphic (last p)"
  by (auto simp: space_runes_def graphic_def byte_def)

text \<open>A string whose first and last characters are graphic is not changed by trimming.\<close>

lemma trim_space_graphic:
  assumes "s \<noteq> []" and "graphic (hd s)" and "graphic (last s)"
  shows "trim_space s = s"
proof -
  have "\<not> prefix p s" if "p \<in> set space_runes" for p
    using space_runes_not_graphic [OF that] assms by (cases p; cases s) auto
  then have "strip_prefixes space_runes s = s" by (intro strip_prefixes_none)
  moreover have "\<not> prefix p (rev s)" if "p \<in> set (map rev space_runes)" for p
  proof -
    from that obtain q where q: "q \<in> set space_runes" and p: "p = rev q" by auto
    from space_runes_not_graphic [OF q] have "p \<noteq> []" and "\<not> graphic (hd p)"
      by (auto simp: p hd_rev)
    then show ?thesis using assms by (cases p; cases "rev s") (auto simp: last_rev hd_rev [symmetric])
  qed
  then have "strip_prefixes (map rev space_runes) (rev s) = rev s" by (intro strip_prefixes_none)
  ultimately show ?thesis by (simp add: trim_space_def)
qed

lemma digit_graphic: "is_digit c \<Longrightarrow> graphic c"
  by (simp add: is_digit_def graphic_def byte_def)

lemma itoa_graphic:
  assumes "c \<in> set (itoa i)"
  shows "graphic c"
proof -
  from assms consider "c = CHR ''-''" | n where "c \<in> set (utoa n)"
    by (auto simp: itoa_def split: if_splits)
  then show ?thesis
  proof cases
    case 1
    then show ?thesis by (simp add: graphic_def byte_def)
  next
    case (2 n)
    then show ?thesis using utoa_digits [of n] by (simp add: digit_graphic)
  qed
qed

lemma trim_space_itoa [simp]: "trim_space (itoa i) = itoa i"
  by (rule trim_space_graphic) (auto intro!: itoa_graphic [of _ i])

section \<open>UTF-8\<close>

lemma rune_len_le: "rune_len bs \<le> length bs \<and> rune_len bs \<le> 4"
  by (cases bs) (auto split: list.split)

text \<open>The rune at the start of a sequence depends on its own bytes only.\<close>

lemma list_cases_upto4:
  obtains "xs = []" | a where "xs = [a]" | a b where "xs = [a, b]"
  | a b c where "xs = [a, b, c]" | a b c d r where "xs = a # b # c # d # r"
  by (metis list.exhaust)

lemma rune_len_append: "rune_len xs \<noteq> 0 \<Longrightarrow> rune_len (xs @ ys) = rune_len xs"
  by (cases xs rule: list_cases_upto4) (auto split: if_splits)

lemma rune_len_exact: "rune_len (take (rune_len bs) bs) = rune_len bs"
  by (cases bs rule: list_cases_upto4) auto

lemma rune_len_take:
  assumes "rune_len bs \<le> k" and "rune_len bs \<noteq> 0"
  shows "rune_len (take k bs) = rune_len bs"
proof -
  obtain d where "k = rune_len bs + d" using assms(1) by (auto simp: le_iff_add)
  then have "take k bs = take (rune_len bs) bs @ take d (drop (rune_len bs) bs)"
    by (simp add: take_add)
  with assms(2) show ?thesis by (simp add: rune_len_append rune_len_exact)
qed

lemma valid_bytes_Nil [simp]: "valid_bytes []"
  by (subst valid_bytes.simps) simp

lemma valid_bytes_step:
  "bs \<noteq> [] \<Longrightarrow> valid_bytes bs = (rune_len bs \<noteq> 0 \<and> valid_bytes (drop (rune_len bs) bs))"
  by (subst valid_bytes.simps) auto

lemma valid_bytes_take:
  "valid_bytes bs \<Longrightarrow> k \<le> length bs \<Longrightarrow>
     \<exists>j \<le> k. k - j < 4 \<and> valid_bytes (take j bs)"
proof (induction bs arbitrary: k rule: valid_bytes.induct)
  case (1 bs)
  let ?n = "rune_len bs"
  show ?case
  proof (cases "bs = [] \<or> k < ?n")
    case True
    then show ?thesis using "1.prems" rune_len_le [of bs] by (intro exI [of _ 0]) auto
  next
    case False
    with "1.prems" have n: "?n \<noteq> 0" and v: "valid_bytes (drop ?n bs)"
      by (auto simp: valid_bytes_step)
    from False "1.prems"(2) have "k - ?n \<le> length (drop ?n bs)" by simp
    with "1.IH" [of "k - ?n"] False n v obtain j where j: "j \<le> k - ?n" "k - ?n - j < 4"
      "valid_bytes (take j (drop ?n bs))" by auto
    have "rune_len (take (?n + j) bs) = ?n" using n by (intro rune_len_take) auto
    then have "valid_bytes (take (?n + j) bs)"
      using False n j(3) by (subst valid_bytes_step) (auto simp: drop_take)
    with j False show ?thesis by (intro exI [of _ "?n + j"]) auto
  qed
qed

lemma valid_utf8_take:
  "valid_utf8 s \<Longrightarrow> k \<le> length s \<Longrightarrow> \<exists>j \<le> k. k - j < 4 \<and> valid_utf8 (take j s)"
  using valid_bytes_take [of "map byte s" k] by (simp add: valid_utf8_def take_map)

section \<open>Searching, replacing, splitting\<close>

text \<open>\<open>strings.Contains\<close>, \<open>strings.ReplaceAll\<close> (for a non-empty old string; left to right, without
  overlaps), \<open>strings.Split\<close> at one character, \<open>strings.Fields\<close> (at white space), \<open>strings.Join\<close>;
  \<open>strings.HasPrefix\<close> and \<open>strings.HasSuffix\<close> are \<open>prefix\<close> and \<open>suffix\<close> of the library.\<close>

fun contains :: "string \<Rightarrow> string \<Rightarrow> bool" where
  "contains [] p = (p = [])"
| "contains (c # s) p = (prefix p (c # s) \<or> contains s p)"

function replace_all :: "string \<Rightarrow> string \<Rightarrow> string \<Rightarrow> string" where
  "replace_all old new s =
     (case s of [] \<Rightarrow> []
      | c # t \<Rightarrow> if old \<noteq> [] \<and> prefix old s then new @ replace_all old new (drop (length old) s)
                 else c # replace_all old new t)"
  by pat_completeness auto
termination
  by (relation "measure (\<lambda>(_, _, s). length s)") (auto simp: neq_Nil_conv)

declare replace_all.simps [simp del]

fun split_on :: "char \<Rightarrow> string \<Rightarrow> string list" where
  "split_on sep [] = [[]]"
| "split_on sep (c # s) =
     (if c = sep then [] # split_on sep s
      else case split_on sep s of [] \<Rightarrow> [[c]] | w # ws \<Rightarrow> (c # w) # ws)"

text \<open>\<open>fields_from w s\<close>: the fields of \<open>s\<close> when the characters of \<open>w\<close> (reversed) precede it.\<close>

function fields_from :: "string \<Rightarrow> string \<Rightarrow> string list" where
  "fields_from w s =
     (case List.find (\<lambda>p. p \<noteq> [] \<and> prefix p s) space_runes of
        Some p \<Rightarrow> (if w = [] then [] else [rev w]) @ fields_from [] (drop (length p) s)
      | None \<Rightarrow> (case s of [] \<Rightarrow> if w = [] then [] else [rev w] | c # t \<Rightarrow> fields_from (c # w) t))"
  by pat_completeness auto
termination
proof (relation "measure (\<lambda>(_, s). length s)", goal_cases)
  case (3 w s p)
  then have "p \<noteq> [] \<and> prefix p s" by (auto dest: find_Some_in)
  then show ?case using prefix_length_le [of p s] by (cases p) auto
qed auto

declare fields_from.simps [simp del]

definition string_fields :: "string \<Rightarrow> string list" where
  "string_fields s = fields_from [] s"

fun join :: "string \<Rightarrow> string list \<Rightarrow> string" where
  "join sep [] = []"
| "join sep [w] = w"
| "join sep (w # ws) = w @ sep @ join sep ws"

definition trim_prefix :: "string \<Rightarrow> string \<Rightarrow> string" where
  "trim_prefix p s = (if prefix p s then drop (length p) s else s)"

definition trim_suffix :: "string \<Rightarrow> string \<Rightarrow> string" where
  "trim_suffix p s = (if suffix p s then take (length s - length p) s else s)"

lemma contains_iff: "contains s p \<longleftrightarrow> (\<exists>u v. s = u @ p @ v)"
proof (induction s)
  case Nil
  then show ?case by auto
next
  case (Cons c s)
  show ?case
  proof
    assume "contains (c # s) p"
    then show "\<exists>u v. c # s = u @ p @ v"
      using Cons by (auto simp: prefix_def) (metis append_Cons append_Nil)+
  next
    assume "\<exists>u v. c # s = u @ p @ v"
    then obtain u v where "c # s = u @ p @ v" by auto
    then have "prefix p (c # s) \<or> (\<exists>u v. s = u @ p @ v)" by (cases u) (auto simp: prefix_def)
    then show "contains (c # s) p" using Cons by simp
  qed
qed

lemma length_replace_all:
  "length new \<le> length old \<Longrightarrow> length (replace_all old new s) \<le> length s"
proof (induction old new s rule: replace_all.induct)
  case (1 old new s)
  show ?case
  proof (cases s)
    case Nil
    then show ?thesis by (subst replace_all.simps) simp
  next
    case (Cons c t)
    show ?thesis
    proof (cases "old \<noteq> [] \<and> prefix old s")
      case True
      then have "length (replace_all old new (drop (length old) s)) \<le> length (drop (length old) s)"
        using 1 Cons by simp
      moreover have "length old \<le> length s" using True by (simp add: prefix_length_le)
      ultimately show ?thesis using True Cons 1(3) by (subst replace_all.simps) simp
    next
      case False
      then have "length (replace_all old new t) \<le> length t" using 1 Cons by simp
      then show ?thesis using False Cons by (subst replace_all.simps) auto
    qed
  qed
qed

text \<open>Replacing by a shorter string shortens a string that contains the old one.\<close>

lemma replace_all_shrinks:
  "length new < length old \<Longrightarrow> contains s old \<Longrightarrow> length (replace_all old new s) < length s"
proof (induction s)
  case Nil
  then show ?case by simp
next
  case (Cons c t)
  show ?case
  proof (cases "prefix old (c # t)")
    case True
    have "length (replace_all old new (drop (length old) (c # t))) \<le> length (drop (length old) (c # t))"
      using Cons.prems(1) by (intro length_replace_all) simp
    moreover have "length old \<le> length (c # t)" using True by (rule prefix_length_le)
    moreover have "old \<noteq> []" using Cons.prems(1) by auto
    ultimately show ?thesis using True Cons.prems(1) by (subst replace_all.simps) simp
  next
    case False
    then show ?thesis using Cons by (subst replace_all.simps) simp
  qed
qed

lemma to_lower_idem [simp]: "to_lower (to_lower s) = to_lower s"
proof -
  have "lower_char (lower_char c) = lower_char c" for c
  proof (cases "65 \<le> byte c \<and> byte c \<le> 90")
    case True
    then have "byte (char_of (byte c + 32)) = byte c + 32" by (simp add: byte_def)
    then show ?thesis using True by (simp add: lower_char_def)
  next
    case False
    then have "lower_char c = c" unfolding lower_char_def by (rule if_not_P)
    then show ?thesis by simp
  qed
  then show ?thesis by (simp add: to_lower_def)
qed

end
