(* ===== verification/Idempotency.thy ===== *)
theory Idempotency
  imports Idempotency_Repo Go_Strings "HOL-Library.Word"
begin

text \<open>
  The idempotency coordinator of \<open>service/idempotency.go\<close> with the counters of
  \<open>service/idempotency_observability.go\<close>.

  \<open>Execute\<close> runs over a world made of the repository's state, the application state the
  executor acts on, and the process-wide counters. The readings of \<open>time.Now()\<close> are the fields
  of an \<open>idem_clock\<close>. What the code takes from \<open>encoding/json\<close>, \<open>crypto/sha256\<close> and
  \<open>logredact.RedactText\<close> is the argument \<open>codec\<close>; the theorems that depend on it say how.
  Audit and metric log lines are not part of the model, the counters are.
\<close>

section \<open>Configuration, options, results\<close>

definition ErrIdempotencyKeyRequired :: go_error where
  "ErrIdempotencyKeyRequired = BadRequest ''IDEMPOTENCY_KEY_REQUIRED'' ''idempotency key is required''"
definition ErrIdempotencyKeyInvalid :: go_error where
  "ErrIdempotencyKeyInvalid = BadRequest ''IDEMPOTENCY_KEY_INVALID'' ''idempotency key is invalid''"
definition ErrIdempotencyKeyConflict :: go_error where
  "ErrIdempotencyKeyConflict =
     Conflict ''IDEMPOTENCY_KEY_CONFLICT'' ''idempotency key reused with different payload''"
definition ErrIdempotencyInProgress :: go_error where
  "ErrIdempotencyInProgress =
     Conflict ''IDEMPOTENCY_IN_PROGRESS'' ''idempotent request is still processing''"
definition ErrIdempotencyRetryBackoff :: go_error where
  "ErrIdempotencyRetryBackoff =
     Conflict ''IDEMPOTENCY_RETRY_BACKOFF'' ''idempotent request is in retry backoff window''"
definition ErrIdempotencyStoreUnavail :: go_error where
  "ErrIdempotencyStoreUnavail =
     ServiceUnavailable ''IDEMPOTENCY_STORE_UNAVAILABLE'' ''idempotency store unavailable''"
definition ErrIdempotencyInvalidPayload :: go_error where
  "ErrIdempotencyInvalidPayload =
     BadRequest ''IDEMPOTENCY_PAYLOAD_INVALID'' ''failed to normalize request payload''"

lemmas idem_errors =
  ErrIdempotencyKeyRequired_def ErrIdempotencyKeyInvalid_def ErrIdempotencyKeyConflict_def
  ErrIdempotencyInProgress_def ErrIdempotencyRetryBackoff_def ErrIdempotencyStoreUnavail_def
  ErrIdempotencyInvalidPayload_def

record IdempotencyConfig =
  ic_DefaultTTL :: duration
  ic_SystemOperationTTL :: duration
  ic_ProcessingTimeout :: duration
  ic_FailedRetryBackoff :: duration
  ic_MaxStoredResponseLen :: int
  ic_ObserveOnly :: bool

definition DefaultIdempotencyConfig :: IdempotencyConfig where
  "DefaultIdempotencyConfig =
     \<lparr>ic_DefaultTTL = 24 * Hour, ic_SystemOperationTTL = 1 * Hour,
      ic_ProcessingTimeout = 30 * Second, ic_FailedRetryBackoff = 5 * Second,
      ic_MaxStoredResponseLen = 64 * 1024, ic_ObserveOnly = True\<rparr>"

text \<open>The default coordinator is a package variable that may be unset (\<open>nil\<close>).\<close>

definition DefaultWriteIdempotencyTTL :: "IdempotencyConfig option \<Rightarrow> duration" where
  "DefaultWriteIdempotencyTTL coordinator =
     (case coordinator of
        Some cfg \<Rightarrow> if 0 < ic_DefaultTTL cfg then ic_DefaultTTL cfg
                    else ic_DefaultTTL DefaultIdempotencyConfig
      | None \<Rightarrow> ic_DefaultTTL DefaultIdempotencyConfig)"

definition DefaultSystemOperationIdempotencyTTL :: "IdempotencyConfig option \<Rightarrow> duration" where
  "DefaultSystemOperationIdempotencyTTL coordinator =
     (case coordinator of
        Some cfg \<Rightarrow> if 0 < ic_SystemOperationTTL cfg then ic_SystemOperationTTL cfg
                    else ic_SystemOperationTTL DefaultIdempotencyConfig
      | None \<Rightarrow> ic_SystemOperationTTL DefaultIdempotencyConfig)"

record 'p IdempotencyExecuteOptions =
  io_Scope :: string
  io_ActorScope :: string
  io_Method :: string
  io_Route :: string
  io_IdempotencyKey :: string
  io_Payload :: 'p
  io_TTL :: duration
  io_RequireKey :: bool

record 'd IdempotencyExecuteResult =
  ir_Data :: 'd
  ir_Replayed :: bool

record ('p, 'd) codec =
  cd_sha256hex :: "string \<Rightarrow> string"
  cd_marshalPayload :: "'p \<Rightarrow> go_error + string"
  cd_marshal :: "'d \<Rightarrow> go_error + string"
  cd_unmarshal :: "string \<Rightarrow> go_error + 'd"
  cd_emptyMap :: 'd
  cd_RedactText :: "string \<Rightarrow> string"

section \<open>Counters\<close>

record idempotencyMetrics =
  im_claimTotal :: "64 word"
  im_replayTotal :: "64 word"
  im_conflictTotal :: "64 word"
  im_retryBackoffTotal :: "64 word"
  im_processingDurationCount :: "64 word"
  im_processingDurationMicros :: "64 word"
  im_storeUnavailableTotal :: "64 word"

definition recordIdempotencyClaim :: "idempotencyMetrics \<Rightarrow> idempotencyMetrics" where
  "recordIdempotencyClaim m = m\<lparr>im_claimTotal := im_claimTotal m + 1\<rparr>"
definition recordIdempotencyReplay :: "idempotencyMetrics \<Rightarrow> idempotencyMetrics" where
  "recordIdempotencyReplay m = m\<lparr>im_replayTotal := im_replayTotal m + 1\<rparr>"
definition recordIdempotencyConflict :: "idempotencyMetrics \<Rightarrow> idempotencyMetrics" where
  "recordIdempotencyConflict m = m\<lparr>im_conflictTotal := im_conflictTotal m + 1\<rparr>"
definition recordIdempotencyRetryBackoff :: "idempotencyMetrics \<Rightarrow> idempotencyMetrics" where
  "recordIdempotencyRetryBackoff m = m\<lparr>im_retryBackoffTotal := im_retryBackoffTotal m + 1\<rparr>"
definition RecordIdempotencyStoreUnavailable :: "idempotencyMetrics \<Rightarrow> idempotencyMetrics" where
  "RecordIdempotencyStoreUnavailable m =
     m\<lparr>im_storeUnavailableTotal := im_storeUnavailableTotal m + 1\<rparr>"

definition recordIdempotencyProcessingDuration ::
  "duration \<Rightarrow> idempotencyMetrics \<Rightarrow> idempotencyMetrics" where
  "recordIdempotencyProcessingDuration d m =
     (let d = (if d < 0 then 0 else d)
      in m\<lparr>im_processingDurationCount := im_processingDurationCount m + 1,
           im_processingDurationMicros :=
             im_processingDurationMicros m + word_of_int (d sdiv 1000)\<rparr>)"

section \<open>Keys, fingerprints, retry hints\<close>

text \<open>The loop over the runes of the key refuses a rune outside 33 to 126; a byte of 128 or more
  belongs to such a rune, so the check is one on bytes.\<close>

definition NormalizeIdempotencyKey :: "string \<Rightarrow> go_error + string" where
  "NormalizeIdempotencyKey raw =
     (let key = trim_space raw
      in if key = '''' then Inr ''''
         else if 128 < length key then Inl ErrIdempotencyKeyInvalid
         else if \<exists>c \<in> set key. byte c < 33 \<or> 126 < byte c then Inl ErrIdempotencyKeyInvalid
         else Inr key)"

definition HashIdempotencyKey :: "('p, 'd) codec \<Rightarrow> string \<Rightarrow> string" where
  "HashIdempotencyKey cd key = cd_sha256hex cd key"

definition BuildIdempotencyFingerprint ::
  "('p, 'd) codec \<Rightarrow> string \<Rightarrow> string \<Rightarrow> string \<Rightarrow> 'p \<Rightarrow> go_error + string" where
  "BuildIdempotencyFingerprint cd method route actorScope payload =
     (let method = (if method = '''' then ''POST'' else method);
          route = (if route = '''' then ''/'' else route);
          actorScope = (if actorScope = '''' then ''anonymous'' else actorScope);
          nl = [char_of (10::nat)]
      in case cd_marshalPayload cd payload of
           Inl e \<Rightarrow> Inl (WithCause ErrIdempotencyInvalidPayload (Some e))
         | Inr raw \<Rightarrow> Inr (cd_sha256hex cd
             (to_upper method @ nl @ route @ nl @ actorScope @ nl @ raw)))"

definition RetryAfterSecondsFromError :: "go_error option \<Rightarrow> int" where
  "RetryAfterSecondsFromError err =
     (case err of None \<Rightarrow> 0
      | Some e \<Rightarrow> (case errors_As e of None \<Rightarrow> 0
        | Some ae \<Rightarrow> (case ae_Metadata ae of None \<Rightarrow> 0
          | Some md \<Rightarrow>
             (let v = trim_space (case md ''retry_after'' of None \<Rightarrow> '''' | Some x \<Rightarrow> x)
              in if v = '''' then 0
                 else case atoi v of None \<Rightarrow> 0
                   | Some seconds \<Rightarrow> if seconds \<le> 0 then 0 else seconds))))"

definition conflictWithRetryAfter :: "go_error \<Rightarrow> time option \<Rightarrow> time \<Rightarrow> go_error" where
  "conflictWithRetryAfter base lockedUntil now =
     (case lockedUntil of None \<Rightarrow> base
      | Some l \<Rightarrow> (let sec = (l - now) sdiv Second; sec = (if sec \<le> 0 then 1 else sec)
                   in WithMetadata base (Some [''retry_after'' \<mapsto> itoa sec])))"

section \<open>Stored responses\<close>

text \<open>The loop of \<open>truncateUTF8\<close>: the longest prefix of at most \<open>n\<close> bytes that is valid UTF-8.\<close>

fun truncate_loop :: "string \<Rightarrow> nat \<Rightarrow> nat" where
  "truncate_loop s 0 = 0"
| "truncate_loop s (Suc n) = (if valid_utf8 (take (Suc n) s) then Suc n else truncate_loop s n)"

definition truncateUTF8 :: "string \<Rightarrow> int \<Rightarrow> string" where
  "truncateUTF8 s maxBytes =
     (if maxBytes \<le> 0 \<or> int (length s) \<le> maxBytes then s
      else take (truncate_loop s (nat maxBytes)) s)"

definition marshalStoredResponse ::
  "('p, 'd) codec \<Rightarrow> IdempotencyConfig \<Rightarrow> 'd \<Rightarrow> go_error + string" where
  "marshalStoredResponse cd cfg data =
     (case cd_marshal cd data of
        Inl e \<Rightarrow> Inl e
      | Inr raw \<Rightarrow>
          (let redacted = cd_RedactText cd raw
           in Inr (if 0 < ic_MaxStoredResponseLen cfg \<and>
                      ic_MaxStoredResponseLen cfg < int (length redacted)
                   then truncateUTF8 redacted (ic_MaxStoredResponseLen cfg) @ ''...(truncated)''
                   else redacted)))"

definition decodeStoredResponse :: "('p, 'd) codec \<Rightarrow> string option \<Rightarrow> go_error + 'd" where
  "decodeStoredResponse cd stored =
     (case stored of
        None \<Rightarrow> Inr (cd_emptyMap cd)
      | Some b \<Rightarrow>
          if trim_space b = '''' then Inr (cd_emptyMap cd)
          else (case cd_unmarshal cd b of
                  Inl e \<Rightarrow> Inl (OtherError ''decode stored response'' (Some e))
                | Inr out \<Rightarrow> Inr out))"

section \<open>Execute\<close>

record ('s, 'w) idem_world =
  iw_repo :: 's
  iw_app :: 'w
  iw_metrics :: idempotencyMetrics

text \<open>The readings of the clock: at the start, when the executor is called, when its failure is
  handled, and when \<open>Execute\<close> returns.\<close>

record idem_clock =
  ck_now :: time
  ck_execStart :: time
  ck_failed :: time
  ck_end :: time

definition repo_call ::
  "('s \<Rightarrow> 'r \<times> 's) \<Rightarrow> ('s, 'w) idem_world \<Rightarrow> 'r \<times> ('s, 'w) idem_world" where
  "repo_call f w = (case f (iw_repo w) of (r, s) \<Rightarrow> (r, w\<lparr>iw_repo := s\<rparr>))"

abbreviation count_metric ::
  "(idempotencyMetrics \<Rightarrow> idempotencyMetrics) \<Rightarrow> ('s, 'w) idem_world \<Rightarrow> ('s, 'w) idem_world" where
  "count_metric f w \<equiv> w\<lparr>iw_metrics := f (iw_metrics w)\<rparr>"

text \<open>A store failure: counted, and returned as the 503 error with its cause.\<close>

abbreviation store_unavailable ::
  "go_error option \<Rightarrow> ('s, 'w) idem_world \<Rightarrow> (go_error + 'a) \<times> ('s, 'w) idem_world" where
  "store_unavailable cause w \<equiv>
     (Inl (WithCause ErrIdempotencyStoreUnavail cause),
      count_metric RecordIdempotencyStoreUnavailable w)"

text \<open>The switch on the status of an existing record: a replayed result (\<open>Inl\<close>) or the id of the
  record the caller now owns (\<open>Inr\<close>).\<close>

definition switchExisting ::
  "('p, 'd) codec \<Rightarrow> 's IdempotencyRepository \<Rightarrow> time \<Rightarrow> time \<Rightarrow> time \<Rightarrow> IdempotencyRecord
     \<Rightarrow> ('s, 'w) idem_world
     \<Rightarrow> (go_error + ('d IdempotencyExecuteResult + int)) \<times> ('s, 'w) idem_world" where
  "switchExisting cd repo now lockedUntil expiresAt existing w =
     (if idr_Status existing = IdempotencyStatusSucceeded then
        (case decodeStoredResponse cd (idr_ResponseBody existing) of
           Inl parseErr \<Rightarrow> store_unavailable (Some parseErr) w
         | Inr data \<Rightarrow> (Inr (Inl \<lparr>ir_Data = data, ir_Replayed = True\<rparr>),
                        count_metric recordIdempotencyReplay w))
      else if idr_Status existing = IdempotencyStatusProcessing then
        (Inl (conflictWithRetryAfter ErrIdempotencyInProgress (idr_LockedUntil existing) now),
         count_metric recordIdempotencyConflict w)
      else if idr_Status existing = IdempotencyStatusFailedRetryable then
        (if (case idr_LockedUntil existing of None \<Rightarrow> False | Some l \<Rightarrow> now < l) then
           (Inl (conflictWithRetryAfter ErrIdempotencyRetryBackoff (idr_LockedUntil existing) now),
            count_metric recordIdempotencyRetryBackoff (count_metric recordIdempotencyConflict w))
         else
           (case repo_call (TryReclaim repo (idr_ID existing) IdempotencyStatusFailedRetryable
                              now lockedUntil expiresAt) w of
              (Inl reclaimErr, w) \<Rightarrow> store_unavailable (Some reclaimErr) w
            | (Inr taken, w) \<Rightarrow>
                if \<not> taken then
                  (Inl (conflictWithRetryAfter ErrIdempotencyInProgress
                          (idr_LockedUntil existing) now),
                   count_metric recordIdempotencyConflict w)
                else (Inr (Inr (idr_ID existing)), count_metric recordIdempotencyClaim w)))
      else (Inl ErrIdempotencyKeyConflict, count_metric recordIdempotencyConflict w))"

text \<open>What a caller does that did not create the record: it reads the existing one, checks the
  fingerprint, takes the record over when it has expired, and otherwise goes by its status.\<close>

definition resolveExisting ::
  "('p, 'd) codec \<Rightarrow> 's IdempotencyRepository \<Rightarrow> string \<Rightarrow> string \<Rightarrow> string \<Rightarrow> time \<Rightarrow> time \<Rightarrow> time
     \<Rightarrow> ('s, 'w) idem_world
     \<Rightarrow> (go_error + ('d IdempotencyExecuteResult + int)) \<times> ('s, 'w) idem_world" where
  "resolveExisting cd repo scope keyHash fingerprint now lockedUntil expiresAt w =
     (case repo_call (GetByScopeAndKeyHash repo scope keyHash) w of
        (Inl getErr, w) \<Rightarrow> store_unavailable (Some getErr) w
      | (Inr None, w) \<Rightarrow>
          (Inl ErrIdempotencyStoreUnavail, count_metric RecordIdempotencyStoreUnavailable w)
      | (Inr (Some existing), w) \<Rightarrow>
          if idr_RequestFingerprint existing \<noteq> fingerprint then
            (Inl ErrIdempotencyKeyConflict, count_metric recordIdempotencyConflict w)
          else if idr_ExpiresAt existing \<le> now then
            (case repo_call (TryReclaim repo (idr_ID existing) (idr_Status existing)
                               now lockedUntil expiresAt) w of
               (Inl reclaimErr, w) \<Rightarrow> store_unavailable (Some reclaimErr) w
             | (Inr True, w) \<Rightarrow>
                 (Inr (Inr (idr_ID existing)), count_metric recordIdempotencyClaim w)
             | (Inr False, w) \<Rightarrow>
                 (case repo_call (GetByScopeAndKeyHash repo scope keyHash) w of
                    (Inl latestErr, w) \<Rightarrow> store_unavailable (Some latestErr) w
                  | (Inr None, w) \<Rightarrow>
                      (Inl ErrIdempotencyStoreUnavail,
                       count_metric RecordIdempotencyStoreUnavailable w)
                  | (Inr (Some latest), w) \<Rightarrow>
                      if idr_RequestFingerprint latest \<noteq> fingerprint then
                        (Inl ErrIdempotencyKeyConflict,
                         count_metric recordIdempotencyConflict w)
                      else switchExisting cd repo now lockedUntil expiresAt latest w))
          else switchExisting cd repo now lockedUntil expiresAt existing w)"

text \<open>The claim: create the record, or resolve the one that is there.\<close>

definition claimRecord ::
  "('p, 'd) codec \<Rightarrow> 's IdempotencyRepository \<Rightarrow> string \<Rightarrow> string \<Rightarrow> string \<Rightarrow> time \<Rightarrow> time \<Rightarrow> time
     \<Rightarrow> ('s, 'w) idem_world
     \<Rightarrow> (go_error + ('d IdempotencyExecuteResult + int)) \<times> ('s, 'w) idem_world" where
  "claimRecord cd repo scope keyHash fingerprint now lockedUntil expiresAt w =
     (let record = \<lparr>idr_ID = 0, idr_Scope = scope, idr_IdempotencyKeyHash = keyHash,
                    idr_RequestFingerprint = fingerprint,
                    idr_Status = IdempotencyStatusProcessing, idr_ResponseStatus = None,
                    idr_ResponseBody = None, idr_ErrorReason = None,
                    idr_LockedUntil = Some lockedUntil, idr_ExpiresAt = expiresAt,
                    idr_CreatedAt = 0, idr_UpdatedAt = 0\<rparr>
      in case repo_call (CreateProcessing repo record) w of
           (Inl e, w) \<Rightarrow> store_unavailable (Some e) w
         | (Inr (owner, record), w) \<Rightarrow>
             if owner then (Inr (Inr (idr_ID record)), count_metric recordIdempotencyClaim w)
             else resolveExisting cd repo scope keyHash fingerprint now lockedUntil expiresAt w)"

text \<open>The owner of a record runs the executor and stores its outcome.\<close>

definition executeClaimed ::
  "('p, 'd) codec \<Rightarrow> 's IdempotencyRepository \<Rightarrow> IdempotencyConfig \<Rightarrow> idem_clock \<Rightarrow> time
     \<Rightarrow> ('w \<Rightarrow> (go_error + 'd) \<times> 'w) \<Rightarrow> int \<Rightarrow> ('s, 'w) idem_world
     \<Rightarrow> (go_error + 'd IdempotencyExecuteResult) \<times> ('s, 'w) idem_world" where
  "executeClaimed cd repo cfg ck expiresAt execute rid w =
     (if rid = 0 then
        (Inl ErrIdempotencyStoreUnavail, count_metric RecordIdempotencyStoreUnavailable w)
      else
        let (outcome, app) = execute (iw_app w);
            w = w\<lparr>iw_app := app\<rparr>;
            (res, w) =
              (case outcome of
                 Inl execErr \<Rightarrow>
                   (let backoffUntil = ck_failed ck + ic_FailedRetryBackoff cfg;
                        reason = Reason (Some execErr);
                        reason = (if reason = '''' then ''EXECUTION_FAILED'' else reason);
                        w = count_metric recordIdempotencyRetryBackoff w
                    in case repo_call (MarkFailedRetryable repo rid reason backoffUntil expiresAt) w of
                         (Some _, w) \<Rightarrow> (Inl execErr, count_metric RecordIdempotencyStoreUnavailable w)
                       | (None, w) \<Rightarrow> (Inl execErr, w))
               | Inr data \<Rightarrow>
                   (case marshalStoredResponse cd cfg data of
                      Inl marshalErr \<Rightarrow> store_unavailable (Some marshalErr) w
                    | Inr storedBody \<Rightarrow>
                        (case repo_call (MarkSucceeded repo rid 200 storedBody expiresAt) w of
                           (Some markErr, w) \<Rightarrow> store_unavailable (Some markErr) w
                         | (None, w) \<Rightarrow> (Inr \<lparr>ir_Data = data, ir_Replayed = False\<rparr>, w))))
        in (res, count_metric
                   (recordIdempotencyProcessingDuration (ck_end ck - ck_execStart ck)) w))"

definition execTTL :: "IdempotencyConfig \<Rightarrow> 'p IdempotencyExecuteOptions \<Rightarrow> duration" where
  "execTTL cfg opts = (if io_TTL opts \<le> 0 then ic_DefaultTTL cfg else io_TTL opts)"

definition Execute ::
  "('p, 'd) codec \<Rightarrow> 's IdempotencyRepository option \<Rightarrow> IdempotencyConfig
     \<Rightarrow> 'p IdempotencyExecuteOptions \<Rightarrow> idem_clock \<Rightarrow> ('w \<Rightarrow> (go_error + 'd) \<times> 'w) option
     \<Rightarrow> ('s, 'w) idem_world
     \<Rightarrow> (go_error + 'd IdempotencyExecuteResult) \<times> ('s, 'w) idem_world" where
  "Execute cd repo cfg opts ck execute w =
     (case execute of
        None \<Rightarrow> (Inl (InternalServer ''IDEMPOTENCY_EXECUTOR_NIL'' ''idempotency executor is nil''), w)
      | Some ex \<Rightarrow>
     (case NormalizeIdempotencyKey (io_IdempotencyKey opts) of
        Inl e \<Rightarrow> (Inl e, w)
      | Inr key \<Rightarrow>
     if key = '''' then
       (if io_RequireKey opts \<and> \<not> ic_ObserveOnly cfg then (Inl ErrIdempotencyKeyRequired, w)
        else (case ex (iw_app w) of
                (Inl execErr, app) \<Rightarrow> (Inl execErr, w\<lparr>iw_app := app\<rparr>)
              | (Inr data, app) \<Rightarrow> (Inr \<lparr>ir_Data = data, ir_Replayed = False\<rparr>, w\<lparr>iw_app := app\<rparr>)))
     else (case repo of
        None \<Rightarrow> (Inl ErrIdempotencyStoreUnavail, count_metric RecordIdempotencyStoreUnavailable w)
      | Some rp \<Rightarrow>
     if io_Scope opts = '''' then
       (Inl (BadRequest ''IDEMPOTENCY_SCOPE_REQUIRED'' ''idempotency scope is required''), w)
     else (case BuildIdempotencyFingerprint cd (io_Method opts) (io_Route opts)
                  (io_ActorScope opts) (io_Payload opts) of
        Inl e \<Rightarrow> (Inl e, w)
      | Inr fingerprint \<Rightarrow>
          let now = ck_now ck;
              expiresAt = now + execTTL cfg opts;
              lockedUntil = now + ic_ProcessingTimeout cfg;
              keyHash = HashIdempotencyKey cd key
          in case claimRecord cd rp (io_Scope opts) keyHash fingerprint now lockedUntil expiresAt w of
               (Inl e, w) \<Rightarrow> (Inl e, w)
             | (Inr (Inl replayed), w) \<Rightarrow> (Inr replayed, w)
             | (Inr (Inr rid), w) \<Rightarrow> executeClaimed cd rp cfg ck expiresAt ex rid w))))"

section \<open>Lemmas\<close>

lemma repo_call_eq:
  "repo_call f w = (fst (f (iw_repo w)), w\<lparr>iw_repo := snd (f (iw_repo w))\<rparr>)"
  by (simp add: repo_call_def split: prod.split)

lemma repo_fields:
  "CreateProcessing idempotencyRepository rec s = sql_call (CreateProcessing_sql (db_clock s) rec) s"
  "GetByScopeAndKeyHash idempotencyRepository sc k s =
     sql_call (\<lambda>t. (GetByScopeAndKeyHash_sql sc k t, t)) s"
  "TryReclaim idempotencyRepository i st n l e s =
     sql_call (TryReclaim_sql (db_clock s) i st n l e) s"
  "ExtendProcessingLock idempotencyRepository i fp l e s =
     sql_call (ExtendProcessingLock_sql (db_clock s) i fp l e) s"
  "MarkSucceeded idempotencyRepository i c b e s =
     sql_error (sql_call (MarkSucceeded_sql (db_clock s) i c b e) s)"
  "MarkFailedRetryable idempotencyRepository i rs l e s =
     sql_error (sql_call (MarkFailedRetryable_sql (db_clock s) i rs l e) s)"
  by (simp_all add: idempotencyRepository_def)

subsection \<open>A request with a key\<close>

text \<open>The request has a valid key with hash \<open>keyHash\<close>, a scope and the fingerprint \<open>fp\<close>.\<close>

definition keyed_request ::
  "('p, 'd) codec \<Rightarrow> 'p IdempotencyExecuteOptions \<Rightarrow> string \<Rightarrow> string \<Rightarrow> bool" where
  "keyed_request cd opts keyHash fp \<longleftrightarrow>
     (case NormalizeIdempotencyKey (io_IdempotencyKey opts) of
        Inl _ \<Rightarrow> False
      | Inr key \<Rightarrow> key \<noteq> '''' \<and> HashIdempotencyKey cd key = keyHash) \<and>
     io_Scope opts \<noteq> '''' \<and>
     BuildIdempotencyFingerprint cd (io_Method opts) (io_Route opts) (io_ActorScope opts)
       (io_Payload opts) = Inr fp"

lemma Execute_keyed:
  assumes "keyed_request cd opts keyHash fp"
  shows "Execute cd (Some rp) cfg opts ck (Some ex) w =
    (case claimRecord cd rp (io_Scope opts) keyHash fp (ck_now ck)
            (ck_now ck + ic_ProcessingTimeout cfg) (ck_now ck + execTTL cfg opts) w of
       (Inl e, w) \<Rightarrow> (Inl e, w)
     | (Inr (Inl replayed), w) \<Rightarrow> (Inr replayed, w)
     | (Inr (Inr rid), w) \<Rightarrow> executeClaimed cd rp cfg ck (ck_now ck + execTTL cfg opts) ex rid w)"
  using assms by (auto simp: keyed_request_def Execute_def Let_def split: sum.splits)

subsection \<open>A record that is held\<close>

lemma held_Create_call:
  assumes "held r s" and "idem_key rec = idem_key r"
  shows "\<exists>s'. held r s' \<and> (faultless s \<longrightarrow> faultless s') \<and>
    (sql_call (CreateProcessing_sql d rec) s = (Inr (False, rec), s') \<or>
     (\<not> faultless s \<and> (\<exists>e. sql_call (CreateProcessing_sql d rec) s = (Inl e, s'))))"
proof -
  obtain res s' where c: "sql_call (CreateProcessing_sql d rec) s = (res, s')" by fastforce
  have h: "held r s'"
    using assms(1) c by (rule held_call) (simp add: CreateProcessing_wf CreateProcessing_row_of)
  have v: "fst (CreateProcessing_sql d rec (turn_table s)) = (False, rec)"
    using held_Create [OF assms, of d] by (auto simp: CreateProcessing_sql_def Let_def split: if_splits)
  show ?thesis
  proof (cases "faultless s")
    case True
    with faultless_call [OF this, of "CreateProcessing_sql d rec"] c h v show ?thesis by auto
  next
    case False
    with c h v show ?thesis by (cases res) (auto dest: sql_call_Inr)
  qed
qed

lemma held_Get_call:
  assumes "held r s" and "idem_key r = (sc, k)"
  shows "\<exists>s'. held r s' \<and> (faultless s \<longrightarrow> faultless s') \<and>
    (sql_call (\<lambda>t. (GetByScopeAndKeyHash_sql sc k t, t)) s = (Inr (Some r), s') \<or>
     (\<not> faultless s \<and> (\<exists>e. sql_call (\<lambda>t. (GetByScopeAndKeyHash_sql sc k t, t)) s = (Inl e, s'))))"
proof -
  let ?st = "\<lambda>t. (GetByScopeAndKeyHash_sql sc k t, t)"
  obtain res s' where c: "sql_call ?st s = (res, s')" by fastforce
  have h: "held r s'" using assms(1) c by (rule held_call) simp
  have v: "fst (?st (turn_table s)) = Some r" using held_Get [OF assms] by simp
  show ?thesis
  proof (cases "faultless s")
    case True
    with faultless_call [OF this, of ?st] c h v show ?thesis by auto
  next
    case False
    with c h v show ?thesis by (cases res) (auto dest: sql_call_Inr)
  qed
qed

text \<open>While a record is held and has not expired, a claim comes down to the switch on its status,
  or to a store failure, and never touches the application.\<close>

lemma claimRecord_held:
  assumes held: "held r (iw_repo w)" and key: "idem_key r = (scope, keyHash)"
    and live: "now < idr_ExpiresAt r"
    and claim_def: "claim = claimRecord cd idempotencyRepository scope keyHash fp now lu ex w"
  shows "\<exists>s'. held r s' \<and> (faultless (iw_repo w) \<longrightarrow> faultless s') \<and>
    (claim = (if idr_RequestFingerprint r \<noteq> fp
              then (Inl ErrIdempotencyKeyConflict,
                    count_metric recordIdempotencyConflict (w\<lparr>iw_repo := s'\<rparr>))
              else switchExisting cd idempotencyRepository now lu ex r (w\<lparr>iw_repo := s'\<rparr>)) \<or>
     (\<not> faultless (iw_repo w) \<and> (\<exists>e. claim = store_unavailable (Some e) (w\<lparr>iw_repo := s'\<rparr>))))"
proof -
  let ?rec = "\<lparr>idr_ID = 0, idr_Scope = scope, idr_IdempotencyKeyHash = keyHash,
      idr_RequestFingerprint = fp, idr_Status = IdempotencyStatusProcessing,
      idr_ResponseStatus = None, idr_ResponseBody = None, idr_ErrorReason = None,
      idr_LockedUntil = Some lu, idr_ExpiresAt = ex, idr_CreatedAt = 0, idr_UpdatedAt = 0\<rparr>"
  let ?s = "iw_repo w" and ?d = "db_clock (iw_repo w)"
  have k: "idem_key ?rec = idem_key r" using key by (simp add: idem_key_def)
  from held_Create_call [OF held k, of ?d] obtain s1 where s1: "held r s1"
    "faultless ?s \<longrightarrow> faultless s1"
    "sql_call (CreateProcessing_sql ?d ?rec) ?s = (Inr (False, ?rec), s1) \<or>
     (\<not> faultless ?s \<and> (\<exists>e. sql_call (CreateProcessing_sql ?d ?rec) ?s = (Inl e, s1)))" by blast
  from held_Get_call [OF s1(1) key] obtain s2 where s2: "held r s2" "faultless s1 \<longrightarrow> faultless s2"
    "sql_call (\<lambda>t. (GetByScopeAndKeyHash_sql scope keyHash t, t)) s1 = (Inr (Some r), s2) \<or>
     (\<not> faultless s1 \<and>
      (\<exists>e. sql_call (\<lambda>t. (GetByScopeAndKeyHash_sql scope keyHash t, t)) s1 = (Inl e, s2)))" by blast
  from s1(3) show ?thesis
  proof
    assume c: "sql_call (CreateProcessing_sql ?d ?rec) ?s = (Inr (False, ?rec), s1)"
    show ?thesis
      using s1(1,2) s2 c live unfolding claim_def claimRecord_def resolveExisting_def
      by (intro exI [of _ s2]) (auto simp: repo_call_eq repo_fields Let_def)
  next
    assume "\<not> faultless ?s \<and> (\<exists>e. sql_call (CreateProcessing_sql ?d ?rec) ?s = (Inl e, s1))"
    then show ?thesis
      using s1(1) unfolding claim_def claimRecord_def
      by (intro exI [of _ s1]) (auto simp: repo_call_eq repo_fields Let_def)
  qed
qed

text \<open>The statuses that keep a live record from being executed again.\<close>

definition blocks :: "time \<Rightarrow> IdempotencyRecord \<Rightarrow> bool" where
  "blocks now r \<longleftrightarrow> now < idr_ExpiresAt r \<and>
     (idr_Status r = IdempotencyStatusProcessing \<or> idr_Status r = IdempotencyStatusSucceeded \<or>
      (idr_Status r = IdempotencyStatusFailedRetryable \<and>
       (case idr_LockedUntil r of None \<Rightarrow> False | Some l \<Rightarrow> now < l)))"

lemma switchExisting_blocked:
  assumes "blocks now r"
  shows "iw_app (snd (switchExisting cd repo now lu ex r w)) = iw_app w \<and>
         (\<forall>rid. fst (switchExisting cd repo now lu ex r w) \<noteq> Inr (Inr rid))"
  using assms by (auto simp: switchExisting_def blocks_def idem_status_defs split: sum.split)

lemma Execute_blocked_aux:
  assumes "keyed_request cd opts keyHash fp" and "held r (iw_repo w)"
    and "idem_key r = (io_Scope opts, keyHash)" and "blocks (ck_now ck) r"
  shows "iw_app (snd (Execute cd (Some idempotencyRepository) cfg opts ck (Some ex) w)) = iw_app w"
proof -
  let ?now = "ck_now ck" and ?lu = "ck_now ck + ic_ProcessingTimeout cfg"
    and ?ex = "ck_now ck + execTTL cfg opts"
  let ?c = "claimRecord cd idempotencyRepository (io_Scope opts) keyHash fp ?now ?lu ?ex w"
  have live: "?now < idr_ExpiresAt r" using assms(4) by (simp add: blocks_def)
  have "iw_app (snd ?c) = iw_app w \<and> (\<forall>rid. fst ?c \<noteq> Inr (Inr rid))"
    using claimRecord_held [OF assms(2,3) live refl, of cd fp ?lu ?ex]
    by (auto split: if_splits simp: switchExisting_blocked [OF assms(4)])
  then show ?thesis
    unfolding Execute_keyed [OF assms(1)] by (auto split: prod.split sum.split)
qed

subsection \<open>A claim\<close>

text \<open>The row a successful claim leaves behind: it belongs to the request's key and fingerprint,
  is being processed, and is locked and kept as long as the claimant asked.\<close>

definition claimed_row ::
  "string \<Rightarrow> string \<Rightarrow> string \<Rightarrow> time \<Rightarrow> time \<Rightarrow> int \<Rightarrow> idem_table \<Rightarrow> bool" where
  "claimed_row scope keyHash fp lu ex rid t \<longleftrightarrow>
     (\<exists>q. row_of t rid = Some q \<and> rid \<noteq> 0 \<and> idem_key q = (scope, keyHash) \<and>
          idr_RequestFingerprint q = fp \<and> idr_Status q = IdempotencyStatusProcessing \<and>
          idr_LockedUntil q = Some lu \<and> idr_ExpiresAt q = ex)"

lemma Create_claims:
  assumes wf: "table_wf t" and own: "CreateProcessing_sql d rec t = ((True, rec'), t')"
    and st: "idr_Status rec = IdempotencyStatusProcessing" and lu: "idr_LockedUntil rec = Some lu"
  shows "claimed_row (idr_Scope rec) (idr_IdempotencyKeyHash rec) (idr_RequestFingerprint rec) lu
           (idr_ExpiresAt rec) (idr_ID rec') t'"
proof -
  have fresh: "List.find (\<lambda>r. idr_ID r = it_next_id t) (it_rows t) = None"
    using wf by (auto simp: find_None_iff table_wf_def)
  show ?thesis
    using own st lu wf find_append_None [OF fresh]
    by (auto simp: CreateProcessing_sql_def Let_def claimed_row_def row_of_def idem_key_def
        table_wf_def split: if_splits)
qed

lemma TryReclaim_claims:
  assumes wf: "table_wf t0" and ext: "extends_rows t0 t" and wft: "table_wf t"
    and r: "r \<in> set (it_rows t0)" and key: "idem_key r = (scope, keyHash)"
    and fp: "idr_RequestFingerprint r = fp"
    and taken: "TryReclaim_sql d (idr_ID r) st now lu ex t = (True, t')"
  shows "claimed_row scope keyHash fp lu ex (idr_ID r) t'"
proof -
  from taken obtain q where q: "q \<in> set (it_rows t)" "idr_ID q = idr_ID r" "idr_Status q = st"
    "case idr_LockedUntil q of None \<Rightarrow> True | Some l \<Rightarrow> l \<le> now"
    by (auto simp: TryReclaim_sql_def update_rows_def)
  have "row_of t (idr_ID r) = Some q" using row_of_mem [OF wft q(1)] q(2) by simp
  moreover have "row_ident q = row_ident r" by (rule extends_rows_ident [OF ext wf r q(1,2)])
  moreover have "t' = snd (TryReclaim_sql d (idr_ID r) st now lu ex t)" using taken by simp
  moreover have "idr_ID r \<noteq> 0" using wf r by (auto simp: table_wf_def)
  ultimately show ?thesis
    using q key fp
    by (auto simp: claimed_row_def TryReclaim_sql_def update_rows_row_of row_ident_def idem_key_def)
qed

lemma sql_call_table:
  "table_wf (db_table s) \<Longrightarrow> sql_call stmt s = (Inr r, s') \<Longrightarrow>
     \<exists>t. extends_rows (db_table s) t \<and> table_wf t \<and> stmt t = (r, db_table s')"
  by (drule sql_call_Inr)
    (auto simp: turn_table_def intro!: exI [of _ "turn_table s"] apply_ops_extends apply_ops_wf)

lemma Get_call_row:
  assumes "table_wf (db_table s)"
    and "sql_call (\<lambda>t. (GetByScopeAndKeyHash_sql sc k t, t)) s = (Inr (Some r), s')"
  shows "table_wf (db_table s') \<and> r \<in> set (it_rows (db_table s')) \<and> idem_key r = (sc, k)"
  using sql_call_table [OF assms] by (auto dest: Get_Some)

lemma Reclaim_call_claims:
  assumes "table_wf (db_table s)" and "r \<in> set (it_rows (db_table s))"
    and "idem_key r = (scope, keyHash)" and "idr_RequestFingerprint r = fp"
    and "sql_call (TryReclaim_sql d (idr_ID r) st now lu ex) s = (Inr True, s')"
  shows "claimed_row scope keyHash fp lu ex (idr_ID r) (db_table s')"
  using sql_call_table [OF assms(1,5)] TryReclaim_claims [OF assms(1) _ _ assms(2-4)] by blast

lemma Reclaim_call_wf:
  assumes "table_wf (db_table s)" and "sql_call (TryReclaim_sql d i st now lu ex) s = (res, s')"
  shows "table_wf (db_table s')"
  using sql_call_wf [of "TryReclaim_sql d i st now lu ex", OF _ assms(1)] assms(2)
  by (simp add: TryReclaim_sql_def update_rows_wf)

lemma switchExisting_claims:
  assumes "table_wf (db_table (iw_repo w))" and "r \<in> set (it_rows (db_table (iw_repo w)))"
    and "idem_key r = (scope, keyHash)" and "idr_RequestFingerprint r = fp"
    and "switchExisting cd idempotencyRepository now lu ex r w = (Inr (Inr rid), w')"
  shows "claimed_row scope keyHash fp lu ex rid (db_table (iw_repo w')) \<and> iw_app w' = iw_app w"
  using assms(5) Reclaim_call_claims [OF assms(1-4)]
  by (auto simp: switchExisting_def repo_call_eq repo_fields prod_eq_iff
      split: if_splits sum.splits prod.splits)

lemma resolveExisting_claims:
  assumes wf: "table_wf (db_table (iw_repo w))"
    and c: "resolveExisting cd idempotencyRepository scope keyHash fp now lu ex w = (Inr (Inr rid), w')"
  shows "claimed_row scope keyHash fp lu ex rid (db_table (iw_repo w')) \<and> iw_app w' = iw_app w"
proof -
  let ?get = "\<lambda>t. (GetByScopeAndKeyHash_sql scope keyHash t, t)"
  from c obtain r s1 where g: "sql_call ?get (iw_repo w) = (Inr (Some r), s1)"
    by (auto simp: resolveExisting_def repo_call_eq repo_fields prod_eq_iff
        split: sum.splits option.splits)
  note r = Get_call_row [OF wf g]
  from c g have fp: "idr_RequestFingerprint r = fp"
    by (auto simp: resolveExisting_def repo_call_eq repo_fields split: if_splits)
  show ?thesis
  proof (cases "idr_ExpiresAt r \<le> now")
    case False
    with c g fp r show ?thesis
      using switchExisting_claims [of "w\<lparr>iw_repo := s1\<rparr>" r scope keyHash fp cd now lu ex rid w']
      by (auto simp: resolveExisting_def repo_call_eq repo_fields)
  next
    case expired: True
    obtain res s2 where t: "sql_call (TryReclaim_sql (db_clock s1) (idr_ID r) (idr_Status r) now lu ex) s1
        = (res, s2)" by fastforce
    have wf2: "table_wf (db_table s2)" using r t by (auto intro: Reclaim_call_wf)
    from c g fp expired t obtain taken where res: "res = Inr taken"
      by (auto simp: resolveExisting_def repo_call_eq repo_fields split: sum.splits)
    show ?thesis
    proof (cases taken)
      case True
      with c g fp expired t res r Reclaim_call_claims [of s1 r scope keyHash fp _ _ now lu ex s2]
      show ?thesis by (auto simp: resolveExisting_def repo_call_eq repo_fields)
    next
      case False
      from c g fp expired t res False obtain r2 s3 where
        g2: "sql_call ?get s2 = (Inr (Some r2), s3)" and fp2: "idr_RequestFingerprint r2 = fp"
        by (auto simp: resolveExisting_def repo_call_eq repo_fields prod_eq_iff
            split: sum.splits option.splits if_splits)
      with c g fp expired t res False Get_call_row [OF wf2 g2] show ?thesis
        using switchExisting_claims [of "w\<lparr>iw_repo := s3\<rparr>" r2 scope keyHash fp cd now lu ex rid w']
        by (auto simp: resolveExisting_def repo_call_eq repo_fields)
    qed
  qed
qed

lemma claimRecord_claims_aux:
  assumes wf: "table_wf (db_table (iw_repo w))"
    and c: "claimRecord cd idempotencyRepository scope keyHash fp now lu ex w = (Inr (Inr rid), w')"
  shows "claimed_row scope keyHash fp lu ex rid (db_table (iw_repo w')) \<and> iw_app w' = iw_app w"
proof -
  let ?rec = "\<lparr>idr_ID = 0, idr_Scope = scope, idr_IdempotencyKeyHash = keyHash,
      idr_RequestFingerprint = fp, idr_Status = IdempotencyStatusProcessing,
      idr_ResponseStatus = None, idr_ResponseBody = None, idr_ErrorReason = None,
      idr_LockedUntil = Some lu, idr_ExpiresAt = ex, idr_CreatedAt = 0, idr_UpdatedAt = 0\<rparr>"
  let ?st = "CreateProcessing_sql (db_clock (iw_repo w)) ?rec"
  from c obtain own rec' s1 where cr: "sql_call ?st (iw_repo w) = (Inr (own, rec'), s1)"
    by (auto simp: claimRecord_def repo_call_eq repo_fields Let_def prod_eq_iff split: sum.splits)
  from sql_call_table [OF wf cr] obtain t where t: "table_wf t" "?st t = ((own, rec'), db_table s1)"
    by blast
  show ?thesis
  proof (cases own)
    case True
    with c cr t Create_claims [of t _ ?rec rec' "db_table s1" lu] show ?thesis
      by (auto simp: claimRecord_def repo_call_eq repo_fields Let_def)
  next
    case False
    moreover have "table_wf (db_table s1)" using CreateProcessing_wf [OF t(1)] t(2) by (metis snd_conv)
    ultimately show ?thesis
      using c cr resolveExisting_claims [of "w\<lparr>iw_repo := s1\<rparr>" cd scope keyHash fp now lu ex rid w']
      by (auto simp: claimRecord_def repo_call_eq repo_fields Let_def)
  qed
qed

subsection \<open>Outcomes without interference\<close>

lemma Execute_fresh:
  assumes key: "keyed_request cd opts keyHash fp" and wf: "table_wf (db_table (iw_repo w))"
    and quiet: "db_turns (iw_repo w) = []"
    and absent: "GetByScopeAndKeyHash_sql (io_Scope opts) keyHash (db_table (iw_repo w)) = None"
  obtains rid s where
    "Execute cd (Some idempotencyRepository) cfg opts ck (Some ex) w =
       executeClaimed cd idempotencyRepository cfg ck (ck_now ck + execTTL cfg opts) ex rid
         (count_metric recordIdempotencyClaim (w\<lparr>iw_repo := s\<rparr>))"
    "claimed_row (io_Scope opts) keyHash fp (ck_now ck + ic_ProcessingTimeout cfg)
       (ck_now ck + execTTL cfg opts) rid (db_table s)"
    "table_wf (db_table s)" "db_turns s = []"
proof -
  let ?lu = "ck_now ck + ic_ProcessingTimeout cfg" and ?ex = "ck_now ck + execTTL cfg opts"
  let ?rec = "\<lparr>idr_ID = 0, idr_Scope = io_Scope opts, idr_IdempotencyKeyHash = keyHash,
      idr_RequestFingerprint = fp, idr_Status = IdempotencyStatusProcessing,
      idr_ResponseStatus = None, idr_ResponseBody = None, idr_ErrorReason = None,
      idr_LockedUntil = Some ?lu, idr_ExpiresAt = ?ex, idr_CreatedAt = 0, idr_UpdatedAt = 0\<rparr>"
  let ?s = "iw_repo w"
  let ?cr = "CreateProcessing_sql (db_clock ?s) ?rec (db_table ?s)"
  have "\<not> (\<exists>r \<in> set (it_rows (db_table ?s)). idem_key r = idem_key ?rec)"
    using absent by (auto simp: GetByScopeAndKeyHash_sql_def find_None_iff idem_key_def)
  then obtain rec' t' where cr: "?cr = ((True, rec'), t')"
    by (auto simp: CreateProcessing_sql_def Let_def)
  let ?s' = "?s\<lparr>db_table := t'\<rparr>"
  have call: "sql_call (CreateProcessing_sql (db_clock ?s) ?rec) ?s = (Inr (True, rec'), ?s')"
    using quiet cr by (simp add: sql_call_quiet)
  show ?thesis
  proof
    show "Execute cd (Some idempotencyRepository) cfg opts ck (Some ex) w =
       executeClaimed cd idempotencyRepository cfg ck ?ex ex (idr_ID rec')
         (count_metric recordIdempotencyClaim (w\<lparr>iw_repo := ?s'\<rparr>))"
      using call
      by (simp add: Execute_keyed [OF key] claimRecord_def repo_call_eq repo_fields Let_def)
    show "claimed_row (io_Scope opts) keyHash fp ?lu ?ex (idr_ID rec') (db_table ?s')"
      using Create_claims [OF wf cr] by simp
    show "table_wf (db_table ?s')" 
      using CreateProcessing_wf [OF wf, of "db_clock ?s" ?rec] cr by simp
    show "db_turns ?s' = []" using quiet by simp
  qed
qed

text \<open>The row a finished execution leaves, and that it is held when nothing interferes.\<close>

lemma quiet_held:
  "table_wf (db_table s) \<Longrightarrow> db_turns s = [] \<Longrightarrow> row_of (db_table s) rid = Some r \<Longrightarrow> held r s"
  by (auto simp: held_def dest: row_of_Some)

lemma quiet_faultless: "db_turns s = [] \<Longrightarrow> faultless s"
  by (simp add: faultless_def)

lemma executeClaimed_success:
  assumes row: "row_of (db_table (iw_repo w)) rid = Some q" and nz: "rid \<noteq> 0"
    and wf: "table_wf (db_table (iw_repo w))" and quiet: "db_turns (iw_repo w) = []"
    and run: "ex (iw_app w) = (Inr d, a)" and m: "marshalStoredResponse cd cfg d = Inr body"
  obtains w' r where
    "executeClaimed cd idempotencyRepository cfg ck expires ex rid w =
       (Inr \<lparr>ir_Data = d, ir_Replayed = False\<rparr>, w')"
    "iw_app w' = a" "held r (iw_repo w')" "faultless (iw_repo w')"
    "row_ident r = row_ident q" "idr_Status r = IdempotencyStatusSucceeded"
    "idr_ResponseBody r = Some body" "idr_ExpiresAt r = expires"
proof -
  let ?s = "iw_repo w"
  let ?t = "snd (MarkSucceeded_sql (db_clock ?s) rid 200 body expires (db_table ?s))"
  let ?s' = "?s\<lparr>db_table := ?t\<rparr>"
  let ?w = "w\<lparr>iw_app := a, iw_repo := ?s',
    iw_metrics := recordIdempotencyProcessingDuration (ck_end ck - ck_execStart ck) (iw_metrics w)\<rparr>"
  let ?r = "q\<lparr>idr_Status := IdempotencyStatusSucceeded, idr_ResponseStatus := Some 200,
    idr_ResponseBody := Some body, idr_ErrorReason := None, idr_LockedUntil := None,
    idr_ExpiresAt := expires, idr_UpdatedAt := db_clock ?s\<rparr>"
  have id: "idr_ID q = rid" using row_of_Some [OF row] by simp
  have "row_of ?t rid = Some ?r"
    using row id by (simp add: MarkSucceeded_sql_def update_rows_row_of)
  moreover have "table_wf ?t" using wf by (simp add: MarkSucceeded_sql_def update_rows_wf)
  ultimately have "held ?r ?s'" using quiet by (intro quiet_held [of _ rid]) auto
  moreover have "executeClaimed cd idempotencyRepository cfg ck expires ex rid w =
       (Inr \<lparr>ir_Data = d, ir_Replayed = False\<rparr>, ?w)"
    using nz run m quiet
    by (simp add: executeClaimed_def repo_call_eq repo_fields sql_call_quiet)
  ultimately show ?thesis
    using quiet by (intro that [of ?w ?r]) (auto simp: row_ident_def idem_key_def quiet_faultless)
qed

lemma executeClaimed_failure:
  assumes row: "row_of (db_table (iw_repo w)) rid = Some q" and nz: "rid \<noteq> 0"
    and wf: "table_wf (db_table (iw_repo w))" and quiet: "db_turns (iw_repo w) = []"
    and run: "ex (iw_app w) = (Inl err, a)"
  obtains w' r where
    "executeClaimed cd idempotencyRepository cfg ck expires ex rid w = (Inl err, w')"
    "iw_app w' = a" "held r (iw_repo w')" "faultless (iw_repo w')"
    "row_ident r = row_ident q" "idr_Status r = IdempotencyStatusFailedRetryable"
    "idr_LockedUntil r = Some (ck_failed ck + ic_FailedRetryBackoff cfg)"
    "idr_ExpiresAt r = expires"
proof -
  let ?s = "iw_repo w" and ?lu = "ck_failed ck + ic_FailedRetryBackoff cfg"
  define reason where "reason =
    (if Reason (Some err) = '''' then ''EXECUTION_FAILED'' else Reason (Some err))"
  let ?t = "snd (MarkFailedRetryable_sql (db_clock ?s) rid reason ?lu expires (db_table ?s))"
  let ?s' = "?s\<lparr>db_table := ?t\<rparr>"
  let ?w = "w\<lparr>iw_app := a, iw_repo := ?s',
    iw_metrics := recordIdempotencyProcessingDuration (ck_end ck - ck_execStart ck)
      (recordIdempotencyRetryBackoff (iw_metrics w))\<rparr>"
  let ?r = "q\<lparr>idr_Status := IdempotencyStatusFailedRetryable, idr_ErrorReason := Some reason,
    idr_LockedUntil := Some ?lu, idr_ExpiresAt := expires, idr_UpdatedAt := db_clock ?s\<rparr>"
  have id: "idr_ID q = rid" using row_of_Some [OF row] by simp
  have "row_of ?t rid = Some ?r"
    using row id by (simp add: MarkFailedRetryable_sql_def update_rows_row_of)
  moreover have "table_wf ?t" using wf by (simp add: MarkFailedRetryable_sql_def update_rows_wf)
  ultimately have "held ?r ?s'" using quiet by (intro quiet_held [of _ rid]) auto
  moreover have "executeClaimed cd idempotencyRepository cfg ck expires ex rid w = (Inl err, ?w)"
    using nz run quiet
    by (simp add: executeClaimed_def repo_call_eq repo_fields sql_call_quiet reason_def)
  ultimately show ?thesis
    using quiet by (intro that [of ?w ?r]) (auto simp: row_ident_def idem_key_def quiet_faultless)
qed

lemma Execute_held:
  assumes key: "keyed_request cd opts keyHash fp" and held: "held r (iw_repo w)"
    and rk: "idem_key r = (io_Scope opts, keyHash)" and live: "ck_now ck < idr_ExpiresAt r"
    and fp: "idr_RequestFingerprint r = fp" and ff: "faultless (iw_repo w)"
  obtains s where "Execute cd (Some idempotencyRepository) cfg opts ck (Some ex) w =
    (case switchExisting cd idempotencyRepository (ck_now ck)
            (ck_now ck + ic_ProcessingTimeout cfg) (ck_now ck + execTTL cfg opts) r
            (w\<lparr>iw_repo := s\<rparr>) of
       (Inl e, w) \<Rightarrow> (Inl e, w)
     | (Inr (Inl replayed), w) \<Rightarrow> (Inr replayed, w)
     | (Inr (Inr rid), w) \<Rightarrow>
         executeClaimed cd idempotencyRepository cfg ck (ck_now ck + execTTL cfg opts) ex rid w)"
proof -
  let ?lu = "ck_now ck + ic_ProcessingTimeout cfg" and ?ex = "ck_now ck + execTTL cfg opts"
  from claimRecord_held [OF held rk live refl, of cd fp ?lu ?ex] ff fp
  obtain s where "claimRecord cd idempotencyRepository (io_Scope opts) keyHash fp (ck_now ck) ?lu ?ex w
    = switchExisting cd idempotencyRepository (ck_now ck) ?lu ?ex r (w\<lparr>iw_repo := s\<rparr>)" by auto
  then show ?thesis by (intro that [of s]) (simp add: Execute_keyed [OF key])
qed

lemma row_ident_eqD:
  "row_ident r = row_ident q \<Longrightarrow>
     idem_key r = idem_key q \<and> idr_RequestFingerprint r = idr_RequestFingerprint q"
  by (simp add: row_ident_def)

lemma Execute_first_success:
  assumes key: "keyed_request cd opts keyHash fp" and wf: "table_wf (db_table (iw_repo w))"
    and quiet: "db_turns (iw_repo w) = []"
    and absent: "GetByScopeAndKeyHash_sql (io_Scope opts) keyHash (db_table (iw_repo w)) = None"
    and run: "ex (iw_app w) = (Inr d, a)" and m: "marshalStoredResponse cd cfg d = Inr body"
  obtains w1 r where
    "Execute cd (Some idempotencyRepository) cfg opts ck (Some ex) w =
       (Inr \<lparr>ir_Data = d, ir_Replayed = False\<rparr>, w1)"
    "iw_app w1 = a" "held r (iw_repo w1)" "faultless (iw_repo w1)"
    "idem_key r = (io_Scope opts, keyHash)" "idr_RequestFingerprint r = fp"
    "idr_Status r = IdempotencyStatusSucceeded" "idr_ResponseBody r = Some body"
    "idr_ExpiresAt r = ck_now ck + execTTL cfg opts"
proof -
  obtain rid s where s: "Execute cd (Some idempotencyRepository) cfg opts ck (Some ex) w =
       executeClaimed cd idempotencyRepository cfg ck (ck_now ck + execTTL cfg opts) ex rid
         (count_metric recordIdempotencyClaim (w\<lparr>iw_repo := s\<rparr>))"
    "claimed_row (io_Scope opts) keyHash fp (ck_now ck + ic_ProcessingTimeout cfg)
       (ck_now ck + execTTL cfg opts) rid (db_table s)" "table_wf (db_table s)" "db_turns s = []"
    by (rule Execute_fresh [OF key wf quiet absent])
  from s(2) obtain q where q: "row_of (db_table s) rid = Some q" "rid \<noteq> 0"
    "idem_key q = (io_Scope opts, keyHash)" "idr_RequestFingerprint q = fp"
    by (auto simp: claimed_row_def)
  let ?w = "count_metric recordIdempotencyClaim (w\<lparr>iw_repo := s\<rparr>)"
  have pre: "row_of (db_table (iw_repo ?w)) rid = Some q" "rid \<noteq> 0" "table_wf (db_table (iw_repo ?w))"
    "db_turns (iw_repo ?w) = []" using q s by auto
  have run': "ex (iw_app ?w) = (Inr d, a)" using run by simp
  obtain w1 r where w1: "executeClaimed cd idempotencyRepository cfg ck
       (ck_now ck + execTTL cfg opts) ex rid ?w = (Inr \<lparr>ir_Data = d, ir_Replayed = False\<rparr>, w1)"
    "iw_app w1 = a" "held r (iw_repo w1)" "faultless (iw_repo w1)" "row_ident r = row_ident q"
    "idr_Status r = IdempotencyStatusSucceeded" "idr_ResponseBody r = Some body"
    "idr_ExpiresAt r = ck_now ck + execTTL cfg opts"
    by (rule executeClaimed_success [where ex = ex, OF pre run' m])
  show ?thesis
    by (rule that [of w1 r]) (use w1 s(1) q row_ident_eqD [OF w1(5)] in simp_all)
qed

lemma Execute_first_failure:
  assumes key: "keyed_request cd opts keyHash fp" and wf: "table_wf (db_table (iw_repo w))"
    and quiet: "db_turns (iw_repo w) = []"
    and absent: "GetByScopeAndKeyHash_sql (io_Scope opts) keyHash (db_table (iw_repo w)) = None"
    and run: "ex (iw_app w) = (Inl err, a)"
  obtains w1 r where
    "Execute cd (Some idempotencyRepository) cfg opts ck (Some ex) w = (Inl err, w1)"
    "iw_app w1 = a" "held r (iw_repo w1)" "faultless (iw_repo w1)"
    "idem_key r = (io_Scope opts, keyHash)" "idr_RequestFingerprint r = fp"
    "idr_Status r = IdempotencyStatusFailedRetryable"
    "idr_LockedUntil r = Some (ck_failed ck + ic_FailedRetryBackoff cfg)"
    "idr_ExpiresAt r = ck_now ck + execTTL cfg opts"
proof -
  obtain rid s where s: "Execute cd (Some idempotencyRepository) cfg opts ck (Some ex) w =
       executeClaimed cd idempotencyRepository cfg ck (ck_now ck + execTTL cfg opts) ex rid
         (count_metric recordIdempotencyClaim (w\<lparr>iw_repo := s\<rparr>))"
    "claimed_row (io_Scope opts) keyHash fp (ck_now ck + ic_ProcessingTimeout cfg)
       (ck_now ck + execTTL cfg opts) rid (db_table s)" "table_wf (db_table s)" "db_turns s = []"
    by (rule Execute_fresh [OF key wf quiet absent])
  from s(2) obtain q where q: "row_of (db_table s) rid = Some q" "rid \<noteq> 0"
    "idem_key q = (io_Scope opts, keyHash)" "idr_RequestFingerprint q = fp"
    by (auto simp: claimed_row_def)
  let ?w = "count_metric recordIdempotencyClaim (w\<lparr>iw_repo := s\<rparr>)"
  have pre: "row_of (db_table (iw_repo ?w)) rid = Some q" "rid \<noteq> 0" "table_wf (db_table (iw_repo ?w))"
    "db_turns (iw_repo ?w) = []" using q s by auto
  have run': "ex (iw_app ?w) = (Inl err, a)" using run by simp
  obtain w1 r where w1: "executeClaimed cd idempotencyRepository cfg ck
       (ck_now ck + execTTL cfg opts) ex rid ?w = (Inl err, w1)"
    "iw_app w1 = a" "held r (iw_repo w1)" "faultless (iw_repo w1)" "row_ident r = row_ident q"
    "idr_Status r = IdempotencyStatusFailedRetryable"
    "idr_LockedUntil r = Some (ck_failed ck + ic_FailedRetryBackoff cfg)"
    "idr_ExpiresAt r = ck_now ck + execTTL cfg opts"
    by (rule executeClaimed_failure [where ex = ex, OF pre run'])
  show ?thesis
    by (rule that [of w1 r]) (use w1 s(1) q row_ident_eqD [OF w1(5)] in simp_all)
qed

subsection \<open>Later requests\<close>

text \<open>A request that comes later: what other processes do before each of its statements and how the statement ends, its
  options, its readings of the clock and its executor. \<open>serve_requests\<close> runs one after the other, on the table the
  previous one left.\<close>

record ('p, 'd, 'w) idem_request =
  rq_turns :: "(repo_op list \<times> sql_fault) list"
  rq_opts :: "'p IdempotencyExecuteOptions"
  rq_clock :: idem_clock
  rq_exec :: "'w \<Rightarrow> (go_error + 'd) \<times> 'w"

primrec serve_requests ::
  "('p, 'd) codec \<Rightarrow> IdempotencyConfig \<Rightarrow> ('p, 'd, 'w) idem_request list \<Rightarrow> (db_state, 'w) idem_world
     \<Rightarrow> (go_error + 'd IdempotencyExecuteResult) list \<times> (db_state, 'w) idem_world" where
  "serve_requests cd cfg [] w = ([], w)"
| "serve_requests cd cfg (rq # rqs) w =
     (let (res, w) = Execute cd (Some idempotencyRepository) cfg (rq_opts rq) (rq_clock rq) (Some (rq_exec rq))
                       (w\<lparr>iw_repo := (iw_repo w)\<lparr>db_turns := rq_turns rq\<rparr>\<rparr>);
          (results, w) = serve_requests cd cfg rqs w
      in (res # results, w))"

text \<open>A later request for the row \<open>r\<close>: the same scope, key and fingerprint, before the row expires, and what other
  processes do meanwhile is foreign to the row.\<close>

definition later_request ::
  "('p, 'd) codec \<Rightarrow> string \<Rightarrow> string \<Rightarrow> string \<Rightarrow> IdempotencyRecord \<Rightarrow> ('p, 'd, 'w) idem_request \<Rightarrow> bool" where
  "later_request cd scope keyHash fp r rq \<longleftrightarrow>
     keyed_request cd (rq_opts rq) keyHash fp \<and> io_Scope (rq_opts rq) = scope \<and>
     ck_now (rq_clock rq) < idr_ExpiresAt r \<and>
     list_all (\<lambda>(ops, _). list_all (foreign_op r) ops) (rq_turns rq)"

definition undisturbed_store :: "('p, 'd, 'w) idem_request \<Rightarrow> bool" where
  "undisturbed_store rq \<longleftrightarrow> list_all (\<lambda>(_, f). f = NoFault) (rq_turns rq)"

text \<open>The answer of a finished row.\<close>

definition stored_answer :: "('p, 'd) codec \<Rightarrow> IdempotencyRecord \<Rightarrow> go_error + 'd IdempotencyExecuteResult" where
  "stored_answer cd r =
     (case decodeStoredResponse cd (idr_ResponseBody r) of
        Inl parseErr \<Rightarrow> Inl (WithCause ErrIdempotencyStoreUnavail (Some parseErr))
      | Inr data \<Rightarrow> Inr \<lparr>ir_Data = data, ir_Replayed = True\<rparr>)"

lemma Is_unavailable [simp]: "Is ErrIdempotencyStoreUnavail (WithCause ErrIdempotencyStoreUnavail c)"
  by (simp add: Is_def idem_errors error_constructors New_def)

lemma Execute_finished:
  assumes key: "keyed_request cd opts keyHash fp" and held: "held r (iw_repo w)"
    and rk: "idem_key r = (io_Scope opts, keyHash)" and live: "ck_now ck < idr_ExpiresAt r"
    and fp: "idr_RequestFingerprint r = fp" and done': "idr_Status r = IdempotencyStatusSucceeded"
  shows "\<exists>res w'. Execute cd (Some idempotencyRepository) cfg opts ck (Some ex) w = (res, w') \<and>
    iw_app w' = iw_app w \<and> held r (iw_repo w') \<and>
    (res = stored_answer cd r \<or>
     (\<not> faultless (iw_repo w) \<and> (\<exists>e. res = Inl e \<and> Is ErrIdempotencyStoreUnavail e)))"
proof -
  let ?lu = "ck_now ck + ic_ProcessingTimeout cfg" and ?ex = "ck_now ck + execTTL cfg opts"
  let ?claim = "claimRecord cd idempotencyRepository (io_Scope opts) keyHash fp (ck_now ck) ?lu ?ex w"
  obtain s where s: "held r s"
    "?claim = switchExisting cd idempotencyRepository (ck_now ck) ?lu ?ex r (w\<lparr>iw_repo := s\<rparr>) \<or>
     (\<not> faultless (iw_repo w) \<and> (\<exists>e. ?claim = store_unavailable (Some e) (w\<lparr>iw_repo := s\<rparr>)))"
    using claimRecord_held [OF held rk live refl, of cd fp ?lu ?ex] fp by auto
  from s(2) show ?thesis
  proof
    assume "?claim = switchExisting cd idempotencyRepository (ck_now ck) ?lu ?ex r (w\<lparr>iw_repo := s\<rparr>)"
    then show ?thesis using s(1) done'
      by (simp add: Execute_keyed [OF key] switchExisting_def stored_answer_def split: sum.split)
  next
    assume "\<not> faultless (iw_repo w) \<and> (\<exists>e. ?claim = store_unavailable (Some e) (w\<lparr>iw_repo := s\<rparr>))"
    then show ?thesis using s(1) by (auto simp: Execute_keyed [OF key])
  qed
qed

lemma serve_finished:
  assumes "held r (iw_repo w)" and "idem_key r = (scope, keyHash)" and "idr_RequestFingerprint r = fp"
    and "idr_Status r = IdempotencyStatusSucceeded" and "list_all (later_request cd scope keyHash fp r) rqs"
  shows "\<exists>results w'. serve_requests cd cfg rqs w = (results, w') \<and> iw_app w' = iw_app w \<and>
    list_all2 (\<lambda>rq res. res = stored_answer cd r \<or>
      (\<not> undisturbed_store rq \<and> (\<exists>e. res = Inl e \<and> Is ErrIdempotencyStoreUnavail e))) rqs results"
  using assms(1,5)
proof (induction rqs arbitrary: w)
  case (Cons rq rqs)
  let ?w = "w\<lparr>iw_repo := (iw_repo w)\<lparr>db_turns := rq_turns rq\<rparr>\<rparr>"
  have one: "later_request cd scope keyHash fp r rq" and rqs: "list_all (later_request cd scope keyHash fp r) rqs"
    using Cons.prems(2) by simp_all
  have rq: "keyed_request cd (rq_opts rq) keyHash fp" "io_Scope (rq_opts rq) = scope" "ck_now (rq_clock rq) < idr_ExpiresAt r"
    "list_all (\<lambda>(ops, _). list_all (foreign_op r) ops) (rq_turns rq)"
    using one by (simp_all add: later_request_def)
  have held: "held r (iw_repo ?w)" using Cons.prems(1) rq(4) by (simp add: held_def)
  have faults: "faultless (iw_repo ?w) = undisturbed_store rq" by (simp add: faultless_def undisturbed_store_def)
  have rk: "idem_key r = (io_Scope (rq_opts rq), keyHash)" using assms(2) rq(2) by simp
  obtain res w1 where w1: "Execute cd (Some idempotencyRepository) cfg (rq_opts rq) (rq_clock rq) (Some (rq_exec rq)) ?w = (res, w1)"
    "iw_app w1 = iw_app w" "held r (iw_repo w1)"
    "res = stored_answer cd r \<or> (\<not> undisturbed_store rq \<and> (\<exists>e. res = Inl e \<and> Is ErrIdempotencyStoreUnavail e))"
    using Execute_finished [OF rq(1) held rk rq(3) assms(3,4), of cfg "rq_exec rq"] faults by auto
  from Cons.IH [OF w1(3) rqs] show ?case using w1 by auto
qed simp

subsection \<open>Truncation\<close>

lemma truncate_loop_le: "truncate_loop s n \<le> n"
  by (induction n) auto

lemma truncate_loop_valid: "valid_utf8 (take (truncate_loop s n) s)"
  by (induction n) (auto simp: valid_utf8_def)

lemma truncate_loop_greatest: "j \<le> n \<Longrightarrow> valid_utf8 (take j s) \<Longrightarrow> j \<le> truncate_loop s n"
  by (induction n) (auto simp: le_Suc_eq)

lemma truncate_loop_close:
  assumes "valid_utf8 s" and "n \<le> length s"
  shows "n - truncate_loop s n < 4"
proof -
  from valid_utf8_take [OF assms] obtain j where "j \<le> n" "n - j < 4" "valid_utf8 (take j s)" by auto
  with truncate_loop_greatest [of j n s] show ?thesis by auto
qed

lemma marshalStored_truncated:
  assumes "cd_marshal cd d = Inr raw" and "0 < ic_MaxStoredResponseLen cfg"
    and "ic_MaxStoredResponseLen cfg < int (length (cd_RedactText cd raw))"
  obtains p where "marshalStoredResponse cd cfg d = Inr (p @ ''...(truncated)'')"
  using assms by (simp add: marshalStoredResponse_def)

lemma trim_space_last_graphic:
  assumes "s \<noteq> []" and "graphic (last s)"
  shows "trim_space s \<noteq> []"
proof
  assume e: "trim_space s = []"
  let ?l = "strip_prefixes space_runes s"
  have "\<not> graphic c" if "c \<in> set p" "p \<in> set space_runes" for c p
    using that by (auto simp: space_runes_def graphic_def byte_def)
  moreover have keep: "\<exists>c \<in> set (strip_prefixes ps t). graphic c"
    if "\<exists>c \<in> set t. graphic c" and "\<forall>p \<in> set ps. \<forall>c \<in> set p. \<not> graphic c" for ps t
    using that
  proof (induction ps t rule: strip_prefixes.induct)
    case (1 ps t)
    show ?case
    proof (cases "List.find (\<lambda>p. p \<noteq> [] \<and> prefix p t) ps")
      case None
      with 1 show ?thesis by (subst strip_prefixes.simps) simp
    next
      case (Some p)
      then have p: "p \<in> set ps" "prefix p t" by (auto dest: find_Some_in)
      then obtain u where u: "t = p @ u" by (auto simp: prefix_def)
      with 1 p Some show ?thesis by (subst strip_prefixes.simps) (auto simp: ball_Un)
    qed
  qed
  ultimately have "\<exists>c \<in> set ?l. graphic c" using assms by (intro keep) auto
  then have "\<exists>c \<in> set (strip_prefixes (map rev space_runes) (rev ?l)). graphic c"
    using \<open>\<And>p c. c \<in> set p \<Longrightarrow> p \<in> set space_runes \<Longrightarrow> \<not> graphic c\<close> by (intro keep) auto
  with e show False by (auto simp: trim_space_def)
qed

section \<open>Properties\<close>

text \<open>A codec for the concrete runs below: hashing and redaction are the identity, a payload or a
  result is its own JSON text, and a text that ends in a parenthesis is not JSON.\<close>

definition text_codec :: "(string, string) codec" where
  "text_codec = \<lparr>cd_sha256hex = (\<lambda>s. s), cd_marshalPayload = Inr, cd_marshal = Inr,
     cd_unmarshal = (\<lambda>s. if s \<noteq> [] \<and> last s = CHR '')''
                         then Inl (OtherError ''invalid character'' None) else Inr s),
     cd_emptyMap = ''{}'', cd_RedactText = (\<lambda>s. s)\<rparr>"

definition sample_opts :: "string IdempotencyExecuteOptions" where
  "sample_opts = \<lparr>io_Scope = ''orders'', io_ActorScope = ''u1'', io_Method = ''POST'',
     io_Route = ''/o'', io_IdempotencyKey = ''k1'', io_Payload = ''{}'', io_TTL = 0,
     io_RequireKey = True\<rparr>"

definition sample_fp :: string where
  "sample_fp = ''POST'' @ [char_of (10::nat)] @ ''/o'' @ [char_of (10::nat)] @ ''u1'' @
     [char_of (10::nat)] @ ''{}''"

definition no_metrics :: idempotencyMetrics where
  "no_metrics = \<lparr>im_claimTotal = 0, im_replayTotal = 0, im_conflictTotal = 0,
     im_retryBackoffTotal = 0, im_processingDurationCount = 0, im_processingDurationMicros = 0,
     im_storeUnavailableTotal = 0\<rparr>"

definition empty_table :: idem_table where
  "empty_table = \<lparr>it_rows = [], it_next_id = 1\<rparr>"

definition sample_world :: "idem_table \<Rightarrow> (repo_op list \<times> sql_fault) list \<Rightarrow> (db_state, nat) idem_world" where
  "sample_world t turns = \<lparr>iw_repo = \<lparr>db_table = t, db_clock = 0, db_turns = turns\<rparr>,
     iw_app = 0, iw_metrics = no_metrics\<rparr>"

definition sample_row :: "string \<Rightarrow> IdempotencyRecord" where
  "sample_row st = \<lparr>idr_ID = 1, idr_Scope = ''orders'', idr_IdempotencyKeyHash = ''k1'',
     idr_RequestFingerprint = sample_fp, idr_Status = st, idr_ResponseStatus = None,
     idr_ResponseBody = None, idr_ErrorReason = None, idr_LockedUntil = Some 50,
     idr_ExpiresAt = 1000, idr_CreatedAt = 0, idr_UpdatedAt = 0\<rparr>"

definition sample_clock :: "time \<Rightarrow> idem_clock" where
  "sample_clock n = \<lparr>ck_now = n, ck_execStart = n, ck_failed = n, ck_end = n\<rparr>"

lemma sample_keyed: "keyed_request text_codec sample_opts ''k1'' sample_fp"
proof -
  have "trim_space ''k1'' = ''k1''"
    by (rule trim_space_graphic) (auto simp: graphic_def byte_def)
  moreover have "to_upper ''POST'' = ''POST''"
    by (simp add: to_upper_def upper_char_def byte_def)
  ultimately show ?thesis
    by (simp add: keyed_request_def sample_opts_def NormalizeIdempotencyKey_def byte_def
        HashIdempotencyKey_def text_codec_def BuildIdempotencyFingerprint_def sample_fp_def)
qed

lemmas sample_defs = sample_world_def sample_row_def sample_clock_def sample_opts_def
  empty_table_def no_metrics_def

text \<open>C1: Single side effect. While the record of a request's key is live and being processed,
  finished, or in its retry backoff, \<open>Execute\<close> with that key never runs the executor, whatever
  other processes that do not hold the record do to the table between its statements and
  whichever of its statements fail.\<close>

theorem Execute_blocked:
  assumes "keyed_request cd opts keyHash fp" and "held r (iw_repo w)"
    and "idem_key r = (io_Scope opts, keyHash)" and "blocks (ck_now ck) r"
  shows "iw_app (snd (Execute cd (Some idempotencyRepository) cfg opts ck (Some ex) w)) = iw_app w"
  using assms by (rule Execute_blocked_aux)

text \<open>The witness: another process tries to take over a record whose lock is in force and the
  coordinator's read fails; the executor, which would count, is not run.\<close>

theorem Execute_blocked_witness:
  "iw_app (snd (Execute text_codec (Some idempotencyRepository) DefaultIdempotencyConfig sample_opts
     (sample_clock 100) (Some (\<lambda>n. (Inr ''ok'', n + 1)))
     (sample_world \<lparr>it_rows = [sample_row IdempotencyStatusProcessing], it_next_id = 2\<rparr>
        [([OpReclaim 40 1 IdempotencyStatusProcessing 40 90 2000], NoFault),
         ([], FailBefore (OtherError ''timeout'' None))]))) = 0"
  using Execute_blocked [OF sample_keyed, of "sample_row IdempotencyStatusProcessing"
      "sample_world \<lparr>it_rows = [sample_row IdempotencyStatusProcessing], it_next_id = 2\<rparr>
        [([OpReclaim 40 1 IdempotencyStatusProcessing 40 90 2000], NoFault),
         ([], FailBefore (OtherError ''timeout'' None))]" "sample_clock 100"
      DefaultIdempotencyConfig "\<lambda>n. (Inr ''ok'', n + 1)"]
  by (simp add: held_def table_wf_def row_of_def idem_key_def blocks_def sample_defs)

text \<open>C2: Ownership. Whenever the claim phase of \<open>Execute\<close> lets the executor run, under any
  interleaving with other processes and any failures, the table holds a row with the id it was
  given that carries the request's key and fingerprint, is in processing, and is locked and
  kept for the time the claimant asked; the application has not been touched.\<close>

theorem claimRecord_claims:
  assumes "table_wf (db_table (iw_repo w))"
    and "claimRecord cd idempotencyRepository scope keyHash fp now lu ex w = (Inr (Inr rid), w')"
  shows "claimed_row scope keyHash fp lu ex rid (db_table (iw_repo w')) \<and> iw_app w' = iw_app w"
  using assms by (rule claimRecord_claims_aux)

text \<open>The witness: a record that expired is taken over after another process has tried to insert
  the same key.\<close>

definition reclaim_world :: "(db_state, nat) idem_world" where
  "reclaim_world = sample_world
     \<lparr>it_rows = [sample_row IdempotencyStatusSucceeded], it_next_id = 2\<rparr>
     [([OpCreate 5 (sample_row IdempotencyStatusProcessing)], NoFault)]"

theorem claimRecord_claims_witness:
  "\<exists>w'. claimRecord text_codec idempotencyRepository ''orders'' ''k1'' sample_fp 2000 2030 3000
          reclaim_world = (Inr (Inr 1), w') \<and>
        claimed_row ''orders'' ''k1'' sample_fp 2030 3000 1 (db_table (iw_repo w'))"
proof -
  let ?w = reclaim_world
  have "\<exists>w'. claimRecord text_codec idempotencyRepository ''orders'' ''k1'' sample_fp 2000 2030 3000 ?w
      = (Inr (Inr 1), w')"
    by (simp add: claimRecord_def resolveExisting_def repo_call_eq repo_fields sql_call_def Let_def
        reclaim_world_def sample_world_def sample_row_def apply_ops_def CreateProcessing_sql_def
        idem_key_def GetByScopeAndKeyHash_sql_def TryReclaim_sql_def update_rows_def)
  then obtain w' where w': "claimRecord text_codec idempotencyRepository ''orders'' ''k1'' sample_fp
      2000 2030 3000 ?w = (Inr (Inr 1), w')" ..
  have "table_wf (db_table (iw_repo ?w))"
    by (simp add: table_wf_def reclaim_world_def sample_world_def sample_row_def)
  from claimRecord_claims [OF this w'] w' show ?thesis by blast
qed

text \<open>C3: Replay. A request on a fresh key, with no failing statement and no other process on the key, whose executor
  succeeds with a result that is stored in a form that can be decoded again, returns the executor's result. Until the row
  it leaves expires, every later request with that scope, key and fingerprint returns what was stored, marked as replayed,
  however many there are and whatever other processes that do not own the row do to the table between and inside them;
  a request one of whose own statements fails may instead get the store-unavailable error. No executor runs again.\<close>

theorem Execute_replays:
  assumes "keyed_request cd opts keyHash fp" and "table_wf (db_table (iw_repo w))"
    and "db_turns (iw_repo w) = []"
    and "GetByScopeAndKeyHash_sql (io_Scope opts) keyHash (db_table (iw_repo w)) = None"
    and "ex (iw_app w) = (Inr d, a)" and "marshalStoredResponse cd cfg d = Inr body"
    and "decodeStoredResponse cd (Some body) = Inr d'"
  shows "\<exists>w1 r.
    Execute cd (Some idempotencyRepository) cfg opts ck (Some ex) w =
      (Inr \<lparr>ir_Data = d, ir_Replayed = False\<rparr>, w1) \<and> iw_app w1 = a \<and>
    row_of (db_table (iw_repo w1)) (idr_ID r) = Some r \<and> idr_ExpiresAt r = ck_now ck + execTTL cfg opts \<and>
    (\<forall>rqs. list_all (later_request cd (io_Scope opts) keyHash fp r) rqs \<longrightarrow>
      (\<exists>results w2. serve_requests cd cfg rqs w1 = (results, w2) \<and> iw_app w2 = a \<and>
        list_all2 (\<lambda>rq res. res = Inr \<lparr>ir_Data = d', ir_Replayed = True\<rparr> \<or>
          (\<not> undisturbed_store rq \<and> (\<exists>e. res = Inl e \<and> Is ErrIdempotencyStoreUnavail e))) rqs results))"
proof -
  obtain w1 r where w1: "Execute cd (Some idempotencyRepository) cfg opts ck (Some ex) w =
       (Inr \<lparr>ir_Data = d, ir_Replayed = False\<rparr>, w1)" "iw_app w1 = a" "held r (iw_repo w1)"
    "faultless (iw_repo w1)" "idem_key r = (io_Scope opts, keyHash)"
    "idr_RequestFingerprint r = fp" "idr_Status r = IdempotencyStatusSucceeded"
    "idr_ResponseBody r = Some body" "idr_ExpiresAt r = ck_now ck + execTTL cfg opts"
    by (rule Execute_first_success [OF assms(1-4), where ex = ex, OF assms(5,6)])
  have answer: "stored_answer cd r = Inr \<lparr>ir_Data = d', ir_Replayed = True\<rparr>"
    using w1(8) assms(7) by (simp add: stored_answer_def)
  show ?thesis
    using w1(1,2,9) held_def [of r "iw_repo w1"] w1(3) serve_finished [OF w1(3,5-7), of cd _ cfg, unfolded answer w1(2)]
    by blast
qed

text \<open>The witness: two later requests; before the second reads the row, another process tries to insert the key and the
  clean-up runs; the statement that reads the row fails in a third.\<close>

definition later :: "(repo_op list \<times> sql_fault) list \<Rightarrow> time \<Rightarrow> string \<Rightarrow> (string, string, nat) idem_request" where
  "later turns t out = \<lparr>rq_turns = turns, rq_opts = sample_opts, rq_clock = sample_clock t, rq_exec = (\<lambda>n. (Inr out, n + 5))\<rparr>"

definition later_requests :: "(string, string, nat) idem_request list" where
  "later_requests = [later [] Hour ''again'',
     later [([], NoFault), ([OpCreate 5 (sample_row IdempotencyStatusProcessing), OpDelete (2 * Hour) 10], NoFault)] (2 * Hour) ''more'',
     later [([], NoFault), ([], FailBefore (OtherError ''timeout'' None))] (3 * Hour) ''late'']"

lemma later_requests_ok:
  assumes "idr_ExpiresAt r = 24 * Hour"
  shows "list_all (later_request text_codec ''orders'' ''k1'' sample_fp r) later_requests"
  using assms sample_keyed by (simp add: later_requests_def later_def later_request_def sample_clock_def sample_opts_def)

theorem Execute_replays_witness:
  "\<exists>w1 e w2.
    Execute text_codec (Some idempotencyRepository) DefaultIdempotencyConfig sample_opts
      (sample_clock 0) (Some (\<lambda>n. (Inr ''ok'', n + 1))) (sample_world empty_table []) =
      (Inr \<lparr>ir_Data = ''ok'', ir_Replayed = False\<rparr>, w1) \<and> iw_app w1 = 1 \<and>
    serve_requests text_codec DefaultIdempotencyConfig later_requests w1 =
      ([Inr \<lparr>ir_Data = ''ok'', ir_Replayed = True\<rparr>, Inr \<lparr>ir_Data = ''ok'', ir_Replayed = True\<rparr>, e], w2) \<and> iw_app w2 = 1"
proof -
  have m: "marshalStoredResponse text_codec DefaultIdempotencyConfig ''ok'' = Inr ''ok''"
    by (simp add: marshalStoredResponse_def text_codec_def DefaultIdempotencyConfig_def)
  have d: "decodeStoredResponse text_codec (Some ''ok'') = Inr ''ok''"
    using trim_space_graphic [of "''ok''"]
    by (simp add: decodeStoredResponse_def text_codec_def graphic_def byte_def)
  have ttl: "execTTL DefaultIdempotencyConfig sample_opts = 24 * Hour"
    by (simp add: execTTL_def sample_opts_def DefaultIdempotencyConfig_def)
  have scope: "io_Scope sample_opts = ''orders''" by (simp add: sample_opts_def)
  have pre: "table_wf (db_table (iw_repo (sample_world empty_table [])))" "db_turns (iw_repo (sample_world empty_table [])) = []"
    "GetByScopeAndKeyHash_sql (io_Scope sample_opts) ''k1'' (db_table (iw_repo (sample_world empty_table []))) = None"
    "(\<lambda>n. (Inr ''ok'', n + 1)) (iw_app (sample_world empty_table [])) = (Inr ''ok'', 1)"
    by (simp_all add: sample_defs table_wf_def GetByScopeAndKeyHash_sql_def)
  obtain w1 r where w1: "Execute text_codec (Some idempotencyRepository) DefaultIdempotencyConfig sample_opts
      (sample_clock 0) (Some (\<lambda>n. (Inr ''ok'', n + 1))) (sample_world empty_table []) =
      (Inr \<lparr>ir_Data = ''ok'', ir_Replayed = False\<rparr>, w1)" "iw_app w1 = 1" "idr_ExpiresAt r = 24 * Hour"
    "\<And>rqs. list_all (later_request text_codec ''orders'' ''k1'' sample_fp r) rqs \<Longrightarrow>
      \<exists>results w2. serve_requests text_codec DefaultIdempotencyConfig rqs w1 = (results, w2) \<and> iw_app w2 = 1 \<and>
        list_all2 (\<lambda>rq res. res = Inr \<lparr>ir_Data = ''ok'', ir_Replayed = True\<rparr> \<or>
          (\<not> undisturbed_store rq \<and> (\<exists>e. res = Inl e \<and> Is ErrIdempotencyStoreUnavail e))) rqs results"
    using Execute_replays [where ex = "\<lambda>n. (Inr ''ok'', n + 1)", OF sample_keyed pre m d, of "sample_clock 0"] unfolding ttl scope by (auto simp: sample_clock_def)
  from w1(4) [OF later_requests_ok [OF w1(3)]] obtain results w2 where
    "serve_requests text_codec DefaultIdempotencyConfig later_requests w1 = (results, w2)" "iw_app w2 = 1"
    "list_all2 (\<lambda>rq res. res = Inr \<lparr>ir_Data = ''ok'', ir_Replayed = True\<rparr> \<or>
          (\<not> undisturbed_store rq \<and> (\<exists>e. res = Inl e \<and> Is ErrIdempotencyStoreUnavail e))) later_requests results" by blast
  then show ?thesis using w1(1,2) by (auto simp: later_requests_def later_def undisturbed_store_def list_all2_Cons1)
qed

lemma RetryAfter_conflict:
  assumes "is_ApplicationError base" and "l - now \<le> MaxInt64"
  shows "RetryAfterSecondsFromError (Some (conflictWithRetryAfter base (Some l) now)) =
           max 1 ((l - now) sdiv Second)"
proof -
  let ?q = "(l - now) sdiv Second"
  have "?q \<le> MaxInt64"
  proof (cases "0 \<le> l - now")
    case True
    then have "?q = (l - now) div Second" by (simp add: sdiv_nonneg)
    with True assms(2) show ?thesis by simp
  next
    case False
    then show ?thesis using sdiv_nonpos_le [of "l - now" Second] by simp
  qed
  then have "atoi (itoa (max 1 ?q)) = Some (max 1 ?q)" by (intro atoi_itoa) auto
  moreover have "(if ?q \<le> 0 then 1 else ?q) = max 1 ?q" by auto
  ultimately show ?thesis
    using assms(1)
    by (cases base) (auto simp: RetryAfterSecondsFromError_def conflictWithRetryAfter_def Let_def)
qed

text \<open>C4: Retry backoff. When the executor of a fresh key fails, its error is returned; a request
  with the same options before the backoff has passed is refused without running its executor,
  and the \<open>Retry-After\<close> hint read off its error is the remaining backoff in whole seconds, at
  least one.\<close>

theorem Execute_backs_off:
  assumes "keyed_request cd opts keyHash fp" and "table_wf (db_table (iw_repo w))"
    and "db_turns (iw_repo w) = []"
    and "GetByScopeAndKeyHash_sql (io_Scope opts) keyHash (db_table (iw_repo w)) = None"
    and "ex (iw_app w) = (Inl err, a)"
    and later: "ck_now ck2 < ck_failed ck + ic_FailedRetryBackoff cfg"
    and live: "ck_now ck2 < ck_now ck + execTTL cfg opts"
    and range: "ck_failed ck + ic_FailedRetryBackoff cfg - ck_now ck2 \<le> MaxInt64"
  shows "\<exists>w1 e w2.
    Execute cd (Some idempotencyRepository) cfg opts ck (Some ex) w = (Inl err, w1) \<and> iw_app w1 = a \<and>
    Execute cd (Some idempotencyRepository) cfg opts ck2 (Some ex2) w1 = (Inl e, w2) \<and>
    iw_app w2 = a \<and> Is ErrIdempotencyRetryBackoff e \<and>
    RetryAfterSecondsFromError (Some e) =
      max 1 ((ck_failed ck + ic_FailedRetryBackoff cfg - ck_now ck2) sdiv Second)"
proof -
  let ?l = "ck_failed ck + ic_FailedRetryBackoff cfg"
  let ?e = "conflictWithRetryAfter ErrIdempotencyRetryBackoff (Some ?l) (ck_now ck2)"
  obtain w1 r where w1: "Execute cd (Some idempotencyRepository) cfg opts ck (Some ex) w = (Inl err, w1)"
    "iw_app w1 = a" "held r (iw_repo w1)" "faultless (iw_repo w1)"
    "idem_key r = (io_Scope opts, keyHash)" "idr_RequestFingerprint r = fp"
    "idr_Status r = IdempotencyStatusFailedRetryable" "idr_LockedUntil r = Some ?l"
    "idr_ExpiresAt r = ck_now ck + execTTL cfg opts"
    by (rule Execute_first_failure [OF assms(1-4), where ex = ex, OF assms(5)])
  have "ck_now ck2 < idr_ExpiresAt r" using live w1(9) by simp
  from Execute_held [OF assms(1) w1(3,5) this w1(6,4), of cfg ex2] obtain s where
    "Execute cd (Some idempotencyRepository) cfg opts ck2 (Some ex2) w1 =
       (Inl ?e, count_metric recordIdempotencyRetryBackoff
                  (count_metric recordIdempotencyConflict (w1\<lparr>iw_repo := s\<rparr>)))"
    using w1(7,8) later by (auto simp: switchExisting_def idem_status_defs)
  moreover have "Is ErrIdempotencyRetryBackoff ?e"
    by (simp add: Is_def conflictWithRetryAfter_def Let_def idem_errors error_constructors New_def)
  moreover have "RetryAfterSecondsFromError (Some ?e) = max 1 ((?l - ck_now ck2) sdiv Second)"
    using range by (intro RetryAfter_conflict) (simp add: idem_errors error_constructors New_def)
  ultimately show ?thesis using w1(1,2) by auto
qed

theorem Execute_backs_off_witness:
  "\<exists>w1 e w2.
    Execute text_codec (Some idempotencyRepository) DefaultIdempotencyConfig sample_opts
      (sample_clock 0) (Some (\<lambda>n. (Inl (OtherError ''boom'' None), n + 1))) (sample_world empty_table [])
      = (Inl (OtherError ''boom'' None), w1) \<and> iw_app w1 = 1 \<and>
    Execute text_codec (Some idempotencyRepository) DefaultIdempotencyConfig sample_opts
      (sample_clock (2 * Second)) (Some (\<lambda>n. (Inr ''late'', n + 5))) w1 = (Inl e, w2) \<and>
    iw_app w2 = 1 \<and> Is ErrIdempotencyRetryBackoff e \<and> RetryAfterSecondsFromError (Some e) = 3"
  using Execute_backs_off [OF sample_keyed, of "sample_world empty_table []"
      "\<lambda>n. (Inl (OtherError ''boom'' None), n + 1)" "OtherError ''boom'' None" 1
      "sample_clock (2 * Second)" "sample_clock 0" DefaultIdempotencyConfig
      "\<lambda>n. (Inr ''late'', n + 5)"]
  by (simp add: sample_defs table_wf_def GetByScopeAndKeyHash_sql_def execTTL_def
      DefaultIdempotencyConfig_def sdiv_nonneg)

text \<open>C10: A response longer than the stored maximum cannot be replayed. A request on a fresh key, with no failing
  statement and no other process on the key, succeeds; but the stored text ends in the truncation mark, which no JSON text
  does, so until the row expires every later request with that scope, key and fingerprint, however many there are and
  whatever processes that do not own the row do meanwhile, fails with the store-unavailable error. No executor runs
  again.\<close>

theorem Execute_truncated_unreplayable:
  assumes "keyed_request cd opts keyHash fp" and "table_wf (db_table (iw_repo w))"
    and "db_turns (iw_repo w) = []"
    and "GetByScopeAndKeyHash_sql (io_Scope opts) keyHash (db_table (iw_repo w)) = None"
    and "ex (iw_app w) = (Inr d, a)" and m: "cd_marshal cd d = Inr raw"
    and long: "0 < ic_MaxStoredResponseLen cfg"
      "ic_MaxStoredResponseLen cfg < int (length (cd_RedactText cd raw))"
    and json: "\<And>s. s \<noteq> [] \<Longrightarrow> last s = CHR '')'' \<Longrightarrow> \<exists>e. cd_unmarshal cd s = Inl e"
  shows "\<exists>w1 r.
    Execute cd (Some idempotencyRepository) cfg opts ck (Some ex) w =
      (Inr \<lparr>ir_Data = d, ir_Replayed = False\<rparr>, w1) \<and> iw_app w1 = a \<and>
    row_of (db_table (iw_repo w1)) (idr_ID r) = Some r \<and> idr_ExpiresAt r = ck_now ck + execTTL cfg opts \<and>
    (\<forall>rqs. list_all (later_request cd (io_Scope opts) keyHash fp r) rqs \<longrightarrow>
      (\<exists>results w2. serve_requests cd cfg rqs w1 = (results, w2) \<and> iw_app w2 = a \<and> length results = length rqs \<and>
        (\<forall>res \<in> set results. \<exists>e. res = Inl e \<and> Is ErrIdempotencyStoreUnavail e)))"
proof -
  obtain p where p: "marshalStoredResponse cd cfg d = Inr (p @ ''...(truncated)'')"
    by (rule marshalStored_truncated [OF m long])
  let ?body = "p @ ''...(truncated)''"
  have last: "last ?body = CHR '')''" by simp
  then have "trim_space ?body \<noteq> []"
    by (intro trim_space_last_graphic) (simp_all add: graphic_def byte_def)
  with json [of ?body] last obtain je where
    dec: "decodeStoredResponse cd (Some ?body) = Inl (OtherError ''decode stored response'' (Some je))"
    by (auto simp: decodeStoredResponse_def simp del: last_append)
  obtain w1 r where w1: "Execute cd (Some idempotencyRepository) cfg opts ck (Some ex) w =
       (Inr \<lparr>ir_Data = d, ir_Replayed = False\<rparr>, w1)" "iw_app w1 = a" "held r (iw_repo w1)"
    "faultless (iw_repo w1)" "idem_key r = (io_Scope opts, keyHash)"
    "idr_RequestFingerprint r = fp" "idr_Status r = IdempotencyStatusSucceeded"
    "idr_ResponseBody r = Some ?body" "idr_ExpiresAt r = ck_now ck + execTTL cfg opts"
    by (rule Execute_first_success [OF assms(1-4), where ex = ex, OF assms(5) p])
  have answer: "\<exists>e. stored_answer cd r = Inl e \<and> Is ErrIdempotencyStoreUnavail e"
    using w1(8) dec by (simp add: stored_answer_def)
  have "\<exists>results w2. serve_requests cd cfg rqs w1 = (results, w2) \<and> iw_app w2 = a \<and> length results = length rqs \<and>
        (\<forall>res \<in> set results. \<exists>e. res = Inl e \<and> Is ErrIdempotencyStoreUnavail e)"
    if rqs: "list_all (later_request cd (io_Scope opts) keyHash fp r) rqs" for rqs :: "('a, 'b, 'c) idem_request list"
  proof -
    obtain results w2 where r: "serve_requests cd cfg rqs w1 = (results, w2)" "iw_app w2 = a"
      "list_all2 (\<lambda>rq res. res = stored_answer cd r \<or>
        (\<not> undisturbed_store rq \<and> (\<exists>e. res = Inl e \<and> Is ErrIdempotencyStoreUnavail e))) rqs results"
      using serve_finished [OF w1(3,5-7) rqs, of cfg] w1(2) by auto
    have "list_all2 (\<lambda>rq res. \<exists>e. res = Inl e \<and> Is ErrIdempotencyStoreUnavail e) rqs results"
      using answer by (intro list_all2_mono [OF r(3)]) auto
    then have "\<forall>res \<in> set results. \<exists>e. res = Inl e \<and> Is ErrIdempotencyStoreUnavail e"
      by (simp add: list_all2_conv_all_nth all_set_conv_all_nth)
    then show ?thesis using r list_all2_lengthD [OF r(3)] by auto
  qed
  then show ?thesis using w1(1,2,9) held_def [of r "iw_repo w1"] w1(3) by blast
qed

theorem Execute_truncated_unreplayable_witness:
  "\<exists>w1 e1 e2 e3 w2.
    Execute text_codec (Some idempotencyRepository) (DefaultIdempotencyConfig\<lparr>ic_MaxStoredResponseLen := 4\<rparr>)
      sample_opts (sample_clock 0) (Some (\<lambda>n. (Inr ''[1,2]'', n + 1))) (sample_world empty_table []) =
      (Inr \<lparr>ir_Data = ''[1,2]'', ir_Replayed = False\<rparr>, w1) \<and>
    serve_requests text_codec (DefaultIdempotencyConfig\<lparr>ic_MaxStoredResponseLen := 4\<rparr>) later_requests w1 =
      ([Inl e1, Inl e2, Inl e3], w2) \<and>
    Is ErrIdempotencyStoreUnavail e1 \<and> Is ErrIdempotencyStoreUnavail e2 \<and> iw_app w2 = 1"
proof -
  let ?cfg = "DefaultIdempotencyConfig\<lparr>ic_MaxStoredResponseLen := 4\<rparr>"
  have json: "\<And>s. s \<noteq> [] \<Longrightarrow> last s = CHR '')'' \<Longrightarrow> \<exists>e. cd_unmarshal text_codec s = Inl e"
    by (simp add: text_codec_def)
  have ttl: "execTTL ?cfg sample_opts = 24 * Hour"
    by (simp add: execTTL_def sample_opts_def DefaultIdempotencyConfig_def)
  have scope: "io_Scope sample_opts = ''orders''" by (simp add: sample_opts_def)
  have pre: "table_wf (db_table (iw_repo (sample_world empty_table [])))" "db_turns (iw_repo (sample_world empty_table [])) = []"
    "GetByScopeAndKeyHash_sql (io_Scope sample_opts) ''k1'' (db_table (iw_repo (sample_world empty_table []))) = None"
    "(\<lambda>n. (Inr ''[1,2]'', n + 1)) (iw_app (sample_world empty_table [])) = (Inr ''[1,2]'', 1)"
    "cd_marshal text_codec ''[1,2]'' = Inr ''[1,2]''" "0 < ic_MaxStoredResponseLen ?cfg"
    "ic_MaxStoredResponseLen ?cfg < int (length (cd_RedactText text_codec ''[1,2]''))"
    by (simp_all add: sample_defs table_wf_def GetByScopeAndKeyHash_sql_def text_codec_def)
  obtain w1 r where w1: "Execute text_codec (Some idempotencyRepository) ?cfg sample_opts
      (sample_clock 0) (Some (\<lambda>n. (Inr ''[1,2]'', n + 1))) (sample_world empty_table []) =
      (Inr \<lparr>ir_Data = ''[1,2]'', ir_Replayed = False\<rparr>, w1)" "idr_ExpiresAt r = 24 * Hour"
    "\<And>rqs. list_all (later_request text_codec ''orders'' ''k1'' sample_fp r) rqs \<Longrightarrow>
      \<exists>results w2. serve_requests text_codec ?cfg rqs w1 = (results, w2) \<and> iw_app w2 = 1 \<and> length results = length rqs \<and>
        (\<forall>res \<in> set results. \<exists>e. res = Inl e \<and> Is ErrIdempotencyStoreUnavail e)"
    using Execute_truncated_unreplayable [where ex = "\<lambda>n. (Inr ''[1,2]'', n + 1)", OF sample_keyed pre json, of "sample_clock 0"] unfolding ttl scope
    by (auto simp: sample_clock_def)
  from w1(3) [OF later_requests_ok [OF w1(2)]] obtain results w2 where
    "serve_requests text_codec ?cfg later_requests w1 = (results, w2)" "iw_app w2 = 1" "length results = 3"
    "\<forall>res \<in> set results. \<exists>e. res = Inl e \<and> Is ErrIdempotencyStoreUnavail e" by (auto simp: later_requests_def)
  then show ?thesis using w1(1) by (auto simp: length_Suc_conv numeral_3_eq_3)
qed

text \<open>Truncation keeps the text well formed and loses no more than it must: of a valid UTF-8
  text longer than the maximum, \<open>truncateUTF8\<close> keeps a valid prefix of at most the maximum and
  more than the maximum less four bytes.\<close>

lemma truncateUTF8_spec:
  assumes "valid_utf8 s" and "0 < maxBytes" and "maxBytes < int (length s)"
  shows "prefix (truncateUTF8 s maxBytes) s \<and> valid_utf8 (truncateUTF8 s maxBytes) \<and>
    int (length (truncateUTF8 s maxBytes)) \<le> maxBytes \<and>
    maxBytes < int (length (truncateUTF8 s maxBytes)) + 4"
proof -
  let ?n = "truncate_loop s (nat maxBytes)"
  have "nat maxBytes - ?n < 4" using assms by (intro truncate_loop_close) auto
  then have "maxBytes < int ?n + 4" by linarith
  moreover have "int ?n \<le> maxBytes" using truncate_loop_le [of s "nat maxBytes"] assms(2) by linarith
  ultimately show ?thesis
    using truncate_loop_valid [of s "nat maxBytes"] assms
    by (auto simp: truncateUTF8_def take_is_prefix)
qed

text \<open>What \<open>NormalizeIdempotencyKey\<close> accepts: the empty key, or one to 128 printable ASCII
  characters without blanks at all, which normalisation leaves as they are; everything else is
  refused with \<open>ErrIdempotencyKeyInvalid\<close>.\<close>

lemma NormalizeIdempotencyKey_spec:
  "(NormalizeIdempotencyKey raw = Inr k \<longleftrightarrow>
      k = trim_space raw \<and> length k \<le> 128 \<and> (\<forall>c \<in> set k. graphic c)) \<and>
   ((\<exists>k. NormalizeIdempotencyKey raw = Inr k) \<or>
      NormalizeIdempotencyKey raw = Inl ErrIdempotencyKeyInvalid) \<and>
   (NormalizeIdempotencyKey raw = Inr k \<longrightarrow> NormalizeIdempotencyKey k = Inr k)"
proof -
  have eq: "NormalizeIdempotencyKey raw = Inr k \<longleftrightarrow>
      k = trim_space raw \<and> length k \<le> 128 \<and> (\<forall>c \<in> set k. graphic c)" for raw k
    by (auto simp: NormalizeIdempotencyKey_def Let_def graphic_iff split: if_splits)
  have err: "(\<exists>k. NormalizeIdempotencyKey raw = Inr k) \<or>
      NormalizeIdempotencyKey raw = Inl ErrIdempotencyKeyInvalid"
    by (simp add: NormalizeIdempotencyKey_def Let_def)
  have "trim_space k = k" if "\<forall>c \<in> set k. graphic c" for k
    using that by (cases "k = []") (auto intro!: trim_space_graphic)
  then have "NormalizeIdempotencyKey raw = Inr k \<longrightarrow> NormalizeIdempotencyKey k = Inr k"
    unfolding eq by metis
  with err eq show ?thesis by blast
qed

end
