(* ===== verification/System_Lock.thy ===== *)
theory System_Lock
  imports Idempotency
begin

text \<open>
  The lock that serialises the administrator's system operations (update, rollback, restart):
  \<open>service/system_operation_lock_service.go\<close>. The lock is one idempotency record; its holder
  renews it from a goroutine, \<open>renewLoop\<close>, here a function of the sequence of ticks and the stop
  signal it receives.
\<close>

section \<open>Definitions\<close>

definition systemOperationLockScope :: string where
  "systemOperationLockScope = ''admin.system.operations.global_lock''"
definition systemOperationLockKey :: string where
  "systemOperationLockKey = ''global-system-operation-lock''"

definition ErrSystemOperationBusy :: go_error where
  "ErrSystemOperationBusy =
     Conflict ''SYSTEM_OPERATION_BUSY'' ''another system operation is in progress''"

record SystemOperationLock =
  sl_recordID :: int
  sl_operationID :: string
  sl_stopped :: bool

record SystemOperationLockService =
  ss_lease :: duration
  ss_renewInterval :: duration
  ss_ttl :: duration

definition OperationID :: "SystemOperationLock option \<Rightarrow> string" where
  "OperationID l = (case l of None \<Rightarrow> '''' | Some l \<Rightarrow> sl_operationID l)"

definition NewSystemOperationLockService :: "IdempotencyConfig \<Rightarrow> SystemOperationLockService" where
  "NewSystemOperationLockService cfg =
     (let lease = (if ic_ProcessingTimeout cfg \<le> 0 then 30 * Second else ic_ProcessingTimeout cfg);
          renewInterval = lease sdiv 3;
          renewInterval = (if renewInterval < Second then Second else renewInterval);
          ttl = (if ic_SystemOperationTTL cfg \<le> 0 then Hour else ic_SystemOperationTTL cfg)
      in \<lparr>ss_lease = lease, ss_renewInterval = renewInterval, ss_ttl = ttl\<rparr>)"

definition busyError :: "string \<Rightarrow> time option \<Rightarrow> time \<Rightarrow> go_error" where
  "busyError operationID lockedUntil now =
     (let md = (if operationID \<noteq> '''' then [''operation_id'' \<mapsto> operationID] else Map.empty);
          md = (case lockedUntil of None \<Rightarrow> md
                | Some l \<Rightarrow> (let sec = (l - now) sdiv Second; sec = (if sec \<le> 0 then 1 else sec)
                             in md(''retry_after'' \<mapsto> itoa sec)))
      in if operationID = '''' \<and> lockedUntil = None then ErrSystemOperationBusy
         else WithMetadata ErrSystemOperationBusy (Some md))"

text \<open>\<open>Acquire\<close>; the goroutine it starts is \<open>renewLoop\<close> below.\<close>

definition Acquire ::
  "(string \<Rightarrow> string) \<Rightarrow> 's IdempotencyRepository option \<Rightarrow> SystemOperationLockService \<Rightarrow> string
     \<Rightarrow> time \<Rightarrow> 's \<Rightarrow> (go_error + SystemOperationLock) \<times> 's" where
  "Acquire sha256hex repo svc operationID now s =
     (case repo of None \<Rightarrow> (Inl ErrIdempotencyStoreUnavail, s)
      | Some rp \<Rightarrow>
      if operationID = '''' then
        (Inl (BadRequest ''SYSTEM_OPERATION_ID_REQUIRED'' ''operation id is required''), s)
      else
        let expiresAt = now + ss_ttl svc;
            lockedUntil = now + ss_lease svc;
            keyHash = sha256hex systemOperationLockKey;
            record = \<lparr>idr_ID = 0, idr_Scope = systemOperationLockScope,
                      idr_IdempotencyKeyHash = keyHash, idr_RequestFingerprint = operationID,
                      idr_Status = IdempotencyStatusProcessing, idr_ResponseStatus = None,
                      idr_ResponseBody = None, idr_ErrorReason = None,
                      idr_LockedUntil = Some lockedUntil, idr_ExpiresAt = expiresAt,
                      idr_CreatedAt = 0, idr_UpdatedAt = 0\<rparr>;
            start = (\<lambda>rid s. if rid = 0 then (Inl ErrIdempotencyStoreUnavail, s)
                        else (Inr \<lparr>sl_recordID = rid, sl_operationID = operationID,
                                   sl_stopped = False\<rparr>, s))
        in case CreateProcessing rp record s of
             (Inl err, s) \<Rightarrow> (Inl (WithCause ErrIdempotencyStoreUnavail (Some err)), s)
           | (Inr (True, record), s) \<Rightarrow> start (idr_ID record) s
           | (Inr (False, record), s) \<Rightarrow>
               (case GetByScopeAndKeyHash rp systemOperationLockScope keyHash s of
                  (Inl getErr, s) \<Rightarrow> (Inl (WithCause ErrIdempotencyStoreUnavail (Some getErr)), s)
                | (Inr None, s) \<Rightarrow> (Inl ErrIdempotencyStoreUnavail, s)
                | (Inr (Some existing), s) \<Rightarrow>
                    if idr_Status existing = IdempotencyStatusProcessing \<and>
                       (case idr_LockedUntil existing of None \<Rightarrow> False | Some l \<Rightarrow> now < l)
                    then (Inl (busyError (idr_RequestFingerprint existing)
                                 (idr_LockedUntil existing) now), s)
                    else
                      (case TryReclaim rp (idr_ID existing) (idr_Status existing) now
                              lockedUntil expiresAt s of
                         (Inl reclaimErr, s) \<Rightarrow>
                           (Inl (WithCause ErrIdempotencyStoreUnavail (Some reclaimErr)), s)
                       | (Inr True, s) \<Rightarrow> start (idr_ID existing) s
                       | (Inr False, s) \<Rightarrow>
                           (case GetByScopeAndKeyHash rp systemOperationLockScope keyHash s of
                              (Inr (Some latest), s) \<Rightarrow>
                                (Inl (busyError (idr_RequestFingerprint latest)
                                        (idr_LockedUntil latest) now), s)
                            | (_, s) \<Rightarrow> (Inl ErrSystemOperationBusy, s)))))"

text \<open>\<open>Release\<close> reads the clock twice: for the expiry and for the end of the lock after a failure.\<close>

definition Release ::
  "'s IdempotencyRepository option \<Rightarrow> SystemOperationLockService \<Rightarrow> SystemOperationLock option
     \<Rightarrow> bool \<Rightarrow> string \<Rightarrow> time \<Rightarrow> time \<Rightarrow> 's \<Rightarrow> go_error option \<times> SystemOperationLock option \<times> 's" where
  "Release repo svc lock succeeded failureReason now now2 s =
     (case (repo, lock) of
        (Some rp, Some l) \<Rightarrow>
          (let l' = l\<lparr>sl_stopped := True\<rparr>;
               expiresAt = now + ss_ttl svc
           in if succeeded then
                (let responseBody = ''{\"operation_id\":\"'' @ sl_operationID l @ ''\",\"released\":true}''
                 in case MarkSucceeded rp (sl_recordID l) 200 responseBody expiresAt s of
                      (e, s) \<Rightarrow> (e, Some l', s))
              else
                (let reason = (if failureReason = '''' then ''SYSTEM_OPERATION_FAILED'' else failureReason)
                 in case MarkFailedRetryable rp (sl_recordID l) reason now2 expiresAt s of
                      (e, s) \<Rightarrow> (e, Some l', s)))
      | _ \<Rightarrow> (None, lock, s))"

text \<open>One tick of the renewal: whether the loop goes on.\<close>

definition renewTick ::
  "'s IdempotencyRepository \<Rightarrow> SystemOperationLockService \<Rightarrow> SystemOperationLock \<Rightarrow> time \<Rightarrow> 's
     \<Rightarrow> bool \<times> 's" where
  "renewTick rp svc lock now s =
     (case ExtendProcessingLock rp (sl_recordID lock) (sl_operationID lock)
             (now + ss_lease svc) (now + ss_ttl svc) s of
        (Inl _, s) \<Rightarrow> (True, s)
      | (Inr ok, s) \<Rightarrow> (ok, s))"

datatype renew_event = Tick time | Stop

fun renewLoop ::
  "'s IdempotencyRepository \<Rightarrow> SystemOperationLockService \<Rightarrow> SystemOperationLock
     \<Rightarrow> renew_event list \<Rightarrow> 's \<Rightarrow> bool \<times> 's" where
  "renewLoop rp svc lock [] s = (True, s)"
| "renewLoop rp svc lock (Stop # evs) s = (False, s)"
| "renewLoop rp svc lock (Tick now # evs) s =
     (case renewTick rp svc lock now s of
        (True, s) \<Rightarrow> renewLoop rp svc lock evs s
      | (False, s) \<Rightarrow> (False, s))"

section \<open>Lemmas\<close>

lemma busyError_Is: "Is ErrSystemOperationBusy (busyError op l now)"
  by (simp add: busyError_def Is_def ErrSystemOperationBusy_def error_constructors New_def Let_def)

lemma NewService_pos:
  "0 < ss_lease (NewSystemOperationLockService cfg) \<and>
   0 < ss_renewInterval (NewSystemOperationLockService cfg) \<and>
   0 < ss_ttl (NewSystemOperationLockService cfg)"
  by (simp add: NewSystemOperationLockService_def Let_def)

text \<open>The row of the lock in a quiet table, and what \<open>Acquire\<close> does with it.\<close>

lemma Acquire_reclaims:
  assumes wf: "table_wf (db_table s)" and quiet: "db_turns s = []"
    and row: "GetByScopeAndKeyHash_sql systemOperationLockScope (sha systemOperationLockKey)
                (db_table s) = Some r"
    and free: "case idr_LockedUntil r of None \<Rightarrow> True | Some l \<Rightarrow> l \<le> now" and op: "op \<noteq> ''''"
  obtains s' where
    "Acquire sha (Some idempotencyRepository) svc op now s =
       (Inr \<lparr>sl_recordID = idr_ID r, sl_operationID = op, sl_stopped = False\<rparr>, s')"
    "db_turns s' = []" "table_wf (db_table s')"
    "GetByScopeAndKeyHash_sql systemOperationLockScope (sha systemOperationLockKey) (db_table s') =
       Some (r\<lparr>idr_Status := IdempotencyStatusProcessing,
               idr_LockedUntil := Some (now + ss_lease svc), idr_ErrorReason := None,
               idr_UpdatedAt := db_clock s, idr_ExpiresAt := now + ss_ttl svc\<rparr>)"
proof -
  let ?k = "sha systemOperationLockKey" and ?t = "db_table s"
  let ?rec = "\<lparr>idr_ID = 0, idr_Scope = systemOperationLockScope, idr_IdempotencyKeyHash = ?k,
      idr_RequestFingerprint = op, idr_Status = IdempotencyStatusProcessing,
      idr_ResponseStatus = None, idr_ResponseBody = None, idr_ErrorReason = None,
      idr_LockedUntil = Some (now + ss_lease svc), idr_ExpiresAt = now + ss_ttl svc,
      idr_CreatedAt = 0, idr_UpdatedAt = 0\<rparr>"
  let ?t1 = "?t\<lparr>it_next_id := it_next_id ?t + 1\<rparr>"
  let ?rc = "TryReclaim_sql (db_clock s) (idr_ID r) (idr_Status r) now (now + ss_lease svc)
      (now + ss_ttl svc) ?t1"
  from Get_Some [OF row] have r: "r \<in> set (it_rows ?t)" "idem_key r = (systemOperationLockScope, ?k)"
    by auto
  have c: "CreateProcessing_sql (db_clock s) ?rec ?t = ((False, ?rec), ?t1)"
    using r by (auto simp: CreateProcessing_sql_def Let_def idem_key_def)
  have wf1: "table_wf ?t1" using CreateProcessing_wf [OF wf, of "db_clock s" ?rec] c by simp
  have g: "GetByScopeAndKeyHash_sql systemOperationLockScope ?k ?t1 = Some r"
    using row by (simp add: GetByScopeAndKeyHash_sql_def)
  have taken: "fst ?rc" using r free by (auto simp: TryReclaim_sql_def update_rows_def)
  have nz: "idr_ID r \<noteq> 0" using wf r by (auto simp: table_wf_def)
  let ?s' = "s\<lparr>db_table := snd ?rc\<rparr>"
  have busy: "\<not> (idr_Status r = IdempotencyStatusProcessing \<and>
      (case idr_LockedUntil r of None \<Rightarrow> False | Some l \<Rightarrow> now < l))"
    using free by (auto split: option.splits)
  show ?thesis
  proof
    show "Acquire sha (Some idempotencyRepository) svc op now s =
       (Inr \<lparr>sl_recordID = idr_ID r, sl_operationID = op, sl_stopped = False\<rparr>, ?s')"
      using op quiet c g taken nz busy by (simp add: Acquire_def repo_fields sql_call_quiet Let_def)
    show "db_turns ?s' = []" using quiet by simp
    show "table_wf (db_table ?s')" using wf1 by (simp add: TryReclaim_sql_def update_rows_wf)
    show "GetByScopeAndKeyHash_sql systemOperationLockScope ?k (db_table ?s') =
       Some (r\<lparr>idr_Status := IdempotencyStatusProcessing,
               idr_LockedUntil := Some (now + ss_lease svc), idr_ErrorReason := None,
               idr_UpdatedAt := db_clock s, idr_ExpiresAt := now + ss_ttl svc\<rparr>)"
      using g free by (auto simp: TryReclaim_sql_def update_rows_Get)
  qed
qed

lemma renewTick_lost:
  assumes "table_wf (db_table s)" and "db_turns s = []" and "r \<in> set (it_rows (db_table s))"
    and "sl_recordID l = idr_ID r" and "idr_RequestFingerprint r \<noteq> sl_operationID l"
  shows "renewTick idempotencyRepository svc l now s = (False, s)"
proof -
  have "\<not> (idr_ID q = idr_ID r \<and> idr_Status q = IdempotencyStatusProcessing \<and>
      idr_RequestFingerprint q = sl_operationID l)" if "q \<in> set (it_rows (db_table s))" for q
    using that assms by (auto simp: table_wf_def dest: distinct_map_same)
  then show ?thesis
    using assms(2,4)
    by (auto simp: renewTick_def repo_fields sql_call_quiet ExtendProcessingLock_sql_def
        update_rows_def update_where_id)
qed

lemma Acquire_busy:
  assumes held: "held r s" and key: "idem_key r = (systemOperationLockScope, sha systemOperationLockKey)"
    and busy: "idr_Status r = IdempotencyStatusProcessing" "idr_LockedUntil r = Some l" "now < l"
  shows "\<exists>e. fst (Acquire sha (Some idempotencyRepository) svc op now s) = Inl e \<and>
    (op \<noteq> '''' \<and> faultless s \<longrightarrow> e = busyError (idr_RequestFingerprint r) (Some l) now)"
proof -
  let ?k = "sha systemOperationLockKey" and ?d = "db_clock s"
  let ?rec = "\<lparr>idr_ID = 0, idr_Scope = systemOperationLockScope, idr_IdempotencyKeyHash = ?k,
      idr_RequestFingerprint = op, idr_Status = IdempotencyStatusProcessing,
      idr_ResponseStatus = None, idr_ResponseBody = None, idr_ErrorReason = None,
      idr_LockedUntil = Some (now + ss_lease svc), idr_ExpiresAt = now + ss_ttl svc,
      idr_CreatedAt = 0, idr_UpdatedAt = 0\<rparr>"
  have k: "idem_key ?rec = idem_key r" using key by (simp add: idem_key_def)
  from held_Create_call [OF held k, of ?d] obtain s1 where s1: "held r s1" "faultless s \<longrightarrow> faultless s1"
    "sql_call (CreateProcessing_sql ?d ?rec) s = (Inr (False, ?rec), s1) \<or>
     (\<not> faultless s \<and> (\<exists>e. sql_call (CreateProcessing_sql ?d ?rec) s = (Inl e, s1)))" by blast
  from held_Get_call [OF s1(1) key] obtain s2 where s2:
    "sql_call (\<lambda>t. (GetByScopeAndKeyHash_sql systemOperationLockScope ?k t, t)) s1 = (Inr (Some r), s2) \<or>
     (\<not> faultless s1 \<and>
      (\<exists>e. sql_call (\<lambda>t. (GetByScopeAndKeyHash_sql systemOperationLockScope ?k t, t)) s1 = (Inl e, s2)))"
    by blast
  show ?thesis
    using s1(2,3) s2 busy by (auto simp: Acquire_def repo_fields Let_def)
qed

text \<open>A lock row that its holder can renew: it carries the holder's operation id.\<close>

definition owns_lock :: "SystemOperationLock \<Rightarrow> time \<Rightarrow> db_state \<Rightarrow> bool" where
  "owns_lock l until s \<longleftrightarrow> table_wf (db_table s) \<and> db_turns s = [] \<and>
     (case row_of (db_table s) (sl_recordID l) of None \<Rightarrow> False
      | Some q \<Rightarrow> idr_Status q = IdempotencyStatusProcessing \<and>
          idr_RequestFingerprint q = sl_operationID l \<and> idr_LockedUntil q = Some until)"

lemma renewTick_owned:
  assumes "owns_lock l u s"
  obtains s' where "renewTick idempotencyRepository svc l now s = (True, s')"
    "owns_lock l (now + ss_lease svc) s'"
proof -
  from assms obtain q where q: "row_of (db_table s) (sl_recordID l) = Some q"
    "idr_Status q = IdempotencyStatusProcessing" "idr_RequestFingerprint q = sl_operationID l"
    and wf: "table_wf (db_table s)" and quiet: "db_turns s = []"
    by (auto simp: owns_lock_def split: option.splits)
  let ?x = "ExtendProcessingLock_sql (db_clock s) (sl_recordID l) (sl_operationID l)
      (now + ss_lease svc) (now + ss_ttl svc) (db_table s)"
  have "fst ?x" using q row_of_Some [OF q(1)] by (auto simp: ExtendProcessingLock_sql_def update_rows_def)
  moreover have "row_of (snd ?x) (sl_recordID l) =
      Some (q\<lparr>idr_LockedUntil := Some (now + ss_lease svc), idr_ExpiresAt := now + ss_ttl svc,
              idr_UpdatedAt := db_clock s\<rparr>)"
    using q row_of_Some [OF q(1)] by (simp add: ExtendProcessingLock_sql_def update_rows_row_of)
  moreover have "table_wf (snd ?x)" using wf by (simp add: ExtendProcessingLock_sql_def update_rows_wf)
  ultimately show ?thesis
    using quiet q by (intro that [of "s\<lparr>db_table := snd ?x\<rparr>"])
      (auto simp: renewTick_def repo_fields sql_call_quiet owns_lock_def)
qed

lemma renewLoop_owned:
  "owns_lock l u s \<Longrightarrow>
     \<exists>s'. renewLoop idempotencyRepository svc l (map Tick ts) s = (True, s') \<and>
          owns_lock l (last (u # map (\<lambda>t. t + ss_lease svc) ts)) s'"
proof (induction ts arbitrary: u s)
  case Nil
  then show ?case by simp
next
  case (Cons t ts)
  obtain s1 where s1: "renewTick idempotencyRepository svc l t s = (True, s1)"
    "owns_lock l (t + ss_lease svc) s1" by (rule renewTick_owned [OF Cons.prems])
  from Cons.IH [OF s1(2)] s1(1) show ?case by auto
qed

lemma Acquire_fresh:
  assumes wf: "table_wf (db_table s)" and quiet: "db_turns s = []" and op: "op \<noteq> ''''"
    and absent: "GetByScopeAndKeyHash_sql systemOperationLockScope (sha systemOperationLockKey)
                   (db_table s) = None"
  obtains l s' where "Acquire sha (Some idempotencyRepository) svc op now s = (Inr l, s')"
    "sl_operationID l = op" "owns_lock l (now + ss_lease svc) s'"
proof -
  let ?k = "sha systemOperationLockKey" and ?t = "db_table s"
  let ?rec = "\<lparr>idr_ID = 0, idr_Scope = systemOperationLockScope, idr_IdempotencyKeyHash = ?k,
      idr_RequestFingerprint = op, idr_Status = IdempotencyStatusProcessing,
      idr_ResponseStatus = None, idr_ResponseBody = None, idr_ErrorReason = None,
      idr_LockedUntil = Some (now + ss_lease svc), idr_ExpiresAt = now + ss_ttl svc,
      idr_CreatedAt = 0, idr_UpdatedAt = 0\<rparr>"
  have "\<not> (\<exists>r \<in> set (it_rows ?t). idem_key r = idem_key ?rec)"
    using absent by (auto simp: GetByScopeAndKeyHash_sql_def find_None_iff idem_key_def)
  then obtain rec' t' where c: "CreateProcessing_sql (db_clock s) ?rec ?t = ((True, rec'), t')"
    by (auto simp: CreateProcessing_sql_def Let_def)
  from Create_claims [OF wf c] obtain q where q: "row_of t' (idr_ID rec') = Some q" "idr_ID rec' \<noteq> 0"
    "idr_RequestFingerprint q = op" "idr_Status q = IdempotencyStatusProcessing"
    "idr_LockedUntil q = Some (now + ss_lease svc)" by (auto simp: claimed_row_def)
  have "table_wf t'" using CreateProcessing_wf [OF wf, of "db_clock s" ?rec] c by simp
  with q quiet c op show ?thesis
    by (intro that [of "\<lparr>sl_recordID = idr_ID rec', sl_operationID = op, sl_stopped = False\<rparr>"
          "s\<lparr>db_table := t'\<rparr>"])
      (auto simp: Acquire_def repo_fields sql_call_quiet Let_def owns_lock_def)
qed

section \<open>Properties\<close>

text \<open>C8: Exclusion. While the lock row is in processing and its lease has not run out, \<open>Acquire\<close>
  is refused, whatever other processes that do not hold the lock do between its statements and
  whichever of them fail; without failures the refusal is the busy error, naming the holder.\<close>

theorem Acquire_excluded:
  assumes "held r s" and "idem_key r = (systemOperationLockScope, sha systemOperationLockKey)"
    and "idr_Status r = IdempotencyStatusProcessing" and "idr_LockedUntil r = Some l" and "now < l"
  shows "\<exists>e. fst (Acquire sha (Some idempotencyRepository) svc op now s) = Inl e \<and>
    (op \<noteq> '''' \<and> faultless s \<longrightarrow> e = busyError (idr_RequestFingerprint r) (Some l) now)"
  using assms by (rule Acquire_busy)

definition lock_row :: "string \<Rightarrow> string \<Rightarrow> time option \<Rightarrow> IdempotencyRecord" where
  "lock_row op st lu = \<lparr>idr_ID = 1, idr_Scope = systemOperationLockScope,
     idr_IdempotencyKeyHash = systemOperationLockKey, idr_RequestFingerprint = op,
     idr_Status = st, idr_ResponseStatus = None, idr_ResponseBody = None, idr_ErrorReason = None,
     idr_LockedUntil = lu, idr_ExpiresAt = Hour, idr_CreatedAt = 0, idr_UpdatedAt = 0\<rparr>"

definition lock_state :: "IdempotencyRecord list \<Rightarrow> db_state" where
  "lock_state rows = \<lparr>db_table = \<lparr>it_rows = rows, it_next_id = 2\<rparr>, db_clock = 0, db_turns = []\<rparr>"

theorem Acquire_excluded_witness:
  "fst (Acquire (\<lambda>k. k) (Some idempotencyRepository) (NewSystemOperationLockService DefaultIdempotencyConfig)
     ''op2'' (5 * Second) (lock_state [lock_row ''op1'' IdempotencyStatusProcessing (Some (30 * Second))])) =
   Inl (busyError ''op1'' (Some (30 * Second)) (5 * Second))"
  using Acquire_excluded [of "lock_row ''op1'' IdempotencyStatusProcessing (Some (30 * Second))"
      "lock_state [lock_row ''op1'' IdempotencyStatusProcessing (Some (30 * Second))]" "\<lambda>k. k"
      "30 * Second" "5 * Second" "NewSystemOperationLockService DefaultIdempotencyConfig" "''op2''"]
  by (simp add: held_def faultless_def table_wf_def row_of_def idem_key_def lock_state_def lock_row_def)

text \<open>Renewal. A lock acquired when no lock row exists is renewed at every tick: the loop never
  stops by itself, and after the last tick the row is locked until that tick plus the lease.\<close>

lemma fresh_lock_renewed:
  assumes "table_wf (db_table s)" and "db_turns s = []" and "op \<noteq> ''''"
    and "GetByScopeAndKeyHash_sql systemOperationLockScope (sha systemOperationLockKey) (db_table s) = None"
  shows "\<exists>l s1. Acquire sha (Some idempotencyRepository) svc op now s = (Inr l, s1) \<and>
    (\<forall>ts. \<exists>s2. renewLoop idempotencyRepository svc l (map Tick ts) s1 = (True, s2) \<and>
       owns_lock l (last (now # ts) + ss_lease svc) s2)"
proof -
  obtain l s1 where l: "Acquire sha (Some idempotencyRepository) svc op now s = (Inr l, s1)"
    "owns_lock l (now + ss_lease svc) s1" by (rule Acquire_fresh [where sha = sha, OF assms])
  have "last ((now + ss_lease svc) # map (\<lambda>t. t + ss_lease svc) ts) = last (now # ts) + ss_lease svc"
    for ts by (simp add: last_map)
  with l renewLoop_owned [OF l(2), of svc] show ?thesis by metis
qed

text \<open>C9: A lock taken over from an earlier operation is not renewed. \<open>TryReclaim\<close> leaves the
  earlier operation's id in the row, so the new holder's renewal finds no row of its own and
  stops at the first tick; once the lease has run out another \<open>Acquire\<close> succeeds, although the
  first lock was never released.\<close>

theorem reclaimed_lock_lost:
  assumes wf: "table_wf (db_table s)" and quiet: "db_turns s = []"
    and row: "GetByScopeAndKeyHash_sql systemOperationLockScope (sha systemOperationLockKey)
                (db_table s) = Some r"
    and free: "case idr_LockedUntil r of None \<Rightarrow> True | Some u \<Rightarrow> u \<le> now"
    and ops: "op1 \<noteq> ''''" "op2 \<noteq> ''''" and other: "idr_RequestFingerprint r \<noteq> op1"
    and lapsed: "now + ss_lease svc \<le> now2"
  shows "\<exists>l1 s1 l2 s2.
    Acquire sha (Some idempotencyRepository) svc op1 now s = (Inr l1, s1) \<and>
    (\<forall>t ts. renewLoop idempotencyRepository svc l1 (Tick t # ts) s1 = (False, s1)) \<and>
    Acquire sha (Some idempotencyRepository) svc op2 now2 s1 = (Inr l2, s2) \<and>
    sl_operationID l1 = op1 \<and> sl_operationID l2 = op2 \<and> sl_recordID l1 = sl_recordID l2"
proof -
  let ?r1 = "r\<lparr>idr_Status := IdempotencyStatusProcessing,
    idr_LockedUntil := Some (now + ss_lease svc), idr_ErrorReason := None,
    idr_UpdatedAt := db_clock s, idr_ExpiresAt := now + ss_ttl svc\<rparr>"
  let ?l1 = "\<lparr>sl_recordID = idr_ID r, sl_operationID = op1, sl_stopped = False\<rparr>"
  obtain s1 where s1: "Acquire sha (Some idempotencyRepository) svc op1 now s = (Inr ?l1, s1)"
    "db_turns s1 = []" "table_wf (db_table s1)"
    "GetByScopeAndKeyHash_sql systemOperationLockScope (sha systemOperationLockKey) (db_table s1) =
       Some ?r1"
    by (rule Acquire_reclaims [where sha = sha, OF wf quiet row free ops(1)])
  from Get_Some [OF s1(4)] have "?r1 \<in> set (it_rows (db_table s1))" by simp
  then have "renewTick idempotencyRepository svc ?l1 t s1 = (False, s1)" for t
    using s1(2,3) other by (intro renewTick_lost [of s1 ?r1]) auto
  moreover have "case idr_LockedUntil ?r1 of None \<Rightarrow> True | Some u \<Rightarrow> u \<le> now2" using lapsed by simp
  from Acquire_reclaims [where sha = sha, OF s1(3,2,4) this ops(2)]
  obtain s2 where "Acquire sha (Some idempotencyRepository) svc op2 now2 s1 =
       (Inr \<lparr>sl_recordID = idr_ID ?r1, sl_operationID = op2, sl_stopped = False\<rparr>, s2)" by blast
  ultimately show ?thesis using s1(1) by auto
qed

theorem reclaimed_lock_lost_witness:
  "\<exists>l1 s1 l2 s2.
    Acquire (\<lambda>k. k) (Some idempotencyRepository) (NewSystemOperationLockService DefaultIdempotencyConfig)
      ''op1'' 0 (lock_state [lock_row ''op0'' IdempotencyStatusSucceeded None]) = (Inr l1, s1) \<and>
    (\<forall>t ts. renewLoop idempotencyRepository (NewSystemOperationLockService DefaultIdempotencyConfig) l1
       (Tick t # ts) s1 = (False, s1)) \<and>
    Acquire (\<lambda>k. k) (Some idempotencyRepository) (NewSystemOperationLockService DefaultIdempotencyConfig)
      ''op2'' (30 * Second) s1 = (Inr l2, s2) \<and>
    sl_operationID l1 = ''op1'' \<and> sl_operationID l2 = ''op2'' \<and> sl_recordID l1 = sl_recordID l2"
  using reclaimed_lock_lost [of "lock_state [lock_row ''op0'' IdempotencyStatusSucceeded None]"
      "\<lambda>k. k" "lock_row ''op0'' IdempotencyStatusSucceeded None" 0 "''op1''" "''op2''"
      "NewSystemOperationLockService DefaultIdempotencyConfig" "30 * Second"]
  by (simp add: lock_state_def lock_row_def table_wf_def GetByScopeAndKeyHash_sql_def idem_key_def
      NewSystemOperationLockService_def DefaultIdempotencyConfig_def)

end
