(* ===== verification/Slot_Cache.thy ===== *)
theory Slot_Cache
  imports App_Errors "HOL-Library.AList"
begin

text \<open>
  The Redis side of the concurrency limits, \<open>repository/concurrency_cache.go\<close>: the Lua scripts,
  each one atomic step on the key space, and the methods of \<open>concurrencyCache\<close> that run them.

  A sorted set is the association list of its members and scores, in seconds of the Redis clock;
  it exists only while it has members, and until its expiry. The slot keys and the wait counters
  have different prefixes, so the key space is kept as two maps. Every script and command reads
  the clock \<open>now\<close> of the server. A call that fails (the connection is lost, a timeout) is the
  argument \<open>fault\<close>: the error it returns; the key space is then left as it was (a command that takes
  effect although its answer is lost is outside the model). \<open>SCAN\<close> is the list of the pages it returns.
\<close>

section \<open>The key space\<close>

type_synonym zset = "(string \<times> int) list"

record redis =
  rd_zsets :: "string \<rightharpoonup> zset \<times> int"
  rd_counters :: "string \<rightharpoonup> int \<times> int"

text \<open>The members of a sorted set at time \<open>now\<close>, none when the key is absent or has expired; a
  set that becomes empty is removed. The counter keys work alike, \<open>GET\<close> giving \<open>false\<close> (\<open>None\<close>)
  for an absent key.\<close>

definition zmembers :: "int \<Rightarrow> string \<Rightarrow> redis \<Rightarrow> zset" where
  "zmembers now key r =
     (case rd_zsets r key of None \<Rightarrow> [] | Some (zs, ex) \<Rightarrow> if ex \<le> now then [] else zs)"

definition zexpiry :: "string \<Rightarrow> redis \<Rightarrow> int" where
  "zexpiry key r = (case rd_zsets r key of None \<Rightarrow> 0 | Some (_, ex) \<Rightarrow> ex)"

definition zput :: "string \<Rightarrow> zset \<Rightarrow> int \<Rightarrow> redis \<Rightarrow> redis" where
  "zput key zs ex r =
     r\<lparr>rd_zsets := (rd_zsets r)(key := (if zs = [] then None else Some (zs, ex)))\<rparr>"

definition get_counter :: "int \<Rightarrow> string \<Rightarrow> redis \<Rightarrow> int option" where
  "get_counter now key r =
     (case rd_counters r key of None \<Rightarrow> None
      | Some (v, ex) \<Rightarrow> if ex \<le> now then None else Some v)"

text \<open>\<open>ZREMRANGEBYSCORE key -inf bound\<close>.\<close>

definition drop_expired :: "int \<Rightarrow> zset \<Rightarrow> zset" where
  "drop_expired bound zs = filter (\<lambda>(_, sc). bound < sc) zs"

section \<open>Scripts\<close>

definition acquireScript ::
  "int \<Rightarrow> string \<Rightarrow> int \<Rightarrow> int \<Rightarrow> string \<Rightarrow> redis \<Rightarrow> int \<times> redis" where
  "acquireScript now key maxConcurrency ttl requestID r =
     (let expireBefore = now - ttl;
          zs = drop_expired expireBefore (zmembers now key r)
      in if map_of zs requestID \<noteq> None then
           (1, zput key (AList.update requestID now zs) (now + ttl) r)
         else if int (length zs) < maxConcurrency then
           (1, zput key (AList.update requestID now zs) (now + ttl) r)
         else (0, zput key zs (zexpiry key r) r))"

definition getCountScript :: "int \<Rightarrow> string \<Rightarrow> int \<Rightarrow> redis \<Rightarrow> int \<times> redis" where
  "getCountScript now key ttl r =
     (let zs = drop_expired (now - ttl) (zmembers now key r)
      in (int (length zs), zput key zs (zexpiry key r) r))"

definition incrementWaitScript :: "int \<Rightarrow> string \<Rightarrow> int \<Rightarrow> int \<Rightarrow> redis \<Rightarrow> int \<times> redis" where
  "incrementWaitScript now key maxWait ttl r =
     (let current = (case get_counter now key r of None \<Rightarrow> 0 | Some v \<Rightarrow> v)
      in if maxWait \<le> current then (0, r)
         else (1, r\<lparr>rd_counters := (rd_counters r)(key \<mapsto> (current + 1, now + ttl))\<rparr>))"

definition incrementAccountWaitScript :: "int \<Rightarrow> string \<Rightarrow> int \<Rightarrow> int \<Rightarrow> redis \<Rightarrow> int \<times> redis" where
  "incrementAccountWaitScript now key maxWait ttl r =
     (let current = (case get_counter now key r of None \<Rightarrow> 0 | Some v \<Rightarrow> v)
      in if maxWait \<le> current then (0, r)
         else (1, r\<lparr>rd_counters := (rd_counters r)(key \<mapsto> (current + 1, now + ttl))\<rparr>))"

definition decrementWaitScript :: "int \<Rightarrow> string \<Rightarrow> redis \<Rightarrow> int \<times> redis" where
  "decrementWaitScript now key r =
     (1, case get_counter now key r of None \<Rightarrow> r
         | Some v \<Rightarrow>
             if 0 < v
             then r\<lparr>rd_counters := (rd_counters r)(key :=
                      map_option (\<lambda>(_, ex). (v - 1, ex)) (rd_counters r key))\<rparr>
             else r)"

definition cleanupExpiredSlotsScript :: "int \<Rightarrow> string \<Rightarrow> int \<Rightarrow> redis \<Rightarrow> int \<times> redis" where
  "cleanupExpiredSlotsScript now key ttl r =
     (1, zput key (drop_expired (now - ttl) (zmembers now key r)) (now + ttl) r)"

text \<open>The loop over the keys of \<open>startupCleanupScript\<close>; the result counts the members removed.\<close>

fun startupCleanupScript ::
  "int \<Rightarrow> string list \<Rightarrow> string \<Rightarrow> int \<Rightarrow> redis \<Rightarrow> int \<times> redis" where
  "startupCleanupScript now [] activePrefix slotTTL r = (0, r)"
| "startupCleanupScript now (key # keys) activePrefix slotTTL r =
     (let members = zmembers now key r;
          kept = filter (\<lambda>(m, _). take (length activePrefix) m = activePrefix) members;
          (removed, r) = startupCleanupScript now keys activePrefix slotTTL
                           (zput key kept (now + slotTTL) r)
      in (int (length members) - int (length kept) + removed, r))"

section \<open>The cache\<close>

definition accountSlotKeyPrefix :: string where "accountSlotKeyPrefix = ''concurrency:account:''"
definition userSlotKeyPrefix :: string where "userSlotKeyPrefix = ''concurrency:user:''"
definition waitQueueKeyPrefix :: string where "waitQueueKeyPrefix = ''concurrency:wait:''"
definition accountWaitKeyPrefix :: string where "accountWaitKeyPrefix = ''wait:account:''"
definition defaultSlotTTLMinutes :: int where "defaultSlotTTLMinutes = 15"

definition accountSlotKey :: "int \<Rightarrow> string" where
  "accountSlotKey accountID = accountSlotKeyPrefix @ itoa accountID"
definition userSlotKey :: "int \<Rightarrow> string" where
  "userSlotKey userID = userSlotKeyPrefix @ itoa userID"
definition waitQueueKey :: "int \<Rightarrow> string" where
  "waitQueueKey userID = waitQueueKeyPrefix @ itoa userID"
definition accountWaitKey :: "int \<Rightarrow> string" where
  "accountWaitKey accountID = accountWaitKeyPrefix @ itoa accountID"

record concurrencyCache =
  cc_slotTTLSeconds :: int
  cc_waitQueueTTLSeconds :: int

definition NewConcurrencyCache :: "int \<Rightarrow> int \<Rightarrow> concurrencyCache" where
  "NewConcurrencyCache slotTTLMinutes waitQueueTTLSeconds =
     (let slotTTLMinutes = (if slotTTLMinutes \<le> 0 then defaultSlotTTLMinutes else slotTTLMinutes);
          waitQueueTTLSeconds =
            (if waitQueueTTLSeconds \<le> 0 then slotTTLMinutes * 60 else waitQueueTTLSeconds)
      in \<lparr>cc_slotTTLSeconds = slotTTLMinutes * 60, cc_waitQueueTTLSeconds = waitQueueTTLSeconds\<rparr>)"

text \<open>A command or script run over the connection.\<close>

definition redis_run :: "go_error option \<Rightarrow> (redis \<Rightarrow> 'a \<times> redis) \<Rightarrow> redis \<Rightarrow> (go_error + 'a) \<times> redis" where
  "redis_run fault cmd r =
     (case fault of Some e \<Rightarrow> (Inl e, r) | None \<Rightarrow> (case cmd r of (x, r) \<Rightarrow> (Inr x, r)))"

definition as_bool :: "(go_error + int) \<times> redis \<Rightarrow> (go_error + bool) \<times> redis" where
  "as_bool x = (case x of (Inl e, r) \<Rightarrow> (Inl e, r) | (Inr v, r) \<Rightarrow> (Inr (v = 1), r))"

definition as_error :: "(go_error + 'a) \<times> redis \<Rightarrow> go_error option \<times> redis" where
  "as_error x = (case x of (Inl e, r) \<Rightarrow> (Some e, r) | (Inr _, r) \<Rightarrow> (None, r))"

text \<open>\<open>ZREM key member\<close>.\<close>

definition zrem :: "int \<Rightarrow> string \<Rightarrow> string \<Rightarrow> redis \<Rightarrow> unit \<times> redis" where
  "zrem now key m r = ((), zput key (AList.delete m (zmembers now key r)) (zexpiry key r) r)"

definition cache_AcquireAccountSlot ::
  "concurrencyCache \<Rightarrow> go_error option \<Rightarrow> int \<Rightarrow> int \<Rightarrow> int \<Rightarrow> string \<Rightarrow> redis
     \<Rightarrow> (go_error + bool) \<times> redis" where
  "cache_AcquireAccountSlot c fault now accountID maxConcurrency requestID r =
     as_bool (redis_run fault
       (acquireScript now (accountSlotKey accountID) maxConcurrency (cc_slotTTLSeconds c) requestID) r)"

definition cache_ReleaseAccountSlot ::
  "go_error option \<Rightarrow> int \<Rightarrow> int \<Rightarrow> string \<Rightarrow> redis \<Rightarrow> go_error option \<times> redis" where
  "cache_ReleaseAccountSlot fault now accountID requestID r =
     as_error (redis_run fault (zrem now (accountSlotKey accountID) requestID) r)"

definition cache_GetAccountConcurrency ::
  "concurrencyCache \<Rightarrow> go_error option \<Rightarrow> int \<Rightarrow> int \<Rightarrow> redis \<Rightarrow> (go_error + int) \<times> redis" where
  "cache_GetAccountConcurrency c fault now accountID r =
     redis_run fault (getCountScript now (accountSlotKey accountID) (cc_slotTTLSeconds c)) r"

definition cache_AcquireUserSlot ::
  "concurrencyCache \<Rightarrow> go_error option \<Rightarrow> int \<Rightarrow> int \<Rightarrow> int \<Rightarrow> string \<Rightarrow> redis
     \<Rightarrow> (go_error + bool) \<times> redis" where
  "cache_AcquireUserSlot c fault now userID maxConcurrency requestID r =
     as_bool (redis_run fault
       (acquireScript now (userSlotKey userID) maxConcurrency (cc_slotTTLSeconds c) requestID) r)"

definition cache_ReleaseUserSlot ::
  "go_error option \<Rightarrow> int \<Rightarrow> int \<Rightarrow> string \<Rightarrow> redis \<Rightarrow> go_error option \<times> redis" where
  "cache_ReleaseUserSlot fault now userID requestID r =
     as_error (redis_run fault (zrem now (userSlotKey userID) requestID) r)"

definition cache_GetUserConcurrency ::
  "concurrencyCache \<Rightarrow> go_error option \<Rightarrow> int \<Rightarrow> int \<Rightarrow> redis \<Rightarrow> (go_error + int) \<times> redis" where
  "cache_GetUserConcurrency c fault now userID r =
     redis_run fault (getCountScript now (userSlotKey userID) (cc_slotTTLSeconds c)) r"

definition cache_IncrementWaitCount ::
  "concurrencyCache \<Rightarrow> go_error option \<Rightarrow> int \<Rightarrow> int \<Rightarrow> int \<Rightarrow> redis \<Rightarrow> (go_error + bool) \<times> redis" where
  "cache_IncrementWaitCount c fault now userID maxWait r =
     as_bool (redis_run fault
       (incrementWaitScript now (waitQueueKey userID) maxWait (cc_waitQueueTTLSeconds c)) r)"

definition cache_DecrementWaitCount ::
  "go_error option \<Rightarrow> int \<Rightarrow> int \<Rightarrow> redis \<Rightarrow> go_error option \<times> redis" where
  "cache_DecrementWaitCount fault now userID r =
     as_error (redis_run fault (decrementWaitScript now (waitQueueKey userID)) r)"

definition cache_IncrementAccountWaitCount ::
  "concurrencyCache \<Rightarrow> go_error option \<Rightarrow> int \<Rightarrow> int \<Rightarrow> int \<Rightarrow> redis \<Rightarrow> (go_error + bool) \<times> redis" where
  "cache_IncrementAccountWaitCount c fault now accountID maxWait r =
     as_bool (redis_run fault
       (incrementAccountWaitScript now (accountWaitKey accountID) maxWait (cc_waitQueueTTLSeconds c)) r)"

definition cache_DecrementAccountWaitCount ::
  "go_error option \<Rightarrow> int \<Rightarrow> int \<Rightarrow> redis \<Rightarrow> go_error option \<times> redis" where
  "cache_DecrementAccountWaitCount fault now accountID r =
     as_error (redis_run fault (decrementWaitScript now (accountWaitKey accountID)) r)"

definition cache_GetAccountWaitingCount ::
  "go_error option \<Rightarrow> int \<Rightarrow> int \<Rightarrow> redis \<Rightarrow> go_error + int" where
  "cache_GetAccountWaitingCount fault now accountID r =
     (case fault of Some e \<Rightarrow> Inl e
      | None \<Rightarrow> (case get_counter now (accountWaitKey accountID) r of
                   None \<Rightarrow> Inr 0 | Some v \<Rightarrow> Inr v))"

text \<open>The pipelines: for each entry the expired slots are dropped and the remaining ones counted;
  the load rate is the percentage of the limit that is in use or waited for. \<open>timeFault\<close> and
  \<open>pipeFault\<close> are the failures of \<open>TIME\<close> and of the pipeline.\<close>

record AccountWithConcurrency =
  ac_ID :: int
  ac_MaxConcurrency :: int

record AccountLoadInfo =
  al_AccountID :: int
  al_CurrentConcurrency :: int
  al_WaitingCount :: int
  al_LoadRate :: int

definition loadRate :: "int \<Rightarrow> int \<Rightarrow> int \<Rightarrow> int" where
  "loadRate currentConcurrency waitingCount maxConcurrency =
     (if 0 < maxConcurrency then (currentConcurrency + waitingCount) * 100 sdiv maxConcurrency else 0)"

fun concurrency_pipe ::
  "int \<Rightarrow> int \<Rightarrow> int list \<Rightarrow> redis \<Rightarrow> (int \<times> int) list \<times> redis" where
  "concurrency_pipe now ttl [] r = ([], r)"
| "concurrency_pipe now ttl (a # as) r =
     (case getCountScript now (accountSlotKey a) ttl r of (n, r) \<Rightarrow>
        (case concurrency_pipe now ttl as r of (cs, r) \<Rightarrow> ((a, n) # cs, r)))"

definition cache_GetAccountConcurrencyBatch ::
  "concurrencyCache \<Rightarrow> go_error option \<Rightarrow> go_error option \<Rightarrow> int \<Rightarrow> int list \<Rightarrow> redis
     \<Rightarrow> (go_error + (int \<rightharpoonup> int)) \<times> redis" where
  "cache_GetAccountConcurrencyBatch c timeFault pipeFault now accountIDs r =
     (if accountIDs = [] then (Inr Map.empty, r)
      else case timeFault of Some e \<Rightarrow> (Inl (OtherError ''redis TIME'' (Some e)), r)
      | None \<Rightarrow>
      (case pipeFault of Some e \<Rightarrow> (Inl (OtherError ''pipeline exec'' (Some e)), r)
       | None \<Rightarrow>
       (case concurrency_pipe now (cc_slotTTLSeconds c) accountIDs r of (cs, r) \<Rightarrow>
          (Inr (fold (\<lambda>(a, n) m. m(a \<mapsto> n)) cs Map.empty), r))))"

definition load_entry :: "(int \<Rightarrow> string) \<Rightarrow> (int \<Rightarrow> string) \<Rightarrow> int \<Rightarrow> int
     \<Rightarrow> AccountWithConcurrency \<Rightarrow> redis \<Rightarrow> AccountLoadInfo \<times> redis" where
  "load_entry slotKey waitKey now ttl acc r =
     (case getCountScript now (slotKey (ac_ID acc)) ttl r of (currentConcurrency, r) \<Rightarrow>
        let waitingCount = (case get_counter now (waitKey (ac_ID acc)) r of None \<Rightarrow> 0 | Some v \<Rightarrow> v)
        in (\<lparr>al_AccountID = ac_ID acc, al_CurrentConcurrency = currentConcurrency,
             al_WaitingCount = waitingCount,
             al_LoadRate = loadRate currentConcurrency waitingCount (ac_MaxConcurrency acc)\<rparr>, r))"

fun load_pipe :: "(int \<Rightarrow> string) \<Rightarrow> (int \<Rightarrow> string) \<Rightarrow> int \<Rightarrow> int
     \<Rightarrow> AccountWithConcurrency list \<Rightarrow> redis \<Rightarrow> AccountLoadInfo list \<times> redis" where
  "load_pipe slotKey waitKey now ttl [] r = ([], r)"
| "load_pipe slotKey waitKey now ttl (a # as) r =
     (case load_entry slotKey waitKey now ttl a r of (i, r) \<Rightarrow>
        (case load_pipe slotKey waitKey now ttl as r of (is, r) \<Rightarrow> (i # is, r)))"

definition load_batch ::
  "(int \<Rightarrow> string) \<Rightarrow> (int \<Rightarrow> string) \<Rightarrow> concurrencyCache \<Rightarrow> go_error option \<Rightarrow> go_error option
     \<Rightarrow> int \<Rightarrow> AccountWithConcurrency list \<Rightarrow> redis \<Rightarrow> (go_error + (int \<rightharpoonup> AccountLoadInfo)) \<times> redis" where
  "load_batch slotKey waitKey c timeFault pipeFault now accounts r =
     (if accounts = [] then (Inr Map.empty, r)
      else case timeFault of Some e \<Rightarrow> (Inl (OtherError ''redis TIME'' (Some e)), r)
      | None \<Rightarrow>
      (case pipeFault of Some e \<Rightarrow> (Inl (OtherError ''pipeline exec'' (Some e)), r)
       | None \<Rightarrow>
       (case load_pipe slotKey waitKey now (cc_slotTTLSeconds c) accounts r of (is, r) \<Rightarrow>
          (Inr (fold (\<lambda>i m. m(al_AccountID i \<mapsto> i)) is Map.empty), r))))"

definition cache_GetAccountsLoadBatch ::
  "concurrencyCache \<Rightarrow> go_error option \<Rightarrow> go_error option \<Rightarrow> int \<Rightarrow> AccountWithConcurrency list
     \<Rightarrow> redis \<Rightarrow> (go_error + (int \<rightharpoonup> AccountLoadInfo)) \<times> redis" where
  "cache_GetAccountsLoadBatch = load_batch accountSlotKey accountWaitKey"

text \<open>\<open>UserWithConcurrency\<close> and \<open>UserLoadInfo\<close> have the fields of the account's records.\<close>

definition cache_GetUsersLoadBatch ::
  "concurrencyCache \<Rightarrow> go_error option \<Rightarrow> go_error option \<Rightarrow> int \<Rightarrow> AccountWithConcurrency list
     \<Rightarrow> redis \<Rightarrow> (go_error + (int \<rightharpoonup> AccountLoadInfo)) \<times> redis" where
  "cache_GetUsersLoadBatch = load_batch userSlotKey waitQueueKey"

definition cache_CleanupExpiredAccountSlots ::
  "concurrencyCache \<Rightarrow> go_error option \<Rightarrow> int \<Rightarrow> int \<Rightarrow> redis \<Rightarrow> go_error option \<times> redis" where
  "cache_CleanupExpiredAccountSlots c fault now accountID r =
     as_error (redis_run fault
       (cleanupExpiredSlotsScript now (accountSlotKey accountID) (cc_slotTTLSeconds c)) r)"

text \<open>The loops over \<open>SCAN\<close>: each page is its keys, or the failure of the scan, with the failure
  of the command that follows it.\<close>

type_synonym scan_page = "(go_error + string list) \<times> go_error option"

fun cleanupSlotsByPattern ::
  "concurrencyCache \<Rightarrow> int \<Rightarrow> string \<Rightarrow> scan_page list \<Rightarrow> redis \<Rightarrow> go_error option \<times> redis" where
  "cleanupSlotsByPattern c now activePrefix [] r = (None, r)"
| "cleanupSlotsByPattern c now activePrefix ((Inl e, _) # ps) r =
     (Some (OtherError ''scan'' (Some e)), r)"
| "cleanupSlotsByPattern c now activePrefix ((Inr keys, fault) # ps) r =
     (if keys = [] then cleanupSlotsByPattern c now activePrefix ps r
      else case redis_run fault
                  (startupCleanupScript now keys activePrefix (cc_slotTTLSeconds c)) r of
             (Inl e, r) \<Rightarrow> (Some (OtherError ''cleanup slots'' (Some e)), r)
           | (Inr _, r) \<Rightarrow> cleanupSlotsByPattern c now activePrefix ps r)"

text \<open>\<open>DEL keys...\<close> on the counters.\<close>

definition del_counters :: "string list \<Rightarrow> redis \<Rightarrow> unit \<times> redis" where
  "del_counters keys r =
     ((), r\<lparr>rd_counters := (\<lambda>k. if k \<in> set keys then None else rd_counters r k)\<rparr>)"

fun deleteKeysByPattern :: "scan_page list \<Rightarrow> redis \<Rightarrow> go_error option \<times> redis" where
  "deleteKeysByPattern [] r = (None, r)"
| "deleteKeysByPattern ((Inl e, _) # ps) r = (Some (OtherError ''scan'' (Some e)), r)"
| "deleteKeysByPattern ((Inr keys, fault) # ps) r =
     (if keys = [] then deleteKeysByPattern ps r
      else case redis_run fault (del_counters keys) r of
             (Inl e, r) \<Rightarrow> (Some (OtherError ''del'' (Some e)), r)
           | (Inr _, r) \<Rightarrow> deleteKeysByPattern ps r)"

text \<open>The scans of \<open>CleanupStaleProcessSlots\<close>, one list of pages per pattern: account slots, user
  slots, account wait counters, user wait counters.\<close>

definition cache_CleanupStaleProcessSlots ::
  "concurrencyCache \<Rightarrow> int \<Rightarrow> string \<Rightarrow> scan_page list \<Rightarrow> scan_page list \<Rightarrow> scan_page list
     \<Rightarrow> scan_page list \<Rightarrow> redis \<Rightarrow> go_error option \<times> redis" where
  "cache_CleanupStaleProcessSlots c now activeRequestPrefix accs users accWaits userWaits r =
     (if activeRequestPrefix = '''' then (None, r)
      else case cleanupSlotsByPattern c now activeRequestPrefix accs r of
        (Some e, r) \<Rightarrow> (Some e, r)
      | (None, r) \<Rightarrow> (case cleanupSlotsByPattern c now activeRequestPrefix users r of
          (Some e, r) \<Rightarrow> (Some e, r)
        | (None, r) \<Rightarrow> (case deleteKeysByPattern accWaits r of
            (Some e, r) \<Rightarrow> (Some e, r)
          | (None, r) \<Rightarrow> deleteKeysByPattern userWaits r)))"

section \<open>The contract of a slot pool\<close>

text \<open>
  What the limiter promises its clients. \<open>live now k s\<close> maps the requests that hold a slot of
  \<open>k\<close> at time \<open>now\<close> to the time they took it. A request is granted a slot exactly when it has
  one or fewer than \<open>mx\<close> are taken; nothing else changes; slots lapse with time and are given
  up on release.
\<close>

datatype slot_event =
    SlotAcquire time string int string
  | SlotRelease time string string

fun ev_time :: "slot_event \<Rightarrow> time" where
  "ev_time (SlotAcquire t _ _ _) = t"
| "ev_time (SlotRelease t _ _) = t"

fun slot_step ::
  "(time \<Rightarrow> string \<Rightarrow> int \<Rightarrow> string \<Rightarrow> 's \<Rightarrow> bool \<times> 's) \<Rightarrow> (time \<Rightarrow> string \<Rightarrow> string \<Rightarrow> 's \<Rightarrow> 's)
     \<Rightarrow> slot_event \<Rightarrow> 's \<Rightarrow> 's" where
  "slot_step acq rel (SlotAcquire t k mx q) s = snd (acq t k mx q s)"
| "slot_step acq rel (SlotRelease t k q) s = rel t k q s"

fun times_from :: "time \<Rightarrow> slot_event list \<Rightarrow> bool" where
  "times_from t [] = True"
| "times_from t (e # es) = (t \<le> ev_time e \<and> times_from (ev_time e) es)"

fun limited_by :: "string \<Rightarrow> int \<Rightarrow> slot_event \<Rightarrow> bool" where
  "limited_by k mx (SlotAcquire _ k' m _) = (k' = k \<longrightarrow> m \<le> mx)"
| "limited_by k mx (SlotRelease _ _ _) = True"

definition last_time :: "time \<Rightarrow> slot_event list \<Rightarrow> time" where
  "last_time t es = last (t # map ev_time es)"

locale slot_pool =
  fixes wf :: "time \<Rightarrow> 's \<Rightarrow> bool"
    and live :: "time \<Rightarrow> string \<Rightarrow> 's \<Rightarrow> (string \<rightharpoonup> time)"
    and acquire :: "time \<Rightarrow> string \<Rightarrow> int \<Rightarrow> string \<Rightarrow> 's \<Rightarrow> bool \<times> 's"
    and release :: "time \<Rightarrow> string \<Rightarrow> string \<Rightarrow> 's \<Rightarrow> 's"
  assumes wf_later: "wf t s \<Longrightarrow> t \<le> t' \<Longrightarrow> wf t' s"
    and finite_live: "finite (dom (live t k s))"
    and live_later: "wf t s \<Longrightarrow> t \<le> t' \<Longrightarrow> live t' k s \<subseteq>\<^sub>m live t k s"
    and wf_acquire: "wf t s \<Longrightarrow> wf t (snd (acquire t k mx q s))"
    and acquire_iff: "wf t s \<Longrightarrow> fst (acquire t k mx q s) \<longleftrightarrow>
          live t k s q \<noteq> None \<or> int (card (dom (live t k s))) < mx"
    and acquire_live: "wf t s \<Longrightarrow> live t k' (snd (acquire t k mx q s)) =
          (if k' = k \<and> fst (acquire t k mx q s) then (live t k s)(q \<mapsto> t) else live t k' s)"
    and wf_release: "wf t s \<Longrightarrow> wf t (release t k q s)"
    and release_live: "wf t s \<Longrightarrow> live t k' (release t k q s) =
          (if k' = k then (live t k s)(q := None) else live t k' s)"
begin

lemma card_later: "wf t s \<Longrightarrow> t \<le> t' \<Longrightarrow> card (dom (live t' k s)) \<le> card (dom (live t k s))"
  by (intro card_mono finite_live map_le_implies_dom_le live_later)

lemma acquire_bound:
  assumes "wf t s" and "k' = k \<longrightarrow> m \<le> mx" and "int (card (dom (live t k' s))) \<le> mx"
  shows "int (card (dom (live t k' (snd (acquire t k m q s))))) \<le> mx"
proof (cases "k' = k \<and> fst (acquire t k m q s)")
  case True
  with acquire_iff [OF assms(1), of k m q] assms(2,3)
  show ?thesis
    by (auto simp: acquire_live [OF assms(1)] card_insert_if finite_live insert_absorb domIff)
next
  case False
  then show ?thesis using assms by (auto simp: acquire_live [OF assms(1)])
qed

lemma step_wf: "wf t s \<Longrightarrow> t \<le> ev_time e \<Longrightarrow> wf (ev_time e) (slot_step acquire release e s)"
  using wf_later [of t s "ev_time e"] by (cases e) (auto simp: wf_acquire wf_release)

lemma step_bound:
  assumes "wf t s" and "t \<le> ev_time e" and "limited_by k mx e"
    and "int (card (dom (live t k s))) \<le> mx"
  shows "int (card (dom (live (ev_time e) k (slot_step acquire release e s)))) \<le> mx"
proof -
  have wf: "wf (ev_time e) s" and b: "int (card (dom (live (ev_time e) k s))) \<le> mx"
    using wf_later [OF assms(1,2)] card_later [OF assms(1,2), of k] assms(4) by auto
  show ?thesis
  proof (cases e)
    case (SlotAcquire t' k' m q)
    then show ?thesis using wf b assms(3) by (auto intro: acquire_bound)
  next
    case (SlotRelease t' k' q)
    have "card (dom (live t' k s) - {q}) \<le> card (dom (live t' k s))"
      by (intro card_mono finite_live) auto
    then show ?thesis using wf b SlotRelease by (auto simp: release_live)
  qed
qed

lemma run_bound:
  "wf t s \<Longrightarrow> times_from t es \<Longrightarrow> list_all (limited_by k mx) es \<Longrightarrow>
   int (card (dom (live t k s))) \<le> mx \<Longrightarrow> last_time t es \<le> t' \<Longrightarrow>
   int (card (dom (live t' k (fold (slot_step acquire release) es s)))) \<le> mx"
proof (induction es arbitrary: t s)
  case Nil
  then show ?case using card_later [of t s t' k] by (simp add: last_time_def)
next
  case (Cons e es)
  let ?s = "slot_step acquire release e s"
  have "wf (ev_time e) ?s" using Cons.prems by (intro step_wf) auto
  moreover have "int (card (dom (live (ev_time e) k ?s))) \<le> mx"
    using Cons.prems by (intro step_bound [of t]) auto
  moreover have "last_time (ev_time e) es \<le> t'" using Cons.prems by (simp add: last_time_def)
  ultimately show ?case using Cons.IH [of "ev_time e" ?s] Cons.prems by simp
qed

text \<open>A request that was granted a slot is granted it again while the slot lasts.\<close>

lemma reacquire:
  assumes "wf t s" and "fst (acquire t k mx q s)"
  shows "fst (acquire t k mx' q (snd (acquire t k mx q s)))"
  using assms acquire_iff [OF wf_acquire [OF assms(1)]] by (simp add: acquire_live)

text \<open>After a release the pool has room for another request.\<close>

lemma release_makes_room:
  assumes "wf t s" and "live t k s q \<noteq> None" and "int (card (dom (live t k s))) \<le> mx"
  shows "fst (acquire t k mx q' (release t k q s))"
proof -
  have "card (dom (live t k s) - {q}) < card (dom (live t k s))"
    using assms(2) by (intro psubset_card_mono finite_live) auto
  with assms(3) have "int (card (dom (live t k (release t k q s)))) < mx"
    by (simp add: release_live [OF assms(1)])
  then show ?thesis using acquire_iff [OF wf_release [OF assms(1)]] by simp
qed

end

section \<open>The scripts implement the contract\<close>

text \<open>A well-formed key space: distinct members, no score in the future, and no key that expires
  before the slots in it do.\<close>

definition slots_wf :: "int \<Rightarrow> time \<Rightarrow> redis \<Rightarrow> bool" where
  "slots_wf ttl now r \<longleftrightarrow> 0 < ttl \<and>
     (\<forall>key zs ex. rd_zsets r key = Some (zs, ex) \<longrightarrow>
        distinct (map fst zs) \<and> (\<forall>m sc. (m, sc) \<in> set zs \<longrightarrow> sc \<le> now \<and> sc + ttl \<le> ex))"

definition slot_live :: "int \<Rightarrow> time \<Rightarrow> string \<Rightarrow> redis \<Rightarrow> (string \<rightharpoonup> time)" where
  "slot_live ttl now key r = map_of (drop_expired (now - ttl) (zmembers now key r))"

definition acquire_slot :: "int \<Rightarrow> time \<Rightarrow> string \<Rightarrow> int \<Rightarrow> string \<Rightarrow> redis \<Rightarrow> bool \<times> redis" where
  "acquire_slot ttl now key mx q r = (case acquireScript now key mx ttl q r of (v, r) \<Rightarrow> (v = 1, r))"

definition release_slot :: "time \<Rightarrow> string \<Rightarrow> string \<Rightarrow> redis \<Rightarrow> redis" where
  "release_slot now key q r = snd (zrem now key q r)"

lemma zput_counters [simp]: "rd_counters (zput k zs ex r) = rd_counters r"
  by (simp add: zput_def)

lemma zput_other [simp]: "k' \<noteq> k \<Longrightarrow> rd_zsets (zput k zs ex r) k' = rd_zsets r k'"
  by (simp add: zput_def)

lemma zput_same: "rd_zsets (zput k zs ex r) k = (if zs = [] then None else Some (zs, ex))"
  by (simp add: zput_def)

lemma zmembers_zput:
  "zmembers now k' (zput k zs ex r) =
     (if k' = k then (if ex \<le> now then [] else zs) else zmembers now k' r)"
  by (auto simp: zmembers_def zput_same)

lemma drop_expired_simps [simp]:
  "set (drop_expired b zs) = {(m, sc) \<in> set zs. b < sc}"
  by (auto simp: drop_expired_def)

lemma distinct_drop_expired: "distinct (map fst zs) \<Longrightarrow> distinct (map fst (drop_expired b zs))"
  by (simp add: drop_expired_def distinct_map_filter)

lemma drop_expired_twice: "b \<le> b' \<Longrightarrow> drop_expired b' (drop_expired b zs) = drop_expired b' zs"
  by (induction zs) (auto simp: drop_expired_def)

lemma drop_expired_all: "(\<And>m sc. (m, sc) \<in> set zs \<Longrightarrow> sc \<le> b) \<Longrightarrow> drop_expired b zs = []"
  by (fastforce simp: drop_expired_def filter_empty_conv)

lemma drop_expired_none: "(\<And>m sc. (m, sc) \<in> set zs \<Longrightarrow> b < sc) \<Longrightarrow> drop_expired b zs = zs"
  by (fastforce simp: drop_expired_def filter_id_conv)

text \<open>A key never expires under a live slot: what is live can be read off the stored set.\<close>

definition stored :: "string \<Rightarrow> redis \<Rightarrow> zset" where
  "stored key r = (case rd_zsets r key of None \<Rightarrow> [] | Some (zs, _) \<Rightarrow> zs)"

lemma slots_wfD:
  "slots_wf ttl now r \<Longrightarrow> rd_zsets r key = Some (zs, ex) \<Longrightarrow>
     distinct (map fst zs) \<and> (\<forall>m sc. (m, sc) \<in> set zs \<longrightarrow> sc \<le> now \<and> sc + ttl \<le> ex)"
  by (simp add: slots_wf_def)

lemma slots_wf_later: "slots_wf ttl t r \<Longrightarrow> t \<le> t' \<Longrightarrow> slots_wf ttl t' r"
  unfolding slots_wf_def by fastforce

lemma live_stored:
  assumes "slots_wf ttl now r"
  shows "drop_expired (now - ttl) (zmembers now key r) = drop_expired (now - ttl) (stored key r)"
proof (cases "rd_zsets r key")
  case None
  then show ?thesis by (simp add: zmembers_def stored_def)
next
  case (Some x)
  then obtain zs ex where x: "rd_zsets r key = Some (zs, ex)" by (cases x) auto
  from slots_wfD [OF assms x] have "ex \<le> now \<Longrightarrow> drop_expired (now - ttl) zs = []"
    by (intro drop_expired_all) fastforce
  then show ?thesis using x by (simp add: zmembers_def stored_def drop_expired_def)
qed

lemma wf_stored: "slots_wf ttl now r \<Longrightarrow> distinct (map fst (stored key r))"
  by (auto simp: stored_def split: option.splits dest: slots_wfD)

lemma map_of_filter_le:
  "distinct (map fst zs) \<Longrightarrow> map_of (filter P zs) \<subseteq>\<^sub>m map_of zs"
  by (auto simp: map_le_def dom_def map_of_eq_Some_iff distinct_map_filter)

lemma slot_live_later:
  assumes "slots_wf ttl t r" and "t \<le> t'"
  shows "slot_live ttl t' k r \<subseteq>\<^sub>m slot_live ttl t k r"
proof -
  let ?zs = "drop_expired (t - ttl) (stored k r)"
  have "drop_expired (t' - ttl) (stored k r) = drop_expired (t' - ttl) ?zs"
    using assms(2) by (simp add: drop_expired_twice)
  moreover have "distinct (map fst ?zs)"
    using wf_stored [OF assms(1)] by (simp add: distinct_drop_expired)
  then have "map_of (drop_expired (t' - ttl) ?zs) \<subseteq>\<^sub>m map_of ?zs"
    unfolding drop_expired_def [of "t' - ttl"] by (rule map_of_filter_le)
  ultimately show ?thesis
    using live_stored [OF slots_wf_later [OF assms]] live_stored [OF assms(1)]
    by (simp add: slot_live_def)
qed

lemma live_distinct:
  "slots_wf ttl now r \<Longrightarrow> distinct (map fst (drop_expired (now - ttl) (zmembers now key r)))"
  by (simp add: live_stored distinct_drop_expired wf_stored)

lemma card_dom_map_of: "distinct (map fst zs) \<Longrightarrow> card (dom (map_of zs)) = length zs"
  by (metis distinct_card dom_map_of_conv_image_fst length_map set_map)

lemma card_slot_live:
  "slots_wf ttl now r \<Longrightarrow>
     card (dom (slot_live ttl now key r)) = length (drop_expired (now - ttl) (zmembers now key r))"
  by (simp add: slot_live_def card_dom_map_of live_distinct)

text \<open>Writing a set of members back keeps the key space well formed.\<close>

lemma slots_wf_zput:
  assumes "slots_wf ttl now r" and "distinct (map fst zs)"
    and "\<And>m sc. (m, sc) \<in> set zs \<Longrightarrow> sc \<le> now \<and> sc + ttl \<le> ex"
  shows "slots_wf ttl now (zput key zs ex r)"
  using assms by (auto simp: slots_wf_def zput_def split: if_splits)

lemma member_bounds:
  "slots_wf ttl now r \<Longrightarrow> (m, sc) \<in> set (zmembers now key r) \<Longrightarrow>
     sc \<le> now \<and> sc + ttl \<le> zexpiry key r"
  by (auto simp: zmembers_def zexpiry_def split: option.splits if_splits dest: slots_wfD)

lemma zmembers_distinct: "slots_wf ttl now r \<Longrightarrow> distinct (map fst (zmembers now key r))"
  by (auto simp: zmembers_def split: option.splits if_splits dest: slots_wfD)

lemma set_update_alist: "(m, sc) \<in> set (AList.update q v zs) \<Longrightarrow> (m, sc) = (q, v) \<or> (m, sc) \<in> set zs"
  by (induction zs) (auto split: if_splits)

lemma set_delete_alist: "set (AList.delete q zs) \<subseteq> set zs"
  by (auto simp: AList.delete_eq)

lemma acquire_slot_eq:
  "acquire_slot ttl now key mx q r =
     (let zs = drop_expired (now - ttl) (zmembers now key r);
          ok = (map_of zs q \<noteq> None \<or> int (length zs) < mx)
      in (ok, if ok then zput key (AList.update q now zs) (now + ttl) r
              else zput key zs (zexpiry key r) r))"
  by (auto simp: acquire_slot_def acquireScript_def Let_def)

lemma acquire_slot_wf:
  assumes "slots_wf ttl now r"
  shows "slots_wf ttl now (snd (acquire_slot ttl now key mx q r))"
proof -
  let ?zs = "drop_expired (now - ttl) (zmembers now key r)"
  have ttl: "0 < ttl" using assms by (simp add: slots_wf_def)
  have "slots_wf ttl now (zput key (AList.update q now ?zs) (now + ttl) r)"
    using assms ttl
    by (intro slots_wf_zput) (auto simp: live_distinct distinct_update dest!: set_update_alist member_bounds)
  moreover have "slots_wf ttl now (zput key ?zs (zexpiry key r) r)"
    using assms by (intro slots_wf_zput) (auto simp: live_distinct dest: member_bounds)
  ultimately show ?thesis by (simp add: acquire_slot_eq Let_def)
qed

lemma live_zput:
  assumes "slots_wf ttl now (zput k zs ex r)"
  shows "slot_live ttl now k' (zput k zs ex r) =
    (if k' = k then map_of (drop_expired (now - ttl) zs) else slot_live ttl now k' r)"
proof (cases "k' = k")
  case True
  have "stored k (zput k zs ex r) = zs" by (simp add: stored_def zput_same)
  with True show ?thesis by (simp add: slot_live_def live_stored [OF assms])
next
  case False
  then show ?thesis by (simp add: slot_live_def zmembers_zput)
qed

lemma live_update_live:
  "0 < ttl \<Longrightarrow> map_of (drop_expired (now - ttl) (AList.update q now (drop_expired (now - ttl) zs))) =
     (map_of (drop_expired (now - ttl) zs))(q \<mapsto> now)"
  by (subst drop_expired_none) (auto simp: update_conv' dest!: set_update_alist)

lemma acquire_slot_live:
  assumes "slots_wf ttl now r"
  shows "slot_live ttl now k' (snd (acquire_slot ttl now k mx q r)) =
    (if k' = k \<and> fst (acquire_slot ttl now k mx q r) then (slot_live ttl now k r)(q \<mapsto> now)
     else slot_live ttl now k' r)"
proof -
  have "0 < ttl" using assms by (simp add: slots_wf_def)
  then show ?thesis
    using acquire_slot_wf [OF assms, of k mx q]
    by (auto simp: acquire_slot_eq Let_def live_zput live_update_live drop_expired_twice)
      (auto simp: slot_live_def)
qed

lemma release_slot_wf: "slots_wf ttl now r \<Longrightarrow> slots_wf ttl now (release_slot now key q r)"
  unfolding release_slot_def zrem_def snd_conv
  by (rule slots_wf_zput)
    (auto simp: zmembers_distinct distinct_delete dest: set_delete_alist [THEN subsetD] member_bounds)

lemma drop_expired_delete: "drop_expired b (AList.delete q zs) = AList.delete q (drop_expired b zs)"
  by (induction zs) (auto simp: drop_expired_def)

lemma release_slot_live:
  assumes "slots_wf ttl now r"
  shows "slot_live ttl now k' (release_slot now k q r) =
    (if k' = k then (slot_live ttl now k r)(q := None) else slot_live ttl now k' r)"
proof -
  have "slots_wf ttl now (zput k (AList.delete q (zmembers now k r)) (zexpiry k r) r)"
    using release_slot_wf [OF assms, of k q] by (simp add: release_slot_def zrem_def)
  then show ?thesis
    by (simp add: release_slot_def zrem_def live_zput)
      (simp add: drop_expired_delete delete_conv' slot_live_def fun_upd_def restrict_map_def)
qed

interpretation redis_slots: slot_pool "slots_wf ttl" "slot_live ttl" "acquire_slot ttl" release_slot
  for ttl :: int
proof (unfold_locales, goal_cases)
  case (1 t s t') then show ?case by (rule slots_wf_later)
next
  case (2 t k s) then show ?case by (simp add: slot_live_def finite_dom_map_of)
next
  case (3 t s t' k) then show ?case by (rule slot_live_later)
next
  case (4 t s k mx q) then show ?case by (rule acquire_slot_wf)
next
  case (5 t s k mx q) then show ?case
    by (simp add: card_slot_live) (simp add: acquire_slot_eq slot_live_def Let_def)
next
  case (6 t s k' k mx q) then show ?case by (rule acquire_slot_live)
next
  case (7 t s k q) then show ?case by (rule release_slot_wf)
next
  case (8 t s k' k q) then show ?case by (rule release_slot_live)
qed

section \<open>The limit over a history of calls\<close>

text \<open>The calls that take and give back the slots of accounts and users, each with the fault it
  meets; \<open>call_event\<close> is the event of the contract that a call amounts to, none when it fails.\<close>

datatype slot_owner = AccountSlots int | UserSlots int

fun owner_key :: "slot_owner \<Rightarrow> string" where
  "owner_key (AccountSlots a) = accountSlotKey a"
| "owner_key (UserSlots u) = userSlotKey u"

datatype slot_call =
    CallAcquire "go_error option" time slot_owner int string
  | CallRelease "go_error option" time slot_owner string

fun call_step :: "concurrencyCache \<Rightarrow> slot_call \<Rightarrow> redis \<Rightarrow> redis" where
  "call_step c (CallAcquire f t (AccountSlots a) mx q) r = snd (cache_AcquireAccountSlot c f t a mx q r)"
| "call_step c (CallAcquire f t (UserSlots u) mx q) r = snd (cache_AcquireUserSlot c f t u mx q r)"
| "call_step c (CallRelease f t (AccountSlots a) q) r = snd (cache_ReleaseAccountSlot f t a q r)"
| "call_step c (CallRelease f t (UserSlots u) q) r = snd (cache_ReleaseUserSlot f t u q r)"

fun call_event :: "slot_call \<Rightarrow> slot_event list" where
  "call_event (CallAcquire None t ow mx q) = [SlotAcquire t (owner_key ow) mx q]"
| "call_event (CallRelease None t ow q) = [SlotRelease t (owner_key ow) q]"
| "call_event _ = []"

fun call_time :: "slot_call \<Rightarrow> time" where
  "call_time (CallAcquire _ t _ _ _) = t"
| "call_time (CallRelease _ t _ _) = t"

fun calls_from :: "time \<Rightarrow> slot_call list \<Rightarrow> bool" where
  "calls_from t [] = True"
| "calls_from t (c # cs) = (t \<le> call_time c \<and> calls_from (call_time c) cs)"

text \<open>Every caller passes a limit of at most \<open>mx\<close> for this owner.\<close>

fun call_limit :: "slot_owner \<Rightarrow> int \<Rightarrow> slot_call \<Rightarrow> bool" where
  "call_limit ow mx (CallAcquire _ _ ow' m _) = (ow' = ow \<longrightarrow> m \<le> mx)"
| "call_limit ow mx (CallRelease _ _ _ _) = True"

lemma owner_key_inject [simp]: "owner_key ow = owner_key ow' \<longleftrightarrow> ow = ow'"
  by (cases ow; cases ow')
    (auto simp: accountSlotKey_def userSlotKey_def accountSlotKeyPrefix_def userSlotKeyPrefix_def
      itoa_inject)

lemma cache_acquire_eq:
  "as_bool (redis_run f (acquireScript now key mx ttl q) r) =
     (case f of Some e \<Rightarrow> (Inl e, r)
      | None \<Rightarrow> (Inr (fst (acquire_slot ttl now key mx q r)), snd (acquire_slot ttl now key mx q r)))"
  by (auto simp: as_bool_def redis_run_def acquire_slot_def split: option.splits prod.splits)

lemma cache_release_eq:
  "as_error (redis_run f (zrem now key q) r) =
     (f, case f of Some e \<Rightarrow> r | None \<Rightarrow> release_slot now key q r)"
  by (auto simp: as_error_def redis_run_def release_slot_def split: option.splits prod.splits)

lemmas cache_slot_defs = cache_AcquireAccountSlot_def cache_AcquireUserSlot_def
  cache_ReleaseAccountSlot_def cache_ReleaseUserSlot_def cache_acquire_eq cache_release_eq

lemma call_step_event:
  "call_step c call r =
     fold (slot_step (acquire_slot (cc_slotTTLSeconds c)) release_slot) (call_event call) r"
  by (cases "(c, call, r)" rule: call_step.cases) (auto simp: cache_slot_defs split: option.splits)

lemma run_events:
  "fold (call_step c) calls r =
     fold (slot_step (acquire_slot (cc_slotTTLSeconds c)) release_slot)
       (concat (map call_event calls)) r"
  by (induction calls arbitrary: r) (auto simp: call_step_event)

lemma call_event_cases: "call_event c = [] \<or> (\<exists>e. call_event c = [e] \<and> ev_time e = call_time c)"
  by (cases c rule: call_event.cases) auto

lemma times_from_earlier: "times_from t es \<Longrightarrow> t' \<le> t \<Longrightarrow> times_from t' es"
  by (cases es) auto

lemma events_times:
  "calls_from t calls \<Longrightarrow> times_from t (concat (map call_event calls))"
proof (induction calls arbitrary: t)
  case (Cons c calls)
  then have "times_from (call_time c) (concat (map call_event calls))" by simp
  with Cons.prems show ?case
    using call_event_cases [of c] by (auto intro: times_from_earlier [of "call_time c"])
qed simp

lemma events_limit:
  "list_all (call_limit ow mx) calls \<Longrightarrow>
     list_all (limited_by (owner_key ow) mx) (concat (map call_event calls))"
proof (induction calls)
  case (Cons c calls)
  then show ?case by (cases c rule: call_event.cases) auto
qed simp

definition last_call :: "time \<Rightarrow> slot_call list \<Rightarrow> time" where
  "last_call t calls = last (t # map call_time calls)"

lemma times_last: "calls_from t calls \<Longrightarrow> t \<le> last_call t calls"
proof (induction calls arbitrary: t)
  case (Cons c calls)
  then show ?case by (fastforce simp: last_call_def)
qed (simp add: last_call_def)

lemma events_last:
  "calls_from t calls \<Longrightarrow> t \<le> t0 \<Longrightarrow> last_call t calls \<le> t' \<Longrightarrow> t0 \<le> t' \<Longrightarrow>
     last_time t0 (concat (map call_event calls)) \<le> t'"
proof (induction calls arbitrary: t t0)
  case (Cons c calls)
  have l: "last_call (call_time c) calls \<le> t'" using Cons.prems by (simp add: last_call_def)
  then have "call_time c \<le> t'" using Cons.prems times_last [of "call_time c" calls] by auto
  have ih: "last_time (max t0 (call_time c)) (concat (map call_event calls)) \<le> t'"
      "last_time (call_time c) (concat (map call_event calls)) \<le> t'"
    using Cons.prems l \<open>call_time c \<le> t'\<close> by (auto intro!: Cons.IH [of "call_time c"])
  from call_event_cases [of c] show ?case
  proof
    assume "call_event c = []"
    then show ?thesis using ih(1) Cons.prems by (auto simp: last_time_def split: if_splits)
  next
    assume "\<exists>e. call_event c = [e] \<and> ev_time e = call_time c"
    then show ?thesis using ih(2) by (auto simp: last_time_def)
  qed
qed (simp add: last_time_def)

lemma get_count_live:
  "slots_wf ttl now r \<Longrightarrow>
     fst (getCountScript now key ttl r) = int (card (dom (slot_live ttl now key r)))"
  by (simp add: getCountScript_def card_slot_live Let_def)

lemma run_wf:
  "slots_wf (cc_slotTTLSeconds c) t r \<Longrightarrow> calls_from t calls \<Longrightarrow> last_call t calls \<le> t' \<Longrightarrow>
     slots_wf (cc_slotTTLSeconds c) t' (fold (call_step c) calls r)"
proof (induction calls arbitrary: t r)
  case Nil
  then show ?case by (auto simp: last_call_def intro: slots_wf_later)
next
  case (Cons call calls)
  then have "slots_wf (cc_slotTTLSeconds c) (call_time call) r" by (auto intro: slots_wf_later)
  then have "slots_wf (cc_slotTTLSeconds c) (call_time call) (call_step c call r)"
    by (cases "(c, call, r)" rule: call_step.cases)
      (auto simp: cache_slot_defs acquire_slot_wf release_slot_wf split: option.splits)
  then show ?case using Cons.IH [of "call_time call"] Cons.prems by (simp add: last_call_def)
qed

text \<open>C11: A slot limit holds over every history of calls. Whatever calls take and release the slots
  of accounts and users, with whatever request ids and with any of them failing, as long as every
  caller of \<open>AcquireAccountSlot\<close> or \<open>AcquireUserSlot\<close> passes at most \<open>mx\<close> for one owner, that owner
  never has more than \<open>mx\<close> live slots; and for an account \<open>GetAccountConcurrency\<close> reports the
  number of its live slots.\<close>

theorem slot_limit_kept:
  assumes "slots_wf (cc_slotTTLSeconds c) t r" and "calls_from t calls"
    and "list_all (call_limit ow mx) calls"
    and "int (card (dom (slot_live (cc_slotTTLSeconds c) t (owner_key ow) r))) \<le> mx"
    and "last_call t calls \<le> t'"
  shows "int (card (dom (slot_live (cc_slotTTLSeconds c) t' (owner_key ow) (fold (call_step c) calls r)))) \<le> mx
    \<and> (\<forall>a. ow = AccountSlots a \<longrightarrow>
         fst (cache_GetAccountConcurrency c None t' a (fold (call_step c) calls r)) =
           Inr (int (card (dom (slot_live (cc_slotTTLSeconds c) t' (owner_key ow)
             (fold (call_step c) calls r))))))"
proof
  have "last_time t (concat (map call_event calls)) \<le> t'"
    using events_last [OF assms(2) _ assms(5)] times_last [OF assms(2)] assms(5) by simp
  then show "int (card (dom (slot_live (cc_slotTTLSeconds c) t' (owner_key ow) (fold (call_step c) calls r)))) \<le> mx"
    using redis_slots.run_bound [OF assms(1) events_times [OF assms(2)] events_limit [OF assms(3)] assms(4)]
    by (simp add: run_events)
next
  show "\<forall>a. ow = AccountSlots a \<longrightarrow>
         fst (cache_GetAccountConcurrency c None t' a (fold (call_step c) calls r)) =
           Inr (int (card (dom (slot_live (cc_slotTTLSeconds c) t' (owner_key ow)
             (fold (call_step c) calls r)))))"
    using get_count_live [OF run_wf [OF assms(1,2,5)]]
    by (auto simp: cache_GetAccountConcurrency_def redis_run_def split: prod.splits)
      (metis fst_conv)
qed

definition no_keys :: redis where
  "no_keys = \<lparr>rd_zsets = Map.empty, rd_counters = Map.empty\<rparr>"

lemma no_keys_wf: "0 < ttl \<Longrightarrow> slots_wf ttl t no_keys"
  by (simp add: slots_wf_def no_keys_def)

lemma no_keys_live: "slot_live ttl t k no_keys = Map.empty"
  by (simp add: slot_live_def zmembers_def no_keys_def drop_expired_def)

definition demo_calls :: "slot_call list" where
  "demo_calls =
     [CallAcquire None 100 (AccountSlots 7) 2 ''a'', CallAcquire None 101 (UserSlots 7) 9 ''a'',
      CallAcquire None 102 (AccountSlots 7) 2 ''b'', CallAcquire None 103 (AccountSlots 7) 2 ''c'',
      CallRelease None 104 (AccountSlots 7) ''a'', CallAcquire None 105 (AccountSlots 7) 2 ''d'']"

theorem slot_limit_kept_witness:
  "int (card (dom (slot_live 900 200 (owner_key (AccountSlots 7))
     (fold (call_step (NewConcurrencyCache 0 0)) demo_calls no_keys)))) \<le> 2"
proof -
  have ttl: "cc_slotTTLSeconds (NewConcurrencyCache 0 0) = 900"
    by (simp add: NewConcurrencyCache_def defaultSlotTTLMinutes_def)
  show ?thesis
    using slot_limit_kept [of "NewConcurrencyCache 0 0" 100 no_keys demo_calls "AccountSlots 7" 2 200]
    by (simp add: ttl no_keys_wf no_keys_live demo_calls_def last_call_def)
qed

text \<open>What \<open>AcquireAccountSlot\<close> does, on every branch: a failed call leaves the key space as
  it was and returns the error; otherwise the slot is granted exactly when the request holds one
  already or fewer than the maximum are live, a granted request is recorded at the current time,
  and no other request and no other owner gains or loses a slot.\<close>

lemma AcquireAccountSlot_spec:
  assumes "slots_wf (cc_slotTTLSeconds c) now r"
    and "live = slot_live (cc_slotTTLSeconds c) now (accountSlotKey a) r"
    and "ok = (live q \<noteq> None \<or> int (card (dom live)) < mx)"
  shows "cache_AcquireAccountSlot c (Some e) now a mx q r = (Inl e, r)
    \<and> fst (cache_AcquireAccountSlot c None now a mx q r) = Inr ok
    \<and> slots_wf (cc_slotTTLSeconds c) now (snd (cache_AcquireAccountSlot c None now a mx q r))
    \<and> (\<forall>ow. slot_live (cc_slotTTLSeconds c) now (owner_key ow)
              (snd (cache_AcquireAccountSlot c None now a mx q r)) =
          (if ow = AccountSlots a \<and> ok then live(q \<mapsto> now)
           else slot_live (cc_slotTTLSeconds c) now (owner_key ow) r))"
  using redis_slots.acquire_iff [OF assms(1), of "accountSlotKey a" mx q]
    acquire_slot_live [OF assms(1), of _ "accountSlotKey a" mx q] acquire_slot_wf [OF assms(1)]
    owner_key_inject [of _ "AccountSlots a"]
  by (auto simp: cache_slot_defs assms(2,3))

text \<open>Releasing gives the slot back: after a request that holds a slot of an account within its
  limit releases it, another request is granted one, and the released request no longer holds one.\<close>

lemma ReleaseAccountSlot_frees:
  assumes "slots_wf (cc_slotTTLSeconds c) now r"
    and "slot_live (cc_slotTTLSeconds c) now (accountSlotKey a) r q \<noteq> None"
    and "int (card (dom (slot_live (cc_slotTTLSeconds c) now (accountSlotKey a) r))) \<le> mx"
    and "q' \<noteq> q"
    and "cache_ReleaseAccountSlot None now a q r = (e, r')"
  shows "e = None
    \<and> slot_live (cc_slotTTLSeconds c) now (accountSlotKey a) r' =
        (slot_live (cc_slotTTLSeconds c) now (accountSlotKey a) r)(q := None)
    \<and> fst (cache_AcquireAccountSlot c None now a mx q' r') = Inr True"
  using redis_slots.release_makes_room [OF assms(1-3), of q'] assms(5)
    release_slot_live [OF assms(1), of _ "accountSlotKey a" q]
  by (auto simp: cache_slot_defs)

section \<open>Wait counters\<close>

datatype wait_call =
    WaitIncrement "go_error option" time int int
  | WaitDecrement "go_error option" time int

fun wait_step :: "concurrencyCache \<Rightarrow> wait_call \<Rightarrow> redis \<Rightarrow> redis" where
  "wait_step c (WaitIncrement f t a mx) r = snd (cache_IncrementAccountWaitCount c f t a mx r)"
| "wait_step c (WaitDecrement f t a) r = snd (cache_DecrementAccountWaitCount f t a r)"

fun wait_limit :: "int \<Rightarrow> int \<Rightarrow> wait_call \<Rightarrow> bool" where
  "wait_limit a mx (WaitIncrement _ _ a' m) = (a' = a \<longrightarrow> m \<le> mx)"
| "wait_limit a mx (WaitDecrement _ _ _) = True"

definition counter_in :: "string \<Rightarrow> int \<Rightarrow> redis \<Rightarrow> bool" where
  "counter_in key mx r \<longleftrightarrow> (\<forall>v ex. rd_counters r key = Some (v, ex) \<longrightarrow> 0 \<le> v \<and> v \<le> mx)"

lemma accountWaitKey_inject [simp]: "accountWaitKey a = accountWaitKey b \<longleftrightarrow> a = b"
  by (simp add: accountWaitKey_def itoa_inject)

lemma wait_step_bounds:
  assumes "counter_in (accountWaitKey a) mx r" and "wait_limit a mx call"
  shows "counter_in (accountWaitKey a) mx (wait_step c call r)"
proof (cases call)
  case (WaitIncrement f t a' m)
  then show ?thesis using assms
    by (cases "a' = a")
      (fastforce simp: cache_IncrementAccountWaitCount_def as_bool_def redis_run_def counter_in_def
        incrementAccountWaitScript_def get_counter_def Let_def split: option.splits if_splits)+
next
  case (WaitDecrement f t a')
  then show ?thesis using assms
    by (cases "a' = a")
      (fastforce simp: cache_DecrementAccountWaitCount_def as_error_def redis_run_def counter_in_def
        decrementWaitScript_def get_counter_def Let_def split: option.splits if_splits)+
qed

text \<open>The number of requests waiting for an account stays between zero and the largest limit
  its callers pass, over every history of \<open>IncrementAccountWaitCount\<close> and
  \<open>DecrementAccountWaitCount\<close> calls, failed calls, unmatched decrements and expired counters
  included; \<open>GetAccountWaitingCount\<close> reports a number in that range.\<close>

lemma account_wait_bounded:
  assumes "counter_in (accountWaitKey a) mx r" and "list_all (wait_limit a mx) calls" and "0 \<le> mx"
  shows "\<exists>n. cache_GetAccountWaitingCount None now a (fold (wait_step c) calls r) = Inr n
    \<and> 0 \<le> n \<and> n \<le> mx"
proof -
  have "counter_in (accountWaitKey a) mx (fold (wait_step c) calls r)"
    using assms(1,2) by (induction calls arbitrary: r) (auto intro: wait_step_bounds)
  with assms(3) show ?thesis
    by (auto simp: cache_GetAccountWaitingCount_def get_counter_def counter_in_def
      split: option.splits if_splits)
qed

section \<open>Load information\<close>

lemma get_count_eq:
  assumes "slots_wf ttl now r" and "getCountScript now key ttl r = (n, r')"
  shows "n = int (card (dom (slot_live ttl now key r))) \<and> slots_wf ttl now r'
    \<and> (\<forall>k. slot_live ttl now k r' = slot_live ttl now k r) \<and> rd_counters r' = rd_counters r"
proof -
  let ?zs = "drop_expired (now - ttl) (zmembers now key r)"
  have r': "r' = zput key ?zs (zexpiry key r) r" and n: "n = int (length ?zs)"
    using assms(2) by (auto simp: getCountScript_def Let_def)
  have wf: "slots_wf ttl now r'"
    unfolding r' using assms(1)
    by (intro slots_wf_zput) (auto simp: live_distinct dest: member_bounds)
  then show ?thesis
    using live_zput [of ttl now key ?zs "zexpiry key r" r] r' n
    by (simp add: card_slot_live [OF assms(1)] zput_def)
      (simp add: slot_live_def drop_expired_twice)
qed

definition load_of :: "(int \<Rightarrow> string) \<Rightarrow> (int \<Rightarrow> string) \<Rightarrow> int \<Rightarrow> int \<Rightarrow> redis
     \<Rightarrow> AccountWithConcurrency \<Rightarrow> AccountLoadInfo" where
  "load_of slotKey waitKey now ttl r acc =
     (let n = int (card (dom (slot_live ttl now (slotKey (ac_ID acc)) r)));
          w = (case get_counter now (waitKey (ac_ID acc)) r of None \<Rightarrow> 0 | Some v \<Rightarrow> v)
      in \<lparr>al_AccountID = ac_ID acc, al_CurrentConcurrency = n, al_WaitingCount = w,
          al_LoadRate = loadRate n w (ac_MaxConcurrency acc)\<rparr>)"

lemma load_of_ID [simp]: "al_AccountID (load_of sk wk now ttl r acc) = ac_ID acc"
  by (simp add: load_of_def Let_def)

lemma load_entry_eq:
  assumes "slots_wf ttl now r" and "load_entry sk wk now ttl acc r = (i, r')"
  shows "i = load_of sk wk now ttl r acc \<and> slots_wf ttl now r'
    \<and> (\<forall>k. slot_live ttl now k r' = slot_live ttl now k r) \<and> rd_counters r' = rd_counters r"
proof (cases "getCountScript now (sk (ac_ID acc)) ttl r")
  case (Pair n r1)
  then show ?thesis using get_count_eq [OF assms(1) Pair] assms(2)
    by (auto simp: load_entry_def load_of_def Let_def get_counter_def)
qed

lemma load_pipe_eq:
  "slots_wf ttl now r \<Longrightarrow> load_pipe sk wk now ttl accs r = (is, r') \<Longrightarrow>
     is = map (load_of sk wk now ttl r) accs \<and> slots_wf ttl now r'
     \<and> (\<forall>k. slot_live ttl now k r' = slot_live ttl now k r) \<and> rd_counters r' = rd_counters r"
proof (induction accs arbitrary: r "is" r')
  case (Cons a accs)
  obtain i r1 where 1: "load_entry sk wk now ttl a r = (i, r1)" by fastforce
  obtain js r2 where 2: "load_pipe sk wk now ttl accs r1 = (js, r2)" by fastforce
  note e = load_entry_eq [OF Cons.prems(1) 1]
  then have "load_of sk wk now ttl r1 = load_of sk wk now ttl r"
    by (intro ext) (simp add: load_of_def get_counter_def)
  then show ?case using e Cons.IH [OF _ 2] Cons.prems 1 2 by auto
qed simp

lemma fold_by_key:
  "distinct (map key xs) \<Longrightarrow> x \<in> set xs \<Longrightarrow> fold (\<lambda>i m. m(key i \<mapsto> i)) xs m (key x) = Some x"
proof (induction xs rule: rev_induct)
  case (snoc y ys)
  then show ?case by (cases "x = y") (auto simp: image_iff)
qed simp

lemma loadRate_full:
  assumes "0 < mx" and "0 \<le> n" and "0 \<le> w"
  shows "100 \<le> loadRate n w mx \<longleftrightarrow> mx \<le> n + w"
proof -
  have "100 \<le> (n + w) * 100 div mx \<longleftrightarrow> 100 * mx \<le> (n + w) * 100"
    using assms(1) by (rule le_div_iff_mult)
  moreover have "100 * mx \<le> (n + w) * 100 \<longleftrightarrow> mx \<le> n + w" by presburger
  ultimately show ?thesis using assms by (simp add: loadRate_def sdiv_nonneg)
qed

text \<open>\<open>GetAccountsLoadBatch\<close> reports, for each of the accounts it is asked for, the number of
  its live slots, the value of its wait counter and the load rate they give; a rate of 100 or more
  means exactly that the slots in use and the waiting requests fill the account's limit. Reading
  the load changes no slot and no counter, and a failing \<open>TIME\<close> or pipeline is returned as an
  error.\<close>

lemma GetAccountsLoadBatch_spec:
  assumes "slots_wf (cc_slotTTLSeconds c) now r" and "distinct (map ac_ID accounts)"
    and "acc \<in> set accounts"
    and "cache_GetAccountsLoadBatch c None None now accounts r = (res, r')"
  shows "\<exists>m i. res = Inr m \<and> m (ac_ID acc) = Some i
    \<and> al_CurrentConcurrency i =
        int (card (dom (slot_live (cc_slotTTLSeconds c) now (accountSlotKey (ac_ID acc)) r)))
    \<and> cache_GetAccountWaitingCount None now (ac_ID acc) r = Inr (al_WaitingCount i)
    \<and> (0 < ac_MaxConcurrency acc \<and> 0 \<le> al_WaitingCount i \<longrightarrow>
         (100 \<le> al_LoadRate i \<longleftrightarrow>
            ac_MaxConcurrency acc \<le> al_CurrentConcurrency i + al_WaitingCount i))
    \<and> (\<forall>k. slot_live (cc_slotTTLSeconds c) now k r' = slot_live (cc_slotTTLSeconds c) now k r)
    \<and> rd_counters r' = rd_counters r
    \<and> cache_GetAccountsLoadBatch c (Some e) pf now accounts r =
        (Inl (OtherError ''redis TIME'' (Some e)), r)
    \<and> cache_GetAccountsLoadBatch c None (Some e) now accounts r =
        (Inl (OtherError ''pipeline exec'' (Some e)), r)"
proof -
  let ?ttl = "cc_slotTTLSeconds c"
  let ?load = "load_of accountSlotKey accountWaitKey now ?ttl r"
  have ne: "accounts \<noteq> []" using assms(3) by auto
  obtain "is" r1 where p: "load_pipe accountSlotKey accountWaitKey now ?ttl accounts r = (is, r1)"
    by fastforce
  note q = load_pipe_eq [OF assms(1) p]
  have res: "res = Inr (fold (\<lambda>i m. m(al_AccountID i \<mapsto> i)) is Map.empty)" "r' = r1"
    using assms(4) ne p by (simp_all add: cache_GetAccountsLoadBatch_def load_batch_def)
  have "map al_AccountID is = map ac_ID accounts" using q by simp
  then have "distinct (map al_AccountID is)" using assms(2) by simp
  then have "fold (\<lambda>i m. m(al_AccountID i \<mapsto> i)) is Map.empty (al_AccountID (?load acc)) = Some (?load acc)"
    using assms(3) q by (intro fold_by_key) auto
  then show ?thesis using res q ne
    by (auto simp: load_of_def Let_def cache_GetAccountWaitingCount_def loadRate_full
        cache_GetAccountsLoadBatch_def load_batch_def split: option.splits)
qed

section \<open>Stale slots of earlier processes\<close>

definition has_prefix_member :: "string \<Rightarrow> string \<times> int \<Rightarrow> bool" where
  "has_prefix_member p = (\<lambda>(m, _). take (length p) m = p)"

definition scanned :: "scan_page list \<Rightarrow> string set" where
  "scanned ps = (\<Union>p \<in> set ps. case fst p of Inl _ \<Rightarrow> {} | Inr keys \<Rightarrow> set keys)"

definition scan_ok :: "scan_page list \<Rightarrow> bool" where
  "scan_ok = list_all (\<lambda>(page, fault). (\<exists>keys. page = Inr keys) \<and> fault = None)"

lemma startup_members:
  "0 < ttl \<Longrightarrow> startupCleanupScript now keys p ttl r = (n, r') \<Longrightarrow>
     zmembers now k r' = (if k \<in> set keys then filter (has_prefix_member p) (zmembers now k r)
                          else zmembers now k r)
     \<and> rd_counters r' = rd_counters r"
proof (induction keys arbitrary: r n)
  case (Cons key keys)
  let ?r = "zput key (filter (has_prefix_member p) (zmembers now key r)) (now + ttl) r"
  obtain n1 where "startupCleanupScript now keys p ttl ?r = (n1, r')"
    using Cons.prems(2)
    by (auto simp: Let_def has_prefix_member_def split: prod.splits)
  from Cons.IH [OF Cons.prems(1) this] Cons.prems(1) show ?case
    by (auto simp: zmembers_zput)
qed simp

lemma cleanup_members:
  "0 < cc_slotTTLSeconds c \<Longrightarrow> scan_ok ps \<Longrightarrow> cleanupSlotsByPattern c now p ps r = (e, r') \<Longrightarrow>
     e = None \<and> rd_counters r' = rd_counters r \<and>
     zmembers now k r' = (if k \<in> scanned ps then filter (has_prefix_member p) (zmembers now k r)
                          else zmembers now k r)"
proof (induction ps arbitrary: r)
  case (Cons x ps)
  obtain keys where x: "x = (Inr keys, None)" and ok: "scan_ok ps"
    using Cons.prems(2) by (cases x) (auto simp: scan_ok_def)
  obtain n r1 where s: "startupCleanupScript now keys p (cc_slotTTLSeconds c) r = (n, r1)" by fastforce
  have "cleanupSlotsByPattern c now p ps r1 = (e, r')"
    using Cons.prems(3) x s by (auto simp: redis_run_def split: if_splits)
  from Cons.IH [OF Cons.prems(1) ok this] startup_members [OF Cons.prems(1) s, of k]
  show ?case using x by (auto simp: scanned_def)
qed (simp add: scanned_def)

lemma delete_counters:
  "scan_ok ps \<Longrightarrow> deleteKeysByPattern ps r = (e, r') \<Longrightarrow>
     e = None \<and> rd_zsets r' = rd_zsets r \<and>
     rd_counters r' k = (if k \<in> scanned ps then None else rd_counters r k)"
proof (induction ps arbitrary: r)
  case (Cons x ps)
  obtain keys where x: "x = (Inr keys, None)" and ok: "scan_ok ps"
    using Cons.prems(1) by (cases x) (auto simp: scan_ok_def)
  have "deleteKeysByPattern ps (snd (del_counters keys r)) = (e, r')"
    using Cons.prems(2) x by (auto simp: redis_run_def del_counters_def split: if_splits)
  from Cons.IH [OF ok this] show ?case using x by (auto simp: scanned_def del_counters_def)
qed (simp add: scanned_def)

text \<open>The clean-up at start-up removes what earlier processes left behind and nothing else: if
  the scans succeed and return every key that is there (the guarantee of \<open>SCAN\<close>), then afterwards
  every slot set holds exactly its former members with the prefix of this process, and every wait
  counter is gone. A member it removes does not start with the prefix of this process.\<close>

lemma CleanupStaleProcessSlots_spec:
  assumes "0 < cc_slotTTLSeconds c" and "p \<noteq> ''''"
    and "scan_ok accs" and "scan_ok users" and "scan_ok accWaits" and "scan_ok userWaits"
    and "\<forall>k. rd_zsets r k \<noteq> None \<longrightarrow> k \<in> scanned accs \<union> scanned users"
    and "\<forall>k. rd_counters r k \<noteq> None \<longrightarrow> k \<in> scanned accWaits \<union> scanned userWaits"
    and "cache_CleanupStaleProcessSlots c now p accs users accWaits userWaits r = (e, r')"
  shows "e = None \<and> (\<forall>k. rd_counters r' k = None)
    \<and> (\<forall>k. zmembers now k r' = filter (\<lambda>(m, _). take (length p) m = p) (zmembers now k r))"
proof -
  obtain e1 r1 where 1: "cleanupSlotsByPattern c now p accs r = (e1, r1)" by fastforce
  obtain e2 r2 where 2: "cleanupSlotsByPattern c now p users r1 = (e2, r2)" by fastforce
  obtain e3 r3 where 3: "deleteKeysByPattern accWaits r2 = (e3, r3)" by fastforce
  note f1 = cleanup_members [OF assms(1,3) 1] and f2 = cleanup_members [OF assms(1,4) 2]
  note f3 = delete_counters [OF assms(5) 3]
  have 4: "deleteKeysByPattern userWaits r3 = (e, r')"
    using assms(2,9) 1 2 3 f1 f2 f3 by (auto simp: cache_CleanupStaleProcessSlots_def)
  note f4 = delete_counters [OF assms(6) 4]
  have "rd_zsets r' = rd_zsets r2" using f3 f4 by simp
  then have z: "zmembers now k r' = zmembers now k r2" for k by (simp add: zmembers_def)
  have "zmembers now k r' = filter (has_prefix_member p) (zmembers now k r)" for k
  proof (cases "rd_zsets r k")
    case None
    then have "zmembers now k r = []" by (simp add: zmembers_def)
    then show ?thesis using f1 [of k] f2 [of k] by (simp add: z split: if_splits)
  next
    case (Some y)
    then have "k \<in> scanned accs \<union> scanned users" using assms(7) by blast
    then show ?thesis using f1 [of k] f2 [of k]
      by (auto simp: z filter_id_conv split: if_splits)
  qed
  moreover have "rd_counters r' k = None" for k
    using spec [OF assms(8), of k] f1 [of k] f2 [of k] f3 [of k] f4 [of k]
    by (cases "rd_counters r k") (auto split: if_splits)
  ultimately show ?thesis using f4 by (auto simp: has_prefix_member_def)
qed

end
