(* ===== verification/Concurrency_Service.thy ===== *)
theory Concurrency_Service
  imports Slot_Cache Go_Strings "HOL-Library.Word"
begin

unbundle bit_operations_syntax

text \<open>
  The concurrency limits as the gateway uses them, \<open>service/concurrency_service.go\<close>: request ids,
  the acquisition of slots of accounts and users with the function that releases them, the wait
  counters, and the short-lived cache of the accounts' load.

  The slot cache is the Redis cache of \<open>Slot_Cache\<close>, or \<open>None\<close> for a nil cache. A call names its
  fault and the time of the Redis server, in seconds; the process clock is in nanoseconds. A method
  called on a nil cache panics: the outer \<open>option\<close> of such a call is \<open>None\<close>. The release function
  of a result is kept as data, \<open>ReleaseFunc\<close>, and run by \<open>run_release\<close>. The contexts of the calls
  only bound how long they may take.
\<close>

section \<open>Request ids\<close>

definition digit36 :: "nat \<Rightarrow> char" where
  "digit36 d = (if d < 10 then char_of (48 + d) else char_of (87 + d))"

text \<open>\<open>strconv.FormatUint(n, 36)\<close>.\<close>

fun base36 :: "nat \<Rightarrow> string" where
  "base36 n = (if n < 36 then [digit36 n] else base36 (n div 36) @ [digit36 (n mod 36)])"

declare base36.simps [simp del]

record request_ids =
  rq_prefix :: string
  rq_counter :: "64 word"

text \<open>The eight random bytes, most significant first, or the failure of \<open>rand.Read\<close>; then the
  clock and the process id.\<close>

fun be_uint64 :: "nat list \<Rightarrow> nat" where
  "be_uint64 bs = fold (\<lambda>b n. n * 256 + b) bs 0"

definition initRequestIDPrefix :: "nat list option \<Rightarrow> int \<Rightarrow> int \<Rightarrow> string" where
  "initRequestIDPrefix rand_bytes nano pid =
     (case rand_bytes of
        Some b \<Rightarrow> ''r'' @ base36 (be_uint64 b)
      | None \<Rightarrow>
          let fallback = (word_of_int nano :: 64 word) XOR push_bit 16 (word_of_int pid)
          in ''r'' @ base36 (unat fallback))"

definition RequestIDPrefix :: "request_ids \<Rightarrow> string" where
  "RequestIDPrefix g = rq_prefix g"

definition generateRequestID :: "request_ids \<Rightarrow> string \<times> request_ids" where
  "generateRequestID g =
     (let sq = rq_counter g + 1
      in (rq_prefix g @ ''-'' @ base36 (unat sq), g\<lparr>rq_counter := sq\<rparr>))"

section \<open>The service\<close>

definition defaultExtraWaitSlots :: int where "defaultExtraWaitSlots = 20"
definition defaultAccountLoadBatchCacheTTL :: duration where
  "defaultAccountLoadBatchCacheTTL = 200 * Millisecond"
definition maxAccountLoadBatchCacheEntries :: nat where "maxAccountLoadBatchCacheEntries = 256"

record cachedAccountLoadBatch =
  cb_loadMap :: "int \<rightharpoonup> AccountLoadInfo"
  cb_expiresAt :: time

type_synonym load_cache = "(string \<times> cachedAccountLoadBatch) list"

record ConcurrencyService =
  cs_cache :: "concurrencyCache option"
  cs_accountLoadCacheTTL :: duration
  cs_accountLoadCache :: load_cache

definition SetAccountLoadBatchCacheTTL :: "duration \<Rightarrow> ConcurrencyService \<Rightarrow> ConcurrencyService" where
  "SetAccountLoadBatchCacheTTL ttl s =
     (let s = s\<lparr>cs_accountLoadCacheTTL := ttl\<rparr>
      in if ttl \<le> 0 then s\<lparr>cs_accountLoadCache := []\<rparr> else s)"

definition NewConcurrencyService :: "concurrencyCache option \<Rightarrow> ConcurrencyService" where
  "NewConcurrencyService cache =
     SetAccountLoadBatchCacheTTL defaultAccountLoadBatchCacheTTL
       \<lparr>cs_cache = cache, cs_accountLoadCacheTTL = 0, cs_accountLoadCache = []\<rparr>"

datatype ReleaseFunc = ReleaseNoOp | ReleaseAccount int string | ReleaseUser int string

record AcquireResult =
  ar_Acquired :: bool
  ar_ReleaseFunc :: "ReleaseFunc option"

definition AcquireAccountSlot ::
  "ConcurrencyService \<Rightarrow> go_error option \<Rightarrow> int \<Rightarrow> int \<Rightarrow> int \<Rightarrow> request_ids \<Rightarrow> redis
     \<Rightarrow> ((go_error + AcquireResult) \<times> request_ids \<times> redis) option" where
  "AcquireAccountSlot s fault now accountID maxConcurrency g r =
     (if maxConcurrency \<le> 0 then
        Some (Inr \<lparr>ar_Acquired = True, ar_ReleaseFunc = Some ReleaseNoOp\<rparr>, g, r)
      else
        case generateRequestID g of (requestID, g) \<Rightarrow>
        (case cs_cache s of None \<Rightarrow> None
         | Some c \<Rightarrow>
           (case cache_AcquireAccountSlot c fault now accountID maxConcurrency requestID r of
              (Inl e, r) \<Rightarrow> Some (Inl e, g, r)
            | (Inr acquired, r) \<Rightarrow>
                if acquired then
                  Some (Inr \<lparr>ar_Acquired = True, ar_ReleaseFunc = Some (ReleaseAccount accountID requestID)\<rparr>, g, r)
                else Some (Inr \<lparr>ar_Acquired = False, ar_ReleaseFunc = None\<rparr>, g, r))))"

definition AcquireUserSlot ::
  "ConcurrencyService \<Rightarrow> go_error option \<Rightarrow> int \<Rightarrow> int \<Rightarrow> int \<Rightarrow> request_ids \<Rightarrow> redis
     \<Rightarrow> ((go_error + AcquireResult) \<times> request_ids \<times> redis) option" where
  "AcquireUserSlot s fault now userID maxConcurrency g r =
     (if maxConcurrency \<le> 0 then
        Some (Inr \<lparr>ar_Acquired = True, ar_ReleaseFunc = Some ReleaseNoOp\<rparr>, g, r)
      else
        case generateRequestID g of (requestID, g) \<Rightarrow>
        (case cs_cache s of None \<Rightarrow> None
         | Some c \<Rightarrow>
           (case cache_AcquireUserSlot c fault now userID maxConcurrency requestID r of
              (Inl e, r) \<Rightarrow> Some (Inl e, g, r)
            | (Inr acquired, r) \<Rightarrow>
                if acquired then
                  Some (Inr \<lparr>ar_Acquired = True, ar_ReleaseFunc = Some (ReleaseUser userID requestID)\<rparr>, g, r)
                else Some (Inr \<lparr>ar_Acquired = False, ar_ReleaseFunc = None\<rparr>, g, r))))"

text \<open>What the release functions do; an error is only logged.\<close>

fun run_release :: "go_error option \<Rightarrow> int \<Rightarrow> ReleaseFunc \<Rightarrow> redis \<Rightarrow> redis" where
  "run_release fault now ReleaseNoOp r = r"
| "run_release fault now (ReleaseAccount a q) r = snd (cache_ReleaseAccountSlot fault now a q r)"
| "run_release fault now (ReleaseUser u q) r = snd (cache_ReleaseUserSlot fault now u q r)"

text \<open>The wait counters fail open.\<close>

definition IncrementWaitCount ::
  "ConcurrencyService \<Rightarrow> go_error option \<Rightarrow> int \<Rightarrow> int \<Rightarrow> int \<Rightarrow> redis \<Rightarrow> bool \<times> redis" where
  "IncrementWaitCount s fault now userID maxWait r =
     (case cs_cache s of None \<Rightarrow> (True, r)
      | Some c \<Rightarrow> (case cache_IncrementWaitCount c fault now userID maxWait r of
          (Inl e, r) \<Rightarrow> (True, r) | (Inr result, r) \<Rightarrow> (result, r)))"

definition DecrementWaitCount ::
  "ConcurrencyService \<Rightarrow> go_error option \<Rightarrow> int \<Rightarrow> int \<Rightarrow> redis \<Rightarrow> redis" where
  "DecrementWaitCount s fault now userID r =
     (case cs_cache s of None \<Rightarrow> r | Some c \<Rightarrow> snd (cache_DecrementWaitCount fault now userID r))"

definition IncrementAccountWaitCount ::
  "ConcurrencyService \<Rightarrow> go_error option \<Rightarrow> int \<Rightarrow> int \<Rightarrow> int \<Rightarrow> redis \<Rightarrow> bool \<times> redis" where
  "IncrementAccountWaitCount s fault now accountID maxWait r =
     (case cs_cache s of None \<Rightarrow> (True, r)
      | Some c \<Rightarrow> (case cache_IncrementAccountWaitCount c fault now accountID maxWait r of
          (Inl e, r) \<Rightarrow> (True, r) | (Inr result, r) \<Rightarrow> (result, r)))"

definition DecrementAccountWaitCount ::
  "ConcurrencyService \<Rightarrow> go_error option \<Rightarrow> int \<Rightarrow> int \<Rightarrow> redis \<Rightarrow> redis" where
  "DecrementAccountWaitCount s fault now accountID r =
     (case cs_cache s of None \<Rightarrow> r
      | Some c \<Rightarrow> snd (cache_DecrementAccountWaitCount fault now accountID r))"

definition GetAccountWaitingCount ::
  "ConcurrencyService \<Rightarrow> go_error option \<Rightarrow> int \<Rightarrow> int \<Rightarrow> redis \<Rightarrow> go_error + int" where
  "GetAccountWaitingCount s fault now accountID r =
     (case cs_cache s of None \<Rightarrow> Inr 0
      | Some c \<Rightarrow> cache_GetAccountWaitingCount fault now accountID r)"

definition CalculateMaxWait :: "int \<Rightarrow> int" where
  "CalculateMaxWait userConcurrency =
     (let userConcurrency = (if userConcurrency \<le> 0 then 1 else userConcurrency)
      in userConcurrency + defaultExtraWaitSlots)"

section \<open>The cache of the load\<close>

text \<open>The key is a hash over the ids and limits, eight little-endian bytes each; \<open>sha256_hex\<close>
  is the hexadecimal SHA-256.\<close>

definition le_bytes8 :: "int \<Rightarrow> nat list" where
  "le_bytes8 i = map (\<lambda>k. unat (drop_bit (8 * k) (word_of_int i :: 64 word) AND 255)) [0..<8]"

definition load_key_bytes :: "AccountWithConcurrency list \<Rightarrow> nat list" where
  "load_key_bytes accounts =
     concat (map (\<lambda>a. le_bytes8 (ac_ID a) @ le_bytes8 (ac_MaxConcurrency a)) accounts)"

definition accountLoadBatchCacheKey ::
  "(nat list \<Rightarrow> string) \<Rightarrow> AccountWithConcurrency list \<Rightarrow> string" where
  "accountLoadBatchCacheKey sha256_hex accounts =
     itoa (int (length accounts)) @ '':'' @ sha256_hex (load_key_bytes accounts)"

definition getCachedAccountLoadBatch ::
  "string \<Rightarrow> time \<Rightarrow> ConcurrencyService \<Rightarrow> (int \<rightharpoonup> AccountLoadInfo) option \<times> ConcurrencyService" where
  "getCachedAccountLoadBatch key now s =
     (case map_of (cs_accountLoadCache s) key of
        None \<Rightarrow> (None, s)
      | Some cached \<Rightarrow>
          if \<not> now < cb_expiresAt cached then
            (None, s\<lparr>cs_accountLoadCache := AList.delete key (cs_accountLoadCache s)\<rparr>)
          else (Some (cb_loadMap cached), s))"

text \<open>Go ranges over a map in an arbitrary order: \<open>order\<close> lists the entries in the order of the
  range. The second loop drops the first entry until there is room.\<close>

function evict_to_room :: "(load_cache \<Rightarrow> load_cache) \<Rightarrow> load_cache \<Rightarrow> load_cache" where
  "evict_to_room order m =
     (if length m < maxAccountLoadBatchCacheEntries then m
      else case order m of [] \<Rightarrow> m
           | (k, _) # _ \<Rightarrow> if k \<in> fst ` set m then evict_to_room order (AList.delete k m) else m)"
  by pat_completeness auto
termination
proof (relation "measure (\<lambda>(_, m). length m)", simp, goal_cases)
  case (1 order m x xs k v)
  then have "k \<in> fst ` set m" by simp
  then show ?case by (auto simp: AList.delete_eq intro!: length_filter_less)
qed

declare evict_to_room.simps [simp del]

definition storeCachedAccountLoadBatch ::
  "(load_cache \<Rightarrow> load_cache) \<Rightarrow> time \<Rightarrow> string \<Rightarrow> (int \<rightharpoonup> AccountLoadInfo) \<Rightarrow> time
     \<Rightarrow> ConcurrencyService \<Rightarrow> ConcurrencyService" where
  "storeCachedAccountLoadBatch order now key loadMap expiresAt s =
     (let m = cs_accountLoadCache s;
          m = (if maxAccountLoadBatchCacheEntries \<le> length m
               then evict_to_room order (filter (\<lambda>(_, c). now < cb_expiresAt c) m)
               else m)
      in s\<lparr>cs_accountLoadCache :=
             AList.update key \<lparr>cb_loadMap = loadMap, cb_expiresAt = expiresAt\<rparr> m\<rparr>)"

text \<open>The faults of a fetch are those of the pipeline in \<open>Slot_Cache\<close>.\<close>

definition fetchAccountsLoadBatch ::
  "ConcurrencyService \<Rightarrow> go_error option \<Rightarrow> go_error option \<Rightarrow> int \<Rightarrow> AccountWithConcurrency list
     \<Rightarrow> redis \<Rightarrow> (go_error + (int \<rightharpoonup> AccountLoadInfo)) \<times> redis" where
  "fetchAccountsLoadBatch s timeFault pipeFault now accounts r =
     (case cs_cache s of None \<Rightarrow> (Inr Map.empty, r)
      | Some c \<Rightarrow> cache_GetAccountsLoadBatch c timeFault pipeFault now accounts r)"

text \<open>\<open>t1\<close>, \<open>t2\<close> and \<open>t3\<close> are the readings of the process clock, in the order they are taken.
  The calls that \<open>singleflight\<close> merges get the value of the one that runs. A cached map is not
  changed by its readers, so the copy that is stored is the map itself.\<close>

definition getAccountsLoadBatch ::
  "(nat list \<Rightarrow> string) \<Rightarrow> (load_cache \<Rightarrow> load_cache) \<Rightarrow> time \<Rightarrow> time \<Rightarrow> time
     \<Rightarrow> go_error option \<Rightarrow> go_error option \<Rightarrow> int \<Rightarrow> AccountWithConcurrency list \<Rightarrow> bool
     \<Rightarrow> ConcurrencyService \<Rightarrow> redis
     \<Rightarrow> (go_error + (int \<rightharpoonup> AccountLoadInfo)) \<times> ConcurrencyService \<times> redis" where
  "getAccountsLoadBatch sha256_hex order t1 t2 t3 timeFault pipeFault now accounts allowCache s r =
     (if accounts = [] then (Inr Map.empty, s, r)
      else if cs_cache s = None then (Inr Map.empty, s, r)
      else
        let ttl = cs_accountLoadCacheTTL s
        in if \<not> allowCache \<or> ttl \<le> 0 then
             (case fetchAccountsLoadBatch s timeFault pipeFault now accounts r of
                (res, r) \<Rightarrow> (res, s, r))
           else
             let key = accountLoadBatchCacheKey sha256_hex accounts
             in case getCachedAccountLoadBatch key t1 s of
                  (Some cached, s) \<Rightarrow> (Inr cached, s, r)
                | (None, s) \<Rightarrow>
                  (case getCachedAccountLoadBatch key t2 s of
                     (Some cached, s) \<Rightarrow> (Inr cached, s, r)
                   | (None, s) \<Rightarrow>
                     (case fetchAccountsLoadBatch s timeFault pipeFault now accounts r of
                        (Inl e, r) \<Rightarrow> (Inl e, s, r)
                      | (Inr loadMap, r) \<Rightarrow>
                          (Inr loadMap,
                           storeCachedAccountLoadBatch order t3 key loadMap (t2 + ttl) s, r))))"

definition GetAccountsLoadBatch where
  "GetAccountsLoadBatch sha256_hex order t1 t2 t3 timeFault pipeFault now accounts =
     getAccountsLoadBatch sha256_hex order t1 t2 t3 timeFault pipeFault now accounts True"

definition GetAccountsLoadBatchFresh where
  "GetAccountsLoadBatchFresh sha256_hex order t1 t2 t3 timeFault pipeFault now accounts =
     getAccountsLoadBatch sha256_hex order t1 t2 t3 timeFault pipeFault now accounts False"

definition GetUsersLoadBatch ::
  "ConcurrencyService \<Rightarrow> go_error option \<Rightarrow> go_error option \<Rightarrow> int \<Rightarrow> AccountWithConcurrency list
     \<Rightarrow> redis \<Rightarrow> (go_error + (int \<rightharpoonup> AccountLoadInfo)) \<times> redis" where
  "GetUsersLoadBatch s timeFault pipeFault now users r =
     (case cs_cache s of None \<Rightarrow> (Inr Map.empty, r)
      | Some c \<Rightarrow> cache_GetUsersLoadBatch c timeFault pipeFault now users r)"

definition CleanupExpiredAccountSlots ::
  "ConcurrencyService \<Rightarrow> go_error option \<Rightarrow> int \<Rightarrow> int \<Rightarrow> redis \<Rightarrow> go_error option \<times> redis" where
  "CleanupExpiredAccountSlots s fault now accountID r =
     (case cs_cache s of None \<Rightarrow> (None, r)
      | Some c \<Rightarrow> cache_CleanupExpiredAccountSlots c fault now accountID r)"

definition CleanupStaleProcessSlots ::
  "ConcurrencyService option \<Rightarrow> int \<Rightarrow> request_ids \<Rightarrow> scan_page list \<Rightarrow> scan_page list
     \<Rightarrow> scan_page list \<Rightarrow> scan_page list \<Rightarrow> redis \<Rightarrow> go_error option \<times> redis" where
  "CleanupStaleProcessSlots svc now g accs users accWaits userWaits r =
     (case svc of None \<Rightarrow> (None, r)
      | Some s \<Rightarrow> (case cs_cache s of None \<Rightarrow> (None, r)
        | Some c \<Rightarrow>
            cache_CleanupStaleProcessSlots c now (RequestIDPrefix g) accs users accWaits userWaits r))"

text \<open>One run of the clean-up worker: the list of schedulable accounts, or the failure of the
  query, with the fault and the time of each account's clean-up. A failure for one account does
  not stop the others.\<close>

fun runCleanup ::
  "concurrencyCache \<Rightarrow> go_error + (int \<times> go_error option \<times> int) list \<Rightarrow> redis \<Rightarrow> redis" where
  "runCleanup c (Inl e) r = r"
| "runCleanup c (Inr accounts) r =
     fold (\<lambda>(a, fault, now) r. snd (cache_CleanupExpiredAccountSlots c fault now a r)) accounts r"

definition GetAccountConcurrencyBatch ::
  "ConcurrencyService \<Rightarrow> go_error option \<Rightarrow> go_error option \<Rightarrow> int \<Rightarrow> int list \<Rightarrow> redis
     \<Rightarrow> (go_error + (int \<rightharpoonup> int)) \<times> redis" where
  "GetAccountConcurrencyBatch s timeFault pipeFault now accountIDs r =
     (if accountIDs = [] then (Inr Map.empty, r)
      else case cs_cache s of
        None \<Rightarrow> (Inr (\<lambda>a. if a \<in> set accountIDs then Some 0 else None), r)
      | Some c \<Rightarrow> cache_GetAccountConcurrencyBatch c timeFault pipeFault now accountIDs r)"

section \<open>Request ids are distinct\<close>

lemma digit36_code: "d < 36 \<Longrightarrow> (of_char (digit36 d) :: nat) = (if d < 10 then 48 + d else 87 + d)"
  by (simp add: digit36_def)

lemma digit36_inject:
  assumes "m < 36" and "n < 36"
  shows "digit36 m = digit36 n \<longleftrightarrow> m = n"
proof
  assume "digit36 m = digit36 n"
  then have "(of_char (digit36 m) :: nat) = of_char (digit36 n)" by simp
  then have "(if m < 10 then 48 + m else 87 + m) = (if n < 10 then 48 + n else 87 + n)"
    by (simp only: digit36_code [OF assms(1)] digit36_code [OF assms(2)])
  then show "m = n" by (auto split: if_splits)
qed simp

lemma base36_nonempty [simp]: "base36 n \<noteq> []"
  by (subst base36.simps) simp

lemma base36_inject [simp]: "base36 m = base36 n \<longleftrightarrow> m = n"
proof
  show "base36 m = base36 n \<Longrightarrow> m = n"
  proof (induction m arbitrary: n rule: base36.induct)
    case (1 m)
    have small: "base36 k = [digit36 k]" if "k < 36" for k using that by (subst base36.simps) simp
    have big: "base36 k = base36 (k div 36) @ [digit36 (k mod 36)]" if "\<not> k < 36" for k
      using that by (subst base36.simps) simp
    show ?case
    proof (cases "m < 36"; cases "n < 36")
      assume "\<not> m < 36" "\<not> n < 36"
      with 1 have "m div 36 = n div 36" "m mod 36 = n mod 36"
        by (auto simp: big digit36_inject)
      then show ?thesis by (metis div_mult_mod_eq)
    qed (use 1 in \<open>auto simp: small big digit36_inject append_eq_Cons_conv Cons_eq_append_conv\<close>)
  qed
qed simp

text \<open>The id the process hands out \<open>i\<close> calls from now, and its next \<open>n\<close> ids.\<close>

definition id_after :: "nat \<Rightarrow> request_ids \<Rightarrow> string" where
  "id_after i g = rq_prefix g @ ''-'' @ base36 (unat (rq_counter g + 1 + of_nat i))"

fun next_ids :: "nat \<Rightarrow> request_ids \<Rightarrow> string list" where
  "next_ids 0 g = []"
| "next_ids (Suc n) g = (case generateRequestID g of (q, g) \<Rightarrow> q # next_ids n g)"

lemma generate_id: "generateRequestID g = (id_after 0 g, g\<lparr>rq_counter := rq_counter g + 1\<rparr>)"
  by (simp add: generateRequestID_def id_after_def Let_def)

lemma id_after_Suc: "id_after i (g\<lparr>rq_counter := rq_counter g + 1\<rparr>) = id_after (Suc i) g"
  by (simp add: id_after_def algebra_simps)

lemma next_ids_eq: "next_ids n g = map (\<lambda>i. id_after i g) [0..<n]"
proof (induction n arbitrary: g)
  case (Suc n)
  have "map (\<lambda>i. id_after i g) [0..<Suc n] = id_after 0 g # map (\<lambda>i. id_after (Suc i) g) [0..<n]"
    by (subst upt_conv_Cons) (simp_all add: map_Suc_upt [symmetric] del: upt_Suc)
  then show ?case by (simp add: Suc.IH generate_id id_after_Suc del: upt_Suc)
qed simp

lemma id_after_inject:
  assumes "i < 2 ^ 64" and "j < 2 ^ 64"
  shows "id_after i g = id_after j g \<longleftrightarrow> i = j"
proof
  assume "id_after i g = id_after j g"
  then have "rq_counter g + 1 + of_nat i = rq_counter g + 1 + of_nat j"
    by (simp add: id_after_def word_unat_eq_iff)
  then have "(of_nat i :: 64 word) = of_nat j" by (rule add_left_imp_eq)
  then have "unat (of_nat i :: 64 word) = unat (of_nat j :: 64 word)" by simp
  then show "i = j" using assms by (simp add: unat_of_nat take_bit_eq_mod)
qed simp

text \<open>The ids a process hands out for its requests are pairwise distinct for as many as
  \<open>2 ^ 64\<close> calls of \<open>generateRequestID\<close>, from any value of the counter, its wrap-around included;
  and each of them starts with the prefix by which the start-up clean-up recognises the slots of
  this process.\<close>

lemma request_ids_distinct:
  assumes "n \<le> 2 ^ 64"
  shows "distinct (next_ids n g) \<and>
    (\<forall>q \<in> set (next_ids n g). take (length (RequestIDPrefix g)) q = RequestIDPrefix g)"
  using assms
  by (auto simp: next_ids_eq distinct_map inj_on_def id_after_inject)
    (auto simp: id_after_def RequestIDPrefix_def)

section \<open>Slots are counted\<close>

text \<open>The next \<open>n\<close> ids of the process are in use nowhere.\<close>

definition ids_fresh :: "nat \<Rightarrow> request_ids \<Rightarrow> redis \<Rightarrow> bool" where
  "ids_fresh n g r \<longleftrightarrow> (\<forall>i < n. \<forall>key. id_after i g \<notin> fst ` set (stored key r))"

lemma stored_zput: "stored k' (zput k zs ex r) = (if k' = k then zs else stored k' r)"
  by (simp add: stored_def zput_same)

lemma zmembers_stored: "set (zmembers now key r) \<subseteq> set (stored key r)"
  by (auto simp: zmembers_def stored_def split: option.splits)

lemma fresh_not_live: "ids_fresh (Suc n) g r \<Longrightarrow> slot_live ttl now key r (id_after 0 g) = None"
proof -
  assume "ids_fresh (Suc n) g r"
  then have "id_after 0 g \<notin> fst ` set (zmembers now key r)"
    using zmembers_stored [of now key r] unfolding ids_fresh_def by blast
  then show ?thesis by (force simp: slot_live_def map_of_eq_None_iff)
qed

lemma fresh_acquire:
  assumes "ids_fresh (Suc n) g r" and "Suc n \<le> 2 ^ 64"
  shows "ids_fresh n (g\<lparr>rq_counter := rq_counter g + 1\<rparr>)
    (snd (acquire_slot ttl now key mx (id_after 0 g) r))"
  unfolding ids_fresh_def id_after_Suc
proof (intro allI impI notI)
  fix i k
  assume i: "i < n"
    and "id_after (Suc i) g \<in> fst ` set (stored k (snd (acquire_slot ttl now key mx (id_after 0 g) r)))"
  then obtain sc where
    "(id_after (Suc i) g, sc) \<in> set (stored k (snd (acquire_slot ttl now key mx (id_after 0 g) r)))"
    by auto
  then have "id_after (Suc i) g = id_after 0 g \<or> (id_after (Suc i) g, sc) \<in> set (stored k r)"
    using zmembers_stored [of now key r]
    by (auto simp: acquire_slot_eq Let_def stored_zput split: if_splits dest!: set_update_alist)
  moreover have "id_after (Suc i) g \<noteq> id_after 0 g" using i assms(2) by (simp add: id_after_inject)
  moreover have "id_after (Suc i) g \<notin> fst ` set (stored k r)"
    using i assms(1) unfolding ids_fresh_def by (meson Suc_less_eq)
  ultimately show False by force
qed

lemma slot_live_restored:
  assumes "slots_wf ttl now r" and "slot_live ttl now k r q = None"
  shows "slot_live ttl now k' (release_slot now k q (snd (acquire_slot ttl now k mx q r))) =
    slot_live ttl now k' r"
  using assms(2) fun_upd_triv [of "slot_live ttl now k r" q]
  by (auto simp: release_slot_live [OF acquire_slot_wf [OF assms(1)]] acquire_slot_live [OF assms(1)])

text \<open>With ids that are still unused, every slot that \<open>AcquireAccountSlot\<close> grants is counted.
  If fewer than the limit are live, the request gets one, which adds exactly one to the account's
  live slots, and running the release function puts the slots of every owner back as they were
  before. If the limit is reached, the request gets none, no function to release it, and no slot
  changes. The ids that follow stay unused and the key space well formed, so this holds for the
  next call too.\<close>

lemma AcquireAccountSlot_counts:
  assumes "cs_cache s = Some c" and "slots_wf (cc_slotTTLSeconds c) now r" and "0 < mx"
    and "ids_fresh (Suc n) g r" and "Suc n \<le> 2 ^ 64"
    and "AcquireAccountSlot s None now a mx g r = Some (res, g', r')"
  shows "ids_fresh n g' r' \<and> slots_wf (cc_slotTTLSeconds c) now r' \<and>
    (let live = slot_live (cc_slotTTLSeconds c) now; k = accountSlotKey a
     in if int (card (dom (live k r))) < mx
        then \<exists>f. res = Inr \<lparr>ar_Acquired = True, ar_ReleaseFunc = Some f\<rparr>
          \<and> card (dom (live k r')) = Suc (card (dom (live k r)))
          \<and> (\<forall>k'. live k' (run_release None now f r') = live k' r)
        else res = Inr \<lparr>ar_Acquired = False, ar_ReleaseFunc = None\<rparr> \<and> (\<forall>k'. live k' r' = live k' r))"
proof -
  let ?ttl = "cc_slotTTLSeconds c" and ?k = "accountSlotKey a" and ?q = "id_after 0 g"
  let ?acq = "acquire_slot ?ttl now ?k mx ?q r"
  have none: "slot_live ?ttl now ?k r ?q = None" using assms(4) by (rule fresh_not_live)
  have ok: "fst ?acq \<longleftrightarrow> int (card (dom (slot_live ?ttl now ?k r))) < mx"
    using redis_slots.acquire_iff [OF assms(2)] none by simp
  have g': "g' = g\<lparr>rq_counter := rq_counter g + 1\<rparr>" and r': "r' = snd ?acq"
    and res: "res = Inr (if fst ?acq then \<lparr>ar_Acquired = True, ar_ReleaseFunc = Some (ReleaseAccount a ?q)\<rparr>
                         else \<lparr>ar_Acquired = False, ar_ReleaseFunc = None\<rparr>)"
    using assms(1,3,6)
    by (auto simp: AcquireAccountSlot_def generate_id cache_slot_defs split: if_splits)
  have live: "slot_live ?ttl now k' r' =
      (if k' = ?k \<and> fst ?acq then (slot_live ?ttl now ?k r)(?q \<mapsto> now) else slot_live ?ttl now k' r)" for k'
    unfolding r' by (rule acquire_slot_live [OF assms(2)])
  have "slot_live ?ttl now k' (run_release None now (ReleaseAccount a ?q) r') = slot_live ?ttl now k' r" for k'
    using slot_live_restored [OF assms(2) none, of k' mx] by (simp add: r' cache_slot_defs)
  moreover have "card (dom ((slot_live ?ttl now ?k r)(?q \<mapsto> now))) = Suc (card (dom (slot_live ?ttl now ?k r)))"
    using none redis_slots.finite_live by (simp add: card_insert_disjoint domIff)
  ultimately show ?thesis
    using fresh_acquire [OF assms(4,5), of ?ttl now ?k mx] acquire_slot_wf [OF assms(2), of ?k mx ?q]
    by (auto simp: g' r' [symmetric] res live ok [symmetric] Let_def)
qed

definition demo_service :: ConcurrencyService where
  "demo_service = NewConcurrencyService (Some (NewConcurrencyCache 15 30))"

definition demo_ids :: request_ids where
  "demo_ids = \<lparr>rq_prefix = initRequestIDPrefix (Some [0, 0, 0, 0, 0, 0, 1, 2]) 0 0, rq_counter = 0\<rparr>"

lemma demo_service_cache: "cs_cache demo_service = Some (NewConcurrencyCache 15 30)"
  by (simp add: demo_service_def NewConcurrencyService_def SetAccountLoadBatchCacheTTL_def Let_def)

lemma demo_ttl [simp]: "cc_slotTTLSeconds (NewConcurrencyCache 15 30) = 900"
  by (simp add: NewConcurrencyCache_def)

lemma no_keys_fresh: "ids_fresh n g no_keys"
  by (simp add: ids_fresh_def stored_def no_keys_def)

text \<open>Whatever the scans return and wherever they fail, a member with the active prefix stays.\<close>

lemma cleanup_keeps:
  "0 < cc_slotTTLSeconds c \<Longrightarrow> has_prefix_member p x \<Longrightarrow> x \<in> set (zmembers now k r) \<Longrightarrow>
     cleanupSlotsByPattern c now p ps r = (e, r') \<Longrightarrow> x \<in> set (zmembers now k r')"
proof (induction c now p ps r rule: cleanupSlotsByPattern.induct)
  case (3 c now p keys fault ps r)
  show ?case
  proof (cases "keys = [] \<or> fault \<noteq> None")
    case True
    then show ?thesis using 3 by (auto simp: redis_run_def split: if_splits)
  next
    case False
    obtain n r1 where s: "startupCleanupScript now keys p (cc_slotTTLSeconds c) r = (n, r1)" by fastforce
    have "x \<in> set (zmembers now k r1)" using startup_members [OF 3(3) s, of k] 3(4,5) by auto
    then show ?thesis using 3 False s by (auto simp: redis_run_def)
  qed
qed auto

lemma delete_keeps: "deleteKeysByPattern ps r = (e, r') \<Longrightarrow> rd_zsets r' = rd_zsets r"
  by (induction ps r rule: deleteKeysByPattern.induct)
    (auto simp: redis_run_def del_counters_def split: if_splits option.splits)

lemma prefix_of_own_id: "has_prefix_member (rq_prefix g) (id_after i g, sc)"
  by (simp add: has_prefix_member_def id_after_def)

text \<open>C12: The clean-up at start-up never takes a slot away from the process that runs it: whatever
  the scans return and wherever they fail, a request of this process that holds a slot before
  \<open>CleanupStaleProcessSlots\<close> holds it afterwards, with the time it took it.\<close>

theorem own_slots_survive:
  assumes "cs_cache s = Some c" and "0 < cc_slotTTLSeconds c"
    and "CleanupStaleProcessSlots (Some s) now g accs users accWaits userWaits r = (e, r')"
    and "(id_after i g, sc) \<in> set (zmembers now k r)"
  shows "(id_after i g, sc) \<in> set (zmembers now k r')"
proof (cases "rq_prefix g = ''''")
  case True
  then show ?thesis
    using assms by (simp add: CleanupStaleProcessSlots_def RequestIDPrefix_def cache_CleanupStaleProcessSlots_def)
next
  case False
  let ?x = "(id_after i g, sc)"
  have keep: "cleanupSlotsByPattern c now (rq_prefix g) ps r1 = (e1, r2) \<Longrightarrow>
      ?x \<in> set (zmembers now k r1) \<Longrightarrow> ?x \<in> set (zmembers now k r2)" for ps r1 e1 r2
    using cleanup_keeps [OF assms(2) prefix_of_own_id] by blast
  have del: "deleteKeysByPattern ps r1 = (e1, r2) \<Longrightarrow>
      ?x \<in> set (zmembers now k r1) \<Longrightarrow> ?x \<in> set (zmembers now k r2)" for ps r1 e1 r2
    using delete_keeps [of ps r1 e1 r2] by (simp add: zmembers_def)
  show ?thesis using assms False
    by (auto simp: CleanupStaleProcessSlots_def RequestIDPrefix_def cache_CleanupStaleProcessSlots_def
      split: prod.splits option.splits dest!: keep del)
qed

theorem own_slots_survive_witness:
  "let q = id_after 4 demo_ids; k = accountSlotKey 7;
       r = \<lparr>rd_zsets = [k \<mapsto> ([(''rold-1'', 10), (q, 11)], 500)], rd_counters = Map.empty\<rparr>
   in (q, 11) \<in> set (zmembers 20 k (snd (CleanupStaleProcessSlots (Some demo_service) 20 demo_ids
        [(Inr [k], None), (Inl (OtherError ''timeout'' None), None)] [] [] [] r)))"
proof -
  let ?q = "id_after 4 demo_ids" and ?k = "accountSlotKey 7"
  let ?r = "\<lparr>rd_zsets = [?k \<mapsto> ([(''rold-1'', 10), (?q, 11)], 500)], rd_counters = Map.empty\<rparr>"
  obtain e r' where x: "CleanupStaleProcessSlots (Some demo_service) 20 demo_ids
      [(Inr [?k], None), (Inl (OtherError ''timeout'' None), None)] [] [] [] ?r = (e, r')" by fastforce
  have "(?q, 11) \<in> set (zmembers 20 ?k r')"
    by (rule own_slots_survive [OF demo_service_cache _ x]) (simp_all add: zmembers_def)
  then show ?thesis using x by (simp add: Let_def)
qed

section \<open>The cache of the load stays small and fresh\<close>

definition cache_wf :: "ConcurrencyService \<Rightarrow> bool" where
  "cache_wf s \<longleftrightarrow> distinct (map fst (cs_accountLoadCache s))
     \<and> length (cs_accountLoadCache s) \<le> maxAccountLoadBatchCacheEntries"

lemma evict_distinct: "distinct (map fst m) \<Longrightarrow> distinct (map fst (evict_to_room order m))"
proof (induction order m rule: evict_to_room.induct)
  case (1 order m)
  then show ?case
    by (subst evict_to_room.simps) (fastforce simp: distinct_delete split: list.splits)
qed

lemma evict_room:
  "(\<And>m. set (order m) = set m) \<Longrightarrow> length (evict_to_room order m) < maxAccountLoadBatchCacheEntries"
proof (induction order m rule: evict_to_room.induct)
  case (1 order m)
  show ?case
  proof (cases "length m < maxAccountLoadBatchCacheEntries")
    case True
    then show ?thesis by (subst evict_to_room.simps) simp
  next
    case False
    then have "m \<noteq> []" by (auto simp: maxAccountLoadBatchCacheEntries_def)
    then obtain k v rest where o: "order m = (k, v) # rest"
      using 1(2) [of m] by (cases "order m") auto
    then have "k \<in> fst ` set m" using 1(2) [of m] by force
    then show ?thesis using False o 1 by (subst evict_to_room.simps) simp
  qed
qed

lemma length_update_alist: "length (AList.update k v m) \<le> Suc (length m)"
  by (induction m) auto

lemma length_delete_alist: "length (AList.delete k m) \<le> length m"
  by (simp add: AList.delete_eq)

lemma store_wf:
  assumes "\<And>m. set (order m) = set m" and "cache_wf s"
  shows "cache_wf (storeCachedAccountLoadBatch order now key lm ex s)"
proof -
  let ?m = "cs_accountLoadCache s"
  let ?e = "evict_to_room order (filter (\<lambda>(_, c). now < cb_expiresAt c) ?m)"
  let ?n = "if maxAccountLoadBatchCacheEntries \<le> length ?m then ?e else ?m"
  have "length ?n < maxAccountLoadBatchCacheEntries" using evict_room [OF assms(1)] by simp
  moreover have "distinct (map fst ?n)"
    using assms(2) by (simp add: cache_wf_def evict_distinct distinct_map_filter)
  ultimately show ?thesis
    using length_update_alist [of key "\<lparr>cb_loadMap = lm, cb_expiresAt = ex\<rparr>" ?n]
    by (simp add: cache_wf_def storeCachedAccountLoadBatch_def Let_def distinct_update)
qed

lemma getCached_wf: "cache_wf s \<Longrightarrow> cache_wf (snd (getCachedAccountLoadBatch key now s))"
  using length_delete_alist [of key "cs_accountLoadCache s"]
  by (auto simp: getCachedAccountLoadBatch_def cache_wf_def distinct_delete split: option.splits)

lemma getCached_unchanged:
  "cs_cache (snd (getCachedAccountLoadBatch key now s)) = cs_cache s
   \<and> cs_accountLoadCacheTTL (snd (getCachedAccountLoadBatch key now s)) = cs_accountLoadCacheTTL s"
  by (auto simp: getCachedAccountLoadBatch_def split: option.splits)

lemma store_lookup:
  "map_of (cs_accountLoadCache (storeCachedAccountLoadBatch order now key lm ex s)) key =
     Some \<lparr>cb_loadMap = lm, cb_expiresAt = ex\<rparr>"
  by (simp add: storeCachedAccountLoadBatch_def Let_def update_conv')

text \<open>The cache of the load never holds more than 256 batches: every call of
  \<open>getAccountsLoadBatch\<close>, at any times, with any faults and whatever order the runtime ranges over
  the map in, keeps the bound and the keys distinct.\<close>

lemma load_cache_bounded:
  assumes "\<And>m. set (order m) = set m" and "cache_wf s"
  shows "cache_wf (fst (snd (getAccountsLoadBatch sha order t1 t2 t3 tf pf now accounts allow s r)))"
proof -
  let ?key = "accountLoadBatchCacheKey sha accounts"
  have 1: "cache_wf (snd (getCachedAccountLoadBatch ?key t1 s))" using assms(2) by (rule getCached_wf)
  have 2: "cache_wf (snd (getCachedAccountLoadBatch ?key t2 (snd (getCachedAccountLoadBatch ?key t1 s))))"
    using 1 by (rule getCached_wf)
  show ?thesis using assms(2) 1 2
    by (auto simp: getAccountsLoadBatch_def Let_def split: prod.splits option.splits sum.splits
        intro: store_wf [OF assms(1)])
qed

text \<open>A batch that was read is served again, without asking Redis, to calls for the same
  accounts before its time to live is over, and never later: from then on the call reads Redis,
  and returns what it finds there.\<close>

lemma load_cache_fresh:
  assumes "accounts \<noteq> []" and "cs_cache s = Some c" and "0 < cs_accountLoadCacheTTL s"
    and "getCachedAccountLoadBatch (accountLoadBatchCacheKey sha accounts) t1 s = (None, s1)"
    and "getCachedAccountLoadBatch (accountLoadBatchCacheKey sha accounts) t2 s1 = (None, s2)"
    and "GetAccountsLoadBatch sha order t1 t2 t3 tf pf now accounts s r = (Inr m, s', r')"
  shows "(u < t2 + cs_accountLoadCacheTTL s \<longrightarrow>
      GetAccountsLoadBatch sha order u u2 u3 tf' pf' now' accounts s' rr = (Inr m, s', rr))
    \<and> (t2 + cs_accountLoadCacheTTL s \<le> u \<and> u \<le> u2 \<longrightarrow>
      fst (GetAccountsLoadBatch sha order u u2 u3 tf' pf' now' accounts s' rr) =
        fst (cache_GetAccountsLoadBatch c tf' pf' now' accounts rr))"
proof -
  let ?key = "accountLoadBatchCacheKey sha accounts"
  note u1 = getCached_unchanged [of ?key t1 s, unfolded assms(4) snd_conv]
  note u2 = getCached_unchanged [of ?key t2 s1, unfolded assms(5) snd_conv]
  have s': "s' = storeCachedAccountLoadBatch order t3 ?key m (t2 + cs_accountLoadCacheTTL s) s2"
    using assms u1 u2
    by (auto simp: GetAccountsLoadBatch_def getAccountsLoadBatch_def Let_def split: sum.splits prod.splits)
  have c': "cs_cache s' = Some c" "cs_accountLoadCacheTTL s' = cs_accountLoadCacheTTL s"
    using assms(2) u1 u2 by (simp_all add: s' storeCachedAccountLoadBatch_def Let_def)
  have l: "map_of (cs_accountLoadCache s') ?key =
      Some \<lparr>cb_loadMap = m, cb_expiresAt = t2 + cs_accountLoadCacheTTL s\<rparr>"
    unfolding s' by (rule store_lookup)
  show ?thesis
    using assms(1,3) c' l
    by (auto simp: GetAccountsLoadBatch_def getAccountsLoadBatch_def Let_def fetchAccountsLoadBatch_def
        getCachedAccountLoadBatch_def delete_conv' split: sum.splits prod.splits)
qed

section \<open>Keys of the cache\<close>

lemma le_bytes8_inject:
  assumes "le_bytes8 i = le_bytes8 j"
  shows "(word_of_int i :: 64 word) = word_of_int j"
proof (rule bit_word_eqI)
  fix n :: nat
  let ?b = "\<lambda>i. drop_bit (8 * (n div 8)) (word_of_int i :: 64 word) AND 255"
  assume "n < LENGTH(64)"
  then have "n div 8 < 8" by simp
  then have "le_bytes8 i ! (n div 8) = unat (?b i)" "le_bytes8 j ! (n div 8) = unat (?b j)"
    by (simp_all add: le_bytes8_def)
  with assms have "?b i = ?b j" by (simp add: word_unat_eq_iff)
  moreover have "bit (255 :: 64 word) (n mod 8)"
  proof -
    have m: "(255 :: 64 word) = mask 8" by (simp add: mask_eq_exp_minus_1)
    have "n mod 8 < 8" by simp
    then have "n mod 8 < 64" by linarith
    with \<open>n mod 8 < 8\<close> show ?thesis unfolding m by (simp add: bit_mask_iff del: mask_numeral)
  qed
  then have "bit (?b x) (n mod 8) \<longleftrightarrow> bit (word_of_int x :: 64 word) n" for x
    by (simp add: bit_and_iff bit_drop_bit_eq)
  ultimately show "bit (word_of_int i :: 64 word) n \<longleftrightarrow> bit (word_of_int j :: 64 word) n" by metis
qed

lemma int64_word_inject:
  assumes "MinInt64 \<le> i" "i \<le> MaxInt64" "MinInt64 \<le> j" "j \<le> MaxInt64"
    and "(word_of_int i :: 64 word) = word_of_int j"
  shows "i = j"
proof -
  have "sint (word_of_int i :: 64 word) = sint (word_of_int j :: 64 word)" using assms(5) by simp
  then have "signed_take_bit 63 i = signed_take_bit 63 j" by (simp add: signed_of_int)
  then show ?thesis using assms by (simp add: signed_take_bit_int_eq_self)
qed

lemma length_le_bytes8 [simp]: "length (le_bytes8 i) = 8"
  by (simp add: le_bytes8_def)

definition int64_limits :: "AccountWithConcurrency list \<Rightarrow> bool" where
  "int64_limits = list_all (\<lambda>a. MinInt64 \<le> ac_ID a \<and> ac_ID a \<le> MaxInt64
     \<and> MinInt64 \<le> ac_MaxConcurrency a \<and> ac_MaxConcurrency a \<le> MaxInt64)"

lemma load_key_bytes_inject:
  "int64_limits xs \<Longrightarrow> int64_limits ys \<Longrightarrow> load_key_bytes xs = load_key_bytes ys \<Longrightarrow> xs = ys"
proof (induction xs arbitrary: ys)
  case Nil
  then show ?case by (cases ys) (auto simp: load_key_bytes_def dest: arg_cong [of _ _ length])
next
  case (Cons a xs)
  then obtain b zs where ys: "ys = b # zs"
    by (cases ys) (auto simp: load_key_bytes_def dest: arg_cong [of _ _ length])
  have e: "le_bytes8 (ac_ID a) = le_bytes8 (ac_ID b)"
      "le_bytes8 (ac_MaxConcurrency a) = le_bytes8 (ac_MaxConcurrency b)"
      "load_key_bytes xs = load_key_bytes zs"
    using Cons.prems(3) by (auto simp: ys load_key_bytes_def)
  then have "ac_ID a = ac_ID b" "ac_MaxConcurrency a = ac_MaxConcurrency b"
    using Cons.prems(1,2)
    by (auto simp: ys int64_limits_def intro!: int64_word_inject dest!: le_bytes8_inject)
  then have "a = b" by simp
  then show ?case using Cons e by (simp add: ys int64_limits_def)
qed

lemma append_sep_inject:
  "c \<notin> set xs \<Longrightarrow> c \<notin> set ys \<Longrightarrow> xs @ c # as = ys @ c # bs \<longleftrightarrow> xs = ys \<and> as = bs"
proof (induction xs arbitrary: ys)
  case (Cons x xs)
  then show ?case by (cases ys) auto
next
  case Nil
  then show ?case by (cases ys) auto
qed

text \<open>Two batches share an entry of the load cache only if they ask for the same accounts with
  the same limits in the same order, unless their SHA-256 collide: so a call is never answered
  with the load of other accounts.\<close>

lemma load_cache_key_inject:
  assumes "sha (load_key_bytes xs) = sha (load_key_bytes ys) \<longrightarrow> load_key_bytes xs = load_key_bytes ys"
    and "int64_limits xs" and "int64_limits ys"
    and "accountLoadBatchCacheKey sha xs = accountLoadBatchCacheKey sha ys"
  shows "xs = ys"
proof -
  have "sha (load_key_bytes xs) = sha (load_key_bytes ys)"
    using assms(4) append_sep_inject [OF itoa_no_colon itoa_no_colon]
    by (simp add: accountLoadBatchCacheKey_def)
  with assms(1-3) show ?thesis by (auto intro: load_key_bytes_inject)
qed

section \<open>Wait counters that fail open\<close>

text \<open>A failed increment of the wait counter admits the request without counting it, and the
  caller cannot tell: the matching \<open>DecrementAccountWaitCount\<close> then takes away the count of
  another request that is still waiting.\<close>

lemma fail_open_undercounts:
  assumes "cs_cache s = Some c" and "GetAccountWaitingCount s None now a r = Inr v" and "0 < v"
  shows "\<exists>r1. IncrementAccountWaitCount s (Some e) now a mx r = (True, r1)
    \<and> GetAccountWaitingCount s None now a (DecrementAccountWaitCount s None now a r1) = Inr (v - 1)"
proof -
  obtain ex where "rd_counters r (accountWaitKey a) = Some (v, ex)" and "now < ex"
    using assms
    by (auto simp: GetAccountWaitingCount_def cache_GetAccountWaitingCount_def get_counter_def
      split: option.splits if_splits)
  then show ?thesis using assms
    by (simp add: IncrementAccountWaitCount_def cache_IncrementAccountWaitCount_def as_bool_def
        redis_run_def GetAccountWaitingCount_def cache_GetAccountWaitingCount_def
        DecrementAccountWaitCount_def cache_DecrementAccountWaitCount_def as_error_def
        decrementWaitScript_def get_counter_def)
qed

end
