(* ===== verification/Domain_Constants.thy ===== *)
theory Domain_Constants
  imports Prelude
begin

text \<open>The names of platforms, account types and states the components share (\<open>domain/constants.go\<close>).\<close>

definition StatusActive :: string where "StatusActive = ''active''"
definition StatusDisabled :: string where "StatusDisabled = ''disabled''"
definition StatusError :: string where "StatusError = ''error''"

definition PlatformAnthropic :: string where "PlatformAnthropic = ''anthropic''"
definition PlatformOpenAI :: string where "PlatformOpenAI = ''openai''"
definition PlatformGemini :: string where "PlatformGemini = ''gemini''"
definition PlatformAntigravity :: string where "PlatformAntigravity = ''antigravity''"
definition PlatformGrok :: string where "PlatformGrok = ''grok''"

definition AccountTypeOAuth :: string where "AccountTypeOAuth = ''oauth''"
definition AccountTypeSetupToken :: string where "AccountTypeSetupToken = ''setup-token''"
definition AccountTypeAPIKey :: string where "AccountTypeAPIKey = ''apikey''"
definition AccountTypeBedrock :: string where "AccountTypeBedrock = ''bedrock''"

lemmas platform_defs = PlatformAnthropic_def PlatformOpenAI_def PlatformGemini_def PlatformAntigravity_def
  PlatformGrok_def

end
