(* ===== verification/Failover.thy ===== *)
theory Failover
  imports Domain_Constants
begin

text \<open>
  The failover of a request from one upstream account to another, \<open>handler/failover_loop.go\<close>, and
  the loop of \<open>handler/gateway_handler.go\<close> that it steers.

  The context of a request enters as a flag per wait: whether it is cancelled before the timer
  fires. The calls of \<open>TempUnscheduleRetryableError\<close> are recorded as the accounts they name. The
  log lines are left out.
\<close>

section \<open>The failover state\<close>

record UpstreamFailoverError =
  ue_StatusCode :: int
  ue_ResponseBody :: string
  ue_ResponseHeaders :: "(string \<times> string list) list"
  ue_ForceCacheBilling :: bool
  ue_RetryableOnSameAccount :: bool

datatype FailoverAction = FailoverContinue | FailoverExhausted | FailoverCanceled

definition maxSameAccountRetries :: int where "maxSameAccountRetries = 3"
definition sameAccountRetryDelay :: duration where "sameAccountRetryDelay = 500 * Millisecond"
definition singleAccountBackoffDelay :: duration where "singleAccountBackoffDelay = 2 * Second"

record FailoverState =
  fo_SwitchCount :: int
  fo_MaxSwitches :: int
  fo_FailedAccountIDs :: "int set"
  fo_SameAccountRetryCount :: "int \<rightharpoonup> int"
  fo_LastFailoverErr :: "UpstreamFailoverError option"
  fo_ForceCacheBilling :: bool
  fo_hasBoundSession :: bool

definition NewFailoverState :: "int \<Rightarrow> bool \<Rightarrow> FailoverState" where
  "NewFailoverState maxSwitches hasBoundSession =
     \<lparr>fo_SwitchCount = 0, fo_MaxSwitches = maxSwitches, fo_FailedAccountIDs = {},
      fo_SameAccountRetryCount = Map.empty, fo_LastFailoverErr = None,
      fo_ForceCacheBilling = False, fo_hasBoundSession = hasBoundSession\<rparr>"

text \<open>The value of a missing key of a Go map is zero.\<close>

definition map_count :: "(int \<rightharpoonup> int) \<Rightarrow> int \<Rightarrow> int" where
  "map_count m a = (case m a of None \<Rightarrow> 0 | Some n \<Rightarrow> n)"

abbreviation retries :: "int \<Rightarrow> FailoverState \<Rightarrow> int" where
  "retries a s \<equiv> map_count (fo_SameAccountRetryCount s) a"

definition needForceCacheBilling :: "bool \<Rightarrow> UpstreamFailoverError option \<Rightarrow> bool" where
  "needForceCacheBilling hasBoundSession failoverErr =
     (hasBoundSession \<or> (case failoverErr of None \<Rightarrow> False | Some e \<Rightarrow> ue_ForceCacheBilling e))"

definition sleepWithContext :: "bool \<Rightarrow> duration \<Rightarrow> bool" where
  "sleepWithContext cancelled d = (if d \<le> 0 then True else \<not> cancelled)"


text \<open>The result: the action, the accounts that were temporarily unscheduled, the new state.\<close>

definition HandleFailoverError ::
  "bool \<Rightarrow> int \<Rightarrow> string \<Rightarrow> UpstreamFailoverError \<Rightarrow> FailoverState
     \<Rightarrow> FailoverAction \<times> int list \<times> FailoverState" where
  "HandleFailoverError cancelled accountID platform failoverErr s =
     (let s = s\<lparr>fo_LastFailoverErr := Some failoverErr\<rparr>;
          s = (if needForceCacheBilling (fo_hasBoundSession s) (Some failoverErr)
               then s\<lparr>fo_ForceCacheBilling := True\<rparr> else s)
      in if ue_RetryableOnSameAccount failoverErr \<and> retries accountID s < maxSameAccountRetries then
           let s = s\<lparr>fo_SameAccountRetryCount :=
                       (fo_SameAccountRetryCount s)(accountID \<mapsto> retries accountID s + 1)\<rparr>
           in if \<not> sleepWithContext cancelled sameAccountRetryDelay then (FailoverCanceled, [], s)
              else (FailoverContinue, [], s)
         else
           let unscheduled = (if ue_RetryableOnSameAccount failoverErr then [accountID] else []);
               s = s\<lparr>fo_FailedAccountIDs := insert accountID (fo_FailedAccountIDs s)\<rparr>
           in if fo_MaxSwitches s \<le> fo_SwitchCount s then (FailoverExhausted, unscheduled, s)
              else
                let s = s\<lparr>fo_SwitchCount := fo_SwitchCount s + 1\<rparr>
                in if platform = PlatformAntigravity
                      \<and> \<not> sleepWithContext cancelled ((fo_SwitchCount s - 1) * Second)
                   then (FailoverCanceled, unscheduled, s)
                   else (FailoverContinue, unscheduled, s))"

definition HandleSelectionExhausted :: "bool \<Rightarrow> FailoverState \<Rightarrow> FailoverAction \<times> FailoverState" where
  "HandleSelectionExhausted cancelled s =
     (if (case fo_LastFailoverErr s of None \<Rightarrow> False | Some e \<Rightarrow> ue_StatusCode e = 503)
         \<and> fo_SwitchCount s \<le> fo_MaxSwitches s
      then if \<not> sleepWithContext cancelled singleAccountBackoffDelay then (FailoverCanceled, s)
           else (FailoverContinue, s\<lparr>fo_FailedAccountIDs := {}\<rparr>)
      else (FailoverExhausted, s))"

section \<open>The loop of a request\<close>

text \<open>
  One round of the loop, as the outside world decides it: no account can be selected; or an
  account is selected and the forward fails with an error that asks for failover, some of the
  answer having been \<open>written\<close> to the client or not; or the request ends there (it is answered, is
  intercepted, gets no slot, fails with another error, or starts over with the fallback group, a loop of
  its own).
\<close>

datatype round =
    RoundSelectFails bool
  | RoundForwardFails int string UpstreamFailoverError bool bool
  | RoundEnds

datatype loop_state =
    Running FailoverState
  | NoAvailableAccounts
  | GaveUp "UpstreamFailoverError option"
  | ClientGone
  | Ended

definition selection_failed :: "bool \<Rightarrow> FailoverState \<Rightarrow> loop_state" where
  "selection_failed cancelled s =
     (if fo_FailedAccountIDs s = {} then NoAvailableAccounts
      else case HandleSelectionExhausted cancelled s of
        (FailoverContinue, s) \<Rightarrow> Running s
      | (FailoverCanceled, s) \<Rightarrow> ClientGone
      | (FailoverExhausted, s) \<Rightarrow> GaveUp (fo_LastFailoverErr s))"

definition forward_failed :: "int \<Rightarrow> string \<Rightarrow> UpstreamFailoverError \<Rightarrow> bool \<Rightarrow> bool \<Rightarrow> FailoverState \<Rightarrow> loop_state" where
  "forward_failed a platform err written cancelled s =
     (if written then GaveUp (Some err)
      else case HandleFailoverError cancelled a platform err s of
        (FailoverContinue, _, s) \<Rightarrow> Running s
      | (FailoverExhausted, _, s) \<Rightarrow> GaveUp (fo_LastFailoverErr s)
      | (FailoverCanceled, _, s) \<Rightarrow> ClientGone)"

fun loop_round :: "round \<Rightarrow> FailoverState \<Rightarrow> loop_state" where
  "loop_round (RoundSelectFails cancelled) s = selection_failed cancelled s"
| "loop_round (RoundForwardFails a platform err written cancelled) s = forward_failed a platform err written cancelled s"
| "loop_round RoundEnds s = Ended"

fun failover_loop :: "round list \<Rightarrow> FailoverState \<Rightarrow> loop_state" where
  "failover_loop [] s = Running s"
| "failover_loop (rd # rds) s = (case loop_round rd s of Running s \<Rightarrow> failover_loop rds s | x \<Rightarrow> x)"

section \<open>Termination\<close>


fun round_account :: "round \<Rightarrow> int set" where
  "round_account (RoundForwardFails a _ _ _ _) = {a}"
| "round_account _ = {}"

text \<open>What is left: switches and same-account retries.\<close>

definition failover_wf :: "FailoverState \<Rightarrow> bool" where
  "failover_wf s \<longleftrightarrow> 0 \<le> fo_SwitchCount s \<and> fo_SwitchCount s \<le> max 0 (fo_MaxSwitches s)
     \<and> (\<forall>a. 0 \<le> retries a s \<and> retries a s \<le> maxSameAccountRetries)"

definition attempts_left :: "int set \<Rightarrow> FailoverState \<Rightarrow> int" where
  "attempts_left A s = (max 0 (fo_MaxSwitches s) - fo_SwitchCount s)
     + (\<Sum>a\<in>A. maxSameAccountRetries - retries a s)"

definition rounds_left :: "int set \<Rightarrow> FailoverState \<Rightarrow> int" where
  "rounds_left A s = 2 * attempts_left A s + (if fo_FailedAccountIDs s = {} then 0 else 1)"

lemma map_count_simps [simp]:
  "map_count Map.empty a = 0"
  "map_count (m(a' \<mapsto> n)) a = (if a = a' then n else map_count m a)"
  by (auto simp: map_count_def)

lemma new_wf: "failover_wf (NewFailoverState mx b)"
  by (auto simp: failover_wf_def NewFailoverState_def maxSameAccountRetries_def)

text \<open>The two ways in which \<open>HandleFailoverError\<close> goes on, and what it always leaves alone.\<close>

lemma handle_error_continue:
  assumes "HandleFailoverError cancelled a p err s = (FailoverContinue, us, s')"
  shows "fo_MaxSwitches s' = fo_MaxSwitches s \<and>
    ((fo_SwitchCount s' = fo_SwitchCount s \<and> retries a s < maxSameAccountRetries
        \<and> (\<forall>b. retries b s' = (if b = a then retries a s + 1 else retries b s)))
     \<or> (fo_SwitchCount s' = fo_SwitchCount s + 1 \<and> fo_SwitchCount s < fo_MaxSwitches s
        \<and> (\<forall>b. retries b s' = retries b s)))"
  using assms by (auto simp: HandleFailoverError_def Let_def split: if_splits)

lemma handle_error_wf:
  assumes "failover_wf s" and "HandleFailoverError cancelled a p err s = (act, us, s')"
  shows "failover_wf s'"
  using assms
  by (auto simp: HandleFailoverError_def Let_def failover_wf_def split: if_splits)
lemma sum_update_one:
  assumes "finite A" and "a \<in> A"
  shows "(\<Sum>b\<in>A. if b = a then f b - 1 else f b) = (\<Sum>b\<in>A. f b) - (1 :: int)"
proof -
  have "(\<Sum>b\<in>A. if b = a then f b - 1 else f b) = (\<Sum>b\<in>A. f b - (if b = a then 1 else 0))"
    by (rule sum.cong) auto
  also have "\<dots> = (\<Sum>b\<in>A. f b) - 1" using assms by (simp add: sum_subtractf)
  finally show ?thesis .
qed

lemma attempts_nonneg: "failover_wf s \<Longrightarrow> 0 \<le> attempts_left A s"
  by (auto simp: failover_wf_def attempts_left_def intro!: add_nonneg_nonneg sum_nonneg)

lemma attempts_decrease:
  assumes "HandleFailoverError cancelled a p err s = (FailoverContinue, us, s')"
    and "finite A" and "a \<in> A" and "failover_wf s"
  shows "attempts_left A s' = attempts_left A s - 1"
  using handle_error_continue [OF assms(1)]
proof (elim conjE disjE)
  assume mx: "fo_MaxSwitches s' = fo_MaxSwitches s" and sw: "fo_SwitchCount s' = fo_SwitchCount s"
    and r: "\<forall>b. retries b s' = (if b = a then retries a s + 1 else retries b s)"
  have "(\<Sum>b\<in>A. maxSameAccountRetries - retries b s') =
      (\<Sum>b\<in>A. if b = a then (maxSameAccountRetries - retries b s) - 1 else maxSameAccountRetries - retries b s)"
    using r by (intro sum.cong) auto
  then show ?thesis
    using sum_update_one [OF assms(2,3), of "\<lambda>b. maxSameAccountRetries - retries b s"]
    by (simp add: attempts_left_def mx sw)
qed (use assms(4) in \<open>auto simp: attempts_left_def failover_wf_def\<close>)

lemma round_running:
  assumes "loop_round rd s = Running s'" and "failover_wf s" and "finite A" and "round_account rd \<subseteq> A"
  shows "failover_wf s' \<and> rounds_left A s' < rounds_left A s
    \<and> fo_MaxSwitches s' = fo_MaxSwitches s"
  using assms(1)
proof (cases rd)
  case (RoundSelectFails cancelled)
  then show ?thesis using assms(1,2)
    by (auto simp: selection_failed_def HandleSelectionExhausted_def rounds_left_def attempts_left_def failover_wf_def
      split: if_splits option.splits)
next
  case (RoundForwardFails a p err written cancelled)
  then obtain us where h: "HandleFailoverError cancelled a p err s = (FailoverContinue, us, s')"
    using assms(1) by (auto simp: forward_failed_def split: if_splits prod.splits FailoverAction.splits)
  have "attempts_left A s' = attempts_left A s - 1"
    using assms RoundForwardFails by (intro attempts_decrease [OF h]) auto
  then show ?thesis
    using handle_error_wf [OF assms(2) h] handle_error_continue [OF h] by (auto simp: rounds_left_def)
qed simp

lemma loop_bounded:
  assumes "failover_wf s" and "finite A" and "\<forall>rd \<in> set rds. round_account rd \<subseteq> A"
    and "failover_loop rds s = Running s'"
  shows "int (length rds) \<le> rounds_left A s"
  using assms
proof (induction rds arbitrary: s)
  case Nil
  then show ?case using attempts_nonneg [of s A] by (simp add: rounds_left_def)
next
  case (Cons rd rds)
  then obtain s1 where "loop_round rd s = Running s1" and "failover_loop rds s1 = Running s'"
    by (auto split: loop_state.splits)
  with Cons round_running [of rd s s1 A] have "int (length rds) \<le> rounds_left A s1"
      and "rounds_left A s1 < rounds_left A s" by auto
  then show ?case by simp
qed

text \<open>C17: The failover of a request ends. Whatever accounts are selected and whatever errors they
  give, after more than twice (the maximum of switches plus three per account) rounds the loop has
  stopped: the back-off of a single account, which clears the list of failed accounts, cannot keep
  it going.\<close>

theorem failover_terminates:
  assumes "finite A" and "\<forall>rd \<in> set rds. round_account rd \<subseteq> A"
    and "2 * (max 0 mx + 3 * int (card A)) < int (length rds)"
  shows "\<nexists>s'. failover_loop rds (NewFailoverState mx bound) = Running s'"
proof
  assume "\<exists>s'. failover_loop rds (NewFailoverState mx bound) = Running s'"
  then have "int (length rds) \<le> rounds_left A (NewFailoverState mx bound)"
    using loop_bounded [OF new_wf assms(1,2)] by blast
  moreover have "rounds_left A (NewFailoverState mx bound) = 2 * (max 0 mx + 3 * int (card A))"
    by (simp add: rounds_left_def attempts_left_def NewFailoverState_def maxSameAccountRetries_def)
  ultimately show False using assms(3) by simp
qed

definition demo_err :: UpstreamFailoverError where
  "demo_err = \<lparr>ue_StatusCode = 503, ue_ResponseBody = '''', ue_ResponseHeaders = [],
     ue_ForceCacheBilling = False, ue_RetryableOnSameAccount = True\<rparr>"

theorem failover_terminates_witness:
  "\<nexists>s'. failover_loop (replicate 20 (RoundForwardFails 7 ''openai'' demo_err False False))
     (NewFailoverState 3 False) = Running s'"
  by (rule failover_terminates [of "{7}"]) simp_all

section \<open>Retries and switches\<close>

text \<open>How one upstream error is handled, on every branch. A retryable error is retried on the
  same account at most three times; only after that is the account unscheduled, and only by such an
  error. Otherwise the account joins the failed ones, and the request moves on exactly if a switch
  is left. The counts stay within their bounds, a cancelled wait never goes on, the last error is
  remembered, and a forced cache billing is never taken back.\<close>

lemma HandleFailoverError_spec:
  assumes "failover_wf s" and "HandleFailoverError cancelled a p err s = (act, us, s')"
  shows "failover_wf s' \<and> fo_LastFailoverErr s' = Some err
    \<and> (fo_ForceCacheBilling s' \<longleftrightarrow>
         fo_ForceCacheBilling s \<or> fo_hasBoundSession s \<or> ue_ForceCacheBilling err)
    \<and> (if ue_RetryableOnSameAccount err \<and> retries a s < 3
       then us = [] \<and> retries a s' = retries a s + 1
         \<and> fo_FailedAccountIDs s' = fo_FailedAccountIDs s \<and> fo_SwitchCount s' = fo_SwitchCount s
         \<and> act = (if cancelled then FailoverCanceled else FailoverContinue)
       else us = (if ue_RetryableOnSameAccount err then [a] else [])
         \<and> fo_SameAccountRetryCount s' = fo_SameAccountRetryCount s
         \<and> fo_FailedAccountIDs s' = insert a (fo_FailedAccountIDs s)
         \<and> (if fo_SwitchCount s < fo_MaxSwitches s
            then fo_SwitchCount s' = fo_SwitchCount s + 1
              \<and> act = (if cancelled \<and> p = PlatformAntigravity \<and> 0 < fo_SwitchCount s
                       then FailoverCanceled else FailoverContinue)
            else fo_SwitchCount s' = fo_SwitchCount s \<and> act = FailoverExhausted))"
proof -
  have wf: "failover_wf s'" by (rule handle_error_wf [OF assms])
  have "act = fst (HandleFailoverError cancelled a p err s)"
    and "us = fst (snd (HandleFailoverError cancelled a p err s))"
    and "s' = snd (snd (HandleFailoverError cancelled a p err s))" by (simp_all add: assms(2))
  note r = this [unfolded HandleFailoverError_def Let_def needForceCacheBilling_def
      sleepWithContext_def maxSameAccountRetries_def sameAccountRetryDelay_def]
  have sw: "0 \<le> fo_SwitchCount s" using assms(1) by (simp add: failover_wf_def)
  show ?thesis
  proof (cases "ue_RetryableOnSameAccount err \<and> retries a s < 3")
    case True
    then show ?thesis using wf by (simp add: r)
  next
    case False
    then show ?thesis using wf sw
      by (cases "fo_SwitchCount s < fo_MaxSwitches s") (auto simp: r)
  qed
qed

end
