(* ===== verification/Image_Limiter.thy ===== *)
theory Image_Limiter
  imports Prelude
begin

text \<open>
  The limiter of concurrent image requests inside one process,
  \<open>handler/image_concurrency_limiter.go\<close>: what each function does under the mutex, and the
  goroutines that run \<open>acquire\<close> and the release functions as a step relation, every interleaving
  of their critical sections being a sequence of steps.

  The channel \<open>notify\<close> is the number of its generation: closing it and making a new one counts the
  generation up, so a receiver of generation \<open>g\<close> can go on exactly when the current one is another.
  Before its creation the channel is nil. A release function and a waiter's release are run once
  only (\<open>sync.Once\<close>).
\<close>

section \<open>Under the mutex\<close>

record imageConcurrencyLimiter =
  il_notify :: "nat option"
  il_limit :: int
  il_active :: int
  il_waiting :: int
  il_enabled :: bool

datatype try_result = TryAcquired | TryRefused | TryWait nat

definition tryAcquireLocked ::
  "bool \<Rightarrow> int \<Rightarrow> bool \<Rightarrow> int \<Rightarrow> imageConcurrencyLimiter \<Rightarrow> try_result \<times> imageConcurrencyLimiter" where
  "tryAcquireLocked enabled limit wait maxWaiting l =
     (let l = (case il_notify l of None \<Rightarrow> l\<lparr>il_notify := Some 0\<rparr> | Some _ \<Rightarrow> l);
          l = (if il_enabled l \<noteq> enabled \<or> il_limit l \<noteq> limit
               then l\<lparr>il_enabled := enabled, il_limit := limit\<rparr> else l)
      in if il_active l < il_limit l then (TryAcquired, l\<lparr>il_active := il_active l + 1\<rparr>)
         else if \<not> wait then (TryRefused, l)
         else if 0 < maxWaiting \<and> maxWaiting \<le> il_waiting l then (TryRefused, l)
         else (TryWait (case il_notify l of None \<Rightarrow> 0 | Some g \<Rightarrow> g),
               l\<lparr>il_waiting := il_waiting l + 1\<rparr>))"

definition releaseFunc :: "imageConcurrencyLimiter \<Rightarrow> imageConcurrencyLimiter" where
  "releaseFunc l =
     (let l = (if 0 < il_active l then l\<lparr>il_active := il_active l - 1\<rparr> else l)
      in case il_notify l of None \<Rightarrow> l | Some g \<Rightarrow> l\<lparr>il_notify := Some (Suc g)\<rparr>)"

definition waiterReleaseFunc :: "imageConcurrencyLimiter \<Rightarrow> imageConcurrencyLimiter" where
  "waiterReleaseFunc l = (if 0 < il_waiting l then l\<lparr>il_waiting := il_waiting l - 1\<rparr> else l)"

text \<open>The two receives of \<open>waitForSlot\<close>: the channel is closed, or the context is done.\<close>

definition notified :: "nat \<Rightarrow> imageConcurrencyLimiter \<Rightarrow> bool" where
  "notified g l = (il_notify l \<noteq> Some g)"

section \<open>Goroutines\<close>

text \<open>A call of \<open>acquire\<close>: before its next try, waiting on a channel, holding a slot, or returned
  (with whether it had acquired).\<close>

record acquire_args =
  aa_limit :: int
  aa_wait :: bool
  aa_maxWaiting :: int

datatype call_state =
    CallIdle
  | CallTrying acquire_args
  | CallWaiting acquire_args nat
  | CallHolding
  | CallReturned bool

record limiter_system =
  ls_limiter :: imageConcurrencyLimiter
  ls_calls :: "nat \<Rightarrow> call_state"

definition initial_limiter :: imageConcurrencyLimiter where
  "initial_limiter =
     \<lparr>il_notify = None, il_limit = 0, il_active = 0, il_waiting = 0, il_enabled = False\<rparr>"

definition initial_system :: limiter_system where
  "initial_system = \<lparr>ls_limiter = initial_limiter, ls_calls = (\<lambda>_. CallIdle)\<rparr>"

text \<open>The checks of \<open>acquire\<close> before its loop: no limit, no time to wait.\<close>

definition acquire_entry :: "bool \<Rightarrow> int \<Rightarrow> bool \<Rightarrow> duration \<Rightarrow> int \<Rightarrow> call_state" where
  "acquire_entry enabled limit wait timeout maxWaiting =
     (if \<not> enabled \<or> limit \<le> 0 then CallReturned True
      else if wait \<and> timeout \<le> 0 then CallReturned False
      else CallTrying \<lparr>aa_limit = limit, aa_wait = wait,
             aa_maxWaiting = (if maxWaiting < 0 then 0 else maxWaiting)\<rparr>)"

definition after_try :: "acquire_args \<Rightarrow> try_result \<Rightarrow> call_state" where
  "after_try args res =
     (case res of TryAcquired \<Rightarrow> CallHolding | TryRefused \<Rightarrow> CallReturned False
      | TryWait g \<Rightarrow> CallWaiting args g)"

text \<open>The steps of a process whose calls have their arguments in \<open>cfg\<close>.\<close>

inductive limiter_step :: "acquire_args set \<Rightarrow> limiter_system \<Rightarrow> limiter_system \<Rightarrow> bool"
  for cfg :: "acquire_args set" where
  start: "ls_calls s p = CallIdle \<Longrightarrow> acquire_entry enabled limit wait timeout maxWaiting = x \<Longrightarrow>
    (\<And>args. x = CallTrying args \<Longrightarrow> args \<in> cfg) \<Longrightarrow>
    limiter_step cfg s (s\<lparr>ls_calls := (ls_calls s)(p := x)\<rparr>)"
| try_acquire: "ls_calls s p = CallTrying args \<Longrightarrow>
    tryAcquireLocked True (aa_limit args) (aa_wait args) (aa_maxWaiting args) (ls_limiter s) = (res, l) \<Longrightarrow>
    limiter_step cfg s (s\<lparr>ls_limiter := l, ls_calls := (ls_calls s)(p := after_try args res)\<rparr>)"
| wake: "ls_calls s p = CallWaiting args g \<Longrightarrow> notified g (ls_limiter s) \<Longrightarrow>
    limiter_step cfg s (s\<lparr>ls_limiter := waiterReleaseFunc (ls_limiter s),
                          ls_calls := (ls_calls s)(p := CallTrying args)\<rparr>)"
| give_up: "ls_calls s p = CallWaiting args g \<Longrightarrow>
    limiter_step cfg s (s\<lparr>ls_limiter := waiterReleaseFunc (ls_limiter s),
                          ls_calls := (ls_calls s)(p := CallReturned False)\<rparr>)"
| release: "ls_calls s p = CallHolding \<Longrightarrow>
    limiter_step cfg s (s\<lparr>ls_limiter := releaseFunc (ls_limiter s),
                          ls_calls := (ls_calls s)(p := CallReturned True)\<rparr>)"

inductive limiter_reachable :: "acquire_args set \<Rightarrow> limiter_system \<Rightarrow> bool"
  for cfg :: "acquire_args set" where
  init: "limiter_reachable cfg initial_system"
| step: "limiter_reachable cfg s \<Longrightarrow> limiter_step cfg s s' \<Longrightarrow> limiter_reachable cfg s'"

section \<open>Counting\<close>

definition holders :: "limiter_system \<Rightarrow> nat set" where
  "holders s = {p. ls_calls s p = CallHolding}"

definition waiters :: "limiter_system \<Rightarrow> nat set" where
  "waiters s = {p. \<exists>args g. ls_calls s p = CallWaiting args g}"

definition limiter_inv :: "acquire_args set \<Rightarrow> limiter_system \<Rightarrow> bool" where
  "limiter_inv cfg s \<longleftrightarrow> finite (holders s) \<and> finite (waiters s)
     \<and> il_active (ls_limiter s) = int (card (holders s))
     \<and> il_waiting (ls_limiter s) = int (card (waiters s))
     \<and> (\<forall>p args. ls_calls s p = CallTrying args \<longrightarrow> args \<in> cfg \<and> 0 < aa_limit args)
     \<and> (\<forall>p args g. ls_calls s p = CallWaiting args g \<longrightarrow>
          args \<in> cfg \<and> 0 < aa_limit args \<and> (\<exists>g'. il_notify (ls_limiter s) = Some g' \<and> g \<le> g'))"

lemma holders_update [simp]:
  "holders (s\<lparr>ls_limiter := l, ls_calls := (ls_calls s)(p := x)\<rparr>) =
     (if x = CallHolding then insert p (holders s) else holders s - {p})"
  "holders (s\<lparr>ls_calls := (ls_calls s)(p := x)\<rparr>) =
     (if x = CallHolding then insert p (holders s) else holders s - {p})"
  by (auto simp: holders_def)

lemma waiters_update [simp]:
  "waiters (s\<lparr>ls_limiter := l, ls_calls := (ls_calls s)(p := x)\<rparr>) =
     (if \<exists>args g. x = CallWaiting args g then insert p (waiters s) else waiters s - {p})"
  "waiters (s\<lparr>ls_calls := (ls_calls s)(p := x)\<rparr>) =
     (if \<exists>args g. x = CallWaiting args g then insert p (waiters s) else waiters s - {p})"
  by (auto simp: waiters_def)

lemma holders_iff: "p \<in> holders s \<longleftrightarrow> ls_calls s p = CallHolding"
  by (simp add: holders_def)

lemma waiters_iff: "p \<in> waiters s \<longleftrightarrow> (\<exists>args g. ls_calls s p = CallWaiting args g)"
  by (simp add: waiters_def)

lemmas member_iffs = holders_iff waiters_iff

lemma card_remove: "finite A \<Longrightarrow> p \<in> A \<Longrightarrow> int (card (A - {p})) = int (card A) - 1 \<and> 0 < card A"
  using card_Suc_Diff1 [of A p] by simp

lemma acquire_entry_cases:
  "(\<exists>b. acquire_entry e l w t m = CallReturned b) \<or>
   (\<exists>args. acquire_entry e l w t m = CallTrying args \<and> aa_limit args = l \<and> 0 < l)"
  by (auto simp: acquire_entry_def)
lemma try_result_cases:
  assumes "tryAcquireLocked e lim w mw l = (res, l')"
  shows "(res = TryAcquired \<and> il_active l < lim \<and> il_active l' = il_active l + 1 \<and> il_waiting l' = il_waiting l)
    \<or> (res = TryRefused \<and> il_active l' = il_active l \<and> il_waiting l' = il_waiting l)
    \<or> (\<exists>g. res = TryWait g \<and> il_notify l' = Some g \<and> lim \<le> il_active l \<and> il_active l' = il_active l
         \<and> il_waiting l' = il_waiting l + 1 \<and> (0 < mw \<longrightarrow> il_waiting l < mw))"
  using assms by (auto simp: tryAcquireLocked_def Let_def split: if_splits option.splits)

lemma try_notify:
  assumes "tryAcquireLocked e lim w mw l = (res, l')"
  shows "il_limit l' = lim \<and> (\<exists>g. il_notify l' = Some g \<and> (\<forall>g0. il_notify l = Some g0 \<longrightarrow> g = g0))"
  using assms by (auto simp: tryAcquireLocked_def Let_def split: if_splits option.splits)

lemma waiter_release: "0 < il_waiting l \<Longrightarrow> waiterReleaseFunc l = l\<lparr>il_waiting := il_waiting l - 1\<rparr>"
  by (simp add: waiterReleaseFunc_def)

lemma release_fields:
  "il_active (releaseFunc l) = (if 0 < il_active l then il_active l - 1 else il_active l)
   \<and> il_waiting (releaseFunc l) = il_waiting l \<and> il_limit (releaseFunc l) = il_limit l
   \<and> il_notify (releaseFunc l) = map_option Suc (il_notify l)"
  by (auto simp: releaseFunc_def Let_def split: option.splits)

lemma entry_trying:
  "acquire_entry e l w t m = x \<Longrightarrow> (\<exists>b. x = CallReturned b) \<or> (\<exists>args. x = CallTrying args \<and> 0 < aa_limit args)"
  using acquire_entry_cases [of e l w t m] by auto

text \<open>The counts across a step in which the call \<open>p\<close> leaves or joins.\<close>

lemma inv_start:
  assumes "limiter_inv cfg s" and "ls_calls s p = CallIdle"
    and "(\<exists>b. x = CallReturned b) \<or> (\<exists>args. x = CallTrying args \<and> args \<in> cfg \<and> 0 < aa_limit args)"
  shows "limiter_inv cfg (s\<lparr>ls_calls := (ls_calls s)(p := x)\<rparr>)"
proof -
  have "p \<notin> holders s" "p \<notin> waiters s" using assms(2) by (auto simp: member_iffs)
  then show ?thesis using assms by (auto simp: limiter_inv_def)
qed

lemma inv_try:
  assumes "limiter_inv cfg s" and p: "ls_calls s p = CallTrying args"
    and t: "tryAcquireLocked True (aa_limit args) (aa_wait args) (aa_maxWaiting args) (ls_limiter s) = (res, l)"
  shows "limiter_inv cfg (s\<lparr>ls_limiter := l, ls_calls := (ls_calls s)(p := after_try args res)\<rparr>)"
proof -
  have n: "p \<notin> holders s" "p \<notin> waiters s" using p by (auto simp: member_iffs)
  have args: "args \<in> cfg \<and> 0 < aa_limit args" using assms(1) p by (auto simp: limiter_inv_def)
  have keep: "\<exists>g'. il_notify l = Some g' \<and> g \<le> g'" if "\<exists>g'. il_notify (ls_limiter s) = Some g' \<and> g \<le> g'" for g
    using that try_notify [OF t] by auto
  from try_result_cases [OF t] show ?thesis
    using assms(1) n args keep by (elim disjE exE) (auto simp: limiter_inv_def after_try_def)
qed

lemma inv_wait_end:
  assumes "limiter_inv cfg s" and p: "ls_calls s p = CallWaiting args g"
    and "x = CallTrying args \<or> x = CallReturned False"
  shows "limiter_inv cfg (s\<lparr>ls_limiter := waiterReleaseFunc (ls_limiter s), ls_calls := (ls_calls s)(p := x)\<rparr>)"
proof -
  have w: "p \<in> waiters s" "p \<notin> holders s" using p by (auto simp: member_iffs)
  have fin: "finite (waiters s)" using assms(1) by (simp add: limiter_inv_def)
  then have c: "int (card (waiters s - {p})) = int (card (waiters s)) - 1" "0 < card (waiters s)"
    using card_remove [of "waiters s" p] w(1) by blast+
  then have "waiterReleaseFunc (ls_limiter s) = (ls_limiter s)\<lparr>il_waiting := il_waiting (ls_limiter s) - 1\<rparr>"
    using assms(1) by (intro waiter_release) (simp add: limiter_inv_def)
  moreover have "args \<in> cfg \<and> 0 < aa_limit args" using assms(1) p by (auto simp: limiter_inv_def)
  ultimately show ?thesis using assms(1,3) w c by (auto simp: limiter_inv_def)
qed

lemma inv_release:
  assumes "limiter_inv cfg s" and p: "ls_calls s p = CallHolding"
  shows "limiter_inv cfg (s\<lparr>ls_limiter := releaseFunc (ls_limiter s),
                            ls_calls := (ls_calls s)(p := CallReturned True)\<rparr>)"
proof -
  have h: "p \<in> holders s" "p \<notin> waiters s" using p by (auto simp: member_iffs)
  have "finite (holders s)" using assms(1) by (simp add: limiter_inv_def)
  then have "int (card (holders s - {p})) = int (card (holders s)) - 1" "0 < card (holders s)"
    using card_remove [of "holders s" p] h(1) by blast+
  then show ?thesis using assms(1) h release_fields [of "ls_limiter s"]
    by (fastforce simp: limiter_inv_def)
qed

lemma inv_step: "limiter_step cfg s s' \<Longrightarrow> limiter_inv cfg s \<Longrightarrow> limiter_inv cfg s'"
proof (induction rule: limiter_step.induct)
  case (start s p enabled limit wait timeout maxWaiting x)
  then show ?case using entry_trying [OF start(2)] by (intro inv_start) auto
qed (auto intro: inv_try inv_wait_end inv_release)

lemma reachable_inv: "limiter_reachable cfg s \<Longrightarrow> limiter_inv cfg s"
proof (induction rule: limiter_reachable.induct)
  case init
  then show ?case
    by (simp add: limiter_inv_def initial_system_def initial_limiter_def holders_def waiters_def)
qed (rule inv_step)

section \<open>The limits\<close>

definition within_limits :: "int \<Rightarrow> int \<Rightarrow> limiter_system \<Rightarrow> bool" where
  "within_limits L W s \<longleftrightarrow> il_active (ls_limiter s) \<le> L \<and> il_waiting (ls_limiter s) \<le> W"

lemma within_step:
  assumes "limiter_step cfg s s'" and "limiter_inv cfg s" and "within_limits L W s"
    and "\<And>args. args \<in> cfg \<Longrightarrow> aa_limit args \<le> L \<and> 0 < aa_maxWaiting args \<and> aa_maxWaiting args \<le> W"
  shows "within_limits L W s'"
  using assms(1)
proof cases
  case (try_acquire p args res l)
  then have "args \<in> cfg" using assms(2) by (auto simp: limiter_inv_def)
  then show ?thesis
    using try_result_cases [OF try_acquire(3)] assms(3,4) try_acquire(1)
    by (fastforce simp: within_limits_def)
next
  case (release p)
  then show ?thesis using assms(3) release_fields [of "ls_limiter s"] by (auto simp: within_limits_def)
qed (use assms(3) in \<open>auto simp: within_limits_def waiterReleaseFunc_def\<close>)

lemma reachable_within:
  assumes "limiter_reachable cfg s" and "0 \<le> L" and "0 \<le> W"
    and "\<And>args. args \<in> cfg \<Longrightarrow> aa_limit args \<le> L \<and> 0 < aa_maxWaiting args \<and> aa_maxWaiting args \<le> W"
  shows "within_limits L W s"
  using assms(1)
proof (induction rule: limiter_reachable.induct)
  case init
  then show ?case using assms(2,3) by (simp add: within_limits_def initial_system_def initial_limiter_def)
next
  case (step s s')
  then show ?case using within_step [OF step(2) reachable_inv [OF step(1)] _ assms(4)] by blast
qed

text \<open>C18: In every interleaving of the goroutines the image limiter's counters are exact: \<open>active\<close>
  is the number of calls that hold a slot and \<open>waiting\<close> the number of those that wait; never more
  calls hold a slot than the largest limit in use, and never more wait than the largest maximum.\<close>

theorem image_limits_kept:
  assumes "limiter_reachable cfg s" and "0 \<le> L" and "0 \<le> W"
    and "\<And>args. args \<in> cfg \<Longrightarrow> aa_limit args \<le> L \<and> 0 < aa_maxWaiting args \<and> aa_maxWaiting args \<le> W"
  shows "il_active (ls_limiter s) = int (card (holders s)) \<and> int (card (holders s)) \<le> L
    \<and> il_waiting (ls_limiter s) = int (card (waiters s)) \<and> int (card (waiters s)) \<le> W"
  using reachable_inv [OF assms(1)] reachable_within [OF assms]
  by (simp add: limiter_inv_def within_limits_def)

definition demo_args :: acquire_args where
  "demo_args = \<lparr>aa_limit = 1, aa_wait = True, aa_maxWaiting = 4\<rparr>"

text \<open>Two calls: the first takes the slot, the second waits.\<close>

definition demo_system :: limiter_system where
  "demo_system =
     \<lparr>ls_limiter = \<lparr>il_notify = Some 0, il_limit = 1, il_active = 1, il_waiting = 1, il_enabled = True\<rparr>,
      ls_calls = ((\<lambda>_. CallIdle)(0 := CallHolding))(1 := CallWaiting demo_args 0)\<rparr>"

lemma start_trying:
  "limiter_reachable {demo_args} s \<Longrightarrow> ls_calls s p = CallIdle \<Longrightarrow>
     limiter_reachable {demo_args} (s\<lparr>ls_calls := (ls_calls s)(p := CallTrying demo_args)\<rparr>)"
  by (rule limiter_reachable.step, assumption, rule limiter_step.start
      [where enabled = True and limit = 1 and wait = True and timeout = 5 and maxWaiting = 4])
    (simp_all add: acquire_entry_def demo_args_def)

lemma demo_reachable: "limiter_reachable {demo_args} demo_system"
proof -
  let ?l0 = "\<lparr>il_notify = Some 0, il_limit = 1, il_active = 1, il_waiting = 0, il_enabled = True\<rparr>"
  define s1 where "s1 = initial_system\<lparr>ls_calls := (ls_calls initial_system)(0 := CallTrying demo_args)\<rparr>"
  define s2 where "s2 = s1\<lparr>ls_limiter := ?l0, ls_calls := (ls_calls s1)(0 := after_try demo_args TryAcquired)\<rparr>"
  define s3 where "s3 = s2\<lparr>ls_calls := (ls_calls s2)(1 := CallTrying demo_args)\<rparr>"
  have "limiter_reachable {demo_args} s1"
    unfolding s1_def by (rule start_trying [OF init]) (simp add: initial_system_def)
  moreover have "limiter_step {demo_args} s1 s2"
    unfolding s2_def
    by (rule try_acquire) (simp_all add: s1_def initial_system_def initial_limiter_def demo_args_def tryAcquireLocked_def)
  ultimately have "limiter_reachable {demo_args} s2" by (rule step)
  then have "limiter_reachable {demo_args} s3"
    unfolding s3_def by (rule start_trying) (simp add: s2_def s1_def initial_system_def)
  moreover have "limiter_step {demo_args} s3
      (s3\<lparr>ls_limiter := ?l0\<lparr>il_waiting := 1\<rparr>, ls_calls := (ls_calls s3)(1 := after_try demo_args (TryWait 0))\<rparr>)"
    by (rule try_acquire) (simp_all add: s3_def s2_def demo_args_def tryAcquireLocked_def)
  ultimately have "limiter_reachable {demo_args}
      (s3\<lparr>ls_limiter := ?l0\<lparr>il_waiting := 1\<rparr>, ls_calls := (ls_calls s3)(1 := after_try demo_args (TryWait 0))\<rparr>)"
    by (rule step)
  moreover have "(s3\<lparr>ls_limiter := ?l0\<lparr>il_waiting := 1\<rparr>, ls_calls := (ls_calls s3)(1 := after_try demo_args (TryWait 0))\<rparr>) = demo_system"
    by (auto simp: s3_def s2_def s1_def demo_system_def after_try_def initial_system_def fun_eq_iff)
  ultimately show ?thesis by simp
qed

theorem image_limits_kept_witness:
  "int (card (holders demo_system)) \<le> 1 \<and> int (card (waiters demo_system)) \<le> 4"
  using image_limits_kept [OF demo_reachable, of 1 4] by (simp add: demo_args_def)

section \<open>No wake-up is lost\<close>

definition wakeups_kept :: "int \<Rightarrow> limiter_system \<Rightarrow> bool" where
  "wakeups_kept L s \<longleftrightarrow> (\<forall>p args g. ls_calls s p = CallWaiting args g \<and> \<not> notified g (ls_limiter s) \<longrightarrow>
     L \<le> il_active (ls_limiter s))"

lemma wakeups_step:
  assumes "limiter_step cfg s s'" and "limiter_inv cfg s" and "wakeups_kept L s"
    and "\<And>args. args \<in> cfg \<Longrightarrow> aa_limit args = L"
  shows "wakeups_kept L s'"
  using assms(1)
proof cases
  case (start p e lim w t m x)
  then show ?thesis using assms(3) entry_trying [of e lim w t m x]
    by (auto simp: wakeups_kept_def split: if_splits)
next
  case (try_acquire p args res l)
  have cfg: "aa_limit args = L" using assms(2,4) try_acquire(2) by (auto simp: limiter_inv_def)
  have mono: "il_active (ls_limiter s) \<le> il_active l" using try_result_cases [OF try_acquire(3)] by auto
  have "L \<le> il_active l" if "ls_calls s q = CallWaiting b g" and "il_notify l = Some g" for q b g
  proof -
    from that(1) assms(2) obtain g' where "il_notify (ls_limiter s) = Some g'"
      unfolding limiter_inv_def by blast
    then have "\<not> notified g (ls_limiter s)"
      using try_notify [OF try_acquire(3)] that(2) by (auto simp: notified_def)
    then show ?thesis using assms(3) that(1) mono by (force simp: wakeups_kept_def)
  qed
  moreover have "L \<le> il_active l" if "res = TryWait g" for g
    using try_result_cases [OF try_acquire(3)] that cfg by auto
  ultimately show ?thesis
    unfolding try_acquire(1) wakeups_kept_def
    by (auto simp: notified_def after_try_def split: if_splits try_result.splits)
next
  case (release p)
  then show ?thesis using assms(2) release_fields [of "ls_limiter s"]
    by (fastforce simp: wakeups_kept_def limiter_inv_def notified_def)
qed (use assms(3) in \<open>auto simp: wakeups_kept_def waiterReleaseFunc_def notified_def\<close>)

lemma reachable_wakeups:
  assumes "limiter_reachable cfg s" and "\<And>args. args \<in> cfg \<Longrightarrow> aa_limit args = L"
  shows "wakeups_kept L s"
  using assms(1)
proof (induction rule: limiter_reachable.induct)
  case init
  then show ?case by (simp add: wakeups_kept_def initial_system_def)
next
  case (step s s')
  then show ?case using wakeups_step [OF step(2) reachable_inv [OF step(1)] _ assms(2)] by blast
qed

text \<open>C19: No wake-up is lost: with one configured limit, a call that waits on a channel that is
  still open waits because every slot is taken. So as soon as fewer than the limit hold a slot,
  every waiting call can go on to its next try; in particular none waits for ever once the slots
  are free.\<close>

theorem image_no_lost_wakeup:
  assumes "limiter_reachable cfg s" and "\<And>args. args \<in> cfg \<Longrightarrow> aa_limit args = L"
    and "int (card (holders s)) < L" and "ls_calls s p = CallWaiting args g"
  shows "limiter_step cfg s (s\<lparr>ls_limiter := waiterReleaseFunc (ls_limiter s),
    ls_calls := (ls_calls s)(p := CallTrying args)\<rparr>)"
proof -
  have "il_active (ls_limiter s) < L"
    using reachable_inv [OF assms(1)] assms(3) by (simp add: limiter_inv_def)
  then have "notified g (ls_limiter s)"
    using reachable_wakeups [OF assms(1,2)] assms(4) by (force simp: wakeups_kept_def)
  with assms(4) show ?thesis by (rule wake)
qed

lemma demo_released:
  "limiter_reachable {demo_args} (demo_system\<lparr>ls_limiter := releaseFunc (ls_limiter demo_system),
     ls_calls := (ls_calls demo_system)(0 := CallReturned True)\<rparr>)"
  by (rule step [OF demo_reachable], rule release) (simp add: demo_system_def)

theorem image_no_lost_wakeup_witness:
  "let s = demo_system\<lparr>ls_limiter := releaseFunc (ls_limiter demo_system),
     ls_calls := (ls_calls demo_system)(0 := CallReturned True)\<rparr>
   in limiter_step {demo_args} s (s\<lparr>ls_limiter := waiterReleaseFunc (ls_limiter s),
        ls_calls := (ls_calls s)(1 := CallTrying demo_args)\<rparr>)"
  unfolding Let_def
  by (rule image_no_lost_wakeup [OF demo_released, of 1 1 demo_args 0])
    (simp_all add: demo_args_def, simp_all add: demo_system_def holders_def demo_args_def)

end
