(* ===== verification/Channel.thy ===== *)
theory Channel
  imports Go_Strings Complex_Main "HOL-Library.Char_ord" "HOL-Library.List_Lexorder"
    "HOL-Library.Product_Lexorder" "HOL-Library.Multiset"
begin

text \<open>
  Channels and their prices, \<open>service/channel.go\<close>: the entities, the lookup of a model's price, the
  price intervals with their validation, and the list of the models a channel supports.

  A price is a rational number: the arithmetic of \<open>float64\<close> is read as exact. A map that is ranged
  over is the list of its entries, in the order of the range; \<open>range_order\<close> stands for the order
  in which the runtime enumerates the platforms of the price index. \<open>Clone\<close> copies a value so that
  the cached one is not changed through it; values do not change here, so it has no counterpart.
\<close>

section \<open>Entities\<close>

type_synonym price = rat

datatype cfg_value = CfgMap "(string \<times> cfg_value) list" | CfgBool bool | CfgOther string

definition BillingModeToken :: string where "BillingModeToken = ''token''"
definition BillingModePerRequest :: string where "BillingModePerRequest = ''per_request''"
definition BillingModeImage :: string where "BillingModeImage = ''image''"

definition IsValid :: "string \<Rightarrow> bool" where
  "IsValid m = (m \<in> {BillingModeToken, BillingModePerRequest, BillingModeImage, ''''})"

definition BillingModelSourceRequested :: string where "BillingModelSourceRequested = ''requested''"
definition BillingModelSourceUpstream :: string where "BillingModelSourceUpstream = ''upstream''"
definition BillingModelSourceChannelMapped :: string where
  "BillingModelSourceChannelMapped = ''channel_mapped''"

record PricingInterval =
  pi_ID :: int
  pi_PricingID :: int
  pi_MinTokens :: int
  pi_MaxTokens :: "int option"
  pi_TierLabel :: string
  pi_InputPrice :: "price option"
  pi_OutputPrice :: "price option"
  pi_CacheWritePrice :: "price option"
  pi_CacheReadPrice :: "price option"
  pi_PerRequestPrice :: "price option"
  pi_SortOrder :: int
  pi_CreatedAt :: time
  pi_UpdatedAt :: time

record ChannelModelPricing =
  cp_ID :: int
  cp_ChannelID :: int
  cp_Platform :: string
  cp_Models :: "string list"
  cp_BillingMode :: string
  cp_InputPrice :: "price option"
  cp_OutputPrice :: "price option"
  cp_CacheWritePrice :: "price option"
  cp_CacheReadPrice :: "price option"
  cp_ImageOutputPrice :: "price option"
  cp_PerRequestPrice :: "price option"
  cp_Intervals :: "PricingInterval list"
  cp_CreatedAt :: time
  cp_UpdatedAt :: time

record AccountStatsPricingRule =
  sr_ID :: int
  sr_ChannelID :: int
  sr_Name :: string
  sr_GroupIDs :: "int list"
  sr_AccountIDs :: "int list"
  sr_SortOrder :: int
  sr_Pricing :: "ChannelModelPricing list"
  sr_CreatedAt :: time
  sr_UpdatedAt :: time

record Channel =
  ch_ID :: int
  ch_Name :: string
  ch_Description :: string
  ch_Status :: string
  ch_BillingModelSource :: string
  ch_RestrictModels :: bool
  ch_Features :: string
  ch_FeaturesConfig :: "(string \<times> cfg_value) list"
  ch_CreatedAt :: time
  ch_UpdatedAt :: time
  ch_GroupIDs :: "int list"
  ch_ModelPricing :: "ChannelModelPricing list"
  ch_ModelMapping :: "(string \<times> (string \<times> string) list) list"
  ch_ApplyPricingToAccountStats :: bool
  ch_AccountStatsPricingRules :: "AccountStatsPricingRule list"

definition IsActive :: "Channel \<Rightarrow> bool" where
  "IsActive c = (ch_Status c = ''active'')"

definition normalizeBillingModelSource :: "Channel \<Rightarrow> Channel" where
  "normalizeBillingModelSource c =
     (if ch_BillingModelSource c = ''''
      then c\<lparr>ch_BillingModelSource := BillingModelSourceChannelMapped\<rparr> else c)"

definition IsWebSearchEmulationEnabled :: "Channel option \<Rightarrow> string \<Rightarrow> bool" where
  "IsWebSearchEmulationEnabled ch platform =
     (case ch of None \<Rightarrow> False
      | Some c \<Rightarrow> (case map_of (ch_FeaturesConfig c) ''web_search_emulation'' of
          Some (CfgMap wse) \<Rightarrow> (case map_of wse platform of Some (CfgBool b) \<Rightarrow> b | _ \<Rightarrow> False)
        | _ \<Rightarrow> False))"

definition IsBedrockCCCompatEnabled :: "Channel option \<Rightarrow> string \<Rightarrow> bool" where
  "IsBedrockCCCompatEnabled ch platform =
     (case ch of None \<Rightarrow> False
      | Some c \<Rightarrow> (case map_of (ch_FeaturesConfig c) ''bedrock_cc_compat'' of
          Some (CfgBool b) \<Rightarrow> b | _ \<Rightarrow> False))"

section \<open>Lookup\<close>

definition lists_model :: "string \<Rightarrow> ChannelModelPricing \<Rightarrow> bool" where
  "lists_model modelLower p = list_ex (\<lambda>m. to_lower m = modelLower) (cp_Models p)"

definition ch_GetModelPricing :: "Channel \<Rightarrow> string \<Rightarrow> ChannelModelPricing option" where
  "ch_GetModelPricing c model = List.find (lists_model (to_lower model)) (ch_ModelPricing c)"

definition GetModelPricingByPlatform ::
  "Channel option \<Rightarrow> string \<Rightarrow> string \<Rightarrow> ChannelModelPricing option" where
  "GetModelPricingByPlatform ch platform model =
     (case ch of None \<Rightarrow> None
      | Some c \<Rightarrow> List.find (\<lambda>p. cp_Platform p = platform \<and> lists_model (to_lower model) p)
                    (ch_ModelPricing c))"

definition in_interval :: "int \<Rightarrow> PricingInterval \<Rightarrow> bool" where
  "in_interval totalTokens iv =
     (pi_MinTokens iv < totalTokens
      \<and> (case pi_MaxTokens iv of None \<Rightarrow> True | Some mx \<Rightarrow> totalTokens \<le> mx))"

definition FindMatchingInterval :: "PricingInterval list \<Rightarrow> int \<Rightarrow> PricingInterval option" where
  "FindMatchingInterval intervals totalTokens = List.find (in_interval totalTokens) intervals"

definition GetIntervalForContext :: "ChannelModelPricing \<Rightarrow> int \<Rightarrow> PricingInterval option" where
  "GetIntervalForContext p totalTokens = FindMatchingInterval (cp_Intervals p) totalTokens"

definition GetTierByLabel :: "ChannelModelPricing \<Rightarrow> string \<Rightarrow> PricingInterval option" where
  "GetTierByLabel p label = List.find (\<lambda>iv. to_lower (pi_TierLabel iv) = to_lower label) (cp_Intervals p)"

section \<open>Validation of intervals\<close>

text \<open>One constructor per message, with the values it prints; intervals are numbered from 1.\<close>

datatype interval_error =
    MinTokensNegative nat int
  | MaxTokensNotPositive nat int
  | MaxTokensNotAboveMin nat int int
  | PriceNegative nat string
  | UnboundedNotLast nat
  | IntervalsOverlap nat nat "int option" int

definition validateIntervalPrices :: "PricingInterval \<Rightarrow> nat \<Rightarrow> interval_error option" where
  "validateIntervalPrices iv idx =
     (case List.find (\<lambda>(_, v). case v of None \<Rightarrow> False | Some x \<Rightarrow> x < 0)
             [(''input_price'', pi_InputPrice iv), (''output_price'', pi_OutputPrice iv),
              (''cache_write_price'', pi_CacheWritePrice iv), (''cache_read_price'', pi_CacheReadPrice iv),
              (''per_request_price'', pi_PerRequestPrice iv)] of
        None \<Rightarrow> None | Some (name, _) \<Rightarrow> Some (PriceNegative (idx + 1) name))"

definition validateSingleInterval :: "PricingInterval \<Rightarrow> nat \<Rightarrow> interval_error option" where
  "validateSingleInterval iv idx =
     (if pi_MinTokens iv < 0 then Some (MinTokensNegative (idx + 1) (pi_MinTokens iv))
      else case pi_MaxTokens iv of
        None \<Rightarrow> validateIntervalPrices iv idx
      | Some mx \<Rightarrow>
          if mx \<le> 0 then Some (MaxTokensNotPositive (idx + 1) mx)
          else if mx \<le> pi_MinTokens iv then Some (MaxTokensNotAboveMin (idx + 1) mx (pi_MinTokens iv))
          else validateIntervalPrices iv idx)"

fun validate_each :: "PricingInterval list \<Rightarrow> nat \<Rightarrow> interval_error option" where
  "validate_each [] i = None"
| "validate_each (iv # ivs) i =
     (case validateSingleInterval iv i of Some e \<Rightarrow> Some e | None \<Rightarrow> validate_each ivs (i + 1))"

text \<open>The loop of \<open>validateIntervalOverlap\<close> from index \<open>i\<close> on, \<open>prev\<close> being the element before.\<close>

fun validate_overlap_from ::
  "PricingInterval option \<Rightarrow> PricingInterval list \<Rightarrow> nat \<Rightarrow> interval_error option" where
  "validate_overlap_from prev [] i = None"
| "validate_overlap_from prev (iv # ivs) i =
     (if pi_MaxTokens iv = None \<and> ivs \<noteq> [] then Some (UnboundedNotLast (i + 1))
      else case prev of
        None \<Rightarrow> validate_overlap_from (Some iv) ivs (i + 1)
      | Some p \<Rightarrow>
          if (case pi_MaxTokens p of None \<Rightarrow> True | Some mx \<Rightarrow> pi_MinTokens iv < mx)
          then Some (IntervalsOverlap i (i + 1) (pi_MaxTokens p) (pi_MinTokens iv))
          else validate_overlap_from (Some iv) ivs (i + 1))"

definition validateIntervalOverlap :: "PricingInterval list \<Rightarrow> interval_error option" where
  "validateIntervalOverlap sorted_ivs = validate_overlap_from None sorted_ivs 0"

text \<open>\<open>sort.Slice\<close> is not stable; the intervals it might leave in either order have equal lower
  bounds, and such intervals are refused in either order.\<close>

definition ValidateIntervals :: "PricingInterval list \<Rightarrow> string \<Rightarrow> interval_error option" where
  "ValidateIntervals intervals mode =
     (if intervals = [] then None
      else
        let sorted_ivs = sort_key pi_MinTokens intervals
        in case validate_each sorted_ivs 0 of
             Some e \<Rightarrow> Some e
           | None \<Rightarrow>
               if mode = BillingModePerRequest \<or> mode = BillingModeImage then None
               else validateIntervalOverlap sorted_ivs)"

section \<open>Supported models\<close>

record SupportedModel =
  sm_Name :: string
  sm_Platform :: string
  sm_Pricing :: "ChannelModelPricing option"

definition splitWildcardSuffix :: "string \<Rightarrow> string \<times> bool" where
  "splitWildcardSuffix pattern =
     (if suffix ''*'' pattern then (trim_suffix ''*'' pattern, True) else (pattern, False))"

record platformPricingIndex =
  px_byLower :: "string \<rightharpoonup> ChannelModelPricing"
  px_originalCase :: "string \<rightharpoonup> string"
  px_names :: "string list"

definition empty_index :: platformPricingIndex where
  "empty_index = \<lparr>px_byLower = Map.empty, px_originalCase = Map.empty, px_names = []\<rparr>"

definition index_model :: "ChannelModelPricing \<Rightarrow> string \<Rightarrow> platformPricingIndex \<Rightarrow> platformPricingIndex" where
  "index_model p m x =
     (if snd (splitWildcardSuffix m) then x
      else
        let lower = to_lower m
        in if px_byLower x lower \<noteq> None then x
           else \<lparr>px_byLower = (px_byLower x)(lower \<mapsto> p),
                 px_originalCase = (px_originalCase x)(lower \<mapsto> m), px_names = px_names x @ [m]\<rparr>)"

text \<open>The index is the list of the platforms in the order they were first met; an entry is updated
  in place.\<close>

fun index_pricing ::
  "ChannelModelPricing \<Rightarrow> (string \<times> platformPricingIndex) list \<Rightarrow> (string \<times> platformPricingIndex) list" where
  "index_pricing p [] = [(cp_Platform p, fold (index_model p) (cp_Models p) empty_index)]"
| "index_pricing p ((pl, x) # idx) =
     (if pl = cp_Platform p then (pl, fold (index_model p) (cp_Models p) x) # idx
      else (pl, x) # index_pricing p idx)"

definition buildPricingIndex :: "ChannelModelPricing list \<Rightarrow> (string \<times> platformPricingIndex) list" where
  "buildPricingIndex pricings = fold index_pricing pricings []"

definition lookup_priced ::
  "platformPricingIndex option \<Rightarrow> string \<Rightarrow> string \<times> ChannelModelPricing option" where
  "lookup_priced pidx name =
     (case pidx of None \<Rightarrow> (name, None)
      | Some x \<Rightarrow>
          if name = '''' then (name, None)
          else case px_byLower x (to_lower name) of
                 Some p \<Rightarrow> (case px_originalCase x (to_lower name) of Some n \<Rightarrow> n | None \<Rightarrow> '''', Some p)
               | None \<Rightarrow> (name, None))"

type_synonym sm_acc = "(string \<times> string) set \<times> SupportedModel list"

definition add_supported ::
  "string \<Rightarrow> string \<times> ChannelModelPricing option \<Rightarrow> sm_acc \<Rightarrow> sm_acc" where
  "add_supported platform = (\<lambda>(displayName, pricing) (seen, result).
     let key = (platform, to_lower displayName)
     in if key \<in> seen then (seen, result)
        else (insert key seen,
              result @ [\<lparr>sm_Name = displayName, sm_Platform = platform, sm_Pricing = pricing\<rparr>]))"

definition expand_mapping ::
  "string \<Rightarrow> platformPricingIndex option \<Rightarrow> string \<times> string \<Rightarrow> sm_acc \<Rightarrow> sm_acc" where
  "expand_mapping platform pidx = (\<lambda>(src, target) acc.
     let (pre, isWild) = splitWildcardSuffix src
     in if isWild then
          (case pidx of None \<Rightarrow> acc
           | Some x \<Rightarrow>
               fold (\<lambda>candidate acc.
                       if prefix (to_lower pre) (to_lower candidate)
                       then add_supported platform (lookup_priced pidx candidate) acc else acc)
                 (px_names x) acc)
        else
          let pricingKey = (if target = '''' then src else target);
              pricingKey = (if snd (splitWildcardSuffix pricingKey) then src else pricingKey);
              pricing = snd (lookup_priced pidx pricingKey);
              displayName = fst (lookup_priced pidx src)
          in add_supported platform (displayName, pricing) acc)"

text \<open>Pass B: the priced models that no mapping covers.\<close>

definition supported_passB :: "(string \<times> platformPricingIndex) list \<Rightarrow> sm_acc \<Rightarrow> sm_acc" where
  "supported_passB idx =
     fold (\<lambda>(platform, x).
             fold (\<lambda>name. add_supported platform (lookup_priced (Some x) name)) (px_names x)) idx"

definition supported_unsorted ::
  "((string \<times> platformPricingIndex) list \<Rightarrow> (string \<times> platformPricingIndex) list)
     \<Rightarrow> Channel \<Rightarrow> sm_acc" where
  "supported_unsorted range_order c =
     (let idx = buildPricingIndex (ch_ModelPricing c);
          passA = fold (\<lambda>(platform, mapping). fold (expand_mapping platform (map_of idx platform)) mapping)
                    (ch_ModelMapping c) ({}, [])
      in supported_passB (range_order idx) passA)"

definition SupportedModels ::
  "((string \<times> platformPricingIndex) list \<Rightarrow> (string \<times> platformPricingIndex) list)
     \<Rightarrow> Channel option \<Rightarrow> SupportedModel list" where
  "SupportedModels range_order ch =
     (case ch of None \<Rightarrow> []
      | Some c \<Rightarrow>
          if ch_ModelMapping c = [] \<and> ch_ModelPricing c = [] then []
          else sort_key (\<lambda>m. (sm_Platform m, sm_Name m)) (snd (supported_unsorted range_order c)))"

section \<open>Validated intervals do not overlap\<close>

definition interval_ok :: "PricingInterval \<Rightarrow> bool" where
  "interval_ok iv \<longleftrightarrow> (\<forall>mx. pi_MaxTokens iv = Some mx \<longrightarrow> pi_MinTokens iv < mx)"

definition below :: "PricingInterval \<Rightarrow> PricingInterval \<Rightarrow> bool" where
  "below a b \<longleftrightarrow> (\<exists>mx. pi_MaxTokens a = Some mx \<and> mx \<le> pi_MinTokens b)"

lemma below_trans: "below a b \<Longrightarrow> interval_ok b \<Longrightarrow> below b c \<Longrightarrow> below a c"
  by (auto simp: below_def interval_ok_def)

lemma single_ok: "validateSingleInterval iv i = None \<Longrightarrow> interval_ok iv"
  by (auto simp: validateSingleInterval_def interval_ok_def split: if_splits option.splits)

lemma each_ok: "validate_each ivs i = None \<Longrightarrow> iv \<in> set ivs \<Longrightarrow> interval_ok iv"
  by (induction ivs arbitrary: i) (auto split: option.splits intro: single_ok)

lemma overlap_below:
  "validate_overlap_from prev ivs i = None \<Longrightarrow> (\<And>iv. iv \<in> set ivs \<Longrightarrow> interval_ok iv) \<Longrightarrow>
     sorted_wrt below ivs \<and> (\<forall>p. prev = Some p \<longrightarrow> (\<forall>iv \<in> set ivs. below p iv))"
proof (induction ivs arbitrary: prev i)
  case (Cons iv ivs)
  have rest: "validate_overlap_from (Some iv) ivs (i + 1) = None"
    and prev: "\<And>p. prev = Some p \<Longrightarrow> below p iv"
    using Cons.prems(1) by (auto simp: below_def not_less split: if_splits option.splits)
  from Cons.IH [OF rest] Cons.prems(2) have ih: "sorted_wrt below ivs" "\<forall>x \<in> set ivs. below iv x" by auto
  have "below p x" if "prev = Some p" and "x \<in> set ivs" for p x
    using below_trans [OF prev [OF that(1)]] Cons.prems(2) ih(2) that(2) by auto
  with ih prev show ?case by auto
qed simp

lemma below_disjoint: "below a b \<Longrightarrow> \<not> (in_interval n a \<and> in_interval n b)"
  by (auto simp: below_def in_interval_def)

lemma disjoint_filter: "sorted_wrt below ivs \<Longrightarrow> length (filter (in_interval n) ivs) \<le> 1"
proof (induction ivs)
  case (Cons a ivs)
  show ?case
  proof (cases "in_interval n a")
    case True
    then have "filter (in_interval n) ivs = []"
      using Cons.prems below_disjoint by (fastforce simp: filter_empty_conv)
    then show ?thesis by simp
  next
    case False
    then show ?thesis using Cons by simp
  qed
qed simp

lemma find_filter: "List.find P xs = (case filter P xs of [] \<Rightarrow> None | x # _ \<Rightarrow> Some x)"
  by (induction xs) auto

lemma find_permuted:
  assumes "mset xs = mset ys" and "length (filter P xs) \<le> 1"
  shows "List.find P xs = List.find P ys"
proof -
  have m: "mset (filter P xs) = mset (filter P ys)" using assms(1) by (simp add: mset_filter)
  show ?thesis
  proof (cases "filter P xs")
    case Nil
    with m show ?thesis by (simp add: find_filter)
  next
    case (Cons x zs)
    with assms(2) have "filter P xs = [x]" by simp
    moreover from this m have "filter P ys = [x]" by (metis mset.simps(1) mset.simps(2) mset_single_iff)
    ultimately show ?thesis by (simp add: find_filter)
  qed
qed

text \<open>Prices by context length are unambiguous: when \<open>ValidateIntervals\<close> accepts a list of
  intervals in token mode, at most one of them applies to any number of tokens, so
  \<open>FindMatchingInterval\<close> gives the same interval whatever order the list is stored in.\<close>

lemma validated_intervals_unambiguous:
  assumes "ValidateIntervals ivs mode = None"
    and "mode \<noteq> BillingModePerRequest" and "mode \<noteq> BillingModeImage"
    and "mset ivs' = mset ivs"
  shows "length (filter (in_interval n) ivs) \<le> 1
    \<and> FindMatchingInterval ivs' n = FindMatchingInterval ivs n"
proof -
  let ?s = "sort_key pi_MinTokens ivs"
  have "length (filter (in_interval n) ?s) \<le> 1"
  proof (cases "ivs = []")
    case False
    then have e: "validate_each ?s 0 = None" and o: "validate_overlap_from None ?s 0 = None"
      using assms(1-3) by (auto simp: ValidateIntervals_def validateIntervalOverlap_def Let_def split: option.splits)
    have "sorted_wrt below ?s" using overlap_below [OF o each_ok [OF e]] by simp
    then show ?thesis by (rule disjoint_filter)
  qed simp
  then have 1: "length (filter (in_interval n) ivs) \<le> 1"
    by (metis mset_filter mset_sort size_mset)
  with find_permuted [OF assms(4) [symmetric] 1] show ?thesis by (simp add: FindMatchingInterval_def)
qed

definition blank_interval :: PricingInterval where
  "blank_interval = \<lparr>pi_ID = 0, pi_PricingID = 0, pi_MinTokens = 0, pi_MaxTokens = None, pi_TierLabel = '''',
     pi_InputPrice = None, pi_OutputPrice = None, pi_CacheWritePrice = None, pi_CacheReadPrice = None,
     pi_PerRequestPrice = None, pi_SortOrder = 0, pi_CreatedAt = 0, pi_UpdatedAt = 0\<rparr>"

definition demo_low :: PricingInterval where
  "demo_low = blank_interval\<lparr>pi_MaxTokens := Some 200000, pi_InputPrice := Some 1\<rparr>"

definition demo_high :: PricingInterval where
  "demo_high = blank_interval\<lparr>pi_MinTokens := 200000, pi_InputPrice := Some 2\<rparr>"

lemma demo_valid: "ValidateIntervals [demo_high, demo_low] BillingModeToken = None"
  by (simp add: ValidateIntervals_def demo_high_def demo_low_def blank_interval_def validateSingleInterval_def
      validateIntervalPrices_def validateIntervalOverlap_def BillingModeToken_def BillingModePerRequest_def
      BillingModeImage_def)

section \<open>The supported models\<close>

abbreviation wildcard :: "string \<Rightarrow> bool" where
  "wildcard m \<equiv> suffix ''*'' m"

lemma wildcard_split [simp]: "snd (splitWildcardSuffix m) \<longleftrightarrow> wildcard m"
  by (simp add: splitWildcardSuffix_def)

definition index_wf :: "platformPricingIndex \<Rightarrow> bool" where
  "index_wf x \<longleftrightarrow>
     (\<forall>l. px_byLower x l \<noteq> None \<longrightarrow>
        (\<exists>n \<in> set (px_names x). px_originalCase x l = Some n \<and> to_lower n = l))
     \<and> (\<forall>n \<in> set (px_names x). \<not> wildcard n)"

lemma empty_index_wf: "index_wf empty_index"
  by (simp add: index_wf_def empty_index_def)

lemma index_model_wf: "index_wf x \<Longrightarrow> index_wf (index_model p m x)"
  by (auto simp: index_wf_def index_model_def Let_def)

lemma index_models_wf: "index_wf x \<Longrightarrow> index_wf (fold (index_model p) ms x)"
  by (induction ms arbitrary: x) (auto intro: index_model_wf)

lemma index_model_mono: "px_byLower x l \<noteq> None \<Longrightarrow> px_byLower (index_model p m x) l \<noteq> None"
  by (auto simp: index_model_def Let_def)

lemma index_models_mono: "px_byLower x l \<noteq> None \<Longrightarrow> px_byLower (fold (index_model p) ms x) l \<noteq> None"
  by (induction ms arbitrary: x) (simp, metis fold_simps(2) index_model_mono)

lemma index_models_in:
  "m \<in> set ms \<Longrightarrow> \<not> wildcard m \<Longrightarrow> px_byLower (fold (index_model p) ms x) (to_lower m) \<noteq> None"
proof (induction ms arbitrary: x)
  case (Cons a ms)
  show ?case
  proof (cases "m = a")
    case True
    then have "px_byLower (index_model p a x) (to_lower m) \<noteq> None"
      using Cons.prems(2) by (auto simp: index_model_def Let_def)
    then show ?thesis by (simp add: index_models_mono del: not_None_eq)
  next
    case False
    then show ?thesis using Cons by simp
  qed
qed simp

definition indexed :: "string \<Rightarrow> string \<Rightarrow> (string \<times> platformPricingIndex) list \<Rightarrow> bool" where
  "indexed pl l idx \<longleftrightarrow> (\<exists>x. (pl, x) \<in> set idx \<and> px_byLower x l \<noteq> None)"

lemma index_pricing_wf:
  "(\<And>pl x. (pl, x) \<in> set idx \<Longrightarrow> index_wf x) \<Longrightarrow> (pl, x) \<in> set (index_pricing p idx) \<Longrightarrow> index_wf x"
  by (induction p idx rule: index_pricing.induct)
    (auto split: if_splits intro: index_models_wf empty_index_wf)

lemma index_pricing_mono: "indexed pl l idx \<Longrightarrow> indexed pl l (index_pricing p idx)"
proof (induction p idx rule: index_pricing.induct)
  case (2 p pl' x idx)
  then show ?case
    using index_models_mono [of x l p "cp_Models p"] unfolding indexed_def
    by (cases "pl' = cp_Platform p") (simp_all, blast+)
qed (simp add: indexed_def)

lemma index_pricing_in:
  "m \<in> set (cp_Models p) \<Longrightarrow> \<not> wildcard m \<Longrightarrow> indexed (cp_Platform p) (to_lower m) (index_pricing p idx)"
proof (induction p idx rule: index_pricing.induct)
  case (1 p)
  then show ?case using index_models_in [of m "cp_Models p" p empty_index] by (simp add: indexed_def)
next
  case (2 p pl x idx)
  then show ?case using index_models_in [of m "cp_Models p" p x]
    by (cases "pl = cp_Platform p") (auto simp: indexed_def)
qed

lemma build_wf: "(pl, x) \<in> set (buildPricingIndex ps) \<Longrightarrow> index_wf x"
proof -
  have "(pl, x) \<in> set (fold index_pricing ps idx) \<Longrightarrow> (\<And>pl x. (pl, x) \<in> set idx \<Longrightarrow> index_wf x) \<Longrightarrow> index_wf x" for idx
    by (induction ps arbitrary: idx) (simp, metis fold_simps(2) index_pricing_wf)
  from this [of "[]"] show "(pl, x) \<in> set (buildPricingIndex ps) \<Longrightarrow> index_wf x"
    by (simp add: buildPricingIndex_def)
qed

lemma build_in:
  assumes "p \<in> set ps" and "m \<in> set (cp_Models p)" and "\<not> wildcard m"
  shows "indexed (cp_Platform p) (to_lower m) (buildPricingIndex ps)"
proof -
  have mono: "indexed pl l idx \<Longrightarrow> indexed pl l (fold index_pricing qs idx)" for pl l qs idx
    by (induction qs arbitrary: idx) (auto intro: index_pricing_mono)
  have "p \<in> set qs \<Longrightarrow> indexed (cp_Platform p) (to_lower m) (fold index_pricing qs idx)" for qs idx
  proof (induction qs arbitrary: idx)
    case (Cons q qs)
    then show ?case using mono [OF index_pricing_in [OF assms(2,3)]] by (cases "q = p") auto
  qed simp
  then show ?thesis using assms(1) by (simp add: buildPricingIndex_def)
qed

text \<open>Looking a name up keeps it, up to case, and never turns it into a pattern.\<close>

lemma lookup_cases:
  assumes "\<And>x. pidx = Some x \<Longrightarrow> index_wf x"
  shows "fst (lookup_priced pidx n) = n \<or>
    (to_lower (fst (lookup_priced pidx n)) = to_lower n \<and> \<not> wildcard (fst (lookup_priced pidx n)))"
proof (cases pidx)
  case None
  then show ?thesis by (simp add: lookup_priced_def)
next
  case (Some x)
  show ?thesis
  proof (cases "n = '''' \<or> px_byLower x (to_lower n) = None")
    case True
    then show ?thesis using Some by (auto simp: lookup_priced_def)
  next
    case False
    with assms [OF Some] obtain n' where "n' \<in> set (px_names x)" "px_originalCase x (to_lower n) = Some n'"
      "to_lower n' = to_lower n" "\<not> wildcard n'" unfolding index_wf_def by metis
    then show ?thesis using Some False by (auto simp: lookup_priced_def)
  qed
qed

lemma lookup_lower: "(\<And>x. pidx = Some x \<Longrightarrow> index_wf x) \<Longrightarrow> to_lower (fst (lookup_priced pidx n)) = to_lower n"
  using lookup_cases [of pidx n] by auto

lemma lookup_no_wildcard:
  "(\<And>x. pidx = Some x \<Longrightarrow> index_wf x) \<Longrightarrow> \<not> wildcard n \<Longrightarrow> \<not> wildcard (fst (lookup_priced pidx n))"
  using lookup_cases [of pidx n] by auto

abbreviation model_key :: "SupportedModel \<Rightarrow> string \<times> string" where
  "model_key m \<equiv> (sm_Platform m, to_lower (sm_Name m))"

definition acc_wf :: "sm_acc \<Rightarrow> bool" where
  "acc_wf = (\<lambda>(seen, result). seen = model_key ` set result \<and> distinct (map model_key result)
     \<and> (\<forall>m \<in> set result. \<not> wildcard (sm_Name m)))"

lemma add_supported_wf: "acc_wf acc \<Longrightarrow> \<not> wildcard (fst d) \<Longrightarrow> acc_wf (add_supported platform d acc)"
  by (cases acc; cases d) (auto simp: acc_wf_def add_supported_def Let_def)

lemma add_supported_mono: "fst acc \<subseteq> fst (add_supported platform d acc)"
  by (cases acc; cases d) (auto simp: add_supported_def Let_def)

lemma add_supported_in: "(platform, to_lower (fst d)) \<in> fst (add_supported platform d acc)"
  by (cases acc; cases d) (auto simp: add_supported_def Let_def)

text \<open>A step that adds models keeps the accumulator well formed and what was seen.\<close>

definition adds :: "(sm_acc \<Rightarrow> sm_acc) \<Rightarrow> bool" where
  "adds f \<longleftrightarrow> (\<forall>acc. acc_wf acc \<longrightarrow> acc_wf (f acc) \<and> fst acc \<subseteq> fst (f acc))"

lemma addsD: "adds f \<Longrightarrow> acc_wf acc \<Longrightarrow> acc_wf (f acc) \<and> fst acc \<subseteq> fst (f acc)"
  by (simp add: adds_def del: split_paired_All)

lemma adds_supported: "\<not> wildcard (fst d) \<Longrightarrow> adds (add_supported platform d)"
  using add_supported_wf add_supported_mono by (auto simp: adds_def)

lemma adds_id: "adds (\<lambda>acc. acc)"
  by (simp add: adds_def)

lemma adds_fold: "(\<And>x. x \<in> set xs \<Longrightarrow> adds (f x)) \<Longrightarrow> adds (fold f xs)"
proof (induction xs)
  case (Cons x xs)
  then have "adds (f x)" and "adds (fold f xs)" by auto
  then show ?case unfolding adds_def by fastforce
qed (simp add: adds_def)

lemma adds_if: "adds f \<Longrightarrow> adds (\<lambda>acc. if b then f acc else acc)"
  by (simp add: adds_def)

lemma adds_mapping:
  assumes "\<And>x. pidx = Some x \<Longrightarrow> index_wf x"
  shows "adds (expand_mapping platform pidx st)"
proof (cases st)
  case (Pair src target)
  show ?thesis
  proof (cases "wildcard src")
    case True
    show ?thesis
    proof (cases pidx)
      case None
      then show ?thesis using True Pair
        by (simp add: expand_mapping_def splitWildcardSuffix_def adds_id)
    next
      case (Some x)
      have "adds (\<lambda>acc. if prefix (to_lower (trim_suffix ''*'' src)) (to_lower n)
          then add_supported platform (lookup_priced (Some x) n) acc else acc)" if "n \<in> set (px_names x)" for n
        using assms that Some
        by (intro adds_if adds_supported lookup_no_wildcard) (auto simp: index_wf_def)
      then have "adds (fold (\<lambda>n acc. if prefix (to_lower (trim_suffix ''*'' src)) (to_lower n)
          then add_supported platform (lookup_priced (Some x) n) acc else acc) (px_names x))"
        by (rule adds_fold)
      then show ?thesis using True Pair Some
        by (simp add: expand_mapping_def splitWildcardSuffix_def)
    qed
  next
    case False
    have "adds (add_supported platform (fst (lookup_priced pidx src), pr))" for pr
      using lookup_no_wildcard [OF assms False] by (intro adds_supported) simp
    then show ?thesis using False Pair
      by (simp add: expand_mapping_def Let_def splitWildcardSuffix_def)
  qed
qed

lemma adds_pass_B:
  assumes "index_wf x"
  shows "adds (fold (\<lambda>name. add_supported platform (lookup_priced (Some x) name)) (px_names x))"
proof (rule adds_fold, rule adds_supported)
  fix n assume "n \<in> set (px_names x)"
  then have "\<not> wildcard n" using assms by (simp add: index_wf_def)
  then show "\<not> wildcard (fst (lookup_priced (Some x) n))" using assms by (intro lookup_no_wildcard) auto
qed

lemma pass_B_in:
  assumes "index_wf x" and "n \<in> set (px_names x)" and "acc_wf acc"
  shows "(platform, to_lower n) \<in> fst (fold (\<lambda>name. add_supported platform (lookup_priced (Some x) name)) (px_names x) acc)"
proof -
  obtain xs ys where split: "px_names x = xs @ n # ys" using assms(2) by (meson split_list)
  let ?f = "\<lambda>name. add_supported platform (lookup_priced (Some x) name)"
  have ok: "adds (?f k)" if "k \<in> set (px_names x)" for k
    using assms(1) that by (intro adds_supported lookup_no_wildcard) (auto simp: index_wf_def)
  have xs: "adds (fold ?f xs)" and ys: "adds (fold ?f ys)" using ok split by (auto intro!: adds_fold)
  let ?a = "?f n (fold ?f xs acc)"
  have "(platform, to_lower n) \<in> fst ?a"
    using add_supported_in [of platform "lookup_priced (Some x) n"] lookup_lower [of "Some x" n] assms(1) by simp
  moreover have "acc_wf ?a" using addsD [OF ok [OF assms(2)]] addsD [OF xs assms(3)] by blast
  ultimately show ?thesis using addsD [OF ys, of ?a] split by auto
qed

lemma indexed_Cons: "indexed pl l ((pl', x) # idx) \<longleftrightarrow> (pl = pl' \<and> px_byLower x l \<noteq> None) \<or> indexed pl l idx"
  by (auto simp: indexed_def)

lemma adds_passB: "(\<And>pl x. (pl, x) \<in> set idx \<Longrightarrow> index_wf x) \<Longrightarrow> adds (supported_passB idx)"
  unfolding supported_passB_def by (rule adds_fold) (auto intro: adds_pass_B)

lemma passB_in:
  "(\<And>pl x. (pl, x) \<in> set idx \<Longrightarrow> index_wf x) \<Longrightarrow> acc_wf acc \<Longrightarrow> indexed pl l idx \<Longrightarrow>
     (pl, l) \<in> fst (supported_passB idx acc)"
proof (induction idx arbitrary: acc)
  case Nil
  then show ?case by (simp add: indexed_def)
next
  case (Cons e idx)
  obtain pl' x where e: "e = (pl', x)" by fastforce
  let ?acc = "fold (\<lambda>name. add_supported pl' (lookup_priced (Some x) name)) (px_names x) acc"
  have x: "index_wf x" using Cons.prems(1) e by auto
  have wf: "acc_wf ?acc" using addsD [OF adds_pass_B [OF x, of pl'] Cons.prems(2)] by auto
  have step: "supported_passB (e # idx) acc = supported_passB idx ?acc" by (simp add: supported_passB_def e)
  from Cons.prems(3) consider "pl = pl'" "px_byLower x l \<noteq> None" | "indexed pl l idx"
    unfolding e indexed_Cons by blast
  then show ?case
  proof cases
    case 1
    from 1(2) x obtain n where "n \<in> set (px_names x)" "to_lower n = l" unfolding index_wf_def by metis
    then have "(pl, l) \<in> fst ?acc" using pass_B_in [OF x _ Cons.prems(2)] 1(1) by metis
    moreover have "adds (supported_passB idx)" using Cons.prems(1) by (intro adds_passB) auto
    ultimately show ?thesis using addsD [OF _ wf] unfolding step by blast
  next
    case 2
    then show ?thesis unfolding step using Cons.prems(1) by (intro Cons.IH [OF _ wf]) auto
  qed
qed

lemma supported_unsorted_wf:
  assumes "\<And>idx. set (range_order idx) = set idx"
  shows "acc_wf (supported_unsorted range_order c) \<and>
    (\<forall>p \<in> set (ch_ModelPricing c). \<forall>m \<in> set (cp_Models p). \<not> wildcard m \<longrightarrow>
       (cp_Platform p, to_lower m) \<in> fst (supported_unsorted range_order c))"
proof -
  let ?idx = "buildPricingIndex (ch_ModelPricing c)"
  define passA where "passA = fold (\<lambda>(platform, mapping). fold (expand_mapping platform (map_of ?idx platform)) mapping)
                    (ch_ModelMapping c) ({}, [])"
  have u: "supported_unsorted range_order c = supported_passB (range_order ?idx) passA"
    by (simp add: supported_unsorted_def passA_def Let_def)
  have "adds (fold (\<lambda>(platform, mapping). fold (expand_mapping platform (map_of ?idx platform)) mapping) (ch_ModelMapping c))"
    by (rule adds_fold) (auto intro!: adds_fold adds_mapping dest: map_of_SomeD build_wf)
  moreover have "acc_wf ({}, [])" by (simp add: acc_wf_def)
  ultimately have A: "acc_wf passA" unfolding passA_def using addsD by blast
  have wf: "index_wf x" if "(pl, x) \<in> set (range_order ?idx)" for pl x
    using that build_wf assms by metis
  have "indexed (cp_Platform p) (to_lower m) (range_order ?idx)"
    if "p \<in> set (ch_ModelPricing c)" "m \<in> set (cp_Models p)" "\<not> wildcard m" for p m
    using build_in [OF that] assms by (simp add: indexed_def)
  moreover have "adds (supported_passB (range_order ?idx))" using wf by (rule adds_passB)
  moreover have "(pl, l) \<in> fst (supported_passB (range_order ?idx) passA)"
    if "indexed pl l (range_order ?idx)" for pl l using wf A that by (rule passB_in)
  ultimately show ?thesis unfolding u using addsD A by blast
qed

text \<open>The list of the models a channel supports has no patterns in it and no model twice, upper
  and lower case not distinguished; it is sorted by platform and name; and every model that has a
  price is in it, whatever the mappings are and in whatever order the runtime enumerates the maps.\<close>

lemma SupportedModels_spec:
  assumes "\<And>idx. set (range_order idx) = set idx"
  shows "sorted (map (\<lambda>m. (sm_Platform m, sm_Name m)) (SupportedModels range_order (Some c)))
    \<and> distinct (map (\<lambda>m. (sm_Platform m, to_lower (sm_Name m))) (SupportedModels range_order (Some c)))
    \<and> (\<forall>m \<in> set (SupportedModels range_order (Some c)). \<not> suffix ''*'' (sm_Name m))
    \<and> (\<forall>p \<in> set (ch_ModelPricing c). \<forall>m \<in> set (cp_Models p). \<not> suffix ''*'' m \<longrightarrow>
         (\<exists>r \<in> set (SupportedModels range_order (Some c)).
            sm_Platform r = cp_Platform p \<and> to_lower (sm_Name r) = to_lower m))"
proof (cases "ch_ModelMapping c = [] \<and> ch_ModelPricing c = []")
  case True
  then show ?thesis by (simp add: SupportedModels_def)
next
  case False
  obtain seen result where sr: "supported_unsorted range_order c = (seen, result)" by fastforce
  have res: "SupportedModels range_order (Some c) = sort_key (\<lambda>m. (sm_Platform m, sm_Name m)) result"
    using False sr by (auto simp: SupportedModels_def)
  note wf = supported_unsorted_wf [OF assms, of c]
  have seen: "seen = model_key ` set result" and d: "distinct (map model_key result)"
    and w: "\<forall>m \<in> set result. \<not> wildcard (sm_Name m)"
    using wf by (simp_all add: sr acc_wf_def)
  have "distinct (map model_key (sort_key (\<lambda>m. (sm_Platform m, sm_Name m)) result))"
    using d by (simp add: distinct_map)
  moreover have "\<exists>r \<in> set result. sm_Platform r = cp_Platform p \<and> to_lower (sm_Name r) = to_lower m"
    if "p \<in> set (ch_ModelPricing c)" "m \<in> set (cp_Models p)" "\<not> wildcard m" for p m
  proof -
    have "(cp_Platform p, to_lower m) \<in> model_key ` set result" using wf that by (simp add: sr seen)
    then show ?thesis by force
  qed
  ultimately show ?thesis using w unfolding res by simp
qed

definition blank_pricing :: ChannelModelPricing where
  "blank_pricing = \<lparr>cp_ID = 0, cp_ChannelID = 0, cp_Platform = '''', cp_Models = [], cp_BillingMode = '''',
     cp_InputPrice = None, cp_OutputPrice = None, cp_CacheWritePrice = None, cp_CacheReadPrice = None,
     cp_ImageOutputPrice = None, cp_PerRequestPrice = None, cp_Intervals = [],
     cp_CreatedAt = 0, cp_UpdatedAt = 0\<rparr>"

definition demo_channel :: Channel where
  "demo_channel = \<lparr>ch_ID = 1, ch_Name = ''c'', ch_Description = '''', ch_Status = ''active'',
     ch_BillingModelSource = '''', ch_RestrictModels = False, ch_Features = '''', ch_FeaturesConfig = [],
     ch_CreatedAt = 0, ch_UpdatedAt = 0, ch_GroupIDs = [1],
     ch_ModelPricing = [blank_pricing\<lparr>cp_Platform := ''openai'', cp_Models := [''GPT-x'', ''gpt-*'']\<rparr>],
     ch_ModelMapping = [(''openai'', [(''gpt-*'', ''''), (''a'', ''gpt-x'')])],
     ch_ApplyPricingToAccountStats = False, ch_AccountStatsPricingRules = []\<rparr>"

end
