(* ===== verification/Model_Alias.thy ===== *)
theory Model_Alias
  imports Go_Strings
begin

text \<open>
  The names under which the OpenAI models are requested, \<open>service/openai_model_alias.go\<close> with the
  table of \<open>service/openai_codex_transform.go\<close>: spelling variants are brought to one form, and the
  known ones are mapped to the model whose price applies.
\<close>

section \<open>Definitions\<close>

definition lastOpenAIModelSegment :: "string \<Rightarrow> string" where
  "lastOpenAIModelSegment model =
     (let model = trim_space model
      in if model = '''' then ''''
         else let model = (if contains model ''/'' then last (split_on (CHR ''/'') model) else model)
              in trim_space model)"

text \<open>\<open>for strings.Contains(normalized, "--")\<close>.\<close>

function collapse_dashes :: "string \<Rightarrow> string" where
  "collapse_dashes s = (if contains s ''--'' then collapse_dashes (replace_all ''--'' ''-'' s) else s)"
  by pat_completeness auto
termination
  by (relation "measure length") (auto intro: replace_all_shrinks)

declare collapse_dashes.simps [simp del]

definition alias_replacements :: "(string \<times> string) list" where
  "alias_replacements =
     [(''gpt-5.4mini'', ''gpt-5.4-mini''),
      (''gpt-5.4nano'', ''gpt-5.4-nano''),
      (''gpt-5.3-codexspark'', ''gpt-5.3-codex-spark''),
      (''gpt-5.3codexspark'', ''gpt-5.3-codex-spark''),
      (''gpt-5.3codex'', ''gpt-5.3-codex'')]"

text \<open>The spelling before the replacements: dashes for underscores and blanks, \<open>gpt5\<close> as \<open>gpt-5\<close>.\<close>

definition alias_spelling :: "string \<Rightarrow> string" where
  "alias_spelling model =
     (let normalized = replace_all ''_'' ''-'' model;
          normalized = join ''-'' (string_fields normalized);
          normalized = collapse_dashes normalized
      in if prefix ''gpt5'' normalized then ''gpt-5'' @ trim_prefix ''gpt5'' normalized else normalized)"

definition canonicalizeOpenAIModelAliasSpelling :: "string \<Rightarrow> string" where
  "canonicalizeOpenAIModelAliasSpelling model =
     (let model = to_lower (lastOpenAIModelSegment model)
      in if model = '''' then ''''
         else
           let normalized = alias_spelling model
           in if \<not> prefix ''gpt-'' normalized \<and> \<not> contains normalized ''codex'' then ''''
              else fold (\<lambda>(from, to) s. replace_all from to s) alias_replacements normalized)"

definition codexModelMap :: "(string \<times> string) list" where
  "codexModelMap =
     [(''gpt-5.5'', ''gpt-5.5''),
      (''codex-auto-review'', ''codex-auto-review''),
      (''gpt-5.4'', ''gpt-5.4''),
      (''gpt-5.4-mini'', ''gpt-5.4-mini''),
      (''gpt-5.4-none'', ''gpt-5.4''),
      (''gpt-5.4-low'', ''gpt-5.4''),
      (''gpt-5.4-medium'', ''gpt-5.4''),
      (''gpt-5.4-high'', ''gpt-5.4''),
      (''gpt-5.4-xhigh'', ''gpt-5.4''),
      (''gpt-5.4-chat-latest'', ''gpt-5.4''),
      (''gpt-5.3'', ''gpt-5.3-codex''),
      (''gpt-5.3-none'', ''gpt-5.3-codex''),
      (''gpt-5.3-low'', ''gpt-5.3-codex''),
      (''gpt-5.3-medium'', ''gpt-5.3-codex''),
      (''gpt-5.3-high'', ''gpt-5.3-codex''),
      (''gpt-5.3-xhigh'', ''gpt-5.3-codex''),
      (''gpt-5.3-codex'', ''gpt-5.3-codex''),
      (''gpt-5.3-codex-spark'', ''gpt-5.3-codex-spark''),
      (''gpt-5.3-codex-spark-low'', ''gpt-5.3-codex-spark''),
      (''gpt-5.3-codex-spark-medium'', ''gpt-5.3-codex-spark''),
      (''gpt-5.3-codex-spark-high'', ''gpt-5.3-codex-spark''),
      (''gpt-5.3-codex-spark-xhigh'', ''gpt-5.3-codex-spark''),
      (''gpt-5.3-codex-low'', ''gpt-5.3-codex''),
      (''gpt-5.3-codex-medium'', ''gpt-5.3-codex''),
      (''gpt-5.3-codex-high'', ''gpt-5.3-codex''),
      (''gpt-5.3-codex-xhigh'', ''gpt-5.3-codex''),
      (''gpt-5.2'', ''gpt-5.2''),
      (''gpt-5.2-none'', ''gpt-5.2''),
      (''gpt-5.2-low'', ''gpt-5.2''),
      (''gpt-5.2-medium'', ''gpt-5.2''),
      (''gpt-5.2-high'', ''gpt-5.2''),
      (''gpt-5.2-xhigh'', ''gpt-5.2''),
      (''gpt-5'', ''gpt-5.4''),
      (''gpt-5-mini'', ''gpt-5.4''),
      (''gpt-5-nano'', ''gpt-5.4''),
      (''gpt-5.1'', ''gpt-5.4''),
      (''gpt-5.1-codex'', ''gpt-5.3-codex''),
      (''gpt-5.1-codex-max'', ''gpt-5.3-codex''),
      (''gpt-5.1-codex-mini'', ''gpt-5.3-codex''),
      (''gpt-5.2-codex'', ''gpt-5.2''),
      (''codex-mini-latest'', ''gpt-5.3-codex''),
      (''gpt-5-codex'', ''gpt-5.3-codex'')]"

definition codexModelLookupKey :: "string \<Rightarrow> string" where
  "codexModelLookupKey modelID =
     (let modelID = trim_space modelID
      in if modelID = '''' then ''''
         else let modelID = (if contains modelID ''/'' then last (split_on (CHR ''/'') modelID) else modelID)
              in to_lower (join ''-'' (string_fields modelID)))"

definition getNormalizedCodexModel :: "string \<Rightarrow> string" where
  "getNormalizedCodexModel modelID =
     (let key = codexModelLookupKey modelID
      in if key = '''' then ''''
         else case map_of codexModelMap key of Some mapped \<Rightarrow> mapped | None \<Rightarrow> '''')"

text \<open>The \<open>switch\<close> on the family, in the order of its cases.\<close>

definition openai_families :: "(string \<times> string) list" where
  "openai_families =
     [(''gpt-5.5'', ''gpt-5.5''),
      (''gpt-5.4-mini'', ''gpt-5.4-mini''),
      (''gpt-5.4-nano'', ''gpt-5.4-nano''),
      (''gpt-5.4'', ''gpt-5.4''),
      (''gpt-5.2'', ''gpt-5.2''),
      (''gpt-5.3-codex-spark'', ''gpt-5.3-codex-spark''),
      (''gpt-5.3-codex'', ''gpt-5.3-codex''),
      (''gpt-5.3'', ''gpt-5.3-codex''),
      (''codex'', ''gpt-5.3-codex''),
      (''gpt-5'', ''gpt-5.4'')]"

definition normalizeKnownOpenAICodexModel :: "string \<Rightarrow> string" where
  "normalizeKnownOpenAICodexModel model =
     (let normalized = canonicalizeOpenAIModelAliasSpelling model
      in if normalized = '''' then ''''
         else if getNormalizedCodexModel normalized \<noteq> '''' then getNormalizedCodexModel normalized
         else if suffix ''-openai-compact'' normalized
                 \<and> getNormalizedCodexModel (trim_suffix ''-openai-compact'' normalized) \<noteq> '''' then
           getNormalizedCodexModel (trim_suffix ''-openai-compact'' normalized)
         else case List.find (\<lambda>(pat, _). contains normalized pat) openai_families of
                Some (_, target) \<Rightarrow> target
              | None \<Rightarrow> '''')"

text \<open>The candidates under which a usage is priced: the name itself, its canonical spelling, its
  family, without repetitions up to case.\<close>

definition add_candidate :: "string \<Rightarrow> string list \<times> string set \<Rightarrow> string list \<times> string set" where
  "add_candidate candidate = (\<lambda>(candidates, seen).
     let candidate = trim_space candidate; key = to_lower candidate
     in if candidate = '''' \<or> key \<in> seen then (candidates, seen)
        else (candidates @ [candidate], insert key seen))"

definition appendUsageBillingModelCandidate ::
  "string \<Rightarrow> string list \<times> string set \<Rightarrow> string list \<times> string set" where
  "appendUsageBillingModelCandidate model cs =
     (let trimmed = trim_space model
      in if trimmed = '''' then cs
         else
           let cs = add_candidate trimmed cs;
               canonical = canonicalizeOpenAIModelAliasSpelling trimmed;
               cs = (if canonical \<noteq> '''' then add_candidate canonical cs else cs);
               normalized = normalizeKnownOpenAICodexModel trimmed
           in if normalized \<noteq> '''' then add_candidate normalized cs else cs)"

definition usageBillingModelCandidates :: "string \<Rightarrow> string list \<Rightarrow> string list" where
  "usageBillingModelCandidates primary alternates =
     fst (fold appendUsageBillingModelCandidate (primary # alternates) ([], {}))"

definition firstUsageBillingModel :: "string list \<Rightarrow> string" where
  "firstUsageBillingModel candidates =
     (case List.find (\<lambda>c. trim_space c \<noteq> '''') candidates of
        Some c \<Rightarrow> trim_space c | None \<Rightarrow> '''')"

definition isOpenAIGPT54Model :: "string \<Rightarrow> bool" where
  "isOpenAIGPT54Model model =
     (let normalized = normalizeKnownOpenAICodexModel model
      in normalized = ''gpt-5.4'' \<or> normalized = ''gpt-5.5'')"

section \<open>What is known\<close>

lemma collapse_dashes_none: "\<not> contains (collapse_dashes s) ''--''"
proof (induction s rule: collapse_dashes.induct)
  case (1 s)
  then show ?case by (subst collapse_dashes.simps) simp
qed

definition known_models :: "string list" where
  "known_models = [''gpt-5.5'', ''codex-auto-review'', ''gpt-5.4'', ''gpt-5.4-mini'', ''gpt-5.4-nano'',
     ''gpt-5.3-codex'', ''gpt-5.3-codex-spark'', ''gpt-5.2'']"

lemma codex_map_known: "list_all (\<lambda>(_, target). target \<in> set known_models) codexModelMap"
  by code_simp

lemma families_known: "list_all (\<lambda>(_, target). target \<in> set known_models) openai_families"
  by code_simp

lemma map_of_known: "map_of codexModelMap k = Some t \<Longrightarrow> t \<in> set known_models"
  using codex_map_known by (auto simp: list_all_iff dest: map_of_SomeD)

lemma getNormalized_known:
  "getNormalizedCodexModel m \<noteq> '''' \<Longrightarrow> getNormalizedCodexModel m \<in> set known_models"
  by (auto simp: getNormalizedCodexModel_def Let_def split: option.splits if_splits dest: map_of_known)

lemma find_family_known:
  "List.find (\<lambda>(pat, _). contains n pat) openai_families = Some (pat, t) \<Longrightarrow> t \<in> set known_models"
  using families_known by (auto simp: list_all_iff dest!: find_Some_in)

text \<open>A model name is only ever taken for an OpenAI model if it is spelt like one: what follows
  its last slash, in lower case, with dashes for blanks and underscores, starts with \<open>gpt-\<close> (or
  \<open>gpt5\<close>) or contains \<open>codex\<close>; and then it is mapped to one of eight known models.\<close>

lemma known_openai_models:
  assumes "normalizeKnownOpenAICodexModel m \<noteq> ''''"
  shows "normalizeKnownOpenAICodexModel m \<in> set known_models
    \<and> (prefix ''gpt-'' (alias_spelling (to_lower (lastOpenAIModelSegment m)))
       \<or> contains (alias_spelling (to_lower (lastOpenAIModelSegment m))) ''codex'')"
proof
  show "normalizeKnownOpenAICodexModel m \<in> set known_models"
    using assms
    by (auto simp: normalizeKnownOpenAICodexModel_def Let_def getNormalized_known
      split: option.splits if_splits dest: find_family_known)
  show "prefix ''gpt-'' (alias_spelling (to_lower (lastOpenAIModelSegment m)))
       \<or> contains (alias_spelling (to_lower (lastOpenAIModelSegment m))) ''codex''"
    using assms
    by (auto simp: normalizeKnownOpenAICodexModel_def canonicalizeOpenAIModelAliasSpelling_def Let_def
      split: if_splits)
qed

lemma normalize_example: "normalizeKnownOpenAICodexModel ''openai/GPT5_4  mini'' = ''gpt-5.4''"
  by code_simp

definition candidates_wf :: "string list \<times> string set \<Rightarrow> bool" where
  "candidates_wf = (\<lambda>(cs, seen). distinct (map to_lower cs) \<and> seen = to_lower ` set cs \<and> '''' \<notin> set cs)"

lemma add_candidate_wf: "candidates_wf x \<Longrightarrow> candidates_wf (add_candidate c x)"
  by (cases x) (auto simp: candidates_wf_def add_candidate_def Let_def split: if_splits)

lemma append_candidate_wf: "candidates_wf x \<Longrightarrow> candidates_wf (appendUsageBillingModelCandidate m x)"
  by (simp add: appendUsageBillingModelCandidate_def Let_def add_candidate_wf)

lemma fold_candidates_wf:
  "candidates_wf x \<Longrightarrow> candidates_wf (fold appendUsageBillingModelCandidate ms x)"
proof (induction ms arbitrary: x)
  case (Cons m ms)
  from Cons.IH [OF append_candidate_wf [OF Cons.prems]] show ?case by simp
qed simp

text \<open>The names under which a usage is looked up in the price tables are non-empty and
  pairwise different, upper and lower case not distinguished: no price is looked up twice.\<close>

lemma billing_candidates_distinct:
  "distinct (map to_lower (usageBillingModelCandidates primary alternates))
   \<and> '''' \<notin> set (usageBillingModelCandidates primary alternates)"
proof -
  have "candidates_wf ([], {})" by (simp add: candidates_wf_def)
  from fold_candidates_wf [OF this, of "primary # alternates"] show ?thesis
    by (auto simp: usageBillingModelCandidates_def candidates_wf_def split: prod.splits)
qed

end
