(* ===== verification/Pricing.thy ===== *)
theory Pricing
  imports Channel Model_Alias App_Errors "HOL-Library.AList"
begin

text \<open>
  The price of a model: the fallback table and the lookup of \<open>service/billing_service.go\<close>, and the
  resolver of \<open>service/model_pricing_resolver.go\<close> that lays the prices of a channel over it.

  The code hands out pointers to \<open>ModelPricing\<close> values and writes through them, so the values live
  in a store: a pointer is an index of the list \<open>price_store\<close>, a new value is appended. The prices
  of the dynamic price service (a JSON file it downloads) are the function in
  \<open>bs_pricingService\<close>, \<open>None\<close> when there is no such service; those of the channel service are the
  two functions its lookups within one call see. A call through a nil channel service panics, the
  result \<open>None\<close>.
\<close>

section \<open>Prices and their store\<close>

record ModelPricing =
  mp_InputPricePerToken :: price
  mp_InputPricePerTokenPriority :: price
  mp_ImageInputPricePerToken :: price
  mp_OutputPricePerToken :: price
  mp_OutputPricePerTokenPriority :: price
  mp_CacheCreationPricePerToken :: price
  mp_CacheReadPricePerToken :: price
  mp_CacheReadPricePerTokenPriority :: price
  mp_CacheCreation5mPrice :: price
  mp_CacheCreation1hPrice :: price
  mp_SupportsCacheBreakdown :: bool
  mp_LongContextInputThreshold :: int
  mp_LongContextInputMultiplier :: rat
  mp_LongContextOutputMultiplier :: rat
  mp_ImageOutputPricePerToken :: price
  mp_ImageOutputPriceExplicit :: bool

text \<open>The zero value of the struct.\<close>

definition no_price :: ModelPricing where
  "no_price = \<lparr>mp_InputPricePerToken = 0, mp_InputPricePerTokenPriority = 0, mp_ImageInputPricePerToken = 0,
     mp_OutputPricePerToken = 0, mp_OutputPricePerTokenPriority = 0, mp_CacheCreationPricePerToken = 0,
     mp_CacheReadPricePerToken = 0, mp_CacheReadPricePerTokenPriority = 0, mp_CacheCreation5mPrice = 0,
     mp_CacheCreation1hPrice = 0, mp_SupportsCacheBreakdown = False, mp_LongContextInputThreshold = 0,
     mp_LongContextInputMultiplier = 0, mp_LongContextOutputMultiplier = 0,
     mp_ImageOutputPricePerToken = 0, mp_ImageOutputPriceExplicit = False\<rparr>"

type_synonym price_ptr = nat
type_synonym price_store = "ModelPricing list"

definition new_price :: "ModelPricing \<Rightarrow> price_store \<Rightarrow> price_ptr \<times> price_store" where
  "new_price v h = (length h, h @ [v])"

definition update_price :: "price_ptr \<Rightarrow> (ModelPricing \<Rightarrow> ModelPricing) \<Rightarrow> price_store \<Rightarrow> price_store" where
  "update_price p f h = h[p := f (h ! p)]"

section \<open>The fallback table\<close>

definition openAIGPT54LongContextInputThreshold :: int where
  "openAIGPT54LongContextInputThreshold = 272000"
definition openAIGPT54LongContextInputMultiplier :: rat where
  "openAIGPT54LongContextInputMultiplier = 2"
definition openAIGPT54LongContextOutputMultiplier :: rat where
  "openAIGPT54LongContextOutputMultiplier = 15 / 10"

text \<open>The assignments of \<open>initFallbackPricing\<close>: a new value, or the pointer another key has.\<close>

datatype price_decl = PriceOf string ModelPricing | SameAs string string

definition claudeFallbackPrices :: "price_decl list" where
  "claudeFallbackPrices =
     [PriceOf ''claude-opus-4.5'' (no_price\<lparr>mp_InputPricePerToken := 5 / 10 ^ 6,
        mp_OutputPricePerToken := 25 / 10 ^ 6, mp_CacheCreationPricePerToken := 625 / 10 ^ 8,
        mp_CacheReadPricePerToken := 5 / 10 ^ 7\<rparr>),
      PriceOf ''claude-sonnet-4'' (no_price\<lparr>mp_InputPricePerToken := 3 / 10 ^ 6,
        mp_OutputPricePerToken := 15 / 10 ^ 6, mp_CacheCreationPricePerToken := 375 / 10 ^ 8,
        mp_CacheReadPricePerToken := 3 / 10 ^ 7\<rparr>),
      PriceOf ''claude-3-5-sonnet'' (no_price\<lparr>mp_InputPricePerToken := 3 / 10 ^ 6,
        mp_OutputPricePerToken := 15 / 10 ^ 6, mp_CacheCreationPricePerToken := 375 / 10 ^ 8,
        mp_CacheReadPricePerToken := 3 / 10 ^ 7\<rparr>),
      PriceOf ''claude-3-5-haiku'' (no_price\<lparr>mp_InputPricePerToken := 1 / 10 ^ 6,
        mp_OutputPricePerToken := 5 / 10 ^ 6, mp_CacheCreationPricePerToken := 125 / 10 ^ 8,
        mp_CacheReadPricePerToken := 1 / 10 ^ 7\<rparr>),
      PriceOf ''claude-3-opus'' (no_price\<lparr>mp_InputPricePerToken := 15 / 10 ^ 6,
        mp_OutputPricePerToken := 75 / 10 ^ 6, mp_CacheCreationPricePerToken := 1875 / 10 ^ 8,
        mp_CacheReadPricePerToken := 15 / 10 ^ 7\<rparr>),
      PriceOf ''claude-3-haiku'' (no_price\<lparr>mp_InputPricePerToken := 25 / 10 ^ 8,
        mp_OutputPricePerToken := 125 / 10 ^ 8, mp_CacheCreationPricePerToken := 3 / 10 ^ 7,
        mp_CacheReadPricePerToken := 3 / 10 ^ 8\<rparr>),
      SameAs ''claude-opus-4.6'' ''claude-opus-4.5'',
      SameAs ''claude-opus-4.7'' ''claude-opus-4.6'',
      PriceOf ''gemini-3.1-pro'' (no_price\<lparr>mp_InputPricePerToken := 2 / 10 ^ 6,
        mp_OutputPricePerToken := 12 / 10 ^ 6, mp_CacheCreationPricePerToken := 2 / 10 ^ 6,
        mp_CacheReadPricePerToken := 2 / 10 ^ 7\<rparr>)]"

definition openaiFallbackPrices :: "price_decl list" where
  "openaiFallbackPrices =
     [PriceOf ''gpt-5.4'' (no_price\<lparr>mp_InputPricePerToken := 25 / 10 ^ 7,
        mp_InputPricePerTokenPriority := 5 / 10 ^ 6, mp_OutputPricePerToken := 15 / 10 ^ 6,
        mp_OutputPricePerTokenPriority := 3 / 10 ^ 5, mp_CacheCreationPricePerToken := 25 / 10 ^
        7, mp_CacheReadPricePerToken := 25 / 10 ^ 8, mp_CacheReadPricePerTokenPriority := 5 / 10 ^
        7, mp_LongContextInputThreshold := openAIGPT54LongContextInputThreshold,
        mp_LongContextInputMultiplier := openAIGPT54LongContextInputMultiplier,
        mp_LongContextOutputMultiplier := openAIGPT54LongContextOutputMultiplier\<rparr>),
      SameAs ''gpt-5.5'' ''gpt-5.4'',
      PriceOf ''gpt-5.4-mini'' (no_price\<lparr>mp_InputPricePerToken := 75 / 10 ^ 8,
        mp_OutputPricePerToken := 45 / 10 ^ 7, mp_CacheReadPricePerToken := 75 / 10 ^ 9\<rparr>),
      PriceOf ''gpt-5.4-nano'' (no_price\<lparr>mp_InputPricePerToken := 2 / 10 ^ 7,
        mp_OutputPricePerToken := 125 / 10 ^ 8, mp_CacheReadPricePerToken := 2 / 10 ^ 8\<rparr>),
      PriceOf ''gpt-5.2'' (no_price\<lparr>mp_InputPricePerToken := 175 / 10 ^ 8,
        mp_InputPricePerTokenPriority := 35 / 10 ^ 7, mp_OutputPricePerToken := 14 / 10 ^ 6,
        mp_OutputPricePerTokenPriority := 28 / 10 ^ 6, mp_CacheCreationPricePerToken := 175 / 10 ^
        8, mp_CacheReadPricePerToken := 175 / 10 ^ 9, mp_CacheReadPricePerTokenPriority := 35 / 10
        ^ 8\<rparr>),
      PriceOf ''gpt-5.3-codex'' (no_price\<lparr>mp_InputPricePerToken := 15 / 10 ^ 7,
        mp_InputPricePerTokenPriority := 3 / 10 ^ 6, mp_OutputPricePerToken := 12 / 10 ^ 6,
        mp_OutputPricePerTokenPriority := 24 / 10 ^ 6, mp_CacheCreationPricePerToken := 15 / 10 ^
        7, mp_CacheReadPricePerToken := 15 / 10 ^ 8, mp_CacheReadPricePerTokenPriority := 3 / 10 ^
        7\<rparr>)]"

definition glmFallbackPrices :: "price_decl list" where
  "glmFallbackPrices =
     [PriceOf ''deepseek-v4-pro'' (no_price\<lparr>mp_InputPricePerToken := 435 / 10 ^ 9,
        mp_OutputPricePerToken := 87 / 10 ^ 8, mp_CacheReadPricePerToken := 3625 / 10 ^
        12\<rparr>),
      PriceOf ''deepseek-v4-flash'' (no_price\<lparr>mp_InputPricePerToken := 14 / 10 ^ 8,
        mp_OutputPricePerToken := 28 / 10 ^ 8, mp_CacheReadPricePerToken := 28 / 10 ^ 10\<rparr>),
      PriceOf ''glm-5.1'' (no_price\<lparr>mp_InputPricePerToken := 14 / 10 ^ 7,
        mp_OutputPricePerToken := 44 / 10 ^ 7, mp_CacheReadPricePerToken := 26 / 10 ^ 8\<rparr>),
      PriceOf ''glm-5'' (no_price\<lparr>mp_InputPricePerToken := 1 / 10 ^ 6,
        mp_OutputPricePerToken := 32 / 10 ^ 7, mp_CacheReadPricePerToken := 2 / 10 ^ 7\<rparr>),
      PriceOf ''glm-5-turbo'' (no_price\<lparr>mp_InputPricePerToken := 12 / 10 ^ 7,
        mp_OutputPricePerToken := 4 / 10 ^ 6, mp_CacheReadPricePerToken := 24 / 10 ^ 8\<rparr>),
      PriceOf ''glm-4.7'' (no_price\<lparr>mp_InputPricePerToken := 6 / 10 ^ 7,
        mp_OutputPricePerToken := 22 / 10 ^ 7, mp_CacheReadPricePerToken := 11 / 10 ^ 8\<rparr>),
      PriceOf ''glm-4.7-flashx'' (no_price\<lparr>mp_InputPricePerToken := 7 / 10 ^ 8,
        mp_OutputPricePerToken := 4 / 10 ^ 7, mp_CacheReadPricePerToken := 1 / 10 ^ 8\<rparr>),
      PriceOf ''glm-4.6'' (no_price\<lparr>mp_InputPricePerToken := 6 / 10 ^ 7,
        mp_OutputPricePerToken := 22 / 10 ^ 7, mp_CacheReadPricePerToken := 11 / 10 ^ 8\<rparr>),
      PriceOf ''glm-4.5'' (no_price\<lparr>mp_InputPricePerToken := 6 / 10 ^ 7,
        mp_OutputPricePerToken := 22 / 10 ^ 7, mp_CacheReadPricePerToken := 11 / 10 ^ 8\<rparr>),
      PriceOf ''glm-4.5-x'' (no_price\<lparr>mp_InputPricePerToken := 22 / 10 ^ 7,
        mp_OutputPricePerToken := 89 / 10 ^ 7, mp_CacheReadPricePerToken := 45 / 10 ^ 8\<rparr>),
      PriceOf ''glm-4.5-air'' (no_price\<lparr>mp_InputPricePerToken := 2 / 10 ^ 7,
        mp_OutputPricePerToken := 11 / 10 ^ 7, mp_CacheReadPricePerToken := 3 / 10 ^ 8\<rparr>),
      PriceOf ''glm-4.5-airx'' (no_price\<lparr>mp_InputPricePerToken := 11 / 10 ^ 7,
        mp_OutputPricePerToken := 45 / 10 ^ 7, mp_CacheReadPricePerToken := 22 / 10 ^ 8\<rparr>),
      PriceOf ''glm-4-32b-0414-128k'' (no_price\<lparr>mp_InputPricePerToken := 1 / 10 ^ 7,
        mp_OutputPricePerToken := 1 / 10 ^ 7\<rparr>),
      PriceOf ''glm-4.5-flash'' (no_price\<lparr>mp_InputPricePerToken := 0,
        mp_OutputPricePerToken := 0\<rparr>),
      PriceOf ''glm-4.7-flash'' (no_price\<lparr>mp_InputPricePerToken := 0,
        mp_OutputPricePerToken := 0\<rparr>)]"

definition kimiFallbackPrices :: "price_decl list" where
  "kimiFallbackPrices =
     [PriceOf ''kimi-k2.6'' (no_price\<lparr>mp_InputPricePerToken := 95 / 10 ^ 8,
        mp_OutputPricePerToken := 4 / 10 ^ 6, mp_CacheReadPricePerToken := 15 / 10 ^ 8\<rparr>),
      PriceOf ''kimi-for-coding'' (no_price\<lparr>mp_InputPricePerToken := 95 / 10 ^ 8,
        mp_OutputPricePerToken := 4 / 10 ^ 6, mp_CacheReadPricePerToken := 15 / 10 ^ 8\<rparr>),
      PriceOf ''kimi-k2.5'' (no_price\<lparr>mp_InputPricePerToken := 6 / 10 ^ 7,
        mp_OutputPricePerToken := 3 / 10 ^ 6, mp_CacheReadPricePerToken := 98 / 10 ^ 9\<rparr>),
      PriceOf ''kimi-k2-thinking'' (no_price\<lparr>mp_InputPricePerToken := 56 / 10 ^ 8,
        mp_OutputPricePerToken := 224 / 10 ^ 8, mp_CacheReadPricePerToken := 14 / 10 ^ 8\<rparr>),
      PriceOf ''kimi-k2'' (no_price\<lparr>mp_InputPricePerToken := 56 / 10 ^ 8,
        mp_OutputPricePerToken := 224 / 10 ^ 8, mp_CacheReadPricePerToken := 14 / 10 ^ 8\<rparr>),
      PriceOf ''minimax-m3'' (no_price\<lparr>mp_InputPricePerToken := 6 / 10 ^ 7,
        mp_OutputPricePerToken := 24 / 10 ^ 7, mp_CacheReadPricePerToken := 12 / 10 ^ 8\<rparr>),
      PriceOf ''minimax-m2.7'' (no_price\<lparr>mp_InputPricePerToken := 3 / 10 ^ 7,
        mp_OutputPricePerToken := 12 / 10 ^ 7, mp_CacheReadPricePerToken := 6 / 10 ^ 8\<rparr>),
      PriceOf ''minimax-m2.7-highspeed'' (no_price\<lparr>mp_InputPricePerToken := 6 / 10 ^ 7,
        mp_OutputPricePerToken := 24 / 10 ^ 7, mp_CacheReadPricePerToken := 6 / 10 ^ 8\<rparr>),
      PriceOf ''minimax-m2.5'' (no_price\<lparr>mp_InputPricePerToken := 3 / 10 ^ 7,
        mp_OutputPricePerToken := 12 / 10 ^ 7, mp_CacheReadPricePerToken := 3 / 10 ^ 8\<rparr>),
      PriceOf ''minimax-m2.1'' (no_price\<lparr>mp_InputPricePerToken := 3 / 10 ^ 7,
        mp_OutputPricePerToken := 12 / 10 ^ 7, mp_CacheReadPricePerToken := 3 / 10 ^ 8\<rparr>),
      PriceOf ''minimax-m2'' (no_price\<lparr>mp_InputPricePerToken := 3 / 10 ^ 7,
        mp_OutputPricePerToken := 12 / 10 ^ 7, mp_CacheReadPricePerToken := 3 / 10 ^ 8\<rparr>),
      PriceOf ''doubao-embedding-vision'' (no_price\<lparr>mp_InputPricePerToken := 98 / 10 ^ 9,
        mp_ImageInputPricePerToken := 252 / 10 ^ 9, mp_OutputPricePerToken := 0\<rparr>),
      PriceOf ''grok-4.3'' (no_price\<lparr>mp_InputPricePerToken := 125 / 10 ^ 8,
        mp_OutputPricePerToken := 25 / 10 ^ 7, mp_CacheReadPricePerToken := 0,
        mp_LongContextInputThreshold := 1000000, mp_LongContextInputMultiplier := 1\<rparr>),
      PriceOf ''grok-build-0.1'' (no_price\<lparr>mp_InputPricePerToken := 1 / 10 ^ 6,
        mp_OutputPricePerToken := 2 / 10 ^ 6\<rparr>)]"

type_synonym price_table = "(string \<times> price_ptr) list"

fun declare_price :: "price_decl \<Rightarrow> price_table \<times> price_store \<Rightarrow> price_table \<times> price_store" where
  "declare_price (PriceOf k v) (tbl, h) =
     (case new_price v h of (p, h) \<Rightarrow> (AList.update k p tbl, h))"
| "declare_price (SameAs k k') (tbl, h) =
     (case map_of tbl k' of None \<Rightarrow> (tbl, h) | Some p \<Rightarrow> (AList.update k p tbl, h))"

definition initFallbackPricing :: "price_table \<times> price_store" where
  "initFallbackPricing =
     fold declare_price
       (claudeFallbackPrices @ openaiFallbackPrices @ glmFallbackPrices @ kimiFallbackPrices) ([], [])"

record LiteLLMModelPricing =
  ll_InputCostPerToken :: price
  ll_InputCostPerTokenPriority :: price
  ll_OutputCostPerToken :: price
  ll_OutputCostPerTokenPriority :: price
  ll_CacheCreationInputTokenCost :: price
  ll_CacheCreationInputTokenCostAbove1hr :: price
  ll_CacheReadInputTokenCost :: price
  ll_CacheReadInputTokenCostPriority :: price
  ll_LongContextInputTokenThreshold :: int
  ll_LongContextInputCostMultiplier :: rat
  ll_LongContextOutputCostMultiplier :: rat
  ll_SupportsServiceTier :: bool
  ll_LiteLLMProvider :: string
  ll_Mode :: string
  ll_SupportsPromptCaching :: bool
  ll_OutputCostPerImage :: price
  ll_OutputCostPerImageToken :: price

record BillingService =
  bs_defaultRateMultiplier :: rat
  bs_pricingService :: "(string \<Rightarrow> LiteLLMModelPricing option) option"
  bs_fallbackPrices :: price_table

definition NewBillingService ::
  "rat \<Rightarrow> (string \<Rightarrow> LiteLLMModelPricing option) option \<Rightarrow> BillingService \<times> price_store" where
  "NewBillingService rateMultiplier pricingService =
     (case initFallbackPricing of (tbl, h) \<Rightarrow>
        (\<lparr>bs_defaultRateMultiplier = rateMultiplier, bs_pricingService = pricingService,
          bs_fallbackPrices = tbl\<rparr>, h))"

text \<open>The key of a model in the table. After the Claude series the checks are a sequence of
  \<open>strings.Contains\<close> tests, \<open>fallback_rules\<close> in their order, then the known OpenAI models, then
  the names of the Grok models.\<close>

definition fallback_rules :: "(string list \<times> string) list" where
  "fallback_rules =
     [([''gemini-3.1-pro'', ''gemini-3-1-pro''], ''gemini-3.1-pro''),
      ([''deepseek-v4-flash''], ''deepseek-v4-flash''),
      ([''deepseek-v4-pro''], ''deepseek-v4-pro''),
      ([''deepseek-chat'', ''deepseek-reasoner''], ''deepseek-v4-flash''),
      ([''glm-5.1''], ''glm-5.1''),
      ([''glm-5-turbo'', ''glm-5turbo''], ''glm-5-turbo''),
      ([''glm-5''], ''glm-5''),
      ([''glm-4.7-flashx''], ''glm-4.7-flashx''),
      ([''glm-4.7-flash''], ''glm-4.7-flash''),
      ([''glm-4.7''], ''glm-4.7''),
      ([''glm-4.6''], ''glm-4.6''),
      ([''glm-4.5-flash''], ''glm-4.5-flash''),
      ([''glm-4.5-x'', ''glm-4.5x''], ''glm-4.5-x''),
      ([''glm-4.5-airx'', ''glm-4.5airx''], ''glm-4.5-airx''),
      ([''glm-4.5-air'', ''glm-4.5air''], ''glm-4.5-air''),
      ([''glm-4.5''], ''glm-4.5''),
      ([''glm-4-32b''], ''glm-4-32b-0414-128k''),
      ([''kimi-for-coding''], ''kimi-for-coding''),
      ([''kimi-k2.6'', ''kimi-k2-6''], ''kimi-k2.6''),
      ([''kimi-k2.5'', ''kimi-k2-5''], ''kimi-k2.5''),
      ([''kimi-k2-thinking'', ''kimi-k2-thinking-''], ''kimi-k2-thinking''),
      ([''kimi-k2'', ''kimi/k2''], ''kimi-k2''),
      ([''minimax-m3''], ''minimax-m3''),
      ([''minimax-m2.7-highspeed'', ''minimax-m2-7-highspeed''], ''minimax-m2.7-highspeed''),
      ([''minimax-m2.7'', ''minimax-m2-7''], ''minimax-m2.7''),
      ([''minimax-m2.5'', ''minimax-m2-5''], ''minimax-m2.5''),
      ([''minimax-m2.1'', ''minimax-m2-1''], ''minimax-m2.1''),
      ([''minimax-m2'', ''minimax-m-2''], ''minimax-m2''),
      ([''doubao-embedding-vision''], ''doubao-embedding-vision'')]"

definition openai_fallback_keys :: "(string \<times> string) list" where
  "openai_fallback_keys =
     [(''gpt-5.5'', ''gpt-5.5''), (''gpt-5.4-mini'', ''gpt-5.4-mini''), (''gpt-5.4-nano'', ''gpt-5.4-nano''),
      (''gpt-5.4'', ''gpt-5.4''), (''gpt-5.2'', ''gpt-5.2''),
      (''gpt-5.3-codex'', ''gpt-5.3-codex''), (''gpt-5.3-codex-spark'', ''gpt-5.3-codex'')]"

definition claude_fallback_key :: "string \<Rightarrow> string option" where
  "claude_fallback_key modelLower =
     (if contains modelLower ''opus'' then
        if contains modelLower ''4.7'' \<or> contains modelLower ''4-7'' then Some ''claude-opus-4.7''
        else if contains modelLower ''4.6'' \<or> contains modelLower ''4-6'' then Some ''claude-opus-4.6''
        else if contains modelLower ''4.5'' \<or> contains modelLower ''4-5'' then Some ''claude-opus-4.5''
        else Some ''claude-3-opus''
      else if contains modelLower ''sonnet'' then
        if contains modelLower ''4'' \<and> \<not> contains modelLower ''3'' then Some ''claude-sonnet-4''
        else Some ''claude-3-5-sonnet''
      else if contains modelLower ''haiku'' then
        if contains modelLower ''3-5'' \<or> contains modelLower ''3.5'' then Some ''claude-3-5-haiku''
        else Some ''claude-3-haiku''
      else if contains modelLower ''claude'' then Some ''claude-sonnet-4''
      else None)"

definition fallback_key :: "string \<Rightarrow> string option" where
  "fallback_key model =
     (let modelLower = to_lower model
      in case claude_fallback_key modelLower of
           Some k \<Rightarrow> Some k
         | None \<Rightarrow>
           (case List.find (\<lambda>(pats, _). list_ex (contains modelLower) pats) fallback_rules of
              Some (_, k) \<Rightarrow> Some k
            | None \<Rightarrow>
              (case map_of openai_fallback_keys (normalizeKnownOpenAICodexModel modelLower) of
                 Some k \<Rightarrow> Some k
               | None \<Rightarrow>
                   if modelLower \<in> {''grok'', ''grok-latest'', ''grok-4.3''} then Some ''grok-4.3''
                   else if modelLower \<in> {''grok-build'', ''grok-build-0.1''} then Some ''grok-build-0.1''
                   else None)))"

definition getFallbackPricing :: "BillingService \<Rightarrow> string \<Rightarrow> price_ptr option" where
  "getFallbackPricing s model =
     (case fallback_key model of None \<Rightarrow> None | Some k \<Rightarrow> map_of (bs_fallbackPrices s) k)"

section \<open>The price of a model\<close>

definition ErrModelPricingUnavailable :: go_error where
  "ErrModelPricingUnavailable = OtherError ''pricing not found'' None"

text \<open>The policy of the GPT-5.4 family: a copy with the missing long-context parameters filled in.\<close>

definition with_gpt54_policy :: "ModelPricing \<Rightarrow> ModelPricing" where
  "with_gpt54_policy v =
     v\<lparr>mp_LongContextInputThreshold :=
         (if mp_LongContextInputThreshold v \<le> 0 then openAIGPT54LongContextInputThreshold
          else mp_LongContextInputThreshold v),
       mp_LongContextInputMultiplier :=
         (if mp_LongContextInputMultiplier v \<le> 0 then openAIGPT54LongContextInputMultiplier
          else mp_LongContextInputMultiplier v),
       mp_LongContextOutputMultiplier :=
         (if mp_LongContextOutputMultiplier v \<le> 0 then openAIGPT54LongContextOutputMultiplier
          else mp_LongContextOutputMultiplier v)\<rparr>"

definition applyModelSpecificPricingPolicy ::
  "string \<Rightarrow> price_ptr \<Rightarrow> price_store \<Rightarrow> price_ptr \<times> price_store" where
  "applyModelSpecificPricingPolicy model p h =
     (let v = h ! p
      in if \<not> isOpenAIGPT54Model model then (p, h)
         else if 0 < mp_LongContextInputThreshold v \<and> 0 < mp_LongContextInputMultiplier v
                 \<and> 0 < mp_LongContextOutputMultiplier v then (p, h)
         else new_price (with_gpt54_policy v) h)"

definition litellm_price :: "LiteLLMModelPricing \<Rightarrow> ModelPricing" where
  "litellm_price l =
     (let price5m = ll_CacheCreationInputTokenCost l;
          price1h = ll_CacheCreationInputTokenCostAbove1hr l;
          enableBreakdown = (0 < price1h \<and> price5m < price1h)
      in no_price\<lparr>mp_InputPricePerToken := ll_InputCostPerToken l,
           mp_InputPricePerTokenPriority := ll_InputCostPerTokenPriority l,
           mp_OutputPricePerToken := ll_OutputCostPerToken l,
           mp_OutputPricePerTokenPriority := ll_OutputCostPerTokenPriority l,
           mp_CacheCreationPricePerToken := ll_CacheCreationInputTokenCost l,
           mp_CacheReadPricePerToken := ll_CacheReadInputTokenCost l,
           mp_CacheReadPricePerTokenPriority := ll_CacheReadInputTokenCostPriority l,
           mp_CacheCreation5mPrice := price5m,
           mp_CacheCreation1hPrice := price1h,
           mp_SupportsCacheBreakdown := enableBreakdown,
           mp_LongContextInputThreshold := ll_LongContextInputTokenThreshold l,
           mp_LongContextInputMultiplier := ll_LongContextInputCostMultiplier l,
           mp_LongContextOutputMultiplier := ll_LongContextOutputCostMultiplier l,
           mp_ImageOutputPricePerToken := ll_OutputCostPerImageToken l\<rparr>)"

definition dynamic_price :: "BillingService \<Rightarrow> string \<Rightarrow> LiteLLMModelPricing option" where
  "dynamic_price s model =
     (case bs_pricingService s of None \<Rightarrow> None | Some GetPricing \<Rightarrow> GetPricing model)"

definition GetModelPricing ::
  "BillingService \<Rightarrow> string \<Rightarrow> price_store \<Rightarrow> (go_error + price_ptr) \<times> price_store" where
  "GetModelPricing s model h =
     (let model = to_lower model
      in case dynamic_price s model of
           Some l \<Rightarrow>
             (case new_price (litellm_price l) h of (p, h) \<Rightarrow>
                (case applyModelSpecificPricingPolicy model p h of (p, h) \<Rightarrow> (Inr p, h)))
         | None \<Rightarrow>
             (case getFallbackPricing s model of
                Some p \<Rightarrow> (case applyModelSpecificPricingPolicy model p h of (p, h) \<Rightarrow> (Inr p, h))
              | None \<Rightarrow>
                  (Inl (OtherError (''pricing not found for model: '' @ model)
                          (Some ErrModelPricingUnavailable)), h)))"

text \<open>The writes of a channel's flat prices through the pointer, shared by
  \<open>GetModelPricingWithChannel\<close> and \<open>applyTokenOverrides\<close>.\<close>

definition override_image_price :: "ChannelModelPricing \<Rightarrow> ModelPricing \<Rightarrow> ModelPricing" where
  "override_image_price cp v =
     v\<lparr>mp_ImageOutputPricePerToken := (case cp_ImageOutputPrice cp of Some x \<Rightarrow> x | None \<Rightarrow> 0),
       mp_ImageOutputPriceExplicit := True\<rparr>"

definition override_flat_prices :: "ChannelModelPricing \<Rightarrow> ModelPricing \<Rightarrow> ModelPricing" where
  "override_flat_prices cp v =
     (let v = (case cp_InputPrice cp of None \<Rightarrow> v
               | Some x \<Rightarrow> v\<lparr>mp_InputPricePerToken := x, mp_InputPricePerTokenPriority := x\<rparr>);
          v = (case cp_OutputPrice cp of None \<Rightarrow> v
               | Some x \<Rightarrow> v\<lparr>mp_OutputPricePerToken := x, mp_OutputPricePerTokenPriority := x\<rparr>);
          v = (case cp_CacheWritePrice cp of None \<Rightarrow> v
               | Some x \<Rightarrow> v\<lparr>mp_CacheCreationPricePerToken := x, mp_CacheCreation5mPrice := x,
                             mp_CacheCreation1hPrice := x\<rparr>);
          v = (case cp_CacheReadPrice cp of None \<Rightarrow> v
               | Some x \<Rightarrow> v\<lparr>mp_CacheReadPricePerToken := x, mp_CacheReadPricePerTokenPriority := x\<rparr>)
      in override_image_price cp v)"

definition GetModelPricingWithChannel ::
  "BillingService \<Rightarrow> string \<Rightarrow> ChannelModelPricing option \<Rightarrow> price_store
     \<Rightarrow> (go_error + price_ptr) \<times> price_store" where
  "GetModelPricingWithChannel s model channelPricing h =
     (case GetModelPricing s model h of
        (Inl e, h) \<Rightarrow> (Inl e, h)
      | (Inr p, h) \<Rightarrow>
          (case channelPricing of None \<Rightarrow> (Inr p, h)
           | Some cp \<Rightarrow> (Inr p, update_price p (override_flat_prices cp) h)))"

section \<open>The resolver\<close>

definition PricingSourceChannel :: string where "PricingSourceChannel = ''channel''"
definition PricingSourceLiteLLM :: string where "PricingSourceLiteLLM = ''litellm''"
definition PricingSourceFallback :: string where "PricingSourceFallback = ''fallback''"

record ResolvedPricing =
  rp_Mode :: string
  rp_BasePricing :: "price_ptr option"
  rp_Intervals :: "PricingInterval list"
  rp_RequestTiers :: "PricingInterval list"
  rp_DefaultPerRequestPrice :: price
  rp_Source :: string
  rp_SupportsCacheBreakdown :: bool
  rp_channelPricing :: "ChannelModelPricing option"

definition blank_resolved :: ResolvedPricing where
  "blank_resolved = \<lparr>rp_Mode = '''', rp_BasePricing = None, rp_Intervals = [], rp_RequestTiers = [],
     rp_DefaultPerRequestPrice = 0, rp_Source = '''', rp_SupportsCacheBreakdown = False,
     rp_channelPricing = None\<rparr>"

type_synonym channel_prices = "int \<Rightarrow> string \<Rightarrow> ChannelModelPricing option"

record ModelPricingResolver =
  mr_channelService :: "(channel_prices \<times> channel_prices) option"
  mr_billingService :: BillingService

definition filterValidIntervals :: "PricingInterval list \<Rightarrow> PricingInterval list" where
  "filterValidIntervals intervals =
     filter (\<lambda>iv. pi_InputPrice iv \<noteq> None \<or> pi_OutputPrice iv \<noteq> None \<or> pi_CacheWritePrice iv \<noteq> None
                  \<or> pi_CacheReadPrice iv \<noteq> None \<or> pi_PerRequestPrice iv \<noteq> None) intervals"

definition applyRequestTierOverrides :: "ChannelModelPricing \<Rightarrow> ResolvedPricing \<Rightarrow> ResolvedPricing" where
  "applyRequestTierOverrides cp resolved =
     (let resolved = resolved\<lparr>rp_RequestTiers := filterValidIntervals (cp_Intervals cp)\<rparr>
      in case cp_PerRequestPrice cp of None \<Rightarrow> resolved
         | Some x \<Rightarrow> resolved\<lparr>rp_DefaultPerRequestPrice := x\<rparr>)"

text \<open>\<open>if resolved.BasePricing == nil { resolved.BasePricing = &ModelPricing{} }\<close>.\<close>

definition ensure_base :: "ResolvedPricing \<Rightarrow> price_store \<Rightarrow> price_ptr \<times> ResolvedPricing \<times> price_store" where
  "ensure_base resolved h =
     (case rp_BasePricing resolved of
        Some p \<Rightarrow> (p, resolved, h)
      | None \<Rightarrow> (case new_price no_price h of (p, h) \<Rightarrow> (p, resolved\<lparr>rp_BasePricing := Some p\<rparr>, h)))"

definition applyTokenOverrides ::
  "ChannelModelPricing \<Rightarrow> ResolvedPricing \<Rightarrow> price_store \<Rightarrow> ResolvedPricing \<times> price_store" where
  "applyTokenOverrides cp resolved h =
     (let validIntervals = filterValidIntervals (cp_Intervals cp)
      in if validIntervals \<noteq> [] then
           (case ensure_base (resolved\<lparr>rp_Intervals := validIntervals\<rparr>) h of (p, resolved, h) \<Rightarrow>
              (resolved, update_price p (override_image_price cp) h))
         else
           (case ensure_base resolved h of (p, resolved, h) \<Rightarrow>
              (resolved, update_price p (override_flat_prices cp) h)))"

definition resolveBasePricing ::
  "ModelPricingResolver \<Rightarrow> string \<Rightarrow> price_store \<Rightarrow> (price_ptr option \<times> string) \<times> price_store" where
  "resolveBasePricing r model h =
     (case GetModelPricing (mr_billingService r) model h of
        (Inl e, h) \<Rightarrow> ((None, PricingSourceFallback), h)
      | (Inr p, h) \<Rightarrow> ((Some p, PricingSourceLiteLLM), h))"

definition applyChannelOverrides ::
  "channel_prices \<Rightarrow> int \<Rightarrow> string \<Rightarrow> ResolvedPricing \<Rightarrow> price_store \<Rightarrow> ResolvedPricing \<times> price_store" where
  "applyChannelOverrides prices groupID model resolved h =
     (case prices groupID model of None \<Rightarrow> (resolved, h)
      | Some cp \<Rightarrow>
          let mode = (if cp_BillingMode cp = '''' then BillingModeToken else cp_BillingMode cp);
              resolved = resolved\<lparr>rp_Source := PricingSourceChannel, rp_channelPricing := Some cp,
                                  rp_Mode := mode\<rparr>
          in if mode = BillingModeToken then applyTokenOverrides cp resolved h
             else if mode = BillingModePerRequest \<or> mode = BillingModeImage
               then (applyRequestTierOverrides cp resolved, h)
             else (resolved, h))"

definition is_request_mode :: "ChannelModelPricing \<Rightarrow> bool" where
  "is_request_mode cp =
     (let mode = (if cp_BillingMode cp = '''' then BillingModeToken else cp_BillingMode cp)
      in mode = BillingModePerRequest \<or> mode = BillingModeImage)"

definition Resolve ::
  "ModelPricingResolver \<Rightarrow> string \<Rightarrow> int option \<Rightarrow> price_store \<Rightarrow> (ResolvedPricing \<times> price_store) option" where
  "Resolve r model groupID h =
     (let chPricing = (case (groupID, mr_channelService r) of
            (Some g, Some (first, _)) \<Rightarrow> first g model | _ \<Rightarrow> None)
      in if (case chPricing of None \<Rightarrow> False | Some cp \<Rightarrow> is_request_mode cp) then
           Some (applyRequestTierOverrides (the chPricing)
             (blank_resolved\<lparr>rp_Mode := cp_BillingMode (the chPricing), rp_Source := PricingSourceChannel,
                             rp_channelPricing := chPricing\<rparr>), h)
         else
           case resolveBasePricing r model h of ((basePricing, source), h) \<Rightarrow>
             let resolved = blank_resolved\<lparr>rp_Mode := BillingModeToken, rp_BasePricing := basePricing,
                   rp_Source := source,
                   rp_SupportsCacheBreakdown :=
                     (case basePricing of None \<Rightarrow> False | Some p \<Rightarrow> mp_SupportsCacheBreakdown (h ! p))\<rparr>
             in case chPricing of
                  Some cp \<Rightarrow>
                    Some (applyTokenOverrides cp
                      (resolved\<lparr>rp_Source := PricingSourceChannel, rp_channelPricing := Some cp\<rparr>) h)
                | None \<Rightarrow>
                    (case groupID of None \<Rightarrow> Some (resolved, h)
                     | Some g \<Rightarrow>
                         (case mr_channelService r of None \<Rightarrow> None
                          | Some (_, second) \<Rightarrow> Some (applyChannelOverrides second g model resolved h))))"

definition intervalToModelPricing ::
  "PricingInterval \<Rightarrow> bool \<Rightarrow> ChannelModelPricing option \<Rightarrow> ModelPricing" where
  "intervalToModelPricing iv supportsCacheBreakdown chPricing =
     (let v = no_price\<lparr>mp_SupportsCacheBreakdown := supportsCacheBreakdown\<rparr>;
          v = (case pi_InputPrice iv of None \<Rightarrow> v
               | Some x \<Rightarrow> v\<lparr>mp_InputPricePerToken := x, mp_InputPricePerTokenPriority := x\<rparr>);
          v = (case pi_OutputPrice iv of None \<Rightarrow> v
               | Some x \<Rightarrow> v\<lparr>mp_OutputPricePerToken := x, mp_OutputPricePerTokenPriority := x\<rparr>);
          v = (case pi_CacheWritePrice iv of None \<Rightarrow> v
               | Some x \<Rightarrow> v\<lparr>mp_CacheCreationPricePerToken := x, mp_CacheCreation5mPrice := x,
                             mp_CacheCreation1hPrice := x\<rparr>);
          v = (case pi_CacheReadPrice iv of None \<Rightarrow> v
               | Some x \<Rightarrow> v\<lparr>mp_CacheReadPricePerToken := x, mp_CacheReadPricePerTokenPriority := x\<rparr>)
      in case chPricing of None \<Rightarrow> v
         | Some cp \<Rightarrow>
             let v = v\<lparr>mp_ImageOutputPriceExplicit := True\<rparr>
             in case cp_ImageOutputPrice cp of None \<Rightarrow> v | Some x \<Rightarrow> v\<lparr>mp_ImageOutputPricePerToken := x\<rparr>)"

definition GetIntervalPricing ::
  "ResolvedPricing \<Rightarrow> int \<Rightarrow> price_store \<Rightarrow> price_ptr option \<times> price_store" where
  "GetIntervalPricing resolved totalContextTokens h =
     (if rp_Intervals resolved = [] then (rp_BasePricing resolved, h)
      else case FindMatchingInterval (rp_Intervals resolved) totalContextTokens of
        None \<Rightarrow> (rp_BasePricing resolved, h)
      | Some iv \<Rightarrow>
          (case new_price (intervalToModelPricing iv (rp_SupportsCacheBreakdown resolved)
                             (rp_channelPricing resolved)) h of (p, h) \<Rightarrow> (Some p, h)))"

definition GetRequestTierPrice :: "ResolvedPricing \<Rightarrow> string \<Rightarrow> price" where
  "GetRequestTierPrice resolved tierLabel =
     (case List.find (\<lambda>t. pi_TierLabel t = tierLabel \<and> pi_PerRequestPrice t \<noteq> None) (rp_RequestTiers resolved) of
        Some t \<Rightarrow> the (pi_PerRequestPrice t) | None \<Rightarrow> 0)"

definition GetRequestTierPriceByContext :: "ResolvedPricing \<Rightarrow> int \<Rightarrow> price" where
  "GetRequestTierPriceByContext resolved totalContextTokens =
     (case FindMatchingInterval (rp_RequestTiers resolved) totalContextTokens of
        None \<Rightarrow> 0
      | Some iv \<Rightarrow> (case pi_PerRequestPrice iv of None \<Rightarrow> 0 | Some x \<Rightarrow> x))"

section \<open>The fallback table covers every key the matcher chooses\<close>

definition fallback_keys :: "string list" where
  "fallback_keys =
     [''claude-opus-4.7'', ''claude-opus-4.6'', ''claude-opus-4.5'', ''claude-3-opus'', ''claude-sonnet-4'',
      ''claude-3-5-sonnet'', ''claude-3-5-haiku'', ''claude-3-haiku'']
     @ map snd fallback_rules @ map snd openai_fallback_keys @ [''grok-4.3'', ''grok-build-0.1'']"

lemma fallback_key_range:
  assumes "fallback_key model = Some k"
  shows "k \<in> set fallback_keys"
proof -
  have claude: "claude_fallback_key m = Some k \<Longrightarrow> k \<in> set fallback_keys" for m
    unfolding claude_fallback_key_def fallback_keys_def by (auto split: if_splits)
  have rules: "List.find P fallback_rules = Some (pats, k) \<Longrightarrow> k \<in> set fallback_keys" for P pats
    unfolding fallback_keys_def by (force dest: find_Some_in)
  have openai: "map_of openai_fallback_keys m = Some k \<Longrightarrow> k \<in> set fallback_keys" for m
    unfolding fallback_keys_def by (force dest: map_of_SomeD)
  have grok: "''grok-4.3'' \<in> set fallback_keys" "''grok-build-0.1'' \<in> set fallback_keys"
    by (simp_all add: fallback_keys_def)
  from assms claude rules openai grok show ?thesis
    unfolding fallback_key_def Let_def
    by (auto split: option.splits if_splits)
qed

lemma fallback_keys_declared:
  "list_all (\<lambda>k. map_of (fst initFallbackPricing) k \<noteq> None) fallback_keys"
  by code_simp

lemma fallback_ptrs_valid:
  "list_all (\<lambda>(k, p). p < length (snd initFallbackPricing)) (fst initFallbackPricing)"
  by code_simp

lemma fallback_key_lower [simp]: "fallback_key (to_lower model) = fallback_key model"
  by (simp add: fallback_key_def)

lemma fallback_key_claude: "claude_fallback_key (to_lower model) = Some k \<Longrightarrow> fallback_key model = Some k"
  by (simp add: fallback_key_def)

text \<open>A service is in order in a store when every pointer of its table is allocated there.\<close>

definition service_in :: "BillingService \<Rightarrow> price_store \<Rightarrow> bool" where
  "service_in s h = list_all (\<lambda>(k, p). p < length h) (bs_fallbackPrices s)"

lemma service_inD: "service_in s h \<Longrightarrow> map_of (bs_fallbackPrices s) k = Some p \<Longrightarrow> p < length h"
  by (force simp: service_in_def list_all_iff dest: map_of_SomeD)

lemma service_in_mono: "service_in s h \<Longrightarrow> length h \<le> length h' \<Longrightarrow> service_in s h'"
  by (force simp: service_in_def list_all_iff)

lemma NewBillingService_table:
  "NewBillingService rm ps = (s, h) \<Longrightarrow> bs_fallbackPrices s = fst initFallbackPricing
     \<and> h = snd initFallbackPricing \<and> bs_pricingService s = ps"
  unfolding NewBillingService_def case_prod_beta by auto

lemma NewBillingService_in: "NewBillingService rm ps = (s, h) \<Longrightarrow> service_in s h"
  using fallback_ptrs_valid NewBillingService_table [of rm ps s h] by (simp add: service_in_def)

lemma getFallbackPricing_new:
  assumes "NewBillingService rm ps = (s, h)"
  shows "getFallbackPricing s model = None \<longleftrightarrow> fallback_key model = None"
  using fallback_key_range [of model] fallback_keys_declared NewBillingService_table [OF assms]
  by (auto simp: getFallbackPricing_def list_all_iff split: option.splits)

section \<open>Looking a price up\<close>

lemma new_price_simps [simp]:
  "fst (new_price v h) = length h" "snd (new_price v h) = h @ [v]"
  by (simp_all add: new_price_def)

lemma new_price_eq: "new_price v h = (length h, h @ [v])"
  by (simp add: new_price_def)

lemma length_update_price [simp]: "length (update_price p f h) = length h"
  by (simp add: update_price_def)

lemma update_price_same [simp]: "p < length h \<Longrightarrow> update_price p f h ! p = f (h ! p)"
  by (simp add: update_price_def)

lemma update_price_other [simp]: "q \<noteq> p \<Longrightarrow> update_price p f h ! q = h ! q"
  by (simp add: update_price_def)

text \<open>The value the model-specific policy arrives at, whether it copies or not.\<close>

definition policy_value :: "string \<Rightarrow> ModelPricing \<Rightarrow> ModelPricing" where
  "policy_value model v = (if isOpenAIGPT54Model model then with_gpt54_policy v else v)"

lemma with_gpt54_policy_id:
  "0 < mp_LongContextInputThreshold v \<Longrightarrow> 0 < mp_LongContextInputMultiplier v
     \<Longrightarrow> 0 < mp_LongContextOutputMultiplier v \<Longrightarrow> with_gpt54_policy v = v"
  by (simp add: with_gpt54_policy_def)

lemma policy_cases:
  assumes "applyModelSpecificPricingPolicy model p h = (q, h')" "p < length h"
  shows "q < length h'" "h' ! q = policy_value model (h ! p)" "h' = h \<and> q = p \<or> q = length h \<and> (\<exists>v. h' = h @ [v])"
  using assms
  by (auto simp: applyModelSpecificPricingPolicy_def policy_value_def Let_def new_price_eq
      with_gpt54_policy_id split: if_splits)

definition model_value :: "BillingService \<Rightarrow> price_store \<Rightarrow> string \<Rightarrow> ModelPricing option" where
  "model_value s h model =
     map_option (policy_value (to_lower model))
       (case dynamic_price s (to_lower model) of
          Some l \<Rightarrow> Some (litellm_price l)
        | None \<Rightarrow> map_option (\<lambda>p. h ! p) (getFallbackPricing s model))"

lemma getFallbackPricing_lower [simp]: "getFallbackPricing s (to_lower model) = getFallbackPricing s model"
  by (simp add: getFallbackPricing_def)

lemma getFallbackPricing_valid: "service_in s h \<Longrightarrow> getFallbackPricing s model = Some p \<Longrightarrow> p < length h"
  by (auto simp: getFallbackPricing_def split: option.splits dest: service_inD)

text \<open>A lookup computes that value, allocates at most and never changes a value in place.\<close>

lemma GetModelPricing_spec:
  assumes "GetModelPricing s model h = (res, h')" "service_in s h"
  shows "case res of Inl e \<Rightarrow> model_value s h model = None \<and> h' = h
         | Inr p \<Rightarrow> p < length h' \<and> model_value s h model = Some (h' ! p)
                    \<and> (\<exists>vs. h' = h @ vs)
                    \<and> (dynamic_price s (to_lower model) \<noteq> None \<longrightarrow> length h \<le> p)"
proof (cases "dynamic_price s (to_lower model)")
  case (Some l)
  obtain q h'' where pol: "applyModelSpecificPricingPolicy (to_lower model) (length h) (h @ [litellm_price l]) = (q, h'')"
    by (metis surj_pair)
  then have "res = Inr q" "h' = h''"
    using assms(1) Some by (auto simp: GetModelPricing_def Let_def new_price_eq)
  with policy_cases [OF pol] Some show ?thesis
    by (auto simp: model_value_def)
next
  case dyn: None
  show ?thesis
  proof (cases "getFallbackPricing s model")
    case None
    with assms dyn show ?thesis by (auto simp: GetModelPricing_def model_value_def)
  next
    case (Some p)
    obtain q h'' where pol: "applyModelSpecificPricingPolicy (to_lower model) p h = (q, h'')"
      by (metis surj_pair)
    then have "res = Inr q" "h' = h''"
      using assms(1) Some dyn by (auto simp: GetModelPricing_def)
    with policy_cases [OF pol] getFallbackPricing_valid [OF assms(2) Some] Some dyn show ?thesis
      by (auto simp: model_value_def)
  qed
qed

text \<open>A billing service fresh from its constructor prices every model whose name its matcher knows:
  the lookup fails exactly when neither the dynamic prices nor the name matcher know the model, the
  failure is \<open>ErrModelPricingUnavailable\<close>, and every model of the Claude series
  (\<open>claude_fallback_key\<close>) is priced, so no Claude request goes unbilled.\<close>

lemma fallback_total:
  assumes "NewBillingService rm ps = (s, h)"
  shows "((\<exists>e. fst (GetModelPricing s model h) = Inl e)
            \<longleftrightarrow> dynamic_price s (to_lower model) = None \<and> fallback_key model = None)
         \<and> (\<forall>e. fst (GetModelPricing s model h) = Inl e \<longrightarrow> oe_Unwrap e = Some ErrModelPricingUnavailable)
         \<and> (claude_fallback_key (to_lower model) \<noteq> None \<longrightarrow> (\<exists>p. fst (GetModelPricing s model h) = Inr p))"
proof -
  obtain res h' where r: "GetModelPricing s model h = (res, h')" by (metis surj_pair)
  have iff: "(\<exists>e. res = Inl e) \<longleftrightarrow> dynamic_price s (to_lower model) = None \<and> fallback_key model = None"
    using GetModelPricing_spec [OF r NewBillingService_in [OF assms]] getFallbackPricing_new [OF assms, of model]
    by (auto simp: model_value_def split: sum.splits option.splits)
  have err: "res = Inl e \<Longrightarrow> oe_Unwrap e = Some ErrModelPricingUnavailable" for e
    using r by (auto simp: GetModelPricing_def Let_def split: option.splits prod.splits)
  have claude: "\<exists>p. res = Inr p" if "claude_fallback_key (to_lower model) \<noteq> None"
    using that iff by (cases res) (auto simp: fallback_key_claude)
  show ?thesis
    unfolding r fst_conv by (intro conjI iff allI impI err claude)
qed

section \<open>What a channel's prices write\<close>

lemma ensure_base_cases:
  assumes "ensure_base resolved h = (p, resolved', h')"
  shows "case rp_BasePricing resolved of Some q \<Rightarrow> p = q \<and> resolved' = resolved \<and> h' = h
         | None \<Rightarrow> p = length h \<and> resolved' = resolved\<lparr>rp_BasePricing := Some p\<rparr> \<and> h' = h @ [no_price]"
  using assms by (auto simp: ensure_base_def new_price_eq split: option.splits)

text \<open>The token overrides write at the base price alone: every other value stays.\<close>

lemma applyTokenOverrides_frame:
  assumes "applyTokenOverrides cp resolved h = (resolved', h')"
  shows "length h \<le> length h'"
    and "q < length h \<Longrightarrow> rp_BasePricing resolved \<noteq> Some q \<Longrightarrow> h' ! q = h ! q"
  using assms
  by (auto simp: applyTokenOverrides_def Let_def nth_append split: if_splits prod.splits option.splits
      dest!: ensure_base_cases)

lemma applyTokenOverrides_flat:
  assumes "applyTokenOverrides cp resolved h = (resolved', h')"
    and "filterValidIntervals (cp_Intervals cp) = []"
    and "rp_BasePricing resolved = Some p" "p < length h"
  shows "rp_BasePricing resolved' = Some p" "p < length h'" "h' ! p = override_flat_prices cp (h ! p)"
    and "h' = h[p := override_flat_prices cp (h ! p)]"
  using assms by (auto simp: applyTokenOverrides_def ensure_base_def update_price_def)

lemma applyChannelOverrides_frame:
  assumes "applyChannelOverrides prices g model resolved h = (resolved', h')"
  shows "length h \<le> length h'"
    and "q < length h \<Longrightarrow> rp_BasePricing resolved \<noteq> Some q \<Longrightarrow> h' ! q = h ! q"
  using assms
  by (auto simp: applyChannelOverrides_def Let_def split: option.splits if_splits
      dest: applyTokenOverrides_frame)

lemma resolveBasePricing_cases:
  assumes "resolveBasePricing r model h = ((base, source), h')" "service_in (mr_billingService r) h"
  shows "case base of None \<Rightarrow> model_value (mr_billingService r) h model = None \<and> h' = h
         | Some p \<Rightarrow> p < length h' \<and> model_value (mr_billingService r) h model = Some (h' ! p)
                     \<and> (\<exists>vs. h' = h @ vs)
                     \<and> (dynamic_price (mr_billingService r) (to_lower model) \<noteq> None \<longrightarrow> length h \<le> p)"
proof -
  obtain res h'' where g: "GetModelPricing (mr_billingService r) model h = (res, h'')" by (metis surj_pair)
  from GetModelPricing_spec [OF g assms(2)] assms(1) g show ?thesis
    by (cases res) (auto simp: resolveBasePricing_def)
qed

text \<open>What is charged for a model depends on the values behind the table only.\<close>

lemma model_value_cong:
  assumes "service_in s h" "\<And>q. q < length h \<Longrightarrow> h' ! q = h ! q"
  shows "model_value s h' model = model_value s h model"
  using assms getFallbackPricing_valid [OF assms(1), of model]
  by (cases "getFallbackPricing s model") (auto simp: model_value_def split: option.splits)

lemma Resolve_frame:
  assumes "Resolve r model gid h = Some (resolved, h')" "service_in (mr_billingService r) h"
    and "gid = None \<or> dynamic_price (mr_billingService r) (to_lower model) \<noteq> None"
    and "q < length h"
  shows "h' ! q = h ! q"
proof -
  obtain base source h1 where b: "resolveBasePricing r model h = ((base, source), h1)" by (metis surj_pair)
  note c = resolveBasePricing_cases [OF b assms(2)]
  have h1: "h1 ! q = h ! q" "length h \<le> length h1"
    using c assms(4) by (auto simp: nth_append split: option.splits)
  have base: "gid \<noteq> None \<Longrightarrow> base \<noteq> Some q"
    using c assms(3,4) by (auto split: option.splits)
  show ?thesis
    using assms(1) h1 base assms(4)
    by (auto simp: Resolve_def b Let_def split: option.splits if_splits prod.splits
        dest!: applyTokenOverrides_frame(2) [where q = q] applyChannelOverrides_frame(2) [where q = q])
qed

text \<open>The flat channel price of a request: the channel lookup finds a token-mode price without priced
  intervals.\<close>

definition flat_channel_price :: "ModelPricingResolver \<Rightarrow> int \<Rightarrow> string \<Rightarrow> ChannelModelPricing \<Rightarrow> bool" where
  "flat_channel_price r g model cp =
     (case mr_channelService r of None \<Rightarrow> False
      | Some (first, _) \<Rightarrow> first g model = Some cp \<and> \<not> is_request_mode cp
                          \<and> filterValidIntervals (cp_Intervals cp) = [])"

lemma Resolve_flat:
  assumes "flat_channel_price r g model cp" "resolveBasePricing r model h = ((Some p, source), h1)" "p < length h1"
  shows "\<exists>resolved. Resolve r model (Some g) h
           = Some (resolved, h1[p := override_flat_prices cp (h1 ! p)])
           \<and> rp_BasePricing resolved = Some p \<and> rp_Source resolved = PricingSourceChannel
           \<and> rp_Intervals resolved = []"
  using assms
  by (auto simp: flat_channel_price_def Resolve_def applyTokenOverrides_def ensure_base_def
      update_price_def blank_resolved_def Let_def split: option.splits)

lemma override_flat_prices_in:
  "cp_InputPrice cp = Some x \<Longrightarrow> mp_InputPricePerToken (policy_value m (override_flat_prices cp v)) = x"
  by (simp add: policy_value_def with_gpt54_policy_def override_flat_prices_def override_image_price_def Let_def
      split: option.split)

lemma override_flat_prices_out:
  "cp_OutputPrice cp = Some x \<Longrightarrow> mp_OutputPricePerToken (policy_value m (override_flat_prices cp v)) = x"
  by (simp add: policy_value_def with_gpt54_policy_def override_flat_prices_def override_image_price_def Let_def
      split: option.split)

text \<open>Resolving the price of a model that the dynamic price service knows never disturbs anybody
  else: whatever the channel configures, the price every model is looked up at afterwards is the one
  before, and a flat channel price is laid over a private copy of the dynamic price.\<close>

lemma Resolve_isolated:
  assumes "service_in (mr_billingService r) h"
    and "dynamic_price (mr_billingService r) (to_lower model) = Some l"
    and "Resolve r model gid h = Some (resolved, h')"
  shows "(\<forall>other. model_value (mr_billingService r) h' other = model_value (mr_billingService r) h other)
         \<and> (\<forall>g cp. gid = Some g \<and> flat_channel_price r g model cp \<longrightarrow>
              (\<exists>p. rp_BasePricing resolved = Some p \<and> length h \<le> p
                 \<and> h' ! p = override_flat_prices cp (policy_value (to_lower model) (litellm_price l))))"
proof (intro conjI allI impI)
  fix other
  show "model_value (mr_billingService r) h' other = model_value (mr_billingService r) h other"
    using Resolve_frame [OF assms(3,1)] assms(2) by (intro model_value_cong [OF assms(1)]) auto
next
  fix g cp assume flat: "gid = Some g \<and> flat_channel_price r g model cp"
  obtain base source h1 where b: "resolveBasePricing r model h = ((base, source), h1)" by (metis surj_pair)
  have v: "model_value (mr_billingService r) h model = Some (policy_value (to_lower model) (litellm_price l))"
    by (simp add: model_value_def assms(2))
  obtain p where p: "base = Some p" "p < length h1" "length h \<le> p"
      "h1 ! p = policy_value (to_lower model) (litellm_price l)"
    using resolveBasePricing_cases [OF b assms(1)] v assms(2) by (auto split: option.splits)
  show "\<exists>p. rp_BasePricing resolved = Some p \<and> length h \<le> p
          \<and> h' ! p = override_flat_prices cp (policy_value (to_lower model) (litellm_price l))"
    using Resolve_flat [of r g model cp h p source h1] flat b p assms(3) by auto
qed

text \<open>C20: A channel's price leaks into the global fallback price. When a model has no dynamic price,
  \<open>Resolve\<close> writes the channel's prices through the pointer of the fallback table; afterwards every
  other model of the same fallback entry is looked up at the channel's prices, by callers of any
  group, until the process restarts.\<close>

theorem Resolve_leaks:
  assumes "service_in (mr_billingService r) h" "flat_channel_price r g model cp"
    and "dynamic_price (mr_billingService r) (to_lower model) = None" "\<not> isOpenAIGPT54Model (to_lower model)"
    and "dynamic_price (mr_billingService r) (to_lower other) = None"
    and "getFallbackPricing (mr_billingService r) model = Some p"
    and "getFallbackPricing (mr_billingService r) other = Some p"
    and "cp_InputPrice cp = Some x" "cp_OutputPrice cp = Some y"
  shows "\<exists>resolved h' q h''. Resolve r model (Some g) h = Some (resolved, h')
           \<and> GetModelPricing (mr_billingService r) other h' = (Inr q, h'')
           \<and> mp_InputPricePerToken (h'' ! q) = x \<and> mp_OutputPricePerToken (h'' ! q) = y"
proof -
  have p: "p < length h" using getFallbackPricing_valid [OF assms(1,6)] .
  have b: "resolveBasePricing r model h = ((Some p, PricingSourceLiteLLM), h)"
    using assms(3,4,6) by (simp add: resolveBasePricing_def GetModelPricing_def applyModelSpecificPricingPolicy_def)
  let ?h = "h[p := override_flat_prices cp (h ! p)]"
  obtain resolved where res: "Resolve r model (Some g) h = Some (resolved, ?h)"
    using Resolve_flat [OF assms(2) b p] by blast
  obtain res h'' where g: "GetModelPricing (mr_billingService r) other ?h = (res, h'')" by (metis surj_pair)
  have v: "model_value (mr_billingService r) ?h other
             = Some (policy_value (to_lower other) (override_flat_prices cp (h ! p)))"
    using assms(5,7) p by (simp add: model_value_def)
  have "service_in (mr_billingService r) ?h" using service_in_mono [OF assms(1)] by simp
  with GetModelPricing_spec [OF g] v obtain q where
    "res = Inr q" "h'' ! q = policy_value (to_lower other) (override_flat_prices cp (h ! p))"
    by (auto split: sum.splits)
  with res g override_flat_prices_in [OF assms(8)] override_flat_prices_out [OF assms(9)] show ?thesis
    by auto
qed

section \<open>A concrete resolver\<close>

definition demo_channel_price :: ChannelModelPricing where
  "demo_channel_price = \<lparr>cp_ID = 1, cp_ChannelID = 1, cp_Platform = ''anthropic'',
     cp_Models = [''claude-sonnet-4''], cp_BillingMode = '''', cp_InputPrice = Some 0,
     cp_OutputPrice = Some (1 / 1000), cp_CacheWritePrice = None, cp_CacheReadPrice = None,
     cp_ImageOutputPrice = None, cp_PerRequestPrice = None, cp_Intervals = [], cp_CreatedAt = 0,
     cp_UpdatedAt = 0\<rparr>"

definition demo_litellm_price :: LiteLLMModelPricing where
  "demo_litellm_price = \<lparr>ll_InputCostPerToken = 1 / 1000, ll_InputCostPerTokenPriority = 0,
     ll_OutputCostPerToken = 1 / 500, ll_OutputCostPerTokenPriority = 0,
     ll_CacheCreationInputTokenCost = 1 / 800, ll_CacheCreationInputTokenCostAbove1hr = 1 / 400,
     ll_CacheReadInputTokenCost = 1 / 10000, ll_CacheReadInputTokenCostPriority = 0,
     ll_LongContextInputTokenThreshold = 0, ll_LongContextInputCostMultiplier = 0,
     ll_LongContextOutputCostMultiplier = 0, ll_SupportsServiceTier = False, ll_LiteLLMProvider = '''',
     ll_Mode = '''', ll_SupportsPromptCaching = True, ll_OutputCostPerImage = 0,
     ll_OutputCostPerImageToken = 0\<rparr>"

definition demo_service :: "(string \<Rightarrow> LiteLLMModelPricing option) option \<Rightarrow> BillingService" where
  "demo_service ps = fst (NewBillingService 1 ps)"

definition demo_resolver :: "(string \<Rightarrow> LiteLLMModelPricing option) option \<Rightarrow> ModelPricingResolver" where
  "demo_resolver ps = \<lparr>mr_channelService = Some (\<lambda>_ _. Some demo_channel_price, \<lambda>_ _. None),
     mr_billingService = demo_service ps\<rparr>"

lemma demo_service_in: "service_in (demo_service ps) (snd initFallbackPricing)"
  using NewBillingService_in [of 1 ps "demo_service ps" "snd initFallbackPricing"]
  by (simp add: demo_service_def NewBillingService_def case_prod_beta)

lemma demo_flat: "flat_channel_price (demo_resolver ps) 1 m demo_channel_price"
  by (simp add: flat_channel_price_def demo_resolver_def is_request_mode_def filterValidIntervals_def
      demo_channel_price_def BillingModeToken_def BillingModePerRequest_def BillingModeImage_def)

lemma demo_dynamic: "dynamic_price (demo_service ps) m = (case ps of None \<Rightarrow> None | Some f \<Rightarrow> f m)"
  by (simp add: dynamic_price_def demo_service_def NewBillingService_def case_prod_beta)

lemma demo_fallback:
  "getFallbackPricing (demo_service ps) m = Option.bind (fallback_key m) (map_of (fst initFallbackPricing))"
  by (simp add: getFallbackPricing_def demo_service_def NewBillingService_def case_prod_beta split: option.split)

theorem Resolve_leaks_witness:
  "\<exists>resolved h' q h''.
     Resolve (demo_resolver None) ''claude-sonnet-4'' (Some 1) (snd initFallbackPricing) = Some (resolved, h')
     \<and> GetModelPricing (demo_service None) ''claude-next'' h' = (Inr q, h'')
     \<and> mp_InputPricePerToken (h'' ! q) = 0 \<and> mp_OutputPricePerToken (h'' ! q) = 1 / 1000"
proof -
  have key: "fallback_key ''claude-sonnet-4'' = Some ''claude-sonnet-4''"
    "fallback_key ''claude-next'' = Some ''claude-sonnet-4''" by code_simp+
  obtain p where "map_of (fst initFallbackPricing) ''claude-sonnet-4'' = Some p"
    using fallback_keys_declared by (auto simp: list_all_iff fallback_keys_def)
  then have fb: "getFallbackPricing (demo_service None) ''claude-sonnet-4'' = Some p"
    "getFallbackPricing (demo_service None) ''claude-next'' = Some p"
    by (simp_all add: demo_fallback key)
  have gpt: "\<not> isOpenAIGPT54Model (to_lower ''claude-sonnet-4'')" by code_simp
  have r: "mr_billingService (demo_resolver None) = demo_service None" by (simp add: demo_resolver_def)
  show ?thesis
    using Resolve_leaks [of "demo_resolver None" "snd initFallbackPricing" 1 "''claude-sonnet-4''"
        demo_channel_price "''claude-next''" p 0 "1 / 1000", unfolded r, OF demo_service_in demo_flat _ gpt _ fb]
    by (simp add: demo_dynamic demo_channel_price_def)
qed

end
