(* ===== verification/Image_Billing.thy ===== *)
theory Image_Billing
  imports Go_Strings
begin

text \<open>
  The size tiers by which generated images are billed, \<open>service/image_billing_size.go\<close>: a size is
  classified as 1K, 2K or 4K, and the tier of a request is that of its largest output, else of the
  size asked for, else 2K. A nil breakdown is the empty map.
\<close>

section \<open>Definitions\<close>

definition ImageBillingSize1K :: string where "ImageBillingSize1K = ''1K''"
definition ImageBillingSize2K :: string where "ImageBillingSize2K = ''2K''"
definition ImageBillingSize4K :: string where "ImageBillingSize4K = ''4K''"
definition ImageSizeSourceOutput :: string where "ImageSizeSourceOutput = ''output''"
definition ImageSizeSourceInput :: string where "ImageSizeSourceInput = ''input''"
definition ImageSizeSourceDefault :: string where "ImageSizeSourceDefault = ''default''"

record ImageBillingSizeResolution =
  ir_BillingSize :: string
  ir_InputSize :: string
  ir_OutputSize :: string
  ir_Source :: string
  ir_Breakdown :: "string \<rightharpoonup> int"

definition parseImageBillingDimensions :: "string \<Rightarrow> (int \<times> int) option" where
  "parseImageBillingDimensions sz =
     (case split_on (CHR ''x'') (to_lower (trim_space sz)) of
        [a, b] \<Rightarrow>
          (case atoi (trim_space a) of None \<Rightarrow> None
           | Some width \<Rightarrow>
             (case atoi (trim_space b) of None \<Rightarrow> None
              | Some height \<Rightarrow> if width \<le> 0 \<or> height \<le> 0 then None else Some (width, height)))
      | _ \<Rightarrow> None)"

definition ClassifyImageBillingTier :: "string \<Rightarrow> string option" where
  "ClassifyImageBillingTier sz =
     (let trimmed = trim_space sz;
          normalized = to_lower trimmed
      in if normalized \<in> {'''', ''auto''} then None
         else if normalized = ''1k'' then Some ImageBillingSize1K
         else if normalized = ''2k'' then Some ImageBillingSize2K
         else if normalized = ''4k'' then Some ImageBillingSize4K
         else if normalized \<in> {''2048x2048'', ''2048x1152''} then Some ImageBillingSize2K
         else if normalized \<in> {''3840x2160'', ''2160x3840''} then Some ImageBillingSize4K
         else case parseImageBillingDimensions trimmed of
                None \<Rightarrow> None
              | Some (width, height) \<Rightarrow>
                  let maxEdge = (if width < height then height else width)
                  in if maxEdge \<le> 1024 then Some ImageBillingSize1K
                     else if maxEdge \<le> 2048 then Some ImageBillingSize2K
                     else Some ImageBillingSize4K)"

definition NormalizeImageBillingTierOrDefault :: "string \<Rightarrow> string" where
  "NormalizeImageBillingTierOrDefault sz =
     (case ClassifyImageBillingTier sz of Some tier \<Rightarrow> tier | None \<Rightarrow> ImageBillingSize2K)"

definition compactTrimmedStrings :: "string list \<Rightarrow> string list" where
  "compactTrimmedStrings values = filter (\<lambda>v. v \<noteq> '''') (map trim_space values)"

definition firstDisplayImageOutputSize :: "string list \<Rightarrow> string" where
  "firstDisplayImageOutputSize outputSizes =
     (case List.find (\<lambda>v. trim_space v \<noteq> '''') outputSizes of Some v \<Rightarrow> trim_space v | None \<Rightarrow> '''')"

definition imageTierRank :: "string \<Rightarrow> int" where
  "imageTierRank tier =
     (let t = to_upper (trim_space tier)
      in if t = ImageBillingSize1K then 1
         else if t = ImageBillingSize2K then 2
         else if t = ImageBillingSize4K then 3
         else 0)"

definition count_in :: "string \<Rightarrow> (string \<rightharpoonup> int) \<Rightarrow> int" where
  "count_in k m = (case m k of None \<Rightarrow> 0 | Some n \<Rightarrow> n)"

definition normalizeImageSizeBreakdown :: "(string \<rightharpoonup> int) \<Rightarrow> (string \<rightharpoonup> int)" where
  "normalizeImageSizeBreakdown m =
     (\<lambda>tier. if tier \<in> {ImageBillingSize1K, ImageBillingSize2K, ImageBillingSize4K} \<and> 0 < count_in tier m
             then Some (count_in tier m) else None)"

text \<open>The loop over the outputs: the counts per tier and the highest tier so far.\<close>

fun tally_outputs :: "string list \<Rightarrow> (string \<rightharpoonup> int) \<times> string \<Rightarrow> (string \<rightharpoonup> int) \<times> string" where
  "tally_outputs [] acc = acc"
| "tally_outputs (out # outs) (breakdown, outputTier) =
     (case ClassifyImageBillingTier out of
        None \<Rightarrow> tally_outputs outs (breakdown, outputTier)
      | Some tier \<Rightarrow>
          tally_outputs outs
            (breakdown(tier \<mapsto> count_in tier breakdown + 1),
             if imageTierRank outputTier < imageTierRank tier then tier else outputTier))"

definition ResolveImageBillingSize :: "string \<Rightarrow> string list \<Rightarrow> ImageBillingSizeResolution" where
  "ResolveImageBillingSize inputSize outputSizes =
     (let inputSize = trim_space inputSize;
          outputSizes = compactTrimmedStrings outputSizes;
          outputSize = firstDisplayImageOutputSize outputSizes;
          (breakdown, outputTier) = tally_outputs outputSizes (Map.empty, '''')
      in if outputTier \<noteq> '''' then
           \<lparr>ir_BillingSize = outputTier, ir_InputSize = inputSize, ir_OutputSize = outputSize,
            ir_Source = ImageSizeSourceOutput, ir_Breakdown = normalizeImageSizeBreakdown breakdown\<rparr>
         else
           case ClassifyImageBillingTier inputSize of
             Some tier \<Rightarrow>
               \<lparr>ir_BillingSize = tier, ir_InputSize = inputSize, ir_OutputSize = outputSize,
                ir_Source = ImageSizeSourceInput, ir_Breakdown = Map.empty\<rparr>
           | None \<Rightarrow>
               \<lparr>ir_BillingSize = ImageBillingSize2K, ir_InputSize = inputSize, ir_OutputSize = outputSize,
                ir_Source = ImageSizeSourceDefault, ir_Breakdown = Map.empty\<rparr>)"

text \<open>The image fields of a forward result, and what \<open>ApplyForwardImageBillingResolution\<close> and
  \<open>ApplyOpenAIImageBillingResolution\<close> do to them.\<close>

record image_result =
  im_ImageCount :: int
  im_ImageSize :: string
  im_ImageInputSize :: string
  im_ImageOutputSize :: string
  im_ImageOutputSizes :: "string list"
  im_ImageSizeSource :: string
  im_ImageSizeBreakdown :: "string \<rightharpoonup> int"

definition applyImageBillingResolution :: "ImageBillingSizeResolution \<Rightarrow> image_result \<Rightarrow> image_result" where
  "applyImageBillingResolution resolved result =
     result\<lparr>im_ImageSize := ir_BillingSize resolved, im_ImageInputSize := ir_InputSize resolved,
            im_ImageOutputSize := ir_OutputSize resolved, im_ImageSizeSource := ir_Source resolved,
            im_ImageSizeBreakdown := ir_Breakdown resolved\<rparr>"

definition ApplyForwardImageBillingResolution :: "image_result option \<Rightarrow> image_result option" where
  "ApplyForwardImageBillingResolution res =
     (case res of None \<Rightarrow> None
      | Some result \<Rightarrow>
          if im_ImageCount result \<le> 0 then Some result
          else
            let inputSize = trim_space (im_ImageInputSize result);
                inputSize = (if inputSize = '''' \<and> trim_space (im_ImageSize result) \<noteq> ImageBillingSize2K
                             then trim_space (im_ImageSize result) else inputSize);
                outputSizes = (if im_ImageOutputSizes result = [] \<and> trim_space (im_ImageOutputSize result) \<noteq> ''''
                               then [im_ImageOutputSize result] else im_ImageOutputSizes result)
            in Some (applyImageBillingResolution (ResolveImageBillingSize inputSize outputSizes) result))"

definition ApplyOpenAIImageBillingResolution :: "image_result option \<Rightarrow> image_result option" where
  "ApplyOpenAIImageBillingResolution res = ApplyForwardImageBillingResolution res"

section \<open>Tiers\<close>

lemmas tier_names = ImageBillingSize1K_def ImageBillingSize2K_def ImageBillingSize4K_def

definition tiers :: "string set" where
  "tiers = {''1K'', ''2K'', ''4K''}"

lemma classify_tier: "ClassifyImageBillingTier s = Some t \<Longrightarrow> t \<in> tiers"
  by (auto simp: ClassifyImageBillingTier_def Let_def tiers_def tier_names
    split: if_splits option.splits prod.splits)

lemma rank_tiers [simp]:
  "imageTierRank ''1K'' = 1" "imageTierRank ''2K'' = 2" "imageTierRank ''4K'' = 3" "imageTierRank '''' = 0"
  by code_simp+

lemma rank_pos: "t \<in> tiers \<Longrightarrow> 1 \<le> imageTierRank t"
  by (auto simp: tiers_def)

lemma rank_inject: "t \<in> tiers \<Longrightarrow> t' \<in> tiers \<Longrightarrow> imageTierRank t = imageTierRank t' \<longleftrightarrow> t = t'"
  by (auto simp: tiers_def)

lemma count_normalize:
  "count_in k (normalizeImageSizeBreakdown b) = (if k \<in> tiers then max 0 (count_in k b) else 0)"
  by (subst count_in_def) (auto simp: normalizeImageSizeBreakdown_def tiers_def tier_names)

text \<open>The loop over the outputs, from its end: counts and highest tier.\<close>

lemma tally_invariant:
  assumes "t0 = '''' \<or> t0 \<in> tiers" and "tally_outputs outs (b0, t0) = (b, t)"
  shows "(\<forall>k. count_in k b = count_in k b0 + int (length (filter (\<lambda>s. ClassifyImageBillingTier s = Some k) outs)))
    \<and> (t = t0 \<or> (\<exists>s \<in> set outs. ClassifyImageBillingTier s = Some t))
    \<and> imageTierRank t0 \<le> imageTierRank t
    \<and> (\<forall>s \<in> set outs. \<forall>u. ClassifyImageBillingTier s = Some u \<longrightarrow> imageTierRank u \<le> imageTierRank t)"
  using assms
proof (induction outs arbitrary: b0 t0)
  case (Cons out outs)
  show ?case
  proof (cases "ClassifyImageBillingTier out")
    case None
    then show ?thesis using Cons.IH [of t0 b0] Cons.prems by auto
  next
    case (Some u)
    let ?b = "b0(u \<mapsto> count_in u b0 + 1)" and ?t = "if imageTierRank t0 < imageTierRank u then u else t0"
    have "?t = '''' \<or> ?t \<in> tiers" using Cons.prems(1) classify_tier [OF Some] by auto
    moreover have "tally_outputs outs (?b, ?t) = (b, t)" using Cons.prems(2) Some by simp
    ultimately have ih: "(\<forall>k. count_in k b = count_in k ?b + int (length (filter (\<lambda>s. ClassifyImageBillingTier s = Some k) outs)))
        \<and> (t = ?t \<or> (\<exists>s \<in> set outs. ClassifyImageBillingTier s = Some t))
        \<and> imageTierRank ?t \<le> imageTierRank t
        \<and> (\<forall>s \<in> set outs. \<forall>u. ClassifyImageBillingTier s = Some u \<longrightarrow> imageTierRank u \<le> imageTierRank t)"
      by (rule Cons.IH)
    then have "imageTierRank t0 \<le> imageTierRank t" "imageTierRank u \<le> imageTierRank t"
      by (auto split: if_splits)
    moreover have "count_in k ?b = count_in k b0 + (if u = k then 1 else 0)" for k by (simp add: count_in_def)
    ultimately show ?thesis using ih Some by (auto split: if_splits)
  qed
qed simp

text \<open>A request for images is billed by the largest image it produced: when an output size can
  be classified, the tier is that of one of the outputs, no output has a higher one, and the
  breakdown counts exactly the outputs of each tier. Otherwise the size asked for decides, else
  the tier is 2K; so the tier is always 1K, 2K or 4K.\<close>

lemma ResolveImageBillingSize_spec:
  fixes inputSize outputSizes
  defines "outs \<equiv> compactTrimmedStrings outputSizes"
  defines "res \<equiv> ResolveImageBillingSize inputSize outputSizes"
  shows "ir_BillingSize res \<in> {''1K'', ''2K'', ''4K''}
    \<and> (if \<exists>s \<in> set outs. ClassifyImageBillingTier s \<noteq> None
       then ir_Source res = ''output''
         \<and> (\<exists>s \<in> set outs. ClassifyImageBillingTier s = Some (ir_BillingSize res))
         \<and> (\<forall>s \<in> set outs. \<forall>u. ClassifyImageBillingTier s = Some u \<longrightarrow>
              imageTierRank u \<le> imageTierRank (ir_BillingSize res))
         \<and> (\<forall>k. count_in k (ir_Breakdown res) =
              int (length (filter (\<lambda>s. ClassifyImageBillingTier s = Some k) outs)))
       else ir_BillingSize res = NormalizeImageBillingTierOrDefault (trim_space inputSize)
         \<and> ir_Breakdown res = Map.empty)"
proof -
  obtain b t where bt: "tally_outputs outs (Map.empty, '''') = (b, t)" by fastforce
  note inv = tally_invariant [OF _ bt]
  have cnt: "count_in k b = int (length (filter (\<lambda>s. ClassifyImageBillingTier s = Some k) outs))" for k
    using inv by (simp add: count_in_def [of k Map.empty])
  have res: "res = (if t \<noteq> '''' then
           \<lparr>ir_BillingSize = t, ir_InputSize = trim_space inputSize,
            ir_OutputSize = firstDisplayImageOutputSize outs,
            ir_Source = ImageSizeSourceOutput, ir_Breakdown = normalizeImageSizeBreakdown b\<rparr>
         else case ClassifyImageBillingTier (trim_space inputSize) of
             Some tier \<Rightarrow>
               \<lparr>ir_BillingSize = tier, ir_InputSize = trim_space inputSize,
                ir_OutputSize = firstDisplayImageOutputSize outs,
                ir_Source = ImageSizeSourceInput, ir_Breakdown = Map.empty\<rparr>
           | None \<Rightarrow>
               \<lparr>ir_BillingSize = ImageBillingSize2K, ir_InputSize = trim_space inputSize,
                ir_OutputSize = firstDisplayImageOutputSize outs,
                ir_Source = ImageSizeSourceDefault, ir_Breakdown = Map.empty\<rparr>)"
    using bt unfolding res_def ResolveImageBillingSize_def outs_def by (simp add: Let_def)
  show ?thesis
  proof (cases "\<exists>s \<in> set outs. ClassifyImageBillingTier s \<noteq> None")
    case True
    then obtain s u where su: "s \<in> set outs" "ClassifyImageBillingTier s = Some u" by auto
    have le: "imageTierRank u \<le> imageTierRank t" using inv su by auto
    have t: "t \<noteq> ''''" using le rank_pos [OF classify_tier [OF su(2)]] by auto
    then have tin: "t \<in> tiers" using inv by (auto dest: classify_tier)
    have "count_in k (normalizeImageSizeBreakdown b) = count_in k b" for k
    proof (cases "k \<in> tiers")
      case True
      then show ?thesis using cnt [of k] by (simp add: count_normalize)
    next
      case False
      then have "filter (\<lambda>s. ClassifyImageBillingTier s = Some k) outs = []"
        using classify_tier by (auto simp: filter_empty_conv)
      then show ?thesis using False cnt [of k] by (simp add: count_normalize)
    qed
    with True t tin inv cnt show ?thesis
      by (simp add: res ImageSizeSourceOutput_def) (auto simp: tiers_def)
  next
    case False
    then have "t = ''''" using inv by auto
    then show ?thesis using False
      by (auto simp: res NormalizeImageBillingTierOrDefault_def tier_names tiers_def
        split: option.splits dest: classify_tier)
  qed
qed

lemma demo_outputs:
  "compactTrimmedStrings ['' 1024x1024'', '''', ''3840x2160''] = [''1024x1024'', ''3840x2160'']"
  by code_simp

lemma demo_tiers:
  "ClassifyImageBillingTier ''1024x1024'' = Some ''1K''" "ClassifyImageBillingTier ''3840x2160'' = Some ''4K''"
  by code_simp+

section \<open>Dimensions\<close>

lemma digit_not_x: "is_digit c \<Longrightarrow> c \<noteq> CHR ''x'' \<and> lower_char c = c"
  by (auto simp: is_digit_def lower_char_def byte_def)

lemma itoa_digits: "0 \<le> i \<Longrightarrow> \<forall>c \<in> set (itoa i). is_digit c"
  unfolding itoa_def using utoa_digits [of "nat i"] by simp

lemma split_on_free: "sep \<notin> set s \<Longrightarrow> split_on sep s = [s]"
  by (induction s) auto

lemma split_on_once: "sep \<notin> set s \<Longrightarrow> sep \<notin> set t \<Longrightarrow> split_on sep (s @ sep # t) = [s, t]"
  by (induction s) (auto simp: split_on_free)

lemma named_dimensions:
  "parseImageBillingDimensions '''' = None"
  "parseImageBillingDimensions ''auto'' = None"
  "parseImageBillingDimensions ''1k'' = None"
  "parseImageBillingDimensions ''2k'' = None"
  "parseImageBillingDimensions ''4k'' = None"
  "parseImageBillingDimensions ''2048x2048'' = Some (2048, 2048)"
  "parseImageBillingDimensions ''2048x1152'' = Some (2048, 1152)"
  "parseImageBillingDimensions ''3840x2160'' = Some (3840, 2160)"
  "parseImageBillingDimensions ''2160x3840'' = Some (2160, 3840)"
  by code_simp+

lemma named_tiers:
  "ClassifyImageBillingTier ''2048x2048'' = Some ''2K''"
  "ClassifyImageBillingTier ''2048x1152'' = Some ''2K''"
  "ClassifyImageBillingTier ''3840x2160'' = Some ''4K''"
  "ClassifyImageBillingTier ''2160x3840'' = Some ''4K''"
  by code_simp+

text \<open>A size written as two positive numbers with an \<open>x\<close> between them is classified by its
  longer edge: up to 1024 is 1K, up to 2048 is 2K, more is 4K; the sizes that the code lists by name
  agree with the rule.\<close>

lemma classify_dimensions:
  assumes "0 < w" "w \<le> MaxInt64" "0 < h" "h \<le> MaxInt64"
  shows "ClassifyImageBillingTier (itoa w @ ''x'' @ itoa h) =
    Some (if max w h \<le> 1024 then ''1K'' else if max w h \<le> 2048 then ''2K'' else ''4K'')"
proof -
  let ?s = "itoa w @ CHR ''x'' # itoa h"
  have dw: "\<forall>c \<in> set (itoa w). is_digit c" and dh: "\<forall>c \<in> set (itoa h). is_digit c"
    using assms itoa_digits [of w] itoa_digits [of h] by simp_all
  have g: "\<forall>c \<in> set (itoa w). graphic c" "\<forall>c \<in> set (itoa h). graphic c"
    using dw dh digit_graphic by auto
  have trim: "trim_space ?s = ?s"
    using g by (intro trim_space_graphic) (auto simp: hd_append)
  have ids: "map lower_char (itoa w) = itoa w" "map lower_char (itoa h) = itoa h"
    using dw dh digit_not_x by (auto simp: map_idI)
  have lower: "to_lower ?s = ?s"
    using ids by (simp add: to_lower_def) (simp add: lower_char_def byte_def)
  have x: "CHR ''x'' \<notin> set (itoa w)" "CHR ''x'' \<notin> set (itoa h)" using dw dh digit_not_x by blast+
  have parse: "parseImageBillingDimensions ?s = Some (w, h)"
    using assms by (simp add: parseImageBillingDimensions_def trim lower split_on_once [OF x]
        trim_space_itoa atoi_itoa)
  have sp: "parseImageBillingDimensions z = Some (w, h)" if "?s = z" for z using parse that by simp
  have ne: "?s \<noteq> ''''" "?s \<noteq> ''auto''" "?s \<noteq> ''1k''" "?s \<noteq> ''2k''" "?s \<noteq> ''4k''"
    using sp named_dimensions(1-5) by (metis option.distinct(1))+
  have eq: "?s = ''2048x2048'' \<Longrightarrow> w = 2048 \<and> h = 2048"
      "?s = ''2048x1152'' \<Longrightarrow> w = 2048 \<and> h = 1152"
      "?s = ''3840x2160'' \<Longrightarrow> w = 3840 \<and> h = 2160"
      "?s = ''2160x3840'' \<Longrightarrow> w = 2160 \<and> h = 3840"
    using sp named_dimensions(6-9) by (metis option.inject prod.inject)+
  show ?thesis
  proof (cases "?s \<in> {''2048x2048'', ''2048x1152'', ''3840x2160'', ''2160x3840''}")
    case True
    then show ?thesis using ne eq
      by (elim insertE) (simp_all add: named_tiers)
  next
    case False
    then show ?thesis using ne
      by (simp add: ClassifyImageBillingTier_def Let_def trim lower parse tier_names max_def)
  qed
qed

end
