(* ===== verification/Billing.thy ===== *)
theory Billing
  imports Pricing Image_Billing
begin

text \<open>
  The cost of a request: the calculations of \<open>service/billing_service.go\<close> over the prices of
  \<open>Pricing\<close>. Amounts are exact rationals where the code has \<open>float64\<close>, token counts unbounded
  integers where it has 64-bit ones. An operation that looks up a price returns the price store too,
  because looking one up may allocate a new value or write through a shared one.
\<close>

section \<open>Service tiers\<close>

definition normalizeBillingServiceTier :: "string \<Rightarrow> string" where
  "normalizeBillingServiceTier serviceTier = to_lower (trim_space serviceTier)"

definition usePriorityServiceTierPricing :: "string \<Rightarrow> ModelPricing \<Rightarrow> bool" where
  "usePriorityServiceTierPricing serviceTier pricing =
     (if normalizeBillingServiceTier serviceTier \<noteq> ''priority'' then False
      else 0 < mp_InputPricePerTokenPriority pricing \<or> 0 < mp_OutputPricePerTokenPriority pricing
           \<or> 0 < mp_CacheReadPricePerTokenPriority pricing)"

definition serviceTierCostMultiplier :: "string \<Rightarrow> rat" where
  "serviceTierCostMultiplier serviceTier =
     (let t = normalizeBillingServiceTier serviceTier
      in if t = ''priority'' then 2 else if t = ''flex'' then 1 / 2 else 1)"

section \<open>Usage and cost\<close>

record UsageTokens =
  ut_InputTokens :: int
  ut_ImageInputTokens :: int
  ut_OutputTokens :: int
  ut_CacheCreationTokens :: int
  ut_CacheReadTokens :: int
  ut_CacheCreation5mTokens :: int
  ut_CacheCreation1hTokens :: int
  ut_ImageOutputTokens :: int

definition no_tokens :: UsageTokens where
  "no_tokens = \<lparr>ut_InputTokens = 0, ut_ImageInputTokens = 0, ut_OutputTokens = 0,
     ut_CacheCreationTokens = 0, ut_CacheReadTokens = 0, ut_CacheCreation5mTokens = 0,
     ut_CacheCreation1hTokens = 0, ut_ImageOutputTokens = 0\<rparr>"

record CostBreakdown =
  cb_InputCost :: rat
  cb_OutputCost :: rat
  cb_ImageOutputCost :: rat
  cb_CacheCreationCost :: rat
  cb_CacheReadCost :: rat
  cb_TotalCost :: rat
  cb_ActualCost :: rat
  cb_BillingMode :: string

definition no_cost :: CostBreakdown where
  "no_cost = \<lparr>cb_InputCost = 0, cb_OutputCost = 0, cb_ImageOutputCost = 0, cb_CacheCreationCost = 0,
     cb_CacheReadCost = 0, cb_TotalCost = 0, cb_ActualCost = 0, cb_BillingMode = ''''\<rparr>"

section \<open>The cost of tokens\<close>

definition computeCacheCreationCost :: "ModelPricing \<Rightarrow> UsageTokens \<Rightarrow> rat \<Rightarrow> rat" where
  "computeCacheCreationCost pricing tokens multiplier =
     (if mp_SupportsCacheBreakdown pricing
         \<and> (0 < mp_CacheCreation5mPrice pricing \<or> 0 < mp_CacheCreation1hPrice pricing) then
        if ut_CacheCreation5mTokens tokens = 0 \<and> ut_CacheCreation1hTokens tokens = 0
           \<and> 0 < ut_CacheCreationTokens tokens
        then of_int (ut_CacheCreationTokens tokens) * mp_CacheCreation5mPrice pricing * multiplier
        else of_int (ut_CacheCreation5mTokens tokens) * mp_CacheCreation5mPrice pricing * multiplier
             + of_int (ut_CacheCreation1hTokens tokens) * mp_CacheCreation1hPrice pricing * multiplier
      else of_int (ut_CacheCreationTokens tokens) * mp_CacheCreationPricePerToken pricing * multiplier)"

definition shouldApplySessionLongContextPricing :: "UsageTokens \<Rightarrow> ModelPricing \<Rightarrow> bool" where
  "shouldApplySessionLongContextPricing tokens pricing =
     (if mp_LongContextInputThreshold pricing \<le> 0 then False
      else if mp_LongContextInputMultiplier pricing \<le> 1 \<and> mp_LongContextOutputMultiplier pricing \<le> 1
        then False
      else mp_LongContextInputThreshold pricing
             < ut_InputTokens tokens + ut_CacheReadTokens tokens)"

text \<open>The prices in force after the service tier and the long-context rule: input, output, cache
  read, the factor of cache creation and the factor of the whole cost.\<close>

record unit_prices =
  up_input :: price
  up_output :: price
  up_cacheRead :: price
  up_cacheCreationMultiplier :: rat
  up_tierMultiplier :: rat

definition tier_prices :: "ModelPricing \<Rightarrow> string \<Rightarrow> unit_prices" where
  "tier_prices pricing serviceTier =
     (let u = \<lparr>up_input = mp_InputPricePerToken pricing, up_output = mp_OutputPricePerToken pricing,
               up_cacheRead = mp_CacheReadPricePerToken pricing, up_cacheCreationMultiplier = 1,
               up_tierMultiplier = 1\<rparr>
      in if usePriorityServiceTierPricing serviceTier pricing then
           let u = (if 0 < mp_InputPricePerTokenPriority pricing
                    then u\<lparr>up_input := mp_InputPricePerTokenPriority pricing\<rparr> else u);
               u = (if 0 < mp_OutputPricePerTokenPriority pricing
                    then u\<lparr>up_output := mp_OutputPricePerTokenPriority pricing\<rparr> else u)
           in (if 0 < mp_CacheReadPricePerTokenPriority pricing
               then u\<lparr>up_cacheRead := mp_CacheReadPricePerTokenPriority pricing\<rparr> else u)
         else u\<lparr>up_tierMultiplier := serviceTierCostMultiplier serviceTier\<rparr>)"

definition context_prices :: "ModelPricing \<Rightarrow> UsageTokens \<Rightarrow> bool \<Rightarrow> unit_prices \<Rightarrow> unit_prices" where
  "context_prices pricing tokens applyLongCtx u =
     (if applyLongCtx \<and> shouldApplySessionLongContextPricing tokens pricing then
        u\<lparr>up_input := up_input u * mp_LongContextInputMultiplier pricing,
          up_output := up_output u * mp_LongContextOutputMultiplier pricing,
          up_cacheRead := up_cacheRead u * mp_LongContextInputMultiplier pricing,
          up_cacheCreationMultiplier := mp_LongContextInputMultiplier pricing\<rparr>
      else u)"

definition input_cost :: "ModelPricing \<Rightarrow> UsageTokens \<Rightarrow> price \<Rightarrow> rat" where
  "input_cost pricing tokens inputPrice =
     (if 0 < ut_ImageInputTokens tokens then
        let textInputTokens = ut_InputTokens tokens - ut_ImageInputTokens tokens;
            (textInputTokens, imageInputTokens) =
              (if textInputTokens < 0 then (0, ut_InputTokens tokens)
               else (textInputTokens, ut_ImageInputTokens tokens));
            imageInputPrice =
              (if mp_ImageInputPricePerToken pricing = 0 then inputPrice
               else mp_ImageInputPricePerToken pricing)
        in of_int textInputTokens * inputPrice + of_int imageInputTokens * imageInputPrice
      else of_int (ut_InputTokens tokens) * inputPrice)"

definition output_cost :: "UsageTokens \<Rightarrow> price \<Rightarrow> rat" where
  "output_cost tokens outputPrice =
     (let textOutputTokens = ut_OutputTokens tokens - ut_ImageOutputTokens tokens;
          textOutputTokens = (if textOutputTokens < 0 then 0 else textOutputTokens)
      in of_int textOutputTokens * outputPrice)"

definition image_output_cost :: "ModelPricing \<Rightarrow> UsageTokens \<Rightarrow> price \<Rightarrow> rat" where
  "image_output_cost pricing tokens outputPrice =
     (if 0 < ut_ImageOutputTokens tokens then
        let imgPrice = mp_ImageOutputPricePerToken pricing;
            imgPrice = (if imgPrice = 0 \<and> \<not> mp_ImageOutputPriceExplicit pricing then outputPrice else imgPrice)
        in of_int (ut_ImageOutputTokens tokens) * imgPrice
      else 0)"

definition computeTokenBreakdown ::
  "ModelPricing \<Rightarrow> UsageTokens \<Rightarrow> rat \<Rightarrow> string \<Rightarrow> bool \<Rightarrow> CostBreakdown" where
  "computeTokenBreakdown pricing tokens rateMultiplier serviceTier applyLongCtx =
     (let rateMultiplier = (if rateMultiplier < 0 then 0 else rateMultiplier);
          u = context_prices pricing tokens applyLongCtx (tier_prices pricing serviceTier);
          bd = no_cost\<lparr>cb_InputCost := input_cost pricing tokens (up_input u),
                 cb_OutputCost := output_cost tokens (up_output u),
                 cb_ImageOutputCost := image_output_cost pricing tokens (up_output u),
                 cb_CacheCreationCost :=
                   computeCacheCreationCost pricing tokens (up_cacheCreationMultiplier u),
                 cb_CacheReadCost := of_int (ut_CacheReadTokens tokens) * up_cacheRead u\<rparr>;
          m = up_tierMultiplier u;
          bd = (if m \<noteq> 1 then
                  bd\<lparr>cb_InputCost := cb_InputCost bd * m, cb_OutputCost := cb_OutputCost bd * m,
                     cb_ImageOutputCost := cb_ImageOutputCost bd * m,
                     cb_CacheCreationCost := cb_CacheCreationCost bd * m,
                     cb_CacheReadCost := cb_CacheReadCost bd * m\<rparr>
                else bd);
          total = cb_InputCost bd + cb_OutputCost bd + cb_ImageOutputCost bd
                    + cb_CacheCreationCost bd + cb_CacheReadCost bd
      in bd\<lparr>cb_TotalCost := total, cb_ActualCost := total * rateMultiplier\<rparr>)"

section \<open>The entry points\<close>

type_synonym cost_result = "(go_error + CostBreakdown) \<times> price_store"

definition calculateCostInternal ::
  "BillingService \<Rightarrow> string \<Rightarrow> UsageTokens \<Rightarrow> rat \<Rightarrow> string \<Rightarrow> ChannelModelPricing option
     \<Rightarrow> price_store \<Rightarrow> cost_result" where
  "calculateCostInternal s model tokens rateMultiplier serviceTier channelPricing h =
     (case (case channelPricing of Some cp \<Rightarrow> GetModelPricingWithChannel s model (Some cp) h
            | None \<Rightarrow> GetModelPricing s model h) of
        (Inl e, h) \<Rightarrow> (Inl e, h)
      | (Inr p, h) \<Rightarrow> (Inr (computeTokenBreakdown (h ! p) tokens rateMultiplier serviceTier True), h))"

definition CalculateCost ::
  "BillingService \<Rightarrow> string \<Rightarrow> UsageTokens \<Rightarrow> rat \<Rightarrow> price_store \<Rightarrow> cost_result" where
  "CalculateCost s model tokens rateMultiplier =
     calculateCostInternal s model tokens rateMultiplier '''' None"

definition CalculateCostWithServiceTier ::
  "BillingService \<Rightarrow> string \<Rightarrow> UsageTokens \<Rightarrow> rat \<Rightarrow> string \<Rightarrow> price_store \<Rightarrow> cost_result" where
  "CalculateCostWithServiceTier s model tokens rateMultiplier serviceTier =
     calculateCostInternal s model tokens rateMultiplier serviceTier None"

definition CalculateCostWithConfig ::
  "BillingService \<Rightarrow> string \<Rightarrow> UsageTokens \<Rightarrow> price_store \<Rightarrow> cost_result" where
  "CalculateCostWithConfig s model tokens =
     (let multiplier = bs_defaultRateMultiplier s;
          multiplier = (if multiplier \<le> 0 then 1 else multiplier)
      in CalculateCost s model tokens multiplier)"

definition GetEstimatedCost ::
  "BillingService \<Rightarrow> string \<Rightarrow> int \<Rightarrow> int \<Rightarrow> price_store \<Rightarrow> (go_error + rat) \<times> price_store" where
  "GetEstimatedCost s model estimatedInputTokens estimatedOutputTokens h =
     (case CalculateCostWithConfig s model
             (no_tokens\<lparr>ut_InputTokens := estimatedInputTokens, ut_OutputTokens := estimatedOutputTokens\<rparr>) h of
        (Inl e, h) \<Rightarrow> (Inl e, h)
      | (Inr breakdown, h) \<Rightarrow> (Inr (cb_ActualCost breakdown), h))"

text \<open>The split of a long request into the tokens within the threshold and those beyond it, and the
  merged cost. The code returns the first part beside the error when only the second part fails; the errors of
  a price lookup are plain ones, whose text is \<open>oe_Error\<close>.\<close>

definition split_long_context :: "UsageTokens \<Rightarrow> int \<Rightarrow> UsageTokens \<times> UsageTokens" where
  "split_long_context tokens threshold =
     (let (inRangeCacheTokens, inRangeInputTokens, outRangeCacheTokens, outRangeInputTokens) =
            (if threshold \<le> ut_CacheReadTokens tokens then
               (threshold, 0, ut_CacheReadTokens tokens - threshold, ut_InputTokens tokens)
             else
               (ut_CacheReadTokens tokens, threshold - ut_CacheReadTokens tokens, 0,
                ut_InputTokens tokens - (threshold - ut_CacheReadTokens tokens)))
      in (no_tokens\<lparr>ut_InputTokens := inRangeInputTokens,
            ut_OutputTokens := ut_OutputTokens tokens,
            ut_CacheCreationTokens := ut_CacheCreationTokens tokens,
            ut_CacheReadTokens := inRangeCacheTokens,
            ut_CacheCreation5mTokens := ut_CacheCreation5mTokens tokens,
            ut_CacheCreation1hTokens := ut_CacheCreation1hTokens tokens,
            ut_ImageOutputTokens := ut_ImageOutputTokens tokens\<rparr>,
          no_tokens\<lparr>ut_InputTokens := outRangeInputTokens, ut_CacheReadTokens := outRangeCacheTokens\<rparr>))"

definition merge_long_context :: "CostBreakdown \<Rightarrow> CostBreakdown \<Rightarrow> CostBreakdown" where
  "merge_long_context inRangeCost outRangeCost =
     no_cost\<lparr>cb_InputCost := cb_InputCost inRangeCost + cb_InputCost outRangeCost,
       cb_OutputCost := cb_OutputCost inRangeCost,
       cb_ImageOutputCost := cb_ImageOutputCost inRangeCost,
       cb_CacheCreationCost := cb_CacheCreationCost inRangeCost,
       cb_CacheReadCost := cb_CacheReadCost inRangeCost + cb_CacheReadCost outRangeCost,
       cb_TotalCost := cb_TotalCost inRangeCost + cb_TotalCost outRangeCost,
       cb_ActualCost := cb_ActualCost inRangeCost + cb_ActualCost outRangeCost\<rparr>"

definition CalculateCostWithLongContext ::
  "BillingService \<Rightarrow> string \<Rightarrow> UsageTokens \<Rightarrow> rat \<Rightarrow> int \<Rightarrow> rat \<Rightarrow> price_store
     \<Rightarrow> (CostBreakdown option \<times> go_error option) \<times> price_store" where
  "CalculateCostWithLongContext s model tokens rateMultiplier threshold extraMultiplier h =
     (if threshold \<le> 0 \<or> extraMultiplier \<le> 1
         \<or> ut_CacheReadTokens tokens + ut_InputTokens tokens \<le> threshold then
        (case CalculateCost s model tokens rateMultiplier h of
           (Inl e, h) \<Rightarrow> ((None, Some e), h) | (Inr bd, h) \<Rightarrow> ((Some bd, None), h))
      else
        let (inRangeTokens, outRangeTokens) = split_long_context tokens threshold
        in case CalculateCost s model inRangeTokens rateMultiplier h of
             (Inl e, h) \<Rightarrow> ((None, Some e), h)
           | (Inr inRangeCost, h) \<Rightarrow>
               (case CalculateCost s model outRangeTokens (rateMultiplier * extraMultiplier) h of
                  (Inl e, h) \<Rightarrow>
                    ((Some inRangeCost,
                      Some (OtherError (''out-range cost: '' @ oe_Error e) (Some e))), h)
                | (Inr outRangeCost, h) \<Rightarrow>
                    ((Some (merge_long_context inRangeCost outRangeCost), None), h)))"

section \<open>The unified entry point\<close>

record CostInput =
  ci_Model :: string
  ci_GroupID :: "int option"
  ci_Tokens :: UsageTokens
  ci_RequestCount :: int
  ci_SizeTier :: string
  ci_RateMultiplier :: rat
  ci_ServiceTier :: string
  ci_Resolver :: "ModelPricingResolver option"
  ci_Resolved :: "ResolvedPricing option"

definition calculateTokenCost :: "ResolvedPricing \<Rightarrow> CostInput \<Rightarrow> price_store \<Rightarrow> cost_result" where
  "calculateTokenCost resolved input h =
     (let totalContext = ut_InputTokens (ci_Tokens input) + ut_CacheReadTokens (ci_Tokens input)
      in case GetIntervalPricing resolved totalContext h of
           (None, h) \<Rightarrow>
             (Inl (OtherError (''no pricing available for model: '' @ ci_Model input @ '': pricing not found'')
                     (Some ErrModelPricingUnavailable)), h)
         | (Some p, h) \<Rightarrow>
             (case applyModelSpecificPricingPolicy (ci_Model input) p h of (p, h) \<Rightarrow>
                let applyLongCtx = (rp_Intervals resolved = [])
                in (Inr (computeTokenBreakdown (h ! p) (ci_Tokens input) (ci_RateMultiplier input)
                           (ci_ServiceTier input) applyLongCtx), h)))"

definition calculatePerRequestCost :: "ResolvedPricing \<Rightarrow> CostInput \<Rightarrow> CostBreakdown" where
  "calculatePerRequestCost resolved input =
     (let count = (if ci_RequestCount input \<le> 0 then 1 else ci_RequestCount input);
          unitPrice = (if ci_SizeTier input \<noteq> '''' then GetRequestTierPrice resolved (ci_SizeTier input) else 0);
          unitPrice = (if unitPrice = 0
                       then GetRequestTierPriceByContext resolved
                              (ut_InputTokens (ci_Tokens input) + ut_CacheReadTokens (ci_Tokens input))
                       else unitPrice);
          unitPrice = (if unitPrice = 0 then rp_DefaultPerRequestPrice resolved else unitPrice);
          totalCost = unitPrice * of_int count
      in no_cost\<lparr>cb_TotalCost := totalCost, cb_ActualCost := totalCost * ci_RateMultiplier input\<rparr>)"

definition dispatch_cost :: "ResolvedPricing \<Rightarrow> CostInput \<Rightarrow> price_store \<Rightarrow> cost_result" where
  "dispatch_cost resolved input h =
     (let input = (if ci_RateMultiplier input < 0 then input\<lparr>ci_RateMultiplier := 0\<rparr> else input)
      in case (if rp_Mode resolved = BillingModePerRequest \<or> rp_Mode resolved = BillingModeImage
               then (Inr (calculatePerRequestCost resolved input), h)
               else calculateTokenCost resolved input h) of
           (Inl e, h) \<Rightarrow> (Inl e, h)
         | (Inr breakdown, h) \<Rightarrow>
             (Inr (breakdown\<lparr>cb_BillingMode :=
                (if rp_Mode resolved = '''' then BillingModeToken else rp_Mode resolved)\<rparr>), h))"

text \<open>\<open>None\<close>: the panic of \<open>Resolve\<close>.\<close>

definition CalculateCostUnified ::
  "BillingService \<Rightarrow> CostInput \<Rightarrow> price_store \<Rightarrow> cost_result option" where
  "CalculateCostUnified s input h =
     (case ci_Resolver input of
        None \<Rightarrow> Some (calculateCostInternal s (ci_Model input) (ci_Tokens input)
                        (ci_RateMultiplier input) (ci_ServiceTier input) None h)
      | Some r \<Rightarrow>
          (case ci_Resolved input of
             Some resolved \<Rightarrow> Some (dispatch_cost resolved input h)
           | None \<Rightarrow>
               (case Resolve r (ci_Model input) (ci_GroupID input) h of
                  None \<Rightarrow> None
                | Some (resolved, h) \<Rightarrow> Some (dispatch_cost resolved input h))))"

section \<open>Supported models and image prices\<close>

text \<open>The order in which Go ranges over the map is the argument \<open>order\<close>, a permutation of its keys.\<close>

definition ListSupportedModels :: "BillingService \<Rightarrow> (string list \<Rightarrow> string list) \<Rightarrow> string list" where
  "ListSupportedModels s order = order (map fst (bs_fallbackPrices s))"

definition IsModelSupported :: "string \<Rightarrow> bool" where
  "IsModelSupported model =
     (let modelLower = to_lower model
      in contains modelLower ''claude'' \<or> contains modelLower ''opus''
         \<or> contains modelLower ''sonnet'' \<or> contains modelLower ''haiku'')"

record ImagePriceConfig =
  ip_Price1K :: "price option"
  ip_Price2K :: "price option"
  ip_Price4K :: "price option"

definition getDefaultImagePrice :: "BillingService \<Rightarrow> string \<Rightarrow> string \<Rightarrow> price" where
  "getDefaultImagePrice s model imageSize =
     (let basePrice = (case dynamic_price s model of
            Some l \<Rightarrow> if 0 < ll_OutputCostPerImage l then ll_OutputCostPerImage l else 0
          | None \<Rightarrow> 0);
          basePrice = (if basePrice \<le> 0 then 134 / 1000 else basePrice)
      in if imageSize = ''2K'' then basePrice * (3 / 2)
         else if imageSize = ''4K'' then basePrice * 2
         else basePrice)"

definition configured_image_price :: "ImagePriceConfig \<Rightarrow> string \<Rightarrow> price option" where
  "configured_image_price groupConfig imageSize =
     (if imageSize = ''1K'' then ip_Price1K groupConfig
      else if imageSize = ''2K'' then ip_Price2K groupConfig
      else if imageSize = ''4K'' then ip_Price4K groupConfig
      else None)"

definition getImageUnitPrice ::
  "BillingService \<Rightarrow> string \<Rightarrow> string \<Rightarrow> ImagePriceConfig option \<Rightarrow> price" where
  "getImageUnitPrice s model imageSize groupConfig =
     (case (case groupConfig of None \<Rightarrow> None | Some c \<Rightarrow> configured_image_price c imageSize) of
        Some price \<Rightarrow> price
      | None \<Rightarrow> getDefaultImagePrice s model imageSize)"

definition CalculateImageCost ::
  "BillingService \<Rightarrow> string \<Rightarrow> string \<Rightarrow> int \<Rightarrow> ImagePriceConfig option \<Rightarrow> rat \<Rightarrow> CostBreakdown" where
  "CalculateImageCost s model imageSize imageCount groupConfig rateMultiplier =
     (if imageCount \<le> 0 then no_cost
      else
        let imageSize = NormalizeImageBillingTierOrDefault imageSize;
            unitPrice = getImageUnitPrice s model imageSize groupConfig;
            totalCost = unitPrice * of_int imageCount;
            rateMultiplier = (if rateMultiplier < 0 then 0 else rateMultiplier)
        in no_cost\<lparr>cb_TotalCost := totalCost, cb_ActualCost := totalCost * rateMultiplier,
                   cb_BillingMode := BillingModeImage\<rparr>)"

section \<open>Prices in good order\<close>

text \<open>No price is negative, and a long-context rule that is in force lowers none.\<close>

definition good_price :: "ModelPricing \<Rightarrow> bool" where
  "good_price v =
     (list_all (\<lambda>x. 0 \<le> x)
        [mp_InputPricePerToken v, mp_InputPricePerTokenPriority v, mp_ImageInputPricePerToken v,
         mp_OutputPricePerToken v, mp_OutputPricePerTokenPriority v, mp_CacheCreationPricePerToken v,
         mp_CacheReadPricePerToken v, mp_CacheReadPricePerTokenPriority v, mp_CacheCreation5mPrice v,
         mp_CacheCreation1hPrice v, mp_ImageOutputPricePerToken v]
      \<and> (mp_LongContextInputMultiplier v \<le> 0 \<or> 1 \<le> mp_LongContextInputMultiplier v)
      \<and> (mp_LongContextOutputMultiplier v \<le> 0 \<or> 1 \<le> mp_LongContextOutputMultiplier v)
      \<and> (0 < mp_LongContextInputThreshold v \<longrightarrow>
           mp_LongContextInputMultiplier v \<le> 1 \<and> mp_LongContextOutputMultiplier v \<le> 1
           \<or> 1 \<le> mp_LongContextInputMultiplier v \<and> 1 \<le> mp_LongContextOutputMultiplier v))"

lemma fallback_prices_good: "list_all good_price (snd initFallbackPricing)"
  by code_simp

lemma good_policy: "good_price v \<Longrightarrow> good_price (policy_value model v)"
  by (auto simp: good_price_def policy_value_def with_gpt54_policy_def
      openAIGPT54LongContextInputMultiplier_def openAIGPT54LongContextOutputMultiplier_def)

lemma good_model_value:
  assumes "NewBillingService rm ps = (s, h)"
    and "\<And>l. dynamic_price s (to_lower model) = Some l \<Longrightarrow> good_price (litellm_price l)"
    and "model_value s h model = Some v"
  shows "good_price v"
proof -
  have "getFallbackPricing s model = Some p \<Longrightarrow> good_price (h ! p)" for p
    using fallback_prices_good getFallbackPricing_valid [OF NewBillingService_in [OF assms(1)]]
      NewBillingService_table [OF assms(1)]
    by (simp add: list_all_length)
  with assms(2,3) show ?thesis
    by (auto simp: model_value_def good_policy split: option.splits)
qed

section \<open>The parts of a cost\<close>

definition usage_ok :: "UsageTokens \<Rightarrow> bool" where
  "usage_ok t = list_all (\<lambda>n. 0 \<le> n)
     [ut_InputTokens t, ut_ImageInputTokens t, ut_OutputTokens t, ut_CacheCreationTokens t,
      ut_CacheReadTokens t, ut_CacheCreation5mTokens t, ut_CacheCreation1hTokens t, ut_ImageOutputTokens t]"

definition prices_nonneg :: "unit_prices \<Rightarrow> bool" where
  "prices_nonneg u = (0 \<le> up_input u \<and> 0 \<le> up_output u \<and> 0 \<le> up_cacheRead u
     \<and> 0 \<le> up_cacheCreationMultiplier u \<and> 0 \<le> up_tierMultiplier u)"

abbreviation effective_prices :: "ModelPricing \<Rightarrow> UsageTokens \<Rightarrow> string \<Rightarrow> bool \<Rightarrow> unit_prices" where
  "effective_prices v t tier long \<equiv> context_prices v t long (tier_prices v tier)"

lemma tier_multiplier_nonneg: "0 \<le> serviceTierCostMultiplier tier"
  by (simp add: serviceTierCostMultiplier_def Let_def)

lemma tier_prices_nonneg: "good_price v \<Longrightarrow> prices_nonneg (tier_prices v tier)"
  by (simp add: good_price_def prices_nonneg_def tier_prices_def Let_def tier_multiplier_nonneg)

lemma long_context_multipliers:
  "good_price v \<Longrightarrow> shouldApplySessionLongContextPricing t v
     \<Longrightarrow> 1 \<le> mp_LongContextInputMultiplier v \<and> 1 \<le> mp_LongContextOutputMultiplier v"
  by (auto simp: good_price_def shouldApplySessionLongContextPricing_def split: if_splits)

lemma effective_prices_nonneg: "good_price v \<Longrightarrow> prices_nonneg (effective_prices v t tier long)"
  using tier_prices_nonneg [of v tier] long_context_multipliers [of v t]
  by (auto simp: prices_nonneg_def context_prices_def)

lemma context_prices_tier [simp]: "up_tierMultiplier (context_prices v t long u) = up_tierMultiplier u"
  by (simp add: context_prices_def)

text \<open>Every part of the breakdown is the tier factor times its base cost; when the factor is 1 the code
  skips the multiplication.\<close>

lemma breakdown_parts:
  fixes v t rate tier long
  defines "u \<equiv> effective_prices v t tier long" and "bd \<equiv> computeTokenBreakdown v t rate tier long"
  shows "cb_InputCost bd = input_cost v t (up_input u) * up_tierMultiplier u"
    and "cb_OutputCost bd = output_cost t (up_output u) * up_tierMultiplier u"
    and "cb_ImageOutputCost bd = image_output_cost v t (up_output u) * up_tierMultiplier u"
    and "cb_CacheCreationCost bd
           = computeCacheCreationCost v t (up_cacheCreationMultiplier u) * up_tierMultiplier u"
    and "cb_CacheReadCost bd = of_int (ut_CacheReadTokens t) * up_cacheRead u * up_tierMultiplier u"
    and "cb_TotalCost bd = cb_InputCost bd + cb_OutputCost bd + cb_ImageOutputCost bd
           + cb_CacheCreationCost bd + cb_CacheReadCost bd"
    and "cb_ActualCost bd = cb_TotalCost bd * max 0 rate"
  by (simp_all add: u_def bd_def computeTokenBreakdown_def Let_def)

lemma input_cost_nonneg: "good_price v \<Longrightarrow> usage_ok t \<Longrightarrow> 0 \<le> p \<Longrightarrow> 0 \<le> input_cost v t p"
  by (auto simp: input_cost_def good_price_def usage_ok_def Let_def)

lemma output_cost_nonneg: "0 \<le> p \<Longrightarrow> 0 \<le> output_cost t p"
  by (simp add: output_cost_def Let_def)

lemma image_output_cost_nonneg: "good_price v \<Longrightarrow> 0 \<le> p \<Longrightarrow> 0 \<le> image_output_cost v t p"
  by (auto simp: image_output_cost_def good_price_def Let_def)

lemma cache_creation_cost_nonneg:
  "good_price v \<Longrightarrow> usage_ok t \<Longrightarrow> 0 \<le> m \<Longrightarrow> 0 \<le> computeCacheCreationCost v t m"
  by (auto simp: computeCacheCreationCost_def good_price_def usage_ok_def)

text \<open>The breakdown of a token cost adds up: for prices in good order and a usage without negative
  counts no part is negative, the total is the sum of the five parts and the amount charged is the
  total times the rate multiplier, where a negative multiplier charges nothing.\<close>

lemma token_cost_sound:
  assumes "good_price v" "usage_ok t"
  shows "let bd = computeTokenBreakdown v t rate tier long in
         0 \<le> cb_InputCost bd \<and> 0 \<le> cb_OutputCost bd \<and> 0 \<le> cb_ImageOutputCost bd
         \<and> 0 \<le> cb_CacheCreationCost bd \<and> 0 \<le> cb_CacheReadCost bd
         \<and> cb_TotalCost bd = cb_InputCost bd + cb_OutputCost bd + cb_ImageOutputCost bd
             + cb_CacheCreationCost bd + cb_CacheReadCost bd
         \<and> cb_ActualCost bd = cb_TotalCost bd * max 0 rate \<and> 0 \<le> cb_ActualCost bd"
proof -
  have u: "prices_nonneg (effective_prices v t tier long)" using effective_prices_nonneg [OF assms(1)] .
  have "0 \<le> ut_CacheReadTokens t" using assms(2) by (simp add: usage_ok_def)
  then show ?thesis
    using u input_cost_nonneg [OF assms(1,2)] output_cost_nonneg [of _ t]
      image_output_cost_nonneg [OF assms(1)] cache_creation_cost_nonneg [OF assms(1,2)]
    unfolding Let_def by (simp add: breakdown_parts prices_nonneg_def)
qed

section \<open>More usage never costs less\<close>

text \<open>A usage grows when its input, output or cache-read tokens do.\<close>

definition usage_le :: "UsageTokens \<Rightarrow> UsageTokens \<Rightarrow> bool" where
  "usage_le t t' = (\<exists>i out c. ut_InputTokens t \<le> i \<and> ut_OutputTokens t \<le> out \<and> ut_CacheReadTokens t \<le> c
     \<and> t' = t\<lparr>ut_InputTokens := i, ut_OutputTokens := out, ut_CacheReadTokens := c\<rparr>)"

definition prices_le :: "unit_prices \<Rightarrow> unit_prices \<Rightarrow> bool" where
  "prices_le u u' = (up_input u \<le> up_input u' \<and> up_output u \<le> up_output u' \<and> up_cacheRead u \<le> up_cacheRead u'
     \<and> up_cacheCreationMultiplier u \<le> up_cacheCreationMultiplier u'
     \<and> up_tierMultiplier u = up_tierMultiplier u')"

lemma long_context_mono:
  "usage_le t t' \<Longrightarrow> shouldApplySessionLongContextPricing t v \<Longrightarrow> shouldApplySessionLongContextPricing t' v"
  by (auto simp: usage_le_def shouldApplySessionLongContextPricing_def split: if_splits)

lemma tier_prices_cache_creation [simp]: "up_cacheCreationMultiplier (tier_prices v tier) = 1"
  by (simp add: tier_prices_def Let_def)

lemma raised_le: "0 \<le> x \<Longrightarrow> 1 \<le> m \<Longrightarrow> x \<le> x * (m :: rat)"
  using mult_left_mono [of 1 m x] by simp

lemma effective_prices_mono:
  assumes "good_price v" "usage_le t t'"
  shows "prices_le (effective_prices v t tier long) (effective_prices v t' tier long)"
  using tier_prices_nonneg [OF assms(1), of tier] long_context_multipliers [OF assms(1), of t']
    long_context_mono [OF assms(2), of v]
  by (auto simp: prices_le_def context_prices_def prices_nonneg_def raised_le)

lemma scaled_mono: "a \<le> b \<Longrightarrow> p \<le> q \<Longrightarrow> 0 \<le> a \<Longrightarrow> 0 \<le> p \<Longrightarrow> of_int a * p \<le> (of_int b * q :: rat)"
  by (intro mult_mono) auto

lemma input_cost_mono:
  assumes "good_price v" "usage_ok t" "usage_le t t'" "p \<le> q" "0 \<le> p"
  shows "input_cost v t p \<le> input_cost v t' q"
proof -
  have img: "ut_ImageInputTokens t' = ut_ImageInputTokens t" "ut_InputTokens t \<le> ut_InputTokens t'"
    "0 \<le> ut_InputTokens t" "0 \<le> ut_ImageInputTokens t"
    using assms(2,3) by (auto simp: usage_le_def usage_ok_def)
  have pos: "0 \<le> mp_ImageInputPricePerToken v" using assms(1) by (simp add: good_price_def)
  define ip where "ip x = (if mp_ImageInputPricePerToken v = 0 then x else mp_ImageInputPricePerToken v)" for x
  have ip: "ip p \<le> ip q" "0 \<le> ip p" using assms(4,5) pos by (auto simp: ip_def)
  have eq: "input_cost v t x = of_int (max 0 (ut_InputTokens t - ut_ImageInputTokens t)) * x
      + of_int (min (ut_InputTokens t) (ut_ImageInputTokens t)) * ip x"
    if "0 \<le> ut_ImageInputTokens t" "0 \<le> ut_InputTokens t" for t x
    using that by (auto simp: input_cost_def ip_def Let_def max_def min_def)
  show ?thesis
    using img assms(4,5) ip by (simp add: eq add_mono scaled_mono)
qed

lemma output_cost_max: "output_cost t p = of_int (max 0 (ut_OutputTokens t - ut_ImageOutputTokens t)) * p"
  by (auto simp: output_cost_def Let_def max_def)

lemma output_cost_mono:
  assumes "usage_le t t'" "p \<le> q" "0 \<le> p"
  shows "output_cost t p \<le> output_cost t' q"
  unfolding output_cost_max using assms by (intro scaled_mono) (auto simp: usage_le_def)

lemma image_output_cost_mono:
  "usage_le t t' \<Longrightarrow> p \<le> q \<Longrightarrow> image_output_cost v t p \<le> image_output_cost v t' q"
  by (auto simp: image_output_cost_def usage_le_def Let_def)

lemma cache_creation_cost_scale: "computeCacheCreationCost v t m = computeCacheCreationCost v t 1 * m"
  unfolding computeCacheCreationCost_def by (auto simp: algebra_simps)

lemma cache_creation_cost_mono:
  assumes "good_price v" "usage_ok t" "usage_le t t'" "m \<le> m'"
  shows "computeCacheCreationCost v t m \<le> computeCacheCreationCost v t' m'"
proof -
  have "computeCacheCreationCost v t' 1 = computeCacheCreationCost v t 1"
    using assms(3) by (auto simp: usage_le_def computeCacheCreationCost_def)
  then show ?thesis
    using cache_creation_cost_nonneg [OF assms(1,2), of 1] assms(4)
    by (simp add: cache_creation_cost_scale [of v _ m] cache_creation_cost_scale [of v _ m'] mult_left_mono)
qed

lemma token_cost_mono:
  assumes "good_price v" "usage_ok t" "usage_le t t'"
  shows "cb_ActualCost (computeTokenBreakdown v t rate tier long)
           \<le> cb_ActualCost (computeTokenBreakdown v t' rate tier long)"
proof -
  let ?u = "effective_prices v t tier long" and ?u' = "effective_prices v t' tier long"
  have n: "prices_nonneg ?u" and le: "prices_le ?u ?u'"
    using effective_prices_nonneg [OF assms(1)] effective_prices_mono [OF assms(1,3)] by auto
  have c: "0 \<le> ut_CacheReadTokens t" "ut_CacheReadTokens t \<le> ut_CacheReadTokens t'"
    using assms(2,3) by (auto simp: usage_le_def usage_ok_def)
  note parts = input_cost_mono [OF assms] output_cost_mono [OF assms(3)] image_output_cost_mono [OF assms(3)]
    cache_creation_cost_mono [OF assms] scaled_mono [OF c(2)]
  have "cb_TotalCost (computeTokenBreakdown v t rate tier long)
          \<le> cb_TotalCost (computeTokenBreakdown v t' rate tier long)"
    using n le c by (simp add: breakdown_parts prices_nonneg_def prices_le_def add_mono mult_right_mono parts)
  then show ?thesis by (simp add: breakdown_parts(7) mult_right_mono)
qed

lemma CalculateCost_value:
  assumes "service_in s h" "calculateCostInternal s model t rate tier None h = (res, h')"
  shows "case res of Inl e \<Rightarrow> model_value s h model = None
         | Inr bd \<Rightarrow> \<exists>v. model_value s h model = Some v \<and> bd = computeTokenBreakdown v t rate tier True"
    and "\<exists>vs. h' = h @ vs"
proof -
  obtain r h1 where g: "GetModelPricing s model h = (r, h1)" by (metis surj_pair)
  note spec = GetModelPricing_spec [OF g assms(1)]
  show "case res of Inl e \<Rightarrow> model_value s h model = None
         | Inr bd \<Rightarrow> \<exists>v. model_value s h model = Some v \<and> bd = computeTokenBreakdown v t rate tier True"
    using spec assms(2) g by (cases r) (auto simp: calculateCostInternal_def)
  show "\<exists>vs. h' = h @ vs"
    using spec assms(2) g by (cases r) (auto simp: calculateCostInternal_def)
qed

text \<open>More usage never costs less. With a billing service fresh from its constructor, whose dynamic
  price for the model, if it has one, is in good order, the amount charged for a model never falls when
  input, output or cache-read tokens grow, at any service tier, even across the threshold at which the
  long-context prices set in. The prices of the built-in table are all in good order.\<close>

lemma more_usage_costs_more:
  assumes "NewBillingService rm ps = (s, h)"
    and "\<And>l. dynamic_price s (to_lower model) = Some l \<Longrightarrow> good_price (litellm_price l)"
    and "usage_ok t" "usage_le t t'"
    and "CalculateCostWithServiceTier s model t rate tier h = (Inr bd, h1)"
    and "CalculateCostWithServiceTier s model t' rate tier h = (Inr bd', h2)"
  shows "cb_ActualCost bd \<le> cb_ActualCost bd'"
proof -
  note inn = NewBillingService_in [OF assms(1)]
  obtain v where v: "model_value s h model = Some v" "bd = computeTokenBreakdown v t rate tier True"
    using CalculateCost_value(1) [OF inn assms(5) [unfolded CalculateCostWithServiceTier_def]] by auto
  moreover have "bd' = computeTokenBreakdown v t' rate tier True"
    using CalculateCost_value(1) [OF inn assms(6) [unfolded CalculateCostWithServiceTier_def]] v(1) by auto
  ultimately show ?thesis
    using token_cost_mono [OF good_model_value [OF assms(1) assms(2)] assms(3,4)] by blast
qed

lemma priced_breakdown:
  assumes "NewBillingService rm ps = (s, h)"
    and "\<And>l. dynamic_price s (to_lower model) = Some l \<Longrightarrow> good_price (litellm_price l)"
    and "usage_ok t" "CalculateCostWithServiceTier s model t rate tier h = (Inr bd, h1)"
  shows "0 \<le> cb_TotalCost bd \<and> cb_ActualCost bd = cb_TotalCost bd * max 0 rate"
proof -
  obtain v where v: "model_value s h model = Some v" "bd = computeTokenBreakdown v t rate tier True"
    using CalculateCost_value(1) [OF NewBillingService_in [OF assms(1)] assms(4) [unfolded CalculateCostWithServiceTier_def]]
    by auto
  then show ?thesis
    using token_cost_sound [OF good_model_value [OF assms(1,2) v(1)] assms(3), of rate tier True]
    by (simp add: Let_def)
qed

lemma demo_new: "NewBillingService 1 None = (demo_service None, snd initFallbackPricing)"
  by (simp add: demo_service_def NewBillingService_def case_prod_beta)

lemma demo_priced:
  "\<exists>bd h'. CalculateCostWithServiceTier (demo_service None) ''gpt-5.4'' t rate tier (snd initFallbackPricing)
     = (Inr bd, h')"
proof -
  have "fallback_key ''gpt-5.4'' = Some ''gpt-5.4''" by code_simp
  moreover obtain p where "map_of (fst initFallbackPricing) ''gpt-5.4'' = Some p"
    using fallback_keys_declared by (auto simp: list_all_iff fallback_keys_def openai_fallback_keys_def)
  ultimately have fb: "getFallbackPricing (demo_service None) ''gpt-5.4'' = Some p" by (simp add: demo_fallback)
  obtain res h' where c: "calculateCostInternal (demo_service None) ''gpt-5.4'' t rate tier None
    (snd initFallbackPricing) = (res, h')" by (metis surj_pair)
  have "model_value (demo_service None) (snd initFallbackPricing) ''gpt-5.4'' \<noteq> None"
    by (simp add: model_value_def demo_dynamic fb)
  with CalculateCost_value(1) [OF demo_service_in c] c show ?thesis
    by (auto simp: CalculateCostWithServiceTier_def split: sum.splits)
qed

section \<open>The long-context split\<close>

lemma normalize_no_tier: "normalizeBillingServiceTier '''' = ''''"
  by code_simp

lemma plain_prices:
  assumes "mp_LongContextInputThreshold v \<le> 0"
  shows "effective_prices v t '''' long
           = \<lparr>up_input = mp_InputPricePerToken v, up_output = mp_OutputPricePerToken v,
              up_cacheRead = mp_CacheReadPricePerToken v, up_cacheCreationMultiplier = 1, up_tierMultiplier = 1\<rparr>"
  using assms
  by (simp add: context_prices_def tier_prices_def shouldApplySessionLongContextPricing_def
      usePriorityServiceTierPricing_def serviceTierCostMultiplier_def normalize_no_tier)

lemma plain_total:
  assumes "mp_LongContextInputThreshold v \<le> 0" "ut_ImageInputTokens t \<le> 0"
  shows "cb_TotalCost (computeTokenBreakdown v t rate '''' long)
           = of_int (ut_InputTokens t) * mp_InputPricePerToken v + output_cost t (mp_OutputPricePerToken v)
             + image_output_cost v t (mp_OutputPricePerToken v) + computeCacheCreationCost v t 1
             + of_int (ut_CacheReadTokens t) * mp_CacheReadPricePerToken v"
  using assms(2) by (simp add: breakdown_parts plain_prices [OF assms(1)] input_cost_def)

lemma costs_ignore_input [simp]:
  "output_cost (t\<lparr>ut_InputTokens := a\<rparr>) p = output_cost t p"
  "output_cost (t\<lparr>ut_ImageInputTokens := a\<rparr>) p = output_cost t p"
  "output_cost (t\<lparr>ut_CacheReadTokens := a\<rparr>) p = output_cost t p"
  "image_output_cost v (t\<lparr>ut_InputTokens := a\<rparr>) p = image_output_cost v t p"
  "image_output_cost v (t\<lparr>ut_ImageInputTokens := a\<rparr>) p = image_output_cost v t p"
  "image_output_cost v (t\<lparr>ut_CacheReadTokens := a\<rparr>) p = image_output_cost v t p"
  "computeCacheCreationCost v (t\<lparr>ut_InputTokens := a\<rparr>) m = computeCacheCreationCost v t m"
  "computeCacheCreationCost v (t\<lparr>ut_ImageInputTokens := a\<rparr>) m = computeCacheCreationCost v t m"
  "computeCacheCreationCost v (t\<lparr>ut_CacheReadTokens := a\<rparr>) m = computeCacheCreationCost v t m"
  by (cases t; simp only: output_cost_def image_output_cost_def computeCacheCreationCost_def UsageTokens.simps)+

lemma costs_no_tokens [simp]:
  "output_cost no_tokens p = 0" "image_output_cost v no_tokens p = 0" "computeCacheCreationCost v no_tokens m = 0"
  by (simp_all add: output_cost_def image_output_cost_def computeCacheCreationCost_def no_tokens_def)

text \<open>The tokens beyond the threshold, when the cache reads fill the range first.\<close>

definition cache_beyond :: "UsageTokens \<Rightarrow> int \<Rightarrow> int" where
  "cache_beyond t threshold = max 0 (ut_CacheReadTokens t - threshold)"

definition input_beyond :: "UsageTokens \<Rightarrow> int \<Rightarrow> int" where
  "input_beyond t threshold = ut_CacheReadTokens t + ut_InputTokens t - threshold - cache_beyond t threshold"

lemma split_long_context_eq:
  "split_long_context t threshold =
     (t\<lparr>ut_InputTokens := ut_InputTokens t - input_beyond t threshold, ut_ImageInputTokens := 0,
        ut_CacheReadTokens := ut_CacheReadTokens t - cache_beyond t threshold\<rparr>,
      no_tokens\<lparr>ut_InputTokens := input_beyond t threshold, ut_CacheReadTokens := cache_beyond t threshold\<rparr>)"
  by (simp add: split_long_context_def input_beyond_def cache_beyond_def no_tokens_def)

lemma CalculateCost_priced:
  assumes "service_in s h" "model_value s h model = Some v"
  shows "\<exists>vs. CalculateCost s model t rate h = (Inr (computeTokenBreakdown v t rate '''' True), h @ vs)"
proof -
  obtain res h' where c: "calculateCostInternal s model t rate '''' None h = (res, h')" by (metis surj_pair)
  from CalculateCost_value [OF assms(1) c] assms(2) c show ?thesis
    by (auto simp: CalculateCost_def split: sum.splits)
qed

lemma model_value_append: "service_in s h \<Longrightarrow> model_value s (h @ vs) model = model_value s h model"
  by (rule model_value_cong) (auto simp: nth_append)

lemma CalculateCostWithLongContext_split:
  assumes "service_in s h" "model_value s h model = Some v" "0 < threshold" "1 < extra"
    and "threshold < ut_CacheReadTokens t + ut_InputTokens t"
  shows "fst (CalculateCostWithLongContext s model t rate threshold extra h) =
     (case split_long_context t threshold of (i, out) \<Rightarrow>
        (Some (merge_long_context (computeTokenBreakdown v i rate '''' True)
                 (computeTokenBreakdown v out (rate * extra) '''' True)), None))"
proof -
  obtain i out where sp: "split_long_context t threshold = (i, out)" by (metis surj_pair)
  obtain vs where i: "CalculateCost s model i rate h = (Inr (computeTokenBreakdown v i rate '''' True), h @ vs)"
    using CalculateCost_priced [OF assms(1,2)] by blast
  have "service_in s (h @ vs)" "model_value s (h @ vs) model = Some v"
    using service_in_mono [OF assms(1)] model_value_append [OF assms(1)] assms(2) by auto
  then obtain ws where "CalculateCost s model out (rate * extra) (h @ vs)
      = (Inr (computeTokenBreakdown v out (rate * extra) '''' True), (h @ vs) @ ws)"
    using CalculateCost_priced by blast
  with i sp assms(3-5) show ?thesis by (simp add: CalculateCostWithLongContext_def)
qed

lemma max_0_scale: "1 < extra \<Longrightarrow> max 0 (rate * extra) = max 0 rate * (extra :: rat)"
  by (simp add: max_def mult_le_0_iff zero_le_mult_iff)

text \<open>C21: The long-context split charges what its comment promises. For a priced model without a session-wide
  long-context threshold (every model but GPT-5.4 and those a price list gives one) and a usage without image input
  tokens, with a positive threshold that the input and cache reads exceed and a multiplier above one, the list price is
  the one of the whole usage, and the amount charged is the ordinary one plus \<open>extraMultiplier - 1\<close> times the price
  of the tokens beyond the threshold, the cache reads filling the range first.\<close>

theorem long_context_formula:
  assumes "service_in s h" "model_value s h model = Some v"
    and "CalculateCost s model t rate h = (Inr base, h1)"
    and "mp_LongContextInputThreshold v \<le> 0" "ut_ImageInputTokens t \<le> 0"
    and "0 < threshold" "1 < extra" "threshold < ut_CacheReadTokens t + ut_InputTokens t"
  shows "\<exists>bd. fst (CalculateCostWithLongContext s model t rate threshold extra h) = (Some bd, None)
           \<and> cb_TotalCost bd = cb_TotalCost base
           \<and> cb_ActualCost bd = cb_ActualCost base + max 0 rate * (extra - 1)
               * (of_int (input_beyond t threshold) * mp_InputPricePerToken v
                  + of_int (cache_beyond t threshold) * mp_CacheReadPricePerToken v)"
proof -
  let ?bi = "of_int (input_beyond t threshold) * mp_InputPricePerToken v"
  let ?bc = "of_int (cache_beyond t threshold) * mp_CacheReadPricePerToken v"
  obtain i out where sp: "split_long_context t threshold = (i, out)" by (metis surj_pair)
  have base: "base = computeTokenBreakdown v t rate '''' True"
    using CalculateCost_priced [OF assms(1,2), of t rate] assms(3) by auto
  have split: "i = t\<lparr>ut_InputTokens := ut_InputTokens t - input_beyond t threshold, ut_ImageInputTokens := 0,
      ut_CacheReadTokens := ut_CacheReadTokens t - cache_beyond t threshold\<rparr>"
    "out = no_tokens\<lparr>ut_InputTokens := input_beyond t threshold, ut_CacheReadTokens := cache_beyond t threshold\<rparr>"
    using sp by (simp_all add: split_long_context_eq)
  have img: "ut_ImageInputTokens i \<le> 0" "ut_ImageInputTokens out \<le> 0"
    by (simp_all add: split no_tokens_def)
  have tin: "cb_TotalCost (computeTokenBreakdown v i rate '''' True) = cb_TotalCost base - ?bi - ?bc"
    unfolding base plain_total [OF assms(4) img(1)] plain_total [OF assms(4,5)]
    by (simp add: split(1) left_diff_distrib)
  have tout: "cb_TotalCost (computeTokenBreakdown v out (rate * extra) '''' True) = ?bi + ?bc"
    unfolding plain_total [OF assms(4) img(2)] by (simp add: split(2))
  have act: "cb_ActualCost base = cb_TotalCost base * max 0 rate"
    unfolding base by (rule breakdown_parts(7))
  show ?thesis
    unfolding CalculateCostWithLongContext_split [OF assms(1,2,6-8)] sp
    by (simp add: merge_long_context_def tin tout breakdown_parts(7) act max_0_scale [OF assms(7)])
      (simp add: algebra_simps)
qed

lemma gemini_price:
  "let v = snd initFallbackPricing ! the (map_of (fst initFallbackPricing) ''gemini-3.1-pro'');
       base = computeTokenBreakdown v (no_tokens\<lparr>ut_InputTokens := 10, ut_CacheReadTokens := 210\<rparr>) 1 '''' True
   in mp_LongContextInputThreshold v \<le> 0 \<and> mp_InputPricePerToken v = 2 / 10 ^ 6 \<and> mp_CacheReadPricePerToken v = 2 / 10 ^ 7
     \<and> cb_TotalCost base = 62 / 10 ^ 6 \<and> cb_ActualCost base = 62 / 10 ^ 6"
  by code_simp

text \<open>Ten input tokens and 210 cached ones of gemini-3.1-pro cost 62 millionths; ten of each lie beyond 200, and doubling
  their price adds 22 millionths.\<close>

theorem long_context_formula_witness:
  "\<exists>bd. fst (CalculateCostWithLongContext (demo_service None) ''gemini-3.1-pro''
       (no_tokens\<lparr>ut_InputTokens := 10, ut_CacheReadTokens := 210\<rparr>) 1 200 2 (snd initFallbackPricing))
     = (Some bd, None) \<and> cb_TotalCost bd = 62 / 10 ^ 6 \<and> cb_ActualCost bd = 84 / 10 ^ 6"
proof -
  let ?t = "no_tokens\<lparr>ut_InputTokens := 10, ut_CacheReadTokens := 210\<rparr>"
  have key: "fallback_key ''gemini-3.1-pro'' = Some ''gemini-3.1-pro''" by code_simp
  have pol: "policy_value (to_lower ''gemini-3.1-pro'') = (\<lambda>v. v)"
    unfolding policy_value_def by (subst if_not_P, code_simp) simp
  obtain p where p: "map_of (fst initFallbackPricing) ''gemini-3.1-pro'' = Some p"
    using fallback_keys_declared by (auto simp: list_all_iff fallback_keys_def fallback_rules_def)
  then have fb: "getFallbackPricing (demo_service None) ''gemini-3.1-pro'' = Some p" by (simp add: demo_fallback key)
  let ?v = "snd initFallbackPricing ! p" and ?base = "computeTokenBreakdown (snd initFallbackPricing ! p) ?t 1 '''' True"
  have price: "mp_LongContextInputThreshold ?v \<le> 0" "mp_InputPricePerToken ?v = 2 / 10 ^ 6" "mp_CacheReadPricePerToken ?v = 2 / 10 ^ 7"
    "cb_TotalCost ?base = 62 / 10 ^ 6" "cb_ActualCost ?base = 62 / 10 ^ 6"
    using gemini_price p by (simp_all only: Let_def option.sel)
  have v: "model_value (demo_service None) (snd initFallbackPricing) ''gemini-3.1-pro'' = Some ?v"
    unfolding model_value_def pol by (simp add: demo_dynamic fb option.map_id [unfolded id_def])
  obtain vs where c: "CalculateCost (demo_service None) ''gemini-3.1-pro'' ?t 1 (snd initFallbackPricing)
      = (Inr ?base, snd initFallbackPricing @ vs)"
    using CalculateCost_priced [OF demo_service_in v] by blast
  have range: "ut_ImageInputTokens ?t \<le> 0" "(0::int) < 200" "(1::rat) < 2" "200 < ut_CacheReadTokens ?t + ut_InputTokens ?t"
    "input_beyond ?t 200 = 10" "cache_beyond ?t 200 = 10"
    by (simp_all add: no_tokens_def input_beyond_def cache_beyond_def)
  show ?thesis
    using long_context_formula [OF demo_service_in v c price(1) range(1-4)] unfolding price range by simp
qed

section \<open>The unified path agrees with the old one\<close>

lemma policy_value_idem: "policy_value m (policy_value m v) = policy_value m v"
  by (auto simp: policy_value_def with_gpt54_policy_def openAIGPT54LongContextInputThreshold_def
      openAIGPT54LongContextInputMultiplier_def openAIGPT54LongContextOutputMultiplier_def)

lemma model_value_policy: "model_value s h m = Some v \<Longrightarrow> \<exists>w. v = policy_value (to_lower m) w"
  by (auto simp: model_value_def)

text \<open>The unified entry point agrees with the path it replaces. For a request without a group, so
  without a channel price, and a model name in lower case, \<open>CalculateCostUnified\<close> succeeds exactly when
  \<open>CalculateCostWithServiceTier\<close> does and returns the same breakdown, with the billing mode filled in.\<close>

lemma unified_agrees:
  assumes "service_in s h" "ci_Resolver input = Some r" "mr_billingService r = s"
    and "ci_Resolved input = None" "ci_GroupID input = None" "to_lower (ci_Model input) = ci_Model input"
  shows "\<exists>res h'. CalculateCostUnified s input h = Some (res, h')
           \<and> (case CalculateCostWithServiceTier s (ci_Model input) (ci_Tokens input) (ci_RateMultiplier input)
                     (ci_ServiceTier input) h of
                (Inl e, h1) \<Rightarrow> (\<exists>e'. res = Inl e' \<and> oe_Unwrap e' = Some ErrModelPricingUnavailable)
              | (Inr bd, h1) \<Rightarrow> res = Inr (bd\<lparr>cb_BillingMode := BillingModeToken\<rparr>))"
proof -
  obtain base source h1 where b: "resolveBasePricing r (ci_Model input) h = ((base, source), h1)" by (metis surj_pair)
  note spec = resolveBasePricing_cases [OF b] assms(1,3)
  have unif: "CalculateCostUnified s input h = Some (dispatch_cost (blank_resolved\<lparr>rp_Mode := BillingModeToken,
      rp_BasePricing := base, rp_Source := source, rp_SupportsCacheBreakdown :=
        (case base of None \<Rightarrow> False | Some p \<Rightarrow> mp_SupportsCacheBreakdown (h1 ! p))\<rparr>) input h1)"
    using assms(2,4,5) by (simp add: CalculateCostUnified_def Resolve_def b)
  obtain old h2 where old: "calculateCostInternal s (ci_Model input) (ci_Tokens input) (ci_RateMultiplier input)
      (ci_ServiceTier input) None h = (old, h2)" by (metis surj_pair)
  note oldv = CalculateCost_value(1) [OF assms(1) old]
  have modes: "BillingModeToken \<noteq> BillingModePerRequest" "BillingModeToken \<noteq> BillingModeImage" "BillingModeToken \<noteq> ''''"
    by (simp_all add: BillingModeToken_def BillingModePerRequest_def BillingModeImage_def)
  show ?thesis
  proof (cases base)
    case None
    then have "model_value s h (ci_Model input) = None" using spec by simp
    then obtain e where "old = Inl e" using oldv by (cases old) auto
    with None modes unif old show ?thesis
      by (auto simp: dispatch_cost_def calculateTokenCost_def GetIntervalPricing_def blank_resolved_def
          CalculateCostWithServiceTier_def Let_def)
  next
    case (Some p)
    then have p: "p < length h1" "model_value s h (ci_Model input) = Some (h1 ! p)" using spec by simp_all
    then have bd: "old = Inr (computeTokenBreakdown (h1 ! p) (ci_Tokens input) (ci_RateMultiplier input)
        (ci_ServiceTier input) True)" using oldv by (cases old) auto
    obtain w where w: "h1 ! p = policy_value (ci_Model input) w"
      using model_value_policy [OF p(2)] assms(6) by auto
    obtain q h3 where pol: "applyModelSpecificPricingPolicy (ci_Model input) p h1 = (q, h3)" by (metis surj_pair)
    have "h3 ! q = h1 ! p" using policy_cases(2) [OF pol p(1)] w by (simp add: policy_value_idem)
    with Some bd modes unif old pol show ?thesis
      by (auto simp: dispatch_cost_def calculateTokenCost_def GetIntervalPricing_def blank_resolved_def
          CalculateCostWithServiceTier_def Let_def computeTokenBreakdown_def)
  qed
qed

definition demo_input :: CostInput where
  "demo_input = \<lparr>ci_Model = ''claude-next'', ci_GroupID = None,
     ci_Tokens = no_tokens\<lparr>ut_InputTokens := 10, ut_OutputTokens := 5\<rparr>, ci_RequestCount = 0, ci_SizeTier = '''',
     ci_RateMultiplier = 1, ci_ServiceTier = ''flex'', ci_Resolver = Some (demo_resolver None),
     ci_Resolved = None\<rparr>"

section \<open>Prices per request\<close>

text \<open>The first price of the list that is not zero, zero when there is none.\<close>

fun first_price :: "price list \<Rightarrow> price" where
  "first_price [] = 0"
| "first_price (p # ps) = (if p \<noteq> 0 then p else first_price ps)"

text \<open>A channel that prices per request or per image is charged exactly so: the unit price is the
  first configured one of the size tier (looked up by its label), the context interval and the channel's
  default; it is multiplied by the number of requests, at least one, and by the rate multiplier, where a
  negative one charges nothing. The model's token prices are neither read nor changed.\<close>

lemma per_request_charge:
  assumes "ci_Resolver input = Some r" "ci_Resolved input = None" "ci_GroupID input = Some g"
    and "mr_channelService r = Some (first, second)" "first g (ci_Model input) = Some cp" "is_request_mode cp"
  shows "\<exists>bd. CalculateCostUnified s input h = Some (Inr bd, h)
           \<and> cb_BillingMode bd = cp_BillingMode cp
           \<and> cb_TotalCost bd = of_int (max 1 (ci_RequestCount input)) * first_price
               [if ci_SizeTier input = '''' then 0
                else (case List.find (\<lambda>iv. pi_TierLabel iv = ci_SizeTier input \<and> pi_PerRequestPrice iv \<noteq> None)
                             (cp_Intervals cp) of
                        Some iv \<Rightarrow> the (pi_PerRequestPrice iv) | None \<Rightarrow> 0),
                (case FindMatchingInterval (filterValidIntervals (cp_Intervals cp))
                        (ut_InputTokens (ci_Tokens input) + ut_CacheReadTokens (ci_Tokens input)) of
                   Some iv \<Rightarrow> (case pi_PerRequestPrice iv of Some p \<Rightarrow> p | None \<Rightarrow> 0) | None \<Rightarrow> 0),
                (case cp_PerRequestPrice cp of Some p \<Rightarrow> p | None \<Rightarrow> 0)]
           \<and> cb_ActualCost bd = cb_TotalCost bd * max 0 (ci_RateMultiplier input)"
proof -
  define resolved where "resolved = applyRequestTierOverrides cp
    (blank_resolved\<lparr>rp_Mode := cp_BillingMode cp, rp_Source := PricingSourceChannel, rp_channelPricing := Some cp\<rparr>)"
  have fields: "rp_Mode resolved = cp_BillingMode cp"
    "rp_RequestTiers resolved = filterValidIntervals (cp_Intervals cp)"
    "rp_DefaultPerRequestPrice resolved = (case cp_PerRequestPrice cp of Some p \<Rightarrow> p | None \<Rightarrow> 0)"
    by (auto simp: resolved_def applyRequestTierOverrides_def blank_resolved_def Let_def split: option.splits)
  have mode: "cp_BillingMode cp = BillingModePerRequest \<or> cp_BillingMode cp = BillingModeImage" "cp_BillingMode cp \<noteq> ''''"
    using assms(6)
    by (auto simp: is_request_mode_def BillingModeToken_def BillingModePerRequest_def BillingModeImage_def Let_def
        split: if_splits)
  have unif: "CalculateCostUnified s input h = Some (dispatch_cost resolved input h)"
    using assms by (simp add: CalculateCostUnified_def Resolve_def resolved_def)
  have tier: "List.find (\<lambda>t. pi_TierLabel t = l \<and> pi_PerRequestPrice t \<noteq> None) (filterValidIntervals ivs)
      = List.find (\<lambda>t. pi_TierLabel t = l \<and> pi_PerRequestPrice t \<noteq> None) ivs" for l ivs
    by (induction ivs) (auto simp: filterValidIntervals_def)
  have prices: "GetRequestTierPrice resolved l =
      (case List.find (\<lambda>iv. pi_TierLabel iv = l \<and> pi_PerRequestPrice iv \<noteq> None) (cp_Intervals cp) of
         Some iv \<Rightarrow> the (pi_PerRequestPrice iv) | None \<Rightarrow> 0)"
    "GetRequestTierPriceByContext resolved n = (case FindMatchingInterval (filterValidIntervals (cp_Intervals cp)) n of
       Some iv \<Rightarrow> (case pi_PerRequestPrice iv of Some p \<Rightarrow> p | None \<Rightarrow> 0) | None \<Rightarrow> 0)" for l n
    by (simp_all only: GetRequestTierPrice_def GetRequestTierPriceByContext_def fields tier)
  show ?thesis
    unfolding unif prices [symmetric] fields(3) [symmetric] using mode
    by (auto simp: dispatch_cost_def calculatePerRequestCost_def fields(1) no_cost_def Let_def max_def)
qed

definition demo_image_price :: ChannelModelPricing where
  "demo_image_price = demo_channel_price\<lparr>cp_BillingMode := BillingModeImage, cp_PerRequestPrice := Some (1 / 25)\<rparr>"

definition demo_image_input :: CostInput where
  "demo_image_input = demo_input\<lparr>ci_GroupID := Some 1, ci_RequestCount := 3, ci_SizeTier := ''4K'',
     ci_Resolver := Some (demo_resolver None\<lparr>mr_channelService := Some (\<lambda>_ _. Some demo_image_price, \<lambda>_ _. None)\<rparr>)\<rparr>"

section \<open>Supported models\<close>

text \<open>The models reported as supported are those of the Claude series, which the table always prices.\<close>

lemma IsModelSupported_iff: "IsModelSupported model \<longleftrightarrow> claude_fallback_key (to_lower model) \<noteq> None"
  unfolding IsModelSupported_def claude_fallback_key_def Let_def by auto

end
