(* ===== verification/Account_Quota.thy ===== *)
theory Account_Quota
  imports App_Errors Go_Strings Domain_Constants Complex_Main
begin

text \<open>
  The spending quotas of an upstream account: the getters, period checks and reset times of
  \<open>service/account.go\<close>, and the SQL of \<open>repository/account_repo.go\<close> that adds to the usage and starts
  a new period in the database.

  The account's \<open>Extra\<close> is a JSON object; the fields the quota code reads are the fields of
  \<open>quota_extra\<close> at the types the code parses them at, \<open>None\<close> for an absent one. Time stamps, kept as
  RFC 3339 text, are instants. The time-zone database (\<open>time.LoadLocation\<close>, PostgreSQL's \<open>AT TIME ZONE\<close>)
  is the function \<open>zones\<close> from names to offsets east of UTC; zones with daylight saving time, whose
  offset varies, are outside the model. \<open>time.Now()\<close> and \<open>NOW()\<close> are the argument \<open>now\<close>.
\<close>

section \<open>The account and its quota fields\<close>

abbreviation Day :: duration where "Day \<equiv> 86400000000000"

record quota_extra =
  qe_quota_used :: "rat option"
  qe_quota_limit :: "rat option"
  qe_quota_daily_used :: "rat option"
  qe_quota_daily_limit :: "rat option"
  qe_quota_daily_start :: "time option"
  qe_quota_daily_reset_mode :: "string option"
  qe_quota_daily_reset_hour :: "int option"
  qe_quota_daily_reset_at :: "time option"
  qe_quota_weekly_used :: "rat option"
  qe_quota_weekly_limit :: "rat option"
  qe_quota_weekly_start :: "time option"
  qe_quota_weekly_reset_mode :: "string option"
  qe_quota_weekly_reset_day :: "int option"
  qe_quota_weekly_reset_hour :: "int option"
  qe_quota_weekly_reset_at :: "time option"
  qe_quota_reset_timezone :: "string option"

record Account =
  acc_ID :: int
  acc_Type :: string
  acc_Extra :: quota_extra

definition ErrAccountNotFound :: go_error where
  "ErrAccountNotFound = NotFound ''ACCOUNT_NOT_FOUND'' ''account not found''"

type_synonym zones = "string \<Rightarrow> duration option"

definition or_else :: "'a option \<Rightarrow> 'a \<Rightarrow> 'a" where
  "or_else v d = (case v of None \<Rightarrow> d | Some x \<Rightarrow> x)"

definition IsAPIKeyOrBedrock :: "Account \<Rightarrow> bool" where
  "IsAPIKeyOrBedrock a = (acc_Type a = AccountTypeAPIKey \<or> acc_Type a = AccountTypeBedrock)"

definition GetQuotaLimit :: "Account \<Rightarrow> rat" where
  "GetQuotaLimit a = or_else (qe_quota_limit (acc_Extra a)) 0"
definition GetQuotaUsed :: "Account \<Rightarrow> rat" where
  "GetQuotaUsed a = or_else (qe_quota_used (acc_Extra a)) 0"
definition GetQuotaDailyLimit :: "Account \<Rightarrow> rat" where
  "GetQuotaDailyLimit a = or_else (qe_quota_daily_limit (acc_Extra a)) 0"
definition GetQuotaDailyUsed :: "Account \<Rightarrow> rat" where
  "GetQuotaDailyUsed a = or_else (qe_quota_daily_used (acc_Extra a)) 0"
definition GetQuotaWeeklyLimit :: "Account \<Rightarrow> rat" where
  "GetQuotaWeeklyLimit a = or_else (qe_quota_weekly_limit (acc_Extra a)) 0"
definition GetQuotaWeeklyUsed :: "Account \<Rightarrow> rat" where
  "GetQuotaWeeklyUsed a = or_else (qe_quota_weekly_used (acc_Extra a)) 0"

definition GetQuotaDailyResetMode :: "Account \<Rightarrow> string" where
  "GetQuotaDailyResetMode a =
     (if qe_quota_daily_reset_mode (acc_Extra a) = Some ''fixed'' then ''fixed'' else ''rolling'')"
definition GetQuotaDailyResetHour :: "Account \<Rightarrow> int" where
  "GetQuotaDailyResetHour a = or_else (qe_quota_daily_reset_hour (acc_Extra a)) 0"
definition GetQuotaWeeklyResetMode :: "Account \<Rightarrow> string" where
  "GetQuotaWeeklyResetMode a =
     (if qe_quota_weekly_reset_mode (acc_Extra a) = Some ''fixed'' then ''fixed'' else ''rolling'')"
definition GetQuotaWeeklyResetDay :: "Account \<Rightarrow> int" where
  "GetQuotaWeeklyResetDay a = or_else (qe_quota_weekly_reset_day (acc_Extra a)) 1"
definition GetQuotaWeeklyResetHour :: "Account \<Rightarrow> int" where
  "GetQuotaWeeklyResetHour a = or_else (qe_quota_weekly_reset_hour (acc_Extra a)) 0"

definition timezone_name :: "quota_extra \<Rightarrow> string" where
  "timezone_name e =
     (let tz = or_else (qe_quota_reset_timezone e) '''' in if tz \<noteq> '''' then tz else ''UTC'')"

definition GetQuotaResetTimezone :: "Account \<Rightarrow> string" where
  "GetQuotaResetTimezone a = timezone_name (acc_Extra a)"

definition HasAnyQuotaLimit :: "Account \<Rightarrow> bool" where
  "HasAnyQuotaLimit a = (0 < GetQuotaLimit a \<or> 0 < GetQuotaDailyLimit a \<or> 0 < GetQuotaWeeklyLimit a)"

section \<open>Fixed reset times\<close>

text \<open>\<open>time.Date(y, m, d, hour, 0, 0, 0, tz)\<close> for the local day of an instant, and the day of the week
  (0 is Sunday; 1 January 1970 was a Thursday) of an instant in a zone.\<close>

definition local_day_at :: "int \<Rightarrow> duration \<Rightarrow> time \<Rightarrow> time" where
  "local_day_at hour tz t = (let l = t + tz in l - l mod Day + hour * Hour - tz)"

definition Weekday :: "duration \<Rightarrow> time \<Rightarrow> int" where
  "Weekday tz t = ((t + tz) div Day + 4) mod 7"

definition nextFixedDailyReset :: "int \<Rightarrow> duration \<Rightarrow> time \<Rightarrow> time" where
  "nextFixedDailyReset hour tz after =
     (let today = local_day_at hour tz after in if \<not> after < today then today + Day else today)"

definition lastFixedDailyReset :: "int \<Rightarrow> duration \<Rightarrow> time \<Rightarrow> time" where
  "lastFixedDailyReset hour tz now =
     (let today = local_day_at hour tz now in if now < today then today - Day else today)"

definition nextFixedWeeklyReset :: "int \<Rightarrow> int \<Rightarrow> duration \<Rightarrow> time \<Rightarrow> time" where
  "nextFixedWeeklyReset day hour tz after =
     (let todayReset = local_day_at hour tz after;
          currentDay = Weekday tz todayReset;
          daysForward = (day - currentDay + 7) smod 7;
          daysForward = (if daysForward = 0 \<and> \<not> after < todayReset then 7 else daysForward)
      in todayReset + daysForward * Day)"

definition lastFixedWeeklyReset :: "int \<Rightarrow> int \<Rightarrow> duration \<Rightarrow> time \<Rightarrow> time" where
  "lastFixedWeeklyReset day hour tz now =
     (let todayReset = local_day_at hour tz now;
          currentDay = Weekday tz todayReset;
          daysBack = (currentDay - day + 7) smod 7;
          daysBack = (if daysBack = 0 \<and> now < todayReset then 7 else daysBack)
      in todayReset - daysBack * Day)"

section \<open>Periods\<close>

definition load_zone :: "zones \<Rightarrow> string \<Rightarrow> duration" where
  "load_zone zones name = (case zones name of Some tz \<Rightarrow> tz | None \<Rightarrow> 0)"

definition isFixedDailyPeriodExpired :: "zones \<Rightarrow> time \<Rightarrow> Account \<Rightarrow> time option \<Rightarrow> bool" where
  "isFixedDailyPeriodExpired zones now a periodStart =
     (case periodStart of None \<Rightarrow> True
      | Some s \<Rightarrow>
          s < lastFixedDailyReset (GetQuotaDailyResetHour a) (load_zone zones (GetQuotaResetTimezone a)) now)"

definition isFixedWeeklyPeriodExpired :: "zones \<Rightarrow> time \<Rightarrow> Account \<Rightarrow> time option \<Rightarrow> bool" where
  "isFixedWeeklyPeriodExpired zones now a periodStart =
     (case periodStart of None \<Rightarrow> True
      | Some s \<Rightarrow>
          s < lastFixedWeeklyReset (GetQuotaWeeklyResetDay a) (GetQuotaWeeklyResetHour a)
                (load_zone zones (GetQuotaResetTimezone a)) now)"

definition isPeriodExpired :: "time \<Rightarrow> time option \<Rightarrow> duration \<Rightarrow> bool" where
  "isPeriodExpired now periodStart dur = (case periodStart of None \<Rightarrow> True | Some s \<Rightarrow> dur \<le> now - s)"

definition IsDailyQuotaPeriodExpired :: "zones \<Rightarrow> time \<Rightarrow> Account \<Rightarrow> bool" where
  "IsDailyQuotaPeriodExpired zones now a =
     (let start = qe_quota_daily_start (acc_Extra a)
      in if GetQuotaDailyResetMode a = ''fixed'' then isFixedDailyPeriodExpired zones now a start
         else isPeriodExpired now start Day)"

definition IsWeeklyQuotaPeriodExpired :: "zones \<Rightarrow> time \<Rightarrow> Account \<Rightarrow> bool" where
  "IsWeeklyQuotaPeriodExpired zones now a =
     (let start = qe_quota_weekly_start (acc_Extra a)
      in if GetQuotaWeeklyResetMode a = ''fixed'' then isFixedWeeklyPeriodExpired zones now a start
         else isPeriodExpired now start (7 * Day))"

definition IsQuotaExceeded :: "zones \<Rightarrow> time \<Rightarrow> Account \<Rightarrow> bool" where
  "IsQuotaExceeded zones now a =
     (if 0 < GetQuotaLimit a \<and> GetQuotaLimit a \<le> GetQuotaUsed a then True
      else if 0 < GetQuotaDailyLimit a \<and> \<not> IsDailyQuotaPeriodExpired zones now a
              \<and> GetQuotaDailyLimit a \<le> GetQuotaDailyUsed a then True
      else if 0 < GetQuotaWeeklyLimit a \<and> \<not> IsWeeklyQuotaPeriodExpired zones now a
              \<and> GetQuotaWeeklyLimit a \<le> GetQuotaWeeklyUsed a then True
      else False)"

section \<open>Configuration\<close>

text \<open>Text with whole seconds: \<open>Format(time.RFC3339)\<close> and \<open>to_char(..., 'YYYY-MM-DD"T"HH24:MI:SS"Z"')\<close>.\<close>

definition to_seconds :: "time \<Rightarrow> time" where
  "to_seconds t = t - t mod Second"

definition reset_hour_of :: "int option \<Rightarrow> int" where
  "reset_hour_of h = (let hour = or_else h 0 in if hour < 0 \<or> 23 < hour then 0 else hour)"

definition reset_day_of :: "int option \<Rightarrow> int" where
  "reset_day_of d = (let day = or_else d 1 in if day < 0 \<or> 6 < day then 1 else day)"

definition ComputeQuotaResetAt :: "zones \<Rightarrow> time \<Rightarrow> quota_extra \<Rightarrow> quota_extra" where
  "ComputeQuotaResetAt zones now e =
     (let tz = load_zone zones (timezone_name e);
          e = (if qe_quota_daily_reset_mode e = Some ''fixed'' then
                 e\<lparr>qe_quota_daily_reset_at :=
                     Some (to_seconds (nextFixedDailyReset (reset_hour_of (qe_quota_daily_reset_hour e)) tz now))\<rparr>
               else e\<lparr>qe_quota_daily_reset_at := None\<rparr>)
      in if qe_quota_weekly_reset_mode e = Some ''fixed'' then
           e\<lparr>qe_quota_weekly_reset_at :=
               Some (to_seconds (nextFixedWeeklyReset (reset_day_of (qe_quota_weekly_reset_day e))
                                   (reset_hour_of (qe_quota_weekly_reset_hour e)) tz now))\<rparr>
         else e\<lparr>qe_quota_weekly_reset_at := None\<rparr>)"

definition stale_start :: "time option \<Rightarrow> time \<Rightarrow> bool" where
  "stale_start start lastReset = (case start of None \<Rightarrow> True | Some s \<Rightarrow> s < lastReset)"

definition NormalizeFixedQuotaWindows :: "zones \<Rightarrow> time \<Rightarrow> quota_extra \<Rightarrow> quota_extra" where
  "NormalizeFixedQuotaWindows zones now e =
     (let tz = load_zone zones (timezone_name e);
          e = (if qe_quota_daily_reset_mode e = Some ''fixed'' \<and> 0 < or_else (qe_quota_daily_limit e) 0 then
                 let lastReset = lastFixedDailyReset (reset_hour_of (qe_quota_daily_reset_hour e)) tz now
                 in if stale_start (qe_quota_daily_start e) lastReset
                    then e\<lparr>qe_quota_daily_used := Some 0, qe_quota_daily_start := Some (to_seconds lastReset)\<rparr>
                    else e
               else e)
      in if qe_quota_weekly_reset_mode e = Some ''fixed'' \<and> 0 < or_else (qe_quota_weekly_limit e) 0 then
           let lastReset = lastFixedWeeklyReset (reset_day_of (qe_quota_weekly_reset_day e))
                             (reset_hour_of (qe_quota_weekly_reset_hour e)) tz now
           in if stale_start (qe_quota_weekly_start e) lastReset
              then e\<lparr>qe_quota_weekly_used := Some 0, qe_quota_weekly_start := Some (to_seconds lastReset)\<rparr>
              else e
         else e)"

definition valid_mode :: "string option \<Rightarrow> bool" where
  "valid_mode m = (case m of None \<Rightarrow> True | Some m \<Rightarrow> m = ''rolling'' \<or> m = ''fixed'')"

definition valid_between :: "int \<Rightarrow> int option \<Rightarrow> bool" where
  "valid_between hi v = (case v of None \<Rightarrow> True | Some n \<Rightarrow> 0 \<le> n \<and> n \<le> hi)"

definition ValidateQuotaResetConfig :: "zones \<Rightarrow> quota_extra \<Rightarrow> string option" where
  "ValidateQuotaResetConfig zones e =
     (if (case qe_quota_reset_timezone e of None \<Rightarrow> False | Some tz \<Rightarrow> tz \<noteq> '''' \<and> zones tz = None)
        then Some ''invalid quota_reset_timezone: must be a valid IANA timezone name''
      else if \<not> valid_mode (qe_quota_daily_reset_mode e)
        then Some (''quota_daily_reset_mode must be 'rolling' or 'fixed'' @ [CHR 0x27])
      else if \<not> valid_between 23 (qe_quota_daily_reset_hour e)
        then Some ''quota_daily_reset_hour must be between 0 and 23''
      else if \<not> valid_mode (qe_quota_weekly_reset_mode e)
        then Some (''quota_weekly_reset_mode must be 'rolling' or 'fixed'' @ [CHR 0x27])
      else if \<not> valid_between 6 (qe_quota_weekly_reset_day e)
        then Some ''quota_weekly_reset_day must be between 0 (Sunday) and 6 (Saturday)''
      else if \<not> valid_between 23 (qe_quota_weekly_reset_hour e)
        then Some ''quota_weekly_reset_hour must be between 0 and 23''
      else None)"

section \<open>The SQL of the account repository\<close>

text \<open>\<open>COALESCE(extra->>'quota_reset_timezone', 'UTC')\<close>; an unknown zone raises an error.\<close>

definition sql_zone :: "zones \<Rightarrow> quota_extra \<Rightarrow> duration option" where
  "sql_zone zones e = zones (or_else (qe_quota_reset_timezone e) ''UTC'')"

definition dailyExpiredExpr :: "time \<Rightarrow> quota_extra \<Rightarrow> bool" where
  "dailyExpiredExpr now e =
     (if or_else (qe_quota_daily_reset_mode e) ''rolling'' = ''fixed''
      then or_else (qe_quota_daily_reset_at e) 0 \<le> now
      else or_else (qe_quota_daily_start e) 0 + Day \<le> now)"

definition weeklyExpiredExpr :: "time \<Rightarrow> quota_extra \<Rightarrow> bool" where
  "weeklyExpiredExpr now e =
     (if or_else (qe_quota_weekly_reset_mode e) ''rolling'' = ''fixed''
      then or_else (qe_quota_weekly_reset_at e) 0 \<le> now
      else or_else (qe_quota_weekly_start e) 0 + 168 * Hour \<le> now)"

definition date_trunc_day :: "time \<Rightarrow> time" where
  "date_trunc_day t = t - t mod Day"

definition sql_next_daily :: "time \<Rightarrow> duration \<Rightarrow> quota_extra \<Rightarrow> time" where
  "sql_next_daily now tz e =
     (let point = date_trunc_day (now + tz) + or_else (qe_quota_daily_reset_hour e) 0 * Hour
      in to_seconds (if point - tz \<le> now then point + Day - tz else point - tz))"

definition sql_next_weekly :: "time \<Rightarrow> duration \<Rightarrow> quota_extra \<Rightarrow> time" where
  "sql_next_weekly now tz e =
     (let point = date_trunc_day (now + tz) + or_else (qe_quota_weekly_reset_hour e) 0 * Hour;
          days_forward = (or_else (qe_quota_weekly_reset_day e) 1 - ((now + tz) div Day + 4) mod 7 + 7) smod 7
      in to_seconds (if days_forward = 0 \<and> point - tz \<le> now then point + 7 * Day - tz
                     else point + days_forward * Day - tz))"

text \<open>The new \<open>extra\<close> of \<open>UPDATE accounts\<close>; \<open>None\<close> is the error of an unknown zone.\<close>

definition increment_daily :: "zones \<Rightarrow> time \<Rightarrow> rat \<Rightarrow> quota_extra \<Rightarrow> quota_extra option" where
  "increment_daily zones now amount e =
     (if \<not> 0 < or_else (qe_quota_daily_limit e) 0 then Some e
      else if dailyExpiredExpr now e then
        let e' = e\<lparr>qe_quota_daily_used := Some amount, qe_quota_daily_start := Some now\<rparr>
        in if or_else (qe_quota_daily_reset_mode e) ''rolling'' \<noteq> ''fixed'' then Some e'
           else case sql_zone zones e of None \<Rightarrow> None
                | Some tz \<Rightarrow> Some (e'\<lparr>qe_quota_daily_reset_at := Some (sql_next_daily now tz e)\<rparr>)
      else Some (e\<lparr>qe_quota_daily_used := Some (or_else (qe_quota_daily_used e) 0 + amount),
                   qe_quota_daily_start := Some (or_else (qe_quota_daily_start e) now)\<rparr>))"

definition increment_weekly :: "zones \<Rightarrow> time \<Rightarrow> rat \<Rightarrow> quota_extra \<Rightarrow> quota_extra option" where
  "increment_weekly zones now amount e =
     (if \<not> 0 < or_else (qe_quota_weekly_limit e) 0 then Some e
      else if weeklyExpiredExpr now e then
        let e' = e\<lparr>qe_quota_weekly_used := Some amount, qe_quota_weekly_start := Some now\<rparr>
        in if or_else (qe_quota_weekly_reset_mode e) ''rolling'' \<noteq> ''fixed'' then Some e'
           else case sql_zone zones e of None \<Rightarrow> None
                | Some tz \<Rightarrow> Some (e'\<lparr>qe_quota_weekly_reset_at := Some (sql_next_weekly now tz e)\<rparr>)
      else Some (e\<lparr>qe_quota_weekly_used := Some (or_else (qe_quota_weekly_used e) 0 + amount),
                   qe_quota_weekly_start := Some (or_else (qe_quota_weekly_start e) now)\<rparr>))"

definition increment_quota :: "zones \<Rightarrow> time \<Rightarrow> rat \<Rightarrow> quota_extra \<Rightarrow> quota_extra option" where
  "increment_quota zones now amount e =
     Option.bind
       (increment_daily zones now amount (e\<lparr>qe_quota_used := Some (or_else (qe_quota_used e) 0 + amount)\<rparr>))
       (increment_weekly zones now amount)"

definition reset_quota :: "quota_extra \<Rightarrow> quota_extra" where
  "reset_quota e =
     e\<lparr>qe_quota_used := Some 0, qe_quota_daily_used := Some 0, qe_quota_weekly_used := Some 0,
       qe_quota_daily_start := None, qe_quota_weekly_start := None, qe_quota_daily_reset_at := None,
       qe_quota_weekly_reset_at := None\<rparr>"


section \<open>Reset schedules\<close>

text \<open>What the period checks rely on: the instants fall into periods, each with its last reset at or
  before it and its next reset after it.\<close>

locale reset_schedule =
  fixes next_reset last_reset :: "time \<Rightarrow> time"
  assumes last_le: "last_reset t \<le> t"
    and next_gt: "t < next_reset t"
    and same_period: "last_reset t \<le> u \<Longrightarrow> u < next_reset t \<Longrightarrow> last_reset u = last_reset t \<and> next_reset u = next_reset t"
    and reset_starts: "last_reset (next_reset t) = next_reset t"
begin

text \<open>Comparing the stored next reset with the clock and comparing the start of the period with the
  last reset are the same test.\<close>

lemma expired_iff:
  assumes "s \<le> now"
  shows "next_reset s \<le> now \<longleftrightarrow> s < last_reset now"
proof
  assume n: "next_reset s \<le> now"
  show "s < last_reset now"
  proof (rule ccontr)
    assume "\<not> s < last_reset now"
    then have "last_reset now \<le> next_reset s" using next_gt [of s] by simp
    moreover have "next_reset s < next_reset now" using n next_gt [of now] by simp
    ultimately have "last_reset (next_reset s) = last_reset now" using same_period by blast
    then show False using reset_starts [of s] next_gt [of s] \<open>\<not> s < last_reset now\<close> by simp
  qed
next
  assume l: "s < last_reset now"
  show "next_reset s \<le> now"
  proof (rule ccontr)
    assume "\<not> next_reset s \<le> now"
    then have "last_reset now = last_reset s"
      using same_period [of s now] last_le [of s] assms by simp
    then show False using l last_le [of s] by simp
  qed
qed

lemma next_same: "s \<le> now \<Longrightarrow> now < next_reset s \<Longrightarrow> next_reset now = next_reset s"
  using same_period [of s now] last_le [of s] by simp

lemma next_from_last: "last_reset now \<le> s \<Longrightarrow> s \<le> now \<Longrightarrow> next_reset s = next_reset now"
  using same_period [of now s] next_gt [of now] by simp

end

text \<open>Resets every \<open>p\<close> nanoseconds, one of them at \<open>b\<close>.\<close>

definition last_on :: "int \<Rightarrow> int \<Rightarrow> time \<Rightarrow> time" where
  "last_on p b t = t - (t - b) mod p"

definition next_on :: "int \<Rightarrow> int \<Rightarrow> time \<Rightarrow> time" where
  "next_on p b t = last_on p b t + p"

lemma last_on_unique:
  assumes "x \<le> t" "t < x + p" "p dvd x - b"
  shows "last_on p b t = x"
proof -
  obtain k where "x - b = p * k" using assms(3) by (elim dvdE)
  then have "t - b = (t - x) + k * p" by (simp add: algebra_simps)
  then have "(t - b) mod p = (t - x) mod p" by (simp only: mod_mult_self1)
  moreover have "(t - x) mod p = t - x" using assms(1,2) by (intro mod_pos_pos_trivial) auto
  ultimately show ?thesis by (simp add: last_on_def)
qed

lemma last_on_dvd: "p dvd last_on p b t - b"
proof -
  have "last_on p b t - b = (t - b) - (t - b) mod p" by (simp add: last_on_def)
  then show ?thesis by (simp only: dvd_minus_mod)
qed

lemma last_on_bounds: "0 < p \<Longrightarrow> last_on p b t \<le> t" "0 < p \<Longrightarrow> t < last_on p b t + p"
  by (simp_all add: last_on_def)

lemma grid_schedule:
  assumes "0 < p"
  shows "reset_schedule (next_on p b) (last_on p b)"
proof
  fix t u
  show "last_on p b t \<le> t" "t < next_on p b t" using last_on_bounds [OF assms] by (simp_all add: next_on_def)
  show "last_on p b u = last_on p b t \<and> next_on p b u = next_on p b t"
    if "last_on p b t \<le> u" "u < next_on p b t"
    using last_on_unique [OF that(1) _ last_on_dvd] that(2) by (simp add: next_on_def)
  have "p dvd next_on p b t - b"
    using dvd_add [OF last_on_dvd [of p b t] dvd_refl] by (simp add: next_on_def algebra_simps)
  then show "last_on p b (next_on p b t) = next_on p b t"
    using last_on_unique [of "next_on p b t" "next_on p b t" p b] assms by simp
qed

text \<open>The daily and the weekly reset times are such schedules.\<close>

abbreviation daily_base :: "int \<Rightarrow> duration \<Rightarrow> time" where
  "daily_base hour tz \<equiv> hour * Hour - tz"

abbreviation weekly_base :: "int \<Rightarrow> int \<Rightarrow> duration \<Rightarrow> time" where
  "weekly_base day hour tz \<equiv> (day - 4) * Day + hour * Hour - tz"

lemma local_day_at_eq: "local_day_at hour tz t = (t + tz) div Day * Day + hour * Hour - tz"
proof -
  have "t + tz - (t + tz) mod Day = (t + tz) div Day * Day" by (rule minus_mod_eq_div_mult)
  then show ?thesis by (simp add: local_day_at_def Let_def)
qed

lemma local_day_at_near:
  assumes "0 \<le> hour" "hour \<le> 23"
  shows "t - Day < local_day_at hour tz t" "local_day_at hour tz t < t + Day"
  using assms pos_mod_bound [of Day "t + tz"] pos_mod_sign [of Day "t + tz"]
  by (simp_all add: local_day_at_def Let_def)

lemma daily_grid:
  assumes "0 \<le> hour" "hour \<le> 23"
  shows "lastFixedDailyReset hour tz t = last_on Day (daily_base hour tz) t"
    and "nextFixedDailyReset hour tz t = next_on Day (daily_base hour tz) t"
proof -
  let ?x = "local_day_at hour tz t"
  have dvd: "Day dvd ?x - daily_base hour tz" "Day dvd ?x - Day - daily_base hour tz"
    by (simp_all add: local_day_at_eq)
  show last: "lastFixedDailyReset hour tz t = last_on Day (daily_base hour tz) t"
    using last_on_unique [OF _ _ dvd(1), of t] last_on_unique [OF _ _ dvd(2), of t] local_day_at_near [OF assms, where t = t and tz = tz]
    by (simp add: lastFixedDailyReset_def Let_def)
  show "nextFixedDailyReset hour tz t = next_on Day (daily_base hour tz) t"
    using last by (simp add: next_on_def nextFixedDailyReset_def lastFixedDailyReset_def Let_def split: if_splits)
qed

lemma Weekday_at: "0 \<le> hour \<Longrightarrow> hour \<le> 23 \<Longrightarrow> Weekday tz (local_day_at hour tz t) = ((t + tz) div Day + 4) mod 7"
  by (simp add: Weekday_def local_day_at_eq)

lemma smod_7: "0 \<le> n \<Longrightarrow> n smod 7 = (n :: int) mod 7"
  by (cases "n = 0") (simp_all add: signed_modulo_int_def)

lemma weekday_back:
  fixes d day :: int
  assumes "m = (d + 4 - day) mod 7"
  shows "0 \<le> m" "m \<le> 6" "7 dvd d - (if m = 0 \<and> b then 7 else m) - (day - 4)"
proof -
  show "0 \<le> m" "m \<le> 6" using assms by presburger+
  have "7 dvd d - m - (day - 4)" "m = 0 \<Longrightarrow> 7 dvd d - 7 - (day - 4)" using assms by presburger+
  then show "7 dvd d - (if m = 0 \<and> b then 7 else m) - (day - 4)" by simp
qed

lemma weekday_steps:
  fixes d day :: int
  assumes "0 \<le> day" "day \<le> 6"
  shows "((d + 4) mod 7 - day + 7) smod 7 = (d + 4 - day) mod 7"
    and "(day - (d + 4) mod 7 + 7) smod 7 = (if (d + 4 - day) mod 7 = 0 then 0 else 7 - (d + 4 - day) mod 7)"
proof -
  have r: "0 \<le> (d + 4) mod 7" "(d + 4) mod 7 \<le> 6" by presburger+
  have "((d + 4) mod 7 - day + 7) smod 7 = ((d + 4) mod 7 - day + 7) mod 7"
    using assms r by (intro smod_7) simp
  also have "\<dots> = (d + 4 - day) mod 7" by (simp add: mod_diff_left_eq)
  finally show "((d + 4) mod 7 - day + 7) smod 7 = (d + 4 - day) mod 7" .
  have "(day - (d + 4) mod 7 + 7) smod 7 = (day - (d + 4) mod 7 + 7) mod 7"
    using assms r by (intro smod_7) simp
  also have "\<dots> = (- (d + 4 - day)) mod 7" by (simp add: mod_diff_right_eq)
  finally show "(day - (d + 4) mod 7 + 7) smod 7 = (if (d + 4 - day) mod 7 = 0 then 0 else 7 - (d + 4 - day) mod 7)"
    by (simp only: zmod_zminus1_eq_if)
qed

lemma weekly_grid:
  assumes "0 \<le> day" "day \<le> 6" "0 \<le> hour" "hour \<le> 23"
  shows "lastFixedWeeklyReset day hour tz t = last_on (7 * Day) (weekly_base day hour tz) t"
    and "nextFixedWeeklyReset day hour tz t = next_on (7 * Day) (weekly_base day hour tz) t"
proof -
  let ?x = "local_day_at hour tz t" and ?d = "(t + tz) div Day"
  define n where "n = (?d + 4 - day) mod 7"
  note n = weekday_back [OF n_def]
  have cur: "((?d + 4) mod 7 - day + 7) smod 7 = n" "(day - (?d + 4) mod 7 + 7) smod 7 = (if n = 0 then 0 else 7 - n)"
    unfolding n_def by (rule weekday_steps [OF assms(1,2)])+
  define days where "days = (if n = 0 \<and> t < ?x then 7 else n)"
  have days: "7 dvd ?d - days - (day - 4)" unfolding days_def by (rule n(3))
  have eq: "?x - days * Day - weekly_base day hour tz = (?d - days - (day - 4)) * Day"
    by (simp add: local_day_at_eq algebra_simps)
  have "7 * Day dvd ?x - days * Day - weekly_base day hour tz"
    unfolding eq by (rule mult_dvd_mono [OF days dvd_refl])
  then have on: "last_on (7 * Day) (weekly_base day hour tz) t = ?x - days * Day"
    using local_day_at_near [OF assms(3,4), where t = t and tz = tz] n(1,2)
    by (intro last_on_unique) (auto simp: days_def)
  have wd: "Weekday tz ?x = (?d + 4) mod 7" by (rule Weekday_at [OF assms(3,4)])
  show "lastFixedWeeklyReset day hour tz t = last_on (7 * Day) (weekly_base day hour tz) t"
    unfolding on by (simp add: lastFixedWeeklyReset_def Let_def wd cur(1) days_def)
  show "nextFixedWeeklyReset day hour tz t = next_on (7 * Day) (weekly_base day hour tz) t"
    unfolding next_on_def on using n(2) by (simp add: nextFixedWeeklyReset_def Let_def wd cur(2) days_def)
qed

lemma reset_hour_bounds: "0 \<le> reset_hour_of h" "reset_hour_of h \<le> 23"
  by (simp_all add: reset_hour_of_def Let_def)

lemma reset_day_bounds: "0 \<le> reset_day_of d" "reset_day_of d \<le> 6"
  by (simp_all add: reset_day_of_def Let_def)

lemmas daily_grid_of = daily_grid [OF reset_hour_bounds]
lemmas weekly_grid_of = weekly_grid [OF reset_day_bounds reset_hour_bounds]

interpretation daily: reset_schedule "nextFixedDailyReset (reset_hour_of h) tz" "lastFixedDailyReset (reset_hour_of h) tz"
  for h tz
proof -
  have "nextFixedDailyReset (reset_hour_of h) tz = next_on Day (daily_base (reset_hour_of h) tz)"
    "lastFixedDailyReset (reset_hour_of h) tz = last_on Day (daily_base (reset_hour_of h) tz)"
    by (simp_all add: fun_eq_iff daily_grid_of)
  then show "reset_schedule (nextFixedDailyReset (reset_hour_of h) tz) (lastFixedDailyReset (reset_hour_of h) tz)"
    using grid_schedule [of Day] by simp
qed

interpretation weekly: reset_schedule "nextFixedWeeklyReset (reset_day_of d) (reset_hour_of h) tz"
    "lastFixedWeeklyReset (reset_day_of d) (reset_hour_of h) tz"
  for d h tz
proof -
  have "nextFixedWeeklyReset (reset_day_of d) (reset_hour_of h) tz
      = next_on (7 * Day) (weekly_base (reset_day_of d) (reset_hour_of h) tz)"
    "lastFixedWeeklyReset (reset_day_of d) (reset_hour_of h) tz
      = last_on (7 * Day) (weekly_base (reset_day_of d) (reset_hour_of h) tz)"
    by (simp_all add: fun_eq_iff weekly_grid_of)
  then show "reset_schedule (nextFixedWeeklyReset (reset_day_of d) (reset_hour_of h) tz)
      (lastFixedWeeklyReset (reset_day_of d) (reset_hour_of h) tz)"
    using grid_schedule [of "7 * Day"] by simp
qed

section \<open>The database and the scheduler see the same periods\<close>

text \<open>Zones whose offset is a whole number of seconds, as all are.\<close>

definition whole_zones :: "zones \<Rightarrow> bool" where
  "whole_zones zones = (\<forall>name tz. zones name = Some tz \<longrightarrow> Second dvd tz)"

lemma to_seconds_id: "Second dvd t \<Longrightarrow> to_seconds t = t"
  by (simp add: to_seconds_def mod_eq_0_iff_dvd)

lemma daily_whole: "Second dvd tz \<Longrightarrow> Second dvd local_day_at hour tz t"
  unfolding local_day_at_eq by (intro dvd_add dvd_diff dvd_mult) simp_all

lemma reset_whole:
  assumes "Second dvd tz"
  shows "to_seconds (nextFixedDailyReset hour tz t) = nextFixedDailyReset hour tz t"
    and "to_seconds (lastFixedDailyReset hour tz t) = lastFixedDailyReset hour tz t"
    and "to_seconds (nextFixedWeeklyReset day hour tz t) = nextFixedWeeklyReset day hour tz t"
    and "to_seconds (lastFixedWeeklyReset day hour tz t) = lastFixedWeeklyReset day hour tz t"
proof -
  have d: "Second dvd local_day_at hour tz t" by (rule daily_whole [OF assms])
  have n: "Second dvd n * Day" "Second dvd Day" for n by (intro dvd_mult, simp) simp
  note dvds = dvd_add [OF d n(1)] dvd_diff [OF d n(1)] dvd_add [OF d n(2)] dvd_diff [OF d n(2)]
  show "to_seconds (nextFixedDailyReset hour tz t) = nextFixedDailyReset hour tz t"
    using d dvds by (intro to_seconds_id) (simp add: nextFixedDailyReset_def Let_def)
  show "to_seconds (lastFixedDailyReset hour tz t) = lastFixedDailyReset hour tz t"
    using d dvds by (intro to_seconds_id) (simp add: lastFixedDailyReset_def Let_def)
  show "to_seconds (nextFixedWeeklyReset day hour tz t) = nextFixedWeeklyReset day hour tz t"
    unfolding nextFixedWeeklyReset_def Let_def by (intro to_seconds_id dvds(1))
  show "to_seconds (lastFixedWeeklyReset day hour tz t) = lastFixedWeeklyReset day hour tz t"
    unfolding lastFixedWeeklyReset_def Let_def by (intro to_seconds_id dvds(2))
qed

text \<open>A configuration that passed \<open>ValidateQuotaResetConfig\<close>: its zone is known and its hours and day
  are in range, so the clamped values are the configured ones.\<close>

definition quota_config_ok :: "zones \<Rightarrow> quota_extra \<Rightarrow> bool" where
  "quota_config_ok zones e =
     (ValidateQuotaResetConfig zones e = None \<and> zones ''UTC'' = Some 0 \<and> whole_zones zones
      \<and> qe_quota_reset_timezone e \<noteq> Some '''')"

definition zone_of :: "zones \<Rightarrow> quota_extra \<Rightarrow> duration" where
  "zone_of zones e = load_zone zones (timezone_name e)"

lemma config_okD:
  assumes "quota_config_ok zones e"
  shows "sql_zone zones e = Some (zone_of zones e)" "Second dvd zone_of zones e"
    and "or_else (qe_quota_daily_reset_hour e) 0 = reset_hour_of (qe_quota_daily_reset_hour e)"
    and "or_else (qe_quota_weekly_reset_hour e) 0 = reset_hour_of (qe_quota_weekly_reset_hour e)"
    and "or_else (qe_quota_weekly_reset_day e) 1 = reset_day_of (qe_quota_weekly_reset_day e)"
proof -
  have v: "ValidateQuotaResetConfig zones e = None" "zones ''UTC'' = Some 0" "whole_zones zones"
    "qe_quota_reset_timezone e \<noteq> Some ''''"
    using assms by (simp_all add: quota_config_ok_def)
  show z: "sql_zone zones e = Some (zone_of zones e)"
    using v by (auto simp: ValidateQuotaResetConfig_def sql_zone_def zone_of_def load_zone_def timezone_name_def
        or_else_def Let_def split: option.splits if_splits)
  then show "Second dvd zone_of zones e" using v(3) by (auto simp: whole_zones_def sql_zone_def)
  show "or_else (qe_quota_daily_reset_hour e) 0 = reset_hour_of (qe_quota_daily_reset_hour e)"
    "or_else (qe_quota_weekly_reset_hour e) 0 = reset_hour_of (qe_quota_weekly_reset_hour e)"
    "or_else (qe_quota_weekly_reset_day e) 1 = reset_day_of (qe_quota_weekly_reset_day e)"
    using v(1) by (auto simp: ValidateQuotaResetConfig_def reset_hour_of_def reset_day_of_def valid_between_def
        or_else_def Let_def split: option.splits if_splits)
qed

definition daily_next :: "zones \<Rightarrow> quota_extra \<Rightarrow> time \<Rightarrow> time" where
  "daily_next zones e = nextFixedDailyReset (reset_hour_of (qe_quota_daily_reset_hour e)) (zone_of zones e)"

definition weekly_next :: "zones \<Rightarrow> quota_extra \<Rightarrow> time \<Rightarrow> time" where
  "weekly_next zones e = nextFixedWeeklyReset (reset_day_of (qe_quota_weekly_reset_day e))
     (reset_hour_of (qe_quota_weekly_reset_hour e)) (zone_of zones e)"

text \<open>The SQL computes the reset times of the Go code.\<close>

lemma sql_next_eq:
  assumes "quota_config_ok zones e"
  shows "sql_next_daily now (zone_of zones e) e = daily_next zones e now"
    and "sql_next_weekly now (zone_of zones e) e = weekly_next zones e now"
proof -
  note c = config_okD [OF assms]
  have point: "date_trunc_day (now + tz) + hour * Hour = local_day_at hour tz now + tz" for tz hour
    by (simp add: date_trunc_day_def local_day_at_def Let_def)
  show "sql_next_daily now (zone_of zones e) e = daily_next zones e now"
    unfolding sql_next_daily_def c(3) point Let_def daily_next_def
    by (subst reset_whole(1) [OF c(2), symmetric]) (simp add: nextFixedDailyReset_def Let_def)
  show "sql_next_weekly now (zone_of zones e) e = weekly_next zones e now"
    unfolding sql_next_weekly_def c(4,5) point Let_def weekly_next_def
    by (subst reset_whole(3) [OF c(2), symmetric])
      (simp add: nextFixedWeeklyReset_def Let_def Weekday_at [OF reset_hour_bounds])
qed

text \<open>A window in order at \<open>now\<close>: a period that has started did so in the past and ends at its next
  reset; before the first one nothing is spent and the stored end is that of a past instant.\<close>

definition window_ok :: "(time \<Rightarrow> time) \<Rightarrow> time \<Rightarrow> string option \<Rightarrow> rat option \<Rightarrow> time option \<Rightarrow> time option \<Rightarrow> bool" where
  "window_ok nxt now mode used start reset_at =
     (case start of
        Some s \<Rightarrow> 0 \<le> s \<and> s \<le> now \<and> (mode = Some ''fixed'' \<longrightarrow> reset_at = Some (nxt s))
      | None \<Rightarrow> or_else used 0 = 0
          \<and> (mode = Some ''fixed'' \<longrightarrow> (case reset_at of None \<Rightarrow> True | Some r \<Rightarrow> \<exists>c \<le> now. r = nxt c)))"

definition windows_ok :: "zones \<Rightarrow> time \<Rightarrow> quota_extra \<Rightarrow> bool" where
  "windows_ok zones now e =
     ((0 < or_else (qe_quota_daily_limit e) 0 \<longrightarrow>
         window_ok (daily_next zones e) now (qe_quota_daily_reset_mode e) (qe_quota_daily_used e)
           (qe_quota_daily_start e) (qe_quota_daily_reset_at e))
      \<and> (0 < or_else (qe_quota_weekly_limit e) 0 \<longrightarrow>
         window_ok (weekly_next zones e) now (qe_quota_weekly_reset_mode e) (qe_quota_weekly_used e)
           (qe_quota_weekly_start e) (qe_quota_weekly_reset_at e)))"

text \<open>What is spent in the current period, as the scheduler sees it.\<close>

definition daily_spent :: "zones \<Rightarrow> time \<Rightarrow> Account \<Rightarrow> rat" where
  "daily_spent zones now a = (if IsDailyQuotaPeriodExpired zones now a then 0 else GetQuotaDailyUsed a)"

definition weekly_spent :: "zones \<Rightarrow> time \<Rightarrow> Account \<Rightarrow> rat" where
  "weekly_spent zones now a = (if IsWeeklyQuotaPeriodExpired zones now a then 0 else GetQuotaWeeklyUsed a)"

lemma GetQuotaDailyResetMode_fixed: "GetQuotaDailyResetMode a = ''fixed'' \<longleftrightarrow> qe_quota_daily_reset_mode (acc_Extra a) = Some ''fixed''"
  by (simp add: GetQuotaDailyResetMode_def)

lemma GetQuotaWeeklyResetMode_fixed: "GetQuotaWeeklyResetMode a = ''fixed'' \<longleftrightarrow> qe_quota_weekly_reset_mode (acc_Extra a) = Some ''fixed''"
  by (simp add: GetQuotaWeeklyResetMode_def)

lemma sql_mode_fixed: "or_else m ''rolling'' = ''fixed'' \<longleftrightarrow> m = Some ''fixed''"
  by (cases m) (simp_all add: or_else_def)

lemma daily_expired_eq:
  assumes "quota_config_ok zones (acc_Extra a)" "qe_quota_daily_start (acc_Extra a) = Some s" "s \<le> now"
  shows "IsDailyQuotaPeriodExpired zones now a \<longleftrightarrow>
     (if qe_quota_daily_reset_mode (acc_Extra a) = Some ''fixed'' then daily_next zones (acc_Extra a) s \<le> now
      else s + Day \<le> now)"
  using config_okD(3) [OF assms(1)] daily.expired_iff [OF assms(3)] assms(2)
  by (auto simp: IsDailyQuotaPeriodExpired_def isFixedDailyPeriodExpired_def isPeriodExpired_def Let_def
      GetQuotaDailyResetMode_fixed GetQuotaDailyResetHour_def GetQuotaResetTimezone_def zone_of_def daily_next_def)

lemma weekly_expired_eq:
  assumes "quota_config_ok zones (acc_Extra a)" "qe_quota_weekly_start (acc_Extra a) = Some s" "s \<le> now"
  shows "IsWeeklyQuotaPeriodExpired zones now a \<longleftrightarrow>
     (if qe_quota_weekly_reset_mode (acc_Extra a) = Some ''fixed'' then weekly_next zones (acc_Extra a) s \<le> now
      else s + 7 * Day \<le> now)"
  using config_okD(4,5) [OF assms(1)] weekly.expired_iff [OF assms(3)] assms(2)
  by (auto simp: IsWeeklyQuotaPeriodExpired_def isFixedWeeklyPeriodExpired_def isPeriodExpired_def Let_def
      GetQuotaWeeklyResetMode_fixed GetQuotaWeeklyResetHour_def GetQuotaWeeklyResetDay_def
      GetQuotaResetTimezone_def zone_of_def weekly_next_def)

lemma daily_unstarted: "qe_quota_daily_start (acc_Extra a) = None \<Longrightarrow> IsDailyQuotaPeriodExpired zones now a"
  by (simp add: IsDailyQuotaPeriodExpired_def isFixedDailyPeriodExpired_def isPeriodExpired_def)

lemma weekly_unstarted: "qe_quota_weekly_start (acc_Extra a) = None \<Longrightarrow> IsWeeklyQuotaPeriodExpired zones now a"
  by (simp add: IsWeeklyQuotaPeriodExpired_def isFixedWeeklyPeriodExpired_def isPeriodExpired_def)

text \<open>The configuration fields, which no increment touches.\<close>

definition quota_config :: "quota_extra \<Rightarrow> quota_extra" where
  "quota_config e = e\<lparr>qe_quota_used := None, qe_quota_daily_used := None, qe_quota_daily_start := None,
     qe_quota_daily_reset_at := None, qe_quota_weekly_used := None, qe_quota_weekly_start := None,
     qe_quota_weekly_reset_at := None\<rparr>"

lemma quota_config_fields:
  assumes "quota_config e = quota_config e'"
  shows "qe_quota_limit e = qe_quota_limit e'" "qe_quota_daily_limit e = qe_quota_daily_limit e'"
    "qe_quota_weekly_limit e = qe_quota_weekly_limit e'"
    "qe_quota_daily_reset_mode e = qe_quota_daily_reset_mode e'"
    "qe_quota_weekly_reset_mode e = qe_quota_weekly_reset_mode e'"
    "qe_quota_daily_reset_hour e = qe_quota_daily_reset_hour e'"
    "qe_quota_weekly_reset_hour e = qe_quota_weekly_reset_hour e'"
    "qe_quota_weekly_reset_day e = qe_quota_weekly_reset_day e'"
    "qe_quota_reset_timezone e = qe_quota_reset_timezone e'"
  using assms by (cases e; cases e'; simp add: quota_config_def)+

lemma quota_config_cong:
  assumes "quota_config e = quota_config e'"
  shows "quota_config_ok zones e = quota_config_ok zones e'" "daily_next zones e = daily_next zones e'"
    "weekly_next zones e = weekly_next zones e'"
  by (simp_all add: quota_config_ok_def ValidateQuotaResetConfig_def daily_next_def weekly_next_def zone_of_def
      timezone_name_def quota_config_fields [OF assms])

context reset_schedule
begin

text \<open>Adding to a window in order: the test on the stored fields agrees with the one on the start of the
  period, and the window stays in order.\<close>

lemma window_step:
  assumes ok: "window_ok next_reset now mode used start reset_at" and per: "0 < per" "per \<le> now"
  defines "fixed \<equiv> mode = Some ''fixed''"
  defines "expired \<equiv> (if fixed then or_else reset_at 0 \<le> now else or_else start 0 + per \<le> now)"
  defines "over \<equiv> (case start of None \<Rightarrow> True | Some s \<Rightarrow> if fixed then next_reset s \<le> now else s + per \<le> now)"
  defines "start' \<equiv> (if expired then now else or_else start now)"
  shows "(if expired then amount else or_else used 0 + amount) = (if over then 0 else or_else used 0) + amount"
    and "0 \<le> start'" "start' \<le> now"
    and "fixed \<Longrightarrow> (if expired then Some (next_reset now) else reset_at) = Some (next_reset start')"
    and "fixed \<Longrightarrow> now < next_reset start'" and "\<not> fixed \<Longrightarrow> now < start' + per"
proof -
  have now: "now < next_reset now" by (rule next_gt)
  consider (start) s where "start = Some s" | (config) c where "start = None" "c \<le> now" "reset_at = Some (next_reset c)" fixed
    | (none) "start = None" "fixed \<longrightarrow> reset_at = None"
    using ok by (cases start; cases reset_at) (auto simp: window_ok_def fixed_def)
  then have "((if expired then amount else or_else used 0 + amount) = (if over then 0 else or_else used 0) + amount)
    \<and> 0 \<le> start' \<and> start' \<le> now
    \<and> (fixed \<longrightarrow> (if expired then Some (next_reset now) else reset_at) = Some (next_reset start') \<and> now < next_reset start')
    \<and> (\<not> fixed \<longrightarrow> now < start' + per)"
  proof cases
    case start
    with ok now per show ?thesis
      by (auto simp: window_ok_def expired_def over_def start'_def or_else_def fixed_def)
  next
    case config
    have "next_reset now = next_reset c" if "\<not> next_reset c \<le> now"
      using next_same [OF config(2)] that by simp
    with config ok now per show ?thesis
      by (auto simp: window_ok_def expired_def over_def start'_def or_else_def fixed_def)
  next
    case none
    with ok now per show ?thesis
      by (auto simp: window_ok_def expired_def over_def start'_def or_else_def fixed_def)
  qed
  then show "(if expired then amount else or_else used 0 + amount) = (if over then 0 else or_else used 0) + amount"
    "0 \<le> start'" "start' \<le> now"
    "fixed \<Longrightarrow> (if expired then Some (next_reset now) else reset_at) = Some (next_reset start')"
    "fixed \<Longrightarrow> now < next_reset start'" "\<not> fixed \<Longrightarrow> now < start' + per"
    by blast+
qed

end

lemma keep_daily_reset:
  "e\<lparr>qe_quota_daily_used := u, qe_quota_daily_start := s, qe_quota_daily_reset_at := qe_quota_daily_reset_at e\<rparr>
     = e\<lparr>qe_quota_daily_used := u, qe_quota_daily_start := s\<rparr>"
  by (cases e) simp

lemma increment_daily_spec:
  assumes cfg: "quota_config_ok zones (acc_Extra a)" and now: "7 * Day \<le> now"
    and lim: "0 < or_else (qe_quota_daily_limit (acc_Extra a)) 0"
    and ok: "window_ok (daily_next zones (acc_Extra a)) now (qe_quota_daily_reset_mode (acc_Extra a))
      (qe_quota_daily_used (acc_Extra a)) (qe_quota_daily_start (acc_Extra a)) (qe_quota_daily_reset_at (acc_Extra a))"
  shows "\<exists>s r. increment_daily zones now amount (acc_Extra a) =
      Some ((acc_Extra a)\<lparr>qe_quota_daily_used := Some (daily_spent zones now a + amount),
        qe_quota_daily_start := Some s, qe_quota_daily_reset_at := r\<rparr>)
    \<and> 0 \<le> s \<and> s \<le> now \<and> (qe_quota_daily_reset_mode (acc_Extra a) = Some ''fixed'' \<longrightarrow>
        r = Some (daily_next zones (acc_Extra a) s) \<and> now < daily_next zones (acc_Extra a) s)
    \<and> (qe_quota_daily_reset_mode (acc_Extra a) \<noteq> Some ''fixed'' \<longrightarrow> now < s + Day)"
proof -
  let ?e = "acc_Extra a"
  note step = daily.window_step [OF ok [unfolded daily_next_def], where per = Day, folded daily_next_def]
  have over: "IsDailyQuotaPeriodExpired zones now a \<longleftrightarrow> (case qe_quota_daily_start ?e of None \<Rightarrow> True
      | Some s \<Rightarrow> if qe_quota_daily_reset_mode ?e = Some ''fixed'' then daily_next zones ?e s \<le> now else s + Day \<le> now)"
    using ok daily_unstarted [of a] daily_expired_eq [OF cfg]
    by (auto simp: window_ok_def split: option.splits)
  have exp: "dailyExpiredExpr now ?e \<longleftrightarrow> (if qe_quota_daily_reset_mode ?e = Some ''fixed''
      then or_else (qe_quota_daily_reset_at ?e) 0 \<le> now else or_else (qe_quota_daily_start ?e) 0 + Day \<le> now)"
    by (simp add: dailyExpiredExpr_def sql_mode_fixed)
  have spent: "daily_spent zones now a + amount
      = (if dailyExpiredExpr now ?e then amount else or_else (qe_quota_daily_used ?e) 0 + amount)"
    unfolding daily_spent_def over exp GetQuotaDailyUsed_def using step(1) [of amount] now by simp
  let ?x = "dailyExpiredExpr now ?e" and ?f = "qe_quota_daily_reset_mode ?e = Some ''fixed''"
  let ?s = "if ?x then now else or_else (qe_quota_daily_start ?e) now"
  let ?r = "if ?x \<and> ?f then Some (daily_next zones ?e now) else qe_quota_daily_reset_at ?e"
  have "increment_daily zones now amount ?e = Some (?e\<lparr>qe_quota_daily_used := Some (daily_spent zones now a + amount),
      qe_quota_daily_start := Some ?s, qe_quota_daily_reset_at := ?r\<rparr>)"
    unfolding spent increment_daily_def sql_mode_fixed Let_def
    using lim config_okD(1) [OF cfg] by (simp add: sql_next_eq [OF cfg] keep_daily_reset)
  moreover have "0 \<le> ?s" "?s \<le> now" using step(2,3) now by (simp_all add: exp)
  moreover have "?r = Some (daily_next zones ?e ?s)" "now < daily_next zones ?e ?s" if ?f
    using step(4,5) now that by (simp_all add: exp)
  moreover have "now < ?s + Day" if "\<not> ?f" using step(6) now that by (simp add: exp)
  ultimately show ?thesis by blast
qed

lemma keep_weekly_reset:
  "e\<lparr>qe_quota_weekly_used := u, qe_quota_weekly_start := s, qe_quota_weekly_reset_at := qe_quota_weekly_reset_at e\<rparr>
     = e\<lparr>qe_quota_weekly_used := u, qe_quota_weekly_start := s\<rparr>"
  by (cases e) simp

lemma increment_weekly_spec:
  assumes cfg: "quota_config_ok zones (acc_Extra a)" and now: "7 * Day \<le> now"
    and lim: "0 < or_else (qe_quota_weekly_limit (acc_Extra a)) 0"
    and ok: "window_ok (weekly_next zones (acc_Extra a)) now (qe_quota_weekly_reset_mode (acc_Extra a))
      (qe_quota_weekly_used (acc_Extra a)) (qe_quota_weekly_start (acc_Extra a)) (qe_quota_weekly_reset_at (acc_Extra a))"
  shows "\<exists>s r. increment_weekly zones now amount (acc_Extra a) =
      Some ((acc_Extra a)\<lparr>qe_quota_weekly_used := Some (weekly_spent zones now a + amount),
        qe_quota_weekly_start := Some s, qe_quota_weekly_reset_at := r\<rparr>)
    \<and> 0 \<le> s \<and> s \<le> now \<and> (qe_quota_weekly_reset_mode (acc_Extra a) = Some ''fixed'' \<longrightarrow>
        r = Some (weekly_next zones (acc_Extra a) s) \<and> now < weekly_next zones (acc_Extra a) s)
    \<and> (qe_quota_weekly_reset_mode (acc_Extra a) \<noteq> Some ''fixed'' \<longrightarrow> now < s + 7 * Day)"
proof -
  let ?e = "acc_Extra a"
  note step = weekly.window_step [OF ok [unfolded weekly_next_def], where per = "7 * Day", folded weekly_next_def]
  have over: "IsWeeklyQuotaPeriodExpired zones now a \<longleftrightarrow> (case qe_quota_weekly_start ?e of None \<Rightarrow> True
      | Some s \<Rightarrow> if qe_quota_weekly_reset_mode ?e = Some ''fixed'' then weekly_next zones ?e s \<le> now else s + 7 * Day \<le> now)"
    using ok weekly_unstarted [of a] weekly_expired_eq [OF cfg]
    by (auto simp: window_ok_def split: option.splits)
  have exp: "weeklyExpiredExpr now ?e \<longleftrightarrow> (if qe_quota_weekly_reset_mode ?e = Some ''fixed''
      then or_else (qe_quota_weekly_reset_at ?e) 0 \<le> now else or_else (qe_quota_weekly_start ?e) 0 + 7 * Day \<le> now)"
    by (simp add: weeklyExpiredExpr_def sql_mode_fixed)
  have spent: "weekly_spent zones now a + amount
      = (if weeklyExpiredExpr now ?e then amount else or_else (qe_quota_weekly_used ?e) 0 + amount)"
    unfolding weekly_spent_def over exp GetQuotaWeeklyUsed_def using step(1) [of amount] now by simp
  let ?x = "weeklyExpiredExpr now ?e" and ?f = "qe_quota_weekly_reset_mode ?e = Some ''fixed''"
  let ?s = "if ?x then now else or_else (qe_quota_weekly_start ?e) now"
  let ?r = "if ?x \<and> ?f then Some (weekly_next zones ?e now) else qe_quota_weekly_reset_at ?e"
  have "increment_weekly zones now amount ?e = Some (?e\<lparr>qe_quota_weekly_used := Some (weekly_spent zones now a + amount),
      qe_quota_weekly_start := Some ?s, qe_quota_weekly_reset_at := ?r\<rparr>)"
    unfolding spent increment_weekly_def sql_mode_fixed Let_def
    using lim config_okD(1) [OF cfg] by (simp add: sql_next_eq [OF cfg] keep_weekly_reset)
  moreover have "0 \<le> ?s" "?s \<le> now" using step(2,3) now by (simp_all add: exp)
  moreover have "?r = Some (weekly_next zones ?e ?s)" "now < weekly_next zones ?e ?s" if ?f
    using step(4,5) now that by (simp_all add: exp)
  moreover have "now < ?s + 7 * Day" if "\<not> ?f" using step(6) now that by (simp add: exp)
  ultimately show ?thesis by blast
qed


lemma window_ok_later: "window_ok nxt now mode used start r \<Longrightarrow> now \<le> t \<Longrightarrow> window_ok nxt t mode used start r"
  unfolding window_ok_def by (auto split: option.splits intro: order_trans)

lemma windows_ok_later: "windows_ok zones now e \<Longrightarrow> now \<le> t \<Longrightarrow> windows_ok zones t e"
  by (auto simp: windows_ok_def window_ok_later)

lemma IsQuotaExceeded_spent:
  "IsQuotaExceeded zones now a \<longleftrightarrow>
     0 < GetQuotaLimit a \<and> GetQuotaLimit a \<le> GetQuotaUsed a
     \<or> 0 < GetQuotaDailyLimit a \<and> GetQuotaDailyLimit a \<le> daily_spent zones now a
     \<or> 0 < GetQuotaWeeklyLimit a \<and> GetQuotaWeeklyLimit a \<le> weekly_spent zones now a"
  by (auto simp: IsQuotaExceeded_def daily_spent_def weekly_spent_def)

lemma acc_Extra_set [simp]: "acc_Extra (a\<lparr>acc_Extra := e\<rparr>) = e" "a\<lparr>acc_Extra := acc_Extra a\<rparr> = a"
  by (cases a, simp)+

lemma daily_spent_cong:
  assumes "quota_config (acc_Extra a) = quota_config (acc_Extra b)"
    and "qe_quota_daily_used (acc_Extra a) = qe_quota_daily_used (acc_Extra b)"
    and "qe_quota_daily_start (acc_Extra a) = qe_quota_daily_start (acc_Extra b)"
  shows "daily_spent zones now a = daily_spent zones now b"
  by (simp only: daily_spent_def IsDailyQuotaPeriodExpired_def GetQuotaDailyResetMode_def isFixedDailyPeriodExpired_def
      GetQuotaDailyResetHour_def GetQuotaResetTimezone_def timezone_name_def GetQuotaDailyUsed_def
      assms(2,3) quota_config_fields [OF assms(1)])

lemma weekly_spent_cong:
  assumes "quota_config (acc_Extra a) = quota_config (acc_Extra b)"
    and "qe_quota_weekly_used (acc_Extra a) = qe_quota_weekly_used (acc_Extra b)"
    and "qe_quota_weekly_start (acc_Extra a) = qe_quota_weekly_start (acc_Extra b)"
  shows "weekly_spent zones now a = weekly_spent zones now b"
  by (simp only: weekly_spent_def IsWeeklyQuotaPeriodExpired_def GetQuotaWeeklyResetMode_def
      isFixedWeeklyPeriodExpired_def GetQuotaWeeklyResetDay_def GetQuotaWeeklyResetHour_def
      GetQuotaResetTimezone_def timezone_name_def GetQuotaWeeklyUsed_def assms(2,3) quota_config_fields [OF assms(1)])

text \<open>One dimension of the increment, in the terms of the scheduler: what it charges, that the window
  stays in order, and that nothing outside the dimension changes.\<close>

lemma increment_daily_effect:
  assumes cfg: "quota_config_ok zones e" and now: "7 * Day \<le> now" and ok: "windows_ok zones now e"
  shows "\<exists>e'. increment_daily zones now amount e = Some e' \<and> quota_config e' = quota_config e
     \<and> windows_ok zones now e' \<and> qe_quota_used e' = qe_quota_used e
     \<and> (0 < or_else (qe_quota_daily_limit e) 0 \<longrightarrow> daily_spent zones now (a\<lparr>acc_Extra := e'\<rparr>)
          = daily_spent zones now (a\<lparr>acc_Extra := e\<rparr>) + amount)
     \<and> weekly_spent zones now (a\<lparr>acc_Extra := e'\<rparr>) = weekly_spent zones now (a\<lparr>acc_Extra := e\<rparr>)"
proof (cases "0 < or_else (qe_quota_daily_limit e) 0")
  case False
  then show ?thesis using ok by (simp add: increment_daily_def)
next
  case True
  let ?a = "a\<lparr>acc_Extra := e\<rparr>"
  have w: "window_ok (daily_next zones e) now (qe_quota_daily_reset_mode e) (qe_quota_daily_used e)
      (qe_quota_daily_start e) (qe_quota_daily_reset_at e)"
    using ok True by (simp add: windows_ok_def)
  obtain s r where sr: "increment_daily zones now amount e = Some (e\<lparr>qe_quota_daily_used :=
      Some (daily_spent zones now ?a + amount), qe_quota_daily_start := Some s, qe_quota_daily_reset_at := r\<rparr>)"
    and s: "0 \<le> s" "s \<le> now"
    and fixed: "qe_quota_daily_reset_mode e = Some ''fixed'' \<longrightarrow> r = Some (daily_next zones e s) \<and> now < daily_next zones e s"
    and rolling: "qe_quota_daily_reset_mode e \<noteq> Some ''fixed'' \<longrightarrow> now < s + Day"
    using increment_daily_spec [of zones ?a now amount] cfg now True w by auto
  define e' where "e' = e\<lparr>qe_quota_daily_used := Some (daily_spent zones now ?a + amount),
      qe_quota_daily_start := Some s, qe_quota_daily_reset_at := r\<rparr>"
  have used: "qe_quota_daily_used e' = Some (daily_spent zones now ?a + amount)" by (simp add: e'_def)
  have conf: "quota_config e' = quota_config e" by (simp add: e'_def quota_config_def)
  note cong = quota_config_cong [OF conf] quota_config_fields [OF conf]
  have "\<not> IsDailyQuotaPeriodExpired zones now (a\<lparr>acc_Extra := e'\<rparr>)"
    using daily_expired_eq [of zones "a\<lparr>acc_Extra := e'\<rparr>" s now] cfg s(2) fixed rolling cong
    by (auto simp: e'_def)
  then have "daily_spent zones now (a\<lparr>acc_Extra := e'\<rparr>) = daily_spent zones now ?a + amount"
    using used by (simp add: daily_spent_def [of zones now "a\<lparr>acc_Extra := e'\<rparr>"] GetQuotaDailyUsed_def or_else_def)
  moreover have "windows_ok zones now e'"
    using ok s fixed unfolding windows_ok_def cong by (auto simp: e'_def window_ok_def)
  moreover have "weekly_spent zones now (a\<lparr>acc_Extra := e'\<rparr>) = weekly_spent zones now ?a"
    using conf by (intro weekly_spent_cong) (simp_all add: e'_def)
  ultimately show ?thesis using sr conf by (auto simp: e'_def)
qed

lemma increment_weekly_effect:
  assumes cfg: "quota_config_ok zones e" and now: "7 * Day \<le> now" and ok: "windows_ok zones now e"
  shows "\<exists>e'. increment_weekly zones now amount e = Some e' \<and> quota_config e' = quota_config e
     \<and> windows_ok zones now e' \<and> qe_quota_used e' = qe_quota_used e
     \<and> (0 < or_else (qe_quota_weekly_limit e) 0 \<longrightarrow> weekly_spent zones now (a\<lparr>acc_Extra := e'\<rparr>)
          = weekly_spent zones now (a\<lparr>acc_Extra := e\<rparr>) + amount)
     \<and> daily_spent zones now (a\<lparr>acc_Extra := e'\<rparr>) = daily_spent zones now (a\<lparr>acc_Extra := e\<rparr>)"
proof (cases "0 < or_else (qe_quota_weekly_limit e) 0")
  case False
  then show ?thesis using ok by (simp add: increment_weekly_def)
next
  case True
  let ?a = "a\<lparr>acc_Extra := e\<rparr>"
  have w: "window_ok (weekly_next zones e) now (qe_quota_weekly_reset_mode e) (qe_quota_weekly_used e)
      (qe_quota_weekly_start e) (qe_quota_weekly_reset_at e)"
    using ok True by (simp add: windows_ok_def)
  obtain s r where sr: "increment_weekly zones now amount e = Some (e\<lparr>qe_quota_weekly_used :=
      Some (weekly_spent zones now ?a + amount), qe_quota_weekly_start := Some s, qe_quota_weekly_reset_at := r\<rparr>)"
    and s: "0 \<le> s" "s \<le> now"
    and fixed: "qe_quota_weekly_reset_mode e = Some ''fixed'' \<longrightarrow> r = Some (weekly_next zones e s) \<and> now < weekly_next zones e s"
    and rolling: "qe_quota_weekly_reset_mode e \<noteq> Some ''fixed'' \<longrightarrow> now < s + 7 * Day"
    using increment_weekly_spec [of zones ?a now amount] cfg now True w by auto
  define e' where "e' = e\<lparr>qe_quota_weekly_used := Some (weekly_spent zones now ?a + amount),
      qe_quota_weekly_start := Some s, qe_quota_weekly_reset_at := r\<rparr>"
  have used: "qe_quota_weekly_used e' = Some (weekly_spent zones now ?a + amount)" by (simp add: e'_def)
  have conf: "quota_config e' = quota_config e" by (simp add: e'_def quota_config_def)
  note cong = quota_config_cong [OF conf] quota_config_fields [OF conf]
  have "\<not> IsWeeklyQuotaPeriodExpired zones now (a\<lparr>acc_Extra := e'\<rparr>)"
    using weekly_expired_eq [of zones "a\<lparr>acc_Extra := e'\<rparr>" s now] cfg s(2) fixed rolling cong
    by (auto simp: e'_def)
  then have "weekly_spent zones now (a\<lparr>acc_Extra := e'\<rparr>) = weekly_spent zones now ?a + amount"
    using used by (simp add: weekly_spent_def [of zones now "a\<lparr>acc_Extra := e'\<rparr>"] GetQuotaWeeklyUsed_def or_else_def)
  moreover have "windows_ok zones now e'"
    using ok s fixed unfolding windows_ok_def cong by (auto simp: e'_def window_ok_def)
  moreover have "daily_spent zones now (a\<lparr>acc_Extra := e'\<rparr>) = daily_spent zones now ?a"
    using conf by (intro daily_spent_cong) (simp_all add: e'_def)
  ultimately show ?thesis using sr conf by (auto simp: e'_def)
qed


text \<open>C15: Adding to the quota usage in the database is adding to the usage the scheduler reads. For a
  validated configuration and windows in order, the update succeeds; the total and, where they are
  limited, the spending of the current day and week grow by exactly the amount, whether the period goes
  on or a new one starts, with rolling and with fixed resets; the windows stay in order for all later
  calls; and the account counts as exceeded from then on exactly when one of the sums reaches its limit.\<close>

theorem quota_increment_refines:
  assumes "quota_config_ok zones (acc_Extra a)" "windows_ok zones now (acc_Extra a)" "7 * Day \<le> now"
  shows "\<exists>e'. increment_quota zones now amount (acc_Extra a) = Some e'
     \<and> (\<forall>t \<ge> now. windows_ok zones t e') \<and> quota_config_ok zones e'
     \<and> GetQuotaUsed (a\<lparr>acc_Extra := e'\<rparr>) = GetQuotaUsed a + amount
     \<and> (0 < GetQuotaDailyLimit a \<longrightarrow> daily_spent zones now (a\<lparr>acc_Extra := e'\<rparr>) = daily_spent zones now a + amount)
     \<and> (0 < GetQuotaWeeklyLimit a \<longrightarrow> weekly_spent zones now (a\<lparr>acc_Extra := e'\<rparr>) = weekly_spent zones now a + amount)
     \<and> (IsQuotaExceeded zones now (a\<lparr>acc_Extra := e'\<rparr>) \<longleftrightarrow>
          0 < GetQuotaLimit a \<and> GetQuotaLimit a \<le> GetQuotaUsed a + amount
          \<or> 0 < GetQuotaDailyLimit a \<and> GetQuotaDailyLimit a \<le> daily_spent zones now a + amount
          \<or> 0 < GetQuotaWeeklyLimit a \<and> GetQuotaWeeklyLimit a \<le> weekly_spent zones now a + amount)"
proof -
  define e1 where "e1 = (acc_Extra a)\<lparr>qe_quota_used := Some (GetQuotaUsed a + amount)\<rparr>"
  have conf1: "quota_config e1 = quota_config (acc_Extra a)" by (simp add: e1_def quota_config_def)
  have ok1: "windows_ok zones now e1" "quota_config_ok zones e1"
    using assms quota_config_cong [OF conf1] by (simp_all add: windows_ok_def e1_def)
  have spent1: "daily_spent zones now (a\<lparr>acc_Extra := e1\<rparr>) = daily_spent zones now a"
    "weekly_spent zones now (a\<lparr>acc_Extra := e1\<rparr>) = weekly_spent zones now a"
    using conf1 by (intro daily_spent_cong weekly_spent_cong; simp add: e1_def)+
  obtain e2 where e2: "increment_daily zones now amount e1 = Some e2" "quota_config e2 = quota_config e1"
    "windows_ok zones now e2" "qe_quota_used e2 = qe_quota_used e1"
    "0 < or_else (qe_quota_daily_limit e1) 0 \<longrightarrow> daily_spent zones now (a\<lparr>acc_Extra := e2\<rparr>) = daily_spent zones now a + amount"
    "weekly_spent zones now (a\<lparr>acc_Extra := e2\<rparr>) = weekly_spent zones now a"
    using increment_daily_effect [OF ok1(2) assms(3) ok1(1), of amount a] spent1 by auto
  have ok2: "quota_config_ok zones e2" using quota_config_cong(1) [OF e2(2)] ok1(2) by simp
  obtain e3 where e3: "increment_weekly zones now amount e2 = Some e3" "quota_config e3 = quota_config e2"
    "windows_ok zones now e3" "qe_quota_used e3 = qe_quota_used e2"
    "0 < or_else (qe_quota_weekly_limit e2) 0 \<longrightarrow> weekly_spent zones now (a\<lparr>acc_Extra := e3\<rparr>) = weekly_spent zones now a + amount"
    "daily_spent zones now (a\<lparr>acc_Extra := e3\<rparr>) = daily_spent zones now (a\<lparr>acc_Extra := e2\<rparr>)"
    using increment_weekly_effect [OF ok2 assms(3) e2(3), of amount a] e2(6) by auto
  have inc: "increment_quota zones now amount (acc_Extra a) = Some e3"
    using e2(1) e3(1) by (simp add: increment_quota_def e1_def GetQuotaUsed_def)
  have conf: "quota_config e3 = quota_config (acc_Extra a)" using conf1 e2(2) e3(2) by simp
  note fields = quota_config_fields [OF conf1] quota_config_fields [OF e2(2)] quota_config_fields [OF conf]
  have used: "GetQuotaUsed (a\<lparr>acc_Extra := e3\<rparr>) = GetQuotaUsed a + amount"
    using e2(4) e3(4) by (simp add: GetQuotaUsed_def e1_def or_else_def)
  have daily: "0 < GetQuotaDailyLimit a \<longrightarrow> daily_spent zones now (a\<lparr>acc_Extra := e3\<rparr>) = daily_spent zones now a + amount"
    using e2(5) e3(6) fields by (simp add: GetQuotaDailyLimit_def)
  have weekly: "0 < GetQuotaWeeklyLimit a \<longrightarrow> weekly_spent zones now (a\<lparr>acc_Extra := e3\<rparr>) = weekly_spent zones now a + amount"
    using e3(5) fields by (simp add: GetQuotaWeeklyLimit_def)
  have limits: "GetQuotaLimit (a\<lparr>acc_Extra := e3\<rparr>) = GetQuotaLimit a"
    "GetQuotaDailyLimit (a\<lparr>acc_Extra := e3\<rparr>) = GetQuotaDailyLimit a"
    "GetQuotaWeeklyLimit (a\<lparr>acc_Extra := e3\<rparr>) = GetQuotaWeeklyLimit a"
    using fields by (simp_all add: GetQuotaLimit_def GetQuotaDailyLimit_def GetQuotaWeeklyLimit_def)
  have "IsQuotaExceeded zones now (a\<lparr>acc_Extra := e3\<rparr>) \<longleftrightarrow>
      0 < GetQuotaLimit a \<and> GetQuotaLimit a \<le> GetQuotaUsed a + amount
      \<or> 0 < GetQuotaDailyLimit a \<and> GetQuotaDailyLimit a \<le> daily_spent zones now a + amount
      \<or> 0 < GetQuotaWeeklyLimit a \<and> GetQuotaWeeklyLimit a \<le> weekly_spent zones now a + amount"
    unfolding IsQuotaExceeded_spent limits using used daily weekly by auto
  then show ?thesis
    using inc used daily weekly windows_ok_later [OF e3(3)] quota_config_cong(1) [OF conf] assms(1) by auto
qed

section \<open>Saving a configuration puts the windows in order\<close>

context reset_schedule
begin

lemma normalized_window:
  assumes "0 \<le> last_reset now" "\<And>s. start = Some s \<Longrightarrow> 0 \<le> s \<and> s \<le> now"
  shows "window_ok next_reset now (Some ''fixed'')
     (if stale_start start (last_reset now) then Some 0 else used)
     (if stale_start start (last_reset now) then Some (last_reset now) else start) (Some (next_reset now))"
proof (cases "stale_start start (last_reset now)")
  case True
  then show ?thesis
    using assms(1) last_le [of now] next_from_last [of now "last_reset now"] by (simp add: window_ok_def)
next
  case False
  then obtain s where "start = Some s" "last_reset now \<le> s" by (auto simp: stale_start_def split: option.splits)
  then show ?thesis using assms(2) next_from_last [of now s] by (simp add: window_ok_def stale_start_def)
qed

end

lemma last_reset_nonneg:
  assumes "7 * Day \<le> now"
  shows "0 \<le> lastFixedDailyReset (reset_hour_of h) tz now"
    and "0 \<le> lastFixedWeeklyReset (reset_day_of d) (reset_hour_of h) tz now"
  unfolding daily_grid_of weekly_grid_of
  using last_on_bounds(2) [where p = Day and b = "daily_base (reset_hour_of h) tz" and t = now]
    last_on_bounds(2) [where p = "7 * Day" and b = "weekly_base (reset_day_of d) (reset_hour_of h) tz" and t = now] assms
  by simp_all

text \<open>A usage record in order before it is saved: its periods started in the past, and without a start
  nothing is spent.\<close>

definition usage_recorded :: "time \<Rightarrow> rat option \<Rightarrow> time option \<Rightarrow> bool" where
  "usage_recorded now used start = (case start of None \<Rightarrow> or_else used 0 = 0 | Some s \<Rightarrow> 0 \<le> s \<and> s \<le> now)"

lemma recorded_rolling: "usage_recorded now used start \<Longrightarrow> mode \<noteq> Some ''fixed'' \<Longrightarrow> window_ok nxt now mode used start r"
  by (auto simp: usage_recorded_def window_ok_def split: option.splits)

definition save_quota_config :: "zones \<Rightarrow> time \<Rightarrow> quota_extra \<Rightarrow> quota_extra" where
  "save_quota_config zones now e = NormalizeFixedQuotaWindows zones now (ComputeQuotaResetAt zones now e)"

lemma save_quota_config_eq:
  "quota_config (save_quota_config zones now e) = quota_config e"
  by (simp add: save_quota_config_def NormalizeFixedQuotaWindows_def ComputeQuotaResetAt_def quota_config_def Let_def)

lemma save_daily_fields:
  fixes now :: time
  assumes "quota_config_ok zones e" "qe_quota_daily_reset_mode e = Some ''fixed''" "0 < or_else (qe_quota_daily_limit e) 0"
  defines "lst \<equiv> lastFixedDailyReset (reset_hour_of (qe_quota_daily_reset_hour e)) (zone_of zones e) now"
  shows "qe_quota_daily_used (save_quota_config zones now e)
      = (if stale_start (qe_quota_daily_start e) lst then Some 0 else qe_quota_daily_used e)"
    and "qe_quota_daily_start (save_quota_config zones now e)
      = (if stale_start (qe_quota_daily_start e) lst then Some lst else qe_quota_daily_start e)"
    and "qe_quota_daily_reset_at (save_quota_config zones now e) = Some (daily_next zones e now)"
  using assms(2,3) reset_whole(1,2) [OF config_okD(2) [OF assms(1)]]
  by (auto simp: save_quota_config_def NormalizeFixedQuotaWindows_def ComputeQuotaResetAt_def Let_def lst_def
      timezone_name_def zone_of_def daily_next_def)

lemma save_weekly_fields:
  fixes now :: time
  assumes "quota_config_ok zones e" "qe_quota_weekly_reset_mode e = Some ''fixed''" "0 < or_else (qe_quota_weekly_limit e) 0"
  defines "lst \<equiv> lastFixedWeeklyReset (reset_day_of (qe_quota_weekly_reset_day e))
      (reset_hour_of (qe_quota_weekly_reset_hour e)) (zone_of zones e) now"
  shows "qe_quota_weekly_used (save_quota_config zones now e)
      = (if stale_start (qe_quota_weekly_start e) lst then Some 0 else qe_quota_weekly_used e)"
    and "qe_quota_weekly_start (save_quota_config zones now e)
      = (if stale_start (qe_quota_weekly_start e) lst then Some lst else qe_quota_weekly_start e)"
    and "qe_quota_weekly_reset_at (save_quota_config zones now e) = Some (weekly_next zones e now)"
  using assms(2,3) reset_whole(3,4) [OF config_okD(2) [OF assms(1)]]
  by (auto simp: save_quota_config_def NormalizeFixedQuotaWindows_def ComputeQuotaResetAt_def Let_def lst_def
      timezone_name_def zone_of_def weekly_next_def)

lemma save_rolling_fields:
  "qe_quota_daily_reset_mode e \<noteq> Some ''fixed'' \<Longrightarrow> qe_quota_daily_used (save_quota_config zones now e) = qe_quota_daily_used e
     \<and> qe_quota_daily_start (save_quota_config zones now e) = qe_quota_daily_start e"
  "qe_quota_weekly_reset_mode e \<noteq> Some ''fixed'' \<Longrightarrow> qe_quota_weekly_used (save_quota_config zones now e) = qe_quota_weekly_used e
     \<and> qe_quota_weekly_start (save_quota_config zones now e) = qe_quota_weekly_start e"
  by (auto simp: save_quota_config_def NormalizeFixedQuotaWindows_def ComputeQuotaResetAt_def Let_def)

text \<open>Saving an account's quota configuration (\<open>ComputeQuotaResetAt\<close>, then
  \<open>NormalizeFixedQuotaWindows\<close>) puts its windows in order: whatever the modes before and after, also
  when a quota changes from rolling to fixed resets with usage on it, the stored period starts and ends
  fit together and fit the new configuration, as adding usage requires.\<close>

lemma saved_config_windows_ok:
  assumes "quota_config_ok zones e" "7 * Day \<le> now"
    and "usage_recorded now (qe_quota_daily_used e) (qe_quota_daily_start e)"
    and "usage_recorded now (qe_quota_weekly_used e) (qe_quota_weekly_start e)"
  shows "windows_ok zones now (NormalizeFixedQuotaWindows zones now (ComputeQuotaResetAt zones now e))
     \<and> quota_config_ok zones (NormalizeFixedQuotaWindows zones now (ComputeQuotaResetAt zones now e))"
proof -
  let ?e = "save_quota_config zones now e"
  note conf = save_quota_config_eq [of zones now e]
  note cong = quota_config_cong [OF conf] quota_config_fields [OF conf]
  have start: "qe_quota_daily_start e = Some s \<Longrightarrow> 0 \<le> s \<and> s \<le> now"
    "qe_quota_weekly_start e = Some s \<Longrightarrow> 0 \<le> s \<and> s \<le> now" for s
    using assms(3,4) by (simp_all add: usage_recorded_def)
  have daily: "window_ok (daily_next zones e) now (qe_quota_daily_reset_mode e) (qe_quota_daily_used ?e)
      (qe_quota_daily_start ?e) (qe_quota_daily_reset_at ?e)" if "0 < or_else (qe_quota_daily_limit e) 0"
    using daily.normalized_window [OF last_reset_nonneg(1) [OF assms(2)] start(1), where tz = "zone_of zones e"]
      save_daily_fields [OF assms(1) _ that, of now] save_rolling_fields(1) [of e zones now] recorded_rolling [OF assms(3)]
    by (cases "qe_quota_daily_reset_mode e = Some ''fixed''") (simp_all add: daily_next_def)
  have weekly: "window_ok (weekly_next zones e) now (qe_quota_weekly_reset_mode e) (qe_quota_weekly_used ?e)
      (qe_quota_weekly_start ?e) (qe_quota_weekly_reset_at ?e)" if "0 < or_else (qe_quota_weekly_limit e) 0"
    using weekly.normalized_window [OF last_reset_nonneg(2) [OF assms(2)] start(2), where tz = "zone_of zones e"]
      save_weekly_fields [OF assms(1) _ that, of now] save_rolling_fields(2) [of e zones now] recorded_rolling [OF assms(4)]
    by (cases "qe_quota_weekly_reset_mode e = Some ''fixed''") (simp_all add: weekly_next_def)
  have "windows_ok zones now ?e" using daily weekly by (simp add: windows_ok_def cong)
  then show ?thesis using assms(1) cong(1) by (simp add: save_quota_config_def)
qed

section \<open>A time zone that is set but empty\<close>

text \<open>C16: An account whose \<open>quota_reset_timezone\<close> is the empty string passes the validation and counts as
  UTC in the Go code, but \<open>COALESCE\<close> keeps the empty string and PostgreSQL knows no such zone: once the
  period of a fixed daily quota is over, every update of the usage fails, the whole billing transaction
  with it.\<close>

theorem empty_timezone_stuck:
  assumes "zones '''' = None" "qe_quota_reset_timezone e = Some ''''"
    and "qe_quota_daily_reset_mode e = Some ''fixed''" "0 < or_else (qe_quota_daily_limit e) 0"
    and "or_else (qe_quota_daily_reset_at e) 0 \<le> now"
  shows "increment_quota zones now amount e = None
     \<and> ValidateQuotaResetConfig zones e = ValidateQuotaResetConfig zones (e\<lparr>qe_quota_reset_timezone := None\<rparr>)
     \<and> timezone_name e = ''UTC''"
  using assms
  by (auto simp: increment_quota_def increment_daily_def sql_zone_def dailyExpiredExpr_def timezone_name_def
      ValidateQuotaResetConfig_def or_else_def Let_def split: option.splits)

definition demo_zones :: zones where
  "demo_zones name = (if name = ''UTC'' then Some 0 else if name = ''Asia/Shanghai'' then Some (8 * Hour) else None)"

definition demo_extra :: quota_extra where
  "demo_extra = \<lparr>qe_quota_used = None, qe_quota_limit = Some 100, qe_quota_daily_used = Some 9,
     qe_quota_daily_limit = Some 10, qe_quota_daily_start = Some (20000 * Day), qe_quota_daily_reset_mode = Some ''fixed'',
     qe_quota_daily_reset_hour = Some 4, qe_quota_daily_reset_at = None, qe_quota_weekly_used = None,
     qe_quota_weekly_limit = Some 50, qe_quota_weekly_start = None, qe_quota_weekly_reset_mode = None,
     qe_quota_weekly_reset_day = None, qe_quota_weekly_reset_hour = None, qe_quota_weekly_reset_at = None,
     qe_quota_reset_timezone = Some ''Asia/Shanghai''\<rparr>"

lemma demo_config_ok: "quota_config_ok demo_zones demo_extra"
  unfolding quota_config_ok_def whole_zones_def by (auto simp: demo_zones_def demo_extra_def
      ValidateQuotaResetConfig_def valid_mode_def valid_between_def)

theorem quota_increment_refines_witness:
  "\<exists>e'. increment_quota demo_zones (20000 * Day + Hour) 1 (demo_extra\<lparr>qe_quota_daily_reset_at := Some (20000 * Day + 20 * Hour)\<rparr>)
       = Some e'
     \<and> IsQuotaExceeded demo_zones (20000 * Day + Hour) \<lparr>acc_ID = 1, acc_Type = ''apikey'', acc_Extra = e'\<rparr>"
proof -
  define e where "e = demo_extra\<lparr>qe_quota_daily_reset_at := Some (20000 * Day + 20 * Hour)\<rparr>"
  let ?a = "\<lparr>acc_ID = 1, acc_Type = ''apikey'', acc_Extra = e\<rparr>"
  have conf: "quota_config e = quota_config demo_extra" by (simp add: e_def quota_config_def)
  have cfg: "quota_config_ok demo_zones (acc_Extra ?a)" using demo_config_ok quota_config_cong(1) [OF conf] by simp
  have nxt: "daily_next demo_zones e (20000 * Day) = 20000 * Day + 20 * Hour" unfolding e_def by code_simp
  have ok: "windows_ok demo_zones (20000 * Day + Hour) (acc_Extra ?a)"
    using nxt by (simp add: windows_ok_def window_ok_def) (simp add: e_def demo_extra_def or_else_def)
  have "GetQuotaDailyLimit ?a = 10" "daily_spent demo_zones (20000 * Day + Hour) ?a = 9"
    unfolding e_def by code_simp+
  then show ?thesis
    using quota_increment_refines [OF cfg ok, of 1] by (auto simp: e_def)
qed

theorem empty_timezone_stuck_witness:
  "increment_quota demo_zones (20001 * Day) 1 (demo_extra\<lparr>qe_quota_reset_timezone := Some ''''\<rparr>) = None"
  using empty_timezone_stuck [of demo_zones "demo_extra\<lparr>qe_quota_reset_timezone := Some ''''\<rparr>" "20001 * Day" 1]
  by (simp add: demo_zones_def demo_extra_def or_else_def)

end
