(* ===== verification/Scheduler_Outbox.thy ===== *)
theory Scheduler_Outbox
  imports App_Errors Go_Strings "HOL-Library.Multiset"
begin

text \<open>
  The outbox through which changes of accounts and groups reach the scheduler: the table and statements
  of \<open>repository/scheduler_outbox_repo.go\<close>, the worker of \<open>service/scheduler_snapshot_service.go\<close> that
  polls it, and the watermark kept in Redis (\<open>repository/scheduler_cache.go\<close>).

  The table is a list of rows with the next value of its sequence. A statement is one atomic step, but a
  transaction that inserts a row holds it back until it commits, and several processes poll at the same
  time, each call of the worker to the database or to Redis being a step of its own: this is the relation
  \<open>outbox_step\<close>. The field \<open>sy_handled\<close> records the events whose handler has succeeded. SHA-256 (in
  hexadecimal) and the JSON decoder are parameters; what the handlers do is the subject of
  \<open>Scheduler_Snapshot\<close>.
\<close>

section \<open>Events and rows\<close>

definition SchedulerOutboxEventAccountChanged :: string where
  "SchedulerOutboxEventAccountChanged = ''account_changed''"
definition SchedulerOutboxEventAccountGroupsChanged :: string where
  "SchedulerOutboxEventAccountGroupsChanged = ''account_groups_changed''"
definition SchedulerOutboxEventAccountBulkChanged :: string where
  "SchedulerOutboxEventAccountBulkChanged = ''account_bulk_changed''"
definition SchedulerOutboxEventAccountLastUsed :: string where
  "SchedulerOutboxEventAccountLastUsed = ''account_last_used''"
definition SchedulerOutboxEventGroupChanged :: string where
  "SchedulerOutboxEventGroupChanged = ''group_changed''"
definition SchedulerOutboxEventFullRebuild :: string where
  "SchedulerOutboxEventFullRebuild = ''full_rebuild''"

record outbox_row =
  ob_id :: int
  ob_event_type :: string
  ob_account_id :: "int option"
  ob_group_id :: "int option"
  ob_payload :: "string option"
  ob_created_at :: time
  ob_dedup_key :: "string option"

record outbox =
  ox_rows :: "outbox_row list"
  ox_next :: int

record SchedulerOutboxEvent =
  se_ID :: int
  se_EventType :: string
  se_AccountID :: "int option"
  se_GroupID :: "int option"
  se_Payload :: "string option"
  se_CreatedAt :: time

text \<open>What an event says: its type, account, group and payload.\<close>

type_synonym outbox_content = "string \<times> int option \<times> int option \<times> string option"

definition schedulerOutboxEventSupportsDedup :: "string \<Rightarrow> bool" where
  "schedulerOutboxEventSupportsDedup eventType =
     (eventType \<in> {SchedulerOutboxEventAccountChanged, SchedulerOutboxEventGroupChanged,
                   SchedulerOutboxEventFullRebuild})"

definition dedup_input :: "string \<Rightarrow> int option \<Rightarrow> int option \<Rightarrow> string \<Rightarrow> string" where
  "dedup_input eventType accountID groupID payloadJSON =
     (let num = (\<lambda>v. case v of None \<Rightarrow> '''' | Some n \<Rightarrow> itoa n); z = [CHR 0x00]
      in eventType @ z @ num accountID @ z @ num groupID @ z @ payloadJSON)"

definition schedulerOutboxDedupKey ::
  "(string \<Rightarrow> string) \<Rightarrow> string \<Rightarrow> int option \<Rightarrow> int option \<Rightarrow> string \<Rightarrow> string" where
  "schedulerOutboxDedupKey sha256hex eventType accountID groupID payloadJSON =
     ''scheduler_outbox:'' @ sha256hex (dedup_input eventType accountID groupID payloadJSON)"

section \<open>The statements of the repository\<close>

definition content_key :: "(string \<Rightarrow> string) \<Rightarrow> outbox_content \<Rightarrow> string option" where
  "content_key sha256hex = (\<lambda>(eventType, accountID, groupID, payload).
     if schedulerOutboxEventSupportsDedup eventType then
       Some (schedulerOutboxDedupKey sha256hex eventType accountID groupID
               (case payload of None \<Rightarrow> '''' | Some json \<Rightarrow> json))
     else None)"

definition outbox_entry :: "(string \<Rightarrow> string) \<Rightarrow> time \<Rightarrow> int \<Rightarrow> outbox_content \<Rightarrow> outbox_row" where
  "outbox_entry sha256hex now i c =
     (case c of (eventType, accountID, groupID, payload) \<Rightarrow>
        \<lparr>ob_id = i, ob_event_type = eventType, ob_account_id = accountID, ob_group_id = groupID,
         ob_payload = payload, ob_created_at = now, ob_dedup_key = content_key sha256hex c\<rparr>)"

definition has_key :: "string option \<Rightarrow> outbox_row list \<Rightarrow> bool" where
  "has_key k rows = (k \<noteq> None \<and> list_ex (\<lambda>r. ob_dedup_key r = k) rows)"

text \<open>The whole call outside a running transaction: \<open>payload\<close> is \<open>None\<close> for nil, else what
  \<open>json.Marshal\<close> returns for it. The sequence advances even when the row is a duplicate.\<close>

definition enqueueSchedulerOutbox ::
  "(string \<Rightarrow> string) \<Rightarrow> go_error option \<Rightarrow> time \<Rightarrow> string \<Rightarrow> int option \<Rightarrow> int option
     \<Rightarrow> (go_error + string) option \<Rightarrow> outbox \<Rightarrow> go_error + outbox" where
  "enqueueSchedulerOutbox sha256hex fault now eventType accountID groupID payload ox =
     (case payload of
        Some (Inl err) \<Rightarrow> Inl err
      | _ \<Rightarrow>
          (case fault of Some err \<Rightarrow> Inl err
           | None \<Rightarrow>
               let json = (case payload of Some (Inr json) \<Rightarrow> Some json | _ \<Rightarrow> None);
                   r = outbox_entry sha256hex now (ox_next ox) (eventType, accountID, groupID, json);
                   ox' = ox\<lparr>ox_next := ox_next ox + 1\<rparr>
               in Inr (if has_key (ob_dedup_key r) (ox_rows ox) then ox'
                       else ox'\<lparr>ox_rows := ox_rows ox @ [r]\<rparr>)))"

definition event_of :: "outbox_row \<Rightarrow> SchedulerOutboxEvent" where
  "event_of r = \<lparr>se_ID = ob_id r, se_EventType = ob_event_type r, se_AccountID = ob_account_id r,
     se_GroupID = ob_group_id r, se_Payload = ob_payload r, se_CreatedAt = ob_created_at r\<rparr>"

text \<open>The first rows after an id. \<open>json\<close> is the decoder's error on a payload, if it has one.\<close>

definition select_after :: "int \<Rightarrow> int \<Rightarrow> outbox_row list \<Rightarrow> outbox_row list" where
  "select_after afterID limit rows =
     (let limit = (if limit \<le> 0 then 100 else limit)
      in take (nat limit) (sort_key ob_id (filter (\<lambda>r. afterID < ob_id r) rows)))"

definition release_dedup :: "outbox_row list \<Rightarrow> outbox_row list \<Rightarrow> outbox_row list" where
  "release_dedup selected rows =
     update_where (\<lambda>r. ob_id r \<in> ob_id ` set selected) (\<lambda>r. r\<lparr>ob_dedup_key := None\<rparr>) rows"

fun scan_events :: "(string \<Rightarrow> go_error option) \<Rightarrow> outbox_row list \<Rightarrow> go_error + SchedulerOutboxEvent list" where
  "scan_events json [] = Inr []"
| "scan_events json (r # rs) =
     (case (case ob_payload r of Some p \<Rightarrow> if p = '''' then None else json p | None \<Rightarrow> None) of
        Some err \<Rightarrow> Inl err
      | None \<Rightarrow> map_sum (\<lambda>e. e) ((#) (event_of r)) (scan_events json rs))"

definition ListAfterAndReleaseDedup ::
  "go_error option \<Rightarrow> (string \<Rightarrow> go_error option) \<Rightarrow> int \<Rightarrow> int \<Rightarrow> outbox_row list
     \<Rightarrow> (go_error + SchedulerOutboxEvent list) \<times> outbox_row list" where
  "ListAfterAndReleaseDedup fault json afterID limit rows =
     (case fault of Some err \<Rightarrow> (Inl err, rows)
      | None \<Rightarrow>
          let selected = select_after afterID limit rows
          in (scan_events json selected, release_dedup selected rows))"

definition MaxID :: "outbox_row list \<Rightarrow> int" where
  "MaxID rows = (if rows = [] then 0 else Max (ob_id ` set rows))"

definition schedulerOutboxDefaultCleanSize :: int where "schedulerOutboxDefaultCleanSize = 5000"

definition doomed_rows :: "time \<Rightarrow> int \<Rightarrow> int \<Rightarrow> outbox_row list \<Rightarrow> outbox_row list" where
  "doomed_rows now watermark limit rows =
     take (nat limit)
       (sort_key ob_id (filter (\<lambda>r. ob_id r \<le> watermark \<and> ob_created_at r < now - 10 * Second) rows))"

definition DeleteConsumedUpTo :: "time \<Rightarrow> int \<Rightarrow> int \<Rightarrow> outbox_row list \<Rightarrow> int \<times> outbox_row list" where
  "DeleteConsumedUpTo now watermark limit rows =
     (if watermark \<le> 0 then (0, rows)
      else
        let doomed = doomed_rows now watermark (if limit \<le> 0 then schedulerOutboxDefaultCleanSize else limit) rows;
            rows' = filter (\<lambda>r. ob_id r \<notin> ob_id ` set doomed) rows
        in (int (length rows) - int (length rows'), rows'))"


section \<open>The polling worker\<close>

definition schedulerOutboxCleanupBatch :: int where "schedulerOutboxCleanupBatch = 5000"

text \<open>What the outside contributes to one poll: the errors of the calls (\<open>pe_set_fault\<close> by attempt,
  \<open>pe_delete_fault\<close> by batch), the results of the handlers, the advisory lock and the clock.\<close>

record poll_env =
  pe_get_fault :: "go_error option"
  pe_list_fault :: "go_error option"
  pe_json :: "string \<Rightarrow> go_error option"
  pe_handle :: "SchedulerOutboxEvent \<Rightarrow> go_error option"
  pe_set_fault :: "nat \<Rightarrow> go_error option"
  pe_lock :: "go_error + bool"
  pe_delete_fault :: "nat \<Rightarrow> go_error option"
  pe_now :: time

lemma DeleteConsumedUpTo_shrinks:
  "DeleteConsumedUpTo now w l rows = (n, rows') \<Longrightarrow> 0 < n \<Longrightarrow> length rows' < length rows"
  by (auto simp: DeleteConsumedUpTo_def Let_def split: if_splits)

function delete_batches :: "poll_env \<Rightarrow> nat \<Rightarrow> int \<Rightarrow> outbox_row list \<Rightarrow> outbox_row list" where
  "delete_batches env n watermark rows =
     (if pe_delete_fault env n \<noteq> None then rows
      else
        let (deleted, rows') = DeleteConsumedUpTo (pe_now env) watermark schedulerOutboxCleanupBatch rows
        in if deleted \<le> 0 \<or> deleted < schedulerOutboxCleanupBatch then rows'
           else delete_batches env (Suc n) watermark rows')"
  by pat_completeness auto
termination
  by (relation "measure (\<lambda>(_, _, _, rows). length rows)")
    (auto dest!: sym [of "(_, _)"] DeleteConsumedUpTo_shrinks)

declare delete_batches.simps [simp del]

definition cleanupConsumedOutbox :: "poll_env \<Rightarrow> int \<Rightarrow> outbox_row list \<Rightarrow> outbox_row list" where
  "cleanupConsumedOutbox env watermark rows =
     (if watermark \<le> 0 then rows
      else if pe_lock env \<noteq> Inr True then rows
      else delete_batches env 0 watermark rows)"

fun handle_events :: "(SchedulerOutboxEvent \<Rightarrow> go_error option) \<Rightarrow> SchedulerOutboxEvent list
    \<Rightarrow> go_error option \<times> SchedulerOutboxEvent list" where
  "handle_events handle [] = (None, [])"
| "handle_events handle (e # es) =
     (case handle e of Some err \<Rightarrow> (Some err, []) | None \<Rightarrow> map_prod (\<lambda>err. err) ((#) e) (handle_events handle es))"

definition watermark_written :: "poll_env \<Rightarrow> bool" where
  "watermark_written env = list_ex (\<lambda>i. pe_set_fault env i = None) [0, 1, 2]"

text \<open>Where a polling process is: before a poll, with the watermark it read, with the events it listed
  and those still to be handled, or deleting what was consumed.\<close>

datatype poll_phase =
    Idle
  | Polling int
  | Handling "SchedulerOutboxEvent list" "SchedulerOutboxEvent list"
  | Cleaning int

record outbox_sys =
  sy_rows :: "outbox_row list"
  sy_next :: int
  sy_inflight :: "outbox_row list"
  sy_watermark :: int
  sy_handled :: "SchedulerOutboxEvent list"
  sy_pollers :: "nat \<Rightarrow> poll_phase"

text \<open>One poll without interruption. The lag check at its end only logs and rebuilds snapshots.\<close>

definition pollOutbox :: "poll_env \<Rightarrow> outbox_sys \<Rightarrow> outbox_sys" where
  "pollOutbox env s =
     (if pe_get_fault env \<noteq> None then s
      else
        (case ListAfterAndReleaseDedup (pe_list_fault env) (pe_json env) (sy_watermark s) 200 (sy_rows s) of
           (Inl _, rows) \<Rightarrow> s\<lparr>sy_rows := rows\<rparr>
         | (Inr events, rows) \<Rightarrow>
             let s = s\<lparr>sy_rows := rows\<rparr>
             in if events = [] then s
                else
                  let (err, done) = handle_events (pe_handle env) events;
                      s = s\<lparr>sy_handled := sy_handled s @ done\<rparr>
                  in if err \<noteq> None then s
                     else if \<not> watermark_written env then s
                     else let lastID = se_ID (last events)
                          in s\<lparr>sy_watermark := lastID, sy_rows := cleanupConsumedOutbox env lastID (sy_rows s)\<rparr>))"

section \<open>Processes and transactions side by side\<close>

datatype outbox_label =
    RowInserted outbox_row
  | RowDropped outbox_content
  | RowCommitted outbox_row
  | RowRolledBack outbox_row
  | Polled
  | RowsDeleted
  | WatermarkLost

definition after_list :: "go_error + SchedulerOutboxEvent list \<Rightarrow> poll_phase" where
  "after_list res = (case res of Inl _ \<Rightarrow> Idle | Inr events \<Rightarrow> if events = [] then Idle else Handling events events)"

abbreviation to_phase :: "nat \<Rightarrow> poll_phase \<Rightarrow> outbox_sys \<Rightarrow> outbox_sys" where
  "to_phase p x s \<equiv> s\<lparr>sy_pollers := (sy_pollers s)(p := x)\<rparr>"

text \<open>An insert takes its id when it runs; a duplicate of a visible row is dropped, one of a row that is
  not committed yet waits for it. A process may stop at any point of its poll.\<close>

inductive outbox_step :: "(string \<Rightarrow> string) \<Rightarrow> outbox_label \<Rightarrow> outbox_sys \<Rightarrow> outbox_sys \<Rightarrow> bool"
  for sha256hex :: "string \<Rightarrow> string" where
  insert: "r = outbox_entry sha256hex now (sy_next s) c \<Longrightarrow>
    \<not> has_key (ob_dedup_key r) (sy_rows s @ sy_inflight s) \<Longrightarrow>
    outbox_step sha256hex (RowInserted r) s (s\<lparr>sy_next := sy_next s + 1, sy_inflight := r # sy_inflight s\<rparr>)"
| drop: "has_key (content_key sha256hex c) (sy_rows s) \<Longrightarrow>
    outbox_step sha256hex (RowDropped c) s (s\<lparr>sy_next := sy_next s + 1\<rparr>)"
| commit: "r \<in> set (sy_inflight s) \<Longrightarrow>
    outbox_step sha256hex (RowCommitted r) s
      (s\<lparr>sy_rows := sy_rows s @ [r], sy_inflight := remove1 r (sy_inflight s)\<rparr>)"
| rollback: "r \<in> set (sy_inflight s) \<Longrightarrow>
    outbox_step sha256hex (RowRolledBack r) s (s\<lparr>sy_inflight := remove1 r (sy_inflight s)\<rparr>)"
| read: "sy_pollers s p = Idle \<Longrightarrow>
    outbox_step sha256hex Polled s (to_phase p (Polling (sy_watermark s)) s)"
| list: "sy_pollers s p = Polling w \<Longrightarrow>
    ListAfterAndReleaseDedup fault json w 200 (sy_rows s) = (res, rows) \<Longrightarrow>
    outbox_step sha256hex Polled s (to_phase p (after_list res) (s\<lparr>sy_rows := rows\<rparr>))"
| handle: "sy_pollers s p = Handling events (e # rest) \<Longrightarrow>
    outbox_step sha256hex Polled s
      (to_phase p (Handling events rest) (s\<lparr>sy_handled := sy_handled s @ [e]\<rparr>))"
| publish: "sy_pollers s p = Handling events [] \<Longrightarrow>
    outbox_step sha256hex Polled s
      (to_phase p (Cleaning (se_ID (last events))) (s\<lparr>sy_watermark := se_ID (last events)\<rparr>))"
| delete: "sy_pollers s p = Cleaning w \<Longrightarrow>
    DeleteConsumedUpTo now w schedulerOutboxCleanupBatch (sy_rows s) = (n, rows) \<Longrightarrow>
    outbox_step sha256hex RowsDeleted s (s\<lparr>sy_rows := rows\<rparr>)"
| stop: "outbox_step sha256hex Polled s (to_phase p Idle s)"
| lose: "outbox_step sha256hex WatermarkLost s (s\<lparr>sy_watermark := 0\<rparr>)"

text \<open>Runs all of whose steps are allowed by \<open>ok\<close>.\<close>

inductive outbox_run ::
  "(string \<Rightarrow> string) \<Rightarrow> (outbox_label \<Rightarrow> outbox_sys \<Rightarrow> bool) \<Rightarrow> outbox_sys \<Rightarrow> outbox_sys \<Rightarrow> bool"
  for sha256hex ok where
  start: "outbox_run sha256hex ok s s"
| extend: "outbox_run sha256hex ok s s' \<Longrightarrow> outbox_step sha256hex lab s' s'' \<Longrightarrow> ok lab s' \<Longrightarrow>
    outbox_run sha256hex ok s s''"

inductive_cases outbox_stepE: "outbox_step sha256hex lab s s'"

definition initial_outbox :: outbox_sys where
  "initial_outbox = \<lparr>sy_rows = [], sy_next = 1, sy_inflight = [], sy_watermark = 0, sy_handled = [],
     sy_pollers = (\<lambda>_. Idle)\<rparr>"

text \<open>The bound up to which a process or the watermark takes the rows for consumed, and the ids it is still
  about to handle. A commit is punctual when its row lies beyond all bounds.\<close>

fun phase_bound :: "poll_phase \<Rightarrow> int" where
  "phase_bound Idle = 0"
| "phase_bound (Polling w) = w"
| "phase_bound (Handling events rest) = se_ID (last events)"
| "phase_bound (Cleaning w) = w"

fun phase_events :: "poll_phase \<Rightarrow> SchedulerOutboxEvent list" where
  "phase_events (Handling events rest) = events"
| "phase_events _ = []"

fun phase_todo :: "poll_phase \<Rightarrow> SchedulerOutboxEvent list" where
  "phase_todo (Handling events rest) = rest"
| "phase_todo _ = []"

definition punctual :: "outbox_label \<Rightarrow> outbox_sys \<Rightarrow> bool" where
  "punctual lab s =
     (case lab of
        RowCommitted r \<Rightarrow> sy_watermark s < ob_id r \<and> (\<forall>p. phase_bound (sy_pollers s p) < ob_id r)
      | _ \<Rightarrow> True)"


section \<open>Invariants of the runs\<close>

definition content_of :: "outbox_row \<Rightarrow> outbox_content" where
  "content_of r = (ob_event_type r, ob_account_id r, ob_group_id r, ob_payload r)"

definition event_content :: "SchedulerOutboxEvent \<Rightarrow> outbox_content" where
  "event_content e = (se_EventType e, se_AccountID e, se_GroupID e, se_Payload e)"

lemma content_of_simps [simp]:
  "content_of (outbox_entry sha now i c) = c" "content_of (r\<lparr>ob_dedup_key := k\<rparr>) = content_of r"
  "event_content (event_of r) = content_of r" "se_ID (event_of r) = ob_id r"
  "ob_id (outbox_entry sha now i c) = i" "ob_dedup_key (outbox_entry sha now i c) = content_key sha c"
  by (cases c; simp add: content_of_def event_content_def event_of_def outbox_entry_def)+

definition handled_ids :: "outbox_sys \<Rightarrow> int set" where
  "handled_ids s = se_ID ` set (sy_handled s)"

definition outbox_ids :: "outbox_sys \<Rightarrow> int list" where
  "outbox_ids s = map ob_id (sy_rows s) @ map ob_id (sy_inflight s)"

definition ids_ok :: "outbox_sys \<Rightarrow> bool" where
  "ids_ok s = (distinct (outbox_ids s) \<and> 0 < sy_next s \<and> set (outbox_ids s) \<subseteq> {0<..<sy_next s})"

definition phase_below :: "int \<Rightarrow> poll_phase \<Rightarrow> bool" where
  "phase_below n x = (phase_bound x < n \<and> se_ID ` set (phase_events x) \<subseteq> {..<n}
     \<and> set (phase_todo x) \<subseteq> set (phase_events x))"

definition polls_ok :: "outbox_sys \<Rightarrow> bool" where
  "polls_ok s = (sy_watermark s < sy_next s \<and> handled_ids s \<subseteq> {..<sy_next s}
     \<and> (\<forall>p. phase_below (sy_next s) (sy_pollers s p)))"

text \<open>Rows up to \<open>b\<close> have been handled, but for those in \<open>T\<close>.\<close>

definition settled :: "outbox_sys \<Rightarrow> int \<Rightarrow> int set \<Rightarrow> bool" where
  "settled s b T = (\<forall>r \<in> set (sy_rows s). ob_id r \<le> b \<longrightarrow> ob_id r \<in> handled_ids s \<union> T)"

definition phase_settled :: "outbox_sys \<Rightarrow> poll_phase \<Rightarrow> bool" where
  "phase_settled s x = settled s (phase_bound x) (se_ID ` set (phase_todo x))"

definition all_settled :: "outbox_sys \<Rightarrow> bool" where
  "all_settled s = (settled s (sy_watermark s) {} \<and> (\<forall>p. phase_settled s (sy_pollers s p)))"

definition unseen :: "outbox_sys \<Rightarrow> int \<Rightarrow> bool" where
  "unseen s i = (i \<notin> handled_ids s \<and> (\<forall>p. i \<notin> se_ID ` set (phase_events (sy_pollers s p))))"

definition keys_ok :: "(string \<Rightarrow> string) \<Rightarrow> outbox_sys \<Rightarrow> bool" where
  "keys_ok sha s =
     ((\<forall>r \<in> set (sy_inflight s). unseen s (ob_id r) \<and> ob_dedup_key r = content_key sha (content_of r))
      \<and> (\<forall>r \<in> set (sy_rows s). ob_dedup_key r \<noteq> None
           \<longrightarrow> unseen s (ob_id r) \<and> ob_dedup_key r = content_key sha (content_of r)))"

lemma all_phases_update: "P x \<Longrightarrow> (\<And>q. P (f q)) \<Longrightarrow> P ((f(p := x)) q)"
  by simp

subsection \<open>The statements\<close>

lemma set_select_after: "set (select_after w l rows) \<subseteq> {r \<in> set rows. w < ob_id r}"
  by (auto simp: select_after_def Let_def dest!: in_set_takeD)

lemma sorted_take_upper:
  assumes "sorted (map f xs)" "x \<in> set xs" "f x < f (last (take n xs))" "take n xs \<noteq> []"
  shows "x \<in> set (take n xs)"
proof (rule ccontr)
  assume "x \<notin> set (take n xs)"
  then have "x \<in> set (drop n xs)" using assms(2) by (metis Un_iff append_take_drop_id set_append)
  moreover have "sorted (map f (take n xs) @ map f (drop n xs))" using assms(1) by (metis append_take_drop_id map_append)
  then have "\<forall>a \<in> set (take n xs). \<forall>b \<in> set (drop n xs). f a \<le> f b" unfolding sorted_append by simp
  moreover have "last (take n xs) \<in> set (take n xs)" using assms(4) by simp
  ultimately show False using assms(3) by force
qed

text \<open>The rows of a page are all rows between the id asked for and its last row.\<close>

lemma select_after_gapless:
  assumes "distinct (map ob_id rows)" "r \<in> set rows" "w < ob_id r" "select_after w l rows \<noteq> []"
    and "ob_id r \<le> ob_id (last (select_after w l rows))"
  shows "r \<in> set (select_after w l rows)"
proof (cases "ob_id r = ob_id (last (select_after w l rows))")
  case True
  have "last (select_after w l rows) \<in> set (select_after w l rows)" using assms(4) by simp
  moreover from this have "last (select_after w l rows) \<in> set rows" using set_select_after by blast
  ultimately show ?thesis using distinct_map_same [OF assms(1,2)] True by metis
next
  case False
  then show ?thesis
    using assms by (auto simp: select_after_def Let_def intro!: sorted_take_upper [where f = ob_id])
qed

lemma scan_events_ok: "scan_events json rs = Inr es \<Longrightarrow> es = map event_of rs"
proof (induction rs arbitrary: es)
  case (Cons r rs)
  then show ?case by (cases "scan_events json rs") (auto split: option.splits)
qed simp

lemma release_dedup_ids: "map ob_id (release_dedup sel rows) = map ob_id rows"
  by (simp add: release_dedup_def map_update_where)

lemma release_dedup_row:
  assumes "r \<in> set (release_dedup sel rows)"
  shows "\<exists>r0 \<in> set rows. ob_id r = ob_id r0 \<and> content_of r = content_of r0
     \<and> (ob_dedup_key r \<noteq> None \<longrightarrow> r = r0 \<and> ob_id r \<notin> ob_id ` set sel)"
proof -
  let ?f = "\<lambda>r. if ob_id r \<in> ob_id ` set sel then r\<lparr>ob_dedup_key := None\<rparr> else r"
  obtain r0 where "r0 \<in> set rows" "r = ?f r0" using assms by (auto simp: release_dedup_def update_where_def)
  then show ?thesis by (intro bexI [of _ r0]) auto
qed

lemma release_dedup_has:
  "r \<in> set rows \<Longrightarrow> \<exists>r' \<in> set (release_dedup sel rows). ob_id r' = ob_id r \<and> content_of r' = content_of r"
  by (rule bexI [of _ "if ob_id r \<in> ob_id ` set sel then r\<lparr>ob_dedup_key := None\<rparr> else r"])
    (auto simp: release_dedup_def update_where_def)

lemma list_cases:
  assumes "ListAfterAndReleaseDedup fault json w l rows = (res, rows')"
  obtains (failed) "rows' = rows" "after_list res = Idle"
    | (refused) "rows' = release_dedup (select_after w l rows) rows" "after_list res = Idle"
    | (page) "rows' = release_dedup (select_after w l rows) rows" "select_after w l rows \<noteq> []"
        "after_list res = Handling (map event_of (select_after w l rows)) (map event_of (select_after w l rows))"
proof (cases fault)
  case None
  then have eq: "scan_events json (select_after w l rows) = res" "rows' = release_dedup (select_after w l rows) rows"
    using assms by (auto simp: ListAfterAndReleaseDedup_def Let_def)
  then have "res = Inr (map event_of (select_after w l rows)) \<or> (\<exists>err. res = Inl err)"
    by (cases res) (auto dest: scan_events_ok)
  then show thesis
    using eq(2) by (cases "select_after w l rows = []") (auto simp: after_list_def intro: refused page)
next
  case (Some err)
  then show thesis using assms by (intro failed) (auto simp: ListAfterAndReleaseDedup_def after_list_def)
qed

lemma delete_rows:
  assumes "DeleteConsumedUpTo now w l rows = (n, rows')"
  shows "\<exists>q. rows' = filter q rows \<and> (\<forall>r \<in> set rows. \<not> q r \<longrightarrow> ob_id r \<le> w)"
proof (cases "w \<le> 0")
  case True
  then show ?thesis using assms by (intro exI [of _ "\<lambda>_. True"]) (auto simp: DeleteConsumedUpTo_def)
next
  case False
  let ?d = "doomed_rows now w (if l \<le> 0 then schedulerOutboxDefaultCleanSize else l) rows"
  have "rows' = filter (\<lambda>r. ob_id r \<notin> ob_id ` set ?d) rows" using False assms by (simp add: DeleteConsumedUpTo_def Let_def)
  moreover have "\<forall>d \<in> set ?d. ob_id d \<le> w" by (auto simp: doomed_rows_def dest!: in_set_takeD)
  ultimately show ?thesis by (intro exI [of _ "\<lambda>r. ob_id r \<notin> ob_id ` set ?d"]) force
qed

subsection \<open>Every step keeps them\<close>

lemma ids_event_of [simp]: "se_ID ` event_of ` A = ob_id ` A"
  by (simp add: image_image)

lemma outbox_ids_commit:
  assumes "r \<in> set (sy_inflight s)" "sy_rows s' = sy_rows s @ [r]" "sy_inflight s' = remove1 r (sy_inflight s)"
  shows "mset (outbox_ids s') = mset (outbox_ids s)"
  using assms by (simp add: outbox_ids_def image_mset_Diff)

lemma distinct_submset:
  assumes "distinct ys" "mset xs \<subseteq># mset ys"
  shows "distinct xs"
proof -
  have "count (mset xs) a = (if a \<in> set xs then 1 else 0)" for a
  proof -
    have "count (mset ys) a \<le> 1" using assms(1) by (simp add: distinct_count_atmost_1)
    then have le: "count (mset xs) a \<le> 1" using mset_subset_eq_count [OF assms(2), of a] by linarith
    have iff: "(0 < count (mset xs) a) = (a \<in> set xs)" by simp
    have "n \<le> 1 \<Longrightarrow> (0 < n) = P \<Longrightarrow> n = (if P then 1 else 0)" for n :: nat and P by auto
    from this [OF le iff] show ?thesis .
  qed
  then show ?thesis by (simp add: distinct_count_atmost_1)
qed

lemma ids_ok_subset:
  "ids_ok s \<Longrightarrow> mset (outbox_ids s') \<subseteq># mset (outbox_ids s) \<Longrightarrow> sy_next s' = sy_next s \<Longrightarrow> ids_ok s'"
  unfolding ids_ok_def by (metis distinct_submset set_mset_mono set_mset_mset subset_trans)

lemma ids_ok_step:
  assumes "outbox_step sha lab s s'" "ids_ok s"
  shows "ids_ok s'"
  using assms
proof (induction rule: outbox_step.induct)
  case (insert r now s c)
  then show ?case by (fastforce simp: ids_ok_def outbox_ids_def)
next
  case (drop c s)
  then show ?case by (fastforce simp: ids_ok_def outbox_ids_def)
next
  case (commit r s)
  then show ?case by (intro ids_ok_subset [OF commit(2)]) (simp_all add: outbox_ids_commit)
next
  case (rollback r s)
  show ?case
    by (rule ids_ok_subset [OF rollback(2)]) (simp_all add: outbox_ids_def image_mset_subseteq_mono)
next
  case (list s p w fault json res rows)
  from list(2) have "map ob_id rows = map ob_id (sy_rows s)"
    by (cases rule: list_cases) (simp_all add: release_dedup_ids)
  with list(3) show ?case by (simp add: ids_ok_def outbox_ids_def)
next
  case (delete s p w now n rows)
  obtain q where "rows = filter q (sy_rows s)" using delete_rows [OF delete(2)] by blast
  then show ?case
    by (intro ids_ok_subset [OF delete(3)]) (simp_all add: outbox_ids_def image_mset_subseteq_mono)
qed (simp_all add: ids_ok_def outbox_ids_def)

lemma phase_below_mono: "phase_below n x \<Longrightarrow> n \<le> n' \<Longrightarrow> phase_below n' x"
  by (auto simp: phase_below_def)

lemma polls_ok_phase:
  "polls_ok s \<Longrightarrow> phase_below (sy_next s) x \<Longrightarrow> sy_watermark s' < sy_next s \<Longrightarrow> handled_ids s' \<subseteq> {..<sy_next s} \<Longrightarrow>
   sy_next s' = sy_next s \<Longrightarrow> sy_pollers s' = (sy_pollers s)(p := x) \<Longrightarrow> polls_ok s'"
  by (simp add: polls_ok_def)

lemma polls_ok_later:
  "polls_ok s \<Longrightarrow> sy_next s \<le> sy_next s' \<Longrightarrow> sy_watermark s' = sy_watermark s \<Longrightarrow> sy_handled s' = sy_handled s \<Longrightarrow>
   sy_pollers s' = sy_pollers s \<Longrightarrow> polls_ok s'"
  by (fastforce simp: polls_ok_def handled_ids_def intro: phase_below_mono)

lemma polls_ok_step:
  assumes "outbox_step sha lab s s'" "ids_ok s" "polls_ok s"
  shows "polls_ok s'"
  using assms
proof (induction rule: outbox_step.induct)
  case (list s p w fault json res rows)
  let ?sel = "select_after w 200 (sy_rows s)"
  have "ob_id ` set ?sel \<subseteq> ob_id ` set (sy_rows s)" using set_select_after by fastforce
  also have "\<dots> \<subseteq> {0<..<sy_next s}" using list(3) by (simp add: ids_ok_def outbox_ids_def)
  finally have "ob_id ` set ?sel \<subseteq> {0<..<sy_next s}" "0 < sy_next s" using list(3) by (simp_all add: ids_ok_def)
  moreover have "?sel \<noteq> [] \<Longrightarrow> ob_id (last ?sel) \<in> ob_id ` set ?sel" by simp
  ultimately have "?sel \<noteq> [] \<Longrightarrow> ob_id (last ?sel) < sy_next s" "ob_id ` set ?sel \<subseteq> {..<sy_next s}" "0 < sy_next s"
    using greaterThanLessThan_iff by blast+
  with list(2) have "phase_below (sy_next s) (after_list res)"
    by (cases rule: list_cases) (auto simp: phase_below_def last_map)
  then show ?case using list(4) by (intro polls_ok_phase [OF list(4)]) (auto simp: polls_ok_def handled_ids_def)
next
  case (handle s p events e rest)
  have "phase_below (sy_next s) (Handling events (e # rest))" using handle(1,3) by (metis polls_ok_def)
  then show ?case
    using handle(3) by (intro polls_ok_phase [OF handle(3), of "Handling events rest"])
      (auto simp: polls_ok_def handled_ids_def phase_below_def)
next
  case (publish s p events)
  have "phase_below (sy_next s) (Handling events [])" using publish(1,3) by (metis polls_ok_def)
  then show ?case
    using publish(3) by (intro polls_ok_phase [OF publish(3)])
      (auto simp: polls_ok_def handled_ids_def phase_below_def)
next
  case (read s p)
  then show ?case
    by (intro polls_ok_phase [OF read(3)]) (auto simp: polls_ok_def phase_below_def handled_ids_def)
next
  case (stop s p)
  then show ?case by (intro polls_ok_phase [OF stop(2)]) (auto simp: polls_ok_def phase_below_def ids_ok_def handled_ids_def)
next
  case (lose s)
  then show ?case by (auto simp: polls_ok_def ids_ok_def handled_ids_def)
qed (auto elim: polls_ok_later)

lemma settled_mono:
  assumes "settled s b T" "ob_id ` set (sy_rows s') \<subseteq> ob_id ` set (sy_rows s)" "handled_ids s \<union> T \<subseteq> handled_ids s' \<union> T'"
  shows "settled s' b T'"
  unfolding settled_def
proof (intro ballI impI)
  fix r
  assume r: "r \<in> set (sy_rows s')" "ob_id r \<le> b"
  then obtain r0 where "r0 \<in> set (sy_rows s)" "ob_id r0 = ob_id r" using assms(2) by (metis imageE image_eqI subsetD)
  then have "ob_id r \<in> handled_ids s \<union> T" using assms(1) r(2) by (metis settled_def)
  then show "ob_id r \<in> handled_ids s' \<union> T'" using assms(3) by blast
qed

lemma settled_zero: "ids_ok s \<Longrightarrow> settled s 0 T"
  by (auto simp: settled_def ids_ok_def outbox_ids_def)

lemma all_settled_mono:
  assumes "all_settled s" "ob_id ` set (sy_rows s') \<subseteq> ob_id ` set (sy_rows s)" "handled_ids s \<subseteq> handled_ids s'"
    and "settled s' (sy_watermark s') {}"
    and "sy_pollers s' = sy_pollers s \<or> (\<exists>p x. sy_pollers s' = (sy_pollers s)(p := x) \<and> phase_settled s' x)"
  shows "all_settled s'"
proof -
  have "phase_settled s' (sy_pollers s q)" for q
    using assms(1) unfolding all_settled_def phase_settled_def
    by (auto intro!: settled_mono [OF _ assms(2)] dest: subsetD [OF assms(3)])
  then show ?thesis using assms(4,5) by (auto simp: all_settled_def)
qed

text \<open>A page settles what it covers: the rows up to the watermark it started from were settled.\<close>

lemma settled_page:
  assumes "ids_ok s" "settled s w {}" "select_after w l (sy_rows s) \<noteq> []"
  shows "settled s (ob_id (last (select_after w l (sy_rows s)))) (ob_id ` set (select_after w l (sy_rows s)))"
  unfolding settled_def
proof (intro ballI impI)
  fix r
  assume r: "r \<in> set (sy_rows s)" "ob_id r \<le> ob_id (last (select_after w l (sy_rows s)))"
  show "ob_id r \<in> handled_ids s \<union> ob_id ` set (select_after w l (sy_rows s))"
  proof (cases "w < ob_id r")
    case True
    have "distinct (map ob_id (sy_rows s))" using assms(1) by (simp add: ids_ok_def outbox_ids_def)
    from select_after_gapless [OF this r(1) True assms(3) r(2)] show ?thesis by simp
  next
    case False
    then show ?thesis using assms(2) r(1) by (simp add: settled_def)
  qed
qed

lemma all_settled_step:
  assumes "outbox_step sha lab s s'" "ids_ok s" "all_settled s" "punctual lab s"
  shows "all_settled s'"
  using assms
proof (induction rule: outbox_step.induct)
  case (commit r s)
  have late: "\<not> ob_id r \<le> sy_watermark s" "\<not> ob_id r \<le> phase_bound (sy_pollers s p)" for p
    using commit(4) by (auto simp: punctual_def not_le)
  then show ?case
    using commit(3) by (auto simp: all_settled_def phase_settled_def settled_def handled_ids_def)
next
  case (read s p)
  then have "phase_settled (to_phase p (Polling (sy_watermark s)) s) (Polling (sy_watermark s))"
    by (simp add: all_settled_def phase_settled_def settled_def handled_ids_def)
  then show ?case
    using read(3) by (intro all_settled_mono [OF read(3)]) (auto simp: all_settled_def settled_def handled_ids_def)
next
  case (list s p w fault json res rows)
  let ?s' = "to_phase p (after_list res) (s\<lparr>sy_rows := rows\<rparr>)"
  have "phase_settled s (Polling w)" using list(1,4) by (metis all_settled_def)
  then have w: "settled s w {}" by (simp add: phase_settled_def)
  from list(2) have "map ob_id rows = map ob_id (sy_rows s)"
    by (cases rule: list_cases) (simp_all add: release_dedup_ids)
  then have same: "ob_id ` set rows = ob_id ` set (sy_rows s)" by (metis list.set_map)
  from list(2) have "phase_settled s (after_list res)"
    by (cases rule: list_cases)
      (use settled_page [OF list(3) w] in \<open>simp_all add: phase_settled_def last_map settled_zero [OF list(3)]\<close>)
  then have new: "phase_settled ?s' (after_list res)"
    unfolding phase_settled_def by (rule settled_mono) (simp_all add: same handled_ids_def)
  have "settled ?s' (sy_watermark s) {}"
    by (rule settled_mono [of s _ "{}"]) (use list(4) in \<open>simp_all add: same handled_ids_def all_settled_def\<close>)
  then show ?case
    by (intro all_settled_mono [OF list(4)]) (use new in \<open>auto simp: same handled_ids_def\<close>)
next
  case (handle s p events e rest)
  let ?s' = "to_phase p (Handling events rest) (s\<lparr>sy_handled := sy_handled s @ [e]\<rparr>)"
  have "phase_settled s (Handling events (e # rest))" using handle(1,3) by (metis all_settled_def)
  then have "phase_settled ?s' (Handling events rest)"
    unfolding phase_settled_def by (auto intro: settled_mono simp: handled_ids_def)
  moreover have "settled ?s' (sy_watermark s) {}"
    by (rule settled_mono [of s _ "{}"]) (use handle(3) in \<open>auto simp: handled_ids_def all_settled_def\<close>)
  ultimately show ?case by (intro all_settled_mono [OF handle(3)]) (auto simp: handled_ids_def)
next
  case (publish s p events)
  let ?s' = "to_phase p (Cleaning (se_ID (last events))) (s\<lparr>sy_watermark := se_ID (last events)\<rparr>)"
  have "phase_settled s (Handling events [])" using publish(1,3) by (metis all_settled_def)
  then have "settled ?s' (se_ID (last events)) {}" unfolding phase_settled_def
    by (auto intro: settled_mono simp: handled_ids_def)
  moreover from this have "phase_settled ?s' (Cleaning (se_ID (last events)))" by (simp add: phase_settled_def)
  ultimately show ?case by (intro all_settled_mono [OF publish(3)]) (auto simp: handled_ids_def)
next
  case (delete s p w now n rows)
  obtain q where "rows = filter q (sy_rows s)" using delete_rows [OF delete(2)] by blast
  then show ?case using delete(4) by (auto simp: all_settled_def phase_settled_def settled_def handled_ids_def)
next
  case (stop s p)
  have "phase_settled (to_phase p Idle s) Idle"
    using settled_zero [OF stop(1), of "{}"] by (simp add: phase_settled_def settled_def handled_ids_def)
  then show ?case using stop(2)
    by (intro all_settled_mono [OF stop(2)]) (auto simp: handled_ids_def all_settled_def settled_def)
next
  case (lose s)
  then show ?case using settled_zero [OF lose(1), of "{}"]
    by (intro all_settled_mono [OF lose(2)]) (auto simp: handled_ids_def settled_def)
qed (auto simp: all_settled_def phase_settled_def settled_def handled_ids_def)

lemma unseen_fresh: "polls_ok s \<Longrightarrow> unseen s (sy_next s)"
  by (force simp: polls_ok_def phase_below_def unseen_def)

lemma unseen_mono:
  assumes "unseen s i" "handled_ids s' \<subseteq> insert j (handled_ids s)" "i \<noteq> j"
    and "sy_pollers s' = sy_pollers s \<or> (\<exists>p x. sy_pollers s' = (sy_pollers s)(p := x) \<and> i \<notin> se_ID ` set (phase_events x))"
  shows "unseen s' i"
  using assms unfolding unseen_def by (metis fun_upd_apply insert_iff subsetD)

lemma keys_ok_mono:
  assumes "keys_ok sha s" "\<And>i. unseen s i \<Longrightarrow> unseen s' i" "set (sy_inflight s') \<subseteq> set (sy_inflight s)"
    and "set (sy_rows s') \<subseteq> set (sy_rows s)"
  shows "keys_ok sha s'"
  using assms unfolding keys_ok_def by blast

lemma keys_ok_step:
  assumes "outbox_step sha lab s s'" "ids_ok s" "polls_ok s" "keys_ok sha s"
  shows "keys_ok sha s'"
  using assms
proof (induction rule: outbox_step.induct)
  case (insert r now s c)
  then show ?case using unseen_fresh [OF insert(4)] by (auto simp: keys_ok_def unseen_def handled_ids_def)
next
  case (commit r s)
  then show ?case by (auto simp: keys_ok_def unseen_def handled_ids_def dest: set_remove1_subset [THEN subsetD])
next
  case (rollback r s)
  then show ?case by (intro keys_ok_mono [OF rollback(4)]) (auto simp: unseen_def handled_ids_def dest: set_remove1_subset [THEN subsetD])
next
  case (list s p w fault json res rows)
  let ?sel = "select_after w 200 (sy_rows s)"
  let ?s' = "to_phase p (after_list res) (s\<lparr>sy_rows := rows\<rparr>)"
  from list(2) have ev: "se_ID ` set (phase_events (after_list res)) \<subseteq> ob_id ` set ?sel"
    by (cases rule: list_cases) simp_all
  have sel: "ob_id ` set ?sel \<subseteq> ob_id ` set (sy_rows s)" using set_select_after by fastforce
  have keep: "unseen ?s' i" if "unseen s i" "i \<notin> ob_id ` set ?sel" for i
    using that ev by (auto simp: unseen_def handled_ids_def)
  have "unseen ?s' (ob_id r)" if "r \<in> set (sy_inflight s)" for r
  proof (rule keep)
    show "unseen s (ob_id r)" using that list(5) by (simp add: keys_ok_def)
    have "ob_id ` set (sy_rows s) \<inter> ob_id ` set (sy_inflight s) = {}"
      using list(3) by (simp add: ids_ok_def outbox_ids_def)
    then show "ob_id r \<notin> ob_id ` set ?sel" using that sel by blast
  qed
  moreover have "unseen ?s' (ob_id r) \<and> ob_dedup_key r = content_key sha (content_of r)"
    if "r \<in> set rows" "ob_dedup_key r \<noteq> None" for r
  proof -
    from list(2) have r: "r \<in> set (sy_rows s)" "ob_id r \<notin> ob_id ` set ?sel \<or> phase_events (after_list res) = []"
      by (cases rule: list_cases; use that in \<open>auto dest!: release_dedup_row\<close>)+
    then have "unseen s (ob_id r)" "ob_dedup_key r = content_key sha (content_of r)"
      using that(2) list(5) unfolding keys_ok_def by blast+
    moreover have "unseen ?s' i" if "unseen s i" "phase_events (after_list res) = []" for i
      using that by (simp add: unseen_def handled_ids_def)
    ultimately show ?thesis using r(2) keep by blast
  qed
  ultimately show ?case using list(5) by (simp add: keys_ok_def)
next
  case (handle s p events e rest)
  have "phase_below (sy_next s) (Handling events (e # rest))" using handle(1,3) by (metis polls_ok_def)
  then have e: "e \<in> set events" by (simp add: phase_below_def)
  have "unseen (to_phase p (Handling events rest) (s\<lparr>sy_handled := sy_handled s @ [e]\<rparr>)) i" if "unseen s i" for i
  proof -
    have "i \<notin> se_ID ` set events" using that handle(1) unfolding unseen_def by (metis phase_events.simps(1))
    then have "i \<noteq> se_ID e" "i \<notin> se_ID ` set (phase_events (Handling events rest))" using e by auto
    then show ?thesis using that by (simp add: unseen_def handled_ids_def)
  qed
  then show ?case by (intro keys_ok_mono [OF handle(4)]) auto
next
  case (delete s p w now n rows)
  obtain q where "rows = filter q (sy_rows s)" using delete_rows [OF delete(2)] by blast
  then show ?case by (intro keys_ok_mono [OF delete(5)]) (auto simp: unseen_def handled_ids_def)
next
  case (drop c s)
  show ?case by (rule keys_ok_mono [OF drop(4)]) (simp_all add: unseen_def handled_ids_def)
next
  case (read s p)
  show ?case by (rule keys_ok_mono [OF read(4)]) (simp_all add: unseen_def handled_ids_def)
next
  case (publish s p events)
  show ?case by (rule keys_ok_mono [OF publish(4)]) (simp_all add: unseen_def handled_ids_def)
next
  case (stop s p)
  show ?case by (rule keys_ok_mono [OF stop(3)]) (simp_all add: unseen_def handled_ids_def)
next
  case (lose s)
  show ?case by (rule keys_ok_mono [OF lose(3)]) (simp_all add: unseen_def handled_ids_def)
qed

definition outbox_inv :: "(string \<Rightarrow> string) \<Rightarrow> outbox_sys \<Rightarrow> bool" where
  "outbox_inv sha s = (ids_ok s \<and> polls_ok s \<and> keys_ok sha s)"

lemma outbox_inv_step: "outbox_step sha lab s s' \<Longrightarrow> outbox_inv sha s \<Longrightarrow> outbox_inv sha s'"
  using ids_ok_step polls_ok_step keys_ok_step by (fastforce simp: outbox_inv_def)

lemma outbox_inv_run: "outbox_run sha ok s s' \<Longrightarrow> outbox_inv sha s \<Longrightarrow> outbox_inv sha s'"
  by (induction rule: outbox_run.induct) (auto intro: outbox_inv_step)

lemma all_settled_run: "outbox_run sha punctual s s' \<Longrightarrow> outbox_inv sha s \<Longrightarrow> all_settled s \<Longrightarrow> all_settled s'"
proof (induction rule: outbox_run.induct)
  case (extend s s' lab s'')
  have "ids_ok s'" using outbox_inv_run [OF extend(1,5)] by (simp add: outbox_inv_def)
  then show ?case using extend all_settled_step by blast
qed

lemma initial_outbox_inv: "outbox_inv sha initial_outbox" "all_settled initial_outbox"
  by (simp_all add: initial_outbox_def outbox_inv_def ids_ok_def outbox_ids_def polls_ok_def phase_below_def
      keys_ok_def all_settled_def phase_settled_def settled_def handled_ids_def)

section \<open>No event is lost\<close>

text \<open>The row with id \<open>i\<close> says \<open>c\<close> wherever it is met, and it is in the table or has been handled.\<close>

definition says :: "int \<Rightarrow> outbox_content \<Rightarrow> outbox_sys \<Rightarrow> bool" where
  "says i c s = ((\<forall>r \<in> set (sy_rows s). ob_id r = i \<longrightarrow> content_of r = c)
     \<and> (\<forall>e \<in> set (sy_handled s). se_ID e = i \<longrightarrow> event_content e = c)
     \<and> (\<forall>p. \<forall>e \<in> set (phase_events (sy_pollers s p)). se_ID e = i \<longrightarrow> event_content e = c)
     \<and> i \<notin> ob_id ` set (sy_inflight s) \<and> i < sy_next s)"

definition tracked :: "int \<Rightarrow> outbox_content \<Rightarrow> outbox_sys \<Rightarrow> bool" where
  "tracked i c s = (says i c s \<and> (i \<in> ob_id ` set (sy_rows s) \<or> i \<in> handled_ids s))"

lemma says_step:
  assumes "outbox_step sha lab s s'" "outbox_inv sha s" "says i c s"
  shows "says i c s'"
  using assms
proof (induction rule: outbox_step.induct)
  case (list s p w fault json res rows)
  let ?sel = "select_after w 200 (sy_rows s)"
  have "\<forall>r \<in> set rows. ob_id r = i \<longrightarrow> content_of r = c"
    using list(2) by (cases rule: list_cases)
      (use list(4) in \<open>auto simp: says_def dest!: release_dedup_row\<close>)
  moreover have "\<forall>e \<in> set (phase_events (after_list res)). se_ID e = i \<longrightarrow> event_content e = c"
    using list(2) by (cases rule: list_cases)
      (use list(4) set_select_after [of w 200 "sy_rows s"] in \<open>auto simp: says_def\<close>)
  ultimately show ?case using list(4) by (simp add: says_def)
next
  case (handle s p events e rest)
  have "phase_below (sy_next s) (Handling events (e # rest))"
    using handle(1,2) by (metis outbox_inv_def polls_ok_def)
  then have "e \<in> set (phase_events (sy_pollers s p))" using handle(1) by (simp add: phase_below_def)
  then have "se_ID e = i \<longrightarrow> event_content e = c" using handle(3) by (auto simp: says_def)
  moreover have "\<forall>e \<in> set events. se_ID e = i \<longrightarrow> event_content e = c"
    using handle(1,3) unfolding says_def by (metis phase_events.simps(1))
  ultimately show ?case using handle(3) by (auto simp: says_def)
next
  case (commit r s)
  then show ?case by (auto simp: says_def dest: set_remove1_subset [THEN subsetD])
next
  case (rollback r s)
  then show ?case by (auto simp: says_def dest: set_remove1_subset [THEN subsetD])
next
  case (delete s p w now n rows)
  obtain q where "rows = filter q (sy_rows s)" using delete_rows [OF delete(2)] by blast
  then show ?case using delete(4) by (simp add: says_def)
qed (auto simp: says_def)

lemma tracked_step:
  assumes "outbox_step sha lab s s'" "outbox_inv sha s" "all_settled s" "tracked i c s"
  shows "tracked i c s'"
proof -
  have "i \<in> ob_id ` set (sy_rows s') \<or> i \<in> handled_ids s'"
    using assms(1,3,4)
  proof (induction rule: outbox_step.induct)
    case (list s p w fault json res rows)
    from list(2) have "map ob_id rows = map ob_id (sy_rows s)"
      by (cases rule: list_cases) (simp_all add: release_dedup_ids)
    then have "ob_id ` set rows = ob_id ` set (sy_rows s)" by (metis list.set_map)
    then show ?case using list(4) by (simp add: tracked_def handled_ids_def)
  next
    case (delete s p w now n rows)
    have "phase_settled s (Cleaning w)" using delete(1,3) by (metis all_settled_def)
    then have "settled s w {}" by (simp add: phase_settled_def)
    moreover obtain q where "rows = filter q (sy_rows s)" "\<forall>r \<in> set (sy_rows s). \<not> q r \<longrightarrow> ob_id r \<le> w"
      using delete_rows [OF delete(2)] by blast
    ultimately show ?case using delete(4) by (auto simp: tracked_def handled_ids_def settled_def)
  qed (auto simp: tracked_def handled_ids_def)
  then show ?thesis using says_step [OF assms(1,2)] assms(4) by (simp add: tracked_def)
qed

lemma tracked_run:
  "outbox_run sha punctual s s' \<Longrightarrow> outbox_inv sha s \<Longrightarrow> all_settled s \<Longrightarrow> tracked i c s \<Longrightarrow> tracked i c s'"
proof (induction rule: outbox_run.induct)
  case (extend s s' lab s'')
  then show ?case using outbox_inv_run [OF extend(1)] all_settled_run [OF extend(1)] tracked_step by blast
qed

lemma handled_grows: "outbox_run sha ok s s' \<Longrightarrow> \<exists>new. sy_handled s' = sy_handled s @ new"
proof (induction rule: outbox_run.induct)
  case (extend s s' lab s'')
  from extend(2) have "\<exists>new. sy_handled s'' = sy_handled s' @ new" by (induction rule: outbox_step.induct) auto
  then show ?case using extend(4) by auto
qed simp

text \<open>What the deduplication key covers: a missing payload counts as the empty text.\<close>

definition dedup_fields :: "outbox_content \<Rightarrow> string \<times> int option \<times> int option \<times> string" where
  "dedup_fields c = (case c of (eventType, accountID, groupID, payload) \<Rightarrow>
     (eventType, accountID, groupID, case payload of None \<Rightarrow> '''' | Some json \<Rightarrow> json))"

lemma append_sep_inj:
  "xs @ z # ys = xs' @ z # ys' \<Longrightarrow> z \<notin> set xs \<Longrightarrow> z \<notin> set xs' \<Longrightarrow> xs = xs' \<and> ys = ys'"
proof (induction xs arbitrary: xs')
  case Nil
  then show ?case by (cases xs') auto
next
  case (Cons x xs)
  then show ?case by (cases xs') auto
qed

lemma dedup_input_inj:
  assumes "dedup_input t a g j = dedup_input t' a' g' j'" "CHR 0x00 \<notin> set t" "CHR 0x00 \<notin> set t'"
  shows "t = t' \<and> a = a' \<and> g = g' \<and> j = j'"
proof -
  let ?num = "\<lambda>v. case v of None \<Rightarrow> '''' | Some n \<Rightarrow> itoa n"
  have "\<not> graphic (CHR 0x00)" by (simp add: graphic_def byte_def)
  then have nz: "CHR 0x00 \<notin> set (?num v)" for v using itoa_graphic by (auto split: option.split)
  have inj: "v = v'" if "?num v = ?num v'" for v v'
    using that by (auto split: option.splits simp: itoa_nonempty [symmetric])
  have "t @ CHR 0x00 # (?num a @ CHR 0x00 # (?num g @ CHR 0x00 # j))
      = t' @ CHR 0x00 # (?num a' @ CHR 0x00 # (?num g' @ CHR 0x00 # j'))"
    using assms(1) unfolding dedup_input_def Let_def by simp
  note 1 = append_sep_inj [OF this assms(2,3)]
  note 2 = append_sep_inj [OF conjunct2 [OF 1] nz nz]
  note 3 = append_sep_inj [OF conjunct2 [OF 2] nz nz]
  show ?thesis using 1 2 3 inj by blast
qed

text \<open>Two events that differ but get the same key; the function that hashes then collides on two texts.\<close>

definition collides :: "(string \<Rightarrow> string) \<Rightarrow> outbox_content \<Rightarrow> outbox_content \<Rightarrow> bool" where
  "collides sha c c' = (content_key sha c \<noteq> None \<and> content_key sha c = content_key sha c' \<and> dedup_fields c \<noteq> dedup_fields c')"

lemma collides_hash:
  assumes "collides sha c c'"
  obtains x y where "x \<noteq> y" "sha x = sha y"
proof -
  have "CHR 0x00 \<notin> set t" if "schedulerOutboxEventSupportsDedup t" for t
    using that by (auto simp: schedulerOutboxEventSupportsDedup_def SchedulerOutboxEventAccountChanged_def
        SchedulerOutboxEventGroupChanged_def SchedulerOutboxEventFullRebuild_def)
  then have "\<not> inj sha"
    using assms by (cases c; cases c')
      (auto simp: collides_def content_key_def schedulerOutboxDedupKey_def dedup_fields_def dest!: injD dedup_input_inj split: if_splits)
  then show thesis using that by (auto simp: inj_def)
qed

definition enqueues :: "outbox_label \<Rightarrow> outbox_content \<Rightarrow> bool" where
  "enqueues lab c = (lab = RowDropped c \<or> (\<exists>r. lab = RowCommitted r \<and> content_of r = c))"

lemma has_key_row: "has_key k rows \<Longrightarrow> \<exists>r \<in> set rows. ob_dedup_key r = k \<and> k \<noteq> None"
  by (auto simp: has_key_def list_ex_iff)

lemma unseen_says:
  "unseen s (ob_id r) \<Longrightarrow> r \<in> set (sy_rows s) \<Longrightarrow> ids_ok s \<Longrightarrow> says (ob_id r) (content_of r) s"
  unfolding says_def ids_ok_def outbox_ids_def unseen_def handled_ids_def
  by (auto dest: distinct_map_same) (metis image_eqI)+

text \<open>A row with the event is in the table after it was enqueued, and nobody has listed it yet.\<close>

lemma enqueued_row:
  assumes fresh: "\<forall>r \<in> set (sy_rows s). \<not> collides sha c (content_of r)"
    and "outbox_inv sha s" "outbox_step sha lab s s1" "enqueues lab c"
  obtains i c' where "dedup_fields c' = dedup_fields c" "i \<notin> handled_ids s" "tracked i c' s1"
proof -
  have inv: "ids_ok s" "keys_ok sha s" "ids_ok s1"
    using assms(2) outbox_inv_step [OF assms(3,2)] by (simp_all add: outbox_inv_def)
  from assms(3) show thesis
  proof cases
    case (drop c0)
    then have "c0 = c" using assms(4) by (simp add: enqueues_def)
    then obtain r where r: "r \<in> set (sy_rows s)" "ob_dedup_key r = content_key sha c" "ob_dedup_key r \<noteq> None"
      using has_key_row [OF drop(3)] by metis
    then have "unseen s (ob_id r)" "ob_dedup_key r = content_key sha (content_of r)"
      using inv(2) by (auto simp: keys_ok_def)
    moreover from this have "dedup_fields (content_of r) = dedup_fields c"
      using fresh r by (auto simp: collides_def)
    moreover have "unseen s1 (ob_id r)" using drop(2) \<open>unseen s (ob_id r)\<close> by (simp add: unseen_def handled_ids_def)
    ultimately show thesis
      using r(1) drop(2) unseen_says [OF _ _ inv(3), of r]
      by (intro that [of "content_of r" "ob_id r"]) (auto simp: tracked_def unseen_def)
  next
    case (commit r)
    then have c: "content_of r = c" using assms(4) by (simp add: enqueues_def)
    have "unseen s (ob_id r)" using inv(2) commit(3) by (simp add: keys_ok_def)
    moreover from this have "unseen s1 (ob_id r)" using commit(2) by (simp add: unseen_def handled_ids_def)
    ultimately show thesis
      using c commit(2) unseen_says [OF _ _ inv(3), of r]
      by (intro that [of c "ob_id r"]) (auto simp: tracked_def unseen_def)
  qed (use assms(4) in \<open>auto simp: enqueues_def\<close>)
qed

text \<open>C13: No event is lost. Take any state that transactions and polling processes reach, side by side, with
  processes stopping anywhere, failing handlers and a watermark that may be lost, as long as every
  transaction commits before a process has read past the id of its row. When an event is enqueued there,
  by a commit or by being dropped as a duplicate, then whatever happens next under the same proviso, either a
  handler succeeds on an event that says the same after that point, or such a row is in the table beyond the
  watermark, where the next poll finds it. Whether an event is a duplicate is decided by a SHA-256 key; nothing is
  assumed of that function but that the key of this event is not also the key of a different event that is in the
  table at that moment.\<close>

theorem no_event_lost:
  assumes "\<forall>r \<in> set (sy_rows s). \<not> collides sha c (content_of r)" "outbox_run sha punctual initial_outbox s"
    and "outbox_step sha lab s s1" "punctual lab s" "enqueues lab c" "outbox_run sha punctual s1 s2"
  shows "(\<exists>new. sy_handled s2 = sy_handled s @ new
            \<and> (\<exists>e \<in> set new. dedup_fields (event_content e) = dedup_fields c))
     \<or> (\<exists>r \<in> set (sy_rows s2). dedup_fields (content_of r) = dedup_fields c \<and> sy_watermark s2 < ob_id r)"
proof -
  have s: "outbox_inv sha s" "all_settled s"
    using outbox_inv_run [OF assms(2)] all_settled_run [OF assms(2)] initial_outbox_inv by auto
  have s1: "outbox_inv sha s1" "all_settled s1"
    using outbox_inv_step [OF assms(3) s(1)] all_settled_step [OF assms(3) _ s(2) assms(4)] s(1)
    by (auto simp: outbox_inv_def)
  have s2: "all_settled s2" using all_settled_run [OF assms(6) s1] .
  obtain i c' where c': "dedup_fields c' = dedup_fields c" and i: "i \<notin> handled_ids s" "tracked i c' s1"
    using enqueued_row [OF assms(1) s(1) assms(3,5)] by blast
  then have t: "tracked i c' s2" using tracked_run [OF assms(6) s1] by blast
  have "outbox_run sha punctual s s1" by (rule outbox_run.extend [where ok = punctual, OF outbox_run.start assms(3,4)])
  from handled_grows [OF this] handled_grows [OF assms(6)]
  obtain n1 n2 where "sy_handled s1 = sy_handled s @ n1" "sy_handled s2 = sy_handled s1 @ n2" by blast
  then have new: "sy_handled s2 = sy_handled s @ (n1 @ n2)" by simp
  show ?thesis
  proof (cases "i \<in> handled_ids s2")
    case True
    then obtain e where e: "e \<in> set (sy_handled s2)" "se_ID e = i" by (auto simp: handled_ids_def)
    then have "event_content e = c'" using t by (simp add: tracked_def says_def)
    moreover have "e \<in> set (n1 @ n2)" using e i(1) new by (auto simp: handled_ids_def)
    ultimately show ?thesis using c' new by blast
  next
    case False
    then obtain r where "r \<in> set (sy_rows s2)" "ob_id r = i" using t by (auto simp: tracked_def)
    moreover have "content_of r = c'" using t calculation by (simp add: tracked_def says_def)
    moreover have "sy_watermark s2 < i" using s2 False calculation by (force simp: all_settled_def settled_def)
    ultimately show ?thesis using c' by auto
  qed
qed

section \<open>A poll catches up\<close>

definition poll_undisturbed :: "poll_env \<Rightarrow> bool" where
  "poll_undisturbed env = (pe_get_fault env = None \<and> pe_list_fault env = None \<and> (\<forall>p. pe_json env p = None)
     \<and> (\<forall>e. pe_handle env e = None) \<and> watermark_written env)"

lemma scan_all: "(\<And>p. json p = None) \<Longrightarrow> scan_events json rs = Inr (map event_of rs)"
  by (induction rs) (auto split: option.split)

lemma handle_all: "(\<And>e. handle e = None) \<Longrightarrow> handle_events handle es = (None, es)"
  by (induction es) auto

lemma select_after_all:
  assumes "length (filter (\<lambda>r. w < ob_id r) rows) \<le> nat l" "0 < l"
  shows "set (select_after w l rows) = {r \<in> set rows. w < ob_id r}"
  using assms by (simp add: select_after_def Let_def)

lemma sorted_last: "sorted (map f xs) \<Longrightarrow> x \<in> set xs \<Longrightarrow> f x \<le> f (last xs)"
  by (induction xs rule: rev_induct) (auto simp: sorted_append)

lemma select_after_last:
  assumes "r \<in> set (select_after w l rows)"
  shows "ob_id r \<le> ob_id (last (select_after w l rows))"
proof -
  have "sorted (map ob_id (select_after w l rows))" by (simp add: select_after_def Let_def sorted_wrt_take flip: take_map)
  then show ?thesis using assms by (rule sorted_last)
qed

lemma delete_batches_subset: "set (delete_batches env n w rows) \<subseteq> set rows"
proof (induction env n w rows rule: delete_batches.induct)
  case (1 env n w rows)
  obtain d rows' where d: "DeleteConsumedUpTo (pe_now env) w schedulerOutboxCleanupBatch rows = (d, rows')"
    by (metis surj_pair)
  then have "set rows' \<subseteq> set rows" using delete_rows by fastforce
  moreover have "set (delete_batches env (Suc n) w rows') \<subseteq> set rows'"
    if "pe_delete_fault env n = None" "\<not> (d \<le> 0 \<or> d < schedulerOutboxCleanupBatch)"
    using 1 [of "(d, rows')" d rows'] that d by simp
  ultimately show ?case using d by (subst delete_batches.simps) auto
qed

lemma cleanup_subset: "set (cleanupConsumedOutbox env w rows) \<subseteq> set rows"
  using delete_batches_subset by (auto simp: cleanupConsumedOutbox_def)

text \<open>An undisturbed poll catches up: it handles the first two hundred rows after the watermark, in the order
  of their ids, each exactly once, and moves the watermark to the last of them. When at most two
  hundred rows are pending, none is pending afterwards.\<close>

lemma poll_catches_up:
  assumes "poll_undisturbed env" "s' = pollOutbox env s"
  shows "sy_handled s' = sy_handled s @ map event_of (select_after (sy_watermark s) 200 (sy_rows s))
     \<and> (length (filter (\<lambda>r. sy_watermark s < ob_id r) (sy_rows s)) \<le> 200
         \<longrightarrow> (\<forall>r \<in> set (sy_rows s). sy_watermark s < ob_id r \<longrightarrow> event_of r \<in> set (sy_handled s'))
           \<and> (\<forall>r \<in> set (sy_rows s'). ob_id r \<le> sy_watermark s'))"
proof -
  let ?sel = "select_after (sy_watermark s) 200 (sy_rows s)"
  let ?rows = "release_dedup ?sel (sy_rows s)"
  have list: "ListAfterAndReleaseDedup (pe_list_fault env) (pe_json env) (sy_watermark s) 200 (sy_rows s)
      = (Inr (map event_of ?sel), ?rows)" "pe_get_fault env = None"
    using assms(1) by (simp_all add: ListAfterAndReleaseDedup_def poll_undisturbed_def scan_all Let_def)
  have hd: "handle_events (pe_handle env) es = (None, es)" for es
    using assms(1) handle_all by (simp add: poll_undisturbed_def)
  have s': "s' = (if ?sel = [] then s\<lparr>sy_rows := ?rows\<rparr>
      else s\<lparr>sy_handled := sy_handled s @ map event_of ?sel, sy_watermark := ob_id (last ?sel),
             sy_rows := cleanupConsumedOutbox env (ob_id (last ?sel)) ?rows\<rparr>)"
    using assms unfolding pollOutbox_def list hd by (simp add: Let_def last_map poll_undisturbed_def)
  have handled: "sy_handled s' = sy_handled s @ map event_of ?sel" unfolding s' by simp
  have pend: "set ?sel = {r \<in> set (sy_rows s). sy_watermark s < ob_id r}"
    if "length (filter (\<lambda>r. sy_watermark s < ob_id r) (sy_rows s)) \<le> 200"
    using select_after_all [of "sy_watermark s" "sy_rows s" 200] that by simp
  have "ob_id r \<le> sy_watermark s'" if le: "length (filter (\<lambda>r. sy_watermark s < ob_id r) (sy_rows s)) \<le> 200"
    and r: "r \<in> set (sy_rows s')" for r
  proof -
    have "set (sy_rows s') \<subseteq> set ?rows" unfolding s' using cleanup_subset by auto
    then obtain r0 where r0: "r0 \<in> set (sy_rows s)" "ob_id r = ob_id r0" using r release_dedup_row by blast
    show ?thesis
    proof (cases "sy_watermark s < ob_id r0")
      case True
      then have "r0 \<in> set ?sel" using pend [OF le] r0(1) by simp
      then show ?thesis using select_after_last r0(2) unfolding s' by fastforce
    next
      case False
      have "sy_watermark s \<le> sy_watermark s'"
        using pend [OF le] last_in_set [of ?sel] unfolding s' by force
      then show ?thesis using False r0(2) by simp
    qed
  qed
  then show ?thesis using handled pend by auto
qed

section \<open>A poll is a run\<close>

text \<open>The worker's function \<open>pollOutbox\<close>, taken without interruption, is one of the runs of the step relation.\<close>

definition polling :: "outbox_label \<Rightarrow> outbox_sys \<Rightarrow> bool" where
  "polling lab s = (lab = Polled \<or> lab = RowsDeleted)"

lemma outbox_run_trans: "outbox_run sha ok s s' \<Longrightarrow> outbox_run sha ok s' s'' \<Longrightarrow> outbox_run sha ok s s''"
  by (rotate_tac, induction rule: outbox_run.induct) (auto intro: outbox_run.extend)

lemma outbox_run_first: "outbox_step sha lab s s' \<Longrightarrow> ok lab s \<Longrightarrow> outbox_run sha ok s' s'' \<Longrightarrow> outbox_run sha ok s s''"
  by (rule outbox_run_trans [OF outbox_run.extend [OF outbox_run.start]])

lemma handle_run:
  assumes "handle_events handle rest = (err, done)" "sy_pollers s p = Handling events rest"
  shows "\<exists>rest'. outbox_run sha polling s (to_phase p (Handling events rest') (s\<lparr>sy_handled := sy_handled s @ done\<rparr>))
     \<and> (err = None \<longrightarrow> rest' = [])"
  using assms
proof (induction rest arbitrary: err "done" s)
  case Nil
  then have "to_phase p (Handling events []) (s\<lparr>sy_handled := sy_handled s @ done\<rparr>) = s" by (simp add: fun_upd_idem)
  then show ?case using outbox_run.start [of sha polling s] by metis
next
  case (Cons e rest)
  show ?case
  proof (cases "handle e")
    case None
    then obtain done' where d: "handle_events handle rest = (err, done')" "done = e # done'" using Cons.prems by (cases "handle_events handle rest") auto
    let ?s = "to_phase p (Handling events rest) (s\<lparr>sy_handled := sy_handled s @ [e]\<rparr>)"
    have "outbox_step sha Polled s ?s" using Cons.prems(2) by (rule outbox_step.handle)
    moreover have sp: "sy_pollers ?s p = Handling events rest" by simp
    moreover obtain rest' where
      "outbox_run sha polling ?s (to_phase p (Handling events rest') (?s\<lparr>sy_handled := sy_handled ?s @ done'\<rparr>))"
      and r: "err = None \<longrightarrow> rest' = []"
      using Cons.IH [OF d(1) sp] by blast
    moreover have "to_phase p (Handling events rest') (?s\<lparr>sy_handled := sy_handled ?s @ done'\<rparr>)
        = to_phase p (Handling events rest') (s\<lparr>sy_handled := sy_handled s @ done\<rparr>)" by (simp add: d(2))
    ultimately have "outbox_run sha polling s (to_phase p (Handling events rest') (s\<lparr>sy_handled := sy_handled s @ done\<rparr>))"
      using outbox_run_first [where ok = polling] by (metis polling_def)
    then show ?thesis using r by blast
  next
    case (Some x)
    then have "(err, done) = (Some x, [])" using Cons.prems(1) by (metis handle_events.simps(2) option.simps(5))
    then have "to_phase p (Handling events (e # rest)) (s\<lparr>sy_handled := sy_handled s @ done\<rparr>) = s" "err \<noteq> None"
      using Cons.prems(2) by (simp_all add: fun_upd_idem)
    then show ?thesis using outbox_run.start [of sha polling s] by metis
  qed
qed

lemma delete_run:
  assumes "sy_pollers s p = Cleaning w"
  shows "outbox_run sha polling s (s\<lparr>sy_rows := delete_batches env n w (sy_rows s)\<rparr>)"
  using assms
proof (induction env n w "sy_rows s" arbitrary: s rule: delete_batches.induct)
  case (1 env n w s)
  obtain d rows' where d: "DeleteConsumedUpTo (pe_now env) w schedulerOutboxCleanupBatch (sy_rows s) = (d, rows')"
    by (metis surj_pair)
  let ?s = "s\<lparr>sy_rows := rows'\<rparr>"
  have step: "outbox_step sha RowsDeleted s ?s" using 1(2) d by (rule outbox_step.delete)
  show ?case
  proof (cases "pe_delete_fault env n = None \<and> \<not> (d \<le> 0 \<or> d < schedulerOutboxCleanupBatch)")
    case True
    then have "outbox_run sha polling ?s (?s\<lparr>sy_rows := delete_batches env (Suc n) w (sy_rows ?s)\<rparr>)"
      using 1(1) [of "(d, rows')" d ?s] 1(2) d by simp
    then show ?thesis using True d
      by (subst delete_batches.simps) (auto intro!: outbox_run_first [OF step] simp: polling_def)
  next
    case False
    then have "delete_batches env n w (sy_rows s) = (if pe_delete_fault env n \<noteq> None then sy_rows s else rows')"
      using d by (subst delete_batches.simps) auto
    moreover have "outbox_run sha polling s ?s"
      by (rule outbox_run_first [OF step]) (simp_all add: polling_def outbox_run.start)
    ultimately show ?thesis using outbox_run.start [of sha polling s] by auto
  qed
qed

lemma cleanup_run:
  assumes "sy_pollers s p = Cleaning w"
  shows "outbox_run sha polling s (s\<lparr>sy_rows := cleanupConsumedOutbox env w (sy_rows s)\<rparr>)"
  using delete_run [OF assms] outbox_run.start [of sha polling s] by (simp add: cleanupConsumedOutbox_def)

lemma pollOutbox_run:
  assumes "sy_pollers s p = Idle"
  shows "outbox_run sha polling s (pollOutbox env s)"
proof (cases "pe_get_fault env")
  case (Some e)
  then show ?thesis by (simp add: pollOutbox_def outbox_run.start)
next
  case None
  have ok: "polling Polled t" for t by (simp add: polling_def)
  obtain res rows where l: "ListAfterAndReleaseDedup (pe_list_fault env) (pe_json env) (sy_watermark s) 200 (sy_rows s)
      = (res, rows)" by (metis surj_pair)
  let ?s1 = "to_phase p (Polling (sy_watermark s)) s"
  let ?s2 = "to_phase p (after_list res) (s\<lparr>sy_rows := rows\<rparr>)"
  have "outbox_step sha Polled ?s1 (to_phase p (after_list res) (?s1\<lparr>sy_rows := rows\<rparr>))"
    by (rule outbox_step.list [of _ _ "sy_watermark s"]) (use l in simp_all)
  then have "outbox_step sha Polled ?s1 ?s2" by simp
  from outbox_run_first [where ok = polling, OF this ok outbox_run.start]
  have s2: "outbox_run sha polling s ?s2"
    by (rule outbox_run_first [where ok = polling, OF outbox_step.read [OF assms] ok])
  have idle: "to_phase p Idle t = t" if "sy_pollers t p = Idle" for t using that by (simp add: fun_upd_idem)
  show ?thesis
  proof (cases "\<exists>events. res = Inr events \<and> events \<noteq> []")
    case False
    then have "pollOutbox env s = s\<lparr>sy_rows := rows\<rparr>" "after_list res = Idle"
      using None l by (auto simp: pollOutbox_def after_list_def split: sum.splits)
    then show ?thesis using s2 idle [of "s\<lparr>sy_rows := rows\<rparr>"] assms by simp
  next
    case True
    then obtain events where ev: "res = Inr events" "events \<noteq> []" by blast
    obtain err "done" where h: "handle_events (pe_handle env) events = (err, done)" by (metis surj_pair)
    let ?t = "s\<lparr>sy_rows := rows, sy_handled := sy_handled s @ done\<rparr>"
    obtain rest where rest: "err = None \<longrightarrow> rest = []"
      and run: "outbox_run sha polling s (to_phase p (Handling events rest) ?t)"
    proof -
      have "sy_pollers ?s2 p = Handling events events" using ev by (simp add: after_list_def)
      from handle_run [OF h this] obtain rest where "err = None \<longrightarrow> rest = []"
        "outbox_run sha polling ?s2 (to_phase p (Handling events rest) (?s2\<lparr>sy_handled := sy_handled ?s2 @ done\<rparr>))" by blast
      moreover have "to_phase p (Handling events rest) (?s2\<lparr>sy_handled := sy_handled ?s2 @ done\<rparr>)
          = to_phase p (Handling events rest) ?t" by simp
      ultimately show thesis using that outbox_run_trans [OF s2] by metis
    qed
    have stop: "outbox_run sha polling s ?t"
      using outbox_run.extend [where ok = polling, OF run outbox_step.stop ok, of p] assms by (simp add: fun_upd_idem)
    show ?thesis
    proof (cases "err = None \<and> watermark_written env")
      case False
      then have "pollOutbox env s = ?t" using None l ev h by (auto simp: pollOutbox_def Let_def)
      then show ?thesis using stop by simp
    next
      case True
      let ?w = "se_ID (last events)"
      let ?u = "to_phase p (Cleaning ?w) (?t\<lparr>sy_watermark := ?w\<rparr>)"
      have st: "outbox_step sha Polled (to_phase p (Handling events []) ?t) ?u"
        using outbox_step.publish [of "to_phase p (Handling events []) ?t" p events sha] by simp
      have "outbox_run sha polling s (to_phase p (Handling events []) ?t)" using run rest True by simp
      from outbox_run.extend [where ok = polling, OF this st ok] have u: "outbox_run sha polling s ?u" .
      let ?rows = "cleanupConsumedOutbox env ?w rows"
      have "outbox_run sha polling ?u (?u\<lparr>sy_rows := ?rows\<rparr>)"
        using cleanup_run [of ?u p ?w sha env] by simp
      with u have v: "outbox_run sha polling s (?u\<lparr>sy_rows := ?rows\<rparr>)" by (rule outbox_run_trans)
      have "pollOutbox env s = to_phase p Idle (?u\<lparr>sy_rows := ?rows\<rparr>)"
        using None l ev h True assms by (simp add: pollOutbox_def Let_def fun_upd_idem)
      then show ?thesis using outbox_run.extend [where ok = polling, OF v outbox_step.stop ok] by metis
    qed
  qed
qed

section \<open>A late commit\<close>

text \<open>The row \<open>i\<close> is visible with its key but lies below the watermark and below what every process has read:
  its transaction took the id early and committed late.\<close>

definition overtaken :: "int \<Rightarrow> outbox_sys \<Rightarrow> bool" where
  "overtaken i s = (0 < i \<and> i \<le> sy_watermark s \<and> unseen s i
     \<and> (\<forall>p. sy_pollers s p = Idle \<or> i \<le> phase_bound (sy_pollers s p))
     \<and> (\<forall>p. set (phase_todo (sy_pollers s p)) \<subseteq> set (phase_events (sy_pollers s p))))"

definition watermark_kept :: "outbox_label \<Rightarrow> outbox_sys \<Rightarrow> bool" where
  "watermark_kept lab s = (lab \<noteq> WatermarkLost)"

lemma overtaken_step:
  assumes "outbox_step sha lab s s'" "watermark_kept lab s" "overtaken i s"
  shows "overtaken i s'"
  using assms
proof (induction rule: outbox_step.induct)
  case (list s p w fault json res rows)
  let ?sel = "select_after w 200 (sy_rows s)"
  have "i \<le> w" using list(1,4) unfolding overtaken_def by (metis phase_bound.simps(2) poll_phase.distinct(1))
  then have beyond: "\<forall>r \<in> set ?sel. i < ob_id r" using set_select_after by fastforce
  moreover have "?sel \<noteq> [] \<Longrightarrow> last ?sel \<in> set ?sel" by simp
  ultimately have "?sel \<noteq> [] \<Longrightarrow> i \<le> ob_id (last ?sel)" by (meson less_imp_le)
  from list(2) this have "after_list res = Idle \<or> i \<le> phase_bound (after_list res)"
    "i \<notin> se_ID ` set (phase_events (after_list res))"
    "set (phase_todo (after_list res)) \<subseteq> set (phase_events (after_list res))"
    by (cases rule: list_cases; use beyond in \<open>auto simp: last_map\<close>)+
  then show ?case using list(4) by (auto simp: overtaken_def unseen_def handled_ids_def)
next
  case (handle s p events e rest)
  then have "i \<le> phase_bound (Handling events rest)" "set (e # rest) \<subseteq> set events" "i \<notin> se_ID ` set events"
    unfolding overtaken_def unseen_def by (metis phase_bound.simps(3) phase_events.simps(1) phase_todo.simps(1) poll_phase.distinct(3))+
  moreover from this have "i \<noteq> se_ID e" by auto
  ultimately show ?case using handle(3) by (auto simp: overtaken_def unseen_def handled_ids_def)
next
  case (publish s p events)
  then have "i \<le> se_ID (last events)"
    unfolding overtaken_def by (metis phase_bound.simps(3) poll_phase.distinct(3))
  then show ?case using publish(3) by (auto simp: overtaken_def unseen_def handled_ids_def)
qed (auto simp: overtaken_def unseen_def handled_ids_def watermark_kept_def)

text \<open>C14: An event whose transaction commits late is lost, and takes later ones with it. Take a state in which a row
  is visible, was never listed, and the watermark as well as every process in the middle of a poll (by the watermark it
  has read, the page it is handling or the bound it is cleaning up to) is at or past its id. Then no run handles the
  event, with any further enqueueing, polling, cleaning and stopping, as long as the watermark is not lost; and as long
  as the row is in the table with its key, no request with the same deduplication key gets a row of its own.\<close>

theorem late_commit_lost:
  assumes "overtaken (ob_id r) s" "outbox_run sha watermark_kept s s'"
  shows "ob_id r \<notin> handled_ids s'
     \<and> (r \<in> set (sy_rows s') \<longrightarrow> ob_dedup_key r \<noteq> None \<longrightarrow>
          \<not> (\<exists>r' s''. outbox_step sha (RowInserted r') s' s'' \<and> ob_dedup_key r' = ob_dedup_key r))"
proof -
  have "overtaken (ob_id r) s'" using assms(2,1)
    by (induction rule: outbox_run.induct) (auto intro: overtaken_step)
  then have "ob_id r \<notin> handled_ids s'" by (simp add: overtaken_def unseen_def)
  moreover have "ob_dedup_key r' \<noteq> ob_dedup_key r"
    if "outbox_step sha (RowInserted r') s' s''" "r \<in> set (sy_rows s')" "ob_dedup_key r \<noteq> None" for r' s''
    using that by (cases rule: outbox_step.cases) (auto simp: has_key_def list_ex_iff)
  ultimately show ?thesis by blast
qed


section \<open>Concrete runs\<close>

definition demo_poll :: poll_env where
  "demo_poll = \<lparr>pe_get_fault = None, pe_list_fault = None, pe_json = (\<lambda>_. None), pe_handle = (\<lambda>_. None),
     pe_set_fault = (\<lambda>_. None), pe_lock = Inr True, pe_delete_fault = (\<lambda>_. None), pe_now = 0\<rparr>"

definition demo_content :: "int \<Rightarrow> outbox_content" where
  "demo_content account = (SchedulerOutboxEventAccountChanged, Some account, None, None)"

definition demo_row :: "int \<Rightarrow> outbox_row" where
  "demo_row i = outbox_entry (\<lambda>t. t) 0 i (demo_content (6 + i))"

lemma demo_row_simps [simp]: "ob_id (demo_row i) = i" "content_of (demo_row i) = demo_content (6 + i)"
  "ob_dedup_key (demo_row i) = content_key (\<lambda>t. t) (demo_content (6 + i))"
  by (simp_all add: demo_row_def)

lemma demo_keys: "content_key (\<lambda>t. t) (demo_content a) \<noteq> None"
  "content_key (\<lambda>t. t) (demo_content a) = content_key (\<lambda>t. t) (demo_content b) \<longleftrightarrow> a = b"
proof -
  show some: "content_key (\<lambda>t. t) (demo_content a) \<noteq> None" for a
    by (simp add: content_key_def demo_content_def schedulerOutboxEventSupportsDedup_def)
  show "content_key (\<lambda>t. t) (demo_content a) = content_key (\<lambda>t. t) (demo_content b) \<longleftrightarrow> a = b"
    using collides_hash [of "\<lambda>t. t" "demo_content a" "demo_content b"] some
    by (fastforce simp: collides_def dedup_fields_def demo_content_def)
qed

definition one_inflight :: outbox_sys where
  "one_inflight = initial_outbox\<lparr>sy_next := 2, sy_inflight := [demo_row 1]\<rparr>"

lemma demo_insert: "outbox_step (\<lambda>t. t) (RowInserted (demo_row 1)) initial_outbox one_inflight"
  using outbox_step.insert [of "demo_row 1" "\<lambda>t. t" 0 initial_outbox "demo_content 7"]
  by (simp add: demo_row_def initial_outbox_def one_inflight_def has_key_def)

definition one_pending :: outbox_sys where
  "one_pending = initial_outbox\<lparr>sy_next := 2, sy_rows := [demo_row 1]\<rparr>"

lemma demo_commit: "outbox_step (\<lambda>t. t) (RowCommitted (demo_row 1)) one_inflight one_pending"
  using outbox_step.commit [of "demo_row 1" one_inflight "\<lambda>t. t"]
  by (simp add: one_inflight_def one_pending_def initial_outbox_def)

lemma demo_poll_undisturbed: "poll_undisturbed demo_poll"
  by (simp add: poll_undisturbed_def demo_poll_def watermark_written_def)

lemma outbox_run_mono: "outbox_run sha ok s s' \<Longrightarrow> (\<And>lab t. ok lab t \<Longrightarrow> ok' lab t) \<Longrightarrow> outbox_run sha ok' s s'"
  by (induction rule: outbox_run.induct) (auto intro: outbox_run.intros)

text \<open>The event is requested again while its first row waits: the request is dropped, and a poll handles the row.\<close>

definition again_dropped :: outbox_sys where
  "again_dropped = one_pending\<lparr>sy_next := 3\<rparr>"

lemma demo_again: "outbox_step (\<lambda>t. t) (RowDropped (demo_content 7)) one_pending again_dropped"
  using outbox_step.drop [of "\<lambda>t. t" "demo_content 7" one_pending] demo_keys(1) [of 7]
  by (simp add: again_dropped_def one_pending_def has_key_def)

lemma demo_again_polled:
  "sy_watermark (pollOutbox demo_poll again_dropped) = 1"
  "\<forall>r \<in> set (sy_rows (pollOutbox demo_poll again_dropped)). ob_id r = 1"
proof -
  have "select_after 0 200 [demo_row 1] = [demo_row 1]" by (simp add: select_after_def)
  moreover have "watermark_written demo_poll" using demo_poll_undisturbed by (simp add: poll_undisturbed_def)
  ultimately have polled: "sy_watermark (pollOutbox demo_poll again_dropped) = 1"
    "sy_rows (pollOutbox demo_poll again_dropped) = cleanupConsumedOutbox demo_poll 1 (release_dedup [demo_row 1] [demo_row 1])"
    by (simp_all add: pollOutbox_def demo_poll_def again_dropped_def one_pending_def initial_outbox_def Let_def
        ListAfterAndReleaseDedup_def scan_all handle_all)
  then show "sy_watermark (pollOutbox demo_poll again_dropped) = 1" by simp
  have "ob_id ` set (release_dedup [demo_row 1] [demo_row 1]) = {1}"
    by (simp only: set_map [symmetric] release_dedup_ids) simp
  then show "\<forall>r \<in> set (sy_rows (pollOutbox demo_poll again_dropped)). ob_id r = 1"
    using cleanup_subset [of demo_poll 1 "release_dedup [demo_row 1] [demo_row 1]"] unfolding polled(2) by blast
qed

theorem no_event_lost_witness:
  "sy_rows one_pending = [demo_row 1] \<and> outbox_step (\<lambda>t. t) (RowDropped (demo_content 7)) one_pending again_dropped
   \<and> (\<exists>new. sy_handled (pollOutbox demo_poll again_dropped) = sy_handled one_pending @ new
        \<and> (\<exists>e \<in> set new. dedup_fields (event_content e) = dedup_fields (demo_content 7)))"
proof -
  have ok: "punctual lab s" if "\<And>r. lab \<noteq> RowCommitted r" for lab s
    using that by (cases lab) (auto simp: punctual_def)
  have run: "outbox_run (\<lambda>t. t) punctual initial_outbox one_pending"
    by (rule outbox_run.extend [where ok = punctual, OF outbox_run.extend [where ok = punctual, OF outbox_run.start demo_insert] demo_commit])
      (simp_all add: punctual_def one_inflight_def initial_outbox_def)
  have poll: "outbox_run (\<lambda>t. t) punctual again_dropped (pollOutbox demo_poll again_dropped)"
    using pollOutbox_run [of again_dropped 0 "\<lambda>t. t" demo_poll]
    by (rule outbox_run_mono) (auto simp: again_dropped_def one_pending_def initial_outbox_def polling_def punctual_def)
  have fresh: "\<forall>r \<in> set (sy_rows one_pending). \<not> collides (\<lambda>t. t) (demo_content 7) (content_of r)"
    by (simp add: one_pending_def collides_def)
  have "(\<exists>new. sy_handled (pollOutbox demo_poll again_dropped) = sy_handled one_pending @ new
        \<and> (\<exists>e \<in> set new. dedup_fields (event_content e) = dedup_fields (demo_content 7)))
     \<or> (\<exists>r \<in> set (sy_rows (pollOutbox demo_poll again_dropped)). dedup_fields (content_of r) = dedup_fields (demo_content 7)
          \<and> sy_watermark (pollOutbox demo_poll again_dropped) < ob_id r)"
    by (rule no_event_lost [OF fresh run demo_again _ _ poll]) (simp_all add: ok enqueues_def)
  then show ?thesis using demo_again_polled demo_again by (auto simp: one_pending_def)
qed

text \<open>The first transaction takes id 1, the second takes id 2 and commits; a poll handles it and moves the
  watermark to 2; then the first one commits.\<close>

definition two_inflight :: outbox_sys where
  "two_inflight = initial_outbox\<lparr>sy_next := 3, sy_inflight := [demo_row 2, demo_row 1]\<rparr>"

definition second_committed :: outbox_sys where
  "second_committed = initial_outbox\<lparr>sy_next := 3, sy_inflight := [demo_row 1], sy_rows := [demo_row 2]\<rparr>"

definition first_late :: outbox_sys where
  "first_late = (let s = pollOutbox demo_poll second_committed
     in s\<lparr>sy_rows := sy_rows s @ [demo_row 1], sy_inflight := []\<rparr>)"

lemma demo_steps:
  "outbox_step (\<lambda>t. t) (RowInserted (demo_row 2)) one_inflight two_inflight"
  "outbox_step (\<lambda>t. t) (RowCommitted (demo_row 2)) two_inflight second_committed"
  "outbox_step (\<lambda>t. t) (RowCommitted (demo_row 1)) (pollOutbox demo_poll second_committed) first_late"
proof -
  have differ: "demo_row 1 \<noteq> demo_row 2" by (metis demo_row_simps(1) one_eq_numeral_iff semiring_norm(85))
  show "outbox_step (\<lambda>t. t) (RowInserted (demo_row 2)) one_inflight two_inflight"
    using outbox_step.insert [of "demo_row 2" "\<lambda>t. t" 0 one_inflight "demo_content 8"]
    by (simp add: one_inflight_def two_inflight_def initial_outbox_def has_key_def demo_keys demo_row_def)
  show "outbox_step (\<lambda>t. t) (RowCommitted (demo_row 2)) two_inflight second_committed"
    using outbox_step.commit [of "demo_row 2" two_inflight "\<lambda>t. t"] differ
    by (simp add: two_inflight_def second_committed_def initial_outbox_def)
  have "sy_inflight (pollOutbox demo_poll second_committed) = [demo_row 1]"
    by (simp add: pollOutbox_def second_committed_def Let_def split: prod.split sum.split)
  then show "outbox_step (\<lambda>t. t) (RowCommitted (demo_row 1)) (pollOutbox demo_poll second_committed) first_late"
    using outbox_step.commit [of "demo_row 1" "pollOutbox demo_poll second_committed" "\<lambda>t. t"]
    by (simp add: first_late_def Let_def)
qed

lemma demo_polled:
  "sy_watermark (pollOutbox demo_poll second_committed) = 2"
  "sy_handled (pollOutbox demo_poll second_committed) = [event_of (demo_row 2)]"
  "sy_pollers (pollOutbox demo_poll second_committed) p = Idle"
proof -
  have "select_after 0 200 [demo_row 2] = [demo_row 2]" by (simp add: select_after_def)
  moreover have "watermark_written demo_poll" using demo_poll_undisturbed by (simp add: poll_undisturbed_def)
  ultimately show "sy_watermark (pollOutbox demo_poll second_committed) = 2"
    "sy_handled (pollOutbox demo_poll second_committed) = [event_of (demo_row 2)]"
    "sy_pollers (pollOutbox demo_poll second_committed) p = Idle"
    by (simp_all add: pollOutbox_def demo_poll_def second_committed_def initial_outbox_def Let_def
        ListAfterAndReleaseDedup_def scan_all handle_all)
qed

theorem late_commit_lost_witness:
  "\<exists>s. outbox_run (\<lambda>t. t) watermark_kept initial_outbox s \<and> demo_row 1 \<in> set (sy_rows s)
     \<and> ob_id (demo_row 1) \<notin> handled_ids s
     \<and> \<not> (\<exists>r' s''. outbox_step (\<lambda>t. t) (RowInserted r') s s'' \<and> ob_dedup_key r' = ob_dedup_key (demo_row 1))"
proof (intro exI conjI)
  let ?run = "outbox_run (\<lambda>t. t) watermark_kept"
  have kept: "watermark_kept lab t" if "lab \<noteq> WatermarkLost" for lab t using that by (simp add: watermark_kept_def)
  note extend = outbox_run.extend [where ok = watermark_kept, OF _ _ kept]
  have "?run initial_outbox second_committed"
    by (rule extend [OF extend [OF extend [OF outbox_run.start demo_insert] demo_steps(1)] demo_steps(2)]) simp_all
  moreover have "?run second_committed (pollOutbox demo_poll second_committed)"
    using pollOutbox_run [of second_committed 0 "\<lambda>t. t" demo_poll]
    by (rule outbox_run_mono) (auto simp: second_committed_def initial_outbox_def polling_def watermark_kept_def)
  ultimately have "?run initial_outbox (pollOutbox demo_poll second_committed)" by (rule outbox_run_trans)
  then show "?run initial_outbox first_late" by (rule extend [OF _ demo_steps(3)]) simp
  show row: "demo_row 1 \<in> set (sy_rows first_late)" by (simp add: first_late_def Let_def)
  have "overtaken (ob_id (demo_row 1)) first_late"
    by (simp add: overtaken_def unseen_def handled_ids_def first_late_def Let_def demo_polled)
  from late_commit_lost [OF this outbox_run.start] row
  show "ob_id (demo_row 1) \<notin> handled_ids first_late"
    "\<not> (\<exists>r' s''. outbox_step (\<lambda>t. t) (RowInserted r') first_late s'' \<and> ob_dedup_key r' = ob_dedup_key (demo_row 1))"
    using demo_keys(1) by auto
qed

end
