(* ===== verification/Usage_Billing.thy ===== *)
theory Usage_Billing
  imports Billing Account_Quota Scheduler_Outbox
begin

text \<open>
  Charging a request: the command of \<open>service/usage_billing.go\<close> and \<open>service/gateway_service.go\<close>, the
  transaction of \<open>repository/usage_billing_repo.go\<close> that applies it at most once, the archive of its
  deduplication keys (\<open>repository/dashboard_aggregation_repo.go\<close>) and the rate-limit windows of
  \<open>service/api_key.go\<close>.

  The database is the record \<open>billing_db\<close>: the rows of the two deduplication tables as lists, the other
  tables as maps from ids. \<open>Apply\<close> is one transaction; transactions of the same key wait for each other
  on the unique index and updates of the same row on its lock, so they are taken one after the other,
  while batches of the archive job may commit between the statements of the claim. Every statement may
  fail, and the commit may fail before or after it took effect. SHA-256 (in hexadecimal) is a parameter.
\<close>

section \<open>The command\<close>

record UsageBillingCommand =
  uc_RequestID :: string
  uc_APIKeyID :: int
  uc_RequestFingerprint :: string
  uc_RequestPayloadHash :: string
  uc_UserID :: int
  uc_AccountID :: int
  uc_SubscriptionID :: "int option"
  uc_AccountType :: string
  uc_Model :: string
  uc_ServiceTier :: string
  uc_ReasoningEffort :: string
  uc_BillingType :: int
  uc_InputTokens :: int
  uc_OutputTokens :: int
  uc_CacheCreationTokens :: int
  uc_CacheReadTokens :: int
  uc_ImageCount :: int
  uc_MediaType :: string
  uc_BalanceCost :: rat
  uc_SubscriptionCost :: rat
  uc_APIKeyQuotaCost :: rat
  uc_APIKeyRateLimitCost :: rat
  uc_AccountQuotaCost :: rat

text \<open>The verb \<open>%0.10f\<close>: ten decimals, rounded to the nearest, ties to even.\<close>

definition round_even :: "rat \<Rightarrow> int" where
  "round_even x =
     (let f = \<lfloor>x\<rfloor>; r = x - of_int f
      in if r < 1 / 2 then f else if 1 / 2 < r then f + 1 else if even f then f else f + 1)"

definition fmt_f10 :: "rat \<Rightarrow> string" where
  "fmt_f10 x =
     (let n = nat (round_even (\<bar>x\<bar> * 10 ^ 10)); d = utoa (n mod 10 ^ 10)
      in (if x < 0 then ''-'' else '''') @ utoa (n div 10 ^ 10) @ ''.'' @ replicate (10 - length d) (CHR ''0'') @ d)"

definition valueOrZero :: "int option \<Rightarrow> int" where
  "valueOrZero v = (case v of None \<Rightarrow> 0 | Some n \<Rightarrow> n)"

definition fingerprint_fields :: "UsageBillingCommand \<Rightarrow> string list" where
  "fingerprint_fields c =
     [itoa (uc_UserID c), itoa (uc_AccountID c), itoa (uc_APIKeyID c), trim_space (uc_AccountType c),
      trim_space (uc_Model c), trim_space (uc_ServiceTier c), trim_space (uc_ReasoningEffort c),
      itoa (uc_BillingType c), itoa (uc_InputTokens c), itoa (uc_OutputTokens c),
      itoa (uc_CacheCreationTokens c), itoa (uc_CacheReadTokens c), itoa (uc_ImageCount c),
      trim_space (uc_MediaType c), itoa (valueOrZero (uc_SubscriptionID c)), fmt_f10 (uc_BalanceCost c),
      fmt_f10 (uc_SubscriptionCost c), fmt_f10 (uc_APIKeyQuotaCost c), fmt_f10 (uc_APIKeyRateLimitCost c),
      fmt_f10 (uc_AccountQuotaCost c)]"

fun join_bars :: "string list \<Rightarrow> string" where
  "join_bars [] = ''''"
| "join_bars [s] = s"
| "join_bars (s # ss) = s @ ''|'' @ join_bars ss"

definition buildUsageBillingFingerprint :: "(string \<Rightarrow> string) \<Rightarrow> UsageBillingCommand \<Rightarrow> string" where
  "buildUsageBillingFingerprint sha256hex c =
     (let raw = join_bars (fingerprint_fields c);
          payloadHash = trim_space (uc_RequestPayloadHash c)
      in sha256hex (if payloadHash \<noteq> '''' then raw @ ''|'' @ payloadHash else raw))"

definition HashUsageRequestPayload :: "(string \<Rightarrow> string) \<Rightarrow> string \<Rightarrow> string" where
  "HashUsageRequestPayload sha256hex payload = (if payload = '''' then '''' else sha256hex payload)"

definition Normalize :: "(string \<Rightarrow> string) \<Rightarrow> UsageBillingCommand \<Rightarrow> UsageBillingCommand" where
  "Normalize sha256hex c =
     (let c = c\<lparr>uc_RequestID := trim_space (uc_RequestID c)\<rparr>
      in if trim_space (uc_RequestFingerprint c) = ''''
         then c\<lparr>uc_RequestFingerprint := buildUsageBillingFingerprint sha256hex c\<rparr> else c)"

section \<open>The tables\<close>

record dedup_row =
  dr_request_id :: string
  dr_api_key_id :: int
  dr_fingerprint :: string
  dr_created_at :: time

record user_row =
  ur_balance :: rat
  ur_deleted :: bool

record subscription_row =
  sr_group_id :: int
  sr_daily_usage :: rat
  sr_weekly_usage :: rat
  sr_monthly_usage :: rat
  sr_deleted :: bool

record api_key_row =
  ak_quota :: rat
  ak_quota_used :: rat
  ak_status :: string
  ak_usage_5h :: rat
  ak_usage_1d :: rat
  ak_usage_7d :: rat
  ak_window_5h_start :: "time option"
  ak_window_1d_start :: "time option"
  ak_window_7d_start :: "time option"
  ak_deleted :: bool

record account_row =
  ar_extra :: quota_extra
  ar_deleted :: bool

record billing_db =
  bd_dedup :: "dedup_row list"
  bd_archive :: "dedup_row list"
  bd_users :: "int \<rightharpoonup> user_row"
  bd_subscriptions :: "int \<rightharpoonup> subscription_row"
  bd_groups_deleted :: "int \<rightharpoonup> bool"
  bd_api_keys :: "int \<rightharpoonup> api_key_row"
  bd_accounts :: "int \<rightharpoonup> account_row"
  bd_outbox :: outbox

definition find_key :: "string \<Rightarrow> int \<Rightarrow> dedup_row list \<Rightarrow> dedup_row option" where
  "find_key rid kid rows = List.find (\<lambda>r. dr_request_id r = rid \<and> dr_api_key_id r = kid) rows"

section \<open>Errors and results\<close>

definition ErrUsageBillingRequestIDRequired :: go_error where
  "ErrUsageBillingRequestIDRequired = OtherError ''usage billing request_id is required'' None"
definition ErrUsageBillingRequestConflict :: go_error where
  "ErrUsageBillingRequestConflict = OtherError ''usage billing request fingerprint conflict'' None"
definition ErrSubscriptionNotFound :: go_error where
  "ErrSubscriptionNotFound = NotFound ''SUBSCRIPTION_NOT_FOUND'' ''subscription not found''"
definition ErrUserNotFound :: go_error where
  "ErrUserNotFound = NotFound ''USER_NOT_FOUND'' ''user not found''"
definition ErrAPIKeyNotFound :: go_error where
  "ErrAPIKeyNotFound = NotFound ''API_KEY_NOT_FOUND'' ''api key not found''"
definition sql_no_rows :: go_error where
  "sql_no_rows = OtherError ''sql: no rows in result set'' None"
definition sql_zone_error :: go_error where
  "sql_zone_error = OtherError ''pq: time zone not recognized'' None"

definition StatusAPIKeyActive :: string where "StatusAPIKeyActive = ''active''"
definition StatusAPIKeyQuotaExhausted :: string where "StatusAPIKeyQuotaExhausted = ''quota_exhausted''"
record AccountQuotaState =
  qs_TotalUsed :: rat
  qs_TotalLimit :: rat
  qs_DailyUsed :: rat
  qs_DailyLimit :: rat
  qs_WeeklyUsed :: rat
  qs_WeeklyLimit :: rat

record UsageBillingApplyResult =
  ap_Applied :: bool
  ap_APIKeyQuotaExhausted :: bool
  ap_NewBalance :: "rat option"
  ap_BalanceOverdrafted :: bool
  ap_QuotaState :: "AccountQuotaState option"

definition apply_result :: "bool \<Rightarrow> UsageBillingApplyResult" where
  "apply_result applied = \<lparr>ap_Applied = applied, ap_APIKeyQuotaExhausted = False, ap_NewBalance = None,
     ap_BalanceOverdrafted = False, ap_QuotaState = None\<rparr>"

text \<open>What the outside contributes to one call: the failing statements, the fate of the commit, the
  cut-offs of the archive batches that commit between the claim's statements, the clock, and the
  database's time zones.\<close>

datatype statement = BeginTx | InsertDedup | SelectDedup | SelectArchive | UpdateSubscription | UpdateBalance
  | UpdateOverdraft | UpdateKeyQuota | UpdateKeyRateLimit | UpdateAccountQuota | InsertOutbox

datatype commit = Committed | CommitFailed go_error | CommitUnknown go_error

record billing_env =
  en_fault :: "statement \<Rightarrow> go_error option"
  en_commit :: commit
  en_batches :: "time list"
  en_now :: time
  en_session_zone :: duration
  en_zones :: zones
  en_sha256hex :: "string \<Rightarrow> string"

section \<open>The archive of old keys\<close>

definition usageBillingDedupCleanupBatchSize :: nat where
  "usageBillingDedupCleanupBatchSize = 10000"

text \<open>One batch: the first rows before the cut-off, copied to the archive unless it has their key, and
  deleted.\<close>

definition cleanup_victims :: "time \<Rightarrow> dedup_row list \<Rightarrow> dedup_row list" where
  "cleanup_victims cutoff rows =
     take usageBillingDedupCleanupBatchSize (filter (\<lambda>r. dr_created_at r < cutoff) rows)"

definition archive_row :: "dedup_row \<Rightarrow> dedup_row list \<Rightarrow> dedup_row list" where
  "archive_row r rows = (if find_key (dr_request_id r) (dr_api_key_id r) rows = None then rows @ [r] else rows)"

definition cleanup_batch :: "time \<Rightarrow> billing_db \<Rightarrow> billing_db" where
  "cleanup_batch cutoff db =
     (let victims = cleanup_victims cutoff (bd_dedup db)
      in db\<lparr>bd_archive := fold archive_row victims (bd_archive db),
            bd_dedup := filter (\<lambda>r. r \<notin> set victims) (bd_dedup db)\<rparr>)"

function CleanupUsageBillingDedup ::
  "(nat \<Rightarrow> go_error option) \<Rightarrow> nat \<Rightarrow> time \<Rightarrow> billing_db \<Rightarrow> go_error option \<times> billing_db" where
  "CleanupUsageBillingDedup fault n cutoff db =
     (case fault n of
        Some err \<Rightarrow> (Some err, db)
      | None \<Rightarrow>
          let affected = length (cleanup_victims cutoff (bd_dedup db));
              db' = cleanup_batch cutoff db
          in if affected < usageBillingDedupCleanupBatchSize then (None, db')
             else CleanupUsageBillingDedup fault (Suc n) cutoff db')"
  by pat_completeness auto
termination
proof (relation "measure (\<lambda>(_, _, _, db). length (bd_dedup db))", goal_cases)
  case (2 fault n cutoff db affected db')
  let ?v = "cleanup_victims cutoff (bd_dedup db)"
  have "?v \<noteq> []" using 2 by (auto simp: usageBillingDedupCleanupBatchSize_def)
  then obtain r where r: "r \<in> set ?v" by (meson last_in_set)
  then have "r \<in> set (bd_dedup db)" by (auto simp: cleanup_victims_def dest: in_set_takeD)
  with r have "length (filter (\<lambda>r. r \<notin> set ?v) (bd_dedup db)) < length (bd_dedup db)"
    by (intro length_filter_less) auto
  then show ?case using 2 by (simp add: cleanup_batch_def Let_def)
qed simp

section \<open>The transaction\<close>

text \<open>The claim: \<open>Inr (applied, db)\<close> with the batches that committed meanwhile. The inserted row itself is
  added when the transaction commits.\<close>

definition claimUsageBillingKey ::
  "billing_env \<Rightarrow> UsageBillingCommand \<Rightarrow> billing_db \<Rightarrow> (go_error + bool) \<times> billing_db" where
  "claimUsageBillingKey env cmd db =
     (case en_fault env InsertDedup of Some e \<Rightarrow> (Inl e, db)
      | None \<Rightarrow>
          let conflict = find_key (uc_RequestID cmd) (uc_APIKeyID cmd) (bd_dedup db) \<noteq> None;
              db = fold cleanup_batch (en_batches env) db;
              stmt = (if conflict then SelectDedup else SelectArchive);
              rows = (if conflict then bd_dedup db else bd_archive db)
          in case en_fault env stmt of Some e \<Rightarrow> (Inl e, db)
             | None \<Rightarrow>
                 (case find_key (uc_RequestID cmd) (uc_APIKeyID cmd) rows of
                    None \<Rightarrow> (if conflict then Inl sql_no_rows else Inr True, db)
                  | Some r \<Rightarrow>
                      (if trim_space (dr_fingerprint r) \<noteq> trim_space (uc_RequestFingerprint cmd)
                       then Inl ErrUsageBillingRequestConflict else Inr False, db)))"

type_synonym 'a effect = "go_error + 'a \<times> billing_db"

definition incrementUsageBillingSubscription :: "billing_env \<Rightarrow> int \<Rightarrow> rat \<Rightarrow> billing_db \<Rightarrow> unit effect" where
  "incrementUsageBillingSubscription env subscriptionID costUSD db =
     (case en_fault env UpdateSubscription of Some e \<Rightarrow> Inl e
      | None \<Rightarrow>
          (case bd_subscriptions db subscriptionID of None \<Rightarrow> Inl ErrSubscriptionNotFound
           | Some r \<Rightarrow>
               if \<not> sr_deleted r \<and> bd_groups_deleted db (sr_group_id r) = Some False then
                 Inr ((), db\<lparr>bd_subscriptions := (bd_subscriptions db)(subscriptionID \<mapsto>
                   r\<lparr>sr_daily_usage := sr_daily_usage r + costUSD, sr_weekly_usage := sr_weekly_usage r + costUSD,
                      sr_monthly_usage := sr_monthly_usage r + costUSD\<rparr>)\<rparr>)
               else Inl ErrSubscriptionNotFound))"

definition charge_user :: "int \<Rightarrow> rat \<Rightarrow> user_row \<Rightarrow> billing_db \<Rightarrow> billing_db" where
  "charge_user userID amount r db =
     db\<lparr>bd_users := (bd_users db)(userID \<mapsto> r\<lparr>ur_balance := ur_balance r - amount\<rparr>)\<rparr>"

definition deductUsageBillingBalance :: "billing_env \<Rightarrow> int \<Rightarrow> rat \<Rightarrow> billing_db \<Rightarrow> (rat \<times> bool) effect" where
  "deductUsageBillingBalance env userID amount db =
     (case en_fault env UpdateBalance of Some e \<Rightarrow> Inl e
      | None \<Rightarrow>
          (case bd_users db userID of
             Some r \<Rightarrow>
               if \<not> ur_deleted r \<and> amount \<le> ur_balance r then
                 Inr ((ur_balance r - amount, True), charge_user userID amount r db)
               else
                 (case en_fault env UpdateOverdraft of Some e \<Rightarrow> Inl e
                  | None \<Rightarrow>
                      if \<not> ur_deleted r then
                        Inr ((ur_balance r - amount, False), charge_user userID amount r db)
                      else Inl ErrUserNotFound)
           | None \<Rightarrow>
               (case en_fault env UpdateOverdraft of Some e \<Rightarrow> Inl e | None \<Rightarrow> Inl ErrUserNotFound)))"

definition incrementUsageBillingAPIKeyQuota :: "billing_env \<Rightarrow> int \<Rightarrow> rat \<Rightarrow> billing_db \<Rightarrow> bool effect" where
  "incrementUsageBillingAPIKeyQuota env apiKeyID amount db =
     (case en_fault env UpdateKeyQuota of Some e \<Rightarrow> Inl e
      | None \<Rightarrow>
          (case bd_api_keys db apiKeyID of None \<Rightarrow> Inl ErrAPIKeyNotFound
           | Some r \<Rightarrow>
               if ak_deleted r then Inl ErrAPIKeyNotFound
               else
                 let r' = r\<lparr>ak_quota_used := ak_quota_used r + amount,
                            ak_status := (if 0 < ak_quota r \<and> ak_status r = StatusAPIKeyActive
                                             \<and> ak_quota_used r < ak_quota r
                                             \<and> ak_quota r \<le> ak_quota_used r + amount
                                          then StatusAPIKeyQuotaExhausted else ak_status r)\<rparr>
                 in Inr (0 < ak_quota r' \<and> ak_quota r' \<le> ak_quota_used r'
                           \<and> ak_quota_used r' - amount < ak_quota r',
                         db\<lparr>bd_api_keys := (bd_api_keys db)(apiKeyID \<mapsto> r')\<rparr>)))"

text \<open>The rate-limit windows: \<open>date_trunc('day', NOW())\<close> is taken in the zone of the session.\<close>

definition window_over :: "time \<Rightarrow> duration \<Rightarrow> time option \<Rightarrow> bool" where
  "window_over now len start = (case start of None \<Rightarrow> False | Some s \<Rightarrow> s + len \<le> now)"

definition add_rate_limit_usage :: "time \<Rightarrow> duration \<Rightarrow> rat \<Rightarrow> api_key_row \<Rightarrow> api_key_row" where
  "add_rate_limit_usage now zone cost r =
     r\<lparr>ak_usage_5h := (if window_over now (5 * Hour) (ak_window_5h_start r) then cost else ak_usage_5h r + cost),
       ak_usage_1d := (if window_over now (24 * Hour) (ak_window_1d_start r) then cost else ak_usage_1d r + cost),
       ak_usage_7d := (if window_over now (7 * Day) (ak_window_7d_start r) then cost else ak_usage_7d r + cost),
       ak_window_5h_start :=
         (if ak_window_5h_start r = None \<or> window_over now (5 * Hour) (ak_window_5h_start r)
          then Some now else ak_window_5h_start r),
       ak_window_1d_start :=
         (if ak_window_1d_start r = None \<or> window_over now (24 * Hour) (ak_window_1d_start r)
          then Some (local_day_at 0 zone now) else ak_window_1d_start r),
       ak_window_7d_start :=
         (if ak_window_7d_start r = None \<or> window_over now (7 * Day) (ak_window_7d_start r)
          then Some (local_day_at 0 zone now) else ak_window_7d_start r)\<rparr>"

definition incrementUsageBillingAPIKeyRateLimit :: "billing_env \<Rightarrow> int \<Rightarrow> rat \<Rightarrow> billing_db \<Rightarrow> unit effect" where
  "incrementUsageBillingAPIKeyRateLimit env apiKeyID cost db =
     (case en_fault env UpdateKeyRateLimit of Some e \<Rightarrow> Inl e
      | None \<Rightarrow>
          (case bd_api_keys db apiKeyID of None \<Rightarrow> Inl ErrAPIKeyNotFound
           | Some r \<Rightarrow>
               if ak_deleted r then Inl ErrAPIKeyNotFound
               else Inr ((), db\<lparr>bd_api_keys := (bd_api_keys db)(apiKeyID \<mapsto>
                      add_rate_limit_usage (en_now env) (en_session_zone env) cost r)\<rparr>)))"

text \<open>The event that an account has changed, enqueued in the database of the transaction.\<close>

definition enqueue_account_changed :: "billing_env \<Rightarrow> int \<Rightarrow> billing_db \<Rightarrow> go_error + billing_db" where
  "enqueue_account_changed env accountID db =
     map_sum (\<lambda>e. e) (\<lambda>ox. db\<lparr>bd_outbox := ox\<rparr>)
       (enqueueSchedulerOutbox (en_sha256hex env) (en_fault env InsertOutbox) (en_now env)
          SchedulerOutboxEventAccountChanged (Some accountID) None None (bd_outbox db))"

definition quota_state :: "quota_extra \<Rightarrow> AccountQuotaState" where
  "quota_state e =
     \<lparr>qs_TotalUsed = or_else (qe_quota_used e) 0, qs_TotalLimit = or_else (qe_quota_limit e) 0,
      qs_DailyUsed = or_else (qe_quota_daily_used e) 0, qs_DailyLimit = or_else (qe_quota_daily_limit e) 0,
      qs_WeeklyUsed = or_else (qe_quota_weekly_used e) 0, qs_WeeklyLimit = or_else (qe_quota_weekly_limit e) 0\<rparr>"

definition crossed :: "rat \<Rightarrow> rat \<Rightarrow> rat \<Rightarrow> bool" where
  "crossed limit used amount = (0 < limit \<and> limit \<le> used \<and> used - amount < limit)"

definition incrementUsageBillingAccountQuota ::
  "billing_env \<Rightarrow> int \<Rightarrow> rat \<Rightarrow> billing_db \<Rightarrow> AccountQuotaState effect" where
  "incrementUsageBillingAccountQuota env accountID amount db =
     (case en_fault env UpdateAccountQuota of Some e \<Rightarrow> Inl e
      | None \<Rightarrow>
          (case bd_accounts db accountID of None \<Rightarrow> Inl ErrAccountNotFound
           | Some r \<Rightarrow>
               if ar_deleted r then Inl ErrAccountNotFound
               else
                 (case increment_quota (en_zones env) (en_now env) amount (ar_extra r) of
                    None \<Rightarrow> Inl sql_zone_error
                  | Some extra \<Rightarrow>
                      let db = db\<lparr>bd_accounts := (bd_accounts db)(accountID \<mapsto> r\<lparr>ar_extra := extra\<rparr>)\<rparr>;
                          state = quota_state extra
                      in if crossed (qs_TotalLimit state) (qs_TotalUsed state) amount
                            \<or> crossed (qs_DailyLimit state) (qs_DailyUsed state) amount
                            \<or> crossed (qs_WeeklyLimit state) (qs_WeeklyUsed state) amount then
                           (case enqueue_account_changed env accountID db of
                              Inl e \<Rightarrow> Inl e | Inr db \<Rightarrow> Inr (state, db))
                         else Inr (state, db))))"

text \<open>The two operations of the account repository on the same columns, outside the transaction: a failing
  outbox insert is only logged, and an absent account changes nothing.\<close>

definition with_outbox :: "billing_env \<Rightarrow> int \<Rightarrow> billing_db \<Rightarrow> billing_db" where
  "with_outbox env account db =
     (case enqueue_account_changed env account db of Inl _ \<Rightarrow> db | Inr db \<Rightarrow> db)"

definition IncrementQuotaUsed :: "billing_env \<Rightarrow> int \<Rightarrow> rat \<Rightarrow> billing_db \<Rightarrow> go_error option \<times> billing_db" where
  "IncrementQuotaUsed env account amount db =
     (case en_fault env UpdateAccountQuota of Some e \<Rightarrow> (Some e, db)
      | None \<Rightarrow>
          (case bd_accounts db account of None \<Rightarrow> (None, db)
           | Some r \<Rightarrow>
               if ar_deleted r then (None, db)
               else
                 (case increment_quota (en_zones env) (en_now env) amount (ar_extra r) of
                    None \<Rightarrow> (Some sql_zone_error, db)
                  | Some extra \<Rightarrow>
                      let db = db\<lparr>bd_accounts := (bd_accounts db)(account \<mapsto> r\<lparr>ar_extra := extra\<rparr>)\<rparr>
                      in (None, if crossed (or_else (qe_quota_limit extra) 0) (or_else (qe_quota_used extra) 0) amount
                                then with_outbox env account db else db))))"

definition ResetQuotaUsed :: "billing_env \<Rightarrow> int \<Rightarrow> billing_db \<Rightarrow> go_error option \<times> billing_db" where
  "ResetQuotaUsed env account db =
     (case en_fault env UpdateAccountQuota of Some e \<Rightarrow> (Some e, db)
      | None \<Rightarrow>
          (None, with_outbox env account
             (case bd_accounts db account of
                Some r \<Rightarrow>
                  if ar_deleted r then db
                  else db\<lparr>bd_accounts := (bd_accounts db)(account \<mapsto> r\<lparr>ar_extra := reset_quota (ar_extra r)\<rparr>)\<rparr>
              | None \<Rightarrow> db)))"

definition equal_fold :: "string \<Rightarrow> string \<Rightarrow> bool" where
  "equal_fold s t = (to_lower s = to_lower t)"

text \<open>The effects in their order: each runs when its cost is positive, the first error ends them.\<close>

definition subscription_effect :: "billing_env \<Rightarrow> UsageBillingCommand \<Rightarrow> billing_db \<Rightarrow> go_error + billing_db" where
  "subscription_effect env cmd db =
     (case uc_SubscriptionID cmd of
        Some sid \<Rightarrow>
          if 0 < uc_SubscriptionCost cmd then
            map_sum (\<lambda>e. e) snd (incrementUsageBillingSubscription env sid (uc_SubscriptionCost cmd) db)
          else Inr db
      | None \<Rightarrow> Inr db)"

definition balance_effect ::
  "billing_env \<Rightarrow> UsageBillingCommand \<Rightarrow> UsageBillingApplyResult \<Rightarrow> billing_db \<Rightarrow> UsageBillingApplyResult effect" where
  "balance_effect env cmd res db =
     (if 0 < uc_BalanceCost cmd then
        (case deductUsageBillingBalance env (uc_UserID cmd) (uc_BalanceCost cmd) db of
           Inl e \<Rightarrow> Inl e
         | Inr ((newBalance, sufficient), db) \<Rightarrow>
             Inr (res\<lparr>ap_NewBalance := Some newBalance, ap_BalanceOverdrafted := \<not> sufficient\<rparr>, db))
      else Inr (res, db))"

definition key_quota_effect ::
  "billing_env \<Rightarrow> UsageBillingCommand \<Rightarrow> UsageBillingApplyResult \<Rightarrow> billing_db \<Rightarrow> UsageBillingApplyResult effect" where
  "key_quota_effect env cmd res db =
     (if 0 < uc_APIKeyQuotaCost cmd then
        (case incrementUsageBillingAPIKeyQuota env (uc_APIKeyID cmd) (uc_APIKeyQuotaCost cmd) db of
           Inl e \<Rightarrow> Inl e
         | Inr (exhausted, db) \<Rightarrow> Inr (res\<lparr>ap_APIKeyQuotaExhausted := exhausted\<rparr>, db))
      else Inr (res, db))"

definition key_rate_limit_effect :: "billing_env \<Rightarrow> UsageBillingCommand \<Rightarrow> billing_db \<Rightarrow> go_error + billing_db" where
  "key_rate_limit_effect env cmd db =
     (if 0 < uc_APIKeyRateLimitCost cmd then
        map_sum (\<lambda>e. e) snd
          (incrementUsageBillingAPIKeyRateLimit env (uc_APIKeyID cmd) (uc_APIKeyRateLimitCost cmd) db)
      else Inr db)"

definition account_quota_effect ::
  "billing_env \<Rightarrow> UsageBillingCommand \<Rightarrow> UsageBillingApplyResult \<Rightarrow> billing_db \<Rightarrow> UsageBillingApplyResult effect" where
  "account_quota_effect env cmd res db =
     (if 0 < uc_AccountQuotaCost cmd
         \<and> (equal_fold (uc_AccountType cmd) AccountTypeAPIKey \<or> equal_fold (uc_AccountType cmd) AccountTypeBedrock) then
        (case incrementUsageBillingAccountQuota env (uc_AccountID cmd) (uc_AccountQuotaCost cmd) db of
           Inl e \<Rightarrow> Inl e
         | Inr (quotaState, db) \<Rightarrow> Inr (res\<lparr>ap_QuotaState := Some quotaState\<rparr>, db))
      else Inr (res, db))"

definition applyUsageBillingEffects ::
  "billing_env \<Rightarrow> UsageBillingCommand \<Rightarrow> UsageBillingApplyResult \<Rightarrow> billing_db \<Rightarrow> UsageBillingApplyResult effect" where
  "applyUsageBillingEffects env cmd res db =
     (case subscription_effect env cmd db of Inl e \<Rightarrow> Inl e | Inr db \<Rightarrow>
     (case balance_effect env cmd res db of Inl e \<Rightarrow> Inl e | Inr (res, db) \<Rightarrow>
     (case key_quota_effect env cmd res db of Inl e \<Rightarrow> Inl e | Inr (res, db) \<Rightarrow>
     (case key_rate_limit_effect env cmd db of Inl e \<Rightarrow> Inl e | Inr db \<Rightarrow>
       account_quota_effect env cmd res db))))"

definition claimed_row :: "time \<Rightarrow> UsageBillingCommand \<Rightarrow> dedup_row" where
  "claimed_row now cmd = \<lparr>dr_request_id = uc_RequestID cmd, dr_api_key_id = uc_APIKeyID cmd,
     dr_fingerprint = uc_RequestFingerprint cmd, dr_created_at = now\<rparr>"

text \<open>The whole call. On every error the transaction is rolled back; an unknown commit reports the error
  although it took effect.\<close>

definition Apply ::
  "billing_env \<Rightarrow> UsageBillingCommand \<Rightarrow> billing_db \<Rightarrow> (go_error + UsageBillingApplyResult) \<times> billing_db" where
  "Apply env cmd db =
     (let cmd = Normalize (en_sha256hex env) cmd
      in if uc_RequestID cmd = '''' then (Inl ErrUsageBillingRequestIDRequired, db)
         else case en_fault env BeginTx of Some e \<Rightarrow> (Inl e, db)
         | None \<Rightarrow>
             (case claimUsageBillingKey env cmd db of
                (Inl e, db) \<Rightarrow> (Inl e, db)
              | (Inr False, db) \<Rightarrow> (Inr (apply_result False), db)
              | (Inr True, db) \<Rightarrow>
                  (case applyUsageBillingEffects env cmd (apply_result True) db of
                     Inl e \<Rightarrow> (Inl e, db)
                   | Inr (res, db') \<Rightarrow>
                       let db' = db'\<lparr>bd_dedup := bd_dedup db' @ [claimed_row (en_now env) cmd]\<rparr>
                       in case en_commit env of
                            Committed \<Rightarrow> (Inr res, db')
                          | CommitFailed e \<Rightarrow> (Inl e, db)
                          | CommitUnknown e \<Rightarrow> (Inl e, db'))))"

section \<open>The command of a request\<close>

record billed_key =
  bk_ID :: int
  bk_Quota :: rat
  bk_RateLimit5h :: rat
  bk_RateLimit1d :: rat
  bk_RateLimit7d :: rat

definition HasRateLimits :: "billed_key \<Rightarrow> bool" where
  "HasRateLimits k = (0 < bk_RateLimit5h k \<or> 0 < bk_RateLimit1d k \<or> 0 < bk_RateLimit7d k)"

text \<open>The parameters of the billing step (\<open>None\<close> a nil pointer) and the fields of the usage log it reads.\<close>

record postUsageBillingParams =
  pb_Cost :: "CostBreakdown option"
  pb_UserID :: "int option"
  pb_APIKey :: "billed_key option"
  pb_Account :: "Account option"
  pb_SubscriptionID :: "int option"
  pb_RequestPayloadHash :: string
  pb_IsSubscriptionBill :: bool
  pb_AccountRateMultiplier :: rat
  pb_HasAPIKeyService :: bool

record usage_log =
  ul_Model :: string
  ul_BillingType :: int
  ul_InputTokens :: int
  ul_OutputTokens :: int
  ul_CacheCreationTokens :: int
  ul_CacheReadTokens :: int
  ul_ImageCount :: int
  ul_ServiceTier :: "string option"
  ul_ReasoningEffort :: "string option"
  ul_SubscriptionID :: "int option"

definition shouldDeductAPIKeyQuota :: "CostBreakdown \<Rightarrow> billed_key \<Rightarrow> postUsageBillingParams \<Rightarrow> bool" where
  "shouldDeductAPIKeyQuota cost k p = (0 < cb_ActualCost cost \<and> 0 < bk_Quota k \<and> pb_HasAPIKeyService p)"

definition shouldUpdateRateLimits :: "CostBreakdown \<Rightarrow> billed_key \<Rightarrow> postUsageBillingParams \<Rightarrow> bool" where
  "shouldUpdateRateLimits cost k p = (0 < cb_ActualCost cost \<and> HasRateLimits k \<and> pb_HasAPIKeyService p)"

definition shouldUpdateAccountQuota :: "CostBreakdown \<Rightarrow> Account \<Rightarrow> bool" where
  "shouldUpdateAccountQuota cost a = (0 < cb_TotalCost cost \<and> IsAPIKeyOrBedrock a \<and> HasAnyQuotaLimit a)"

definition logged_fields :: "usage_log \<Rightarrow> UsageBillingCommand \<Rightarrow> UsageBillingCommand" where
  "logged_fields l cmd =
     (let cmd = cmd\<lparr>uc_Model := ul_Model l, uc_BillingType := ul_BillingType l, uc_InputTokens := ul_InputTokens l,
                    uc_OutputTokens := ul_OutputTokens l, uc_CacheCreationTokens := ul_CacheCreationTokens l,
                    uc_CacheReadTokens := ul_CacheReadTokens l, uc_ImageCount := ul_ImageCount l\<rparr>;
          cmd = (case ul_ServiceTier l of None \<Rightarrow> cmd | Some t \<Rightarrow> cmd\<lparr>uc_ServiceTier := t\<rparr>);
          cmd = (case ul_ReasoningEffort l of None \<Rightarrow> cmd | Some t \<Rightarrow> cmd\<lparr>uc_ReasoningEffort := t\<rparr>)
      in case ul_SubscriptionID l of None \<Rightarrow> cmd | Some s \<Rightarrow> cmd\<lparr>uc_SubscriptionID := Some s\<rparr>)"

definition blank_command :: UsageBillingCommand where
  "blank_command = \<lparr>uc_RequestID = '''', uc_APIKeyID = 0, uc_RequestFingerprint = '''', uc_RequestPayloadHash = '''',
     uc_UserID = 0, uc_AccountID = 0, uc_SubscriptionID = None, uc_AccountType = '''', uc_Model = '''',
     uc_ServiceTier = '''', uc_ReasoningEffort = '''', uc_BillingType = 0, uc_InputTokens = 0, uc_OutputTokens = 0,
     uc_CacheCreationTokens = 0, uc_CacheReadTokens = 0, uc_ImageCount = 0, uc_MediaType = '''', uc_BalanceCost = 0,
     uc_SubscriptionCost = 0, uc_APIKeyQuotaCost = 0, uc_APIKeyRateLimitCost = 0, uc_AccountQuotaCost = 0\<rparr>"

definition cost_fields ::
  "CostBreakdown \<Rightarrow> billed_key \<Rightarrow> Account \<Rightarrow> postUsageBillingParams \<Rightarrow> UsageBillingCommand \<Rightarrow> UsageBillingCommand" where
  "cost_fields cost k a p cmd =
     (let cmd = (if pb_IsSubscriptionBill p \<and> pb_SubscriptionID p \<noteq> None \<and> 0 < cb_TotalCost cost
                 then cmd\<lparr>uc_SubscriptionID := pb_SubscriptionID p, uc_SubscriptionCost := cb_ActualCost cost\<rparr>
                 else if 0 < cb_ActualCost cost then cmd\<lparr>uc_BalanceCost := cb_ActualCost cost\<rparr> else cmd);
          cmd = (if shouldDeductAPIKeyQuota cost k p then cmd\<lparr>uc_APIKeyQuotaCost := cb_ActualCost cost\<rparr> else cmd);
          cmd = (if shouldUpdateRateLimits cost k p then cmd\<lparr>uc_APIKeyRateLimitCost := cb_ActualCost cost\<rparr> else cmd)
      in if shouldUpdateAccountQuota cost a
         then cmd\<lparr>uc_AccountQuotaCost := cb_TotalCost cost * pb_AccountRateMultiplier p\<rparr> else cmd)"

definition buildUsageBillingCommand ::
  "(string \<Rightarrow> string) \<Rightarrow> string \<Rightarrow> usage_log option \<Rightarrow> postUsageBillingParams \<Rightarrow> UsageBillingCommand option" where
  "buildUsageBillingCommand sha256hex requestID usageLog p =
     (case (pb_Cost p, pb_APIKey p, pb_UserID p, pb_Account p) of
        (Some cost, Some k, Some uid, Some a) \<Rightarrow>
          let cmd = blank_command\<lparr>uc_RequestID := requestID, uc_APIKeyID := bk_ID k, uc_UserID := uid,
                      uc_AccountID := acc_ID a, uc_AccountType := acc_Type a,
                      uc_RequestPayloadHash := trim_space (pb_RequestPayloadHash p)\<rparr>;
              cmd = (case usageLog of None \<Rightarrow> cmd | Some l \<Rightarrow> logged_fields l cmd)
          in Some (Normalize sha256hex (cost_fields cost k a p cmd))
      | _ \<Rightarrow> None)"

section \<open>Rate-limit windows as the gateway reads them\<close>

definition RateLimitWindow5h :: duration where "RateLimitWindow5h = 5 * Hour"
definition RateLimitWindow1d :: duration where "RateLimitWindow1d = 24 * Hour"
definition RateLimitWindow7d :: duration where "RateLimitWindow7d = 7 * 24 * Hour"

definition IsWindowExpired :: "time \<Rightarrow> time option \<Rightarrow> duration \<Rightarrow> bool" where
  "IsWindowExpired now windowStart len = (case windowStart of None \<Rightarrow> True | Some s \<Rightarrow> len \<le> now - s)"

definition EffectiveUsage5h :: "time \<Rightarrow> api_key_row \<Rightarrow> rat" where
  "EffectiveUsage5h now k = (if IsWindowExpired now (ak_window_5h_start k) RateLimitWindow5h then 0 else ak_usage_5h k)"
definition EffectiveUsage1d :: "time \<Rightarrow> api_key_row \<Rightarrow> rat" where
  "EffectiveUsage1d now k = (if IsWindowExpired now (ak_window_1d_start k) RateLimitWindow1d then 0 else ak_usage_1d k)"
definition EffectiveUsage7d :: "time \<Rightarrow> api_key_row \<Rightarrow> rat" where
  "EffectiveUsage7d now k = (if IsWindowExpired now (ak_window_7d_start k) RateLimitWindow7d then 0 else ak_usage_7d k)"

definition IsQuotaExhausted :: "api_key_row \<Rightarrow> bool" where
  "IsQuotaExhausted k = (if ak_quota k \<le> 0 then False else ak_quota k \<le> ak_quota_used k)"

definition GetQuotaRemaining :: "api_key_row \<Rightarrow> rat" where
  "GetQuotaRemaining k =
     (if ak_quota k \<le> 0 then - 1
      else let remaining = ak_quota k - ak_quota_used k in if remaining < 0 then 0 else remaining)"


section \<open>The keys that have been charged\<close>

definition row_key :: "dedup_row \<Rightarrow> string \<times> int" where
  "row_key r = (dr_request_id r, dr_api_key_id r)"

definition command_key :: "UsageBillingCommand \<Rightarrow> string \<times> int" where
  "command_key c = (uc_RequestID c, uc_APIKeyID c)"

definition billed_keys :: "billing_db \<Rightarrow> (string \<times> int) set" where
  "billed_keys db = row_key ` set (bd_dedup db) \<union> row_key ` set (bd_archive db)"

lemma find_key_None: "find_key rid kid rows = None \<longleftrightarrow> (rid, kid) \<notin> row_key ` set rows"
  by (auto simp: find_key_def find_None_iff row_key_def image_iff)

lemma archive_row_keys: "row_key ` set (archive_row r rows) = insert (row_key r) (row_key ` set rows)"
  by (cases "find_key (dr_request_id r) (dr_api_key_id r) rows = None")
    (auto simp: archive_row_def find_key_None [unfolded row_key_def] row_key_def image_iff find_key_None)

lemma archive_rows_keys: "row_key ` set (fold archive_row vs rows) = row_key ` set vs \<union> row_key ` set rows"
  by (induction vs arbitrary: rows) (simp_all add: archive_row_keys)

lemma victims_subset: "set (cleanup_victims cutoff rows) \<subseteq> set rows"
  by (auto simp: cleanup_victims_def dest: in_set_takeD)

text \<open>The archive job moves keys and touches nothing else.\<close>

definition same_amounts :: "billing_db \<Rightarrow> billing_db \<Rightarrow> bool" where
  "same_amounts db db' = (db' = db\<lparr>bd_dedup := bd_dedup db', bd_archive := bd_archive db'\<rparr>)"

lemma same_amounts_refl [simp]: "same_amounts db db"
  by (cases db) (simp add: same_amounts_def)

lemma same_amounts_trans: "same_amounts db1 db2 \<Longrightarrow> same_amounts db2 db3 \<Longrightarrow> same_amounts db1 db3"
  by (cases db1; cases db2; cases db3; simp add: same_amounts_def)

lemma cleanup_batch_same:
  "same_amounts db (cleanup_batch cutoff db)" "billed_keys (cleanup_batch cutoff db) = billed_keys db"
  "set (bd_dedup (cleanup_batch cutoff db)) \<subseteq> set (bd_dedup db)"
proof -
  show "same_amounts db (cleanup_batch cutoff db)"
    by (cases db) (simp add: same_amounts_def cleanup_batch_def Let_def)
  show "set (bd_dedup (cleanup_batch cutoff db)) \<subseteq> set (bd_dedup db)"
    by (auto simp: cleanup_batch_def Let_def)
  show "billed_keys (cleanup_batch cutoff db) = billed_keys db"
    using victims_subset [of cutoff "bd_dedup db"]
    by (auto simp: billed_keys_def cleanup_batch_def Let_def archive_rows_keys)
qed

lemma cleanup_batches_same:
  "same_amounts db (fold cleanup_batch cs db) \<and> billed_keys (fold cleanup_batch cs db) = billed_keys db
   \<and> set (bd_dedup (fold cleanup_batch cs db)) \<subseteq> set (bd_dedup db)"
proof (induction cs arbitrary: db)
  case (Cons c cs)
  show ?case
    using Cons.IH [of "cleanup_batch c db"] cleanup_batch_same [where db = db and cutoff = c]
    by (auto intro: same_amounts_trans)
qed simp

lemma CleanupUsageBillingDedup_same:
  "CleanupUsageBillingDedup fault n cutoff db = (err, db') \<Longrightarrow> same_amounts db db' \<and> billed_keys db' = billed_keys db"
proof (induction fault n cutoff db rule: CleanupUsageBillingDedup.induct)
  case (1 fault n cutoff db)
  show ?case
  proof (cases "fault n = None \<and> usageBillingDedupCleanupBatchSize \<le> length (cleanup_victims cutoff (bd_dedup db))")
    case True
    then have "CleanupUsageBillingDedup fault (Suc n) cutoff (cleanup_batch cutoff db) = (err, db')"
      using 1(2) by (subst (asm) CleanupUsageBillingDedup.simps) (simp add: Let_def)
    with 1(1) True have "same_amounts (cleanup_batch cutoff db) db' \<and> billed_keys db' = billed_keys (cleanup_batch cutoff db)"
      by simp
    then show ?thesis using cleanup_batch_same(1,2) same_amounts_trans by metis
  next
    case False
    then have "db' = db \<or> db' = cleanup_batch cutoff db"
      using 1(2) by (subst (asm) CleanupUsageBillingDedup.simps) (auto simp: Let_def split: option.splits if_splits)
    then show ?thesis using cleanup_batch_same(1,2) by auto
  qed
qed

lemma claim_cases:
  assumes "claimUsageBillingKey env cmd db = (res, db')"
  shows "same_amounts db db'" "billed_keys db' = billed_keys db"
    and "res = Inr True \<Longrightarrow> command_key cmd \<notin> billed_keys db"
    and "res = Inr False \<Longrightarrow> command_key cmd \<in> billed_keys db"
proof -
  let ?db = "fold cleanup_batch (en_batches env) db"
  note same = cleanup_batches_same [of db "en_batches env"]
  have db': "db' = db \<or> db' = ?db"
    using assms by (auto simp: claimUsageBillingKey_def Let_def split: option.splits if_splits)
  then show "same_amounts db db'" "billed_keys db' = billed_keys db" using same by auto
  show "command_key cmd \<notin> billed_keys db" if "res = Inr True"
  proof -
    have "find_key (uc_RequestID cmd) (uc_APIKeyID cmd) (bd_dedup db) = None"
      "find_key (uc_RequestID cmd) (uc_APIKeyID cmd) (bd_archive ?db) = None"
      using assms that by (auto simp: claimUsageBillingKey_def Let_def split: option.splits if_splits)
    moreover have "row_key ` set (bd_dedup ?db) \<subseteq> row_key ` set (bd_dedup db)" using same by blast
    ultimately have "command_key cmd \<notin> billed_keys ?db"
      unfolding find_key_None billed_keys_def command_key_def by blast
    then show ?thesis using same by simp
  qed
  show "command_key cmd \<in> billed_keys db" if "res = Inr False"
  proof -
    have "find_key (uc_RequestID cmd) (uc_APIKeyID cmd) (bd_dedup ?db) \<noteq> None
      \<or> find_key (uc_RequestID cmd) (uc_APIKeyID cmd) (bd_archive ?db) \<noteq> None"
      using assms that by (auto simp: claimUsageBillingKey_def Let_def split: option.splits if_splits)
    then have "command_key cmd \<in> billed_keys ?db" by (auto simp: find_key_None billed_keys_def command_key_def)
    then show ?thesis using same by simp
  qed
qed

section \<open>What a command charges\<close>

definition balance :: "billing_db \<Rightarrow> int \<Rightarrow> rat" where
  "balance db u = (case bd_users db u of None \<Rightarrow> 0 | Some r \<Rightarrow> ur_balance r)"

definition subscription_usage :: "(subscription_row \<Rightarrow> rat) \<Rightarrow> billing_db \<Rightarrow> int \<Rightarrow> rat" where
  "subscription_usage window db s = (case bd_subscriptions db s of None \<Rightarrow> 0 | Some r \<Rightarrow> window r)"

definition key_quota_used :: "billing_db \<Rightarrow> int \<Rightarrow> rat" where
  "key_quota_used db k = (case bd_api_keys db k of None \<Rightarrow> 0 | Some r \<Rightarrow> ak_quota_used r)"

definition balance_charge :: "UsageBillingCommand \<Rightarrow> int \<Rightarrow> rat" where
  "balance_charge c u = (if uc_UserID c = u then max 0 (uc_BalanceCost c) else 0)"

definition subscription_charge :: "UsageBillingCommand \<Rightarrow> int \<Rightarrow> rat" where
  "subscription_charge c s = (if uc_SubscriptionID c = Some s then max 0 (uc_SubscriptionCost c) else 0)"

definition key_quota_charge :: "UsageBillingCommand \<Rightarrow> int \<Rightarrow> rat" where
  "key_quota_charge c k = (if uc_APIKeyID c = k then max 0 (uc_APIKeyQuotaCost c) else 0)"

definition usage_windows :: "(subscription_row \<Rightarrow> rat) list" where
  "usage_windows = [sr_daily_usage, sr_weekly_usage, sr_monthly_usage]"

text \<open>The commands of \<open>L\<close> turn the amounts of \<open>db\<close> into those of \<open>db'\<close>.\<close>

definition charged :: "UsageBillingCommand list \<Rightarrow> billing_db \<Rightarrow> billing_db \<Rightarrow> bool" where
  "charged L db db' =
     ((\<forall>u. balance db' u = balance db u - (\<Sum>c\<leftarrow>L. balance_charge c u))
      \<and> (\<forall>k. key_quota_used db' k = key_quota_used db k + (\<Sum>c\<leftarrow>L. key_quota_charge c k))
      \<and> (\<forall>w \<in> set usage_windows. \<forall>s.
           subscription_usage w db' s = subscription_usage w db s + (\<Sum>c\<leftarrow>L. subscription_charge c s)))"

lemma charged_Nil: "same_amounts db db' \<Longrightarrow> charged [] db db'"
  by (cases db; cases db'; simp add: same_amounts_def charged_def balance_def key_quota_used_def subscription_usage_def)

lemma charged_append: "charged L1 db1 db2 \<Longrightarrow> charged L2 db2 db3 \<Longrightarrow> charged (L1 @ L2) db1 db3"
  by (simp add: charged_def)

lemma charged_same: "charged L db1 db2 \<Longrightarrow> same_amounts db2 db3 \<Longrightarrow> charged L db1 db3"
  using charged_append [OF _ charged_Nil] by fastforce

lemma same_charged: "same_amounts db1 db2 \<Longrightarrow> charged L db2 db3 \<Longrightarrow> charged L db1 db3"
  using charged_append [OF charged_Nil] by fastforce

text \<open>A step of the transaction that leaves the deduplication tables alone and the rows where they are.\<close>

definition live_user :: "billing_db \<Rightarrow> int \<Rightarrow> bool" where
  "live_user db u = (\<exists>r. bd_users db u = Some r \<and> \<not> ur_deleted r)"
definition live_key :: "billing_db \<Rightarrow> int \<Rightarrow> bool" where
  "live_key db k = (\<exists>r. bd_api_keys db k = Some r \<and> \<not> ak_deleted r)"
definition live_subscription :: "billing_db \<Rightarrow> int \<Rightarrow> bool" where
  "live_subscription db s = (\<exists>r. bd_subscriptions db s = Some r \<and> \<not> sr_deleted r
     \<and> bd_groups_deleted db (sr_group_id r) = Some False)"

definition tables_kept :: "billing_db \<Rightarrow> billing_db \<Rightarrow> bool" where
  "tables_kept db db' = (bd_dedup db' = bd_dedup db \<and> bd_archive db' = bd_archive db
     \<and> live_user db' = live_user db \<and> live_key db' = live_key db \<and> live_subscription db' = live_subscription db)"

lemma tables_kept_refl [simp]: "tables_kept db db"
  by (simp add: tables_kept_def)

lemma tables_kept_trans: "tables_kept db1 db2 \<Longrightarrow> tables_kept db2 db3 \<Longrightarrow> tables_kept db1 db3"
  by (simp add: tables_kept_def)

lemma subscription_effect_step:
  assumes "subscription_effect env cmd db = Inr db'"
  shows "tables_kept db db' \<and> balance db' = balance db \<and> key_quota_used db' = key_quota_used db
     \<and> bd_accounts db' = bd_accounts db
     \<and> (\<forall>w \<in> set usage_windows. \<forall>s. subscription_usage w db' s = subscription_usage w db s + subscription_charge cmd s)"
  using assms
  by (auto simp: subscription_effect_def incrementUsageBillingSubscription_def tables_kept_def live_user_def
      live_key_def live_subscription_def fun_eq_iff balance_def key_quota_used_def subscription_usage_def
      usage_windows_def subscription_charge_def split: option.splits if_splits)

lemma balance_effect_step:
  assumes "balance_effect env cmd res db = Inr (res', db')"
  shows "tables_kept db db' \<and> key_quota_used db' = key_quota_used db \<and> bd_accounts db' = bd_accounts db
     \<and> (\<forall>w s. subscription_usage w db' s = subscription_usage w db s)
     \<and> (\<forall>u. balance db' u = balance db u - balance_charge cmd u) \<and> ap_Applied res' = ap_Applied res"
  using assms
  by (auto simp: balance_effect_def deductUsageBillingBalance_def charge_user_def tables_kept_def live_user_def
      live_key_def live_subscription_def fun_eq_iff balance_def key_quota_used_def subscription_usage_def
      balance_charge_def split: option.splits if_splits sum.splits prod.splits)

lemma key_quota_row:
  assumes "incrementUsageBillingAPIKeyQuota env k amount db = Inr (ex, db')"
  shows "\<exists>r st. bd_api_keys db k = Some r \<and> \<not> ak_deleted r
     \<and> db' = db\<lparr>bd_api_keys := (bd_api_keys db)(k \<mapsto> r\<lparr>ak_quota_used := ak_quota_used r + amount, ak_status := st\<rparr>)\<rparr>"
proof -
  obtain r where r: "en_fault env UpdateKeyQuota = None" "bd_api_keys db k = Some r" "\<not> ak_deleted r"
    using assms by (cases "en_fault env UpdateKeyQuota"; cases "bd_api_keys db k")
      (simp_all add: incrementUsageBillingAPIKeyQuota_def Let_def split: if_split_asm)
  let ?st = "if 0 < ak_quota r \<and> ak_status r = StatusAPIKeyActive \<and> ak_quota_used r < ak_quota r
      \<and> ak_quota r \<le> ak_quota_used r + amount then StatusAPIKeyQuotaExhausted else ak_status r"
  have "db' = db\<lparr>bd_api_keys := (bd_api_keys db)(k \<mapsto> r\<lparr>ak_quota_used := ak_quota_used r + amount, ak_status := ?st\<rparr>)\<rparr>"
    using assms r by (simp add: incrementUsageBillingAPIKeyQuota_def Let_def split del: if_split)
  with r show ?thesis by blast
qed

lemma key_quota_effect_step:
  assumes "key_quota_effect env cmd res db = Inr (res', db')"
  shows "tables_kept db db' \<and> balance db' = balance db \<and> bd_accounts db' = bd_accounts db
     \<and> (\<forall>w s. subscription_usage w db' s = subscription_usage w db s)
     \<and> (\<forall>k. key_quota_used db' k = key_quota_used db k + key_quota_charge cmd k) \<and> ap_Applied res' = ap_Applied res"
proof (cases "0 < uc_APIKeyQuotaCost cmd")
  case False
  then show ?thesis using assms by (auto simp: key_quota_effect_def key_quota_charge_def)
next
  case True
  then obtain ex where "incrementUsageBillingAPIKeyQuota env (uc_APIKeyID cmd) (uc_APIKeyQuotaCost cmd) db = Inr (ex, db')"
    "res' = res\<lparr>ap_APIKeyQuotaExhausted := ex\<rparr>"
    using assms by (auto simp: key_quota_effect_def split: sum.splits prod.splits)
  moreover from key_quota_row [OF this(1)] obtain r st where "bd_api_keys db (uc_APIKeyID cmd) = Some r" "\<not> ak_deleted r"
    "db' = db\<lparr>bd_api_keys := (bd_api_keys db)(uc_APIKeyID cmd \<mapsto>
       r\<lparr>ak_quota_used := ak_quota_used r + uc_APIKeyQuotaCost cmd, ak_status := st\<rparr>)\<rparr>" by blast
  ultimately show ?thesis
    using True
    by (auto simp: tables_kept_def live_user_def live_key_def live_subscription_def fun_eq_iff balance_def
        key_quota_used_def subscription_usage_def key_quota_charge_def)
qed

lemma add_rate_limit_fields:
  "ak_deleted (add_rate_limit_usage now zone cost r) = ak_deleted r"
  "ak_quota_used (add_rate_limit_usage now zone cost r) = ak_quota_used r"
  by (simp_all add: add_rate_limit_usage_def)

lemma key_rate_limit_effect_step:
  assumes "key_rate_limit_effect env cmd db = Inr db'"
  shows "tables_kept db db' \<and> balance db' = balance db \<and> key_quota_used db' = key_quota_used db
     \<and> bd_accounts db' = bd_accounts db \<and> (\<forall>w s. subscription_usage w db' s = subscription_usage w db s)"
  using assms
  by (auto simp: key_rate_limit_effect_def incrementUsageBillingAPIKeyRateLimit_def tables_kept_def live_user_def
      live_key_def live_subscription_def fun_eq_iff balance_def key_quota_used_def subscription_usage_def
      add_rate_limit_fields split: option.splits if_splits)

lemma account_quota_effect_step:
  assumes "account_quota_effect env cmd res db = Inr (res', db')"
  shows "tables_kept db db' \<and> balance db' = balance db \<and> key_quota_used db' = key_quota_used db
     \<and> (\<forall>w s. subscription_usage w db' s = subscription_usage w db s) \<and> ap_Applied res' = ap_Applied res"
  using assms
  by (auto simp: account_quota_effect_def incrementUsageBillingAccountQuota_def enqueue_account_changed_def enqueueSchedulerOutbox_def
      tables_kept_def live_user_def live_key_def live_subscription_def fun_eq_iff balance_def key_quota_used_def
      subscription_usage_def Let_def split: option.splits if_splits sum.splits prod.splits)

lemma effects_step:
  assumes "applyUsageBillingEffects env cmd res db = Inr (res', db')"
  shows "tables_kept db db' \<and> charged [cmd] db db' \<and> ap_Applied res' = ap_Applied res"
proof -
  obtain db1 where 1: "subscription_effect env cmd db = Inr db1"
    using assms by (auto simp: applyUsageBillingEffects_def split: sum.splits)
  obtain res2 db2 where 2: "balance_effect env cmd res db1 = Inr (res2, db2)"
    using assms 1 by (auto simp: applyUsageBillingEffects_def split: sum.splits)
  obtain res3 db3 where 3: "key_quota_effect env cmd res2 db2 = Inr (res3, db3)"
    using assms 1 2 by (auto simp: applyUsageBillingEffects_def split: sum.splits)
  obtain db4 where 4: "key_rate_limit_effect env cmd db3 = Inr db4"
    using assms 1 2 3 by (auto simp: applyUsageBillingEffects_def split: sum.splits)
  have 5: "account_quota_effect env cmd res3 db4 = Inr (res', db')"
    using assms 1 2 3 4 by (simp add: applyUsageBillingEffects_def)
  note steps = subscription_effect_step [OF 1] balance_effect_step [OF 2] key_quota_effect_step [OF 3]
    key_rate_limit_effect_step [OF 4] account_quota_effect_step [OF 5]
  have "tables_kept db db'" using steps by (simp add: tables_kept_def)
  moreover have "charged [cmd] db db'" using steps by (simp add: charged_def)
  moreover have "ap_Applied res' = ap_Applied res" using steps by simp
  ultimately show ?thesis by blast
qed

lemma Apply_early:
  assumes "uc_RequestID (Normalize (en_sha256hex env) cmd) = '''' \<or> en_fault env BeginTx \<noteq> None"
  shows "\<exists>e. Apply env cmd db = (Inl e, db)"
  using assms by (auto simp: Apply_def Let_def)

text \<open>What follows a successful claim.\<close>

definition finish_apply ::
  "billing_env \<Rightarrow> UsageBillingCommand \<Rightarrow> billing_db \<Rightarrow> (go_error + UsageBillingApplyResult) \<times> billing_db" where
  "finish_apply env c db =
     (case applyUsageBillingEffects env c (apply_result True) db of
        Inl e \<Rightarrow> (Inl e, db)
      | Inr (res, db') \<Rightarrow>
          let db' = db'\<lparr>bd_dedup := bd_dedup db' @ [claimed_row (en_now env) c]\<rparr>
          in case en_commit env of Committed \<Rightarrow> (Inr res, db') | CommitFailed e \<Rightarrow> (Inl e, db)
             | CommitUnknown e \<Rightarrow> (Inl e, db'))"

lemma Apply_claim:
  assumes "c = Normalize (en_sha256hex env) cmd" "uc_RequestID c \<noteq> ''''" "en_fault env BeginTx = None"
    and "claimUsageBillingKey env c db = (cl, db1)"
  shows "Apply env cmd db = (case cl of Inl e \<Rightarrow> (Inl e, db1)
     | Inr applied \<Rightarrow> if applied then finish_apply env c db1 else (Inr (apply_result False), db1))"
  using assms by (auto simp: Apply_def finish_apply_def split: sum.split bool.split)

lemma finish_step:
  assumes "finish_apply env c db = (res, db')"
  shows "db' = db \<and> (\<exists>e. res = Inl e)
       \<or> charged [c] db db' \<and> billed_keys db' = insert (command_key c) (billed_keys db)
           \<and> (\<forall>r. res = Inr r \<longrightarrow> ap_Applied r)"
proof (cases "applyUsageBillingEffects env c (apply_result True) db")
  case (Inl e)
  then show ?thesis using assms by (auto simp: finish_apply_def)
next
  case (Inr rd)
  then obtain r2 db2 where e: "applyUsageBillingEffects env c (apply_result True) db = Inr (r2, db2)"
    by (cases rd) auto
  let ?db = "db2\<lparr>bd_dedup := bd_dedup db2 @ [claimed_row (en_now env) c]\<rparr>"
  note step = effects_step [OF e]
  have "charged [c] db ?db"
    using step charged_same [of "[c]" db db2 ?db] by (cases db2) (simp add: same_amounts_def)
  moreover have "billed_keys ?db = insert (command_key c) (billed_keys db)"
    using step by (auto simp: tables_kept_def billed_keys_def row_key_def claimed_row_def command_key_def)
  ultimately show ?thesis
    using assms e step by (cases "en_commit env") (auto simp: finish_apply_def apply_result_def Let_def)
qed

text \<open>One call: either nothing is charged and the keys stay, or a fresh key is taken and the command
  charged in full.\<close>

lemma Apply_step:
  assumes "Apply env cmd db = (res, db')" "c = Normalize (en_sha256hex env) cmd"
  shows "same_amounts db db' \<and> billed_keys db' = billed_keys db
           \<and> (\<forall>r. res = Inr r \<longrightarrow> \<not> ap_Applied r \<and> command_key c \<in> billed_keys db)
       \<or> command_key c \<notin> billed_keys db \<and> billed_keys db' = insert (command_key c) (billed_keys db)
           \<and> charged [c] db db' \<and> (\<forall>r. res = Inr r \<longrightarrow> ap_Applied r)"
proof (cases "uc_RequestID c = '''' \<or> en_fault env BeginTx \<noteq> None")
  case True
  then show ?thesis using assms Apply_early [of env cmd db] by auto
next
  case False
  obtain cl db1 where cl: "claimUsageBillingKey env c db = (cl, db1)" by (metis surj_pair)
  note claim = claim_cases [OF cl]
  have ap: "(res, db') = (case cl of Inl e \<Rightarrow> (Inl e, db1)
     | Inr applied \<Rightarrow> if applied then finish_apply env c db1 else (Inr (apply_result False), db1))"
    using Apply_claim [OF assms(2) _ _ cl] False assms(1) by simp
  show ?thesis
  proof (cases "cl = Inr True")
    case True
    then have "finish_apply env c db1 = (res, db')" using ap by simp
    from finish_step [OF this] show ?thesis
      using claim True same_charged [OF claim(1)] by auto
  next
    case False
    then show ?thesis using ap claim by (cases cl) (auto simp: apply_result_def)
  qed
qed

section \<open>Exactly once\<close>

text \<open>A history of calls, with the (normalised) command and the outcome of each charge.\<close>

datatype billing_call = Charge billing_env UsageBillingCommand | Archive "nat \<Rightarrow> go_error option" time

fun run_calls ::
  "billing_call list \<Rightarrow> billing_db \<Rightarrow> (UsageBillingCommand \<times> (go_error + bool)) list \<times> billing_db" where
  "run_calls [] db = ([], db)"
| "run_calls (Charge env cmd # calls) db =
     (case Apply env cmd db of (res, db) \<Rightarrow>
        (case run_calls calls db of (tr, db) \<Rightarrow>
           ((Normalize (en_sha256hex env) cmd, map_sum (\<lambda>e. e) ap_Applied res) # tr, db)))"
| "run_calls (Archive fault cutoff # calls) db =
     (case CleanupUsageBillingDedup fault 0 cutoff db of (err, db) \<Rightarrow> run_calls calls db)"

text \<open>The abstract account of a history: the ledger \<open>L\<close> of the commands that took effect.\<close>

definition ledger_of ::
  "UsageBillingCommand list \<Rightarrow> (UsageBillingCommand \<times> (go_error + bool)) list \<Rightarrow> billing_db \<Rightarrow> billing_db \<Rightarrow> bool" where
  "ledger_of L tr db db' =
     (subseq L (map fst tr) \<and> distinct (map command_key L) \<and> (\<forall>c \<in> set L. command_key c \<notin> billed_keys db)
      \<and> billed_keys db' = billed_keys db \<union> command_key ` set L \<and> charged L db db'
      \<and> (\<forall>c. (c, Inr True) \<in> set tr \<longrightarrow> c \<in> set L)
      \<and> (\<forall>c. (c, Inr False) \<in> set tr \<longrightarrow> command_key c \<in> billed_keys db'))"

lemma ledger_skip:
  assumes "ledger_of L tr db1 db'" "same_amounts db db1" "billed_keys db1 = billed_keys db"
    and "out = Inr False \<Longrightarrow> command_key c \<in> billed_keys db" "out \<noteq> Inr True"
  shows "ledger_of L ((c, out) # tr) db db'"
  using assms same_charged [OF assms(2), of L db'] by (auto simp: ledger_of_def)

lemma ledger_post:
  assumes "ledger_of L tr db1 db'" "command_key c \<notin> billed_keys db"
    and "billed_keys db1 = insert (command_key c) (billed_keys db)" "charged [c] db db1" "out \<noteq> Inr False"
  shows "ledger_of (c # L) ((c, out) # tr) db db'"
proof -
  have "charged (c # L) db db'" using charged_append [OF assms(4), of L db'] assms(1) by (simp add: ledger_of_def)
  then show ?thesis using assms(1-3,5) by (auto simp: ledger_of_def)
qed

lemma run_calls_ledger: "run_calls calls db = (tr, db') \<Longrightarrow> \<exists>L. ledger_of L tr db db'"
proof (induction calls db arbitrary: tr db' rule: run_calls.induct)
  case (1 db)
  then have "ledger_of [] tr db db'" by (simp add: ledger_of_def charged_Nil)
  then show ?case by blast
next
  case (2 env cmd calls db)
  obtain res db1 where ap: "Apply env cmd db = (res, db1)" by (metis surj_pair)
  obtain tr1 where tr1: "run_calls calls db1 = (tr1, db')"
    and tr: "tr = (Normalize (en_sha256hex env) cmd, map_sum (\<lambda>e. e) ap_Applied res) # tr1"
    using 2(2) ap by (auto split: prod.splits)
  obtain L where L: "ledger_of L tr1 db1 db'" using 2(1) [OF ap [symmetric] tr1] by blast
  define c where "c = Normalize (en_sha256hex env) cmd"
  define out where "out = map_sum (\<lambda>e. e) ap_Applied res"
  have tr': "tr = (c, out) # tr1" by (simp add: tr c_def out_def)
  from Apply_step [OF ap c_def]
  consider (skip) "same_amounts db db1" "billed_keys db1 = billed_keys db"
      "\<forall>r. res = Inr r \<longrightarrow> \<not> ap_Applied r \<and> command_key c \<in> billed_keys db"
    | (post) "command_key c \<notin> billed_keys db" "billed_keys db1 = insert (command_key c) (billed_keys db)"
      "charged [c] db db1" "\<forall>r. res = Inr r \<longrightarrow> ap_Applied r" by blast
  then show ?case
  proof cases
    case skip
    have "ledger_of L tr db db'"
      unfolding tr' by (rule ledger_skip [OF L skip(1,2)]) (use skip(3) in \<open>cases res; simp add: out_def\<close>)+
    then show ?thesis by blast
  next
    case post
    have "ledger_of (c # L) tr db db'"
      unfolding tr' by (rule ledger_post [OF L post(1-3)]) (use post(4) in \<open>cases res; simp add: out_def\<close>)
    then show ?thesis by blast
  qed
next
  case (3 fault cutoff calls db)
  obtain err db1 where cl: "CleanupUsageBillingDedup fault 0 cutoff db = (err, db1)" by (metis surj_pair)
  then have run: "run_calls calls db1 = (tr, db')" using 3(2) by simp
  obtain L where L: "ledger_of L tr db1 db'" using 3(1) [OF cl [symmetric] run] by blast
  then have "ledger_of L tr db db'"
    using CleanupUsageBillingDedup_same [OF cl] same_charged [of db db1 L db'] by (auto simp: ledger_of_def)
  then show ?case by blast
qed

text \<open>C5: Usage billing refines a ledger. Over every history of charges and archive runs, with failing
  statements, failed and unknown commits and archive batches in between, there is a list of commands,
  in the order of the calls, each with a key not charged before, such that the users' balances, the
  quota usage of the API keys and the usage windows of the subscriptions are those of the beginning with
  exactly these commands charged. Every call that reports a charge is on the list; every call
  that reports a duplicate has its key charged.\<close>

theorem billing_refines_ledger:
  assumes "run_calls calls db = (tr, db')"
  shows "\<exists>L. subseq L (map fst tr) \<and> distinct (map command_key L)
     \<and> (\<forall>c \<in> set L. command_key c \<notin> billed_keys db)
     \<and> billed_keys db' = billed_keys db \<union> command_key ` set L
     \<and> (\<forall>u. balance db' u = balance db u - (\<Sum>c\<leftarrow>L. balance_charge c u))
     \<and> (\<forall>k. key_quota_used db' k = key_quota_used db k + (\<Sum>c\<leftarrow>L. key_quota_charge c k))
     \<and> (\<forall>w \<in> set usage_windows. \<forall>s.
          subscription_usage w db' s = subscription_usage w db s + (\<Sum>c\<leftarrow>L. subscription_charge c s))
     \<and> (\<forall>c. (c, Inr True) \<in> set tr \<longrightarrow> c \<in> set L)
     \<and> (\<forall>c. (c, Inr False) \<in> set tr \<longrightarrow> command_key c \<in> billed_keys db')"
  using run_calls_ledger [OF assms] unfolding ledger_of_def charged_def by blast

section \<open>Retrying until it succeeds\<close>

text \<open>The rows of both tables: the archive job keeps them as they are.\<close>

definition all_rows :: "billing_db \<Rightarrow> dedup_row set" where
  "all_rows db = set (bd_dedup db) \<union> set (bd_archive db)"

lemma archive_rows_subset: "set (fold archive_row vs rows) \<subseteq> set vs \<union> set rows"
proof (induction vs arbitrary: rows)
  case (Cons v vs)
  have "set (archive_row v rows) \<subseteq> insert v (set rows)" by (auto simp: archive_row_def)
  then show ?case using Cons.IH [of "archive_row v rows"] by auto
qed simp

lemma cleanup_batch_rows: "all_rows (cleanup_batch cutoff db) \<subseteq> all_rows db"
  using archive_rows_subset [of "cleanup_victims cutoff (bd_dedup db)" "bd_archive db"]
    victims_subset [of cutoff "bd_dedup db"]
  by (auto simp: all_rows_def cleanup_batch_def Let_def)

lemma cleanup_batches_rows: "all_rows (fold cleanup_batch cs db) \<subseteq> all_rows db"
proof (induction cs arbitrary: db)
  case (Cons c cs)
  then show ?case using cleanup_batch_rows [of c db] by (auto dest: order_trans)
qed simp

lemma CleanupUsageBillingDedup_rows:
  "CleanupUsageBillingDedup fault n cutoff db = (err, db') \<Longrightarrow> all_rows db' \<subseteq> all_rows db"
proof (induction fault n cutoff db rule: CleanupUsageBillingDedup.induct)
  case (1 fault n cutoff db)
  show ?case
  proof (cases "fault n = None \<and> usageBillingDedupCleanupBatchSize \<le> length (cleanup_victims cutoff (bd_dedup db))")
    case True
    then have "CleanupUsageBillingDedup fault (Suc n) cutoff (cleanup_batch cutoff db) = (err, db')"
      using 1(2) by (subst (asm) CleanupUsageBillingDedup.simps) (simp add: Let_def)
    with 1(1) True have "all_rows db' \<subseteq> all_rows (cleanup_batch cutoff db)" by simp
    then show ?thesis using cleanup_batch_rows by blast
  next
    case False
    then have "db' = db \<or> db' = cleanup_batch cutoff db"
      using 1(2) by (subst (asm) CleanupUsageBillingDedup.simps) (auto simp: Let_def split: option.splits if_splits)
    then show ?thesis using cleanup_batch_rows [of cutoff db] by auto
  qed
qed

lemma Apply_rows:
  assumes "Apply env cmd db = (res, db')" "c = Normalize (en_sha256hex env) cmd"
  shows "all_rows db' \<subseteq> insert (claimed_row (en_now env) c) (all_rows db)"
proof (cases "uc_RequestID c = '''' \<or> en_fault env BeginTx \<noteq> None")
  case True
  then show ?thesis using assms Apply_early [of env cmd db] by auto
next
  case False
  obtain cl db1 where cl: "claimUsageBillingKey env c db = (cl, db1)" by (metis surj_pair)
  then have rows: "all_rows db1 \<subseteq> all_rows db"
    using cleanup_batches_rows [of "en_batches env" db]
    by (auto simp: claimUsageBillingKey_def Let_def split: option.splits if_splits)
  have "all_rows db' \<subseteq> insert (claimed_row (en_now env) c) (all_rows db1)" if "finish_apply env c db1 = (res, db')"
    using that
    by (auto simp: finish_apply_def all_rows_def Let_def tables_kept_def split: sum.splits commit.splits
        dest!: effects_step)
  then show ?thesis
    using Apply_claim [OF assms(2) _ _ cl] assms(1) False rows by (auto split: sum.splits if_splits)
qed

text \<open>A command whose rows are there: what an undisturbed transaction needs.\<close>

definition chargeable :: "billing_env \<Rightarrow> UsageBillingCommand \<Rightarrow> billing_db \<Rightarrow> bool" where
  "chargeable env c db =
     ((0 < uc_BalanceCost c \<longrightarrow> live_user db (uc_UserID c))
      \<and> (\<forall>s. uc_SubscriptionID c = Some s \<and> 0 < uc_SubscriptionCost c \<longrightarrow> live_subscription db s)
      \<and> (0 < uc_APIKeyQuotaCost c \<or> 0 < uc_APIKeyRateLimitCost c \<longrightarrow> live_key db (uc_APIKeyID c))
      \<and> (0 < uc_AccountQuotaCost c \<longrightarrow> (\<exists>r. bd_accounts db (uc_AccountID c) = Some r \<and> \<not> ar_deleted r
           \<and> increment_quota (en_zones env) (en_now env) (uc_AccountQuotaCost c) (ar_extra r) \<noteq> None)))"

definition undisturbed :: "billing_env \<Rightarrow> bool" where
  "undisturbed env = ((\<forall>s. en_fault env s = None) \<and> en_commit env = Committed \<and> en_batches env = [])"

lemma chargeable_same: "same_amounts db db' \<Longrightarrow> chargeable env c db' = chargeable env c db"
  by (cases db; cases db'; simp add: same_amounts_def chargeable_def live_user_def live_key_def live_subscription_def)

lemma subscription_succeeds:
  assumes "\<And>s. en_fault env s = None"
    and "\<And>s. uc_SubscriptionID c = Some s \<Longrightarrow> 0 < uc_SubscriptionCost c \<Longrightarrow> live_subscription db s"
  shows "\<exists>db'. subscription_effect env c db = Inr db'"
proof (cases "uc_SubscriptionID c")
  case (Some s)
  then show ?thesis
    using assms(1) assms(2) [of s]
    by (auto simp: subscription_effect_def incrementUsageBillingSubscription_def live_subscription_def)
qed (simp add: subscription_effect_def)

lemma balance_succeeds:
  assumes "\<And>s. en_fault env s = None" "0 < uc_BalanceCost c \<Longrightarrow> live_user db (uc_UserID c)"
  shows "\<exists>res' db'. balance_effect env c res db = Inr (res', db')"
  using assms by (auto simp: balance_effect_def deductUsageBillingBalance_def live_user_def)

lemma key_quota_succeeds:
  assumes "\<And>s. en_fault env s = None" "0 < uc_APIKeyQuotaCost c \<Longrightarrow> live_key db (uc_APIKeyID c)"
  shows "\<exists>res' db'. key_quota_effect env c res db = Inr (res', db')"
  using assms by (auto simp: key_quota_effect_def incrementUsageBillingAPIKeyQuota_def live_key_def Let_def)

lemma key_rate_limit_succeeds:
  assumes "\<And>s. en_fault env s = None" "0 < uc_APIKeyRateLimitCost c \<Longrightarrow> live_key db (uc_APIKeyID c)"
  shows "\<exists>db'. key_rate_limit_effect env c db = Inr db'"
  using assms by (auto simp: key_rate_limit_effect_def incrementUsageBillingAPIKeyRateLimit_def live_key_def)

lemma account_quota_succeeds:
  assumes "\<And>s. en_fault env s = None"
    and "0 < uc_AccountQuotaCost c \<Longrightarrow> \<exists>r. bd_accounts db (uc_AccountID c) = Some r \<and> \<not> ar_deleted r
           \<and> increment_quota (en_zones env) (en_now env) (uc_AccountQuotaCost c) (ar_extra r) \<noteq> None"
  shows "\<exists>res' db'. account_quota_effect env c res db = Inr (res', db')"
  using assms
  by (auto simp: account_quota_effect_def incrementUsageBillingAccountQuota_def enqueue_account_changed_def enqueueSchedulerOutbox_def Let_def)

lemma effects_succeed:
  assumes u: "undisturbed env" and c: "chargeable env c db"
  shows "\<exists>res' db'. applyUsageBillingEffects env c res db = Inr (res', db')"
proof -
  have f: "en_fault env s = None" for s using u by (simp add: undisturbed_def)
  have live: "0 < uc_BalanceCost c \<Longrightarrow> live_user db (uc_UserID c)"
    "uc_SubscriptionID c = Some s \<Longrightarrow> 0 < uc_SubscriptionCost c \<Longrightarrow> live_subscription db s"
    "0 < uc_APIKeyQuotaCost c \<Longrightarrow> live_key db (uc_APIKeyID c)"
    "0 < uc_APIKeyRateLimitCost c \<Longrightarrow> live_key db (uc_APIKeyID c)"
    "0 < uc_AccountQuotaCost c \<Longrightarrow> \<exists>r. bd_accounts db (uc_AccountID c) = Some r \<and> \<not> ar_deleted r
       \<and> increment_quota (en_zones env) (en_now env) (uc_AccountQuotaCost c) (ar_extra r) \<noteq> None" for s
    using c by (simp_all add: chargeable_def)
  obtain db1 where 1: "subscription_effect env c db = Inr db1"
    using subscription_succeeds [OF f live(2)] by blast
  note s1 = subscription_effect_step [OF 1, unfolded tables_kept_def]
  obtain res2 db2 where 2: "balance_effect env c res db1 = Inr (res2, db2)"
    using balance_succeeds [OF f, of c db1 res] live(1) s1 by auto
  note s2 = balance_effect_step [OF 2, unfolded tables_kept_def]
  obtain res3 db3 where 3: "key_quota_effect env c res2 db2 = Inr (res3, db3)"
    using key_quota_succeeds [OF f, of c db2 res2] live(3) s1 s2 by auto
  note s3 = key_quota_effect_step [OF 3, unfolded tables_kept_def]
  obtain db4 where 4: "key_rate_limit_effect env c db3 = Inr db4"
    using key_rate_limit_succeeds [OF f, of c db3] live(4) s1 s2 s3 by auto
  note s4 = key_rate_limit_effect_step [OF 4]
  have "bd_accounts db4 = bd_accounts db" using s1 s2 s3 s4 by simp
  then obtain res5 db5 where 5: "account_quota_effect env c res3 db4 = Inr (res5, db5)"
    using account_quota_succeeds [OF f, of c db4 res3] live(5) by metis
  show ?thesis using 1 2 3 4 5 by (simp add: applyUsageBillingEffects_def)
qed

lemma undisturbed_fresh:
  assumes u: "undisturbed env" and id: "c = Normalize (en_sha256hex env) cmd" "uc_RequestID c \<noteq> ''''"
    and fresh: "command_key c \<notin> billed_keys db" and ok: "chargeable env c db"
  shows "\<exists>r db'. Apply env cmd db = (Inr r, db') \<and> ap_Applied r \<and> charged [c] db db' \<and> command_key c \<in> billed_keys db'"
proof -
  have f: "en_fault env s = None" "en_batches env = []" "en_commit env = Committed" for s
    using u by (simp_all add: undisturbed_def)
  have "find_key (uc_RequestID c) (uc_APIKeyID c) (bd_dedup db) = None"
    "find_key (uc_RequestID c) (uc_APIKeyID c) (bd_archive db) = None"
    using fresh by (simp_all add: find_key_None billed_keys_def command_key_def)
  then have claim: "claimUsageBillingKey env c db = (Inr True, db)"
    by (simp add: claimUsageBillingKey_def f)
  obtain r1 db1 where "applyUsageBillingEffects env c (apply_result True) db = Inr (r1, db1)"
    using effects_succeed [OF u ok] by blast
  then obtain db' where ap: "Apply env cmd db = (Inr r1, db')"
    using Apply_claim [OF id f(1) claim] by (simp add: finish_apply_def f)
  with Apply_step [OF ap id(1)] fresh show ?thesis by auto
qed

lemma undisturbed_again:
  assumes u: "undisturbed env" and id: "c = Normalize (en_sha256hex env) cmd" "uc_RequestID c \<noteq> ''''"
    and key: "command_key c \<in> billed_keys db"
    and rows: "\<And>r. r \<in> all_rows db \<Longrightarrow> row_key r = command_key c \<Longrightarrow> dr_fingerprint r = uc_RequestFingerprint c"
  shows "Apply env cmd db = (Inr (apply_result False), db)"
proof -
  have f: "en_fault env s = None" "en_batches env = []" for s using u by (simp_all add: undisturbed_def)
  have found: "dr_fingerprint r = uc_RequestFingerprint c"
    if "find_key (uc_RequestID c) (uc_APIKeyID c) rs = Some r" "set rs \<subseteq> all_rows db" for rs r
  proof -
    have "r \<in> set rs" "row_key r = command_key c"
      using that(1) by (auto simp: find_key_def row_key_def command_key_def find_Some_iff)
    then show ?thesis using that(2) rows by blast
  qed
  have "set (bd_dedup db) \<subseteq> all_rows db" "set (bd_archive db) \<subseteq> all_rows db" by (auto simp: all_rows_def)
  moreover have "find_key (uc_RequestID c) (uc_APIKeyID c) (bd_dedup db) \<noteq> None
      \<or> find_key (uc_RequestID c) (uc_APIKeyID c) (bd_archive db) \<noteq> None"
    using key by (auto simp: find_key_None billed_keys_def command_key_def)
  ultimately have "claimUsageBillingKey env c db = (Inr False, db)"
    using found by (auto simp: claimUsageBillingKey_def f Let_def split: option.split)
  then show ?thesis using Apply_claim [OF id f(1)] by simp
qed

text \<open>C6: A request that is retried is charged exactly once. Whatever happens to the first attempt (a
  failing statement, a failed commit, a commit that took effect although it reported an error, archive
  batches in between) and whatever the archive job does afterwards, an undisturbed second attempt
  succeeds, and then the command has been charged once in full: it is neither lost nor charged twice.\<close>

theorem retry_charges_once:
  assumes "c = Normalize sha cmd" "en_sha256hex env1 = sha" "en_sha256hex env2 = sha" "uc_RequestID c \<noteq> ''''"
    and "command_key c \<notin> billed_keys db" "chargeable env2 c db" "undisturbed env2"
    and "Apply env1 cmd db = (res1, db1)" "CleanupUsageBillingDedup fault n cutoff db1 = (err, db2)"
  shows "\<exists>r db3. Apply env2 cmd db2 = (Inr r, db3) \<and> charged [c] db db3 \<and> command_key c \<in> billed_keys db3"
proof -
  have c1: "c = Normalize (en_sha256hex env1) cmd" and c2: "c = Normalize (en_sha256hex env2) cmd"
    using assms(1-3) by simp_all
  note clean = CleanupUsageBillingDedup_same [OF assms(9)]
  from Apply_step [OF assms(8) c1]
  consider (skip) "same_amounts db db1" "billed_keys db1 = billed_keys db"
    | (post) "billed_keys db1 = insert (command_key c) (billed_keys db)" "charged [c] db db1" by blast
  then show ?thesis
  proof cases
    case skip
    have same: "same_amounts db db2" using same_amounts_trans [OF skip(1)] clean by blast
    obtain r db3 where "Apply env2 cmd db2 = (Inr r, db3)" "charged [c] db2 db3" "command_key c \<in> billed_keys db3"
      using undisturbed_fresh [OF assms(7) c2 assms(4), of db2] skip(2) clean assms(5,6) chargeable_same [OF same]
      by auto
    then show ?thesis using same_charged [OF same] by blast
  next
    case post
    have rows: "dr_fingerprint r = uc_RequestFingerprint c" if "r \<in> all_rows db2" "row_key r = command_key c" for r
    proof -
      have "r = claimed_row (en_now env1) c \<or> r \<in> all_rows db"
        using that(1) CleanupUsageBillingDedup_rows [OF assms(9)] Apply_rows [OF assms(8) c1] by blast
      moreover have "r \<notin> all_rows db"
        using assms(5) that(2) by (auto simp: billed_keys_def all_rows_def image_iff)
      ultimately show ?thesis by (simp add: claimed_row_def)
    qed
    have "Apply env2 cmd db2 = (Inr (apply_result False), db2)"
      using undisturbed_again [OF assms(7) c2 assms(4) _ rows] clean post(1) by simp
    moreover have "charged [c] db db2" using charged_same [OF post(2)] clean by blast
    ultimately show ?thesis using clean post(1) by auto
  qed
qed

section \<open>Rate-limit windows\<close>

text \<open>A window without a start has no usage on it.\<close>

definition rate_windows_ok :: "api_key_row \<Rightarrow> bool" where
  "rate_windows_ok r =
     ((ak_window_5h_start r = None \<longrightarrow> ak_usage_5h r = 0) \<and> (ak_window_1d_start r = None \<longrightarrow> ak_usage_1d r = 0)
      \<and> (ak_window_7d_start r = None \<longrightarrow> ak_usage_7d r = 0))"

lemma local_midnight: "now - Day < local_day_at 0 zone now" "local_day_at 0 zone now \<le> now"
  using pos_mod_bound [of Day "now + zone"] pos_mod_sign [of Day "now + zone"]
  by (simp_all add: local_day_at_def Let_def)

text \<open>Adding to the rate-limit usage of an API key in SQL is adding to the usage the gateway reads: for
  each of the three windows the effective usage grows by exactly the cost, whether the window goes on
  or has run out and starts anew at the current time or at midnight of the session's zone.\<close>

lemma rate_limit_refines:
  assumes "rate_windows_ok r"
  shows "EffectiveUsage5h now (add_rate_limit_usage now zone cost r) = EffectiveUsage5h now r + cost
     \<and> EffectiveUsage1d now (add_rate_limit_usage now zone cost r) = EffectiveUsage1d now r + cost
     \<and> EffectiveUsage7d now (add_rate_limit_usage now zone cost r) = EffectiveUsage7d now r + cost
     \<and> rate_windows_ok (add_rate_limit_usage now zone cost r)"
proof (intro conjI)
  note midnight = local_midnight [where now = now and zone = zone]
  show "EffectiveUsage5h now (add_rate_limit_usage now zone cost r) = EffectiveUsage5h now r + cost"
    using assms by (auto simp: rate_windows_ok_def EffectiveUsage5h_def IsWindowExpired_def RateLimitWindow5h_def
        add_rate_limit_usage_def window_over_def split: option.splits)
  show "EffectiveUsage1d now (add_rate_limit_usage now zone cost r) = EffectiveUsage1d now r + cost"
    using assms midnight by (auto simp: rate_windows_ok_def EffectiveUsage1d_def IsWindowExpired_def
        RateLimitWindow1d_def add_rate_limit_usage_def window_over_def split: option.splits)
  show "EffectiveUsage7d now (add_rate_limit_usage now zone cost r) = EffectiveUsage7d now r + cost"
    using assms midnight by (auto simp: rate_windows_ok_def EffectiveUsage7d_def IsWindowExpired_def
        RateLimitWindow7d_def add_rate_limit_usage_def window_over_def split: option.splits)
  show "rate_windows_ok (add_rate_limit_usage now zone cost r)"
    by (auto simp: rate_windows_ok_def add_rate_limit_usage_def)
qed

section \<open>A concrete history\<close>

definition demo_key_row :: api_key_row where
  "demo_key_row = \<lparr>ak_quota = 5, ak_quota_used = 4, ak_status = ''active'', ak_usage_5h = 2, ak_usage_1d = 2,
     ak_usage_7d = 2, ak_window_5h_start = Some 0, ak_window_1d_start = Some 0, ak_window_7d_start = Some 0,
     ak_deleted = False\<rparr>"

definition demo_db :: billing_db where
  "demo_db = \<lparr>bd_dedup = [], bd_archive = [], bd_users = [1 \<mapsto> \<lparr>ur_balance = 10, ur_deleted = False\<rparr>],
     bd_subscriptions = Map.empty, bd_groups_deleted = Map.empty, bd_api_keys = [1 \<mapsto> demo_key_row],
     bd_accounts = Map.empty, bd_outbox = \<lparr>ox_rows = [], ox_next = 1\<rparr>\<rparr>"

definition demo_env :: "commit \<Rightarrow> billing_env" where
  "demo_env com = \<lparr>en_fault = (\<lambda>_. None), en_commit = com, en_batches = [], en_now = 7 * Hour,
     en_session_zone = 0, en_zones = demo_zones, en_sha256hex = (\<lambda>_. ''f'')\<rparr>"

definition demo_command :: UsageBillingCommand where
  "demo_command = blank_command\<lparr>uc_RequestID := ''r1'', uc_APIKeyID := 1, uc_UserID := 1, uc_BalanceCost := 3,
     uc_APIKeyQuotaCost := 3\<rparr>"

lemma demo_normalized: "uc_RequestID (Normalize (\<lambda>_. ''f'') demo_command) = ''r1''"
  "uc_APIKeyID (Normalize (\<lambda>_. ''f'') demo_command) = 1" "uc_UserID (Normalize (\<lambda>_. ''f'') demo_command) = 1"
  "uc_BalanceCost (Normalize (\<lambda>_. ''f'') demo_command) = 3"
  "uc_SubscriptionID (Normalize (\<lambda>_. ''f'') demo_command) = None"
  "uc_AccountQuotaCost (Normalize (\<lambda>_. ''f'') demo_command) = 0"
proof -
  have "trim_space ''r1'' = ''r1''" by code_simp
  then show "uc_RequestID (Normalize (\<lambda>_. ''f'') demo_command) = ''r1''"
    by (simp add: Normalize_def Let_def demo_command_def blank_command_def)
qed (simp_all add: Normalize_def Let_def demo_command_def blank_command_def)

theorem billing_refines_ledger_witness:
  "\<exists>tr db'. run_calls [Charge (demo_env (CommitUnknown sql_no_rows)) demo_command,
       Charge (demo_env Committed) demo_command] demo_db = (tr, db')
     \<and> (\<exists>L. subseq L (map fst tr) \<and> distinct (map command_key L)
          \<and> (\<forall>u. balance db' u = balance demo_db u - (\<Sum>c\<leftarrow>L. balance_charge c u)))"
proof -
  obtain tr db' where "run_calls [Charge (demo_env (CommitUnknown sql_no_rows)) demo_command,
       Charge (demo_env Committed) demo_command] demo_db = (tr, db')" by (metis surj_pair)
  with billing_refines_ledger [OF this] show ?thesis by blast
qed

theorem retry_charges_once_witness:
  "\<exists>res1 r db1 db3. Apply (demo_env (CommitUnknown sql_no_rows)) demo_command demo_db = (res1, db1)
     \<and> Apply (demo_env Committed) demo_command (snd (CleanupUsageBillingDedup (\<lambda>_. None) 0 (8 * Hour) db1)) = (Inr r, db3)
     \<and> balance db3 1 = 7"
proof -
  let ?c = "Normalize (\<lambda>_. ''f'') demo_command"
  obtain res1 db1 where 1: "Apply (demo_env (CommitUnknown sql_no_rows)) demo_command demo_db = (res1, db1)"
    by (metis surj_pair)
  obtain err db2 where 2: "CleanupUsageBillingDedup (\<lambda>_. None) 0 (8 * Hour) db1 = (err, db2)" by (metis surj_pair)
  have fresh: "command_key ?c \<notin> billed_keys demo_db" by (simp add: billed_keys_def demo_db_def)
  have ok: "chargeable (demo_env Committed) ?c demo_db"
    by (simp add: chargeable_def demo_normalized live_user_def live_key_def demo_db_def demo_key_row_def)
  have u: "undisturbed (demo_env Committed)" by (simp add: undisturbed_def demo_env_def)
  obtain r db3 where "Apply (demo_env Committed) demo_command db2 = (Inr r, db3)" "charged [?c] demo_db db3"
    using retry_charges_once [OF refl _ _ _ fresh ok u 1 2] by (auto simp: demo_env_def demo_normalized)
  moreover have "balance demo_db 1 = 10" by (simp add: balance_def demo_db_def)
  ultimately show ?thesis
    using 1 2 by (auto simp: charged_def balance_charge_def demo_normalized)
qed

lemma Normalize_amounts [simp]:
  "uc_UserID (Normalize sha c) = uc_UserID c" "uc_APIKeyID (Normalize sha c) = uc_APIKeyID c"
  "uc_SubscriptionID (Normalize sha c) = uc_SubscriptionID c" "uc_BalanceCost (Normalize sha c) = uc_BalanceCost c"
  "uc_SubscriptionCost (Normalize sha c) = uc_SubscriptionCost c"
  "uc_APIKeyQuotaCost (Normalize sha c) = uc_APIKeyQuotaCost c"
  "uc_APIKeyRateLimitCost (Normalize sha c) = uc_APIKeyRateLimitCost c"
  "uc_AccountQuotaCost (Normalize sha c) = uc_AccountQuotaCost c"
  by (simp_all add: Normalize_def Let_def)

text \<open>Whether a request is charged to the subscription or to the balance.\<close>

definition on_subscription :: "postUsageBillingParams \<Rightarrow> CostBreakdown \<Rightarrow> bool" where
  "on_subscription p cost = (pb_IsSubscriptionBill p \<and> pb_SubscriptionID p \<noteq> None \<and> 0 < cb_TotalCost cost)"

lemma logged_fields_amounts:
  "uc_UserID (logged_fields l c) = uc_UserID c" "uc_BalanceCost (logged_fields l c) = uc_BalanceCost c"
  "uc_SubscriptionCost (logged_fields l c) = uc_SubscriptionCost c"
  by (simp_all add: logged_fields_def Let_def split: option.split)

lemma cost_fields_amounts:
  "uc_UserID (cost_fields cost k a p c) = uc_UserID c"
  "uc_BalanceCost c = 0 \<Longrightarrow> uc_BalanceCost (cost_fields cost k a p c) = (if on_subscription p cost then 0 else max 0 (cb_ActualCost cost))"
  "uc_SubscriptionCost c = 0 \<Longrightarrow> uc_SubscriptionCost (cost_fields cost k a p c) = (if on_subscription p cost then cb_ActualCost cost else 0)"
  "on_subscription p cost \<Longrightarrow> uc_SubscriptionID (cost_fields cost k a p c) = pb_SubscriptionID p"
  by (auto simp: cost_fields_def on_subscription_def Let_def)

lemma built_command:
  assumes "buildUsageBillingCommand sha rid ul p = Some cmd" "pb_Cost p = Some cost"
  shows "Some (uc_UserID cmd) = pb_UserID p"
    "uc_BalanceCost cmd = (if on_subscription p cost then 0 else max 0 (cb_ActualCost cost))"
    "uc_SubscriptionCost cmd = (if on_subscription p cost then cb_ActualCost cost else 0)"
    "on_subscription p cost \<Longrightarrow> uc_SubscriptionID cmd = pb_SubscriptionID p"
proof -
  obtain k u a c where c: "pb_UserID p = Some u" "cmd = Normalize sha (cost_fields cost k a p c)"
    "uc_UserID c = u" "uc_BalanceCost c = 0" "uc_SubscriptionCost c = 0"
    using assms by (cases ul) (auto simp: buildUsageBillingCommand_def Let_def blank_command_def logged_fields_amounts
        split: option.splits)
  then show "Some (uc_UserID cmd) = pb_UserID p"
    "uc_BalanceCost cmd = (if on_subscription p cost then 0 else max 0 (cb_ActualCost cost))"
    "uc_SubscriptionCost cmd = (if on_subscription p cost then cb_ActualCost cost else 0)"
    "on_subscription p cost \<Longrightarrow> uc_SubscriptionID cmd = pb_SubscriptionID p"
    by (simp_all add: cost_fields_amounts)
qed

lemma Applied_charged:
  assumes "Apply env cmd db = (Inr r, db')"
  shows "if ap_Applied r then command_key (Normalize (en_sha256hex env) cmd) \<notin> billed_keys db \<and> charged [Normalize (en_sha256hex env) cmd] db db'
     else command_key (Normalize (en_sha256hex env) cmd) \<in> billed_keys db \<and> same_amounts db db'"
  using Apply_step [OF assms refl] by auto

end
