(* ===== verification/Account_Model.thy ===== *)
theory Account_Model
  imports Account_Quota
begin

text \<open>
  The account as the scheduler sees it (\<open>service/account.go\<close>): its stored fields, with \<open>Credentials\<close> and
  \<open>Extra\<close> as JSON objects, and the conditions under which it takes requests. The links to the entities
  loaded with it (proxy, groups) are left out of the record. The quota fields of \<open>Extra\<close> are read as
  \<open>Account_Quota\<close> has them.
\<close>

section \<open>JSON values and accounts\<close>

datatype json = JNull | JBool bool | JNumber rat | JString string | JArray "json list" | JObject "(string \<times> json) list"

record AccountGroup =
  ag_AccountID :: int
  ag_GroupID :: int
  ag_Priority :: int
  ag_CreatedAt :: time

record FullAccount =
  fa_ID :: int
  fa_Name :: string
  fa_Notes :: "string option"
  fa_Platform :: string
  fa_Type :: string
  fa_Credentials :: "string \<rightharpoonup> json"
  fa_Extra :: "string \<rightharpoonup> json"
  fa_ProxyID :: "int option"
  fa_ProxyFallbackOriginID :: "int option"
  fa_Concurrency :: int
  fa_Priority :: int
  fa_RateMultiplier :: "rat option"
  fa_LoadFactor :: "int option"
  fa_Status :: string
  fa_ErrorMessage :: string
  fa_LastUsedAt :: "time option"
  fa_ExpiresAt :: "time option"
  fa_AutoPauseOnExpired :: bool
  fa_CreatedAt :: time
  fa_UpdatedAt :: time
  fa_Schedulable :: bool
  fa_RateLimitedAt :: "time option"
  fa_RateLimitResetAt :: "time option"
  fa_OverloadUntil :: "time option"
  fa_TempUnschedulableUntil :: "time option"
  fa_TempUnschedulableReason :: string
  fa_SessionWindowStart :: "time option"
  fa_SessionWindowEnd :: "time option"
  fa_SessionWindowStatus :: string
  fa_AccountGroups :: "AccountGroup list"
  fa_GroupIDs :: "int list"

text \<open>The value of an unset \<open>time.Time\<close>, midnight of January 1 of the year 1.\<close>

definition zero_time :: time where "zero_time = - 62135596800 * Second"

definition account_IsActive :: "FullAccount \<Rightarrow> bool" where "account_IsActive a = (fa_Status a = StatusActive)"

definition IsMixedSchedulingEnabled :: "FullAccount \<Rightarrow> bool" where
  "IsMixedSchedulingEnabled a =
     (fa_Platform a = PlatformAntigravity \<and> fa_Extra a ''mixed_scheduling'' = Some (JBool True))"

text \<open>The positive ids of a list, each once, after those already in \<open>out\<close>: the loop several functions of
  the scheduler share, whose set \<open>seen\<close> always holds the ids of \<open>out\<close>.\<close>

fun add_positive :: "int list \<Rightarrow> int list \<Rightarrow> int list" where
  "add_positive out [] = out"
| "add_positive out (i # is) =
     (if i \<le> 0 then add_positive out is
      else if i \<in> set out then add_positive out is
      else add_positive (out @ [i]) is)"

definition uniquePositiveInt64s :: "int list \<Rightarrow> int list" where
  "uniquePositiveInt64s is = add_positive [] is"

lemma in_add_positive: "x \<in> set (add_positive out is) \<longleftrightarrow> x \<in> set out \<or> x \<in> set is \<and> 0 < x"
proof (induction out "is" rule: add_positive.induct)
  case (2 out i "is")
  then show ?case by (cases "i \<le> 0"; cases "i \<in> set out") auto
qed simp

lemma set_add_positive [simp]: "set (add_positive out is) = set out \<union> {i \<in> set is. 0 < i}"
  using in_add_positive by blast

lemma distinct_add_positive: "distinct out \<Longrightarrow> distinct (add_positive out is)"
proof (induction out "is" rule: add_positive.induct)
  case (2 out i "is")
  then show ?case by (cases "i \<le> 0"; cases "i \<in> set out") simp_all
qed simp

text \<open>The quota fields of \<open>Extra\<close> as \<open>Account_Quota\<close> reads them. \<open>xp_float\<close> and \<open>xp_time\<close> are
  \<open>strconv.ParseFloat\<close> and \<open>time.Parse\<close>, with \<open>None\<close> for an error.\<close>

record extra_parsers =
  xp_float :: "string \<Rightarrow> rat option"
  xp_time :: "string \<Rightarrow> time option"

definition parseExtraFloat64 :: "extra_parsers \<Rightarrow> json \<Rightarrow> rat" where
  "parseExtraFloat64 xp v =
     (case v of JNumber x \<Rightarrow> x | JString t \<Rightarrow> or_else (xp_float xp (trim_space t)) 0 | _ \<Rightarrow> 0)"

definition extra_int :: "extra_parsers \<Rightarrow> json \<Rightarrow> int" where
  "extra_int xp v = (let x = parseExtraFloat64 xp v in if 0 \<le> x then \<lfloor>x\<rfloor> else \<lceil>x\<rceil>)"

definition string_of :: "json \<Rightarrow> string option" where
  "string_of v = (case v of JString t \<Rightarrow> Some t | _ \<Rightarrow> None)"

definition parseExtraTime :: "extra_parsers \<Rightarrow> json \<Rightarrow> time option" where
  "parseExtraTime xp v = (case v of JString t \<Rightarrow> xp_time xp t | _ \<Rightarrow> None)"

definition quota_extra_of :: "extra_parsers \<Rightarrow> (string \<rightharpoonup> json) \<Rightarrow> quota_extra" where
  "quota_extra_of xp e =
     (let f = (\<lambda>k. map_option (parseExtraFloat64 xp) (e k)); i = (\<lambda>k. map_option (extra_int xp) (e k));
          t = (\<lambda>k. Option.bind (e k) (parseExtraTime xp)); s = (\<lambda>k. Option.bind (e k) string_of)
      in \<lparr>qe_quota_used = f ''quota_used'', qe_quota_limit = f ''quota_limit'',
          qe_quota_daily_used = f ''quota_daily_used'', qe_quota_daily_limit = f ''quota_daily_limit'',
          qe_quota_daily_start = t ''quota_daily_start'', qe_quota_daily_reset_mode = s ''quota_daily_reset_mode'',
          qe_quota_daily_reset_hour = i ''quota_daily_reset_hour'', qe_quota_daily_reset_at = t ''quota_daily_reset_at'',
          qe_quota_weekly_used = f ''quota_weekly_used'', qe_quota_weekly_limit = f ''quota_weekly_limit'',
          qe_quota_weekly_start = t ''quota_weekly_start'', qe_quota_weekly_reset_mode = s ''quota_weekly_reset_mode'',
          qe_quota_weekly_reset_day = i ''quota_weekly_reset_day'',
          qe_quota_weekly_reset_hour = i ''quota_weekly_reset_hour'',
          qe_quota_weekly_reset_at = t ''quota_weekly_reset_at'',
          qe_quota_reset_timezone = s ''quota_reset_timezone''\<rparr>)"

definition quota_account :: "extra_parsers \<Rightarrow> FullAccount \<Rightarrow> Account" where
  "quota_account xp a = \<lparr>acc_ID = fa_ID a, acc_Type = fa_Type a, acc_Extra = quota_extra_of xp (fa_Extra a)\<rparr>"

definition passed :: "time \<Rightarrow> time option \<Rightarrow> bool" where
  "passed now t = (case t of None \<Rightarrow> True | Some u \<Rightarrow> u \<le> now)"

definition IsSchedulable :: "extra_parsers \<Rightarrow> zones \<Rightarrow> time \<Rightarrow> FullAccount \<Rightarrow> bool" where
  "IsSchedulable xp zones now a =
     (if \<not> account_IsActive a \<or> \<not> fa_Schedulable a then False
      else if fa_AutoPauseOnExpired a \<and> (case fa_ExpiresAt a of None \<Rightarrow> False | Some t \<Rightarrow> t \<le> now) then False
      else if \<not> passed now (fa_OverloadUntil a) then False
      else if \<not> passed now (fa_RateLimitResetAt a) then False
      else if \<not> passed now (fa_TempUnschedulableUntil a) then False
      else if IsAPIKeyOrBedrock (quota_account xp a) \<and> IsQuotaExceeded zones now (quota_account xp a) then False
      else True)"

end
