(* ===== verification/Scheduler_Cache.thy ===== *)
theory Scheduler_Cache
  imports Account_Model "HOL-Library.Char_ord" "HOL-Library.List_Lexorder" "HOL-Library.Product_Lexorder"
begin

text \<open>
  The snapshots of schedulable accounts in Redis: the buckets of \<open>service/scheduler_cache.go\<close> and the cache
  of \<open>repository/scheduler_cache.go\<close>.

  Redis is the record \<open>sched_redis\<close> of its strings, sorted sets and sets, each a map from key names; a
  key may have an expiry, after which it counts as absent. The accounts are stored as JSON text: encoding and decoding are the two
  fields of \<open>account_codec\<close>. Each call may fail; of a pipeline that fails, any prefix may have been
  applied. The script compares versions as Lua numbers, which are exact in the range they reach.
\<close>

section \<open>Buckets\<close>

definition SchedulerModeSingle :: string where "SchedulerModeSingle = ''single''"
definition SchedulerModeMixed :: string where "SchedulerModeMixed = ''mixed''"
definition SchedulerModeForced :: string where "SchedulerModeForced = ''forced''"

record SchedulerBucket =
  bu_GroupID :: int
  bu_Platform :: string
  bu_Mode :: string

definition bucket_String :: "SchedulerBucket \<Rightarrow> string" where
  "bucket_String b = itoa (bu_GroupID b) @ '':'' @ bu_Platform b @ '':'' @ bu_Mode b"

text \<open>\<open>strings.Split(raw, ":")\<close>.\<close>

fun split_colon :: "string \<Rightarrow> string list" where
  "split_colon [] = [[]]"
| "split_colon (c # cs) =
     (if c = CHR '':'' then [] # split_colon cs
      else case split_colon cs of [] \<Rightarrow> [[c]] | p # ps \<Rightarrow> (c # p) # ps)"

definition ParseSchedulerBucket :: "string \<Rightarrow> SchedulerBucket option" where
  "ParseSchedulerBucket raw =
     (case split_colon raw of
        [g, p, m] \<Rightarrow>
          (case atoi g of
             None \<Rightarrow> None
           | Some groupID \<Rightarrow>
               if p = '''' \<or> m = '''' then None
               else Some \<lparr>bu_GroupID = groupID, bu_Platform = p, bu_Mode = m\<rparr>)
      | _ \<Rightarrow> None)"

section \<open>What a snapshot keeps of an account\<close>

definition filterSchedulerAccountGroups :: "AccountGroup list \<Rightarrow> AccountGroup list" where
  "filterSchedulerAccountGroups ags = filter (\<lambda>ag. 0 < ag_GroupID ag) ags"

definition filterSchedulerGroupIDs :: "int list \<Rightarrow> AccountGroup list \<Rightarrow> int list" where
  "filterSchedulerGroupIDs groupIDs ags = add_positive (add_positive [] groupIDs) (map ag_GroupID ags)"

definition keep_keys :: "string list \<Rightarrow> (string \<rightharpoonup> json) \<Rightarrow> (string \<rightharpoonup> json)" where
  "keep_keys keys m = (\<lambda>k. if k \<in> set keys \<and> m k \<noteq> Some JNull then m k else None)"

definition filterSchedulerCredentials :: "(string \<rightharpoonup> json) \<Rightarrow> (string \<rightharpoonup> json)" where
  "filterSchedulerCredentials = keep_keys [''model_mapping'', ''api_key'', ''project_id'', ''oauth_type'']"

definition scheduler_extra_keys :: "string list" where
  "scheduler_extra_keys =
     [''mixed_scheduling'', ''window_cost_limit'', ''window_cost_sticky_reserve'', ''max_sessions'',
      ''session_idle_timeout_minutes'', ''openai_oauth_responses_websockets_v2_enabled'',
      ''openai_oauth_responses_websockets_v2_mode'', ''openai_apikey_responses_websockets_v2_enabled'',
      ''openai_apikey_responses_websockets_v2_mode'', ''responses_websockets_v2_enabled'',
      ''openai_ws_enabled'', ''openai_ws_force_http'', ''openai_responses_mode'',
      ''openai_responses_supported'', ''codex_5h_used_percent'', ''codex_7d_used_percent'',
      ''codex_5h_reset_at'', ''codex_7d_reset_at'', ''codex_5h_reset_after_seconds'',
      ''codex_7d_reset_after_seconds'', ''codex_usage_updated_at'', ''auto_pause_5h_threshold'',
      ''auto_pause_7d_threshold'', ''auto_pause_5h_disabled'', ''auto_pause_7d_disabled'',
      ''model_rate_limits'']"

definition filterSchedulerExtra :: "(string \<rightharpoonup> json) \<Rightarrow> (string \<rightharpoonup> json)" where
  "filterSchedulerExtra = keep_keys scheduler_extra_keys"

definition buildSchedulerMetadataAccount :: "FullAccount \<Rightarrow> FullAccount" where
  "buildSchedulerMetadataAccount a =
     \<lparr>fa_ID = fa_ID a, fa_Name = fa_Name a, fa_Notes = None, fa_Platform = fa_Platform a, fa_Type = fa_Type a,
      fa_Credentials = filterSchedulerCredentials (fa_Credentials a), fa_Extra = filterSchedulerExtra (fa_Extra a),
      fa_ProxyID = None, fa_ProxyFallbackOriginID = None, fa_Concurrency = fa_Concurrency a,
      fa_Priority = fa_Priority a, fa_RateMultiplier = fa_RateMultiplier a, fa_LoadFactor = fa_LoadFactor a,
      fa_Status = fa_Status a, fa_ErrorMessage = '''', fa_LastUsedAt = fa_LastUsedAt a,
      fa_ExpiresAt = fa_ExpiresAt a, fa_AutoPauseOnExpired = fa_AutoPauseOnExpired a, fa_CreatedAt = zero_time,
      fa_UpdatedAt = zero_time, fa_Schedulable = fa_Schedulable a, fa_RateLimitedAt = fa_RateLimitedAt a,
      fa_RateLimitResetAt = fa_RateLimitResetAt a, fa_OverloadUntil = fa_OverloadUntil a,
      fa_TempUnschedulableUntil = fa_TempUnschedulableUntil a,
      fa_TempUnschedulableReason = fa_TempUnschedulableReason a, fa_SessionWindowStart = fa_SessionWindowStart a,
      fa_SessionWindowEnd = fa_SessionWindowEnd a, fa_SessionWindowStatus = fa_SessionWindowStatus a,
      fa_AccountGroups = filterSchedulerAccountGroups (fa_AccountGroups a),
      fa_GroupIDs = filterSchedulerGroupIDs (fa_GroupIDs a) (fa_AccountGroups a)\<rparr>"

section \<open>The key space\<close>

type_synonym snapshot_zset = "(string \<times> int) list"

record sched_redis =
  sr_strings :: "string \<rightharpoonup> string \<times> time option"
  sr_zsets :: "string \<rightharpoonup> snapshot_zset \<times> time option"
  sr_sets :: "string \<Rightarrow> string list"

definition live :: "time \<Rightarrow> time option \<Rightarrow> bool" where
  "live now ex = (case ex of None \<Rightarrow> True | Some t \<Rightarrow> now < t)"

definition redis_GET :: "time \<Rightarrow> string \<Rightarrow> sched_redis \<Rightarrow> string option" where
  "redis_GET now key r =
     (case sr_strings r key of None \<Rightarrow> None | Some (v, ex) \<Rightarrow> if live now ex then Some v else None)"

definition redis_SET :: "string \<Rightarrow> string \<Rightarrow> time option \<Rightarrow> sched_redis \<Rightarrow> sched_redis" where
  "redis_SET key v ex r = r\<lparr>sr_strings := (sr_strings r)(key \<mapsto> (v, ex))\<rparr>"

definition redis_DEL :: "string \<Rightarrow> sched_redis \<Rightarrow> sched_redis" where
  "redis_DEL key r = r\<lparr>sr_strings := (sr_strings r)(key := None), sr_zsets := (sr_zsets r)(key := None)\<rparr>"

definition redis_INCR :: "time \<Rightarrow> string \<Rightarrow> sched_redis \<Rightarrow> (go_error + int) \<times> sched_redis" where
  "redis_INCR now key r =
     (case sr_strings r key of
        None \<Rightarrow> (Inr 1, redis_SET key (itoa 1) None r)
      | Some (v, ex) \<Rightarrow>
          if \<not> live now ex then (Inr 1, redis_SET key (itoa 1) None r)
          else
            (case atoi v of
               None \<Rightarrow> (Inl (OtherError ''ERR value is not an integer or out of range'' None), r)
             | Some n \<Rightarrow>
                 if n = MaxInt64 then (Inl (OtherError ''ERR increment or decrement would overflow'' None), r)
                 else (Inr (n + 1), redis_SET key (itoa (n + 1)) ex r)))"

text \<open>A sorted set as its members with their scores; \<open>ZRANGE key 0 -1\<close> lists the members by score, those of
  equal score in lexicographic order.\<close>

definition redis_zset :: "time \<Rightarrow> string \<Rightarrow> sched_redis \<Rightarrow> snapshot_zset" where
  "redis_zset now key r =
     (case sr_zsets r key of None \<Rightarrow> [] | Some (zs, ex) \<Rightarrow> if live now ex then zs else [])"

definition zset_add :: "snapshot_zset \<Rightarrow> string \<times> int \<Rightarrow> snapshot_zset" where
  "zset_add zs m = filter (\<lambda>x. fst x \<noteq> fst m) zs @ [m]"

definition redis_ZADD :: "time \<Rightarrow> string \<Rightarrow> (string \<times> int) list \<Rightarrow> sched_redis \<Rightarrow> sched_redis" where
  "redis_ZADD now key members r =
     (let ex = (case sr_zsets r key of None \<Rightarrow> None | Some (_, ex) \<Rightarrow> if live now ex then ex else None)
      in r\<lparr>sr_zsets := (sr_zsets r)(key \<mapsto> (foldl zset_add (redis_zset now key r) members, ex))\<rparr>)"

definition redis_ZRANGE :: "time \<Rightarrow> string \<Rightarrow> sched_redis \<Rightarrow> string list" where
  "redis_ZRANGE now key r = map fst (sort_key (\<lambda>(m, sc). (sc, m)) (redis_zset now key r))"

definition redis_EXPIRE :: "time \<Rightarrow> string \<Rightarrow> duration \<Rightarrow> sched_redis \<Rightarrow> sched_redis" where
  "redis_EXPIRE now key ttl r =
     r\<lparr>sr_zsets := (case sr_zsets r key of
          None \<Rightarrow> sr_zsets r
        | Some (zs, ex) \<Rightarrow> if live now ex then (sr_zsets r)(key \<mapsto> (zs, Some (now + ttl))) else sr_zsets r)\<rparr>"

definition redis_SADD :: "string \<Rightarrow> string \<Rightarrow> sched_redis \<Rightarrow> sched_redis" where
  "redis_SADD key m r =
     r\<lparr>sr_sets := (sr_sets r)(key := (if m \<in> set (sr_sets r key) then sr_sets r key else sr_sets r key @ [m]))\<rparr>"

text \<open>A pipeline applies its commands in order; one that fails may have applied some of them.\<close>

type_synonym pipe_fault = "(go_error \<times> nat) option"

definition exec_pipe ::
  "pipe_fault \<Rightarrow> (sched_redis \<Rightarrow> sched_redis) list \<Rightarrow> sched_redis \<Rightarrow> go_error option \<times> sched_redis" where
  "exec_pipe fault cmds r =
     (case fault of None \<Rightarrow> (None, fold (\<lambda>c. c) cmds r) | Some (err, k) \<Rightarrow> (Some err, fold (\<lambda>c. c) (take k cmds) r))"

definition schedulerBucketSetKey :: string where "schedulerBucketSetKey = ''sched:buckets''"
definition schedulerOutboxWatermarkKey :: string where "schedulerOutboxWatermarkKey = ''sched:outbox:watermark''"
definition schedulerAccountPrefix :: string where "schedulerAccountPrefix = ''sched:acc:''"
definition schedulerAccountMetaPrefix :: string where "schedulerAccountMetaPrefix = ''sched:meta:''"
definition schedulerActivePrefix :: string where "schedulerActivePrefix = ''sched:active:''"
definition schedulerReadyPrefix :: string where "schedulerReadyPrefix = ''sched:ready:''"
definition schedulerVersionPrefix :: string where "schedulerVersionPrefix = ''sched:ver:''"
definition schedulerSnapshotPrefix :: string where "schedulerSnapshotPrefix = ''sched:''"
definition schedulerLockPrefix :: string where "schedulerLockPrefix = ''sched:lock:''"
definition defaultSchedulerSnapshotMGetChunkSize :: int where "defaultSchedulerSnapshotMGetChunkSize = 128"
definition defaultSchedulerSnapshotWriteChunkSize :: int where "defaultSchedulerSnapshotWriteChunkSize = 256"
definition snapshotGraceTTLSeconds :: int where "snapshotGraceTTLSeconds = 60"

definition schedulerBucketKey :: "string \<Rightarrow> SchedulerBucket \<Rightarrow> string" where
  "schedulerBucketKey pre b = pre @ itoa (bu_GroupID b) @ '':'' @ bu_Platform b @ '':'' @ bu_Mode b"

definition schedulerSnapshotKey :: "SchedulerBucket \<Rightarrow> string \<Rightarrow> string" where
  "schedulerSnapshotKey b version =
     schedulerSnapshotPrefix @ itoa (bu_GroupID b) @ '':'' @ bu_Platform b @ '':'' @ bu_Mode b @ '':v'' @ version"

definition schedulerAccountKey :: "string \<Rightarrow> string" where
  "schedulerAccountKey i = schedulerAccountPrefix @ i"

definition schedulerAccountMetaKey :: "string \<Rightarrow> string" where
  "schedulerAccountMetaKey i = schedulerAccountMetaPrefix @ i"

definition snapshot_key_prefix :: "SchedulerBucket \<Rightarrow> string" where
  "snapshot_key_prefix b =
     schedulerSnapshotPrefix @ itoa (bu_GroupID b) @ '':'' @ bu_Platform b @ '':'' @ bu_Mode b @ '':v''"

text \<open>The script that switches a bucket to a new version: it returns 1, or 0 when the version is stale.\<close>

definition activateSnapshotScript ::
  "time \<Rightarrow> string \<Rightarrow> string \<Rightarrow> string \<Rightarrow> string \<Rightarrow> string \<Rightarrow> string \<Rightarrow> string \<Rightarrow> int \<Rightarrow> sched_redis \<Rightarrow> int \<times> sched_redis" where
  "activateSnapshotScript now activeKey readyKey setKey snapshotKey version bucketStr pre ttl r =
     (let currentActive = redis_GET now activeKey r;
          stale = (case (atoi version, map_option atoi currentActive) of
                     (Some newVersion, Some (Some curVersion)) \<Rightarrow> newVersion < curVersion | _ \<Rightarrow> False)
      in if stale then (0, redis_DEL snapshotKey r)
         else
           let r = redis_SET activeKey version None r;
               r = redis_SET readyKey ''1'' None r;
               r = redis_SADD setKey bucketStr r
           in (1, case currentActive of None \<Rightarrow> r
                  | Some cur \<Rightarrow> if cur = version then r else redis_EXPIRE now (pre @ cur) (ttl * Second) r))"

section \<open>The cache\<close>

record account_codec =
  cd_marshal :: "FullAccount \<Rightarrow> go_error + string"
  cd_unmarshal :: "string \<Rightarrow> go_error + FullAccount"

record schedulerCache =
  sch_mgetChunkSize :: int
  sch_writeChunkSize :: int

definition newSchedulerCacheWithChunkSizes :: "int \<Rightarrow> int \<Rightarrow> schedulerCache" where
  "newSchedulerCacheWithChunkSizes mgetChunkSize writeChunkSize =
     \<lparr>sch_mgetChunkSize = (if mgetChunkSize \<le> 0 then defaultSchedulerSnapshotMGetChunkSize else mgetChunkSize),
      sch_writeChunkSize = (if writeChunkSize \<le> 0 then defaultSchedulerSnapshotWriteChunkSize else writeChunkSize)\<rparr>"

definition NewSchedulerCache :: schedulerCache where
  "NewSchedulerCache =
     newSchedulerCacheWithChunkSizes defaultSchedulerSnapshotMGetChunkSize defaultSchedulerSnapshotWriteChunkSize"

text \<open>The loop over slices of a list, \<open>n\<close> elements each.\<close>

function chunks :: "nat \<Rightarrow> 'a list \<Rightarrow> 'a list list" where
  "chunks n xs = (if n = 0 \<or> xs = [] then [] else take n xs # chunks n (drop n xs))"
  by pat_completeness auto
termination by (relation "measure (\<lambda>(_, xs). length xs)") auto

declare chunks.simps [simp del]

definition decodeCachedAccount :: "account_codec \<Rightarrow> string \<Rightarrow> go_error + FullAccount" where
  "decodeCachedAccount cd val = cd_unmarshal cd val"

definition set_commands :: "FullAccount \<Rightarrow> string \<Rightarrow> string \<Rightarrow> (sched_redis \<Rightarrow> sched_redis) list" where
  "set_commands a full meta =
     (let i = itoa (fa_ID a)
      in [redis_SET (schedulerAccountKey i) full None, redis_SET (schedulerAccountMetaKey i) meta None])"

text \<open>The loop of \<open>writeAccounts\<close>: \<open>n\<close> counts the flushes, \<open>pipe\<close> holds the pending commands.\<close>

fun write_loop ::
  "account_codec \<Rightarrow> (nat \<Rightarrow> pipe_fault) \<Rightarrow> int \<Rightarrow> nat \<Rightarrow> (sched_redis \<Rightarrow> sched_redis) list \<Rightarrow> int
     \<Rightarrow> FullAccount list \<Rightarrow> sched_redis \<Rightarrow> go_error option \<times> sched_redis" where
  "write_loop cd fault chunk n pipe pending [] r =
     (if pending = 0 then (None, r) else exec_pipe (fault n) pipe r)"
| "write_loop cd fault chunk n pipe pending (a # as) r =
     (case cd_marshal cd a of
        Inl err \<Rightarrow> (Some err, r)
      | Inr full \<Rightarrow>
          (case cd_marshal cd (buildSchedulerMetadataAccount a) of
             Inl err \<Rightarrow> (Some err, r)
           | Inr meta \<Rightarrow>
               let pipe = pipe @ set_commands a full meta; pending = pending + 1
               in if chunk \<le> pending then
                    (case exec_pipe (fault n) pipe r of
                       (Some err, r) \<Rightarrow> (Some err, r)
                     | (None, r) \<Rightarrow> write_loop cd fault chunk (Suc n) [] 0 as r)
                  else write_loop cd fault chunk n pipe pending as r))"

definition writeAccounts ::
  "account_codec \<Rightarrow> schedulerCache \<Rightarrow> (nat \<Rightarrow> pipe_fault) \<Rightarrow> FullAccount list \<Rightarrow> sched_redis
     \<Rightarrow> go_error option \<times> sched_redis" where
  "writeAccounts cd c fault accounts r =
     (if accounts = [] then (None, r) else write_loop cd fault (sch_writeChunkSize c) 0 [] 0 accounts r)"

fun mget_loop :: "(nat \<Rightarrow> go_error option) \<Rightarrow> time \<Rightarrow> sched_redis \<Rightarrow> nat \<Rightarrow> string list list
    \<Rightarrow> go_error + string option list" where
  "mget_loop fault now r n [] = Inr []"
| "mget_loop fault now r n (part # parts) =
     (case fault n of Some err \<Rightarrow> Inl err
      | None \<Rightarrow> map_sum (\<lambda>e. e) (\<lambda>out. map (\<lambda>k. redis_GET now k r) part @ out) (mget_loop fault now r (Suc n) parts))"

definition mgetChunked ::
  "schedulerCache \<Rightarrow> (nat \<Rightarrow> go_error option) \<Rightarrow> time \<Rightarrow> string list \<Rightarrow> sched_redis \<Rightarrow> go_error + string option list" where
  "mgetChunked c fault now keys r =
     (let chunkSize = (if sch_mgetChunkSize c \<le> 0 then defaultSchedulerSnapshotMGetChunkSize else sch_mgetChunkSize c)
      in mget_loop fault now r 0 (chunks (nat chunkSize) keys))"

text \<open>The clock of the Redis server and the errors of the calls of one operation, \<open>None\<close> where they succeed.\<close>

record cache_env =
  ce_now :: time
  ce_incr_fault :: "go_error option"
  ce_write_fault :: "nat \<Rightarrow> pipe_fault"
  ce_zadd_fault :: pipe_fault
  ce_activate_fault :: "go_error option"
  ce_key_fault :: "string \<Rightarrow> go_error option"
  ce_zrange_fault :: "go_error option"
  ce_mget_fault :: "nat \<Rightarrow> go_error option"

definition snapshot_members :: "FullAccount list \<Rightarrow> (string \<times> int) list" where
  "snapshot_members accounts = map (\<lambda>(idx, a). (itoa (fa_ID a), int idx)) (enumerate 0 accounts)"

definition zadd_commands ::
  "time \<Rightarrow> string \<Rightarrow> int \<Rightarrow> FullAccount list \<Rightarrow> (sched_redis \<Rightarrow> sched_redis) list" where
  "zadd_commands now key chunk accounts = map (redis_ZADD now key) (chunks (nat chunk) (snapshot_members accounts))"

definition SetSnapshot ::
  "account_codec \<Rightarrow> schedulerCache \<Rightarrow> cache_env \<Rightarrow> SchedulerBucket \<Rightarrow> FullAccount list \<Rightarrow> sched_redis
     \<Rightarrow> go_error option \<times> sched_redis" where
  "SetSnapshot cd c env bucket accounts r =
     (case ce_incr_fault env of Some err \<Rightarrow> (Some err, r)
      | None \<Rightarrow>
          (case redis_INCR (ce_now env) (schedulerBucketKey schedulerVersionPrefix bucket) r of
             (Inl err, r) \<Rightarrow> (Some err, r)
           | (Inr version, r) \<Rightarrow>
               let versionStr = itoa version; snapshotKey = schedulerSnapshotKey bucket versionStr
               in (case writeAccounts cd c (ce_write_fault env) accounts r of
                     (Some err, r) \<Rightarrow> (Some err, r)
                   | (None, r) \<Rightarrow>
                       (case (if accounts \<noteq> [] then
                                exec_pipe (ce_zadd_fault env)
                                  (zadd_commands (ce_now env) snapshotKey (sch_writeChunkSize c) accounts) r
                              else (None, r)) of
                          (Some err, r) \<Rightarrow> (Some err, r)
                        | (None, r) \<Rightarrow>
                            (case ce_activate_fault env of Some err \<Rightarrow> (Some err, r)
                             | None \<Rightarrow>
                                 (None, snd (activateSnapshotScript (ce_now env)
                                    (schedulerBucketKey schedulerActivePrefix bucket)
                                    (schedulerBucketKey schedulerReadyPrefix bucket) schedulerBucketSetKey snapshotKey
                                    versionStr (bucket_String bucket) (snapshot_key_prefix bucket)
                                    snapshotGraceTTLSeconds r)))))))"

text \<open>The accounts of the payloads read: \<open>None\<close> when one is missing.\<close>

fun decode_all :: "account_codec \<Rightarrow> string option list \<Rightarrow> go_error + FullAccount list option" where
  "decode_all cd [] = Inr (Some [])"
| "decode_all cd (None # vals) = Inr None"
| "decode_all cd (Some v # vals) =
     (case decodeCachedAccount cd v of
        Inl err \<Rightarrow> Inl err
      | Inr a \<Rightarrow> map_sum (\<lambda>e. e) (map_option ((#) a)) (decode_all cd vals))"

text \<open>A hit is \<open>Inr (Some accounts)\<close>, a miss \<open>Inr None\<close>.\<close>

definition GetSnapshot ::
  "account_codec \<Rightarrow> schedulerCache \<Rightarrow> cache_env \<Rightarrow> SchedulerBucket \<Rightarrow> sched_redis \<Rightarrow> go_error + FullAccount list option" where
  "GetSnapshot cd c env bucket r =
     (let readyKey = schedulerBucketKey schedulerReadyPrefix bucket
      in case ce_key_fault env readyKey of Some err \<Rightarrow> Inl err
      | None \<Rightarrow>
          if redis_GET (ce_now env) readyKey r \<noteq> Some ''1'' then Inr None
          else
            let activeKey = schedulerBucketKey schedulerActivePrefix bucket
            in (case ce_key_fault env activeKey of Some err \<Rightarrow> Inl err
                | None \<Rightarrow>
                    (case redis_GET (ce_now env) activeKey r of
                       None \<Rightarrow> Inr None
                     | Some activeVal \<Rightarrow>
                         (case ce_zrange_fault env of Some err \<Rightarrow> Inl err
                          | None \<Rightarrow>
                              let ids = redis_ZRANGE (ce_now env) (schedulerSnapshotKey bucket activeVal) r
                              in if ids = [] then Inr None
                                 else
                                   (case mgetChunked c (ce_mget_fault env) (ce_now env) (map schedulerAccountMetaKey ids) r of
                                      Inl err \<Rightarrow> Inl err
                                    | Inr values \<Rightarrow> decode_all cd values)))))"

definition cache_GetAccount ::
  "account_codec \<Rightarrow> cache_env \<Rightarrow> int \<Rightarrow> sched_redis \<Rightarrow> go_error + FullAccount option" where
  "cache_GetAccount cd env accountID r =
     (let key = schedulerAccountKey (itoa accountID)
      in case ce_key_fault env key of Some err \<Rightarrow> Inl err
      | None \<Rightarrow> (case redis_GET (ce_now env) key r of
                  None \<Rightarrow> Inr None
                | Some val \<Rightarrow> map_sum (\<lambda>e. e) Some (decodeCachedAccount cd val)))"

definition SetAccount ::
  "account_codec \<Rightarrow> schedulerCache \<Rightarrow> cache_env \<Rightarrow> FullAccount option \<Rightarrow> sched_redis \<Rightarrow> go_error option \<times> sched_redis" where
  "SetAccount cd c env account r =
     (case account of None \<Rightarrow> (None, r)
      | Some a \<Rightarrow> if fa_ID a \<le> 0 then (None, r) else writeAccounts cd c (ce_write_fault env) [a] r)"

definition DeleteAccount :: "cache_env \<Rightarrow> int \<Rightarrow> sched_redis \<Rightarrow> go_error option \<times> sched_redis" where
  "DeleteAccount env accountID r =
     (if accountID \<le> 0 then (None, r)
      else let i = itoa accountID
           in case ce_key_fault env (schedulerAccountKey i) of Some err \<Rightarrow> (Some err, r)
              | None \<Rightarrow> (None, redis_DEL (schedulerAccountMetaKey i) (redis_DEL (schedulerAccountKey i) r)))"

text \<open>The commands that write the time of last use, for the accounts that are cached.\<close>

fun last_used_commands ::
  "account_codec \<Rightarrow> ((int \<times> time) \<times> string option) list \<Rightarrow> go_error + (sched_redis \<Rightarrow> sched_redis) list" where
  "last_used_commands cd [] = Inr []"
| "last_used_commands cd ((_, None) # rest) = last_used_commands cd rest"
| "last_used_commands cd (((i, t), Some val) # rest) =
     (case decodeCachedAccount cd val of
        Inl err \<Rightarrow> Inl err
      | Inr account \<Rightarrow>
          let account = account\<lparr>fa_LastUsedAt := Some t\<rparr>
          in case cd_marshal cd account of
               Inl err \<Rightarrow> Inl err
             | Inr updated \<Rightarrow>
                 (case cd_marshal cd (buildSchedulerMetadataAccount account) of
                    Inl err \<Rightarrow> Inl err
                  | Inr meta \<Rightarrow>
                      map_sum (\<lambda>e. e)
                        (\<lambda>cmds. [redis_SET (schedulerAccountKey (itoa i)) updated None,
                                redis_SET (schedulerAccountMetaKey (itoa i)) meta None] @ cmds)
                        (last_used_commands cd rest)))"

text \<open>The updates in the order in which the map is ranged over.\<close>

definition UpdateLastUsed ::
  "account_codec \<Rightarrow> schedulerCache \<Rightarrow> cache_env \<Rightarrow> (int \<times> time) list \<Rightarrow> sched_redis \<Rightarrow> go_error option \<times> sched_redis" where
  "UpdateLastUsed cd c env updates r =
     (if updates = [] then (None, r)
      else
        (case mgetChunked c (ce_mget_fault env) (ce_now env)
                (map (\<lambda>u. schedulerAccountKey (itoa (fst u))) updates) r of
           Inl err \<Rightarrow> (Some err, r)
         | Inr values \<Rightarrow>
             (case last_used_commands cd (zip updates values) of
                Inl err \<Rightarrow> (Some err, r)
              | Inr cmds \<Rightarrow> exec_pipe (ce_write_fault env 0) cmds r)))"

definition TryLockBucket ::
  "cache_env \<Rightarrow> SchedulerBucket \<Rightarrow> duration \<Rightarrow> sched_redis \<Rightarrow> (go_error + bool) \<times> sched_redis" where
  "TryLockBucket env bucket ttl r =
     (let key = schedulerBucketKey schedulerLockPrefix bucket
      in case ce_key_fault env key of Some err \<Rightarrow> (Inl err, r)
      | None \<Rightarrow>
          if redis_GET (ce_now env) key r \<noteq> None then (Inr False, r)
          else (Inr True, redis_SET key (itoa (ce_now env)) (Some (ce_now env + ttl)) r))"

definition UnlockBucket :: "cache_env \<Rightarrow> SchedulerBucket \<Rightarrow> sched_redis \<Rightarrow> go_error option \<times> sched_redis" where
  "UnlockBucket env bucket r =
     (let key = schedulerBucketKey schedulerLockPrefix bucket
      in case ce_key_fault env key of Some err \<Rightarrow> (Some err, r) | None \<Rightarrow> (None, redis_DEL key r))"

definition ListBuckets :: "cache_env \<Rightarrow> sched_redis \<Rightarrow> go_error + SchedulerBucket list" where
  "ListBuckets env r =
     (case ce_key_fault env schedulerBucketSetKey of Some err \<Rightarrow> Inl err
      | None \<Rightarrow> Inr (List.map_filter ParseSchedulerBucket (sr_sets r schedulerBucketSetKey)))"

definition GetOutboxWatermark :: "cache_env \<Rightarrow> sched_redis \<Rightarrow> go_error + int" where
  "GetOutboxWatermark env r =
     (case ce_key_fault env schedulerOutboxWatermarkKey of Some err \<Rightarrow> Inl err
      | None \<Rightarrow>
          (case redis_GET (ce_now env) schedulerOutboxWatermarkKey r of
             None \<Rightarrow> Inr 0
           | Some val \<Rightarrow> (case atoi val of None \<Rightarrow> Inl (OtherError ''invalid syntax'' None) | Some i \<Rightarrow> Inr i)))"

definition SetOutboxWatermark :: "cache_env \<Rightarrow> int \<Rightarrow> sched_redis \<Rightarrow> go_error option \<times> sched_redis" where
  "SetOutboxWatermark env i r =
     (case ce_key_fault env schedulerOutboxWatermarkKey of Some err \<Rightarrow> (Some err, r)
      | None \<Rightarrow> (None, redis_SET schedulerOutboxWatermarkKey (itoa i) None r))"

section \<open>Metadata and buckets\<close>

lemma quota_keys_dropped:
  "k \<in> {''quota_used'', ''quota_limit'', ''quota_daily_used'', ''quota_daily_limit'', ''quota_weekly_used'',
        ''quota_weekly_limit''} \<Longrightarrow> filterSchedulerExtra e k = None"
  by (auto simp: filterSchedulerExtra_def keep_keys_def scheduler_extra_keys_def)

lemma metadata_quota_limits:
  "GetQuotaLimit (quota_account xp (buildSchedulerMetadataAccount a)) = 0"
  "GetQuotaDailyLimit (quota_account xp (buildSchedulerMetadataAccount a)) = 0"
  "GetQuotaWeeklyLimit (quota_account xp (buildSchedulerMetadataAccount a)) = 0"
  by (simp_all add: quota_account_def quota_extra_of_def buildSchedulerMetadataAccount_def GetQuotaLimit_def
      GetQuotaDailyLimit_def GetQuotaWeeklyLimit_def or_else_def quota_keys_dropped)

lemma metadata_quota_not_exceeded: "\<not> IsQuotaExceeded zones now (quota_account xp (buildSchedulerMetadataAccount a))"
  by (simp add: IsQuotaExceeded_def metadata_quota_limits)

lemma metadata_schedulable:
  "IsSchedulable xp zones now (buildSchedulerMetadataAccount a) \<longleftrightarrow>
     account_IsActive a \<and> fa_Schedulable a
     \<and> \<not> (fa_AutoPauseOnExpired a \<and> (case fa_ExpiresAt a of None \<Rightarrow> False | Some t \<Rightarrow> t \<le> now))
     \<and> passed now (fa_OverloadUntil a) \<and> passed now (fa_RateLimitResetAt a)
     \<and> passed now (fa_TempUnschedulableUntil a)"
proof -
  let ?m = "buildSchedulerMetadataAccount a"
  have "fa_Schedulable ?m = fa_Schedulable a" "fa_AutoPauseOnExpired ?m = fa_AutoPauseOnExpired a"
    "fa_ExpiresAt ?m = fa_ExpiresAt a" "fa_OverloadUntil ?m = fa_OverloadUntil a"
    "fa_RateLimitResetAt ?m = fa_RateLimitResetAt a" "fa_TempUnschedulableUntil ?m = fa_TempUnschedulableUntil a"
    "account_IsActive ?m = account_IsActive a"
    by (simp_all add: buildSchedulerMetadataAccount_def account_IsActive_def)
  then show ?thesis by (simp add: IsSchedulable_def metadata_quota_not_exceeded) blast
qed

text \<open>C24: whether a snapshot's copy of an account may be scheduled does not depend on its spending quotas:
  \<open>filterSchedulerExtra\<close> drops the quota fields, so an account of type API key or Bedrock that has used
  up its quota, and is not schedulable itself, is still schedulable in the snapshot.\<close>

theorem snapshot_ignores_quota:
  "(IsSchedulable xp zones now (buildSchedulerMetadataAccount a) \<longleftrightarrow>
      account_IsActive a \<and> fa_Schedulable a
      \<and> \<not> (fa_AutoPauseOnExpired a \<and> (case fa_ExpiresAt a of None \<Rightarrow> False | Some t \<Rightarrow> t \<le> now))
      \<and> passed now (fa_OverloadUntil a) \<and> passed now (fa_RateLimitResetAt a)
      \<and> passed now (fa_TempUnschedulableUntil a))
   \<and> (IsAPIKeyOrBedrock (quota_account xp a) \<and> IsQuotaExceeded zones now (quota_account xp a)
        \<longrightarrow> \<not> IsSchedulable xp zones now a)"
  using metadata_schedulable by (simp add: IsSchedulable_def)

definition spent_account :: FullAccount where
  "spent_account =
     \<lparr>fa_ID = 7, fa_Name = ''key'', fa_Notes = None, fa_Platform = PlatformAnthropic, fa_Type = AccountTypeAPIKey,
      fa_Credentials = [''api_key'' \<mapsto> JString ''k''],
      fa_Extra = [''quota_limit'' \<mapsto> JNumber 10, ''quota_used'' \<mapsto> JNumber 12],
      fa_ProxyID = None, fa_ProxyFallbackOriginID = None, fa_Concurrency = 3, fa_Priority = 1, fa_RateMultiplier = None,
      fa_LoadFactor = None, fa_Status = StatusActive, fa_ErrorMessage = '''', fa_LastUsedAt = None,
      fa_ExpiresAt = None, fa_AutoPauseOnExpired = False, fa_CreatedAt = 0, fa_UpdatedAt = 0, fa_Schedulable = True,
      fa_RateLimitedAt = None, fa_RateLimitResetAt = None, fa_OverloadUntil = None,
      fa_TempUnschedulableUntil = None, fa_TempUnschedulableReason = '''', fa_SessionWindowStart = None,
      fa_SessionWindowEnd = None, fa_SessionWindowStatus = '''', fa_AccountGroups = [], fa_GroupIDs = []\<rparr>"

definition plain_parsers :: extra_parsers where
  "plain_parsers = \<lparr>xp_float = (\<lambda>_. None), xp_time = (\<lambda>_. None)\<rparr>"

lemma spent_quota:
  "IsAPIKeyOrBedrock (quota_account plain_parsers spent_account)"
  "IsQuotaExceeded zones now (quota_account plain_parsers spent_account)"
  by (simp_all add: spent_account_def plain_parsers_def quota_account_def quota_extra_of_def parseExtraFloat64_def
      IsQuotaExceeded_def IsAPIKeyOrBedrock_def GetQuotaLimit_def GetQuotaUsed_def or_else_def)

theorem snapshot_ignores_quota_witness:
  "IsSchedulable plain_parsers (\<lambda>_. None) 100 (buildSchedulerMetadataAccount spent_account)
   \<and> \<not> IsSchedulable plain_parsers (\<lambda>_. None) 100 spent_account"
proof -
  have "account_IsActive spent_account \<and> fa_Schedulable spent_account \<and> \<not> fa_AutoPauseOnExpired spent_account
     \<and> passed 100 (fa_OverloadUntil spent_account) \<and> passed 100 (fa_RateLimitResetAt spent_account)
     \<and> passed 100 (fa_TempUnschedulableUntil spent_account)"
    by (simp add: spent_account_def account_IsActive_def passed_def)
  then show ?thesis
    using snapshot_ignores_quota [of plain_parsers "\<lambda>_. None" 100 spent_account] spent_quota by blast
qed

subsection \<open>Buckets\<close>

lemma split_colon_nonempty: "split_colon s \<noteq> []"
  by (cases s) (auto split: list.split)

lemma split_colon_append:
  "CHR '':'' \<notin> set p \<Longrightarrow> split_colon (p @ CHR '':'' # s) = p # split_colon s"
  by (induction p) (auto split: list.split)

lemma split_colon_plain: "CHR '':'' \<notin> set p \<Longrightarrow> split_colon p = [p]"
  by (induction p) auto

lemma length_split_colon: "length (split_colon s) = Suc (count_list s (CHR '':''))"
proof (induction s)
  case (Cons c s)
  then show ?case using split_colon_nonempty [of s] by (cases "split_colon s") auto
qed simp

lemma bucket_part_count:
  "length (split_colon (g @ '':'' @ p @ '':'' @ m)) =
     3 + count_list g (CHR '':'') + count_list p (CHR '':'') + count_list m (CHR '':'')"
  by (simp add: length_split_colon)

text \<open>The text under which a bucket is registered parses back to the bucket exactly when its platform
  and mode are not empty and contain no colon.\<close>

lemma bucket_roundtrip:
  assumes "MinInt64 \<le> bu_GroupID b" "bu_GroupID b \<le> MaxInt64"
  shows "ParseSchedulerBucket (bucket_String b) =
    (if bu_Platform b \<noteq> '''' \<and> bu_Mode b \<noteq> '''' \<and> CHR '':'' \<notin> set (bu_Platform b) \<union> set (bu_Mode b)
     then Some b else None)"
proof (cases "CHR '':'' \<in> set (bu_Platform b) \<union> set (bu_Mode b)")
  case True
  then have "length (split_colon (bucket_String b)) \<noteq> 3"
    unfolding bucket_String_def bucket_part_count by (auto simp: count_list_0_iff)
  then have "ParseSchedulerBucket (bucket_String b) = None"
    by (auto simp: ParseSchedulerBucket_def split: list.split)
  then show ?thesis using True by simp
next
  case False
  then have "split_colon (bucket_String b) = [itoa (bu_GroupID b), bu_Platform b, bu_Mode b]"
    by (simp add: bucket_String_def split_colon_append split_colon_plain itoa_no_colon)
  then show ?thesis using False by (simp add: ParseSchedulerBucket_def atoi_itoa [OF assms])
qed

section \<open>What the writes do\<close>

lemmas sched_key_defs = schedulerBucketKey_def schedulerAccountKey_def schedulerAccountMetaKey_def
  schedulerAccountPrefix_def schedulerAccountMetaPrefix_def schedulerActivePrefix_def schedulerReadyPrefix_def
  schedulerVersionPrefix_def schedulerLockPrefix_def schedulerOutboxWatermarkKey_def

lemma account_keys_apart [simp]:
  "schedulerAccountKey i \<noteq> schedulerAccountMetaKey j" "schedulerAccountMetaKey j \<noteq> schedulerAccountKey i"
  "schedulerAccountKey i = schedulerAccountKey j \<longleftrightarrow> i = j" "schedulerAccountMetaKey i = schedulerAccountMetaKey j \<longleftrightarrow> i = j"
  by (simp_all add: sched_key_defs)

lemma bucket_keys_apart [simp]:
  "p \<in> {schedulerActivePrefix, schedulerReadyPrefix, schedulerVersionPrefix, schedulerLockPrefix} \<Longrightarrow>
     schedulerBucketKey p b \<noteq> schedulerAccountKey i \<and> schedulerBucketKey p b \<noteq> schedulerAccountMetaKey i"
  by (auto simp: sched_key_defs)

text \<open>The keys of accounts, locks and the watermark.\<close>

definition is_side_key :: "string \<Rightarrow> bool" where
  "is_side_key k = ((\<exists>i. k = schedulerAccountKey i \<or> k = schedulerAccountMetaKey i)
     \<or> (\<exists>b. k = schedulerBucketKey schedulerLockPrefix b) \<or> k = schedulerOutboxWatermarkKey)"

lemma snapshot_key_apart:
  assumes "c \<noteq> CHR ''-''" "\<not> is_digit c"
  shows "schedulerSnapshotKey b v \<noteq> ''sched:'' @ c # cs"
proof -
  obtain d ds where d: "itoa (bu_GroupID b) = d # ds" by (cases "itoa (bu_GroupID b)") auto
  have "d = CHR ''-'' \<or> is_digit d"
    using d utoa_hd_digit [of "nat (bu_GroupID b)"] by (auto simp: itoa_def split: if_splits)
  with assms show ?thesis by (auto simp: schedulerSnapshotKey_def schedulerSnapshotPrefix_def d)
qed

lemma snapshot_not_side: "\<not> is_side_key (schedulerSnapshotKey b v)"
  using snapshot_key_apart [of "CHR ''a''" b v] snapshot_key_apart [of "CHR ''m''" b v]
    snapshot_key_apart [of "CHR ''l''" b v] snapshot_key_apart [of "CHR ''o''" b v]
  by (auto simp: is_side_key_def sched_key_defs is_digit_def)

lemma snapshot_not_bucket:
  "schedulerSnapshotKey b v \<noteq> schedulerBucketKey schedulerVersionPrefix b'"
  "schedulerSnapshotKey b v \<noteq> schedulerBucketKey schedulerActivePrefix b'"
  using snapshot_key_apart [of "CHR ''v''" b v] snapshot_key_apart [of "CHR ''a''" b v]
  by (auto simp: sched_key_defs is_digit_def)

text \<open>The two key spaces differ at most in such keys.\<close>

definition same_frame :: "sched_redis \<Rightarrow> sched_redis \<Rightarrow> bool" where
  "same_frame r r' = (sr_sets r' = sr_sets r
     \<and> (\<forall>k. \<not> is_side_key k \<longrightarrow> sr_strings r' k = sr_strings r k \<and> sr_zsets r' k = sr_zsets r k))"

lemma same_frame_refl [simp]: "same_frame r r"
  by (simp add: same_frame_def)

lemma same_frame_trans: "same_frame r r' \<Longrightarrow> same_frame r' r'' \<Longrightarrow> same_frame r r''"
  by (simp add: same_frame_def)

lemma same_frame_fold: "\<forall>c \<in> set cmds. \<forall>r. same_frame r (c r) \<Longrightarrow> same_frame r (fold (\<lambda>c. c) cmds r)"
  by (induction cmds arbitrary: r) (auto intro: same_frame_trans)

lemma same_frame_SET: "is_side_key k \<Longrightarrow> same_frame r (redis_SET k v ex r)"
  by (auto simp: same_frame_def redis_SET_def)

lemma same_frame_set_commands: "\<forall>c \<in> set (set_commands a full meta). \<forall>r. same_frame r (c r)"
  by (auto simp: set_commands_def Let_def is_side_key_def intro!: same_frame_SET)

lemma same_frame_exec:
  "\<forall>c \<in> set cmds. \<forall>r. same_frame r (c r) \<Longrightarrow> exec_pipe fault cmds r = (res, r') \<Longrightarrow> same_frame r r'"
  unfolding exec_pipe_def by (auto split: option.splits intro!: same_frame_fold dest: in_set_takeD)

text \<open>Whatever fails, writing accounts touches nothing but their payloads.\<close>

lemma same_frame_write_loop:
  assumes "\<forall>c \<in> set pipe. \<forall>r. same_frame r (c r)" "write_loop cd fault chunk n pipe pending as r = (res, r')"
  shows "same_frame r r'"
  using assms
proof (induction cd fault chunk n pipe pending as r arbitrary: r' rule: write_loop.induct)
  case (1 cd fault chunk n pipe pending r)
  then show ?case by (auto split: if_splits dest: same_frame_exec)
next
  case (2 cd fault chunk n pipe pending a as r)
  show ?case
  proof (cases "cd_marshal cd a"; cases "cd_marshal cd (buildSchedulerMetadataAccount a)")
    fix full meta
    assume full: "cd_marshal cd a = Inr full" and meta: "cd_marshal cd (buildSchedulerMetadataAccount a) = Inr meta"
    let ?pipe = "pipe @ set_commands a full meta"
    have pipe: "\<forall>c \<in> set ?pipe. \<forall>r. same_frame r (c r)" using 2(3) same_frame_set_commands by auto
    show ?thesis
    proof (cases "chunk \<le> pending + 1")
      case False
      then show ?thesis using 2(2) [OF full meta refl refl False pipe] 2(4) full meta by (simp add: Let_def)
    next
      case True
      obtain e r1 where ex: "exec_pipe (fault n) ?pipe r = (e, r1)" by fastforce
      have r1: "same_frame r r1" by (rule same_frame_exec [OF pipe ex])
      show ?thesis
      proof (cases e)
        case (Some err)
        then show ?thesis using 2(4) full meta True ex r1 by (simp add: Let_def)
      next
        case None
        then have "write_loop cd fault chunk (Suc n) [] 0 as r1 = (res, r')"
          using 2(4) full meta True ex by (simp add: Let_def)
        then have "same_frame r1 r'"
          using 2(1) [OF full meta refl refl True ex [unfolded None, symmetric]] None by auto
        with r1 show ?thesis by (rule same_frame_trans)
      qed
    qed
  qed (use 2(4) in auto)
qed

lemma same_frame_writeAccounts:
  assumes "writeAccounts cd c fault accounts r = (res, r')"
  shows "same_frame r r'"
  using assms same_frame_write_loop [of "[]"] by (auto simp: writeAccounts_def split: if_splits)

text \<open>Without faults, all commands are applied, in the order of the accounts and whatever the chunk size.\<close>

definition encodes :: "account_codec \<Rightarrow> FullAccount \<Rightarrow> bool" where
  "encodes cd a = (\<exists>p. cd_marshal cd a = Inr p \<and> cd_unmarshal cd p = Inr a)"

definition payload_of :: "account_codec \<Rightarrow> FullAccount \<Rightarrow> string" where
  "payload_of cd a = projr (cd_marshal cd a)"

definition account_commands :: "account_codec \<Rightarrow> FullAccount \<Rightarrow> (sched_redis \<Rightarrow> sched_redis) list" where
  "account_commands cd a = set_commands a (payload_of cd a) (payload_of cd (buildSchedulerMetadataAccount a))"

definition cacheable :: "account_codec \<Rightarrow> FullAccount \<Rightarrow> bool" where
  "cacheable cd a = (encodes cd a \<and> encodes cd (buildSchedulerMetadataAccount a))"

lemma encodes_payload: "encodes cd a \<Longrightarrow> cd_marshal cd a = Inr (payload_of cd a) \<and> cd_unmarshal cd (payload_of cd a) = Inr a"
  by (auto simp: encodes_def payload_of_def)

lemma write_loop_ok:
  assumes "\<forall>a \<in> set as. cacheable cd a" "0 \<le> pending" "pending = 0 \<longrightarrow> pipe = []"
  shows "write_loop cd (\<lambda>_. None) chunk n pipe pending as r =
    (None, fold (\<lambda>c. c) (pipe @ concat (map (account_commands cd) as)) r)"
  using assms
proof (induction as arbitrary: n pipe pending r)
  case Nil
  then show ?case by (simp add: exec_pipe_def)
next
  case (Cons a as)
  have m: "cd_marshal cd a = Inr (payload_of cd a)"
    "cd_marshal cd (buildSchedulerMetadataAccount a) = Inr (payload_of cd (buildSchedulerMetadataAccount a))"
    using Cons(2) encodes_payload by (auto simp: cacheable_def)
  show ?case
  proof (cases "chunk \<le> pending + 1")
    case True
    then show ?thesis using Cons by (simp add: m exec_pipe_def account_commands_def)
  next
    case False
    then show ?thesis using Cons by (simp add: m account_commands_def)
  qed
qed

lemma writeAccounts_ok:
  "\<forall>a \<in> set as. cacheable cd a \<Longrightarrow>
   writeAccounts cd c (\<lambda>_. None) as r = (None, fold (\<lambda>c. c) (concat (map (account_commands cd) as)) r)"
  by (simp add: writeAccounts_def write_loop_ok)

lemma same_frame_DEL: "is_side_key k \<Longrightarrow> same_frame r (redis_DEL k r)"
  by (auto simp: same_frame_def redis_DEL_def)

lemma last_used_frame: "last_used_commands cd us = Inr cmds \<Longrightarrow> \<forall>c \<in> set cmds. \<forall>r. same_frame r (c r)"
proof (induction cd us arbitrary: cmds rule: last_used_commands.induct)
  case (3 cd i t val rest)
  obtain a where a: "decodeCachedAccount cd val = Inr a" using 3(2) by (cases "decodeCachedAccount cd val") auto
  obtain u where u: "cd_marshal cd (a\<lparr>fa_LastUsedAt := Some t\<rparr>) = Inr u"
    using 3(2) a by (cases "cd_marshal cd (a\<lparr>fa_LastUsedAt := Some t\<rparr>)") auto
  obtain m where m: "cd_marshal cd (buildSchedulerMetadataAccount (a\<lparr>fa_LastUsedAt := Some t\<rparr>)) = Inr m"
    using 3(2) a u by (cases "cd_marshal cd (buildSchedulerMetadataAccount (a\<lparr>fa_LastUsedAt := Some t\<rparr>))") auto
  obtain cs where cs: "last_used_commands cd rest = Inr cs" using 3(2) a u m by (cases "last_used_commands cd rest") auto
  have "\<forall>c \<in> set cs. \<forall>r. same_frame r (c r)" using 3(1) [OF a refl u m cs] .
  moreover have "cmds = [redis_SET (schedulerAccountKey (itoa i)) u None, redis_SET (schedulerAccountMetaKey (itoa i)) m None] @ cs"
    using 3(2) a u m cs by simp
  ultimately show ?case by (auto simp: is_side_key_def intro!: same_frame_SET)
qed simp_all

text \<open>So are the other operations of the cache, failing or not.\<close>

lemma same_frame_operations:
  "SetAccount cd c env account r = (res, r1) \<Longrightarrow> same_frame r r1"
  "DeleteAccount env i r = (res, r2) \<Longrightarrow> same_frame r r2"
  "UpdateLastUsed cd c env updates r = (res, r3) \<Longrightarrow> same_frame r r3"
  "TryLockBucket env b ttl r = (got, r4) \<Longrightarrow> same_frame r r4"
  "UnlockBucket env b r = (res, r5) \<Longrightarrow> same_frame r r5"
  "SetOutboxWatermark env i r = (res, r6) \<Longrightarrow> same_frame r r6"
proof -
  show "SetAccount cd c env account r = (res, r1) \<Longrightarrow> same_frame r r1"
    by (auto simp: SetAccount_def split: option.splits if_splits dest: same_frame_writeAccounts)
  show "DeleteAccount env i r = (res, r2) \<Longrightarrow> same_frame r r2"
    by (auto simp: DeleteAccount_def Let_def is_side_key_def split: option.splits if_splits
        intro!: same_frame_trans [OF same_frame_DEL same_frame_DEL])
  show "UpdateLastUsed cd c env updates r = (res, r3) \<Longrightarrow> same_frame r r3"
    by (auto simp: UpdateLastUsed_def split: sum.splits if_splits dest: same_frame_exec [OF last_used_frame])
  show "TryLockBucket env b ttl r = (got, r4) \<Longrightarrow> same_frame r r4"
    by (auto simp: TryLockBucket_def Let_def is_side_key_def split: option.splits if_splits intro!: same_frame_SET)
  show "UnlockBucket env b r = (res, r5) \<Longrightarrow> same_frame r r5"
    by (auto simp: UnlockBucket_def Let_def is_side_key_def split: option.splits intro!: same_frame_DEL)
  show "SetOutboxWatermark env i r = (res, r6) \<Longrightarrow> same_frame r r6"
    by (auto simp: SetOutboxWatermark_def is_side_key_def split: option.splits intro!: same_frame_SET)
qed

lemma apply_account_commands:
  "fold (\<lambda>c. c) (account_commands cd a) r =
     r\<lparr>sr_strings := (sr_strings r)
        (schedulerAccountKey (itoa (fa_ID a)) \<mapsto> (payload_of cd a, None),
         schedulerAccountMetaKey (itoa (fa_ID a)) \<mapsto> (payload_of cd (buildSchedulerMetadataAccount a), None))\<rparr>"
  by (simp add: account_commands_def set_commands_def Let_def redis_SET_def)

lemma commands_untouched:
  assumes "i \<notin> fa_ID ` set as"
  shows "sr_strings (fold (\<lambda>c. c) (concat (map (account_commands cd) as)) r) (schedulerAccountKey (itoa i)) =
      sr_strings r (schedulerAccountKey (itoa i))"
    and "sr_strings (fold (\<lambda>c. c) (concat (map (account_commands cd) as)) r) (schedulerAccountMetaKey (itoa i)) =
      sr_strings r (schedulerAccountMetaKey (itoa i))"
  using assms by (induction as arbitrary: r) (auto simp: apply_account_commands)

lemma commands_stored:
  assumes "distinct (map fa_ID as)" "a \<in> set as"
  shows "sr_strings (fold (\<lambda>c. c) (concat (map (account_commands cd) as)) r) (schedulerAccountKey (itoa (fa_ID a))) =
      Some (payload_of cd a, None)"
    and "sr_strings (fold (\<lambda>c. c) (concat (map (account_commands cd) as)) r) (schedulerAccountMetaKey (itoa (fa_ID a))) =
      Some (payload_of cd (buildSchedulerMetadataAccount a), None)"
  using assms by (induction as arbitrary: r) (auto simp: apply_account_commands commands_untouched)

subsection \<open>The sorted set of a version\<close>

lemma concat_chunks: "0 < n \<Longrightarrow> concat (chunks n xs) = xs"
proof (induction n xs rule: chunks.induct)
  case (1 n xs)
  then show ?case by (subst chunks.simps) auto
qed

lemma chunks_nonempty: "xs \<noteq> [] \<Longrightarrow> 0 < n \<Longrightarrow> chunks n xs \<noteq> []"
  by (subst chunks.simps) simp

definition snapshot_zset_of :: "FullAccount list \<Rightarrow> snapshot_zset" where
  "snapshot_zset_of accounts = foldl zset_add [] (snapshot_members accounts)"

lemma foldl_zset_add:
  "distinct (map fst (zs @ ms)) \<Longrightarrow> foldl zset_add zs ms = zs @ ms"
proof (induction ms arbitrary: zs)
  case (Cons m ms)
  then have "fst m \<notin> fst ` set zs" by simp
  then have "filter (\<lambda>x. fst x \<noteq> fst m) zs = zs" by (intro filter_True) (metis image_eqI)
  then show ?case using Cons by (simp add: zset_add_def)
qed simp

lemma names_snapshot_members: "map fst (snapshot_members accounts) = map (\<lambda>a. itoa (fa_ID a)) accounts"
  by (simp add: snapshot_members_def case_prod_beta comp_def flip: map_map [of "\<lambda>a. itoa (fa_ID a)" snd, unfolded comp_def])

lemma scores_snapshot_members: "map snd (snapshot_members accounts) = map int [0..<length accounts]"
  by (simp add: snapshot_members_def case_prod_beta comp_def flip: map_map [of int fst, unfolded comp_def])

lemma snapshot_zset_of_distinct:
  assumes "distinct (map fa_ID accounts)"
  shows "snapshot_zset_of accounts = snapshot_members accounts"
proof -
  have "distinct (map (\<lambda>a. itoa (fa_ID a)) accounts)"
    using assms by (auto simp: distinct_map inj_on_def)
  then show ?thesis using foldl_zset_add [of "[]"] by (simp add: snapshot_zset_of_def names_snapshot_members)
qed

lemma sorted_snapshot_members: "sorted (map (\<lambda>(m, sc). (sc, m)) (snapshot_members accounts))"
proof -
  have "sorted (map (\<lambda>x. (snd x, fst x)) ms)" if "sorted_wrt (<) (map snd ms)" for ms :: "(string \<times> int) list"
    using that by (induction ms) (auto simp: less_eq_prod_def)
  moreover have "sorted_wrt (<) (map snd (snapshot_members accounts))"
    unfolding scores_snapshot_members by (simp add: sorted_wrt_map)
  ultimately have "sorted (map (\<lambda>x. (snd x, fst x)) (snapshot_members accounts))" by blast
  then show ?thesis by (simp only: case_prod_unfold)
qed

lemma snapshot_order:
  "distinct (map fa_ID accounts) \<Longrightarrow>
   map fst (sort_key (\<lambda>(m, sc). (sc, m)) (snapshot_zset_of accounts)) = map (\<lambda>a. itoa (fa_ID a)) accounts"
  by (simp add: snapshot_zset_of_distinct sort_key_id_if_sorted sorted_snapshot_members names_snapshot_members)

lemma redis_ZADD_simple:
  "(sr_zsets r key = None \<and> zs = [] \<or> sr_zsets r key = Some (zs, None)) \<Longrightarrow>
   redis_ZADD now key part r = r\<lparr>sr_zsets := (sr_zsets r)(key \<mapsto> (foldl zset_add zs part, None))\<rparr>"
  by (auto simp: redis_ZADD_def redis_zset_def live_def)

lemma zadd_fold:
  assumes "sr_zsets r key = None \<and> zs = [] \<or> sr_zsets r key = Some (zs, None)"
  shows "fold (\<lambda>c. c) (map (redis_ZADD now key) parts) r =
     (if parts = [] then r else r\<lparr>sr_zsets := (sr_zsets r)(key \<mapsto> (foldl zset_add zs (concat parts), None))\<rparr>)"
  using assms
proof (induction parts arbitrary: r zs)
  case (Cons part parts)
  let ?r = "r\<lparr>sr_zsets := (sr_zsets r)(key \<mapsto> (foldl zset_add zs part, None))\<rparr>"
  have "fold (\<lambda>c. c) (map (redis_ZADD now key) (part # parts)) r = fold (\<lambda>c. c) (map (redis_ZADD now key) parts) ?r"
    by (simp add: redis_ZADD_simple [OF Cons(2)])
  also have "\<dots> = (if parts = [] then ?r
      else ?r\<lparr>sr_zsets := (sr_zsets ?r)(key \<mapsto> (foldl zset_add (foldl zset_add zs part) (concat parts), None))\<rparr>)"
    by (rule Cons(1)) simp
  also have "\<dots> = r\<lparr>sr_zsets := (sr_zsets r)(key \<mapsto> (foldl zset_add zs (concat (part # parts)), None))\<rparr>" by simp
  finally show ?case by simp
qed simp

subsection \<open>A whole call\<close>

definition quiet :: "time \<Rightarrow> cache_env" where
  "quiet now = \<lparr>ce_now = now, ce_incr_fault = None, ce_write_fault = (\<lambda>_. None), ce_zadd_fault = None,
     ce_activate_fault = None, ce_key_fault = (\<lambda>_. None), ce_zrange_fault = None, ce_mget_fault = (\<lambda>_. None)\<rparr>"

lemma quiet_simps [simp]:
  "ce_now (quiet now) = now" "ce_incr_fault (quiet now) = None" "ce_write_fault (quiet now) = (\<lambda>_. None)"
  "ce_zadd_fault (quiet now) = None" "ce_activate_fault (quiet now) = None" "ce_key_fault (quiet now) k = None"
  "ce_zrange_fault (quiet now) = None" "ce_mget_fault (quiet now) = (\<lambda>_. None)"
  by (simp_all add: quiet_def)

abbreviation version_key :: "SchedulerBucket \<Rightarrow> string" where
  "version_key b \<equiv> schedulerBucketKey schedulerVersionPrefix b"
abbreviation active_key :: "SchedulerBucket \<Rightarrow> string" where
  "active_key b \<equiv> schedulerBucketKey schedulerActivePrefix b"
abbreviation ready_key :: "SchedulerBucket \<Rightarrow> string" where
  "ready_key b \<equiv> schedulerBucketKey schedulerReadyPrefix b"

text \<open>\<open>n\<close> versions of the bucket have been drawn, no later one has a sorted set, and the active one is
  among them.\<close>

definition bucket_ok :: "SchedulerBucket \<Rightarrow> int \<Rightarrow> sched_redis \<Rightarrow> bool" where
  "bucket_ok b n r =
     (0 \<le> n \<and> sr_strings r (version_key b) = (if n = 0 then None else Some (itoa n, None))
      \<and> (\<forall>v. n < v \<longrightarrow> sr_zsets r (schedulerSnapshotKey b (itoa v)) = None)
      \<and> (sr_strings r (active_key b) = None
         \<or> (\<exists>v. 1 \<le> v \<and> v \<le> n \<and> sr_strings r (active_key b) = Some (itoa v, None))))"

lemma not_account_key [simp]:
  "\<not> is_side_key (version_key b)" "\<not> is_side_key (active_key b)" "\<not> is_side_key (ready_key b)"
  by (auto simp: is_side_key_def sched_key_defs)

lemma bucket_key_names [simp]:
  "version_key b \<noteq> active_key b'" "active_key b' \<noteq> version_key b" "version_key b \<noteq> ready_key b'"
  "ready_key b' \<noteq> version_key b" "active_key b \<noteq> ready_key b'" "ready_key b' \<noteq> active_key b"
  by (simp_all add: sched_key_defs)

lemma snapshot_key_inject [simp]: "schedulerSnapshotKey b v = schedulerSnapshotKey b v' \<longleftrightarrow> v = v'"
  by (simp add: schedulerSnapshotKey_def)

lemma snapshot_key_prefixed: "snapshot_key_prefix b @ v = schedulerSnapshotKey b v"
  by (simp add: snapshot_key_prefix_def schedulerSnapshotKey_def)

lemma incr_version:
  assumes "0 \<le> n" "n < MaxInt64" "sr_strings r (version_key b) = (if n = 0 then None else Some (itoa n, None))"
  shows "redis_INCR now (version_key b) r = (Inr (n + 1), redis_SET (version_key b) (itoa (n + 1)) None r)"
  using assms atoi_itoa [of n] by (auto simp: redis_INCR_def live_def)

text \<open>The script when the new version is not behind the active one.\<close>

definition activated :: "time \<Rightarrow> SchedulerBucket \<Rightarrow> int \<Rightarrow> sched_redis \<Rightarrow> sched_redis" where
  "activated now b v r =
     (let r' = redis_SADD schedulerBucketSetKey (bucket_String b)
                 (redis_SET (ready_key b) ''1'' None (redis_SET (active_key b) (itoa v) None r))
      in case redis_GET now (active_key b) r of None \<Rightarrow> r'
         | Some cur \<Rightarrow> if cur = itoa v then r'
                       else redis_EXPIRE now (schedulerSnapshotKey b cur) (snapshotGraceTTLSeconds * Second) r')"

abbreviation activate :: "time \<Rightarrow> SchedulerBucket \<Rightarrow> int \<Rightarrow> sched_redis \<Rightarrow> int \<times> sched_redis" where
  "activate now b v r \<equiv>
     activateSnapshotScript now (active_key b) (ready_key b) schedulerBucketSetKey
       (schedulerSnapshotKey b (itoa v)) (itoa v) (bucket_String b) (snapshot_key_prefix b) snapshotGraceTTLSeconds r"

lemma activate_cases:
  assumes "sr_strings r (active_key b) = None \<or> sr_strings r (active_key b) = Some (itoa cur, None)"
    and "1 \<le> v" "v \<le> MaxInt64" "1 \<le> cur" "cur \<le> MaxInt64"
  shows "activate now b v r =
    (if sr_strings r (active_key b) \<noteq> None \<and> v < cur then (0, redis_DEL (schedulerSnapshotKey b (itoa v)) r)
     else (1, activated now b v r))"
  using assms atoi_itoa [of v] atoi_itoa [of cur]
  by (auto simp: activateSnapshotScript_def activated_def Let_def redis_GET_def live_def snapshot_key_prefixed)

lemma activated_fields:
  "sr_strings (activated now b v r) = (sr_strings r)(active_key b \<mapsto> (itoa v, None), ready_key b \<mapsto> (''1'', None))"
  "sr_zsets (activated now b v r) =
     (case redis_GET now (active_key b) r of None \<Rightarrow> sr_zsets r
      | Some cur \<Rightarrow> if cur = itoa v then sr_zsets r
                    else (case sr_zsets r (schedulerSnapshotKey b cur) of None \<Rightarrow> sr_zsets r
                          | Some (zs, ex) \<Rightarrow> if live now ex
                              then (sr_zsets r)(schedulerSnapshotKey b cur \<mapsto> (zs, Some (now + 60 * Second)))
                              else sr_zsets r))"
  "bucket_String b \<in> set (sr_sets (activated now b v r) schedulerBucketSetKey)"
  by (auto simp: activated_def redis_SADD_def redis_SET_def redis_EXPIRE_def snapshotGraceTTLSeconds_def Let_def
      split: option.splits)

definition listed :: "SchedulerBucket \<Rightarrow> int \<Rightarrow> FullAccount list \<Rightarrow> sched_redis \<Rightarrow> sched_redis" where
  "listed b v accounts r =
     (if accounts = [] then r
      else r\<lparr>sr_zsets := (sr_zsets r)(schedulerSnapshotKey b (itoa v) \<mapsto> (snapshot_zset_of accounts, None))\<rparr>)"

lemma snapshot_members_Nil [simp]: "snapshot_members accounts = [] \<longleftrightarrow> accounts = []"
  using names_snapshot_members [of accounts] by (metis Nil_is_map_conv)

lemma zadd_commands_ok:
  assumes "0 < chunk" "accounts \<noteq> []" "sr_zsets r (schedulerSnapshotKey b (itoa v)) = None"
  shows "fold (\<lambda>c. c) (zadd_commands now (schedulerSnapshotKey b (itoa v)) chunk accounts) r = listed b v accounts r"
  using assms zadd_fold [of r "schedulerSnapshotKey b (itoa v)" "[]" now "chunks (nat chunk) (snapshot_members accounts)"]
    chunks_nonempty [of "snapshot_members accounts" "nat chunk"] concat_chunks [of "nat chunk" "snapshot_members accounts"]
  by (simp add: zadd_commands_def listed_def snapshot_zset_of_def)

definition written :: "account_codec \<Rightarrow> SchedulerBucket \<Rightarrow> int \<Rightarrow> FullAccount list \<Rightarrow> sched_redis \<Rightarrow> sched_redis" where
  "written cd b v accounts r =
     fold (\<lambda>c. c) (concat (map (account_commands cd) accounts)) (redis_SET (version_key b) (itoa v) None r)"

lemma same_frame_commands: "same_frame r (fold (\<lambda>c. c) (concat (map (account_commands cd) as)) r)"
  using same_frame_set_commands by (intro same_frame_fold) (auto simp: account_commands_def)

lemma written_frame:
  "sr_zsets (written cd b v accounts r) (schedulerSnapshotKey b' v') = sr_zsets r (schedulerSnapshotKey b' v')" "sr_sets (written cd b v accounts r) = sr_sets r"
  "\<not> is_side_key k \<Longrightarrow> sr_strings (written cd b v accounts r) k = (if k = version_key b then Some (itoa v, None) else sr_strings r k)"
  using same_frame_commands [of "redis_SET (version_key b) (itoa v) None r" cd accounts]
  by (auto simp: written_def same_frame_def redis_SET_def snapshot_not_side)

lemma SetSnapshot_ok:
  assumes "bucket_ok b n r" "n < MaxInt64" "\<forall>a \<in> set accounts. cacheable cd a" "0 < sch_writeChunkSize c"
  shows "SetSnapshot cd c (quiet now) b accounts r =
    (None, activated now b (n + 1) (listed b (n + 1) accounts (written cd b (n + 1) accounts r)))"
proof -
  let ?k = "schedulerSnapshotKey b (itoa (n + 1))" and ?w = "written cd b (n + 1) accounts r"
  let ?l = "listed b (n + 1) accounts ?w"
  have n: "0 \<le> n" and free: "sr_zsets ?w ?k = None"
    and act: "sr_strings r (active_key b) = None \<or> (\<exists>v. 1 \<le> v \<and> v \<le> n \<and> sr_strings r (active_key b) = Some (itoa v, None))"
    using assms(1) by (auto simp: bucket_ok_def written_frame)
  have incr: "redis_INCR now (version_key b) r = (Inr (n + 1), redis_SET (version_key b) (itoa (n + 1)) None r)"
    using assms(1,2) by (intro incr_version) (auto simp: bucket_ok_def)
  have wr: "writeAccounts cd c (\<lambda>_. None) accounts (redis_SET (version_key b) (itoa (n + 1)) None r) = (None, ?w)"
    using writeAccounts_ok [OF assms(3)] by (simp add: written_def)
  have z: "(if accounts \<noteq> [] then exec_pipe None (zadd_commands now ?k (sch_writeChunkSize c) accounts) ?w else (None, ?w)) = (None, ?l)"
    using zadd_commands_ok [OF assms(4) _ free] by (auto simp: exec_pipe_def) (simp add: listed_def)
  have sa: "sr_strings ?l (active_key b) = sr_strings r (active_key b)" by (simp add: listed_def written_frame)
  have "activate now b (n + 1) ?l = (1, activated now b (n + 1) ?l)"
  proof (cases "sr_strings r (active_key b)")
    case None
    then show ?thesis using activate_cases [of ?l b 1 "n + 1"] n assms(2) sa by simp
  next
    case (Some x)
    then obtain v where "1 \<le> v" "v \<le> n" "sr_strings r (active_key b) = Some (itoa v, None)" using act by auto
    then show ?thesis using activate_cases [of ?l b v "n + 1"] n assms(2) sa by simp
  qed
  moreover have "accounts = [] \<Longrightarrow> ?l = ?w" by (simp add: listed_def)
  ultimately show ?thesis using z wr by (cases "accounts = []") (simp_all add: SetSnapshot_def incr Let_def)
qed

lemma mgetChunked_ok: "mgetChunked c (\<lambda>_. None) now keys r = Inr (map (\<lambda>k. redis_GET now k r) keys)"
proof -
  have "mget_loop (\<lambda>_. None) now r n parts = Inr (map (\<lambda>k. redis_GET now k r) (concat parts))" for n parts
    by (induction parts arbitrary: n) simp_all
  then show ?thesis by (simp add: mgetChunked_def Let_def concat_chunks defaultSchedulerSnapshotMGetChunkSize_def)
qed

lemma decode_all_payloads:
  "\<forall>a \<in> set as. encodes cd a \<Longrightarrow> decode_all cd (map (\<lambda>a. Some (payload_of cd a)) as) = Inr (Some as)"
  by (induction as) (auto simp: decodeCachedAccount_def dest!: encodes_payload)

lemma activated_keeps_set:
  assumes "sr_strings r (active_key b) = None \<or> sr_strings r (active_key b) = Some (itoa cur, None)" "cur \<noteq> v"
  shows "sr_zsets (activated now b v r) (schedulerSnapshotKey b (itoa v)) = sr_zsets r (schedulerSnapshotKey b (itoa v))"
  using assms by (auto simp: activated_fields redis_GET_def split: option.splits)

text \<open>What readers of a bucket find: its active version holds \<open>accounts\<close>, and the copies of these are current.\<close>

definition published :: "account_codec \<Rightarrow> SchedulerBucket \<Rightarrow> FullAccount list \<Rightarrow> sched_redis \<Rightarrow> bool" where
  "published cd b accounts r =
     (\<exists>v. sr_strings r (active_key b) = Some (itoa v, None) \<and> sr_strings r (ready_key b) = Some (''1'', None)
      \<and> sr_zsets r (schedulerSnapshotKey b (itoa v)) = (if accounts = [] then None else Some (snapshot_zset_of accounts, None))
      \<and> (\<forall>a \<in> set accounts. sr_strings r (schedulerAccountMetaKey (itoa (fa_ID a))) =
           Some (payload_of cd (buildSchedulerMetadataAccount a), None)))"

lemma published_read:
  assumes "published cd b accounts r" "\<forall>a \<in> set accounts. cacheable cd a" "distinct (map fa_ID accounts)"
  shows "GetSnapshot cd c (quiet now) b r =
    Inr (if accounts = [] then None else Some (map buildSchedulerMetadataAccount accounts))"
proof -
  obtain v where v: "sr_strings r (active_key b) = Some (itoa v, None)" "sr_strings r (ready_key b) = Some (''1'', None)"
    "sr_zsets r (schedulerSnapshotKey b (itoa v)) = (if accounts = [] then None else Some (snapshot_zset_of accounts, None))"
    and str: "\<And>a. a \<in> set accounts \<Longrightarrow> sr_strings r (schedulerAccountMetaKey (itoa (fa_ID a))) =
      Some (payload_of cd (buildSchedulerMetadataAccount a), None)"
    using assms(1) unfolding published_def by blast
  have names: "redis_ZRANGE now (schedulerSnapshotKey b (itoa v)) r =
      (if accounts = [] then [] else map (\<lambda>a. itoa (fa_ID a)) accounts)"
    using snapshot_order [OF assms(3)] by (simp add: redis_ZRANGE_def redis_zset_def v(3) live_def)
  have payloads: "map (\<lambda>a. redis_GET now (schedulerAccountMetaKey (itoa (fa_ID a))) r) accounts =
      map (\<lambda>a. Some (payload_of cd a)) (map buildSchedulerMetadataAccount accounts)"
    using str by (simp add: redis_GET_def live_def)
  have "decode_all cd (map (\<lambda>a. redis_GET now (schedulerAccountMetaKey (itoa (fa_ID a))) r) accounts) =
      Inr (Some (map buildSchedulerMetadataAccount accounts))"
    unfolding payloads using assms(2) by (intro decode_all_payloads) (auto simp: cacheable_def)
  moreover have "redis_GET now (ready_key b) r = Some ''1''" "redis_GET now (active_key b) r = Some (itoa v)"
    by (simp_all add: redis_GET_def v live_def)
  ultimately show ?thesis by (simp add: GetSnapshot_def Let_def names mgetChunked_ok comp_def)
qed

text \<open>The key space after a call of \<open>SetSnapshot\<close> without faults.\<close>

definition snapshot_set ::
  "account_codec \<Rightarrow> time \<Rightarrow> SchedulerBucket \<Rightarrow> int \<Rightarrow> FullAccount list \<Rightarrow> sched_redis \<Rightarrow> sched_redis" where
  "snapshot_set cd now b v accounts r = activated now b v (listed b v accounts (written cd b v accounts r))"

lemma snapshot_set_before:
  assumes "bucket_ok b n r"
  obtains cur where "cur < n + 1"
    "sr_strings (listed b (n + 1) accounts (written cd b (n + 1) accounts r)) (active_key b) = None
     \<or> sr_strings (listed b (n + 1) accounts (written cd b (n + 1) accounts r)) (active_key b) = Some (itoa cur, None)"
proof (cases "sr_strings r (active_key b) = None")
  case True
  then show thesis using assms that [of 0] by (simp add: bucket_ok_def listed_def written_frame)
next
  case False
  then obtain v where "v \<le> n" "sr_strings r (active_key b) = Some (itoa v, None)" using assms by (auto simp: bucket_ok_def)
  then show thesis using that [of v] by (simp add: listed_def written_frame)
qed

lemma snapshot_set_published:
  assumes "bucket_ok b n r" "distinct (map fa_ID accounts)"
  shows "published cd b accounts (snapshot_set cd now b (n + 1) accounts r)"
  unfolding published_def
proof (intro exI conjI ballI)
  let ?l = "listed b (n + 1) accounts (written cd b (n + 1) accounts r)"
  let ?k = "schedulerSnapshotKey b (itoa (n + 1))"
  obtain cur where cur: "cur < n + 1" "sr_strings ?l (active_key b) = None \<or> sr_strings ?l (active_key b) = Some (itoa cur, None)"
    by (rule snapshot_set_before [OF assms(1)])
  have "sr_zsets (snapshot_set cd now b (n + 1) accounts r) ?k = sr_zsets ?l ?k"
    using activated_keeps_set [OF cur(2), of "n + 1"] cur(1) by (simp add: snapshot_set_def)
  also have "\<dots> = (if accounts = [] then None else Some (snapshot_zset_of accounts, None))"
    using assms(1) by (simp add: listed_def written_frame bucket_ok_def)
  finally show "sr_zsets (snapshot_set cd now b (n + 1) accounts r) ?k =
      (if accounts = [] then None else Some (snapshot_zset_of accounts, None))" .
  fix a
  assume a: "a \<in> set accounts"
  show "sr_strings (snapshot_set cd now b (n + 1) accounts r) (schedulerAccountMetaKey (itoa (fa_ID a))) =
      Some (payload_of cd (buildSchedulerMetadataAccount a), None)"
    using commands_stored(2) [OF assms(2) a] a
    by (auto simp: snapshot_set_def activated_fields listed_def written_def sched_key_defs)
qed (simp_all add: snapshot_set_def activated_fields)

lemma snapshot_set_bucket_ok:
  assumes "bucket_ok b n r"
  shows "bucket_ok b (n + 1) (snapshot_set cd now b (n + 1) accounts r)"
  unfolding bucket_ok_def
proof (intro conjI allI impI disjI2)
  let ?l = "listed b (n + 1) accounts (written cd b (n + 1) accounts r)"
  obtain cur where cur: "cur < n + 1" "sr_strings ?l (active_key b) = None \<or> sr_strings ?l (active_key b) = Some (itoa cur, None)"
    by (rule snapshot_set_before [OF assms(1)])
  fix v
  assume v: "n + 1 < v"
  then have "sr_zsets ?l (schedulerSnapshotKey b (itoa v)) = None"
    using assms(1) by (simp add: listed_def written_frame bucket_ok_def)
  moreover have "sr_zsets (snapshot_set cd now b (n + 1) accounts r) (schedulerSnapshotKey b (itoa v)) =
      sr_zsets ?l (schedulerSnapshotKey b (itoa v))"
    using cur v by (auto simp: snapshot_set_def activated_fields redis_GET_def split: option.splits)
  ultimately show "sr_zsets (snapshot_set cd now b (n + 1) accounts r) (schedulerSnapshotKey b (itoa v)) = None" by simp
qed (use assms in \<open>auto simp: snapshot_set_def activated_fields bucket_ok_def listed_def written_frame\<close>)

text \<open>C22: a snapshot that was written without a fault is read back as it was given: \<open>GetSnapshot\<close> returns the
  metadata of its accounts in their order (a miss for no accounts), \<open>GetAccount\<close> the full accounts, and the bucket
  is registered, whatever the chunk sizes and whatever was cached before.\<close>

theorem snapshot_roundtrip:
  assumes "bucket_ok b n r" "n < MaxInt64" "c = newSchedulerCacheWithChunkSizes mget write"
    and "\<forall>a \<in> set accounts. cacheable cd a" "distinct (map fa_ID accounts)"
  shows "\<exists>r'. SetSnapshot cd c (quiet now) b accounts r = (None, r') \<and> bucket_ok b (n + 1) r'
    \<and> GetSnapshot cd c (quiet later) b r' =
        Inr (if accounts = [] then None else Some (map buildSchedulerMetadataAccount accounts))
    \<and> (\<forall>a \<in> set accounts. cache_GetAccount cd (quiet later) (fa_ID a) r' = Inr (Some a))
    \<and> bucket_String b \<in> set (sr_sets r' schedulerBucketSetKey)"
proof -
  let ?r = "snapshot_set cd now b (n + 1) accounts r"
  have "0 < sch_writeChunkSize c"
    using assms(3) by (simp add: newSchedulerCacheWithChunkSizes_def defaultSchedulerSnapshotWriteChunkSize_def)
  from SetSnapshot_ok [OF assms(1,2,4) this] have "SetSnapshot cd c (quiet now) b accounts r = (None, ?r)"
    by (simp add: snapshot_set_def)
  moreover have "sr_strings ?r (schedulerAccountKey (itoa (fa_ID a))) = Some (payload_of cd a, None)" if "a \<in> set accounts" for a
    using commands_stored(1) [OF assms(5) that] that
    by (auto simp: snapshot_set_def activated_fields listed_def written_def sched_key_defs)
  then have "\<forall>a \<in> set accounts. cache_GetAccount cd (quiet later) (fa_ID a) ?r = Inr (Some a)"
    using assms(4) encodes_payload
    by (auto simp: cache_GetAccount_def redis_GET_def live_def decodeCachedAccount_def cacheable_def Let_def)
  moreover have "bucket_String b \<in> set (sr_sets ?r schedulerBucketSetKey)" by (simp add: snapshot_set_def activated_fields(3))
  ultimately show ?thesis
    using snapshot_set_bucket_ok [OF assms(1)] published_read [OF snapshot_set_published [OF assms(1,5)] assms(4,5)] by blast
qed

definition stamp_codec :: "FullAccount \<Rightarrow> account_codec" where
  "stamp_codec a = \<lparr>cd_marshal = (\<lambda>b. Inr (if fa_CreatedAt b = zero_time then ''meta'' else ''full'')),
     cd_unmarshal = (\<lambda>p. Inr (if p = ''meta'' then buildSchedulerMetadataAccount a else a))\<rparr>"

definition empty_redis :: sched_redis where
  "empty_redis = \<lparr>sr_strings = Map.empty, sr_zsets = Map.empty, sr_sets = (\<lambda>_. [])\<rparr>"

definition sample_bucket :: SchedulerBucket where
  "sample_bucket = \<lparr>bu_GroupID = 12, bu_Platform = PlatformAnthropic, bu_Mode = SchedulerModeMixed\<rparr>"

lemma stamp_codec_ok: "fa_CreatedAt a \<noteq> zero_time \<Longrightarrow> cacheable (stamp_codec a) a"
  by (auto simp: cacheable_def encodes_def stamp_codec_def buildSchedulerMetadataAccount_def)

lemma empty_bucket_ok: "bucket_ok b 0 empty_redis"
  by (simp add: bucket_ok_def empty_redis_def)

theorem snapshot_roundtrip_witness:
  "GetSnapshot (stamp_codec spent_account) NewSchedulerCache (quiet 9) sample_bucket
     (snd (SetSnapshot (stamp_codec spent_account) NewSchedulerCache (quiet 5) sample_bucket [spent_account] empty_redis)) =
   Inr (Some [buildSchedulerMetadataAccount spent_account])"
  using snapshot_roundtrip [OF empty_bucket_ok _ NewSchedulerCache_def, of "[spent_account]" "stamp_codec spent_account" 5 sample_bucket 9]
    stamp_codec_ok [of spent_account] by (auto simp: spent_account_def zero_time_def)

subsection \<open>Keys of different buckets\<close>

definition plain_bucket :: "SchedulerBucket \<Rightarrow> bool" where
  "plain_bucket b = (CHR '':'' \<notin> set (bu_Platform b) \<and> CHR '':'' \<notin> set (bu_Mode b))"

lemma split_bucket: "plain_bucket b \<Longrightarrow> split_colon (bucket_String b) = [itoa (bu_GroupID b), bu_Platform b, bu_Mode b]"
  by (simp add: bucket_String_def split_colon_append split_colon_plain itoa_no_colon plain_bucket_def)

lemma bucket_String_inject: "plain_bucket b \<Longrightarrow> plain_bucket b' \<Longrightarrow> bucket_String b = bucket_String b' \<longleftrightarrow> b = b'"
proof
  assume p: "plain_bucket b" "plain_bucket b'" and "bucket_String b = bucket_String b'"
  then have "split_colon (bucket_String b) = split_colon (bucket_String b')" by simp
  then show "b = b'" using p by (simp add: split_bucket)
qed simp

lemma bucket_key_inject:
  "plain_bucket b \<Longrightarrow> plain_bucket b' \<Longrightarrow> schedulerBucketKey pre b = schedulerBucketKey pre b' \<longleftrightarrow> b = b'"
  using bucket_String_inject by (simp add: schedulerBucketKey_def bucket_String_def)

lemma split_snapshot_key:
  "plain_bucket b \<Longrightarrow> CHR '':'' \<notin> set v \<Longrightarrow>
   split_colon (schedulerSnapshotKey b v) = [''sched'', itoa (bu_GroupID b), bu_Platform b, bu_Mode b, CHR ''v'' # v]"
  using split_colon_append [of "''sched''"] split_colon_plain [of "CHR ''v'' # v"]
  by (simp add: schedulerSnapshotKey_def schedulerSnapshotPrefix_def split_colon_append split_colon_plain
      itoa_no_colon plain_bucket_def del: split_colon.simps)

lemma snapshot_key_inject2:
  assumes "plain_bucket b" "plain_bucket b'"
  shows "schedulerSnapshotKey b (itoa v) = schedulerSnapshotKey b' (itoa v') \<longleftrightarrow> b = b' \<and> v = v'"
proof
  assume "schedulerSnapshotKey b (itoa v) = schedulerSnapshotKey b' (itoa v')"
  then have "split_colon (schedulerSnapshotKey b (itoa v)) = split_colon (schedulerSnapshotKey b' (itoa v'))" by simp
  then show "b = b' \<and> v = v'" using assms by (simp add: split_snapshot_key itoa_no_colon)
qed simp

abbreviation lock_key :: "SchedulerBucket \<Rightarrow> string" where
  "lock_key b \<equiv> schedulerBucketKey schedulerLockPrefix b"

lemma lock_key_apart [simp]:
  "lock_key b \<noteq> version_key b'" "lock_key b \<noteq> active_key b'" "lock_key b \<noteq> ready_key b'"
  "lock_key b \<noteq> schedulerAccountKey i" "lock_key b \<noteq> schedulerAccountMetaKey i"
  by (simp_all add: sched_key_defs)

lemma commands_elsewhere:
  "(\<forall>i. k \<noteq> schedulerAccountKey i \<and> k \<noteq> schedulerAccountMetaKey i) \<Longrightarrow>
   sr_strings (fold (\<lambda>c. c) (concat (map (account_commands cd) as)) r) k = sr_strings r k"
  by (induction as arbitrary: r) (simp_all add: apply_account_commands)

text \<open>A snapshot of one bucket leaves the others and all locks alone, but for the copies of its accounts.\<close>

lemma snapshot_set_elsewhere:
  assumes "bucket_ok b n r" "plain_bucket b" "plain_bucket b'" "b' \<noteq> b"
  shows "sr_strings (snapshot_set cd now b (n + 1) accounts r) (version_key b') = sr_strings r (version_key b')"
    "sr_strings (snapshot_set cd now b (n + 1) accounts r) (active_key b') = sr_strings r (active_key b')"
    "sr_strings (snapshot_set cd now b (n + 1) accounts r) (ready_key b') = sr_strings r (ready_key b')"
    "sr_zsets (snapshot_set cd now b (n + 1) accounts r) (schedulerSnapshotKey b' (itoa v)) = sr_zsets r (schedulerSnapshotKey b' (itoa v))"
proof -
  show "sr_strings (snapshot_set cd now b (n + 1) accounts r) (version_key b') = sr_strings r (version_key b')"
    "sr_strings (snapshot_set cd now b (n + 1) accounts r) (active_key b') = sr_strings r (active_key b')"
    "sr_strings (snapshot_set cd now b (n + 1) accounts r) (ready_key b') = sr_strings r (ready_key b')"
    using assms(2-4) bucket_key_inject by (simp_all add: snapshot_set_def activated_fields listed_def written_frame)
  let ?k = "schedulerSnapshotKey b' (itoa v)"
  obtain l where l: "l = listed b (n + 1) accounts (written cd b (n + 1) accounts r)" by simp
  obtain cur where cur: "sr_strings l (active_key b) = None \<or> sr_strings l (active_key b) = Some (itoa cur, None)"
    by (rule snapshot_set_before [OF assms(1), of accounts cd]) (simp add: l)
  have "?k \<noteq> schedulerSnapshotKey b (itoa cur)" "?k \<noteq> schedulerSnapshotKey b (itoa (n + 1))"
    using snapshot_key_inject2 assms(2-4) by blast+
  moreover from this have "sr_zsets (activated now b (n + 1) l) ?k = sr_zsets l ?k"
    using cur by (auto simp: activated_fields redis_GET_def split: option.splits)
  ultimately have "sr_zsets (activated now b (n + 1) l) ?k = sr_zsets r ?k" by (simp add: l listed_def written_frame)
  then show "sr_zsets (snapshot_set cd now b (n + 1) accounts r) ?k = sr_zsets r ?k" by (simp add: snapshot_set_def l)
qed

lemma snapshot_set_lock: "sr_strings (snapshot_set cd now b v accounts r) (lock_key b') = sr_strings r (lock_key b')"
  using commands_elsewhere [of "lock_key b'"]
  by (simp add: snapshot_set_def activated_fields listed_def written_def redis_SET_def)

lemma snapshot_set_copies:
  "i \<notin> fa_ID ` set accounts \<Longrightarrow>
   sr_strings (snapshot_set cd now b v accounts r) (schedulerAccountMetaKey (itoa i)) = sr_strings r (schedulerAccountMetaKey (itoa i))"
  using commands_untouched(2) [of i accounts]
  by (auto simp: snapshot_set_def activated_fields listed_def written_def redis_SET_def sched_key_defs)

end
