(* ===== verification/Snapshot_Writers.thy ===== *)
theory Snapshot_Writers
  imports Scheduler_Cache
begin

text \<open>
  Calls of \<open>SetSnapshot\<close> running side by side (\<open>repository/scheduler_cache.go\<close>): each Redis command is a step
  of its own, a pipeline being one step per command, and a call may stop between any two of them. The Lua
  script is one step. No key is lost: Redis neither evicts nor restarts without its data. Every command is sent once;
  that the client library may send one again after a broken connection is outside the model.
\<close>

section \<open>Writers side by side\<close>

text \<open>Where a call of \<open>SetSnapshot\<close> is: it has drawn its version, or is adding the members to the sorted set,
  slice by slice. \<open>ss_drawn\<close> records the accounts for which a version was drawn.\<close>

datatype snap_writer =
    WIdle
  | Versioned SchedulerBucket "FullAccount list" int
  | Listing SchedulerBucket "FullAccount list" int "(string \<times> int) list list" "(string \<times> int) list list"

record snap_sys =
  ss_redis :: sched_redis
  ss_now :: time
  ss_writers :: "nat \<Rightarrow> snap_writer"
  ss_drawn :: "SchedulerBucket \<times> int \<rightharpoonup> FullAccount list"

abbreviation at_writer :: "nat \<Rightarrow> snap_writer \<Rightarrow> sched_redis \<Rightarrow> snap_sys \<Rightarrow> snap_sys" where
  "at_writer p w r s \<equiv> s\<lparr>ss_redis := r, ss_writers := (ss_writers s)(p := w)\<rparr>"

text \<open>The rule \<open>payloads\<close> stands for every command that touches only payloads of accounts, locks or the
  watermark. A call may stop at any point.\<close>

inductive snap_step :: "snap_sys \<Rightarrow> snap_sys \<Rightarrow> bool" where
  tick: "ss_now s \<le> t \<Longrightarrow> snap_step s (s\<lparr>ss_now := t\<rparr>)"
| draw: "ss_writers s p = WIdle \<Longrightarrow> plain_bucket b \<Longrightarrow>
    redis_INCR (ss_now s) (schedulerBucketKey schedulerVersionPrefix b) (ss_redis s) = (Inr v, r) \<Longrightarrow>
    snap_step s ((at_writer p (Versioned b accounts v) r s)\<lparr>ss_drawn := (ss_drawn s)((b, v) \<mapsto> accounts)\<rparr>)"
| payloads: "same_frame (ss_redis s) r \<Longrightarrow> snap_step s (s\<lparr>ss_redis := r\<rparr>)"
| begin_list: "ss_writers s p = Versioned b accounts v \<Longrightarrow> 0 < k \<Longrightarrow>
    snap_step s (at_writer p (Listing b accounts v [] (chunks k (snapshot_members accounts))) (ss_redis s) s)"
| add: "ss_writers s p = Listing b accounts v added (part # rest) \<Longrightarrow>
    snap_step s (at_writer p (Listing b accounts v (added @ [part]) rest)
      (redis_ZADD (ss_now s) (schedulerSnapshotKey b (itoa v)) part (ss_redis s)) s)"
| activate: "ss_writers s p = Listing b accounts v added [] \<Longrightarrow>
    activateSnapshotScript (ss_now s) (schedulerBucketKey schedulerActivePrefix b)
      (schedulerBucketKey schedulerReadyPrefix b) schedulerBucketSetKey (schedulerSnapshotKey b (itoa v)) (itoa v)
      (bucket_String b) (snapshot_key_prefix b) snapshotGraceTTLSeconds (ss_redis s) = (res, r) \<Longrightarrow>
    snap_step s (at_writer p WIdle r s)"
| quit: "snap_step s (at_writer p WIdle (ss_redis s) s)"

definition initial_snap :: "time \<Rightarrow> snap_sys" where
  "initial_snap t = \<lparr>ss_redis = empty_redis, ss_now = t, ss_writers = (\<lambda>_. WIdle), ss_drawn = Map.empty\<rparr>"

subsection \<open>The invariant\<close>

abbreviation zset_at :: "SchedulerBucket \<Rightarrow> int \<Rightarrow> snap_sys \<Rightarrow> (snapshot_zset \<times> time option) option" where
  "zset_at b v s \<equiv> sr_zsets (ss_redis s) (schedulerSnapshotKey b (itoa v))"
abbreviation active_at :: "SchedulerBucket \<Rightarrow> snap_sys \<Rightarrow> (string \<times> time option) option" where
  "active_at b s \<equiv> sr_strings (ss_redis s) (active_key b)"

definition whole :: "FullAccount list \<Rightarrow> time option \<Rightarrow> (snapshot_zset \<times> time option) option" where
  "whole accounts ex = (if accounts = [] then None else Some (snapshot_zset_of accounts, ex))"

definition bucket_inv :: "snap_sys \<Rightarrow> SchedulerBucket \<Rightarrow> bool" where
  "bucket_inv s b =
     (\<exists>n. n \<le> MaxInt64 \<and> bucket_ok b n (ss_redis s) \<and> (\<forall>v. ss_drawn s (b, v) \<noteq> None \<longleftrightarrow> 1 \<le> v \<and> v \<le> n)
      \<and> (\<forall>v. active_at b s = Some (itoa v, None) \<longrightarrow> zset_at b v s = whole (the (ss_drawn s (b, v))) None))"

fun writer_job :: "snap_writer \<Rightarrow> (SchedulerBucket \<times> int) option" where
  "writer_job WIdle = None"
| "writer_job (Versioned b accounts v) = Some (b, v)"
| "writer_job (Listing b accounts v added rest) = Some (b, v)"

definition job_ok :: "snap_sys \<Rightarrow> SchedulerBucket \<Rightarrow> FullAccount list \<Rightarrow> int \<Rightarrow> (string \<times> int) list list \<Rightarrow> bool" where
  "job_ok s b accounts v added =
     (plain_bucket b \<and> ss_drawn s (b, v) = Some accounts \<and> active_at b s \<noteq> Some (itoa v, None)
      \<and> zset_at b v s = (if added = [] then None else Some (foldl zset_add [] (concat added), None)))"

fun writer_ok :: "snap_sys \<Rightarrow> snap_writer \<Rightarrow> bool" where
  "writer_ok s WIdle = True"
| "writer_ok s (Versioned b accounts v) = job_ok s b accounts v []"
| "writer_ok s (Listing b accounts v added rest) =
     (job_ok s b accounts v added \<and> (\<exists>k > 0. added @ rest = chunks k (snapshot_members accounts)))"

definition jobs_apart :: "snap_sys \<Rightarrow> bool" where
  "jobs_apart s = (\<forall>p q j. writer_job (ss_writers s p) = Some j \<longrightarrow> writer_job (ss_writers s q) = Some j \<longrightarrow> p = q)"

definition snap_inv :: "snap_sys \<Rightarrow> bool" where
  "snap_inv s = ((\<forall>b. plain_bucket b \<longrightarrow> bucket_inv s b) \<and> (\<forall>p. writer_ok s (ss_writers s p)) \<and> jobs_apart s)"

text \<open>What the invariant reads of a bucket.\<close>

definition bucket_view :: "snap_sys \<Rightarrow> SchedulerBucket \<Rightarrow>
    (string \<times> time option) option \<times> (string \<times> time option) option
    \<times> (int \<Rightarrow> (snapshot_zset \<times> time option) option) \<times> (int \<Rightarrow> FullAccount list option)" where
  "bucket_view s b = (sr_strings (ss_redis s) (version_key b), active_at b s, \<lambda>v. zset_at b v s, \<lambda>v. ss_drawn s (b, v))"

lemma bucket_viewD:
  assumes "bucket_view s' b = bucket_view s b"
  shows "sr_strings (ss_redis s') (version_key b) = sr_strings (ss_redis s) (version_key b)"
    "active_at b s' = active_at b s" "zset_at b v s' = zset_at b v s" "ss_drawn s' (b, v) = ss_drawn s (b, v)"
  using assms by (auto simp: bucket_view_def fun_eq_iff)

lemma bucket_inv_view:
  assumes "bucket_view s' b = bucket_view s b"
  shows "bucket_inv s' b = bucket_inv s b"
  by (simp add: bucket_inv_def bucket_ok_def bucket_viewD [OF assms])

lemma job_ok_view:
  assumes "zset_at b v s' = zset_at b v s" "ss_drawn s' (b, v) = ss_drawn s (b, v)"
    and "active_at b s' = active_at b s \<or> active_at b s' = Some (itoa v', None)" "v' \<noteq> v"
  shows "job_ok s b accounts v added \<Longrightarrow> job_ok s' b accounts v added"
  using assms by (auto simp: job_ok_def)

lemma writer_ok_view:
  assumes "writer_ok s w"
    and "\<And>b v. writer_job w = Some (b, v) \<Longrightarrow> plain_bucket b \<Longrightarrow> zset_at b v s' = zset_at b v s \<and> ss_drawn s' (b, v) = ss_drawn s (b, v)
      \<and> (active_at b s' = active_at b s \<or> (\<exists>v'. v' \<noteq> v \<and> active_at b s' = Some (itoa v', None)))"
  shows "writer_ok s' w"
  using assms by (cases w) (auto simp: job_ok_def)

text \<open>A step that changes one bucket at most, and of it the sorted set of no other writer.\<close>

lemma snap_inv_step:
  assumes "snap_inv s" "\<And>b'. plain_bucket b' \<Longrightarrow> b' \<noteq> b \<Longrightarrow> bucket_view s' b' = bucket_view s b'"
    and "plain_bucket b \<Longrightarrow> bucket_inv s' b" "ss_writers s' = (ss_writers s)(p := w)" "writer_ok s' w"
    and "\<And>q v. q \<noteq> p \<Longrightarrow> plain_bucket b \<Longrightarrow> writer_job (ss_writers s q) = Some (b, v) \<Longrightarrow>
       zset_at b v s' = zset_at b v s \<and> ss_drawn s' (b, v) = ss_drawn s (b, v)
      \<and> (active_at b s' = active_at b s \<or> (\<exists>v'. v' \<noteq> v \<and> active_at b s' = Some (itoa v', None)))"
    and "writer_job w \<noteq> writer_job (ss_writers s p) \<Longrightarrow> writer_job w = None \<or> (\<forall>q. q \<noteq> p \<longrightarrow> writer_job w \<noteq> writer_job (ss_writers s q))"
  shows "snap_inv s'"
  unfolding snap_inv_def
proof (intro conjI allI impI)
  fix b'
  assume "plain_bucket b'"
  moreover have "bucket_inv s b'" using assms(1) \<open>plain_bucket b'\<close> unfolding snap_inv_def by blast
  ultimately show "bucket_inv s' b'" using assms(2,3) bucket_inv_view by (cases "b' = b") metis+
next
  fix q
  show "writer_ok s' (ss_writers s' q)"
  proof (cases "q = p")
    case False
    have "writer_ok s' (ss_writers s q)"
    proof (rule writer_ok_view)
      show "writer_ok s (ss_writers s q)" using assms(1) by (simp add: snap_inv_def)
    next
      fix b' v
      assume "writer_job (ss_writers s q) = Some (b', v)" "plain_bucket b'"
      then show "zset_at b' v s' = zset_at b' v s \<and> ss_drawn s' (b', v) = ss_drawn s (b', v)
          \<and> (active_at b' s' = active_at b' s \<or> (\<exists>v'. v' \<noteq> v \<and> active_at b' s' = Some (itoa v', None)))"
        using assms(6) [OF False] bucket_viewD [OF assms(2)] by (cases "b' = b") auto
    qed
    then show ?thesis using False assms(4) by simp
  qed (use assms(4,5) in simp)
next
  show "jobs_apart s'"
    using assms(1,7) unfolding snap_inv_def jobs_apart_def assms(4) by (metis fun_upd_apply option.distinct(1))
qed

lemma snap_inv_initial: "snap_inv (initial_snap t)"
proof -
  have "sr_strings empty_redis k = None" for k by (simp add: empty_redis_def)
  then have "bucket_inv (initial_snap t) b" for b
    unfolding bucket_inv_def initial_snap_def by (intro exI [of _ 0]) (simp add: empty_bucket_ok)
  then show ?thesis by (simp add: snap_inv_def initial_snap_def jobs_apart_def)
qed

lemma snap_inv_same:
  assumes "snap_inv s" "\<And>b. plain_bucket b \<Longrightarrow> bucket_view s' b = bucket_view s b" "ss_writers s' = (ss_writers s)(p := w)"
    and "writer_ok s' w" "writer_job w = writer_job (ss_writers s p) \<or> writer_job w = None"
  shows "snap_inv s'"
  using assms(1)
proof (rule snap_inv_step [of s undefined, OF _ _ _ assms(3,4)])
  show "plain_bucket undefined \<Longrightarrow> bucket_inv s' undefined"
    using bucket_inv_view [OF assms(2)] assms(1) by (simp add: snap_inv_def)
qed (use assms(2,5) bucket_viewD in blast)+

lemma view_update_clock: "bucket_view (s\<lparr>ss_now := t\<rparr>) b = bucket_view s b"
  by (simp add: bucket_view_def)

lemma view_update_writer:
  "bucket_view (at_writer p w (ss_redis s) s) b = bucket_view s b" "bucket_view (s\<lparr>ss_writers := f\<rparr>) b = bucket_view s b"
  by (simp_all add: bucket_view_def)

lemma view_frame: "same_frame (ss_redis s) r \<Longrightarrow> bucket_view (s\<lparr>ss_redis := r\<rparr>) b = bucket_view s b"
  by (simp add: bucket_view_def same_frame_def snapshot_not_side)

lemma writer_ok_cong:
  assumes "\<And>b. plain_bucket b \<Longrightarrow> bucket_view s' b = bucket_view s b" "writer_ok s w"
  shows "writer_ok s' w"
proof (rule writer_ok_view [OF assms(2)])
  fix b v
  assume "plain_bucket b"
  from bucket_viewD [OF assms(1) [OF this]]
  show "zset_at b v s' = zset_at b v s \<and> ss_drawn s' (b, v) = ss_drawn s (b, v)
      \<and> (active_at b s' = active_at b s \<or> (\<exists>v'. v' \<noteq> v \<and> active_at b s' = Some (itoa v', None)))" by blast
qed

lemma incr_result:
  assumes "bucket_ok b n r" "n \<le> MaxInt64" "redis_INCR now (version_key b) r = (Inr v, r')"
  shows "v = n + 1 \<and> n < MaxInt64 \<and> r' = redis_SET (version_key b) (itoa (n + 1)) None r"
proof -
  have "n \<noteq> MaxInt64"
  proof
    assume n: "n = MaxInt64"
    then have "sr_strings r (version_key b) = Some (itoa MaxInt64, None)" using assms(1) by (simp add: bucket_ok_def)
    then show False using assms(3) atoi_itoa [of MaxInt64] by (simp add: redis_INCR_def live_def)
  qed
  then show ?thesis using incr_version [of n r b now] assms by (auto simp: bucket_ok_def)
qed

lemma view_other_bucket:
  assumes "plain_bucket b" "plain_bucket b'" "b' \<noteq> b"
    and "\<And>k. k \<notin> {version_key b, active_key b, ready_key b} \<Longrightarrow> sr_strings (ss_redis s') k = sr_strings (ss_redis s) k"
    and "\<And>k. (\<forall>v. k \<noteq> schedulerSnapshotKey b (itoa v)) \<Longrightarrow> sr_zsets (ss_redis s') k = sr_zsets (ss_redis s) k"
    and "\<And>v. ss_drawn s' (b', v) = ss_drawn s (b', v)"
  shows "bucket_view s' b' = bucket_view s b'"
proof -
  have "version_key b' \<notin> {version_key b, active_key b, ready_key b}" "active_key b' \<notin> {version_key b, active_key b, ready_key b}"
    using assms(1-3) bucket_key_inject by auto
  moreover have "\<forall>v. schedulerSnapshotKey b' (itoa v') \<noteq> schedulerSnapshotKey b (itoa v)" for v'
    using snapshot_key_inject2 assms(1-3) by blast
  ultimately show ?thesis using assms(4-6) by (simp add: bucket_view_def)
qed

lemma snap_inv_job:
  assumes "snap_inv s" "writer_job (ss_writers s q) = Some (b, v)"
  shows "plain_bucket b \<and> ss_drawn s (b, v) \<noteq> None \<and> active_at b s \<noteq> Some (itoa v, None)"
proof -
  have "writer_ok s (ss_writers s q)" using assms(1) by (simp add: snap_inv_def)
  then show ?thesis using assms(2) by (cases "ss_writers s q") (auto simp: job_ok_def)
qed

lemma snap_inv_bucket:
  assumes "snap_inv s" "plain_bucket b"
  obtains n where "n \<le> MaxInt64" "bucket_ok b n (ss_redis s)" "\<forall>v. ss_drawn s (b, v) \<noteq> None \<longleftrightarrow> 1 \<le> v \<and> v \<le> n"
    "\<forall>v. active_at b s = Some (itoa v, None) \<longrightarrow> zset_at b v s = whole (the (ss_drawn s (b, v))) None"
    "0 \<le> n" "\<forall>v. n < v \<longrightarrow> zset_at b v s = None" "\<forall>v. active_at b s = Some (itoa v, None) \<longrightarrow> 1 \<le> v \<and> v \<le> n"
    "active_at b s = None \<or> (\<exists>v. 1 \<le> v \<and> v \<le> n \<and> active_at b s = Some (itoa v, None))"
proof -
  obtain n where n: "n \<le> MaxInt64" "bucket_ok b n (ss_redis s)" "\<forall>v. ss_drawn s (b, v) \<noteq> None \<longleftrightarrow> 1 \<le> v \<and> v \<le> n"
    "\<forall>v. active_at b s = Some (itoa v, None) \<longrightarrow> zset_at b v s = whole (the (ss_drawn s (b, v))) None"
    using assms unfolding snap_inv_def bucket_inv_def by blast
  show thesis by (rule that [OF n]) (use n(2) in \<open>auto simp: bucket_ok_def\<close>)
qed

lemma snap_inv_draw:
  assumes "snap_inv s" "ss_writers s p = WIdle" "plain_bucket b"
    and "redis_INCR (ss_now s) (version_key b) (ss_redis s) = (Inr v, r)"
  shows "snap_inv ((at_writer p (Versioned b accounts v) r s)\<lparr>ss_drawn := (ss_drawn s)((b, v) \<mapsto> accounts)\<rparr>)" (is "snap_inv ?s")
proof -
  obtain n where n: "n \<le> MaxInt64" "bucket_ok b n (ss_redis s)" "\<forall>v. ss_drawn s (b, v) \<noteq> None \<longleftrightarrow> 1 \<le> v \<and> v \<le> n"
    "\<forall>v. active_at b s = Some (itoa v, None) \<longrightarrow> zset_at b v s = whole (the (ss_drawn s (b, v))) None"
    and n0: "0 \<le> n" and fresh: "\<forall>v. n < v \<longrightarrow> zset_at b v s = None"
    and old: "\<forall>v. active_at b s = Some (itoa v, None) \<longrightarrow> 1 \<le> v \<and> v \<le> n"
    and act: "active_at b s = None \<or> (\<exists>v. 1 \<le> v \<and> v \<le> n \<and> active_at b s = Some (itoa v, None))"
    by (rule snap_inv_bucket [OF assms(1,3)], rule that)
  have v: "v = n + 1" "n < MaxInt64" "r = redis_SET (version_key b) (itoa (n + 1)) None (ss_redis s)"
    using incr_result [OF n(2,1) assms(4)] by auto
  have z: "zset_at b' v' ?s = zset_at b' v' s" and a: "active_at b' ?s = active_at b' s" for b' v'
    by (simp_all add: v redis_SET_def)
  show ?thesis
  proof (rule snap_inv_step [OF assms(1), of b _ p "Versioned b accounts v"])
    show "\<And>b'. plain_bucket b' \<Longrightarrow> b' \<noteq> b \<Longrightarrow> bucket_view ?s b' = bucket_view s b'"
      by (rule view_other_bucket [OF assms(3)]) (auto simp: v redis_SET_def)
    have "bucket_ok b (n + 1) (ss_redis ?s)"
      unfolding bucket_ok_def using n0 fresh act by (auto simp: v redis_SET_def)
    moreover have "\<And>v'. ss_drawn ?s (b, v') \<noteq> None \<longleftrightarrow> 1 \<le> v' \<and> v' \<le> n + 1" using n(3) n0 by (auto simp: v)
    moreover have "\<And>v'. active_at b ?s = Some (itoa v', None) \<Longrightarrow> zset_at b v' ?s = whole (the (ss_drawn ?s (b, v'))) None"
      using n(4) old unfolding z a by (fastforce simp: v)
    ultimately show "bucket_inv ?s b" unfolding bucket_inv_def using v(2) by (intro exI [of _ "n + 1"]) auto
    show "writer_ok ?s (Versioned b accounts v)"
      using assms(3) fresh old z a by (auto simp: job_ok_def v)
    fix q v'
    assume "writer_job (ss_writers s q) = Some (b, v')"
    from snap_inv_job [OF assms(1) this]
    have "v' \<noteq> v" using n(3) by (auto simp: v)
    then show "zset_at b v' ?s = zset_at b v' s \<and> ss_drawn ?s (b, v') = ss_drawn s (b, v')
      \<and> (active_at b ?s = active_at b s \<or> (\<exists>u. u \<noteq> v' \<and> active_at b ?s = Some (itoa u, None)))"
      using z a by simp
  next
    have "writer_job (ss_writers s q) \<noteq> Some (b, v)" for q
      using snap_inv_job [OF assms(1), of q b v] n(3) by (auto simp: v)
    then show "writer_job (Versioned b accounts v) = None \<or>
        (\<forall>q. q \<noteq> p \<longrightarrow> writer_job (Versioned b accounts v) \<noteq> writer_job (ss_writers s q))"
      by (metis writer_job.simps(2))
  qed simp
qed

lemma snap_inv_add:
  assumes "snap_inv s" "ss_writers s p = Listing b accounts v added (part # rest)"
  shows "snap_inv (at_writer p (Listing b accounts v (added @ [part]) rest)
      (redis_ZADD (ss_now s) (schedulerSnapshotKey b (itoa v)) part (ss_redis s)) s)" (is "snap_inv ?s")
proof -
  let ?k = "schedulerSnapshotKey b (itoa v)"
  have "writer_ok s (ss_writers s p)" using assms(1) by (simp add: snap_inv_def)
  then have job: "job_ok s b accounts v added" and ch: "\<exists>k > 0. added @ part # rest = chunks k (snapshot_members accounts)"
    using assms(2) by auto
  have b: "plain_bucket b" using job by (simp add: job_ok_def)
  have r: "redis_ZADD (ss_now s) ?k part (ss_redis s) =
      (ss_redis s)\<lparr>sr_zsets := (sr_zsets (ss_redis s))(?k \<mapsto> (foldl zset_add [] (concat (added @ [part])), None))\<rparr>"
    using job redis_ZADD_simple [of "ss_redis s" ?k "foldl zset_add [] (concat added)"] by (auto simp: job_ok_def split: if_splits)
  have z: "zset_at b v' ?s = (if v' = v then Some (foldl zset_add [] (concat (added @ [part])), None) else zset_at b v' s)"
    and a: "active_at b ?s = active_at b s" for v' by (simp_all add: r)
  obtain n where n: "n \<le> MaxInt64" "bucket_ok b n (ss_redis s)" "\<forall>v. ss_drawn s (b, v) \<noteq> None \<longleftrightarrow> 1 \<le> v \<and> v \<le> n"
    "\<forall>v. active_at b s = Some (itoa v, None) \<longrightarrow> zset_at b v s = whole (the (ss_drawn s (b, v))) None"
    by (rule snap_inv_bucket [OF assms(1) b], rule that)
  show ?thesis
  proof (rule snap_inv_step [OF assms(1), of b _ p "Listing b accounts v (added @ [part]) rest"])
    show "\<And>b'. plain_bucket b' \<Longrightarrow> b' \<noteq> b \<Longrightarrow> bucket_view ?s b' = bucket_view s b'"
      by (rule view_other_bucket [OF b]) (auto simp: r)
    have "v \<le> n" using n(3) job by (auto simp: job_ok_def)
    then have "bucket_ok b n (ss_redis ?s)" using n(2) by (auto simp: bucket_ok_def r)
    moreover have "active_at b ?s = Some (itoa v', None) \<Longrightarrow> zset_at b v' ?s = whole (the (ss_drawn ?s (b, v'))) None" for v'
      using n(4) job unfolding z a by (auto simp: job_ok_def)
    ultimately show "bucket_inv ?s b" unfolding bucket_inv_def using n(1,3) by (intro exI [of _ n]) simp
    show "writer_ok ?s (Listing b accounts v (added @ [part]) rest)"
      using job ch z [of v] a by (simp add: job_ok_def)
    fix q v'
    assume "q \<noteq> p" "writer_job (ss_writers s q) = Some (b, v')"
    moreover have "writer_job (ss_writers s p) = Some (b, v)" using assms(2) by simp
    ultimately have "v' \<noteq> v" using assms(1) unfolding snap_inv_def jobs_apart_def by metis
    then show "zset_at b v' ?s = zset_at b v' s \<and> ss_drawn ?s (b, v') = ss_drawn s (b, v')
      \<and> (active_at b ?s = active_at b s \<or> (\<exists>u. u \<noteq> v' \<and> active_at b ?s = Some (itoa u, None)))"
      using z a by simp
  qed (use assms(2) in simp_all)
qed

lemma finished_set:
  assumes "writer_ok s (Listing b accounts v added [])"
  shows "zset_at b v s = whole accounts None"
proof -
  obtain k where k: "0 < k" "added = chunks k (snapshot_members accounts)" using assms by auto
  have "added = [] \<longleftrightarrow> accounts = []" using k chunks_nonempty [of "snapshot_members accounts" k] by (auto simp: chunks.simps)
  then show ?thesis using assms k by (simp add: job_ok_def whole_def snapshot_zset_of_def concat_chunks)
qed

text \<open>What activating does to the bucket: the new version is dropped when it is behind, else it becomes the
  active one and the sorted set it replaces is given its grace period.\<close>

lemma activate_effect:
  assumes "snap_inv s" "ss_writers s p = Listing b accounts v added []" "activate (ss_now s) b v (ss_redis s) = (res, r)"
  obtains (dropped) cur where "active_at b s = Some (itoa cur, None)" "v < cur" "r = redis_DEL (schedulerSnapshotKey b (itoa v)) (ss_redis s)"
  | (replaced) cur where "active_at b s = None \<or> active_at b s = Some (itoa cur, None)" "cur < v" "r = activated (ss_now s) b v (ss_redis s)"
proof -
  have w: "writer_ok s (Listing b accounts v added [])" using assms(1,2) unfolding snap_inv_def by metis
  then have b: "plain_bucket b" and d: "ss_drawn s (b, v) \<noteq> None" and na: "active_at b s \<noteq> Some (itoa v, None)"
    by (auto simp: job_ok_def)
  obtain n where n: "n \<le> MaxInt64" "\<forall>v. ss_drawn s (b, v) \<noteq> None \<longleftrightarrow> 1 \<le> v \<and> v \<le> n"
    "active_at b s = None \<or> (\<exists>v. 1 \<le> v \<and> v \<le> n \<and> active_at b s = Some (itoa v, None))"
    by (rule snap_inv_bucket [OF assms(1) b], rule that)
  show thesis
  proof (cases "active_at b s")
    case None
    then show thesis using activate_cases [of "ss_redis s" b 1 v] n(1) n(2) [rule_format, of v] d assms(3) replaced [of 0] by simp
  next
    case (Some x)
    then obtain cur where cur: "1 \<le> cur" "cur \<le> n" "active_at b s = Some (itoa cur, None)" using n(3) by auto
    then have "cur \<noteq> v" using na by auto
    then show thesis using activate_cases [of "ss_redis s" b cur v] n(1) n(2) [rule_format, of v] cur d assms(3) dropped [of cur] replaced [of cur]
      by (cases "v < cur") auto
  qed
qed

lemma snap_inv_dropped:
  assumes "snap_inv s" "ss_writers s p = Listing b accounts v added []" "active_at b s = Some (itoa cur, None)" "v < cur"
  shows "snap_inv (at_writer p WIdle (redis_DEL (schedulerSnapshotKey b (itoa v)) (ss_redis s)) s)" (is "snap_inv ?s")
proof -
  let ?k = "schedulerSnapshotKey b (itoa v)"
  have job: "plain_bucket b" using snap_inv_job [OF assms(1), of p b v] assms(2) by simp
  have z: "zset_at b v' ?s = (if v' = v then None else zset_at b v' s)"
    and a: "active_at b' ?s = active_at b' s" "sr_strings (ss_redis ?s) (version_key b') = sr_strings (ss_redis s) (version_key b')" for b' v'
    using snapshot_not_bucket [symmetric] by (simp_all add: redis_DEL_def)
  obtain n where n: "n \<le> MaxInt64" "bucket_ok b n (ss_redis s)" "\<forall>v. ss_drawn s (b, v) \<noteq> None \<longleftrightarrow> 1 \<le> v \<and> v \<le> n"
    "\<forall>v. active_at b s = Some (itoa v, None) \<longrightarrow> zset_at b v s = whole (the (ss_drawn s (b, v))) None"
    by (rule snap_inv_bucket [OF assms(1) job], rule that)
  show ?thesis
  proof (rule snap_inv_step [OF assms(1), of b _ p WIdle])
    fix b'
    assume "plain_bucket b'" "b' \<noteq> b"
    then have "schedulerSnapshotKey b' (itoa v') \<noteq> ?k" for v' using snapshot_key_inject2 job by blast
    then show "bucket_view ?s b' = bucket_view s b'" using a by (simp add: bucket_view_def redis_DEL_def)
  next
    have "bucket_ok b n (ss_redis ?s)" using n(2) z a unfolding bucket_ok_def by simp
    moreover have "active_at b ?s = Some (itoa v', None) \<longrightarrow> zset_at b v' ?s = whole (the (ss_drawn ?s (b, v'))) None" for v'
      using n(4) assms(3,4) unfolding z a by auto
    ultimately show "bucket_inv ?s b" unfolding bucket_inv_def using n(1,3) by (intro exI [of _ n]) simp
  next
    fix q v'
    assume "q \<noteq> p" "writer_job (ss_writers s q) = Some (b, v')"
    moreover have "writer_job (ss_writers s p) = Some (b, v)" using assms(2) by simp
    ultimately have "v' \<noteq> v" using assms(1) unfolding snap_inv_def jobs_apart_def by metis
    then show "zset_at b v' ?s = zset_at b v' s \<and> ss_drawn ?s (b, v') = ss_drawn s (b, v')
      \<and> (active_at b ?s = active_at b s \<or> (\<exists>u. u \<noteq> v' \<and> active_at b ?s = Some (itoa u, None)))"
      using z a by simp
  qed simp_all
qed

lemma activated_sets:
  assumes "active_at b s = None \<or> active_at b s = Some (itoa cur, None)" "cur \<noteq> v"
  shows "sr_zsets (activated now b v (ss_redis s)) k =
    (if k = schedulerSnapshotKey b (itoa cur) \<and> active_at b s \<noteq> None
     then (case sr_zsets (ss_redis s) k of None \<Rightarrow> None | Some (zs, ex) \<Rightarrow> Some (zs, if live now ex then Some (now + 60 * Second) else ex))
     else sr_zsets (ss_redis s) k)"
  using assms by (auto simp: activated_fields redis_GET_def live_def split: option.splits)

lemma snap_inv_replaced:
  assumes "snap_inv s" "ss_writers s p = Listing b accounts v added []"
    and "active_at b s = None \<or> active_at b s = Some (itoa cur, None)" "cur < v"
  shows "snap_inv (at_writer p WIdle (activated (ss_now s) b v (ss_redis s)) s)" (is "snap_inv ?s")
proof -
  have w: "writer_ok s (Listing b accounts v added [])" using assms(1,2) unfolding snap_inv_def by metis
  have job: "plain_bucket b" "ss_drawn s (b, v) = Some accounts" using w by (auto simp: job_ok_def)
  have z: "zset_at b v' ?s = zset_at b v' s" if "\<not> (v' = cur \<and> active_at b s \<noteq> None)" for v'
    using activated_sets [OF assms(3), of v "ss_now s" "schedulerSnapshotKey b (itoa v')"] assms(4) that by (cases "v' = cur") auto
  have a: "active_at b ?s = Some (itoa v, None)" by (simp add: activated_fields)
  obtain n where n: "n \<le> MaxInt64" "bucket_ok b n (ss_redis s)" "\<forall>v. ss_drawn s (b, v) \<noteq> None \<longleftrightarrow> 1 \<le> v \<and> v \<le> n"
    "0 \<le> n" "\<forall>v. n < v \<longrightarrow> zset_at b v s = None" "\<forall>v. active_at b s = Some (itoa v, None) \<longrightarrow> 1 \<le> v \<and> v \<le> n"
    by (rule snap_inv_bucket [OF assms(1) job(1)], rule that)
  have v: "1 \<le> v" "v \<le> n" using n(3) job(2) by auto
  show ?thesis
  proof (rule snap_inv_step [OF assms(1), of b _ p WIdle])
    show "\<And>b'. plain_bucket b' \<Longrightarrow> b' \<noteq> b \<Longrightarrow> bucket_view ?s b' = bucket_view s b'"
      by (rule view_other_bucket [OF job(1)]) (use activated_sets [OF assms(3)] assms(4) in \<open>auto simp: activated_fields(1)\<close>)
  next
    have "zset_at b v' ?s = None" if "n < v'" for v' using n(5,6) z [of v'] assms(3) that by force
    then have "bucket_ok b n (ss_redis ?s)" using n(2) v by (auto simp: bucket_ok_def activated_fields(1))
    moreover have "zset_at b v ?s = whole accounts None" using finished_set [OF w] z [of v] assms(4) by simp
    ultimately show "bucket_inv ?s b" unfolding bucket_inv_def using n(1,3) a job(2) by (intro exI [of _ n]) simp
  next
    fix q v'
    assume q: "q \<noteq> p" "writer_job (ss_writers s q) = Some (b, v')"
    moreover have "writer_job (ss_writers s p) = Some (b, v)" using assms(2) by simp
    ultimately have "v' \<noteq> v" using assms(1) unfolding snap_inv_def jobs_apart_def by metis
    moreover have "active_at b s \<noteq> Some (itoa v', None)" using snap_inv_job [OF assms(1) q(2)] by blast
    ultimately show "zset_at b v' ?s = zset_at b v' s \<and> ss_drawn ?s (b, v') = ss_drawn s (b, v')
      \<and> (active_at b ?s = active_at b s \<or> (\<exists>u. u \<noteq> v' \<and> active_at b ?s = Some (itoa u, None)))"
      using z [of v'] a assms(3) by auto
  qed simp_all
qed

lemma snap_inv_preserved: "snap_step s s' \<Longrightarrow> snap_inv s \<Longrightarrow> snap_inv s'"
proof (induction rule: snap_step.induct)
  case (tick s t)
  show ?case
    by (rule snap_inv_same [OF tick(2), of _ 0 "ss_writers s 0"])
      (use tick(2) in \<open>auto simp: view_update_clock snap_inv_def intro: writer_ok_cong [OF view_update_clock]\<close>)
next
  case (draw s p b v r accounts)
  then show ?case using snap_inv_draw by blast
next
  case (payloads s r)
  show ?case
    by (rule snap_inv_same [OF payloads(2), of _ 0 "ss_writers s 0"])
      (use payloads in \<open>auto simp: view_frame snap_inv_def intro: writer_ok_cong [OF view_frame]\<close>)
next
  case (begin_list s p b accounts v k)
  have w: "writer_ok s (Versioned b accounts v)" using begin_list(1,3) unfolding snap_inv_def by metis
  let ?w = "Listing b accounts v [] (chunks k (snapshot_members accounts))"
  have "writer_ok s ?w" using w begin_list(2) by auto
  then have "writer_ok (at_writer p ?w (ss_redis s) s) ?w" by (rule writer_ok_cong [OF view_update_writer(1)])
  then show ?case
    by (intro snap_inv_same [OF begin_list(3), of _ p ?w]) (simp_all add: view_update_writer begin_list(1) del: writer_ok.simps)
next
  case (add s p b accounts v added part rest)
  then show ?case by (intro snap_inv_add)
next
  case (activate s p b accounts v added res r)
  show ?case
    by (rule activate_effect [OF activate(3,1,2)])
      (use snap_inv_dropped [OF activate(3,1)] snap_inv_replaced [OF activate(3,1)] in blast)+
next
  case (quit s p)
  show ?case by (rule snap_inv_same [OF quit, of _ p WIdle]) (simp_all add: view_update_writer)
qed

lemma snap_inv_reachable: "snap_step\<^sup>*\<^sup>* s s' \<Longrightarrow> snap_inv s \<Longrightarrow> snap_inv s'"
  by (induction rule: rtranclp_induct) (auto intro: snap_inv_preserved)

subsection \<open>What readers see\<close>

lemma active_key_only:
  assumes "plain_bucket b" "plain_bucket b'" "b' \<noteq> b"
  shows "active_at b (at_writer p w (activated now b' v (ss_redis s)) s) = active_at b s"
  using assms bucket_key_inject by (simp add: activated_fields)

lemma active_moves_on:
  assumes "snap_step s s'" "snap_inv s" "plain_bucket b" "active_at b s = Some (itoa v, None)"
  shows "\<exists>v' \<ge> v. active_at b s' = Some (itoa v', None)"
  using assms
proof (induction rule: snap_step.induct)
  case (draw s p b' v' r accounts)
  obtain n where "n \<le> MaxInt64" "bucket_ok b' n (ss_redis s)" by (rule snap_inv_bucket [OF draw(4,2)])
  then have "r = redis_SET (version_key b') (itoa (n + 1)) None (ss_redis s)" using incr_result draw(3) by blast
  then show ?case using draw(6) by (auto simp: redis_SET_def)
next
  case (payloads s r)
  then show ?case by (auto simp: same_frame_def)
next
  case (add s p b' accounts v' added part rest)
  then show ?case by (auto simp: redis_ZADD_def Let_def)
next
  case (activate s p b' accounts v' added res r)
  have b': "plain_bucket b'" using snap_inv_job [OF activate(3), of p] activate(1) by simp
  show ?case
  proof (rule activate_effect [OF activate(3,1,2)])
    assume "r = redis_DEL (schedulerSnapshotKey b' (itoa v')) (ss_redis s)"
    then show ?thesis using activate(5) snapshot_not_bucket [symmetric] by (auto simp: redis_DEL_def)
  next
    fix cur
    assume cur: "active_at b' s = None \<or> active_at b' s = Some (itoa cur, None)" "cur < v'" "r = activated (ss_now s) b' v' (ss_redis s)"
    show ?thesis
    proof (cases "b' = b")
      case True
      then show ?thesis using cur activate(5) by (auto simp: activated_fields)
    next
      case False
      then show ?thesis using active_key_only [OF activate(4) b' False] cur(3) activate(5) by auto
    qed
  qed
qed auto

lemma active_moves_on_run:
  assumes "snap_step\<^sup>*\<^sup>* s s'" "snap_inv s" "plain_bucket b" "active_at b s = Some (itoa v, None)"
  shows "\<exists>v' \<ge> v. active_at b s' = Some (itoa v', None)"
  using assms(1)
proof (induction rule: rtranclp_induct)
  case base
  then show ?case using assms(4) by blast
next
  case (step s1 s2)
  then obtain v1 where "v \<le> v1" "active_at b s1 = Some (itoa v1, None)" by blast
  moreover from active_moves_on [OF step(2) snap_inv_reachable [OF step(1) assms(2)] assms(3) this(2)]
  obtain v2 where "v1 \<le> v2" "active_at b s2 = Some (itoa v2, None)" by blast
  ultimately show ?case by (intro exI [of _ v2]) simp
qed

lemma active_read:
  assumes "snap_inv s" "plain_bucket b" "redis_GET (ss_now s) (active_key b) (ss_redis s) = Some version"
  obtains v where "version = itoa v" "active_at b s = Some (itoa v, None)" "1 \<le> v" "v \<le> MaxInt64"
    "ss_drawn s (b, v) \<noteq> None" "zset_at b v s = whole (the (ss_drawn s (b, v))) None"
proof -
  obtain n where n: "n \<le> MaxInt64" "\<forall>v. ss_drawn s (b, v) \<noteq> None \<longleftrightarrow> 1 \<le> v \<and> v \<le> n"
    "\<forall>v. active_at b s = Some (itoa v, None) \<longrightarrow> zset_at b v s = whole (the (ss_drawn s (b, v))) None"
    "active_at b s = None \<or> (\<exists>v. 1 \<le> v \<and> v \<le> n \<and> active_at b s = Some (itoa v, None))"
    by (rule snap_inv_bucket [OF assms(1,2)], rule that)
  then obtain v where v: "1 \<le> v" "v \<le> n" "active_at b s = Some (itoa v, None)" using assms(3) by (auto simp: redis_GET_def)
  moreover have "version = itoa v" using assms(3) v(3) by (simp add: redis_GET_def live_def)
  ultimately show thesis using that [of v] n(1-3) by auto
qed

text \<open>A version that was active at \<open>t0\<close> is still whole: it is active, or it expires no sooner than its grace
  period after \<open>t0\<close>.\<close>

definition kept :: "time \<Rightarrow> SchedulerBucket \<Rightarrow> int \<Rightarrow> FullAccount list \<Rightarrow> snap_sys \<Rightarrow> bool" where
  "kept t0 b v accounts s =
     (t0 \<le> ss_now s \<and> ss_drawn s (b, v) = Some accounts \<and> (\<forall>p. writer_job (ss_writers s p) \<noteq> Some (b, v))
      \<and> (if active_at b s = Some (itoa v, None) then zset_at b v s = whole accounts None
         else \<exists>ex \<ge> t0 + 60 * Second. zset_at b v s = whole accounts (Some ex)))"

lemma kept_same:
  assumes "kept t0 b v accounts s" "active_at b s' = active_at b s" "zset_at b v s' = zset_at b v s"
    and "ss_drawn s' (b, v) = ss_drawn s (b, v)" "ss_now s \<le> ss_now s'"
    and "\<And>p. writer_job (ss_writers s' p) \<noteq> Some (b, v)"
  shows "kept t0 b v accounts s'"
  using assms unfolding kept_def by (auto split: if_splits)

lemma kept_step:
  assumes "snap_step s s'" "snap_inv s" "plain_bucket b" "kept t0 b v accounts s"
  shows "kept t0 b v accounts s'"
  using assms
proof (induction rule: snap_step.induct)
  case (tick s t)
  then show ?case by (intro kept_same [OF tick(4)]) (simp_all add: kept_def)
next
  case (draw s p b' v' r accounts')
  obtain n where n: "n \<le> MaxInt64" "bucket_ok b' n (ss_redis s)" "\<forall>v. ss_drawn s (b', v) \<noteq> None \<longleftrightarrow> 1 \<le> v \<and> v \<le> n"
    by (rule snap_inv_bucket [OF draw(4,2)], rule that)
  have r: "v' = n + 1" "r = redis_SET (version_key b') (itoa (n + 1)) None (ss_redis s)" using incr_result [OF n(2,1) draw(3)] by auto
  have "ss_drawn s (b', v') = None" using n(3) [rule_format, of v'] r(1) by simp
  moreover have "ss_drawn s (b, v) \<noteq> None" using draw(6) by (simp add: kept_def)
  ultimately have "(b, v) \<noteq> (b', v')" by auto
  then show ?case using draw(6) by (intro kept_same [OF draw(6)]) (auto simp: r redis_SET_def kept_def)
next
  case (payloads s r)
  then show ?case by (intro kept_same [OF payloads(4)]) (auto simp: same_frame_def kept_def snapshot_not_side)
next
  case (begin_list s p b' accounts' v' k)
  have "writer_job (ss_writers s p) \<noteq> Some (b, v)" using begin_list(5) unfolding kept_def by blast
  then show ?case using begin_list(1,5) by (intro kept_same [OF begin_list(5)]) (auto simp: kept_def)
next
  case (add s p b' accounts' v' added part rest)
  have "writer_job (ss_writers s p) \<noteq> Some (b, v)" using add(4) unfolding kept_def by blast
  then have ne: "(b', v') \<noteq> (b, v)" using add(1) by simp
  moreover have "plain_bucket b'" using snap_inv_job [OF add(2), of p] add(1) by simp
  ultimately have "schedulerSnapshotKey b (itoa v) \<noteq> schedulerSnapshotKey b' (itoa v')" using snapshot_key_inject2 [OF add(3)] by auto
  then show ?case using add(4) ne by (intro kept_same [OF add(4)]) (auto simp: redis_ZADD_def Let_def kept_def)
next
  case (activate s p b' accounts' v' added res r)
  have "writer_job (ss_writers s p) \<noteq> Some (b, v)" using activate(5) unfolding kept_def by blast
  then have ne: "(b', v') \<noteq> (b, v)" using activate(1) by simp
  have b': "plain_bucket b'" using snap_inv_job [OF activate(3), of p] activate(1) by simp
  have key: "schedulerSnapshotKey b (itoa v) \<noteq> schedulerSnapshotKey b' (itoa v')" using snapshot_key_inject2 [OF activate(4) b'] ne by auto
  show ?case
  proof (rule activate_effect [OF activate(3,1,2)])
    assume "r = redis_DEL (schedulerSnapshotKey b' (itoa v')) (ss_redis s)"
    then show ?thesis using activate(5) snapshot_not_bucket [symmetric] key
      by (intro kept_same [OF activate(5)]) (auto simp: redis_DEL_def kept_def)
  next
    fix cur
    assume cur: "active_at b' s = None \<or> active_at b' s = Some (itoa cur, None)" "cur < v'" "r = activated (ss_now s) b' v' (ss_redis s)"
    have z: "sr_zsets r k =
      (if k = schedulerSnapshotKey b' (itoa cur) \<and> active_at b' s \<noteq> None
       then (case sr_zsets (ss_redis s) k of None \<Rightarrow> None | Some (zs, ex) \<Rightarrow> Some (zs, if live (ss_now s) ex then Some (ss_now s + 60 * Second) else ex))
       else sr_zsets (ss_redis s) k)" for k
      using activated_sets [OF cur(1)] cur(2) unfolding cur(3) by simp
    show ?thesis
    proof (cases "b' = b \<and> cur = v \<and> active_at b s \<noteq> None")
      case True
      then have act: "active_at b s = Some (itoa v, None)" using cur(1) by auto
      have "sr_zsets r (schedulerSnapshotKey b (itoa v)) = whole accounts (Some (ss_now s + 60 * Second))"
        using activate(5) act True z [of "schedulerSnapshotKey b (itoa v)"] by (simp add: kept_def whole_def live_def)
      moreover have "sr_strings r (active_key b) = Some (itoa v', None)" using True cur(3) by (simp add: activated_fields)
      moreover have "t0 + 60 * Second \<le> ss_now s + 60 * Second" using activate(5) by (simp add: kept_def)
      ultimately show ?thesis
        using activate(5) ne True unfolding kept_def by (auto intro!: exI [of _ "ss_now s + 60 * Second"])
    next
      case False
      have "sr_zsets r (schedulerSnapshotKey b (itoa v)) = sr_zsets (ss_redis s) (schedulerSnapshotKey b (itoa v))"
        using z [of "schedulerSnapshotKey b (itoa v)"] False snapshot_key_inject2 [OF activate(4) b'] by auto
      moreover have "sr_strings r (active_key b) = (if b' = b then Some (itoa v', None) else active_at b s)"
        using cur(3) bucket_key_inject [OF activate(4) b'] by (auto simp: activated_fields)
      ultimately show ?thesis using activate(5) ne False cur(1) unfolding kept_def by (auto split: if_splits)
    qed
  qed
next
  case (quit s p)
  then show ?case by (intro kept_same [OF quit(3)]) (auto simp: kept_def)
qed


lemma kept_run:
  assumes "snap_step\<^sup>*\<^sup>* s s'" "snap_inv s" "plain_bucket b" "kept t0 b v accounts s"
  shows "kept t0 b v accounts s'"
  using assms(1)
proof (induction rule: rtranclp_induct)
  case (step s1 s2)
  then show ?case using kept_step [OF step(2) snap_inv_reachable [OF step(1) assms(2)] assms(3)] by blast
qed (rule assms(4))

text \<open>whatever calls of \<open>SetSnapshot\<close> run side by side, stop halfway or overtake each other, the version
  a bucket's readers are pointed to never goes back.\<close>

lemma active_version_never_goes_back:
  assumes "snap_step\<^sup>*\<^sup>* (initial_snap t) s" "snap_step\<^sup>*\<^sup>* s s'" "plain_bucket b"
    and "redis_GET (ss_now s) (schedulerBucketKey schedulerActivePrefix b) (ss_redis s) = Some version"
  shows "\<exists>v v'. version = itoa v \<and> v \<le> v'
    \<and> redis_GET (ss_now s') (schedulerBucketKey schedulerActivePrefix b) (ss_redis s') = Some (itoa v')"
proof -
  have inv: "snap_inv s" by (rule snap_inv_reachable [OF assms(1) snap_inv_initial])
  obtain v where v: "version = itoa v" "active_at b s = Some (itoa v, None)" by (rule active_read [OF inv assms(3,4)])
  obtain v' where v': "v \<le> v'" "active_at b s' = Some (itoa v', None)"
    using active_moves_on_run [OF assms(2) inv assms(3) v(2)] by blast
  then have "redis_GET (ss_now s') (active_key b) (ss_redis s') = Some (itoa v')" by (simp add: redis_GET_def live_def)
  with v(1) v'(1) show ?thesis by blast
qed

text \<open>C23: a reader that has read the active version and lists its members within the grace period finds all
  accounts of the one call that wrote this version, in their order, though other calls may have replaced it.\<close>

theorem reader_sees_whole_snapshot:
  assumes "snap_step\<^sup>*\<^sup>* (initial_snap t) s" "snap_step\<^sup>*\<^sup>* s s'" "plain_bucket b"
    and "redis_GET (ss_now s) (schedulerBucketKey schedulerActivePrefix b) (ss_redis s) = Some version"
    and "ss_now s' < ss_now s + snapshotGraceTTLSeconds * Second"
  shows "\<exists>v accounts. version = itoa v \<and> ss_drawn s (b, v) = Some accounts
    \<and> redis_zset (ss_now s') (schedulerSnapshotKey b version) (ss_redis s') = foldl zset_add [] (snapshot_members accounts)
    \<and> (distinct (map fa_ID accounts) \<longrightarrow>
         redis_ZRANGE (ss_now s') (schedulerSnapshotKey b version) (ss_redis s') = map (\<lambda>a. itoa (fa_ID a)) accounts)"
proof -
  have inv: "snap_inv s" by (rule snap_inv_reachable [OF assms(1) snap_inv_initial])
  obtain v where v: "version = itoa v" "active_at b s = Some (itoa v, None)" "ss_drawn s (b, v) \<noteq> None"
    "zset_at b v s = whole (the (ss_drawn s (b, v))) None"
    by (rule active_read [OF inv assms(3,4)])
  then obtain accounts where d: "ss_drawn s (b, v) = Some accounts" by auto
  have "writer_job (ss_writers s p) \<noteq> Some (b, v)" for p using snap_inv_job [OF inv, of p b v] v(2) by blast
  then have "kept (ss_now s) b v accounts s" using v(2,4) d by (simp add: kept_def)
  then have "kept (ss_now s) b v accounts s'" by (rule kept_run [OF assms(2) inv assms(3)])
  then obtain ex where "zset_at b v s' = whole accounts ex" "live (ss_now s') ex"
    using assms(5) unfolding kept_def snapshotGraceTTLSeconds_def by (fastforce simp: live_def split: if_splits)
  then have z: "redis_zset (ss_now s') (schedulerSnapshotKey b version) (ss_redis s') = snapshot_zset_of accounts"
    by (simp add: redis_zset_def v(1) whole_def) (simp add: snapshot_zset_of_def snapshot_members_def)
  then show ?thesis using d v(1) snapshot_order [of accounts] by (auto simp: redis_ZRANGE_def snapshot_zset_of_def)
qed

lemma add_all:
  "ss_writers s p = Listing b accounts v added rest \<Longrightarrow>
   \<exists>s'. snap_step\<^sup>*\<^sup>* s s' \<and> ss_writers s' p = Listing b accounts v (added @ rest) [] \<and> ss_now s' = ss_now s
     \<and> ss_drawn s' = ss_drawn s \<and> sr_strings (ss_redis s') = sr_strings (ss_redis s)"
proof (induction rest arbitrary: s added)
  case Nil
  then show ?case by (intro exI [of _ s]) simp
next
  case (Cons part rest)
  let ?s = "at_writer p (Listing b accounts v (added @ [part]) rest)
      (redis_ZADD (ss_now s) (schedulerSnapshotKey b (itoa v)) part (ss_redis s)) s"
  have "snap_step s ?s" by (rule snap_step.add [OF Cons(2)])
  moreover obtain s' where "snap_step\<^sup>*\<^sup>* ?s s'" "ss_writers s' p = Listing b accounts v ((added @ [part]) @ rest) []"
    "ss_now s' = ss_now ?s" "ss_drawn s' = ss_drawn ?s" "sr_strings (ss_redis s') = sr_strings (ss_redis ?s)"
    using Cons(1) [of ?s "added @ [part]"] by auto
  ultimately show ?case
    by (intro exI [of _ s']) (auto simp: redis_ZADD_def Let_def intro: converse_rtranclp_into_rtranclp)
qed

text \<open>An idle writer can publish accounts, and then they are the active version.\<close>

lemma publish:
  assumes "snap_inv s" "ss_writers s p = WIdle" "plain_bucket b" "bucket_ok b n (ss_redis s)" "n < MaxInt64"
  shows "\<exists>s'. snap_step\<^sup>*\<^sup>* s s' \<and> active_at b s' = Some (itoa (n + 1), None) \<and> ss_drawn s' = (ss_drawn s)((b, n + 1) \<mapsto> accounts)
    \<and> ss_now s' = ss_now s \<and> ss_writers s' p = WIdle \<and> bucket_ok b (n + 1) (ss_redis s')"
proof -
  let ?r1 = "redis_SET (version_key b) (itoa (n + 1)) None (ss_redis s)"
  have "redis_INCR (ss_now s) (version_key b) (ss_redis s) = (Inr (n + 1), ?r1)"
    using assms(4,5) by (intro incr_version) (auto simp: bucket_ok_def)
  from snap_step.draw [OF assms(2,3) this] obtain s1 where s1: "snap_step s s1" "ss_writers s1 p = Versioned b accounts (n + 1)"
    "ss_drawn s1 = (ss_drawn s)((b, n + 1) \<mapsto> accounts)" "ss_now s1 = ss_now s" "active_at b s1 = active_at b s"
    by (force simp: redis_SET_def)
  from snap_step.begin_list [OF s1(2), of 1] obtain s2 where s2: "snap_step s1 s2"
    "ss_writers s2 p = Listing b accounts (n + 1) [] (chunks 1 (snapshot_members accounts))" "ss_drawn s2 = ss_drawn s1"
    "ss_now s2 = ss_now s1" "active_at b s2 = active_at b s1" by force
  from add_all [OF s2(2)] obtain s3 added where s3: "snap_step\<^sup>*\<^sup>* s2 s3" "ss_writers s3 p = Listing b accounts (n + 1) added []"
    "ss_drawn s3 = ss_drawn s2" "ss_now s3 = ss_now s2" "active_at b s3 = active_at b s2" by auto
  have run: "snap_step\<^sup>*\<^sup>* s s3" using s1(1) s2(1) s3(1) by (meson converse_rtranclp_into_rtranclp)
  then have inv: "snap_inv s3" using snap_inv_reachable assms(1) by blast
  have old: "active_at b s3 = None \<or> (\<exists>v. 1 \<le> v \<and> v \<le> n \<and> active_at b s3 = Some (itoa v, None))"
    using assms(4) s1(5) s2(5) s3(5) by (simp add: bucket_ok_def)
  obtain res r where act: "activate (ss_now s3) b (n + 1) (ss_redis s3) = (res, r)" by fastforce
  let ?s = "at_writer p WIdle r s3"
  have step: "snap_step s3 ?s" by (rule snap_step.activate [OF s3(2) act])
  have a: "active_at b ?s = Some (itoa (n + 1), None)"
    by (rule activate_effect [OF inv s3(2) act]) (use old in \<open>auto simp: activated_fields\<close>)
  have "snap_inv ?s" using snap_inv_preserved [OF step inv] .
  then obtain m where m: "bucket_ok b m (ss_redis ?s)" "\<forall>v. ss_drawn ?s (b, v) \<noteq> None \<longleftrightarrow> 1 \<le> v \<and> v \<le> m"
    by (rule snap_inv_bucket [OF _ assms(3)])
  obtain m0 where m0: "bucket_ok b m0 (ss_redis s)" "\<forall>v. ss_drawn s (b, v) \<noteq> None \<longleftrightarrow> 1 \<le> v \<and> v \<le> m0"
    by (rule snap_inv_bucket [OF assms(1,3)])
  have "m0 = n" using m0(1) assms(4) by (auto simp: bucket_ok_def split: if_splits)
  moreover have "0 \<le> n" using assms(4) by (simp add: bucket_ok_def)
  moreover have "ss_drawn ?s (b, v) \<noteq> None \<longleftrightarrow> v = n + 1 \<or> ss_drawn s (b, v) \<noteq> None" for v
    using s1(3) s2(3) s3(3) by simp
  ultimately have "1 \<le> v \<and> v \<le> m \<longleftrightarrow> 1 \<le> v \<and> v \<le> n + 1" for v
    using m(2) [rule_format, of v] m0(2) [rule_format, of v] by auto
  moreover have "0 \<le> m" using m(1) by (simp add: bucket_ok_def)
  ultimately have "m = n + 1" using \<open>0 \<le> n\<close> by (metis add_increasing2 antisym_conv le_add_same_cancel2 order_refl zero_le_one)
  then show ?thesis
    using run step a m(1) s1(3,4) s2(3,4) s3(3,4) by (intro exI [of _ ?s]) (auto intro: rtranclp.rtrancl_into_rtrancl)
qed

theorem reader_sees_whole_snapshot_witness:
  "\<exists>s s'. snap_step\<^sup>*\<^sup>* (initial_snap 0) s \<and> snap_step\<^sup>*\<^sup>* s s'
     \<and> redis_GET (ss_now s) (schedulerBucketKey schedulerActivePrefix sample_bucket) (ss_redis s) = Some ''1''
     \<and> redis_GET (ss_now s') (schedulerBucketKey schedulerActivePrefix sample_bucket) (ss_redis s') = Some ''2''
     \<and> ss_now s' = 59 * Second
     \<and> redis_ZRANGE (ss_now s') (schedulerSnapshotKey sample_bucket ''1'') (ss_redis s') = [''7'']"
proof -
  have p: "plain_bucket sample_bucket"
    by (simp add: plain_bucket_def sample_bucket_def PlatformAnthropic_def SchedulerModeMixed_def)
  have one: "itoa 1 = ''1''" "itoa 2 = ''2''" "itoa 7 = ''7''" by code_simp+
  have i0: "ss_writers (initial_snap 0) 0 = WIdle" "bucket_ok sample_bucket 0 (ss_redis (initial_snap 0))" "ss_now (initial_snap 0) = 0"
    using empty_bucket_ok by (simp_all add: initial_snap_def)
  obtain s where s: "snap_step\<^sup>*\<^sup>* (initial_snap 0) s" "active_at sample_bucket s = Some (itoa (0 + 1), None)"
    "ss_drawn s = (ss_drawn (initial_snap 0))((sample_bucket, 0 + 1) \<mapsto> [spent_account])" "ss_now s = 0" "ss_writers s 0 = WIdle"
    "bucket_ok sample_bucket (0 + 1) (ss_redis s)"
    using publish [OF snap_inv_initial i0(1) p i0(2), of "[spent_account]"] i0(3) by auto
  have "snap_inv s" by (rule snap_inv_reachable [OF s(1) snap_inv_initial])
  from publish [OF this s(5) p s(6), of "[]"] obtain s1 where s1: "snap_step\<^sup>*\<^sup>* s s1"
    "active_at sample_bucket s1 = Some (itoa 2, None)" "ss_now s1 = 0" using s(4) by auto
  let ?s = "s1\<lparr>ss_now := 59 * Second\<rparr>"
  have run: "snap_step\<^sup>*\<^sup>* s ?s" using s1(1) snap_step.tick [of s1 "59 * Second"] s1(3) by (simp add: rtranclp.rtrancl_into_rtrancl)
  have g: "redis_GET (ss_now s) (active_key sample_bucket) (ss_redis s) = Some ''1''" using s(2) one by (simp add: redis_GET_def live_def)
  obtain v accounts where v: "''1'' = itoa v" "ss_drawn s (sample_bucket, v) = Some accounts" "distinct (map fa_ID accounts) \<longrightarrow>
      redis_ZRANGE (ss_now ?s) (schedulerSnapshotKey sample_bucket ''1'') (ss_redis ?s) = map (\<lambda>a. itoa (fa_ID a)) accounts"
    using reader_sees_whole_snapshot [OF s(1) run p g] s(4) by (auto simp: snapshotGraceTTLSeconds_def)
  have "v = 1" using v(1) one(1) by (metis itoa_inject)
  then have "accounts = [spent_account]" using v(2) s(3) by simp
  then have "redis_ZRANGE (ss_now ?s) (schedulerSnapshotKey sample_bucket ''1'') (ss_redis ?s) = [''7'']"
    using v(3) one(3) by (simp add: spent_account_def)
  moreover have "redis_GET (ss_now ?s) (active_key sample_bucket) (ss_redis ?s) = Some ''2''"
    using s1(2) one by (simp add: redis_GET_def live_def)
  moreover have "ss_now ?s = 59 * Second" by simp
  ultimately show ?thesis using g s(1) run by blast
qed


end
