(* ===== verification/Account_Repo.thy ===== *)
theory Account_Repo
  imports Scheduler_Cache Scheduler_Outbox
begin

text \<open>
  The accounts in the database as the scheduler loads them, and the operations that change their state
  (\<open>repository/account_repo.go\<close>).

  The tables are the lists of the accounts that are not deleted and of their links to groups. A row of
  the accounts is a \<open>FullAccount\<close> without groups; these are joined when it is loaded. Where a query leaves
  the order of equal rows open, they come in table order. An operation updates the database, enqueues an
  event for the scheduler and, for some changes, writes the account's copy in the cache; a failure of the
  last two is only logged. The JSON encoder is a field of \<open>repo_env\<close>, as are the failures of the calls.
\<close>

section \<open>Loading accounts\<close>

record account_db =
  db_accounts :: "FullAccount list"
  db_links :: "AccountGroup list"

definition account_links :: "account_db \<Rightarrow> int \<Rightarrow> AccountGroup list" where
  "account_links db i = sort_key ag_Priority (filter (\<lambda>l. ag_AccountID l = i) (db_links db))"

definition service_account :: "account_db \<Rightarrow> FullAccount \<Rightarrow> FullAccount" where
  "service_account db a =
     (let ags = (if 0 < fa_ID a then account_links db (fa_ID a) else [])
      in a\<lparr>fa_AccountGroups := ags, fa_GroupIDs := map ag_GroupID ags\<rparr>)"

definition accountsToService :: "account_db \<Rightarrow> FullAccount list \<Rightarrow> FullAccount list" where
  "accountsToService db rows = map (service_account db) rows"

definition ent_not_found :: go_error where "ent_not_found = OtherError ''ent: account not found'' None"

definition GetByID :: "go_error option \<Rightarrow> account_db \<Rightarrow> int \<Rightarrow> go_error + FullAccount" where
  "GetByID fault db i =
     (case fault of Some err \<Rightarrow> Inl err
      | None \<Rightarrow>
          (case filter (\<lambda>a. fa_ID a = i) (db_accounts db) of
             [] \<Rightarrow> Inl (WithCause ErrAccountNotFound (Some ent_not_found))
           | a # _ \<Rightarrow> Inr (service_account db a)))"

definition GetByIDs :: "go_error option \<Rightarrow> account_db \<Rightarrow> int list \<Rightarrow> go_error + FullAccount list" where
  "GetByIDs fault db ids =
     (let uniqueIDs = add_positive [] ids
      in if uniqueIDs = [] then Inr []
         else
           (case fault of Some err \<Rightarrow> Inl err
            | None \<Rightarrow>
                Inr (List.map_filter
                       (\<lambda>i. map_option (service_account db) (List.find (\<lambda>a. fa_ID a = i) (db_accounts db)))
                       uniqueIDs)))"

definition tempUnschedulablePredicate :: "time \<Rightarrow> FullAccount \<Rightarrow> bool" where
  "tempUnschedulablePredicate now a =
     (case fa_TempUnschedulableUntil a of None \<Rightarrow> True | Some t \<Rightarrow> t \<le> now)"

definition notExpiredPredicate :: "time \<Rightarrow> FullAccount \<Rightarrow> bool" where
  "notExpiredPredicate now a =
     (fa_ExpiresAt a = None \<or> (case fa_ExpiresAt a of None \<Rightarrow> False | Some t \<Rightarrow> now < t) \<or> \<not> fa_AutoPauseOnExpired a)"

definition limits_over :: "time \<Rightarrow> FullAccount \<Rightarrow> bool" where
  "limits_over now a =
     ((case fa_OverloadUntil a of None \<Rightarrow> True | Some t \<Rightarrow> t \<le> now)
      \<and> (case fa_RateLimitResetAt a of None \<Rightarrow> True | Some t \<Rightarrow> t \<le> now))"

definition schedulable_row :: "time \<Rightarrow> FullAccount \<Rightarrow> bool" where
  "schedulable_row now a =
     (fa_Status a = StatusActive \<and> fa_Schedulable a \<and> tempUnschedulablePredicate now a
      \<and> notExpiredPredicate now a \<and> limits_over now a)"

definition select_accounts :: "account_db \<Rightarrow> (FullAccount \<Rightarrow> bool) \<Rightarrow> FullAccount list" where
  "select_accounts db p = accountsToService db (sort_key fa_Priority (filter p (db_accounts db)))"

definition ungrouped :: "account_db \<Rightarrow> FullAccount \<Rightarrow> bool" where
  "ungrouped db a = (\<not> list_ex (\<lambda>l. ag_AccountID l = fa_ID a) (db_links db))"

definition ListSchedulable :: "time \<Rightarrow> account_db \<Rightarrow> FullAccount list" where
  "ListSchedulable now db = select_accounts db (schedulable_row now)"

definition ListSchedulableByPlatform :: "time \<Rightarrow> account_db \<Rightarrow> string \<Rightarrow> FullAccount list" where
  "ListSchedulableByPlatform now db platform =
     select_accounts db (\<lambda>a. fa_Platform a = platform \<and> schedulable_row now a)"

definition ListSchedulableByPlatforms :: "time \<Rightarrow> account_db \<Rightarrow> string list \<Rightarrow> FullAccount list" where
  "ListSchedulableByPlatforms now db platforms =
     (if platforms = [] then []
      else select_accounts db (\<lambda>a. fa_Platform a \<in> set platforms \<and> schedulable_row now a))"

definition ListSchedulableUngroupedByPlatform :: "time \<Rightarrow> account_db \<Rightarrow> string \<Rightarrow> FullAccount list" where
  "ListSchedulableUngroupedByPlatform now db platform =
     select_accounts db (\<lambda>a. fa_Platform a = platform \<and> ungrouped db a \<and> schedulable_row now a)"

definition ListSchedulableUngroupedByPlatforms :: "time \<Rightarrow> account_db \<Rightarrow> string list \<Rightarrow> FullAccount list" where
  "ListSchedulableUngroupedByPlatforms now db platforms =
     (if platforms = [] then []
      else select_accounts db (\<lambda>a. fa_Platform a \<in> set platforms \<and> ungrouped db a \<and> schedulable_row now a))"

record accountGroupQueryOptions =
  qo_status :: string
  qo_schedulable :: bool
  qo_platforms :: "string list"

definition group_predicates :: "time \<Rightarrow> accountGroupQueryOptions \<Rightarrow> FullAccount \<Rightarrow> bool" where
  "group_predicates now opts a =
     ((qo_status opts \<noteq> '''' \<longrightarrow> fa_Status a = qo_status opts)
      \<and> (qo_platforms opts \<noteq> [] \<longrightarrow> fa_Platform a \<in> set (qo_platforms opts))
      \<and> (qo_schedulable opts \<longrightarrow> fa_Schedulable a \<and> tempUnschedulablePredicate now a
           \<and> notExpiredPredicate now a \<and> limits_over now a))"

text \<open>The accounts of the rows, each at its first occurrence.\<close>

fun first_accounts :: "int set \<Rightarrow> (AccountGroup \<times> FullAccount) list \<Rightarrow> FullAccount list" where
  "first_accounts seen [] = []"
| "first_accounts seen ((l, a) # rows) =
     (if fa_ID a \<in> seen then first_accounts seen rows else a # first_accounts (insert (fa_ID a) seen) rows)"

definition queryAccountsByGroup :: "time \<Rightarrow> account_db \<Rightarrow> int \<Rightarrow> accountGroupQueryOptions \<Rightarrow> FullAccount list" where
  "queryAccountsByGroup now db groupID opts =
     (let rows = [(l, a). l \<leftarrow> db_links db, ag_GroupID l = groupID,
                          a \<leftarrow> db_accounts db, fa_ID a = ag_AccountID l \<and> group_predicates now opts a];
          ordered = sort_key (\<lambda>(l, a). (ag_Priority l, fa_Priority a)) rows
      in accountsToService db (first_accounts {} ordered))"

definition ListSchedulableByGroupID :: "time \<Rightarrow> account_db \<Rightarrow> int \<Rightarrow> FullAccount list" where
  "ListSchedulableByGroupID now db groupID =
     queryAccountsByGroup now db groupID \<lparr>qo_status = StatusActive, qo_schedulable = True, qo_platforms = []\<rparr>"

definition ListSchedulableByGroupIDAndPlatform :: "time \<Rightarrow> account_db \<Rightarrow> int \<Rightarrow> string \<Rightarrow> FullAccount list" where
  "ListSchedulableByGroupIDAndPlatform now db groupID platform =
     queryAccountsByGroup now db groupID \<lparr>qo_status = StatusActive, qo_schedulable = True, qo_platforms = [platform]\<rparr>"

definition ListSchedulableByGroupIDAndPlatforms :: "time \<Rightarrow> account_db \<Rightarrow> int \<Rightarrow> string list \<Rightarrow> FullAccount list" where
  "ListSchedulableByGroupIDAndPlatforms now db groupID platforms =
     (if platforms = [] then []
      else queryAccountsByGroup now db groupID
             \<lparr>qo_status = StatusActive, qo_schedulable = True, qo_platforms = platforms\<rparr>)"

section \<open>Operations\<close>

record account_sys =
  as_db :: account_db
  as_outbox :: outbox
  as_redis :: sched_redis

record repo_env =
  re_now :: time
  re_update_fault :: "go_error option"
  re_read_fault :: "go_error option"
  re_enqueue_fault :: "go_error option"
  re_cache :: cache_env
  re_sha256hex :: "string \<Rightarrow> string"
  re_marshal :: "json \<Rightarrow> go_error + string"

text \<open>A failure to enqueue is logged.\<close>

definition enqueue_logged ::
  "repo_env \<Rightarrow> string \<Rightarrow> int option \<Rightarrow> json option \<Rightarrow> account_sys \<Rightarrow> account_sys" where
  "enqueue_logged env eventType accountID payload sys =
     (case enqueueSchedulerOutbox (re_sha256hex env) (re_enqueue_fault env) (re_now env) eventType accountID None
             (map_option (re_marshal env) payload) (as_outbox sys) of
        Inl _ \<Rightarrow> sys
      | Inr ox \<Rightarrow> sys\<lparr>as_outbox := ox\<rparr>)"

definition account_changed :: "repo_env \<Rightarrow> int \<Rightarrow> account_sys \<Rightarrow> account_sys" where
  "account_changed env i sys = enqueue_logged env SchedulerOutboxEventAccountChanged (Some i) None sys"

definition syncSchedulerAccountSnapshot ::
  "account_codec \<Rightarrow> schedulerCache \<Rightarrow> repo_env \<Rightarrow> int \<Rightarrow> account_sys \<Rightarrow> account_sys" where
  "syncSchedulerAccountSnapshot cd c env accountID sys =
     (if accountID \<le> 0 then sys
      else
        (case GetByID (re_read_fault env) (as_db sys) accountID of
           Inl _ \<Rightarrow> sys
         | Inr account \<Rightarrow> sys\<lparr>as_redis := snd (SetAccount cd c (re_cache env) (Some account) (as_redis sys))\<rparr>))"

definition deleteSchedulerAccountSnapshot :: "repo_env \<Rightarrow> int \<Rightarrow> account_sys \<Rightarrow> account_sys" where
  "deleteSchedulerAccountSnapshot env accountID sys =
     (if accountID \<le> 0 then sys
      else sys\<lparr>as_redis := snd (DeleteAccount (re_cache env) accountID (as_redis sys))\<rparr>)"

definition syncSchedulerAccountSnapshots ::
  "account_codec \<Rightarrow> schedulerCache \<Rightarrow> repo_env \<Rightarrow> int list \<Rightarrow> account_sys \<Rightarrow> account_sys" where
  "syncSchedulerAccountSnapshots cd c env accountIDs sys =
     (case GetByIDs (re_read_fault env) (as_db sys) (add_positive [] accountIDs) of
        Inl _ \<Rightarrow> sys
      | Inr accounts \<Rightarrow>
          sys\<lparr>as_redis := foldl (\<lambda>r a. snd (SetAccount cd c (re_cache env) (Some a) r)) (as_redis sys) accounts\<rparr>)"

definition update_accounts :: "time \<Rightarrow> (FullAccount \<Rightarrow> bool) \<Rightarrow> (FullAccount \<Rightarrow> FullAccount) \<Rightarrow> account_db \<Rightarrow> account_db" where
  "update_accounts now p f db =
     db\<lparr>db_accounts := update_where p (\<lambda>a. (f a)\<lparr>fa_UpdatedAt := now\<rparr>) (db_accounts db)\<rparr>"

text \<open>The \<open>UPDATE\<close> of one account, followed by \<open>after\<close> when it has succeeded.\<close>

definition update_account ::
  "repo_env \<Rightarrow> int \<Rightarrow> (FullAccount \<Rightarrow> FullAccount) \<Rightarrow> (account_sys \<Rightarrow> account_sys) \<Rightarrow> account_sys
     \<Rightarrow> go_error option \<times> account_sys" where
  "update_account env i f after sys =
     (case re_update_fault env of Some err \<Rightarrow> (Some err, sys)
      | None \<Rightarrow> (None, after (sys\<lparr>as_db := update_accounts (re_now env) (\<lambda>a. fa_ID a = i) f (as_db sys)\<rparr>)))"

definition row_exists :: "int \<Rightarrow> account_sys \<Rightarrow> bool" where
  "row_exists i sys = list_ex (\<lambda>a. fa_ID a = i) (db_accounts (as_db sys))"

definition last_used_payload :: "(int \<times> time) list \<Rightarrow> json" where
  "last_used_payload updates =
     JObject [(''last_used'', JObject (map (\<lambda>(i, t). (itoa i, JNumber (of_int (t div Second)))) updates))]"

definition repo_UpdateLastUsed :: "repo_env \<Rightarrow> int \<Rightarrow> account_sys \<Rightarrow> go_error option \<times> account_sys" where
  "repo_UpdateLastUsed env i sys =
     update_account env i (\<lambda>a. a\<lparr>fa_LastUsedAt := Some (re_now env)\<rparr>)
       (enqueue_logged env SchedulerOutboxEventAccountLastUsed (Some i) (Some (last_used_payload [(i, re_now env)]))) sys"

definition BatchUpdateLastUsed :: "repo_env \<Rightarrow> (int \<times> time) list \<Rightarrow> account_sys \<Rightarrow> go_error option \<times> account_sys" where
  "BatchUpdateLastUsed env updates sys =
     (if updates = [] then (None, sys)
      else
        (case re_update_fault env of Some err \<Rightarrow> (Some err, sys)
         | None \<Rightarrow>
             (None, enqueue_logged env SchedulerOutboxEventAccountLastUsed None (Some (last_used_payload updates))
                      (sys\<lparr>as_db := update_accounts (re_now env) (\<lambda>a. fa_ID a \<in> fst ` set updates)
                             (\<lambda>a. a\<lparr>fa_LastUsedAt := map_of updates (fa_ID a)\<rparr>) (as_db sys)\<rparr>))))"

definition SetError ::
  "account_codec \<Rightarrow> schedulerCache \<Rightarrow> repo_env \<Rightarrow> int \<Rightarrow> string \<Rightarrow> account_sys \<Rightarrow> go_error option \<times> account_sys" where
  "SetError cd c env i errorMsg sys =
     update_account env i (\<lambda>a. a\<lparr>fa_Status := StatusError, fa_ErrorMessage := errorMsg, fa_Schedulable := False\<rparr>)
       (\<lambda>sys. syncSchedulerAccountSnapshot cd c env i (account_changed env i sys)) sys"

definition ClearError ::
  "account_codec \<Rightarrow> schedulerCache \<Rightarrow> repo_env \<Rightarrow> int \<Rightarrow> account_sys \<Rightarrow> go_error option \<times> account_sys" where
  "ClearError cd c env i sys =
     update_account env i (\<lambda>a. a\<lparr>fa_Status := StatusActive, fa_ErrorMessage := ''''\<rparr>)
       (\<lambda>sys. syncSchedulerAccountSnapshot cd c env i (account_changed env i sys)) sys"

definition SetRateLimited ::
  "account_codec \<Rightarrow> schedulerCache \<Rightarrow> repo_env \<Rightarrow> int \<Rightarrow> time \<Rightarrow> account_sys \<Rightarrow> go_error option \<times> account_sys" where
  "SetRateLimited cd c env i resetAt sys =
     update_account env i (\<lambda>a. a\<lparr>fa_RateLimitedAt := Some (re_now env), fa_RateLimitResetAt := Some resetAt\<rparr>)
       (\<lambda>sys. syncSchedulerAccountSnapshot cd c env i (account_changed env i sys)) sys"

definition SetOverloaded ::
  "account_codec \<Rightarrow> schedulerCache \<Rightarrow> repo_env \<Rightarrow> int \<Rightarrow> time \<Rightarrow> account_sys \<Rightarrow> go_error option \<times> account_sys" where
  "SetOverloaded cd c env i until sys =
     update_account env i (\<lambda>a. a\<lparr>fa_OverloadUntil := Some until\<rparr>)
       (\<lambda>sys. syncSchedulerAccountSnapshot cd c env i (account_changed env i sys)) sys"

definition SetTempUnschedulable ::
  "account_codec \<Rightarrow> schedulerCache \<Rightarrow> repo_env \<Rightarrow> int \<Rightarrow> time \<Rightarrow> string \<Rightarrow> account_sys \<Rightarrow> go_error option \<times> account_sys" where
  "SetTempUnschedulable cd c env i until reason sys =
     (case re_update_fault env of Some err \<Rightarrow> (Some err, sys)
      | None \<Rightarrow>
          let hit = (\<lambda>a. fa_ID a = i
                \<and> (case fa_TempUnschedulableUntil a of None \<Rightarrow> True | Some t \<Rightarrow> t < until))
          in if \<not> list_ex hit (db_accounts (as_db sys)) then (None, sys)
             else
               let sys = sys\<lparr>as_db := update_accounts (re_now env) hit
                     (\<lambda>a. a\<lparr>fa_TempUnschedulableUntil := Some until, fa_TempUnschedulableReason := reason\<rparr>) (as_db sys)\<rparr>
               in (None, syncSchedulerAccountSnapshot cd c env i (account_changed env i sys)))"

definition ClearTempUnschedulable ::
  "account_codec \<Rightarrow> schedulerCache \<Rightarrow> repo_env \<Rightarrow> int \<Rightarrow> account_sys \<Rightarrow> go_error option \<times> account_sys" where
  "ClearTempUnschedulable cd c env i sys =
     update_account env i (\<lambda>a. a\<lparr>fa_TempUnschedulableUntil := None, fa_TempUnschedulableReason := ''''\<rparr>)
       (\<lambda>sys. syncSchedulerAccountSnapshot cd c env i (account_changed env i sys)) sys"

definition ClearRateLimit ::
  "account_codec \<Rightarrow> schedulerCache \<Rightarrow> repo_env \<Rightarrow> int \<Rightarrow> account_sys \<Rightarrow> go_error option \<times> account_sys" where
  "ClearRateLimit cd c env i sys =
     update_account env i
       (\<lambda>a. a\<lparr>fa_RateLimitedAt := None, fa_RateLimitResetAt := None, fa_OverloadUntil := None\<rparr>)
       (\<lambda>sys. syncSchedulerAccountSnapshot cd c env i (account_changed env i sys)) sys"

definition ClearAntigravityQuotaScopes :: "repo_env \<Rightarrow> int \<Rightarrow> account_sys \<Rightarrow> go_error option \<times> account_sys" where
  "ClearAntigravityQuotaScopes env i sys =
     (if re_update_fault env = None \<and> \<not> row_exists i sys then (Some ErrAccountNotFound, sys)
      else update_account env i (\<lambda>a. a\<lparr>fa_Extra := (fa_Extra a)(''antigravity_quota_scopes'' := None)\<rparr>)
             (account_changed env i) sys)"

definition ClearModelRateLimits ::
  "account_codec \<Rightarrow> schedulerCache \<Rightarrow> repo_env \<Rightarrow> int \<Rightarrow> account_sys \<Rightarrow> go_error option \<times> account_sys" where
  "ClearModelRateLimits cd c env i sys =
     (if re_update_fault env = None \<and> \<not> row_exists i sys then (Some ErrAccountNotFound, sys)
      else update_account env i (\<lambda>a. a\<lparr>fa_Extra := (fa_Extra a)(''model_rate_limits'' := None)\<rparr>)
             (\<lambda>sys. syncSchedulerAccountSnapshot cd c env i (account_changed env i sys)) sys)"

definition UpdateSessionWindow ::
  "repo_env \<Rightarrow> int \<Rightarrow> time option \<Rightarrow> time option \<Rightarrow> string \<Rightarrow> account_sys \<Rightarrow> go_error option \<times> account_sys" where
  "UpdateSessionWindow env i start finish status sys =
     update_account env i
       (\<lambda>a. a\<lparr>fa_SessionWindowStatus := status,
              fa_SessionWindowStart := (case start of None \<Rightarrow> fa_SessionWindowStart a | Some t \<Rightarrow> Some t),
              fa_SessionWindowEnd := (case finish of None \<Rightarrow> fa_SessionWindowEnd a | Some t \<Rightarrow> Some t)\<rparr>)
       (\<lambda>sys. if start \<noteq> None \<or> finish \<noteq> None then account_changed env i sys else sys) sys"

definition UpdateSessionWindowEnd :: "repo_env \<Rightarrow> int \<Rightarrow> time \<Rightarrow> account_sys \<Rightarrow> go_error option \<times> account_sys" where
  "UpdateSessionWindowEnd env i finish sys =
     update_account env i (\<lambda>a. a\<lparr>fa_SessionWindowEnd := Some finish\<rparr>) (account_changed env i) sys"

definition SetSchedulable ::
  "account_codec \<Rightarrow> schedulerCache \<Rightarrow> repo_env \<Rightarrow> int \<Rightarrow> bool \<Rightarrow> account_sys \<Rightarrow> go_error option \<times> account_sys" where
  "SetSchedulable cd c env i schedulable sys =
     update_account env i (\<lambda>a. a\<lparr>fa_Schedulable := schedulable\<rparr>)
       (\<lambda>sys. let sys = account_changed env i sys
              in if \<not> schedulable then syncSchedulerAccountSnapshot cd c env i sys else sys) sys"

definition expired_rows :: "time \<Rightarrow> FullAccount \<Rightarrow> bool" where
  "expired_rows now a =
     (fa_Schedulable a \<and> fa_AutoPauseOnExpired a
      \<and> (case fa_ExpiresAt a of None \<Rightarrow> False | Some t \<Rightarrow> t \<le> now))"

definition AutoPauseExpiredAccounts ::
  "repo_env \<Rightarrow> time \<Rightarrow> account_sys \<Rightarrow> (go_error + nat) \<times> account_sys" where
  "AutoPauseExpiredAccounts env now sys =
     (case re_update_fault env of Some err \<Rightarrow> (Inl err, sys)
      | None \<Rightarrow>
          let rows = length (filter (expired_rows now) (db_accounts (as_db sys)));
              sys = sys\<lparr>as_db := update_accounts (re_now env) (expired_rows now) (\<lambda>a. a\<lparr>fa_Schedulable := False\<rparr>) (as_db sys)\<rparr>
          in (Inr rows,
              if 0 < rows then enqueue_logged env SchedulerOutboxEventFullRebuild None None sys else sys))"

definition schedulerNeutralExtraKeyPrefixes :: "string list" where
  "schedulerNeutralExtraKeyPrefixes =
     [''codex_primary_'', ''codex_secondary_'', ''codex_5h_'', ''codex_7d_'', ''passive_usage_'']"

definition schedulerNeutralExtraKeys :: "string list" where
  "schedulerNeutralExtraKeys = [''codex_usage_updated_at'', ''session_window_utilization'']"

definition isSchedulerNeutralExtraKey :: "string \<Rightarrow> bool" where
  "isSchedulerNeutralExtraKey key =
     (let key = trim_space key
      in if key = '''' then False
         else if key \<in> set schedulerNeutralExtraKeys then True
         else list_ex (\<lambda>p. prefix p key) schedulerNeutralExtraKeyPrefixes)"

definition shouldEnqueueSchedulerOutboxForExtraUpdates :: "(string \<times> json) list \<Rightarrow> bool" where
  "shouldEnqueueSchedulerOutboxForExtraUpdates updates =
     list_ex (\<lambda>(k, _). \<not> isSchedulerNeutralExtraKey k) updates"

definition UpdateExtra ::
  "account_codec \<Rightarrow> schedulerCache \<Rightarrow> repo_env \<Rightarrow> int \<Rightarrow> (string \<times> json) list \<Rightarrow> account_sys
     \<Rightarrow> go_error option \<times> account_sys" where
  "UpdateExtra cd c env i updates sys =
     (if updates = [] then (None, sys)
      else
        (case re_marshal env (JObject updates) of
           Inl err \<Rightarrow> (Some err, sys)
         | Inr _ \<Rightarrow>
             if re_update_fault env = None \<and> \<not> row_exists i sys then (Some ErrAccountNotFound, sys)
             else update_account env i (\<lambda>a. a\<lparr>fa_Extra := fa_Extra a ++ map_of updates\<rparr>)
                    (\<lambda>sys. if shouldEnqueueSchedulerOutboxForExtraUpdates updates then account_changed env i sys
                           else syncSchedulerAccountSnapshot cd c env i sys) sys))"

section \<open>Groups of an account\<close>

definition loadAccountGroupIDs :: "go_error option \<Rightarrow> account_db \<Rightarrow> int \<Rightarrow> go_error + int list" where
  "loadAccountGroupIDs fault db i =
     (case fault of Some err \<Rightarrow> Inl err
      | None \<Rightarrow> Inr (map ag_GroupID (filter (\<lambda>l. ag_AccountID l = i) (db_links db))))"

definition mergeGroupIDs :: "int list \<Rightarrow> int list \<Rightarrow> int list" where
  "mergeGroupIDs a b = add_positive (add_positive [] a) b"

definition buildSchedulerGroupPayload :: "int list \<Rightarrow> json option" where
  "buildSchedulerGroupPayload groupIDs =
     (if groupIDs = [] then None
      else Some (JObject [(''group_ids'', JArray (map (\<lambda>g. JNumber (of_int g)) groupIDs))]))"

definition duplicate_link :: go_error where
  "duplicate_link = OtherError ''duplicate key value violates unique constraint'' None"

definition groups_changed :: "repo_env \<Rightarrow> int \<Rightarrow> int list \<Rightarrow> account_sys \<Rightarrow> account_sys" where
  "groups_changed env i groupIDs sys =
     enqueue_logged env SchedulerOutboxEventAccountGroupsChanged (Some i) (buildSchedulerGroupPayload groupIDs) sys"

definition AddToGroup :: "repo_env \<Rightarrow> int \<Rightarrow> int \<Rightarrow> int \<Rightarrow> account_sys \<Rightarrow> go_error option \<times> account_sys" where
  "AddToGroup env accountID groupID priority sys =
     (case re_update_fault env of Some err \<Rightarrow> (Some err, sys)
      | None \<Rightarrow>
          if list_ex (\<lambda>l. ag_AccountID l = accountID \<and> ag_GroupID l = groupID) (db_links (as_db sys))
          then (Some duplicate_link, sys)
          else
            let l = \<lparr>ag_AccountID = accountID, ag_GroupID = groupID, ag_Priority = priority, ag_CreatedAt = re_now env\<rparr>
            in (None, groups_changed env accountID [groupID]
                        (sys\<lparr>as_db := (as_db sys)\<lparr>db_links := db_links (as_db sys) @ [l]\<rparr>\<rparr>)))"

definition RemoveFromGroup :: "repo_env \<Rightarrow> int \<Rightarrow> int \<Rightarrow> account_sys \<Rightarrow> go_error option \<times> account_sys" where
  "RemoveFromGroup env accountID groupID sys =
     (case re_update_fault env of Some err \<Rightarrow> (Some err, sys)
      | None \<Rightarrow>
          (None, groups_changed env accountID [groupID]
             (sys\<lparr>as_db := (as_db sys)\<lparr>db_links :=
                filter (\<lambda>l. \<not> (ag_AccountID l = accountID \<and> ag_GroupID l = groupID)) (db_links (as_db sys))\<rparr>\<rparr>)))"

text \<open>The transaction that replaces the links: \<open>re_update_fault\<close> stands for a failure of any of its statements
  or of its commit, a group that does not exist included.\<close>

definition BindGroups :: "repo_env \<Rightarrow> int \<Rightarrow> int list \<Rightarrow> account_sys \<Rightarrow> go_error option \<times> account_sys" where
  "BindGroups env accountID groupIDs sys =
     (case loadAccountGroupIDs (re_read_fault env) (as_db sys) accountID of
        Inl err \<Rightarrow> (Some err, sys)
      | Inr existingGroupIDs \<Rightarrow>
          (case re_update_fault env of Some err \<Rightarrow> (Some err, sys)
           | None \<Rightarrow>
               let kept = filter (\<lambda>l. ag_AccountID l \<noteq> accountID) (db_links (as_db sys));
                   links = map (\<lambda>(k, g). \<lparr>ag_AccountID = accountID, ag_GroupID = g, ag_Priority = int k + 1,
                                          ag_CreatedAt = re_now env\<rparr>) (enumerate 0 groupIDs);
                   write = (\<lambda>ls. sys\<lparr>as_db := (as_db sys)\<lparr>db_links := ls\<rparr>\<rparr>)
               in if groupIDs = [] then (None, write kept)
                  else if \<not> distinct groupIDs then (Some duplicate_link, sys)
                  else (None, groups_changed env accountID (mergeGroupIDs existingGroupIDs groupIDs) (write (kept @ links)))))"

section \<open>What a change does at once\<close>

lemma GetByID_row:
  assumes "GetByID None db i = Inr a"
  obtains row where "row \<in> set (db_accounts db)" "fa_ID row = i" "a = service_account db row"
proof -
  obtain row rows where r: "filter (\<lambda>a. fa_ID a = i) (db_accounts db) = row # rows" "a = service_account db row"
    using assms by (auto simp: GetByID_def split: list.splits)
  then have "row \<in> set (filter (\<lambda>a. fa_ID a = i) (db_accounts db))" by simp
  then have "row \<in> set (db_accounts db)" "fa_ID row = i" unfolding set_filter by blast+
  with r(2) show thesis using that by blast
qed

lemma service_account_fields [simp]:
  "fa_ID (service_account db a) = fa_ID a" "fa_Status (service_account db a) = fa_Status a"
  "fa_Schedulable (service_account db a) = fa_Schedulable a" "fa_OverloadUntil (service_account db a) = fa_OverloadUntil a"
  "fa_RateLimitResetAt (service_account db a) = fa_RateLimitResetAt a" "fa_Platform (service_account db a) = fa_Platform a"
  "fa_Extra (service_account db a) = fa_Extra a" "fa_Priority (service_account db a) = fa_Priority a"
  by (simp_all add: service_account_def Let_def)

lemma updated_row:
  assumes "row \<in> set (db_accounts (update_accounts now (\<lambda>a. fa_ID a = i) f db))" "fa_ID row = i" "\<And>a. fa_ID (f a) = fa_ID a"
  shows "\<exists>a. row = (f a)\<lparr>fa_UpdatedAt := now\<rparr>"
  using assms by (auto simp: update_accounts_def set_update_where)

lemma enqueue_logged_frame [simp]:
  "as_db (enqueue_logged env t i p sys) = as_db sys" "as_redis (enqueue_logged env t i p sys) = as_redis sys"
  by (auto simp: enqueue_logged_def split: sum.splits)

lemma sync_frame [simp]:
  "as_db (syncSchedulerAccountSnapshot cd c env i sys) = as_db sys"
  "as_outbox (syncSchedulerAccountSnapshot cd c env i sys) = as_outbox sys"
  by (auto simp: syncSchedulerAccountSnapshot_def split: sum.splits)

lemma sync_stores:
  assumes "0 < i" "re_read_fault env = None" "ce_write_fault (re_cache env) = (\<lambda>_. None)"
    and "GetByID None (as_db sys) i = Inr a" "cacheable cd a"
  shows "sr_strings (as_redis (syncSchedulerAccountSnapshot cd c env i sys)) (schedulerAccountMetaKey (itoa i)) =
    Some (payload_of cd (buildSchedulerMetadataAccount a), None)"
proof -
  have i: "fa_ID a = i" using GetByID_row [OF assms(4)] by (metis service_account_fields(1))
  have "writeAccounts cd c (ce_write_fault (re_cache env)) [a] (as_redis sys) =
      (None, fold (\<lambda>c. c) (concat (map (account_commands cd) [a])) (as_redis sys))"
    using writeAccounts_ok [of "[a]" cd c] assms(3,5) by simp
  then show ?thesis
    using assms(1,2,4) i commands_stored(2) [of "[a]" a cd "as_redis sys"]
    by (simp add: syncSchedulerAccountSnapshot_def SetAccount_def)
qed

lemma account_changed_pending:
  assumes "re_enqueue_fault env = None"
  shows "has_key (content_key (re_sha256hex env) (SchedulerOutboxEventAccountChanged, Some i, None, None))
    (ox_rows (as_outbox (account_changed env i sys)))"
proof -
  let ?c = "(SchedulerOutboxEventAccountChanged, Some i, None, None) :: outbox_content"
  have "content_key (re_sha256hex env) ?c \<noteq> None"
    by (simp add: content_key_def schedulerOutboxEventSupportsDedup_def)
  then show ?thesis
    using assms by (auto simp: account_changed_def enqueue_logged_def enqueueSchedulerOutbox_def Let_def has_key_def)
qed

text \<open>C25: once an account is put into error, overloaded, rate limited or made unschedulable, the copy that all
  snapshots share says so: without a failure of the cache no reader finds it schedulable before the limit is
  over, even before the event that rebuilds the snapshots, which is pending, has been handled.\<close>

theorem unschedulable_at_once:
  assumes "(None, sys') \<in> {SetError cd c env i msg sys, SetOverloaded cd c env i until sys,
      SetRateLimited cd c env i until sys, SetSchedulable cd c env i False sys}"
    and "t < until" "0 < i" "re_read_fault env = None" "ce_write_fault (re_cache env) = (\<lambda>_. None)"
    and "GetByID None (as_db sys') i = Inr a" "cacheable cd a"
  shows "(\<exists>p m. redis_GET t (schedulerAccountMetaKey (itoa i)) (as_redis sys') = Some p
        \<and> decodeCachedAccount cd p = Inr m \<and> fa_ID m = i \<and> \<not> IsSchedulable xp zones t m)
    \<and> (re_enqueue_fault env = None \<longrightarrow>
         has_key (content_key (re_sha256hex env) (SchedulerOutboxEventAccountChanged, Some i, None, None))
           (ox_rows (as_outbox sys')))"
proof -
  define fs :: "(FullAccount \<Rightarrow> FullAccount) set" where
    "fs = {\<lambda>a. a\<lparr>fa_Status := StatusError, fa_ErrorMessage := msg, fa_Schedulable := False\<rparr>,
       \<lambda>a. a\<lparr>fa_OverloadUntil := Some until\<rparr>,
       \<lambda>a. a\<lparr>fa_RateLimitedAt := Some (re_now env), fa_RateLimitResetAt := Some until\<rparr>,
       \<lambda>a. a\<lparr>fa_Schedulable := False\<rparr>}"
  obtain f where f: "f \<in> fs" and s: "(None, sys') = update_account env i f
      (\<lambda>sys. syncSchedulerAccountSnapshot cd c env i (account_changed env i sys)) sys"
    using assms(1) unfolding fs_def SetError_def SetOverloaded_def SetRateLimited_def SetSchedulable_def Let_def
    by auto
  define sys1 where "sys1 = sys\<lparr>as_db := update_accounts (re_now env) (\<lambda>a. fa_ID a = i) f (as_db sys)\<rparr>"
  then have sys1: "as_db sys1 = update_accounts (re_now env) (\<lambda>a. fa_ID a = i) f (as_db sys)"
    "sys' = syncSchedulerAccountSnapshot cd c env i (account_changed env i sys1)"
    using s by (simp_all add: update_account_def split: option.splits)
  have get: "GetByID None (as_db (account_changed env i sys1)) i = Inr a" using assms(6) sys1(2) by simp
  obtain row where row: "row \<in> set (db_accounts (as_db sys1))" "fa_ID row = i" "a = service_account (as_db sys1) row"
    using GetByID_row [OF get] by (metis enqueue_logged_frame(1) account_changed_def)
  have "fa_ID (f b) = fa_ID b" for b using f by (auto simp: fs_def)
  then obtain b where "row = (f b)\<lparr>fa_UpdatedAt := re_now env\<rparr>" using updated_row row(1,2) sys1(1) by metis
  then have "\<not> (account_IsActive a \<and> fa_Schedulable a \<and> passed t (fa_OverloadUntil a) \<and> passed t (fa_RateLimitResetAt a))"
    using f assms(2) row(3) by (auto simp: fs_def passed_def)
  then have "\<not> IsSchedulable xp zones t (buildSchedulerMetadataAccount a)" unfolding metadata_schedulable by blast
  moreover have "sr_strings (as_redis sys') (schedulerAccountMetaKey (itoa i)) =
      Some (payload_of cd (buildSchedulerMetadataAccount a), None)"
    unfolding sys1(2) by (rule sync_stores [OF assms(3-5) get assms(7)])
  moreover have "cd_unmarshal cd (payload_of cd (buildSchedulerMetadataAccount a)) = Inr (buildSchedulerMetadataAccount a)"
    using assms(7) encodes_payload unfolding cacheable_def by blast
  moreover have "fa_ID (buildSchedulerMetadataAccount a) = i" using row(2,3) by (simp add: buildSchedulerMetadataAccount_def)
  moreover have "as_outbox sys' = as_outbox (account_changed env i sys1)" by (simp add: sys1(2))
  ultimately show ?thesis
    using account_changed_pending [of env i sys1] by (simp add: redis_GET_def live_def decodeCachedAccount_def)
qed

definition quiet_repo :: "time \<Rightarrow> repo_env" where
  "quiet_repo now = \<lparr>re_now = now, re_update_fault = None, re_read_fault = None, re_enqueue_fault = None,
     re_cache = quiet now, re_sha256hex = (\<lambda>s. s), re_marshal = (\<lambda>_. Inr ''{}'')\<rparr>"

definition one_account :: account_sys where
  "one_account = \<lparr>as_db = \<lparr>db_accounts = [spent_account], db_links = []\<rparr>, as_outbox = \<lparr>ox_rows = [], ox_next = 1\<rparr>,
     as_redis = empty_redis\<rparr>"

definition overloaded_account :: FullAccount where
  "overloaded_account = spent_account\<lparr>fa_OverloadUntil := Some 200, fa_UpdatedAt := 50\<rparr>"

theorem unschedulable_at_once_witness:
  "\<exists>p m. redis_GET 100 (schedulerAccountMetaKey (itoa 7))
        (as_redis (snd (SetOverloaded (stamp_codec overloaded_account) NewSchedulerCache (quiet_repo 50) 7 200 one_account))) = Some p
     \<and> decodeCachedAccount (stamp_codec overloaded_account) p = Inr m \<and> \<not> IsSchedulable plain_parsers (\<lambda>_. None) 100 m"
proof -
  let ?cd = "stamp_codec overloaded_account"
  let ?op = "SetOverloaded ?cd NewSchedulerCache (quiet_repo 50) 7 200 one_account"
  have op: "?op = (None, snd ?op)" by (simp add: SetOverloaded_def update_account_def quiet_repo_def)
  have get: "GetByID None (as_db (snd ?op)) 7 = Inr overloaded_account"
    by (simp add: SetOverloaded_def update_account_def quiet_repo_def GetByID_def update_accounts_def one_account_def
        account_changed_def spent_account_def overloaded_account_def service_account_def account_links_def)
  have cd: "cacheable ?cd overloaded_account"
    by (rule stamp_codec_ok) (simp add: overloaded_account_def spent_account_def zero_time_def)
  have q: "re_read_fault (quiet_repo 50) = None" "ce_write_fault (re_cache (quiet_repo 50)) = (\<lambda>_. None)"
    by (simp_all add: quiet_repo_def)
  have "(None, snd ?op) \<in> {SetError ?cd NewSchedulerCache (quiet_repo 50) 7 '''' one_account, ?op,
      SetRateLimited ?cd NewSchedulerCache (quiet_repo 50) 7 200 one_account,
      SetSchedulable ?cd NewSchedulerCache (quiet_repo 50) 7 False one_account}"
    unfolding op [symmetric] by (rule insertI2, rule insertI1)
  from unschedulable_at_once [OF this _ _ q get cd, of 100 plain_parsers "\<lambda>_. None"]
  have "\<exists>p m. redis_GET 100 (schedulerAccountMetaKey (itoa 7)) (as_redis (snd ?op)) = Some p
      \<and> decodeCachedAccount ?cd p = Inr m \<and> fa_ID m = 7 \<and> \<not> IsSchedulable plain_parsers (\<lambda>_. None) 100 m" by simp
  then show ?thesis by blast
qed

end
