(* ===== verification/Scheduler_Snapshot.thy ===== *)
theory Scheduler_Snapshot
  imports Account_Repo Scheduler_Outbox
begin

text \<open>
  The service that keeps the snapshots of schedulable accounts up to date
  (\<open>service/scheduler_snapshot_service.go\<close>): reading with a fallback to the database, rebuilding buckets, and
  the handlers of the outbox events that \<open>pollOutbox\<close> (theory \<open>Scheduler_Outbox\<close>) calls.

  The service makes calls to the cache and the database, numbered in their order by \<open>wd_calls\<close>. What they
  meet is \<open>snapshot_env\<close>: the clock and the failures of a cache call, and for a query its failure or the
  content of the database at that moment, which other processes may have changed since the last call.
  Contexts and their deadlines have no counterpart; a call that runs into one is a call that fails.
\<close>

section \<open>Service and state\<close>

definition ErrSchedulerCacheNotReady :: go_error where
  "ErrSchedulerCacheNotReady = OtherError ''scheduler cache not ready'' None"
definition ErrSchedulerFallbackLimited :: go_error where
  "ErrSchedulerFallbackLimited = OtherError ''scheduler db fallback limited'' None"

definition RunModeSimple :: string where "RunModeSimple = ''simple''"

record scheduling_config =
  sg_RunMode :: string
  sg_DbFallbackEnabled :: bool
  sg_OutboxPollIntervalSeconds :: int
  sg_FullRebuildIntervalSeconds :: int
  sg_OutboxLagRebuildSeconds :: int
  sg_OutboxLagRebuildFailures :: int
  sg_OutboxBacklogRebuildRows :: int

text \<open>\<open>sv_accountRepo\<close> and \<open>sv_groupRepo\<close> say whether the service has these repositories.\<close>

record SchedulerSnapshotService =
  sv_cache :: "schedulerCache option"
  sv_accountRepo :: bool
  sv_groupRepo :: bool
  sv_cfg :: "scheduling_config option"

record fallbackLimiter =
  fl_maxQPS :: int
  fl_window :: time
  fl_count :: int

record sched_group =
  gr_ID :: int
  gr_Platform :: string

record snapshot_env =
  sn_codec :: account_codec
  sn_cache :: "nat \<Rightarrow> cache_env"
  sn_db :: "nat \<Rightarrow> go_error + account_db"
  sn_groups :: "nat \<Rightarrow> go_error + sched_group list"
  sn_payload :: "string \<Rightarrow> (string \<rightharpoonup> json)"

record sched_world =
  wd_calls :: nat
  wd_redis :: sched_redis
  wd_seen :: "(int \<times> string) list"
  wd_limiter :: "fallbackLimiter option"
  wd_lagFailures :: int

definition cache_call ::
  "snapshot_env \<Rightarrow> (cache_env \<Rightarrow> sched_redis \<Rightarrow> 'a \<times> sched_redis) \<Rightarrow> sched_world \<Rightarrow> 'a \<times> sched_world" where
  "cache_call env f w =
     (let (x, r) = f (sn_cache env (wd_calls w)) (wd_redis w)
      in (x, w\<lparr>wd_calls := Suc (wd_calls w), wd_redis := r\<rparr>))"

definition db_call ::
  "snapshot_env \<Rightarrow> (time \<Rightarrow> account_db \<Rightarrow> go_error + 'a) \<Rightarrow> sched_world \<Rightarrow> (go_error + 'a) \<times> sched_world" where
  "db_call env f w =
     ((case sn_db env (wd_calls w) of Inl err \<Rightarrow> Inl err | Inr db \<Rightarrow> f (ce_now (sn_cache env (wd_calls w))) db),
      w\<lparr>wd_calls := Suc (wd_calls w)\<rparr>)"

section \<open>Buckets\<close>

definition isRunModeSimple :: "SchedulerSnapshotService \<Rightarrow> bool" where
  "isRunModeSimple s = (case sv_cfg s of None \<Rightarrow> False | Some cfg \<Rightarrow> sg_RunMode cfg = RunModeSimple)"

definition has_mixed :: "string \<Rightarrow> bool" where
  "has_mixed platform = (platform = PlatformAnthropic \<or> platform = PlatformGemini)"

definition resolveMode :: "string \<Rightarrow> bool \<Rightarrow> string" where
  "resolveMode platform hasForcePlatform =
     (if hasForcePlatform then SchedulerModeForced
      else if has_mixed platform then SchedulerModeMixed
      else SchedulerModeSingle)"

definition normalizeGroupID :: "SchedulerSnapshotService \<Rightarrow> int option \<Rightarrow> int" where
  "normalizeGroupID s groupID =
     (if isRunModeSimple s then 0
      else case groupID of None \<Rightarrow> 0 | Some g \<Rightarrow> if g \<le> 0 then 0 else g)"

definition bucketFor :: "SchedulerSnapshotService \<Rightarrow> int option \<Rightarrow> string \<Rightarrow> string \<Rightarrow> SchedulerBucket" where
  "bucketFor s groupID platform mode =
     \<lparr>bu_GroupID = normalizeGroupID s groupID, bu_Platform = platform, bu_Mode = mode\<rparr>"

definition normalizeGroupIDs :: "SchedulerSnapshotService \<Rightarrow> int list \<Rightarrow> int list" where
  "normalizeGroupIDs s groupIDs =
     (if isRunModeSimple s then [0]
      else if groupIDs = [] then [0]
      else let out = add_positive [] groupIDs in if out = [] then [0] else out)"

definition platform_buckets :: "int \<Rightarrow> string \<Rightarrow> SchedulerBucket list" where
  "platform_buckets g platform =
     [\<lparr>bu_GroupID = g, bu_Platform = platform, bu_Mode = SchedulerModeSingle\<rparr>,
      \<lparr>bu_GroupID = g, bu_Platform = platform, bu_Mode = SchedulerModeForced\<rparr>]
     @ (if has_mixed platform then [\<lparr>bu_GroupID = g, bu_Platform = platform, bu_Mode = SchedulerModeMixed\<rparr>] else [])"

definition all_platforms :: "string list" where
  "all_platforms = [PlatformAnthropic, PlatformGemini, PlatformOpenAI, PlatformAntigravity, PlatformGrok]"

fun dedupe_buckets :: "string set \<Rightarrow> SchedulerBucket list \<Rightarrow> SchedulerBucket list" where
  "dedupe_buckets seen [] = []"
| "dedupe_buckets seen (b # bs) =
     (if bucket_String b \<in> seen then dedupe_buckets seen bs
      else b # dedupe_buckets (insert (bucket_String b) seen) bs)"

definition dedupeBuckets :: "SchedulerBucket list \<Rightarrow> SchedulerBucket list" where
  "dedupeBuckets bs = dedupe_buckets {} bs"

definition group_buckets :: "sched_group list \<Rightarrow> SchedulerBucket list" where
  "group_buckets groups =
     concat (map (\<lambda>g. if gr_Platform g = '''' then [] else platform_buckets (gr_ID g) (gr_Platform g)) groups)"

definition defaultBuckets ::
  "SchedulerSnapshotService \<Rightarrow> snapshot_env \<Rightarrow> sched_world \<Rightarrow> SchedulerBucket list \<times> sched_world" where
  "defaultBuckets s env w =
     (let buckets = concat (map (platform_buckets 0) all_platforms)
      in if isRunModeSimple s \<or> \<not> sv_groupRepo s then (dedupeBuckets buckets, w)
         else
           (case sn_groups env (wd_calls w) of
              Inl _ \<Rightarrow> (dedupeBuckets buckets, w\<lparr>wd_calls := Suc (wd_calls w)\<rparr>)
            | Inr groups \<Rightarrow> (dedupeBuckets (buckets @ group_buckets groups), w\<lparr>wd_calls := Suc (wd_calls w)\<rparr>)))"

section \<open>Loading and rebuilding\<close>

definition load_accounts ::
  "SchedulerSnapshotService \<Rightarrow> SchedulerBucket \<Rightarrow> bool \<Rightarrow> time \<Rightarrow> account_db \<Rightarrow> FullAccount list" where
  "load_accounts s bucket useMixed now db =
     (let groupID = (if isRunModeSimple s then 0 else bu_GroupID bucket)
      in if useMixed then
           let platforms = [bu_Platform bucket, PlatformAntigravity];
               accounts = (if 0 < groupID then ListSchedulableByGroupIDAndPlatforms now db groupID platforms
                           else if isRunModeSimple s then ListSchedulableByPlatforms now db platforms
                           else ListSchedulableUngroupedByPlatforms now db platforms)
           in filter (\<lambda>a. \<not> (fa_Platform a = PlatformAntigravity \<and> \<not> IsMixedSchedulingEnabled a)) accounts
         else if 0 < groupID then ListSchedulableByGroupIDAndPlatform now db groupID (bu_Platform bucket)
         else if isRunModeSimple s then ListSchedulableByPlatform now db (bu_Platform bucket)
         else ListSchedulableUngroupedByPlatform now db (bu_Platform bucket))"

definition loadAccountsFromDB ::
  "SchedulerSnapshotService \<Rightarrow> snapshot_env \<Rightarrow> SchedulerBucket \<Rightarrow> bool \<Rightarrow> sched_world
     \<Rightarrow> (go_error + FullAccount list) \<times> sched_world" where
  "loadAccountsFromDB s env bucket useMixed w =
     (if \<not> sv_accountRepo s then (Inl ErrSchedulerCacheNotReady, w)
      else db_call env (\<lambda>now db. Inr (load_accounts s bucket useMixed now db)) w)"

text \<open>The deferred \<open>UnlockBucket\<close> runs whatever became of the rebuild; its error is ignored.\<close>

definition rebuildBucket ::
  "SchedulerSnapshotService \<Rightarrow> snapshot_env \<Rightarrow> SchedulerBucket \<Rightarrow> sched_world \<Rightarrow> go_error option \<times> sched_world" where
  "rebuildBucket s env bucket w =
     (case sv_cache s of None \<Rightarrow> (Some ErrSchedulerCacheNotReady, w)
      | Some c \<Rightarrow>
          (case cache_call env (\<lambda>ce. TryLockBucket ce bucket (30 * Second)) w of
             (Inl err, w) \<Rightarrow> (Some err, w)
           | (Inr ok, w) \<Rightarrow>
               if \<not> ok then (None, w)
               else
                 let (err, w) =
                   (case loadAccountsFromDB s env bucket (bu_Mode bucket = SchedulerModeMixed) w of
                      (Inl err, w) \<Rightarrow> (Some err, w)
                    | (Inr accounts, w) \<Rightarrow> cache_call env (\<lambda>ce. SetSnapshot (sn_codec env) c ce bucket accounts) w)
                 in (err, snd (cache_call env (\<lambda>ce. UnlockBucket ce bucket) w))))"

definition first_error :: "go_error option \<Rightarrow> go_error option \<Rightarrow> go_error option" where
  "first_error e e' = (case e of None \<Rightarrow> e' | Some _ \<Rightarrow> e)"

fun rebuildBuckets ::
  "SchedulerSnapshotService \<Rightarrow> snapshot_env \<Rightarrow> SchedulerBucket list \<Rightarrow> sched_world \<Rightarrow> go_error option \<times> sched_world" where
  "rebuildBuckets s env [] w = (None, w)"
| "rebuildBuckets s env (b # bs) w =
     (let (e, w) = rebuildBucket s env b w; (e', w) = rebuildBuckets s env bs w in (first_error e e', w))"

fun rebuild_groups ::
  "SchedulerSnapshotService \<Rightarrow> snapshot_env \<Rightarrow> string \<Rightarrow> int list \<Rightarrow> sched_world \<Rightarrow> go_error option \<times> sched_world" where
  "rebuild_groups s env platform [] w = (None, w)"
| "rebuild_groups s env platform (g # gs) w =
     (if (g, platform) \<in> set (wd_seen w) then rebuild_groups s env platform gs w
      else
        let w = w\<lparr>wd_seen := (g, platform) # wd_seen w\<rparr>;
            (e, w) = rebuildBuckets s env (platform_buckets g platform) w;
            (e', w) = rebuild_groups s env platform gs w
        in (first_error e e', w))"

definition rebuildBucketsForPlatform ::
  "SchedulerSnapshotService \<Rightarrow> snapshot_env \<Rightarrow> string \<Rightarrow> int list \<Rightarrow> sched_world \<Rightarrow> go_error option \<times> sched_world" where
  "rebuildBucketsForPlatform s env platform groupIDs w =
     (if platform = '''' then (None, w) else rebuild_groups s env platform groupIDs w)"

fun rebuild_platforms ::
  "SchedulerSnapshotService \<Rightarrow> snapshot_env \<Rightarrow> string list \<Rightarrow> int list \<Rightarrow> sched_world \<Rightarrow> go_error option \<times> sched_world" where
  "rebuild_platforms s env [] groupIDs w = (None, w)"
| "rebuild_platforms s env (p # ps) groupIDs w =
     (let (e, w) = rebuildBucketsForPlatform s env p groupIDs w; (e', w) = rebuild_platforms s env ps groupIDs w
      in (first_error e e', w))"

definition rebuildByGroupIDs ::
  "SchedulerSnapshotService \<Rightarrow> snapshot_env \<Rightarrow> int list \<Rightarrow> sched_world \<Rightarrow> go_error option \<times> sched_world" where
  "rebuildByGroupIDs s env groupIDs w =
     (let groupIDs = normalizeGroupIDs s groupIDs
      in if groupIDs = [] then (None, w) else rebuild_platforms s env all_platforms groupIDs w)"

definition account_platforms :: "FullAccount \<Rightarrow> string list" where
  "account_platforms a =
     fa_Platform a # (if fa_Platform a = PlatformAntigravity \<and> IsMixedSchedulingEnabled a
                      then [PlatformAnthropic, PlatformGemini] else [])"

definition rebuildByAccount ::
  "SchedulerSnapshotService \<Rightarrow> snapshot_env \<Rightarrow> FullAccount \<Rightarrow> int list \<Rightarrow> sched_world \<Rightarrow> go_error option \<times> sched_world" where
  "rebuildByAccount s env account groupIDs w =
     (let groupIDs = normalizeGroupIDs s groupIDs
      in if groupIDs = [] then (None, w) else rebuild_platforms s env (account_platforms account) groupIDs w)"

definition triggerFullRebuild ::
  "SchedulerSnapshotService \<Rightarrow> snapshot_env \<Rightarrow> sched_world \<Rightarrow> go_error option \<times> sched_world" where
  "triggerFullRebuild s env w =
     (case sv_cache s of None \<Rightarrow> (Some ErrSchedulerCacheNotReady, w)
      | Some _ \<Rightarrow>
          (case cache_call env (\<lambda>ce r. (ListBuckets ce r, r)) w of
             (Inl err, w) \<Rightarrow> (Some err, w)
           | (Inr buckets, w) \<Rightarrow>
               let (buckets, w) = (if buckets = [] then defaultBuckets s env w else (buckets, w))
               in rebuildBuckets s env buckets w))"

definition runInitialRebuild :: "SchedulerSnapshotService \<Rightarrow> snapshot_env \<Rightarrow> sched_world \<Rightarrow> sched_world" where
  "runInitialRebuild s env w =
     (case sv_cache s of None \<Rightarrow> w
      | Some _ \<Rightarrow>
          let (res, w) = cache_call env (\<lambda>ce r. (ListBuckets ce r, r)) w;
              buckets = (case res of Inl _ \<Rightarrow> [] | Inr buckets \<Rightarrow> buckets);
              (buckets, w) = (if buckets = [] then defaultBuckets s env w else (buckets, w))
          in snd (rebuildBuckets s env buckets w))"

section \<open>Event handlers\<close>

text \<open>Numbers decoded from JSON are floating-point numbers, which Go truncates.\<close>

definition toInt64 :: "json \<Rightarrow> int option" where
  "toInt64 v = (case v of JNumber x \<Rightarrow> Some (if 0 \<le> x then \<lfloor>x\<rfloor> else \<lceil>x\<rceil>) | _ \<Rightarrow> None)"

definition parseInt64Slice :: "json option \<Rightarrow> int list" where
  "parseInt64Slice v =
     (case v of Some (JArray items) \<Rightarrow> filter (\<lambda>i. 0 < i) (List.map_filter toInt64 items) | _ \<Rightarrow> [])"

definition last_used_updates :: "(string \<times> json) list \<Rightarrow> (int \<times> time) list" where
  "last_used_updates raw =
     List.map_filter
       (\<lambda>(key, value).
          case atoi key of None \<Rightarrow> None
          | Some i \<Rightarrow>
              if i \<le> 0 then None
              else (case toInt64 value of None \<Rightarrow> None
                    | Some sec \<Rightarrow> if sec \<le> 0 then None else Some (i, sec * Second)))
       raw"

definition handleLastUsedEvent ::
  "SchedulerSnapshotService \<Rightarrow> snapshot_env \<Rightarrow> (string \<rightharpoonup> json) option \<Rightarrow> sched_world \<Rightarrow> go_error option \<times> sched_world" where
  "handleLastUsedEvent s env payload w =
     (case (sv_cache s, payload) of
        (Some c, Some m) \<Rightarrow>
          (case m ''last_used'' of
             Some (JObject raw) \<Rightarrow>
               let updates = last_used_updates raw
               in if updates = [] then (None, w)
                  else cache_call env (\<lambda>ce. UpdateLastUsed (sn_codec env) c ce updates) w
           | _ \<Rightarrow> (None, w))
      | _ \<Rightarrow> (None, w))"

definition drop_account ::
  "SchedulerSnapshotService \<Rightarrow> snapshot_env \<Rightarrow> int \<Rightarrow> sched_world \<Rightarrow> go_error option \<times> sched_world" where
  "drop_account s env i w =
     (case sv_cache s of None \<Rightarrow> (None, w) | Some _ \<Rightarrow> cache_call env (\<lambda>ce. DeleteAccount ce i) w)"

definition store_account ::
  "SchedulerSnapshotService \<Rightarrow> snapshot_env \<Rightarrow> FullAccount \<Rightarrow> sched_world \<Rightarrow> go_error option \<times> sched_world" where
  "store_account s env a w =
     (case sv_cache s of None \<Rightarrow> (None, w)
      | Some c \<Rightarrow> cache_call env (\<lambda>ce. SetAccount (sn_codec env) c ce (Some a)) w)"

fun until_error :: "('a \<Rightarrow> sched_world \<Rightarrow> go_error option \<times> sched_world) \<Rightarrow> 'a list \<Rightarrow> sched_world
    \<Rightarrow> go_error option \<times> sched_world" where
  "until_error f [] w = (None, w)"
| "until_error f (x # xs) w =
     (case f x w of (Some err, w) \<Rightarrow> (Some err, w) | (None, w) \<Rightarrow> until_error f xs w)"

definition handleBulkAccountEvent ::
  "SchedulerSnapshotService \<Rightarrow> snapshot_env \<Rightarrow> (string \<rightharpoonup> json) option \<Rightarrow> sched_world \<Rightarrow> go_error option \<times> sched_world" where
  "handleBulkAccountEvent s env payload w =
     (case payload of None \<Rightarrow> (None, w)
      | Some m \<Rightarrow>
          if \<not> sv_accountRepo s then (None, w)
          else
            let ids = add_positive [] (parseInt64Slice (m ''account_ids''))
            in if ids = [] then (None, w)
               else
                 (case db_call env (\<lambda>_ db. GetByIDs None db ids) w of
                    (Inl err, w) \<Rightarrow> (Some err, w)
                  | (Inr accounts, w) \<Rightarrow>
                      let accounts = filter (\<lambda>a. 0 < fa_ID a) accounts;
                          missing = filter (\<lambda>i. i \<notin> fa_ID ` set accounts) ids;
                          groups = add_positive [] (parseInt64Slice (m ''group_ids'') @ concat (map fa_GroupIDs accounts))
                      in (case until_error (store_account s env) accounts w of
                            (Some err, w) \<Rightarrow> (Some err, w)
                          | (None, w) \<Rightarrow>
                              (case until_error (drop_account s env) missing w of
                                 (Some err, w) \<Rightarrow> (Some err, w)
                               | (None, w) \<Rightarrow> rebuildByGroupIDs s env groups w))))"

definition payload_groups :: "(string \<rightharpoonup> json) option \<Rightarrow> int list" where
  "payload_groups payload = (case payload of None \<Rightarrow> [] | Some m \<Rightarrow> parseInt64Slice (m ''group_ids''))"

definition handleAccountEvent ::
  "SchedulerSnapshotService \<Rightarrow> snapshot_env \<Rightarrow> int option \<Rightarrow> (string \<rightharpoonup> json) option \<Rightarrow> sched_world
     \<Rightarrow> go_error option \<times> sched_world" where
  "handleAccountEvent s env accountID payload w =
     (case accountID of None \<Rightarrow> (None, w)
      | Some i \<Rightarrow>
          if i \<le> 0 then (None, w)
          else if \<not> sv_accountRepo s then (None, w)
          else
            let groupIDs = payload_groups payload
            in (case db_call env (\<lambda>_ db. GetByID None db i) w of
                  (Inl err, w) \<Rightarrow>
                    if Is ErrAccountNotFound err then
                      (case drop_account s env i w of
                         (Some err, w) \<Rightarrow> (Some err, w)
                       | (None, w) \<Rightarrow> rebuildByGroupIDs s env groupIDs w)
                    else (Some err, w)
                | (Inr account, w) \<Rightarrow>
                    (case store_account s env account w of
                       (Some err, w) \<Rightarrow> (Some err, w)
                     | (None, w) \<Rightarrow>
                         rebuildByAccount s env account (if groupIDs = [] then fa_GroupIDs account else groupIDs) w)))"

definition handleGroupEvent ::
  "SchedulerSnapshotService \<Rightarrow> snapshot_env \<Rightarrow> int option \<Rightarrow> sched_world \<Rightarrow> go_error option \<times> sched_world" where
  "handleGroupEvent s env groupID w =
     (case groupID of None \<Rightarrow> (None, w) | Some g \<Rightarrow> if g \<le> 0 then (None, w) else rebuildByGroupIDs s env [g] w)"

definition event_payload :: "snapshot_env \<Rightarrow> SchedulerOutboxEvent \<Rightarrow> (string \<rightharpoonup> json) option" where
  "event_payload env event =
     (case se_Payload event of None \<Rightarrow> None | Some p \<Rightarrow> if p = '''' then None else Some (sn_payload env p))"

definition handleOutboxEvent ::
  "SchedulerSnapshotService \<Rightarrow> snapshot_env \<Rightarrow> SchedulerOutboxEvent \<Rightarrow> sched_world \<Rightarrow> go_error option \<times> sched_world" where
  "handleOutboxEvent s env event w =
     (let payload = event_payload env event; t = se_EventType event
      in if t = SchedulerOutboxEventAccountLastUsed then handleLastUsedEvent s env payload w
         else if t = SchedulerOutboxEventAccountBulkChanged then handleBulkAccountEvent s env payload w
         else if t = SchedulerOutboxEventAccountGroupsChanged then handleAccountEvent s env (se_AccountID event) payload w
         else if t = SchedulerOutboxEventAccountChanged then handleAccountEvent s env (se_AccountID event) payload w
         else if t = SchedulerOutboxEventGroupChanged then handleGroupEvent s env (se_GroupID event) w
         else if t = SchedulerOutboxEventFullRebuild then triggerFullRebuild s env w
         else (None, w))"

text \<open>The lag check at the end of a poll: \<open>maxID\<close> is the result of the query for the newest event.\<close>

definition checkOutboxLag ::
  "SchedulerSnapshotService \<Rightarrow> snapshot_env \<Rightarrow> time \<Rightarrow> SchedulerOutboxEvent \<Rightarrow> int \<Rightarrow> go_error + int \<Rightarrow> sched_world \<Rightarrow> sched_world" where
  "checkOutboxLag s env now oldest watermark maxID w =
     (case sv_cfg s of None \<Rightarrow> w
      | Some cfg \<Rightarrow>
          if se_CreatedAt oldest = zero_time then w
          else
            let lagSeconds = (now - se_CreatedAt oldest) sdiv Second;
                w = (if 0 < sg_OutboxLagRebuildSeconds cfg \<and> sg_OutboxLagRebuildSeconds cfg \<le> lagSeconds then
                       let failures = wd_lagFailures w + 1
                       in if sg_OutboxLagRebuildFailures cfg \<le> failures
                          then snd (triggerFullRebuild s env (w\<lparr>wd_lagFailures := 0\<rparr>))
                          else w\<lparr>wd_lagFailures := failures\<rparr>
                     else w\<lparr>wd_lagFailures := 0\<rparr>)
            in if sg_OutboxBacklogRebuildRows cfg \<le> 0 then w
               else
                 (case maxID of Inl _ \<Rightarrow> w
                  | Inr m \<Rightarrow>
                      if sg_OutboxBacklogRebuildRows cfg \<le> m - watermark then snd (triggerFullRebuild s env w) else w))"

definition outboxPollInterval :: "SchedulerSnapshotService \<Rightarrow> duration" where
  "outboxPollInterval s =
     (case sv_cfg s of None \<Rightarrow> Second
      | Some cfg \<Rightarrow> if sg_OutboxPollIntervalSeconds cfg \<le> 0 then Second else sg_OutboxPollIntervalSeconds cfg * Second)"

definition fullRebuildInterval :: "SchedulerSnapshotService \<Rightarrow> duration" where
  "fullRebuildInterval s =
     (case sv_cfg s of None \<Rightarrow> 0
      | Some cfg \<Rightarrow> if sg_FullRebuildIntervalSeconds cfg \<le> 0 then 0 else sg_FullRebuildIntervalSeconds cfg * Second)"

section \<open>Reading\<close>

definition newFallbackLimiter :: "time \<Rightarrow> int \<Rightarrow> fallbackLimiter option" where
  "newFallbackLimiter now maxQPS =
     (if maxQPS \<le> 0 then None else Some \<lparr>fl_maxQPS = maxQPS, fl_window = now, fl_count = 0\<rparr>)"

definition Allow :: "time \<Rightarrow> fallbackLimiter option \<Rightarrow> bool \<times> fallbackLimiter option" where
  "Allow now limiter =
     (case limiter of None \<Rightarrow> (True, limiter)
      | Some l \<Rightarrow>
          if fl_maxQPS l \<le> 0 then (True, limiter)
          else
            let l = (if Second \<le> now - fl_window l then l\<lparr>fl_window := now, fl_count := 0\<rparr> else l)
            in if fl_maxQPS l \<le> fl_count l then (False, Some l)
               else (True, Some (l\<lparr>fl_count := fl_count l + 1\<rparr>)))"

definition guardFallback ::
  "SchedulerSnapshotService \<Rightarrow> time \<Rightarrow> sched_world \<Rightarrow> go_error option \<times> sched_world" where
  "guardFallback s now w =
     (if (case sv_cfg s of None \<Rightarrow> True | Some cfg \<Rightarrow> sg_DbFallbackEnabled cfg) then
        let (ok, l) = Allow now (wd_limiter w)
        in ((if ok then None else Some ErrSchedulerFallbackLimited), w\<lparr>wd_limiter := l\<rparr>)
      else (Some ErrSchedulerCacheNotReady, w))"

definition ListSchedulableAccounts ::
  "SchedulerSnapshotService \<Rightarrow> snapshot_env \<Rightarrow> int option \<Rightarrow> string \<Rightarrow> bool \<Rightarrow> sched_world
     \<Rightarrow> ((go_error + FullAccount list) \<times> bool) \<times> sched_world" where
  "ListSchedulableAccounts s env groupID platform hasForcePlatform w =
     (let useMixed = (has_mixed platform \<and> \<not> hasForcePlatform);
          bucket = bucketFor s groupID platform (resolveMode platform hasForcePlatform);
          (cached, w) = (case sv_cache s of None \<Rightarrow> (Inr None, w)
                         | Some c \<Rightarrow> cache_call env (\<lambda>ce r. (GetSnapshot (sn_codec env) c ce bucket r, r)) w)
      in case cached of
           Inr (Some accounts) \<Rightarrow> ((Inr accounts, useMixed), w)
         | _ \<Rightarrow>
             (case guardFallback s (ce_now (sn_cache env (wd_calls w))) w of
                (Some err, w) \<Rightarrow> ((Inl err, useMixed), w)
              | (None, w) \<Rightarrow>
                  (case loadAccountsFromDB s env bucket useMixed w of
                     (Inl err, w) \<Rightarrow> ((Inl err, useMixed), w)
                   | (Inr accounts, w) \<Rightarrow>
                       ((Inr accounts, useMixed),
                        (case sv_cache s of None \<Rightarrow> w
                         | Some c \<Rightarrow> snd (cache_call env (\<lambda>ce. SetSnapshot (sn_codec env) c ce bucket accounts) w))))))"

definition service_GetAccount ::
  "SchedulerSnapshotService \<Rightarrow> snapshot_env \<Rightarrow> int \<Rightarrow> sched_world \<Rightarrow> (go_error + FullAccount option) \<times> sched_world" where
  "service_GetAccount s env accountID w =
     (if accountID \<le> 0 then (Inr None, w)
      else
        let (cached, w) = (case sv_cache s of None \<Rightarrow> (Inr None, w)
                           | Some _ \<Rightarrow> cache_call env (\<lambda>ce r. (cache_GetAccount (sn_codec env) ce accountID r, r)) w)
        in case cached of
             Inr (Some account) \<Rightarrow> (Inr (Some account), w)
           | _ \<Rightarrow>
               (case guardFallback s (ce_now (sn_cache env (wd_calls w))) w of
                  (Some err, w) \<Rightarrow> (Inl err, w)
                | (None, w) \<Rightarrow>
                    (case db_call env (\<lambda>_ db. GetByID None db accountID) w of
                       (Inl err, w) \<Rightarrow> (Inl err, w)
                     | (Inr a, w) \<Rightarrow> (Inr (Some a), w))))"

definition UpdateAccountInCache ::
  "SchedulerSnapshotService \<Rightarrow> snapshot_env \<Rightarrow> FullAccount option \<Rightarrow> sched_world \<Rightarrow> go_error option \<times> sched_world" where
  "UpdateAccountInCache s env account w =
     (case (sv_cache s, account) of
        (Some c, Some a) \<Rightarrow> cache_call env (\<lambda>ce. SetAccount (sn_codec env) c ce (Some a)) w
      | _ \<Rightarrow> (None, w))"

end
