(* ===== verification/Snapshot_Events.thy ===== *)
theory Snapshot_Events
  imports Scheduler_Snapshot
begin

text \<open>
  What the handlers of the outbox events achieve (\<open>service/scheduler_snapshot_service.go\<close>, together with the
  cache, the queries and the operations of \<open>repository\<close>): the snapshots that an event brings up to date, and
  those it misses.
\<close>

section \<open>What is loaded\<close>

definition loaded :: "account_db \<Rightarrow> FullAccount set" where
  "loaded db = service_account db ` set (db_accounts db)"

lemma loaded_same:
  "distinct (map fa_ID (db_accounts db)) \<Longrightarrow> a \<in> loaded db \<Longrightarrow> a' \<in> loaded db \<Longrightarrow> fa_ID a = fa_ID a' \<Longrightarrow> a = a'"
  by (auto simp: loaded_def dest: distinct_map_same)

lemma select_accounts_set: "set (select_accounts db p) = service_account db ` {a \<in> set (db_accounts db). p a}"
  by (simp add: select_accounts_def accountsToService_def)

lemma map_ID_service [simp]: "map fa_ID (accountsToService db rows) = map fa_ID rows"
  by (simp add: accountsToService_def)

lemma distinct_sort_key: "distinct (map f xs) \<Longrightarrow> distinct (map f (sort_key g xs))"
  by (simp add: distinct_map)

lemma select_accounts_distinct:
  "distinct (map fa_ID (db_accounts db)) \<Longrightarrow> distinct (map fa_ID (select_accounts db p))"
  by (simp add: select_accounts_def distinct_sort_key distinct_map_filter)

lemma first_accounts_ids:
  "distinct (map fa_ID (first_accounts seen rows)) \<and> fa_ID ` set (first_accounts seen rows) \<inter> seen = {}"
  by (induction seen rows rule: first_accounts.induct) auto

lemma first_accounts_sub: "set (first_accounts seen rows) \<subseteq> snd ` set rows"
  by (induction seen rows rule: first_accounts.induct) auto

lemma first_accounts_ids_sup: "fa_ID ` snd ` set rows \<subseteq> seen \<union> fa_ID ` set (first_accounts seen rows)"
  by (induction seen rows rule: first_accounts.induct) auto

lemma group_query_member:
  assumes "x \<in> set (queryAccountsByGroup now db g opts)"
  shows "\<exists>row \<in> set (db_accounts db). x = service_account db row \<and> group_predicates now opts row
    \<and> (\<exists>l \<in> set (db_links db). ag_GroupID l = g \<and> ag_AccountID l = fa_ID row)"
proof -
  let ?rows = "[(l, a). l \<leftarrow> db_links db, ag_GroupID l = g,
      a \<leftarrow> db_accounts db, fa_ID a = ag_AccountID l \<and> group_predicates now opts a]"
  obtain row where row: "row \<in> set (first_accounts {} (sort_key (\<lambda>(l, a). (ag_Priority l, fa_Priority a)) ?rows))"
    "x = service_account db row"
    using assms unfolding queryAccountsByGroup_def Let_def accountsToService_def by auto
  have "row \<in> snd ` set ?rows" using first_accounts_sub row(1) by fastforce
  then have "row \<in> set (db_accounts db)" "group_predicates now opts row"
    "\<exists>l \<in> set (db_links db). ag_GroupID l = g \<and> ag_AccountID l = fa_ID row" by auto
  with row(2) show ?thesis by blast
qed

lemma group_query_distinct: "distinct (map fa_ID (queryAccountsByGroup now db g opts))"
  unfolding queryAccountsByGroup_def Let_def map_ID_service using first_accounts_ids by blast

lemmas list_queries = ListSchedulableByPlatform_def ListSchedulableByPlatforms_def ListSchedulableUngroupedByPlatform_def
  ListSchedulableUngroupedByPlatforms_def

lemmas group_queries = ListSchedulableByGroupIDAndPlatform_def ListSchedulableByGroupIDAndPlatforms_def

lemma load_accounts_distinct:
  "distinct (map fa_ID (db_accounts db)) \<Longrightarrow> distinct (map fa_ID (load_accounts s b m now db))"
  by (auto simp: load_accounts_def Let_def list_queries group_queries
      intro!: distinct_map_filter select_accounts_distinct group_query_distinct)

text \<open>An account is loaded for a bucket only if it is of the bucket's platform, or of Antigravity with mixed
  scheduling, and linked to the bucket's group, or to none for the bucket without group.\<close>

lemma load_accounts_member:
  assumes "x \<in> set (load_accounts s b m now db)"
  shows "\<exists>row \<in> set (db_accounts db). x = service_account db row
    \<and> (fa_Platform row = bu_Platform b \<or> m \<and> fa_Platform row = PlatformAntigravity \<and> IsMixedSchedulingEnabled row)
    \<and> (isRunModeSimple s
       \<or> (if 0 < bu_GroupID b then \<exists>l \<in> set (db_links db). ag_GroupID l = bu_GroupID b \<and> ag_AccountID l = fa_ID row
          else ungrouped db row))"
proof -
  have mixed: "IsMixedSchedulingEnabled (service_account db row) = IsMixedSchedulingEnabled row" for row
    by (simp add: IsMixedSchedulingEnabled_def)
  show ?thesis
  proof (cases "isRunModeSimple s")
    case True
    then show ?thesis using assms mixed
      by (cases m) (auto simp: load_accounts_def Let_def list_queries select_accounts_set)
  next
    case simple: False
    show ?thesis
    proof (cases "0 < bu_GroupID b")
      case True
      let ?q = "\<lambda>ps. \<lparr>qo_status = StatusActive, qo_schedulable = True, qo_platforms = ps\<rparr>"
      show ?thesis
      proof (cases m)
        case m: True
        then have "x \<in> set (queryAccountsByGroup now db (bu_GroupID b) (?q [bu_Platform b, PlatformAntigravity]))"
          "\<not> (fa_Platform x = PlatformAntigravity \<and> \<not> IsMixedSchedulingEnabled x)"
          using assms simple True by (simp_all add: load_accounts_def Let_def group_queries)
        with group_query_member [OF this(1)] show ?thesis using m True mixed by (auto simp: group_predicates_def)
      next
        case m: False
        then have "x \<in> set (queryAccountsByGroup now db (bu_GroupID b) (?q [bu_Platform b]))"
          using assms simple True by (simp add: load_accounts_def Let_def group_queries)
        with group_query_member [OF this] show ?thesis using m True by (auto simp: group_predicates_def)
      qed
    next
      case False
      then show ?thesis using assms simple mixed
        by (cases m) (auto simp: load_accounts_def Let_def list_queries select_accounts_set)
    qed
  qed
qed

lemma load_accounts_loaded: "set (load_accounts s b m now db) \<subseteq> loaded db"
  using load_accounts_member by (fastforce simp: loaded_def)

section \<open>One rebuild\<close>

text \<open>No lock is held, and buckets outside \<open>D\<close> have versions left.\<close>

definition rebuild_inv :: "SchedulerBucket set \<Rightarrow> sched_redis \<Rightarrow> bool" where
  "rebuild_inv D r =
     ((\<forall>b. sr_strings r (lock_key b) = None)
      \<and> (\<forall>b. plain_bucket b \<longrightarrow> (\<exists>n. bucket_ok b n r \<and> (b \<notin> D \<longrightarrow> n < MaxInt64))))"

text \<open>The key spaces agree but for locks.\<close>

definition same_but_locks :: "sched_redis \<Rightarrow> sched_redis \<Rightarrow> bool" where
  "same_but_locks r r' = (\<forall>k. (\<forall>b. k \<noteq> lock_key b) \<longrightarrow> sr_strings r' k = sr_strings r k \<and> sr_zsets r' k = sr_zsets r k)"

lemma snapshot_key_not_lock: "schedulerSnapshotKey b v \<noteq> lock_key b'"
  using snapshot_not_side by (auto simp: is_side_key_def)

lemma lock_keys_apart:
  "version_key b \<noteq> lock_key b'" "active_key b \<noteq> lock_key b'" "ready_key b \<noteq> lock_key b'"
  "schedulerAccountMetaKey i \<noteq> lock_key b'"
  using lock_key_apart by metis+

lemma bucket_ok_locks: "same_but_locks r r' \<Longrightarrow> bucket_ok b n r' = bucket_ok b n r"
  by (simp add: same_but_locks_def bucket_ok_def lock_keys_apart snapshot_key_not_lock)

lemma published_locks: "same_but_locks r r' \<Longrightarrow> published cd b accounts r' = published cd b accounts r"
  by (simp add: same_but_locks_def published_def lock_keys_apart snapshot_key_not_lock)

lemma lock_key_inject: "plain_bucket b \<Longrightarrow> plain_bucket b' \<Longrightarrow> lock_key b = lock_key b' \<longleftrightarrow> b = b'"
  by (rule bucket_key_inject)

text \<open>Calls that meet no failure and a database that stays as it is.\<close>

definition steady :: "snapshot_env \<Rightarrow> (nat \<Rightarrow> time) \<Rightarrow> account_db \<Rightarrow> bool" where
  "steady env T db = (\<forall>n. sn_cache env n = quiet (T n) \<and> sn_db env n = Inr db)"

definition storable :: "snapshot_env \<Rightarrow> account_db \<Rightarrow> bool" where
  "storable env db = (distinct (map fa_ID (db_accounts db)) \<and> (\<forall>a \<in> loaded db. cacheable (sn_codec env) a))"

definition ready_service :: "SchedulerSnapshotService \<Rightarrow> bool" where
  "ready_service s = (sv_accountRepo s \<and> (\<exists>mget wr. sv_cache s = Some (newSchedulerCacheWithChunkSizes mget wr)))"

lemma chunk_positive: "0 < sch_writeChunkSize (newSchedulerCacheWithChunkSizes mget wr)"
  by (simp add: newSchedulerCacheWithChunkSizes_def defaultSchedulerSnapshotWriteChunkSize_def)

lemma published_elsewhere:
  assumes "published cd b' as r" "bucket_ok b n r" "plain_bucket b" "plain_bucket b'" "b' \<noteq> b"
    and "set as \<subseteq> loaded db" "set accounts \<subseteq> loaded db" "distinct (map fa_ID (db_accounts db))" "distinct (map fa_ID accounts)"
  shows "published cd b' as (snapshot_set cd now b (n + 1) accounts r)"
proof -
  have "sr_strings (snapshot_set cd now b (n + 1) accounts r) (schedulerAccountMetaKey (itoa (fa_ID a))) =
      Some (payload_of cd (buildSchedulerMetadataAccount a), None)"
    if "a \<in> set as" "sr_strings r (schedulerAccountMetaKey (itoa (fa_ID a))) = Some (payload_of cd (buildSchedulerMetadataAccount a), None)" for a
  proof (cases "fa_ID a \<in> fa_ID ` set accounts")
    case True
    then obtain a' where "a' \<in> set accounts" "fa_ID a' = fa_ID a" by auto
    then have "a \<in> set accounts" using loaded_same [OF assms(8), of a' a] assms(6,7) that(1) by auto
    then show ?thesis using snapshot_set_published [OF assms(2,9)] unfolding published_def by blast
  next
    case False
    then show ?thesis using snapshot_set_copies that(2) by simp
  qed
  then show ?thesis
    using assms(1) snapshot_set_elsewhere [OF assms(2-5)] unfolding published_def by auto
qed

lemma rebuildBucket_ok:
  assumes "steady env T db" "storable env db" "ready_service s"
    and "rebuild_inv D (wd_redis w)" "plain_bucket b" "b \<notin> D"
  shows "\<exists>w' t. rebuildBucket s env b w = (None, w') \<and> rebuild_inv (insert b D) (wd_redis w') \<and> wd_seen w' = wd_seen w
    \<and> published (sn_codec env) b (load_accounts s b (bu_Mode b = SchedulerModeMixed) t db) (wd_redis w')
    \<and> (\<forall>b' as. plain_bucket b' \<longrightarrow> b' \<noteq> b \<longrightarrow> set as \<subseteq> loaded db \<longrightarrow>
         published (sn_codec env) b' as (wd_redis w) \<longrightarrow> published (sn_codec env) b' as (wd_redis w'))"
proof -
  let ?n = "wd_calls w" and ?cd = "sn_codec env"
  obtain mget wr where c: "sv_cache s = Some (newSchedulerCacheWithChunkSizes mget wr)"
    and repo: "sv_accountRepo s" using assms(3) by (auto simp: ready_service_def)
  let ?c = "newSchedulerCacheWithChunkSizes mget wr"
  have env: "sn_cache env m = quiet (T m)" "sn_db env m = Inr db" for m using assms(1) by (auto simp: steady_def)
  have free: "sr_strings (wd_redis w) (lock_key b') = None" for b' using assms(4) by (simp add: rebuild_inv_def)
  obtain n where n: "bucket_ok b n (wd_redis w)" "n < MaxInt64" using assms(4-6) by (auto simp: rebuild_inv_def)
  define r1 where "r1 = redis_SET (lock_key b) (itoa (T ?n)) (Some (T ?n + 30 * Second)) (wd_redis w)"
  have l1: "same_but_locks (wd_redis w) r1" by (simp add: same_but_locks_def r1_def redis_SET_def)
  define accounts where "accounts = load_accounts s b (bu_Mode b = SchedulerModeMixed) (T (Suc ?n)) db"
  have acc: "distinct (map fa_ID accounts)" "set accounts \<subseteq> loaded db" "\<forall>a \<in> set accounts. cacheable ?cd a"
    using assms(2) load_accounts_distinct load_accounts_loaded unfolding accounts_def storable_def by blast+
  have ok1: "bucket_ok b n r1" using n(1) bucket_ok_locks [OF l1] by simp
  define r2 where "r2 = snapshot_set ?cd (T (Suc (Suc ?n))) b (n + 1) accounts r1"
  have set: "SetSnapshot ?cd ?c (quiet (T (Suc (Suc ?n)))) b accounts r1 = (None, r2)"
    using SetSnapshot_ok [OF ok1 n(2) acc(3) chunk_positive] by (simp add: r2_def snapshot_set_def)
  define r3 where "r3 = redis_DEL (lock_key b) r2"
  have l2: "same_but_locks r2 r3" by (simp add: same_but_locks_def r3_def redis_DEL_def)
  let ?w = "w\<lparr>wd_calls := Suc (Suc (Suc (Suc ?n))), wd_redis := r3\<rparr>"
  have run: "rebuildBucket s env b w = (None, ?w)"
    using set [unfolded r1_def] by (simp add: rebuildBucket_def c repo cache_call_def db_call_def loadAccountsFromDB_def env TryLockBucket_def
        UnlockBucket_def Let_def redis_GET_def free r3_def flip: accounts_def)
  have "sr_strings r3 (lock_key b') = None" for b'
    using free [of b'] by (auto simp: r3_def redis_DEL_def r2_def snapshot_set_lock r1_def redis_SET_def)
  moreover have "\<exists>m. bucket_ok b' m r3 \<and> (b' \<notin> insert b D \<longrightarrow> m < MaxInt64)" if b': "plain_bucket b'" for b'
  proof (cases "b' = b")
    case True
    then show ?thesis using snapshot_set_bucket_ok [OF ok1] bucket_ok_locks [OF l2] by (auto simp: r2_def)
  next
    case False
    obtain m where m: "bucket_ok b' m (wd_redis w)" "b' \<notin> D \<longrightarrow> m < MaxInt64" using assms(4) b' by (auto simp: rebuild_inv_def)
    then have "bucket_ok b' m r1" using bucket_ok_locks [OF l1] by simp
    then have "bucket_ok b' m r2"
      using snapshot_set_elsewhere [OF ok1 assms(5) b' False] by (simp add: bucket_ok_def r2_def)
    then show ?thesis using m(2) bucket_ok_locks [OF l2] by auto
  qed
  ultimately have "rebuild_inv (insert b D) (wd_redis ?w)" by (simp add: rebuild_inv_def)
  moreover have "published ?cd b accounts (wd_redis ?w)"
    using snapshot_set_published [OF ok1 acc(1)] published_locks [OF l2] by (simp add: r2_def)
  moreover have "published ?cd b' as (wd_redis ?w)"
    if "plain_bucket b'" "b' \<noteq> b" "set as \<subseteq> loaded db" "published ?cd b' as (wd_redis w)" for b' as
    using published_elsewhere [OF _ ok1 assms(5) that(1,2,3) acc(2) _ acc(1)] that(4) published_locks [OF l1] published_locks [OF l2]
      assms(2) by (simp add: r2_def storable_def)
  ultimately show ?thesis using run unfolding accounts_def by (intro exI [of _ ?w] exI [of _ "T (Suc ?n)"]) simp
qed

section \<open>Whole events\<close>

definition seen_buckets :: "sched_world \<Rightarrow> SchedulerBucket set" where
  "seen_buckets w = {b. (bu_GroupID b, bu_Platform b) \<in> set (wd_seen w)}"

definition up_to_date :: "SchedulerSnapshotService \<Rightarrow> snapshot_env \<Rightarrow> account_db \<Rightarrow> SchedulerBucket \<Rightarrow> sched_world \<Rightarrow> bool" where
  "up_to_date s env db b w =
     (\<exists>t. published (sn_codec env) b (load_accounts s b (bu_Mode b = SchedulerModeMixed) t db) (wd_redis w))"

text \<open>The buckets of every pair that has been seen are up to date.\<close>

definition seen_ok :: "SchedulerSnapshotService \<Rightarrow> snapshot_env \<Rightarrow> account_db \<Rightarrow> sched_world \<Rightarrow> bool" where
  "seen_ok s env db w =
     (rebuild_inv (seen_buckets w) (wd_redis w)
      \<and> (\<forall>(g, p) \<in> set (wd_seen w). \<forall>b \<in> set (platform_buckets g p). up_to_date s env db b w))"

lemma rebuild_inv_mono: "rebuild_inv D r \<Longrightarrow> D \<subseteq> D' \<Longrightarrow> rebuild_inv D' r"
  unfolding rebuild_inv_def by blast

lemma platform_buckets_fields:
  "b \<in> set (platform_buckets g p) \<Longrightarrow> bu_GroupID b = g \<and> bu_Platform b = p \<and>
     bu_Mode b \<in> {SchedulerModeSingle, SchedulerModeForced, SchedulerModeMixed}"
  by (auto simp: platform_buckets_def split: if_splits)

lemma platform_buckets_plain: "CHR '':'' \<notin> set p \<Longrightarrow> b \<in> set (platform_buckets g p) \<Longrightarrow> plain_bucket b"
  using platform_buckets_fields [of b g p]
  by (auto simp: plain_bucket_def SchedulerModeSingle_def SchedulerModeForced_def SchedulerModeMixed_def)

lemma platform_buckets_distinct: "distinct (platform_buckets g p)"
  by (simp add: platform_buckets_def SchedulerModeSingle_def SchedulerModeForced_def SchedulerModeMixed_def)

lemma rebuildBuckets_ok:
  assumes "steady env T db" "storable env db" "ready_service s"
    and "rebuild_inv D (wd_redis w)" "distinct bs" "\<forall>b \<in> set bs. plain_bucket b \<and> b \<notin> D"
  shows "\<exists>w'. rebuildBuckets s env bs w = (None, w') \<and> rebuild_inv (D \<union> set bs) (wd_redis w') \<and> wd_seen w' = wd_seen w
    \<and> (\<forall>b \<in> set bs. up_to_date s env db b w')
    \<and> (\<forall>b. plain_bucket b \<longrightarrow> b \<notin> set bs \<longrightarrow> up_to_date s env db b w \<longrightarrow> up_to_date s env db b w')"
  using assms(4-6)
proof (induction bs arbitrary: D w)
  case Nil
  then show ?case by simp
next
  case (Cons b bs)
  have "plain_bucket b" "b \<notin> D" using Cons(4) by simp_all
  from rebuildBucket_ok [OF assms(1-3) Cons(2) this] obtain w1 t where w1: "rebuildBucket s env b w = (None, w1)"
    "rebuild_inv (insert b D) (wd_redis w1)" "wd_seen w1 = wd_seen w"
    "published (sn_codec env) b (load_accounts s b (bu_Mode b = SchedulerModeMixed) t db) (wd_redis w1)"
    "\<And>b' as. plain_bucket b' \<Longrightarrow> b' \<noteq> b \<Longrightarrow> set as \<subseteq> loaded db \<Longrightarrow> published (sn_codec env) b' as (wd_redis w) \<Longrightarrow>
       published (sn_codec env) b' as (wd_redis w1)" by blast
  have "distinct bs" "\<forall>b' \<in> set bs. plain_bucket b' \<and> b' \<notin> insert b D" using Cons(3,4) by auto
  from Cons(1) [OF w1(2) this] obtain w2 where w2: "rebuildBuckets s env bs w1 = (None, w2)"
    "rebuild_inv (insert b D \<union> set bs) (wd_redis w2)" "wd_seen w2 = wd_seen w1" "\<forall>b \<in> set bs. up_to_date s env db b w2"
    "\<And>b. plain_bucket b \<Longrightarrow> b \<notin> set bs \<Longrightarrow> up_to_date s env db b w1 \<Longrightarrow> up_to_date s env db b w2" by blast
  have "up_to_date s env db b w1" using w1(4) unfolding up_to_date_def by blast
  then have "up_to_date s env db b w2" using w2(5) Cons(3,4) by simp
  moreover have "up_to_date s env db b' w1" if "plain_bucket b'" "b' \<noteq> b" "up_to_date s env db b' w" for b'
    using that w1(5) load_accounts_loaded unfolding up_to_date_def by blast
  ultimately show ?case
    using w1(1,3) w2 by (intro exI [of _ w2]) (auto simp: first_error_def)
qed

lemma rebuild_groups_ok:
  assumes "steady env T db" "storable env db" "ready_service s" "CHR '':'' \<notin> set p"
    and "seen_ok s env db w" "\<forall>(g, q) \<in> set (wd_seen w). CHR '':'' \<notin> set q"
  shows "\<exists>w'. rebuild_groups s env p gs w = (None, w') \<and> seen_ok s env db w'
    \<and> set (wd_seen w') = set (wd_seen w) \<union> (\<lambda>g. (g, p)) ` set gs"
  using assms(5,6)
proof (induction gs arbitrary: w)
  case Nil
  then show ?case by simp
next
  case (Cons g gs)
  show ?case
  proof (cases "(g, p) \<in> set (wd_seen w)")
    case True
    from Cons(1) [OF Cons(2,3)] show ?thesis using True by auto
  next
    case False
    let ?w = "w\<lparr>wd_seen := (g, p) # wd_seen w\<rparr>"
    have new: "b \<notin> seen_buckets w" if "b \<in> set (platform_buckets g p)" for b
      using False platform_buckets_fields [OF that] by (simp add: seen_buckets_def)
    have "rebuild_inv (seen_buckets w) (wd_redis ?w)" using Cons(2) by (simp add: seen_ok_def)
    from rebuildBuckets_ok [OF assms(1-3) this platform_buckets_distinct [of g p]]
    obtain w1 where w1: "rebuildBuckets s env (platform_buckets g p) ?w = (None, w1)"
      "rebuild_inv (seen_buckets w \<union> set (platform_buckets g p)) (wd_redis w1)" "wd_seen w1 = wd_seen ?w"
      "\<forall>b \<in> set (platform_buckets g p). up_to_date s env db b w1"
      "\<And>b. plain_bucket b \<Longrightarrow> b \<notin> set (platform_buckets g p) \<Longrightarrow> up_to_date s env db b ?w \<Longrightarrow> up_to_date s env db b w1"
      using platform_buckets_plain [OF assms(4)] new by blast
    have "seen_buckets w \<union> set (platform_buckets g p) \<subseteq> seen_buckets w1"
      using platform_buckets_fields w1(3) by (auto simp: seen_buckets_def)
    then have inv: "rebuild_inv (seen_buckets w1) (wd_redis w1)" using rebuild_inv_mono w1(2) by blast
    have "up_to_date s env db b w1" if gq: "(g', q) \<in> set (wd_seen w)" and b: "b \<in> set (platform_buckets g' q)" for g' q b
    proof -
      have "plain_bucket b" using platform_buckets_plain Cons(3) gq b by blast
      moreover have "b \<notin> set (platform_buckets g p)"
        using platform_buckets_fields [OF b] platform_buckets_fields [of b g p] gq False by auto
      moreover have "up_to_date s env db b ?w" using Cons(2) gq b unfolding seen_ok_def up_to_date_def by fastforce
      ultimately show ?thesis by (rule w1(5))
    qed
    then have "seen_ok s env db w1" using inv w1(3,4) unfolding seen_ok_def by auto
    moreover have "\<forall>(g, q) \<in> set (wd_seen w1). CHR '':'' \<notin> set q" using Cons(3) w1(3) assms(4) by auto
    ultimately obtain w2 where "rebuild_groups s env p gs w1 = (None, w2)" "seen_ok s env db w2"
      "set (wd_seen w2) = set (wd_seen w1) \<union> (\<lambda>g. (g, p)) ` set gs" using Cons(1) by blast
    then show ?thesis using False w1(1,3) by (intro exI [of _ w2]) (auto simp: first_error_def Let_def)
  qed
qed

lemma rebuild_platforms_ok:
  assumes "steady env T db" "storable env db" "ready_service s" "\<forall>p \<in> set ps. CHR '':'' \<notin> set p \<and> p \<noteq> ''''"
    and "seen_ok s env db w" "\<forall>(g, q) \<in> set (wd_seen w). CHR '':'' \<notin> set q"
  shows "\<exists>w'. rebuild_platforms s env ps gs w = (None, w') \<and> seen_ok s env db w'
    \<and> set (wd_seen w') = set (wd_seen w) \<union> {(g, p). g \<in> set gs \<and> p \<in> set ps}"
  using assms(4-6)
proof (induction ps arbitrary: w)
  case Nil
  then show ?case by simp
next
  case (Cons p ps)
  from rebuild_groups_ok [OF assms(1-3) _ Cons(3,4), of p gs] Cons(2)
  obtain w1 where w1: "rebuild_groups s env p gs w = (None, w1)" "seen_ok s env db w1"
    "set (wd_seen w1) = set (wd_seen w) \<union> (\<lambda>g. (g, p)) ` set gs" by auto
  have "\<forall>(g, q) \<in> set (wd_seen w1). CHR '':'' \<notin> set q" using w1(3) Cons(2,4) by auto
  with Cons(1) [OF _ w1(2)] Cons(2) obtain w2 where w2: "rebuild_platforms s env ps gs w1 = (None, w2)" "seen_ok s env db w2"
    "set (wd_seen w2) = set (wd_seen w1) \<union> {(g, p). g \<in> set gs \<and> p \<in> set ps}" by auto
  then show ?case using w1 Cons(2)
    by (intro exI [of _ w2]) (auto simp: rebuildBucketsForPlatform_def first_error_def)
qed

lemma row_found:
  assumes "distinct (map fa_ID (db_accounts db))" "row \<in> set (db_accounts db)"
  shows "GetByID None db (fa_ID row) = Inr (service_account db row)"
proof -
  have "row \<in> set (filter (\<lambda>a. fa_ID a = fa_ID row) (db_accounts db))" using assms(2) by simp
  then obtain a as where as: "filter (\<lambda>a. fa_ID a = fa_ID row) (db_accounts db) = a # as" by (cases "filter (\<lambda>a. fa_ID a = fa_ID row) (db_accounts db)") auto
  then have "a \<in> set (filter (\<lambda>a. fa_ID a = fa_ID row) (db_accounts db))" by simp
  then have "a = row" using distinct_map_same [OF assms(1) _ assms(2)] by auto
  then show ?thesis using as by (simp add: GetByID_def)
qed

lemma store_account_ok:
  assumes "steady env T db" "ready_service s" "cacheable (sn_codec env) a" "0 < fa_ID a" "rebuild_inv D (wd_redis w)"
  shows "\<exists>w'. store_account s env a w = (None, w') \<and> rebuild_inv D (wd_redis w') \<and> wd_seen w' = wd_seen w"
proof -
  obtain mget wr where c: "sv_cache s = Some (newSchedulerCacheWithChunkSizes mget wr)" using assms(2) by (auto simp: ready_service_def)
  let ?r = "fold (\<lambda>c. c) (concat (map (account_commands (sn_codec env)) [a])) (wd_redis w)"
  have "SetAccount (sn_codec env) (newSchedulerCacheWithChunkSizes mget wr) (sn_cache env (wd_calls w)) (Some a) (wd_redis w) = (None, ?r)"
    using assms(1,3,4) writeAccounts_ok [of "[a]" "sn_codec env"] by (simp add: SetAccount_def steady_def)
  then have run: "store_account s env a w = (None, w\<lparr>wd_calls := Suc (wd_calls w), wd_redis := ?r\<rparr>)"
    by (simp add: store_account_def c cache_call_def)
  have "same_frame (wd_redis w) ?r" by (rule same_frame_commands)
  then have "bucket_ok b n ?r = bucket_ok b n (wd_redis w)" for b n by (simp add: bucket_ok_def same_frame_def snapshot_not_side)
  moreover have "sr_strings ?r (lock_key b) = sr_strings (wd_redis w) (lock_key b)" for b by (rule commands_elsewhere) simp
  ultimately show ?thesis using assms(5) by (simp add: run rebuild_inv_def)
qed

lemma group_normalized: "g \<in> set gs \<Longrightarrow> 0 < g \<Longrightarrow> \<not> isRunModeSimple s \<Longrightarrow> g \<in> set (normalizeGroupIDs s gs)"
proof -
  assume g: "g \<in> set gs" "0 < g" "\<not> isRunModeSimple s"
  then have "g \<in> set (add_positive [] gs)" by simp
  then show ?thesis using g(1,3) by (cases "add_positive [] gs") (auto simp: normalizeGroupIDs_def)
qed

lemma normalized_group:
  assumes "x \<in> set (load_accounts s b m t db)" "x = service_account db row" "row \<in> set (db_accounts db)" "0 < fa_ID row"
    and "distinct (map fa_ID (db_accounts db))" "bu_GroupID b = normalizeGroupID s groupID"
    and "gs = [] \<or> \<not> ungrouped db row \<and> set (fa_GroupIDs x) \<subseteq> set gs"
  shows "bu_GroupID b \<in> set (normalizeGroupIDs s (if gs = [] then fa_GroupIDs x else gs))"
proof (cases "isRunModeSimple s")
  case True
  then show ?thesis using assms(6) by (simp add: normalizeGroupID_def normalizeGroupIDs_def)
next
  case False
  obtain row' where "row' \<in> set (db_accounts db)" "x = service_account db row'"
    and g: "if 0 < bu_GroupID b then \<exists>l \<in> set (db_links db). ag_GroupID l = bu_GroupID b \<and> ag_AccountID l = fa_ID row'
            else ungrouped db row'"
    using load_accounts_member [OF assms(1)] False by blast
  then have "row' = row" using distinct_map_same [OF assms(5) _ assms(3)] assms(2) by (metis service_account_fields(1))
  note g = g [unfolded this]
  have ids: "fa_GroupIDs x = map ag_GroupID (account_links db (fa_ID row))" using assms(2,4) by (simp add: service_account_def Let_def)
  show ?thesis
  proof (cases "0 < bu_GroupID b")
    case True
    then obtain l where "l \<in> set (db_links db)" "ag_GroupID l = bu_GroupID b" "ag_AccountID l = fa_ID row" using g by auto
    then have "bu_GroupID b \<in> set (fa_GroupIDs x)" by (force simp: ids account_links_def)
    then have "bu_GroupID b \<in> set (if gs = [] then fa_GroupIDs x else gs)" using assms(7) by auto
    then show ?thesis using group_normalized False True by blast
  next
    case zero: False
    then have u: "ungrouped db row" using g by simp
    then have "account_links db (fa_ID row) = []" by (auto simp: ungrouped_def account_links_def list_ex_iff filter_empty_conv)
    then have "gs = [] \<and> fa_GroupIDs x = []" using ids assms(7) u by simp
    moreover have "bu_GroupID b = 0" using assms(6) zero by (auto simp: normalizeGroupID_def split: option.splits if_splits)
    ultimately show ?thesis using False by (simp add: normalizeGroupIDs_def)
  qed
qed

text \<open>C26: Handling the event of a changed account brings every snapshot that a request can be scheduled from and
  that the account now belongs to up to date with the database: what readers then get is what the database lists. This
  is so when no call to Redis or to the database fails, the database does not change while the event is handled, no
  process holds the rebuild lock of a bucket, the version keys in Redis are in order and no counter is used up, nothing
  has been rebuilt in this poll yet, the account has one of the known platforms, every account survives the JSON codec, and the event names no groups
  or all groups of a grouped account.\<close>

theorem account_event_updates_buckets:
  assumes "steady env T db" "storable env db" "sv_accountRepo s" "sv_cache s = Some (newSchedulerCacheWithChunkSizes mget write)"
    and "rebuild_inv {} (wd_redis w)" "wd_seen w = []"
    and "row \<in> set (db_accounts db)" "0 < fa_ID row" "fa_Platform row \<in> set all_platforms"
    and "se_EventType e \<in> {SchedulerOutboxEventAccountChanged, SchedulerOutboxEventAccountGroupsChanged}"
    and "se_AccountID e = Some (fa_ID row)"
    and "payload_groups (event_payload env e) = []
         \<or> \<not> ungrouped db row \<and> set (fa_GroupIDs (service_account db row)) \<subseteq> set (payload_groups (event_payload env e))"
    and "b = bucketFor s groupID platform (resolveMode platform force)"
    and "service_account db row \<in> set (load_accounts s b (bu_Mode b = SchedulerModeMixed) t db)"
  shows "\<exists>w' t'. handleOutboxEvent s env e w = (None, w')
    \<and> (\<forall>now. GetSnapshot (sn_codec env) (newSchedulerCacheWithChunkSizes mget write) (quiet now) b (wd_redis w') =
         Inr (let accounts = load_accounts s b (bu_Mode b = SchedulerModeMixed) t' db
              in if accounts = [] then None else Some (map buildSchedulerMetadataAccount accounts)))"
proof -
  let ?a = "service_account db row" and ?gs = "payload_groups (event_payload env e)"
  let ?groups = "if ?gs = [] then fa_GroupIDs ?a else ?gs"
  have ready: "ready_service s" using assms(3,4) by (auto simp: ready_service_def)
  have ids: "distinct (map fa_ID (db_accounts db))" using assms(2) by (simp add: storable_def)
  have "?a \<in> loaded db" using assms(7) by (simp add: loaded_def)
  then have "cacheable (sn_codec env) ?a" using assms(2) by (simp add: storable_def)
  from store_account_ok [OF assms(1) ready this, of "{}" "w\<lparr>wd_calls := Suc (wd_calls w)\<rparr>"] assms(5,6,8)
  obtain w1 where w1: "store_account s env ?a (w\<lparr>wd_calls := Suc (wd_calls w)\<rparr>) = (None, w1)" "rebuild_inv {} (wd_redis w1)"
    "wd_seen w1 = []" by auto
  have plain: "\<forall>p \<in> set (account_platforms ?a). CHR '':'' \<notin> set p \<and> p \<noteq> ''''"
    using assms(9) by (auto simp: account_platforms_def all_platforms_def platform_defs)
  have "seen_ok s env db w1" using w1(2,3) by (simp add: seen_ok_def seen_buckets_def)
  from rebuild_platforms_ok [OF assms(1,2) ready plain this, of "normalizeGroupIDs s ?groups"] w1(3)
  obtain w2 where w2: "rebuild_platforms s env (account_platforms ?a) (normalizeGroupIDs s ?groups) w1 = (None, w2)"
    "seen_ok s env db w2" "set (wd_seen w2) = {(g, p). g \<in> set (normalizeGroupIDs s ?groups) \<and> p \<in> set (account_platforms ?a)}"
    by auto
  have "normalizeGroupIDs s gs \<noteq> []" for gs by (auto simp: normalizeGroupIDs_def Let_def)
  then have "rebuildByAccount s env ?a ?groups w1 = (None, w2)" using w2(1) by (simp add: rebuildByAccount_def)
  moreover have "handleOutboxEvent s env e w = handleAccountEvent s env (Some (fa_ID row)) (event_payload env e) w"
    using assms(10,11) by (auto simp: handleOutboxEvent_def Let_def SchedulerOutboxEventAccountChanged_def
        SchedulerOutboxEventAccountGroupsChanged_def SchedulerOutboxEventAccountLastUsed_def SchedulerOutboxEventAccountBulkChanged_def)
  ultimately have run: "handleOutboxEvent s env e w = (None, w2)"
    using assms(1,3,8) row_found [OF ids assms(7)] w1(1) by (simp add: handleAccountEvent_def db_call_def steady_def Let_def)
  have g: "bu_GroupID b \<in> set (normalizeGroupIDs s ?groups)"
    by (rule normalized_group [OF assms(14) refl assms(7,8) ids _ assms(12)]) (simp add: assms(13) bucketFor_def)
  have mode: "bu_Mode b = resolveMode platform force" and pl: "bu_Platform b = platform" by (simp_all add: assms(13) bucketFor_def)
  obtain row' where row': "row' \<in> set (db_accounts db)" "?a = service_account db row'"
    "fa_Platform row' = platform \<or> bu_Mode b = SchedulerModeMixed \<and> fa_Platform row' = PlatformAntigravity \<and> IsMixedSchedulingEnabled row'"
    using load_accounts_member [OF assms(14)] pl by blast
  then have "row' = row" using distinct_map_same [OF ids _ assms(7)] by (metis service_account_fields(1))
  note p = row'(3) [unfolded this]
  have mixed: "IsMixedSchedulingEnabled ?a = IsMixedSchedulingEnabled row" by (simp add: IsMixedSchedulingEnabled_def)
  have "platform \<in> set (account_platforms ?a)" and b: "b \<in> set (platform_buckets (bu_GroupID b) platform)"
    using p mode pl mixed by (auto simp: account_platforms_def resolveMode_def platform_buckets_def has_mixed_def assms(13) bucketFor_def
        SchedulerModeMixed_def SchedulerModeForced_def SchedulerModeSingle_def split: if_splits)
  then have "(bu_GroupID b, platform) \<in> set (wd_seen w2)" using w2(3) g by simp
  then have "up_to_date s env db b w2" using w2(2) b unfolding seen_ok_def by fastforce
  then obtain t' where "published (sn_codec env) b (load_accounts s b (bu_Mode b = SchedulerModeMixed) t' db) (wd_redis w2)"
    by (auto simp: up_to_date_def)
  moreover have "\<forall>a \<in> set (load_accounts s b (bu_Mode b = SchedulerModeMixed) t' db). cacheable (sn_codec env) a"
    using assms(2) load_accounts_loaded unfolding storable_def by blast
  ultimately show ?thesis using run published_read load_accounts_distinct [OF ids] by (metis (no_types, lifting))
qed

section \<open>What a rebuild leaves alone\<close>

text \<open>The lists of all buckets outside the groups \<open>G\<close> are as before: their versions and the sorted sets of these.\<close>

definition lists_kept :: "int set \<Rightarrow> sched_redis \<Rightarrow> sched_redis \<Rightarrow> bool" where
  "lists_kept G r r' =
     (\<forall>b. bu_GroupID b \<notin> G \<longrightarrow>
        (\<forall>k \<in> {version_key b, active_key b, ready_key b}. sr_strings r' k = sr_strings r k)
        \<and> (\<forall>v. sr_zsets r' (schedulerSnapshotKey b v) = sr_zsets r (schedulerSnapshotKey b v)))"

lemma lists_kept_refl [simp]: "lists_kept G r r"
  by (simp add: lists_kept_def)

lemma lists_kept_trans: "lists_kept G r r' \<Longrightarrow> lists_kept G r' r'' \<Longrightarrow> lists_kept G r r''"
  by (simp add: lists_kept_def)

lemma bucket_keys_not_side: "k \<in> {version_key b, active_key b, ready_key b} \<Longrightarrow> \<not> is_side_key k"
  by (auto simp: is_side_key_def sched_key_defs)

lemma lists_kept_frame: "same_frame r r' \<Longrightarrow> lists_kept G r r'"
  unfolding same_frame_def lists_kept_def using snapshot_not_side bucket_keys_not_side by metis

lemma group_of_text: "itoa g @ CHR '':'' # s = itoa g' @ CHR '':'' # s' \<Longrightarrow> g = g'"
proof -
  assume "itoa g @ CHR '':'' # s = itoa g' @ CHR '':'' # s'"
  then have "split_colon (itoa g @ CHR '':'' # s) = split_colon (itoa g' @ CHR '':'' # s')" by simp
  then show "g = g'" by (simp add: split_colon_append itoa_no_colon)
qed

lemma bucket_key_group: "schedulerBucketKey pre b = schedulerBucketKey pre b' \<Longrightarrow> bu_GroupID b = bu_GroupID b'"
  using group_of_text by (simp add: schedulerBucketKey_def)

lemma snapshot_key_group: "schedulerSnapshotKey b v = schedulerSnapshotKey b' v' \<Longrightarrow> bu_GroupID b = bu_GroupID b'"
  using group_of_text by (simp add: schedulerSnapshotKey_def)

lemma bucket_prefixes_apart [simp]:
  "version_key b \<noteq> active_key b'" "version_key b \<noteq> ready_key b'" "active_key b \<noteq> version_key b'"
  "active_key b \<noteq> ready_key b'" "ready_key b \<noteq> version_key b'" "ready_key b \<noteq> active_key b'"
  by (simp_all add: sched_key_defs)

lemma snapshot_not_ready: "schedulerSnapshotKey b v \<noteq> ready_key b'"
  using snapshot_key_apart [of "CHR ''r''" b v] by (auto simp: sched_key_defs is_digit_def)

lemmas snapshot_apart = snapshot_not_bucket snapshot_not_ready

lemma lists_kept_SET:
  "bu_GroupID b \<in> G \<Longrightarrow> k \<in> {version_key b, active_key b, ready_key b} \<Longrightarrow> lists_kept G r (redis_SET k v ex r)"
proof -
  assume b: "bu_GroupID b \<in> G" and k: "k \<in> {version_key b, active_key b, ready_key b}"
  have "k' \<noteq> k" if "bu_GroupID b' \<notin> G" "k' \<in> {version_key b', active_key b', ready_key b'}" for b' k'
  proof -
    have "schedulerBucketKey pre b' \<noteq> schedulerBucketKey pre b" for pre using bucket_key_group [of pre b' b] b that(1) by auto
    note this [symmetric]
    then show ?thesis using k that(2) by auto
  qed
  then show ?thesis by (simp add: lists_kept_def redis_SET_def)
qed

lemma lists_kept_sets:
  assumes "bu_GroupID b \<in> G"
  shows "lists_kept G r (redis_ZADD now (schedulerSnapshotKey b v) ms r)"
    "lists_kept G r (redis_EXPIRE now (schedulerSnapshotKey b v) ttl r)"
    "lists_kept G r (redis_DEL (schedulerSnapshotKey b v) r)"
    "lists_kept G r (redis_SADD key m r)"
proof -
  have new: "schedulerSnapshotKey b' v' \<noteq> schedulerSnapshotKey b v" if "bu_GroupID b' \<notin> G" for b' v'
    using snapshot_key_group assms that by metis
  note apart = snapshot_apart [symmetric]
  show "lists_kept G r (redis_ZADD now (schedulerSnapshotKey b v) ms r)"
    using new by (simp add: lists_kept_def redis_ZADD_def Let_def)
  show "lists_kept G r (redis_EXPIRE now (schedulerSnapshotKey b v) ttl r)"
    using new by (simp add: lists_kept_def redis_EXPIRE_def split: option.split)
  show "lists_kept G r (redis_DEL (schedulerSnapshotKey b v) r)"
    using new apart by (simp add: lists_kept_def redis_DEL_def)
  show "lists_kept G r (redis_SADD key m r)" by (simp add: lists_kept_def redis_SADD_def)
qed

lemma lists_kept_fold: "\<forall>c \<in> set cmds. \<forall>r. lists_kept G r (c r) \<Longrightarrow> lists_kept G r (fold (\<lambda>c. c) cmds r)"
  by (induction cmds arbitrary: r) (auto intro: lists_kept_trans)

lemma lists_kept_exec:
  "\<forall>c \<in> set cmds. \<forall>r. lists_kept G r (c r) \<Longrightarrow> exec_pipe fault cmds r = (res, r') \<Longrightarrow> lists_kept G r r'"
  unfolding exec_pipe_def by (auto split: option.splits intro!: lists_kept_fold dest: in_set_takeD)

lemma lists_kept_activate:
  assumes "bu_GroupID b \<in> G"
  shows "lists_kept G r (snd (activateSnapshotScript now (active_key b) (ready_key b) set_key (schedulerSnapshotKey b version)
    version text (snapshot_key_prefix b) ttl r))"
proof -
  let ?r = "redis_SADD set_key text (redis_SET (ready_key b) ''1'' None (redis_SET (active_key b) version None r))"
  have "lists_kept G r (redis_SET (active_key b) version None r)" using assms by (rule lists_kept_SET) simp
  moreover have "lists_kept G \<dots> (redis_SET (ready_key b) ''1'' None \<dots>)" using assms by (rule lists_kept_SET) simp
  ultimately have "lists_kept G r ?r" using lists_kept_sets(4) [OF assms] lists_kept_trans by metis
  then show ?thesis using lists_kept_sets(2,3) [OF assms]
    by (auto simp: activateSnapshotScript_def Let_def snapshot_key_prefixed split: option.split intro: lists_kept_trans)
qed

lemma SetSnapshot_keeps:
  assumes "SetSnapshot cd c env b accounts r = (res, r')" "bu_GroupID b \<in> G"
  shows "lists_kept G r r'"
proof (cases "ce_incr_fault env")
  case (Some err)
  then show ?thesis using assms(1) by (simp add: SetSnapshot_def)
next
  case None
  obtain x r1 where incr: "redis_INCR (ce_now env) (version_key b) r = (x, r1)" by fastforce
  then have k1: "lists_kept G r r1"
    using lists_kept_SET [OF assms(2), of "version_key b"] by (auto simp: redis_INCR_def split: option.splits if_splits)
  show ?thesis
  proof (cases x)
    case (Inl err)
    then show ?thesis using assms(1) None incr k1 by (simp add: SetSnapshot_def)
  next
    case (Inr version)
    obtain e r2 where wr: "writeAccounts cd c (ce_write_fault env) accounts r1 = (e, r2)" by fastforce
    have k2: "lists_kept G r r2" using k1 lists_kept_frame [OF same_frame_writeAccounts [OF wr]] by (rule lists_kept_trans)
    let ?key = "schedulerSnapshotKey b (itoa version)"
    obtain e' r3 where add: "(if accounts \<noteq> [] then exec_pipe (ce_zadd_fault env)
        (zadd_commands (ce_now env) ?key (sch_writeChunkSize c) accounts) r2 else (None, r2)) = (e', r3)" by fastforce
    have "\<forall>c \<in> set (zadd_commands (ce_now env) ?key (sch_writeChunkSize c) accounts). \<forall>r. lists_kept G r (c r)"
      using lists_kept_sets(1) [OF assms(2)] by (auto simp: zadd_commands_def)
    then have "lists_kept G r2 r3" using add lists_kept_exec by (fastforce split: if_splits)
    with k2 have k3: "lists_kept G r r3" by (rule lists_kept_trans)
    have "r' = r2 \<or> r' = r3 \<or> r' = snd (activateSnapshotScript (ce_now env) (active_key b) (ready_key b) schedulerBucketSetKey ?key
        (itoa version) (bucket_String b) (snapshot_key_prefix b) snapshotGraceTTLSeconds r3)"
      using assms(1) None incr Inr wr add
      by (simp add: SetSnapshot_def Let_def split: option.splits)
    then show ?thesis using k2 k3 lists_kept_trans [OF k3 lists_kept_activate [OF assms(2)]] by blast
  qed
qed

lemma rebuildBucket_keeps:
  assumes "rebuildBucket s env b w = (res, w')" "bu_GroupID b \<in> G"
  shows "lists_kept G (wd_redis w) (wd_redis w')"
proof (cases "sv_cache s")
  case None
  then show ?thesis using assms(1) by (simp add: rebuildBucket_def)
next
  case (Some c)
  obtain got r1 where lk: "TryLockBucket (sn_cache env (wd_calls w)) b (30 * Second) (wd_redis w) = (got, r1)" by fastforce
  have k1: "lists_kept G (wd_redis w) r1" using same_frame_operations(4) [OF lk] by (rule lists_kept_frame)
  let ?w1 = "w\<lparr>wd_calls := Suc (wd_calls w), wd_redis := r1\<rparr>"
  have call: "cache_call env (\<lambda>ce. TryLockBucket ce b (30 * Second)) w = (got, ?w1)" by (simp only: cache_call_def lk Let_def prod.case)
  obtain x w2 where load: "loadAccountsFromDB s env b (bu_Mode b = SchedulerModeMixed) ?w1 = (x, w2)" by fastforce
  then have r2: "wd_redis w2 = r1" by (auto simp: loadAccountsFromDB_def db_call_def split: if_splits)
  obtain e w3 where set: "(case x of Inl err \<Rightarrow> (Some err, w2)
      | Inr accounts \<Rightarrow> cache_call env (\<lambda>ce. SetSnapshot (sn_codec env) c ce b accounts) w2) = (e, w3)" by fastforce
  have "lists_kept G r1 (wd_redis w3)"
    using set r2 SetSnapshot_keeps [OF _ assms(2)] by (fastforce simp: cache_call_def split: sum.splits prod.splits)
  with k1 have k3: "lists_kept G (wd_redis w) (wd_redis w3)" by (rule lists_kept_trans)
  obtain e' w4 where unlock: "cache_call env (\<lambda>ce. UnlockBucket ce b) w3 = (e', w4)" by fastforce
  then have "lists_kept G (wd_redis w3) (wd_redis w4)"
    using lists_kept_frame [OF same_frame_operations(5)] by (fastforce simp: cache_call_def split: prod.splits)
  with k3 have k4: "lists_kept G (wd_redis w) (wd_redis w4)" by (rule lists_kept_trans)
  have "w' = ?w1 \<or> w' = w4"
    using assms(1) Some call load set unlock by (auto simp: rebuildBucket_def Let_def split: sum.splits if_splits)
  then show ?thesis using k1 k4 by auto
qed

lemma rebuildBuckets_keeps:
  "\<forall>b \<in> set bs. bu_GroupID b \<in> G \<Longrightarrow> lists_kept G (wd_redis w) (wd_redis (snd (rebuildBuckets s env bs w)))"
proof (induction bs arbitrary: w)
  case (Cons b bs)
  obtain e w1 where w1: "rebuildBucket s env b w = (e, w1)" by fastforce
  then have "lists_kept G (wd_redis w) (wd_redis w1)" using rebuildBucket_keeps Cons(2) by simp
  moreover have "lists_kept G (wd_redis w1) (wd_redis (snd (rebuildBuckets s env bs w1)))" using Cons by simp
  ultimately show ?case using w1 lists_kept_trans by (simp add: case_prod_beta Let_def)
qed simp

lemma rebuild_groups_keeps:
  "set gs \<subseteq> G \<Longrightarrow> lists_kept G (wd_redis w) (wd_redis (snd (rebuild_groups s env p gs w)))"
proof (induction gs arbitrary: w)
  case (Cons g gs)
  show ?case
  proof (cases "(g, p) \<in> set (wd_seen w)")
    case True
    then show ?thesis using Cons by simp
  next
    case False
    obtain e w1 where w1: "rebuildBuckets s env (platform_buckets g p) (w\<lparr>wd_seen := (g, p) # wd_seen w\<rparr>) = (e, w1)" by fastforce
    have "\<forall>b \<in> set (platform_buckets g p). bu_GroupID b \<in> G" using Cons(2) by (auto simp: platform_buckets_def)
    from rebuildBuckets_keeps [OF this] w1 have "lists_kept G (wd_redis w) (wd_redis w1)"
      by (metis (no_types, lifting) sched_world.select_convs(2) sched_world.surjective sched_world.update_convs(3) snd_conv)
    moreover have "lists_kept G (wd_redis w1) (wd_redis (snd (rebuild_groups s env p gs w1)))" using Cons by simp
    ultimately show ?thesis using False w1 lists_kept_trans by (simp add: case_prod_beta Let_def)
  qed
qed simp

lemma rebuild_platforms_keeps:
  "set gs \<subseteq> G \<Longrightarrow> lists_kept G (wd_redis w) (wd_redis (snd (rebuild_platforms s env ps gs w)))"
proof (induction ps arbitrary: w)
  case (Cons p ps)
  obtain e w1 where w1: "rebuildBucketsForPlatform s env p gs w = (e, w1)" by fastforce
  then have "lists_kept G (wd_redis w) (wd_redis w1)"
    using rebuild_groups_keeps [OF Cons(2), of w s env p] by (auto simp: rebuildBucketsForPlatform_def split: if_splits)
  moreover have "lists_kept G (wd_redis w1) (wd_redis (snd (rebuild_platforms s env ps gs w1)))" using Cons by simp
  ultimately show ?case using w1 lists_kept_trans by (simp add: case_prod_beta Let_def)
qed simp

lemma store_drop_keep:
  "store_account s env a w = (e, w') \<Longrightarrow> lists_kept G (wd_redis w) (wd_redis w')"
  "drop_account s env i w = (e, w') \<Longrightarrow> lists_kept G (wd_redis w) (wd_redis w')"
  using lists_kept_frame [OF same_frame_operations(1)] lists_kept_frame [OF same_frame_operations(2)]
  by (fastforce simp: store_account_def drop_account_def cache_call_def split: option.splits prod.splits)+

text \<open>Whatever fails, an account's event touches only the lists of the groups that it names.\<close>

lemma account_event_keeps:
  assumes "handleAccountEvent s env i payload w = (res, w')" "\<not> isRunModeSimple s"
    and "payload_groups payload \<noteq> []" "set (payload_groups payload) \<subseteq> G"
  shows "lists_kept G (wd_redis w) (wd_redis w')"
proof -
  let ?gs = "payload_groups payload"
  have pos: "\<forall>g \<in> set ?gs. 0 < g" by (auto simp: payload_groups_def parseInt64Slice_def split: option.splits json.splits)
  have norm: "set (normalizeGroupIDs s ?gs) \<subseteq> G"
  proof -
    have "add_positive [] ?gs \<noteq> []" using pos assms(3) set_add_positive [of "[]" ?gs] by (metis (mono_tags, lifting) empty_set list.set_intros(1) list.exhaust mem_Collect_eq sup_bot_left empty_iff)
    then have "normalizeGroupIDs s ?gs = add_positive [] ?gs" using assms(2,3) by (simp add: normalizeGroupIDs_def)
    then show ?thesis using assms(4) by auto
  qed
  then have rebuilt: "lists_kept G (wd_redis w1) (wd_redis (snd (rebuildByAccount s env a ?gs w1)))"
    "lists_kept G (wd_redis w1) (wd_redis (snd (rebuildByGroupIDs s env ?gs w1)))" for a w1
    using rebuild_platforms_keeps by (simp_all add: rebuildByAccount_def rebuildByGroupIDs_def Let_def)
  show ?thesis
  proof (cases i)
    case None
    then show ?thesis using assms(1) by (simp add: handleAccountEvent_def)
  next
    case (Some j)
    obtain x w1 where x: "db_call env (\<lambda>_ db. GetByID None db j) w = (x, w1)" by fastforce
    then have r1: "wd_redis w1 = wd_redis w" by (auto simp: db_call_def)
    obtain e2 w2 where w2: "store_account s env (projr x) w1 = (e2, w2)" by fastforce
    obtain e3 w3 where w3: "drop_account s env j w1 = (e3, w3)" by fastforce
    have "w' = w \<or> w' = w1 \<or> w' = w2 \<or> w' = w3 \<or> w' = snd (rebuildByAccount s env (projr x) ?gs w2)
       \<or> w' = snd (rebuildByGroupIDs s env ?gs w3)"
      using assms(1,3) Some x w2 w3
      by (cases x) (auto simp: handleAccountEvent_def Let_def split: if_splits option.splits)
    then show ?thesis
      using r1 store_drop_keep(1) [OF w2] store_drop_keep(2) [OF w3] rebuilt lists_kept_trans lists_kept_refl by metis
  qed
qed

lemma json_ids: "List.map_filter toInt64 (map (\<lambda>g. JNumber (of_int g)) gs) = gs"
  by (induction gs) (auto simp: toInt64_def List.map_filter_simps)

lemma named_groups:
  assumes "gs \<noteq> []" "\<forall>fs p. re_marshal renv (JObject fs) = Inr p \<longrightarrow> p \<noteq> '''' \<and> sn_payload env p = map_of fs"
    and "r \<in> set (ox_rows (as_outbox (groups_changed renv i gs sys)))" "r \<notin> set (ox_rows (as_outbox sys))"
  shows "ob_event_type r = SchedulerOutboxEventAccountGroupsChanged \<and> ob_account_id r = Some i
    \<and> payload_groups (event_payload env (event_of r)) = filter (\<lambda>g. 0 < g) gs"
proof -
  let ?o = "[(''group_ids'', JArray (map (\<lambda>g. JNumber (of_int g)) gs))]"
  obtain p where p: "re_marshal renv (JObject ?o) = Inr p"
    "r = outbox_entry (re_sha256hex renv) (re_now renv) (ox_next (as_outbox sys))
           (SchedulerOutboxEventAccountGroupsChanged, Some i, None, Some p)"
    using assms(1,3,4) by (cases "re_marshal renv (JObject ?o)"; cases "re_enqueue_fault renv")
      (auto simp: groups_changed_def buildSchedulerGroupPayload_def enqueue_logged_def enqueueSchedulerOutbox_def Let_def split: if_splits)
  then have d: "p \<noteq> ''''" "sn_payload env p = map_of ?o" using assms(2) by blast+
  then show ?thesis using p(2)
    by (simp add: outbox_entry_def event_of_def event_payload_def payload_groups_def parseInt64Slice_def json_ids)
qed

text \<open>C27: binding an ungrouped account to groups is announced with these groups only, so that handling the event,
  whatever fails meanwhile, leaves the list of every bucket without group as it is, although the database no longer
  lists the account there: such a bucket goes on offering the account until another event or the periodic rebuild.\<close>

theorem bind_leaves_ungrouped_snapshot:
  assumes "BindGroups renv (fa_ID row) gs sys = (None, sys')" "gs \<noteq> []" "\<forall>g \<in> set gs. 0 < g"
    and "row \<in> set (db_accounts (as_db sys))" "distinct (map fa_ID (db_accounts (as_db sys)))" "ungrouped (as_db sys) row"
    and "\<forall>fs p. re_marshal renv (JObject fs) = Inr p \<longrightarrow> p \<noteq> '''' \<and> sn_payload env p = map_of fs"
    and "r \<in> set (ox_rows (as_outbox sys'))" "r \<notin> set (ox_rows (as_outbox sys))"
    and "handleOutboxEvent s env (event_of r) w = (res, w')" "\<not> isRunModeSimple s" "bu_GroupID b = 0"
  shows "fa_ID row \<notin> fa_ID ` set (load_accounts s b m t (as_db sys'))
    \<and> sr_strings (wd_redis w') (active_key b) = sr_strings (wd_redis w) (active_key b)
    \<and> (\<forall>v. sr_zsets (wd_redis w') (schedulerSnapshotKey b v) = sr_zsets (wd_redis w) (schedulerSnapshotKey b v))"
proof -
  have none: "filter (\<lambda>l. ag_AccountID l = fa_ID row) (db_links (as_db sys)) = []"
    using assms(6) by (auto simp: ungrouped_def list_ex_iff filter_empty_conv)
  define links where "links = map (\<lambda>(k, g). \<lparr>ag_AccountID = fa_ID row, ag_GroupID = g, ag_Priority = int k + 1,
      ag_CreatedAt = re_now renv\<rparr>) (enumerate 0 gs)"
  define bound where "bound = sys\<lparr>as_db := (as_db sys)\<lparr>db_links :=
      filter (\<lambda>l. ag_AccountID l \<noteq> fa_ID row) (db_links (as_db sys)) @ links\<rparr>\<rparr>"
  have sys': "sys' = groups_changed renv (fa_ID row) (mergeGroupIDs [] gs) bound"
    using assms(1,2) by (auto simp: BindGroups_def loadAccountGroupIDs_def none Let_def bound_def links_def split: option.splits if_splits)
  have merged: "set (mergeGroupIDs [] gs) = set gs" using assms(3) by (auto simp: mergeGroupIDs_def)
  then have "mergeGroupIDs [] gs \<noteq> []" using assms(2) by auto
  moreover have "as_outbox bound = as_outbox sys" by (simp add: bound_def)
  ultimately have r: "ob_event_type r = SchedulerOutboxEventAccountGroupsChanged" "ob_account_id r = Some (fa_ID row)"
    "payload_groups (event_payload env (event_of r)) = filter (\<lambda>g. 0 < g) (mergeGroupIDs [] gs)"
    using named_groups [OF _ assms(7)] assms(8,9) sys' by auto
  then have named: "set (payload_groups (event_payload env (event_of r))) = set gs" using merged assms(3) by auto
  then have "payload_groups (event_payload env (event_of r)) \<noteq> []" using assms(2) by auto
  moreover have ev: "handleOutboxEvent s env (event_of r) w = handleAccountEvent s env (Some (fa_ID row)) (event_payload env (event_of r)) w"
    using r(1,2) by (simp add: handleOutboxEvent_def event_of_def Let_def SchedulerOutboxEventAccountGroupsChanged_def
        SchedulerOutboxEventAccountLastUsed_def SchedulerOutboxEventAccountBulkChanged_def)
  ultimately have kept: "lists_kept (set gs) (wd_redis w) (wd_redis w')"
    using account_event_keeps [OF assms(10) [unfolded ev] assms(11), of "set gs"] named by simp
  have db: "db_accounts (as_db sys') = db_accounts (as_db sys)" "db_links (as_db sys') = db_links (as_db bound)"
    by (auto simp: sys' groups_changed_def enqueue_logged_def bound_def split: sum.splits)
  have "fa_ID row \<in> ag_AccountID ` set links" using assms(2) by (cases gs) (auto simp: links_def)
  then have linked: "\<not> ungrouped (as_db sys') row" by (auto simp: ungrouped_def list_ex_iff db bound_def)
  have "fa_ID row \<notin> fa_ID ` set (load_accounts s b m t (as_db sys'))"
  proof
    assume "fa_ID row \<in> fa_ID ` set (load_accounts s b m t (as_db sys'))"
    then obtain x where "x \<in> set (load_accounts s b m t (as_db sys'))" "fa_ID x = fa_ID row" by auto
    then obtain row' where "row' \<in> set (db_accounts (as_db sys'))" "fa_ID row' = fa_ID row" "ungrouped (as_db sys') row'"
      using load_accounts_member [of x s b m t "as_db sys'"] assms(11,12) by auto
    then show False using linked distinct_map_same [OF assms(5) _ assms(4)] by (auto simp: db(1))
  qed
  then show ?thesis using kept assms(3,12) by (auto simp: lists_kept_def)
qed

text \<open>Taking an account out of all its groups sends no event at all.\<close>

lemma unbinding_is_silent:
  assumes "BindGroups renv (fa_ID row) [] sys = (None, sys')"
  shows "as_outbox sys' = as_outbox sys \<and> as_redis sys' = as_redis sys \<and> ungrouped (as_db sys') row"
  using assms by (auto simp: BindGroups_def loadAccountGroupIDs_def ungrouped_def list_ex_iff split: option.splits)

subsection \<open>At concrete inputs\<close>

definition plain_service :: SchedulerSnapshotService where
  "plain_service = \<lparr>sv_cache = Some NewSchedulerCache, sv_accountRepo = True, sv_groupRepo = False, sv_cfg = None\<rparr>"

definition plain_env :: "account_db \<Rightarrow> snapshot_env" where
  "plain_env db = \<lparr>sn_codec = stamp_codec spent_account, sn_cache = (\<lambda>_. quiet 100), sn_db = (\<lambda>_. Inr db),
     sn_groups = (\<lambda>_. Inr []), sn_payload = (\<lambda>_. [''group_ids'' \<mapsto> JArray [JNumber 3]])\<rparr>"

definition plain_world :: sched_world where
  "plain_world = \<lparr>wd_calls = 0, wd_redis = empty_redis, wd_seen = [], wd_limiter = None, wd_lagFailures = 0\<rparr>"

definition changed_event :: SchedulerOutboxEvent where
  "changed_event = \<lparr>se_ID = 1, se_EventType = SchedulerOutboxEventAccountChanged, se_AccountID = Some 7, se_GroupID = None,
     se_Payload = None, se_CreatedAt = 0\<rparr>"

definition ungrouped_bucket :: SchedulerBucket where
  "ungrouped_bucket = bucketFor plain_service None PlatformAnthropic (resolveMode PlatformAnthropic False)"

lemma ungrouped_bucket_fields [simp]:
  "bu_GroupID ungrouped_bucket = 0" "bu_Platform ungrouped_bucket = PlatformAnthropic" "bu_Mode ungrouped_bucket = SchedulerModeMixed"
  by (simp_all add: ungrouped_bucket_def bucketFor_def normalizeGroupID_def resolveMode_def has_mixed_def)

lemma plain_service_simps [simp]: "\<not> isRunModeSimple plain_service" "sv_accountRepo plain_service"
  by (simp_all add: isRunModeSimple_def plain_service_def)

lemma spent_service: "service_account \<lparr>db_accounts = [spent_account], db_links = []\<rparr> spent_account = spent_account"
  by (simp add: service_account_def account_links_def spent_account_def Let_def)

lemma spent_loaded:
  "load_accounts plain_service ungrouped_bucket True t \<lparr>db_accounts = [spent_account], db_links = []\<rparr> = [spent_account]"
proof -
  let ?db = "\<lparr>db_accounts = [spent_account], db_links = []\<rparr>"
  have row: "schedulable_row t spent_account" "fa_Platform spent_account = PlatformAnthropic" "fa_ID spent_account = 7"
    by (simp_all add: schedulable_row_def tempUnschedulablePredicate_def notExpiredPredicate_def limits_over_def spent_account_def)
  have "ungrouped ?db spent_account" by (simp add: ungrouped_def)
  then have "select_accounts ?db (\<lambda>a. fa_Platform a \<in> set [PlatformAnthropic, PlatformAntigravity] \<and> ungrouped ?db a \<and> schedulable_row t a)
      = [spent_account]"
    using row spent_service by (simp add: select_accounts_def accountsToService_def)
  moreover have "PlatformAnthropic \<noteq> PlatformAntigravity" by (simp add: platform_defs)
  ultimately show ?thesis using row by (simp add: load_accounts_def Let_def ListSchedulableUngroupedByPlatforms_def)
qed

theorem account_event_updates_buckets_witness:
  "\<exists>w'. handleOutboxEvent plain_service (plain_env \<lparr>db_accounts = [spent_account], db_links = []\<rparr>) changed_event plain_world = (None, w')
    \<and> GetSnapshot (stamp_codec spent_account) NewSchedulerCache (quiet 200) ungrouped_bucket (wd_redis w') =
        Inr (Some [buildSchedulerMetadataAccount spent_account])"
proof -
  let ?db = "\<lparr>db_accounts = [spent_account], db_links = []\<rparr>" and ?env = "plain_env \<lparr>db_accounts = [spent_account], db_links = []\<rparr>"
  have 1: "steady ?env (\<lambda>_. 100) ?db" by (simp add: steady_def plain_env_def)
  have codec: "sn_codec ?env = stamp_codec spent_account" by (simp add: plain_env_def)
  have "cacheable (stamp_codec spent_account) spent_account" by (rule stamp_codec_ok) (simp add: spent_account_def zero_time_def)
  then have 2: "storable ?env ?db" by (simp add: storable_def loaded_def codec spent_service)
  have 3: "sv_cache plain_service = Some (newSchedulerCacheWithChunkSizes defaultSchedulerSnapshotMGetChunkSize defaultSchedulerSnapshotWriteChunkSize)"
    by (simp add: plain_service_def NewSchedulerCache_def)
  have "bucket_ok b 0 empty_redis" for b by (rule empty_bucket_ok)
  then have 4: "rebuild_inv {} (wd_redis plain_world)"
    by (auto simp: rebuild_inv_def plain_world_def empty_redis_def intro!: exI [of _ 0])
  have row: "spent_account \<in> set (db_accounts ?db)" "0 < fa_ID spent_account" "fa_Platform spent_account \<in> set all_platforms"
    by (simp_all add: spent_account_def all_platforms_def)
  have ev: "se_EventType changed_event \<in> {SchedulerOutboxEventAccountChanged, SchedulerOutboxEventAccountGroupsChanged}"
    "se_AccountID changed_event = Some (fa_ID spent_account)"
    "payload_groups (event_payload ?env changed_event) = []"
    by (simp_all add: changed_event_def spent_account_def event_payload_def payload_groups_def)
  have mixed: "load_accounts plain_service ungrouped_bucket (bu_Mode ungrouped_bucket = SchedulerModeMixed) t ?db = [spent_account]" for t
    using spent_loaded by simp
  have "service_account ?db spent_account \<in>
      set (load_accounts plain_service ungrouped_bucket (bu_Mode ungrouped_bucket = SchedulerModeMixed) 100 ?db)"
    by (simp add: spent_loaded spent_service)
  from account_event_updates_buckets [OF 1 2 plain_service_simps(2) 3 4 _ row ev(1,2) disjI1 [OF ev(3)] ungrouped_bucket_def this]
  show ?thesis unfolding mixed codec by (auto simp: plain_world_def NewSchedulerCache_def)
qed

definition binding_env :: repo_env where
  "binding_env = (quiet_repo 50)\<lparr>re_marshal :=
     (\<lambda>j. if j = JObject [(''group_ids'', JArray [JNumber 3])] then Inr ''{group_ids:[3]}'' else Inl (OtherError ''json'' None))\<rparr>"

definition bound_account :: account_sys where
  "bound_account = snd (BindGroups binding_env 7 [3] one_account)"

definition bound_event :: outbox_row where
  "bound_event = outbox_entry (\<lambda>s. s) 50 1 (SchedulerOutboxEventAccountGroupsChanged, Some 7, None, Some ''{group_ids:[3]}'')"

theorem bind_leaves_ungrouped_snapshot_witness:
  "7 \<notin> fa_ID ` set (load_accounts plain_service ungrouped_bucket True 100 (as_db bound_account))
   \<and> sr_strings (wd_redis (snd (handleOutboxEvent plain_service (plain_env (as_db bound_account)) (event_of bound_event) plain_world)))
       (active_key ungrouped_bucket) = sr_strings (wd_redis plain_world) (active_key ungrouped_bucket)"
proof -
  have i: "fa_ID spent_account = 7" by (simp add: spent_account_def)
  have payload: "buildSchedulerGroupPayload (mergeGroupIDs [] [3]) = Some (JObject [(''group_ids'', JArray [JNumber 3])])"
    by (simp add: mergeGroupIDs_def buildSchedulerGroupPayload_def)
  have no_links: "filter (\<lambda>l. ag_AccountID l = 7) (db_links (as_db one_account)) = []" by (simp add: one_account_def)
  have "BindGroups binding_env 7 [3] one_account = (None, bound_account)"
    "ox_rows (as_outbox bound_account) = [bound_event]"
    by (simp_all add: bound_account_def bound_event_def BindGroups_def binding_env_def quiet_repo_def loadAccountGroupIDs_def no_links
        groups_changed_def payload enqueue_logged_def enqueueSchedulerOutbox_def Let_def has_key_def one_account_def)
  moreover have "\<forall>fs p. re_marshal binding_env (JObject fs) = Inr p \<longrightarrow>
      p \<noteq> '''' \<and> sn_payload (plain_env (as_db bound_account)) p = map_of fs"
    by (simp add: binding_env_def plain_env_def)
  ultimately show ?thesis
    using bind_leaves_ungrouped_snapshot [of binding_env spent_account "[3]" one_account bound_account
        "plain_env (as_db bound_account)" bound_event plain_service plain_world, OF _ _ _ _ _ _ _ _ _ prod.collapse [symmetric],
        of ungrouped_bucket True 100]
    unfolding i by (simp add: one_account_def ungrouped_def)
qed

end
