(* ===== verification/Payment_Amounts.thy ===== *)
theory Payment_Amounts
  imports Go_Strings App_Errors Complex_Main
begin

text \<open>
  Amounts of payments (\<open>payment/currency.go\<close>, \<open>fee.go\<close>, \<open>amount.go\<close>, \<open>service/payment_amounts.go\<close>): the
  precision of a currency, conversion to the minor units of the payment providers, fees, and the share of a
  payment that a refund sends back.

  \<open>float64\<close> amounts are exact rationals, as everywhere in the development, and a decimal string is the value it
  denotes. The operations of the decimal package are its documented ones: \<open>Round\<close> rounds half away from zero,
  \<open>RoundUp\<close> away from zero, and \<open>Div\<close> rounds the quotient to sixteen digits.
\<close>

section \<open>Decimals\<close>

definition pow10 :: "nat \<Rightarrow> rat" where "pow10 n = 10 ^ n"

definition decimal_Round :: "nat \<Rightarrow> rat \<Rightarrow> rat" where
  "decimal_Round n x =
     (if 0 \<le> x then of_int \<lfloor>x * pow10 n + 1 / 2\<rfloor> / pow10 n else - (of_int \<lfloor>- x * pow10 n + 1 / 2\<rfloor> / pow10 n))"

definition decimal_RoundUp :: "nat \<Rightarrow> rat \<Rightarrow> rat" where
  "decimal_RoundUp n x =
     (if 0 \<le> x then of_int \<lceil>x * pow10 n\<rceil> / pow10 n else - (of_int \<lceil>- x * pow10 n\<rceil> / pow10 n))"

definition decimal_Div :: "rat \<Rightarrow> rat \<Rightarrow> rat" where
  "decimal_Div x y = decimal_Round 16 (x / y)"

text \<open>\<open>IntPart\<close>: the integer part as a 64-bit integer.\<close>

definition IntPart :: "rat \<Rightarrow> int" where
  "IntPart x = signed_take_bit 63 (if 0 \<le> x then \<lfloor>x\<rfloor> else \<lceil>x\<rceil>)"

section \<open>Currencies\<close>

definition DefaultPaymentCurrency :: string where "DefaultPaymentCurrency = ''CNY''"

record paymentCurrencyAmountUnit =
  cu_apiMinorUnit :: nat
  cu_maxFractionDigits :: nat

definition zeroDecimalAmountUnit :: paymentCurrencyAmountUnit where
  "zeroDecimalAmountUnit = \<lparr>cu_apiMinorUnit = 0, cu_maxFractionDigits = 0\<rparr>"
definition twoDecimalAmountUnit :: paymentCurrencyAmountUnit where
  "twoDecimalAmountUnit = \<lparr>cu_apiMinorUnit = 2, cu_maxFractionDigits = 2\<rparr>"
definition threeDecimalAmountUnit :: paymentCurrencyAmountUnit where
  "threeDecimalAmountUnit = \<lparr>cu_apiMinorUnit = 3, cu_maxFractionDigits = 3\<rparr>"
definition stripeLegacyZeroAmount :: paymentCurrencyAmountUnit where
  "stripeLegacyZeroAmount = \<lparr>cu_apiMinorUnit = 2, cu_maxFractionDigits = 0\<rparr>"

definition paymentCurrencyAmountUnits :: "(string \<times> paymentCurrencyAmountUnit) list" where
  "paymentCurrencyAmountUnits =
     map (\<lambda>c. (c, zeroDecimalAmountUnit))
       [''BIF'', ''CLP'', ''DJF'', ''GNF'', ''JPY'', ''KMF'', ''KRW'', ''MGA'', ''PYG'', ''RWF'', ''VND'', ''VUV'',
        ''XAF'', ''XOF'', ''XPF'']
     @ map (\<lambda>c. (c, stripeLegacyZeroAmount)) [''ISK'', ''UGX'']
     @ map (\<lambda>c. (c, threeDecimalAmountUnit)) [''BHD'', ''IQD'', ''JOD'', ''KWD'', ''LYD'', ''OMR'', ''TND'']"

definition invalid_currency :: go_error where
  "invalid_currency = OtherError ''payment currency must be a 3-letter ISO currency code'' None"

definition NormalizePaymentCurrency :: "string \<Rightarrow> go_error + string" where
  "NormalizePaymentCurrency raw =
     (let currency = to_upper (trim_space raw)
      in if currency = '''' then Inr DefaultPaymentCurrency
         else if length currency \<noteq> 3 then Inl invalid_currency
         else if \<exists>c \<in> set currency. byte c < 65 \<or> 90 < byte c then Inl invalid_currency
         else Inr currency)"

definition paymentCurrencyAmountUnitFor :: "string \<Rightarrow> paymentCurrencyAmountUnit" where
  "paymentCurrencyAmountUnitFor currency =
     (case NormalizePaymentCurrency currency of
        Inl _ \<Rightarrow> twoDecimalAmountUnit
      | Inr normalized \<Rightarrow>
          (case map_of paymentCurrencyAmountUnits normalized of Some u \<Rightarrow> u | None \<Rightarrow> twoDecimalAmountUnit))"

definition CurrencyMinorUnit :: "string \<Rightarrow> nat" where
  "CurrencyMinorUnit currency = cu_apiMinorUnit (paymentCurrencyAmountUnitFor currency)"

definition CurrencyMaxFractionDigits :: "string \<Rightarrow> nat" where
  "CurrencyMaxFractionDigits currency = cu_maxFractionDigits (paymentCurrencyAmountUnitFor currency)"

definition FormatAmountForCurrency :: "rat \<Rightarrow> string \<Rightarrow> rat" where
  "FormatAmountForCurrency amount currency = decimal_Round (CurrencyMaxFractionDigits currency) amount"

text \<open>\<open>None\<close> is a text that denotes no decimal number.\<close>

definition AmountToMinorUnit :: "rat option \<Rightarrow> string \<Rightarrow> go_error + int" where
  "AmountToMinorUnit amountStr currency =
     (case amountStr of
        None \<Rightarrow> Inl (OtherError ''invalid amount'' None)
      | Some d \<Rightarrow>
          (case NormalizePaymentCurrency currency of
             Inl err \<Rightarrow> Inl err
           | Inr normalizedCurrency \<Rightarrow>
               let amountUnit = paymentCurrencyAmountUnitFor normalizedCurrency;
                   scaledForPrecision = d * pow10 (cu_maxFractionDigits amountUnit)
               in if scaledForPrecision \<noteq> of_int \<lfloor>scaledForPrecision\<rfloor> then
                    Inl (OtherError
                      (if cu_maxFractionDigits amountUnit = 0
                       then ''payment amount for '' @ normalizedCurrency @ '' must be a whole number''
                       else ''payment amount for '' @ normalizedCurrency @ '' must not have more than ''
                            @ itoa (int (cu_maxFractionDigits amountUnit)) @ '' decimal places'') None)
                  else Inr (IntPart (d * pow10 (cu_apiMinorUnit amountUnit)))))"

definition MinorUnitToAmount :: "int \<Rightarrow> string \<Rightarrow> rat" where
  "MinorUnitToAmount value currency = decimal_Div (of_int value) (pow10 (CurrencyMinorUnit currency))"

definition YuanToFen :: "rat option \<Rightarrow> go_error + int" where
  "YuanToFen yuanStr = AmountToMinorUnit yuanStr DefaultPaymentCurrency"

definition FenToYuan :: "int \<Rightarrow> rat" where
  "FenToYuan fen = MinorUnitToAmount fen DefaultPaymentCurrency"

section \<open>Fees, credits and refunds\<close>

definition CalculatePayAmountForCurrency :: "rat \<Rightarrow> rat \<Rightarrow> string \<Rightarrow> rat" where
  "CalculatePayAmountForCurrency rechargeAmount feeRate currency =
     (let fractionDigits = CurrencyMaxFractionDigits currency
      in if feeRate \<le> 0 then decimal_Round fractionDigits rechargeAmount
         else let fee = decimal_RoundUp fractionDigits (decimal_Div (rechargeAmount * feeRate) 100)
              in decimal_Round fractionDigits (rechargeAmount + fee))"

definition CalculatePayAmount :: "rat \<Rightarrow> rat \<Rightarrow> rat" where
  "CalculatePayAmount rechargeAmount feeRate = CalculatePayAmountForCurrency rechargeAmount feeRate DefaultPaymentCurrency"

definition normalizeBalanceRechargeMultiplier :: "rat \<Rightarrow> rat" where
  "normalizeBalanceRechargeMultiplier multiplier = (if multiplier \<le> 0 then 1 else multiplier)"

definition calculateCreditedBalance :: "rat \<Rightarrow> rat \<Rightarrow> rat" where
  "calculateCreditedBalance paymentAmount multiplier =
     decimal_Round 2 (paymentAmount * normalizeBalanceRechargeMultiplier multiplier)"

definition calculateGatewayPaymentAmount :: "rat \<Rightarrow> rat \<Rightarrow> string \<Rightarrow> rat" where
  "calculateGatewayPaymentAmount orderAmount multiplier currency =
     decimal_Round (CurrencyMaxFractionDigits currency)
       (decimal_Div orderAmount (normalizeBalanceRechargeMultiplier multiplier))"

definition amountToleranceCNY :: rat where "amountToleranceCNY = 1 / 100"

definition paymentAmountToleranceForCurrency :: "string \<Rightarrow> rat" where
  "paymentAmountToleranceForCurrency currency =
     (let minorUnit = CurrencyMinorUnit currency
      in if minorUnit \<le> 2 then amountToleranceCNY else 1 / pow10 minorUnit / 2)"

definition calculateGatewayRefundAmount :: "rat \<Rightarrow> rat \<Rightarrow> rat \<Rightarrow> string \<Rightarrow> rat" where
  "calculateGatewayRefundAmount orderAmount payAmount refundAmount currency =
     (if orderAmount \<le> 0 \<or> payAmount \<le> 0 \<or> refundAmount \<le> 0 then 0
      else
        let fractionDigits = CurrencyMaxFractionDigits currency
        in if \<bar>refundAmount - orderAmount\<bar> \<le> paymentAmountToleranceForCurrency currency
           then decimal_Round fractionDigits payAmount
           else decimal_Round fractionDigits (decimal_Div (payAmount * refundAmount) orderAmount))"

text \<open>The amount to pay for an order, in the precision of the currency and with a subscription's price divided
  by the recharge multiplier.\<close>

definition validateCreateOrderAmountCurrency :: "rat \<Rightarrow> string \<Rightarrow> go_error option" where
  "validateCreateOrderAmountCurrency amount currency =
     (case AmountToMinorUnit (Some amount) currency of
        Inl err \<Rightarrow> Some (WithMetadata (BadRequest ''INVALID_AMOUNT'' (case err of OtherError m _ \<Rightarrow> m | ApplicationError _ _ m _ _ \<Rightarrow> m))
                          (Some [''currency'' \<mapsto> currency]))
      | Inr _ \<Rightarrow> None)"

definition calculateCreateOrderPayAmount :: "rat \<Rightarrow> rat \<Rightarrow> string \<Rightarrow> go_error + rat" where
  "calculateCreateOrderPayAmount limitAmount feeRate currency =
     (case validateCreateOrderAmountCurrency limitAmount currency of
        Some err \<Rightarrow> Inl err
      | None \<Rightarrow>
          let payAmount = CalculatePayAmountForCurrency limitAmount feeRate currency
          in (case validateCreateOrderAmountCurrency payAmount currency of Some err \<Rightarrow> Inl err | None \<Rightarrow> Inr payAmount))"

definition OrderTypeBalance :: string where "OrderTypeBalance = ''balance''"
definition OrderTypeSubscription :: string where "OrderTypeSubscription = ''subscription''"

definition calculateCreateOrderPaymentAmount :: "string \<Rightarrow> rat \<Rightarrow> rat \<Rightarrow> string \<Rightarrow> rat" where
  "calculateCreateOrderPaymentAmount orderType limitAmount multiplier currency =
     (case NormalizePaymentCurrency currency of
        Inl _ \<Rightarrow> limitAmount
      | Inr normalizedCurrency \<Rightarrow>
          if normalizedCurrency \<noteq> DefaultPaymentCurrency \<or> orderType \<noteq> OrderTypeSubscription then limitAmount
          else calculateGatewayPaymentAmount limitAmount multiplier normalizedCurrency)"

definition calculateCreateOrderPayAmountForOrder :: "string \<Rightarrow> rat \<Rightarrow> rat \<Rightarrow> rat \<Rightarrow> string \<Rightarrow> go_error + rat" where
  "calculateCreateOrderPayAmountForOrder orderType limitAmount feeRate multiplier currency =
     calculateCreateOrderPayAmount (calculateCreateOrderPaymentAmount orderType limitAmount multiplier currency) feeRate currency"

section \<open>Rounding\<close>

lemma pow10_pos [simp]: "0 < pow10 n" "pow10 n \<noteq> 0" "0 \<le> pow10 n"
  by (simp_all add: pow10_def)

lemma pow10_add: "pow10 (m + n) = pow10 m * pow10 n"
  by (simp add: pow10_def power_add)

lemma pow10_int: "\<exists>k. pow10 n = of_int k"
  by (rule exI [of _ "10 ^ n"]) (simp add: pow10_def)

text \<open>A value with at most \<open>n\<close> digits behind the point.\<close>

definition has_digits :: "nat \<Rightarrow> rat \<Rightarrow> bool" where
  "has_digits n x = (x * pow10 n = of_int \<lfloor>x * pow10 n\<rfloor>)"

lemma has_digitsI: "x * pow10 n = of_int k \<Longrightarrow> has_digits n x"
  by (simp add: has_digits_def)

lemma has_digits_obtain:
  assumes "has_digits n x"
  obtains k where "x * pow10 n = of_int k"
  using assms that by (simp add: has_digits_def)

lemma has_digits_add: "has_digits n x \<Longrightarrow> has_digits n y \<Longrightarrow> has_digits n (x + y)"
  by (metis (no_types, lifting) distrib_right has_digitsI has_digits_obtain of_int_add)

lemma has_digits_more: "has_digits m x \<Longrightarrow> m \<le> n \<Longrightarrow> has_digits n x"
proof -
  assume x: "has_digits m x" and "m \<le> n"
  then obtain j where j: "n = m + j" using le_Suc_ex by blast
  obtain k where k: "x * pow10 m = of_int k" using x by (rule has_digits_obtain)
  obtain l where "pow10 j = of_int l" using pow10_int by blast
  then have "x * pow10 n = of_int (k * l)" using k by (simp add: j pow10_add flip: mult.assoc)
  then show "has_digits n x" by (rule has_digitsI)
qed

lemma has_digits_Round: "has_digits n (decimal_Round n x)"
proof (cases "0 \<le> x")
  case True
  then show ?thesis by (intro has_digitsI [where k = "\<lfloor>x * pow10 n + 1 / 2\<rfloor>"]) (simp add: decimal_Round_def)
next
  case False
  then show ?thesis by (intro has_digitsI [where k = "- \<lfloor>- x * pow10 n + 1 / 2\<rfloor>"]) (simp add: decimal_Round_def)
qed

lemma has_digits_RoundUp: "has_digits n (decimal_RoundUp n x)"
proof (cases "0 \<le> x")
  case True
  then show ?thesis by (intro has_digitsI [where k = "\<lceil>x * pow10 n\<rceil>"]) (simp add: decimal_RoundUp_def)
next
  case False
  then show ?thesis by (intro has_digitsI [where k = "- \<lceil>- x * pow10 n\<rceil>"]) (simp add: decimal_RoundUp_def)
qed

lemma floor_half: "\<lfloor>of_int k + 1 / 2 :: rat\<rfloor> = k"
  by (rule floor_unique) simp_all

lemma Round_exact: "has_digits n x \<Longrightarrow> decimal_Round n x = x"
proof -
  assume "has_digits n x"
  then obtain k where k: "x * pow10 n = of_int k" by (rule has_digits_obtain)
  then have "x = of_int k / pow10 n" by (simp add: eq_divide_eq)
  moreover have "- x * pow10 n = of_int (- k)" using k by simp
  ultimately show ?thesis using k floor_half [of k] floor_half [of "- k"] by (auto simp: decimal_Round_def)
qed

lemma Round_near: "\<bar>decimal_Round n x - x\<bar> \<le> 1 / (2 * pow10 n)"
proof -
  have pos: "\<bar>of_int \<lfloor>y * pow10 n + 1 / 2\<rfloor> / pow10 n - y\<bar> \<le> 1 / (2 * pow10 n)" for y
  proof -
    obtain f :: rat where f: "f = of_int \<lfloor>y * pow10 n + 1 / 2\<rfloor>" by simp
    have "\<bar>f - y * pow10 n\<bar> \<le> 1 / 2" unfolding f by linarith
    then have "\<bar>f - y * pow10 n\<bar> / pow10 n \<le> 1 / 2 / pow10 n" by (rule divide_right_mono) simp
    moreover have "f / pow10 n - y = (f - y * pow10 n) / pow10 n" by (simp add: diff_divide_distrib)
    ultimately show ?thesis by (simp add: f [symmetric])
  qed
  show ?thesis using pos [of x] pos [of "- x"] by (auto simp: decimal_Round_def)
qed

lemma Round_nonneg: "0 \<le> x \<Longrightarrow> 0 \<le> decimal_Round n x"
  by (simp add: decimal_Round_def)

lemma Round_mono: "0 \<le> x \<Longrightarrow> x \<le> y \<Longrightarrow> decimal_Round n x \<le> decimal_Round n y"
  by (auto simp: decimal_Round_def divide_right_mono floor_mono mult_right_mono)

lemma RoundUp_bounds:
  assumes "0 \<le> x"
  shows "x \<le> decimal_RoundUp n x" "decimal_RoundUp n x < x + 1 / pow10 n"
proof -
  have c: "x * pow10 n \<le> of_int \<lceil>x * pow10 n\<rceil>" "of_int \<lceil>x * pow10 n\<rceil> < x * pow10 n + 1" by linarith+
  show "x \<le> decimal_RoundUp n x" using c(1) assms by (simp add: decimal_RoundUp_def le_divide_eq)
  show "decimal_RoundUp n x < x + 1 / pow10 n" using c(2) assms by (simp add: decimal_RoundUp_def divide_less_eq distrib_right)
qed

lemma Div_near: "\<bar>decimal_Div x y - x / y\<bar> \<le> 1 / (2 * pow10 16)"
  unfolding decimal_Div_def by (rule Round_near)

section \<open>What the amounts satisfy\<close>

text \<open>A fee is never lost to rounding, and rounding adds less than one unit of the currency.\<close>

lemma pay_amount_bounds:
  assumes "0 \<le> amount" "has_digits (CurrencyMaxFractionDigits currency) amount" "0 < feeRate"
  shows "let unit = 1 / pow10 (CurrencyMaxFractionDigits currency); err = 1 / (2 * pow10 16);
      pay = CalculatePayAmountForCurrency amount feeRate currency
    in has_digits (CurrencyMaxFractionDigits currency) pay
      \<and> amount * feeRate / 100 - err \<le> pay - amount \<and> pay - amount < amount * feeRate / 100 + unit + err"
proof -
  let ?d = "CurrencyMaxFractionDigits currency" and ?fee = "decimal_Div (amount * feeRate) 100"
  have "0 \<le> ?fee" unfolding decimal_Div_def using assms by (intro Round_nonneg) simp
  note up = RoundUp_bounds [OF this, of ?d]
  have dig: "has_digits ?d (amount + decimal_RoundUp ?d ?fee)" by (rule has_digits_add [OF assms(2) has_digits_RoundUp])
  have pay: "CalculatePayAmountForCurrency amount feeRate currency = amount + decimal_RoundUp ?d ?fee"
    using assms(3) Round_exact [OF dig] by (simp add: CalculatePayAmountForCurrency_def)
  have near: "\<bar>?fee - amount * feeRate / 100\<bar> \<le> 1 / (2 * pow10 16)" by (rule Div_near)
  obtain fee where fee: "fee = ?fee" by simp
  obtain upf where upf: "upf = decimal_RoundUp ?d fee" by simp
  obtain u where u: "u = 1 / pow10 ?d" by simp
  obtain err where err: "err = 1 / (2 * pow10 16)" by simp
  have "fee \<le> upf" "upf < fee + u" "\<bar>fee - amount * feeRate / 100\<bar> \<le> err" using up near by (simp_all add: fee upf u err)
  then have "amount * feeRate / 100 - err \<le> upf" "upf < amount * feeRate / 100 + u + err" by linarith+
  then show ?thesis using dig by (simp add: pay Let_def flip: fee upf u err)
qed

lemma unit_digits: "cu_maxFractionDigits (paymentCurrencyAmountUnitFor c) \<le> cu_apiMinorUnit (paymentCurrencyAmountUnitFor c)
    \<and> cu_apiMinorUnit (paymentCurrencyAmountUnitFor c) \<le> 3"
proof -
  have "\<forall>(k, u) \<in> set paymentCurrencyAmountUnits. cu_maxFractionDigits u \<le> cu_apiMinorUnit u \<and> cu_apiMinorUnit u \<le> 3"
    by (auto simp: paymentCurrencyAmountUnits_def zeroDecimalAmountUnit_def stripeLegacyZeroAmount_def threeDecimalAmountUnit_def)
  then show ?thesis
    by (fastforce simp: paymentCurrencyAmountUnitFor_def twoDecimalAmountUnit_def dest: map_of_SomeD split: sum.split option.split)
qed

lemma upper_graphic: "\<forall>c \<in> set s. \<not> (byte c < 65 \<or> 90 < byte c) \<Longrightarrow> to_upper (trim_space s) = s"
proof -
  assume s: "\<forall>c \<in> set s. \<not> (byte c < 65 \<or> 90 < byte c)"
  have "trim_space s = s"
  proof (cases "s = []")
    case False
    then have "hd s \<in> set s" "last s \<in> set s" by simp_all
    with s have "graphic (hd s)" "graphic (last s)" by (fastforce simp: graphic_def)+
    with False show ?thesis by (intro trim_space_graphic)
  qed (simp add: trim_space_Nil)
  moreover have "to_upper s = s" unfolding to_upper_def using s by (intro map_idI) (auto simp: upper_char_def)
  ultimately show ?thesis by simp
qed

lemma Normalize_Normalize: "NormalizePaymentCurrency c = Inr n \<Longrightarrow> NormalizePaymentCurrency n = Inr n"
proof -
  assume c: "NormalizePaymentCurrency c = Inr n"
  then have n: "n = DefaultPaymentCurrency \<or> length n = 3 \<and> (\<forall>c \<in> set n. \<not> (byte c < 65 \<or> 90 < byte c))"
    by (auto simp: NormalizePaymentCurrency_def Let_def split: if_splits)
  moreover have "length DefaultPaymentCurrency = 3 \<and> (\<forall>c \<in> set DefaultPaymentCurrency. \<not> (byte c < 65 \<or> 90 < byte c))"
    by (simp add: DefaultPaymentCurrency_def byte_def)
  ultimately have n: "length n = 3" "\<forall>c \<in> set n. \<not> (byte c < 65 \<or> 90 < byte c)" by auto
  then show ?thesis using upper_graphic [OF n(2)] by (auto simp: NormalizePaymentCurrency_def Let_def)
qed

lemma Normalize_unit: "NormalizePaymentCurrency c = Inr n \<Longrightarrow> paymentCurrencyAmountUnitFor n = paymentCurrencyAmountUnitFor c"
  using Normalize_Normalize by (simp add: paymentCurrencyAmountUnitFor_def)

text \<open>An amount that is accepted comes back from its minor units unchanged, as long as these fit 64 bits: for
  every currency, the ones without and with three decimals included.\<close>

lemma minor_unit_roundtrip:
  assumes "AmountToMinorUnit (Some x) currency = Inr m"
    and "\<bar>x\<bar> * pow10 (CurrencyMinorUnit currency) < of_int MaxInt64"
  shows "MinorUnitToAmount m currency = x"
proof -
  obtain n where n: "NormalizePaymentCurrency currency = Inr n"
    using assms(1) by (cases "NormalizePaymentCurrency currency") (simp_all add: AmountToMinorUnit_def)
  let ?u = "paymentCurrencyAmountUnitFor currency"
  have acc: "has_digits (cu_maxFractionDigits ?u) x" "m = IntPart (x * pow10 (cu_apiMinorUnit ?u))"
    using assms(1) n Normalize_unit [OF n] by (auto simp: AmountToMinorUnit_def has_digits_def Let_def split: if_splits)
  have "has_digits (cu_apiMinorUnit ?u) x" using has_digits_more [OF acc(1)] unit_digits by blast
  then obtain k where k: "x * pow10 (cu_apiMinorUnit ?u) = of_int k" by (rule has_digits_obtain)
  have "\<bar>of_int k :: rat\<bar> < of_int MaxInt64"
    using assms(2) by (simp add: CurrencyMinorUnit_def abs_mult flip: k)
  then have "\<bar>k\<bar> < MaxInt64" by (simp only: of_int_abs [symmetric] of_int_less_iff)
  then have "signed_take_bit 63 k = k" by (intro signed_take_bit_int_eq_self) simp_all
  then have m: "m = k" using acc(2) k by (simp add: IntPart_def)
  have x: "of_int k / pow10 (CurrencyMinorUnit currency) = x" using k by (simp add: CurrencyMinorUnit_def divide_eq_eq)
  have "has_digits 16 x" using has_digits_more [OF acc(1), of 16] unit_digits [of currency] by linarith
  then show ?thesis using Round_exact x by (simp add: MinorUnitToAmount_def m decimal_Div_def)
qed

text \<open>C40: For positive amounts, a payment in the precision of its currency and a refund of at most the order's amount and the
  tolerance (what the plan of a refund allows), what is sent back through the provider is never more than what was paid. A refund within
  the currency's tolerance of the whole order, above or below, sends all of it back (for an order of two cents that is
  already a refund of one cent); a smaller refund sends the payment's share of the refunded part of the order, to half a
  unit of the currency and the rounding of the division.\<close>

theorem refund_share:
  assumes "0 < orderAmount" "0 < payAmount" "has_digits (CurrencyMaxFractionDigits currency) payAmount"
    and "0 < refundAmount" "refundAmount \<le> orderAmount + paymentAmountToleranceForCurrency currency"
  shows "let sent = calculateGatewayRefundAmount orderAmount payAmount refundAmount currency;
      half = 1 / (2 * pow10 (CurrencyMaxFractionDigits currency)); err = 1 / (2 * pow10 16)
    in 0 \<le> sent \<and> sent \<le> payAmount
      \<and> (\<bar>refundAmount - orderAmount\<bar> \<le> paymentAmountToleranceForCurrency currency \<longrightarrow> sent = payAmount)
      \<and> (paymentAmountToleranceForCurrency currency < orderAmount - refundAmount \<longrightarrow>
           \<bar>sent - payAmount * refundAmount / orderAmount\<bar> \<le> half + err)"
proof -
  let ?d = "CurrencyMaxFractionDigits currency" and ?sent = "calculateGatewayRefundAmount orderAmount payAmount refundAmount currency"
  let ?div = "decimal_Div (payAmount * refundAmount) orderAmount" and ?tol = "paymentAmountToleranceForCurrency currency"
  have whole: "decimal_Round ?d payAmount = payAmount" using assms(3) by (rule Round_exact)
  have sent: "?sent = (if \<bar>refundAmount - orderAmount\<bar> \<le> ?tol then payAmount else decimal_Round ?d ?div)"
    using assms(1,2,4) whole by (simp add: calculateGatewayRefundAmount_def Let_def)
  have tol: "0 \<le> ?tol" by (simp add: paymentAmountToleranceForCurrency_def amountToleranceCNY_def Let_def)
  show ?thesis
  proof (cases "\<bar>refundAmount - orderAmount\<bar> \<le> ?tol")
    case True
    then have "\<not> ?tol < orderAmount - refundAmount" by linarith
    then show ?thesis using True assms(2) by (simp add: Let_def sent)
  next
    case False
    then have less: "refundAmount \<le> orderAmount" using assms(5) tol by (cases "refundAmount \<le> orderAmount") simp_all
    have unit: "?d \<le> 16" using unit_digits [of currency] by (simp add: CurrencyMaxFractionDigits_def)
    have part: "payAmount * refundAmount / orderAmount \<le> payAmount" "0 \<le> payAmount * refundAmount / orderAmount"
      using assms(1,2,4) less by (simp_all add: divide_le_eq)
    have "?div \<le> decimal_Round 16 payAmount" unfolding decimal_Div_def using part by (intro Round_mono)
    then have le: "?div \<le> payAmount" using Round_exact [OF has_digits_more [OF assms(3) unit]] by simp
    have ge: "0 \<le> ?div" unfolding decimal_Div_def using part(2) by (rule Round_nonneg)
    have share: "0 \<le> decimal_Round ?d ?div" "decimal_Round ?d ?div \<le> payAmount"
      using Round_nonneg [OF ge] Round_mono [OF ge le, of ?d] whole by simp_all
    have near: "\<bar>decimal_Round ?d ?div - payAmount * refundAmount / orderAmount\<bar> \<le> 1 / (2 * pow10 ?d) + 1 / (2 * pow10 16)"
      using Round_near [of ?d ?div] Div_near [of "payAmount * refundAmount" orderAmount] by linarith
    show ?thesis using share near False by (simp add: Let_def sent)
  qed
qed

theorem refund_share_witness:
  "(let sent = calculateGatewayRefundAmount 10 (1053 / 100) (10 / 3) ''CNY'' in
     0 \<le> sent \<and> sent \<le> 1053 / 100 \<and> \<bar>sent - (1053 / 100) * (10 / 3) / 10\<bar> \<le> 1 / 200 + 1 / (2 * pow10 16))
   \<and> calculateGatewayRefundAmount (2 / 100) (2 / 100) (1 / 100) ''CNY'' = 2 / 100"
proof -
  have "to_upper (trim_space ''CNY'') = ''CNY''" by code_simp
  then have cny: "NormalizePaymentCurrency ''CNY'' = Inr ''CNY''" by (simp add: NormalizePaymentCurrency_def Let_def byte_def)
  have "paymentCurrencyAmountUnitFor ''CNY'' = twoDecimalAmountUnit"
    by (simp add: paymentCurrencyAmountUnitFor_def cny paymentCurrencyAmountUnits_def)
  then have d: "CurrencyMaxFractionDigits ''CNY'' = 2" "CurrencyMinorUnit ''CNY'' = 2"
    by (simp_all add: CurrencyMaxFractionDigits_def CurrencyMinorUnit_def twoDecimalAmountUnit_def)
  have tol: "paymentAmountToleranceForCurrency ''CNY'' = 1 / 100"
    by (simp add: paymentAmountToleranceForCurrency_def amountToleranceCNY_def d)
  have paid: "has_digits (CurrencyMaxFractionDigits ''CNY'') (1053 / 100)" "has_digits (CurrencyMaxFractionDigits ''CNY'') (2 / 100)"
    by (rule has_digitsI [where k = 1053], simp add: d pow10_def, rule has_digitsI [where k = 2], simp add: d pow10_def)
  have half: "1 / (2 * pow10 2) = 1 / 200" by (simp add: pow10_def)
  show ?thesis
  proof
    show "let sent = calculateGatewayRefundAmount 10 (1053 / 100) (10 / 3) ''CNY'' in
        0 \<le> sent \<and> sent \<le> 1053 / 100 \<and> \<bar>sent - (1053 / 100) * (10 / 3) / 10\<bar> \<le> 1 / 200 + 1 / (2 * pow10 16)"
      using refund_share [of 10 "1053 / 100" "''CNY''" "10 / 3"] paid tol half unfolding d by (simp add: Let_def)
    show "calculateGatewayRefundAmount (2 / 100) (2 / 100) (1 / 100) ''CNY'' = 2 / 100"
      using refund_share [of "2 / 100" "2 / 100" "''CNY''" "1 / 100"] paid tol unfolding d by (simp add: Let_def)
  qed
qed

end
