(* ===== verification/Payment_Store.thy ===== *)
theory Payment_Store
  imports Payment_Amounts Domain_Constants
begin

text \<open>
  What the payment components keep in PostgreSQL and Redis, and the calls that reach it: the tables of orders, audit
  logs, redeem codes, users, subscriptions, groups, provider instances and affiliates (\<open>ent/schema\<close>), each a list of
  rows, and the statements, transactions and faults through which the handlers see them.

  Other processes work on the same store. \<open>pe_other e n\<close> is what they did before the \<open>n\<close>-th call of a handler;
  \<open>pe_fault e n\<close> says whether that call works, is refused, or takes effect with its answer lost. A process that
  crashes is one all of whose later calls are refused. Inside a transaction the writes are pending until the commit
  and no other process is seen: the transactions of these components lock the rows they decide on with their first
  write, or change rows by increments.
\<close>

section \<open>Rows\<close>

definition StatusUnused :: string where "StatusUnused = ''unused''"
definition StatusUsed :: string where "StatusUsed = ''used''"
definition StatusExpired :: string where "StatusExpired = ''expired''"

definition RedeemTypeBalance :: string where "RedeemTypeBalance = ''balance''"
definition RedeemTypeConcurrency :: string where "RedeemTypeConcurrency = ''concurrency''"
definition RedeemTypeSubscription :: string where "RedeemTypeSubscription = ''subscription''"
definition RedeemTypeInvitation :: string where "RedeemTypeInvitation = ''invitation''"

definition SubscriptionTypeSubscription :: string where "SubscriptionTypeSubscription = ''subscription''"

definition SubscriptionStatusActive :: string where "SubscriptionStatusActive = ''active''"
definition SubscriptionStatusExpired :: string where "SubscriptionStatusExpired = ''expired''"
definition SubscriptionStatusSuspended :: string where "SubscriptionStatusSuspended = ''suspended''"

text \<open>A value of the JSON column \<open>provider_snapshot\<close>.\<close>

datatype snapshot_value = SnapString string | SnapNumber int | SnapOther

record payment_order =
  po_ID :: int
  po_UserID :: int
  po_Amount :: rat
  po_PayAmount :: rat
  po_RechargeCode :: string
  po_OutTradeNo :: string
  po_PaymentType :: string
  po_PaymentTradeNo :: string
  po_OrderType :: string
  po_SubscriptionGroupID :: "int option"
  po_SubscriptionDays :: "int option"
  po_ProviderInstanceID :: "string option"
  po_ProviderKey :: "string option"
  po_ProviderSnapshot :: "(string \<times> snapshot_value) list"
  po_Status :: string
  po_RefundAmount :: rat
  po_RefundReason :: "string option"
  po_RefundAt :: "time option"
  po_ForceRefund :: bool
  po_RefundRequestedAt :: "time option"
  po_RefundRequestReason :: "string option"
  po_RefundRequestedBy :: "string option"
  po_ExpiresAt :: time
  po_PaidAt :: "time option"
  po_CompletedAt :: "time option"
  po_FailedAt :: "time option"
  po_FailedReason :: "string option"
  po_UpdatedAt :: time

record payment_audit_log =
  al_OrderID :: int
  al_Action :: string
  al_Operator :: string
  al_CreatedAt :: time

record RedeemCode =
  rc_ID :: int
  rc_Code :: string
  rc_Type :: string
  rc_Value :: rat
  rc_Status :: string
  rc_UsedBy :: "int option"
  rc_UsedAt :: "time option"
  rc_ExpiresAt :: "time option"
  rc_GroupID :: "int option"
  rc_ValidityDays :: int

record pay_user =
  pu_ID :: int
  pu_Balance :: rat
  pu_Concurrency :: int
  pu_TotalRecharged :: rat

record UserSubscription =
  us_ID :: int
  us_UserID :: int
  us_GroupID :: int
  us_StartsAt :: time
  us_ExpiresAt :: time
  us_Status :: string
  us_DailyWindowStart :: "time option"
  us_WeeklyWindowStart :: "time option"
  us_MonthlyWindowStart :: "time option"
  us_DailyUsageUSD :: rat
  us_WeeklyUsageUSD :: rat
  us_MonthlyUsageUSD :: rat
  us_AssignedBy :: "int option"
  us_AssignedAt :: time
  us_Notes :: string

record pay_group =
  pg_ID :: int
  pg_Status :: string
  pg_SubscriptionType :: string

record PaymentProviderInstance =
  pi_ID :: int
  pi_ProviderKey :: string
  pi_SupportedTypes :: string
  pi_Enabled :: bool
  pi_SortOrder :: int
  pi_RefundEnabled :: bool
  pi_AllowUserRefund :: bool

record user_affiliate =
  ua_UserID :: int
  ua_AffCode :: string
  ua_RebateRatePercent :: "rat option"
  ua_InviterID :: "int option"
  ua_AffCount :: int
  ua_Quota :: rat
  ua_FrozenQuota :: rat
  ua_HistoryQuota :: rat
  ua_CreatedAt :: time

datatype ledger_action = Accrue | Transfer

record affiliate_ledger =
  l_UserID :: int
  l_Action :: ledger_action
  l_Amount :: rat
  l_SourceUserID :: "int option"
  l_SourceOrderID :: "int option"
  l_FrozenUntil :: "time option"

text \<open>
  The store. \<open>pd_moves\<close> and \<open>pd_refunds\<close> are histories of the model, not tables: every change of a user's balance with
  the redeem code that caused it, if one did; and every refund sent to a payment provider, with its answer (\<open>None\<close> is a
  response that is missing) and the orders and users of the store at that moment. The counters are the sequences of the tables' ids; \<open>pd_attempts\<close> and \<open>pd_locks\<close> are the
  Redis keys of redeeming.
\<close>

record balance_move =
  bm_Code :: "string option"
  bm_UserID :: int
  bm_Amount :: rat

record RefundRequest =
  rr_TradeNo :: string
  rr_OrderID :: string
  rr_Amount :: rat
  rr_Reason :: string

record refund_call =
  fc_Request :: RefundRequest
  fc_Answer :: "go_error + string option"
  fc_Orders :: "payment_order list"
  fc_Users :: "pay_user list"

record pay_db =
  pd_orders :: "payment_order list"
  pd_audits :: "payment_audit_log list"
  pd_codes :: "RedeemCode list"
  pd_next_code :: int
  pd_users :: "pay_user list"
  pd_moves :: "balance_move list"
  pd_refunds :: "refund_call list"
  pd_subs :: "UserSubscription list"
  pd_next_sub :: int
  pd_groups :: "pay_group list"
  pd_instances :: "PaymentProviderInstance list"
  pd_affiliates :: "user_affiliate list"
  pd_ledger :: "affiliate_ledger list"
  pd_attempts :: "int \<Rightarrow> int"
  pd_locks :: "string list"

lemma find_update_same: "List.find p xs = Some x \<Longrightarrow> p (f x) \<Longrightarrow> List.find p (update_where p f xs) = Some (f x)"
  by (induction xs) (auto split: if_splits)

section \<open>Calls\<close>

datatype fault = Fine | Refused go_error | Lost go_error

record pay_env =
  pe_now :: "nat \<Rightarrow> time"
  pe_fault :: "nat \<Rightarrow> fault"
  pe_other :: "nat \<Rightarrow> pay_db \<Rightarrow> pay_db"

record pay_world =
  pw_calls :: nat
  pw_db :: pay_db
  pw_pending :: "pay_db \<Rightarrow> pay_db"
  pw_aborted :: bool

type_synonym 'a io = "(go_error + 'a) \<times> pay_world"

definition now :: "pay_env \<Rightarrow> pay_world \<Rightarrow> time" where
  "now e w = pe_now e (pw_calls w)"

definition aborted :: go_error where
  "aborted = OtherError ''pq: current transaction is aborted, commands ignored until end of transaction block'' None"

text \<open>
  One statement: \<open>ask\<close> is its answer on the store it sees, \<open>write\<close> its effect. \<open>in_tx\<close> tells whether its context
  carries the open transaction; without, it commits by itself. A failed statement aborts the transaction it is in.
\<close>

definition call_db :: "pay_env \<Rightarrow> pay_world \<Rightarrow> pay_db" where
  "call_db e w = pe_other e (pw_calls w) (pw_db w)"

definition stmt :: "pay_env \<Rightarrow> bool \<Rightarrow> (pay_db \<Rightarrow> go_error + 'a) \<Rightarrow> (pay_db \<Rightarrow> pay_db) \<Rightarrow> pay_world \<Rightarrow> 'a io" where
  "stmt e in_tx ask write w =
     (if in_tx then
        if pw_aborted w then (Inl aborted, w\<lparr>pw_calls := Suc (pw_calls w)\<rparr>)
        else
          (case (pe_fault e (pw_calls w), ask (pw_pending w (pw_db w))) of
             (Fine, Inr x) \<Rightarrow> (Inr x, w\<lparr>pw_calls := Suc (pw_calls w), pw_pending := write \<circ> pw_pending w\<rparr>)
           | (Fine, Inl err) \<Rightarrow> (Inl err, w\<lparr>pw_calls := Suc (pw_calls w), pw_aborted := True\<rparr>)
           | (Refused err, _) \<Rightarrow> (Inl err, w\<lparr>pw_calls := Suc (pw_calls w), pw_aborted := True\<rparr>)
           | (Lost err, _) \<Rightarrow> (Inl err, w\<lparr>pw_calls := Suc (pw_calls w), pw_aborted := True\<rparr>))
      else
        (case (pe_fault e (pw_calls w), ask (call_db e w)) of
           (Fine, Inr x) \<Rightarrow> (Inr x, w\<lparr>pw_calls := Suc (pw_calls w), pw_db := write (call_db e w)\<rparr>)
         | (Lost err, Inr x) \<Rightarrow> (Inl err, w\<lparr>pw_calls := Suc (pw_calls w), pw_db := write (call_db e w)\<rparr>)
         | (Fine, Inl err) \<Rightarrow> (Inl err, w\<lparr>pw_calls := Suc (pw_calls w), pw_db := call_db e w\<rparr>)
         | (Lost err, Inl _) \<Rightarrow> (Inl err, w\<lparr>pw_calls := Suc (pw_calls w), pw_db := call_db e w\<rparr>)
         | (Refused err, _) \<Rightarrow> (Inl err, w\<lparr>pw_calls := Suc (pw_calls w), pw_db := call_db e w\<rparr>)))"

definition begin_tx :: "pay_env \<Rightarrow> pay_world \<Rightarrow> unit io" where
  "begin_tx e w = stmt e False (\<lambda>_. Inr ()) (\<lambda>db. db) (w\<lparr>pw_pending := (\<lambda>db. db), pw_aborted := False\<rparr>)"

definition rollback :: "pay_world \<Rightarrow> pay_world" where
  "rollback w = w\<lparr>pw_pending := (\<lambda>db. db), pw_aborted := False\<rparr>"

definition commit_tx :: "pay_env \<Rightarrow> pay_world \<Rightarrow> unit io" where
  "commit_tx e w =
     (let w' = rollback (w\<lparr>pw_calls := Suc (pw_calls w)\<rparr>); committed = w'\<lparr>pw_db := pw_pending w (pw_db w)\<rparr>
      in if pw_aborted w then (Inl aborted, w')
         else (case pe_fault e (pw_calls w) of
                 Fine \<Rightarrow> (Inr (), committed) | Lost err \<Rightarrow> (Inl err, committed) | Refused err \<Rightarrow> (Inl err, w')))"

text \<open>The sequencing of calls: what follows an error, and what follows a result.\<close>

definition attempt :: "'a io \<Rightarrow> (go_error \<Rightarrow> pay_world \<Rightarrow> 'r) \<Rightarrow> ('a \<Rightarrow> pay_world \<Rightarrow> 'r) \<Rightarrow> 'r" where
  "attempt m failed succeeded = (case m of (Inl err, w) \<Rightarrow> failed err w | (Inr x, w) \<Rightarrow> succeeded x w)"

text \<open>\<open>fmt.Errorf("context: %w", err)\<close>.\<close>

definition errorf :: "string \<Rightarrow> go_error \<Rightarrow> go_error" where
  "errorf msg err = OtherError (msg @ '': '' @ (case err of OtherError m _ \<Rightarrow> m | ApplicationError _ _ m _ _ \<Rightarrow> m)) (Some err)"

section \<open>Audit logs\<close>

text \<open>An order has at most one entry of an action: a second one violates the unique index and is dropped with a
  log line.\<close>

definition audited :: "int \<Rightarrow> string \<Rightarrow> pay_db \<Rightarrow> bool" where
  "audited oid act db = (\<exists>a \<in> set (pd_audits db). al_OrderID a = oid \<and> al_Action a = act)"

definition duplicate_key :: go_error where
  "duplicate_key = OtherError ''pq: duplicate key value violates unique constraint'' None"

definition add_audit :: "int \<Rightarrow> string \<Rightarrow> string \<Rightarrow> time \<Rightarrow> pay_db \<Rightarrow> pay_db" where
  "add_audit oid act op t db =
     db\<lparr>pd_audits := pd_audits db @ [\<lparr>al_OrderID = oid, al_Action = act, al_Operator = op, al_CreatedAt = t\<rparr>]\<rparr>"

definition writeAuditLog :: "pay_env \<Rightarrow> int \<Rightarrow> string \<Rightarrow> string \<Rightarrow> pay_world \<Rightarrow> pay_world" where
  "writeAuditLog e oid act op w =
     snd (stmt e False (\<lambda>db. if audited oid act db then Inl duplicate_key else Inr ())
            (add_audit oid act op (now e w)) w)"

definition hasAuditLog :: "pay_env \<Rightarrow> int \<Rightarrow> string \<Rightarrow> pay_world \<Rightarrow> bool \<times> pay_world" where
  "hasAuditLog e oid act w =
     (case stmt e False (\<lambda>db. Inr (audited oid act db)) (\<lambda>db. db) w of
        (Inr found, w') \<Rightarrow> (found, w') | (Inl _, w') \<Rightarrow> (False, w'))"

section \<open>Orders\<close>

definition find_order :: "int \<Rightarrow> pay_db \<Rightarrow> payment_order option" where
  "find_order oid db = List.find (\<lambda>o'. po_ID o' = oid) (pd_orders db)"

definition ent_order_not_found :: go_error where
  "ent_order_not_found = OtherError ''ent: payment_order not found'' None"

definition get_order :: "pay_env \<Rightarrow> int \<Rightarrow> pay_world \<Rightarrow> payment_order io" where
  "get_order e oid w =
     stmt e False (\<lambda>db. case find_order oid db of Some po \<Rightarrow> Inr po | None \<Rightarrow> Inl ent_order_not_found) (\<lambda>db. db) w"

text \<open>\<open>PaymentOrder.Update().Where(...)\<close>: the number of rows changed; every change sets \<open>updated_at\<close>.\<close>

definition update_orders ::
  "pay_env \<Rightarrow> (payment_order \<Rightarrow> bool) \<Rightarrow> (payment_order \<Rightarrow> payment_order) \<Rightarrow> pay_world \<Rightarrow> nat io" where
  "update_orders e p f w =
     stmt e False (\<lambda>db. Inr (length (filter p (pd_orders db))))
       (\<lambda>db. db\<lparr>pd_orders := update_where p (\<lambda>po. (f po)\<lparr>po_UpdatedAt := now e w\<rparr>) (pd_orders db)\<rparr>) w"

text \<open>\<open>UpdateOneID\<close>: an error when there is no such row.\<close>

definition update_order :: "pay_env \<Rightarrow> int \<Rightarrow> (payment_order \<Rightarrow> payment_order) \<Rightarrow> pay_world \<Rightarrow> unit io" where
  "update_order e oid f w =
     stmt e False (\<lambda>db. if find_order oid db = None then Inl ent_order_not_found else Inr ())
       (\<lambda>db. db\<lparr>pd_orders := update_where (\<lambda>po. po_ID po = oid) (\<lambda>po. (f po)\<lparr>po_UpdatedAt := now e w\<rparr>) (pd_orders db)\<rparr>) w"

section \<open>Users\<close>

definition pay_ErrUserNotFound :: go_error where
  "pay_ErrUserNotFound = NotFound ''USER_NOT_FOUND'' ''user not found''"

definition find_user :: "int \<Rightarrow> pay_db \<Rightarrow> pay_user option" where
  "find_user uid db = List.find (\<lambda>u. pu_ID u = uid) (pd_users db)"

definition get_user :: "pay_env \<Rightarrow> int \<Rightarrow> pay_world \<Rightarrow> pay_user io" where
  "get_user e uid w =
     stmt e False (\<lambda>db. case find_user uid db of Some u \<Rightarrow> Inr u | None \<Rightarrow> Inl pay_ErrUserNotFound) (\<lambda>db. db) w"

definition add_balance :: "string option \<Rightarrow> int \<Rightarrow> rat \<Rightarrow> rat \<Rightarrow> pay_db \<Rightarrow> pay_db" where
  "add_balance code uid amount recharged db =
     (if \<exists>u \<in> set (pd_users db). pu_ID u = uid then
        db\<lparr>pd_users := update_where (\<lambda>u. pu_ID u = uid)
             (\<lambda>u. u\<lparr>pu_Balance := pu_Balance u + amount, pu_TotalRecharged := pu_TotalRecharged u + recharged\<rparr>) (pd_users db),
           pd_moves := pd_moves db @ [\<lparr>bm_Code = code, bm_UserID = uid, bm_Amount = amount\<rparr>]\<rparr>
      else db)"

text \<open>\<open>UpdateBalance\<close> adds to the balance, and what is positive also to the total recharged. \<open>code\<close> only goes to the
  history.\<close>

definition UpdateBalance :: "pay_env \<Rightarrow> bool \<Rightarrow> string option \<Rightarrow> int \<Rightarrow> rat \<Rightarrow> pay_world \<Rightarrow> unit io" where
  "UpdateBalance e in_tx code uid amount w =
     attempt
       (stmt e in_tx (\<lambda>db. Inr (length (filter (\<lambda>u. pu_ID u = uid) (pd_users db))))
          (add_balance code uid amount (if 0 < amount then amount else 0)) w)
       (\<lambda>err w. (Inl err, w))
       (\<lambda>n w. if n = 0 then (Inl pay_ErrUserNotFound, w) else (Inr (), w))"

text \<open>\<open>DeductBalance\<close> first tries a deduction the balance covers, then overdraws.\<close>

definition DeductBalance :: "pay_env \<Rightarrow> int \<Rightarrow> rat \<Rightarrow> pay_world \<Rightarrow> unit io" where
  "DeductBalance e uid amount w =
     attempt
       (stmt e False (\<lambda>db. Inr (length (filter (\<lambda>u. pu_ID u = uid \<and> amount \<le> pu_Balance u) (pd_users db))))
          (\<lambda>db. if \<exists>u \<in> set (pd_users db). pu_ID u = uid \<and> amount \<le> pu_Balance u
                then add_balance None uid (- amount) 0 db else db) w)
       (\<lambda>err w. (Inl err, w))
       (\<lambda>n w. if 0 < n then (Inr (), w)
              else attempt
                     (stmt e False (\<lambda>db. Inr (length (filter (\<lambda>u. pu_ID u = uid) (pd_users db))))
                        (add_balance None uid (- amount) 0) w)
                     (\<lambda>err w. (Inl err, w))
                     (\<lambda>n w. if n = 0 then (Inl pay_ErrUserNotFound, w) else (Inr (), w)))"

definition UpdateConcurrency :: "pay_env \<Rightarrow> bool \<Rightarrow> int \<Rightarrow> int \<Rightarrow> pay_world \<Rightarrow> unit io" where
  "UpdateConcurrency e in_tx uid delta w =
     attempt
       (stmt e in_tx (\<lambda>db. Inr (length (filter (\<lambda>u. pu_ID u = uid) (pd_users db))))
          (\<lambda>db. db\<lparr>pd_users := update_where (\<lambda>u. pu_ID u = uid) (\<lambda>u. u\<lparr>pu_Concurrency := pu_Concurrency u + delta\<rparr>)
                     (pd_users db)\<rparr>) w)
       (\<lambda>err w. (Inl err, w))
       (\<lambda>n w. if n = 0 then (Inl pay_ErrUserNotFound, w) else (Inr (), w))"

section \<open>Undisturbed runs\<close>

text \<open>\<open>calm t e\<close>: no call fails, nobody else writes, and the clock shows \<open>t\<close>.\<close>

definition calm :: "time \<Rightarrow> pay_env \<Rightarrow> bool" where
  "calm t e = (\<forall>n. pe_now e n = t \<and> pe_fault e n = Fine \<and> (\<forall>db. pe_other e n db = db))"

definition calm_env :: "time \<Rightarrow> pay_env" where
  "calm_env t = \<lparr>pe_now = (\<lambda>_. t), pe_fault = (\<lambda>_. Fine), pe_other = (\<lambda>_ db. db)\<rparr>"

lemma calm_calm_env [simp]: "calm t (calm_env t)"
  by (simp add: calm_def calm_env_def)

lemma calm_now: "calm t e \<Longrightarrow> now e w = t"
  by (simp add: calm_def now_def)

text \<open>A world between handlers: no transaction is open.\<close>

definition idle :: "pay_world \<Rightarrow> bool" where
  "idle w = (pw_pending w = (\<lambda>db. db) \<and> \<not> pw_aborted w)"

definition world_of :: "pay_db \<Rightarrow> pay_world" where
  "world_of db = \<lparr>pw_calls = 0, pw_db = db, pw_pending = (\<lambda>db. db), pw_aborted = False\<rparr>"

lemma idle_world_of [simp]: "idle (world_of db)"
  by (simp add: idle_def world_of_def)

lemma pw_db_world_of [simp]: "pw_db (world_of db) = db"
  by (simp add: world_of_def)

lemma idle_same:
  "idle w \<Longrightarrow> w\<lparr>pw_calls := n, pw_db := d, pw_pending := (\<lambda>db. db), pw_aborted := False\<rparr> = w\<lparr>pw_calls := n, pw_db := d\<rparr>"
  by (cases w) (simp add: idle_def)

lemma idleE:
  assumes "idle w"
  obtains c d where "w = \<lparr>pw_calls = c, pw_db = d, pw_pending = (\<lambda>db. db), pw_aborted = False\<rparr>"
  using assms that by (cases w) (simp add: idle_def)

lemma calm_stmt:
  assumes "calm t e"
  shows "stmt e False ask write w =
    (case ask (pw_db w) of
       Inr x \<Rightarrow> (Inr x, w\<lparr>pw_calls := Suc (pw_calls w), pw_db := write (pw_db w)\<rparr>)
     | Inl err \<Rightarrow> (Inl err, w\<lparr>pw_calls := Suc (pw_calls w)\<rparr>))"
  using assms by (simp add: stmt_def calm_def call_db_def split: sum.split)

lemma calm_stmt_tx:
  assumes "calm t e" "\<not> pw_aborted w"
  shows "stmt e True ask write w =
    (case ask (pw_pending w (pw_db w)) of
       Inr x \<Rightarrow> (Inr x, w\<lparr>pw_calls := Suc (pw_calls w), pw_pending := write \<circ> pw_pending w\<rparr>)
     | Inl err \<Rightarrow> (Inl err, w\<lparr>pw_calls := Suc (pw_calls w), pw_aborted := True\<rparr>))"
  using assms by (simp add: stmt_def calm_def split: sum.split)

lemma calm_begin:
  "calm t e \<Longrightarrow> begin_tx e w = (Inr (), w\<lparr>pw_calls := Suc (pw_calls w), pw_pending := (\<lambda>db. db), pw_aborted := False\<rparr>)"
  by (simp add: begin_tx_def calm_stmt)

lemma calm_commit:
  "calm t e \<Longrightarrow> \<not> pw_aborted w \<Longrightarrow> commit_tx e w =
    (Inr (), w\<lparr>pw_calls := Suc (pw_calls w), pw_db := pw_pending w (pw_db w), pw_pending := (\<lambda>db. db), pw_aborted := False\<rparr>)"
  by (simp add: commit_tx_def calm_def rollback_def Let_def)

lemma attempt_simps [simp]:
  "attempt (Inl err, w) f s = f err w" "attempt (Inr x, w) f s = s x w"
  by (simp_all add: attempt_def)

lemma attempt_cases:
  assumes "\<And>err w. m = (Inl err, w) \<Longrightarrow> P (f err w)" "\<And>x w. m = (Inr x, w) \<Longrightarrow> P (s x w)"
  shows "P (attempt m f s)"
  using assms by (cases m, cases "fst m") auto

lemmas calm_runs = calm_stmt calm_stmt_tx calm_begin calm_commit calm_now

section \<open>Reasoning about transactions\<close>

text \<open>What the statements of the open transaction see.\<close>

definition view :: "pay_world \<Rightarrow> pay_db" where
  "view w = pw_pending w (pw_db w)"

text \<open>
  \<open>tx_run P body Q\<close>: \<open>body\<close>, run inside a transaction whose view satisfies \<open>P\<close>, writes nothing yet, and when it
  returns \<open>x\<close> the view satisfies \<open>Q x\<close>; otherwise the transaction is aborted or \<open>body\<close> returned an error.
\<close>

definition tx_run :: "(pay_db \<Rightarrow> bool) \<Rightarrow> (pay_world \<Rightarrow> 'a io) \<Rightarrow> ('a \<Rightarrow> pay_db \<Rightarrow> bool) \<Rightarrow> bool" where
  "tx_run P body Q =
     (\<forall>w r w'. (pw_aborted w \<or> P (view w)) \<longrightarrow> body w = (r, w') \<longrightarrow>
        pw_db w' = pw_db w \<and> (pw_aborted w \<longrightarrow> pw_aborted w') \<and> (\<forall>x. r = Inr x \<longrightarrow> pw_aborted w' \<or> Q x (view w')))"

lemma tx_runI:
  assumes "\<And>w r w'. pw_aborted w \<or> P (view w) \<Longrightarrow> m w = (r, w') \<Longrightarrow>
    pw_db w' = pw_db w \<and> (pw_aborted w \<longrightarrow> pw_aborted w') \<and> (\<forall>x. r = Inr x \<longrightarrow> pw_aborted w' \<or> Q x (view w'))"
  shows "tx_run P m Q"
  using assms unfolding tx_run_def by blast

lemma tx_runD:
  assumes "tx_run P m Q" "pw_aborted w \<or> P (view w)" "m w = (r, w')"
  shows "pw_db w' = pw_db w" "pw_aborted w \<Longrightarrow> pw_aborted w'" "r = Inr x \<Longrightarrow> pw_aborted w' \<or> Q x (view w')"
  using assms unfolding tx_run_def by blast+

lemma tx_run_stmt:
  assumes "\<And>w db x. P db \<Longrightarrow> ask w db = Inr x \<Longrightarrow> Q x (write w db)"
  shows "tx_run P (\<lambda>w. stmt e True (ask w) (write w) w) Q"
  using assms unfolding tx_run_def stmt_def view_def by (auto split: fault.splits sum.splits)

lemma tx_run_return: "(\<And>db. P db \<Longrightarrow> Q x db) \<Longrightarrow> tx_run P (\<lambda>w. (Inr x, w)) Q"
  unfolding tx_run_def by auto

lemma tx_run_fail: "tx_run P (\<lambda>w. (Inl err, w)) Q"
  unfolding tx_run_def by auto

lemma tx_run_seq:
  assumes "tx_run P m R" "\<And>x. tx_run (R x) (s x) Q"
  shows "tx_run P (\<lambda>w. attempt (m w) (\<lambda>err w. (Inl (g err), w)) s) Q"
proof (rule tx_runI)
  fix w r w'
  assume pre: "pw_aborted w \<or> P (view w)" and run: "attempt (m w) (\<lambda>err w. (Inl (g err), w)) s = (r, w')"
  obtain rm wm where mw: "m w = (rm, wm)" by (rule prod.exhaust)
  note m = tx_runD [OF assms(1) pre mw]
  show "pw_db w' = pw_db w \<and> (pw_aborted w \<longrightarrow> pw_aborted w') \<and> (\<forall>x. r = Inr x \<longrightarrow> pw_aborted w' \<or> Q x (view w'))"
  proof (cases rm)
    case (Inl err)
    then show ?thesis using run mw m(1,2) by auto
  next
    case (Inr x)
    have "s x wm = (r, w')" using run mw Inr by simp
    from tx_runD [OF assms(2) m(3) [OF Inr] this] show ?thesis using m(1,2) by auto
  qed
qed

lemmas tx_run_seq_id = tx_run_seq [where g = "\<lambda>err. err"]

lemma stmt_tx_fails: "stmt e True ask write w = (Inl err, w') \<Longrightarrow> pw_aborted w'"
  by (auto simp: stmt_def split: if_splits fault.splits sum.splits)

lemma tx_run_retry:
  assumes "\<And>w db x. P db \<Longrightarrow> ask w db = Inr x \<Longrightarrow> R x (write w db)" "\<And>x. tx_run (R x) (s x) Q" "\<And>err. tx_run (\<lambda>_. False) (f err) Q"
  shows "tx_run P (\<lambda>w. attempt (stmt e True (ask w) (write w) w) f s) Q"
proof (rule tx_runI)
  fix w r w'
  assume pre: "pw_aborted w \<or> P (view w)" and run: "attempt (stmt e True (ask w) (write w) w) f s = (r, w')"
  obtain rm wm where mw: "stmt e True (ask w) (write w) w = (rm, wm)" by (rule prod.exhaust)
  note m = tx_runD [OF tx_run_stmt [of P ask R "write", where e = e] pre mw, OF assms(1)]
  show "pw_db w' = pw_db w \<and> (pw_aborted w \<longrightarrow> pw_aborted w') \<and> (\<forall>x. r = Inr x \<longrightarrow> pw_aborted w' \<or> Q x (view w'))"
  proof (cases rm)
    case (Inl err)
    then have "pw_aborted wm" using mw stmt_tx_fails by blast
    then have "pw_aborted wm \<or> (\<lambda>_. False) (view wm)" by simp
    moreover have "f err wm = (r, w')" using run mw Inl by simp
    ultimately have fail: "pw_aborted wm \<or> (\<lambda>_. False) (view wm)" "f err wm = (r, w')" by blast+
    note tx_runD [OF assms(3) fail]
    then show ?thesis using m(1,2) by auto
  next
    case (Inr x)
    have "s x wm = (r, w')" using run mw Inr by simp
    from tx_runD [OF assms(2) _ this] m(3) [OF _ _ Inr] show ?thesis using m(1,2) by auto
  qed
qed

lemma tx_run_weaken: "tx_run P m Q \<Longrightarrow> (\<And>db. P' db \<Longrightarrow> P db) \<Longrightarrow> (\<And>x db. Q x db \<Longrightarrow> Q' x db) \<Longrightarrow> tx_run P' m Q'"
  unfolding tx_run_def by blast

section \<open>Interference\<close>

text \<open>
  The interface of a property that every writer of the store keeps: an invariant \<open>ok\<close> and a preorder \<open>le\<close> of what may
  change. \<open>goes\<close> says that a handler moves the store within them, \<open>kind\<close> that the other processes do.
\<close>

definition goes :: "(pay_db \<Rightarrow> bool) \<Rightarrow> (pay_db \<Rightarrow> pay_db \<Rightarrow> bool) \<Rightarrow> pay_world \<Rightarrow> pay_world \<Rightarrow> bool" where
  "goes ok le w w' = (ok (pw_db w) \<longrightarrow> ok (pw_db w') \<and> le (pw_db w) (pw_db w'))"

definition kind :: "(pay_db \<Rightarrow> bool) \<Rightarrow> (pay_db \<Rightarrow> pay_db \<Rightarrow> bool) \<Rightarrow> pay_env \<Rightarrow> bool" where
  "kind ok le e = (\<forall>n db. ok db \<longrightarrow> ok (pe_other e n db) \<and> le db (pe_other e n db))"

locale store_rely =
  fixes ok :: "pay_db \<Rightarrow> bool"
    and le :: "pay_db \<Rightarrow> pay_db \<Rightarrow> bool"
  assumes le_refl: "ok db \<Longrightarrow> le db db"
    and le_trans: "ok a \<Longrightarrow> ok b \<Longrightarrow> ok c \<Longrightarrow> le a b \<Longrightarrow> le b c \<Longrightarrow> le a c"
begin

lemma goes_refl: "goes ok le w w"
  using le_refl by (simp add: goes_def)

lemma goes_trans: "goes ok le a b \<Longrightarrow> goes ok le b c \<Longrightarrow> goes ok le a c"
  unfolding goes_def using le_trans by blast

lemma goes_same: "pw_db w' = pw_db w \<Longrightarrow> goes ok le w w'"
  using le_refl by (simp add: goes_def)

text \<open>A statement that commits by itself, with what it has seen.\<close>

lemma stmt_goes:
  assumes "kind ok le e" "\<And>db x. ok db \<Longrightarrow> ask db = Inr x \<Longrightarrow> ok (write db) \<and> le db (write db)"
  shows "goes ok le w (snd (stmt e False ask write w))"
proof -
  have other: "ok (pw_db w) \<Longrightarrow> ok (call_db e w) \<and> le (pw_db w) (call_db e w)"
    using assms(1) by (simp add: kind_def call_db_def)
  then have "ok (pw_db w) \<Longrightarrow> ask (call_db e w) = Inr x \<Longrightarrow> ok (write (call_db e w)) \<and> le (pw_db w) (write (call_db e w))" for x
    using assms(2) le_trans by blast
  with other show ?thesis by (auto simp: goes_def stmt_def split: fault.split sum.split)
qed

lemma stmt_goes_Inr:
  assumes "kind ok le e" "\<And>db x. ok db \<Longrightarrow> ask db = Inr x \<Longrightarrow> ok (write db) \<and> le db (write db)"
    and "stmt e False ask write w = (Inr x, w')" "ok (pw_db w)"
  shows "\<exists>db. ok db \<and> le (pw_db w) db \<and> ask db = Inr x \<and> pw_db w' = write db \<and> ok (pw_db w') \<and> le (pw_db w) (pw_db w')"
proof -
  have "ok (call_db e w)" "le (pw_db w) (call_db e w)" using assms(1,4) by (simp_all add: kind_def call_db_def)
  moreover have "ask (call_db e w) = Inr x" "pw_db w' = write (call_db e w)"
    using assms(3) by (auto simp: stmt_def split: fault.splits sum.splits)
  moreover have "ok (pw_db w')" "le (pw_db w) (pw_db w')"
    using stmt_goes [of e ask "write" w, OF assms(1,2)] assms(3,4) by (simp_all add: goes_def)
  ultimately show ?thesis by blast
qed

lemma begin_goes: "kind ok le e \<Longrightarrow> goes ok le w (snd (begin_tx e w))"
  unfolding begin_tx_def
  by (rule goes_trans [OF goes_same stmt_goes]) (auto intro: le_refl)

lemma begin_clean:
  "begin_tx e w = (Inr x, w') \<Longrightarrow> pw_pending w' = (\<lambda>db. db) \<and> \<not> pw_aborted w'"
  by (auto simp: begin_tx_def stmt_def split: fault.splits)

lemma commit_goes:
  assumes "pw_aborted w \<or> (ok (pw_db w) \<longrightarrow> ok (view w) \<and> le (pw_db w) (view w))"
  shows "goes ok le w (snd (commit_tx e w))"
  using assms le_refl by (auto simp: goes_def commit_tx_def rollback_def Let_def view_def split: fault.split)

lemma attempt_goes:
  assumes "goes ok le w (snd m)" "\<And>err w'. m = (Inl err, w') \<Longrightarrow> goes ok le w' (snd (f err w'))"
    "\<And>x w'. m = (Inr x, w') \<Longrightarrow> goes ok le w' (snd (s x w'))"
  shows "goes ok le w (snd (attempt m f s))"
proof (cases m)
  case (Pair r w')
  then show ?thesis using assms goes_trans by (cases r) (auto intro: goes_trans)
qed

text \<open>A whole transaction.\<close>

lemma tx_goes:
  assumes "kind ok le e" "\<And>db0. ok db0 \<Longrightarrow> tx_run (\<lambda>db. db = db0) body (\<lambda>_ db. ok db \<and> le db0 db)"
  shows "goes ok le w (snd (attempt (begin_tx e w) (\<lambda>err w. (Inl (g err), w))
    (\<lambda>_ w. attempt (body w) (\<lambda>err w. (Inl (h err), rollback w))
      (\<lambda>x w. attempt (commit_tx e w) (\<lambda>err w. (Inl (k err), w)) (\<lambda>_ w. (Inr x, w))))))"
proof (rule attempt_goes)
  show "goes ok le w (snd (begin_tx e w))" using assms(1) by (rule begin_goes)
next
  fix x w1 assume "begin_tx e w = (Inr x, w1)"
  then have w1: "view w1 = pw_db w1" using begin_clean by (simp add: view_def)
  show "goes ok le w1 (snd (attempt (body w1) (\<lambda>err w. (Inl (h err), rollback w))
      (\<lambda>x w. attempt (commit_tx e w) (\<lambda>err w. (Inl (k err), w)) (\<lambda>_ w. (Inr x, w)))))"
  proof (cases "ok (pw_db w1)")
    case True
    obtain r w2 where body: "body w1 = (r, w2)" by (rule prod.exhaust)
    have "pw_aborted w1 \<or> view w1 = pw_db w1" using w1 by simp
    note w2 = tx_runD [OF assms(2) [OF True] this body]
    show ?thesis
    proof (cases r)
      case (Inl err)
      then show ?thesis using body w2(1) by (simp add: goes_same rollback_def)
    next
      case (Inr y)
      have "goes ok le w2 (snd (commit_tx e w2))" using w2(3) [OF Inr] w2(1) by (intro commit_goes) auto
      then have "goes ok le w2 (snd (attempt (commit_tx e w2) (\<lambda>err w. (Inl (k err), w)) (\<lambda>_ w. (Inr y, w))))"
        by (intro attempt_goes) (auto intro: goes_refl)
      from goes_trans [OF goes_same this] w2(1) show ?thesis using body Inr by simp
    qed
  next
    case False
    then show ?thesis by (simp add: goes_def)
  qed
qed (auto intro: goes_refl)

end

end
