(* ===== verification/Subscription_Terms.thy ===== *)
theory Subscription_Terms
  imports Payment_Store
begin

text \<open>
  Subscriptions of users to groups (\<open>service/user_subscription.go\<close>, \<open>service/subscription_service.go\<close>,
  \<open>repository/user_subscription_repo.go\<close>): their terms, which redeem codes and payment orders open, extend, shorten
  and revoke, and the usage windows of a day, a week and a month that requests are checked against.

  A day is 24 hours (\<open>AddDate\<close> in a time zone without daylight saving); \<open>startOfDay zone t\<close> is midnight in a time
  zone \<open>zone\<close> ahead of UTC. Rows that are soft-deleted are not in the table.
\<close>

section \<open>A subscription\<close>

abbreviation Day :: duration where "Day \<equiv> 86400000000000"

definition us_IsActive :: "time \<Rightarrow> UserSubscription \<Rightarrow> bool" where
  "us_IsActive t s = (us_Status s = SubscriptionStatusActive \<and> t < us_ExpiresAt s)"

definition us_IsExpired :: "time \<Rightarrow> UserSubscription \<Rightarrow> bool" where
  "us_IsExpired t s = (us_ExpiresAt s < t)"

definition IsWindowActivated :: "UserSubscription \<Rightarrow> bool" where
  "IsWindowActivated s =
     (us_DailyWindowStart s \<noteq> None \<or> us_WeeklyWindowStart s \<noteq> None \<or> us_MonthlyWindowStart s \<noteq> None)"

text \<open>The zero time stands for an instant that is not set.\<close>

definition HasOneTimeDailyQuota :: "UserSubscription \<Rightarrow> bool" where
  "HasOneTimeDailyQuota s =
     (us_StartsAt s \<noteq> 0 \<and> us_ExpiresAt s \<noteq> 0 \<and> us_ExpiresAt s \<le> us_StartsAt s + Day)"

definition NeedsDailyResetAt :: "time \<Rightarrow> UserSubscription \<Rightarrow> bool" where
  "NeedsDailyResetAt t s =
     (case us_DailyWindowStart s of None \<Rightarrow> False | Some start \<Rightarrow> \<not> HasOneTimeDailyQuota s \<and> start + Day \<le> t)"

definition NeedsWeeklyReset :: "time \<Rightarrow> UserSubscription \<Rightarrow> bool" where
  "NeedsWeeklyReset t s = (case us_WeeklyWindowStart s of None \<Rightarrow> False | Some start \<Rightarrow> 7 * Day \<le> t - start)"

definition NeedsMonthlyReset :: "time \<Rightarrow> UserSubscription \<Rightarrow> bool" where
  "NeedsMonthlyReset t s = (case us_MonthlyWindowStart s of None \<Rightarrow> False | Some start \<Rightarrow> 30 * Day \<le> t - start)"

text \<open>The limits of a group: one that is missing or not positive does not limit.\<close>

record group_limits =
  gl_DailyLimitUSD :: "rat option"
  gl_WeeklyLimitUSD :: "rat option"
  gl_MonthlyLimitUSD :: "rat option"

definition HasDailyLimit :: "group_limits \<Rightarrow> bool" where
  "HasDailyLimit g = (case gl_DailyLimitUSD g of None \<Rightarrow> False | Some l \<Rightarrow> 0 < l)"
definition HasWeeklyLimit :: "group_limits \<Rightarrow> bool" where
  "HasWeeklyLimit g = (case gl_WeeklyLimitUSD g of None \<Rightarrow> False | Some l \<Rightarrow> 0 < l)"
definition HasMonthlyLimit :: "group_limits \<Rightarrow> bool" where
  "HasMonthlyLimit g = (case gl_MonthlyLimitUSD g of None \<Rightarrow> False | Some l \<Rightarrow> 0 < l)"

definition CheckDailyLimit :: "UserSubscription \<Rightarrow> group_limits \<Rightarrow> rat \<Rightarrow> bool" where
  "CheckDailyLimit s g cost = (if HasDailyLimit g then us_DailyUsageUSD s + cost \<le> the (gl_DailyLimitUSD g) else True)"
definition CheckWeeklyLimit :: "UserSubscription \<Rightarrow> group_limits \<Rightarrow> rat \<Rightarrow> bool" where
  "CheckWeeklyLimit s g cost = (if HasWeeklyLimit g then us_WeeklyUsageUSD s + cost \<le> the (gl_WeeklyLimitUSD g) else True)"
definition CheckMonthlyLimit :: "UserSubscription \<Rightarrow> group_limits \<Rightarrow> rat \<Rightarrow> bool" where
  "CheckMonthlyLimit s g cost = (if HasMonthlyLimit g then us_MonthlyUsageUSD s + cost \<le> the (gl_MonthlyLimitUSD g) else True)"

section \<open>The repository\<close>

definition us_ErrSubscriptionNotFound :: go_error where
  "us_ErrSubscriptionNotFound = NotFound ''SUBSCRIPTION_NOT_FOUND'' ''subscription not found''"
definition ErrSubscriptionExpired :: go_error where
  "ErrSubscriptionExpired = Forbidden ''SUBSCRIPTION_EXPIRED'' ''subscription has expired''"
definition ErrSubscriptionSuspended :: go_error where
  "ErrSubscriptionSuspended = Forbidden ''SUBSCRIPTION_SUSPENDED'' ''subscription is suspended''"
definition ErrSubscriptionAlreadyExists :: go_error where
  "ErrSubscriptionAlreadyExists =
     Conflict ''SUBSCRIPTION_ALREADY_EXISTS'' ''subscription already exists for this user and group''"
definition ErrGroupNotSubscriptionType :: go_error where
  "ErrGroupNotSubscriptionType = BadRequest ''GROUP_NOT_SUBSCRIPTION_TYPE'' ''group is not a subscription type''"
definition ErrInvalidInput :: go_error where
  "ErrInvalidInput = BadRequest ''INVALID_INPUT'' ''at least one of resetDaily, resetWeekly, or resetMonthly must be true''"
definition ErrDailyLimitExceeded :: go_error where
  "ErrDailyLimitExceeded = TooManyRequests ''DAILY_LIMIT_EXCEEDED'' ''daily usage limit exceeded''"
definition ErrWeeklyLimitExceeded :: go_error where
  "ErrWeeklyLimitExceeded = TooManyRequests ''WEEKLY_LIMIT_EXCEEDED'' ''weekly usage limit exceeded''"
definition ErrMonthlyLimitExceeded :: go_error where
  "ErrMonthlyLimitExceeded = TooManyRequests ''MONTHLY_LIMIT_EXCEEDED'' ''monthly usage limit exceeded''"
definition ErrAdjustWouldExpire :: go_error where
  "ErrAdjustWouldExpire =
     BadRequest ''ADJUST_WOULD_EXPIRE'' ''adjustment would result in expired subscription (remaining days must be > 0)''"

definition find_sub :: "(UserSubscription \<Rightarrow> bool) \<Rightarrow> pay_db \<Rightarrow> UserSubscription option" where
  "find_sub p db = List.find p (pd_subs db)"

definition sub_GetByID :: "pay_env \<Rightarrow> bool \<Rightarrow> int \<Rightarrow> pay_world \<Rightarrow> UserSubscription io" where
  "sub_GetByID e in_tx sid w =
     attempt (stmt e in_tx (\<lambda>db. Inr (find_sub (\<lambda>s. us_ID s = sid) db)) (\<lambda>db. db) w)
       (\<lambda>err w. (Inl err, w))
       (\<lambda>found w. (case found of Some s \<Rightarrow> Inr s | None \<Rightarrow> Inl us_ErrSubscriptionNotFound, w))"

definition GetByUserIDAndGroupID :: "pay_env \<Rightarrow> bool \<Rightarrow> int \<Rightarrow> int \<Rightarrow> pay_world \<Rightarrow> UserSubscription io" where
  "GetByUserIDAndGroupID e in_tx uid gid w =
     attempt (stmt e in_tx (\<lambda>db. Inr (find_sub (\<lambda>s. us_UserID s = uid \<and> us_GroupID s = gid) db)) (\<lambda>db. db) w)
       (\<lambda>err w. (Inl err, w))
       (\<lambda>found w. (case found of Some s \<Rightarrow> Inr s | None \<Rightarrow> Inl us_ErrSubscriptionNotFound, w))"

definition GetActiveByUserIDAndGroupID :: "pay_env \<Rightarrow> bool \<Rightarrow> int \<Rightarrow> int \<Rightarrow> pay_world \<Rightarrow> UserSubscription io" where
  "GetActiveByUserIDAndGroupID e in_tx uid gid w =
     attempt (stmt e in_tx (\<lambda>db. Inr (find_sub (\<lambda>s. us_UserID s = uid \<and> us_GroupID s = gid \<and> us_IsActive (now e w) s) db))
                (\<lambda>db. db) w)
       (\<lambda>err w. (Inl err, w))
       (\<lambda>found w. (case found of Some s \<Rightarrow> Inr s | None \<Rightarrow> Inl us_ErrSubscriptionNotFound, w))"

definition update_subs :: "int \<Rightarrow> (UserSubscription \<Rightarrow> UserSubscription) \<Rightarrow> pay_db \<Rightarrow> pay_db" where
  "update_subs sid f db = db\<lparr>pd_subs := update_where (\<lambda>s. us_ID s = sid) f (pd_subs db)\<rparr>"

text \<open>\<open>UpdateOneID\<close>, with the error of a missing row translated.\<close>

definition update_sub :: "pay_env \<Rightarrow> bool \<Rightarrow> int \<Rightarrow> (UserSubscription \<Rightarrow> UserSubscription) \<Rightarrow> pay_world \<Rightarrow> unit io" where
  "update_sub e in_tx sid f w =
     attempt (stmt e in_tx (\<lambda>db. Inr (find_sub (\<lambda>s. us_ID s = sid) db)) (update_subs sid f) w)
       (\<lambda>err w. (Inl err, w))
       (\<lambda>found w. (if found = None then Inl us_ErrSubscriptionNotFound else Inr (), w))"

definition ExtendExpiry :: "pay_env \<Rightarrow> bool \<Rightarrow> int \<Rightarrow> time \<Rightarrow> pay_world \<Rightarrow> unit io" where
  "ExtendExpiry e in_tx sid t = update_sub e in_tx sid (\<lambda>s. s\<lparr>us_ExpiresAt := t\<rparr>)"

definition UpdateStatus :: "pay_env \<Rightarrow> bool \<Rightarrow> int \<Rightarrow> string \<Rightarrow> pay_world \<Rightarrow> unit io" where
  "UpdateStatus e in_tx sid status = update_sub e in_tx sid (\<lambda>s. s\<lparr>us_Status := status\<rparr>)"

definition UpdateNotes :: "pay_env \<Rightarrow> bool \<Rightarrow> int \<Rightarrow> string \<Rightarrow> pay_world \<Rightarrow> unit io" where
  "UpdateNotes e in_tx sid notes = update_sub e in_tx sid (\<lambda>s. s\<lparr>us_Notes := notes\<rparr>)"

text \<open>\<open>Update\<close> writes every column of a subscription read before; the windows, set by \<open>SetNillable\<close>, only when they
  are there.\<close>

definition sub_Update :: "pay_env \<Rightarrow> bool \<Rightarrow> UserSubscription \<Rightarrow> pay_world \<Rightarrow> unit io" where
  "sub_Update e in_tx sub =
     update_sub e in_tx (us_ID sub)
       (\<lambda>s. sub\<lparr>us_DailyWindowStart := (case us_DailyWindowStart sub of None \<Rightarrow> us_DailyWindowStart s | x \<Rightarrow> x),
               us_WeeklyWindowStart := (case us_WeeklyWindowStart sub of None \<Rightarrow> us_WeeklyWindowStart s | x \<Rightarrow> x),
               us_MonthlyWindowStart := (case us_MonthlyWindowStart sub of None \<Rightarrow> us_MonthlyWindowStart s | x \<Rightarrow> x),
               us_AssignedBy := (case us_AssignedBy sub of None \<Rightarrow> us_AssignedBy s | x \<Rightarrow> x)\<rparr>)"

text \<open>A user has one subscription of a group that is not deleted.\<close>

definition sub_Create :: "pay_env \<Rightarrow> bool \<Rightarrow> UserSubscription \<Rightarrow> pay_world \<Rightarrow> int io" where
  "sub_Create e in_tx sub w =
     stmt e in_tx
       (\<lambda>db. if \<exists>s \<in> set (pd_subs db). us_UserID s = us_UserID sub \<and> us_GroupID s = us_GroupID sub
             then Inl ErrSubscriptionAlreadyExists else Inr (pd_next_sub db))
       (\<lambda>db. db\<lparr>pd_subs := pd_subs db @ [sub\<lparr>us_ID := pd_next_sub db\<rparr>], pd_next_sub := pd_next_sub db + 1\<rparr>) w"

definition sub_Delete :: "pay_env \<Rightarrow> bool \<Rightarrow> int \<Rightarrow> pay_world \<Rightarrow> unit io" where
  "sub_Delete e in_tx sid w =
     stmt e in_tx (\<lambda>_. Inr ()) (\<lambda>db. db\<lparr>pd_subs := filter (\<lambda>s. us_ID s \<noteq> sid) (pd_subs db)\<rparr>) w"

definition ActivateWindows :: "pay_env \<Rightarrow> int \<Rightarrow> time \<Rightarrow> pay_world \<Rightarrow> unit io" where
  "ActivateWindows e sid start =
     update_sub e False sid (\<lambda>s. s\<lparr>us_DailyWindowStart := Some start, us_WeeklyWindowStart := Some start,
       us_MonthlyWindowStart := Some start\<rparr>)"

definition ResetDailyUsage :: "pay_env \<Rightarrow> int \<Rightarrow> time \<Rightarrow> pay_world \<Rightarrow> unit io" where
  "ResetDailyUsage e sid start =
     update_sub e False sid (\<lambda>s. s\<lparr>us_DailyUsageUSD := 0, us_DailyWindowStart := Some start\<rparr>)"

definition ResetWeeklyUsage :: "pay_env \<Rightarrow> int \<Rightarrow> time \<Rightarrow> pay_world \<Rightarrow> unit io" where
  "ResetWeeklyUsage e sid start =
     update_sub e False sid (\<lambda>s. s\<lparr>us_WeeklyUsageUSD := 0, us_WeeklyWindowStart := Some start\<rparr>)"

definition ResetMonthlyUsage :: "pay_env \<Rightarrow> int \<Rightarrow> time \<Rightarrow> pay_world \<Rightarrow> unit io" where
  "ResetMonthlyUsage e sid start =
     update_sub e False sid (\<lambda>s. s\<lparr>us_MonthlyUsageUSD := 0, us_MonthlyWindowStart := Some start\<rparr>)"

text \<open>The usage of a group that is deleted is not recorded; \<open>pd_groups\<close> holds the groups that are not.\<close>

definition add_usage :: "rat \<Rightarrow> UserSubscription \<Rightarrow> UserSubscription" where
  "add_usage cost s = s\<lparr>us_DailyUsageUSD := us_DailyUsageUSD s + cost, us_WeeklyUsageUSD := us_WeeklyUsageUSD s + cost,
     us_MonthlyUsageUSD := us_MonthlyUsageUSD s + cost\<rparr>"

definition sub_IncrementUsage :: "pay_env \<Rightarrow> int \<Rightarrow> rat \<Rightarrow> pay_world \<Rightarrow> unit io" where
  "sub_IncrementUsage e sid cost w =
     (let hit = (\<lambda>db s. us_ID s = sid \<and> (\<exists>g \<in> set (pd_groups db). pg_ID g = us_GroupID s))
      in attempt
           (stmt e False (\<lambda>db. Inr (length (filter (hit db) (pd_subs db))))
              (\<lambda>db. db\<lparr>pd_subs := update_where (hit db) (add_usage cost) (pd_subs db)\<rparr>) w)
           (\<lambda>err w. (Inl err, w))
           (\<lambda>n w. if 0 < n then (Inr (), w) else (Inl us_ErrSubscriptionNotFound, w)))"

definition BatchUpdateExpiredStatus :: "pay_env \<Rightarrow> pay_world \<Rightarrow> nat io" where
  "BatchUpdateExpiredStatus e w =
     (let hit = (\<lambda>s. us_Status s = SubscriptionStatusActive \<and> us_ExpiresAt s \<le> now e w)
      in stmt e False (\<lambda>db. Inr (length (filter hit (pd_subs db))))
           (\<lambda>db. db\<lparr>pd_subs := update_where hit (\<lambda>s. s\<lparr>us_Status := SubscriptionStatusExpired\<rparr>) (pd_subs db)\<rparr>) w)"

section \<open>Terms\<close>

definition MaxExpiresAt :: time where "MaxExpiresAt = 4102444799 * Second"
definition MaxValidityDays :: int where "MaxValidityDays = 36500"

record AssignSubscriptionInput =
  as_UserID :: int
  as_GroupID :: int
  as_ValidityDays :: int
  as_AssignedBy :: int
  as_Notes :: string

definition normalizeAssignValidityDays :: "int \<Rightarrow> int" where
  "normalizeAssignValidityDays d = (let d = (if d \<le> 0 then 30 else d) in if MaxValidityDays < d then MaxValidityDays else d)"

definition cap_expiry :: "time \<Rightarrow> time" where
  "cap_expiry t = (if MaxExpiresAt < t then MaxExpiresAt else t)"

definition startOfDay :: "duration \<Rightarrow> time \<Rightarrow> time" where
  "startOfDay zone t = (t + zone) div Day * Day - zone"

definition appendSubscriptionNotes :: "string \<Rightarrow> string \<Rightarrow> string" where
  "appendSubscriptionNotes old new =
     (if new = [] then old else if old = [] then new else old @ [CHR 0x0A] @ new)"

definition renewedSubscriptionTerm :: "duration \<Rightarrow> UserSubscription \<Rightarrow> string \<Rightarrow> time \<Rightarrow> time \<Rightarrow> UserSubscription" where
  "renewedSubscriptionTerm zone existing notes startsAt expiresAt =
     (let windowStart = Some (startOfDay zone startsAt)
      in existing\<lparr>us_StartsAt := startsAt, us_ExpiresAt := expiresAt, us_Status := SubscriptionStatusActive,
           us_DailyWindowStart := windowStart, us_WeeklyWindowStart := windowStart, us_MonthlyWindowStart := windowStart,
           us_DailyUsageUSD := 0, us_WeeklyUsageUSD := 0, us_MonthlyUsageUSD := 0,
           us_Notes := appendSubscriptionNotes (us_Notes existing) notes\<rparr>)"

text \<open>
  \<open>withSubscriptionUpdateTx\<close> opens a transaction of its own on the client of the service, whatever transaction the
  context carries. Its statements are collected in \<open>body\<close>; committing it makes them visible at once, also when an
  outer transaction is rolled back later.
\<close>

definition own_tx :: "pay_env \<Rightarrow> bool \<Rightarrow> (pay_world \<Rightarrow> unit io) \<Rightarrow> pay_world \<Rightarrow> unit io" where
  "own_tx e nested body w =
     (let restore = (\<lambda>w'. if nested then w'\<lparr>pw_pending := pw_pending w, pw_aborted := pw_aborted w\<rparr> else w')
      in attempt (begin_tx e w)
           (\<lambda>err w. (Inl (errorf ''begin transaction'' err), restore w))
           (\<lambda>_ w. attempt (body w)
              (\<lambda>err w. (Inl err, restore (rollback w)))
              (\<lambda>_ w. attempt (commit_tx e w)
                 (\<lambda>err w. (Inl (errorf ''commit transaction'' err), restore w))
                 (\<lambda>_ w. (Inr (), restore w)))))"

definition updateExistingSubscriptionTerm ::
  "pay_env \<Rightarrow> duration \<Rightarrow> bool \<Rightarrow> UserSubscription \<Rightarrow> string \<Rightarrow> time \<Rightarrow> time \<Rightarrow> bool \<Rightarrow> pay_world \<Rightarrow> unit io" where
  "updateExistingSubscriptionTerm e zone nested existing notes startsAt newExpiresAt isExpired =
     own_tx e nested (\<lambda>w.
       if isExpired then
         attempt (sub_Update e True (renewedSubscriptionTerm zone existing notes startsAt newExpiresAt) w)
           (\<lambda>err w. (Inl (errorf ''renew expired subscription'' err), w))
           (\<lambda>_ w. (Inr (), w))
       else
         attempt (ExtendExpiry e True (us_ID existing) newExpiresAt w)
           (\<lambda>err w. (Inl (errorf ''extend subscription'' err), w))
           (\<lambda>_ w. attempt
              (if us_Status existing \<noteq> SubscriptionStatusActive
               then UpdateStatus e True (us_ID existing) SubscriptionStatusActive w else (Inr (), w))
              (\<lambda>err w. (Inl (errorf ''update subscription status'' err), w))
              (\<lambda>_ w. attempt
                 (if notes \<noteq> []
                  then UpdateNotes e True (us_ID existing) (appendSubscriptionNotes (us_Notes existing) notes) w
                  else (Inr (), w))
                 (\<lambda>err w. (Inl (errorf ''update subscription notes'' err), w))
                 (\<lambda>_ w. (Inr (), w)))))"

definition createSubscription :: "pay_env \<Rightarrow> bool \<Rightarrow> AssignSubscriptionInput \<Rightarrow> pay_world \<Rightarrow> UserSubscription io" where
  "createSubscription e in_tx input w =
     (let t = now e w;
          sub = \<lparr>us_ID = 0, us_UserID = as_UserID input, us_GroupID = as_GroupID input, us_StartsAt = t,
                 us_ExpiresAt = cap_expiry (t + normalizeAssignValidityDays (as_ValidityDays input) * Day),
                 us_Status = SubscriptionStatusActive, us_DailyWindowStart = None, us_WeeklyWindowStart = None,
                 us_MonthlyWindowStart = None, us_DailyUsageUSD = 0, us_WeeklyUsageUSD = 0, us_MonthlyUsageUSD = 0,
                 us_AssignedBy = (if 0 < as_AssignedBy input then Some (as_AssignedBy input) else None),
                 us_AssignedAt = t, us_Notes = as_Notes input\<rparr>
      in attempt (sub_Create e in_tx sub w) (\<lambda>err w. (Inl err, w)) (\<lambda>sid w. sub_GetByID e in_tx sid w))"

definition get_group :: "pay_env \<Rightarrow> int \<Rightarrow> pay_world \<Rightarrow> pay_group io" where
  "get_group e gid w =
     stmt e False (\<lambda>db. case List.find (\<lambda>g. pg_ID g = gid) (pd_groups db) of
         Some g \<Rightarrow> Inr g | None \<Rightarrow> Inl (NotFound ''GROUP_NOT_FOUND'' ''group not found'')) (\<lambda>db. db) w"

definition AssignOrExtendSubscription ::
  "pay_env \<Rightarrow> duration \<Rightarrow> bool \<Rightarrow> AssignSubscriptionInput \<Rightarrow> pay_world \<Rightarrow> UserSubscription io" where
  "AssignOrExtendSubscription e zone in_tx input w =
     attempt (get_group e (as_GroupID input) w)
       (\<lambda>err w. (Inl (errorf ''group not found'' err), w))
       (\<lambda>g w. if pg_SubscriptionType g \<noteq> SubscriptionTypeSubscription then (Inl ErrGroupNotSubscriptionType, w)
          else attempt (GetByUserIDAndGroupID e in_tx (as_UserID input) (as_GroupID input) w)
            (\<lambda>_ w. createSubscription e in_tx input w)
            (\<lambda>existing w.
               let validityDays = normalizeAssignValidityDays (as_ValidityDays input); t = now e w;
                   isExpired = (us_ExpiresAt existing \<le> t);
                   newExpiresAt = cap_expiry ((if isExpired then t else us_ExpiresAt existing) + validityDays * Day)
               in attempt (updateExistingSubscriptionTerm e zone in_tx existing (as_Notes input) t newExpiresAt isExpired w)
                    (\<lambda>err w. (Inl err, w))
                    (\<lambda>_ w. sub_GetByID e in_tx (us_ID existing) w)))"

definition RevokeSubscription :: "pay_env \<Rightarrow> int \<Rightarrow> pay_world \<Rightarrow> unit io" where
  "RevokeSubscription e sid w =
     attempt (sub_GetByID e False sid w) (\<lambda>err w. (Inl err, w)) (\<lambda>_ w. sub_Delete e False sid w)"

definition ExtendSubscription :: "pay_env \<Rightarrow> int \<Rightarrow> int \<Rightarrow> pay_world \<Rightarrow> UserSubscription io" where
  "ExtendSubscription e sid days w =
     attempt (sub_GetByID e False sid w)
       (\<lambda>_ w. (Inl us_ErrSubscriptionNotFound, w))
       (\<lambda>sub w.
          let days = (if MaxValidityDays < days then MaxValidityDays else days);
              days = (if days < - MaxValidityDays then - MaxValidityDays else days);
              t = now e w; isExpired = (us_ExpiresAt sub \<le> t)
          in if isExpired \<and> days < 0
             then (Inl (BadRequest ''CANNOT_SHORTEN_EXPIRED'' ''cannot shorten an expired subscription''), w)
             else
               let newExpiresAt = cap_expiry ((if isExpired then t else us_ExpiresAt sub) + days * Day)
               in if newExpiresAt \<le> t then (Inl ErrAdjustWouldExpire, w)
                  else attempt (ExtendExpiry e False sid newExpiresAt w) (\<lambda>err w. (Inl err, w))
                    (\<lambda>_ w. attempt
                       (if us_Status sub = SubscriptionStatusExpired
                        then UpdateStatus e False sid SubscriptionStatusActive w else (Inr (), w))
                       (\<lambda>err w. (Inl err, w))
                       (\<lambda>_ w. sub_GetByID e False sid w)))"

section \<open>Usage windows\<close>

definition CheckUsageLimits :: "UserSubscription \<Rightarrow> group_limits \<Rightarrow> rat \<Rightarrow> go_error option" where
  "CheckUsageLimits s g cost =
     (if \<not> CheckDailyLimit s g cost then Some ErrDailyLimitExceeded
      else if \<not> CheckWeeklyLimit s g cost then Some ErrWeeklyLimitExceeded
      else if \<not> CheckMonthlyLimit s g cost then Some ErrMonthlyLimitExceeded else None)"

text \<open>\<open>ValidateAndCheckLimits\<close> answers whether the windows need maintenance, and the subscription it leaves in memory.\<close>

definition zero_stale_usage :: "time \<Rightarrow> UserSubscription \<Rightarrow> UserSubscription" where
  "zero_stale_usage t s =
     s\<lparr>us_DailyUsageUSD := (if NeedsDailyResetAt t s then 0 else us_DailyUsageUSD s),
       us_WeeklyUsageUSD := (if NeedsWeeklyReset t s then 0 else us_WeeklyUsageUSD s),
       us_MonthlyUsageUSD := (if NeedsMonthlyReset t s then 0 else us_MonthlyUsageUSD s)\<rparr>"

definition ValidateAndCheckLimits ::
  "time \<Rightarrow> UserSubscription \<Rightarrow> group_limits \<Rightarrow> bool \<times> go_error option \<times> UserSubscription" where
  "ValidateAndCheckLimits t s g =
     (if us_Status s = SubscriptionStatusExpired then (False, Some ErrSubscriptionExpired, s)
      else if us_Status s = SubscriptionStatusSuspended then (False, Some ErrSubscriptionSuspended, s)
      else if us_IsExpired t s then (False, Some ErrSubscriptionExpired, s)
      else
        let s' = zero_stale_usage t s;
            needs = (NeedsDailyResetAt t s \<or> NeedsWeeklyReset t s \<or> NeedsMonthlyReset t s \<or> \<not> IsWindowActivated s)
        in (needs, CheckUsageLimits s' g 0, s'))"

definition CheckAndActivateWindow :: "pay_env \<Rightarrow> duration \<Rightarrow> UserSubscription \<Rightarrow> pay_world \<Rightarrow> unit io" where
  "CheckAndActivateWindow e zone s w =
     (if IsWindowActivated s then (Inr (), w) else ActivateWindows e (us_ID s) (startOfDay zone (now e w)) w)"

text \<open>\<open>CheckAndResetWindows\<close> writes what the subscription it was given asks for; the row may have moved on. Its
  subscription in memory is updated along.\<close>

definition CheckAndResetWindows ::
  "pay_env \<Rightarrow> duration \<Rightarrow> UserSubscription \<Rightarrow> pay_world \<Rightarrow> UserSubscription io" where
  "CheckAndResetWindows e zone s w =
     (let windowStart = startOfDay zone (now e w)
      in attempt (if NeedsDailyResetAt (now e w) s then ResetDailyUsage e (us_ID s) windowStart w else (Inr (), w))
           (\<lambda>err w. (Inl err, w))
           (\<lambda>_ w'. let s = (if NeedsDailyResetAt (now e w) s
                            then s\<lparr>us_DailyWindowStart := Some windowStart, us_DailyUsageUSD := 0\<rparr> else s)
             in attempt (if NeedsWeeklyReset (now e w') s then ResetWeeklyUsage e (us_ID s) windowStart w' else (Inr (), w'))
                  (\<lambda>err w. (Inl err, w))
                  (\<lambda>_ w''. let s = (if NeedsWeeklyReset (now e w') s
                                    then s\<lparr>us_WeeklyWindowStart := Some windowStart, us_WeeklyUsageUSD := 0\<rparr> else s)
                    in attempt
                         (if NeedsMonthlyReset (now e w'') s then ResetMonthlyUsage e (us_ID s) windowStart w''
                          else (Inr (), w''))
                         (\<lambda>err w. (Inl err, w))
                         (\<lambda>_ w3. (Inr (if NeedsMonthlyReset (now e w'') s
                            then s\<lparr>us_MonthlyWindowStart := Some windowStart, us_MonthlyUsageUSD := 0\<rparr> else s), w3)))))"

definition doWindowMaintenance :: "pay_env \<Rightarrow> duration \<Rightarrow> UserSubscription \<Rightarrow> pay_world \<Rightarrow> pay_world" where
  "doWindowMaintenance e zone s w =
     (let w = (if IsWindowActivated s then w else snd (CheckAndActivateWindow e zone s w))
      in snd (CheckAndResetWindows e zone s w))"

definition AdminResetQuota ::
  "pay_env \<Rightarrow> duration \<Rightarrow> int \<Rightarrow> bool \<Rightarrow> bool \<Rightarrow> bool \<Rightarrow> pay_world \<Rightarrow> UserSubscription io" where
  "AdminResetQuota e zone sid resetDaily resetWeekly resetMonthly w =
     (if \<not> resetDaily \<and> \<not> resetWeekly \<and> \<not> resetMonthly then (Inl ErrInvalidInput, w)
      else attempt (sub_GetByID e False sid w) (\<lambda>err w. (Inl err, w))
        (\<lambda>sub w. let windowStart = startOfDay zone (now e w)
           in attempt (if resetDaily then ResetDailyUsage e (us_ID sub) windowStart w else (Inr (), w)) (\<lambda>err w. (Inl err, w))
             (\<lambda>_ w. attempt (if resetWeekly then ResetWeeklyUsage e (us_ID sub) windowStart w else (Inr (), w))
                (\<lambda>err w. (Inl err, w))
                (\<lambda>_ w. attempt (if resetMonthly then ResetMonthlyUsage e (us_ID sub) windowStart w else (Inr (), w))
                   (\<lambda>err w. (Inl err, w))
                   (\<lambda>_ w. sub_GetByID e False sid w)))))"

section \<open>Rows and their keys\<close>

text \<open>What the table of subscriptions satisfies: ids are its key, and so are user and group.\<close>

definition subs_keyed :: "pay_db \<Rightarrow> bool" where
  "subs_keyed db =
     (distinct (map us_ID (pd_subs db)) \<and> distinct (map (\<lambda>s. (us_UserID s, us_GroupID s)) (pd_subs db))
      \<and> (\<forall>s \<in> set (pd_subs db). us_ID s < pd_next_sub db))"

lemma find_sub_id: "subs_keyed db \<Longrightarrow> s \<in> set (pd_subs db) \<Longrightarrow> find_sub (\<lambda>x. us_ID x = us_ID s) db = Some s"
  unfolding find_sub_def subs_keyed_def by (blast intro: find_by_key)

lemma find_sub_key:
  assumes "subs_keyed db" "s \<in> set (pd_subs db)"
  shows "find_sub (\<lambda>x. us_UserID x = us_UserID s \<and> us_GroupID x = us_GroupID s) db = Some s"
proof -
  have "distinct (map (\<lambda>s. (us_UserID s, us_GroupID s)) (pd_subs db))" using assms(1) by (simp add: subs_keyed_def)
  from find_by_key [OF this assms(2)] show ?thesis by (simp add: find_sub_def)
qed

lemma find_update_subs:
  "subs_keyed db \<Longrightarrow> s \<in> set (pd_subs db) \<Longrightarrow> us_ID (f s) = us_ID s \<Longrightarrow>
    find_sub (\<lambda>x. us_ID x = us_ID s) (update_subs (us_ID s) f db) = Some (f s)"
  using find_sub_id [of db s] by (simp add: find_sub_def update_subs_def find_update_same)

text \<open>An update of one row keeps the keys, and the rows of other users and groups.\<close>

lemma subs_keyed_update:
  assumes "subs_keyed db" "\<And>s. us_ID (f s) = us_ID s \<and> us_UserID (f s) = us_UserID s \<and> us_GroupID (f s) = us_GroupID s"
  shows "subs_keyed (update_subs sid f db)"
proof -
  have "map us_ID (update_where (\<lambda>s. us_ID s = sid) f (pd_subs db)) = map us_ID (pd_subs db)"
    "map (\<lambda>s. (us_UserID s, us_GroupID s)) (update_where (\<lambda>s. us_ID s = sid) f (pd_subs db)) =
       map (\<lambda>s. (us_UserID s, us_GroupID s)) (pd_subs db)"
    using assms(2) by (simp_all add: map_update_where)
  then show ?thesis using assms by (auto simp: subs_keyed_def update_subs_def set_update_where)
qed

lemma find_sub_update_keys:
  assumes "find_sub p db = Some s" "us_ID s = sid" "subs_keyed db" "\<And>x. p (f x) = p x"
  shows "find_sub p (update_subs sid f db) = Some (f s)"
  using assms find_update_where [of p f "\<lambda>s. us_ID s = sid" "pd_subs db"]
  by (simp add: find_sub_def update_subs_def)

lemma find_sub_update_other:
  assumes "find_sub p db = Some s" "us_ID s = sid" "p = (\<lambda>x. us_UserID x = u \<and> us_GroupID x = g)" "subs_keyed db"
    "q = (\<lambda>x. us_UserID x = u' \<and> us_GroupID x = g')" "(u', g') \<noteq> (u, g)" "\<And>x. us_UserID (f x) = us_UserID x \<and> us_GroupID (f x) = us_GroupID x"
  shows "find_sub q (update_subs sid f db) = find_sub q db"
proof -
  have "find_sub q (update_subs sid f db) = map_option (\<lambda>x. if us_ID x = sid then f x else x) (find_sub q db)"
    unfolding find_sub_def update_subs_def using assms(5,7) by (simp add: find_update_where)
  moreover have "us_ID x \<noteq> sid" if "find_sub q db = Some x" for x
  proof
    assume "us_ID x = sid"
    moreover have "x \<in> set (pd_subs db)" "s \<in> set (pd_subs db)" using that assms(1) by (auto simp: find_sub_def dest: find_Some_in)
    ultimately have "x = s" using assms(2,4) by (auto simp: subs_keyed_def intro: distinct_map_same [of us_ID])
    then show False using that assms(1,3,5,6) by (auto simp: find_sub_def dest!: find_Some_in)
  qed
  ultimately show ?thesis by (cases "find_sub q db") auto
qed

section \<open>Undisturbed operations\<close>

lemma update_subs_twice:
  "(\<And>s. us_ID (f s) = us_ID s) \<Longrightarrow> update_subs sid g (update_subs sid f db) = update_subs sid (g \<circ> f) db"
  by (auto simp: update_subs_def update_where_def)

lemma calm_sub_GetByID:
  "calm t e \<Longrightarrow> sub_GetByID e False sid w =
    (case find_sub (\<lambda>s. us_ID s = sid) (pw_db w) of Some s \<Rightarrow> Inr s | None \<Rightarrow> Inl us_ErrSubscriptionNotFound,
     w\<lparr>pw_calls := Suc (pw_calls w)\<rparr>)"
  by (simp add: sub_GetByID_def calm_runs split: option.split)

lemma calm_GetByUserIDAndGroupID:
  "calm t e \<Longrightarrow> GetByUserIDAndGroupID e False uid gid w =
    (case find_sub (\<lambda>s. us_UserID s = uid \<and> us_GroupID s = gid) (pw_db w) of
       Some s \<Rightarrow> Inr s | None \<Rightarrow> Inl us_ErrSubscriptionNotFound,
     w\<lparr>pw_calls := Suc (pw_calls w)\<rparr>)"
  by (simp add: GetByUserIDAndGroupID_def calm_runs split: option.split)

lemma calm_update_sub:
  "calm t e \<Longrightarrow> find_sub (\<lambda>s. us_ID s = sid) (pw_db w) = Some s \<Longrightarrow>
    update_sub e False sid f w = (Inr (), w\<lparr>pw_calls := Suc (pw_calls w), pw_db := update_subs sid f (pw_db w)\<rparr>)"
  by (simp add: update_sub_def calm_runs)

lemma calm_update_sub_tx:
  "calm t e \<Longrightarrow> \<not> pw_aborted w \<Longrightarrow> find_sub (\<lambda>s. us_ID s = sid) (pw_pending w (pw_db w)) = Some s \<Longrightarrow>
    update_sub e True sid f w =
      (Inr (), w\<lparr>pw_calls := Suc (pw_calls w), pw_pending := update_subs sid f \<circ> pw_pending w\<rparr>)"
  by (simp add: update_sub_def calm_runs)

lemma find_sub_after:
  "find_sub (\<lambda>x. us_ID x = sid) db = Some s \<Longrightarrow> us_ID (f s) = sid \<Longrightarrow>
    find_sub (\<lambda>x. us_ID x = sid) (update_subs sid f db) = Some (f s)"
  by (simp add: find_sub_def update_subs_def find_update_same)

text \<open>What becomes of a subscription that is extended, or renewed when it has lapsed.\<close>

definition extended_term :: "duration \<Rightarrow> UserSubscription \<Rightarrow> string \<Rightarrow> time \<Rightarrow> time \<Rightarrow> bool \<Rightarrow> UserSubscription" where
  "extended_term zone s notes startsAt newExpiresAt isExpired =
     (if isExpired then renewedSubscriptionTerm zone s notes startsAt newExpiresAt
      else s\<lparr>us_ExpiresAt := newExpiresAt, us_Status := SubscriptionStatusActive,
             us_Notes := appendSubscriptionNotes (us_Notes s) notes\<rparr>)"

lemma calm_updateTerm:
  assumes "calm t e" "idle w" "subs_keyed (pw_db w)" "s \<in> set (pd_subs (pw_db w))"
  obtains f n where "updateExistingSubscriptionTerm e zone False s notes startsAt newExpiresAt isExpired w =
      (Inr (), w\<lparr>pw_calls := n, pw_db := update_subs (us_ID s) f (pw_db w)\<rparr>)"
    "f s = extended_term zone s notes startsAt newExpiresAt isExpired"
    "\<And>x. us_ID x = us_ID s \<Longrightarrow> us_ID (f x) = us_ID s"
proof -
  let ?sid = "us_ID s"
  obtain c d where w: "w = \<lparr>pw_calls = c, pw_db = d, pw_pending = (\<lambda>db. db), pw_aborted = False\<rparr>"
    using assms(2) by (rule idleE)
  have found: "find_sub (\<lambda>x. us_ID x = ?sid) d = Some s" using assms(3,4) find_sub_id by (simp add: w)
  show ?thesis
  proof (cases isExpired)
    case True
    obtain r where r: "r = renewedSubscriptionTerm zone s notes startsAt newExpiresAt" by simp
    have rid: "us_ID r = us_ID s" by (simp add: r renewedSubscriptionTerm_def Let_def)
    let ?f = "\<lambda>x. r\<lparr>us_DailyWindowStart := (case us_DailyWindowStart r of None \<Rightarrow> us_DailyWindowStart x | y \<Rightarrow> y),
      us_WeeklyWindowStart := (case us_WeeklyWindowStart r of None \<Rightarrow> us_WeeklyWindowStart x | y \<Rightarrow> y),
      us_MonthlyWindowStart := (case us_MonthlyWindowStart r of None \<Rightarrow> us_MonthlyWindowStart x | y \<Rightarrow> y),
      us_AssignedBy := (case us_AssignedBy r of None \<Rightarrow> us_AssignedBy x | y \<Rightarrow> y)\<rparr>"
    have "?f s = extended_term zone s notes startsAt newExpiresAt isExpired"
      using True by (cases "us_AssignedBy s") (simp_all add: r extended_term_def renewedSubscriptionTerm_def Let_def)
    moreover have "updateExistingSubscriptionTerm e zone False s notes startsAt newExpiresAt isExpired w =
        (Inr (), w\<lparr>pw_calls := pw_calls w + 3, pw_db := update_subs ?sid ?f (pw_db w)\<rparr>)"
      using assms(1) True found rid
      by (simp add: w updateExistingSubscriptionTerm_def own_tx_def calm_begin calm_commit sub_Update_def
          calm_update_sub_tx Let_def numeral_3_eq_3 flip: r)
    ultimately show ?thesis using that [of ?f "pw_calls w + 3"] rid by simp
  next
    case False
    let ?f1 = "\<lambda>x. x\<lparr>us_ExpiresAt := newExpiresAt\<rparr>"
    let ?f2 = "if us_Status s \<noteq> SubscriptionStatusActive then (\<lambda>x. x\<lparr>us_Status := SubscriptionStatusActive\<rparr>) else id"
    let ?f3 = "if notes \<noteq> [] then (\<lambda>x. x\<lparr>us_Notes := appendSubscriptionNotes (us_Notes s) notes\<rparr>) else id"
    let ?f = "?f3 \<circ> (?f2 \<circ> ?f1)"
    have "?f s = extended_term zone s notes startsAt newExpiresAt isExpired"
      using False by (simp add: extended_term_def appendSubscriptionNotes_def)
    moreover
    have "\<exists>n. updateExistingSubscriptionTerm e zone False s notes startsAt newExpiresAt isExpired w =
        (Inr (), w\<lparr>pw_calls := n, pw_db := update_subs ?sid ?f (pw_db w)\<rparr>)"
      using assms(1) False found
      by (auto simp: w updateExistingSubscriptionTerm_def own_tx_def calm_begin calm_commit ExtendExpiry_def UpdateStatus_def
          UpdateNotes_def calm_update_sub_tx find_sub_after update_subs_twice o_def id_def)
    then obtain n where "updateExistingSubscriptionTerm e zone False s notes startsAt newExpiresAt isExpired w =
        (Inr (), w\<lparr>pw_calls := n, pw_db := update_subs ?sid ?f (pw_db w)\<rparr>)" by blast
    ultimately show ?thesis using that [of ?f n] by simp
  qed
qed

text \<open>The time a user has left of a group.\<close>

definition time_left :: "time \<Rightarrow> int \<Rightarrow> int \<Rightarrow> pay_db \<Rightarrow> duration" where
  "time_left t uid gid db =
     (case find_sub (\<lambda>s. us_UserID s = uid \<and> us_GroupID s = gid) db of None \<Rightarrow> 0 | Some s \<Rightarrow> max 0 (us_ExpiresAt s - t))"

lemma calm_get_group:
  "calm t e \<Longrightarrow> List.find (\<lambda>g. pg_ID g = gid) (pd_groups (pw_db w)) = Some g \<Longrightarrow>
    get_group e gid w = (Inr g, w\<lparr>pw_calls := Suc (pw_calls w)\<rparr>)"
  by (simp add: get_group_def calm_stmt)

lemma calm_sub_Create:
  "calm t e \<Longrightarrow> find_sub (\<lambda>s. us_UserID s = us_UserID sub \<and> us_GroupID s = us_GroupID sub) (pw_db w) = None \<Longrightarrow>
    sub_Create e False sub w = (Inr (pd_next_sub (pw_db w)), w\<lparr>pw_calls := Suc (pw_calls w), pw_db := (pw_db w)
      \<lparr>pd_subs := pd_subs (pw_db w) @ [sub\<lparr>us_ID := pd_next_sub (pw_db w)\<rparr>], pd_next_sub := pd_next_sub (pw_db w) + 1\<rparr>\<rparr>)"
  by (auto simp: sub_Create_def calm_stmt find_sub_def find_None_iff)

lemma calm_create:
  assumes "calm t e" "subs_keyed (pw_db w)"
    and none: "find_sub (\<lambda>s. us_UserID s = as_UserID input \<and> us_GroupID s = as_GroupID input) (pw_db w) = None"
  obtains s w' where "createSubscription e False input w = (Inr s, w')"
    "find_sub (\<lambda>s. us_UserID s = as_UserID input \<and> us_GroupID s = as_GroupID input) (pw_db w') = Some s"
    "us_Status s = SubscriptionStatusActive" "us_ExpiresAt s = cap_expiry (t + normalizeAssignValidityDays (as_ValidityDays input) * Day)"
    "pd_subs (pw_db w') = pd_subs (pw_db w) @ [s]"
proof -
  obtain s where s: "s = \<lparr>us_ID = pd_next_sub (pw_db w), us_UserID = as_UserID input, us_GroupID = as_GroupID input, us_StartsAt = t,
                 us_ExpiresAt = cap_expiry (t + normalizeAssignValidityDays (as_ValidityDays input) * Day),
                 us_Status = SubscriptionStatusActive, us_DailyWindowStart = None, us_WeeklyWindowStart = None,
                 us_MonthlyWindowStart = None, us_DailyUsageUSD = 0, us_WeeklyUsageUSD = 0, us_MonthlyUsageUSD = 0,
                 us_AssignedBy = (if 0 < as_AssignedBy input then Some (as_AssignedBy input) else None),
                 us_AssignedAt = t, us_Notes = as_Notes input\<rparr>" by simp
  have "List.find (\<lambda>x. us_ID x = pd_next_sub (pw_db w)) (pd_subs (pw_db w)) = None"
    using assms(2) by (fastforce simp: find_None_iff subs_keyed_def)
  then have new: "List.find (\<lambda>x. us_ID x = pd_next_sub (pw_db w)) (pd_subs (pw_db w) @ [s]) = Some s"
    by (simp add: find_append_None s)
  have fresh: "find_sub (\<lambda>x. us_UserID x = as_UserID input \<and> us_GroupID x = as_GroupID input)
      ((pw_db w)\<lparr>pd_subs := pd_subs (pw_db w) @ [s], pd_next_sub := pd_next_sub (pw_db w) + 1\<rparr>) = Some s"
    using none by (simp add: find_sub_def find_append_None s)
  have "createSubscription e False input w = (Inr s, w\<lparr>pw_calls := Suc (Suc (pw_calls w)),
      pw_db := (pw_db w)\<lparr>pd_subs := pd_subs (pw_db w) @ [s], pd_next_sub := pd_next_sub (pw_db w) + 1\<rparr>\<rparr>)"
    using assms(1) none new
    by (simp add: createSubscription_def Let_def calm_now calm_sub_Create calm_sub_GetByID find_sub_def flip: s split del: if_split)
  then show ?thesis by (rule that) (use fresh in \<open>simp_all add: s\<close>)
qed

lemma extended_term_fields:
  "us_ID (extended_term zone s notes a b x) = us_ID s" "us_UserID (extended_term zone s notes a b x) = us_UserID s"
  "us_GroupID (extended_term zone s notes a b x) = us_GroupID s" "us_ExpiresAt (extended_term zone s notes a b x) = b"
  "us_Status (extended_term zone s notes a b x) = SubscriptionStatusActive"
  by (simp_all add: extended_term_def renewedSubscriptionTerm_def Let_def)

text \<open>An update of the row that a key finds, with another row of the same key.\<close>

lemma find_update_one:
  assumes "distinct (map k xs)" "s \<in> set xs" "k s = v" "k (f s) = v" "\<And>x. x \<in> set xs \<Longrightarrow> x \<noteq> s \<Longrightarrow> \<not> p x" "p s"
  shows "List.find (\<lambda>x. k x = v) (update_where p f xs) = Some (f s)"
  using assms
proof (induction xs)
  case Nil
  then show ?case by simp
next
  case (Cons a xs)
  then show ?case by (cases "a = s") (auto simp: image_iff)
qed

lemma sub_id_inj: "subs_keyed db \<Longrightarrow> s \<in> set (pd_subs db) \<Longrightarrow> x \<in> set (pd_subs db) \<Longrightarrow> us_ID x = us_ID s \<Longrightarrow> x = s"
  by (auto simp: subs_keyed_def intro: distinct_map_same [of us_ID])

text \<open>C37: Days add up. Assigning a subscription that nothing disturbs gives the user the days that were bought on
  top of what was left of the group, whether the subscription is new, running, suspended or lapsed; no more is taken
  away than what lies after the year 2099. The subscriptions of other users and groups stay as they are.\<close>

theorem assigned_days_add_up:
  assumes "calm t e" "idle w" "subs_keyed (pw_db w)" "t \<le> MaxExpiresAt"
    and "List.find (\<lambda>g. pg_ID g = as_GroupID input) (pd_groups (pw_db w)) = Some g"
    and "pg_SubscriptionType g = SubscriptionTypeSubscription"
    and "AssignOrExtendSubscription e zone False input w = (r, w')"
  shows "\<exists>s. r = Inr s \<and> us_Status s = SubscriptionStatusActive
    \<and> find_sub (\<lambda>s. us_UserID s = as_UserID input \<and> us_GroupID s = as_GroupID input) (pw_db w') = Some s
    \<and> time_left t (as_UserID input) (as_GroupID input) (pw_db w') =
        min (MaxExpiresAt - t)
          (time_left t (as_UserID input) (as_GroupID input) (pw_db w) + normalizeAssignValidityDays (as_ValidityDays input) * Day)
    \<and> filter (\<lambda>s. (us_UserID s, us_GroupID s) \<noteq> (as_UserID input, as_GroupID input)) (pd_subs (pw_db w')) =
        filter (\<lambda>s. (us_UserID s, us_GroupID s) \<noteq> (as_UserID input, as_GroupID input)) (pd_subs (pw_db w))"
proof -
  let ?key = "\<lambda>s. us_UserID s = as_UserID input \<and> us_GroupID s = as_GroupID input"
  let ?days = "normalizeAssignValidityDays (as_ValidityDays input)"
  let ?w2 = "w\<lparr>pw_calls := Suc (Suc (pw_calls w))\<rparr>"
  have days: "0 \<le> ?days" by (simp add: normalizeAssignValidityDays_def MaxValidityDays_def Let_def)
  note run = assms(7) [unfolded AssignOrExtendSubscription_def calm_get_group [OF assms(1,5)] attempt_simps
      assms(6) calm_GetByUserIDAndGroupID [OF assms(1)]]
  show ?thesis
  proof (cases "find_sub ?key (pw_db w)")
    case None
    then have "createSubscription e False input ?w2 = (r, w')" using run by simp
    then obtain s where "r = Inr s" "find_sub ?key (pw_db w') = Some s" "us_Status s = SubscriptionStatusActive"
      "us_ExpiresAt s = cap_expiry (t + ?days * Day)" "pd_subs (pw_db w') = pd_subs (pw_db w) @ [s]"
      using calm_create [of t e ?w2 input] assms(1,3) None by auto
    moreover have "?key s" using calculation(2) by (auto simp: find_sub_def dest: find_Some_in)
    ultimately show ?thesis using days assms(4) None by (auto simp: time_left_def cap_expiry_def)
  next
    case (Some s)
    let ?x = "us_ExpiresAt s \<le> t"
    obtain b where b: "b = cap_expiry ((if ?x then t else us_ExpiresAt s) + ?days * Day)" by simp
    have s: "s \<in> set (pd_subs (pw_db w))" "?key s" using Some by (auto simp: find_sub_def dest: find_Some_in)
    have "idle ?w2" "subs_keyed (pw_db ?w2)" "s \<in> set (pd_subs (pw_db ?w2))" using assms(2,3) s by (simp_all add: idle_def)
    from calm_updateTerm [OF assms(1) this, of zone "as_Notes input" t b ?x] obtain f n where
      f: "updateExistingSubscriptionTerm e zone False s (as_Notes input) t b ?x ?w2 =
        (Inr (), ?w2\<lparr>pw_calls := n, pw_db := update_subs (us_ID s) f (pw_db ?w2)\<rparr>)"
        "f s = extended_term zone s (as_Notes input) t b ?x" by metis
    have "attempt (updateExistingSubscriptionTerm e zone False s (as_Notes input) t b ?x ?w2)
        (\<lambda>err w. (Inl err, w)) (\<lambda>_ w. sub_GetByID e False (us_ID s) w) = (r, w')"
      using run Some by (simp add: Let_def calm_now [OF assms(1)] b)
    then have db': "pw_db w' = update_subs (us_ID s) f (pw_db w)" and "r = Inr (f s)"
      using f find_sub_id [OF assms(3) s(1)]
      by (auto simp: calm_sub_GetByID [OF assms(1)] find_sub_after extended_term_fields)
    moreover have "find_sub ?key (pw_db w') = Some (f s)"
      using find_update_one [of "\<lambda>s. (us_UserID s, us_GroupID s)" "pd_subs (pw_db w)" s
          "(as_UserID input, as_GroupID input)" f "\<lambda>x. us_ID x = us_ID s"] assms(3) s sub_id_inj [OF assms(3) s(1)]
      by (auto simp: db' find_sub_def update_subs_def f(2) extended_term_fields subs_keyed_def)
    moreover have "filter (\<lambda>x. \<not> ?key x) (update_where (\<lambda>x. us_ID x = us_ID s) f xs) = filter (\<lambda>x. \<not> ?key x) xs"
      if "set xs \<subseteq> set (pd_subs (pw_db w))" for xs
      using that
    proof (induction xs)
      case (Cons a xs)
      then show ?case using s(2) sub_id_inj [OF assms(3) s(1), of a] by (auto simp: f(2) extended_term_fields)
    qed simp
    ultimately show ?thesis using Some days assms(4)
      by (auto simp: time_left_def f(2) extended_term_fields b cap_expiry_def db' update_subs_def)
  qed
qed

definition sample_sub :: UserSubscription where
  "sample_sub = \<lparr>us_ID = 1, us_UserID = 7, us_GroupID = 3, us_StartsAt = 1 * Day, us_ExpiresAt = 40 * Day,
     us_Status = ''suspended'', us_DailyWindowStart = Some (8 * Day), us_WeeklyWindowStart = Some (8 * Day),
     us_MonthlyWindowStart = Some (8 * Day), us_DailyUsageUSD = 4, us_WeeklyUsageUSD = 4, us_MonthlyUsageUSD = 4,
     us_AssignedBy = None, us_AssignedAt = 1 * Day, us_Notes = ''''\<rparr>"

definition sample_db :: pay_db where
  "sample_db = \<lparr>pd_orders = [], pd_audits = [], pd_codes = [], pd_next_code = 1,
     pd_users = [\<lparr>pu_ID = 7, pu_Balance = 5, pu_Concurrency = 2, pu_TotalRecharged = 0\<rparr>], pd_moves = [], pd_refunds = [],
     pd_subs = [sample_sub], pd_next_sub = 2,
     pd_groups = [\<lparr>pg_ID = 3, pg_Status = ''active'', pg_SubscriptionType = ''subscription''\<rparr>],
     pd_instances = [], pd_affiliates = [], pd_ledger = [], pd_attempts = (\<lambda>_. 0), pd_locks = []\<rparr>"

theorem assigned_days_add_up_witness:
  "\<exists>w' s. AssignOrExtendSubscription (calm_env (10 * Day)) 0 False
       \<lparr>as_UserID = 7, as_GroupID = 3, as_ValidityDays = 30, as_AssignedBy = 0, as_Notes = ''order''\<rparr> (world_of sample_db)
     = (Inr s, w') \<and> time_left (10 * Day) 7 3 (pw_db w') = 60 * Day"
proof -
  let ?in = "\<lparr>as_UserID = 7, as_GroupID = 3, as_ValidityDays = 30, as_AssignedBy = 0, as_Notes = ''order''\<rparr>"
  obtain r w' where run: "AssignOrExtendSubscription (calm_env (10 * Day)) 0 False ?in (world_of sample_db) = (r, w')"
    by (rule prod.exhaust)
  have "time_left (10 * Day) 7 3 sample_db = 30 * Day"
    by (simp add: time_left_def find_sub_def sample_db_def sample_sub_def)
  then show ?thesis
    using assigned_days_add_up [OF calm_calm_env idle_world_of _ _ _ _ run,
        of "\<lparr>pg_ID = 3, pg_Status = ''active'', pg_SubscriptionType = ''subscription''\<rparr>"] run
    by (simp add: subs_keyed_def sample_db_def sample_sub_def MaxExpiresAt_def SubscriptionTypeSubscription_def
        normalizeAssignValidityDays_def MaxValidityDays_def) blast
qed

section \<open>Windows and their maintenance\<close>

lemma startOfDay_bounds: "startOfDay zone t \<le> t" "t < startOfDay zone t + Day"
  by (simp_all add: startOfDay_def)

text \<open>The row that maintenance leaves when its subscription is the row and nothing disturbs it.\<close>

definition maintained :: "duration \<Rightarrow> time \<Rightarrow> UserSubscription \<Rightarrow> UserSubscription" where
  "maintained zone t s =
     (let start = Some (startOfDay zone t)
      in if \<not> IsWindowActivated s
         then s\<lparr>us_DailyWindowStart := start, us_WeeklyWindowStart := start, us_MonthlyWindowStart := start\<rparr>
         else s\<lparr>us_DailyWindowStart := (if NeedsDailyResetAt t s then start else us_DailyWindowStart s),
                us_WeeklyWindowStart := (if NeedsWeeklyReset t s then start else us_WeeklyWindowStart s),
                us_MonthlyWindowStart := (if NeedsMonthlyReset t s then start else us_MonthlyWindowStart s),
                us_DailyUsageUSD := (if NeedsDailyResetAt t s then 0 else us_DailyUsageUSD s),
                us_WeeklyUsageUSD := (if NeedsWeeklyReset t s then 0 else us_WeeklyUsageUSD s),
                us_MonthlyUsageUSD := (if NeedsMonthlyReset t s then 0 else us_MonthlyUsageUSD s)\<rparr>)"

lemma inactive_needs_no_reset:
  "\<not> IsWindowActivated s \<Longrightarrow> \<not> NeedsDailyResetAt t s \<and> \<not> NeedsWeeklyReset t s \<and> \<not> NeedsMonthlyReset t s"
  by (simp add: IsWindowActivated_def NeedsDailyResetAt_def NeedsWeeklyReset_def NeedsMonthlyReset_def)

text \<open>The resets a subscription in memory asks for, on whatever row there is.\<close>

definition resets :: "duration \<Rightarrow> time \<Rightarrow> UserSubscription \<Rightarrow> UserSubscription \<Rightarrow> UserSubscription" where
  "resets zone t s row =
     (let start = Some (startOfDay zone t);
          row = (if NeedsDailyResetAt t s then row\<lparr>us_DailyUsageUSD := 0, us_DailyWindowStart := start\<rparr> else row);
          row = (if NeedsWeeklyReset t s then row\<lparr>us_WeeklyUsageUSD := 0, us_WeeklyWindowStart := start\<rparr> else row)
      in if NeedsMonthlyReset t s then row\<lparr>us_MonthlyUsageUSD := 0, us_MonthlyWindowStart := start\<rparr> else row)"

lemma needs_frame:
  "NeedsWeeklyReset t (s\<lparr>us_DailyWindowStart := a, us_DailyUsageUSD := b\<rparr>) = NeedsWeeklyReset t s"
  "NeedsMonthlyReset t (s\<lparr>us_DailyWindowStart := a, us_DailyUsageUSD := b\<rparr>) = NeedsMonthlyReset t s"
  "NeedsMonthlyReset t (s\<lparr>us_WeeklyWindowStart := a, us_WeeklyUsageUSD := b\<rparr>) = NeedsMonthlyReset t s"
  by (simp_all add: NeedsWeeklyReset_def NeedsMonthlyReset_def)

lemma calm_resets:
  assumes "calm t e" "find_sub (\<lambda>x. us_ID x = us_ID s) (pw_db w) = Some row"
  shows "find_sub (\<lambda>x. us_ID x = us_ID s) (pw_db (snd (CheckAndResetWindows e zone s w))) = Some (resets zone t s row)"
proof -
  have "us_ID row = us_ID s" using assms(2) by (auto simp: find_sub_def dest: find_Some_in)
  then show ?thesis using assms
    by (simp add: CheckAndResetWindows_def Let_def calm_now [OF assms(1)] needs_frame resets_def ResetDailyUsage_def
        ResetWeeklyUsage_def ResetMonthlyUsage_def calm_update_sub [OF assms(1)] find_sub_after)
qed

lemma pd_groups_update_subs [simp]: "pd_groups (update_subs sid f db) = pd_groups db"
  by (simp add: update_subs_def)

lemma calm_resets_groups:
  assumes "calm t e" "find_sub (\<lambda>x. us_ID x = us_ID s) (pw_db w) = Some row"
  shows "pd_groups (pw_db (snd (CheckAndResetWindows e zone s w))) = pd_groups (pw_db w)"
proof -
  have "us_ID row = us_ID s" using assms(2) by (auto simp: find_sub_def dest: find_Some_in)
  then show ?thesis using assms
    by (simp add: CheckAndResetWindows_def Let_def calm_now [OF assms(1)] needs_frame ResetDailyUsage_def
        ResetWeeklyUsage_def ResetMonthlyUsage_def calm_update_sub [OF assms(1)] find_sub_after)
qed

lemma calm_IncrementUsage:
  assumes "calm t e" "find_sub (\<lambda>x. us_ID x = sid) (pw_db w) = Some s"
    and "\<exists>g \<in> set (pd_groups (pw_db w)). pg_ID g = us_GroupID s"
  shows "\<exists>w'. sub_IncrementUsage e sid cost w = (Inr (), w') \<and> find_sub (\<lambda>x. us_ID x = sid) (pw_db w') = Some (add_usage cost s)"
proof -
  let ?hit = "\<lambda>x. us_ID x = sid \<and> (\<exists>g \<in> set (pd_groups (pw_db w)). pg_ID g = us_GroupID x)"
  have "List.find (\<lambda>x. us_ID x = sid) (pd_subs (pw_db w)) = Some s" using assms(2) by (simp add: find_sub_def)
  moreover from this have "s \<in> set (pd_subs (pw_db w))" "us_ID s = sid" by (auto dest: find_Some_in)
  ultimately have "filter ?hit (pd_subs (pw_db w)) \<noteq> []"
    "List.find (\<lambda>x. us_ID x = sid) (update_where ?hit (add_usage cost) (pd_subs (pw_db w))) = Some (add_usage cost s)"
    using assms(3) by (auto simp: filter_empty_conv find_update_where add_usage_def)
  then show ?thesis using assms(1) by (simp add: sub_IncrementUsage_def Let_def calm_stmt find_sub_def)
qed

lemma calm_maintenance:
  assumes "calm t e" "find_sub (\<lambda>x. us_ID x = us_ID s) (pw_db w) = Some s"
  shows "find_sub (\<lambda>x. us_ID x = us_ID s) (pw_db (doWindowMaintenance e zone s w)) = Some (maintained zone t s)"
proof (cases "IsWindowActivated s")
  case True
  then show ?thesis using calm_resets [OF assms, of zone]
    by (cases s) (simp add: doWindowMaintenance_def resets_def maintained_def Let_def)
next
  case False
  then have none: "resets zone t s row = row" for row by (simp add: resets_def Let_def inactive_needs_no_reset)
  have "find_sub (\<lambda>x. us_ID x = us_ID s) (pw_db (snd (CheckAndActivateWindow e zone s w))) = Some (maintained zone t s)"
    using False assms by (simp add: CheckAndActivateWindow_def ActivateWindows_def calm_update_sub calm_now find_sub_after
        maintained_def Let_def)
  from calm_resets [OF assms(1) this, of zone] False show ?thesis by (simp add: doWindowMaintenance_def none)
qed

text \<open>C38: The check a request makes in memory agrees with the one on the row after the maintenance it asks for: the
  same verdict for every limit, and nothing is left to maintain, so no one is refused for the usage of a window that is
  over, and no one's usage of a running window is forgotten.\<close>

theorem maintenance_keeps_decision:
  assumes "calm t e" "subs_keyed (pw_db w)" "s \<in> set (pd_subs (pw_db w))"
  shows "\<exists>s'. find_sub (\<lambda>x. us_ID x = us_ID s) (pw_db (doWindowMaintenance e zone s w)) = Some s'
    \<and> fst (snd (ValidateAndCheckLimits t s' g)) = fst (snd (ValidateAndCheckLimits t s g))
    \<and> \<not> fst (ValidateAndCheckLimits t s' g)"
proof -
  let ?m = "maintained zone t s"
  have row: "find_sub (\<lambda>x. us_ID x = us_ID s) (pw_db (doWindowMaintenance e zone s w)) = Some ?m"
    by (rule calm_maintenance [OF assms(1) find_sub_id [OF assms(2,3)]])
  have same: "us_Status ?m = us_Status s" "us_IsExpired t ?m = us_IsExpired t s" "HasOneTimeDailyQuota ?m = HasOneTimeDailyQuota s"
    by (simp_all add: maintained_def Let_def us_IsExpired_def HasOneTimeDailyQuota_def)
  have over: "\<not> NeedsDailyResetAt t ?m" "\<not> NeedsWeeklyReset t ?m" "\<not> NeedsMonthlyReset t ?m"
    using startOfDay_bounds [where zone = zone and t = t]
    by (auto simp: maintained_def Let_def NeedsDailyResetAt_def NeedsWeeklyReset_def NeedsMonthlyReset_def
        HasOneTimeDailyQuota_def split: option.splits)
  have active: "IsWindowActivated ?m"
    by (auto simp: maintained_def Let_def IsWindowActivated_def)
  have "us_DailyUsageUSD (zero_stale_usage t ?m) = us_DailyUsageUSD (zero_stale_usage t s)"
    "us_WeeklyUsageUSD (zero_stale_usage t ?m) = us_WeeklyUsageUSD (zero_stale_usage t s)"
    "us_MonthlyUsageUSD (zero_stale_usage t ?m) = us_MonthlyUsageUSD (zero_stale_usage t s)"
    using over inactive_needs_no_reset [of s t] by (auto simp: zero_stale_usage_def maintained_def Let_def)
  then have "CheckUsageLimits (zero_stale_usage t ?m) g 0 = CheckUsageLimits (zero_stale_usage t s) g 0"
    by (simp add: CheckUsageLimits_def CheckDailyLimit_def CheckWeeklyLimit_def CheckMonthlyLimit_def)
  then show ?thesis using row over active by (simp add: ValidateAndCheckLimits_def Let_def same)
qed

theorem maintenance_keeps_decision_witness:
  "\<exists>s'. find_sub (\<lambda>x. us_ID x = 1) (pw_db (doWindowMaintenance (calm_env (10 * Day)) 0 sample_sub (world_of sample_db))) = Some s'
    \<and> \<not> fst (ValidateAndCheckLimits (10 * Day) s' \<lparr>gl_DailyLimitUSD = Some 1, gl_WeeklyLimitUSD = None, gl_MonthlyLimitUSD = None\<rparr>)"
  using maintenance_keeps_decision [of "10 * Day" "calm_env (10 * Day)" "world_of sample_db" sample_sub 0
      "\<lparr>gl_DailyLimitUSD = Some 1, gl_WeeklyLimitUSD = None, gl_MonthlyLimitUSD = None\<rparr>"]
  by (auto simp: subs_keyed_def sample_db_def sample_sub_def)

text \<open>C39: A reset is not tied to the window it closes. Two requests that both saw the subscription before midnight
  each queue a maintenance; when the second one runs after usage was recorded in the new window, that usage is wiped
  out, and the user has it for free.\<close>

theorem stale_reset_loses_usage:
  assumes "calm t e" "subs_keyed (pw_db w)" "s \<in> set (pd_subs (pw_db w))" "NeedsDailyResetAt t s"
    and "\<exists>g \<in> set (pd_groups (pw_db w)). pg_ID g = us_GroupID s"
  shows "\<exists>w2 s2 s3.
      sub_IncrementUsage e (us_ID s) cost (doWindowMaintenance e zone s w) = (Inr (), w2)
    \<and> find_sub (\<lambda>x. us_ID x = us_ID s) (pw_db w2) = Some s2 \<and> us_DailyUsageUSD s2 = cost
    \<and> find_sub (\<lambda>x. us_ID x = us_ID s) (pw_db (doWindowMaintenance e zone s w2)) = Some s3
    \<and> us_DailyUsageUSD s3 = 0 \<and> us_DailyWindowStart s3 = us_DailyWindowStart s2"
proof -
  let ?w1 = "doWindowMaintenance e zone s w" and ?m = "maintained zone t s"
  have active: "IsWindowActivated s" using assms(4) inactive_needs_no_reset by blast
  have row: "find_sub (\<lambda>x. us_ID x = us_ID s) (pw_db ?w1) = Some ?m"
    by (rule calm_maintenance [OF assms(1) find_sub_id [OF assms(2,3)]])
  have groups: "pd_groups (pw_db ?w1) = pd_groups (pw_db w)"
    using active calm_resets_groups [OF assms(1) find_sub_id [OF assms(2,3)], of zone] by (simp add: doWindowMaintenance_def)
  have fields: "us_ID ?m = us_ID s" "us_GroupID ?m = us_GroupID s" "us_DailyUsageUSD ?m = 0"
    "us_DailyWindowStart ?m = Some (startOfDay zone t)"
    using active assms(4) by (simp_all add: maintained_def Let_def)
  obtain w2 where w2: "sub_IncrementUsage e (us_ID s) cost ?w1 = (Inr (), w2)"
    "find_sub (\<lambda>x. us_ID x = us_ID s) (pw_db w2) = Some (add_usage cost ?m)"
    using calm_IncrementUsage [OF assms(1) row] assms(5) groups fields by auto
  have "us_ID (add_usage cost ?m) = us_ID s" by (simp add: add_usage_def fields)
  have "find_sub (\<lambda>x. us_ID x = us_ID s) (pw_db (doWindowMaintenance e zone s w2)) = Some (resets zone t s (add_usage cost ?m))"
    using active calm_resets [OF assms(1) w2(2), of zone] by (simp add: doWindowMaintenance_def)
  moreover have "us_DailyUsageUSD (resets zone t s (add_usage cost ?m)) = 0"
    "us_DailyWindowStart (resets zone t s (add_usage cost ?m)) = us_DailyWindowStart (add_usage cost ?m)"
    using assms(4) by (simp_all add: resets_def Let_def add_usage_def fields)
  moreover have "us_DailyUsageUSD (add_usage cost ?m) = cost" by (simp add: add_usage_def fields)
  ultimately show ?thesis using w2 by blast
qed

theorem stale_reset_loses_usage_witness:
  "\<exists>w2 s3. sub_IncrementUsage (calm_env (10 * Day)) 1 99 (doWindowMaintenance (calm_env (10 * Day)) 0 sample_sub (world_of sample_db))
      = (Inr (), w2)
    \<and> find_sub (\<lambda>x. us_ID x = 1) (pw_db (doWindowMaintenance (calm_env (10 * Day)) 0 sample_sub w2)) = Some s3
    \<and> us_DailyUsageUSD s3 = 0"
proof -
  have "NeedsDailyResetAt (10 * Day) sample_sub"
    by (simp add: NeedsDailyResetAt_def HasOneTimeDailyQuota_def sample_sub_def)
  moreover have "us_ID sample_sub = 1" by (simp add: sample_sub_def)
  ultimately show ?thesis
    using stale_reset_loses_usage [of "10 * Day" "calm_env (10 * Day)" "world_of sample_db" sample_sub 99 0]
    by (fastforce simp: subs_keyed_def sample_db_def sample_sub_def)
qed

end
