(* ===== verification/Affiliate.thy ===== *)
theory Affiliate
  imports Payment_Store
begin

text \<open>
  Invite rebates (\<open>service/affiliate_service.go\<close>, \<open>repository/affiliate_repo.go\<close>, the affiliate settings of
  \<open>service/setting_service.go\<close>): the profile of a user with the quotas it has earned, the ledger of what it was
  credited and has moved to its balance, the accrual of a rebate when an invited user recharges, the thaw of rebates
  whose freeze is over, and the transfer of the available quota to the balance.

  A method that opens a transaction joins the one its context carries. Settings are the values the store answers,
  \<open>None\<close> when there is none; a number that does not parse is \<open>None\<close> as well.
\<close>

section \<open>Settings\<close>

definition AffiliateRebateRateDefault :: rat where "AffiliateRebateRateDefault = 20"
definition AffiliateRebateRateMin :: rat where "AffiliateRebateRateMin = 0"
definition AffiliateRebateRateMax :: rat where "AffiliateRebateRateMax = 100"
definition AffiliateRebateFreezeHoursDefault :: int where "AffiliateRebateFreezeHoursDefault = 0"
definition AffiliateRebateFreezeHoursMax :: int where "AffiliateRebateFreezeHoursMax = 720"
definition AffiliateRebateDurationDaysDefault :: int where "AffiliateRebateDurationDaysDefault = 0"
definition AffiliateRebateDurationDaysMax :: int where "AffiliateRebateDurationDaysMax = 3650"
definition AffiliateRebatePerInviteeCapDefault :: rat where "AffiliateRebatePerInviteeCapDefault = 0"

record affiliate_settings =
  st_enabled :: "string option"
  st_rate :: "rat option"
  st_freeze_hours :: "string option"
  st_duration_days :: "string option"
  st_per_invitee_cap :: "rat option"

definition IsAffiliateEnabled :: "affiliate_settings \<Rightarrow> bool" where
  "IsAffiliateEnabled st = (case st_enabled st of None \<Rightarrow> False | Some v \<Rightarrow> v = ''true'')"

definition clampAffiliateRebateRate :: "rat \<Rightarrow> rat" where
  "clampAffiliateRebateRate v =
     (if v < AffiliateRebateRateMin then AffiliateRebateRateMin
      else if AffiliateRebateRateMax < v then AffiliateRebateRateMax else v)"

definition GetAffiliateRebateRatePercent :: "affiliate_settings \<Rightarrow> rat" where
  "GetAffiliateRebateRatePercent st =
     (case st_rate st of None \<Rightarrow> AffiliateRebateRateDefault | Some r \<Rightarrow> clampAffiliateRebateRate r)"

definition GetAffiliateRebateFreezeHours :: "affiliate_settings \<Rightarrow> int" where
  "GetAffiliateRebateFreezeHours st =
     (case st_freeze_hours st of
        None \<Rightarrow> AffiliateRebateFreezeHoursDefault
      | Some raw \<Rightarrow>
          (case atoi (trim_space raw) of
             None \<Rightarrow> AffiliateRebateFreezeHoursDefault
           | Some h \<Rightarrow> if h < 0 then AffiliateRebateFreezeHoursDefault
               else if AffiliateRebateFreezeHoursMax < h then AffiliateRebateFreezeHoursMax else h))"

definition GetAffiliateRebateDurationDays :: "affiliate_settings \<Rightarrow> int" where
  "GetAffiliateRebateDurationDays st =
     (case st_duration_days st of
        None \<Rightarrow> AffiliateRebateDurationDaysDefault
      | Some raw \<Rightarrow>
          (case atoi (trim_space raw) of
             None \<Rightarrow> AffiliateRebateDurationDaysDefault
           | Some d \<Rightarrow> if d < 0 then AffiliateRebateDurationDaysDefault
               else if AffiliateRebateDurationDaysMax < d then AffiliateRebateDurationDaysMax else d))"

definition GetAffiliateRebatePerInviteeCap :: "affiliate_settings \<Rightarrow> rat" where
  "GetAffiliateRebatePerInviteeCap st =
     (case st_per_invitee_cap st of
        None \<Rightarrow> AffiliateRebatePerInviteeCapDefault
      | Some c \<Rightarrow> if c < 0 then AffiliateRebatePerInviteeCapDefault else c)"

section \<open>The repository\<close>

definition ErrAffiliateProfileNotFound :: go_error where
  "ErrAffiliateProfileNotFound = NotFound ''AFFILIATE_PROFILE_NOT_FOUND'' ''affiliate profile not found''"
definition ErrAffiliateCodeInvalid :: go_error where
  "ErrAffiliateCodeInvalid = BadRequest ''AFFILIATE_CODE_INVALID'' ''invalid affiliate code''"
definition ErrAffiliateAlreadyBound :: go_error where
  "ErrAffiliateAlreadyBound = Conflict ''AFFILIATE_ALREADY_BOUND'' ''affiliate inviter already bound''"
definition ErrAffiliateQuotaEmpty :: go_error where
  "ErrAffiliateQuotaEmpty = BadRequest ''AFFILIATE_QUOTA_EMPTY'' ''no affiliate quota available to transfer''"

text \<open>The random codes drawn for new profiles, attempt by attempt.\<close>

type_synonym code_source = "nat \<Rightarrow> go_error + string"

definition affiliateCodeMaxAttempts :: nat where "affiliateCodeMaxAttempts = 12"

definition find_affiliate :: "int \<Rightarrow> pay_db \<Rightarrow> user_affiliate option" where
  "find_affiliate uid db = List.find (\<lambda>a. ua_UserID a = uid) (pd_affiliates db)"

definition withTx :: "pay_env \<Rightarrow> bool \<Rightarrow> (pay_world \<Rightarrow> 'a io) \<Rightarrow> pay_world \<Rightarrow> 'a io" where
  "withTx e in_tx fn w =
     (if in_tx then fn w
      else attempt (begin_tx e w)
        (\<lambda>err w. (Inl (errorf ''begin affiliate transaction'' err), w))
        (\<lambda>_ w. attempt (fn w)
           (\<lambda>err w. (Inl err, rollback w))
           (\<lambda>x w. attempt (commit_tx e w)
              (\<lambda>err w. (Inl (errorf ''commit affiliate transaction'' err), w))
              (\<lambda>_ w. (Inr x, w)))))"

definition queryAffiliateByUserID :: "pay_env \<Rightarrow> bool \<Rightarrow> int \<Rightarrow> pay_world \<Rightarrow> user_affiliate option io" where
  "queryAffiliateByUserID e in_tx uid w = stmt e in_tx (\<lambda>db. Inr (find_affiliate uid db)) (\<lambda>db. db) w"

definition new_affiliate :: "int \<Rightarrow> string \<Rightarrow> time \<Rightarrow> user_affiliate" where
  "new_affiliate uid code t = \<lparr>ua_UserID = uid, ua_AffCode = code, ua_RebateRatePercent = None, ua_InviterID = None,
     ua_AffCount = 0, ua_Quota = 0, ua_FrozenQuota = 0, ua_HistoryQuota = 0, ua_CreatedAt = t\<rparr>"

definition add_affiliate :: "int \<Rightarrow> string \<Rightarrow> time \<Rightarrow> pay_db \<Rightarrow> pay_db" where
  "add_affiliate uid code t db =
     (if find_affiliate uid db \<noteq> None then db
      else db\<lparr>pd_affiliates := pd_affiliates db @ [new_affiliate uid code t]\<rparr>)"

text \<open>The loop over fresh codes: only a unique violation (of the code) is tried again; a violation inside a
  transaction has aborted it.\<close>

definition isAffiliateUniqueViolation :: "go_error \<Rightarrow> bool" where
  "isAffiliateUniqueViolation err = (case err of OtherError m _ \<Rightarrow> m = oe_Error duplicate_key | _ \<Rightarrow> False)"

definition insert_affiliate :: "pay_env \<Rightarrow> bool \<Rightarrow> int \<Rightarrow> string \<Rightarrow> pay_world \<Rightarrow> unit io" where
  "insert_affiliate e in_tx uid code w =
     stmt e in_tx
       (\<lambda>db. if find_affiliate uid db = None \<and> (\<exists>a \<in> set (pd_affiliates db). ua_AffCode a = code)
             then Inl duplicate_key else Inr ())
       (add_affiliate uid code (now e w)) w"

fun insert_fresh :: "pay_env \<Rightarrow> bool \<Rightarrow> code_source \<Rightarrow> int \<Rightarrow> nat \<Rightarrow> pay_world \<Rightarrow> unit io" where
  "insert_fresh e in_tx codes uid 0 w = (Inr (), w)"
| "insert_fresh e in_tx codes uid (Suc n) w =
     (case codes (affiliateCodeMaxAttempts - Suc n) of
        Inl err \<Rightarrow> (Inl err, w)
      | Inr code \<Rightarrow>
          attempt (insert_affiliate e in_tx uid code w)
            (\<lambda>err w. if isAffiliateUniqueViolation err then insert_fresh e in_tx codes uid n w else (Inl err, w))
            (\<lambda>_ w. (Inr (), w)))"

definition profile_or_error :: "user_affiliate option \<Rightarrow> go_error + user_affiliate" where
  "profile_or_error found = (case found of Some a \<Rightarrow> Inr a | None \<Rightarrow> Inl ErrAffiliateProfileNotFound)"

definition ensureUserAffiliateWithClient ::
  "pay_env \<Rightarrow> bool \<Rightarrow> code_source \<Rightarrow> int \<Rightarrow> pay_world \<Rightarrow> user_affiliate io" where
  "ensureUserAffiliateWithClient e in_tx codes uid w =
     attempt (queryAffiliateByUserID e in_tx uid w)
       (\<lambda>err w. (Inl err, w))
       (\<lambda>found w. case found of
          Some a \<Rightarrow> (Inr a, w)
        | None \<Rightarrow> attempt (insert_fresh e in_tx codes uid affiliateCodeMaxAttempts w)
            (\<lambda>err w. (Inl err, w))
            (\<lambda>_ w. attempt (queryAffiliateByUserID e in_tx uid w)
               (\<lambda>err w. (Inl err, w))
               (\<lambda>found w. (profile_or_error found, w))))"

definition repo_EnsureUserAffiliate :: "pay_env \<Rightarrow> bool \<Rightarrow> code_source \<Rightarrow> int \<Rightarrow> pay_world \<Rightarrow> user_affiliate io" where
  "repo_EnsureUserAffiliate e in_tx codes uid w =
     (if uid \<le> 0 then (Inl pay_ErrUserNotFound, w) else ensureUserAffiliateWithClient e in_tx codes uid w)"

definition GetAffiliateByCode :: "pay_env \<Rightarrow> bool \<Rightarrow> string \<Rightarrow> pay_world \<Rightarrow> user_affiliate io" where
  "GetAffiliateByCode e in_tx code w =
     attempt (stmt e in_tx (\<lambda>db. Inr (List.find (\<lambda>a. ua_AffCode a = to_upper (trim_space code)) (pd_affiliates db)))
                (\<lambda>db. db) w)
       (\<lambda>err w. (Inl err, w))
       (\<lambda>found w. (profile_or_error found, w))"

definition update_affiliate :: "(user_affiliate \<Rightarrow> bool) \<Rightarrow> (user_affiliate \<Rightarrow> user_affiliate) \<Rightarrow> pay_db \<Rightarrow> pay_db" where
  "update_affiliate p f db = db\<lparr>pd_affiliates := update_where p f (pd_affiliates db)\<rparr>"

definition change_affiliates ::
  "pay_env \<Rightarrow> (user_affiliate \<Rightarrow> bool) \<Rightarrow> (user_affiliate \<Rightarrow> user_affiliate) \<Rightarrow> pay_world \<Rightarrow> nat io" where
  "change_affiliates e p f w =
     stmt e True (\<lambda>db. Inr (length (filter p (pd_affiliates db)))) (update_affiliate p f) w"

definition BindInviter :: "pay_env \<Rightarrow> bool \<Rightarrow> code_source \<Rightarrow> int \<Rightarrow> int \<Rightarrow> pay_world \<Rightarrow> bool io" where
  "BindInviter e in_tx codes uid inviter =
     withTx e in_tx (\<lambda>w.
       attempt (ensureUserAffiliateWithClient e True codes uid w) (\<lambda>err w. (Inl err, w))
         (\<lambda>_ w. attempt (ensureUserAffiliateWithClient e True codes inviter w) (\<lambda>err w. (Inl err, w))
            (\<lambda>_ w. attempt
               (change_affiliates e (\<lambda>a. ua_UserID a = uid \<and> ua_InviterID a = None) (\<lambda>a. a\<lparr>ua_InviterID := Some inviter\<rparr>) w)
               (\<lambda>err w. (Inl (errorf ''bind inviter'' err), w))
               (\<lambda>n w. if n = 0 then (Inr False, w)
                  else attempt (change_affiliates e (\<lambda>a. ua_UserID a = inviter) (\<lambda>a. a\<lparr>ua_AffCount := ua_AffCount a + 1\<rparr>) w)
                    (\<lambda>err w. (Inl (errorf ''increment inviter aff_count'' err), w))
                    (\<lambda>_ w. (Inr True, w))))))"

definition append_ledger :: "affiliate_ledger \<Rightarrow> pay_db \<Rightarrow> pay_db" where
  "append_ledger l db = db\<lparr>pd_ledger := pd_ledger db @ [l]\<rparr>"

definition credit_quota :: "rat \<Rightarrow> int \<Rightarrow> user_affiliate \<Rightarrow> user_affiliate" where
  "credit_quota amount freezeHours a =
     (if 0 < freezeHours
      then a\<lparr>ua_FrozenQuota := ua_FrozenQuota a + amount, ua_HistoryQuota := ua_HistoryQuota a + amount\<rparr>
      else a\<lparr>ua_Quota := ua_Quota a + amount, ua_HistoryQuota := ua_HistoryQuota a + amount\<rparr>)"

definition AccrueQuota :: "pay_env \<Rightarrow> bool \<Rightarrow> int \<Rightarrow> int \<Rightarrow> rat \<Rightarrow> int \<Rightarrow> int option \<Rightarrow> pay_world \<Rightarrow> bool io" where
  "AccrueQuota e in_tx inviter invitee amount freezeHours sourceOrder w =
     (if amount \<le> 0 then (Inr False, w)
      else withTx e in_tx (\<lambda>w.
        attempt (change_affiliates e (\<lambda>a. ua_UserID a = inviter) (credit_quota amount freezeHours) w)
          (\<lambda>err w. (Inl err, w))
          (\<lambda>n w. if n = 0 then (Inr False, w)
             else attempt
               (stmt e True (\<lambda>_. Inr ())
                  (append_ledger \<lparr>l_UserID = inviter, l_Action = Accrue, l_Amount = amount, l_SourceUserID = Some invitee,
                     l_SourceOrderID = sourceOrder,
                     l_FrozenUntil = (if 0 < freezeHours then Some (now e w + freezeHours * Hour) else None)\<rparr>) w)
               (\<lambda>err w. (Inl (errorf ''insert affiliate accrue ledger'' err), w))
               (\<lambda>_ w. (Inr True, w)))) w)"

definition accrued_from :: "int \<Rightarrow> int \<Rightarrow> pay_db \<Rightarrow> rat" where
  "accrued_from inviter invitee db =
     sum_list (map l_Amount (filter (\<lambda>l. l_UserID l = inviter \<and> l_SourceUserID l = Some invitee \<and> l_Action l = Accrue) (pd_ledger db)))"

definition GetAccruedRebateFromInvitee :: "pay_env \<Rightarrow> bool \<Rightarrow> int \<Rightarrow> int \<Rightarrow> pay_world \<Rightarrow> rat io" where
  "GetAccruedRebateFromInvitee e in_tx inviter invitee w =
     attempt (stmt e in_tx (\<lambda>db. Inr (accrued_from inviter invitee db)) (\<lambda>db. db) w)
       (\<lambda>err w. (Inl (errorf ''query accrued rebate from invitee'' err), w))
       (\<lambda>x w. (Inr x, w))"

definition matured :: "int \<Rightarrow> time \<Rightarrow> affiliate_ledger \<Rightarrow> bool" where
  "matured uid t l = (l_UserID l = uid \<and> (case l_FrozenUntil l of None \<Rightarrow> False | Some u \<Rightarrow> u \<le> t))"

definition thawFrozenQuotaTx :: "pay_env \<Rightarrow> int \<Rightarrow> pay_world \<Rightarrow> rat io" where
  "thawFrozenQuotaTx e uid w =
     (let ripe = matured uid (now e w)
      in attempt
           (stmt e True (\<lambda>db. Inr (sum_list (map l_Amount (filter ripe (pd_ledger db)))))
              (\<lambda>db. db\<lparr>pd_ledger := update_where ripe (\<lambda>l. l\<lparr>l_FrozenUntil := None\<rparr>) (pd_ledger db)\<rparr>) w)
           (\<lambda>err w. (Inl (errorf ''thaw frozen quota'' err), w))
           (\<lambda>thawed w. if thawed \<le> 0 then (Inr 0, w)
              else attempt
                (change_affiliates e (\<lambda>a. ua_UserID a = uid)
                   (\<lambda>a. a\<lparr>ua_Quota := ua_Quota a + thawed, ua_FrozenQuota := max (ua_FrozenQuota a - thawed) 0\<rparr>) w)
                (\<lambda>err w. (Inl (errorf ''move thawed quota'' err), w))
                (\<lambda>_ w. (Inr thawed, w))))"

definition ThawFrozenQuota :: "pay_env \<Rightarrow> bool \<Rightarrow> int \<Rightarrow> pay_world \<Rightarrow> rat io" where
  "ThawFrozenQuota e in_tx uid = withTx e in_tx (thawFrozenQuotaTx e uid)"

text \<open>The transfer answers the amount moved and the new balance. The snapshot of the balances that it writes into the
  ledger entry is not kept in the model, and the read for it inside the transaction is left out.\<close>

definition TransferQuotaToBalance :: "pay_env \<Rightarrow> bool \<Rightarrow> code_source \<Rightarrow> int \<Rightarrow> pay_world \<Rightarrow> (rat \<times> rat) io" where
  "TransferQuotaToBalance e in_tx codes uid =
     withTx e in_tx (\<lambda>w.
       attempt (ensureUserAffiliateWithClient e True codes uid w) (\<lambda>err w. (Inl err, w))
         (\<lambda>_ w. attempt (thawFrozenQuotaTx e uid w) (\<lambda>err w. (Inl (errorf ''thaw before transfer'' err), w))
            (\<lambda>_ w. let hit = (\<lambda>a. ua_UserID a = uid \<and> 0 < ua_Quota a)
               in attempt
                 (stmt e True (\<lambda>db. Inr (map_option ua_Quota (List.find hit (pd_affiliates db))))
                    (update_affiliate hit (\<lambda>a. a\<lparr>ua_Quota := 0\<rparr>)) w)
                 (\<lambda>err w. (Inl (errorf ''claim affiliate quota'' err), w))
                 (\<lambda>claimed w. case claimed of
                    None \<Rightarrow> (Inl ErrAffiliateQuotaEmpty, w)
                  | Some transferred \<Rightarrow>
                      if transferred \<le> 0 then (Inl ErrAffiliateQuotaEmpty, w)
                      else attempt
                        (stmt e True (\<lambda>db. Inr (length (filter (\<lambda>u. pu_ID u = uid) (pd_users db))))
                           (add_balance None uid transferred transferred) w)
                        (\<lambda>err w. (Inl (errorf ''credit user balance by affiliate quota'' err), w))
                        (\<lambda>n w. if n = 0 then (Inl pay_ErrUserNotFound, w)
                           else attempt (stmt e True (\<lambda>db. Inr (find_user uid db)) (\<lambda>db. db) w)
                             (\<lambda>err w. (Inl err, w))
                             (\<lambda>u w. case u of
                                None \<Rightarrow> (Inl pay_ErrUserNotFound, w)
                              | Some u \<Rightarrow> attempt
                                  (stmt e True (\<lambda>_. Inr ())
                                     (append_ledger \<lparr>l_UserID = uid, l_Action = Transfer, l_Amount = transferred,
                                        l_SourceUserID = None, l_SourceOrderID = None, l_FrozenUntil = None\<rparr>) w)
                                  (\<lambda>err w. (Inl (errorf ''insert affiliate transfer ledger'' err), w))
                                  (\<lambda>_ w. (Inr (transferred, pu_Balance u), w))))))))"

section \<open>The service\<close>

definition affiliateCodeValidChar :: "char \<Rightarrow> bool" where
  "affiliateCodeValidChar c =
     (65 \<le> byte c \<and> byte c \<le> 90 \<or> 48 \<le> byte c \<and> byte c \<le> 57 \<or> c = CHR ''_'' \<or> c = CHR ''-'')"

definition isValidAffiliateCodeFormat :: "string \<Rightarrow> bool" where
  "isValidAffiliateCodeFormat code = (4 \<le> length code \<and> length code \<le> 32 \<and> list_all affiliateCodeValidChar code)"

definition BindInviterByCode ::
  "pay_env \<Rightarrow> affiliate_settings \<Rightarrow> code_source \<Rightarrow> int \<Rightarrow> string \<Rightarrow> pay_world \<Rightarrow> unit io" where
  "BindInviterByCode e st codes uid rawCode w =
     (let code = to_upper (trim_space rawCode)
      in if code = '''' then (Inr (), w)
         else if \<not> IsAffiliateEnabled st then (Inr (), w)
         else if \<not> isValidAffiliateCodeFormat code then (Inl ErrAffiliateCodeInvalid, w)
         else attempt (repo_EnsureUserAffiliate e False codes uid w) (\<lambda>err w. (Inl err, w))
           (\<lambda>self w. if ua_InviterID self \<noteq> None then (Inr (), w)
              else attempt (GetAffiliateByCode e False code w)
                (\<lambda>err w. (Inl (if Is ErrAffiliateProfileNotFound err then ErrAffiliateCodeInvalid else err), w))
                (\<lambda>inviter w. if ua_UserID inviter \<le> 0 \<or> ua_UserID inviter = uid then (Inl ErrAffiliateCodeInvalid, w)
                   else attempt (BindInviter e False codes uid (ua_UserID inviter) w) (\<lambda>err w. (Inl err, w))
                     (\<lambda>bound w. (if bound then Inr () else Inl ErrAffiliateAlreadyBound, w)))))"

definition resolveRebateRatePercent :: "affiliate_settings \<Rightarrow> user_affiliate \<Rightarrow> rat" where
  "resolveRebateRatePercent st inviter =
     (case ua_RebateRatePercent inviter of
        Some v \<Rightarrow> clampAffiliateRebateRate v | None \<Rightarrow> GetAffiliateRebateRatePercent st)"

text \<open>The rebate of a recharge before and after the cap per invited user; \<open>roundTo v 8\<close> is \<open>decimal_Round 8 v\<close>.\<close>

definition raw_rebate :: "affiliate_settings \<Rightarrow> user_affiliate \<Rightarrow> rat \<Rightarrow> rat" where
  "raw_rebate st inviter base = decimal_Round 8 (base * (resolveRebateRatePercent st inviter / 100))"

definition capped_rebate :: "rat \<Rightarrow> rat \<Rightarrow> rat \<Rightarrow> rat" where
  "capped_rebate perInviteeCap existing rebate =
     (if perInviteeCap \<le> existing then 0
      else if perInviteeCap - existing < rebate then decimal_Round 8 (perInviteeCap - existing) else rebate)"

definition AccrueInviteRebateForOrder ::
  "pay_env \<Rightarrow> affiliate_settings \<Rightarrow> code_source \<Rightarrow> bool \<Rightarrow> int \<Rightarrow> rat \<Rightarrow> int option \<Rightarrow> pay_world \<Rightarrow> rat io" where
  "AccrueInviteRebateForOrder e st codes in_tx invitee base sourceOrder w =
     (if invitee \<le> 0 \<or> base \<le> 0 then (Inr 0, w)
      else if \<not> IsAffiliateEnabled st then (Inr 0, w)
      else attempt (repo_EnsureUserAffiliate e in_tx codes invitee w) (\<lambda>err w. (Inl err, w))
        (\<lambda>inviteeSummary w. case ua_InviterID inviteeSummary of
           None \<Rightarrow> (Inr 0, w)
         | Some inviter \<Rightarrow>
             if inviter \<le> 0 then (Inr 0, w)
             else attempt (repo_EnsureUserAffiliate e in_tx codes inviter w) (\<lambda>err w. (Inl err, w))
               (\<lambda>inviterSummary w.
                  let durationDays = GetAffiliateRebateDurationDays st
                  in if 0 < durationDays \<and> ua_CreatedAt inviteeSummary + durationDays * (24 * Hour) < now e w then (Inr 0, w)
                     else
                       let rebate = raw_rebate st inviterSummary base; perInviteeCap = GetAffiliateRebatePerInviteeCap st
                       in if rebate \<le> 0 then (Inr 0, w)
                          else attempt
                            (if 0 < perInviteeCap
                             then attempt (GetAccruedRebateFromInvitee e in_tx inviter invitee w) (\<lambda>err w. (Inl err, w))
                               (\<lambda>existing w. (Inr (capped_rebate perInviteeCap existing rebate), w))
                             else (Inr rebate, w))
                            (\<lambda>err w. (Inl err, w))
                            (\<lambda>rebate w. if rebate \<le> 0 then (Inr 0, w)
                               else attempt
                                 (AccrueQuota e in_tx inviter invitee rebate (GetAffiliateRebateFreezeHours st) sourceOrder w)
                                 (\<lambda>err w. (Inl err, w))
                                 (\<lambda>applied w. (Inr (if applied then rebate else 0), w))))))"

definition AccrueInviteRebate ::
  "pay_env \<Rightarrow> affiliate_settings \<Rightarrow> code_source \<Rightarrow> bool \<Rightarrow> int \<Rightarrow> rat \<Rightarrow> pay_world \<Rightarrow> rat io" where
  "AccrueInviteRebate e st codes in_tx invitee base w = AccrueInviteRebateForOrder e st codes in_tx invitee base None w"

definition TransferAffiliateQuota :: "pay_env \<Rightarrow> code_source \<Rightarrow> int \<Rightarrow> pay_world \<Rightarrow> (rat \<times> rat) io" where
  "TransferAffiliateQuota e codes uid w = TransferQuotaToBalance e False codes uid w"

section \<open>The books\<close>

text \<open>What the ledger says of a user: everything earned, the part of it that is still frozen, everything moved to the
  balance.\<close>

definition ledger_total :: "(affiliate_ledger \<Rightarrow> bool) \<Rightarrow> affiliate_ledger list \<Rightarrow> rat" where
  "ledger_total p ls = sum_list (map l_Amount (filter p ls))"

definition earned :: "int \<Rightarrow> affiliate_ledger \<Rightarrow> bool" where
  "earned uid l = (l_UserID l = uid \<and> l_Action l = Accrue)"
definition frozen :: "int \<Rightarrow> affiliate_ledger \<Rightarrow> bool" where
  "frozen uid l = (l_UserID l = uid \<and> l_Action l = Accrue \<and> l_FrozenUntil l \<noteq> None)"
definition moved :: "int \<Rightarrow> affiliate_ledger \<Rightarrow> bool" where
  "moved uid l = (l_UserID l = uid \<and> l_Action l = Transfer)"

text \<open>The quotas of a profile agree with the ledger.\<close>

definition books :: "affiliate_ledger list \<Rightarrow> user_affiliate \<Rightarrow> bool" where
  "books ls a =
     (let uid = ua_UserID a
      in ua_HistoryQuota a = ledger_total (earned uid) ls \<and> ua_FrozenQuota a = ledger_total (frozen uid) ls
         \<and> ua_Quota a = ledger_total (earned uid) ls - ledger_total (frozen uid) ls - ledger_total (moved uid) ls \<and> 0 \<le> ua_Quota a)"

definition ledger_entry_ok :: "affiliate_ledger \<Rightarrow> bool" where
  "ledger_entry_ok l = (0 < l_Amount l \<and> (l_Action l = Transfer \<longrightarrow> l_FrozenUntil l = None))"

definition affiliates_ok :: "pay_db \<Rightarrow> bool" where
  "affiliates_ok db =
     (distinct (map ua_UserID (pd_affiliates db)) \<and> list_all (books (pd_ledger db)) (pd_affiliates db)
      \<and> list_all ledger_entry_ok (pd_ledger db)
      \<and> (\<forall>l \<in> set (pd_ledger db). l_UserID l \<in> set (map ua_UserID (pd_affiliates db))))"

lemma total_simps [simp]:
  "ledger_total p [] = 0" "ledger_total p (ls @ ms) = ledger_total p ls + ledger_total p ms" "ledger_total p (l # ls) = (if p l then l_Amount l else 0) + ledger_total p ls"
  by (simp_all add: ledger_total_def)

lemma total_none: "(\<And>l. l \<in> set ls \<Longrightarrow> \<not> p l) \<Longrightarrow> ledger_total p ls = 0"
  by (induction ls) auto

lemma total_nonneg: "list_all ledger_entry_ok ls \<Longrightarrow> 0 \<le> ledger_total p ls"
  by (induction ls) (auto simp: ledger_entry_ok_def)

lemma total_zero: "list_all ledger_entry_ok ls \<Longrightarrow> ledger_total p ls \<le> 0 \<Longrightarrow> \<forall>l \<in> set ls. \<not> p l"
proof (induction ls)
  case (Cons l ls)
  then have "0 < l_Amount l" "list_all ledger_entry_ok ls" by (simp add: ledger_entry_ok_def, simp)
  moreover from this have "0 \<le> ledger_total p ls" using total_nonneg by blast
  ultimately show ?case using Cons by (auto split: if_splits)
qed simp

interpretation books: store_rely affiliates_ok "\<lambda>_ _. True"
  by unfold_locales simp_all

text \<open>A profile that is new earns nothing yet.\<close>

lemma affiliates_ok_add: "affiliates_ok db \<Longrightarrow> affiliates_ok (add_affiliate uid code t db)"
proof (cases "find_affiliate uid db")
  case None
  assume ok: "affiliates_ok db"
  have none: "ua_UserID a \<noteq> uid" if "a \<in> set (pd_affiliates db)" for a
    using None that by (auto simp: find_affiliate_def find_None_iff)
  then have "l_UserID l \<noteq> uid" if "l \<in> set (pd_ledger db)" for l
    using ok that by (fastforce simp: affiliates_ok_def)
  then have "books (pd_ledger db) (new_affiliate uid code t)"
    by (simp add: books_def new_affiliate_def Let_def total_none earned_def frozen_def moved_def)
  then show ?thesis using ok None none
    by (fastforce simp: affiliates_ok_def add_affiliate_def new_affiliate_def)
qed (simp add: add_affiliate_def)

lemma ok_query: "tx_run affiliates_ok (queryAffiliateByUserID e True uid) (\<lambda>_. affiliates_ok)"
  unfolding queryAffiliateByUserID_def by (rule tx_run_stmt)

lemma ok_insert_fresh: "tx_run affiliates_ok (insert_fresh e True codes uid n) (\<lambda>_. affiliates_ok)"
proof (induction n)
  case 0
  then show ?case by (simp add: tx_run_return)
next
  case (Suc n)
  have retry: "tx_run (\<lambda>_. False) (\<lambda>w. if b then insert_fresh e True codes uid n w else (Inl err, w)) (\<lambda>_. affiliates_ok)" for b err
    by (cases b) (simp_all add: tx_run_weaken [OF Suc] tx_run_fail)
  show ?case
  proof (cases "codes (affiliateCodeMaxAttempts - Suc n)")
    case (Inl err)
    then show ?thesis by (simp add: tx_run_fail)
  next
    case (Inr code)
    show ?thesis unfolding insert_fresh.simps Inr sum.case insert_affiliate_def
      by (rule tx_run_retry [where R = "\<lambda>_. affiliates_ok"]) (auto intro: affiliates_ok_add retry tx_run_return)
  qed
qed

lemma ok_ensure: "tx_run affiliates_ok (ensureUserAffiliateWithClient e True codes uid) (\<lambda>_. affiliates_ok)"
proof -
  have found: "tx_run affiliates_ok (\<lambda>w. (profile_or_error f, w)) (\<lambda>_. affiliates_ok)" for f
    by (cases f) (simp_all add: profile_or_error_def tx_run_fail tx_run_return)
  have "tx_run affiliates_ok (\<lambda>w. attempt (insert_fresh e True codes uid affiliateCodeMaxAttempts w) (\<lambda>err w. (Inl err, w))
      (\<lambda>_ w. attempt (queryAffiliateByUserID e True uid w) (\<lambda>err w. (Inl err, w)) (\<lambda>f w. (profile_or_error f, w)))) (\<lambda>_. affiliates_ok)"
    by (rule tx_run_seq_id [OF ok_insert_fresh tx_run_seq_id [OF ok_query found]])
  then have "tx_run affiliates_ok (\<lambda>w. case f of Some a \<Rightarrow> (Inr a, w)
      | None \<Rightarrow> attempt (insert_fresh e True codes uid affiliateCodeMaxAttempts w) (\<lambda>err w. (Inl err, w))
          (\<lambda>_ w. attempt (queryAffiliateByUserID e True uid w) (\<lambda>err w. (Inl err, w)) (\<lambda>f w. (profile_or_error f, w))))
      (\<lambda>_. affiliates_ok)" for f
    by (cases f) (simp_all add: tx_run_return)
  then show ?thesis unfolding ensureUserAffiliateWithClient_def by (intro tx_run_seq_id [OF ok_query])
qed

text \<open>A change of profiles, with the store it was made on.\<close>

lemma run_change:
  "tx_run P (change_affiliates e p f)
    (\<lambda>n db. \<exists>db0. P db0 \<and> n = length (filter p (pd_affiliates db0)) \<and> db = update_affiliate p f db0)"
  unfolding change_affiliates_def by (rule tx_run_stmt) auto

lemma update_none: "length (filter p (pd_affiliates db)) = 0 \<Longrightarrow> update_affiliate p f db = db"
  by (simp add: update_affiliate_def update_where_id filter_empty_conv)

text \<open>Changes that leave the quotas alone.\<close>

lemma affiliates_ok_frame:
  assumes "affiliates_ok db" "\<And>a. ua_UserID (f a) = ua_UserID a \<and> ua_Quota (f a) = ua_Quota a
    \<and> ua_FrozenQuota (f a) = ua_FrozenQuota a \<and> ua_HistoryQuota (f a) = ua_HistoryQuota a"
  shows "affiliates_ok (update_affiliate p f db)"
proof -
  have "map ua_UserID (update_where p f (pd_affiliates db)) = map ua_UserID (pd_affiliates db)"
    using assms(2) by (simp add: map_update_where)
  moreover have "books ls (f a) = books ls a" for ls a using assms(2) by (simp add: books_def)
  then have "list_all (books (pd_ledger db)) (update_where p f (pd_affiliates db))"
    using assms(1) by (auto simp: affiliates_ok_def list_all_iff set_update_where)
  ultimately show ?thesis using assms(1) by (simp add: affiliates_ok_def update_affiliate_def del: set_map)
qed

text \<open>A ledger entry, and the change of the one profile it belongs to.\<close>

lemma affiliates_ok_entry:
  assumes ok: "affiliates_ok db" and a: "a \<in> set (pd_affiliates db)" "ua_UserID a = uid"
    and l: "l_UserID l = uid" "ledger_entry_ok l"
    and f: "\<And>b. ua_UserID (f b) = ua_UserID b" "books (pd_ledger db @ [l]) (f a)"
    and p: "\<And>b. b \<in> set (pd_affiliates db) \<Longrightarrow> p b = (ua_UserID b = uid)"
  shows "affiliates_ok (append_ledger l (update_affiliate p f db))"
proof -
  have ids: "map ua_UserID (update_where p f (pd_affiliates db)) = map ua_UserID (pd_affiliates db)"
    using f(1) by (simp add: map_update_where)
  have "books (pd_ledger db @ [l]) b" if "b \<in> set (pd_affiliates db)" "ua_UserID b \<noteq> uid" for b
    using ok that l(1) by (auto simp: affiliates_ok_def list_all_iff books_def earned_def frozen_def moved_def)
  moreover have "b = a" if "b \<in> set (pd_affiliates db)" "ua_UserID b = uid" for b
    using ok a that by (auto simp: affiliates_ok_def intro: distinct_map_same [of ua_UserID])
  ultimately have "list_all (books (pd_ledger db @ [l])) (update_where p f (pd_affiliates db))"
    using f(2) p by (auto simp: list_all_iff set_update_where)
  moreover have "uid \<in> set (map ua_UserID (pd_affiliates db))" using a by auto
  ultimately show ?thesis using ok l ids
    by (simp add: affiliates_ok_def append_ledger_def update_affiliate_def del: set_map)
qed

lemma books_of: "affiliates_ok db \<Longrightarrow> a \<in> set (pd_affiliates db) \<Longrightarrow> books (pd_ledger db) a"
  by (simp add: affiliates_ok_def list_all_iff)

lemma books_credit:
  assumes "books ls a" "l_UserID l = ua_UserID a" "l_Action l = Accrue" "l_Amount l = amount" "0 < amount"
    "(l_FrozenUntil l \<noteq> None) = (0 < freezeHours)"
  shows "books (ls @ [l]) (credit_quota amount freezeHours a)"
  using assms by (auto simp: books_def credit_quota_def Let_def earned_def frozen_def moved_def)

lemma ok_accrue:
  "tx_run affiliates_ok (AccrueQuota e True inviter invitee amount freezeHours sourceOrder) (\<lambda>_. affiliates_ok)"
proof (cases "amount \<le> 0")
  case True
  then show ?thesis unfolding AccrueQuota_def [abs_def] by (simp add: tx_run_return)
next
  case False
  let ?p = "\<lambda>a. ua_UserID a = inviter" and ?f = "credit_quota amount freezeHours"
  let ?R = "\<lambda>n db. \<exists>db0. affiliates_ok db0 \<and> n = length (filter ?p (pd_affiliates db0)) \<and> db = update_affiliate ?p ?f db0"
  have entry: "affiliates_ok (append_ledger l db)"
    if prem: "?R n db" "n \<noteq> 0" "l = \<lparr>l_UserID = inviter, l_Action = Accrue, l_Amount = amount, l_SourceUserID = Some invitee,
         l_SourceOrderID = sourceOrder, l_FrozenUntil = (if 0 < freezeHours then Some (t + freezeHours * Hour) else None)\<rparr>"
    for n db l t
  proof -
    obtain db0 where db0: "affiliates_ok db0" "n = length (filter ?p (pd_affiliates db0))" "db = update_affiliate ?p ?f db0"
      using prem(1) by blast
    then have "filter ?p (pd_affiliates db0) \<noteq> []" using prem(2) by auto
    then obtain a where a: "a \<in> set (pd_affiliates db0)" "ua_UserID a = inviter" by (auto simp: filter_empty_conv)
    have "affiliates_ok (append_ledger l (update_affiliate ?p ?f db0))"
      using db0(1) a
    proof (rule affiliates_ok_entry)
      show "books (pd_ledger db0 @ [l]) (?f a)"
        using books_of [OF db0(1) a(1)] a(2) False prem(3) by (intro books_credit) auto
    qed (use False prem(3) in \<open>simp_all add: ledger_entry_ok_def credit_quota_def\<close>)
    then show ?thesis by (simp add: db0(3))
  qed
  have none: "?R 0 db \<Longrightarrow> affiliates_ok db" for db using update_none by fastforce
  have "tx_run (?R n) (\<lambda>w. if n = 0 then (Inr False, w)
      else attempt (stmt e True (\<lambda>_. Inr ())
          (append_ledger \<lparr>l_UserID = inviter, l_Action = Accrue, l_Amount = amount, l_SourceUserID = Some invitee,
             l_SourceOrderID = sourceOrder, l_FrozenUntil = (if 0 < freezeHours then Some (now e w + freezeHours * Hour) else None)\<rparr>) w)
        (\<lambda>err w. (Inl (errorf ''insert affiliate accrue ledger'' err), w)) (\<lambda>_ w. (Inr True, w))) (\<lambda>_. affiliates_ok)" for n
  proof (cases "n = 0")
    case True
    show ?thesis unfolding True by (simp add: tx_run_return none del: length_0_conv)
  next
    case False
    show ?thesis unfolding if_not_P [OF False]
      by (rule tx_run_seq [where R = "\<lambda>_. affiliates_ok"], rule tx_run_stmt, rule entry [OF _ False refl], assumption,
          rule tx_run_return, assumption)
  qed
  then show ?thesis using False unfolding AccrueQuota_def [abs_def] withTx_def
    by (simp add: tx_run_seq_id [OF run_change])
qed

definition thaw_entries :: "int \<Rightarrow> time \<Rightarrow> affiliate_ledger list \<Rightarrow> affiliate_ledger list" where
  "thaw_entries uid t = update_where (matured uid t) (\<lambda>l. l\<lparr>l_FrozenUntil := None\<rparr>)"

lemma thaw_totals:
  "ledger_total (earned v) (thaw_entries uid t ls) = ledger_total (earned v) ls"
  "ledger_total (moved v) (thaw_entries uid t ls) = ledger_total (moved v) ls"
  "list_all ledger_entry_ok ls \<Longrightarrow> ledger_total (frozen v) (thaw_entries uid t ls) =
     ledger_total (frozen v) ls - (if v = uid then ledger_total (matured uid t) ls else 0)"
proof -
  show "ledger_total (earned v) (thaw_entries uid t ls) = ledger_total (earned v) ls"
    by (induction ls) (auto simp: thaw_entries_def earned_def)
  show "ledger_total (moved v) (thaw_entries uid t ls) = ledger_total (moved v) ls"
    by (induction ls) (auto simp: thaw_entries_def moved_def)
  show "ledger_total (frozen v) (thaw_entries uid t ls) =
     ledger_total (frozen v) ls - (if v = uid then ledger_total (matured uid t) ls else 0)"
    if "list_all ledger_entry_ok ls"
    using that
  proof (induction ls)
    case (Cons l ls)
    then show ?case
      by (cases "l_Action l") (auto simp: thaw_entries_def frozen_def matured_def ledger_entry_ok_def split: option.splits)
  qed (simp add: thaw_entries_def)
qed

lemma thaw_entries_ok: "list_all ledger_entry_ok ls \<Longrightarrow> list_all ledger_entry_ok (thaw_entries uid t ls)"
  by (induction ls) (auto simp: thaw_entries_def ledger_entry_ok_def)

lemma thaw_entries_users: "map l_UserID (thaw_entries uid t ls) = map l_UserID ls"
  by (simp add: thaw_entries_def map_update_where)

text \<open>The store after both updates of a thaw.\<close>

definition thaw_store :: "int \<Rightarrow> time \<Rightarrow> pay_db \<Rightarrow> pay_db" where
  "thaw_store uid t db =
     (let thawed = ledger_total (matured uid t) (pd_ledger db)
      in update_affiliate (\<lambda>a. ua_UserID a = uid)
           (\<lambda>a. a\<lparr>ua_Quota := ua_Quota a + thawed, ua_FrozenQuota := max (ua_FrozenQuota a - thawed) 0\<rparr>)
           (db\<lparr>pd_ledger := thaw_entries uid t (pd_ledger db)\<rparr>))"

lemma thaw_nothing:
  assumes "affiliates_ok db" "ledger_total (matured uid t) (pd_ledger db) \<le> 0"
  shows "thaw_entries uid t (pd_ledger db) = pd_ledger db"
  using assms total_zero by (auto simp: thaw_entries_def affiliates_ok_def intro!: update_where_id)

lemma affiliates_ok_thaw: "affiliates_ok db \<Longrightarrow> affiliates_ok (thaw_store uid t db)"
proof -
  assume ok: "affiliates_ok db"
  let ?ls = "pd_ledger db" and ?thaw = "thaw_entries uid t (pd_ledger db)"
  obtain thawed where thawed: "thawed = ledger_total (matured uid t) ?ls" by simp
  let ?f = "\<lambda>a. a\<lparr>ua_Quota := ua_Quota a + thawed, ua_FrozenQuota := max (ua_FrozenQuota a - thawed) 0\<rparr>"
  have entries: "list_all ledger_entry_ok ?ls" using ok by (simp add: affiliates_ok_def)
  have "books ?thaw (if ua_UserID a = uid then ?f a else a)" if "a \<in> set (pd_affiliates db)" for a
  proof -
    have a: "books ?ls a" using ok that by (simp add: affiliates_ok_def list_all_iff)
    have "0 \<le> ledger_total (frozen (ua_UserID a)) ?thaw" "0 \<le> thawed"
      using entries total_nonneg thaw_entries_ok thawed by blast+
    then show ?thesis using a thaw_totals [where v = "ua_UserID a" and uid = uid and t = t and ls = ?ls] entries
      by (auto simp: books_def Let_def thawed)
  qed
  then have "list_all (books ?thaw) (update_where (\<lambda>a. ua_UserID a = uid) ?f (pd_affiliates db))"
    by (fastforce simp: list_all_iff set_update_where)
  moreover have "map ua_UserID (update_where (\<lambda>a. ua_UserID a = uid) ?f (pd_affiliates db)) = map ua_UserID (pd_affiliates db)"
    by (simp add: map_update_where)
  moreover have "l_UserID l \<in> set (map ua_UserID (pd_affiliates db))" if "l \<in> set ?thaw" for l
  proof -
    have "l_UserID l \<in> set (map l_UserID ?ls)" using that thaw_entries_users [of uid t ?ls] by (metis image_eqI set_map)
    then show ?thesis using ok by (auto simp: affiliates_ok_def)
  qed
  ultimately show ?thesis using ok thaw_entries_ok [OF entries]
    by (simp add: affiliates_ok_def thaw_store_def update_affiliate_def Let_def del: set_map flip: thawed)
qed

lemma run_thaw: "tx_run P (thawFrozenQuotaTx e uid)
    (\<lambda>_ db. \<exists>db0 t. P db0 \<and> (affiliates_ok db0 \<longrightarrow> db = thaw_store uid t db0))"
proof -
  let ?R = "\<lambda>thawed db. \<exists>db0 t. P db0 \<and> thawed = ledger_total (matured uid t) (pd_ledger db0)
    \<and> db = db0\<lparr>pd_ledger := thaw_entries uid t (pd_ledger db0)\<rparr>"
  let ?Q = "\<lambda>_ db. \<exists>db0 t. P db0 \<and> (affiliates_ok db0 \<longrightarrow> db = thaw_store uid t db0)"
  have "tx_run (?R thawed) (\<lambda>w. if thawed \<le> 0 then (Inr 0, w)
      else attempt (change_affiliates e (\<lambda>a. ua_UserID a = uid)
          (\<lambda>a. a\<lparr>ua_Quota := ua_Quota a + thawed, ua_FrozenQuota := max (ua_FrozenQuota a - thawed) 0\<rparr>) w)
        (\<lambda>err w. (Inl (errorf ''move thawed quota'' err), w)) (\<lambda>_ w. (Inr thawed, w))) ?Q" for thawed
  proof (cases "thawed \<le> 0")
    case True
    have "?Q x db" if R: "?R thawed db" for x db
    proof -
      obtain db0 t where db0: "P db0" "thawed = ledger_total (matured uid t) (pd_ledger db0)"
        "db = db0\<lparr>pd_ledger := thaw_entries uid t (pd_ledger db0)\<rparr>" using R by blast
      have "affiliates_ok db0 \<longrightarrow> db = thaw_store uid t db0"
      proof
        assume ok: "affiliates_ok db0"
        then have "thawed = 0" using True total_nonneg db0(2) by (metis affiliates_ok_def order_antisym)
        moreover have "ua_FrozenQuota a \<ge> 0" if "a \<in> set (pd_affiliates db0)" for a
          using ok that total_nonneg by (auto simp: affiliates_ok_def list_all_iff books_def Let_def)
        ultimately have "update_where (\<lambda>a. ua_UserID a = uid)
            (\<lambda>a. a\<lparr>ua_Quota := ua_Quota a + thawed, ua_FrozenQuota := max (ua_FrozenQuota a - thawed) 0\<rparr>) (pd_affiliates db0)
          = pd_affiliates db0"
          by (auto simp: update_where_def intro!: map_idI)
        then show "db = thaw_store uid t db0"
          by (cases db0) (simp add: thaw_store_def update_affiliate_def Let_def db0(2,3))
      qed
      then show ?thesis using db0(1) by blast
    qed
    then show ?thesis using True by (simp add: tx_run_return)
  next
    case False
    show ?thesis unfolding if_not_P [OF False]
      by (rule tx_run_seq [OF run_change], rule tx_run_return) (auto simp: thaw_store_def Let_def)
  qed
  moreover have "tx_run P (\<lambda>w. stmt e True (\<lambda>db. Inr (sum_list (map l_Amount (filter (matured uid (now e w)) (pd_ledger db)))))
      (\<lambda>db. db\<lparr>pd_ledger := update_where (matured uid (now e w)) (\<lambda>l. l\<lparr>l_FrozenUntil := None\<rparr>) (pd_ledger db)\<rparr>) w) ?R"
    by (rule tx_run_stmt) (auto simp: ledger_total_def thaw_entries_def)
  ultimately show ?thesis unfolding thawFrozenQuotaTx_def Let_def by (intro tx_run_seq [where R = ?R])
qed

lemma ok_thaw: "tx_run affiliates_ok (thawFrozenQuotaTx e uid) (\<lambda>_. affiliates_ok)"
  by (rule tx_run_weaken [OF run_thaw [where P = affiliates_ok]]) (auto intro: affiliates_ok_thaw)

lemma affiliates_ok_cong:
  "pd_affiliates db' = pd_affiliates db \<Longrightarrow> pd_ledger db' = pd_ledger db \<Longrightarrow> affiliates_ok db' = affiliates_ok db"
  by (simp add: affiliates_ok_def)

text \<open>The ledger entry of a transfer, and a store that only waits for it.\<close>

definition transfer_entry :: "int \<Rightarrow> rat \<Rightarrow> affiliate_ledger" where
  "transfer_entry uid x = \<lparr>l_UserID = uid, l_Action = Transfer, l_Amount = x, l_SourceUserID = None, l_SourceOrderID = None,
     l_FrozenUntil = None\<rparr>"

definition awaits_entry :: "int \<Rightarrow> rat \<Rightarrow> pay_db \<Rightarrow> bool" where
  "awaits_entry uid x db = affiliates_ok (append_ledger (transfer_entry uid x) db)"

lemma awaits_add_balance: "awaits_entry uid x db \<Longrightarrow> awaits_entry uid x (add_balance c u y z db)"
  by (simp add: awaits_entry_def append_ledger_def add_balance_def affiliates_ok_def)

lemma claim_awaits:
  assumes ok: "affiliates_ok db"
    and found: "List.find (\<lambda>a. ua_UserID a = uid \<and> 0 < ua_Quota a) (pd_affiliates db) = Some a"
  shows "awaits_entry uid (ua_Quota a) (update_affiliate (\<lambda>a. ua_UserID a = uid \<and> 0 < ua_Quota a) (\<lambda>a. a\<lparr>ua_Quota := 0\<rparr>) db)"
  unfolding awaits_entry_def
proof (rule affiliates_ok_entry [OF ok])
  show a: "a \<in> set (pd_affiliates db)" "ua_UserID a = uid" using found by (auto dest: find_Some_in)
  have pos: "0 < ua_Quota a" using found by (auto dest: find_Some_in)
  show "books (pd_ledger db @ [transfer_entry uid (ua_Quota a)]) (a\<lparr>ua_Quota := 0\<rparr>)"
    using books_of [OF ok a(1)] a(2)
    by (simp add: books_def Let_def transfer_entry_def earned_def frozen_def moved_def)
  show "(ua_UserID b = uid \<and> 0 < ua_Quota b) = (ua_UserID b = uid)" if "b \<in> set (pd_affiliates db)" for b
  proof -
    have "b = a" if "ua_UserID b = uid" using ok a that \<open>b \<in> set _\<close>
      by (auto simp: affiliates_ok_def intro: distinct_map_same [of ua_UserID])
    then show ?thesis using pos by blast
  qed
  show "ledger_entry_ok (transfer_entry uid (ua_Quota a))" using pos by (simp add: ledger_entry_ok_def transfer_entry_def)
qed (simp_all add: transfer_entry_def)

text \<open>The part of the transfer after the thaw.\<close>

lemma ok_transfer:
  "tx_run affiliates_ok (TransferQuotaToBalance e True codes uid) (\<lambda>_. affiliates_ok)"
proof -
  let ?hit = "\<lambda>a. ua_UserID a = uid \<and> 0 < ua_Quota a"
  let ?claim = "stmt e True (\<lambda>db. Inr (map_option ua_Quota (List.find ?hit (pd_affiliates db))))
    (update_affiliate ?hit (\<lambda>a. a\<lparr>ua_Quota := 0\<rparr>))"
  let ?R = "\<lambda>c. case c of None \<Rightarrow> (\<lambda>_. True) | Some x \<Rightarrow> awaits_entry uid x"
  have claim: "tx_run affiliates_ok ?claim ?R"
    by (rule tx_run_stmt) (auto intro: claim_awaits split: option.split)
  have entry: "tx_run (awaits_entry uid x) (\<lambda>w. attempt (stmt e True (\<lambda>_. Inr ())
        (append_ledger \<lparr>l_UserID = uid, l_Action = Transfer, l_Amount = x, l_SourceUserID = None, l_SourceOrderID = None,
           l_FrozenUntil = None\<rparr>) w)
      (\<lambda>err w. (Inl (errorf ''insert affiliate transfer ledger'' err), w)) (\<lambda>_ w. (Inr (x, b), w))) (\<lambda>_. affiliates_ok)" for x b
    by (rule tx_run_seq [where R = "\<lambda>_. affiliates_ok"], rule tx_run_stmt, simp add: awaits_entry_def transfer_entry_def,
        rule tx_run_return, assumption)
  have user: "tx_run (awaits_entry uid x) (\<lambda>w. attempt (stmt e True (\<lambda>db. Inr (find_user uid db)) (\<lambda>db. db) w) (\<lambda>err w. (Inl err, w))
      (\<lambda>u w. case u of None \<Rightarrow> (Inl pay_ErrUserNotFound, w)
         | Some u \<Rightarrow> attempt (stmt e True (\<lambda>_. Inr ())
              (append_ledger \<lparr>l_UserID = uid, l_Action = Transfer, l_Amount = x, l_SourceUserID = None, l_SourceOrderID = None,
                 l_FrozenUntil = None\<rparr>) w)
            (\<lambda>err w. (Inl (errorf ''insert affiliate transfer ledger'' err), w)) (\<lambda>_ w. (Inr (x, pu_Balance u), w))))
      (\<lambda>_. affiliates_ok)" for x
  proof (rule tx_run_seq_id [where R = "\<lambda>_. awaits_entry uid x"])
    show "tx_run (awaits_entry uid x) (stmt e True (\<lambda>db. Inr (find_user uid db)) (\<lambda>db. db)) (\<lambda>_. awaits_entry uid x)"
      by (rule tx_run_stmt)
    show "tx_run (awaits_entry uid x) (\<lambda>w. case u of None \<Rightarrow> (Inl pay_ErrUserNotFound, w)
         | Some u \<Rightarrow> attempt (stmt e True (\<lambda>_. Inr ())
              (append_ledger \<lparr>l_UserID = uid, l_Action = Transfer, l_Amount = x, l_SourceUserID = None, l_SourceOrderID = None,
                 l_FrozenUntil = None\<rparr>) w)
            (\<lambda>err w. (Inl (errorf ''insert affiliate transfer ledger'' err), w)) (\<lambda>_ w. (Inr (x, pu_Balance u), w)))
      (\<lambda>_. affiliates_ok)" for u
      by (cases u) (simp_all add: tx_run_fail entry)
  qed
  have credit: "tx_run (awaits_entry uid x) (stmt e True (\<lambda>db. Inr (length (filter (\<lambda>u. pu_ID u = uid) (pd_users db))))
      (add_balance None uid x x)) (\<lambda>_. awaits_entry uid x)" for x
    by (rule tx_run_stmt) (rule awaits_add_balance)
  show ?thesis unfolding TransferQuotaToBalance_def withTx_def [abs_def] if_P [OF TrueI] Let_def
  proof (rule tx_run_seq_id [OF ok_ensure], rule tx_run_seq [OF ok_thaw], rule tx_run_seq [OF claim])
    fix claimed
    show "tx_run (?R claimed) (\<lambda>w. case claimed of None \<Rightarrow> (Inl ErrAffiliateQuotaEmpty, w)
        | Some transferred \<Rightarrow> if transferred \<le> 0 then (Inl ErrAffiliateQuotaEmpty, w)
            else attempt (stmt e True (\<lambda>db. Inr (length (filter (\<lambda>u. pu_ID u = uid) (pd_users db))))
                (add_balance None uid transferred transferred) w)
              (\<lambda>err w. (Inl (errorf ''credit user balance by affiliate quota'' err), w))
              (\<lambda>n w. if n = 0 then (Inl pay_ErrUserNotFound, w)
                 else attempt (stmt e True (\<lambda>db. Inr (find_user uid db)) (\<lambda>db. db) w) (\<lambda>err w. (Inl err, w))
                   (\<lambda>u w. case u of None \<Rightarrow> (Inl pay_ErrUserNotFound, w)
                      | Some u \<Rightarrow> attempt (stmt e True (\<lambda>_. Inr ())
                           (append_ledger \<lparr>l_UserID = uid, l_Action = Transfer, l_Amount = transferred, l_SourceUserID = None,
                              l_SourceOrderID = None, l_FrozenUntil = None\<rparr>) w)
                         (\<lambda>err w. (Inl (errorf ''insert affiliate transfer ledger'' err), w))
                         (\<lambda>_ w. (Inr (transferred, pu_Balance u), w)))))
      (\<lambda>_. affiliates_ok)"
    proof (cases claimed)
      case None
      then show ?thesis by (simp add: tx_run_fail)
    next
      case (Some x)
      show ?thesis
      proof (cases "x \<le> 0")
        case True
        then show ?thesis by (simp add: Some tx_run_fail)
      next
        case False
        have after: "tx_run (awaits_entry uid x) (\<lambda>w. if n = 0 then (Inl pay_ErrUserNotFound, w) else m w) (\<lambda>_. affiliates_ok)"
          if "tx_run (awaits_entry uid x) m (\<lambda>_. affiliates_ok)" for n :: nat and m :: "pay_world \<Rightarrow> (rat \<times> rat) io"
          using that by (cases "n = 0") (simp_all add: tx_run_fail)
        show ?thesis unfolding Some option.case if_not_P [OF False]
          by (rule tx_run_seq [OF credit]) (rule after [OF user])
      qed
    qed
  qed
qed

lemma ok_bind: "tx_run affiliates_ok (BindInviter e True codes uid inviter) (\<lambda>_. affiliates_ok)"
proof -
  have change: "tx_run affiliates_ok (change_affiliates e p f) (\<lambda>_. affiliates_ok)"
    if "\<And>a. ua_UserID (f a) = ua_UserID a \<and> ua_Quota (f a) = ua_Quota a \<and> ua_FrozenQuota (f a) = ua_FrozenQuota a
        \<and> ua_HistoryQuota (f a) = ua_HistoryQuota a" for p f
    by (rule tx_run_weaken [OF run_change [where P = affiliates_ok]]) (auto intro: affiliates_ok_frame [OF _ that])
  have count: "tx_run affiliates_ok (\<lambda>w. if n = 0 then (Inr False, w)
      else attempt (change_affiliates e (\<lambda>a. ua_UserID a = inviter) (\<lambda>a. a\<lparr>ua_AffCount := ua_AffCount a + 1\<rparr>) w)
        (\<lambda>err w. (Inl (errorf ''increment inviter aff_count'' err), w)) (\<lambda>_ w. (Inr True, w))) (\<lambda>_. affiliates_ok)" for n :: nat
    by (cases "n = 0") (auto intro!: tx_run_return tx_run_seq [OF change])
  show ?thesis unfolding BindInviter_def withTx_def [abs_def] if_P [OF TrueI]
    by (rule tx_run_seq_id [OF ok_ensure], rule tx_run_seq_id [OF ok_ensure], rule tx_run_seq [OF change], simp, rule count)
qed

section \<open>Every request keeps the books\<close>

abbreviation books_kept :: "pay_world \<Rightarrow> pay_world \<Rightarrow> bool" where
  "books_kept \<equiv> goes affiliates_ok (\<lambda>_ _. True)"

abbreviation books_kind :: "pay_env \<Rightarrow> bool" where
  "books_kind \<equiv> kind affiliates_ok (\<lambda>_ _. True)"

lemma withTx_joins [simp]: "withTx e True fn = fn"
  by (rule ext) (simp add: withTx_def)

lemma kept_withTx:
  "books_kind e \<Longrightarrow> tx_run affiliates_ok fn (\<lambda>_. affiliates_ok) \<Longrightarrow> books_kept w (snd (withTx e False fn w))"
  unfolding withTx_def if_False
  by (rule books.tx_goes [where h = "\<lambda>err. err"]) (auto elim: tx_run_weaken)

lemma kept_query: "books_kind e \<Longrightarrow> books_kept w (snd (queryAffiliateByUserID e False uid w))"
  unfolding queryAffiliateByUserID_def by (rule books.stmt_goes) simp_all

lemma kept_insert_fresh: "books_kind e \<Longrightarrow> books_kept w (snd (insert_fresh e False codes uid n w))"
proof (induction n arbitrary: w)
  case 0
  then show ?case by (simp add: books.goes_refl)
next
  case (Suc n)
  have "books_kept w (snd (insert_affiliate e False uid code w))" for code
    unfolding insert_affiliate_def using Suc.prems by (rule books.stmt_goes) (simp add: affiliates_ok_add)
  then show ?case using Suc by (auto intro!: books.attempt_goes books.goes_refl split: sum.split)
qed

lemma kept_ensure: "books_kind e \<Longrightarrow> books_kept w (snd (repo_EnsureUserAffiliate e False codes uid w))"
  unfolding repo_EnsureUserAffiliate_def ensureUserAffiliateWithClient_def
  by (auto intro!: books.attempt_goes books.goes_refl kept_query kept_insert_fresh split: option.split)

lemma kept_by_code: "books_kind e \<Longrightarrow> books_kept w (snd (GetAffiliateByCode e False code w))"
  unfolding GetAffiliateByCode_def by (auto intro!: books.attempt_goes books.goes_refl books.stmt_goes)

lemma kept_accrued: "books_kind e \<Longrightarrow> books_kept w (snd (GetAccruedRebateFromInvitee e False inviter invitee w))"
  unfolding GetAccruedRebateFromInvitee_def by (auto intro!: books.attempt_goes books.goes_refl books.stmt_goes)

lemma kept_accrue: "books_kind e \<Longrightarrow> books_kept w (snd (AccrueQuota e False inviter invitee amount h so w))"
proof -
  assume e: "books_kind e"
  have "AccrueQuota e False inviter invitee amount h so w =
      (if amount \<le> 0 then (Inr False, w) else withTx e False (AccrueQuota e True inviter invitee amount h so) w)"
    by (simp add: AccrueQuota_def [abs_def] withTx_def)
  then show ?thesis using kept_withTx [OF e ok_accrue] by (simp add: books.goes_refl)
qed

lemma kept_rebate: "books_kind e \<Longrightarrow> books_kept w (snd (AccrueInviteRebateForOrder e st codes False uid base so w))"
  unfolding AccrueInviteRebateForOrder_def Let_def
  by (auto intro!: books.attempt_goes books.goes_refl kept_ensure kept_accrued kept_accrue split: option.split)

lemma kept_bind: "books_kind e \<Longrightarrow> books_kept w (snd (BindInviterByCode e st codes uid code w))"
proof -
  assume e: "books_kind e"
  have "BindInviter e False codes uid inviter = withTx e False (BindInviter e True codes uid inviter)" for inviter
    by (simp add: BindInviter_def [abs_def])
  then have "books_kept w (snd (BindInviter e False codes uid inviter w))" for w inviter
    using kept_withTx [OF e ok_bind] by simp
  then show ?thesis unfolding BindInviterByCode_def Let_def using e
    by (auto intro!: books.attempt_goes books.goes_refl kept_ensure kept_by_code)
qed

lemma kept_transfer: "books_kind e \<Longrightarrow> books_kept w (snd (TransferAffiliateQuota e codes uid w))"
proof -
  assume e: "books_kind e"
  have "TransferQuotaToBalance e False codes uid = withTx e False (TransferQuotaToBalance e True codes uid)"
    by (simp add: TransferQuotaToBalance_def [abs_def])
  then show ?thesis using kept_withTx [OF e ok_transfer] by (simp add: TransferAffiliateQuota_def)
qed

text \<open>What the users and the other services ask of the affiliate service.\<close>

datatype affiliate_request =
    Open_profile int
  | Bind_code int string
  | Recharged int rat "int option"
  | Thaw int
  | Transfer_out int

fun serve_affiliate :: "pay_env \<Rightarrow> affiliate_settings \<Rightarrow> code_source \<Rightarrow> affiliate_request \<Rightarrow> pay_world \<Rightarrow> pay_world" where
  "serve_affiliate e st codes (Open_profile uid) w = snd (repo_EnsureUserAffiliate e False codes uid w)"
| "serve_affiliate e st codes (Bind_code uid code) w = snd (BindInviterByCode e st codes uid code w)"
| "serve_affiliate e st codes (Recharged uid base so) w = snd (AccrueInviteRebateForOrder e st codes False uid base so w)"
| "serve_affiliate e st codes (Thaw uid) w = snd (ThawFrozenQuota e False uid w)"
| "serve_affiliate e st codes (Transfer_out uid) w = snd (TransferAffiliateQuota e codes uid w)"

text \<open>C36: The books of the rebates balance: for every user the lifetime quota is what the ledger has credited, the
  frozen quota is the part whose freeze has not been lifted, and the quota at hand is the rest minus what was moved to
  the balance, and is never negative. Every request keeps this, whichever of its calls fail, are lost or never happen
  because the process dies, and whatever other writers do that keep it too.\<close>

theorem affiliate_books_balance:
  assumes "\<And>n db. affiliates_ok db \<Longrightarrow> affiliates_ok (pe_other e n db)" "affiliates_ok (pw_db w)"
  shows "affiliates_ok (pw_db (serve_affiliate e st codes req w))"
proof -
  have e: "books_kind e" using assms(1) by (simp add: kind_def)
  have "books_kept w (serve_affiliate e st codes req w)"
  proof (cases req)
    case (Thaw uid)
    then show ?thesis using kept_withTx [OF e ok_thaw] by (simp add: ThawFrozenQuota_def)
  qed (simp_all add: kept_ensure kept_bind kept_rebate kept_transfer e)
  then show ?thesis using assms(2) by (simp add: goes_def)
qed

definition invited_db :: pay_db where
  "invited_db = \<lparr>pd_orders = [], pd_audits = [], pd_codes = [], pd_next_code = 1,
     pd_users = [\<lparr>pu_ID = 1, pu_Balance = 0, pu_Concurrency = 2, pu_TotalRecharged = 0\<rparr>], pd_moves = [], pd_refunds = [],
     pd_subs = [], pd_next_sub = 1, pd_groups = [], pd_instances = [],
     pd_affiliates = [(new_affiliate 1 ''AAAA'' 0)\<lparr>ua_Quota := 3, ua_FrozenQuota := 2, ua_HistoryQuota := 5\<rparr>,
       (new_affiliate 7 ''BBBB'' 0)\<lparr>ua_InviterID := Some 1\<rparr>],
     pd_ledger = [\<lparr>l_UserID = 1, l_Action = Accrue, l_Amount = 3, l_SourceUserID = Some 7, l_SourceOrderID = None, l_FrozenUntil = None\<rparr>,
       \<lparr>l_UserID = 1, l_Action = Accrue, l_Amount = 2, l_SourceUserID = Some 7, l_SourceOrderID = None, l_FrozenUntil = Some 50\<rparr>],
     pd_attempts = (\<lambda>_. 0), pd_locks = []\<rparr>"

theorem affiliate_books_balance_witness:
  "affiliates_ok (pw_db (serve_affiliate ((calm_env 60)\<lparr>pe_fault := (\<lambda>n. if n = 5 then Lost duplicate_key else Fine)\<rparr>)
     \<lparr>st_enabled = Some ''true'', st_rate = None, st_freeze_hours = None, st_duration_days = None, st_per_invitee_cap = None\<rparr>
     (\<lambda>_. Inr ''CCCC'') (Transfer_out 1) (world_of invited_db)))"
proof (rule affiliate_books_balance)
  show "affiliates_ok (pw_db (world_of invited_db))"
    by (simp add: affiliates_ok_def invited_db_def new_affiliate_def books_def ledger_entry_ok_def earned_def frozen_def moved_def)
qed (simp add: calm_env_def)

end
