(* ===== verification/Redeem.thy ===== *)
theory Redeem
  imports Subscription_Terms Affiliate
begin

text \<open>
  Redeem codes (\<open>service/redeem_service.go\<close>, \<open>service/redeem_code.go\<close>, \<open>repository/redeem_code_repo.go\<close>,
  \<open>repository/redeem_cache.go\<close>): their creation one by one and in batches, the batch update of what may still be
  changed, and \<open>Redeem\<close>, which marks a code as used and grants its balance, concurrency or subscription in one
  transaction, behind a lock and a limit of failed attempts kept in Redis.
\<close>

section \<open>Codes\<close>

definition ErrRedeemCodeNotFound :: go_error where
  "ErrRedeemCodeNotFound = NotFound ''REDEEM_CODE_NOT_FOUND'' ''redeem code not found''"
definition ErrRedeemCodeUsed :: go_error where
  "ErrRedeemCodeUsed = Conflict ''REDEEM_CODE_USED'' ''redeem code already used''"
definition ErrRedeemCodeExpired :: go_error where
  "ErrRedeemCodeExpired = Conflict ''REDEEM_CODE_EXPIRED'' ''redeem code expired''"
definition ErrRedeemRateLimited :: go_error where
  "ErrRedeemRateLimited = TooManyRequests ''REDEEM_RATE_LIMITED'' ''too many failed attempts, please try again later''"
definition ErrRedeemCodeLocked :: go_error where
  "ErrRedeemCodeLocked = Conflict ''REDEEM_CODE_LOCKED'' ''redeem code is being processed, please try again''"

definition redeemMaxErrorsPerHour :: int where "redeemMaxErrorsPerHour = 20"

definition IsUsed :: "RedeemCode \<Rightarrow> bool" where "IsUsed c = (rc_Status c = StatusUsed)"

definition IsExpiredAt :: "time \<Rightarrow> RedeemCode \<Rightarrow> bool" where
  "IsExpiredAt t c =
     (rc_Status c = StatusExpired
      \<or> rc_Status c = StatusUnused \<and> (case rc_ExpiresAt c of None \<Rightarrow> False | Some x \<Rightarrow> x \<le> t))"

definition CanUse :: "time \<Rightarrow> RedeemCode \<Rightarrow> bool" where
  "CanUse t c = (rc_Status c = StatusUnused \<and> \<not> IsExpiredAt t c)"

section \<open>The repository\<close>

definition add_code :: "RedeemCode \<Rightarrow> pay_db \<Rightarrow> pay_db" where
  "add_code c db = db\<lparr>pd_codes := pd_codes db @ [c\<lparr>rc_ID := pd_next_code db\<rparr>], pd_next_code := pd_next_code db + 1\<rparr>"

definition code_exists :: "string \<Rightarrow> pay_db \<Rightarrow> bool" where
  "code_exists code db = (\<exists>c \<in> set (pd_codes db). rc_Code c = code)"

definition redeem_Create :: "pay_env \<Rightarrow> RedeemCode \<Rightarrow> pay_world \<Rightarrow> unit io" where
  "redeem_Create e c w =
     stmt e False (\<lambda>db. if code_exists (rc_Code c) db then Inl duplicate_key else Inr ()) (add_code c) w"

text \<open>One bulk insert: all rows or none.\<close>

definition CreateBatch :: "pay_env \<Rightarrow> RedeemCode list \<Rightarrow> pay_world \<Rightarrow> unit io" where
  "CreateBatch e cs w =
     (if cs = [] then (Inr (), w)
      else stmt e False
        (\<lambda>db. if \<not> distinct (map rc_Code cs) \<or> (\<exists>c \<in> set cs. code_exists (rc_Code c) db) then Inl duplicate_key else Inr ())
        (fold add_code cs) w)"

definition code_or_error :: "RedeemCode option \<Rightarrow> go_error + RedeemCode" where
  "code_or_error found = (case found of Some c \<Rightarrow> Inr c | None \<Rightarrow> Inl ErrRedeemCodeNotFound)"

definition find_code :: "string \<Rightarrow> pay_db \<Rightarrow> RedeemCode option" where
  "find_code code db = List.find (\<lambda>c. rc_Code c = code) (pd_codes db)"

definition redeem_GetByID :: "pay_env \<Rightarrow> int \<Rightarrow> pay_world \<Rightarrow> RedeemCode io" where
  "redeem_GetByID e cid w =
     attempt (stmt e False (\<lambda>db. Inr (List.find (\<lambda>c. rc_ID c = cid) (pd_codes db))) (\<lambda>db. db) w)
       (\<lambda>err w. (Inl err, w)) (\<lambda>found w. (code_or_error found, w))"

definition redeem_GetByCode :: "pay_env \<Rightarrow> string \<Rightarrow> pay_world \<Rightarrow> RedeemCode io" where
  "redeem_GetByCode e code w =
     attempt (stmt e False (\<lambda>db. Inr (find_code code db)) (\<lambda>db. db) w)
       (\<lambda>err w. (Inl err, w)) (\<lambda>found w. (code_or_error found, w))"

definition redeem_Delete :: "pay_env \<Rightarrow> int \<Rightarrow> pay_world \<Rightarrow> unit io" where
  "redeem_Delete e cid w =
     stmt e False (\<lambda>_. Inr ()) (\<lambda>db. db\<lparr>pd_codes := filter (\<lambda>c. rc_ID c \<noteq> cid) (pd_codes db)\<rparr>) w"

text \<open>\<open>Use\<close>: the optimistic lock on the status of the code.\<close>

definition usable :: "int \<Rightarrow> RedeemCode \<Rightarrow> bool" where
  "usable cid c = (rc_ID c = cid \<and> rc_Status c = StatusUnused)"

definition mark_used :: "int \<Rightarrow> int \<Rightarrow> time \<Rightarrow> pay_db \<Rightarrow> pay_db" where
  "mark_used cid uid t db =
     db\<lparr>pd_codes := update_where (usable cid) (\<lambda>c. c\<lparr>rc_Status := StatusUsed, rc_UsedBy := Some uid, rc_UsedAt := Some t\<rparr>)
          (pd_codes db)\<rparr>"

definition redeem_Use :: "pay_env \<Rightarrow> bool \<Rightarrow> int \<Rightarrow> int \<Rightarrow> pay_world \<Rightarrow> unit io" where
  "redeem_Use e in_tx cid uid w =
     attempt (stmt e in_tx (\<lambda>db. Inr (length (filter (usable cid) (pd_codes db)))) (mark_used cid uid (now e w)) w)
       (\<lambda>err w. (Inl err, w))
       (\<lambda>affected w. if affected = 0 then (Inl ErrRedeemCodeUsed, w) else (Inr (), w))"

text \<open>The fields of a batch update; a missing one is not changed, and the two that may be cleared are set to what
  is inside.\<close>

record RedeemCodeBatchUpdateFields =
  bu_Status :: "string option"
  bu_ExpiresAt :: "time option option"
  bu_Notes :: "string option"
  bu_GroupID :: "int option option"
  bu_Type :: "string option"
  bu_Value :: "rat option"

definition HasChanges :: "RedeemCodeBatchUpdateFields \<Rightarrow> bool" where
  "HasChanges f = (bu_Status f \<noteq> None \<or> bu_ExpiresAt f \<noteq> None \<or> bu_Notes f \<noteq> None \<or> bu_GroupID f \<noteq> None
     \<or> bu_Type f \<noteq> None \<or> bu_Value f \<noteq> None)"

definition HasCoreFieldChanges :: "RedeemCodeBatchUpdateFields \<Rightarrow> bool" where
  "HasCoreFieldChanges f = (bu_Type f \<noteq> None \<or> bu_Value f \<noteq> None)"

definition TouchesUsedSensitiveFields :: "RedeemCodeBatchUpdateFields \<Rightarrow> bool" where
  "TouchesUsedSensitiveFields f = (bu_Status f \<noteq> None \<or> bu_ExpiresAt f \<noteq> None \<or> bu_GroupID f \<noteq> None)"

definition change_code :: "RedeemCodeBatchUpdateFields \<Rightarrow> RedeemCode \<Rightarrow> RedeemCode" where
  "change_code f c =
     c\<lparr>rc_Status := (case bu_Status f of Some s \<Rightarrow> s | None \<Rightarrow> rc_Status c),
       rc_ExpiresAt := (case bu_ExpiresAt f of Some x \<Rightarrow> x | None \<Rightarrow> rc_ExpiresAt c),
       rc_GroupID := (case bu_GroupID f of Some g \<Rightarrow> g | None \<Rightarrow> rc_GroupID c)\<rparr>"

definition batchUpdate :: "pay_env \<Rightarrow> int list \<Rightarrow> RedeemCodeBatchUpdateFields \<Rightarrow> pay_world \<Rightarrow> int io" where
  "batchUpdate e ids f w =
     attempt (stmt e True (\<lambda>db. Inr (filter (\<lambda>c. rc_ID c \<in> set ids) (pd_codes db))) (\<lambda>db. db) w)
       (\<lambda>err w. (Inl err, w))
       (\<lambda>existing w.
          if length existing \<noteq> length ids then (Inl ErrRedeemCodeNotFound, w)
          else if TouchesUsedSensitiveFields f \<and> (\<exists>c \<in> set existing. rc_Status c = StatusUsed) then (Inl ErrRedeemCodeUsed, w)
          else attempt
            (stmt e True (\<lambda>db. Inr (length (filter (\<lambda>c. rc_ID c \<in> set ids) (pd_codes db))))
               (\<lambda>db. db\<lparr>pd_codes := update_where (\<lambda>c. rc_ID c \<in> set ids) (change_code f) (pd_codes db)\<rparr>) w)
            (\<lambda>err w. (Inl err, w))
            (\<lambda>affected w. if affected \<noteq> length ids then (Inl ErrRedeemCodeNotFound, w) else (Inr (int affected), w)))"

definition repo_BatchUpdate :: "pay_env \<Rightarrow> int list \<Rightarrow> RedeemCodeBatchUpdateFields \<Rightarrow> pay_world \<Rightarrow> int io" where
  "repo_BatchUpdate e ids f w =
     (let uniqueIDs = rev (remdups (rev ids))
      in if uniqueIDs = [] then (Inr 0, w)
         else attempt (begin_tx e w) (\<lambda>err w. (Inl err, w))
           (\<lambda>_ w. attempt (batchUpdate e uniqueIDs f w) (\<lambda>err w. (Inl err, rollback w))
              (\<lambda>n w. attempt (commit_tx e w) (\<lambda>err w. (Inl err, w)) (\<lambda>_ w. (Inr n, w)))))"

section \<open>Redis\<close>

definition GetRedeemAttemptCount :: "pay_env \<Rightarrow> int \<Rightarrow> pay_world \<Rightarrow> int io" where
  "GetRedeemAttemptCount e uid w = stmt e False (\<lambda>db. Inr (pd_attempts db uid)) (\<lambda>db. db) w"

definition IncrementRedeemAttemptCount :: "pay_env \<Rightarrow> int \<Rightarrow> pay_world \<Rightarrow> unit io" where
  "IncrementRedeemAttemptCount e uid w =
     stmt e False (\<lambda>_. Inr ()) (\<lambda>db. db\<lparr>pd_attempts := (pd_attempts db)(uid := pd_attempts db uid + 1)\<rparr>) w"

definition AcquireRedeemLock :: "pay_env \<Rightarrow> string \<Rightarrow> pay_world \<Rightarrow> bool io" where
  "AcquireRedeemLock e code w =
     stmt e False (\<lambda>db. Inr (code \<notin> set (pd_locks db)))
       (\<lambda>db. if code \<in> set (pd_locks db) then db else db\<lparr>pd_locks := code # pd_locks db\<rparr>) w"

definition ReleaseRedeemLock :: "pay_env \<Rightarrow> string \<Rightarrow> pay_world \<Rightarrow> unit io" where
  "ReleaseRedeemLock e code w =
     stmt e False (\<lambda>_. Inr ()) (\<lambda>db. db\<lparr>pd_locks := filter (\<lambda>c. c \<noteq> code) (pd_locks db)\<rparr>) w"

section \<open>The service\<close>

text \<open>Whether there is a Redis cache, and an affiliate service with its settings and the codes it draws; the time zone
  of the process.\<close>

record redeem_config =
  cf_cache :: bool
  cf_affiliate :: "affiliate_settings option"
  cf_codes :: code_source
  cf_zone :: duration

definition checkRedeemRateLimit :: "pay_env \<Rightarrow> redeem_config \<Rightarrow> int \<Rightarrow> pay_world \<Rightarrow> unit io" where
  "checkRedeemRateLimit e cf uid w =
     (if \<not> cf_cache cf then (Inr (), w)
      else attempt (GetRedeemAttemptCount e uid w) (\<lambda>_ w. (Inr (), w))
        (\<lambda>count w. if redeemMaxErrorsPerHour \<le> count then (Inl ErrRedeemRateLimited, w) else (Inr (), w)))"

definition incrementRedeemErrorCount :: "pay_env \<Rightarrow> redeem_config \<Rightarrow> int \<Rightarrow> pay_world \<Rightarrow> pay_world" where
  "incrementRedeemErrorCount e cf uid w = (if cf_cache cf then snd (IncrementRedeemAttemptCount e uid w) else w)"

definition acquireRedeemLock :: "pay_env \<Rightarrow> redeem_config \<Rightarrow> string \<Rightarrow> pay_world \<Rightarrow> bool \<times> pay_world" where
  "acquireRedeemLock e cf code w =
     (if \<not> cf_cache cf then (True, w)
      else attempt (AcquireRedeemLock e code w) (\<lambda>_ w. (True, w)) (\<lambda>ok w. (ok, w)))"

definition releaseRedeemLock :: "pay_env \<Rightarrow> redeem_config \<Rightarrow> string \<Rightarrow> pay_world \<Rightarrow> pay_world" where
  "releaseRedeemLock e cf code w = (if cf_cache cf then snd (ReleaseRedeemLock e code w) else w)"

definition redeem_service_GetByCode :: "pay_env \<Rightarrow> string \<Rightarrow> pay_world \<Rightarrow> RedeemCode io" where
  "redeem_service_GetByCode e code w =
     attempt (redeem_GetByCode e code w) (\<lambda>err w. (Inl (errorf ''get redeem code'' err), w)) (\<lambda>c w. (Inr c, w))"

definition CreateCode :: "pay_env \<Rightarrow> RedeemCode \<Rightarrow> pay_world \<Rightarrow> unit io" where
  "CreateCode e c w =
     (let code = trim_space (rc_Code c); ty = (if rc_Type c = '''' then RedeemTypeBalance else rc_Type c);
          c' = c\<lparr>rc_Code := code, rc_Type := ty, rc_Status := (if rc_Status c = '''' then StatusUnused else rc_Status c)\<rparr>
      in if code = '''' then (Inl (OtherError ''code is required'' None), w)
         else if ty \<noteq> RedeemTypeInvitation \<and> rc_Value c = 0 then (Inl (OtherError ''value must not be zero'' None), w)
         else if IsExpiredAt (now e w) c' then (Inl ErrRedeemCodeExpired, w)
         else attempt (redeem_Create e c' w) (\<lambda>err w. (Inl (errorf ''create redeem code'' err), w)) (\<lambda>_ w. (Inr (), w)))"

text \<open>\<open>GenerateCodes\<close>, with the random codes drawn one by one; an error of the random source is \<open>Inl\<close>.\<close>

record GenerateCodesRequest =
  gr_Count :: int
  gr_Value :: rat
  gr_Type :: string

fun draw_codes :: "(nat \<Rightarrow> go_error + string) \<Rightarrow> nat \<Rightarrow> go_error + string list" where
  "draw_codes gen 0 = Inr []"
| "draw_codes gen (Suc n) =
     (case draw_codes gen n of
        Inl err \<Rightarrow> Inl err
      | Inr cs \<Rightarrow> (case gen n of Inl err \<Rightarrow> Inl (errorf ''generate code'' err) | Inr c \<Rightarrow> Inr (cs @ [c])))"

definition GenerateCodes ::
  "pay_env \<Rightarrow> (nat \<Rightarrow> go_error + string) \<Rightarrow> GenerateCodesRequest \<Rightarrow> pay_world \<Rightarrow> RedeemCode list io" where
  "GenerateCodes e gen req w =
     (if gr_Count req \<le> 0 then (Inl (OtherError ''count must be greater than 0'' None), w)
      else if gr_Type req \<noteq> RedeemTypeInvitation \<and> gr_Value req = 0 then (Inl (OtherError ''value must not be zero'' None), w)
      else if 1000 < gr_Count req then (Inl (OtherError ''cannot generate more than 1000 codes at once'' None), w)
      else
        let ty = (if gr_Type req = '''' then RedeemTypeBalance else gr_Type req);
            value = (if ty = RedeemTypeInvitation then 0 else gr_Value req)
        in case draw_codes gen (nat (gr_Count req)) of
             Inl err \<Rightarrow> (Inl err, w)
           | Inr drawn \<Rightarrow>
               let codes = map (\<lambda>s. \<lparr>rc_ID = 0, rc_Code = s, rc_Type = ty, rc_Value = value, rc_Status = StatusUnused,
                     rc_UsedBy = None, rc_UsedAt = None, rc_ExpiresAt = None, rc_GroupID = None, rc_ValidityDays = 0\<rparr>) drawn
               in attempt (CreateBatch e codes w) (\<lambda>err w. (Inl (errorf ''create batch codes'' err), w)) (\<lambda>_ w. (Inr codes, w)))"

definition service_BatchUpdate :: "pay_env \<Rightarrow> int list \<Rightarrow> RedeemCodeBatchUpdateFields \<Rightarrow> pay_world \<Rightarrow> int io" where
  "service_BatchUpdate e ids f w =
     (if ids = [] then (Inl (BadRequest ''REDEEM_CODE_BATCH_UPDATE_IDS_REQUIRED'' ''ids are required''), w)
      else if \<not> HasChanges f then (Inl (BadRequest ''REDEEM_CODE_BATCH_UPDATE_EMPTY'' ''at least one field must be selected''), w)
      else if HasCoreFieldChanges f then
        (Inl (BadRequest ''REDEEM_CODE_CORE_FIELDS_IMMUTABLE'' ''type and value cannot be batch updated''), w)
      else if \<exists>i \<in> set ids. i \<le> 0 then (Inl (BadRequest ''REDEEM_CODE_BATCH_UPDATE_INVALID_ID'' ''ids must be positive''), w)
      else if (case bu_Status f of None \<Rightarrow> False | Some s \<Rightarrow> s \<noteq> StatusUnused \<and> s \<noteq> StatusDisabled) then
        (Inl (BadRequest ''REDEEM_CODE_STATUS_INVALID'' ''status must be unused or disabled''), w)
      else if (case bu_ExpiresAt f of Some (Some x) \<Rightarrow> x \<le> now e w | _ \<Rightarrow> False) then
        (Inl (BadRequest ''REDEEM_CODE_EXPIRES_AT_INVALID'' ''expires_at must be in the future''), w)
      else if (case bu_GroupID f of Some (Some g) \<Rightarrow> g \<le> 0 | _ \<Rightarrow> False) then
        (Inl (BadRequest ''REDEEM_CODE_GROUP_ID_INVALID'' ''group_id must be positive''), w)
      else repo_BatchUpdate e (rev (remdups (rev ids))) f w)"

text \<open>\<open>Delete\<close> reads the code, then deletes it by its id alone.\<close>

definition service_Delete :: "pay_env \<Rightarrow> int \<Rightarrow> pay_world \<Rightarrow> unit io" where
  "service_Delete e cid w =
     attempt (redeem_GetByID e cid w) (\<lambda>err w. (Inl (errorf ''get redeem code'' err), w))
       (\<lambda>c w. if IsUsed c then (Inl (Conflict ''REDEEM_CODE_DELETE_USED'' ''cannot delete used redeem code''), w)
          else attempt (redeem_Delete e cid w) (\<lambda>err w. (Inl (errorf ''delete redeem code'' err), w)) (\<lambda>_ w. (Inr (), w)))"

text \<open>The Chinese texts of the notes on a subscription, in UTF-8: "by redeem code ", " refunded ", "days" and
     "redeemed".\<close>

definition byRedeemCode :: string where
  "byRedeemCode = [CHR 0xE9, CHR 0x80, CHR 0x9A, CHR 0xE8, CHR 0xBF, CHR 0x87, CHR 0xE5, CHR 0x85, CHR 0x91, CHR 0xE6,
     CHR 0x8D, CHR 0xA2, CHR 0xE7, CHR 0xA0, CHR 0x81, CHR 0x20]"
definition refundedDays :: string where
  "refundedDays = [CHR 0x20, CHR 0xE9, CHR 0x80, CHR 0x80, CHR 0xE6, CHR 0xAC, CHR 0xBE, CHR 0xE6, CHR 0x89, CHR 0xA3,
     CHR 0xE5, CHR 0x87, CHR 0x8F, CHR 0x20]"
definition dayCounter :: string where
  "dayCounter = [CHR 0xE5, CHR 0xA4, CHR 0xA9]"
definition redeemedSuffix :: string where
  "redeemedSuffix = [CHR 0xE5, CHR 0x85, CHR 0x91, CHR 0xE6, CHR 0x8D, CHR 0xA2]"

definition reduceOrCancelSubscription :: "pay_env \<Rightarrow> int \<Rightarrow> int \<Rightarrow> int \<Rightarrow> string \<Rightarrow> pay_world \<Rightarrow> unit io" where
  "reduceOrCancelSubscription e uid gid reduceDays code w =
     attempt (GetByUserIDAndGroupID e True uid gid w)
       (\<lambda>_ w. (Inl us_ErrSubscriptionNotFound, w))
       (\<lambda>sub w.
          let t = now e w; remaining = max 0 ((us_ExpiresAt sub - t) sdiv Day);
              notes = byRedeemCode @ code @ refundedDays @ itoa reduceDays @ '' '' @ dayCounter;
              newNotes = (if us_Notes sub \<noteq> [] then us_Notes sub @ [CHR 0x0A] @ notes else notes)
          in attempt
               (if remaining \<le> reduceDays then
                  attempt (UpdateStatus e True (us_ID sub) SubscriptionStatusExpired w)
                    (\<lambda>err w. (Inl (errorf ''cancel subscription'' err), w))
                    (\<lambda>_ w. attempt (ExtendExpiry e True (us_ID sub) t w)
                       (\<lambda>err w. (Inl (errorf ''set subscription expiry'' err), w)) (\<lambda>_ w. (Inr (), w)))
                else
                  attempt (ExtendExpiry e True (us_ID sub) (us_ExpiresAt sub - reduceDays * Day) w)
                    (\<lambda>err w. (Inl (errorf ''reduce subscription'' err), w)) (\<lambda>_ w. (Inr (), w)))
               (\<lambda>err w. (Inl err, w))
               (\<lambda>_ w. attempt (UpdateNotes e True (us_ID sub) newNotes w)
                  (\<lambda>err w. (Inl (errorf ''update subscription notes'' err), w)) (\<lambda>_ w. (Inr (), w))))"

definition tryAccrueAffiliateRebateForRedeem :: "pay_env \<Rightarrow> redeem_config \<Rightarrow> bool \<Rightarrow> int \<Rightarrow> rat \<Rightarrow> pay_world \<Rightarrow> pay_world" where
  "tryAccrueAffiliateRebateForRedeem e cf skip uid amount w =
     (if skip then w
      else (case cf_affiliate cf of
              None \<Rightarrow> w
            | Some st \<Rightarrow> if \<not> IsAffiliateEnabled st then w else snd (AccrueInviteRebate e st (cf_codes cf) False uid amount w)))"

text \<open>\<open>int(v)\<close> of a float truncates towards zero.\<close>

definition int_of_float :: "rat \<Rightarrow> int" where
  "int_of_float x = (if 0 \<le> x then \<lfloor>x\<rfloor> else \<lceil>x\<rceil>)"

text \<open>What a code grants, inside the transaction.\<close>

definition redeem_grant :: "pay_env \<Rightarrow> redeem_config \<Rightarrow> int \<Rightarrow> pay_user \<Rightarrow> RedeemCode \<Rightarrow> pay_world \<Rightarrow> unit io" where
  "redeem_grant e cf uid u c w =
     (if rc_Type c = RedeemTypeBalance then
        let amount = (if rc_Value c < 0 \<and> pu_Balance u + rc_Value c < 0 then - pu_Balance u else rc_Value c)
        in attempt (UpdateBalance e True (Some (rc_Code c)) uid amount w)
             (\<lambda>err w. (Inl (errorf ''update user balance'' err), w)) (\<lambda>_ w. (Inr (), w))
      else if rc_Type c = RedeemTypeConcurrency then
        let delta = int_of_float (rc_Value c); delta = (if delta < 0 \<and> pu_Concurrency u + delta < 0 then - pu_Concurrency u else delta)
        in attempt (UpdateConcurrency e True uid delta w)
             (\<lambda>err w. (Inl (errorf ''update user concurrency'' err), w)) (\<lambda>_ w. (Inr (), w))
      else if rc_Type c = RedeemTypeSubscription then
        if rc_ValidityDays c < 0 then
          attempt (reduceOrCancelSubscription e uid (the (rc_GroupID c)) (- rc_ValidityDays c) (rc_Code c) w)
            (\<lambda>err w. (Inl (errorf ''reduce or cancel subscription'' err), w)) (\<lambda>_ w. (Inr (), w))
        else
          attempt (AssignOrExtendSubscription e (cf_zone cf) True
              \<lparr>as_UserID = uid, as_GroupID = the (rc_GroupID c),
               as_ValidityDays = (if rc_ValidityDays c = 0 then 30 else rc_ValidityDays c), as_AssignedBy = 0,
               as_Notes = byRedeemCode @ rc_Code c @ '' '' @ redeemedSuffix\<rparr> w)
            (\<lambda>err w. (Inl (errorf ''assign or extend subscription'' err), w)) (\<lambda>_ w. (Inr (), w))
      else (Inl (OtherError (''unsupported redeem type: '' @ rc_Type c) None), w))"

definition redeem_in_tx :: "pay_env \<Rightarrow> redeem_config \<Rightarrow> int \<Rightarrow> pay_user \<Rightarrow> RedeemCode \<Rightarrow> pay_world \<Rightarrow> unit io" where
  "redeem_in_tx e cf uid u c w =
     attempt (redeem_Use e True (rc_ID c) uid w)
       (\<lambda>err w. (Inl (if Is ErrRedeemCodeNotFound err \<or> Is ErrRedeemCodeUsed err then ErrRedeemCodeUsed
                      else errorf ''mark code as used'' err), w))
       (\<lambda>_ w. redeem_grant e cf uid u c w)"

definition redeem_transaction :: "pay_env \<Rightarrow> redeem_config \<Rightarrow> int \<Rightarrow> pay_user \<Rightarrow> RedeemCode \<Rightarrow> pay_world \<Rightarrow> unit io" where
  "redeem_transaction e cf uid u c w =
     attempt (begin_tx e w) (\<lambda>err w. (Inl (errorf ''begin transaction'' err), w))
       (\<lambda>_ w. attempt (redeem_in_tx e cf uid u c w) (\<lambda>err w. (Inl err, rollback w))
          (\<lambda>x w. attempt (commit_tx e w) (\<lambda>err w. (Inl (errorf ''commit transaction'' err), w)) (\<lambda>_ w. (Inr x, w))))"

text \<open>\<open>Redeem\<close> under the lock. \<open>skip\<close> is the context of the payment fulfilment, which accrues the rebate itself.\<close>

definition redeem_locked :: "pay_env \<Rightarrow> redeem_config \<Rightarrow> bool \<Rightarrow> int \<Rightarrow> string \<Rightarrow> pay_world \<Rightarrow> RedeemCode io" where
  "redeem_locked e cf skip uid code w =
     attempt (redeem_GetByCode e code w)
       (\<lambda>err w. if Is ErrRedeemCodeNotFound err
          then (Inl ErrRedeemCodeNotFound, incrementRedeemErrorCount e cf uid w)
          else (Inl (errorf ''get redeem code'' err), w))
       (\<lambda>c w.
          if IsExpiredAt (now e w) c then (Inl ErrRedeemCodeExpired, incrementRedeemErrorCount e cf uid w)
          else if \<not> CanUse (now e w) c then (Inl ErrRedeemCodeUsed, incrementRedeemErrorCount e cf uid w)
          else if rc_Type c = RedeemTypeSubscription \<and> rc_GroupID c = None then
            (Inl (BadRequest ''REDEEM_CODE_INVALID'' ''invalid subscription redeem code: missing group_id''), w)
          else attempt (get_user e uid w) (\<lambda>err w. (Inl (errorf ''get user'' err), w))
            (\<lambda>u w. attempt (redeem_transaction e cf uid u c w) (\<lambda>err w. (Inl err, w))
               (\<lambda>_ w.
                  let w = (if rc_Type c = RedeemTypeBalance \<and> 0 < rc_Value c
                           then tryAccrueAffiliateRebateForRedeem e cf skip uid (rc_Value c) w else w)
                  in attempt (redeem_GetByID e (rc_ID c) w)
                       (\<lambda>err w. (Inl (errorf ''get updated redeem code'' err), w)) (\<lambda>c w. (Inr c, w)))))"

definition Redeem :: "pay_env \<Rightarrow> redeem_config \<Rightarrow> bool \<Rightarrow> int \<Rightarrow> string \<Rightarrow> pay_world \<Rightarrow> RedeemCode io" where
  "Redeem e cf skip uid code w =
     attempt (checkRedeemRateLimit e cf uid w) (\<lambda>err w. (Inl err, w))
       (\<lambda>_ w. case acquireRedeemLock e cf code w of
          (False, w) \<Rightarrow> (Inl ErrRedeemCodeLocked, w)
        | (True, w) \<Rightarrow> (case redeem_locked e cf skip uid code w of (r, w) \<Rightarrow> (r, releaseRedeemLock e cf code w)))"

end
