(* ===== verification/Payment_Providers.thy ===== *)
theory Payment_Providers
  imports Payment_Store
begin

text \<open>
  Which provider instance an order belongs to, and what a payment notification must agree with
  (\<open>service/payment_order_provider_snapshot.go\<close>, \<open>payment_currency.go\<close>, the lookup of instances in
  \<open>payment_refund.go\<close>, \<open>payment/types.go\<close>). The snapshot that an order took of its provider decides; orders from
  before snapshots fall back on their columns, and then on the only instance that fits.

  \<open>registry\<close> is the provider key the registry knows for a payment type, empty when it knows none.
\<close>

section \<open>Providers\<close>

text \<open>A payment provider (\<open>payment.Provider\<close>) is outside the program: what it answers to its \<open>n\<close>-th call is a parameter.
  \<open>None\<close> is a refund response that is missing, or an amount that is not a number.\<close>

record QueryOrderResponse =
  qr_TradeNo :: string
  qr_Status :: string
  qr_Amount :: "rat option"
  qr_Metadata :: "(string \<times> string) list"

text \<open>A paid amount is a float: \<open>None\<close> is a NaN or an infinity.\<close>

record PaymentNotification =
  nt_TradeNo :: string
  nt_OrderID :: string
  nt_Amount :: "rat option"
  nt_Status :: string
  nt_Metadata :: "(string \<times> string) list"

text \<open>Verifying a notification reads its body and its headers; an event that has nothing to do with a payment is no
  notification.\<close>

record provider =
  pv_ProviderKey :: string
  pv_QueryOrder :: "nat \<Rightarrow> string \<Rightarrow> go_error + QueryOrderResponse"
  pv_VerifyNotification :: "nat \<Rightarrow> string \<Rightarrow> (string \<times> string) list \<Rightarrow> go_error + PaymentNotification option"
  pv_Refund :: "nat \<Rightarrow> RefundRequest \<Rightarrow> go_error + string option"
  pv_CancelPayment :: "(nat \<Rightarrow> string \<Rightarrow> go_error option) option"
  pv_MerchantIdentityMetadata :: "(string \<times> string) list"

section \<open>Payment types\<close>

definition TypeAlipay :: string where "TypeAlipay = ''alipay''"
definition TypeWxpay :: string where "TypeWxpay = ''wxpay''"
definition TypeAlipayDirect :: string where "TypeAlipayDirect = ''alipay_direct''"
definition TypeWxpayDirect :: string where "TypeWxpayDirect = ''wxpay_direct''"
definition TypeStripe :: string where "TypeStripe = ''stripe''"
definition TypeCard :: string where "TypeCard = ''card''"
definition TypeLink :: string where "TypeLink = ''link''"
definition TypeEasyPay :: string where "TypeEasyPay = ''easypay''"
definition TypeAirwallex :: string where "TypeAirwallex = ''airwallex''"

definition GetBasePaymentType :: "string \<Rightarrow> string" where
  "GetBasePaymentType t =
     (if t = TypeEasyPay then TypeEasyPay
      else if t = TypeAirwallex then TypeAirwallex
      else if t = TypeStripe \<or> t = TypeCard \<or> t = TypeLink then TypeStripe
      else if length TypeAlipay \<le> length t \<and> take (length TypeAlipay) t = TypeAlipay then TypeAlipay
      else if length TypeWxpay \<le> length t \<and> take (length TypeWxpay) t = TypeWxpay then TypeWxpay
      else t)"

definition normalizeVisibleMethodSupportType :: "string \<Rightarrow> string" where
  "normalizeVisibleMethodSupportType t =
     (let t' = trim_space t
      in if t' = TypeAlipay \<or> t' = TypeAlipayDirect then TypeAlipay
         else if t' = TypeWxpay \<or> t' = TypeWxpayDirect then TypeWxpay
         else t')"

definition InstanceSupportsType :: "string \<Rightarrow> string \<Rightarrow> bool" where
  "InstanceSupportsType supportedTypes target =
     (if supportedTypes = '''' then True
      else list_ex (\<lambda>t. trim_space t = target
                     \<or> normalizeVisibleMethodSupportType (trim_space t) = normalizeVisibleMethodSupportType target)
             (split_on (CHR '','') supportedTypes))"

text \<open>\<open>strings.EqualFold\<close> on the ASCII names compared here.\<close>

definition EqualFold :: "string \<Rightarrow> string \<Rightarrow> bool" where
  "EqualFold s t = (to_lower s = to_lower t)"

section \<open>The snapshot of an order\<close>

record paymentOrderProviderSnapshot =
  ps_SchemaVersion :: int
  ps_ProviderInstanceID :: string
  ps_ProviderKey :: string
  ps_PaymentMode :: string
  ps_MerchantAppID :: string
  ps_MerchantID :: string
  ps_Currency :: string

definition psStringValue :: "string option \<Rightarrow> string" where
  "psStringValue v = (case v of None \<Rightarrow> '''' | Some s \<Rightarrow> s)"

definition psSnapshotStringValue :: "snapshot_value option \<Rightarrow> string" where
  "psSnapshotStringValue v = (case v of Some (SnapString s) \<Rightarrow> trim_space s | _ \<Rightarrow> '''')"

definition psSnapshotIntValue :: "snapshot_value option \<Rightarrow> int" where
  "psSnapshotIntValue v =
     (case v of
        Some (SnapNumber n) \<Rightarrow> n
      | Some (SnapString s) \<Rightarrow> (case atoi (trim_space s) of Some n \<Rightarrow> n | None \<Rightarrow> 0)
      | _ \<Rightarrow> 0)"

definition psOrderProviderSnapshot :: "payment_order \<Rightarrow> paymentOrderProviderSnapshot option" where
  "psOrderProviderSnapshot po =
     (if po_ProviderSnapshot po = [] then None
      else
        let field = map_of (po_ProviderSnapshot po);
            snapshot = \<lparr>ps_SchemaVersion = psSnapshotIntValue (field ''schema_version''),
              ps_ProviderInstanceID = psSnapshotStringValue (field ''provider_instance_id''),
              ps_ProviderKey = psSnapshotStringValue (field ''provider_key''),
              ps_PaymentMode = psSnapshotStringValue (field ''payment_mode''),
              ps_MerchantAppID = psSnapshotStringValue (field ''merchant_app_id''),
              ps_MerchantID = psSnapshotStringValue (field ''merchant_id''),
              ps_Currency = psSnapshotStringValue (field ''currency'')\<rparr>
        in if ps_SchemaVersion snapshot = 0 \<and> ps_ProviderInstanceID snapshot = '''' \<and> ps_ProviderKey snapshot = ''''
              \<and> ps_PaymentMode snapshot = '''' \<and> ps_MerchantAppID snapshot = '''' \<and> ps_MerchantID snapshot = ''''
              \<and> ps_Currency snapshot = ''''
           then None else Some snapshot)"

definition PaymentOrderCurrency :: "payment_order \<Rightarrow> string" where
  "PaymentOrderCurrency po =
     (case psOrderProviderSnapshot po of
        None \<Rightarrow> DefaultPaymentCurrency
      | Some snapshot \<Rightarrow>
          (case NormalizePaymentCurrency (ps_Currency snapshot) of Inr c \<Rightarrow> c | Inl _ \<Rightarrow> DefaultPaymentCurrency))"

section \<open>The instance of an order\<close>

definition get_instance :: "pay_env \<Rightarrow> int \<Rightarrow> pay_world \<Rightarrow> PaymentProviderInstance option io" where
  "get_instance e iid w = stmt e False (\<lambda>db. Inr (List.find (\<lambda>i. pi_ID i = iid) (pd_instances db))) (\<lambda>db. db) w"

definition ent_instance_not_found :: go_error where
  "ent_instance_not_found = OtherError ''ent: payment_provider_instance not found'' None"

definition resolveSnapshotOrderProviderInstance ::
  "pay_env \<Rightarrow> payment_order \<Rightarrow> paymentOrderProviderSnapshot \<Rightarrow> pay_world \<Rightarrow> PaymentProviderInstance option io" where
  "resolveSnapshotOrderProviderInstance e po snapshot w =
     (let columnInstanceID = trim_space (psStringValue (po_ProviderInstanceID po));
          named = trim_space (ps_ProviderInstanceID snapshot);
          snapshotInstanceID = (if named = '''' then columnInstanceID else named);
          failure = (\<lambda>m. Inl (OtherError (''order '' @ itoa (po_ID po) @ m) None))
      in if snapshotInstanceID = '''' then (failure '' provider snapshot is missing provider_instance_id'', w)
         else if columnInstanceID \<noteq> '''' \<and> ps_ProviderInstanceID snapshot \<noteq> ''''
                 \<and> \<not> EqualFold columnInstanceID (ps_ProviderInstanceID snapshot) then
           (failure '' provider snapshot instance mismatch'', w)
         else case atoi snapshotInstanceID of
           None \<Rightarrow> (failure '' provider snapshot instance id is invalid'', w)
         | Some instID \<Rightarrow>
             attempt (get_instance e instID w) (\<lambda>err w. (Inl err, w))
               (\<lambda>found w. case found of
                  None \<Rightarrow> (failure '' provider snapshot instance is missing'', w)
                | Some inst \<Rightarrow>
                    if ps_ProviderKey snapshot \<noteq> '''' \<and> \<not> EqualFold (trim_space (pi_ProviderKey inst)) (ps_ProviderKey snapshot)
                    then (failure '' provider snapshot key mismatch'', w)
                    else (Inr (Some inst), w)))"

definition psLegacyOrderMatchesInstance :: "string \<Rightarrow> PaymentProviderInstance \<Rightarrow> bool" where
  "psLegacyOrderMatchesInstance orderPaymentType inst =
     (let baseType = GetBasePaymentType (trim_space orderPaymentType); key = trim_space (pi_ProviderKey inst)
      in if baseType = '''' then False
         else if baseType = TypeStripe then key = TypeStripe
         else if key = TypeStripe then False
         else if key = baseType then True
         else InstanceSupportsType (pi_SupportedTypes inst) baseType)"

definition psFilterLegacyOrderProviderInstances :: "string \<Rightarrow> PaymentProviderInstance list \<Rightarrow> PaymentProviderInstance list" where
  "psFilterLegacyOrderProviderInstances orderPaymentType instances =
     (if instances = [] then []
      else if trim_space orderPaymentType = '''' then instances
      else filter (psLegacyOrderMatchesInstance orderPaymentType) instances)"

definition only_one :: "'a list \<Rightarrow> 'a option" where
  "only_one xs = (case xs of [x] \<Rightarrow> Some x | _ \<Rightarrow> None)"

definition resolveUniqueLegacyOrderProviderInstance ::
  "pay_env \<Rightarrow> payment_order \<Rightarrow> pay_world \<Rightarrow> PaymentProviderInstance option io" where
  "resolveUniqueLegacyOrderProviderInstance e po w =
     (let paymentType = GetBasePaymentType (trim_space (po_PaymentType po)); providerKey = trim_space (psStringValue (po_ProviderKey po))
      in if providerKey \<noteq> '''' then
           attempt (stmt e False (\<lambda>db. Inr (filter (\<lambda>i. pi_ProviderKey i = providerKey) (pd_instances db))) (\<lambda>db. db) w)
             (\<lambda>err w. (Inl err, w))
             (\<lambda>instances w. (Inr (only_one (psFilterLegacyOrderProviderInstances paymentType instances)), w))
         else if paymentType = '''' then (Inr None, w)
         else attempt (stmt e False (\<lambda>db. Inr (pd_instances db)) (\<lambda>db. db) w)
             (\<lambda>err w. (Inl err, w))
             (\<lambda>instances w. (Inr (only_one (psFilterLegacyOrderProviderInstances paymentType instances)), w)))"

definition getOrderProviderInstance :: "pay_env \<Rightarrow> payment_order \<Rightarrow> pay_world \<Rightarrow> PaymentProviderInstance option io" where
  "getOrderProviderInstance e po w =
     (case psOrderProviderSnapshot po of
        Some snapshot \<Rightarrow> resolveSnapshotOrderProviderInstance e po snapshot w
      | None \<Rightarrow>
          let instIDStr = trim_space (psStringValue (po_ProviderInstanceID po))
          in if instIDStr = '''' then resolveUniqueLegacyOrderProviderInstance e po w
             else case atoi instIDStr of
               None \<Rightarrow> (Inr None, w)
             | Some instID \<Rightarrow> attempt (get_instance e instID w) (\<lambda>err w. (Inl err, w))
                 (\<lambda>found w. (case found of None \<Rightarrow> Inl ent_instance_not_found | Some i \<Rightarrow> Inr (Some i), w)))"

text \<open>Refunds are pinned to an explicit binding: no guess for legacy orders.\<close>

definition getRefundOrderProviderInstance :: "pay_env \<Rightarrow> payment_order \<Rightarrow> pay_world \<Rightarrow> PaymentProviderInstance option io" where
  "getRefundOrderProviderInstance e po w =
     (case psOrderProviderSnapshot po of
        Some snapshot \<Rightarrow> resolveSnapshotOrderProviderInstance e po snapshot w
      | None \<Rightarrow>
          let instIDStr = trim_space (psStringValue (po_ProviderInstanceID po))
          in if instIDStr = '''' then (Inr None, w)
             else case atoi instIDStr of
               None \<Rightarrow> (Inl (OtherError (''order '' @ itoa (po_ID po) @ '' refund provider instance id is invalid'') None), w)
             | Some instID \<Rightarrow> attempt (get_instance e instID w) (\<lambda>err w. (Inl err, w))
                 (\<lambda>found w. (case found of
                    None \<Rightarrow> Inl (OtherError (''order '' @ itoa (po_ID po) @ '' refund provider instance is missing'') None)
                  | Some i \<Rightarrow> Inr (Some i), w)))"

section \<open>Notifications\<close>

definition expectedNotificationProviderKey :: "(string \<Rightarrow> string) \<Rightarrow> string \<Rightarrow> string \<Rightarrow> string \<Rightarrow> string" where
  "expectedNotificationProviderKey registry orderPaymentType orderProviderKey instanceProviderKey =
     (if trim_space instanceProviderKey \<noteq> '''' then trim_space instanceProviderKey
      else if trim_space orderProviderKey \<noteq> '''' then trim_space orderProviderKey
      else if trim_space (registry orderPaymentType) \<noteq> '''' then trim_space (registry orderPaymentType)
      else trim_space orderPaymentType)"

definition expectedNotificationProviderKeyForOrder :: "(string \<Rightarrow> string) \<Rightarrow> payment_order \<Rightarrow> string \<Rightarrow> string" where
  "expectedNotificationProviderKeyForOrder registry po instanceProviderKey =
     (let orderProviderKey = (case psOrderProviderSnapshot po of
            Some snapshot \<Rightarrow> if ps_ProviderKey snapshot \<noteq> '''' then ps_ProviderKey snapshot else psStringValue (po_ProviderKey po)
          | None \<Rightarrow> psStringValue (po_ProviderKey po))
      in expectedNotificationProviderKey registry (po_PaymentType po) orderProviderKey instanceProviderKey)"

text \<open>One field of the snapshot against one of the notification: what is expected and missing, or different.\<close>

definition check_field :: "string \<Rightarrow> string \<Rightarrow> string \<Rightarrow> string \<Rightarrow> go_error option" where
  "check_field missing mismatch expected actual =
     (if trim_space expected = '''' then None
      else if actual = '''' then Some (OtherError missing None)
      else if \<not> EqualFold (trim_space expected) actual then
        Some (OtherError (mismatch @ '': expected '' @ trim_space expected @ '', got '' @ actual) None)
      else None)"

definition check_state :: "string \<Rightarrow> string \<Rightarrow> string \<Rightarrow> go_error option" where
  "check_state mismatch expected actual =
     (if actual \<noteq> '''' \<and> \<not> EqualFold actual expected then
        Some (OtherError (mismatch @ '': expected '' @ expected @ '', got '' @ actual) None)
      else None)"

fun first_error :: "go_error option list \<Rightarrow> go_error option" where
  "first_error [] = None"
| "first_error (None # es) = first_error es"
| "first_error (Some err # es) = Some err"

definition validateProviderSnapshotMetadata :: "payment_order \<Rightarrow> string \<Rightarrow> (string \<times> string) list \<Rightarrow> go_error option" where
  "validateProviderSnapshotMetadata po providerKey metadata =
     (if metadata = [] then None
      else case psOrderProviderSnapshot po of
        None \<Rightarrow> None
      | Some snapshot \<Rightarrow>
          let key = trim_space providerKey;
              got = (\<lambda>k. trim_space (case map_of metadata k of None \<Rightarrow> '''' | Some v \<Rightarrow> v))
          in if key = TypeWxpay then
               first_error
                 [check_field ''wxpay notification missing appid'' ''wxpay appid mismatch'' (ps_MerchantAppID snapshot) (got ''appid''),
                  check_field ''wxpay notification missing mchid'' ''wxpay mchid mismatch'' (ps_MerchantID snapshot) (got ''mchid''),
                  check_field ''wxpay notification missing currency'' ''wxpay currency mismatch'' (ps_Currency snapshot)
                    (to_upper (got ''currency'')),
                  check_state ''wxpay trade_state mismatch'' ''SUCCESS'' (got ''trade_state'')]
             else if key = TypeAlipay then
               check_field ''alipay app_id missing'' ''alipay app_id mismatch'' (ps_MerchantAppID snapshot) (got ''app_id'')
             else if key = TypeEasyPay then
               check_field ''easypay pid missing'' ''easypay pid mismatch'' (ps_MerchantID snapshot) (got ''pid'')
             else if key = TypeStripe then
               check_field ''stripe notification missing currency'' ''stripe currency mismatch'' (ps_Currency snapshot)
                 (to_upper (got ''currency''))
             else if key = TypeAirwallex then
               first_error
                 [check_field ''airwallex account_id missing'' ''airwallex account_id mismatch'' (ps_MerchantID snapshot) (got ''account_id''),
                  check_field ''airwallex notification missing currency'' ''airwallex currency mismatch'' (ps_Currency snapshot)
                    (to_upper (got ''currency'')),
                  check_state ''airwallex status mismatch'' ''SUCCEEDED'' (got ''status'')]
             else None)"

end
