(* ===== verification/Payment_Fulfillment.thy ===== *)
theory Payment_Fulfillment
  imports Redeem Payment_Providers
begin

text \<open>
  From the notification of a provider to the credited order (\<open>service/payment_fulfillment.go\<close>): the order is found and
  the notification checked against it, the order becomes paid, is taken for fulfilment by one process, its balance is
  credited through a redeem code of its own or its subscription assigned, the rebate of the inviter is accrued in the
  transaction that claims it, and the order is completed; what fails is marked and can be retried. Columns with two
  decimals round what is written to them. E-mails and log lines are left out, the texts of errors stop before the
  numbers they quote, and an application error counts with its message.
\<close>

section \<open>Orders and their states\<close>

definition OrderStatusPending :: string where "OrderStatusPending = ''PENDING''"
definition OrderStatusPaid :: string where "OrderStatusPaid = ''PAID''"
definition OrderStatusRecharging :: string where "OrderStatusRecharging = ''RECHARGING''"
definition OrderStatusCompleted :: string where "OrderStatusCompleted = ''COMPLETED''"
definition OrderStatusExpired :: string where "OrderStatusExpired = ''EXPIRED''"
definition OrderStatusCancelled :: string where "OrderStatusCancelled = ''CANCELLED''"
definition OrderStatusFailed :: string where "OrderStatusFailed = ''FAILED''"
definition OrderStatusRefundRequested :: string where "OrderStatusRefundRequested = ''REFUND_REQUESTED''"
definition OrderStatusRefunding :: string where "OrderStatusRefunding = ''REFUNDING''"
definition OrderStatusPartiallyRefunded :: string where "OrderStatusPartiallyRefunded = ''PARTIALLY_REFUNDED''"
definition OrderStatusRefunded :: string where "OrderStatusRefunded = ''REFUNDED''"
definition OrderStatusRefundFailed :: string where "OrderStatusRefundFailed = ''REFUND_FAILED''"

lemmas order_statuses = OrderStatusPending_def OrderStatusPaid_def OrderStatusRecharging_def OrderStatusCompleted_def
  OrderStatusExpired_def OrderStatusCancelled_def OrderStatusFailed_def OrderStatusRefundRequested_def
  OrderStatusRefunding_def OrderStatusPartiallyRefunded_def OrderStatusRefunded_def OrderStatusRefundFailed_def

definition EntityStatusActive :: string where "EntityStatusActive = ''active''"
definition NotificationStatusSuccess :: string where "NotificationStatusSuccess = ''success''"

definition paymentGraceMinutes :: int where "paymentGraceMinutes = 5"
definition orderIDPrefix :: string where "orderIDPrefix = ''sub2_''"

definition psIsRefundStatus :: "string \<Rightarrow> bool" where
  "psIsRefundStatus s =
     (s = OrderStatusRefundRequested \<or> s = OrderStatusRefunding \<or> s = OrderStatusPartiallyRefunded
      \<or> s = OrderStatusRefunded \<or> s = OrderStatusRefundFailed)"

definition psErrMsg :: "go_error \<Rightarrow> string" where
  "psErrMsg err = (case err of OtherError m _ \<Rightarrow> m | ApplicationError _ _ m _ _ \<Rightarrow> m)"

text \<open>The payment service: the redeem service (with the affiliate service), the registry of providers by payment type,
  already loaded, with its entries in the order in which ranging over the map meets them, and how a provider is made from
  its instance. \<open>sv_json_order_id\<close> stands for \<open>encoding/json\<close>: the merchant order id in the body of an event, when it
  decodes.\<close>

record payment_service =
  sv_redeem :: redeem_config
  sv_registry :: "(string \<times> provider) list"
  sv_create_provider :: "PaymentProviderInstance \<Rightarrow> go_error + provider"
  sv_json_order_id :: "string \<Rightarrow> string option"

definition GetProviderKey :: "payment_service \<Rightarrow> string \<Rightarrow> string" where
  "GetProviderKey sv t = (case map_of (sv_registry sv) t of None \<Rightarrow> '''' | Some p \<Rightarrow> pv_ProviderKey p)"

definition isValidProviderAmount :: "rat option \<Rightarrow> bool" where
  "isValidProviderAmount amount = (case amount of None \<Rightarrow> False | Some a \<Rightarrow> 0 < a)"

section \<open>Completion and failure\<close>

definition in_status :: "int \<Rightarrow> string list \<Rightarrow> payment_order \<Rightarrow> bool" where
  "in_status oid statuses po = (po_ID po = oid \<and> po_Status po \<in> set statuses)"

definition markCompleted :: "pay_env \<Rightarrow> payment_order \<Rightarrow> string \<Rightarrow> pay_world \<Rightarrow> unit io" where
  "markCompleted e po auditAction w =
     (let t = now e w
      in attempt
           (update_orders e (in_status (po_ID po) [OrderStatusRecharging])
              (\<lambda>x. x\<lparr>po_Status := OrderStatusCompleted, po_CompletedAt := Some t\<rparr>) w)
           (\<lambda>err w. (Inl (errorf ''mark completed'' err), w))
           (\<lambda>_ w. (Inr (), writeAuditLog e (po_ID po) auditAction ''system'' w)))"

definition markFailed :: "pay_env \<Rightarrow> int \<Rightarrow> go_error \<Rightarrow> pay_world \<Rightarrow> pay_world" where
  "markFailed e oid cause w =
     (let t = now e w
      in attempt
           (update_orders e (in_status oid [OrderStatusRecharging])
              (\<lambda>x. x\<lparr>po_Status := OrderStatusFailed, po_FailedAt := Some t, po_FailedReason := Some (psErrMsg cause)\<rparr>) w)
           (\<lambda>_ w. w)
           (\<lambda>c w. if 0 < c then writeAuditLog e oid ''FULFILLMENT_FAILED'' ''system'' w else w))"

section \<open>The rebate of an order\<close>

definition affiliateRebateBaseAmount :: "payment_order \<Rightarrow> rat" where
  "affiliateRebateBaseAmount po =
     (if po_OrderType po = OrderTypeBalance \<or> po_OrderType po = OrderTypeSubscription then po_Amount po else 0)"

text \<open>The claim: an audit entry that only one transaction can write (\<open>ON CONFLICT DO NOTHING RETURNING id\<close>).\<close>

definition rebate_claimed :: "int \<Rightarrow> pay_db \<Rightarrow> bool" where
  "rebate_claimed oid db = (audited oid ''AFFILIATE_REBATE_APPLIED'' db \<or> audited oid ''AFFILIATE_REBATE_SKIPPED'' db)"

definition tryClaimAffiliateRebateAudit :: "pay_env \<Rightarrow> int \<Rightarrow> pay_world \<Rightarrow> bool io" where
  "tryClaimAffiliateRebateAudit e oid w =
     stmt e True (\<lambda>db. Inr (\<not> rebate_claimed oid db))
       (\<lambda>db. if rebate_claimed oid db then db else add_audit oid ''AFFILIATE_REBATE_APPLIED'' ''system'' (now e w) db) w"

definition updateClaimedAffiliateRebateAudit :: "pay_env \<Rightarrow> int \<Rightarrow> string \<Rightarrow> pay_world \<Rightarrow> unit io" where
  "updateClaimedAffiliateRebateAudit e oid action w =
     (let claim = (\<lambda>a. al_OrderID a = oid \<and> al_Action a = ''AFFILIATE_REBATE_APPLIED'')
      in attempt
           (stmt e True (\<lambda>db. Inr (length (filter claim (pd_audits db))))
              (\<lambda>db. db\<lparr>pd_audits := update_where claim (\<lambda>a. a\<lparr>al_Action := action, al_Operator := ''system''\<rparr>) (pd_audits db)\<rparr>) w)
           (\<lambda>err w. (Inl err, w))
           (\<lambda>updated w. if updated = 0 then (Inl (OtherError ''affiliate rebate claim log not found'' None), w)
              else (Inr (), w)))"

text \<open>A failure inside the transaction is logged through another connection before the transaction is rolled back.\<close>

definition rebate_failed :: "pay_env \<Rightarrow> int \<Rightarrow> string \<Rightarrow> go_error \<Rightarrow> pay_world \<Rightarrow> unit io" where
  "rebate_failed e oid msg err w =
     (Inl (errorf msg err), rollback (writeAuditLog e oid ''AFFILIATE_REBATE_FAILED'' ''system'' w))"

definition applyAffiliateRebateForOrder :: "pay_env \<Rightarrow> payment_service \<Rightarrow> payment_order \<Rightarrow> pay_world \<Rightarrow> unit io" where
  "applyAffiliateRebateForOrder e sv po w =
     (let baseAmount = affiliateRebateBaseAmount po; oid = po_ID po
      in if baseAmount \<le> 0 then (Inr (), w)
         else case cf_affiliate (sv_redeem sv) of
           None \<Rightarrow> (Inr (), w)
         | Some st \<Rightarrow>
             attempt (begin_tx e w) (rebate_failed e oid ''begin affiliate rebate tx'')
               (\<lambda>_ w. attempt (tryClaimAffiliateRebateAudit e oid w) (rebate_failed e oid ''claim affiliate rebate audit'')
                  (\<lambda>claimed w. if \<not> claimed then (Inr (), rollback w)
                     else attempt
                       (AccrueInviteRebateForOrder e st (cf_codes (sv_redeem sv)) True (po_UserID po) baseAmount (Some oid) w)
                       (rebate_failed e oid ''accrue affiliate rebate'')
                       (\<lambda>rebateAmount w.
                          attempt
                            (updateClaimedAffiliateRebateAudit e oid
                               (if rebateAmount \<le> 0 then ''AFFILIATE_REBATE_SKIPPED'' else ''AFFILIATE_REBATE_APPLIED'') w)
                            (rebate_failed e oid
                               (if rebateAmount \<le> 0 then ''update affiliate rebate skipped audit''
                                else ''update affiliate rebate applied audit''))
                            (\<lambda>_ w. attempt (commit_tx e w) (rebate_failed e oid ''commit affiliate rebate tx'')
                               (\<lambda>_ w. (Inr (), w)))))))"

section \<open>Balance orders\<close>

datatype redeemAction = redeemActionCreate | redeemActionRedeem | redeemActionSkipCompleted

definition resolveRedeemAction :: "go_error + RedeemCode \<Rightarrow> redeemAction" where
  "resolveRedeemAction existing =
     (case existing of
        Inl _ \<Rightarrow> redeemActionCreate
      | Inr c \<Rightarrow> if IsUsed c then redeemActionSkipCompleted else redeemActionRedeem)"

definition order_code :: "payment_order \<Rightarrow> RedeemCode" where
  "order_code po = \<lparr>rc_ID = 0, rc_Code = po_RechargeCode po, rc_Type = RedeemTypeBalance, rc_Value = po_Amount po,
     rc_Status = StatusUnused, rc_UsedBy = None, rc_UsedAt = None, rc_ExpiresAt = None, rc_GroupID = None, rc_ValidityDays = 0\<rparr>"

definition finish_balance :: "pay_env \<Rightarrow> payment_service \<Rightarrow> payment_order \<Rightarrow> pay_world \<Rightarrow> unit io" where
  "finish_balance e sv po w =
     attempt (applyAffiliateRebateForOrder e sv po w) (\<lambda>err w. (Inl err, w))
       (\<lambda>_ w. markCompleted e po ''RECHARGE_SUCCESS'' w)"

definition redeem_balance :: "pay_env \<Rightarrow> payment_service \<Rightarrow> payment_order \<Rightarrow> pay_world \<Rightarrow> unit io" where
  "redeem_balance e sv po w =
     attempt (Redeem e (sv_redeem sv) True (po_UserID po) (po_RechargeCode po) w)
       (\<lambda>err w. (Inl (errorf ''redeem balance'' err), w))
       (\<lambda>_ w. finish_balance e sv po w)"

definition doBalance :: "pay_env \<Rightarrow> payment_service \<Rightarrow> payment_order \<Rightarrow> pay_world \<Rightarrow> unit io" where
  "doBalance e sv po w =
     (case redeem_service_GetByCode e (po_RechargeCode po) w of (existing, w) \<Rightarrow>
        (case resolveRedeemAction existing of
           redeemActionSkipCompleted \<Rightarrow> finish_balance e sv po w
         | redeemActionCreate \<Rightarrow>
             attempt (CreateCode e (order_code po) w) (\<lambda>err w. (Inl (errorf ''create redeem code'' err), w))
               (\<lambda>_ w. redeem_balance e sv po w)
         | redeemActionRedeem \<Rightarrow> redeem_balance e sv po w))"

text \<open>The order is read, checked and taken: only one process moves it from paid or failed to recharging. \<open>fulfill\<close>
  then works with what was read.\<close>

definition cannot_fulfill :: "payment_order \<Rightarrow> go_error option" where
  "cannot_fulfill po =
     (if psIsRefundStatus (po_Status po) then Some (BadRequest ''INVALID_STATUS'' ''refund-related order cannot fulfill'')
      else if po_Status po \<noteq> OrderStatusPaid \<and> po_Status po \<noteq> OrderStatusFailed then
        Some (BadRequest ''INVALID_STATUS'' (''order cannot fulfill in status '' @ po_Status po))
      else None)"

definition take_order :: "pay_env \<Rightarrow> int \<Rightarrow> (pay_world \<Rightarrow> unit io) \<Rightarrow> pay_world \<Rightarrow> unit io" where
  "take_order e oid fulfill w =
     attempt
       (update_orders e (in_status oid [OrderStatusPaid, OrderStatusFailed]) (\<lambda>x. x\<lparr>po_Status := OrderStatusRecharging\<rparr>) w)
       (\<lambda>err w. (Inl (errorf ''lock'' err), w))
       (\<lambda>c w. if c = 0 then (Inr (), w)
          else attempt (fulfill w) (\<lambda>err w. (Inl err, markFailed e oid err w)) (\<lambda>_ w. (Inr (), w)))"

definition ExecuteBalanceFulfillment :: "pay_env \<Rightarrow> payment_service \<Rightarrow> int \<Rightarrow> pay_world \<Rightarrow> unit io" where
  "ExecuteBalanceFulfillment e sv oid w =
     attempt (get_order e oid w) (\<lambda>_ w. (Inl (NotFound ''NOT_FOUND'' ''order not found''), w))
       (\<lambda>po w. if po_Status po = OrderStatusCompleted then (Inr (), w)
          else case cannot_fulfill po of
            Some err \<Rightarrow> (Inl err, w)
          | None \<Rightarrow> take_order e oid (doBalance e sv po) w)"

section \<open>Subscription orders\<close>

definition assign_bought :: "pay_env \<Rightarrow> payment_service \<Rightarrow> payment_order \<Rightarrow> int \<Rightarrow> int \<Rightarrow> pay_world \<Rightarrow> unit io" where
  "assign_bought e sv po gid days w =
     attempt (AssignOrExtendSubscription e (cf_zone (sv_redeem sv)) False
         \<lparr>as_UserID = po_UserID po, as_GroupID = gid, as_ValidityDays = days, as_AssignedBy = 0,
          as_Notes = ''payment order '' @ itoa (po_ID po)\<rparr> w)
       (\<lambda>err w. (Inl (errorf ''assign subscription'' err), w))
       (\<lambda>_ w. (Inr (), writeAuditLog e (po_ID po) ''SUBSCRIPTION_ASSIGNED'' ''system'' w))"

text \<open>The second audit entry is only looked for when the first one is not there.\<close>

definition was_assigned :: "pay_env \<Rightarrow> int \<Rightarrow> pay_world \<Rightarrow> bool \<times> pay_world" where
  "was_assigned e oid w =
     (case hasAuditLog e oid ''SUBSCRIPTION_ASSIGNED'' w of
        (True, w) \<Rightarrow> (True, w) | (False, w) \<Rightarrow> hasAuditLog e oid ''SUBSCRIPTION_SUCCESS'' w)"

definition doSub :: "pay_env \<Rightarrow> payment_service \<Rightarrow> payment_order \<Rightarrow> int \<Rightarrow> int \<Rightarrow> pay_world \<Rightarrow> unit io" where
  "doSub e sv po gid days w =
     (let gone = OtherError (''group '' @ itoa gid @ '' no longer exists or inactive'') None
      in attempt (get_group e gid w) (\<lambda>_ w. (Inl gone, w))
           (\<lambda>g w. if pg_Status g \<noteq> EntityStatusActive then (Inl gone, w)
              else case was_assigned e (po_ID po) w of (assigned, w) \<Rightarrow>
                attempt (if \<not> assigned then assign_bought e sv po gid days w else (Inr (), w)) (\<lambda>err w. (Inl err, w))
                  (\<lambda>_ w. attempt (applyAffiliateRebateForOrder e sv po w) (\<lambda>err w. (Inl err, w))
                     (\<lambda>_ w. markCompleted e po ''SUBSCRIPTION_SUCCESS'' w))))"

definition ExecuteSubscriptionFulfillment :: "pay_env \<Rightarrow> payment_service \<Rightarrow> int \<Rightarrow> pay_world \<Rightarrow> unit io" where
  "ExecuteSubscriptionFulfillment e sv oid w =
     attempt (get_order e oid w) (\<lambda>_ w. (Inl (NotFound ''NOT_FOUND'' ''order not found''), w))
       (\<lambda>po w. if po_Status po = OrderStatusCompleted then (Inr (), w)
          else case cannot_fulfill po of
            Some err \<Rightarrow> (Inl err, w)
          | None \<Rightarrow>
              (case (po_SubscriptionGroupID po, po_SubscriptionDays po) of
                 (Some gid, Some days) \<Rightarrow> take_order e oid (doSub e sv po gid days) w
               | _ \<Rightarrow> (Inl (BadRequest ''INVALID_STATUS'' ''missing subscription info''), w)))"

definition executeFulfillment :: "pay_env \<Rightarrow> payment_service \<Rightarrow> int \<Rightarrow> pay_world \<Rightarrow> unit io" where
  "executeFulfillment e sv oid w =
     attempt (get_order e oid w) (\<lambda>err w. (Inl (errorf ''get order'' err), w))
       (\<lambda>po w. if po_OrderType po = OrderTypeSubscription then ExecuteSubscriptionFulfillment e sv oid w
          else ExecuteBalanceFulfillment e sv oid w)"

section \<open>Notifications\<close>

definition alreadyProcessed :: "pay_env \<Rightarrow> payment_service \<Rightarrow> payment_order \<Rightarrow> pay_world \<Rightarrow> unit io" where
  "alreadyProcessed e sv po w =
     attempt (get_order e (po_ID po) w) (\<lambda>_ w. (Inr (), w))
       (\<lambda>cur w.
          if po_Status cur = OrderStatusCompleted \<or> po_Status cur = OrderStatusRefunded then (Inr (), w)
          else if po_Status cur = OrderStatusFailed then executeFulfillment e sv (po_ID po) w
          else if po_Status cur = OrderStatusPaid \<or> po_Status cur = OrderStatusRecharging then
            (Inl (OtherError (''order '' @ itoa (po_ID po) @ '' is being processed'') None), w)
          else if po_Status cur = OrderStatusExpired then
            (Inr (), writeAuditLog e (po_ID po) ''PAYMENT_AFTER_EXPIRY'' ''system'' w)
          else (Inr (), w))"

text \<open>An order can be paid while it is pending or cancelled, and for a while after it has expired.\<close>

definition payable :: "int \<Rightarrow> time \<Rightarrow> payment_order \<Rightarrow> bool" where
  "payable oid grace po =
     (po_ID po = oid
      \<and> (po_Status po = OrderStatusPending \<or> po_Status po = OrderStatusCancelled
         \<or> po_Status po = OrderStatusExpired \<and> grace \<le> po_UpdatedAt po))"

definition paid_order :: "rat \<Rightarrow> string \<Rightarrow> time \<Rightarrow> payment_order \<Rightarrow> payment_order" where
  "paid_order paid tradeNo t po =
     po\<lparr>po_Status := OrderStatusPaid, po_PayAmount := decimal_Round 2 paid, po_PaymentTradeNo := tradeNo,
        po_PaidAt := Some t, po_FailedAt := None, po_FailedReason := None\<rparr>"

definition toPaid :: "pay_env \<Rightarrow> payment_service \<Rightarrow> payment_order \<Rightarrow> string \<Rightarrow> rat \<Rightarrow> string \<Rightarrow> pay_world \<Rightarrow> unit io" where
  "toPaid e sv po tradeNo paid pk w =
     (let t = now e w; grace = t - paymentGraceMinutes * Minute
      in attempt (update_orders e (payable (po_ID po) grace) (paid_order paid tradeNo t) w)
           (\<lambda>err w. (Inl (errorf ''update to PAID'' err), w))
           (\<lambda>c w. if c = 0 then alreadyProcessed e sv po w
              else
                let w = (if po_Status po = OrderStatusCancelled \<or> po_Status po = OrderStatusExpired
                         then writeAuditLog e (po_ID po) ''ORDER_RECOVERED'' pk w else w);
                    w = writeAuditLog e (po_ID po) ''ORDER_PAID'' pk w
                in executeFulfillment e sv (po_ID po) w))"

definition order_instance_key :: "pay_env \<Rightarrow> payment_order \<Rightarrow> pay_world \<Rightarrow> string \<times> pay_world" where
  "order_instance_key e po w =
     (case getOrderProviderInstance e po w of
        (Inr (Some inst), w) \<Rightarrow> (pi_ProviderKey inst, w) | (_, w) \<Rightarrow> ('''', w))"

definition confirmPayment ::
  "pay_env \<Rightarrow> payment_service \<Rightarrow> int \<Rightarrow> string \<Rightarrow> rat option \<Rightarrow> string \<Rightarrow> (string \<times> string) list \<Rightarrow> pay_world \<Rightarrow> unit io" where
  "confirmPayment e sv oid tradeNo paid pk metadata w =
     attempt (get_order e oid w) (\<lambda>_ w. (Inr (), w))
       (\<lambda>po w. case order_instance_key e po w of (instanceProviderKey, w) \<Rightarrow>
          let expected = expectedNotificationProviderKeyForOrder (GetProviderKey sv) po instanceProviderKey
          in if expected \<noteq> '''' \<and> trim_space pk \<noteq> '''' \<and> \<not> EqualFold expected (trim_space pk) then
               (Inl (OtherError (''provider mismatch: expected '' @ expected @ '', got '' @ pk) None),
                writeAuditLog e (po_ID po) ''PAYMENT_PROVIDER_MISMATCH'' pk w)
             else case validateProviderSnapshotMetadata po pk metadata of
               Some err \<Rightarrow> (Inl err, writeAuditLog e (po_ID po) ''PAYMENT_PROVIDER_METADATA_MISMATCH'' pk w)
             | None \<Rightarrow>
                 (case paid of
                    Some amount \<Rightarrow>
                      if \<not> isValidProviderAmount paid then
                        (Inl (OtherError ''invalid paid amount from provider'' None),
                         writeAuditLog e (po_ID po) ''PAYMENT_INVALID_AMOUNT'' pk w)
                      else if paymentAmountToleranceForCurrency (PaymentOrderCurrency po) < \<bar>amount - po_PayAmount po\<bar> then
                        (Inl (OtherError ''amount mismatch'' None), writeAuditLog e (po_ID po) ''PAYMENT_AMOUNT_MISMATCH'' pk w)
                      else toPaid e sv po tradeNo amount pk w
                  | None \<Rightarrow>
                      (Inl (OtherError ''invalid paid amount from provider'' None),
                       writeAuditLog e (po_ID po) ''PAYMENT_INVALID_AMOUNT'' pk w)))"

definition order_by_out_trade_no :: "pay_env \<Rightarrow> string \<Rightarrow> pay_world \<Rightarrow> payment_order io" where
  "order_by_out_trade_no e outTradeNo w =
     stmt e False (\<lambda>db. case filter (\<lambda>po. po_OutTradeNo po = outTradeNo) (pd_orders db) of
         [] \<Rightarrow> Inl ent_order_not_found
       | [po] \<Rightarrow> Inr po
       | _ \<Rightarrow> Inl (OtherError ''ent: payment_order not singular'' None)) (\<lambda>db. db) w"

text \<open>ent's \<open>IsNotFound\<close> looks for a \<open>NotFoundError\<close>, which reads \<open>ent: <label> not found\<close>, along the chain of wrapped
  errors.\<close>

definition is_not_found_text :: "string \<Rightarrow> bool" where
  "is_not_found_text m = (take 5 m = ''ent: '' \<and> drop (length m - 10) m = '' not found'')"

fun ent_IsNotFound :: "go_error \<Rightarrow> bool" where
  "ent_IsNotFound (ApplicationError _ _ _ _ None) = False"
| "ent_IsNotFound (ApplicationError _ _ _ _ (Some err)) = ent_IsNotFound err"
| "ent_IsNotFound (OtherError m None) = is_not_found_text m"
| "ent_IsNotFound (OtherError m (Some err)) = ent_IsNotFound err"

text \<open>Orders of an early format carry their database id instead of a trade number.\<close>

definition parseLegacyPaymentOrderID :: "string \<Rightarrow> go_error \<Rightarrow> int option" where
  "parseLegacyPaymentOrderID orderID lookupErr =
     (let s = trim_space orderID; trimmed = drop (length orderIDPrefix) s
      in if \<not> ent_IsNotFound lookupErr then None
         else if take (length orderIDPrefix) s \<noteq> orderIDPrefix then None
         else if trimmed = '''' \<or> trimmed = s then None
         else case atoi trimmed of None \<Rightarrow> None | Some oid \<Rightarrow> if oid \<le> 0 then None else Some oid)"

definition ErrOrderNotFound :: go_error where "ErrOrderNotFound = OtherError ''payment order not found'' None"

definition HandlePaymentNotification :: "pay_env \<Rightarrow> payment_service \<Rightarrow> PaymentNotification \<Rightarrow> string \<Rightarrow> pay_world \<Rightarrow> unit io" where
  "HandlePaymentNotification e sv n pk w =
     (if nt_Status n \<noteq> NotificationStatusSuccess then (Inr (), w)
      else attempt (order_by_out_trade_no e (nt_OrderID n) w)
        (\<lambda>err w. case parseLegacyPaymentOrderID (nt_OrderID n) err of
           Some oid \<Rightarrow> confirmPayment e sv oid (nt_TradeNo n) (nt_Amount n) pk (nt_Metadata n) w
         | None \<Rightarrow>
             if ent_IsNotFound err then
               (Inl (OtherError (oe_Error ErrOrderNotFound @ '': out_trade_no='' @ nt_OrderID n) (Some ErrOrderNotFound)), w)
             else (Inl (errorf (''lookup order failed for out_trade_no '' @ nt_OrderID n) err), w))
        (\<lambda>po w. confirmPayment e sv (po_ID po) (nt_TradeNo n) (nt_Amount n) pk (nt_Metadata n) w))"

section \<open>Retries by the administrator\<close>

definition cannot_retry :: "payment_order \<Rightarrow> go_error option" where
  "cannot_retry po =
     (if po_PaidAt po = None then Some (BadRequest ''INVALID_STATUS'' ''order is not paid'')
      else if psIsRefundStatus (po_Status po) then Some (BadRequest ''INVALID_STATUS'' ''refund-related order cannot retry'')
      else if po_Status po = OrderStatusRecharging then Some (Conflict ''CONFLICT'' ''order is being processed'')
      else if po_Status po = OrderStatusCompleted then Some (BadRequest ''INVALID_STATUS'' ''order already completed'')
      else if po_Status po \<noteq> OrderStatusFailed \<and> po_Status po \<noteq> OrderStatusPaid then
        Some (BadRequest ''INVALID_STATUS'' ''only paid and failed orders can retry'')
      else None)"

definition RetryFulfillment :: "pay_env \<Rightarrow> payment_service \<Rightarrow> int \<Rightarrow> pay_world \<Rightarrow> unit io" where
  "RetryFulfillment e sv oid w =
     attempt (get_order e oid w) (\<lambda>_ w. (Inl (NotFound ''NOT_FOUND'' ''order not found''), w))
       (\<lambda>po w. case cannot_retry po of
          Some err \<Rightarrow> (Inl err, w)
        | None \<Rightarrow>
            attempt
              (update_orders e (in_status oid [OrderStatusFailed, OrderStatusPaid])
                 (\<lambda>x. x\<lparr>po_Status := OrderStatusPaid, po_FailedAt := None, po_FailedReason := None\<rparr>) w)
              (\<lambda>err w. (Inl (errorf ''reset for retry'' err), w))
              (\<lambda>_ w. executeFulfillment e sv oid (writeAuditLog e oid ''RECHARGE_RETRY'' ''admin'' w)))"

end
