(* ===== verification/Payment_Lifecycle.thy ===== *)
theory Payment_Lifecycle
  imports Payment_Fulfillment
begin

text \<open>
  Orders that are not paid in time (\<open>service/payment_order_lifecycle.go\<close> and the lookup of an order's provider in
  \<open>payment_webhook_provider.go\<close>): before an order is cancelled or expires, and when a user or the sweeper asks, the
  provider is queried, and a payment it reports is handled like a notification. A call of a provider is a numbered call
  like one of the database and fails in the same ways. A provider that reports no error returns an order: the missing
  response that the code would crash on has no counterpart here.
\<close>

section \<open>The provider of an order\<close>

definition ErrProviderNotFound :: go_error where
  "ErrProviderNotFound = NotFound ''PROVIDER_NOT_FOUND'' ''payment provider not registered''"

text \<open>Reading and decrypting the configuration of the instance, then building the provider.\<close>

definition createProviderFromInstance :: "pay_env \<Rightarrow> payment_service \<Rightarrow> PaymentProviderInstance \<Rightarrow> pay_world \<Rightarrow> provider io" where
  "createProviderFromInstance e sv inst w = stmt e False (\<lambda>_. sv_create_provider sv inst) (\<lambda>db. db) w"

definition webhookRegistryFallbackAllowed :: "pay_env \<Rightarrow> string \<Rightarrow> pay_world \<Rightarrow> bool \<times> pay_world" where
  "webhookRegistryFallbackAllowed e providerKey w =
     (let key = trim_space providerKey
      in if key = '''' then (False, w)
         else attempt
           (stmt e False (\<lambda>db. Inr (length (filter (\<lambda>i. pi_ProviderKey i = key \<and> pi_Enabled i) (pd_instances db)))) (\<lambda>db. db) w)
           (\<lambda>_ w. (False, w)) (\<lambda>count w. (count \<le> 1, w)))"

definition paymentOrderAllowsRegistryFallback :: "payment_order \<Rightarrow> bool" where
  "paymentOrderAllowsRegistryFallback po =
     (if psOrderProviderSnapshot po \<noteq> None then False
      else if trim_space (psStringValue (po_ProviderInstanceID po)) \<noteq> '''' then False
      else trim_space (psStringValue (po_ProviderKey po)) = '''')"

definition paymentOrderFallbackProviderKey :: "payment_service \<Rightarrow> payment_order \<Rightarrow> string" where
  "paymentOrderFallbackProviderKey sv po =
     (let key = trim_space (GetProviderKey sv (po_PaymentType po))
      in if key \<noteq> '''' then key else trim_space (GetBasePaymentType (trim_space (po_PaymentType po))))"

definition getOrderProvider :: "pay_env \<Rightarrow> payment_service \<Rightarrow> payment_order \<Rightarrow> pay_world \<Rightarrow> provider io" where
  "getOrderProvider e sv po w =
     attempt (getOrderProviderInstance e po w) (\<lambda>err w. (Inl (errorf ''load order provider instance'' err), w))
       (\<lambda>inst w. case inst of
          Some inst \<Rightarrow> createProviderFromInstance e sv inst w
        | None \<Rightarrow>
            let failure = (\<lambda>m. Inl (OtherError (''order '' @ itoa (po_ID po) @ m) None));
                key = paymentOrderFallbackProviderKey sv po
            in if \<not> paymentOrderAllowsRegistryFallback po then (failure '' provider instance is unresolved'', w)
               else if key = '''' then (failure '' provider fallback key is missing'', w)
               else case webhookRegistryFallbackAllowed e key w of (allowed, w) \<Rightarrow>
                 if \<not> allowed then (failure ('' provider fallback is ambiguous for '' @ key), w)
                 else case map_of (sv_registry sv) (po_PaymentType po) of
                   None \<Rightarrow> (Inl ErrProviderNotFound, w) | Some prov \<Rightarrow> (Inr prov, w))"

definition psHasPinnedProviderInstance :: "payment_order \<Rightarrow> bool" where
  "psHasPinnedProviderInstance po =
     (psOrderProviderSnapshot po \<noteq> None
      \<or> (case po_ProviderInstanceID po of None \<Rightarrow> False | Some s \<Rightarrow> trim_space s \<noteq> ''''))"

definition getPinnedOrderProvider :: "pay_env \<Rightarrow> payment_service \<Rightarrow> payment_order \<Rightarrow> pay_world \<Rightarrow> provider io" where
  "getPinnedOrderProvider e sv po w =
     attempt (getOrderProviderInstance e po w) (\<lambda>err w. (Inl (errorf ''load order provider instance'' err), w))
       (\<lambda>inst w. case inst of
          None \<Rightarrow> (Inl (OtherError (''order '' @ itoa (po_ID po) @ '' provider instance is missing'') None), w)
        | Some inst \<Rightarrow> createProviderFromInstance e sv inst w)"

section \<open>Asking the provider\<close>

definition ProviderStatusPaid :: string where "ProviderStatusPaid = ''paid''"
definition ProviderStatusPending :: string where "ProviderStatusPending = ''pending''"
definition ProviderStatusSuccess :: string where "ProviderStatusSuccess = ''success''"
definition ProviderStatusFailed :: string where "ProviderStatusFailed = ''failed''"
definition ProviderStatusRefunded :: string where "ProviderStatusRefunded = ''refunded''"

definition checkPaidResultAlreadyPaid :: string where "checkPaidResultAlreadyPaid = ''already_paid''"
definition checkPaidResultCancelled :: string where "checkPaidResultCancelled = ''cancelled''"

definition query_provider :: "pay_env \<Rightarrow> provider \<Rightarrow> string \<Rightarrow> pay_world \<Rightarrow> QueryOrderResponse io" where
  "query_provider e prov queryRef w = stmt e False (\<lambda>_. pv_QueryOrder prov (pw_calls w) queryRef) (\<lambda>db. db) w"

definition requeryPaidOrderOnce :: "pay_env \<Rightarrow> provider \<Rightarrow> string \<Rightarrow> pay_world \<Rightarrow> QueryOrderResponse option \<times> pay_world" where
  "requeryPaidOrderOnce e prov queryRef w =
     (if trim_space queryRef = '''' then (None, w)
      else attempt (query_provider e prov queryRef w) (\<lambda>_ w. (None, w))
        (\<lambda>resp w.
           (if qr_Status resp \<noteq> ProviderStatusPaid \<or> \<not> isValidProviderAmount (qr_Amount resp) then None else Some resp, w)))"

definition paymentOrderQueryReference :: "payment_order \<Rightarrow> provider \<Rightarrow> string" where
  "paymentOrderQueryReference po prov =
     (let key = trim_space (pv_ProviderKey prov);
          key = (if key = '''' then (case psOrderProviderSnapshot po of None \<Rightarrow> '''' | Some s \<Rightarrow> trim_space (ps_ProviderKey s)) else key);
          key = (if key = '''' then trim_space (psStringValue (po_ProviderKey po)) else key);
          key = (if key = '''' then trim_space (po_PaymentType po) else key)
      in if GetBasePaymentType key \<in> {TypeAlipay, TypeEasyPay, TypeWxpay} then trim_space (po_OutTradeNo po)
         else if trim_space (po_PaymentTradeNo po) \<noteq> '''' then trim_space (po_PaymentTradeNo po)
         else trim_space (po_OutTradeNo po))"

definition paymentOrderShouldPersistUpstreamTradeNo :: "string \<Rightarrow> string \<Rightarrow> string \<Rightarrow> bool" where
  "paymentOrderShouldPersistUpstreamTradeNo queryRef upstreamTradeNo currentTradeNo =
     (let upstream = trim_space upstreamTradeNo
      in if upstream = '''' then False
         else if EqualFold upstream (trim_space currentTradeNo) then False
         else \<not> EqualFold upstream (trim_space queryRef))"

text \<open>The trade number the provider reports is stored on the order before the payment is handled.\<close>

definition settle_paid ::
  "pay_env \<Rightarrow> payment_service \<Rightarrow> payment_order \<Rightarrow> provider \<Rightarrow> string \<Rightarrow> QueryOrderResponse \<Rightarrow> pay_world \<Rightarrow> string \<times> pay_world" where
  "settle_paid e sv po prov queryRef resp w =
     (let upstream = trim_space (qr_TradeNo resp);
          persist = paymentOrderShouldPersistUpstreamTradeNo queryRef upstream (po_PaymentTradeNo po);
          w = (if persist
               then snd (update_orders e (\<lambda>x. po_ID x = po_ID po) (\<lambda>x. x\<lparr>po_PaymentTradeNo := upstream\<rparr>) w) else w);
          n = \<lparr>nt_TradeNo = (if persist then upstream else po_PaymentTradeNo po), nt_OrderID = po_OutTradeNo po,
               nt_Amount = qr_Amount resp, nt_Status = ProviderStatusSuccess, nt_Metadata = qr_Metadata resp\<rparr>
      in (checkPaidResultAlreadyPaid, snd (HandlePaymentNotification e sv n (pv_ProviderKey prov) w)))"

definition cancel_upstream :: "pay_env \<Rightarrow> bool \<Rightarrow> provider \<Rightarrow> string \<Rightarrow> pay_world \<Rightarrow> string \<times> pay_world" where
  "cancel_upstream e cancelIfUnpaid prov queryRef w =
     (if \<not> cancelIfUnpaid then ('''', w)
      else case pv_CancelPayment prov of
        None \<Rightarrow> ('''', w)
      | Some cancel \<Rightarrow>
          ('''', snd (stmt e False (\<lambda>_. case cancel (pw_calls w) queryRef of Some err \<Rightarrow> Inl err | None \<Rightarrow> Inr ()) (\<lambda>db. db) w)))"

definition checkPaidWithOptions ::
  "pay_env \<Rightarrow> payment_service \<Rightarrow> payment_order \<Rightarrow> bool \<Rightarrow> pay_world \<Rightarrow> string \<times> pay_world" where
  "checkPaidWithOptions e sv po cancelIfUnpaid w =
     attempt (getOrderProvider e sv po w) (\<lambda>_ w. ('''', w))
       (\<lambda>prov w.
          let queryRef = paymentOrderQueryReference po prov
          in if queryRef = '''' then ('''', w)
             else attempt (query_provider e prov queryRef w) (\<lambda>_ w. ('''', w))
               (\<lambda>resp w.
                  if qr_Status resp \<noteq> ProviderStatusPaid then cancel_upstream e cancelIfUnpaid prov queryRef w
                  else if isValidProviderAmount (qr_Amount resp) then settle_paid e sv po prov queryRef resp w
                  else
                    (case requeryPaidOrderOnce e prov queryRef
                            (writeAuditLog e (po_ID po) ''PAYMENT_INVALID_AMOUNT'' (pv_ProviderKey prov) w) of
                       (None, w) \<Rightarrow> ('''', w)
                     | (Some resp, w) \<Rightarrow> settle_paid e sv po prov queryRef resp w)))"

definition checkPaid :: "pay_env \<Rightarrow> payment_service \<Rightarrow> payment_order \<Rightarrow> pay_world \<Rightarrow> string \<times> pay_world" where
  "checkPaid e sv po w = checkPaidWithOptions e sv po True w"

definition reconcilePaid :: "pay_env \<Rightarrow> payment_service \<Rightarrow> payment_order \<Rightarrow> pay_world \<Rightarrow> string \<times> pay_world" where
  "reconcilePaid e sv po w = checkPaidWithOptions e sv po False w"

section \<open>Cancelling and expiring\<close>

record cancel_limit =
  cl_Enabled :: bool
  cl_Max :: int
  cl_Window :: int
  cl_Unit :: string
  cl_Mode :: string
  cl_Zone :: duration

definition cancelRateLimitWindowStart :: "cancel_limit \<Rightarrow> time \<Rightarrow> time" where
  "cancelRateLimitWindowStart cfg t =
     (let n = (if cl_Window cfg \<le> 0 then 1 else cl_Window cfg); unit = (if cl_Unit cfg = '''' then ''day'' else cl_Unit cfg)
      in if cl_Mode cfg = ''fixed'' then
           (if unit = ''minute'' then t - t mod Minute - (n - 1) * Minute
            else if unit = ''day'' then startOfDay (cl_Zone cfg) t - (n - 1) * Day
            else t - t mod Hour - (n - 1) * Hour)
         else if unit = ''minute'' then t - n * Minute
         else if unit = ''day'' then t - n * Day
         else t - n * Hour)"

definition checkCancelRateLimit :: "pay_env \<Rightarrow> int \<Rightarrow> cancel_limit \<Rightarrow> pay_world \<Rightarrow> unit io" where
  "checkCancelRateLimit e uid cfg w =
     (if \<not> cl_Enabled cfg \<or> cl_Max cfg \<le> 0 then (Inr (), w)
      else
        let windowStart = cancelRateLimitWindowStart cfg (now e w); operator = ''user:'' @ itoa uid
        in attempt
             (stmt e False
                (\<lambda>db. Inr (length (filter (\<lambda>a. al_Action a = ''ORDER_CANCELLED'' \<and> al_Operator a = operator
                                                \<and> windowStart \<le> al_CreatedAt a) (pd_audits db)))) (\<lambda>db. db) w)
             (\<lambda>_ w. (Inr (), w))
             (\<lambda>count w. if cl_Max cfg \<le> int count then
                (Inl (WithMetadata (TooManyRequests ''CANCEL_RATE_LIMITED'' ''cancel rate limited'')
                   (Some [''max'' \<mapsto> itoa (cl_Max cfg), ''window'' \<mapsto> itoa (cl_Window cfg), ''unit'' \<mapsto> cl_Unit cfg])), w)
                else (Inr (), w)))"

definition cancelCore :: "pay_env \<Rightarrow> payment_service \<Rightarrow> payment_order \<Rightarrow> string \<Rightarrow> string \<Rightarrow> pay_world \<Rightarrow> string io" where
  "cancelCore e sv po fs op w =
     (case (if po_PaymentTradeNo po \<noteq> '''' \<or> po_PaymentType po \<noteq> '''' then checkPaid e sv po w else ('''', w)) of
        (outcome, w) \<Rightarrow>
          if outcome = checkPaidResultAlreadyPaid then (Inr checkPaidResultAlreadyPaid, w)
          else attempt (update_orders e (in_status (po_ID po) [OrderStatusPending]) (\<lambda>x. x\<lparr>po_Status := fs\<rparr>) w)
            (\<lambda>err w. (Inl (errorf ''update order status'' err), w))
            (\<lambda>c w. (Inr checkPaidResultCancelled,
               if 0 < c
               then writeAuditLog e (po_ID po) (if fs = OrderStatusExpired then ''ORDER_EXPIRED'' else ''ORDER_CANCELLED'') op w
               else w)))"

definition CancelOrder :: "pay_env \<Rightarrow> payment_service \<Rightarrow> int \<Rightarrow> int \<Rightarrow> pay_world \<Rightarrow> string io" where
  "CancelOrder e sv oid uid w =
     attempt (get_order e oid w) (\<lambda>_ w. (Inl (NotFound ''NOT_FOUND'' ''order not found''), w))
       (\<lambda>po w. if po_UserID po \<noteq> uid then (Inl (Forbidden ''FORBIDDEN'' ''no permission for this order''), w)
          else if po_Status po \<noteq> OrderStatusPending then
            (Inl (BadRequest ''INVALID_STATUS'' ''order cannot be cancelled in current status''), w)
          else cancelCore e sv po OrderStatusCancelled (''user:'' @ itoa uid) w)"

definition AdminCancelOrder :: "pay_env \<Rightarrow> payment_service \<Rightarrow> int \<Rightarrow> pay_world \<Rightarrow> string io" where
  "AdminCancelOrder e sv oid w =
     attempt (get_order e oid w) (\<lambda>_ w. (Inl (NotFound ''NOT_FOUND'' ''order not found''), w))
       (\<lambda>po w. if po_Status po \<noteq> OrderStatusPending then
            (Inl (BadRequest ''INVALID_STATUS'' ''order cannot be cancelled in current status''), w)
          else cancelCore e sv po OrderStatusCancelled ''admin'' w)"

text \<open>The sweepers go through the orders they found, which the table lists in the order of their creation; the number of expired and of recovered orders is returned.\<close>

fun expire_orders :: "pay_env \<Rightarrow> payment_service \<Rightarrow> payment_order list \<Rightarrow> nat \<Rightarrow> pay_world \<Rightarrow> nat \<times> pay_world" where
  "expire_orders e sv [] n w = (n, w)"
| "expire_orders e sv (po # pos) n w =
     (case cancelCore e sv po OrderStatusExpired ''system'' w of
        (Inl _, w) \<Rightarrow> expire_orders e sv pos n w
      | (Inr outcome, w) \<Rightarrow>
          expire_orders e sv pos (if outcome = checkPaidResultAlreadyPaid then n else if outcome \<noteq> '''' then Suc n else n) w)"

definition ExpireTimedOutOrders :: "pay_env \<Rightarrow> payment_service \<Rightarrow> pay_world \<Rightarrow> nat io" where
  "ExpireTimedOutOrders e sv w =
     (let t = now e w
      in attempt
           (stmt e False (\<lambda>db. Inr (filter (\<lambda>po. po_Status po = OrderStatusPending \<and> po_ExpiresAt po \<le> t) (pd_orders db))) (\<lambda>db. db) w)
           (\<lambda>err w. (Inl (errorf ''query expired'' err), w))
           (\<lambda>pos w. case expire_orders e sv pos 0 w of (n, w) \<Rightarrow> (Inr n, w)))"

definition pendingWxpayReconcileLimit :: nat where "pendingWxpayReconcileLimit = 20"

definition is_wxpay :: "payment_order \<Rightarrow> bool" where
  "is_wxpay po =
     (let wx = (\<lambda>s. s = TypeWxpay \<or> take (length TypeWxpay + 1) s = TypeWxpay @ ''_'')
      in wx (po_PaymentType po) \<or> (case po_ProviderKey po of None \<Rightarrow> False | Some k \<Rightarrow> wx k))"

fun reconcile_orders :: "pay_env \<Rightarrow> payment_service \<Rightarrow> payment_order list \<Rightarrow> nat \<Rightarrow> pay_world \<Rightarrow> nat \<times> pay_world" where
  "reconcile_orders e sv [] n w = (n, w)"
| "reconcile_orders e sv (po # pos) n w =
     (case reconcilePaid e sv po w of
        (outcome, w) \<Rightarrow> reconcile_orders e sv pos (if outcome = checkPaidResultAlreadyPaid then Suc n else n) w)"

definition ReconcilePendingWxpayOrders :: "pay_env \<Rightarrow> payment_service \<Rightarrow> pay_world \<Rightarrow> nat io" where
  "ReconcilePendingWxpayOrders e sv w =
     (let t = now e w
      in attempt
           (stmt e False
              (\<lambda>db. Inr (take pendingWxpayReconcileLimit
                 (filter (\<lambda>po. po_Status po = OrderStatusPending \<and> t < po_ExpiresAt po \<and> is_wxpay po) (pd_orders db)))) (\<lambda>db. db) w)
           (\<lambda>err w. (Inl (errorf ''query pending wxpay orders'' err), w))
           (\<lambda>pos w. case reconcile_orders e sv pos 0 w of (n, w) \<Rightarrow> (Inr n, w)))"

section \<open>Verification on demand\<close>

definition invalid_out_trade_no :: "string \<Rightarrow> go_error" where
  "invalid_out_trade_no m = BadRequest ''INVALID_OUT_TRADE_NO'' m"

definition trade_no_char :: "char \<Rightarrow> bool" where
  "trade_no_char c =
     (97 \<le> byte c \<and> byte c \<le> 122 \<or> 65 \<le> byte c \<and> byte c \<le> 90 \<or> 48 \<le> byte c \<and> byte c \<le> 57 \<or> c = CHR ''_'' \<or> c = CHR ''-'')"

definition normalizeOrderLookupOutTradeNo :: "string \<Rightarrow> go_error + string" where
  "normalizeOrderLookupOutTradeNo raw =
     (let s = trim_space raw
      in if s = '''' then Inl (invalid_out_trade_no ''out_trade_no is required'')
         else if 64 < length s then Inl (invalid_out_trade_no ''out_trade_no is invalid'')
         else if \<not> list_all trade_no_char s then Inl (invalid_out_trade_no ''out_trade_no is invalid'')
         else Inr s)"

definition VerifyOrderByOutTradeNo :: "pay_env \<Rightarrow> payment_service \<Rightarrow> string \<Rightarrow> int \<Rightarrow> pay_world \<Rightarrow> payment_order io" where
  "VerifyOrderByOutTradeNo e sv raw uid w =
     (case normalizeOrderLookupOutTradeNo raw of
        Inl err \<Rightarrow> (Inl err, w)
      | Inr outTradeNo \<Rightarrow>
          attempt (order_by_out_trade_no e outTradeNo w) (\<lambda>_ w. (Inl (NotFound ''NOT_FOUND'' ''order not found''), w))
            (\<lambda>po w. if po_UserID po \<noteq> uid then (Inl (Forbidden ''FORBIDDEN'' ''no permission for this order''), w)
               else if po_Status po = OrderStatusPending \<or> po_Status po = OrderStatusExpired then
                 (case reconcilePaid e sv po w of (result, w) \<Rightarrow>
                    if result = checkPaidResultAlreadyPaid then
                      attempt (get_order e (po_ID po) w) (\<lambda>err w. (Inl (errorf ''reload order'' err), w)) (\<lambda>po w. (Inr po, w))
                    else (Inr po, w))
               else (Inr po, w)))"

definition VerifyOrderPublic :: "pay_env \<Rightarrow> string \<Rightarrow> pay_world \<Rightarrow> payment_order io" where
  "VerifyOrderPublic e raw w =
     (case normalizeOrderLookupOutTradeNo raw of
        Inl err \<Rightarrow> (Inl err, w)
      | Inr outTradeNo \<Rightarrow>
          attempt (order_by_out_trade_no e outTradeNo w) (\<lambda>_ w. (Inl (NotFound ''NOT_FOUND'' ''order not found''), w))
            (\<lambda>po w. (Inr po, w)))"

end
