(* ===== verification/Payment_Refund.thy ===== *)
theory Payment_Refund
  imports Payment_Lifecycle
begin

text \<open>
  Refunds (\<open>service/payment_refund.go\<close>): the request of a user, the plan of the administrator, and its execution, which
  takes the order, takes the balance or the days back, asks the provider, and undoes what was taken when the provider
  refuses. The in-memory cache of subscriptions is left out.
\<close>

section \<open>Requests\<close>

definition validateRefundRequest :: "pay_env \<Rightarrow> int \<Rightarrow> int \<Rightarrow> pay_world \<Rightarrow> payment_order io" where
  "validateRefundRequest e oid uid w =
     attempt (get_order e oid w) (\<lambda>_ w. (Inl (NotFound ''NOT_FOUND'' ''order not found''), w))
       (\<lambda>po w. if po_UserID po \<noteq> uid then (Inl (Forbidden ''FORBIDDEN'' ''no permission''), w)
          else if po_OrderType po \<noteq> OrderTypeBalance then
            (Inl (BadRequest ''INVALID_ORDER_TYPE'' ''only balance orders can request refund''), w)
          else if po_Status po \<noteq> OrderStatusCompleted then
            (Inl (BadRequest ''INVALID_STATUS'' ''only completed orders can request refund''), w)
          else attempt (getRefundOrderProviderInstance e po w)
            (\<lambda>_ w. (Inl (Forbidden ''USER_REFUND_DISABLED'' ''refund is not available for this order''), w))
            (\<lambda>inst w. (case inst of
                 None \<Rightarrow> Inl (Forbidden ''USER_REFUND_DISABLED'' ''refund is not available for this order'')
               | Some i \<Rightarrow>
                   if \<not> pi_AllowUserRefund i then
                     Inl (Forbidden ''USER_REFUND_DISABLED'' ''user refund is not enabled for this provider'')
                   else Inr po, w)))"

definition refundable_by :: "int \<Rightarrow> int \<Rightarrow> payment_order \<Rightarrow> bool" where
  "refundable_by oid uid po =
     (po_ID po = oid \<and> po_UserID po = uid \<and> po_Status po = OrderStatusCompleted \<and> po_OrderType po = OrderTypeBalance)"

definition RequestRefund :: "pay_env \<Rightarrow> int \<Rightarrow> int \<Rightarrow> string \<Rightarrow> pay_world \<Rightarrow> unit io" where
  "RequestRefund e oid uid reason w =
     attempt (validateRefundRequest e oid uid w) (\<lambda>err w. (Inl err, w))
       (\<lambda>po w. attempt (get_user e (po_UserID po) w) (\<lambda>err w. (Inl (errorf ''get user'' err), w))
          (\<lambda>u w. if pu_Balance u < po_Amount po then
               (Inl (BadRequest ''BALANCE_NOT_ENOUGH'' ''refund amount exceeds balance''), w)
             else
               let t = now e w
               in attempt
                    (update_orders e (refundable_by oid uid)
                       (\<lambda>x. x\<lparr>po_Status := OrderStatusRefundRequested, po_RefundRequestedAt := Some t,
                              po_RefundRequestReason := Some (trim_space reason), po_RefundRequestedBy := Some (itoa uid),
                              po_RefundAmount := po_Amount po\<rparr>) w)
                    (\<lambda>err w. (Inl (errorf ''update'' err), w))
                    (\<lambda>c w. if c = 0 then (Inl (Conflict ''CONFLICT'' ''order status changed''), w)
                       else (Inr (), writeAuditLog e oid ''REFUND_REQUESTED'' (''user:'' @ itoa uid) w))))"

section \<open>The plan\<close>

definition DeductionTypeBalance :: string where "DeductionTypeBalance = ''balance''"
definition DeductionTypeSubscription :: string where "DeductionTypeSubscription = ''subscription''"
definition DeductionTypeNone :: string where "DeductionTypeNone = ''none''"

record RefundPlan =
  rp_OrderID :: int
  rp_Order :: payment_order
  rp_RefundAmount :: rat
  rp_GatewayAmount :: rat
  rp_Reason :: string
  rp_Force :: bool
  rp_DeductBalance :: bool
  rp_DeductionType :: string
  rp_BalanceToDeduct :: rat
  rp_SubDaysToDeduct :: int
  rp_SubscriptionID :: int

record RefundResult =
  rf_Success :: bool
  rf_Warning :: string
  rf_RequireForce :: bool
  rf_BalanceDeducted :: rat
  rf_SubDaysDeducted :: int

definition require_force :: "string \<Rightarrow> RefundResult" where
  "require_force m = \<lparr>rf_Success = False, rf_Warning = m, rf_RequireForce = True, rf_BalanceDeducted = 0, rf_SubDaysDeducted = 0\<rparr>"

text \<open>What to take back: the plan, or the result that asks for force.\<close>

definition prepDeduct :: "pay_env \<Rightarrow> payment_order \<Rightarrow> RefundPlan \<Rightarrow> bool \<Rightarrow> pay_world \<Rightarrow> (RefundPlan + RefundResult) \<times> pay_world" where
  "prepDeduct e po p force w =
     (if po_OrderType po = OrderTypeSubscription then
        let p = p\<lparr>rp_DeductionType := DeductionTypeSubscription\<rparr>
        in case (po_SubscriptionGroupID po, po_SubscriptionDays po) of
             (Some gid, Some days) \<Rightarrow>
               let p = p\<lparr>rp_SubDaysToDeduct := days\<rparr>
               in attempt (GetActiveByUserIDAndGroupID e False (po_UserID po) gid w)
                    (\<lambda>_ w. (if \<not> force then Inr (require_force ''cannot find active subscription for deduction, use force'')
                            else Inl p, w))
                    (\<lambda>sub w. (Inl (p\<lparr>rp_SubscriptionID := us_ID sub\<rparr>), w))
           | _ \<Rightarrow> (Inl p, w)
      else
        attempt (get_user e (po_UserID po) w)
          (\<lambda>_ w. (if \<not> force then Inr (require_force ''cannot fetch user balance, use force'') else Inl p, w))
          (\<lambda>u w. (Inl (p\<lparr>rp_DeductionType := DeductionTypeBalance,
                        rp_BalanceToDeduct := min (rp_RefundAmount p) (pu_Balance u)\<rparr>), w)))"

definition refund_allowed :: "payment_order \<Rightarrow> bool" where
  "refund_allowed po = (po_Status po \<in> {OrderStatusCompleted, OrderStatusRefundRequested, OrderStatusRefundFailed})"

definition refund_plan :: "payment_order \<Rightarrow> rat \<Rightarrow> string \<Rightarrow> bool \<Rightarrow> bool \<Rightarrow> RefundPlan" where
  "refund_plan po amt reason force deduct =
     (let rr = trim_space reason;
          rr = (if rr = '''' then (case po_RefundRequestReason po of None \<Rightarrow> rr | Some r \<Rightarrow> r) else rr);
          rr = (if rr = '''' then ''refund order:'' @ itoa (po_ID po) else rr)
      in \<lparr>rp_OrderID = po_ID po, rp_Order = po, rp_RefundAmount = amt,
          rp_GatewayAmount = calculateGatewayRefundAmount (po_Amount po) (po_PayAmount po) amt (PaymentOrderCurrency po),
          rp_Reason = rr, rp_Force = force, rp_DeductBalance = deduct, rp_DeductionType = DeductionTypeNone,
          rp_BalanceToDeduct = 0, rp_SubDaysToDeduct = 0, rp_SubscriptionID = 0\<rparr>)"

text \<open>The amount is a float of the request: \<open>None\<close> is no number; zero and less mean all of the order.\<close>

definition PrepareRefund ::
  "pay_env \<Rightarrow> int \<Rightarrow> rat option \<Rightarrow> string \<Rightarrow> bool \<Rightarrow> bool \<Rightarrow> pay_world \<Rightarrow> (RefundPlan + RefundResult) io" where
  "PrepareRefund e oid amt reason force deduct w =
     attempt (get_order e oid w) (\<lambda>_ w. (Inl (NotFound ''NOT_FOUND'' ''order not found''), w))
       (\<lambda>po w. if \<not> refund_allowed po then (Inl (BadRequest ''INVALID_STATUS'' ''order status does not allow refund''), w)
          else attempt (getRefundOrderProviderInstance e po w)
            (\<lambda>_ w. (Inl (InternalServer ''PROVIDER_LOOKUP_FAILED'' ''failed to look up payment provider for this order''), w))
            (\<lambda>inst w. case inst of
               None \<Rightarrow> (Inl (Forbidden ''REFUND_DISABLED'' ''refund is not available for this order''), w)
             | Some i \<Rightarrow>
                 if \<not> pi_RefundEnabled i then (Inl (Forbidden ''REFUND_DISABLED'' ''refund is not enabled for this provider''), w)
                 else case amt of
                   None \<Rightarrow> (Inl (BadRequest ''INVALID_AMOUNT'' ''invalid refund amount''), w)
                 | Some a \<Rightarrow>
                     let a = (if a \<le> 0 then po_Amount po else a)
                     in if paymentAmountToleranceForCurrency (PaymentOrderCurrency po) < a - po_Amount po then
                          (Inl (BadRequest ''REFUND_AMOUNT_EXCEEDED'' ''refund amount exceeds recharge''), w)
                        else
                          let p = refund_plan po a reason force deduct
                          in if deduct then (case prepDeduct e po p force w of (r, w) \<Rightarrow> (Inr r, w))
                             else (Inr (Inl p), w)))"

section \<open>The execution\<close>

definition validateRefundProviderResponse :: "string option \<Rightarrow> go_error option" where
  "validateRefundProviderResponse resp =
     (case resp of
        None \<Rightarrow> Some (OtherError ''payment refund response missing'' None)
      | Some s \<Rightarrow>
          let status = trim_space s
          in if status \<in> {ProviderStatusSuccess, ProviderStatusRefunded, ProviderStatusPending} then None
             else if status = ProviderStatusFailed then Some (OtherError (''payment refund failed: status '' @ status) None)
             else Some (OtherError (''payment refund returned unknown status: '' @ status) None))"

definition getRefundProvider :: "pay_env \<Rightarrow> payment_service \<Rightarrow> payment_order \<Rightarrow> pay_world \<Rightarrow> provider io" where
  "getRefundProvider e sv po w =
     attempt (getRefundOrderProviderInstance e po w) (\<lambda>err w. (Inl err, w))
       (\<lambda>inst w. case inst of
          None \<Rightarrow> (Inl (OtherError (''refund provider instance is unavailable for order '' @ itoa (po_ID po)) None), w)
        | Some i \<Rightarrow> createProviderFromInstance e sv i w)"

text \<open>The request goes into the history when it reaches the provider, whatever the provider answers.\<close>

definition send_refund :: "pay_env \<Rightarrow> provider \<Rightarrow> RefundRequest \<Rightarrow> pay_world \<Rightarrow> string option io" where
  "send_refund e prov req w =
     (let answer = pv_Refund prov (pw_calls w) req
      in attempt
           (stmt e False (\<lambda>_. Inr answer)
              (\<lambda>db. db\<lparr>pd_refunds := pd_refunds db @
                 [\<lparr>fc_Request = req, fc_Answer = answer, fc_Orders = pd_orders db, fc_Users = pd_users db\<rparr>]\<rparr>) w)
           (\<lambda>err w. (Inl err, w)) (\<lambda>answer w. (answer, w)))"

definition gwRefund :: "pay_env \<Rightarrow> payment_service \<Rightarrow> RefundPlan \<Rightarrow> pay_world \<Rightarrow> unit io" where
  "gwRefund e sv p w =
     (let po = rp_Order p
      in if po_PaymentTradeNo po = '''' then (Inr (), writeAuditLog e (po_ID po) ''REFUND_NO_TRADE_NO'' ''admin'' w)
         else attempt (getRefundProvider e sv po w) (\<lambda>err w. (Inl (errorf ''get refund provider'' err), w))
           (\<lambda>prov w. case validateProviderSnapshotMetadata po (pv_ProviderKey prov) (pv_MerchantIdentityMetadata prov) of
              Some err \<Rightarrow> (Inl err, writeAuditLog e (po_ID po) ''REFUND_PROVIDER_METADATA_MISMATCH'' ''admin'' w)
            | None \<Rightarrow>
                let req = \<lparr>rr_TradeNo = po_PaymentTradeNo po, rr_OrderID = po_OutTradeNo po,
                           rr_Amount = FormatAmountForCurrency (rp_GatewayAmount p) (PaymentOrderCurrency po), rr_Reason = rp_Reason p\<rparr>
                in attempt (send_refund e prov req w) (\<lambda>err w. (Inl err, w))
                     (\<lambda>resp w. (case validateRefundProviderResponse resp of None \<Rightarrow> Inr () | Some err \<Rightarrow> Inl err, w))))"

definition restoreStatus :: "pay_env \<Rightarrow> RefundPlan \<Rightarrow> pay_world \<Rightarrow> pay_world" where
  "restoreStatus e p w =
     (let rs = (if po_Status (rp_Order p) = OrderStatusRefundRequested then OrderStatusRefundRequested else OrderStatusCompleted)
      in snd (update_order e (rp_OrderID p) (\<lambda>x. x\<lparr>po_Status := rs\<rparr>) w))"

definition RollbackRefund :: "pay_env \<Rightarrow> RefundPlan \<Rightarrow> pay_world \<Rightarrow> bool \<times> pay_world" where
  "RollbackRefund e p w =
     attempt
       (if rp_DeductionType p = DeductionTypeBalance \<and> 0 < rp_BalanceToDeduct p
        then UpdateBalance e False None (po_UserID (rp_Order p)) (rp_BalanceToDeduct p) w else (Inr (), w))
       (\<lambda>_ w. (False, writeAuditLog e (rp_OrderID p) ''REFUND_ROLLBACK_FAILED'' ''admin'' w))
       (\<lambda>_ w. if rp_DeductionType p = DeductionTypeSubscription \<and> 0 < rp_SubDaysToDeduct p \<and> 0 < rp_SubscriptionID p
          then attempt (ExtendSubscription e (rp_SubscriptionID p) (rp_SubDaysToDeduct p) w)
            (\<lambda>_ w. (False, writeAuditLog e (rp_OrderID p) ''REFUND_ROLLBACK_FAILED'' ''admin'' w))
            (\<lambda>_ w. (True, w))
          else (True, w))"

definition handleGwFail :: "pay_env \<Rightarrow> RefundPlan \<Rightarrow> go_error \<Rightarrow> pay_world \<Rightarrow> RefundResult io" where
  "handleGwFail e p gErr w =
     (case RollbackRefund e p w of
        (True, w) \<Rightarrow>
          (Inr \<lparr>rf_Success = False, rf_Warning = ''gateway failed: '' @ psErrMsg gErr @ '', rolled back'', rf_RequireForce = False,
                rf_BalanceDeducted = 0, rf_SubDaysDeducted = 0\<rparr>,
           writeAuditLog e (rp_OrderID p) ''REFUND_GATEWAY_FAILED'' ''admin'' (restoreStatus e p w))
      | (False, w) \<Rightarrow>
          let t = now e w;
              w = snd (update_order e (rp_OrderID p)
                    (\<lambda>x. x\<lparr>po_Status := OrderStatusRefundFailed, po_FailedAt := Some t, po_FailedReason := Some (psErrMsg gErr)\<rparr>) w)
          in (Inl (InternalServer ''REFUND_FAILED'' (psErrMsg gErr)), writeAuditLog e (rp_OrderID p) ''REFUND_FAILED'' ''admin'' w))"

definition markRefundOk :: "pay_env \<Rightarrow> RefundPlan \<Rightarrow> pay_world \<Rightarrow> RefundResult io" where
  "markRefundOk e p w =
     (let fs = (if rp_RefundAmount p < po_Amount (rp_Order p) then OrderStatusPartiallyRefunded else OrderStatusRefunded); t = now e w
      in attempt
           (update_order e (rp_OrderID p)
              (\<lambda>x. x\<lparr>po_Status := fs, po_RefundAmount := decimal_Round 2 (rp_RefundAmount p), po_RefundReason := Some (rp_Reason p),
                     po_RefundAt := Some t, po_ForceRefund := rp_Force p\<rparr>) w)
           (\<lambda>err w. (Inl (errorf ''mark refund'' err), w))
           (\<lambda>_ w. (Inr \<lparr>rf_Success = True, rf_Warning = '''', rf_RequireForce = False,
                        rf_BalanceDeducted = rp_BalanceToDeduct p, rf_SubDaysDeducted = rp_SubDaysToDeduct p\<rparr>,
                   writeAuditLog e (rp_OrderID p) ''REFUND_SUCCESS'' ''admin'' w)))"

text \<open>The two deductions. What an earlier attempt took and could not give back is not taken again.\<close>

definition deduct_balance :: "pay_env \<Rightarrow> RefundPlan \<Rightarrow> pay_world \<Rightarrow> RefundPlan io" where
  "deduct_balance e p w =
     (if rp_DeductionType p = DeductionTypeBalance \<and> 0 < rp_BalanceToDeduct p then
        case hasAuditLog e (rp_OrderID p) ''REFUND_ROLLBACK_FAILED'' w of
          (True, w) \<Rightarrow> (Inr (p\<lparr>rp_BalanceToDeduct := 0\<rparr>), w)
        | (False, w) \<Rightarrow>
            attempt (DeductBalance e (po_UserID (rp_Order p)) (rp_BalanceToDeduct p) w)
              (\<lambda>err w. (Inl (errorf ''deduction'' err), restoreStatus e p w))
              (\<lambda>_ w. (Inr p, w))
      else (Inr p, w))"

definition deduct_subscription :: "pay_env \<Rightarrow> RefundPlan \<Rightarrow> pay_world \<Rightarrow> RefundPlan io" where
  "deduct_subscription e p w =
     (if rp_DeductionType p = DeductionTypeSubscription \<and> 0 < rp_SubDaysToDeduct p \<and> 0 < rp_SubscriptionID p then
        case hasAuditLog e (rp_OrderID p) ''REFUND_ROLLBACK_FAILED'' w of
          (True, w) \<Rightarrow> (Inr (p\<lparr>rp_SubDaysToDeduct := 0\<rparr>), w)
        | (False, w) \<Rightarrow>
            attempt (ExtendSubscription e (rp_SubscriptionID p) (- rp_SubDaysToDeduct p) w)
              (\<lambda>err w. if Is ErrAdjustWouldExpire err then
                   attempt (RevokeSubscription e (rp_SubscriptionID p) w)
                     (\<lambda>err w. (Inl (errorf ''revoke subscription'' err), restoreStatus e p w))
                     (\<lambda>_ w. (Inr p, w))
                 else (Inl (errorf ''deduct subscription days'' err), restoreStatus e p w))
              (\<lambda>_ w. (Inr p, w))
      else (Inr p, w))"

definition ExecuteRefund :: "pay_env \<Rightarrow> payment_service \<Rightarrow> RefundPlan \<Rightarrow> pay_world \<Rightarrow> RefundResult io" where
  "ExecuteRefund e sv p w =
     attempt
       (update_orders e
          (in_status (rp_OrderID p) [OrderStatusCompleted, OrderStatusRefundRequested, OrderStatusRefundFailed])
          (\<lambda>x. x\<lparr>po_Status := OrderStatusRefunding\<rparr>) w)
       (\<lambda>err w. (Inl (errorf ''lock'' err), w))
       (\<lambda>c w. if c = 0 then (Inl (Conflict ''CONFLICT'' ''order status changed''), w)
          else attempt (deduct_balance e p w) (\<lambda>err w. (Inl err, w))
            (\<lambda>p w. attempt (deduct_subscription e p w) (\<lambda>err w. (Inl err, w))
               (\<lambda>p w. attempt (gwRefund e sv p w) (\<lambda>gErr w. handleGwFail e p gErr w)
                  (\<lambda>_ w. markRefundOk e p w))))"

end
