(* ===== verification/Payment_Webhook.thy ===== *)
theory Payment_Webhook
  imports Payment_Lifecycle
begin

text \<open>
  The webhooks of the payment providers (\<open>handler/payment_webhook_handler.go\<close>, \<open>service/payment_webhook_provider.go\<close>):
  the body of a callback names an order, the order or the kind of the provider gives the candidates that may verify it,
  and what one of them verifies is handled as a notification. The answer tells the provider whether to call again. The
  registry of providers is a parameter, as it is once the service has loaded it.
\<close>

section \<open>The providers that may verify a callback\<close>

definition GetProviderByKey :: "payment_service \<Rightarrow> string \<Rightarrow> go_error + provider" where
  "GetProviderByKey sv key =
     (case List.find (\<lambda>(_, p). pv_ProviderKey p = key) (sv_registry sv) of
        None \<Rightarrow> Inl ErrProviderNotFound | Some (_, p) \<Rightarrow> Inr p)"

text \<open>Instances whose provider cannot be made are skipped.\<close>

fun create_providers ::
  "pay_env \<Rightarrow> payment_service \<Rightarrow> PaymentProviderInstance list \<Rightarrow> provider list \<Rightarrow> pay_world \<Rightarrow> provider list \<times> pay_world" where
  "create_providers e sv [] providers w = (providers, w)"
| "create_providers e sv (inst # instances) providers w =
     attempt (createProviderFromInstance e sv inst w)
       (\<lambda>_ w. create_providers e sv instances providers w)
       (\<lambda>prov w. create_providers e sv instances (providers @ [prov]) w)"

definition getEnabledWebhookProvidersByKey :: "pay_env \<Rightarrow> payment_service \<Rightarrow> string \<Rightarrow> pay_world \<Rightarrow> provider list io" where
  "getEnabledWebhookProvidersByKey e sv providerKey w =
     (let key = trim_space providerKey
      in attempt
           (stmt e False
              (\<lambda>db. Inr (sort_key pi_SortOrder (filter (\<lambda>i. pi_ProviderKey i = key \<and> pi_Enabled i) (pd_instances db)))) (\<lambda>db. db) w)
           (\<lambda>err w. (Inl (errorf ''query webhook provider instances'' err), w))
           (\<lambda>instances w. if instances = [] then (Inl ErrProviderNotFound, w)
              else case create_providers e sv instances [] w of (providers, w) \<Rightarrow>
                (if providers = [] then Inl ErrProviderNotFound else Inr providers, w)))"

text \<open>Without an instance of the order, the kind of the provider decides.\<close>

definition providers_by_kind :: "pay_env \<Rightarrow> payment_service \<Rightarrow> string \<Rightarrow> pay_world \<Rightarrow> provider list io" where
  "providers_by_kind e sv providerKey w =
     (if trim_space providerKey = TypeWxpay then getEnabledWebhookProvidersByKey e sv providerKey w
      else case webhookRegistryFallbackAllowed e providerKey w of (allowed, w) \<Rightarrow>
        if \<not> allowed then (Inl (OtherError (''webhook provider fallback is ambiguous for '' @ providerKey) None), w)
        else case GetProviderByKey sv providerKey of Inl err \<Rightarrow> (Inl err, w) | Inr prov \<Rightarrow> (Inr [prov], w))"

definition GetWebhookProviders :: "pay_env \<Rightarrow> payment_service \<Rightarrow> string \<Rightarrow> string \<Rightarrow> pay_world \<Rightarrow> provider list io" where
  "GetWebhookProviders e sv providerKey outTradeNo w =
     (if outTradeNo = '''' then providers_by_kind e sv providerKey w
      else attempt (order_by_out_trade_no e outTradeNo w)
        (\<lambda>_ w. providers_by_kind e sv providerKey w)
        (\<lambda>po w.
           if psHasPinnedProviderInstance po then
             attempt (getPinnedOrderProvider e sv po w) (\<lambda>err w. (Inl err, w)) (\<lambda>prov w. (Inr [prov], w))
           else
             attempt (getOrderProviderInstance e po w) (\<lambda>err w. (Inl (errorf ''load order provider instance'' err), w))
               (\<lambda>inst w. case inst of
                  Some inst \<Rightarrow> attempt (createProviderFromInstance e sv inst w) (\<lambda>err w. (Inl err, w)) (\<lambda>prov w. (Inr [prov], w))
                | None \<Rightarrow> providers_by_kind e sv providerKey w)))"

definition GetWebhookProvider :: "pay_env \<Rightarrow> payment_service \<Rightarrow> string \<Rightarrow> string \<Rightarrow> pay_world \<Rightarrow> provider io" where
  "GetWebhookProvider e sv providerKey outTradeNo w =
     attempt (GetWebhookProviders e sv providerKey outTradeNo w) (\<lambda>err w. (Inl err, w))
       (\<lambda>providers w. case providers of [] \<Rightarrow> (Inl ErrProviderNotFound, w) | prov # _ \<Rightarrow> (Inr prov, w))"

section \<open>The order a callback names\<close>

text \<open>\<open>url.ParseQuery\<close>: the pairs of a query, none when one of its parts is malformed, as the caller then drops them.\<close>

definition hex_value :: "char \<Rightarrow> nat option" where
  "hex_value c =
     (if 48 \<le> byte c \<and> byte c \<le> 57 then Some (byte c - 48)
      else if 97 \<le> byte c \<and> byte c \<le> 102 then Some (byte c - 87)
      else if 65 \<le> byte c \<and> byte c \<le> 70 then Some (byte c - 55)
      else None)"

fun query_unescape :: "string \<Rightarrow> string option" where
  "query_unescape [] = Some []"
| "query_unescape (c # s) =
     (if c = CHR ''%'' then
        (case s of
           a # b # rest \<Rightarrow>
             (case (hex_value a, hex_value b) of
                (Some x, Some y) \<Rightarrow> map_option ((#) (char_of (16 * x + y))) (query_unescape rest)
              | _ \<Rightarrow> None)
         | _ \<Rightarrow> None)
      else map_option ((#) (if c = CHR ''+'' then CHR '' '' else c)) (query_unescape s))"

definition cut :: "char \<Rightarrow> string \<Rightarrow> string \<times> string" where
  "cut sep s = (takeWhile (\<lambda>c. c \<noteq> sep) s, drop 1 (dropWhile (\<lambda>c. c \<noteq> sep) s))"

fun parse_pairs :: "string list \<Rightarrow> (string \<times> string) list option" where
  "parse_pairs [] = Some []"
| "parse_pairs (part # parts) =
     (if CHR '';'' \<in> set part then None
      else if part = '''' then parse_pairs parts
      else case (query_unescape (fst (cut CHR ''='' part)), query_unescape (snd (cut CHR ''='' part))) of
             (Some k, Some v) \<Rightarrow> map_option ((#) (k, v)) (parse_pairs parts)
           | _ \<Rightarrow> None)"

definition parse_query :: "string \<Rightarrow> (string \<times> string) list option" where
  "parse_query q = parse_pairs (split_on CHR ''&'' q)"

definition extractOutTradeNo :: "payment_service \<Rightarrow> string \<Rightarrow> string \<Rightarrow> string" where
  "extractOutTradeNo sv rawBody providerKey =
     (if providerKey = TypeEasyPay \<or> providerKey = TypeAlipay then
        (case parse_query rawBody of
           None \<Rightarrow> ''''
         | Some values \<Rightarrow> (case map_of values ''out_trade_no'' of None \<Rightarrow> '''' | Some v \<Rightarrow> v))
      else if providerKey = TypeAirwallex then
        (case sv_json_order_id sv rawBody of None \<Rightarrow> '''' | Some s \<Rightarrow> trim_space s)
      else '''')"

section \<open>The handler\<close>

text \<open>The candidates are tried in turn; the last error is kept.\<close>

fun verify_with ::
  "pay_env \<Rightarrow> provider list \<Rightarrow> string \<Rightarrow> (string \<times> string) list \<Rightarrow> go_error \<Rightarrow> pay_world
    \<Rightarrow> (string \<times> PaymentNotification option) io" where
  "verify_with e [] rawBody headers lastErr w = (Inl lastErr, w)"
| "verify_with e (prov # providers) rawBody headers lastErr w =
     attempt (stmt e False (\<lambda>_. pv_VerifyNotification prov (pw_calls w) rawBody headers) (\<lambda>db. db) w)
       (\<lambda>err w. verify_with e providers rawBody headers err w)
       (\<lambda>n w. (Inr (pv_ProviderKey prov, n), w))"

definition verifyNotificationWithProviders ::
  "pay_env \<Rightarrow> provider list \<Rightarrow> string \<Rightarrow> (string \<times> string) list \<Rightarrow> pay_world \<Rightarrow> (string \<times> PaymentNotification option) io" where
  "verifyNotificationWithProviders e providers rawBody headers w =
     verify_with e providers rawBody headers (OtherError ''no webhook provider could verify notification'' None) w"

record wxpaySuccessResponse =
  wx_Code :: string
  wx_Message :: string

datatype webhook_answer = String_Answer int string | JSON_Answer int wxpaySuccessResponse

definition wxpaySuccessCode :: string where "wxpaySuccessCode = ''SUCCESS''"
definition wxpaySuccessMessage :: string where "wxpaySuccessMessage = map char_of [0xE6 :: nat, 0x88, 0x90, 0xE5, 0x8A, 0x9F]"

definition writeSuccessResponse :: "string \<Rightarrow> webhook_answer" where
  "writeSuccessResponse providerKey =
     (if providerKey = TypeWxpay then JSON_Answer 200 \<lparr>wx_Code = wxpaySuccessCode, wx_Message = wxpaySuccessMessage\<rparr>
      else if providerKey = TypeStripe \<or> providerKey = TypeAirwallex then String_Answer 200 ''''
      else String_Answer 200 ''success'')"

text \<open>A request: its query is the body of a GET callback. \<open>None\<close> is a body that cannot be read; of a header, the first
  value counts.\<close>

record webhook_request =
  wq_GET :: bool
  wq_RawQuery :: string
  wq_Body :: "string option"
  wq_Header :: "(string \<times> string) list"

definition maxWebhookBodySize :: nat where "maxWebhookBodySize = 1048576"

definition raw_body :: "webhook_request \<Rightarrow> string option" where
  "raw_body q = (if wq_GET q then Some (wq_RawQuery q) else map_option (take maxWebhookBodySize) (wq_Body q))"

text \<open>\<open>errors.Is\<close> with a target made by \<open>errors.New\<close> of the text \<open>target\<close>.\<close>

fun errors_Is :: "go_error \<Rightarrow> string \<Rightarrow> bool" where
  "errors_Is (ApplicationError _ _ _ _ None) target = False"
| "errors_Is (ApplicationError _ _ _ _ (Some err)) target = errors_Is err target"
| "errors_Is (OtherError m None) target = (m = target)"
| "errors_Is (OtherError _ (Some err)) target = errors_Is err target"

definition handle_verified :: "pay_env \<Rightarrow> payment_service \<Rightarrow> string \<Rightarrow> PaymentNotification \<Rightarrow> pay_world \<Rightarrow> webhook_answer \<times> pay_world" where
  "handle_verified e sv key n w =
     attempt (HandlePaymentNotification e sv n key w)
       (\<lambda>err w. (if errors_Is err (oe_Error ErrOrderNotFound) then writeSuccessResponse key else String_Answer 500 ''handle failed'', w))
       (\<lambda>_ w. (writeSuccessResponse key, w))"

definition handleNotify :: "pay_env \<Rightarrow> payment_service \<Rightarrow> string \<Rightarrow> webhook_request \<Rightarrow> pay_world \<Rightarrow> webhook_answer \<times> pay_world" where
  "handleNotify e sv providerKey q w =
     (case raw_body q of
        None \<Rightarrow> (String_Answer 400 ''failed to read body'', w)
      | Some rawBody \<Rightarrow>
          let outTradeNo = extractOutTradeNo sv rawBody providerKey; headers = map (\<lambda>(k, v). (to_lower k, v)) (wq_Header q)
          in attempt (GetWebhookProviders e sv providerKey outTradeNo w)
               (\<lambda>_ w. (if providerKey = TypeWxpay then String_Answer 400 ''verify failed'' else writeSuccessResponse providerKey, w))
               (\<lambda>providers w. attempt (verifyNotificationWithProviders e providers rawBody headers w)
                  (\<lambda>_ w. (String_Answer 400 ''verify failed'', w))
                  (\<lambda>(key, notification) w. case notification of
                     None \<Rightarrow> (writeSuccessResponse key, w)
                   | Some n \<Rightarrow> handle_verified e sv key n w)))"

end
