(* ===== verification/Payment_Logic.thy ===== *)
theory Payment_Logic
  imports Payment_Store
begin

text \<open>
  Handlers over the shared store, reasoned about in the manner of rely and guarantee: what a handler establishes and how
  it moves the store, while other processes move it within the same invariant and preorder between any two calls.
\<close>

text \<open>
  \<open>yields ok le w m Q\<close>: the run \<open>m\<close> that started in \<open>w\<close> keeps \<open>ok\<close>, moves the store along \<open>le\<close>, and when it returns
  \<open>x\<close> the store satisfies \<open>Q x\<close>.
\<close>

definition yields ::
  "(pay_db \<Rightarrow> bool) \<Rightarrow> (pay_db \<Rightarrow> pay_db \<Rightarrow> bool) \<Rightarrow> pay_world \<Rightarrow> 'a io \<Rightarrow> ('a \<Rightarrow> pay_db \<Rightarrow> bool) \<Rightarrow> bool" where
  "yields ok le w m Q =
     (ok (pw_db w) \<longrightarrow> ok (pw_db (snd m)) \<and> le (pw_db w) (pw_db (snd m)) \<and> (\<forall>x. fst m = Inr x \<longrightarrow> Q x (pw_db (snd m))))"

text \<open>A transaction that is open: what it has written so far is related by \<open>frame\<close> to the store it will be committed to.\<close>

definition opened ::
  "(pay_db \<Rightarrow> bool) \<Rightarrow> (pay_db \<Rightarrow> pay_db \<Rightarrow> bool) \<Rightarrow> (pay_db \<Rightarrow> pay_db \<Rightarrow> bool) \<Rightarrow> pay_world \<Rightarrow> 'a io
    \<Rightarrow> ('a \<Rightarrow> pay_db \<Rightarrow> bool) \<Rightarrow> bool" where
  "opened ok le frame w m Q = (pw_aborted w \<or> frame (pw_db w) (view w) \<longrightarrow> yields ok le w m Q)"

lemma yields_weaken: "yields ok le w m Q \<Longrightarrow> (\<And>x db. Q x db \<Longrightarrow> Q' x db) \<Longrightarrow> yields ok le w m Q'"
  by (simp add: yields_def)

lemma yields_goes: "yields ok le w m Q \<Longrightarrow> goes ok le w (snd m)"
  by (simp add: yields_def goes_def)

lemma goes_yields: "goes ok le w (snd m) \<Longrightarrow> yields ok le w m (\<lambda>_ _. True)"
  by (simp add: yields_def goes_def)

lemma yieldsD:
  assumes "yields ok le w (r, w') Q" "ok (pw_db w)"
  shows "ok (pw_db w')" "le (pw_db w) (pw_db w')" "r = Inr x \<Longrightarrow> Q x (pw_db w')"
  using assms by (simp_all add: yields_def)

context store_rely
begin

lemma yields_return: "(ok (pw_db w) \<Longrightarrow> Q x (pw_db w)) \<Longrightarrow> yields ok le w (Inr x, w) Q"
  using le_refl by (simp add: yields_def)

lemma yields_fail: "yields ok le w (Inl err, w) Q"
  using le_refl by (simp add: yields_def)

lemma yields_failed: "goes ok le w w' \<Longrightarrow> yields ok le w (Inl err, w') Q"
  by (simp add: yields_def goes_def)

text \<open>A step after a run, and one before it.\<close>

lemma yields_then:
  assumes "yields ok le w (r, w1) Q" "goes ok le w1 w2"
    and "\<And>x. ok (pw_db w1) \<Longrightarrow> le (pw_db w1) (pw_db w2) \<Longrightarrow> Q x (pw_db w1) \<Longrightarrow> Q' x (pw_db w2)"
  shows "yields ok le w (r, w2) Q'"
proof (unfold yields_def, rule impI)
  assume w: "ok (pw_db w)"
  note d = yieldsD [OF assms(1) w]
  have "ok (pw_db w2)" "le (pw_db w1) (pw_db w2)" using assms(2) d(1) by (simp_all add: goes_def)
  then show "ok (pw_db (snd (r, w2))) \<and> le (pw_db w) (pw_db (snd (r, w2))) \<and> (\<forall>x. fst (r, w2) = Inr x \<longrightarrow> Q' x (pw_db (snd (r, w2))))"
    using d assms(3) le_trans [OF w d(1)] by auto
qed

lemma yields_after:
  assumes "goes ok le w w1" "ok (pw_db w) \<Longrightarrow> ok (pw_db w1) \<Longrightarrow> le (pw_db w) (pw_db w1) \<Longrightarrow> yields ok le w1 m Q"
  shows "yields ok le w m Q"
  using assms le_trans unfolding yields_def goes_def by blast

lemma goes_after:
  assumes "goes ok le w w1" "ok (pw_db w) \<Longrightarrow> ok (pw_db w1) \<Longrightarrow> le (pw_db w) (pw_db w1) \<Longrightarrow> goes ok le w1 w2"
  shows "goes ok le w w2"
  using assms le_trans unfolding goes_def by blast

lemma yields_attempt:
  assumes m: "yields ok le w m R"
    and f: "\<And>err w'. m = (Inl err, w') \<Longrightarrow> ok (pw_db w) \<Longrightarrow> ok (pw_db w') \<Longrightarrow> le (pw_db w) (pw_db w') \<Longrightarrow> yields ok le w' (f err w') Q"
    and s: "\<And>x w'. m = (Inr x, w') \<Longrightarrow> ok (pw_db w) \<Longrightarrow> ok (pw_db w') \<Longrightarrow> le (pw_db w) (pw_db w') \<Longrightarrow> R x (pw_db w')
      \<Longrightarrow> yields ok le w' (s x w') Q"
  shows "yields ok le w (attempt m f s) Q"
proof (cases "ok (pw_db w)")
  case True
  obtain r w1 where m1: "m = (r, w1)" by (rule prod.exhaust)
  note d = yieldsD [OF m [unfolded m1] True]
  have "goes ok le w w1" using d by (simp add: goes_def)
  then show ?thesis
  proof (rule yields_after)
    show "yields ok le w1 (attempt m f s) Q"
    proof (cases r)
      case (Inl err)
      then show ?thesis using f m1 True d(1,2) by simp
    next
      case (Inr x)
      then show ?thesis using s m1 True d by simp
    qed
  qed
qed (simp add: yields_def)

lemma goes_attempt:
  assumes m: "yields ok le w m R"
    and f: "\<And>err w'. m = (Inl err, w') \<Longrightarrow> ok (pw_db w) \<Longrightarrow> ok (pw_db w') \<Longrightarrow> le (pw_db w) (pw_db w') \<Longrightarrow> goes ok le w' (p (f err w'))"
    and s: "\<And>x w'. m = (Inr x, w') \<Longrightarrow> ok (pw_db w) \<Longrightarrow> ok (pw_db w') \<Longrightarrow> le (pw_db w) (pw_db w') \<Longrightarrow> R x (pw_db w')
      \<Longrightarrow> goes ok le w' (p (s x w'))"
  shows "goes ok le w (p (attempt m f s))"
proof (cases "ok (pw_db w)")
  case True
  obtain r w1 where m1: "m = (r, w1)" by (rule prod.exhaust)
  note d = yieldsD [OF m [unfolded m1] True]
  have "goes ok le w1 (p (attempt m f s))"
  proof (cases r)
    case (Inl err)
    then show ?thesis using f m1 True d(1,2) by simp
  next
    case (Inr x)
    then show ?thesis using s m1 True d by simp
  qed
  then show ?thesis using True d(1,2) le_trans unfolding goes_def by blast
qed (simp add: goes_def)

lemma yields_stmt:
  assumes "kind ok le e" "\<And>db x. ok db \<Longrightarrow> le (pw_db w) db \<Longrightarrow> ask db = Inr x \<Longrightarrow> ok (write db) \<and> le db (write db) \<and> Q x (write db)"
  shows "yields ok le w (stmt e False ask write w) Q"
proof -
  have other: "ok (pw_db w) \<Longrightarrow> ok (call_db e w) \<and> le (pw_db w) (call_db e w)"
    using assms(1) by (simp add: kind_def call_db_def)
  then have "ok (pw_db w) \<Longrightarrow> ask (call_db e w) = Inr x \<Longrightarrow>
      ok (write (call_db e w)) \<and> le (pw_db w) (write (call_db e w)) \<and> Q x (write (call_db e w))" for x
    using assms(2) [of "call_db e w" x] le_trans by blast
  with other show ?thesis by (auto simp: yields_def stmt_def split: fault.split sum.split)
qed

text \<open>A statement that only reads.\<close>

lemma yields_ask:
  "kind ok le e \<Longrightarrow> (\<And>db x. ok db \<Longrightarrow> le (pw_db w) db \<Longrightarrow> ask db = Inr x \<Longrightarrow> Q x db) \<Longrightarrow>
    yields ok le w (stmt e False ask (\<lambda>db. db) w) Q"
  by (rule yields_stmt) (auto intro: le_refl)

lemma goes_ask: "kind ok le e \<Longrightarrow> goes ok le w (snd (stmt e False ask (\<lambda>db. db) w))"
  by (rule stmt_goes) (auto intro: le_refl)

section \<open>Transactions\<close>

lemma yields_tx:
  assumes e: "kind ok le e"
    and body: "\<And>db0. ok db0 \<Longrightarrow> le (pw_db w) db0 \<Longrightarrow> tx_run (\<lambda>db. db = db0) body (\<lambda>x db. ok db \<and> le db0 db \<and> Q x db)"
  shows "yields ok le w (attempt (begin_tx e w) (\<lambda>err w. (Inl (g err), w))
    (\<lambda>_ w. attempt (body w) (\<lambda>err w. (Inl (h err), rollback w))
      (\<lambda>x w. attempt (commit_tx e w) (\<lambda>err w. (Inl (k err), w)) (\<lambda>_ w. (Inr x, w))))) Q"
proof (rule yields_attempt [OF goes_yields [OF begin_goes [OF e]]])
  fix x w1 assume ok1: "ok (pw_db w1)" and le1: "le (pw_db w) (pw_db w1)" and "begin_tx e w = (Inr x, w1)"
  then have w1: "view w1 = pw_db w1" using begin_clean by (simp add: view_def)
  obtain r w2 where b: "body w1 = (r, w2)" by (rule prod.exhaust)
  have "pw_aborted w1 \<or> view w1 = pw_db w1" using w1 by simp
  note w2 = tx_runD [OF body [OF ok1 le1] this b]
  show "yields ok le w1 (attempt (body w1) (\<lambda>err w. (Inl (h err), rollback w))
      (\<lambda>x w. attempt (commit_tx e w) (\<lambda>err w. (Inl (k err), w)) (\<lambda>_ w. (Inr x, w)))) Q"
  proof (cases r)
    case (Inl err)
    then show ?thesis using b w2(1) by (simp add: yields_def rollback_def le_refl)
  next
    case (Inr y)
    have "yields ok le w1 (attempt (commit_tx e w2) (\<lambda>err w. (Inl (k err), w)) (\<lambda>_ w. (Inr y, w))) Q"
      using w2(3) [OF Inr] w2(1) le_refl
      by (auto simp: yields_def commit_tx_def rollback_def Let_def view_def attempt_def split: fault.split)
    then show ?thesis using b Inr by simp
  qed
qed (rule yields_fail)

text \<open>The same in steps, for transactions that other handlers are called in: \<open>frame\<close> is what their writes leave alone.\<close>

lemma opened_begin:
  assumes e: "kind ok le e" and frame: "\<And>db. frame db db"
    and f: "\<And>err w'. le (pw_db w) (pw_db w') \<Longrightarrow> yields ok le w' (f err w') Q"
    and s: "\<And>x w'. le (pw_db w) (pw_db w') \<Longrightarrow> opened ok le frame w' (s x w') Q"
  shows "yields ok le w (attempt (begin_tx e w) f s) Q"
proof (rule yields_attempt [OF goes_yields [OF begin_goes [OF e]]])
  fix x w1 assume le1: "le (pw_db w) (pw_db w1)" and "begin_tx e w = (Inr x, w1)"
  then have "view w1 = pw_db w1" using begin_clean by (simp add: view_def)
  then show "yields ok le w1 (s x w1) Q" using s [OF le1, of x] frame by (simp add: opened_def)
qed (rule f)

lemma opened_seq:
  assumes m: "\<And>db0. tx_run (frame db0) m (\<lambda>_. frame db0)"
    and f: "\<And>err w'. le (pw_db w) (pw_db w') \<Longrightarrow> yields ok le w' (f err w') Q"
    and s: "\<And>x w'. le (pw_db w) (pw_db w') \<Longrightarrow> opened ok le frame w' (s x w') Q"
  shows "opened ok le frame w (attempt (m w) f s) Q"
proof (unfold opened_def, rule impI)
  assume pre: "pw_aborted w \<or> frame (pw_db w) (view w)"
  obtain r w1 where m1: "m w = (r, w1)" by (rule prod.exhaust)
  note d = tx_runD [OF m pre m1]
  have "goes ok le w w1" by (rule goes_same) (rule d(1))
  then show "yields ok le w (attempt (m w) f s) Q"
  proof (rule yields_after)
    assume le1: "le (pw_db w) (pw_db w1)"
    show "yields ok le w1 (attempt (m w) f s) Q"
    proof (cases r)
      case (Inl err)
      then show ?thesis using f [OF le1] m1 by simp
    next
      case (Inr x)
      have "pw_aborted w1 \<or> frame (pw_db w1) (view w1)" using d(3) [OF Inr] d(1) by simp
      then show ?thesis using s [OF le1, of x] m1 Inr by (simp add: opened_def)
    qed
  qed
qed

lemma opened_commit:
  assumes frame: "\<And>db db'. ok db \<Longrightarrow> frame db db' \<Longrightarrow> ok db' \<and> le db db'"
    and f: "\<And>err w'. le (pw_db w) (pw_db w') \<Longrightarrow> yields ok le w' (f err w') Q"
    and s: "\<And>x w'. le (pw_db w) (pw_db w') \<Longrightarrow> yields ok le w' (s x w') Q"
  shows "opened ok le frame w (attempt (commit_tx e w) f s) Q"
proof (unfold opened_def, rule impI)
  assume "pw_aborted w \<or> frame (pw_db w) (view w)"
  then have "goes ok le w (snd (commit_tx e w))" using frame by (intro commit_goes) blast
  then show "yields ok le w (attempt (commit_tx e w) f s) Q"
    by (rule yields_attempt [OF goes_yields]) (use f s in auto)
qed

lemma opened_leave: "yields ok le w m Q \<Longrightarrow> opened ok le frame w m Q"
  by (simp add: opened_def)

lemma goes_rollback: "goes ok le w (rollback w)"
  by (rule goes_same) (simp add: rollback_def)

end

end
