(* ===== verification/Payment_Reads.thy ===== *)
theory Payment_Reads
  imports Payment_Webhook Payment_Logic
begin

text \<open>
  The calls that only read: finding the provider of an order or of a webhook, and having a callback verified. Whatever
  invariant and order the store is kept in, they stay within it; in particular they leave an undisturbed store alone.
\<close>

context store_rely
begin

text \<open>A read whose answer is only turned into a result.\<close>

lemma read_then:
  assumes "goes ok le w (snd m)"
  shows "goes ok le w (snd (attempt m (\<lambda>err w. (f err, w)) (\<lambda>x w. (g x, w))))"
  by (rule attempt_goes [OF assms]) (simp_all add: goes_refl)

lemma read_ask_then:
  "kind ok le e \<Longrightarrow> goes ok le w (snd (attempt (stmt e False ask (\<lambda>db. db) w) (\<lambda>err w. (f err, w)) (\<lambda>x w. (g x, w))))"
  by (rule read_then [OF goes_ask])

lemma read_found:
  assumes "kind ok le e" "\<And>x w. goes ok le w (snd (s x w))"
  shows "goes ok le w (snd (attempt (get_instance e i w) (\<lambda>err w. (f err, w)) s))"
  unfolding get_instance_def by (rule attempt_goes [OF goes_ask [OF assms(1)]]) (simp_all add: goes_refl assms(2))

lemma read_snapshot_instance:
  assumes e: "kind ok le e"
  shows "goes ok le w (snd (resolveSnapshotOrderProviderInstance e po s w))"
  unfolding resolveSnapshotOrderProviderInstance_def Let_def
  by (auto simp: goes_refl split: option.split intro!: read_found [OF e])

lemma read_instances:
  assumes e: "kind ok le e"
  shows "goes ok le w (snd (getOrderProviderInstance e po w))" "goes ok le w (snd (getRefundOrderProviderInstance e po w))"
proof -
  have legacy: "goes ok le w' (snd (resolveUniqueLegacyOrderProviderInstance e po w'))" for w'
    unfolding resolveUniqueLegacyOrderProviderInstance_def Let_def by (simp add: read_ask_then [OF e] goes_refl)
  show "goes ok le w (snd (getOrderProviderInstance e po w))"
    unfolding getOrderProviderInstance_def Let_def
    by (auto simp: goes_refl read_snapshot_instance [OF e] legacy split: option.split intro!: read_found [OF e])
  show "goes ok le w (snd (getRefundOrderProviderInstance e po w))"
    unfolding getRefundOrderProviderInstance_def Let_def
    by (auto simp: goes_refl read_snapshot_instance [OF e] split: option.split intro!: read_found [OF e])
qed

lemma read_make: "kind ok le e \<Longrightarrow> goes ok le w (snd (createProviderFromInstance e sv inst w))"
  unfolding createProviderFromInstance_def by (rule goes_ask)

lemma read_allowed: "kind ok le e \<Longrightarrow> goes ok le w (snd (webhookRegistryFallbackAllowed e key w))"
  unfolding webhookRegistryFallbackAllowed_def Let_def by (simp add: goes_refl read_ask_then)

lemma read_registry:
  assumes e: "kind ok le e" and s: "\<And>b w. goes ok le w (snd (s b w))"
  shows "goes ok le w (snd (case webhookRegistryFallbackAllowed e key w of (b, w) \<Rightarrow> s b w))"
proof -
  obtain b w1 where r: "webhookRegistryFallbackAllowed e key w = (b, w1)" by (rule prod.exhaust)
  then have "goes ok le w w1" using read_allowed [OF e, of w key] by simp
  then show ?thesis using goes_trans [OF _ s] by (simp add: r)
qed

lemma read_order_provider:
  assumes e: "kind ok le e"
  shows "goes ok le w (snd (getOrderProvider e sv po w))"
proof -
  have registry: "goes ok le w' (snd (case webhookRegistryFallbackAllowed e key w' of (b, w) \<Rightarrow>
      if \<not> b then (Inl err, w)
      else case map_of (sv_registry sv) (po_PaymentType po) of None \<Rightarrow> (Inl ErrProviderNotFound, w) | Some prov \<Rightarrow> (Inr prov, w)))"
    for key err w'
    by (rule read_registry [OF e]) (simp add: goes_refl split: option.split)
  show ?thesis unfolding getOrderProvider_def Let_def
    by (rule attempt_goes [OF read_instances(1) [OF e]])
      (simp_all add: goes_refl read_make [OF e] registry split: option.split)
qed

section \<open>Webhooks\<close>

lemma read_create_all: "kind ok le e \<Longrightarrow> goes ok le w (snd (create_providers e sv insts ps w))"
proof (induction insts arbitrary: ps w)
  case (Cons i insts)
  then show ?case by (simp add: attempt_goes [OF read_make])
qed (simp add: goes_refl)

lemma read_enabled:
  assumes e: "kind ok le e"
  shows "goes ok le w (snd (getEnabledWebhookProvidersByKey e sv pk w))"
proof -
  have found: "goes ok le w' (snd (case create_providers e sv insts [] w' of (ps, w) \<Rightarrow> (g ps, w)))"
    for insts w' and g :: "provider list \<Rightarrow> go_error + provider list"
    using read_create_all [OF e, of w' sv insts "[]"] by (auto split: prod.split)
  show ?thesis unfolding getEnabledWebhookProvidersByKey_def Let_def
    by (rule attempt_goes [OF goes_ask [OF e]]) (simp_all add: goes_refl found)
qed

lemma read_by_kind:
  assumes e: "kind ok le e"
  shows "goes ok le w (snd (providers_by_kind e sv pk w))"
proof -
  have "goes ok le w (snd (case webhookRegistryFallbackAllowed e pk w of (b, w) \<Rightarrow>
      if \<not> b then (Inl err, w) else case GetProviderByKey sv pk of Inl err \<Rightarrow> (Inl err, w) | Inr p \<Rightarrow> (Inr [p], w)))" for err
    by (rule read_registry [OF e]) (simp add: goes_refl split: sum.split)
  then show ?thesis using read_enabled [OF e] by (simp add: providers_by_kind_def)
qed

lemma read_pinned:
  assumes e: "kind ok le e"
  shows "goes ok le w (snd (getPinnedOrderProvider e sv po w))"
  unfolding getPinnedOrderProvider_def
  by (rule attempt_goes [OF read_instances(1) [OF e]]) (simp_all add: goes_refl read_make [OF e] split: option.split)

lemma read_by_trade_no: "kind ok le e \<Longrightarrow> goes ok le w (snd (order_by_out_trade_no e no w))"
  unfolding order_by_out_trade_no_def by (rule goes_ask)

lemma read_candidates:
  assumes e: "kind ok le e"
  shows "goes ok le w (snd (GetWebhookProviders e sv pk no w))"
proof -
  have unpinned: "goes ok le w' (snd (attempt (getOrderProviderInstance e po w') (\<lambda>err w. (Inl (g err), w))
      (\<lambda>inst w. case inst of
         Some inst \<Rightarrow> attempt (createProviderFromInstance e sv inst w) (\<lambda>err w. (Inl err, w)) (\<lambda>prov w. (Inr [prov], w))
       | None \<Rightarrow> providers_by_kind e sv pk w)))" for po w' g
    by (rule attempt_goes [OF read_instances(1) [OF e]])
      (simp_all add: goes_refl read_then [OF read_make [OF e]] read_by_kind [OF e] split: option.split)
  have "goes ok le w (snd (attempt (order_by_out_trade_no e no w) (\<lambda>_ w. providers_by_kind e sv pk w) s))"
    if "\<And>po w'. goes ok le w' (snd (s po w'))" for s
    by (rule attempt_goes [OF read_by_trade_no [OF e]]) (simp_all add: that read_by_kind [OF e])
  then show ?thesis unfolding GetWebhookProviders_def
    by (simp add: read_by_kind [OF e] read_then [OF read_pinned [OF e]] unpinned)
qed

lemma read_verify: "kind ok le e \<Longrightarrow> goes ok le w (snd (verify_with e ps body hs err w))"
proof (induction ps arbitrary: err w)
  case (Cons p ps)
  show ?case unfolding verify_with.simps
    by (rule attempt_goes [OF goes_ask [OF Cons.prems]]) (simp_all add: Cons goes_refl)
qed (simp add: goes_refl)

lemma read_verified: "kind ok le e \<Longrightarrow> goes ok le w (snd (verifyNotificationWithProviders e ps body hs w))"
  unfolding verifyNotificationWithProviders_def by (rule read_verify)

end

section \<open>Undisturbed runs\<close>

interpretation still: store_rely "\<lambda>_. True" "(=)"
  by unfold_locales simp_all

lemma calm_still: "calm t e \<Longrightarrow> kind (\<lambda>_. True) (=) e"
  by (simp add: calm_def kind_def)

lemma goes_still: "goes (\<lambda>_. True) (=) w w' = (pw_db w' = pw_db w)"
  by (auto simp: goes_def)

lemmas still_candidates = still.read_candidates [OF calm_still, unfolded goes_still]
  and still_verified = still.read_verified [OF calm_still, unfolded goes_still]

end
