(* ===== verification/Payment_Ledger.thy ===== *)
theory Payment_Ledger
  imports Payment_Refund Payment_Reads
begin

text \<open>
  The ledger of paid orders: the redeem code of an order is the key under which its amount is credited. The invariant
  ties the orders, their codes and the history of balance changes together, and every writer of the payment service is
  shown to keep it, whatever fails and whatever happens between its calls. \<open>own\<close> names the codes that belong to orders,
  with the user and the amount; nobody else creates or redeems such a code.
\<close>

section \<open>The invariant\<close>

type_synonym order_codes = "string \<Rightarrow> (int \<times> rat) option"

definition proper_codes :: "order_codes \<Rightarrow> bool" where
  "proper_codes own = (\<forall>code u a. own code = Some (u, a) \<longrightarrow> 0 < a \<and> code \<noteq> '''' \<and> trim_space code = code)"

definition is_settled :: "payment_order \<Rightarrow> bool" where
  "is_settled po = (po_Status po = OrderStatusCompleted \<or> psIsRefundStatus (po_Status po))"

definition order_key :: "payment_order \<Rightarrow> int \<times> int \<times> rat \<times> string \<times> string" where
  "order_key po = (po_ID po, po_UserID po, po_Amount po, po_RechargeCode po, po_OrderType po)"

definition credits :: "string \<Rightarrow> pay_db \<Rightarrow> balance_move list" where
  "credits code db = filter (\<lambda>m. bm_Code m = Some code) (pd_moves db)"

definition credit_of :: "string \<Rightarrow> int \<Rightarrow> rat \<Rightarrow> balance_move" where
  "credit_of code u a = \<lparr>bm_Code = Some code, bm_UserID = u, bm_Amount = a\<rparr>"

definition code_used :: "string \<Rightarrow> pay_db \<Rightarrow> bool" where
  "code_used code db = (case find_code code db of None \<Rightarrow> False | Some c \<Rightarrow> IsUsed c)"

definition code_ok :: "string \<Rightarrow> int \<Rightarrow> rat \<Rightarrow> pay_db \<Rightarrow> bool" where
  "code_ok code u a db =
     ((case find_code code db of None \<Rightarrow> True | Some c \<Rightarrow> rc_Type c = RedeemTypeBalance \<and> rc_Value c = a)
      \<and> credits code db = (if code_used code db then [credit_of code u a] else []))"

definition order_ok :: "order_codes \<Rightarrow> pay_db \<Rightarrow> payment_order \<Rightarrow> bool" where
  "order_ok own db po =
     (po_OrderType po = OrderTypeSubscription
      \<or> own (po_RechargeCode po) = Some (po_UserID po, po_Amount po) \<and> (is_settled po \<longrightarrow> code_used (po_RechargeCode po) db))"

definition codes_keyed :: "pay_db \<Rightarrow> bool" where
  "codes_keyed db =
     (distinct (map rc_ID (pd_codes db)) \<and> distinct (map rc_Code (pd_codes db))
      \<and> (\<forall>c \<in> set (pd_codes db). rc_ID c < pd_next_code db))"

definition ledger_ok :: "order_codes \<Rightarrow> pay_db \<Rightarrow> bool" where
  "ledger_ok own db =
     (codes_keyed db \<and> distinct (map po_ID (pd_orders db)) \<and> (\<forall>po \<in> set (pd_orders db). order_ok own db po)
      \<and> (\<forall>code u a. own code = Some (u, a) \<longrightarrow> code_ok code u a db))"

text \<open>What only grows: used codes of orders stay used, orders stay with what identifies them and stay settled, and the
  ids of codes are never taken again.\<close>

definition ledger_le :: "order_codes \<Rightarrow> pay_db \<Rightarrow> pay_db \<Rightarrow> bool" where
  "ledger_le own db db' =
     ((\<forall>code. own code \<noteq> None \<longrightarrow> code_used code db \<longrightarrow> code_used code db')
      \<and> (\<forall>po \<in> set (pd_orders db). \<exists>po' \<in> set (pd_orders db'). order_key po' = order_key po \<and> (is_settled po \<longrightarrow> is_settled po'))
      \<and> pd_next_code db \<le> pd_next_code db'
      \<and> (\<forall>c' \<in> set (pd_codes db'). rc_ID c' < pd_next_code db \<longrightarrow> (\<exists>c \<in> set (pd_codes db). rc_ID c = rc_ID c' \<and> rc_Code c = rc_Code c')))"

interpretation ledger: store_rely "ledger_ok own" "ledger_le own" for own
proof
  fix a b c assume le: "ledger_le own a b" "ledger_le own b c"
  show "ledger_le own a c" unfolding ledger_le_def
  proof (intro conjI ballI impI allI)
    fix po assume "po \<in> set (pd_orders a)"
    then obtain po' where po': "po' \<in> set (pd_orders b)" "order_key po' = order_key po" "is_settled po \<longrightarrow> is_settled po'"
      using le(1) unfolding ledger_le_def by blast
    then obtain po'' where "po'' \<in> set (pd_orders c)" "order_key po'' = order_key po'" "is_settled po' \<longrightarrow> is_settled po''"
      using le(2) unfolding ledger_le_def by blast
    with po' show "\<exists>po'' \<in> set (pd_orders c). order_key po'' = order_key po \<and> (is_settled po \<longrightarrow> is_settled po'')" by auto
  next
    fix k assume k: "k \<in> set (pd_codes c)" "rc_ID k < pd_next_code a"
    then have "rc_ID k < pd_next_code b" using le(1) unfolding ledger_le_def by auto
    then obtain k' where k': "k' \<in> set (pd_codes b)" "rc_ID k' = rc_ID k" "rc_Code k' = rc_Code k"
      using le(2) k(1) unfolding ledger_le_def by blast
    then obtain k'' where "k'' \<in> set (pd_codes a)" "rc_ID k'' = rc_ID k'" "rc_Code k'' = rc_Code k'"
      using le(1) k(2) unfolding ledger_le_def by auto
    with k' show "\<exists>k'' \<in> set (pd_codes a). rc_ID k'' = rc_ID k \<and> rc_Code k'' = rc_Code k" by auto
  qed (use le in \<open>auto simp: ledger_le_def\<close>)
qed (auto simp: ledger_le_def)

section \<open>Facts that stay\<close>

definition order_known :: "payment_order \<Rightarrow> pay_db \<Rightarrow> bool" where
  "order_known po db = (\<exists>x \<in> set (pd_orders db). order_key x = order_key po)"

definition order_settled :: "int \<Rightarrow> pay_db \<Rightarrow> bool" where
  "order_settled oid db = (\<exists>x \<in> set (pd_orders db). po_ID x = oid \<and> is_settled x)"

definition code_known :: "RedeemCode \<Rightarrow> pay_db \<Rightarrow> bool" where
  "code_known c db = (rc_ID c < pd_next_code db \<and> (\<forall>x \<in> set (pd_codes db). rc_ID x = rc_ID c \<longrightarrow> rc_Code x = rc_Code c))"

lemma order_known_stays: "order_known po a \<Longrightarrow> ledger_le own a b \<Longrightarrow> order_known po b"
  unfolding order_known_def ledger_le_def by fastforce

lemma order_settled_stays: "order_settled oid a \<Longrightarrow> ledger_le own a b \<Longrightarrow> order_settled oid b"
  unfolding order_settled_def ledger_le_def order_key_def by (metis fst_conv)

lemma code_known_stays: "code_known c a \<Longrightarrow> ledger_le own a b \<Longrightarrow> code_known c b"
  unfolding code_known_def ledger_le_def by fastforce

lemma code_used_stays: "code_used code a \<Longrightarrow> own code \<noteq> None \<Longrightarrow> ledger_le own a b \<Longrightarrow> code_used code b"
  unfolding ledger_le_def by blast

lemma order_known_here: "po \<in> set (pd_orders db) \<Longrightarrow> order_known po db"
  by (auto simp: order_known_def)

lemma same_order:
  "ledger_ok own db \<Longrightarrow> x \<in> set (pd_orders db) \<Longrightarrow> y \<in> set (pd_orders db) \<Longrightarrow> po_ID x = po_ID y \<Longrightarrow> x = y"
  by (auto simp: ledger_ok_def intro: distinct_map_same [of po_ID])

lemma known_order:
  assumes "ledger_ok own db" "order_known po db" "x \<in> set (pd_orders db)" "po_ID x = po_ID po"
  shows "order_key x = order_key po"
proof -
  obtain y where y: "y \<in> set (pd_orders db)" "order_key y = order_key po" using assms(2) by (auto simp: order_known_def)
  then have "po_ID y = po_ID po" by (simp add: order_key_def)
  then show ?thesis using same_order [OF assms(1,3) y(1)] y(2) assms(4) by simp
qed

lemma settled_order: "ledger_ok own db \<Longrightarrow> order_settled oid db \<Longrightarrow> x \<in> set (pd_orders db) \<Longrightarrow> po_ID x = oid \<Longrightarrow> is_settled x"
  using same_order by (fastforce simp: order_settled_def)

section \<open>Writes\<close>

text \<open>Writes that leave orders and codes alone, and the credits of orders.\<close>

definition ledger_same :: "order_codes \<Rightarrow> pay_db \<Rightarrow> pay_db \<Rightarrow> bool" where
  "ledger_same own db db' =
     (pd_orders db' = pd_orders db \<and> pd_codes db' = pd_codes db \<and> pd_next_code db' = pd_next_code db
      \<and> (\<forall>code. own code \<noteq> None \<longrightarrow> credits code db' = credits code db))"

lemma ledger_same_refl [simp]: "ledger_same own db db"
  by (simp add: ledger_same_def)

lemma ledger_same_trans: "ledger_same own a b \<Longrightarrow> ledger_same own b c \<Longrightarrow> ledger_same own a c"
  by (simp add: ledger_same_def)

lemma ledger_frame:
  assumes "ledger_ok own db" "ledger_same own db db'"
  shows "ledger_ok own db' \<and> ledger_le own db db'"
proof -
  have used: "code_used code db' = code_used code db" for code
    using assms(2) by (simp add: code_used_def find_code_def ledger_same_def)
  then have "order_ok own db' po = order_ok own db po" for po by (simp add: order_ok_def)
  moreover have "code_ok code u a db' = code_ok code u a db" if "own code = Some (u, a)" for code u a
    using assms(2) that used by (simp add: code_ok_def find_code_def ledger_same_def)
  ultimately show ?thesis using assms used by (auto simp: ledger_ok_def ledger_le_def ledger_same_def codes_keyed_def)
qed

lemma ledger_same_db:
  "pd_orders db' = pd_orders db \<Longrightarrow> pd_codes db' = pd_codes db \<Longrightarrow> pd_next_code db' = pd_next_code db \<Longrightarrow> pd_moves db' = pd_moves db
    \<Longrightarrow> ledger_same own db db'"
  by (simp add: ledger_same_def credits_def)

text \<open>Writes to orders.\<close>

lemma ledger_orders:
  assumes ok: "ledger_ok own db" and key: "\<And>po. order_key (f po) = order_key po"
    and settled: "\<And>po. po \<in> set (pd_orders db) \<Longrightarrow> p po \<Longrightarrow> is_settled po \<Longrightarrow> is_settled (f po)"
    and used: "\<And>po. po \<in> set (pd_orders db) \<Longrightarrow> p po \<Longrightarrow> is_settled (f po) \<Longrightarrow> po_OrderType po \<noteq> OrderTypeSubscription \<Longrightarrow>
      is_settled po \<or> code_used (po_RechargeCode po) db"
  shows "ledger_ok own (db\<lparr>pd_orders := update_where p f (pd_orders db)\<rparr>)
    \<and> ledger_le own db (db\<lparr>pd_orders := update_where p f (pd_orders db)\<rparr>)"
proof -
  let ?db = "db\<lparr>pd_orders := update_where p f (pd_orders db)\<rparr>"
  have u: "code_used code ?db = code_used code db" for code by (simp add: code_used_def find_code_def)
  have kf: "po_ID (f po) = po_ID po" "po_UserID (f po) = po_UserID po" "po_Amount (f po) = po_Amount po"
    "po_RechargeCode (f po) = po_RechargeCode po" "po_OrderType (f po) = po_OrderType po" for po
    using key [of po] by (simp_all add: order_key_def)
  have "map po_ID (update_where p f (pd_orders db)) = map po_ID (pd_orders db)" using kf(1) by (simp add: map_update_where)
  moreover have "order_ok own ?db po" if prem: "po \<in> set (update_where p f (pd_orders db))" for po
  proof -
    obtain x where x: "x \<in> set (pd_orders db)" "po = (if p x then f x else x)" using prem by (auto simp: set_update_where)
    then have "order_ok own db x" using ok by (simp add: ledger_ok_def)
    then show ?thesis using x used [OF x(1)] u kf by (auto simp: order_ok_def)
  qed
  moreover have "code_ok code v a ?db = code_ok code v a db" for code v a
    using u by (simp add: code_ok_def find_code_def credits_def)
  ultimately have "ledger_ok own ?db" using ok by (simp add: ledger_ok_def codes_keyed_def)
  moreover have "\<exists>po' \<in> set (update_where p f (pd_orders db)). order_key po' = order_key po \<and> (is_settled po \<longrightarrow> is_settled po')"
    if prem: "po \<in> set (pd_orders db)" for po
  proof (rule bexI)
    show "(if p po then f po else po) \<in> set (update_where p f (pd_orders db))" using prem by (auto simp: set_update_where)
  qed (use prem settled key in auto)
  ultimately show ?thesis using u by (auto simp: ledger_le_def)
qed

text \<open>A code that is created.\<close>

lemma ledger_add_code:
  assumes ok: "ledger_ok own db" and fresh: "\<not> code_exists (rc_Code c) db"
    and own: "\<And>u a. own (rc_Code c) = Some (u, a) \<Longrightarrow> rc_Type c = RedeemTypeBalance \<and> rc_Value c = a \<and> \<not> IsUsed c"
  shows "ledger_ok own (add_code c db) \<and> ledger_le own db (add_code c db)"
proof -
  have other: "find_code code (add_code c db) = find_code code db" if "code \<noteq> rc_Code c" for code
    using that by (cases "find_code code db") (simp_all add: find_code_def add_code_def find_append_None find_append_Some)
  have none: "find_code (rc_Code c) db = None" using fresh by (auto simp: find_code_def code_exists_def find_None_iff)
  then have new: "find_code (rc_Code c) (add_code c db) = Some (c\<lparr>rc_ID := pd_next_code db\<rparr>)"
    by (simp add: find_code_def add_code_def find_append_None)
  have cr: "credits code (add_code c db) = credits code db" for code by (simp add: credits_def add_code_def)
  have used: "code_used code (add_code c db) = code_used code db" if prem: "own code \<noteq> None" for code
  proof (cases "code = rc_Code c")
    case True
    then obtain u a where "own (rc_Code c) = Some (u, a)" using prem by (cases "own code") auto
    then show ?thesis using True own new none by (simp add: code_used_def IsUsed_def)
  qed (simp add: code_used_def other)
  have "order_ok own (add_code c db) po" if "po \<in> set (pd_orders db)" for po
    using ok that used [of "po_RechargeCode po"] by (auto simp: ledger_ok_def order_ok_def)
  moreover have "code_ok code u a (add_code c db)" if o: "own code = Some (u, a)" for code u a
  proof -
    have "code_ok code u a db" using ok o by (simp add: ledger_ok_def)
    moreover have "code_used code (add_code c db) = code_used code db" using used o by simp
    ultimately show ?thesis using own o new none other [of code] by (cases "code = rc_Code c") (auto simp: code_ok_def cr)
  qed
  moreover have "codes_keyed (add_code c db)"
    using ok fresh by (fastforce simp: ledger_ok_def codes_keyed_def add_code_def code_exists_def)
  ultimately have "ledger_ok own (add_code c db)" using ok by (simp add: ledger_ok_def add_code_def)
  then show ?thesis using used by (auto simp: ledger_le_def add_code_def)
qed

text \<open>A code of an order that is redeemed: marked and credited in one step.\<close>

lemma find_by_code: "codes_keyed db \<Longrightarrow> c \<in> set (pd_codes db) \<Longrightarrow> find_code (rc_Code c) db = Some c"
  unfolding find_code_def codes_keyed_def by (auto intro: find_by_key)

lemma ledger_redeem:
  fixes r :: rat and t :: time
  assumes ok: "ledger_ok own db" and x: "x \<in> set (pd_codes db)" "rc_ID x = cid" "rc_Code x = code" "rc_Status x = StatusUnused"
    and own: "own code = Some (u, a)" and user: "\<exists>v \<in> set (pd_users db). pu_ID v = u"
  defines "db' \<equiv> add_balance (Some code) u a r (mark_used cid u t db)"
  shows "ledger_ok own db' \<and> ledger_le own db db' \<and> code_used code db'"
proof -
  let ?f = "\<lambda>c. c\<lparr>rc_Status := StatusUsed, rc_UsedBy := Some u, rc_UsedAt := Some t\<rparr>"
  have keyed: "codes_keyed db" using ok by (simp add: ledger_ok_def)
  have codes: "pd_codes db' = update_where (usable cid) ?f (pd_codes db)" and rest: "pd_orders db' = pd_orders db"
      "pd_next_code db' = pd_next_code db" and moves: "pd_moves db' = pd_moves db @ [credit_of code u a]"
    using user by (simp_all add: db'_def add_balance_def mark_used_def credit_of_def)
  have find: "find_code k db' = map_option (\<lambda>c. if usable cid c then ?f c else c) (find_code k db)" for k
    unfolding find_code_def codes by (rule find_update_where) simp
  have at: "find_code code db = Some x" using find_by_code [OF keyed x(1)] x(3) by simp
  have here: "find_code code db' = Some (?f x)" using find [of code] at x by (simp add: usable_def)
  have other: "find_code k db' = find_code k db" if prem: "k \<noteq> code" for k
  proof (cases "find_code k db")
    case (Some y)
    then have y: "y \<in> set (pd_codes db)" "rc_Code y = k" using find_Some_in unfolding find_code_def by fast+
    have "rc_ID y \<noteq> cid"
    proof
      assume "rc_ID y = cid"
      then have "y = x" using keyed y(1) x by (auto simp: codes_keyed_def intro: distinct_map_same [of rc_ID])
      then show False using y(2) x(3) prem by simp
    qed
    then show ?thesis using find [of k] Some by (simp add: usable_def)
  qed (simp add: find)
  have unused: "\<not> code_used code db" using at x(4) by (simp add: code_used_def IsUsed_def StatusUnused_def StatusUsed_def)
  have used: "code_used k db' = (k = code \<or> code_used k db)" for k
    using here other [of k] by (cases "k = code") (simp_all add: code_used_def IsUsed_def)
  have cr: "credits k db' = credits k db @ (if k = code then [credit_of code u a] else [])" for k
    by (simp add: credits_def moves credit_of_def)
  have "order_ok own db' po" if "po \<in> set (pd_orders db)" for po
    using ok that used by (auto simp: ledger_ok_def order_ok_def)
  moreover have "code_ok k v b db'" if prem: "own k = Some (v, b)" for k v b
  proof -
    have "code_ok k v b db" using ok prem by (simp add: ledger_ok_def)
    then show ?thesis using prem own here at other [of k] used [of k] cr [of k] unused
      by (cases "k = code") (auto simp: code_ok_def)
  qed
  moreover have "codes_keyed db'" using keyed by (auto simp: codes_keyed_def codes rest map_update_where set_update_where)
  ultimately have "ledger_ok own db'" using ok by (simp add: ledger_ok_def rest)
  moreover have "ledger_le own db db'" using used by (auto simp: ledger_le_def rest codes set_update_where)
  ultimately show ?thesis using used by simp
qed

end
