(* ===== verification/Payment_Frames.thy ===== *)
theory Payment_Frames
  imports Payment_Ledger
begin

text \<open>
  The ledger of paid orders over single statements and over the two services a fulfilment calls: redeeming the code of an
  order keeps the ledger and leaves the code used, and the rebate of the inviter leaves orders, codes and credits alone.
\<close>

abbreviation lkind :: "order_codes \<Rightarrow> pay_env \<Rightarrow> bool" where
  "lkind own \<equiv> kind (ledger_ok own) (ledger_le own)"

abbreviation lgoes :: "order_codes \<Rightarrow> pay_world \<Rightarrow> pay_world \<Rightarrow> bool" where
  "lgoes own \<equiv> goes (ledger_ok own) (ledger_le own)"

abbreviation lyields :: "order_codes \<Rightarrow> pay_world \<Rightarrow> 'a io \<Rightarrow> ('a \<Rightarrow> pay_db \<Rightarrow> bool) \<Rightarrow> bool" where
  "lyields own \<equiv> yields (ledger_ok own) (ledger_le own)"

section \<open>Single statements\<close>

lemma goes_quiet:
  assumes "lkind own e" "\<And>db. ledger_same own db (write db)"
  shows "lgoes own w (snd (stmt e False ask write w))"
  using assms(1) by (rule ledger.stmt_goes) (rule ledger_frame [OF _ assms(2)])

lemma goes_audit: "lkind own e \<Longrightarrow> lgoes own w (writeAuditLog e oid act op w)"
  unfolding writeAuditLog_def by (rule goes_quiet) (auto intro: ledger_same_db simp: add_audit_def)

lemma goes_has_audit: "lkind own e \<Longrightarrow> lgoes own w (snd (hasAuditLog e oid act w))"
proof -
  assume e: "lkind own e"
  have "lgoes own w (snd (stmt e False (\<lambda>db. Inr (audited oid act db)) (\<lambda>db. db) w))" using e by (rule ledger.goes_ask)
  then show ?thesis unfolding hasAuditLog_def by (auto split: prod.split sum.split)
qed

lemma yields_order: "lkind own e \<Longrightarrow> lyields own w (get_order e oid w) (\<lambda>po db. po \<in> set (pd_orders db) \<and> po_ID po = oid)"
  unfolding get_order_def
  by (rule ledger.yields_ask) (auto simp: find_order_def dest: find_Some_in split: option.splits)

lemma yields_by_trade_no: "lkind own e \<Longrightarrow> lyields own w (order_by_out_trade_no e s w) (\<lambda>po db. po \<in> set (pd_orders db))"
  unfolding order_by_out_trade_no_def
proof (rule ledger.yields_ask)
  fix db po
  assume "(case filter (\<lambda>po. po_OutTradeNo po = s) (pd_orders db) of [] \<Rightarrow> Inl ent_order_not_found | [po] \<Rightarrow> Inr po
      | _ \<Rightarrow> Inl (OtherError ''ent: payment_order not singular'' None)) = Inr po"
  then have "filter (\<lambda>po. po_OutTradeNo po = s) (pd_orders db) = [po]" by (auto split: list.splits)
  then have "set (filter (\<lambda>po. po_OutTradeNo po = s) (pd_orders db)) = {po}" by simp
  then show "po \<in> set (pd_orders db)" by auto
qed

text \<open>Changes of orders that nothing has to be known for: they do not settle and do not unsettle.\<close>

definition tame :: "(payment_order \<Rightarrow> bool) \<Rightarrow> (payment_order \<Rightarrow> payment_order) \<Rightarrow> bool" where
  "tame p f = (\<forall>po. order_key (f po) = order_key po \<and> (p po \<longrightarrow> is_settled (f po) = is_settled po))"

lemma key_of_updated [simp]: "order_key (po\<lparr>po_UpdatedAt := t\<rparr>) = order_key po" "is_settled (po\<lparr>po_UpdatedAt := t\<rparr>) = is_settled po"
  by (simp_all add: order_key_def is_settled_def)

lemma yields_orders:
  assumes e: "lkind own e" and key: "\<And>po. order_key (f po) = order_key po"
    and settled: "\<And>db po. ledger_ok own db \<Longrightarrow> ledger_le own (pw_db w) db \<Longrightarrow> po \<in> set (pd_orders db) \<Longrightarrow> p po \<Longrightarrow>
      is_settled po \<Longrightarrow> is_settled (f po)"
    and used: "\<And>db po. ledger_ok own db \<Longrightarrow> ledger_le own (pw_db w) db \<Longrightarrow> po \<in> set (pd_orders db) \<Longrightarrow> p po \<Longrightarrow> is_settled (f po) \<Longrightarrow>
      po_OrderType po \<noteq> OrderTypeSubscription \<Longrightarrow> is_settled po \<or> code_used (po_RechargeCode po) db"
  shows "lyields own w (update_orders e p f w)
    (\<lambda>n db. 0 < n \<longrightarrow> (\<exists>y. p y \<and> (\<exists>x \<in> set (pd_orders db). order_key x = order_key y \<and> is_settled x = is_settled (f y))))"
  unfolding update_orders_def using e
proof (rule ledger.yields_stmt)
  fix db n
  let ?f = "\<lambda>po. (f po)\<lparr>po_UpdatedAt := now e w\<rparr>"
  assume db: "ledger_ok own db" "ledger_le own (pw_db w) db" and n: "Inr (length (filter p (pd_orders db))) = (Inr n :: go_error + nat)"
  have "\<exists>y. p y \<and> (\<exists>x \<in> set (update_where p ?f (pd_orders db)). order_key x = order_key y \<and> is_settled x = is_settled (f y))" if "0 < n"
  proof -
    have "filter p (pd_orders db) \<noteq> []" using that n by auto
    then obtain y where y: "y \<in> set (pd_orders db)" "p y" by (auto simp: filter_empty_conv)
    then have "?f y \<in> set (update_where p ?f (pd_orders db))" by (simp add: set_update_where)
    then show ?thesis using y key [of y] by (intro exI [of _ y] conjI bexI [of _ "?f y"]) simp_all
  qed
  moreover have "ledger_ok own (db\<lparr>pd_orders := update_where p ?f (pd_orders db)\<rparr>)
      \<and> ledger_le own db (db\<lparr>pd_orders := update_where p ?f (pd_orders db)\<rparr>)"
    using db(1) by (rule ledger_orders) (use key settled [OF db] used [OF db] in simp_all)
  ultimately show "ledger_ok own (db\<lparr>pd_orders := update_where p ?f (pd_orders db)\<rparr>)
      \<and> ledger_le own db (db\<lparr>pd_orders := update_where p ?f (pd_orders db)\<rparr>)
      \<and> (0 < n \<longrightarrow> (\<exists>y. p y \<and> (\<exists>x \<in> set (pd_orders (db\<lparr>pd_orders := update_where p ?f (pd_orders db)\<rparr>)).
          order_key x = order_key y \<and> is_settled x = is_settled (f y))))"
    by simp
qed

lemma goes_orders: "lkind own e \<Longrightarrow> tame p f \<Longrightarrow> lgoes own w (snd (update_orders e p f w))"
  by (rule yields_goes, rule yields_orders) (auto simp: tame_def)

text \<open>\<open>UpdateOneID\<close> on an order known to be settled.\<close>

lemma goes_settled_order:
  assumes e: "lkind own e" and known: "ledger_ok own (pw_db w) \<Longrightarrow> order_settled oid (pw_db w)"
    and f: "\<And>po. order_key (f po) = order_key po" "\<And>po. is_settled (f po)"
  shows "lgoes own w (snd (update_order e oid f w))"
proof (cases "ledger_ok own (pw_db w)")
  case True
  show ?thesis unfolding update_order_def
  proof (rule yields_goes [where Q = "\<lambda>_ _. True"], rule ledger.yields_stmt [OF e])
    fix db x
    assume db: "ledger_ok own db" "ledger_le own (pw_db w) db"
    have "order_settled oid db" using order_settled_stays [OF known [OF True] db(2)] .
    then have "is_settled po" if "po \<in> set (pd_orders db)" "po_ID po = oid" for po
      using settled_order [OF db(1)] that by blast
    then show "ledger_ok own (db\<lparr>pd_orders := update_where (\<lambda>po. po_ID po = oid) (\<lambda>po. (f po)\<lparr>po_UpdatedAt := now e w\<rparr>) (pd_orders db)\<rparr>)
        \<and> ledger_le own db (db\<lparr>pd_orders := update_where (\<lambda>po. po_ID po = oid) (\<lambda>po. (f po)\<lparr>po_UpdatedAt := now e w\<rparr>) (pd_orders db)\<rparr>)
        \<and> True"
      using ledger_orders [OF db(1), of "\<lambda>po. (f po)\<lparr>po_UpdatedAt := now e w\<rparr>" "\<lambda>po. po_ID po = oid"] f by simp
  qed
qed (simp add: goes_def)

section \<open>Redeeming the code of an order\<close>

lemma run_use:
  "tx_run (\<lambda>db. db = db0) (redeem_Use e True cid uid)
    (\<lambda>_ db. (\<exists>x \<in> set (pd_codes db0). usable cid x) \<and> (\<exists>t. db = mark_used cid uid t db0))"
proof -
  let ?R = "\<lambda>n db. n = length (filter (usable cid) (pd_codes db0)) \<and> (\<exists>t. db = mark_used cid uid t db0)"
  let ?Q = "\<lambda>_ db. (\<exists>x \<in> set (pd_codes db0). usable cid x) \<and> (\<exists>t. db = mark_used cid uid t db0)"
  have "tx_run (?R n) (\<lambda>w. if n = 0 then (Inl ErrRedeemCodeUsed, w) else (Inr (), w)) ?Q" for n
  proof (cases "n = 0")
    case False
    show ?thesis unfolding if_not_P [OF False]
    proof (rule tx_run_return)
      fix db assume "?R n db"
      moreover from this False have "filter (usable cid) (pd_codes db0) \<noteq> []" by auto
      ultimately show "?Q () db" by (auto simp: filter_empty_conv)
    qed
  qed (simp add: tx_run_fail)
  then show ?thesis unfolding redeem_Use_def [abs_def] by (intro tx_run_seq_id [where R = ?R] tx_run_stmt) auto
qed

lemma run_credit:
  assumes "0 < a"
  shows "tx_run P (UpdateBalance e True code uid a)
    (\<lambda>_ db. \<exists>db1. P db1 \<and> (\<exists>v \<in> set (pd_users db1). pu_ID v = uid) \<and> db = add_balance code uid a a db1)"
proof -
  let ?R = "\<lambda>n db. \<exists>db1. P db1 \<and> n = length (filter (\<lambda>u. pu_ID u = uid) (pd_users db1)) \<and> db = add_balance code uid a a db1"
  let ?Q = "\<lambda>_ db. \<exists>db1. P db1 \<and> (\<exists>v \<in> set (pd_users db1). pu_ID v = uid) \<and> db = add_balance code uid a a db1"
  have "tx_run (?R n) (\<lambda>w. if n = 0 then (Inl pay_ErrUserNotFound, w) else (Inr (), w)) ?Q" for n
  proof (cases "n = 0")
    case False
    show ?thesis unfolding if_not_P [OF False]
    proof (rule tx_run_return)
      fix db assume "?R n db"
      then obtain db1 where db1: "P db1" "n = length (filter (\<lambda>u. pu_ID u = uid) (pd_users db1))" "db = add_balance code uid a a db1"
        by blast
      then have "filter (\<lambda>u. pu_ID u = uid) (pd_users db1) \<noteq> []" using False by auto
      then show "?Q () db" using db1 by (auto simp: filter_empty_conv)
    qed
  qed (simp add: tx_run_fail)
  then show ?thesis unfolding UpdateBalance_def [abs_def] using assms by (intro tx_run_seq_id [where R = ?R] tx_run_stmt) auto
qed

lemma run_redeem:
  assumes db0: "ledger_ok own db0" and known: "code_known c db0" and own: "own (rc_Code c) = Some (uid, rc_Value c)"
    and c: "rc_Type c = RedeemTypeBalance" "0 < rc_Value c"
  shows "tx_run (\<lambda>db. db = db0) (redeem_in_tx e cf uid u c)
    (\<lambda>_ db. ledger_ok own db \<and> ledger_le own db0 db \<and> code_used (rc_Code c) db)"
proof -
  let ?P = "\<lambda>db. (\<exists>x \<in> set (pd_codes db0). usable (rc_ID c) x) \<and> (\<exists>t. db = mark_used (rc_ID c) uid t db0)"
  let ?Q = "\<lambda>_ db. ledger_ok own db \<and> ledger_le own db0 db \<and> code_used (rc_Code c) db"
  have credited: "?Q x db" if prem: "?P db1" "\<exists>v \<in> set (pd_users db1). pu_ID v = uid" "db = add_balance (Some (rc_Code c)) uid (rc_Value c) (rc_Value c) db1"
    for x :: unit and db db1
  proof -
    obtain y t where y: "y \<in> set (pd_codes db0)" "rc_ID y = rc_ID c" "rc_Status y = StatusUnused" "db1 = mark_used (rc_ID c) uid t db0"
      using prem(1) by (auto simp: usable_def)
    moreover have "rc_Code y = rc_Code c" using known y(1,2) by (simp add: code_known_def)
    moreover have "\<exists>v \<in> set (pd_users db0). pu_ID v = uid" using prem(2) y(4) by (simp add: mark_used_def)
    ultimately show ?thesis using ledger_redeem [OF db0 y(1,2) _ y(3) own] prem(3) by simp
  qed
  have grant: "redeem_grant e cf uid u c = (\<lambda>w. attempt (UpdateBalance e True (Some (rc_Code c)) uid (rc_Value c) w)
      (\<lambda>err w. (Inl (errorf ''update user balance'' err), w)) (\<lambda>_ w. (Inr (), w)))"
    using c by (simp add: redeem_grant_def [abs_def] Let_def)
  have "tx_run ?P (redeem_grant e cf uid u c) ?Q" unfolding grant
    by (rule tx_run_seq [OF run_credit [OF c(2)]], rule tx_run_return) (use credited in blast)
  then show ?thesis unfolding redeem_in_tx_def [abs_def] by (rule tx_run_seq [OF run_use])
qed

lemma yields_redeem_transaction:
  assumes e: "lkind own e" and known: "code_known c (pw_db w)" and own: "own (rc_Code c) = Some (uid, rc_Value c)"
    and c: "rc_Type c = RedeemTypeBalance" "0 < rc_Value c"
  shows "lyields own w (redeem_transaction e cf uid u c w) (\<lambda>_ db. code_used (rc_Code c) db)"
  unfolding redeem_transaction_def using e
proof (rule ledger.yields_tx [where h = "\<lambda>err. err"])
  fix db0 assume "ledger_ok own db0" "ledger_le own (pw_db w) db0"
  then show "tx_run (\<lambda>db. db = db0) (redeem_in_tx e cf uid u c)
      (\<lambda>_ db. ledger_ok own db \<and> ledger_le own db0 db \<and> code_used (rc_Code c) db)"
    using run_redeem code_known_stays known own c by blast
qed

text \<open>The code that is read belongs to the order and is worth what the order is worth.\<close>

definition code_of_order :: "string \<Rightarrow> rat \<Rightarrow> RedeemCode \<Rightarrow> pay_db \<Rightarrow> bool" where
  "code_of_order code a c db = (rc_Code c = code \<and> rc_Type c = RedeemTypeBalance \<and> rc_Value c = a \<and> code_known c db \<and> (IsUsed c \<longrightarrow> code_used code db))"

lemma found_code:
  assumes ok: "ledger_ok own db" and own: "own code = Some (u, a)" and find: "find_code code db = Some c"
  shows "code_of_order code a c db"
proof -
  have c: "c \<in> set (pd_codes db)" "rc_Code c = code" using find_Some_in [OF find [unfolded find_code_def]] by simp_all
  have "code_ok code u a db" using ok own by (simp add: ledger_ok_def)
  then have "rc_Type c = RedeemTypeBalance" "rc_Value c = a" using find by (simp_all add: code_ok_def)
  moreover have "x = c" if "x \<in> set (pd_codes db)" "rc_ID x = rc_ID c" for x
    using ok that c(1) by (auto simp: ledger_ok_def codes_keyed_def intro: distinct_map_same [of rc_ID])
  then have "code_known c db" using ok c(1) by (auto simp: code_known_def ledger_ok_def codes_keyed_def)
  ultimately show ?thesis using c(2) find by (simp add: code_of_order_def code_used_def)
qed

lemma yields_code:
  assumes "lkind own e" "own code = Some (u, a)"
  shows "lyields own w (redeem_GetByCode e code w) (\<lambda>c. code_of_order code a c)"
  unfolding redeem_GetByCode_def
proof (rule ledger.yields_attempt)
  show "lyields own w (stmt e False (\<lambda>db. Inr (find_code code db)) (\<lambda>db. db) w)
      (\<lambda>found db. \<forall>c. found = Some c \<longrightarrow> code_of_order code a c db)"
    using assms(1) by (rule ledger.yields_ask) (use found_code [of own, OF _ assms(2)] in auto)
next
  fix found :: "RedeemCode option" and w' :: pay_world assume "\<forall>c. found = Some c \<longrightarrow> code_of_order code a c (pw_db w')"
  then show "lyields own w' (code_or_error found, w') (\<lambda>c. code_of_order code a c)"
    by (cases found) (auto simp: code_or_error_def intro: ledger.yields_fail ledger.yields_return)
qed (rule ledger.yields_fail)

lemma goes_cache:
  assumes "lkind own e"
  shows "lgoes own w (snd (checkRedeemRateLimit e cf uid w))" "lgoes own w (incrementRedeemErrorCount e cf uid w)"
    "lgoes own w (snd (acquireRedeemLock e cf code w))" "lgoes own w (releaseRedeemLock e cf code w)"
proof -
  have q: "lgoes own w (snd (GetRedeemAttemptCount e uid w))" "lgoes own w (snd (IncrementRedeemAttemptCount e uid w))"
    "lgoes own w (snd (AcquireRedeemLock e code w))" "lgoes own w (snd (ReleaseRedeemLock e code w))" for w
    unfolding GetRedeemAttemptCount_def IncrementRedeemAttemptCount_def AcquireRedeemLock_def ReleaseRedeemLock_def
    using assms by (auto intro!: goes_quiet intro: ledger_same_db)
  show "lgoes own w (snd (checkRedeemRateLimit e cf uid w))"
    unfolding checkRedeemRateLimit_def using q by (auto intro!: ledger.attempt_goes ledger.goes_refl)
  show "lgoes own w (incrementRedeemErrorCount e cf uid w)" "lgoes own w (releaseRedeemLock e cf code w)"
    unfolding incrementRedeemErrorCount_def releaseRedeemLock_def using q by (auto intro: ledger.goes_refl)
  show "lgoes own w (snd (acquireRedeemLock e cf code w))"
    unfolding acquireRedeemLock_def using q by (auto intro!: ledger.attempt_goes ledger.goes_refl)
qed

lemma yields_locked:
  assumes e: "lkind own e" and own: "own code = Some (u, a)" and a: "0 < a"
  shows "lyields own w (redeem_locked e cf True u code w) (\<lambda>_ db. code_used code db)"
  unfolding redeem_locked_def
proof (rule ledger.yields_attempt [OF yields_code [OF e own]])
  fix err w'
  show "lyields own w' (if Is ErrRedeemCodeNotFound err then (Inl ErrRedeemCodeNotFound, incrementRedeemErrorCount e cf u w')
      else (Inl (errorf ''get redeem code'' err), w')) (\<lambda>_ db. code_used code db)"
    using goes_cache(2) [OF e] by (auto intro: ledger.yields_failed ledger.yields_fail)
next
  fix c and w1 :: pay_world assume c: "code_of_order code a c (pw_db w1)"
  have tx: "lyields own w' (redeem_transaction e cf u v c w') (\<lambda>_ db. code_used code db)"
    if prem: "ledger_le own (pw_db w1) (pw_db w')" for v w'
    using yields_redeem_transaction [OF e, of c w' u cf v] c own a code_known_stays [OF _ prem, of c] by (simp add: code_of_order_def)
  have reread: "lyields own w' (attempt (redeem_GetByID e (rc_ID c) w') (\<lambda>err w. (Inl (errorf ''get updated redeem code'' err), w)) (\<lambda>c w. (Inr c, w)))
      (\<lambda>_ db. code_used code db)" if prem: "code_used code (pw_db w')" for w'
  proof -
    have stays: "code_used code db" if "ledger_le own (pw_db w') db" for db using code_used_stays [OF prem _ that] own by simp
    have "lgoes own w' (snd (redeem_GetByID e (rc_ID c) w'))" unfolding redeem_GetByID_def
      by (intro ledger.attempt_goes ledger.goes_ask e) (simp_all add: ledger.goes_refl)
    then show ?thesis by (intro ledger.yields_attempt [OF goes_yields] ledger.yields_fail ledger.yields_return) (auto intro: stays)
  qed
  have user: "lgoes own w1 (snd (get_user e u w1))" unfolding get_user_def by (rule ledger.goes_ask [OF e])
  have redeem: "lyields own w1 (attempt (get_user e u w1) (\<lambda>err w. (Inl (errorf ''get user'' err), w))
      (\<lambda>v w. attempt (redeem_transaction e cf u v c w) (\<lambda>err w. (Inl err, w))
         (\<lambda>_ w. attempt (redeem_GetByID e (rc_ID c) w) (\<lambda>err w. (Inl (errorf ''get updated redeem code'' err), w)) (\<lambda>c w. (Inr c, w)))))
      (\<lambda>_ db. code_used code db)"
    by (rule ledger.yields_attempt [OF goes_yields [OF user]], rule ledger.yields_fail,
        rule ledger.yields_attempt [OF tx], assumption, rule ledger.yields_fail, rule reread, assumption)
  have skip: "(if b then tryAccrueAffiliateRebateForRedeem e cf True u v w else w) = w" for b v w
    by (cases b) (simp_all add: tryAccrueAffiliateRebateForRedeem_def)
  show "lyields own w1
      (if IsExpiredAt (now e w1) c then (Inl ErrRedeemCodeExpired, incrementRedeemErrorCount e cf u w1)
       else if \<not> CanUse (now e w1) c then (Inl ErrRedeemCodeUsed, incrementRedeemErrorCount e cf u w1)
       else if rc_Type c = RedeemTypeSubscription \<and> rc_GroupID c = None then
         (Inl (BadRequest ''REDEEM_CODE_INVALID'' ''invalid subscription redeem code: missing group_id''), w1)
       else attempt (get_user e u w1) (\<lambda>err w. (Inl (errorf ''get user'' err), w))
         (\<lambda>v w. attempt (redeem_transaction e cf u v c w) (\<lambda>err w. (Inl err, w))
            (\<lambda>_ w. let w = (if rc_Type c = RedeemTypeBalance \<and> 0 < rc_Value c
                             then tryAccrueAffiliateRebateForRedeem e cf True u (rc_Value c) w else w)
               in attempt (redeem_GetByID e (rc_ID c) w) (\<lambda>err w. (Inl (errorf ''get updated redeem code'' err), w)) (\<lambda>c w. (Inr c, w)))))
      (\<lambda>_ db. code_used code db)"
    using redeem goes_cache(2) [OF e]
    by (simp add: skip ledger.yields_failed ledger.yields_fail)
qed

lemma yields_redeem:
  assumes e: "lkind own e" and own: "own code = Some (u, a)" and a: "0 < a"
  shows "lyields own w (Redeem e cf True u code w) (\<lambda>_ db. code_used code db)"
  unfolding Redeem_def
proof (rule ledger.yields_attempt [OF goes_yields [OF goes_cache(1) [OF e]]])
  fix x w1
  obtain b and w2 :: pay_world where b: "acquireRedeemLock e cf code w1 = (b, w2)" by (rule prod.exhaust)
  then have lock: "lgoes own w1 w2" using goes_cache(3) [OF e, of w1 cf code] by simp
  obtain r w3 where r: "redeem_locked e cf True u code w2 = (r, w3)" by (rule prod.exhaust)
  have "lyields own w2 (r, releaseRedeemLock e cf code w3) (\<lambda>_ db. code_used code db)"
    by (rule ledger.yields_then [OF yields_locked [OF e own a, of w2 cf, unfolded r] goes_cache(4) [OF e]])
      (rule code_used_stays [of code _ own], assumption, simp add: own, assumption)
  then have "lyields own w2 (if b then (r, releaseRedeemLock e cf code w3) else (Inl ErrRedeemCodeLocked, w2)) (\<lambda>_ db. code_used code db)"
    by (simp add: ledger.yields_fail)
  then show "lyields own w1 (case acquireRedeemLock e cf code w1 of (False, w) \<Rightarrow> (Inl ErrRedeemCodeLocked, w)
      | (True, w) \<Rightarrow> (case redeem_locked e cf True u code w of (r, w) \<Rightarrow> (r, releaseRedeemLock e cf code w))) (\<lambda>_ db. code_used code db)"
    using ledger.yields_after [OF lock] b r by (cases b) simp_all
qed (rule ledger.yields_fail)

section \<open>The rebate of an order\<close>

text \<open>What runs inside a transaction without touching orders, codes or credits.\<close>

definition quiet :: "order_codes \<Rightarrow> (pay_world \<Rightarrow> 'a io) \<Rightarrow> bool" where
  "quiet own m = (\<forall>db0. tx_run (ledger_same own db0) m (\<lambda>_. ledger_same own db0))"

lemma quiet_stmt:
  assumes "\<And>w db. ledger_same own db (write w db)"
  shows "quiet own (\<lambda>w. stmt e True (ask w) (write w) w)"
  unfolding quiet_def by (intro allI tx_run_stmt) (rule ledger_same_trans [OF _ assms])

lemma quiet_return: "quiet own (\<lambda>w. (r, w))"
  unfolding quiet_def by (cases r) (auto intro: tx_run_return tx_run_fail)

lemma quiet_seq:
  "quiet own m \<Longrightarrow> (\<And>x. quiet own (s x)) \<Longrightarrow> quiet own (\<lambda>w. attempt (m w) (\<lambda>err w. (Inl (g err), w)) s)"
  unfolding quiet_def by (auto intro: tx_run_seq)

lemmas quiet_seq_id = quiet_seq [where g = "\<lambda>err. err"]

lemma quiet_if: "quiet own m \<Longrightarrow> quiet own m' \<Longrightarrow> quiet own (\<lambda>w. if b then m w else m' w)"
  by (cases b) simp_all

lemma quiet_option: "quiet own m \<Longrightarrow> (\<And>x. quiet own (s x)) \<Longrightarrow> quiet own (\<lambda>w. case v of None \<Rightarrow> m w | Some x \<Rightarrow> s x w)"
  by (cases v) simp_all

lemma quiet_clock: "(\<And>t. quiet own (\<lambda>w. m t w)) \<Longrightarrow> quiet own (\<lambda>w. m (now e w) w)"
  unfolding quiet_def tx_run_def by blast

lemma same_affiliates [simp]:
  "ledger_same own db (add_affiliate uid code t db)" "ledger_same own db (update_affiliate p f db)" "ledger_same own db (append_ledger l db)"
  by (rule ledger_same_db; simp add: add_affiliate_def update_affiliate_def append_ledger_def)+

lemma quiet_query: "quiet own (queryAffiliateByUserID e True uid)"
  unfolding queryAffiliateByUserID_def [abs_def] by (rule quiet_stmt) simp

lemma quiet_insert_fresh: "quiet own (insert_fresh e True codes uid n)"
proof (induction n)
  case 0
  have "insert_fresh e True codes uid 0 = (\<lambda>w. (Inr (), w))" by (rule ext) simp
  then show ?case by (simp add: quiet_return)
next
  case (Suc n)
  show ?case
  proof (cases "codes (affiliateCodeMaxAttempts - Suc n)")
    case (Inl err)
    then have "insert_fresh e True codes uid (Suc n) = (\<lambda>w. (Inl err, w))" by (intro ext) simp
    then show ?thesis by (simp add: quiet_return)
  next
    case (Inr code)
    have retry: "tx_run (\<lambda>_. False) (\<lambda>w. if b then insert_fresh e True codes uid n w else (Inl err, w)) (\<lambda>_. ledger_same own db0)" for b err db0
      using Suc by (cases b) (auto simp: quiet_def intro: tx_run_weaken tx_run_fail)
    show ?thesis unfolding quiet_def insert_fresh.simps Inr sum.case insert_affiliate_def
      by (intro allI tx_run_retry [where R = "\<lambda>_. ledger_same own db" for db])
        (auto intro: ledger_same_trans retry tx_run_return)
  qed
qed

lemma quiet_ensure: "quiet own (repo_EnsureUserAffiliate e True codes uid)"
proof -
  have "quiet own (\<lambda>w. attempt (insert_fresh e True codes uid affiliateCodeMaxAttempts w) (\<lambda>err w. (Inl err, w))
      (\<lambda>_ w. attempt (queryAffiliateByUserID e True uid w) (\<lambda>err w. (Inl err, w)) (\<lambda>f w. (profile_or_error f, w))))"
    by (intro quiet_seq_id quiet_insert_fresh quiet_query quiet_return)
  from quiet_option [OF this] have "quiet own (ensureUserAffiliateWithClient e True codes uid)"
    unfolding ensureUserAffiliateWithClient_def [abs_def]
    by (rule quiet_seq_id [OF quiet_query]) (rule quiet_return)
  then show ?thesis unfolding repo_EnsureUserAffiliate_def [abs_def] by (intro quiet_if quiet_return)
qed

lemma quiet_accrue: "quiet own (AccrueQuota e True inviter invitee amount h so)"
  unfolding AccrueQuota_def [abs_def] withTx_joins change_affiliates_def
  by (intro quiet_if quiet_return quiet_seq_id quiet_seq quiet_stmt) simp_all

lemma quiet_accrued: "quiet own (GetAccruedRebateFromInvitee e True inviter invitee)"
  unfolding GetAccruedRebateFromInvitee_def [abs_def] by (intro quiet_seq quiet_return quiet_stmt) simp

lemma quiet_rebate: "quiet own (AccrueInviteRebateForOrder e st codes True uid base so)"
proof -
  have cap: "quiet own (\<lambda>w. if b then attempt (GetAccruedRebateFromInvitee e True inviter uid w) (\<lambda>err w. (Inl err, w))
      (\<lambda>existing w. (Inr (capped_rebate c existing r), w)) else (Inr r, w))" for b inviter c r
    by (intro quiet_if quiet_seq_id quiet_accrued quiet_return)
  have pay: "quiet own (\<lambda>w. if r \<le> 0 then (Inr 0, w) else attempt (AccrueQuota e True inviter uid r h so w) (\<lambda>err w. (Inl err, w))
      (\<lambda>applied w. (Inr (if applied then r else 0), w)))" for r :: rat and inviter h
    by (intro quiet_if quiet_seq_id quiet_accrue quiet_return)
  have "quiet own (\<lambda>w. if 0 < d \<and> c < now e w then (Inr 0, w) else if r \<le> 0 then (Inr 0, w)
      else attempt (if 0 < k then attempt (GetAccruedRebateFromInvitee e True inviter uid w) (\<lambda>err w. (Inl err, w))
          (\<lambda>existing w. (Inr (capped_rebate k existing r), w)) else (Inr r, w)) (\<lambda>err w. (Inl err, w))
        (\<lambda>r w. if r \<le> 0 then (Inr 0, w) else attempt (AccrueQuota e True inviter uid r h so w) (\<lambda>err w. (Inl err, w))
           (\<lambda>applied w. (Inr (if applied then r else 0), w))))" for d :: int and c r k inviter h
    by (rule quiet_clock) (intro quiet_if quiet_return quiet_seq_id cap pay)
  then show ?thesis unfolding AccrueInviteRebateForOrder_def [abs_def] Let_def
    by (intro quiet_if quiet_return quiet_seq_id quiet_ensure quiet_option)
qed

lemma quiet_claim: "quiet own (tryClaimAffiliateRebateAudit e oid)"
  unfolding tryClaimAffiliateRebateAudit_def [abs_def]
  by (rule quiet_stmt) (auto intro: ledger_same_db simp: add_audit_def)

lemma quiet_claimed: "quiet own (updateClaimedAffiliateRebateAudit e oid act)"
  unfolding updateClaimedAffiliateRebateAudit_def [abs_def] Let_def
  by (intro quiet_seq_id quiet_if quiet_return quiet_stmt) (auto intro: ledger_same_db)

lemma quiet_tx_run: "quiet own m \<Longrightarrow> tx_run (ledger_same own db0) m (\<lambda>_. ledger_same own db0)"
  by (simp add: quiet_def)

lemma yields_rebate:
  assumes e: "lkind own e"
  shows "lyields own w (applyAffiliateRebateForOrder e sv po w) (\<lambda>_ _. True)"
proof -
  have failed: "lyields own w (rebate_failed e oid msg err w) (\<lambda>_ _. True)" for oid msg err w
    unfolding rebate_failed_def by (rule ledger.yields_failed [OF ledger.goes_trans [OF goes_audit [OF e] ledger.goes_rollback]])
  have left: "lyields own w (Inr (), rollback w) (\<lambda>_ _. True)" for w
    by (rule goes_yields) (simp add: ledger.goes_rollback)
  note open_seq = ledger.opened_seq [where frame = "ledger_same own", OF quiet_tx_run failed]
  have commit: "opened (ledger_ok own) (ledger_le own) (ledger_same own) w
      (attempt (commit_tx e w) (rebate_failed e oid msg) (\<lambda>_ w. (Inr (), w))) (\<lambda>_ _. True)" for oid msg w
    by (rule ledger.opened_commit [OF ledger_frame failed ledger.yields_return]) simp_all
  show ?thesis unfolding applyAffiliateRebateForOrder_def Let_def
  proof (cases "cf_affiliate (sv_redeem sv)")
    case (Some st)
    have run: "lyields own w (attempt (begin_tx e w) (rebate_failed e oid m1)
        (\<lambda>_ w. attempt (tryClaimAffiliateRebateAudit e oid w) (rebate_failed e oid m2)
           (\<lambda>claimed w. if \<not> claimed then (Inr (), rollback w)
              else attempt (AccrueInviteRebateForOrder e st codes True uid base (Some oid) w) (rebate_failed e oid m3)
                (\<lambda>r w. attempt (updateClaimedAffiliateRebateAudit e oid (act r) w) (rebate_failed e oid (m4 r))
                   (\<lambda>_ w. attempt (commit_tx e w) (rebate_failed e oid m5) (\<lambda>_ w. (Inr (), w))))))) (\<lambda>_ _. True)"
      for oid m1 m2 m3 m4 m5 codes uid base act
    proof (rule ledger.opened_begin [where frame = "ledger_same own", OF e ledger_same_refl failed], rule open_seq [OF quiet_claim])
      fix claimed :: bool and w1 :: pay_world
      have accrue: "opened (ledger_ok own) (ledger_le own) (ledger_same own) w1
          (attempt (AccrueInviteRebateForOrder e st codes True uid base (Some oid) w1) (rebate_failed e oid m3)
             (\<lambda>r w. attempt (updateClaimedAffiliateRebateAudit e oid (act r) w) (rebate_failed e oid (m4 r))
                (\<lambda>_ w. attempt (commit_tx e w) (rebate_failed e oid m5) (\<lambda>_ w. (Inr (), w))))) (\<lambda>_ _. True)"
        by (rule open_seq [OF quiet_rebate], rule open_seq [OF quiet_claimed], rule commit)
      then show "opened (ledger_ok own) (ledger_le own) (ledger_same own) w1
          (if \<not> claimed then (Inr (), rollback w1)
           else attempt (AccrueInviteRebateForOrder e st codes True uid base (Some oid) w1) (rebate_failed e oid m3)
             (\<lambda>r w. attempt (updateClaimedAffiliateRebateAudit e oid (act r) w) (rebate_failed e oid (m4 r))
                (\<lambda>_ w. attempt (commit_tx e w) (rebate_failed e oid m5) (\<lambda>_ w. (Inr (), w))))) (\<lambda>_ _. True)"
        using ledger.opened_leave [OF left] by simp
    qed
    then show "lyields own w
      (if affiliateRebateBaseAmount po \<le> 0 then (Inr (), w)
       else case cf_affiliate (sv_redeem sv) of None \<Rightarrow> (Inr (), w)
         | Some st \<Rightarrow> attempt (begin_tx e w) (rebate_failed e (po_ID po) ''begin affiliate rebate tx'')
             (\<lambda>_ w. attempt (tryClaimAffiliateRebateAudit e (po_ID po) w) (rebate_failed e (po_ID po) ''claim affiliate rebate audit'')
                (\<lambda>claimed w. if \<not> claimed then (Inr (), rollback w)
                   else attempt (AccrueInviteRebateForOrder e st (cf_codes (sv_redeem sv)) True (po_UserID po)
                       (affiliateRebateBaseAmount po) (Some (po_ID po)) w)
                     (rebate_failed e (po_ID po) ''accrue affiliate rebate'')
                     (\<lambda>r w. attempt (updateClaimedAffiliateRebateAudit e (po_ID po)
                             (if r \<le> 0 then ''AFFILIATE_REBATE_SKIPPED'' else ''AFFILIATE_REBATE_APPLIED'') w)
                        (rebate_failed e (po_ID po) (if r \<le> 0 then ''update affiliate rebate skipped audit''
                           else ''update affiliate rebate applied audit''))
                        (\<lambda>_ w. attempt (commit_tx e w) (rebate_failed e (po_ID po) ''commit affiliate rebate tx'')
                           (\<lambda>_ w. (Inr (), w))))))) (\<lambda>_ _. True)"
      unfolding Some option.case by (cases "affiliateRebateBaseAmount po \<le> 0") (simp_all only: if_True if_False ledger.yields_return)
  qed (simp add: ledger.yields_return)
qed

end
