(* ===== verification/Payment_Safety.thy ===== *)
theory Payment_Safety
  imports Payment_Frames
begin

text \<open>
  Every handler of the payment service keeps the ledger of paid orders, and what this says of the credits: no order is
  credited twice, and a completed one has been credited.
\<close>

section \<open>Completion and failure\<close>

text \<open>What is known of the order that a handler holds: it is in the table, and its amount has been credited.\<close>

definition credited :: "payment_order \<Rightarrow> pay_db \<Rightarrow> bool" where
  "credited po db =
     (order_known po db \<and> (po_OrderType po = OrderTypeSubscription \<or> code_used (po_RechargeCode po) db))"

lemma known_own:
  assumes "ledger_ok own db" "order_known po db" "po_OrderType po \<noteq> OrderTypeSubscription"
  shows "own (po_RechargeCode po) = Some (po_UserID po, po_Amount po)"
proof -
  obtain x where x: "x \<in> set (pd_orders db)" "order_key x = order_key po" using assms(2) by (auto simp: order_known_def)
  then have "order_ok own db x" using assms(1) by (simp add: ledger_ok_def)
  then show ?thesis using x(2) assms(3) by (simp add: order_ok_def order_key_def)
qed

lemma credited_stays:
  assumes "ledger_ok own a" "credited po a" "ledger_le own a b"
  shows "credited po b"
proof (cases "po_OrderType po = OrderTypeSubscription")
  case False
  then have "own (po_RechargeCode po) \<noteq> None" using assms known_own by (fastforce simp: credited_def)
  then show ?thesis using assms False code_used_stays order_known_stays by (fastforce simp: credited_def)
qed (use assms order_known_stays in \<open>auto simp: credited_def\<close>)

lemma not_settled [simp]: "po_Status po = OrderStatusRecharging \<Longrightarrow> \<not> is_settled po"
    "po_Status po = OrderStatusPaid \<Longrightarrow> \<not> is_settled po" "po_Status po = OrderStatusFailed \<Longrightarrow> \<not> is_settled po"
    "po_Status po = OrderStatusPending \<Longrightarrow> \<not> is_settled po" "po_Status po = OrderStatusCancelled \<Longrightarrow> \<not> is_settled po"
    "po_Status po = OrderStatusExpired \<Longrightarrow> \<not> is_settled po"
  by (simp_all add: is_settled_def psIsRefundStatus_def order_statuses)

lemma yields_completed:
  assumes e: "lkind own e" and po: "credited po (pw_db w)"
  shows "lyields own w (markCompleted e po act w) (\<lambda>_ _. True)"
proof (cases "ledger_ok own (pw_db w)")
  case ok: True
  have "lyields own w (update_orders e (in_status (po_ID po) [OrderStatusRecharging])
      (\<lambda>x. x\<lparr>po_Status := OrderStatusCompleted, po_CompletedAt := Some t\<rparr>) w) (\<lambda>_ _. True)" for t
  proof (rule yields_weaken [OF yields_orders [OF e]])
    fix db x
    assume db: "ledger_ok own db" "ledger_le own (pw_db w) db" and x: "x \<in> set (pd_orders db)"
      "in_status (po_ID po) [OrderStatusRecharging] x" and sub: "po_OrderType x \<noteq> OrderTypeSubscription"
    have c: "credited po db" using credited_stays [OF ok po db(2)] .
    then have "order_key x = order_key po" using known_order [OF db(1) _ x(1)] x(2) by (simp add: credited_def in_status_def)
    then show "is_settled x \<or> code_used (po_RechargeCode x) db" using c sub by (simp add: credited_def order_key_def)
  qed (auto simp: order_key_def in_status_def)
  then show ?thesis unfolding markCompleted_def Let_def
    by (rule ledger.yields_attempt [OF _ ledger.yields_fail]) (rule goes_yields, simp add: goes_audit [OF e])
qed (simp add: yields_def)

lemma tame_failed: "tame (in_status oid [OrderStatusRecharging])
    (\<lambda>x. x\<lparr>po_Status := OrderStatusFailed, po_FailedAt := t, po_FailedReason := r\<rparr>)"
  by (auto simp: tame_def order_key_def in_status_def)

lemma goes_failed: "lkind own e \<Longrightarrow> lgoes own w (markFailed e oid err w)"
proof -
  assume e: "lkind own e"
  have step: "lgoes own w (snd (update_orders e (in_status oid [OrderStatusRecharging])
      (\<lambda>x. x\<lparr>po_Status := OrderStatusFailed, po_FailedAt := t, po_FailedReason := r\<rparr>) w))" for t r
    using e tame_failed by (rule goes_orders)
  show ?thesis unfolding markFailed_def Let_def
    by (rule ledger.goes_attempt [where p = "\<lambda>x. x", OF goes_yields [OF step]]) (simp_all add: ledger.goes_refl goes_audit [OF e])
qed

section \<open>Balance orders\<close>

lemma goes_create:
  assumes e: "lkind own e" and own: "own (po_RechargeCode po) = Some (u, po_Amount po)" and proper: "proper_codes own"
  shows "lgoes own w (snd (CreateCode e (order_code po) w))"
proof -
  have code: "trim_space (po_RechargeCode po) = po_RechargeCode po" using own proper by (auto simp: proper_codes_def)
  have add: "lgoes own w (snd (redeem_Create e c w))"
    if c: "rc_Code c = po_RechargeCode po" "rc_Type c = RedeemTypeBalance" "rc_Value c = po_Amount po" "rc_Status c = StatusUnused" for c
    unfolding redeem_Create_def using e
  proof (rule ledger.stmt_goes)
    fix db :: pay_db and x :: unit
    assume db: "ledger_ok own db" and "(if code_exists (rc_Code c) db then Inl duplicate_key else Inr ()) = Inr x"
    then have "\<not> code_exists (rc_Code c) db" by (auto split: if_splits)
    with db show "ledger_ok own (add_code c db) \<and> ledger_le own db (add_code c db)"
      by (rule ledger_add_code) (use own c in \<open>simp add: IsUsed_def StatusUnused_def StatusUsed_def\<close>)
  qed
  show ?thesis unfolding CreateCode_def Let_def
    by (simp only: code order_code_def RedeemCode.select_convs snd_conv split: if_split)
      (intro impI conjI ledger.goes_refl ledger.attempt_goes add; simp add: ledger.goes_refl RedeemTypeBalance_def StatusUnused_def)
qed

lemma yields_finish:
  assumes e: "lkind own e" and po: "credited po (pw_db w)"
  shows "lyields own w (finish_balance e sv po w) (\<lambda>_ _. True)"
  unfolding finish_balance_def
  by (rule ledger.yields_attempt [OF yields_rebate [OF e] ledger.yields_fail])
    (rule yields_completed [OF e], rule credited_stays [OF _ po])

lemma yields_redeem_balance:
  assumes e: "lkind own e" and own: "own (po_RechargeCode po) = Some (po_UserID po, po_Amount po)" and proper: "proper_codes own"
    and po: "order_known po (pw_db w)"
  shows "lyields own w (redeem_balance e sv po w) (\<lambda>_ _. True)"
proof -
  have "0 < po_Amount po" using own proper by (auto simp: proper_codes_def)
  then show ?thesis unfolding redeem_balance_def
    by (intro ledger.yields_attempt [OF yields_redeem [OF e own] ledger.yields_fail] yields_finish [OF e])
      (auto simp: credited_def intro: order_known_stays [OF po])
qed

lemma yields_balance:
  assumes e: "lkind own e" and proper: "proper_codes own"
    and po: "order_known po (pw_db w)" "po_OrderType po \<noteq> OrderTypeSubscription"
  shows "lyields own w (doBalance e sv po w) (\<lambda>_ _. True)"
proof (cases "ledger_ok own (pw_db w)")
  case ok: True
  note own = known_own [OF ok po]
  obtain r w1 where g: "redeem_service_GetByCode e (po_RechargeCode po) w = (r, w1)" by (rule prod.exhaust)
  have "lyields own w (redeem_service_GetByCode e (po_RechargeCode po) w) (\<lambda>c. code_of_order (po_RechargeCode po) (po_Amount po) c)"
    unfolding redeem_service_GetByCode_def
    by (rule ledger.yields_attempt [OF yields_code [OF e own] ledger.yields_fail]) (rule ledger.yields_return)
  then have get: "lyields own w (r, w1) (\<lambda>c. code_of_order (po_RechargeCode po) (po_Amount po) c)" by (simp add: g)
  note d = yieldsD [OF get ok]
  have known: "order_known po (pw_db w')" if "ledger_le own (pw_db w1) (pw_db w')" for w' :: pay_world
    using order_known_stays [OF order_known_stays [OF po(1) d(2)] that] .
  have here: "order_known po (pw_db w1)" by (rule order_known_stays [OF po(1) d(2)])
  have used: "code_used (po_RechargeCode po) (pw_db w1)" if "resolveRedeemAction r = redeemActionSkipCompleted"
    using that d(3) by (auto simp: resolveRedeemAction_def code_of_order_def split: sum.splits if_splits)
  have "lyields own w1 (case resolveRedeemAction r of
        redeemActionSkipCompleted \<Rightarrow> finish_balance e sv po w1
      | redeemActionCreate \<Rightarrow>
          attempt (CreateCode e (order_code po) w1) (\<lambda>err w. (Inl (errorf ''create redeem code'' err), w)) (\<lambda>_ w. redeem_balance e sv po w)
      | redeemActionRedeem \<Rightarrow> redeem_balance e sv po w1) (\<lambda>_ _. True)"
  proof (cases "resolveRedeemAction r")
    case redeemActionCreate
    have "lyields own w1 (attempt (CreateCode e (order_code po) w1) (\<lambda>err w. (Inl (errorf ''create redeem code'' err), w))
        (\<lambda>_ w. redeem_balance e sv po w)) (\<lambda>_ _. True)"
      by (rule ledger.yields_attempt [OF goes_yields [OF goes_create [OF e own proper]] ledger.yields_fail])
        (rule yields_redeem_balance [OF e own proper], rule known)
    then show ?thesis using redeemActionCreate by simp
  next
    case redeemActionRedeem
    then show ?thesis using yields_redeem_balance [OF e own proper here] by simp
  next
    case redeemActionSkipCompleted
    then show ?thesis using yields_finish [OF e, of po w1] here used by (simp add: credited_def)
  qed
  then show ?thesis unfolding doBalance_def g by (simp add: ledger.yields_after [OF yields_goes [OF get]])
qed (simp add: yields_def)

lemma tame_taken: "tame (in_status oid [OrderStatusPaid, OrderStatusFailed]) (\<lambda>x. x\<lparr>po_Status := OrderStatusRecharging\<rparr>)"
  by (auto simp: tame_def order_key_def in_status_def)

lemma yields_taken:
  assumes e: "lkind own e" and fulfill: "\<And>w'. ledger_le own (pw_db w) (pw_db w') \<Longrightarrow> lyields own w' (fulfill w') (\<lambda>_ _. True)"
  shows "lyields own w (take_order e oid fulfill w) (\<lambda>_ _. True)"
  unfolding take_order_def
proof (rule ledger.yields_attempt [OF goes_yields [OF goes_orders [OF e tame_taken]] ledger.yields_fail])
  fix c :: nat and w1 :: pay_world assume le1: "ledger_le own (pw_db w) (pw_db w1)"
  have "lyields own w1 (attempt (fulfill w1) (\<lambda>err w. (Inl err, markFailed e oid err w)) (\<lambda>_ w. (Inr (), w))) (\<lambda>_ _. True)"
    by (rule ledger.yields_attempt [OF fulfill [OF le1]]) (simp_all add: ledger.yields_failed goes_failed [OF e] ledger.yields_return)
  then show "lyields own w1 (if c = 0 then (Inr (), w1)
      else attempt (fulfill w1) (\<lambda>err w. (Inl err, markFailed e oid err w)) (\<lambda>_ w. (Inr (), w))) (\<lambda>_ _. True)"
    by (simp add: ledger.yields_return)
qed

lemma yields_execute_balance:
  assumes e: "lkind own e" and proper: "proper_codes own"
    and po: "order_known po0 (pw_db w)" "po_ID po0 = oid" "po_OrderType po0 \<noteq> OrderTypeSubscription"
  shows "lyields own w (ExecuteBalanceFulfillment e sv oid w) (\<lambda>_ _. True)"
  unfolding ExecuteBalanceFulfillment_def
proof (rule ledger.yields_attempt [OF yields_order [OF e] ledger.yields_fail])
  fix po :: payment_order and w1 :: pay_world
  assume w1: "ledger_ok own (pw_db w1)" "ledger_le own (pw_db w) (pw_db w1)" and x: "po \<in> set (pd_orders (pw_db w1)) \<and> po_ID po = oid"
  have "order_key po = order_key po0" using known_order [OF w1(1) order_known_stays [OF po(1) w1(2)]] x po(2) by simp
  then have sub: "po_OrderType po \<noteq> OrderTypeSubscription" using po(3) by (simp add: order_key_def)
  have "order_known po (pw_db w1)" using x order_known_here by blast
  then have "lyields own w1 (take_order e oid (doBalance e sv po) w1) (\<lambda>_ _. True)"
    by (intro yields_taken [OF e] yields_balance [OF e proper _ sub]) (rule order_known_stays)
  then show "lyields own w1 (if po_Status po = OrderStatusCompleted then (Inr (), w1)
      else case cannot_fulfill po of Some err \<Rightarrow> (Inl err, w1) | None \<Rightarrow> take_order e oid (doBalance e sv po) w1) (\<lambda>_ _. True)"
    by (simp add: ledger.yields_return ledger.yields_fail split: option.split)
qed

section \<open>Subscription orders\<close>

text \<open>The subscriptions are no part of the ledger.\<close>

lemma same_subs [simp]: "ledger_same own db (update_subs sid f db)"
  by (rule ledger_same_db) (simp_all add: update_subs_def)

lemma quiet_update_sub: "quiet own (update_sub e True sid f)"
  unfolding update_sub_def [abs_def] by (intro quiet_seq_id quiet_return quiet_stmt) simp

lemma goes_update_sub: "lkind own e \<Longrightarrow> lgoes own w (snd (update_sub e False sid f w))"
  unfolding update_sub_def by (rule ledger.attempt_goes [OF goes_quiet]) (simp_all add: ledger.goes_refl)

lemma goes_subs:
  assumes e: "lkind own e"
  shows "lgoes own w (snd (sub_GetByID e False sid w))" "lgoes own w (snd (GetByUserIDAndGroupID e False uid gid w))"
    "lgoes own w (snd (GetActiveByUserIDAndGroupID e False uid gid w))" "lgoes own w (snd (sub_Create e False sub w))"
    "lgoes own w (snd (sub_Delete e False sid w))" "lgoes own w (snd (get_group e gid w))"
proof -
  have find: "lgoes own w (snd (attempt (stmt e False ask (\<lambda>db. db) w) (\<lambda>err w. (Inl err, w)) (\<lambda>found w. (g found, w))))"
    for ask :: "pay_db \<Rightarrow> go_error + UserSubscription option" and g :: "UserSubscription option \<Rightarrow> go_error + UserSubscription" and w
    by (rule ledger.attempt_goes [OF goes_quiet [OF e]]) (simp_all add: ledger.goes_refl)
  show "lgoes own w (snd (sub_GetByID e False sid w))" "lgoes own w (snd (GetByUserIDAndGroupID e False uid gid w))"
    "lgoes own w (snd (GetActiveByUserIDAndGroupID e False uid gid w))"
    unfolding sub_GetByID_def GetByUserIDAndGroupID_def GetActiveByUserIDAndGroupID_def by (rule find)+
  show "lgoes own w (snd (sub_Create e False sub w))" "lgoes own w (snd (sub_Delete e False sid w))"
    unfolding sub_Create_def sub_Delete_def by (rule goes_quiet [OF e], rule ledger_same_db; simp)+
  show "lgoes own w (snd (get_group e gid w))" unfolding get_group_def by (rule goes_quiet [OF e]) simp
qed

lemma goes_own_tx:
  assumes e: "lkind own e" and body: "quiet own body"
  shows "lgoes own w (snd (own_tx e False body w))"
proof -
  have "tx_run (\<lambda>db. db = db0) body (\<lambda>_ db. ledger_ok own db \<and> ledger_le own db0 db)" if "ledger_ok own db0" for db0
    using body ledger_frame [OF that] unfolding quiet_def by (blast intro: tx_run_weaken ledger_same_refl)
  then have "lgoes own w (snd (attempt (begin_tx e w) (\<lambda>err w. (Inl (errorf ''begin transaction'' err), w))
    (\<lambda>_ w. attempt (body w) (\<lambda>err w. (Inl err, rollback w))
      (\<lambda>x w. attempt (commit_tx e w) (\<lambda>err w. (Inl (errorf ''commit transaction'' err), w)) (\<lambda>_ w. (Inr x, w))))))"
    by (rule ledger.tx_goes [OF e, where h = "\<lambda>err. err"])
  then show ?thesis by (simp add: own_tx_def)
qed

lemma goes_renewal: "lkind own e \<Longrightarrow> lgoes own w (snd (updateExistingSubscriptionTerm e zone False sub notes t t' b w))"
  unfolding updateExistingSubscriptionTerm_def
  by (erule goes_own_tx)
    (intro quiet_if quiet_seq quiet_return quiet_update_sub; simp add: sub_Update_def ExtendExpiry_def UpdateStatus_def UpdateNotes_def
       quiet_update_sub quiet_if quiet_return)

lemma goes_assign: "lkind own e \<Longrightarrow> lgoes own w (snd (AssignOrExtendSubscription e zone False input w))"
  unfolding AssignOrExtendSubscription_def createSubscription_def Let_def
  by (intro ledger.attempt_goes goes_subs goes_renewal; (simp add: ledger.goes_refl)?)
   (auto intro!: ledger.attempt_goes goes_subs goes_renewal ledger.goes_refl)

lemma goes_revoke: "lkind own e \<Longrightarrow> lgoes own w (snd (RevokeSubscription e sid w))"
  unfolding RevokeSubscription_def by (intro ledger.attempt_goes goes_subs) (simp_all add: ledger.goes_refl)

lemma goes_extend: "lkind own e \<Longrightarrow> lgoes own w (snd (ExtendSubscription e sid days w))"
  unfolding ExtendSubscription_def Let_def ExtendExpiry_def UpdateStatus_def
  by (intro ledger.attempt_goes goes_subs) (auto intro!: ledger.attempt_goes goes_subs goes_update_sub ledger.goes_refl)

lemma goes_was_assigned: "lkind own e \<Longrightarrow> lgoes own w (snd (was_assigned e oid w))"
proof -
  assume e: "lkind own e"
  obtain b w1 where h: "hasAuditLog e oid ''SUBSCRIPTION_ASSIGNED'' w = (b, w1)" by (rule prod.exhaust)
  have "lgoes own w w1" using goes_has_audit [OF e, of w oid "''SUBSCRIPTION_ASSIGNED''"] h by simp
  then show ?thesis unfolding was_assigned_def h
    by (cases b) (simp_all add: ledger.goes_trans [OF _ goes_has_audit [OF e]])
qed

lemma yields_sub:
  assumes e: "lkind own e" and po: "order_known po (pw_db w)" "po_OrderType po = OrderTypeSubscription"
  shows "lyields own w (doSub e sv po gid days w) (\<lambda>_ _. True)"
proof -
  have finish: "lyields own w' (attempt (applyAffiliateRebateForOrder e sv po w') (\<lambda>err w. (Inl err, w))
      (\<lambda>_ w. markCompleted e po act w)) (\<lambda>_ _. True)" if le: "ledger_le own (pw_db w) (pw_db w')" for w' act
  proof (rule ledger.yields_attempt [OF yields_rebate [OF e] ledger.yields_fail], rule yields_completed [OF e])
    fix w'' :: pay_world assume "ledger_le own (pw_db w') (pw_db w'')"
    then show "credited po (pw_db w'')" using order_known_stays order_known_stays [OF po(1) le] po(2) by (simp add: credited_def)
  qed
  have assign: "lgoes own w' (snd (if \<not> b then assign_bought e sv po gid days w' else (Inr (), w')))" for b w'
    unfolding assign_bought_def
    by (cases b) (simp_all add: ledger.goes_refl ledger.attempt_goes [OF goes_assign [OF e]] goes_audit [OF e])
  have rest: "lyields own w' (case was_assigned e (po_ID po) w' of (assigned, w) \<Rightarrow>
      attempt (if \<not> assigned then assign_bought e sv po gid days w else (Inr (), w)) (\<lambda>err w. (Inl err, w))
        (\<lambda>_ w. attempt (applyAffiliateRebateForOrder e sv po w) (\<lambda>err w. (Inl err, w)) (\<lambda>_ w. markCompleted e po act w))) (\<lambda>_ _. True)"
    if ok': "ledger_ok own (pw_db w)" "ledger_ok own (pw_db w')" and le: "ledger_le own (pw_db w) (pw_db w')" for w' act
  proof -
    obtain b w1 where h: "was_assigned e (po_ID po) w' = (b, w1)" by (rule prod.exhaust)
    have g: "lgoes own w' w1" using goes_was_assigned [OF e, of w' "po_ID po"] h by simp
    show ?thesis unfolding h prod.case
    proof (rule ledger.yields_after [OF g], rule ledger.yields_attempt [OF goes_yields [OF assign] ledger.yields_fail], rule finish)
      fix w2 :: pay_world
      assume "ledger_ok own (pw_db w1)" "ledger_ok own (pw_db w2)" "ledger_le own (pw_db w') (pw_db w1)" "ledger_le own (pw_db w1) (pw_db w2)"
      then show "ledger_le own (pw_db w) (pw_db w2)" using le ok' ledger.le_trans by blast
    qed
  qed
  show ?thesis unfolding doSub_def Let_def
    by (rule ledger.yields_attempt [OF goes_yields [OF goes_subs(6) [OF e]] ledger.yields_fail])
      (simp add: ledger.yields_fail rest)
qed

lemma yields_execute_sub:
  assumes e: "lkind own e" and po: "order_known po0 (pw_db w)" "po_ID po0 = oid" "po_OrderType po0 = OrderTypeSubscription"
  shows "lyields own w (ExecuteSubscriptionFulfillment e sv oid w) (\<lambda>_ _. True)"
  unfolding ExecuteSubscriptionFulfillment_def
proof (rule ledger.yields_attempt [OF yields_order [OF e] ledger.yields_fail])
  fix po :: payment_order and w1 :: pay_world
  assume w1: "ledger_ok own (pw_db w1)" "ledger_le own (pw_db w) (pw_db w1)" and x: "po \<in> set (pd_orders (pw_db w1)) \<and> po_ID po = oid"
  have "order_key po = order_key po0" using known_order [OF w1(1) order_known_stays [OF po(1) w1(2)]] x po(2) by simp
  then have sub: "po_OrderType po = OrderTypeSubscription" using po(3) by (simp add: order_key_def)
  have "order_known po (pw_db w1)" using x order_known_here by blast
  then have "lyields own w1 (take_order e oid (doSub e sv po gid days) w1) (\<lambda>_ _. True)" for gid days
    by (intro yields_taken [OF e] yields_sub [OF e _ sub]) (rule order_known_stays)
  then show "lyields own w1 (if po_Status po = OrderStatusCompleted then (Inr (), w1)
      else case cannot_fulfill po of Some err \<Rightarrow> (Inl err, w1) | None \<Rightarrow>
        (case (po_SubscriptionGroupID po, po_SubscriptionDays po) of
           (Some gid, Some days) \<Rightarrow> take_order e oid (doSub e sv po gid days) w1
         | _ \<Rightarrow> (Inl (BadRequest ''INVALID_STATUS'' ''missing subscription info''), w1))) (\<lambda>_ _. True)"
    by (simp add: ledger.yields_return ledger.yields_fail split: option.split)
qed

lemma yields_fulfilment:
  assumes e: "lkind own e" and proper: "proper_codes own"
  shows "lyields own w (executeFulfillment e sv oid w) (\<lambda>_ _. True)"
  unfolding executeFulfillment_def
proof (rule ledger.yields_attempt [OF yields_order [OF e] ledger.yields_fail])
  fix po :: payment_order and w1 :: pay_world
  assume x: "po \<in> set (pd_orders (pw_db w1)) \<and> po_ID po = oid"
  then have "order_known po (pw_db w1)" using order_known_here by blast
  then show "lyields own w1 (if po_OrderType po = OrderTypeSubscription then ExecuteSubscriptionFulfillment e sv oid w1
      else ExecuteBalanceFulfillment e sv oid w1) (\<lambda>_ _. True)"
    using x yields_execute_sub [OF e] yields_execute_balance [OF e proper] by simp
qed

section \<open>Notifications\<close>

lemma yields_processed:
  assumes e: "lkind own e" and proper: "proper_codes own"
  shows "lyields own w (alreadyProcessed e sv po w) (\<lambda>_ _. True)"
  unfolding alreadyProcessed_def
  by (rule ledger.yields_attempt [OF yields_order [OF e] ledger.yields_return])
    (simp_all add: ledger.yields_return ledger.yields_fail yields_fulfilment [OF e proper] goes_yields goes_audit [OF e])

lemma tame_paid: "tame (payable oid grace) (paid_order paid tradeNo t)"
  by (auto simp: tame_def order_key_def payable_def paid_order_def)

lemma yields_to_paid:
  assumes e: "lkind own e" and proper: "proper_codes own"
  shows "lyields own w (toPaid e sv po tradeNo paid pk w) (\<lambda>_ _. True)"
proof -
  have run: "lyields own w' (executeFulfillment e sv oid (writeAuditLog e oid act pk (if b then writeAuditLog e oid act' pk w' else w'))) (\<lambda>_ _. True)"
    for oid act act' b w'
    by (rule ledger.yields_after [OF _ yields_fulfilment [OF e proper]])
      (cases b; simp add: ledger.goes_trans [OF goes_audit [OF e] goes_audit [OF e]] goes_audit [OF e])
  show ?thesis unfolding toPaid_def Let_def
    by (rule ledger.yields_attempt [OF goes_yields [OF goes_orders [OF e tame_paid]] ledger.yields_fail])
      (simp only: run yields_processed [OF e proper] split: if_split; simp)
qed

lemma goes_instance_key: "lkind own e \<Longrightarrow> lgoes own w (snd (order_instance_key e po w))"
  using ledger.read_instances(1) [of own e w po] unfolding order_instance_key_def
  by (auto split: prod.split sum.split option.split)

lemma yields_confirm:
  assumes e: "lkind own e" and proper: "proper_codes own"
  shows "lyields own w (confirmPayment e sv oid tradeNo paid pk metadata w) (\<lambda>_ _. True)"
  unfolding confirmPayment_def
proof (rule ledger.yields_attempt [OF yields_order [OF e] ledger.yields_return])
  fix po :: payment_order and w1 :: pay_world
  obtain k w2 where k: "order_instance_key e po w1 = (k, w2)" by (rule prod.exhaust)
  have g: "lgoes own w1 w2" using goes_instance_key [OF e, of w1 po] k by simp
  have audit: "lyields own w2 (Inl err, writeAuditLog e (po_ID po) act pk w2) (\<lambda>_ _. True)" for err act
    by (rule ledger.yields_failed [OF goes_audit [OF e]])
  show "lyields own w1 (case order_instance_key e po w1 of (instanceProviderKey, w) \<Rightarrow>
      let expected = expectedNotificationProviderKeyForOrder (GetProviderKey sv) po instanceProviderKey
      in if expected \<noteq> '''' \<and> trim_space pk \<noteq> '''' \<and> \<not> EqualFold expected (trim_space pk) then
           (Inl (OtherError (''provider mismatch: expected '' @ expected @ '', got '' @ pk) None),
            writeAuditLog e (po_ID po) ''PAYMENT_PROVIDER_MISMATCH'' pk w)
         else case validateProviderSnapshotMetadata po pk metadata of
           Some err \<Rightarrow> (Inl err, writeAuditLog e (po_ID po) ''PAYMENT_PROVIDER_METADATA_MISMATCH'' pk w)
         | None \<Rightarrow>
             (case paid of
                Some amount \<Rightarrow>
                  if \<not> isValidProviderAmount paid then
                    (Inl (OtherError ''invalid paid amount from provider'' None),
                     writeAuditLog e (po_ID po) ''PAYMENT_INVALID_AMOUNT'' pk w)
                  else if paymentAmountToleranceForCurrency (PaymentOrderCurrency po) < \<bar>amount - po_PayAmount po\<bar> then
                    (Inl (OtherError ''amount mismatch'' None), writeAuditLog e (po_ID po) ''PAYMENT_AMOUNT_MISMATCH'' pk w)
                  else toPaid e sv po tradeNo amount pk w
              | None \<Rightarrow>
                  (Inl (OtherError ''invalid paid amount from provider'' None),
                   writeAuditLog e (po_ID po) ''PAYMENT_INVALID_AMOUNT'' pk w))) (\<lambda>_ _. True)"
    unfolding k prod.case Let_def
    by (rule ledger.yields_after [OF g]) (simp add: audit yields_to_paid [OF e proper] split: option.split)
qed simp

lemma yields_notification:
  assumes e: "lkind own e" and proper: "proper_codes own"
  shows "lyields own w (HandlePaymentNotification e sv n pk w) (\<lambda>_ _. True)"
proof -
  have "lyields own w (attempt (order_by_out_trade_no e (nt_OrderID n) w)
      (\<lambda>err w. case parseLegacyPaymentOrderID (nt_OrderID n) err of
         Some oid \<Rightarrow> confirmPayment e sv oid (nt_TradeNo n) (nt_Amount n) pk (nt_Metadata n) w
       | None \<Rightarrow>
           if ent_IsNotFound err then
             (Inl (OtherError (oe_Error ErrOrderNotFound @ '': out_trade_no='' @ nt_OrderID n) (Some ErrOrderNotFound)), w)
           else (Inl (errorf (''lookup order failed for out_trade_no '' @ nt_OrderID n) err), w))
      (\<lambda>po w. confirmPayment e sv (po_ID po) (nt_TradeNo n) (nt_Amount n) pk (nt_Metadata n) w)) (\<lambda>_ _. True)"
    by (rule ledger.yields_attempt [OF yields_by_trade_no [OF e]])
      (simp_all add: yields_confirm [OF e proper] ledger.yields_fail split: option.split)
  then show ?thesis unfolding HandlePaymentNotification_def by (simp add: ledger.yields_return)
qed

lemma tame_retry: "tame (in_status oid [OrderStatusFailed, OrderStatusPaid])
    (\<lambda>x. x\<lparr>po_Status := OrderStatusPaid, po_FailedAt := None, po_FailedReason := None\<rparr>)"
  by (auto simp: tame_def order_key_def in_status_def)

lemma yields_retry:
  assumes e: "lkind own e" and proper: "proper_codes own"
  shows "lyields own w (RetryFulfillment e sv oid w) (\<lambda>_ _. True)"
proof -
  have "lyields own w' (attempt
        (update_orders e (in_status oid [OrderStatusFailed, OrderStatusPaid])
           (\<lambda>x. x\<lparr>po_Status := OrderStatusPaid, po_FailedAt := None, po_FailedReason := None\<rparr>) w')
        (\<lambda>err w. (Inl (errorf ''reset for retry'' err), w))
        (\<lambda>_ w. executeFulfillment e sv oid (writeAuditLog e oid ''RECHARGE_RETRY'' ''admin'' w))) (\<lambda>_ _. True)" for w'
    by (rule ledger.yields_attempt [OF goes_yields [OF goes_orders [OF e tame_retry]] ledger.yields_fail],
        rule ledger.yields_after [OF goes_audit [OF e] yields_fulfilment [OF e proper]])
  then show ?thesis unfolding RetryFulfillment_def
    by (intro ledger.yields_attempt [OF yields_order [OF e] ledger.yields_fail]) (simp add: ledger.yields_fail split: option.split)
qed

end
