(* ===== verification/Payment_Requests.thy ===== *)
theory Payment_Requests
  imports Payment_Safety
begin

text \<open>
  Every request the payment service serves keeps the ledger of paid orders, and so does every sequence of them; what this
  says of the credits of an order.
\<close>

section \<open>Asking the provider\<close>

lemma goes_query: "lkind own e \<Longrightarrow> lgoes own w (snd (query_provider e prov ref w))"
  unfolding query_provider_def by (rule ledger.goes_ask)

lemma goes_requery: "lkind own e \<Longrightarrow> lgoes own w (snd (requeryPaidOrderOnce e prov ref w))"
proof -
  assume e: "lkind own e"
  have "lgoes own w (snd (attempt (query_provider e prov ref w) (\<lambda>_ w. (None, w)) (\<lambda>resp w. (g resp, w))))" for g :: "QueryOrderResponse \<Rightarrow> QueryOrderResponse option"
    by (rule ledger.goes_attempt [OF goes_yields [OF goes_query [OF e]]]) (simp_all add: ledger.goes_refl)
  then show ?thesis unfolding requeryPaidOrderOnce_def by (simp add: ledger.goes_refl)
qed

lemma tame_trade_no: "tame p (\<lambda>x. x\<lparr>po_PaymentTradeNo := s\<rparr>)"
  by (simp add: tame_def order_key_def is_settled_def)

lemma goes_settle:
  assumes e: "lkind own e" and proper: "proper_codes own"
  shows "lgoes own w (snd (settle_paid e sv po prov ref resp w))"
proof -
  have store: "lgoes own w (if b then snd (update_orders e p (\<lambda>x. x\<lparr>po_PaymentTradeNo := s\<rparr>) w) else w)" for b p s
    by (cases b) (simp_all add: goes_orders [OF e tame_trade_no] ledger.goes_refl)
  show ?thesis unfolding settle_paid_def Let_def snd_conv
    by (rule ledger.goes_trans [OF store yields_goes [OF yields_notification [OF e proper]]])
qed

lemma goes_cancel: "lkind own e \<Longrightarrow> lgoes own w (snd (cancel_upstream e b prov ref w))"
  unfolding cancel_upstream_def by (auto simp: ledger.goes_refl split: option.split intro: ledger.goes_ask)

lemma goes_check:
  assumes e: "lkind own e" and proper: "proper_codes own"
  shows "lgoes own w (snd (checkPaidWithOptions e sv po b w))"
proof -
  have retry: "lgoes own w' (snd (case requeryPaidOrderOnce e prov ref (writeAuditLog e oid act op w') of
        (None, w) \<Rightarrow> ('''', w) | (Some resp, w) \<Rightarrow> settle_paid e sv po prov ref resp w))" for prov ref oid act op w'
  proof -
    obtain r w1 where r: "requeryPaidOrderOnce e prov ref (writeAuditLog e oid act op w') = (r, w1)" by (rule prod.exhaust)
    have "lgoes own w' w1" using ledger.goes_trans [OF goes_audit [OF e] goes_requery [OF e]] r by (metis snd_conv)
    then show ?thesis unfolding r by (cases r) (simp_all add: ledger.goes_trans [OF _ goes_settle [OF e proper]])
  qed
  have asked: "lgoes own w' (snd (attempt (query_provider e prov ref w') (\<lambda>_ w. ('''', w))
      (\<lambda>resp w. if qr_Status resp \<noteq> ProviderStatusPaid then cancel_upstream e b prov ref w
         else if isValidProviderAmount (qr_Amount resp) then settle_paid e sv po prov ref resp w
         else (case requeryPaidOrderOnce e prov ref (writeAuditLog e (po_ID po) ''PAYMENT_INVALID_AMOUNT'' (pv_ProviderKey prov) w) of
             (None, w) \<Rightarrow> ('''', w) | (Some resp, w) \<Rightarrow> settle_paid e sv po prov ref resp w))))" for prov ref w'
    by (rule ledger.goes_attempt [OF goes_yields [OF goes_query [OF e]]])
      (simp_all add: ledger.goes_refl goes_cancel [OF e] goes_settle [OF e proper] retry)
  show ?thesis unfolding checkPaidWithOptions_def Let_def
    by (rule ledger.goes_attempt [OF goes_yields [OF ledger.read_order_provider [OF e]]]) (simp_all add: ledger.goes_refl asked)
qed

section \<open>Cancelling and expiring\<close>

lemma tame_closed:
  "fs = OrderStatusCancelled \<or> fs = OrderStatusExpired \<Longrightarrow> tame (in_status oid [OrderStatusPending]) (\<lambda>x. x\<lparr>po_Status := fs\<rparr>)"
  by (auto simp: tame_def order_key_def in_status_def)

lemma goes_cancel_core:
  assumes e: "lkind own e" and proper: "proper_codes own" and fs: "fs = OrderStatusCancelled \<or> fs = OrderStatusExpired"
  shows "lgoes own w (snd (cancelCore e sv po fs op w))"
proof -
  have close: "lgoes own w' (snd (attempt (update_orders e (in_status (po_ID po) [OrderStatusPending]) (\<lambda>x. x\<lparr>po_Status := fs\<rparr>) w')
      (\<lambda>err w. (Inl (errorf ''update order status'' err), w))
      (\<lambda>c w. (Inr checkPaidResultCancelled,
         if 0 < c then writeAuditLog e (po_ID po) (if fs = OrderStatusExpired then ''ORDER_EXPIRED'' else ''ORDER_CANCELLED'') op w else w))))" for w'
    by (rule ledger.attempt_goes [OF goes_orders [OF e tame_closed [OF fs]]]) (simp_all add: ledger.goes_refl goes_audit [OF e])
  obtain out w1 where c: "(if po_PaymentTradeNo po \<noteq> '''' \<or> po_PaymentType po \<noteq> '''' then checkPaid e sv po w else ('''', w)) = (out, w1)"
    by (rule prod.exhaust)
  have "lgoes own w (snd (if po_PaymentTradeNo po \<noteq> '''' \<or> po_PaymentType po \<noteq> '''' then checkPaid e sv po w else ('''', w)))"
    unfolding checkPaid_def by (simp add: goes_check [OF e proper] ledger.goes_refl)
  then have g: "lgoes own w w1" by (simp only: c snd_conv)
  show ?thesis unfolding cancelCore_def c by (simp add: g ledger.goes_trans [OF g close])
qed

lemma goes_expire:
  assumes e: "lkind own e" and proper: "proper_codes own"
  shows "lgoes own w (snd (expire_orders e sv pos n w))"
proof (induction pos arbitrary: n w)
  case (Cons po pos)
  obtain r w1 where c: "cancelCore e sv po OrderStatusExpired ''system'' w = (r, w1)" by (rule prod.exhaust)
  then have "lgoes own w w1" using goes_cancel_core [OF e proper, of OrderStatusExpired w sv po "''system''"] by simp
  then show ?case using ledger.goes_trans [OF _ Cons.IH] by (cases r) (simp_all add: c)
qed (simp add: ledger.goes_refl)

lemma goes_reconcile:
  assumes e: "lkind own e" and proper: "proper_codes own"
  shows "lgoes own w (snd (reconcile_orders e sv pos n w))"
proof (induction pos arbitrary: n w)
  case (Cons po pos)
  obtain r w1 where c: "reconcilePaid e sv po w = (r, w1)" by (rule prod.exhaust)
  then have "lgoes own w w1" using goes_check [OF e proper, of w sv po False] by (simp add: reconcilePaid_def)
  then show ?case using ledger.goes_trans [OF _ Cons.IH] by (simp add: c)
qed (simp add: ledger.goes_refl)

lemma goes_lifecycle:
  assumes e: "lkind own e" and proper: "proper_codes own"
  shows "lgoes own w (snd (CancelOrder e sv oid uid w))" "lgoes own w (snd (AdminCancelOrder e sv oid w))"
    "lgoes own w (snd (ExpireTimedOutOrders e sv w))" "lgoes own w (snd (ReconcilePendingWxpayOrders e sv w))"
    "lgoes own w (snd (VerifyOrderByOutTradeNo e sv raw uid w))"
proof -
  note order = ledger.attempt_goes [OF yields_goes [OF yields_order [OF e]]]
  note core = goes_cancel_core [OF e proper]
  show "lgoes own w (snd (CancelOrder e sv oid uid w))" unfolding CancelOrder_def by (rule order) (simp_all add: ledger.goes_refl core)
  show "lgoes own w (snd (AdminCancelOrder e sv oid w))" unfolding AdminCancelOrder_def by (rule order) (simp_all add: ledger.goes_refl core)
  have swept: "lgoes own w' (snd (case expire_orders e sv pos 0 w' of (n, w) \<Rightarrow> (Inr n, w)))"
    "lgoes own w' (snd (case reconcile_orders e sv pos 0 w' of (n, w) \<Rightarrow> (Inr n, w)))" for pos w'
    using goes_expire [OF e proper, of w' sv pos 0] goes_reconcile [OF e proper, of w' sv pos 0] by (simp_all add: prod.case_eq_if)
  show "lgoes own w (snd (ExpireTimedOutOrders e sv w))" unfolding ExpireTimedOutOrders_def Let_def
    by (rule ledger.attempt_goes [OF ledger.goes_ask [OF e]]) (simp_all add: ledger.goes_refl swept)
  show "lgoes own w (snd (ReconcilePendingWxpayOrders e sv w))" unfolding ReconcilePendingWxpayOrders_def Let_def
    by (rule ledger.attempt_goes [OF ledger.goes_ask [OF e]]) (simp_all add: ledger.goes_refl swept)
  have reload: "lgoes own w' (snd (case reconcilePaid e sv po w' of (result, w) \<Rightarrow>
      if result = checkPaidResultAlreadyPaid then
        attempt (get_order e (po_ID po) w) (\<lambda>err w. (Inl (errorf ''reload order'' err), w)) (\<lambda>po w. (Inr po, w))
      else (Inr po, w)))" for po w'
  proof -
    obtain r w1 where c: "reconcilePaid e sv po w' = (r, w1)" by (rule prod.exhaust)
    then have g: "lgoes own w' w1" using goes_check [OF e proper, of w' sv po False] by (simp add: reconcilePaid_def)
    have again: "lgoes own w1 (snd (attempt (get_order e (po_ID po) w1) (\<lambda>err w. (Inl (errorf ''reload order'' err), w)) (\<lambda>po w. (Inr po, w))))"
      by (rule order) (simp_all add: ledger.goes_refl)
    show ?thesis unfolding c using g ledger.goes_trans [OF g again] by simp
  qed
  show "lgoes own w (snd (VerifyOrderByOutTradeNo e sv raw uid w))"
  proof (cases "normalizeOrderLookupOutTradeNo raw")
    case (Inr s)
    show ?thesis unfolding VerifyOrderByOutTradeNo_def Inr sum.case
      by (rule ledger.attempt_goes [OF yields_goes [OF yields_by_trade_no [OF e]]]) (simp_all add: ledger.goes_refl reload)
  qed (simp add: VerifyOrderByOutTradeNo_def ledger.goes_refl)
qed

section \<open>Refunds\<close>

lemma same_uncoded [simp]: "ledger_same own db (add_balance None uid a r db)"
  by (simp add: ledger_same_def add_balance_def credits_def)

lemma goes_balance:
  assumes e: "lkind own e"
  shows "lgoes own w (snd (UpdateBalance e False None uid a w))" "lgoes own w (snd (DeductBalance e uid a w))"
proof -
  have once: "lgoes own w (snd (attempt (stmt e False ask (add_balance None uid a r) w) (\<lambda>err w. (Inl err, w))
      (\<lambda>n w. if n = 0 then (Inl pay_ErrUserNotFound, w) else (Inr (), w))))" for ask :: "pay_db \<Rightarrow> go_error + nat" and a r w
    by (rule ledger.attempt_goes [OF goes_quiet [OF e]]) (simp_all add: ledger.goes_refl)
  show "lgoes own w (snd (UpdateBalance e False None uid a w))" unfolding UpdateBalance_def by (rule once)
  show "lgoes own w (snd (DeductBalance e uid a w))" unfolding DeductBalance_def
    by (rule ledger.attempt_goes [OF goes_quiet [OF e]]) (simp_all add: ledger.goes_refl once)
qed

lemma settled_later:
  "order_settled oid (pw_db w) \<Longrightarrow> ledger_le own (pw_db w) (pw_db w') \<Longrightarrow> order_settled oid (pw_db w')"
  by (rule order_settled_stays)

lemma settled_refund [simp]: "is_settled (po\<lparr>po_Status := OrderStatusRefunding\<rparr>)"
  by (simp add: is_settled_def psIsRefundStatus_def)

lemma yields_refund_lock:
  assumes e: "lkind own e" and st: "set statuses \<subseteq> {OrderStatusCompleted, OrderStatusRefundRequested, OrderStatusRefundFailed}"
  shows "lyields own w (update_orders e (in_status oid statuses) (\<lambda>x. x\<lparr>po_Status := OrderStatusRefunding\<rparr>) w)
    (\<lambda>c db. 0 < c \<longrightarrow> order_settled oid db)"
proof (rule yields_weaken [OF yields_orders [OF e]])
  fix c :: nat and db :: pay_db
  assume "0 < c \<longrightarrow> (\<exists>y. in_status oid statuses y \<and> (\<exists>x \<in> set (pd_orders db). order_key x = order_key y
      \<and> is_settled x = is_settled (y\<lparr>po_Status := OrderStatusRefunding\<rparr>)))"
  then show "0 < c \<longrightarrow> order_settled oid db" by (auto simp: order_settled_def in_status_def order_key_def)
next
  fix po assume "in_status oid statuses po"
  then have "is_settled po" using st by (auto simp: in_status_def is_settled_def psIsRefundStatus_def)
  then show "is_settled po \<or> code_used (po_RechargeCode po) db" for db by simp
qed (simp_all add: order_key_def)

lemma goes_restore:
  assumes e: "lkind own e" and po: "order_settled (rp_OrderID p) (pw_db w)"
  shows "lgoes own w (restoreStatus e p w)"
  unfolding restoreStatus_def Let_def
  by (rule goes_settled_order [OF e po]) (simp_all add: order_key_def is_settled_def psIsRefundStatus_def)

lemma goes_rollback_refund:
  assumes e: "lkind own e"
  shows "lgoes own w (snd (RollbackRefund e p w))"
proof -
  have give: "lgoes own w (snd (if b then UpdateBalance e False None uid a w else (Inr (), w)))" for b uid a
    by (cases b) (simp_all add: goes_balance [OF e] ledger.goes_refl)
  have extend: "lgoes own w' (snd (attempt (ExtendSubscription e sid days w') (\<lambda>_ w. (False, writeAuditLog e oid act op w)) (\<lambda>_ w. (True, w))))"
    for sid days oid act op w'
    by (rule ledger.goes_attempt [OF goes_yields [OF goes_extend [OF e]]]) (simp_all add: ledger.goes_refl goes_audit [OF e])
  show ?thesis unfolding RollbackRefund_def
    by (rule ledger.goes_attempt [OF goes_yields [OF give]]) (simp_all add: ledger.goes_refl goes_audit [OF e] extend)
qed

lemma goes_gateway_failed:
  assumes e: "lkind own e" and po: "order_settled (rp_OrderID p) (pw_db w)"
  shows "lgoes own w (snd (handleGwFail e p gErr w))"
proof -
  obtain b w1 where b: "RollbackRefund e p w = (b, w1)" by (rule prod.exhaust)
  have g: "lgoes own w w1" using goes_rollback_refund [OF e, of w p] b by simp
  show ?thesis
  proof (rule ledger.goes_after [OF g])
    assume "ledger_le own (pw_db w) (pw_db w1)"
    note po1 = settled_later [OF po this]
    have undone: "lgoes own w1 (writeAuditLog e oid act op (restoreStatus e p w1))" for oid act op
      by (rule ledger.goes_trans [OF goes_restore [OF e po1] goes_audit [OF e]])
    have failed: "lgoes own w1 (writeAuditLog e oid act op (snd (update_order e (rp_OrderID p)
        (\<lambda>x. x\<lparr>po_Status := OrderStatusRefundFailed, po_FailedAt := t, po_FailedReason := r\<rparr>) w1)))" for oid act op t r
      by (rule ledger.goes_trans [OF goes_settled_order [OF e po1] goes_audit [OF e]])
        (simp_all add: order_key_def is_settled_def psIsRefundStatus_def)
    show "lgoes own w1 (snd (handleGwFail e p gErr w))"
      unfolding handleGwFail_def b Let_def by (cases b) (simp_all add: undone failed)
  qed
qed

lemma goes_refunded:
  assumes e: "lkind own e" and po: "order_settled (rp_OrderID p) (pw_db w)"
  shows "lgoes own w (snd (markRefundOk e p w))"
  unfolding markRefundOk_def Let_def
  by (rule ledger.attempt_goes [OF goes_settled_order [OF e po]])
    (simp_all add: ledger.goes_refl goes_audit [OF e] order_key_def is_settled_def psIsRefundStatus_def)

lemma goes_deduct_balance:
  assumes e: "lkind own e" and po: "order_settled (rp_OrderID p) (pw_db w)"
  shows "lyields own w (deduct_balance e p w) (\<lambda>p' _. rp_OrderID p' = rp_OrderID p)"
proof -
  obtain b w1 where b: "hasAuditLog e (rp_OrderID p) ''REFUND_ROLLBACK_FAILED'' w = (b, w1)" by (rule prod.exhaust)
  have g: "lgoes own w w1" using goes_has_audit [OF e, of w "rp_OrderID p" "''REFUND_ROLLBACK_FAILED''"] b by simp
  have "lyields own w1 (attempt (DeductBalance e uid a w1) (\<lambda>err w. (Inl (errorf ''deduction'' err), restoreStatus e p w))
      (\<lambda>_ w. (Inr p, w))) (\<lambda>p' _. rp_OrderID p' = rp_OrderID p)" if "ledger_le own (pw_db w) (pw_db w1)" for uid a
    by (rule ledger.yields_attempt [OF goes_yields [OF goes_balance(2) [OF e]]])
      (simp_all add: ledger.yields_return ledger.yields_failed goes_restore [OF e] settled_later [OF settled_later [OF po that]])
  then have "lyields own w (case hasAuditLog e (rp_OrderID p) ''REFUND_ROLLBACK_FAILED'' w of
      (True, w) \<Rightarrow> (Inr (p\<lparr>rp_BalanceToDeduct := 0\<rparr>), w)
    | (False, w) \<Rightarrow> attempt (DeductBalance e uid a w) (\<lambda>err w. (Inl (errorf ''deduction'' err), restoreStatus e p w))
        (\<lambda>_ w. (Inr p, w))) (\<lambda>p' _. rp_OrderID p' = rp_OrderID p)" for uid a
    unfolding b by (intro ledger.yields_after [OF g]) (cases b; simp add: ledger.yields_return)
  then show ?thesis unfolding deduct_balance_def by (simp add: ledger.yields_return)
qed

lemma goes_deduct_subscription:
  assumes e: "lkind own e" and po: "order_settled (rp_OrderID p) (pw_db w)"
  shows "lyields own w (deduct_subscription e p w) (\<lambda>p' _. rp_OrderID p' = rp_OrderID p)"
proof -
  obtain b w1 where b: "hasAuditLog e (rp_OrderID p) ''REFUND_ROLLBACK_FAILED'' w = (b, w1)" by (rule prod.exhaust)
  have g: "lgoes own w w1" using goes_has_audit [OF e, of w "rp_OrderID p" "''REFUND_ROLLBACK_FAILED''"] b by simp
  have revoke: "lyields own w' (attempt (RevokeSubscription e sid w') (\<lambda>err w. (Inl (errorf ''revoke subscription'' err), restoreStatus e p w))
      (\<lambda>_ w. (Inr p, w))) (\<lambda>p' _. rp_OrderID p' = rp_OrderID p)" if "order_settled (rp_OrderID p) (pw_db w')" for sid w'
    by (rule ledger.yields_attempt [OF goes_yields [OF goes_revoke [OF e]]])
      (simp_all add: ledger.yields_return ledger.yields_failed goes_restore [OF e] settled_later [OF that])
  have "lyields own w1 (attempt (ExtendSubscription e sid days w1)
      (\<lambda>err w. if Is ErrAdjustWouldExpire err then
           attempt (RevokeSubscription e sid w) (\<lambda>err w. (Inl (errorf ''revoke subscription'' err), restoreStatus e p w)) (\<lambda>_ w. (Inr p, w))
         else (Inl (errorf ''deduct subscription days'' err), restoreStatus e p w))
      (\<lambda>_ w. (Inr p, w))) (\<lambda>p' _. rp_OrderID p' = rp_OrderID p)" if "ledger_le own (pw_db w) (pw_db w1)" for sid days
    by (rule ledger.yields_attempt [OF goes_yields [OF goes_extend [OF e]]])
      (simp_all add: ledger.yields_return ledger.yields_failed goes_restore [OF e] revoke settled_later [OF settled_later [OF po that]])
  then have "lyields own w (case hasAuditLog e (rp_OrderID p) ''REFUND_ROLLBACK_FAILED'' w of
      (True, w) \<Rightarrow> (Inr (p\<lparr>rp_SubDaysToDeduct := 0\<rparr>), w)
    | (False, w) \<Rightarrow> attempt (ExtendSubscription e sid days w)
        (\<lambda>err w. if Is ErrAdjustWouldExpire err then
             attempt (RevokeSubscription e sid w) (\<lambda>err w. (Inl (errorf ''revoke subscription'' err), restoreStatus e p w)) (\<lambda>_ w. (Inr p, w))
           else (Inl (errorf ''deduct subscription days'' err), restoreStatus e p w))
        (\<lambda>_ w. (Inr p, w))) (\<lambda>p' _. rp_OrderID p' = rp_OrderID p)" for sid days
    unfolding b by (intro ledger.yields_after [OF g]) (cases b; simp add: ledger.yields_return)
  then show ?thesis unfolding deduct_subscription_def by (simp add: ledger.yields_return)
qed

lemma goes_send_refund: "lkind own e \<Longrightarrow> lgoes own w (snd (send_refund e prov req w))"
  unfolding send_refund_def Let_def
  by (rule ledger.attempt_goes [OF goes_quiet]) (simp_all add: ledger.goes_refl ledger_same_db)

lemma goes_gateway:
  assumes e: "lkind own e"
  shows "lgoes own w (snd (gwRefund e sv p w))"
proof -
  have make: "lgoes own w' (snd (createProviderFromInstance e sv inst w'))" for inst w'
    unfolding createProviderFromInstance_def by (rule ledger.goes_ask [OF e])
  have prov: "lgoes own w' (snd (getRefundProvider e sv po w'))" for po w'
    unfolding getRefundProvider_def
    by (rule ledger.attempt_goes [OF ledger.read_instances(2) [OF e]]) (simp_all add: ledger.goes_refl make split: option.split)
  have ask: "lgoes own w' (snd (attempt (send_refund e prov req w') (\<lambda>err w. (Inl err, w)) (\<lambda>resp w. (g resp, w))))"
    for prov req and g :: "string option \<Rightarrow> go_error + unit" and w'
    by (rule ledger.attempt_goes [OF goes_send_refund [OF e]]) (simp_all add: ledger.goes_refl)
  have asked: "lgoes own w' (snd (case c of Some err \<Rightarrow> (Inl err, writeAuditLog e oid act op w')
      | None \<Rightarrow> attempt (send_refund e prov req w') (\<lambda>err w. (Inl err, w)) (\<lambda>resp w. (g resp, w))))"
    for c :: "go_error option" and oid act op prov req and g :: "string option \<Rightarrow> go_error + unit" and w'
    by (cases c) (simp_all add: goes_audit [OF e] ask)
  have "lgoes own w (snd (attempt (getRefundProvider e sv po w) (\<lambda>err w. (Inl (errorf ''get refund provider'' err), w))
      (\<lambda>prov w. case c prov of Some err \<Rightarrow> (Inl err, writeAuditLog e oid act op w)
       | None \<Rightarrow> attempt (send_refund e prov req w) (\<lambda>err w. (Inl err, w)) (\<lambda>resp w. (g resp, w)))))"
    for po oid act op req and c :: "provider \<Rightarrow> go_error option" and g :: "string option \<Rightarrow> go_error + unit"
    by (rule ledger.attempt_goes [OF prov]) (simp_all only: snd_conv ledger.goes_refl asked)
  then show ?thesis unfolding gwRefund_def Let_def by (simp add: goes_audit [OF e])
qed

lemma goes_refund:
  assumes e: "lkind own e"
  shows "lgoes own w (snd (ExecuteRefund e sv p w))"
proof -
  have gw: "lgoes own w' (snd (attempt (gwRefund e sv p w') (\<lambda>gErr w. handleGwFail e p gErr w) (\<lambda>_ w. markRefundOk e p w)))"
    if po: "order_settled (rp_OrderID p) (pw_db w')" for p w'
    by (rule ledger.goes_attempt [OF goes_yields [OF goes_gateway [OF e]]])
      (rule goes_gateway_failed [OF e settled_later [OF po]], assumption, rule goes_refunded [OF e settled_later [OF po]])
  have sub: "lgoes own w' (snd (attempt (deduct_subscription e p w') (\<lambda>err w. (Inl err, w))
      (\<lambda>p w. attempt (gwRefund e sv p w) (\<lambda>gErr w. handleGwFail e p gErr w) (\<lambda>_ w. markRefundOk e p w))))"
    if po: "order_settled (rp_OrderID p) (pw_db w')" for p w'
    by (rule ledger.goes_attempt [OF goes_deduct_subscription [OF e po]])
      (simp add: ledger.goes_refl, rule gw, simp add: settled_later [OF po])
  have bal: "lgoes own w' (snd (attempt (deduct_balance e p w') (\<lambda>err w. (Inl err, w))
      (\<lambda>p w. attempt (deduct_subscription e p w) (\<lambda>err w. (Inl err, w))
        (\<lambda>p w. attempt (gwRefund e sv p w) (\<lambda>gErr w. handleGwFail e p gErr w) (\<lambda>_ w. markRefundOk e p w)))))"
    if po: "order_settled (rp_OrderID p) (pw_db w')" for p w'
    by (rule ledger.goes_attempt [OF goes_deduct_balance [OF e po]])
      (simp add: ledger.goes_refl, rule sub, simp add: settled_later [OF po])
  show ?thesis unfolding ExecuteRefund_def
    by (rule ledger.goes_attempt [OF yields_refund_lock [OF e]]) (simp_all add: ledger.goes_refl bal)
qed

lemma goes_prep_deduct:
  assumes e: "lkind own e"
  shows "lgoes own w (snd (prepDeduct e po p force w))"
proof -
  have user: "lgoes own w (snd (get_user e uid w))" for uid unfolding get_user_def by (rule ledger.goes_ask [OF e])
  have plan: "lgoes own w (snd (attempt m (\<lambda>_ w. (g, w)) (\<lambda>x w. (h x, w))))" if "lgoes own w (snd m)"
    for m :: "'a io" and g :: "RefundPlan + RefundResult" and h
    by (rule ledger.goes_attempt [OF goes_yields [OF that]]) (simp_all add: ledger.goes_refl)
  show ?thesis unfolding prepDeduct_def Let_def
    by (simp add: ledger.goes_refl plan [OF user] plan [OF goes_subs(3) [OF e]] split: option.split)
qed

lemma goes_prepare:
  assumes e: "lkind own e"
  shows "lgoes own w (snd (PrepareRefund e oid amt reason force deduct w))"
proof -
  have prep: "lgoes own w' (snd (case prepDeduct e po p force w' of (r, w) \<Rightarrow> (Inr r, w)))" for po p w'
    using goes_prep_deduct [OF e, of w' po p force] by (simp add: prod.case_eq_if)
  have planned: "lgoes own w' (snd (attempt (getRefundOrderProviderInstance e po w') f s))"
    if "\<And>err w. lgoes own w (snd (f err w))" "\<And>x w. lgoes own w (snd (s x w))"
    for po w' f and s :: "PaymentProviderInstance option \<Rightarrow> pay_world \<Rightarrow> (RefundPlan + RefundResult) io"
    by (rule ledger.attempt_goes [OF ledger.read_instances(2) [OF e]]) (rule that)+
  show ?thesis unfolding PrepareRefund_def Let_def
    by (rule ledger.attempt_goes [OF yields_goes [OF yields_order [OF e]]])
      (simp_all add: ledger.goes_refl planned prep split: option.split)
qed

lemma goes_request_refund:
  assumes e: "lkind own e"
  shows "lgoes own w (snd (RequestRefund e oid uid reason w))"
proof -
  have user: "lgoes own w' (snd (get_user e u w'))" for u w' unfolding get_user_def by (rule ledger.goes_ask [OF e])
  have looked: "lgoes own w' (snd (attempt (getRefundOrderProviderInstance e po w') (\<lambda>_ w. (Inl err, w)) (\<lambda>i w. (g i, w))))"
    for po err w' and g :: "PaymentProviderInstance option \<Rightarrow> go_error + payment_order"
    by (rule ledger.attempt_goes [OF ledger.read_instances(2) [OF e]]) (simp_all add: ledger.goes_refl)
  have valid: "lgoes own w (snd (validateRefundRequest e oid uid w))" unfolding validateRefundRequest_def
    by (rule ledger.attempt_goes [OF yields_goes [OF yields_order [OF e]]]) (simp_all add: ledger.goes_refl looked)
  have requested: "tame (refundable_by oid uid) (\<lambda>x. x\<lparr>po_Status := OrderStatusRefundRequested, po_RefundRequestedAt := t,
      po_RefundRequestReason := r, po_RefundRequestedBy := b, po_RefundAmount := a\<rparr>)" for t r b a
    by (auto simp: tame_def order_key_def refundable_by_def is_settled_def psIsRefundStatus_def)
  have mark: "lgoes own w' (snd (attempt (update_orders e (refundable_by oid uid) (\<lambda>x. x\<lparr>po_Status := OrderStatusRefundRequested,
        po_RefundRequestedAt := t, po_RefundRequestReason := r, po_RefundRequestedBy := b, po_RefundAmount := a\<rparr>) w')
      (\<lambda>err w. (Inl (errorf ''update'' err), w))
      (\<lambda>c w. if c = 0 then (Inl err, w) else (Inr (), writeAuditLog e oid act op w))))" for t r b a err act op w'
    by (rule ledger.attempt_goes [OF goes_orders [OF e requested]]) (simp_all add: ledger.goes_refl goes_audit [OF e])
  have covered: "lgoes own w' (snd (attempt (get_user e u w') (\<lambda>err w. (Inl (errorf ''get user'' err), w))
      (\<lambda>v w. if pu_Balance v < a then (Inl err, w) else s w)))" if "\<And>w. lgoes own w (snd (s w))"
    for u a err w' and s :: "pay_world \<Rightarrow> unit io"
    by (rule ledger.attempt_goes [OF user]) (simp_all add: ledger.goes_refl that)
  show ?thesis unfolding RequestRefund_def Let_def
    by (rule ledger.attempt_goes [OF valid]) (simp add: ledger.goes_refl, rule covered, rule mark)
qed

section \<open>Webhooks\<close>

lemma goes_webhook:
  assumes e: "lkind own e" and proper: "proper_codes own"
  shows "lgoes own w (snd (handleNotify e sv pk q w))"
proof -
  have handle: "lgoes own w' (snd (handle_verified e sv key n w'))" for key n w'
    unfolding handle_verified_def
    by (rule ledger.attempt_goes [OF yields_goes [OF yields_notification [OF e proper]]]) (simp_all add: ledger.goes_refl)
  have verified: "lgoes own w' (snd (attempt (verifyNotificationWithProviders e ps body hs w') (\<lambda>_ w. (a, w))
      (\<lambda>(key, notification) w. case notification of
         None \<Rightarrow> (writeSuccessResponse key, w) | Some n \<Rightarrow> handle_verified e sv key n w)))" for ps body hs a w'
    by (rule ledger.attempt_goes [OF ledger.read_verified [OF e]]) (auto simp: ledger.goes_refl handle split: option.split)
  show ?thesis unfolding handleNotify_def Let_def
    by (cases "raw_body q") (simp_all add: ledger.goes_refl verified ledger.attempt_goes [OF ledger.read_candidates [OF e]])
qed

section \<open>Requests in any order\<close>

text \<open>What the service is asked for: by providers, by users, by the administrator, and by its sweepers.\<close>

datatype payment_request =
  Notification PaymentNotification string
| Webhook string webhook_request
| Retry int
| Cancel int int
| AdminCancel int
| Expire
| Reconcile
| Verify string int
| AskRefund int int string
| Refund int "rat option" string bool bool

definition serve :: "pay_env \<Rightarrow> payment_service \<Rightarrow> payment_request \<Rightarrow> pay_world \<Rightarrow> pay_world" where
  "serve e sv r w =
     (case r of
        Notification n pk \<Rightarrow> snd (HandlePaymentNotification e sv n pk w)
      | Webhook pk q \<Rightarrow> snd (handleNotify e sv pk q w)
      | Retry oid \<Rightarrow> snd (RetryFulfillment e sv oid w)
      | Cancel oid uid \<Rightarrow> snd (CancelOrder e sv oid uid w)
      | AdminCancel oid \<Rightarrow> snd (AdminCancelOrder e sv oid w)
      | Expire \<Rightarrow> snd (ExpireTimedOutOrders e sv w)
      | Reconcile \<Rightarrow> snd (ReconcilePendingWxpayOrders e sv w)
      | Verify raw uid \<Rightarrow> snd (VerifyOrderByOutTradeNo e sv raw uid w)
      | AskRefund oid uid reason \<Rightarrow> snd (RequestRefund e oid uid reason w)
      | Refund oid amt reason force deduct \<Rightarrow>
          snd (attempt (PrepareRefund e oid amt reason force deduct w) (\<lambda>err w. (Inl err, w))
            (\<lambda>prepared w. case prepared of Inr early \<Rightarrow> (Inr early, w) | Inl plan \<Rightarrow> ExecuteRefund e sv plan w)))"

definition serve_all :: "pay_env \<Rightarrow> payment_service \<Rightarrow> payment_request list \<Rightarrow> pay_world \<Rightarrow> pay_world" where
  "serve_all e sv rs w = fold (serve e sv) rs w"

lemma goes_serve:
  assumes e: "lkind own e" and proper: "proper_codes own"
  shows "lgoes own w (serve e sv r w)"
proof (cases r)
  case (Refund oid amt reason force deduct)
  have "lgoes own w (snd (attempt (PrepareRefund e oid amt reason force deduct w) (\<lambda>err w. (Inl err, w))
      (\<lambda>prepared w. case prepared of Inr early \<Rightarrow> (Inr early, w) | Inl plan \<Rightarrow> ExecuteRefund e sv plan w)))"
    by (rule ledger.attempt_goes [OF goes_prepare [OF e]]) (simp_all add: ledger.goes_refl goes_refund [OF e] split: sum.split)
  then show ?thesis by (simp add: serve_def Refund)
qed (simp_all add: serve_def goes_webhook [OF e proper] goes_lifecycle [OF e proper] goes_request_refund [OF e]
      yields_goes [OF yields_notification [OF e proper]] yields_goes [OF yields_retry [OF e proper]])

lemma goes_serve_all:
  assumes e: "lkind own e" and proper: "proper_codes own"
  shows "lgoes own w (serve_all e sv rs w)"
  unfolding serve_all_def
proof (induction rs arbitrary: w)
  case (Cons r rs)
  show ?case using ledger.goes_trans [OF goes_serve [OF e proper] Cons.IH] by simp
qed (simp add: ledger.goes_refl)

text \<open>Requests that other processes serve between the calls of a request are such a rely condition themselves.\<close>

lemma served_kind:
  assumes "\<And>n. lkind own (es n)" "proper_codes own" "pe_other e = (\<lambda>n db. pw_db (serve_all (es n) sv (reqs n) (world_of db)))"
  shows "lkind own e"
  unfolding kind_def assms(3)
proof (intro allI impI)
  fix n db assume "ledger_ok own db"
  then show "ledger_ok own (pw_db (serve_all (es n) sv (reqs n) (world_of db)))
      \<and> ledger_le own db (pw_db (serve_all (es n) sv (reqs n) (world_of db)))"
    using goes_serve_all [OF assms(1,2), of "world_of db" n sv "reqs n"] by (simp add: goes_def)
qed

lemma calm_kind: "lkind own (calm_env t)"
  by (auto simp: kind_def calm_env_def intro: ledger.le_refl)

section \<open>The credits of an order\<close>

lemma order_credits:
  assumes "ledger_ok own db" "po \<in> set (pd_orders db)" "po_OrderType po \<noteq> OrderTypeSubscription"
  shows "credits (po_RechargeCode po) db \<in> {[], [credit_of (po_RechargeCode po) (po_UserID po) (po_Amount po)]}
    \<and> (is_settled po \<longrightarrow> credits (po_RechargeCode po) db = [credit_of (po_RechargeCode po) (po_UserID po) (po_Amount po)])"
proof -
  have "order_ok own db po" using assms(1,2) by (simp add: ledger_ok_def)
  then have o: "own (po_RechargeCode po) = Some (po_UserID po, po_Amount po)" "is_settled po \<longrightarrow> code_used (po_RechargeCode po) db"
    using assms(3) by (simp_all add: order_ok_def)
  then have "code_ok (po_RechargeCode po) (po_UserID po) (po_Amount po) db" using assms(1) by (simp add: ledger_ok_def)
  then show ?thesis using o(2) by (simp add: code_ok_def)
qed

text \<open>C28: Whatever requests the payment service has served (webhooks and notifications, repeated ones, retries, cancellations, expiry,
  reconciliation, refunds), whichever calls failed or lost their answer, and whatever other processes did between the
  calls within the same rules, the amount of a balance order has been credited to its user at most once, and exactly once
  when the order is completed or in any state of a refund.\<close>

theorem order_credited_once:
  assumes "proper_codes own" "kind (ledger_ok own) (ledger_le own) e" "ledger_ok own (pw_db w)"
    and "po \<in> set (pd_orders (pw_db (serve_all e sv rs w)))" "po_OrderType po \<noteq> OrderTypeSubscription"
  shows "credits (po_RechargeCode po) (pw_db (serve_all e sv rs w))
      \<in> {[], [credit_of (po_RechargeCode po) (po_UserID po) (po_Amount po)]}
    \<and> (is_settled po \<longrightarrow> credits (po_RechargeCode po) (pw_db (serve_all e sv rs w))
      = [credit_of (po_RechargeCode po) (po_UserID po) (po_Amount po)])"
proof -
  have "ledger_ok own (pw_db (serve_all e sv rs w))" using goes_serve_all [OF assms(2,1), of w sv rs] assms(3) by (simp add: goes_def)
  then show ?thesis by (rule order_credits [OF _ assms(4,5)])
qed

text \<open>An order that is paid, and a second process that serves the notification of the provider too, before every call of
  the first one.\<close>

definition pending_order :: payment_order where
  "pending_order = \<lparr>po_ID = 1, po_UserID = 7, po_Amount = 10, po_PayAmount = 10, po_RechargeCode = ''R1'', po_OutTradeNo = ''sub2_a'',
     po_PaymentType = ''alipay'', po_PaymentTradeNo = '''', po_OrderType = ''balance'', po_SubscriptionGroupID = None,
     po_SubscriptionDays = None, po_ProviderInstanceID = None, po_ProviderKey = None, po_ProviderSnapshot = [],
     po_Status = ''PENDING'', po_RefundAmount = 0, po_RefundReason = None, po_RefundAt = None, po_ForceRefund = False,
     po_RefundRequestedAt = None, po_RefundRequestReason = None, po_RefundRequestedBy = None, po_ExpiresAt = 100 * Minute,
     po_PaidAt = None, po_CompletedAt = None, po_FailedAt = None, po_FailedReason = None, po_UpdatedAt = 0\<rparr>"

definition shop_db :: pay_db where
  "shop_db = \<lparr>pd_orders = [pending_order], pd_audits = [], pd_codes = [], pd_next_code = 1,
     pd_users = [\<lparr>pu_ID = 7, pu_Balance = 5, pu_Concurrency = 2, pu_TotalRecharged = 0\<rparr>], pd_moves = [], pd_refunds = [],
     pd_subs = [], pd_next_sub = 1, pd_groups = [], pd_instances = [], pd_affiliates = [], pd_ledger = [],
     pd_attempts = (\<lambda>_. 0), pd_locks = []\<rparr>"

definition shop :: payment_service where
  "shop = \<lparr>sv_redeem = \<lparr>cf_cache = True, cf_affiliate = None, cf_codes = (\<lambda>_. Inl ent_order_not_found), cf_zone = 0\<rparr>,
     sv_registry = [], sv_create_provider = (\<lambda>_. Inl ErrProviderNotFound),
     sv_json_order_id = (\<lambda>_. None)\<rparr>"

definition paid_notice :: PaymentNotification where
  "paid_notice = \<lparr>nt_TradeNo = ''T1'', nt_OrderID = ''sub2_a'', nt_Amount = Some 10, nt_Status = ''success'', nt_Metadata = []\<rparr>"

definition shop_codes :: order_codes where
  "shop_codes = (\<lambda>code. if code = ''R1'' then Some (7, 10) else None)"

definition busy_env :: pay_env where
  "busy_env = (calm_env 5)\<lparr>pe_other := (\<lambda>n db. pw_db (serve_all (calm_env 5) shop [Notification paid_notice ''alipay''] (world_of db)))\<rparr>"

lemma shop_ok: "proper_codes shop_codes" "ledger_ok shop_codes shop_db"
  by (auto simp: proper_codes_def shop_codes_def ledger_ok_def codes_keyed_def shop_db_def order_ok_def pending_order_def
      is_settled_def psIsRefundStatus_def order_statuses code_ok_def find_code_def code_used_def credits_def trim_space_def
      split: if_splits) code_simp

lemma shop_runs:
  "map po_Status (pd_orders (pw_db (serve_all (calm_env 5) shop [Notification paid_notice ''alipay''] (world_of shop_db)))) = [''COMPLETED'']"
  by code_simp

lemma busy_kind: "kind (ledger_ok shop_codes) (ledger_le shop_codes) busy_env"
  by (rule served_kind [where es = "\<lambda>_. calm_env 5" and sv = shop and reqs = "\<lambda>_. [Notification paid_notice ''alipay'']"])
    (rule calm_kind, rule shop_ok(1), simp add: busy_env_def)

theorem order_credited_once_witness:
  "\<exists>po \<in> set (pd_orders (pw_db (serve_all busy_env shop [Notification paid_notice ''alipay'', Expire] (world_of shop_db)))).
     po_ID po = 1
     \<and> credits ''R1'' (pw_db (serve_all busy_env shop [Notification paid_notice ''alipay'', Expire] (world_of shop_db)))
         \<in> {[], [credit_of ''R1'' 7 10]}"
proof -
  let ?rs = "[Notification paid_notice ''alipay'', Expire]"
  let ?db = "pw_db (serve_all busy_env shop ?rs (world_of shop_db))"
  have "ledger_le shop_codes shop_db ?db"
    using goes_serve_all [OF busy_kind shop_ok(1), of "world_of shop_db" shop ?rs] shop_ok(2) by (simp add: goes_def)
  then have "order_known pending_order ?db" by (rule order_known_stays [rotated]) (simp add: order_known_def shop_db_def)
  then obtain po where po: "po \<in> set (pd_orders ?db)" "order_key po = order_key pending_order" by (auto simp: order_known_def)
  then have f: "po_ID po = 1" "po_UserID po = 7" "po_Amount po = 10" "po_RechargeCode po = ''R1''" "po_OrderType po = ''balance''"
    by (simp_all add: order_key_def pending_order_def)
  have "credits (po_RechargeCode po) ?db \<in> {[], [credit_of (po_RechargeCode po) (po_UserID po) (po_Amount po)]}"
    using order_credited_once [OF shop_ok(1) busy_kind _ po(1)] shop_ok(2) f(5) by (simp add: OrderTypeSubscription_def)
  then show ?thesis using po(1) f by auto
qed

end
