(* ===== verification/Payment_Delivery.thy ===== *)
theory Payment_Delivery
  imports Payment_Requests
begin

text \<open>
  Undisturbed runs that succeed: a retry of a paid order that failed, or was left behind, credits its balance and
  completes it, whatever happened to it before.
\<close>

section \<open>Runs that succeed\<close>

text \<open>\<open>does P m Q\<close>: from a store with \<open>P\<close> the run \<open>m\<close> returns a result, and the store then has \<open>Q\<close>.\<close>

definition does :: "(pay_db \<Rightarrow> bool) \<Rightarrow> (pay_world \<Rightarrow> 'a io) \<Rightarrow> ('a \<Rightarrow> pay_db \<Rightarrow> bool) \<Rightarrow> bool" where
  "does P m Q = (\<forall>w. P (pw_db w) \<longrightarrow> (\<exists>x w'. m w = (Inr x, w') \<and> Q x (pw_db w')))"

definition works :: "(pay_db \<Rightarrow> bool) \<Rightarrow> (pay_world \<Rightarrow> pay_world) \<Rightarrow> (pay_db \<Rightarrow> bool) \<Rightarrow> bool" where
  "works P m Q = (\<forall>w. P (pw_db w) \<longrightarrow> Q (pw_db (m w)))"

text \<open>The same inside a transaction, on what its statements see.\<close>

definition does_tx :: "(pay_db \<Rightarrow> bool) \<Rightarrow> (pay_world \<Rightarrow> 'a io) \<Rightarrow> ('a \<Rightarrow> pay_db \<Rightarrow> bool) \<Rightarrow> bool" where
  "does_tx P m Q =
     (\<forall>w. \<not> pw_aborted w \<longrightarrow> P (view w) \<longrightarrow> (\<exists>x w'. m w = (Inr x, w') \<and> \<not> pw_aborted w' \<and> Q x (view w')))"

lemma does_stmt:
  assumes "calm t e" "\<And>w db. P db \<Longrightarrow> \<exists>x. ask w db = Inr x \<and> Q x (write w db)"
  shows "does P (\<lambda>w. stmt e False (ask w) (write w) w) Q"
  unfolding does_def
proof (intro allI impI)
  fix w :: pay_world assume "P (pw_db w)"
  then obtain x where "ask w (pw_db w) = Inr x" "Q x (write w (pw_db w))" using assms(2) by blast
  then show "\<exists>x w'. stmt e False (ask w) (write w) w = (Inr x, w') \<and> Q x (pw_db w')" by (simp add: calm_stmt [OF assms(1)])
qed

lemma works_stmt:
  assumes "calm t e" "\<And>db. P db \<Longrightarrow> P (write db)"
  shows "works P (\<lambda>w. snd (stmt e False ask write w)) P"
  using assms(2) by (simp add: works_def calm_stmt [OF assms(1)] split: sum.split)

lemma does_return: "(\<And>db. P db \<Longrightarrow> Q x db) \<Longrightarrow> does P (\<lambda>w. (Inr x, w)) Q"
  by (simp add: does_def)

lemma does_seq: "does P m R \<Longrightarrow> (\<And>x. does (R x) (s x) Q) \<Longrightarrow> does P (\<lambda>w. attempt (m w) f s) Q"
  unfolding does_def by fastforce

lemma does_after: "works P m R \<Longrightarrow> does R s Q \<Longrightarrow> does P (\<lambda>w. s (m w)) Q"
  unfolding does_def works_def by blast

lemma does_then: "does P m (\<lambda>_. R) \<Longrightarrow> works R s Q \<Longrightarrow> does P (\<lambda>w. attempt (m w) f (\<lambda>_ w. (Inr (), s w))) (\<lambda>_. Q)"
  unfolding does_def works_def by fastforce

lemma does_weaken: "does P m Q \<Longrightarrow> (\<And>db. P' db \<Longrightarrow> P db) \<Longrightarrow> (\<And>x db. Q x db \<Longrightarrow> Q' x db) \<Longrightarrow> does P' m Q'"
  unfolding does_def by blast

lemma doesE: "does P m Q \<Longrightarrow> P (pw_db w) \<Longrightarrow> (\<And>x w'. m w = (Inr x, w') \<Longrightarrow> Q x (pw_db w') \<Longrightarrow> thesis) \<Longrightarrow> thesis"
  unfolding does_def by blast

lemma does_tx_stmt:
  assumes "calm t e" "\<And>w db. P db \<Longrightarrow> \<exists>x. ask w db = Inr x \<and> Q x (write w db)"
  shows "does_tx P (\<lambda>w. stmt e True (ask w) (write w) w) Q"
  unfolding does_tx_def
proof (intro allI impI)
  fix w :: pay_world assume w: "\<not> pw_aborted w" "P (view w)"
  then obtain x where "ask w (view w) = Inr x" "Q x (write w (view w))" using assms(2) by blast
  then show "\<exists>x w'. stmt e True (ask w) (write w) w = (Inr x, w') \<and> \<not> pw_aborted w' \<and> Q x (view w')"
    using w(1) by (simp add: calm_stmt_tx [OF assms(1)] view_def)
qed

lemma does_tx_return: "(\<And>db. P db \<Longrightarrow> Q x db) \<Longrightarrow> does_tx P (\<lambda>w. (Inr x, w)) Q"
  by (simp add: does_tx_def)

lemma does_tx_seq: "does_tx P m R \<Longrightarrow> (\<And>x. does_tx (R x) (s x) Q) \<Longrightarrow> does_tx P (\<lambda>w. attempt (m w) f s) Q"
  unfolding does_tx_def by fastforce

lemma does_begin:
  assumes "calm t e" "\<And>x w. \<not> pw_aborted w \<Longrightarrow> P (view w) \<Longrightarrow> P (pw_db w) \<Longrightarrow> \<exists>y w'. s x w = (Inr y, w') \<and> Q y (pw_db w')"
  shows "does P (\<lambda>w. attempt (begin_tx e w) f s) Q"
  using assms(2) by (auto simp: does_def calm_begin [OF assms(1)] view_def)

lemma does_transaction:
  assumes e: "calm t e" and body: "does_tx P body Q"
  shows "does P (\<lambda>w. attempt (begin_tx e w) f (\<lambda>_ w. attempt (body w) g (\<lambda>x w. attempt (commit_tx e w) h (\<lambda>_ w. (Inr x, w))))) Q"
proof (rule does_begin [OF e])
  fix w :: pay_world assume "\<not> pw_aborted w" "P (view w)"
  then obtain x w' where "body w = (Inr x, w')" "\<not> pw_aborted w'" "Q x (view w')" using body unfolding does_tx_def by blast
  then show "\<exists>y w'. attempt (body w) g (\<lambda>x w. attempt (commit_tx e w) h (\<lambda>_ w. (Inr x, w))) = (Inr y, w') \<and> Q y (pw_db w')"
    by (simp add: calm_commit [OF e] view_def)
qed

lemma works_audit:
  assumes "calm t e" "\<And>db t. P db \<Longrightarrow> P (add_audit oid act op t db)"
  shows "works P (writeAuditLog e oid act op) P"
  using assms(2) by (simp add: works_def writeAuditLog_def calm_stmt [OF assms(1)] split: sum.split)

section \<open>What an order needs\<close>

text \<open>The order is there, in a state \<open>q\<close>; its user exists and is not barred from redeeming.\<close>

definition standing :: "redeem_config \<Rightarrow> payment_order \<Rightarrow> (payment_order \<Rightarrow> bool) \<Rightarrow> pay_db \<Rightarrow> bool" where
  "standing cf po q db =
     (distinct (map po_ID (pd_orders db)) \<and> (\<exists>x \<in> set (pd_orders db). order_key x = order_key po \<and> q x)
      \<and> po_UserID po \<in> pu_ID ` set (pd_users db)
      \<and> (cf_cache cf \<longrightarrow> pd_attempts db (po_UserID po) < redeemMaxErrorsPerHour))"

definition unlocked :: "redeem_config \<Rightarrow> payment_order \<Rightarrow> pay_db \<Rightarrow> bool" where
  "unlocked cf po db = (cf_cache cf \<longrightarrow> po_RechargeCode po \<notin> set (pd_locks db))"

definition code_open :: "time \<Rightarrow> payment_order \<Rightarrow> RedeemCode \<Rightarrow> bool" where
  "code_open t po c = (rc_Type c = RedeemTypeBalance \<and> rc_Value c = po_Amount po \<and> CanUse t c)"

text \<open>Its code has not been created yet, can be used, or has been used.\<close>

definition code_fine :: "time \<Rightarrow> payment_order \<Rightarrow> pay_db \<Rightarrow> bool" where
  "code_fine t po db = (case find_code (po_RechargeCode po) db of None \<Rightarrow> True | Some c \<Rightarrow> IsUsed c \<or> code_open t po c)"

definition ready :: "time \<Rightarrow> redeem_config \<Rightarrow> payment_order \<Rightarrow> (payment_order \<Rightarrow> bool) \<Rightarrow> pay_db \<Rightarrow> bool" where
  "ready t cf po q db = (standing cf po q db \<and> unlocked cf po db \<and> code_fine t po db)"

lemma ready_audit [simp]:
  "standing cf po q (db\<lparr>pd_audits := a\<rparr>) = standing cf po q db" "unlocked cf po (db\<lparr>pd_audits := a\<rparr>) = unlocked cf po db"
  "code_fine t po (db\<lparr>pd_audits := a\<rparr>) = code_fine t po db" "code_used k (db\<lparr>pd_audits := a\<rparr>) = code_used k db"
  by (simp_all add: standing_def unlocked_def code_fine_def find_code_def code_used_def)

lemma ready_orders [simp]:
  "unlocked cf po (db\<lparr>pd_orders := a\<rparr>) = unlocked cf po db" "code_fine t po (db\<lparr>pd_orders := a\<rparr>) = code_fine t po db"
  "code_used k (db\<lparr>pd_orders := a\<rparr>) = code_used k db"
  by (simp_all add: unlocked_def code_fine_def find_code_def code_used_def)

lemma find_standing:
  assumes "standing cf po q db"
  shows "\<exists>x. find_order (po_ID po) db = Some x \<and> order_key x = order_key po \<and> q x"
proof -
  obtain x where x: "x \<in> set (pd_orders db)" "order_key x = order_key po" "q x" using assms by (auto simp: standing_def)
  then have "List.find (\<lambda>y. po_ID y = po_ID x) (pd_orders db) = Some x" using assms by (intro find_by_key) (simp_all add: standing_def)
  then show ?thesis using x by (auto simp: find_order_def order_key_def)
qed

lemma does_get:
  assumes "calm t e" "\<And>db. P db \<Longrightarrow> standing cf po q db"
  shows "does P (get_order e (po_ID po)) (\<lambda>x db. P db \<and> order_key x = order_key po \<and> q x)"
  unfolding get_order_def [abs_def] using assms(1)
  by (rule does_stmt) (use find_standing [OF assms(2)] in fastforce)

lemma does_update:
  assumes e: "calm t e" and p: "\<And>x. q x \<Longrightarrow> po_ID x = po_ID po \<Longrightarrow> p x" and key: "\<And>x. order_key (f x) = order_key x"
    and q: "\<And>x t. q x \<Longrightarrow> q' ((f x)\<lparr>po_UpdatedAt := t\<rparr>)"
    and R: "\<And>db xs. R db \<Longrightarrow> R (db\<lparr>pd_orders := xs\<rparr>)"
  shows "does (\<lambda>db. standing cf po q db \<and> R db) (update_orders e p f) (\<lambda>c db. 0 < c \<and> standing cf po q' db \<and> R db)"
  unfolding update_orders_def [abs_def]
proof (rule does_stmt [OF e])
  fix w db
  assume db: "standing cf po q db \<and> R db"
  let ?f = "\<lambda>x. (f x)\<lparr>po_UpdatedAt := now e w\<rparr>"
  obtain x where x: "x \<in> set (pd_orders db)" "order_key x = order_key po" "q x" using db by (auto simp: standing_def)
  then have px: "p x" using p by (simp add: order_key_def)
  then have "0 < length (filter p (pd_orders db))" using x(1) by (auto simp: filter_empty_conv)
  moreover have "?f x \<in> set (update_where p ?f (pd_orders db))" using x(1) px by (auto simp: set_update_where)
  then have "\<exists>y \<in> set (update_where p ?f (pd_orders db)). order_key y = order_key po \<and> q' y"
    by (rule bexI [rotated]) (use key x q in simp)
  moreover have "map po_ID (update_where p ?f (pd_orders db)) = map po_ID (pd_orders db)"
    using key by (simp add: map_update_where order_key_def)
  ultimately show "\<exists>c. Inr (length (filter p (pd_orders db))) = (Inr c :: go_error + nat) \<and> 0 < c
      \<and> standing cf po q' (db\<lparr>pd_orders := update_where p ?f (pd_orders db)\<rparr>)
      \<and> R (db\<lparr>pd_orders := update_where p ?f (pd_orders db)\<rparr>)"
    using db R by (simp add: standing_def)
qed

section \<open>Redeeming\<close>

lemma standing_codes [simp]:
  "standing cf po q (db\<lparr>pd_codes := cs\<rparr>) = standing cf po q db" "standing cf po q (db\<lparr>pd_locks := ls\<rparr>) = standing cf po q db"
  "standing cf po q (add_code c db) = standing cf po q db" "standing cf po q (mark_used cid uid s db) = standing cf po q db"
  by (simp_all add: standing_def add_code_def mark_used_def)

lemma standing_credit [simp]: "standing cf po q (add_balance k uid a r db) = standing cf po q db"
proof -
  have "map pu_ID (pd_users (add_balance k uid a r db)) = map pu_ID (pd_users db)"
    by (simp add: add_balance_def map_update_where)
  then have "pu_ID ` set (pd_users (add_balance k uid a r db)) = pu_ID ` set (pd_users db)" by (metis list.set_map)
  then show ?thesis by (simp add: standing_def) (simp add: add_balance_def)
qed

lemma standing_users: "standing cf po q db \<Longrightarrow> \<exists>u \<in> set (pd_users db). pu_ID u = po_UserID po"
  by (auto simp: standing_def)

lemma used_credit [simp]: "code_used k (add_balance k' uid a r db) = code_used k db"
  by (simp add: code_used_def find_code_def add_balance_def)

text \<open>The code with the id \<open>cid\<close> has been used.\<close>

definition spent :: "string \<Rightarrow> int \<Rightarrow> pay_db \<Rightarrow> bool" where
  "spent code cid db = (\<exists>x. find_code code db = Some x \<and> rc_ID x = cid \<and> IsUsed x)"

lemma spent_credit [simp]: "spent k cid (add_balance k' uid a r db) = spent k cid db"
  by (simp add: spent_def find_code_def add_balance_def)

lemma spent_used: "spent k cid db \<Longrightarrow> code_used k db"
  by (auto simp: spent_def code_used_def)

lemma used_marked:
  assumes "find_code code db = Some c" "rc_Status c = StatusUnused"
  shows "spent code (rc_ID c) (mark_used (rc_ID c) uid t db)"
proof -
  have "find_code code (mark_used (rc_ID c) uid t db) = Some (c\<lparr>rc_Status := StatusUsed, rc_UsedBy := Some uid, rc_UsedAt := Some t\<rparr>)"
    using assms unfolding find_code_def mark_used_def by (simp add: find_update_where usable_def)
  then show ?thesis by (simp add: spent_def IsUsed_def)
qed

lemma does_redeem_tx:
  assumes e: "calm t e" and c: "rc_Type c = RedeemTypeBalance" "0 < rc_Value c" "rc_Status c = StatusUnused"
    and P: "\<And>db. P db \<Longrightarrow> standing cf po q db \<and> find_code code db = Some c"
  shows "does P (redeem_transaction e cf (po_UserID po) u c) (\<lambda>_ db. standing cf po q db \<and> spent code (rc_ID c) db)"
proof -
  let ?uid = "po_UserID po"
  have stmt: "does_tx P (\<lambda>w. stmt e True (\<lambda>db. Inr (length (filter (usable (rc_ID c)) (pd_codes db)))) (mark_used (rc_ID c) ?uid (now e w)) w)
      (\<lambda>n db. 0 < n \<and> standing cf po q db \<and> spent code (rc_ID c) db)"
  proof (rule does_tx_stmt [OF e])
    fix w db assume "P db"
    note p = P [OF this]
    then have "c \<in> set (pd_codes db)" using find_Some_in unfolding find_code_def by fast
    then have "0 < length (filter (usable (rc_ID c)) (pd_codes db))" using c(3) by (auto simp: filter_empty_conv usable_def)
    then show "\<exists>n. Inr (length (filter (usable (rc_ID c)) (pd_codes db))) = (Inr n :: go_error + nat) \<and> 0 < n
        \<and> standing cf po q (mark_used (rc_ID c) ?uid (now e w) db) \<and> spent code (rc_ID c) (mark_used (rc_ID c) ?uid (now e w) db)"
      using p c(3) used_marked by simp
  qed
  have positive: "does_tx (\<lambda>db. 0 < n \<and> standing cf po q db \<and> spent code (rc_ID c) db) (\<lambda>w. if n = 0 then (Inl err, w) else (Inr (), w))
      (\<lambda>_ db. standing cf po q db \<and> spent code (rc_ID c) db)" for n :: nat and err
    by (cases "n = 0") (simp_all add: does_tx_def)
  have use: "does_tx P (redeem_Use e True (rc_ID c) ?uid) (\<lambda>_ db. standing cf po q db \<and> spent code (rc_ID c) db)"
    unfolding redeem_Use_def [abs_def] by (rule does_tx_seq [OF stmt positive])
  have "does_tx (\<lambda>db. standing cf po q db \<and> spent code (rc_ID c) db)
      (\<lambda>w. stmt e True (\<lambda>db. Inr (length (filter (\<lambda>u. pu_ID u = ?uid) (pd_users db)))) (add_balance (Some k) ?uid a r) w)
      (\<lambda>n db. 0 < n \<and> standing cf po q db \<and> spent code (rc_ID c) db)" for k a r
    by (rule does_tx_stmt [OF e]) (auto simp: filter_empty_conv standing_users)
  then have "does_tx (\<lambda>db. standing cf po q db \<and> spent code (rc_ID c) db) (UpdateBalance e True (Some k) ?uid a)
      (\<lambda>_ db. standing cf po q db \<and> spent code (rc_ID c) db)" for k a
    unfolding UpdateBalance_def [abs_def] by (rule does_tx_seq [OF _ positive])
  then have credit: "does_tx (\<lambda>db. standing cf po q db \<and> spent code (rc_ID c) db)
      (\<lambda>w. attempt (UpdateBalance e True (Some k) ?uid a w) f (\<lambda>_ w. (Inr (), w))) (\<lambda>_ db. standing cf po q db \<and> spent code (rc_ID c) db)" for k a f
    by (rule does_tx_seq) (rule does_tx_return, simp)
  have grant: "redeem_grant e cf ?uid u c = (\<lambda>w. attempt (UpdateBalance e True (Some (rc_Code c)) ?uid (rc_Value c) w)
      (\<lambda>err w. (Inl (errorf ''update user balance'' err), w)) (\<lambda>_ w. (Inr (), w)))"
    using c by (simp add: redeem_grant_def [abs_def] Let_def)
  have "does_tx P (redeem_in_tx e cf ?uid u c) (\<lambda>_ db. standing cf po q db \<and> spent code (rc_ID c) db)"
    unfolding redeem_in_tx_def [abs_def] grant by (rule does_tx_seq [OF use credit])
  then show ?thesis unfolding redeem_transaction_def [abs_def] by (rule does_transaction [OF e])
qed

lemma does_redeem_locked:
  assumes e: "calm t e" and a: "0 < po_Amount po"
  shows "does (\<lambda>db. standing cf po q db \<and> (\<exists>c. find_code (po_RechargeCode po) db = Some c \<and> code_open t po c))
    (redeem_locked e cf True (po_UserID po) (po_RechargeCode po)) (\<lambda>_ db. standing cf po q db \<and> code_used (po_RechargeCode po) db)"
proof -
  let ?code = "po_RechargeCode po" and ?uid = "po_UserID po"
  let ?P = "\<lambda>c db. standing cf po q db \<and> find_code ?code db = Some c \<and> code_open t po c"
  let ?Q = "\<lambda>_ db. standing cf po q db \<and> code_used ?code db"
  have found: "does (\<lambda>db. standing cf po q db \<and> (\<exists>c. find_code ?code db = Some c \<and> code_open t po c)) (redeem_GetByCode e ?code) ?P"
  proof -
    have "does (\<lambda>db. standing cf po q db \<and> (\<exists>c. find_code ?code db = Some c \<and> code_open t po c))
        (\<lambda>w. stmt e False (\<lambda>db. Inr (find_code ?code db)) (\<lambda>db. db) w) (\<lambda>r db. \<exists>c. r = Some c \<and> ?P c db)"
      by (rule does_stmt [OF e]) auto
    moreover have "does (\<lambda>db. \<exists>c. r = Some c \<and> ?P c db) (\<lambda>w. (code_or_error r, w)) ?P" for r
      by (cases r) (simp_all add: does_def code_or_error_def)
    ultimately show ?thesis unfolding redeem_GetByCode_def [abs_def] by (rule does_seq)
  qed
  have user: "does (?P c) (get_user e ?uid) (\<lambda>_. ?P c)" for c
    unfolding get_user_def [abs_def] using e
  proof (rule does_stmt)
    fix w db assume p: "?P c db"
    then obtain u where "u \<in> set (pd_users db)" "pu_ID u = ?uid" using standing_users by blast
    then have "find_user ?uid db \<noteq> None" by (auto simp: find_user_def find_None_iff)
    then show "\<exists>x. (case find_user ?uid db of Some u \<Rightarrow> Inr u | None \<Rightarrow> Inl pay_ErrUserNotFound) = Inr x \<and> ?P c db" using p by auto
  qed
  have tx: "does (?P c) (redeem_transaction e cf ?uid u c) (\<lambda>_ db. standing cf po q db \<and> spent ?code (rc_ID c) db)"
    if "code_open t po c" for u c
    by (rule does_redeem_tx [OF e]) (use that a in \<open>simp_all add: code_open_def CanUse_def\<close>)
  have reread: "does (\<lambda>db. standing cf po q db \<and> spent ?code cid db) (redeem_GetByID e cid) ?Q" for cid
  proof -
    have "\<exists>y. List.find (\<lambda>c. rc_ID c = cid) (pd_codes db) = Some y" if "spent ?code cid db" for db
    proof -
      have "\<exists>x \<in> set (pd_codes db). rc_ID x = cid" using that find_Some_in unfolding spent_def find_code_def by fast
      then have "List.find (\<lambda>c. rc_ID c = cid) (pd_codes db) \<noteq> None" by (auto simp: find_None_iff)
      then show ?thesis by blast
    qed
    then have "does (\<lambda>db. standing cf po q db \<and> spent ?code cid db)
        (\<lambda>w. stmt e False (\<lambda>db. Inr (List.find (\<lambda>c. rc_ID c = cid) (pd_codes db))) (\<lambda>db. db) w)
        (\<lambda>r db. r \<noteq> None \<and> standing cf po q db \<and> code_used ?code db)"
      by (intro does_stmt [OF e]) (auto simp: spent_used)
    moreover have "does (\<lambda>db. r \<noteq> None \<and> standing cf po q db \<and> code_used ?code db) (\<lambda>w. (code_or_error r, w)) ?Q" for r
      by (cases r) (simp_all add: does_def code_or_error_def)
    ultimately show ?thesis unfolding redeem_GetByID_def [abs_def] by (rule does_seq)
  qed
  have granted: "does (?P c) (\<lambda>w. attempt (get_user e ?uid w) f
      (\<lambda>u w. attempt (redeem_transaction e cf ?uid u c w) g (\<lambda>_ w. attempt (redeem_GetByID e (rc_ID c) w) h (\<lambda>c w. (Inr c, w))))) ?Q"
    if "code_open t po c" for c f g h
    by (rule does_seq [OF user], rule does_seq [OF tx [OF that]], rule does_seq [OF reread], rule does_return)
  have skip: "(if b then tryAccrueAffiliateRebateForRedeem e cf True uid v w else w) = w" for b uid v w
    by (cases b) (simp_all add: tryAccrueAffiliateRebateForRedeem_def)
  show ?thesis unfolding redeem_locked_def [abs_def]
  proof (rule does_seq [OF found])
    fix c
    show "does (?P c) (\<lambda>w.
          if IsExpiredAt (now e w) c then (Inl ErrRedeemCodeExpired, incrementRedeemErrorCount e cf ?uid w)
          else if \<not> CanUse (now e w) c then (Inl ErrRedeemCodeUsed, incrementRedeemErrorCount e cf ?uid w)
          else if rc_Type c = RedeemTypeSubscription \<and> rc_GroupID c = None then
            (Inl (BadRequest ''REDEEM_CODE_INVALID'' ''invalid subscription redeem code: missing group_id''), w)
          else attempt (get_user e ?uid w) (\<lambda>err w. (Inl (errorf ''get user'' err), w))
            (\<lambda>u w. attempt (redeem_transaction e cf ?uid u c w) (\<lambda>err w. (Inl err, w))
               (\<lambda>_ w.
                  let w = (if rc_Type c = RedeemTypeBalance \<and> 0 < rc_Value c
                           then tryAccrueAffiliateRebateForRedeem e cf True ?uid (rc_Value c) w else w)
                  in attempt (redeem_GetByID e (rc_ID c) w)
                       (\<lambda>err w. (Inl (errorf ''get updated redeem code'' err), w)) (\<lambda>c w. (Inr c, w))))) ?Q"
    proof (cases "code_open t po c")
      case True
      then have "CanUse t c" "\<not> IsExpiredAt t c" "rc_Type c \<noteq> RedeemTypeSubscription"
        by (auto simp: code_open_def CanUse_def RedeemTypeBalance_def RedeemTypeSubscription_def)
      then show ?thesis using granted [OF True] by (simp add: calm_now [OF e] skip)
    qed (simp add: does_def)
  qed
qed

lemma does_redeem:
  assumes e: "calm t e" and a: "0 < po_Amount po"
  shows "does (\<lambda>db. standing cf po q db \<and> unlocked cf po db \<and> (\<exists>c. find_code (po_RechargeCode po) db = Some c \<and> code_open t po c))
    (Redeem e cf True (po_UserID po) (po_RechargeCode po))
    (\<lambda>_ db. standing cf po q db \<and> code_used (po_RechargeCode po) db)"
proof (cases "cf_cache cf")
  case True
  let ?code = "po_RechargeCode po" and ?uid = "po_UserID po"
  let ?R = "\<lambda>db. standing cf po q db \<and> (\<exists>c. find_code ?code db = Some c \<and> code_open t po c)"
  have one: "\<exists>x w'. Redeem e cf True ?uid ?code w = (Inr x, w') \<and> standing cf po q (pw_db w') \<and> code_used ?code (pw_db w')"
    if w: "?R (pw_db w)" "unlocked cf po (pw_db w)" for w
  proof -
    have attempts: "\<not> redeemMaxErrorsPerHour \<le> pd_attempts (pw_db w) ?uid" using w(1) True by (auto simp: standing_def)
    obtain n where rate: "checkRedeemRateLimit e cf ?uid w = (Inr (), w\<lparr>pw_calls := n\<rparr>)"
      using True attempts by (simp add: checkRedeemRateLimit_def GetRedeemAttemptCount_def calm_stmt [OF e])
    let ?w1 = "w\<lparr>pw_calls := Suc n, pw_db := (pw_db w)\<lparr>pd_locks := ?code # pd_locks (pw_db w)\<rparr>\<rparr>"
    have lock: "acquireRedeemLock e cf ?code (w\<lparr>pw_calls := n\<rparr>) = (True, ?w1)"
      using True w(2) by (simp add: acquireRedeemLock_def AcquireRedeemLock_def calm_stmt [OF e] unlocked_def)
    have "?R (pw_db ?w1)" using w(1) by (simp add: find_code_def)
    then obtain x w2 where run: "redeem_locked e cf True ?uid ?code ?w1 = (Inr x, w2)" "standing cf po q (pw_db w2)" "code_used ?code (pw_db w2)"
      by (rule doesE [OF does_redeem_locked [OF e a]]) blast
    have "pw_db (releaseRedeemLock e cf ?code w2) = (pw_db w2)\<lparr>pd_locks := filter (\<lambda>c. c \<noteq> ?code) (pd_locks (pw_db w2))\<rparr>"
      using True by (simp add: releaseRedeemLock_def ReleaseRedeemLock_def calm_stmt [OF e])
    then show ?thesis using run by (simp add: Redeem_def rate lock code_used_def find_code_def)
  qed
  then show ?thesis unfolding does_def by blast
next
  case False
  have "Redeem e cf True (po_UserID po) (po_RechargeCode po) = redeem_locked e cf True (po_UserID po) (po_RechargeCode po)"
    using False by (intro ext) (simp add: Redeem_def checkRedeemRateLimit_def acquireRedeemLock_def releaseRedeemLock_def prod.case_eq_if)
  then show ?thesis using does_redeem_locked [OF e a] by (auto intro: does_weaken)
qed

section \<open>Fulfilment\<close>

text \<open>There is no affiliate service, or the programme is switched off.\<close>

definition affiliates_off :: "payment_service \<Rightarrow> bool" where
  "affiliates_off sv = (case cf_affiliate (sv_redeem sv) of None \<Rightarrow> True | Some st \<Rightarrow> \<not> IsAffiliateEnabled st)"

lemma does_rebate:
  assumes e: "calm t e" and off: "affiliates_off sv" and P: "\<And>db a. P db \<Longrightarrow> P (db\<lparr>pd_audits := a\<rparr>)"
  shows "does P (applyAffiliateRebateForOrder e sv po) (\<lambda>_. P)"
  unfolding does_def
proof (intro allI impI)
  fix w :: pay_world assume w: "P (pw_db w)"
  let ?run = "applyAffiliateRebateForOrder e sv po w"
  show "\<exists>x w'. ?run = (Inr x, w') \<and> P (pw_db w')"
  proof (cases "affiliateRebateBaseAmount po \<le> 0 \<or> cf_affiliate (sv_redeem sv) = None")
    case True
    then have "?run = (Inr (), w)" by (auto simp: applyAffiliateRebateForOrder_def Let_def)
    then show ?thesis using w by simp
  next
    case False
    then obtain st where st: "cf_affiliate (sv_redeem sv) = Some st" "\<not> affiliateRebateBaseAmount po \<le> 0" by auto
    then have dis: "\<not> IsAffiliateEnabled st" using off by (simp add: affiliates_off_def)
    let ?claim = "\<lambda>a. al_OrderID a = po_ID po \<and> al_Action a = ''AFFILIATE_REBATE_APPLIED''"
    have claims: "filter ?claim (pd_audits (add_audit (po_ID po) ''AFFILIATE_REBATE_APPLIED'' op s db)) \<noteq> []" for op s db
      by (simp add: add_audit_def)
    let ?c = "pw_calls w"
    let ?w1 = "w\<lparr>pw_aborted := False, pw_calls := Suc ?c, pw_pending := (\<lambda>db. db)\<rparr>"
    have begun: "begin_tx e w = (Inr (), ?w1)" by (simp add: calm_begin [OF e])
    show ?thesis
    proof (cases "rebate_claimed (po_ID po) (pw_db w)")
      case True
      then have "tryClaimAffiliateRebateAudit e (po_ID po) ?w1 = (Inr False, w\<lparr>pw_aborted := False, pw_calls := Suc (Suc ?c),
          pw_pending := (\<lambda>db. if rebate_claimed (po_ID po) db then db
             else add_audit (po_ID po) ''AFFILIATE_REBATE_APPLIED'' ''system'' t db) \<circ> (\<lambda>db. db)\<rparr>)"
        by (simp add: tryClaimAffiliateRebateAudit_def calm_stmt_tx [OF e] calm_now [OF e] cong: if_cong)
      then show ?thesis using w st by (simp add: applyAffiliateRebateForOrder_def Let_def begun rollback_def)
    next
      case False
      let ?wr = "\<lambda>db. if rebate_claimed (po_ID po) db then db else add_audit (po_ID po) ''AFFILIATE_REBATE_APPLIED'' ''system'' t db"
      let ?w2 = "w\<lparr>pw_aborted := False, pw_calls := Suc (Suc ?c), pw_pending := ?wr\<rparr>"
      have claim: "tryClaimAffiliateRebateAudit e (po_ID po) ?w1 = (Inr True, ?w2)"
        using False by (simp add: tryClaimAffiliateRebateAudit_def calm_stmt_tx [OF e] calm_now [OF e] comp_def cong: if_cong)
      have accrue: "AccrueInviteRebateForOrder e st codes True uid base src ?w2 = (Inr 0, ?w2)" for codes uid base src
        using dis by (simp add: AccrueInviteRebateForOrder_def)
      let ?skip = "\<lambda>db. db\<lparr>pd_audits := update_where ?claim (\<lambda>a. a\<lparr>al_Action := ''AFFILIATE_REBATE_SKIPPED'', al_Operator := ''system''\<rparr>) (pd_audits db)\<rparr>"
      let ?w3 = "w\<lparr>pw_aborted := False, pw_calls := Suc (Suc (Suc ?c)), pw_pending := ?skip \<circ> ?wr\<rparr>"
      have wr: "?wr (pw_db w) = add_audit (po_ID po) ''AFFILIATE_REBATE_APPLIED'' ''system'' t (pw_db w)" using False by simp
      have update: "updateClaimedAffiliateRebateAudit e (po_ID po) ''AFFILIATE_REBATE_SKIPPED'' ?w2 = (Inr (), ?w3)"
        using False claims by (simp add: updateClaimedAffiliateRebateAudit_def Let_def calm_stmt_tx [OF e])
      have commit: "\<exists>w'. commit_tx e ?w3 = (Inr (), w') \<and> pw_db w' = ?skip (?wr (pw_db w))" by (simp add: calm_commit [OF e])
      have "P (?skip (?wr (pw_db w)))" using w P by (simp add: wr add_audit_def)
      then show ?thesis using st commit
        by (auto simp: applyAffiliateRebateForOrder_def Let_def begun claim accrue update)
    qed
  qed
qed

text \<open>The states of the order on its way.\<close>

abbreviation in_state :: "string \<Rightarrow> payment_order \<Rightarrow> bool" where
  "in_state s \<equiv> \<lambda>x. po_Status x = s"

lemma does_completed:
  assumes e: "calm t e" and po: "order_key x = order_key po"
  shows "does (\<lambda>db. standing cf po (in_state OrderStatusRecharging) db \<and> code_used k db) (markCompleted e x act)
    (\<lambda>_ db. standing cf po (in_state OrderStatusCompleted) db)"
proof -
  have x: "po_ID x = po_ID po" using po by (simp add: order_key_def)
  have "does (\<lambda>db. standing cf po (in_state OrderStatusRecharging) db \<and> True)
      (update_orders e (in_status (po_ID po) [OrderStatusRecharging]) (\<lambda>x. x\<lparr>po_Status := OrderStatusCompleted, po_CompletedAt := Some t\<rparr>))
      (\<lambda>c db. 0 < c \<and> standing cf po (in_state OrderStatusCompleted) db \<and> True)"
    by (rule does_update [OF e]) (simp_all add: in_status_def order_key_def)
  then have upd: "does (\<lambda>db. standing cf po (in_state OrderStatusRecharging) db \<and> code_used k db)
      (update_orders e (in_status (po_ID po) [OrderStatusRecharging]) (\<lambda>x. x\<lparr>po_Status := OrderStatusCompleted, po_CompletedAt := Some t\<rparr>))
      (\<lambda>_. standing cf po (in_state OrderStatusCompleted))"
    by (rule does_weaken) simp_all
  have "works (standing cf po (in_state OrderStatusCompleted)) (writeAuditLog e oid act op) (standing cf po (in_state OrderStatusCompleted))" for oid op
    by (rule works_audit [OF e]) (simp add: add_audit_def)
  then show ?thesis unfolding markCompleted_def [abs_def] Let_def x calm_now [OF e] by (rule does_then [OF upd])
qed

lemma does_finish:
  assumes e: "calm t e" and off: "affiliates_off sv" and po: "order_key x = order_key po"
  shows "does (\<lambda>db. standing cf po (in_state OrderStatusRecharging) db \<and> code_used k db) (finish_balance e sv x)
    (\<lambda>_ db. standing cf po (in_state OrderStatusCompleted) db)"
  unfolding finish_balance_def [abs_def]
  by (rule does_seq [OF does_rebate [OF e off] does_completed [OF e po]]) simp

lemma does_redeem_balance:
  assumes e: "calm t e" and off: "affiliates_off sv" and a: "0 < po_Amount po" and po: "order_key x = order_key po"
  shows "does (\<lambda>db. standing (sv_redeem sv) po (in_state OrderStatusRecharging) db \<and> unlocked (sv_redeem sv) po db
      \<and> (\<exists>c. find_code (po_RechargeCode po) db = Some c \<and> code_open t po c))
    (redeem_balance e sv x) (\<lambda>_ db. standing (sv_redeem sv) po (in_state OrderStatusCompleted) db)"
proof -
  have "po_UserID x = po_UserID po" "po_RechargeCode x = po_RechargeCode po" using po by (simp_all add: order_key_def)
  then show ?thesis unfolding redeem_balance_def [abs_def] by (simp only:) (rule does_seq [OF does_redeem [OF e a] does_finish [OF e off po]])
qed

lemma does_create:
  assumes e: "calm t e" and a: "0 < po_Amount po" and code: "po_RechargeCode po \<noteq> ''''" "trim_space (po_RechargeCode po) = po_RechargeCode po"
    and po: "order_key x = order_key po"
  shows "does (\<lambda>db. standing cf po q db \<and> unlocked cf po db \<and> find_code (po_RechargeCode po) db = None)
    (CreateCode e (order_code x))
    (\<lambda>_ db. standing cf po q db \<and> unlocked cf po db \<and> (\<exists>c. find_code (po_RechargeCode po) db = Some c \<and> code_open t po c))"
proof -
  let ?P = "\<lambda>db. standing cf po q db \<and> unlocked cf po db \<and> find_code (po_RechargeCode po) db = None"
  let ?Q = "\<lambda>_ db. standing cf po q db \<and> unlocked cf po db \<and> (\<exists>c. find_code (po_RechargeCode po) db = Some c \<and> code_open t po c)"
  have x: "po_RechargeCode x = po_RechargeCode po" "po_Amount x = po_Amount po" using po by (simp_all add: order_key_def)
  have types: "RedeemTypeBalance \<noteq> ''''" "StatusUnused \<noteq> ''''" "RedeemTypeBalance \<noteq> RedeemTypeInvitation" "StatusUnused \<noteq> StatusExpired"
    by (simp_all add: RedeemTypeBalance_def StatusUnused_def RedeemTypeInvitation_def StatusExpired_def)
  have norm: "(order_code x)\<lparr>rc_Code := po_RechargeCode po, rc_Type := RedeemTypeBalance, rc_Status := StatusUnused\<rparr> = order_code x"
    by (simp add: order_code_def x)
  have fields: "rc_Code (order_code x) = po_RechargeCode po" "rc_Type (order_code x) = RedeemTypeBalance"
    "rc_Status (order_code x) = StatusUnused" "rc_Value (order_code x) = po_Amount po" "rc_ExpiresAt (order_code x) = None"
    by (simp_all add: order_code_def x)
  have use: "\<not> IsExpiredAt t c" if "rc_Status c = StatusUnused" "rc_ExpiresAt c = None" for c
    using that types by (simp add: IsExpiredAt_def)
  have "does ?P (\<lambda>w. stmt e False (\<lambda>db. if code_exists (po_RechargeCode po) db then Inl duplicate_key else Inr ()) (add_code (order_code x)) w) ?Q"
  proof (rule does_stmt [OF e])
    fix w db assume db: "?P db"
    then have "\<not> code_exists (po_RechargeCode po) db" by (auto simp: find_code_def code_exists_def find_None_iff)
    moreover have "find_code (po_RechargeCode po) (add_code (order_code x) db) = Some ((order_code x)\<lparr>rc_ID := pd_next_code db\<rparr>)"
      using db by (simp add: find_code_def add_code_def find_append_None fields)
    moreover have "code_open t po ((order_code x)\<lparr>rc_ID := pd_next_code db\<rparr>)" by (simp add: code_open_def CanUse_def fields use)
    moreover have "unlocked cf po (add_code (order_code x) db)" using db by (simp add: unlocked_def add_code_def)
    ultimately show "\<exists>y. (if code_exists (po_RechargeCode po) db then Inl duplicate_key else Inr ()) = Inr y \<and> ?Q y (add_code (order_code x) db)"
      using db by simp
  qed
  then have create: "does ?P (\<lambda>w. attempt (redeem_Create e (order_code x) w) f (\<lambda>_ w. (Inr (), w))) ?Q" for f
    unfolding redeem_Create_def [abs_def] fields by (rule does_seq) (rule does_return, simp)
  have "CreateCode e (order_code x) = (\<lambda>w. attempt (redeem_Create e (order_code x) w)
      (\<lambda>err w. (Inl (errorf ''create redeem code'' err), w)) (\<lambda>_ w. (Inr (), w)))"
    using a code types by (intro ext) (simp add: CreateCode_def Let_def fields norm calm_now [OF e] use)
  then show ?thesis using create by simp
qed

lemma does_balance:
  assumes e: "calm t e" and off: "affiliates_off sv" and a: "0 < po_Amount po"
    and code: "po_RechargeCode po \<noteq> ''''" "trim_space (po_RechargeCode po) = po_RechargeCode po" and po: "order_key x = order_key po"
  shows "does (ready t (sv_redeem sv) po (in_state OrderStatusRecharging)) (doBalance e sv x)
    (\<lambda>_ db. standing (sv_redeem sv) po (in_state OrderStatusCompleted) db)"
  unfolding does_def
proof (intro allI impI)
  let ?code = "po_RechargeCode po" and ?cf = "sv_redeem sv"
  let ?P = "\<lambda>db. standing ?cf po (in_state OrderStatusRecharging) db \<and> unlocked ?cf po db \<and> (\<exists>c. find_code ?code db = Some c \<and> code_open t po c)"
  let ?Q = "\<lambda>_ :: unit. standing ?cf po (in_state OrderStatusCompleted)"
  fix w :: pay_world assume w: "ready t ?cf po (in_state OrderStatusRecharging) (pw_db w)"
  then have st: "standing ?cf po (in_state OrderStatusRecharging) (pw_db w)" "unlocked ?cf po (pw_db w)" by (simp_all add: ready_def)
  have x: "po_RechargeCode x = ?code" using po by (simp add: order_key_def)
  let ?w1 = "w\<lparr>pw_calls := Suc (pw_calls w)\<rparr>"
  have get: "redeem_service_GetByCode e ?code w = (case find_code ?code (pw_db w) of
      Some c \<Rightarrow> (Inr c, ?w1) | None \<Rightarrow> (Inl (errorf ''get redeem code'' ErrRedeemCodeNotFound), ?w1))"
    by (simp add: redeem_service_GetByCode_def redeem_GetByCode_def calm_stmt [OF e] code_or_error_def split: option.split)
  show "\<exists>y w'. doBalance e sv x w = (Inr y, w') \<and> ?Q y (pw_db w')"
  proof (cases "find_code ?code (pw_db w)")
    case None
    have "does (\<lambda>db. standing ?cf po (in_state OrderStatusRecharging) db \<and> unlocked ?cf po db \<and> find_code ?code db = None)
        (\<lambda>w. attempt (CreateCode e (order_code x) w) (\<lambda>err w. (Inl (errorf ''create redeem code'' err), w)) (\<lambda>_ w. redeem_balance e sv x w)) ?Q"
      by (rule does_seq [OF does_create [OF e a code po] does_redeem_balance [OF e off a po]])
    then have "\<exists>y w'. attempt (CreateCode e (order_code x) ?w1) (\<lambda>err w. (Inl (errorf ''create redeem code'' err), w))
        (\<lambda>_ w. redeem_balance e sv x w) = (Inr y, w') \<and> ?Q y (pw_db w')"
      using st None unfolding does_def by simp
    then show ?thesis by (simp add: doBalance_def x get None resolveRedeemAction_def)
  next
    case (Some c)
    show ?thesis
    proof (cases "IsUsed c")
      case True
      then have "code_used ?code (pw_db ?w1)" using Some by (simp add: code_used_def)
      then have "\<exists>y w'. finish_balance e sv x ?w1 = (Inr y, w') \<and> ?Q y (pw_db w')"
        using does_finish [OF e off po, of ?cf ?code] st unfolding does_def by simp
      then show ?thesis using True by (simp add: doBalance_def x get Some resolveRedeemAction_def)
    next
      case False
      then have "code_open t po c" using w Some by (simp add: ready_def code_fine_def)
      then have "\<exists>y w'. redeem_balance e sv x ?w1 = (Inr y, w') \<and> ?Q y (pw_db w')"
        using does_redeem_balance [OF e off a po] st Some unfolding does_def by simp
      then show ?thesis using False by (simp add: doBalance_def x get Some resolveRedeemAction_def)
    qed
  qed
qed

lemma does_take:
  assumes e: "calm t e" and off: "affiliates_off sv" and a: "0 < po_Amount po"
    and code: "po_RechargeCode po \<noteq> ''''" "trim_space (po_RechargeCode po) = po_RechargeCode po" and po: "order_key x = order_key po"
  shows "does (ready t (sv_redeem sv) po (in_state OrderStatusPaid)) (take_order e (po_ID po) (doBalance e sv x))
    (\<lambda>_ db. standing (sv_redeem sv) po (in_state OrderStatusCompleted) db)"
proof -
  let ?R = "\<lambda>db. unlocked (sv_redeem sv) po db \<and> code_fine t po db"
  have lock: "does (\<lambda>db. standing (sv_redeem sv) po (in_state OrderStatusPaid) db \<and> ?R db)
      (update_orders e (in_status (po_ID po) [OrderStatusPaid, OrderStatusFailed]) (\<lambda>x. x\<lparr>po_Status := OrderStatusRecharging\<rparr>))
      (\<lambda>c db. 0 < c \<and> standing (sv_redeem sv) po (in_state OrderStatusRecharging) db \<and> ?R db)"
    by (rule does_update [OF e]) (simp_all add: in_status_def order_key_def)
  have "does (\<lambda>db. 0 < c \<and> standing (sv_redeem sv) po (in_state OrderStatusRecharging) db \<and> ?R db)
      (\<lambda>w. if c = 0 then (Inr (), w) else attempt (doBalance e sv x w) (\<lambda>err w. (Inl err, markFailed e (po_ID po) err w)) (\<lambda>_ w. (Inr (), w)))
      (\<lambda>_ db. standing (sv_redeem sv) po (in_state OrderStatusCompleted) db)" for c :: nat
  proof (cases "c = 0")
    case False
    then show ?thesis using does_seq [OF does_balance [OF e off a code po] does_return] by (simp add: ready_def [abs_def])
  qed (simp add: does_def)
  with lock show ?thesis unfolding take_order_def [abs_def] ready_def [abs_def] by (rule does_seq)
qed

lemma does_fulfilment:
  assumes e: "calm t e" and off: "affiliates_off sv" and a: "0 < po_Amount po" and bal: "po_OrderType po \<noteq> OrderTypeSubscription"
    and code: "po_RechargeCode po \<noteq> ''''" "trim_space (po_RechargeCode po) = po_RechargeCode po"
  shows "does (ready t (sv_redeem sv) po (in_state OrderStatusPaid)) (executeFulfillment e sv (po_ID po))
    (\<lambda>_ db. standing (sv_redeem sv) po (in_state OrderStatusCompleted) db)"
proof -
  let ?P = "ready t (sv_redeem sv) po (in_state OrderStatusPaid)" and ?Q = "\<lambda>_ :: unit. standing (sv_redeem sv) po (in_state OrderStatusCompleted)"
  have get: "does ?P (get_order e (po_ID po)) (\<lambda>x db. ?P db \<and> order_key x = order_key po \<and> po_Status x = OrderStatusPaid)"
    by (rule does_get [OF e, where cf = "sv_redeem sv"]) (simp add: ready_def)
  have execute: "does ?P (ExecuteBalanceFulfillment e sv (po_ID po)) ?Q"
    unfolding ExecuteBalanceFulfillment_def [abs_def]
  proof (rule does_seq [OF get])
    fix x
    show "does (\<lambda>db. ?P db \<and> order_key x = order_key po \<and> po_Status x = OrderStatusPaid)
        (\<lambda>w. if po_Status x = OrderStatusCompleted then (Inr (), w)
           else case cannot_fulfill x of Some err \<Rightarrow> (Inl err, w) | None \<Rightarrow> take_order e (po_ID po) (doBalance e sv x) w) ?Q"
    proof (cases "order_key x = order_key po \<and> po_Status x = OrderStatusPaid")
      case True
      then have "cannot_fulfill x = None" "po_Status x \<noteq> OrderStatusCompleted"
        by (simp_all add: cannot_fulfill_def psIsRefundStatus_def order_statuses)
      then show ?thesis using True does_take [OF e off a code, of x] by simp
    qed (auto simp: does_def)
  qed
  show ?thesis unfolding executeFulfillment_def [abs_def]
  proof (rule does_seq [OF get])
    fix x
    show "does (\<lambda>db. ?P db \<and> order_key x = order_key po \<and> po_Status x = OrderStatusPaid)
        (\<lambda>w. if po_OrderType x = OrderTypeSubscription then ExecuteSubscriptionFulfillment e sv (po_ID po) w
           else ExecuteBalanceFulfillment e sv (po_ID po) w) ?Q"
    proof (cases "order_key x = order_key po")
      case True
      then have "po_OrderType x \<noteq> OrderTypeSubscription" using bal by (simp add: order_key_def)
      then show ?thesis using execute by (auto intro: does_weaken)
    qed (simp add: does_def)
  qed
qed

text \<open>An order that was paid and failed, or was left behind when its process died.\<close>

definition retryable :: "payment_order \<Rightarrow> bool" where
  "retryable x = (po_PaidAt x \<noteq> None \<and> (po_Status x = OrderStatusFailed \<or> po_Status x = OrderStatusPaid))"

lemma does_retry:
  assumes e: "calm t e" and off: "affiliates_off sv" and a: "0 < po_Amount po" and bal: "po_OrderType po \<noteq> OrderTypeSubscription"
    and code: "po_RechargeCode po \<noteq> ''''" "trim_space (po_RechargeCode po) = po_RechargeCode po"
  shows "does (ready t (sv_redeem sv) po retryable) (RetryFulfillment e sv (po_ID po))
    (\<lambda>_ db. standing (sv_redeem sv) po (in_state OrderStatusCompleted) db)"
  unfolding RetryFulfillment_def [abs_def]
proof (rule does_seq)
  let ?R = "\<lambda>db. unlocked (sv_redeem sv) po db \<and> code_fine t po db" and ?P = "ready t (sv_redeem sv) po retryable"
  show "does ?P (get_order e (po_ID po)) (\<lambda>x db. ?P db \<and> order_key x = order_key po \<and> retryable x)"
    by (rule does_get [OF e, where cf = "sv_redeem sv"]) (simp add: ready_def)
  fix x
  let ?P' = "ready t (sv_redeem sv) po (in_state OrderStatusPaid)"
  have reset: "does (\<lambda>db. standing (sv_redeem sv) po retryable db \<and> ?R db)
      (update_orders e (in_status (po_ID po) [OrderStatusFailed, OrderStatusPaid])
        (\<lambda>x. x\<lparr>po_Status := OrderStatusPaid, po_FailedAt := None, po_FailedReason := None\<rparr>))
      (\<lambda>c db. 0 < c \<and> standing (sv_redeem sv) po (in_state OrderStatusPaid) db \<and> ?R db)"
    by (rule does_update [OF e]) (auto simp: in_status_def order_key_def retryable_def)
  have audit: "works ?P' (writeAuditLog e (po_ID po) ''RECHARGE_RETRY'' ''admin'') ?P'"
    by (rule works_audit [OF e]) (simp add: ready_def add_audit_def)
  have "does (\<lambda>db. 0 < c \<and> standing (sv_redeem sv) po (in_state OrderStatusPaid) db \<and> ?R db)
      (\<lambda>w. executeFulfillment e sv (po_ID po) (writeAuditLog e (po_ID po) ''RECHARGE_RETRY'' ''admin'' w))
      (\<lambda>_ db. standing (sv_redeem sv) po (in_state OrderStatusCompleted) db)" for c :: nat
    by (rule does_weaken [OF does_after [OF audit does_fulfilment [OF e off a bal code]]]) (simp_all add: ready_def)
  with reset have run: "does ?P (\<lambda>w. attempt
      (update_orders e (in_status (po_ID po) [OrderStatusFailed, OrderStatusPaid])
        (\<lambda>x. x\<lparr>po_Status := OrderStatusPaid, po_FailedAt := None, po_FailedReason := None\<rparr>) w)
      (\<lambda>err w. (Inl (errorf ''reset for retry'' err), w))
      (\<lambda>_ w. executeFulfillment e sv (po_ID po) (writeAuditLog e (po_ID po) ''RECHARGE_RETRY'' ''admin'' w)))
      (\<lambda>_ db. standing (sv_redeem sv) po (in_state OrderStatusCompleted) db)"
    unfolding ready_def [abs_def] by (rule does_seq)
  show "does (\<lambda>db. ?P db \<and> order_key x = order_key po \<and> retryable x)
      (\<lambda>w. case cannot_retry x of Some err \<Rightarrow> (Inl err, w)
       | None \<Rightarrow> attempt
           (update_orders e (in_status (po_ID po) [OrderStatusFailed, OrderStatusPaid])
              (\<lambda>x. x\<lparr>po_Status := OrderStatusPaid, po_FailedAt := None, po_FailedReason := None\<rparr>) w)
           (\<lambda>err w. (Inl (errorf ''reset for retry'' err), w))
           (\<lambda>_ w. executeFulfillment e sv (po_ID po) (writeAuditLog e (po_ID po) ''RECHARGE_RETRY'' ''admin'' w)))
      (\<lambda>_ db. standing (sv_redeem sv) po (in_state OrderStatusCompleted) db)"
  proof (cases "retryable x")
    case True
    then have "cannot_retry x = None"
      by (auto simp: retryable_def cannot_retry_def psIsRefundStatus_def order_statuses)
    then show ?thesis using run by (auto intro: does_weaken)
  qed (simp add: does_def)
qed

text \<open>C30: Take a balance order that was paid and is now FAILED, or PAID with its fulfilment left behind, after any requests
  with failing calls and lost answers among other processes that keep the ledger of paid orders. An undisturbed retry by the administrator completes it, and
  its amount has then been credited exactly once, provided its user exists and has not used up the failed redemptions of
  the hour, its code is new, open or already used and not locked, and the affiliate programme is off. (A paid order that
  was left in RECHARGING is refused: see the next property.)\<close>

theorem retry_completes_order:
  assumes "proper_codes own" "kind (ledger_ok own) (ledger_le own) e" "ledger_ok own (pw_db w)"
    and "calm t e'" "affiliates_off sv" "w1 = serve_all e sv rs w"
    and "po \<in> set (pd_orders (pw_db w1))" "po_OrderType po \<noteq> OrderTypeSubscription" "retryable po"
    and "po_UserID po \<in> pu_ID ` set (pd_users (pw_db w1))" "code_fine t po (pw_db w1)"
    and "pd_attempts (pw_db w1) (po_UserID po) < redeemMaxErrorsPerHour" "po_RechargeCode po \<notin> set (pd_locks (pw_db w1))"
  shows "\<exists>w2. RetryFulfillment e' sv (po_ID po) w1 = (Inr (), w2)
    \<and> (\<exists>x \<in> set (pd_orders (pw_db w2)). order_key x = order_key po \<and> po_Status x = OrderStatusCompleted)
    \<and> credits (po_RechargeCode po) (pw_db w2) = [credit_of (po_RechargeCode po) (po_UserID po) (po_Amount po)]"
proof -
  have ok: "ledger_ok own (pw_db w1)" using goes_serve_all [OF assms(2,1), of w sv rs] assms(3,6) by (simp add: goes_def)
  have "own (po_RechargeCode po) = Some (po_UserID po, po_Amount po)" using known_own [OF ok order_known_here [OF assms(7)] assms(8)] .
  then have code: "0 < po_Amount po" "po_RechargeCode po \<noteq> ''''" "trim_space (po_RechargeCode po) = po_RechargeCode po"
    using assms(1) by (auto simp: proper_codes_def)
  have "standing (sv_redeem sv) po retryable (pw_db w1)"
    using ok assms(7,9,10,12) by (auto simp: standing_def ledger_ok_def)
  then have "ready t (sv_redeem sv) po retryable (pw_db w1)" using assms(11,13) by (simp add: ready_def unlocked_def)
  then obtain y w2 where run: "RetryFulfillment e' sv (po_ID po) w1 = (Inr y, w2)"
      and done': "standing (sv_redeem sv) po (in_state OrderStatusCompleted) (pw_db w2)"
    using does_retry [OF assms(4,5) code(1) assms(8) code(2,3)] unfolding does_def by blast
  obtain x where x: "x \<in> set (pd_orders (pw_db w2))" "order_key x = order_key po" "po_Status x = OrderStatusCompleted"
    using done' by (auto simp: standing_def)
  have calm: "kind (ledger_ok own) (ledger_le own) e'" using assms(4) ledger.le_refl by (simp add: kind_def calm_def)
  have "ledger_ok own (pw_db w2)"
    using yields_retry [OF calm assms(1), of w1 sv "po_ID po"] ok by (simp add: yields_def run)
  from order_credits [OF this x(1)] have "credits (po_RechargeCode po) (pw_db w2)
      = [credit_of (po_RechargeCode po) (po_UserID po) (po_Amount po)]"
    using x(2,3) assms(8) by (auto simp: order_key_def is_settled_def)
  then show ?thesis using run x by auto
qed

text \<open>The answer of the commit that credits the order is lost, so that the order fails although it is credited.\<close>

definition lossy_env :: pay_env where
  "lossy_env = (calm_env 5)\<lparr>pe_fault := (\<lambda>n. if n = 17 then Lost duplicate_key else Fine)\<rparr>"

definition lossy_world :: pay_world where
  "lossy_world = serve_all lossy_env shop [Notification paid_notice ''alipay''] (world_of shop_db)"

definition order_facts :: "payment_order \<Rightarrow> int \<times> int \<times> rat \<times> string \<times> string \<times> string \<times> bool" where
  "order_facts x = (po_ID x, po_UserID x, po_Amount x, po_RechargeCode x, po_OrderType x, po_Status x, po_PaidAt x = None)"

lemma lossy_run:
  "map order_facts (pd_orders (pw_db lossy_world)) = [(1, 7, 10, ''R1'', ''balance'', ''FAILED'', False)]
   \<and> map pu_ID (pd_users (pw_db lossy_world)) = [7] \<and> code_used ''R1'' (pw_db lossy_world)
   \<and> pd_attempts (pw_db lossy_world) 7 = 0 \<and> pd_locks (pw_db lossy_world) = []"
  by code_simp

lemma lossy_kind: "kind (ledger_ok shop_codes) (ledger_le shop_codes) lossy_env"
  using calm_kind [of shop_codes 5] by (simp add: lossy_env_def kind_def)

theorem retry_completes_order_witness:
  "\<exists>w2. RetryFulfillment (calm_env 9) shop 1 lossy_world = (Inr (), w2)
    \<and> (\<exists>x \<in> set (pd_orders (pw_db w2)). po_ID x = 1 \<and> po_Status x = OrderStatusCompleted)
    \<and> credits ''R1'' (pw_db w2) = [credit_of ''R1'' 7 10]"
proof -
  obtain po where po: "pd_orders (pw_db lossy_world) = [po]" "order_facts po = (1, 7, 10, ''R1'', ''balance'', ''FAILED'', False)"
    using lossy_run by (auto simp: map_eq_Cons_conv)
  then have f: "po_ID po = 1" "po_UserID po = 7" "po_Amount po = 10" "po_RechargeCode po = ''R1''" "po_OrderType po = ''balance''"
    "po_Status po = ''FAILED''" "po_PaidAt po \<noteq> None" by (simp_all add: order_facts_def)
  have in_db: "po \<in> set (pd_orders (pw_db lossy_world))" using po(1) by simp
  have kind': "po_OrderType po \<noteq> OrderTypeSubscription" "retryable po"
    using f(5-7) by (simp_all add: OrderTypeSubscription_def retryable_def OrderStatusFailed_def)
  have "7 \<in> set (map pu_ID (pd_users (pw_db lossy_world)))" using lossy_run by simp
  then have user: "po_UserID po \<in> pu_ID ` set (pd_users (pw_db lossy_world))" by (simp add: f)
  have fine: "code_fine 9 po (pw_db lossy_world)"
    using lossy_run by (auto simp: code_fine_def code_used_def f split: option.splits)
  have free: "pd_attempts (pw_db lossy_world) (po_UserID po) < redeemMaxErrorsPerHour"
    "po_RechargeCode po \<notin> set (pd_locks (pw_db lossy_world))"
    using lossy_run by (simp_all add: f redeemMaxErrorsPerHour_def)
  have "affiliates_off shop" by (simp add: affiliates_off_def shop_def)
  note done' = retry_completes_order [OF shop_ok(1) lossy_kind _ calm_calm_env this lossy_world_def in_db kind' user fine free]
  have "\<exists>w2. RetryFulfillment (calm_env 9) shop (po_ID po) lossy_world = (Inr (), w2)
    \<and> (\<exists>x \<in> set (pd_orders (pw_db w2)). order_key x = order_key po \<and> po_Status x = OrderStatusCompleted)
    \<and> credits (po_RechargeCode po) (pw_db w2) = [credit_of (po_RechargeCode po) (po_UserID po) (po_Amount po)]"
    by (rule done') (simp add: shop_ok(2))
  then show ?thesis by (auto simp: f order_key_def)
qed

section \<open>Orders that are left behind\<close>

text \<open>C31: An order that is in the state RECHARGING stays there: a retry is refused with CONFLICT, cancellation and refund
  with INVALID_STATUS, and a repeated notification with an error, and none of them writes anything. So an order whose
  process stopped, or lost the answer of the database, after it had taken the order is never credited.\<close>

theorem recharging_order_stuck:
  assumes e: "calm t e" and ids: "distinct (map po_ID (pd_orders (pw_db w)))"
    and po: "po \<in> set (pd_orders (pw_db w))" "po_Status po = OrderStatusRecharging" "po_PaidAt po \<noteq> None"
  shows "(\<exists>w'. RetryFulfillment e sv (po_ID po) w = (Inl (Conflict ''CONFLICT'' ''order is being processed''), w') \<and> pw_db w' = pw_db w)
    \<and> (\<exists>w'. AdminCancelOrder e sv (po_ID po) w
        = (Inl (BadRequest ''INVALID_STATUS'' ''order cannot be cancelled in current status''), w') \<and> pw_db w' = pw_db w)
    \<and> (\<exists>w'. PrepareRefund e (po_ID po) amt reason force deduct w
        = (Inl (BadRequest ''INVALID_STATUS'' ''order status does not allow refund''), w') \<and> pw_db w' = pw_db w)
    \<and> (\<exists>w'. toPaid e sv po tradeNo paid pk w
        = (Inl (OtherError (''order '' @ itoa (po_ID po) @ '' is being processed'') None), w') \<and> pw_db w' = pw_db w)"
proof -
  have found: "find_order (po_ID po) (pw_db w) = Some po" unfolding find_order_def using ids po(1) by (rule find_by_key)
  then have get: "get_order e (po_ID po) w = (Inr po, w\<lparr>pw_calls := Suc (pw_calls w)\<rparr>)"
    by (simp add: get_order_def calm_stmt [OF e])
  have retry: "cannot_retry po = Some (Conflict ''CONFLICT'' ''order is being processed'')"
    using po(2,3) by (auto simp: cannot_retry_def psIsRefundStatus_def order_statuses)
  let ?p = "payable (po_ID po) (t - paymentGraceMinutes * Minute)"
  have "\<not> ?p x" if "x \<in> set (pd_orders (pw_db w))" for x
    using distinct_map_same [OF ids that po(1)] po(2) by (auto simp: payable_def order_statuses)
  then have none: "filter ?p (pd_orders (pw_db w)) = []" "update_where ?p f (pd_orders (pw_db w)) = pd_orders (pw_db w)" for f
    by (simp_all add: filter_empty_conv update_where_id)
  let ?w1 = "w\<lparr>pw_calls := Suc (pw_calls w), pw_db := pw_db w\<rparr>"
  have "update_orders e ?p f w = (Inr 0, ?w1)" for f
    by (simp add: update_orders_def calm_stmt [OF e] none)
  moreover have "get_order e (po_ID po) ?w1 = (Inr po, ?w1\<lparr>pw_calls := Suc (Suc (pw_calls w))\<rparr>)"
    using found by (simp add: get_order_def calm_stmt [OF e])
  ultimately have "\<exists>w'. toPaid e sv po tradeNo paid pk w
      = (Inl (OtherError (''order '' @ itoa (po_ID po) @ '' is being processed'') None), w') \<and> pw_db w' = pw_db w"
    using po(2) by (simp add: toPaid_def alreadyProcessed_def calm_now [OF e] Let_def order_statuses)
  then show ?thesis
    using po(2) by (simp add: RetryFulfillment_def AdminCancelOrder_def PrepareRefund_def get retry refund_allowed_def order_statuses)
qed

text \<open>The answer to the statement that takes the order is lost.\<close>

definition stranded_world :: pay_world where
  "stranded_world = serve_all ((calm_env 5)\<lparr>pe_fault := (\<lambda>n. if n = 7 then Lost duplicate_key else Fine)\<rparr>) shop
     [Notification paid_notice ''alipay''] (world_of shop_db)"

lemma stranded_run:
  "map order_facts (pd_orders (pw_db stranded_world)) = [(1, 7, 10, ''R1'', ''balance'', ''RECHARGING'', False)]
   \<and> pd_moves (pw_db stranded_world) = []"
  by code_simp

theorem recharging_order_stuck_witness:
  "pd_moves (pw_db stranded_world) = []
   \<and> (\<exists>w'. RetryFulfillment (calm_env 9) shop 1 stranded_world = (Inl (Conflict ''CONFLICT'' ''order is being processed''), w')
       \<and> pw_db w' = pw_db stranded_world)"
proof -
  obtain po where po: "pd_orders (pw_db stranded_world) = [po]" "order_facts po = (1, 7, 10, ''R1'', ''balance'', ''RECHARGING'', False)"
    using stranded_run by (auto simp: map_eq_Cons_conv)
  then have f: "po_ID po = 1" "po_Status po = OrderStatusRecharging" "po_PaidAt po \<noteq> None"
    by (simp_all add: order_facts_def OrderStatusRecharging_def)
  show ?thesis using recharging_order_stuck [OF calm_calm_env _ _ f(2,3), of stranded_world 9 shop] stranded_run po(1) f(1) by simp
qed

end
