(* ===== verification/Refund_Outcome.thy ===== *)
theory Refund_Outcome
  imports Payment_Delivery
begin

text \<open>
  What an undisturbed refund of a balance order comes to: the amount is taken from the balance before the provider is asked, stays taken exactly when the refund succeeds,
  and the order ends in the state that says so.
\<close>

definition balance_of :: "int \<Rightarrow> pay_db \<Rightarrow> rat option" where
  "balance_of uid db = map_option pu_Balance (find_user uid db)"

definition status_of :: "int \<Rightarrow> pay_db \<Rightarrow> string option" where
  "status_of oid db = map_option po_Status (find_order oid db)"

text \<open>What a refund moves: the balance of the user, the state of the order, and the histories of balance changes and of
  requests to providers.\<close>

definition refund_books :: "RefundPlan \<Rightarrow> pay_db \<Rightarrow> rat option \<times> string option \<times> balance_move list \<times> refund_call list" where
  "refund_books p db = (balance_of (po_UserID (rp_Order p)) db, status_of (rp_OrderID p) db, pd_moves db, pd_refunds db)"

definition plain_move :: "RefundPlan \<Rightarrow> rat \<Rightarrow> balance_move" where
  "plain_move p a = \<lparr>bm_Code = None, bm_UserID = po_UserID (rp_Order p), bm_Amount = a\<rparr>"

text \<open>A request of the plan \<open>p\<close> that reached a provider while the user had the balance \<open>b\<close> and the order was being
  refunded.\<close>

definition asked_refund :: "RefundPlan \<Rightarrow> rat \<Rightarrow> refund_call \<Rightarrow> bool" where
  "asked_refund p b c =
     (rr_TradeNo (fc_Request c) = po_PaymentTradeNo (rp_Order p) \<and> rr_OrderID (fc_Request c) = po_OutTradeNo (rp_Order p)
      \<and> rr_Amount (fc_Request c) = FormatAmountForCurrency (rp_GatewayAmount p) (PaymentOrderCurrency (rp_Order p))
      \<and> map_option pu_Balance (List.find (\<lambda>u. pu_ID u = po_UserID (rp_Order p)) (fc_Users c)) = Some b
      \<and> map_option po_Status (List.find (\<lambda>po. po_ID po = rp_OrderID p) (fc_Orders c)) = Some OrderStatusRefunding)"

definition accepted :: "refund_call \<Rightarrow> bool" where
  "accepted c = (case fc_Answer c of Inl _ \<Rightarrow> False | Inr resp \<Rightarrow> validateRefundProviderResponse resp = None)"

text \<open>The outcome of the requests \<open>calls\<close>: an order without trade number of a provider needs none.\<close>

definition gateway_took :: "RefundPlan \<Rightarrow> refund_call list \<Rightarrow> bool" where
  "gateway_took p calls = (po_PaymentTradeNo (rp_Order p) = '''' \<or> (\<exists>c \<in> set calls. accepted c))"

section \<open>Steps\<close>

lemma refund_books_audits [simp]: "refund_books p (db\<lparr>pd_audits := a\<rparr>) = refund_books p db"
  by (simp add: refund_books_def balance_of_def status_of_def find_user_def find_order_def)

lemma refund_books_audit: "calm t e \<Longrightarrow> refund_books p (pw_db (writeAuditLog e oid act op w)) = refund_books p (pw_db w)"
  by (simp add: writeAuditLog_def calm_stmt add_audit_def split: sum.split)

lemma calm_same:
  assumes "calm t e"
  shows "pw_db (snd (getRefundOrderProviderInstance e po w)) = pw_db w"
  using still.read_instances(2) [OF calm_still [OF assms], unfolded goes_still] .

lemma calm_read: "calm t e \<Longrightarrow> pw_db (snd (stmt e False ask (\<lambda>db. db) w)) = pw_db w"
  by (simp add: calm_stmt split: sum.split)

lemma calm_provider:
  assumes e: "calm t e"
  shows "pw_db (snd (getRefundProvider e sv po w)) = pw_db w"
proof -
  obtain r w1 where r: "getRefundOrderProviderInstance e po w = (r, w1)" by (rule prod.exhaust)
  then have "pw_db w1 = pw_db w" using calm_same [OF e, of po w] by simp
  then show ?thesis unfolding getRefundProvider_def r
    by (cases r) (simp_all add: createProviderFromInstance_def calm_read [OF e] split: option.split)
qed

lemma calm_send:
  assumes e: "calm t e" and w: "refund_books p (pw_db w) = (Some b, Some OrderStatusRefunding, m, h)"
    and req: "rr_TradeNo req = po_PaymentTradeNo (rp_Order p)" "rr_OrderID req = po_OutTradeNo (rp_Order p)"
      "rr_Amount req = FormatAmountForCurrency (rp_GatewayAmount p) (PaymentOrderCurrency (rp_Order p))"
  shows "\<exists>c w'. send_refund e prov req w = (fc_Answer c, w') \<and> asked_refund p b c
    \<and> refund_books p (pw_db w') = (Some b, Some OrderStatusRefunding, m, h @ [c])"
  using w req by (simp add: send_refund_def Let_def calm_stmt [OF e] asked_refund_def refund_books_def balance_of_def status_of_def
    find_user_def find_order_def)

text \<open>The provider is asked at most once, and changes nothing else.\<close>

lemma calm_gateway:
  assumes e: "calm t e" and w: "refund_books p (pw_db w) = (Some b, Some OrderStatusRefunding, m, h)"
  shows "\<exists>r calls w'. gwRefund e sv p w = (r, w') \<and> refund_books p (pw_db w') = (Some b, Some OrderStatusRefunding, m, h @ calls)
    \<and> length calls \<le> 1 \<and> (\<forall>c \<in> set calls. asked_refund p b c) \<and> (r = Inr ()) = gateway_took p calls"
proof (cases "po_PaymentTradeNo (rp_Order p) = ''''")
  case True
  then show ?thesis using w by (intro exI [of _ "Inr ()"] exI [of _ "[]"]) (simp add: gwRefund_def gateway_took_def refund_books_audit [OF e])
next
  case trade: False
  obtain r w1 where prov: "getRefundProvider e sv (rp_Order p) w = (r, w1)" by (rule prod.exhaust)
  have w1: "refund_books p (pw_db w1) = (Some b, Some OrderStatusRefunding, m, h)" using calm_provider [OF e, of sv "rp_Order p" w] prov w by simp
  show ?thesis
  proof (cases r)
    case (Inl err)
    then show ?thesis using w1 trade prov
      by (intro exI [of _ "Inl (errorf ''get refund provider'' err)"] exI [of _ "[]"]) (simp add: gwRefund_def gateway_took_def)
  next
    case (Inr pv)
    show ?thesis
    proof (cases "validateProviderSnapshotMetadata (rp_Order p) (pv_ProviderKey pv) (pv_MerchantIdentityMetadata pv)")
      case (Some err)
      then show ?thesis using w1 trade prov Inr
        by (intro exI [of _ "Inl err"] exI [of _ "[]"]) (simp add: gwRefund_def gateway_took_def refund_books_audit [OF e])
    next
      case None
      let ?req = "\<lparr>rr_TradeNo = po_PaymentTradeNo (rp_Order p), rr_OrderID = po_OutTradeNo (rp_Order p),
        rr_Amount = FormatAmountForCurrency (rp_GatewayAmount p) (PaymentOrderCurrency (rp_Order p)), rr_Reason = rp_Reason p\<rparr>"
      obtain c w2 where c: "send_refund e pv ?req w1 = (fc_Answer c, w2)" "asked_refund p b c"
          "refund_books p (pw_db w2) = (Some b, Some OrderStatusRefunding, m, h @ [c])"
        using calm_send [OF e w1, of ?req pv] by auto
      let ?r = "case fc_Answer c of Inl err \<Rightarrow> Inl err
        | Inr resp \<Rightarrow> (case validateRefundProviderResponse resp of None \<Rightarrow> Inr () | Some err \<Rightarrow> Inl err)"
      have run: "gwRefund e sv p w = (?r, w2)"
        using trade prov Inr None c(1) by (cases "fc_Answer c") (simp_all add: gwRefund_def)
      have "(?r = Inr ()) = gateway_took p [c]"
        using trade by (simp add: gateway_took_def accepted_def split: sum.split option.split)
      then show ?thesis using run c(2,3) by (intro exI [of _ ?r] exI [of _ "[c]"] exI [of _ w2]) simp
    qed
  qed
qed

text \<open>Balances and states after a write.\<close>

lemma balance_added: "balance_of uid (add_balance k uid a r db) = map_option (\<lambda>b. b + a) (balance_of uid db)"
proof (cases "\<exists>u \<in> set (pd_users db). pu_ID u = uid")
  case True
  let ?f = "\<lambda>u. u\<lparr>pu_Balance := pu_Balance u + a, pu_TotalRecharged := pu_TotalRecharged u + r\<rparr>"
  have users: "pd_users (add_balance k uid a r db) = update_where (\<lambda>u. pu_ID u = uid) ?f (pd_users db)"
    using True by (simp add: add_balance_def)
  have find: "find_user uid (add_balance k uid a r db) = map_option (\<lambda>u. if pu_ID u = uid then ?f u else u) (find_user uid db)"
    unfolding find_user_def users by (rule find_update_where) simp
  show ?thesis
  proof (cases "find_user uid db")
    case (Some u)
    then have "pu_ID u = uid" using find_Some_in unfolding find_user_def by fast
    then show ?thesis using find Some by (simp add: balance_of_def)
  qed (use find in \<open>simp add: balance_of_def\<close>)
next
  case False
  then have "find_user uid db = None" by (auto simp: find_user_def find_None_iff)
  then show ?thesis using False by (simp add: balance_of_def add_balance_def)
qed

lemma status_added [simp]: "status_of oid (add_balance k uid a r db) = status_of oid db"
  by (simp add: status_of_def find_order_def add_balance_def)

lemma balance_orders [simp]: "balance_of uid (db\<lparr>pd_orders := xs\<rparr>) = balance_of uid db"
  by (simp add: balance_of_def find_user_def)

lemma balance_user: "balance_of uid db = Some b \<Longrightarrow> \<exists>u \<in> set (pd_users db). pu_ID u = uid"
  using find_Some_in [of "\<lambda>u. pu_ID u = uid" "pd_users db"] by (auto simp: balance_of_def find_user_def)

lemma status_updated:
  assumes "\<And>x. po_ID (f x) = po_ID x" "find_order oid db = Some x" "p x" "po_Status (f x) = s"
  shows "status_of oid (db\<lparr>pd_orders := update_where p f (pd_orders db)\<rparr>) = Some s"
  using assms by (simp add: status_of_def find_order_def find_update_where)

lemma refund_books_added:
  assumes "refund_books p db = (Some b, s, m, h)"
  shows "refund_books p (add_balance None (po_UserID (rp_Order p)) a r db) = (Some (b + a), s, m @ [plain_move p a], h)"
  using assms balance_user [of "po_UserID (rp_Order p)" db b]
  by (auto simp: refund_books_def balance_added plain_move_def) (auto simp: add_balance_def)

lemma calm_deduct:
  assumes e: "calm t e" and w: "refund_books p (pw_db w) = (Some b, s, m, h)"
  shows "\<exists>w'. DeductBalance e (po_UserID (rp_Order p)) a w = (Inr (), w') \<and> refund_books p (pw_db w') = (Some (b - a), s, m @ [plain_move p (- a)], h)"
proof -
  let ?uid = "po_UserID (rp_Order p)"
  have "balance_of ?uid (pw_db w) = Some b" using w by (simp add: refund_books_def)
  then have some: "filter (\<lambda>u. pu_ID u = ?uid) (pd_users (pw_db w)) \<noteq> []" using balance_user by (auto simp: filter_empty_conv)
  let ?p = "\<lambda>u. pu_ID u = ?uid \<and> a \<le> pu_Balance u"
  have added: "refund_books p (add_balance None ?uid (- a) 0 (pw_db w)) = (Some (b - a), s, m @ [plain_move p (- a)], h)"
    using refund_books_added [OF w, of "- a" 0] by simp
  show ?thesis
  proof (cases "filter ?p (pd_users (pw_db w)) = []")
    case True
    then have none: "(\<exists>u \<in> set (pd_users (pw_db w)). ?p u) = False" by (auto simp: filter_empty_conv)
    show ?thesis using True some added by (simp add: none DeductBalance_def calm_stmt [OF e])
  next
    case False
    then have "\<exists>u \<in> set (pd_users (pw_db w)). ?p u" by (auto simp: filter_empty_conv)
    then show ?thesis using False added by (simp add: DeductBalance_def calm_stmt [OF e])
  qed
qed

lemma calm_give:
  assumes e: "calm t e" and w: "refund_books p (pw_db w) = (Some b, s, m, h)"
  shows "\<exists>w'. UpdateBalance e False None (po_UserID (rp_Order p)) a w = (Inr (), w')
    \<and> refund_books p (pw_db w') = (Some (b + a), s, m @ [plain_move p a], h)"
proof -
  have "balance_of (po_UserID (rp_Order p)) (pw_db w) = Some b" using w by (simp add: refund_books_def)
  then have "filter (\<lambda>u. pu_ID u = po_UserID (rp_Order p)) (pd_users (pw_db w)) \<noteq> []" using balance_user by (auto simp: filter_empty_conv)
  then show ?thesis using refund_books_added [OF w] by (auto simp: UpdateBalance_def calm_stmt [OF e])
qed

lemma refund_books_orders:
  "status_of (rp_OrderID p) (db\<lparr>pd_orders := xs\<rparr>) = s' \<Longrightarrow> refund_books p db = (b, s, m, h) \<Longrightarrow> refund_books p (db\<lparr>pd_orders := xs\<rparr>) = (b, s', m, h)"
  by (simp add: refund_books_def)

lemma calm_status:
  assumes e: "calm t e" and w: "refund_books p (pw_db w) = (b, Some s0, m, h)" and f: "\<And>x. po_ID (f x) = po_ID x" "\<And>x. po_Status (f x) = s"
  shows "\<exists>w'. update_order e (rp_OrderID p) f w = (Inr (), w') \<and> refund_books p (pw_db w') = (b, Some s, m, h)"
proof -
  let ?oid = "rp_OrderID p"
  obtain x where x: "find_order ?oid (pw_db w) = Some x" using w by (auto simp: refund_books_def status_of_def)
  then have "po_ID x = ?oid" using find_Some_in unfolding find_order_def by fast
  then show ?thesis using x f refund_books_orders [OF status_updated [where db = "pw_db w" and oid = ?oid and x = x and p = "\<lambda>po. po_ID po = ?oid"
        and f = "\<lambda>po. (f po)\<lparr>po_UpdatedAt := now e w\<rparr>"] w]
    by (simp add: update_order_def calm_stmt [OF e])
qed

lemma calm_lock:
  assumes e: "calm t e" and w: "refund_books p (pw_db w) = (b, Some s0, m, h)" "s0 \<in> set statuses"
  shows "\<exists>n w'. update_orders e (in_status (rp_OrderID p) statuses) (\<lambda>x. x\<lparr>po_Status := s\<rparr>) w = (Inr (Suc n), w')
    \<and> refund_books p (pw_db w') = (b, Some s, m, h) \<and> pd_audits (pw_db w') = pd_audits (pw_db w)"
proof -
  let ?oid = "rp_OrderID p"
  obtain x where x: "find_order ?oid (pw_db w) = Some x" "po_Status x = s0" using w(1) by (auto simp: refund_books_def status_of_def)
  then have i: "x \<in> set (pd_orders (pw_db w))" "po_ID x = ?oid" using find_Some_in unfolding find_order_def by fast+
  then have p: "in_status ?oid statuses x" using x(2) w(2) by (simp add: in_status_def)
  then have "filter (in_status ?oid statuses) (pd_orders (pw_db w)) \<noteq> []" using i by (auto simp: filter_empty_conv)
  then obtain n where "length (filter (in_status ?oid statuses) (pd_orders (pw_db w))) = Suc n"
    by (cases "length (filter (in_status ?oid statuses) (pd_orders (pw_db w)))") auto
  then show ?thesis using x p refund_books_orders [OF status_updated [where db = "pw_db w" and oid = ?oid and x = x and p = "in_status ?oid statuses"
        and f = "\<lambda>x. x\<lparr>po_Status := s, po_UpdatedAt := now e w\<rparr>"] w(1)]
    by (simp add: update_orders_def calm_stmt [OF e])
qed

section \<open>The outcome\<close>

definition restored_status :: "RefundPlan \<Rightarrow> string" where
  "restored_status p = (if po_Status (rp_Order p) = OrderStatusRefundRequested then OrderStatusRefundRequested else OrderStatusCompleted)"

definition refunded_status :: "RefundPlan \<Rightarrow> string" where
  "refunded_status p = (if rp_RefundAmount p < po_Amount (rp_Order p) then OrderStatusPartiallyRefunded else OrderStatusRefunded)"

text \<open>The amount \<open>a\<close> still to be given back.\<close>

lemma calm_rolled_back:
  assumes e: "calm t e" and p: "rp_DeductionType p = DeductionTypeBalance" and w: "refund_books p (pw_db w) = (Some b, Some s, m, h)"
  shows "\<exists>res w'. handleGwFail e p gErr w = (Inr res, w') \<and> \<not> rf_Success res
    \<and> refund_books p (pw_db w') = (if 0 < rp_BalanceToDeduct p
        then (Some (b + rp_BalanceToDeduct p), Some (restored_status p), m @ [plain_move p (rp_BalanceToDeduct p)], h)
        else (Some b, Some (restored_status p), m, h))"
proof -
  let ?a = "rp_BalanceToDeduct p"
  obtain w1 b1 m1 where undo: "RollbackRefund e p w = (True, w1)" and w1: "refund_books p (pw_db w1) = (Some b1, Some s, m1, h)"
    and b1: "b1 = (if 0 < ?a then b + ?a else b)" "m1 = (if 0 < ?a then m @ [plain_move p ?a] else m)"
  proof (cases "0 < ?a")
    case True
    obtain w' where "UpdateBalance e False None (po_UserID (rp_Order p)) ?a w = (Inr (), w')"
      "refund_books p (pw_db w') = (Some (b + ?a), Some s, m @ [plain_move p ?a], h)" using calm_give [OF e w, of ?a] by blast
    then show ?thesis using True p that [of w' "b + ?a" "m @ [plain_move p ?a]"]
      by (simp add: RollbackRefund_def DeductionTypeBalance_def DeductionTypeSubscription_def)
  next
    case False
    then show ?thesis using p w that [of w b m] by (simp add: RollbackRefund_def DeductionTypeBalance_def DeductionTypeSubscription_def)
  qed
  obtain w2 where rest: "update_order e (rp_OrderID p) (\<lambda>x. x\<lparr>po_Status := restored_status p\<rparr>) w1 = (Inr (), w2)"
    and w2: "refund_books p (pw_db w2) = (Some b1, Some (restored_status p), m1, h)"
    using calm_status [OF e w1, of "\<lambda>x. x\<lparr>po_Status := restored_status p\<rparr>" "restored_status p"] by auto
  have "restoreStatus e p w1 = w2" unfolding restoreStatus_def Let_def using rest by (simp add: restored_status_def)
  then show ?thesis using w2 b1 by (simp add: handleGwFail_def undo refund_books_audit [OF e])
qed

lemma calm_refunded:
  assumes e: "calm t e" and w: "refund_books p (pw_db w) = (b, Some s, m, h)"
  shows "\<exists>res w'. markRefundOk e p w = (Inr res, w') \<and> rf_Success res \<and> refund_books p (pw_db w') = (b, Some (refunded_status p), m, h)"
proof -
  let ?f = "\<lambda>x. x\<lparr>po_Status := refunded_status p, po_RefundAmount := decimal_Round 2 (rp_RefundAmount p), po_RefundReason := Some (rp_Reason p),
     po_RefundAt := Some (now e w), po_ForceRefund := rp_Force p\<rparr>"
  obtain w1 where "update_order e (rp_OrderID p) ?f w = (Inr (), w1)" "refund_books p (pw_db w1) = (b, Some (refunded_status p), m, h)"
    using calm_status [OF e w, of ?f "refunded_status p"] by auto
  then show ?thesis by (simp add: markRefundOk_def refunded_status_def Let_def refund_books_audit [OF e])
qed

text \<open>From the request to the provider on.\<close>

lemma calm_settled:
  assumes e: "calm t e" and p: "rp_DeductionType p = DeductionTypeBalance"
    and w: "refund_books p (pw_db w) = (Some b, Some OrderStatusRefunding, m, h)"
  shows "\<exists>res w2 calls. attempt (gwRefund e sv p w) (\<lambda>gErr w. handleGwFail e p gErr w) (\<lambda>_ w. markRefundOk e p w) = (Inr res, w2)
    \<and> length calls \<le> 1 \<and> (\<forall>c \<in> set calls. asked_refund p b c) \<and> rf_Success res = gateway_took p calls
    \<and> refund_books p (pw_db w2) =
        (if rf_Success res then (Some b, Some (refunded_status p), m, h @ calls)
         else if 0 < rp_BalanceToDeduct p
           then (Some (b + rp_BalanceToDeduct p), Some (restored_status p), m @ [plain_move p (rp_BalanceToDeduct p)], h @ calls)
         else (Some b, Some (restored_status p), m, h @ calls))"
proof -
  obtain r calls wg where gw: "gwRefund e sv p w = (r, wg)" "refund_books p (pw_db wg) = (Some b, Some OrderStatusRefunding, m, h @ calls)"
    "length calls \<le> 1" "\<forall>c \<in> set calls. asked_refund p b c" "(r = Inr ()) = gateway_took p calls"
    using calm_gateway [OF e w, of sv] by blast
  show ?thesis
  proof (cases r)
    case (Inl gErr)
    then obtain res w' where "handleGwFail e p gErr wg = (Inr res, w')" "\<not> rf_Success res"
      "refund_books p (pw_db w') = (if 0 < rp_BalanceToDeduct p
        then (Some (b + rp_BalanceToDeduct p), Some (restored_status p), m @ [plain_move p (rp_BalanceToDeduct p)], h @ calls)
        else (Some b, Some (restored_status p), m, h @ calls))"
      using calm_rolled_back [OF e p gw(2), of gErr] by blast
    then show ?thesis using Inl gw by (intro exI [of _ res] exI [of _ w'] exI [of _ calls]) simp
  next
    case (Inr y)
    then obtain res w' where "markRefundOk e p wg = (Inr res, w')" "rf_Success res"
      "refund_books p (pw_db w') = (Some b, Some (refunded_status p), m, h @ calls)"
      using calm_refunded [OF e gw(2)] by blast
    then show ?thesis using Inr gw by (intro exI [of _ res] exI [of _ w'] exI [of _ calls]) simp
  qed
qed

text \<open>C34: A refund of a balance order (COMPLETED, REFUND_REQUESTED or REFUND_FAILED) with an amount to take back from the
  balance of an existing user, undisturbed and with no roll-back that failed before,
  takes the amount from the balance before the provider is asked: the provider gets at most one request, for the order's
  trade number and the amount of the plan, and when it gets it the balance is already reduced and the order is REFUNDING.
  The refund succeeds exactly when that request is accepted, or when the order has no trade number of a provider; then the
  one balance change is the deduction and the order ends as refunded or partially refunded. Otherwise the deduction is
  given back, the balance is what it was, and the order is REFUND_REQUESTED again if the plan found it so, and COMPLETED
  in every other case (also when it was REFUND_FAILED).\<close>

theorem refund_outcome:
  assumes e: "calm t e"
    and s: "status_of (rp_OrderID p) (pw_db w) = Some s" "s \<in> {OrderStatusCompleted, OrderStatusRefundRequested, OrderStatusRefundFailed}"
    and p: "rp_DeductionType p = DeductionTypeBalance" "0 < rp_BalanceToDeduct p"
    and b: "balance_of (po_UserID (rp_Order p)) (pw_db w) = Some b"
    and first: "\<not> audited (rp_OrderID p) ''REFUND_ROLLBACK_FAILED'' (pw_db w)"
  shows "\<exists>res w2 calls. ExecuteRefund e sv p w = (Inr res, w2)
    \<and> pd_refunds (pw_db w2) = pd_refunds (pw_db w) @ calls \<and> length calls \<le> 1
    \<and> (\<forall>c \<in> set calls. asked_refund p (b - rp_BalanceToDeduct p) c)
    \<and> rf_Success res = gateway_took p calls
    \<and> pd_moves (pw_db w2) = pd_moves (pw_db w) @ plain_move p (- rp_BalanceToDeduct p)
        # (if rf_Success res then [] else [plain_move p (rp_BalanceToDeduct p)])
    \<and> balance_of (po_UserID (rp_Order p)) (pw_db w2) = Some (if rf_Success res then b - rp_BalanceToDeduct p else b)
    \<and> status_of (rp_OrderID p) (pw_db w2) = Some (if rf_Success res then refunded_status p else restored_status p)"
proof -
  let ?oid = "rp_OrderID p" and ?uid = "po_UserID (rp_Order p)" and ?a = "rp_BalanceToDeduct p"
  let ?m = "pd_moves (pw_db w)" and ?h = "pd_refunds (pw_db w)"
  have w: "refund_books p (pw_db w) = (Some b, Some s, ?m, ?h)" using s(1) b by (simp add: refund_books_def)
  obtain n wl where lock: "update_orders e (in_status ?oid [OrderStatusCompleted, OrderStatusRefundRequested, OrderStatusRefundFailed])
        (\<lambda>x. x\<lparr>po_Status := OrderStatusRefunding\<rparr>) w = (Inr (Suc n), wl)"
    and wl: "refund_books p (pw_db wl) = (Some b, Some OrderStatusRefunding, ?m, ?h)" "pd_audits (pw_db wl) = pd_audits (pw_db w)"
    using calm_lock [OF e w, of "[OrderStatusCompleted, OrderStatusRefundRequested, OrderStatusRefundFailed]" OrderStatusRefunding] s(2)
    by auto
  let ?wh = "wl\<lparr>pw_calls := Suc (pw_calls wl), pw_db := pw_db wl\<rparr>"
  have has: "hasAuditLog e ?oid ''REFUND_ROLLBACK_FAILED'' wl = (False, ?wh)"
    using first wl(2) by (simp add: hasAuditLog_def calm_stmt [OF e] audited_def)
  obtain w1 where deduct: "DeductBalance e ?uid ?a ?wh = (Inr (), w1)"
    and w1: "refund_books p (pw_db w1) = (Some (b - ?a), Some OrderStatusRefunding, ?m @ [plain_move p (- ?a)], ?h)"
    using calm_deduct [OF e, of p ?wh b _ _ _ ?a] wl(1) by auto
  have took: "deduct_balance e p wl = (Inr p, w1)" "deduct_subscription e p w1 = (Inr p, w1)"
    using p has deduct by (simp_all add: deduct_balance_def deduct_subscription_def DeductionTypeBalance_def DeductionTypeSubscription_def)
  have "ExecuteRefund e sv p w = attempt (gwRefund e sv p w1) (\<lambda>gErr w. handleGwFail e p gErr w) (\<lambda>_ w. markRefundOk e p w)"
    by (simp add: ExecuteRefund_def lock took)
  then obtain res w2 calls where run: "ExecuteRefund e sv p w = (Inr res, w2)" and
    calls: "length calls \<le> 1" "\<forall>c \<in> set calls. asked_refund p (b - ?a) c" "rf_Success res = gateway_took p calls" and
    w2: "refund_books p (pw_db w2) =
        (if rf_Success res then (Some (b - ?a), Some (refunded_status p), ?m @ [plain_move p (- ?a)], ?h @ calls)
         else (Some (b - ?a + ?a), Some (restored_status p), ?m @ [plain_move p (- ?a)] @ [plain_move p ?a], ?h @ calls))"
    using calm_settled [OF e p(1) w1, of sv] p(2) by auto
  show ?thesis
    by (rule exI [of _ res], rule exI [of _ w2], rule exI [of _ calls])
      (use run calls w2 in \<open>cases "rf_Success res"; simp add: refund_books_def\<close>)
qed

text \<open>A completed order of ten, whose user has spent some of it; one shop's provider accepts every refund, the other shop's
  is not registered any more.\<close>

definition completed_order :: payment_order where
  "completed_order = pending_order\<lparr>po_Status := ''COMPLETED'', po_PaymentTradeNo := ''T1'', po_ProviderInstanceID := Some ''3''\<rparr>"

definition refund_db :: pay_db where
  "refund_db = shop_db\<lparr>pd_orders := [completed_order],
     pd_users := [\<lparr>pu_ID = 7, pu_Balance = 8, pu_Concurrency = 2, pu_TotalRecharged = 10\<rparr>],
     pd_instances := [\<lparr>pi_ID = 3, pi_ProviderKey = ''alipay'', pi_SupportedTypes = ''alipay'', pi_Enabled = True, pi_SortOrder = 0,
       pi_RefundEnabled = True, pi_AllowUserRefund = True\<rparr>]\<rparr>"

definition sample_plan :: RefundPlan where
  "sample_plan = (refund_plan completed_order 10 ''wrong order'' False True)\<lparr>rp_DeductionType := DeductionTypeBalance, rp_BalanceToDeduct := 8\<rparr>"

definition refunding_shop :: payment_service where
  "refunding_shop = shop\<lparr>sv_create_provider := (\<lambda>i. Inr \<lparr>pv_ProviderKey = pi_ProviderKey i,
     pv_QueryOrder = (\<lambda>_ _. Inl ErrProviderNotFound), pv_VerifyNotification = (\<lambda>_ _ _. Inl ErrProviderNotFound),
     pv_Refund = (\<lambda>_ _. Inr (Some ''success'')), pv_CancelPayment = None, pv_MerchantIdentityMetadata = []\<rparr>)\<rparr>"

lemma sample_plan_fields [simp]:
  "rp_OrderID sample_plan = 1" "po_UserID (rp_Order sample_plan) = 7" "rp_DeductionType sample_plan = DeductionTypeBalance"
  "rp_BalanceToDeduct sample_plan = 8" "po_Status (rp_Order sample_plan) = ''COMPLETED''"
  by (simp_all add: sample_plan_def refund_plan_def Let_def completed_order_def pending_order_def)

lemma refund_db_state:
  "status_of 1 (pw_db (world_of refund_db)) = Some ''COMPLETED''" "balance_of 7 (pw_db (world_of refund_db)) = Some 8"
  "\<not> audited 1 ''REFUND_ROLLBACK_FAILED'' (pw_db (world_of refund_db))" "pd_refunds refund_db = []" "pd_moves refund_db = []"
  by (simp_all add: status_of_def find_order_def refund_db_def completed_order_def pending_order_def balance_of_def find_user_def
      audited_def shop_db_def)

lemma refunding_shop_asked:
  "map accepted (pd_refunds (pw_db (snd (ExecuteRefund (calm_env 9) refunding_shop sample_plan (world_of refund_db))))) = [True]"
  by code_simp

theorem refund_outcome_witness:
  "\<exists>res w2 c. ExecuteRefund (calm_env 9) refunding_shop sample_plan (world_of refund_db) = (Inr res, w2) \<and> rf_Success res
    \<and> pd_refunds (pw_db w2) = [c] \<and> asked_refund sample_plan 0 c \<and> accepted c
    \<and> pd_moves (pw_db w2) = [plain_move sample_plan (- 8)] \<and> balance_of 7 (pw_db w2) = Some 0
    \<and> status_of 1 (pw_db w2) = Some ''REFUNDED''"
proof -
  have c: "''COMPLETED'' \<in> {OrderStatusCompleted, OrderStatusRefundRequested, OrderStatusRefundFailed}"
    by (simp add: OrderStatusCompleted_def)
  obtain res w2 calls where r: "ExecuteRefund (calm_env 9) refunding_shop sample_plan (world_of refund_db) = (Inr res, w2)"
    "pd_refunds (pw_db w2) = calls" "\<forall>c \<in> set calls. asked_refund sample_plan 0 c" "rf_Success res = gateway_took sample_plan calls"
    "pd_moves (pw_db w2) = plain_move sample_plan (- 8) # (if rf_Success res then [] else [plain_move sample_plan 8])"
    "balance_of 7 (pw_db w2) = Some (if rf_Success res then 0 else 8)"
    "status_of 1 (pw_db w2) = Some (if rf_Success res then refunded_status sample_plan else restored_status sample_plan)"
    using refund_outcome [of 9 "calm_env 9" sample_plan "world_of refund_db" "''COMPLETED''" 8 refunding_shop] c refund_db_state by auto
  have "map accepted calls = [True]" using refunding_shop_asked r(1,2) by simp
  then obtain call where call: "calls = [call]" "accepted call" by auto
  have ok: "rf_Success res"
    using r(4) call by (simp add: gateway_took_def)
  have "refunded_status sample_plan = ''REFUNDED''"
    by (simp add: refunded_status_def sample_plan_def refund_plan_def Let_def completed_order_def pending_order_def OrderStatusRefunded_def)
  then show ?thesis using r call ok by auto
qed

section \<open>A deduction that is not given back\<close>

text \<open>C35: A further refund of a balance order whose earlier roll-back has failed, undisturbed, changes no balance at all:
  it takes nothing before the provider is asked, and gives nothing back when the provider refuses again. An accepted
  refund ends as refunded, which is what the first deduction was for; but after a refusal the order counts as COMPLETED
  (or REFUND_REQUESTED) again, although the user is still short of what the first attempt took.\<close>

theorem refund_retry_keeps_deduction:
  assumes e: "calm t e"
    and s: "status_of (rp_OrderID p) (pw_db w) = Some s" "s \<in> {OrderStatusCompleted, OrderStatusRefundRequested, OrderStatusRefundFailed}"
    and p: "rp_DeductionType p = DeductionTypeBalance" "0 < rp_BalanceToDeduct p"
    and b: "balance_of (po_UserID (rp_Order p)) (pw_db w) = Some b"
    and again: "audited (rp_OrderID p) ''REFUND_ROLLBACK_FAILED'' (pw_db w)"
  shows "\<exists>res w2 calls. ExecuteRefund e sv p w = (Inr res, w2)
    \<and> pd_refunds (pw_db w2) = pd_refunds (pw_db w) @ calls \<and> length calls \<le> 1 \<and> (\<forall>c \<in> set calls. asked_refund p b c)
    \<and> rf_Success res = gateway_took p calls
    \<and> pd_moves (pw_db w2) = pd_moves (pw_db w) \<and> balance_of (po_UserID (rp_Order p)) (pw_db w2) = Some b
    \<and> status_of (rp_OrderID p) (pw_db w2) = Some (if rf_Success res then refunded_status p else restored_status p)"
proof -
  let ?oid = "rp_OrderID p" and ?p = "p\<lparr>rp_BalanceToDeduct := 0\<rparr>"
  let ?m = "pd_moves (pw_db w)" and ?h = "pd_refunds (pw_db w)"
  have w: "refund_books p (pw_db w) = (Some b, Some s, ?m, ?h)" using s(1) b by (simp add: refund_books_def)
  obtain n wl where lock: "update_orders e (in_status ?oid [OrderStatusCompleted, OrderStatusRefundRequested, OrderStatusRefundFailed])
        (\<lambda>x. x\<lparr>po_Status := OrderStatusRefunding\<rparr>) w = (Inr (Suc n), wl)"
    and wl: "refund_books p (pw_db wl) = (Some b, Some OrderStatusRefunding, ?m, ?h)" "pd_audits (pw_db wl) = pd_audits (pw_db w)"
    using calm_lock [OF e w, of "[OrderStatusCompleted, OrderStatusRefundRequested, OrderStatusRefundFailed]" OrderStatusRefunding] s(2)
    by auto
  let ?wh = "wl\<lparr>pw_calls := Suc (pw_calls wl)\<rparr>"
  have has: "hasAuditLog e ?oid ''REFUND_ROLLBACK_FAILED'' wl = (True, ?wh)"
    using again wl(2) by (simp add: hasAuditLog_def calm_stmt [OF e] audited_def)
  have kept: "deduct_balance e p wl = (Inr ?p, ?wh)" "deduct_subscription e ?p ?wh = (Inr ?p, ?wh)"
    using p has by (simp_all add: deduct_balance_def deduct_subscription_def DeductionTypeBalance_def DeductionTypeSubscription_def)
  have same: "refund_books ?p = refund_books p" "asked_refund ?p = asked_refund p" "gateway_took ?p = gateway_took p"
      "refunded_status ?p = refunded_status p" "restored_status ?p = restored_status p"
    by (auto simp: refund_books_def [abs_def] asked_refund_def [abs_def] gateway_took_def [abs_def] refunded_status_def restored_status_def)
  have wh: "refund_books ?p (pw_db ?wh) = (Some b, Some OrderStatusRefunding, ?m, ?h)" using wl(1) by (simp add: same)
  have "ExecuteRefund e sv p w = attempt (gwRefund e sv ?p ?wh) (\<lambda>gErr w. handleGwFail e ?p gErr w) (\<lambda>_ w. markRefundOk e ?p w)"
    by (simp add: ExecuteRefund_def lock kept)
  then obtain res w2 calls where run: "ExecuteRefund e sv p w = (Inr res, w2)" and
    calls: "length calls \<le> 1" "\<forall>c \<in> set calls. asked_refund p b c" "rf_Success res = gateway_took p calls" and
    w2: "refund_books p (pw_db w2) =
        (if rf_Success res then (Some b, Some (refunded_status p), ?m, ?h @ calls) else (Some b, Some (restored_status p), ?m, ?h @ calls))"
    using calm_settled [OF e _ wh, of sv] p(1) unfolding same by auto
  show ?thesis
    by (rule exI [of _ res], rule exI [of _ w2], rule exI [of _ calls])
      (use run calls w2 in \<open>cases "rf_Success res"; simp add: refund_books_def\<close>)
qed

text \<open>The first attempt: the provider cannot be built, and the statement that gives the balance back is refused.\<close>

definition unreturned_world :: pay_world where
  "unreturned_world = snd (ExecuteRefund ((calm_env 9)\<lparr>pe_fault := (\<lambda>n. if n = 5 then Refused duplicate_key else Fine)\<rparr>) shop sample_plan
     (world_of refund_db))"

lemma unreturned_run:
  "balance_of 7 refund_db = Some 8 \<and> balance_of 7 (pw_db unreturned_world) = Some 0
   \<and> status_of 1 (pw_db unreturned_world) = Some ''REFUND_FAILED'' \<and> audited 1 ''REFUND_ROLLBACK_FAILED'' (pw_db unreturned_world)"
  by code_simp

lemma shop_asks_nobody:
  "po_PaymentTradeNo (rp_Order sample_plan) = ''T1''
   \<and> length (pd_refunds (pw_db (snd (ExecuteRefund (calm_env 10) shop sample_plan unreturned_world)))) = length (pd_refunds (pw_db unreturned_world))"
  by code_simp

theorem refund_retry_keeps_deduction_witness:
  "balance_of 7 refund_db = Some 8
   \<and> (\<exists>res w2. ExecuteRefund (calm_env 10) shop sample_plan unreturned_world = (Inr res, w2) \<and> \<not> rf_Success res
        \<and> pd_moves (pw_db w2) = pd_moves (pw_db unreturned_world)
        \<and> balance_of 7 (pw_db w2) = Some 0 \<and> status_of 1 (pw_db w2) = Some OrderStatusCompleted)"
proof -
  have c: "''REFUND_FAILED'' \<in> {OrderStatusCompleted, OrderStatusRefundRequested, OrderStatusRefundFailed}"
    by (simp add: OrderStatusRefundFailed_def)
  have comes_back: "restored_status sample_plan = OrderStatusCompleted"
    by (simp add: restored_status_def OrderStatusRefundRequested_def)
  obtain res w2 calls where r: "ExecuteRefund (calm_env 10) shop sample_plan unreturned_world = (Inr res, w2)"
    "pd_refunds (pw_db w2) = pd_refunds (pw_db unreturned_world) @ calls" "rf_Success res = gateway_took sample_plan calls"
    "pd_moves (pw_db w2) = pd_moves (pw_db unreturned_world)" "balance_of 7 (pw_db w2) = Some 0"
    "status_of 1 (pw_db w2) = Some (if rf_Success res then refunded_status sample_plan else restored_status sample_plan)"
    using refund_retry_keeps_deduction [of 10 "calm_env 10" sample_plan unreturned_world "''REFUND_FAILED''" 0 shop] c unreturned_run by auto
  have "calls = []" using shop_asks_nobody r(1,2) by simp
  then have "\<not> rf_Success res" using r(3) shop_asks_nobody by (simp add: gateway_took_def)
  then show ?thesis using r unreturned_run comes_back by simp
qed

end
