(* ===== verification/Webhook_Delivery.thy ===== *)
theory Webhook_Delivery
  imports Payment_Delivery
begin

text \<open>
  What becomes of a payment that a webhook reports (\<open>handler/payment_webhook_handler.go\<close>,
  \<open>service/payment_webhook_provider.go\<close>, \<open>service/payment_fulfillment.go\<close>): undisturbed, an accepted payment completes
  and credits its order before the provider is told so; and the cases in which the provider is told so although nothing
  has been done.
\<close>

section \<open>The way of a payment\<close>

text \<open>The key of the instance an order is bound to, on a store nobody else changes.\<close>

definition instance_key :: "payment_order \<Rightarrow> pay_db \<Rightarrow> string" where
  "instance_key po db = fst (order_instance_key (calm_env 0) po (world_of db))"

lemma calm_answers:
  assumes "calm t e"
  shows "fst (attempt (stmt e False ask (\<lambda>db. db) w) (\<lambda>err w. (f err, w)) (\<lambda>x w. (g x, w)))
    = (case ask (pw_db w) of Inl err \<Rightarrow> f err | Inr x \<Rightarrow> g x)"
  by (simp add: calm_stmt [OF assms] split: sum.split)

lemma calm_found:
  assumes "calm t e"
  shows "fst (attempt (get_instance e i w) (\<lambda>err w. (Inl err, w)) s)
    = fst (s (List.find (\<lambda>x. pi_ID x = i) (pd_instances (pw_db w))) (w\<lparr>pw_calls := Suc (pw_calls w)\<rparr>))"
  by (simp add: get_instance_def calm_stmt [OF assms])

lemma calm_order_instance:
  assumes e: "calm t e" and e': "calm t' e'" and w: "pw_db w = pw_db w'"
  shows "fst (getOrderProviderInstance e po w) = fst (getOrderProviderInstance e' po w')"
  unfolding getOrderProviderInstance_def resolveSnapshotOrderProviderInstance_def resolveUniqueLegacyOrderProviderInstance_def Let_def
  by (simp add: calm_found [OF e] calm_found [OF e'] calm_answers [OF e] calm_answers [OF e'] w
      split: option.split)

lemma calm_instance_key:
  assumes e: "calm t e"
  shows "\<exists>w'. order_instance_key e po w = (instance_key po (pw_db w), w') \<and> pw_db w' = pw_db w"
proof -
  obtain r w1 where r: "getOrderProviderInstance e po w = (r, w1)" by (rule prod.exhaust)
  obtain r' w1' where r': "getOrderProviderInstance (calm_env 0) po (world_of (pw_db w)) = (r', w1')" by (rule prod.exhaust)
  have "r = r'" using calm_order_instance [OF e calm_calm_env [of 0], where w = w and w' = "world_of (pw_db w)" and po = po] r r' by simp
  moreover have "pw_db w1 = pw_db w" using still.read_instances(1) [OF calm_still [OF e], unfolded goes_still, where w = w and po = po] r by simp
  ultimately show ?thesis unfolding instance_key_def order_instance_key_def r r'
    by (cases r') (auto split: option.split)
qed

text \<open>A payment that agrees with its order.\<close>

definition agrees :: "payment_service \<Rightarrow> payment_order \<Rightarrow> PaymentNotification \<Rightarrow> string \<Rightarrow> pay_db \<Rightarrow> bool" where
  "agrees sv po n key db =
     (let expected = expectedNotificationProviderKeyForOrder (GetProviderKey sv) po (instance_key po db)
      in nt_Status n = NotificationStatusSuccess
         \<and> (expected = '''' \<or> trim_space key = '''' \<or> EqualFold expected (trim_space key))
         \<and> validateProviderSnapshotMetadata po key (nt_Metadata n) = None
         \<and> isValidProviderAmount (nt_Amount n)
         \<and> (case nt_Amount n of None \<Rightarrow> False
            | Some a \<Rightarrow> \<bar>a - po_PayAmount po\<bar> \<le> paymentAmountToleranceForCurrency (PaymentOrderCurrency po)))"

lemma does_to_paid:
  assumes e: "calm t e" and off: "affiliates_off sv" and a: "0 < po_Amount po" and bal: "po_OrderType po \<noteq> OrderTypeSubscription"
    and code: "po_RechargeCode po \<noteq> ''''" "trim_space (po_RechargeCode po) = po_RechargeCode po"
    and open': "po_Status po = OrderStatusPending \<or> po_Status po = OrderStatusCancelled"
  shows "does (ready t (sv_redeem sv) po (in_state (po_Status po))) (toPaid e sv po tradeNo paid pk)
    (\<lambda>_ db. standing (sv_redeem sv) po (in_state OrderStatusCompleted) db)"
proof -
  let ?R = "\<lambda>db. unlocked (sv_redeem sv) po db \<and> code_fine t po db"
  let ?P = "ready t (sv_redeem sv) po (in_state OrderStatusPaid)" and ?Q = "\<lambda>_ :: unit. standing (sv_redeem sv) po (in_state OrderStatusCompleted)"
  have pay: "does (\<lambda>db. standing (sv_redeem sv) po (in_state (po_Status po)) db \<and> ?R db)
      (update_orders e (payable (po_ID po) g) (paid_order paid tradeNo t))
      (\<lambda>c db. 0 < c \<and> standing (sv_redeem sv) po (in_state OrderStatusPaid) db \<and> ?R db)" for g
    by (rule does_update [OF e]) (use open' in \<open>auto simp: payable_def paid_order_def order_key_def\<close>)
  have audit: "works ?P (writeAuditLog e (po_ID po) act pk) ?P" for act
    by (rule works_audit [OF e]) (simp add: ready_def add_audit_def)
  then have audits: "works ?P (\<lambda>w. writeAuditLog e (po_ID po) act pk (if b then writeAuditLog e (po_ID po) act' pk w else w)) ?P" for act act' b
    unfolding works_def by (cases b) simp_all
  have "does (\<lambda>db. 0 < c \<and> standing (sv_redeem sv) po (in_state OrderStatusPaid) db \<and> ?R db)
      (\<lambda>w. if c = 0 then alreadyProcessed e sv po w
         else executeFulfillment e sv (po_ID po) (writeAuditLog e (po_ID po) act pk (if b then writeAuditLog e (po_ID po) act' pk w else w))) ?Q"
    for c :: nat and act act' b
  proof (cases "c = 0")
    case False
    then show ?thesis
      using does_weaken [OF does_after [OF audits does_fulfilment [OF e off a bal code]]] by (simp add: ready_def [abs_def])
  qed (simp add: does_def)
  with pay show ?thesis unfolding toPaid_def [abs_def] Let_def calm_now [OF e] ready_def [abs_def] by (rule does_seq)
qed

lemma confirmed_payment:
  assumes e: "calm t e" and off: "affiliates_off sv" and a: "0 < po_Amount po" and bal: "po_OrderType po \<noteq> OrderTypeSubscription"
    and code: "po_RechargeCode po \<noteq> ''''" "trim_space (po_RechargeCode po) = po_RechargeCode po"
    and open': "po_Status po = OrderStatusPending \<or> po_Status po = OrderStatusCancelled"
    and agree: "agrees sv po n key (pw_db w)" and po: "po \<in> set (pd_orders (pw_db w))"
    and ready: "ready t (sv_redeem sv) po (in_state (po_Status po)) (pw_db w)"
  shows "\<exists>w'. confirmPayment e sv (po_ID po) (nt_TradeNo n) (nt_Amount n) key (nt_Metadata n) w = (Inr (), w')
    \<and> standing (sv_redeem sv) po (in_state OrderStatusCompleted) (pw_db w')"
proof -
  have ids: "distinct (map po_ID (pd_orders (pw_db w)))" using ready by (simp add: ready_def standing_def)
  let ?w1 = "w\<lparr>pw_calls := Suc (pw_calls w)\<rparr>"
  have "find_order (po_ID po) (pw_db w) = Some po" unfolding find_order_def using ids po by (rule find_by_key)
  then have get: "get_order e (po_ID po) w = (Inr po, ?w1)" by (simp add: get_order_def calm_stmt [OF e])
  obtain w2 where key: "order_instance_key e po ?w1 = (instance_key po (pw_db w), w2)" "pw_db w2 = pw_db w"
    using calm_instance_key [OF e, of po ?w1] by auto
  obtain paid where paid: "nt_Amount n = Some paid" using agree by (auto simp: agrees_def Let_def split: option.splits)
  have "confirmPayment e sv (po_ID po) (nt_TradeNo n) (nt_Amount n) key (nt_Metadata n) w = toPaid e sv po (nt_TradeNo n) paid key w2"
    using agree paid by (auto simp: confirmPayment_def get key agrees_def Let_def)
  then show ?thesis using does_to_paid [OF e off a bal code open', of "nt_TradeNo n" paid key] ready key(2) unfolding does_def by auto
qed

lemma notified_payment:
  assumes e: "calm t e" and off: "affiliates_off sv" and a: "0 < po_Amount po" and bal: "po_OrderType po \<noteq> OrderTypeSubscription"
    and code: "po_RechargeCode po \<noteq> ''''" "trim_space (po_RechargeCode po) = po_RechargeCode po"
    and open': "po_Status po = OrderStatusPending \<or> po_Status po = OrderStatusCancelled"
    and agree: "agrees sv po n key (pw_db w)"
    and po: "filter (\<lambda>x. po_OutTradeNo x = nt_OrderID n) (pd_orders (pw_db w)) = [po]"
    and ready: "ready t (sv_redeem sv) po (in_state (po_Status po)) (pw_db w)"
  shows "\<exists>w'. HandlePaymentNotification e sv n key w = (Inr (), w')
    \<and> standing (sv_redeem sv) po (in_state OrderStatusCompleted) (pw_db w')"
proof -
  have "po \<in> set (filter (\<lambda>x. po_OutTradeNo x = nt_OrderID n) (pd_orders (pw_db w)))" by (simp add: po)
  then have "po \<in> set (pd_orders (pw_db w))" by simp
  moreover have "order_by_out_trade_no e (nt_OrderID n) w = (Inr po, w\<lparr>pw_calls := Suc (pw_calls w)\<rparr>)"
    by (simp add: order_by_out_trade_no_def calm_stmt [OF e] po)
  moreover have "nt_Status n = NotificationStatusSuccess" using agree by (simp add: agrees_def Let_def)
  ultimately show ?thesis
    using confirmed_payment [OF e off a bal code open', of n key "w\<lparr>pw_calls := Suc (pw_calls w)\<rparr>"] agree ready
    by (simp add: HandlePaymentNotification_def)
qed

section \<open>Webhooks that deliver\<close>

text \<open>C29: A webhook that reports a payment delivers it. Let one of the candidate providers of the callback verify it and
  name the trade number of exactly one order, a pending or cancelled balance order with which the payment agrees
  (provider, merchant, amount within the tolerance of the currency), in a store that keeps the ledger of paid orders (as
  every served request does). If no call fails and no other process interferes,
  the user of the order exists and has not used up the failed redemptions of the hour, the code of the order is new,
  open or already used and not locked, and the affiliate programme is off, then the order is completed and its amount
  credited exactly once before the provider is told that the callback succeeded.\<close>

theorem webhook_completes_order:
  assumes "proper_codes own" "ledger_ok own (pw_db w)" "calm t e" "affiliates_off sv"
    and "raw_body q = Some body" "GetWebhookProviders e sv pk (extractOutTradeNo sv body pk) w = (Inr providers, w1)"
    and "verifyNotificationWithProviders e providers body (map (\<lambda>(k, v). (to_lower k, v)) (wq_Header q)) w1 = (Inr (key, Some n), w2)"
    and "filter (\<lambda>x. po_OutTradeNo x = nt_OrderID n) (pd_orders (pw_db w)) = [po]" "agrees sv po n key (pw_db w)"
    and "po_OrderType po \<noteq> OrderTypeSubscription" "po_Status po = OrderStatusPending \<or> po_Status po = OrderStatusCancelled"
    and "po_UserID po \<in> pu_ID ` set (pd_users (pw_db w))" "code_fine t po (pw_db w)"
    and "pd_attempts (pw_db w) (po_UserID po) < redeemMaxErrorsPerHour" "po_RechargeCode po \<notin> set (pd_locks (pw_db w))"
  shows "\<exists>w3. handleNotify e sv pk q w = (writeSuccessResponse key, w3)
    \<and> (\<exists>x \<in> set (pd_orders (pw_db w3)). order_key x = order_key po \<and> po_Status x = OrderStatusCompleted)
    \<and> credits (po_RechargeCode po) (pw_db w3) = [credit_of (po_RechargeCode po) (po_UserID po) (po_Amount po)]"
proof -
  note e = assms(3)
  have "po \<in> set (filter (\<lambda>x. po_OutTradeNo x = nt_OrderID n) (pd_orders (pw_db w)))" by (simp add: assms(8))
  then have po: "po \<in> set (pd_orders (pw_db w))" by simp
  have "own (po_RechargeCode po) = Some (po_UserID po, po_Amount po)"
    using known_own [OF assms(2) order_known_here [OF po] assms(10)] .
  then have code: "0 < po_Amount po" "po_RechargeCode po \<noteq> ''''" "trim_space (po_RechargeCode po) = po_RechargeCode po"
    using assms(1) by (auto simp: proper_codes_def)
  have "pw_db w1 = pw_db w" "pw_db w2 = pw_db w1"
    using still_candidates [OF e] still_verified [OF e] assms(6,7) by (metis snd_conv)+
  then have db: "pw_db w2 = pw_db w" by simp
  have "ready t (sv_redeem sv) po (in_state (po_Status po)) (pw_db w)"
    using assms(2,12-15) po by (auto simp: ready_def standing_def unlocked_def ledger_ok_def)
  then obtain w3 where n: "HandlePaymentNotification e sv n key w2 = (Inr (), w3)"
      and done': "standing (sv_redeem sv) po (in_state OrderStatusCompleted) (pw_db w3)"
    using notified_payment [OF e assms(4) code(1) assms(10) code(2,3) assms(11), of n key w2] assms(8,9) db by auto
  then have run: "handleNotify e sv pk q w = (writeSuccessResponse key, w3)"
    by (simp add: handleNotify_def handle_verified_def Let_def assms(5-7))
  obtain x where x: "x \<in> set (pd_orders (pw_db w3))" "order_key x = order_key po" "po_Status x = OrderStatusCompleted"
    using done' by (auto simp: standing_def)
  have "kind (ledger_ok own) (ledger_le own) e" using e ledger.le_refl by (simp add: kind_def calm_def)
  then have "ledger_ok own (pw_db w3)" using goes_webhook [OF _ assms(1), of e w sv pk q] assms(2) run by (simp add: goes_def)
  from order_credits [OF this x(1)] have "credits (po_RechargeCode po) (pw_db w3)
      = [credit_of (po_RechargeCode po) (po_UserID po) (po_Amount po)]"
    using x(2,3) assms(10) by (auto simp: order_key_def is_settled_def)
  then show ?thesis using run x by auto
qed

text \<open>A callback for the pending order of the shop, whose only instance verifies it.\<close>

definition verifier :: "string \<Rightarrow> provider" where
  "verifier key = \<lparr>pv_ProviderKey = key, pv_QueryOrder = (\<lambda>_ _. Inl ErrProviderNotFound),
     pv_VerifyNotification = (\<lambda>_ _ _. Inr (Some paid_notice)), pv_Refund = (\<lambda>_ _. Inl ErrProviderNotFound),
     pv_CancelPayment = None, pv_MerchantIdentityMetadata = []\<rparr>"

definition verifying_shop :: payment_service where
  "verifying_shop = shop\<lparr>sv_create_provider := (\<lambda>i. Inr (verifier (pi_ProviderKey i)))\<rparr>"

definition instance_of :: "int \<Rightarrow> string \<Rightarrow> PaymentProviderInstance" where
  "instance_of i key = \<lparr>pi_ID = i, pi_ProviderKey = key, pi_SupportedTypes = key, pi_Enabled = True, pi_SortOrder = 0,
     pi_RefundEnabled = True, pi_AllowUserRefund = True\<rparr>"

definition alipay_db :: pay_db where
  "alipay_db = shop_db\<lparr>pd_instances := [instance_of 3 ''alipay'']\<rparr>"

definition callback :: webhook_request where
  "callback = \<lparr>wq_GET = False, wq_RawQuery = '''', wq_Body = Some ''trade_status=TRADE_SUCCESS&out_trade_no=sub2%5fa'', wq_Header = []\<rparr>"

lemma callback_order: "extractOutTradeNo verifying_shop ''trade_status=TRADE_SUCCESS&out_trade_no=sub2%5fa'' ''alipay'' = ''sub2_a''"
  by code_simp

lemma callback_runs:
  "case GetWebhookProviders (calm_env 5) verifying_shop ''alipay'' ''sub2_a'' (world_of alipay_db) of
     (Inr ps, w1) \<Rightarrow>
       (case verifyNotificationWithProviders (calm_env 5) ps ''trade_status=TRADE_SUCCESS&out_trade_no=sub2%5fa'' [] w1 of
          (Inr (key, Some n), w2) \<Rightarrow> key = ''alipay'' \<and> n = paid_notice
        | _ \<Rightarrow> False)
   | _ \<Rightarrow> False"
  by code_simp

lemma alipay_agrees: "agrees verifying_shop pending_order paid_notice ''alipay'' alipay_db"
  by code_simp

lemma alipay_ok: "ledger_ok shop_codes alipay_db"
  using shop_ok(2)
  by (simp add: alipay_db_def ledger_ok_def codes_keyed_def order_ok_def code_ok_def find_code_def code_used_def credits_def)

theorem webhook_completes_order_witness:
  "\<exists>w3. handleNotify (calm_env 5) verifying_shop ''alipay'' callback (world_of alipay_db) = (String_Answer 200 ''success'', w3)
    \<and> (\<exists>x \<in> set (pd_orders (pw_db w3)). po_ID x = 1 \<and> po_Status x = OrderStatusCompleted)
    \<and> credits ''R1'' (pw_db w3) = [credit_of ''R1'' 7 10]"
proof -
  let ?body = "''trade_status=TRADE_SUCCESS&out_trade_no=sub2%5fa''" and ?w = "world_of alipay_db"
  have body: "raw_body callback = Some ?body" by (simp add: raw_body_def callback_def maxWebhookBodySize_def)
  obtain g w1 where g: "GetWebhookProviders (calm_env 5) verifying_shop ''alipay'' ''sub2_a'' ?w = (g, w1)" by (rule prod.exhaust)
  obtain ps where ps: "g = Inr ps" using callback_runs unfolding g by (cases g) simp_all
  obtain r w2 where r: "verifyNotificationWithProviders (calm_env 5) ps ?body [] w1 = (r, w2)" by (rule prod.exhaust)
  have "r = Inr (''alipay'', Some paid_notice)"
    using callback_runs unfolding g by (auto simp: ps r split: sum.splits option.splits)
  then have v: "verifyNotificationWithProviders (calm_env 5) ps ?body [] w1 = (Inr (''alipay'', Some paid_notice), w2)" by (simp add: r)
  have c: "GetWebhookProviders (calm_env 5) verifying_shop ''alipay'' (extractOutTradeNo verifying_shop ?body ''alipay'') ?w = (Inr ps, w1)"
    by (simp only: callback_order g ps)
  have v': "verifyNotificationWithProviders (calm_env 5) ps ?body (map (\<lambda>(k, v). (to_lower k, v)) (wq_Header callback)) w1
      = (Inr (''alipay'', Some paid_notice), w2)" using v by (simp add: callback_def)
  have off: "affiliates_off verifying_shop" by (simp add: affiliates_off_def verifying_shop_def shop_def)
  have db: "filter (\<lambda>x. po_OutTradeNo x = nt_OrderID paid_notice) (pd_orders (pw_db ?w)) = [pending_order]"
    "po_UserID pending_order \<in> pu_ID ` set (pd_users (pw_db ?w))" "code_fine 5 pending_order (pw_db ?w)"
    "pd_attempts (pw_db ?w) (po_UserID pending_order) < redeemMaxErrorsPerHour"
    "po_RechargeCode pending_order \<notin> set (pd_locks (pw_db ?w))"
    by (simp_all add: alipay_db_def shop_db_def paid_notice_def pending_order_def code_fine_def find_code_def redeemMaxErrorsPerHour_def)
  have po: "po_OrderType pending_order \<noteq> OrderTypeSubscription"
    "po_Status pending_order = OrderStatusPending \<or> po_Status pending_order = OrderStatusCancelled"
    by (simp_all add: pending_order_def OrderTypeSubscription_def order_statuses)
  have ok: "ledger_ok shop_codes (pw_db ?w)" and agree: "agrees verifying_shop pending_order paid_notice ''alipay'' (pw_db ?w)"
    using alipay_ok alipay_agrees by simp_all
  have "writeSuccessResponse ''alipay'' = String_Answer 200 ''success''" by code_simp
  then show ?thesis
    using webhook_completes_order [OF shop_ok(1) ok calm_calm_env off body c v' db(1) agree po db(2-5)]
    by (auto simp: pending_order_def order_key_def)
qed

section \<open>Webhooks that are acknowledged without a trace\<close>

text \<open>C32: Stripe callbacks name no order before they are verified. When two instances of Stripe are enabled, or the query that
  counts them fails, every callback of Stripe is answered with success and nothing is done with it, whatever it reports: no
  candidate is asked to verify it, nothing is written, and Stripe will not send it again.\<close>

theorem ambiguous_webhook_dropped:
  assumes "raw_body q \<noteq> None"
    and "2 \<le> length (filter (\<lambda>i. pi_ProviderKey i = TypeStripe \<and> pi_Enabled i) (pd_instances (call_db e w)))
      \<or> pe_fault e (pw_calls w) \<noteq> Fine"
  shows "handleNotify e sv TypeStripe q w
    = (writeSuccessResponse TypeStripe, w\<lparr>pw_calls := Suc (pw_calls w), pw_db := call_db e w\<rparr>)"
proof -
  have key: "trim_space TypeStripe = TypeStripe" "TypeStripe \<noteq> ''''" "TypeStripe \<noteq> TypeWxpay" by code_simp+
  have "extractOutTradeNo sv body TypeStripe = ''''" for body
    by (simp add: extractOutTradeNo_def TypeStripe_def TypeEasyPay_def TypeAlipay_def TypeAirwallex_def)
  moreover have "webhookRegistryFallbackAllowed e TypeStripe w
      = (False, w\<lparr>pw_calls := Suc (pw_calls w), pw_db := call_db e w\<rparr>)"
    using assms(2) key by (auto simp: webhookRegistryFallbackAllowed_def Let_def stmt_def split: fault.split)
  ultimately show ?thesis
    using assms(1) key by (auto simp: handleNotify_def Let_def GetWebhookProviders_def providers_by_kind_def)
qed

definition stripe_db :: pay_db where
  "stripe_db = shop_db\<lparr>pd_orders := [pending_order\<lparr>po_PaymentType := ''stripe''\<rparr>],
     pd_instances := [instance_of 3 ''stripe'', instance_of 4 ''stripe'']\<rparr>"

theorem ambiguous_webhook_dropped_witness:
  "fst (verifyNotificationWithProviders (calm_env 5) [verifier ''stripe''] '''' [] (world_of stripe_db)) = Inr (''stripe'', Some paid_notice)
   \<and> (\<exists>w'. handleNotify (calm_env 5) verifying_shop TypeStripe callback (world_of stripe_db) = (String_Answer 200 '''', w')
     \<and> map po_Status (pd_orders (pw_db w')) = [OrderStatusPending] \<and> credits ''R1'' (pw_db w') = [])"
proof -
  let ?w = "world_of stripe_db"
  have db: "call_db (calm_env 5) ?w = stripe_db" by (simp add: call_db_def calm_env_def world_of_def)
  have two: "2 \<le> length (filter (\<lambda>i. pi_ProviderKey i = TypeStripe \<and> pi_Enabled i) (pd_instances (call_db (calm_env 5) ?w)))
      \<or> pe_fault (calm_env 5) (pw_calls ?w) \<noteq> Fine"
    by (simp add: db) (simp add: stripe_db_def instance_of_def TypeStripe_def)
  have "raw_body callback \<noteq> None" by (simp add: raw_body_def callback_def)
  note drop = ambiguous_webhook_dropped [OF this two, of verifying_shop]
  have "writeSuccessResponse TypeStripe = String_Answer 200 ''''" by code_simp
  moreover have "fst (verifyNotificationWithProviders (calm_env 5) [verifier ''stripe''] '''' [] ?w) = Inr (''stripe'', Some paid_notice)"
    by (simp add: verifyNotificationWithProviders_def calm_stmt [OF calm_calm_env] verifier_def)
  ultimately show ?thesis
    by (simp add: drop db) (simp add: stripe_db_def shop_db_def pending_order_def order_statuses credits_def)
qed

text \<open>C33: A payment is confirmed in two reads of its order, by the trade number and by the id. When the second one fails, for
  whatever reason, the notification counts as handled: the provider is told that the callback succeeded, although the order
  is neither marked as paid nor credited, and nothing records the payment.\<close>

theorem failed_read_acknowledged:
  assumes "nt_Status n = NotificationStatusSuccess" "order_by_out_trade_no e (nt_OrderID n) w = (Inr po, w1)"
    and "pe_fault e (pw_calls w1) \<noteq> Fine"
  shows "handle_verified e sv key n w
    = (writeSuccessResponse key, w1\<lparr>pw_calls := Suc (pw_calls w1), pw_db := call_db e w1\<rparr>)"
proof -
  have "\<exists>err. get_order e (po_ID po) w1 = (Inl err, w1\<lparr>pw_calls := Suc (pw_calls w1), pw_db := call_db e w1\<rparr>)"
    using assms(3) by (auto simp: get_order_def stmt_def split: fault.split option.split sum.split)
  then show ?thesis
    using assms(1,2) by (auto simp: handle_verified_def HandlePaymentNotification_def confirmPayment_def)
qed

definition flaky_env :: pay_env where
  "flaky_env = (calm_env 5)\<lparr>pe_fault := (\<lambda>n. if n = 1 then Refused duplicate_key else Fine)\<rparr>"

theorem failed_read_acknowledged_witness:
  "\<exists>w'. handle_verified flaky_env verifying_shop ''alipay'' paid_notice (world_of alipay_db) = (String_Answer 200 ''success'', w')
     \<and> map po_Status (pd_orders (pw_db w')) = [OrderStatusPending] \<and> pd_audits (pw_db w') = []"
proof -
  let ?w1 = "(world_of alipay_db)\<lparr>pw_calls := 1\<rparr>"
  have found: "order_by_out_trade_no flaky_env (nt_OrderID paid_notice) (world_of alipay_db) = (Inr pending_order, ?w1)"
    by (simp add: order_by_out_trade_no_def stmt_def call_db_def flaky_env_def calm_env_def world_of_def alipay_db_def shop_db_def
        paid_notice_def pending_order_def)
  have "nt_Status paid_notice = NotificationStatusSuccess" by (simp add: paid_notice_def NotificationStatusSuccess_def)
  moreover have "pe_fault flaky_env (pw_calls ?w1) \<noteq> Fine" by (simp add: flaky_env_def)
  ultimately have "handle_verified flaky_env verifying_shop ''alipay'' paid_notice (world_of alipay_db)
      = (writeSuccessResponse ''alipay'', ?w1\<lparr>pw_calls := Suc (pw_calls ?w1), pw_db := call_db flaky_env ?w1\<rparr>)"
    using failed_read_acknowledged [OF _ found] by blast
  moreover have "writeSuccessResponse ''alipay'' = String_Answer 200 ''success''" by code_simp
  ultimately show ?thesis
    by (simp add: call_db_def flaky_env_def calm_env_def)
      (simp add: alipay_db_def shop_db_def pending_order_def order_statuses)
qed

end
