(* ===== verification/Spec2Isabelle.thy ===== *)
theory Spec2Isabelle
  imports System_Lock Concurrency_Service Failover Image_Limiter Usage_Billing Snapshot_Writers Snapshot_Events
  Refund_Outcome Webhook_Delivery
begin

text \<open>
  \<^bold>\<open>Verification of the backend of the API gateway\<close> (\<open>src/backend\<close>, in Go).

  The program is a gateway in front of AI model providers. A request is authenticated by an API key,
  takes a concurrency slot of its user and of the upstream account chosen for it, is forwarded (with
  failover to other accounts), priced from the usage the provider reports, and charged to a balance or
  a subscription. Accounts have quotas and changes of accounts reach the scheduler through an outbox.
  Writes of the administration interface go through an idempotency layer. Users pay for balance and
  subscriptions with orders, which payment providers report as paid. The theories model these parts;
  file names below are relative to \<open>src/backend/internal\<close>.

  \<^bold>\<open>Theories, in the order of their imports.\<close>

  \<^item> \<open>Prelude\<close>: Go's basic types (time and durations as integers in nanoseconds, strings as byte lists,
    truncating division, decimal text) and the list lemmas the components share.
  \<^item> \<open>Go_Strings\<close>: \<open>strings.TrimSpace\<close>, case mapping (ASCII), prefixes, splitting, UTF-8 validity.
  \<^item> \<open>App_Errors\<close> (\<open>pkg/errors\<close>): the error values, their constructors and classifiers.
  \<^item> \<open>Idempotency_Repo\<close> (\<open>repository/idempotency_repo.go\<close>) and \<open>Idempotency\<close> (\<open>service/idempotency.go\<close>,
    \<open>idempotency_observability.go\<close>): the table with its SQL statements as atomic functions, and
    \<open>IdempotencyCoordinator.Execute\<close> over an arbitrary repository, interpreted on the table. Shown: a key
    that is live is never executed again, under every interleaving and every pattern of database
    failures; successes are replayed; failures back off; truncated responses cannot be replayed.
  \<^item> \<open>System_Lock\<close> (\<open>service/system_operation_lock_service.go\<close>): the lock built on the idempotency table.
    Shown: exclusion during a lease, and the loss of a lock taken over.
  \<^item> \<open>Slot_Cache\<close> (\<open>repository/concurrency_cache.go\<close>) and \<open>Concurrency_Service\<close>
    (\<open>service/concurrency_service.go\<close>): the Lua scripts as atomic steps on Redis' key space, and the
    service above. Shown: limits are never exceeded over any history, releases undo acquisitions,
    clean-up removes only foreign slots, request ids are distinct, counters stay within bounds.
  \<^item> \<open>Failover\<close> (\<open>handler/failover_loop.go\<close>, the loop of \<open>gateway_handler.go\<close>): the state of the failover loop and
    the outcomes of its rounds; it terminates.
  \<^item> \<open>Image_Limiter\<close> (\<open>handler/image_concurrency_limiter.go\<close>): the goroutines as a step relation; counters
    are exact, limits kept, no wake-up lost.
  \<^item> \<open>Image_Billing\<close>, \<open>Model_Alias\<close>, \<open>Channel\<close> (\<open>service/image_billing_size.go\<close>, \<open>openai_model_alias.go\<close>,
    \<open>channel.go\<close>): sizes and tiers of images, model names, price intervals and supported models.
  \<^item> \<open>Pricing\<close> and \<open>Billing\<close> (\<open>service/billing_service.go\<close>, \<open>model_pricing_resolver.go\<close>): the price table, the
    lookup and the resolver over an explicit store of price values, and the cost computations. Shown:
    isolation of channel prices and its failure for fallback prices, monotonicity of the cost,
    agreement of the entry points, the long-context formula, per-request prices.
  \<^item> \<open>Domain_Constants\<close> and \<open>Account_Model\<close> (\<open>service/domain_constants.go\<close>, \<open>account.go\<close>, \<open>account_group.go\<close>): the
    account with its fields and the conditions under which it may be scheduled.
  \<^item> \<open>Account_Quota\<close> (\<open>service/account.go\<close>, \<open>repository/account_repo.go\<close>): quotas with rolling and fixed
    periods; the SQL that adds to them refines the period checks of the Go code.
  \<^item> \<open>Scheduler_Outbox\<close> (\<open>repository/scheduler_outbox_repo.go\<close>, \<open>service/scheduler_snapshot_service.go\<close>): the
    outbox with transactions and polling processes side by side. Shown: no event is lost as long as
    commits are punctual and no two pending events share a key, an undisturbed poll catches up, an event that
    is committed after all polls have passed its id is lost.
  \<^item> \<open>Scheduler_Cache\<close> (\<open>repository/scheduler_cache.go\<close>) and \<open>Account_Repo\<close> (\<open>repository/account_repo.go\<close>): the
    snapshots of schedulable accounts in Redis, the queries that fill them, and the operations that mark accounts,
    each with its event and its write to the cache. Shown: a snapshot written is the one read, an account
    that becomes unschedulable is so at once, quotas are lost on the way through the cache.
  \<^item> \<open>Snapshot_Writers\<close>: concurrent calls of \<open>SetSnapshot\<close>, command by command; a reader sees whole snapshots.
  \<^item> \<open>Scheduler_Snapshot\<close> (\<open>service/scheduler_snapshot_service.go\<close>) and \<open>Snapshot_Events\<close>: reading with the
    fallback to the database, rebuilding of buckets, the handlers of the outbox events; the event of an account
    brings every bucket it belongs to up to date, and a change of groups misses the bucket without group.
  \<^item> \<open>Usage_Billing\<close> (\<open>service/usage_billing.go\<close>, \<open>repository/usage_billing_repo.go\<close>, parts of
    \<open>gateway_service.go\<close>, \<open>api_key.go\<close>, \<open>dashboard_aggregation_repo.go\<close>): the transaction that charges a
    request. Shown: the tables refine a ledger in which every request is posted at most once, a retry
    charges exactly once, rate-limit windows agree between SQL and Go.
  \<^item> \<open>Payment_Amounts\<close> (\<open>payment/currency.go\<close>, \<open>amount.go\<close>, \<open>fee.go\<close>, \<open>service/payment_amounts.go\<close>): currencies,
    minor units, fees, refund shares; conversions round trip, a refund stays within what was paid and is all of it
    within the tolerance of the currency.
  \<^item> \<open>Payment_Store\<close>: the tables behind the payment service, and statements, transactions and faults on them.
    \<open>Payment_Logic\<close> is the logic for handlers over it: what a handler establishes while other processes move the
    store within the same invariant.
  \<^item> \<open>Subscription_Terms\<close>, \<open>Affiliate\<close>, \<open>Redeem\<close> (\<open>service/subscription_service.go\<close>, \<open>affiliate_service.go\<close>,
    \<open>redeem_service.go\<close> and their repositories): terms and usage windows of subscriptions, rebates of inviters, redeem
    codes. Shown: days assigned add up, the books of rebates balance, maintenance keeps the decision on a request and
    may lose usage when it is late.
  \<^item> \<open>Payment_Providers\<close>, \<open>Payment_Fulfillment\<close>, \<open>Payment_Lifecycle\<close>, \<open>Payment_Webhook\<close>, \<open>Payment_Refund\<close>
    (\<open>service/payment_order_provider_snapshot.go\<close>, \<open>payment_fulfillment.go\<close>, \<open>payment_order_lifecycle.go\<close>,
    \<open>payment_webhook_provider.go\<close>, \<open>payment_refund.go\<close>, \<open>handler/payment_webhook_handler.go\<close>): the handlers
    of orders. \<open>Payment_Reads\<close> shows that looking for providers and verifying callbacks only reads. \<open>Payment_Ledger\<close>, \<open>Payment_Frames\<close>, \<open>Payment_Safety\<close> and \<open>Payment_Requests\<close> show that every request served
    keeps the ledger of paid orders, so that an order is credited at most once whatever fails and whatever runs
    beside it; \<open>Payment_Delivery\<close> that a retry delivers a paid order, unless it is left in RECHARGING,
    \<open>Webhook_Delivery\<close> that an undisturbed webhook does and when one is acknowledged without effect, and
    \<open>Refund_Outcome\<close> that an undisturbed refund takes the balance before it asks the provider (the store keeps the history
    of these requests and of the balance changes) and gives it back unless the provider accepts, and that a refund after a
    failed roll-back changes no balance.
  \<^item> This theory composes prices, commands and the transaction.

  \<^bold>\<open>Interfaces.\<close> What one component relies on is a locale, interpreted on the model's own operations in
  the theory that provides them, and the properties rest on the facts of the interpretations:
  \<open>lease_store\<close>, what the idempotency coordinator and the system lock rely on in the table; \<open>slot_pool\<close>, what the concurrency service relies on in Redis; \<open>reset_schedule\<close>, what the
  quota periods rely on in the daily and weekly reset times; \<open>store_rely\<close>, what the rules of \<open>Payment_Logic\<close> rely
  on in an invariant and an order of the payment store, interpreted on the books of rebates, on the ledger of
  paid orders and on a store that nobody changes.

  \<^bold>\<open>Abstractions.\<close> \<open>float64\<close> amounts are exact rationals and token counts unbounded integers, so rounding
  and overflow of prices are outside the model; the request-id counter is a 64-bit word. SHA-256, JSON,
  log redaction and the time-zone database (zones with fixed offsets) are parameters. Failing calls,
  the fate of commits, the pages of \<open>SCAN\<close>, clocks and the order of ranging over a Go map are
  arguments. A database or Redis statement is one atomic step. In the caches of slots and snapshots a failing
  Redis call has no effect and commands are sent once; statements of the payment database and calls of payment providers may take effect although their
  answer is lost. Log lines are left out. Loops are total
  functions with termination proofs or relations over runs; no fuel is used.

  \<^bold>\<open>Not modelled.\<close> The web frontend; the generated code under \<open>ent\<close>; HTTP handlers (but for the payment webhooks), middleware and
  routing; the forwarding of requests and streams to the providers and the translation between their
  protocols (\<open>gateway_service.go\<close>, \<open>openai_gateway_service.go\<close>, \<open>antigravity_gateway_service.go\<close>,
  \<open>openai_ws_forwarder.go\<close>, \<open>pkg/apicompat\<close>), which is I/O on JSON bodies of external services; OAuth
  flows; the creation of payment orders, payment configuration and the HTTP interfaces of the payment providers
  (a provider is a parameter); creation and bulk changes of accounts, bulk assignment of subscriptions, listings and
  progress reports, in-memory caches of the subscription service; settings, set-up, backup, e-mail and operations
  dashboards, which are reads and writes of tables without logic of their own.
\<close>

text \<open>C7: From the price to the ledger. A request is priced by a fresh billing service (a dynamic price
  being in good order), the command of its charge is built from that cost and applied. When the call
  reports success, either the request's key was charged before and no amount changes, or the key was
  new and the total cost times the rate multiplier (a negative one counting as zero) is booked exactly
  once: on the daily, weekly and monthly usage of the subscription and on no balance when the
  subscription pays, else on the balance of the user and on no subscription.\<close>

theorem priced_request_charged:
  assumes "NewBillingService rm ps = (s, h)"
    and "\<And>l. dynamic_price s (to_lower model) = Some l \<Longrightarrow> good_price (litellm_price l)"
    and "usage_ok t" "CalculateCostWithServiceTier s model t rate tier h = (Inr bd, h1)"
    and "pb_Cost p = Some bd" "pb_UserID p = Some u"
    and "buildUsageBillingCommand sha rid ul p = Some cmd" "Apply env cmd db = (Inr r, db')"
  shows "let amount = cb_TotalCost bd * max 0 rate; key = command_key (Normalize (en_sha256hex env) cmd) in
     if \<not> ap_Applied r then key \<in> billed_keys db \<and> same_amounts db db'
     else key \<notin> billed_keys db \<and>
       (if on_subscription p bd then
          (\<forall>x. balance db' x = balance db x)
          \<and> (\<forall>w \<in> set usage_windows. \<forall>i. subscription_usage w db' i
               = subscription_usage w db i + (if pb_SubscriptionID p = Some i then amount else 0))
        else
          (\<forall>x. balance db' x = balance db x - (if x = u then amount else 0))
          \<and> (\<forall>w \<in> set usage_windows. \<forall>i. subscription_usage w db' i = subscription_usage w db i))"
proof -
  have amount: "cb_ActualCost bd = cb_TotalCost bd * max 0 rate" "0 \<le> cb_TotalCost bd * max 0 rate"
    using priced_breakdown [OF assms(1-4)] by auto
  have "uc_UserID cmd = u" using built_command(1) [OF assms(7,5)] assms(6) by simp
  then show ?thesis
    using Applied_charged [OF assms(8)] built_command(2-4) [OF assms(7,5)] amount
    by (auto simp: Let_def charged_def balance_charge_def subscription_charge_def split: if_splits)
qed

definition demo_params :: "CostBreakdown \<Rightarrow> postUsageBillingParams" where
  "demo_params bd = \<lparr>pb_Cost = Some bd, pb_UserID = Some 1,
     pb_APIKey = Some \<lparr>bk_ID = 1, bk_Quota = 0, bk_RateLimit5h = 0, bk_RateLimit1d = 0, bk_RateLimit7d = 0\<rparr>,
     pb_Account = Some \<lparr>acc_ID = 1, acc_Type = ''oauth'', acc_Extra = demo_extra\<rparr>, pb_SubscriptionID = None,
     pb_RequestPayloadHash = '''', pb_IsSubscriptionBill = False, pb_AccountRateMultiplier = 1,
     pb_HasAPIKeyService = True\<rparr>"

lemma demo_built:
  obtains cmd where "buildUsageBillingCommand (\<lambda>_. ''f'') ''r1'' None (demo_params bd) = Some cmd"
    "uc_UserID cmd = 1" "uc_RequestID (Normalize (\<lambda>_. ''f'') cmd) = ''r1''" "uc_SubscriptionID cmd = None"
    "uc_APIKeyQuotaCost cmd = 0" "uc_APIKeyRateLimitCost cmd = 0" "uc_AccountQuotaCost cmd = 0"
proof -
  have [simp]: "trim_space ''r1'' = ''r1''" by code_simp
  show ?thesis
    by (rule that [OF _ _ _ _ _ _ _])
      (auto simp: buildUsageBillingCommand_def demo_params_def Let_def cost_fields_def blank_command_def Normalize_def
        shouldDeductAPIKeyQuota_def shouldUpdateRateLimits_def HasRateLimits_def shouldUpdateAccountQuota_def
        IsAPIKeyOrBedrock_def AccountTypeAPIKey_def AccountTypeBedrock_def)
qed

theorem priced_request_charged_witness:
  "\<exists>bd h1 cmd r db'. CalculateCostWithServiceTier (demo_service None) ''gpt-5.4''
       (no_tokens\<lparr>ut_InputTokens := 1000\<rparr>) 2 ''flex'' (snd initFallbackPricing) = (Inr bd, h1)
     \<and> buildUsageBillingCommand (\<lambda>_. ''f'') ''r1'' None (demo_params bd) = Some cmd
     \<and> Apply (demo_env Committed) cmd demo_db = (Inr r, db') \<and> balance db' 1 = 10 - cb_TotalCost bd * 2"
proof -
  obtain bd h1 where c: "CalculateCostWithServiceTier (demo_service None) ''gpt-5.4''
       (no_tokens\<lparr>ut_InputTokens := 1000\<rparr>) 2 ''flex'' (snd initFallbackPricing) = (Inr bd, h1)"
    using demo_priced by blast
  obtain cmd where b: "buildUsageBillingCommand (\<lambda>_. ''f'') ''r1'' None (demo_params bd) = Some cmd"
    "uc_UserID cmd = 1" "uc_RequestID (Normalize (\<lambda>_. ''f'') cmd) = ''r1''" "uc_SubscriptionID cmd = None"
    "uc_APIKeyQuotaCost cmd = 0" "uc_APIKeyRateLimitCost cmd = 0" "uc_AccountQuotaCost cmd = 0"
    by (rule demo_built)
  let ?c = "Normalize (\<lambda>_. ''f'') cmd"
  have env: "en_sha256hex (demo_env Committed) = (\<lambda>_. ''f'')" "undisturbed (demo_env Committed)"
    by (simp_all add: demo_env_def undisturbed_def)
  have "command_key ?c \<notin> billed_keys demo_db" by (simp add: billed_keys_def demo_db_def)
  moreover have "chargeable (demo_env Committed) ?c demo_db"
    using b by (simp add: chargeable_def live_user_def demo_db_def)
  ultimately obtain r db' where a: "Apply (demo_env Committed) cmd demo_db = (Inr r, db')" "ap_Applied r"
    using undisturbed_fresh [OF env(2), of ?c cmd demo_db] b(3) env(1) by auto
  have ok: "usage_ok (no_tokens\<lparr>ut_InputTokens := 1000\<rparr>)" by code_simp
  have "balance db' 1 = balance demo_db 1 - cb_TotalCost bd * 2"
    using priced_request_charged [OF demo_new _ ok c, of "demo_params bd" 1, OF _ _ _ b(1) a(1)] a(2)
    by (simp add: demo_dynamic demo_params_def on_subscription_def Let_def)
  moreover have "balance demo_db 1 = 10" by (simp add: balance_def demo_db_def)
  ultimately show ?thesis using c b(1) a(1) by auto
qed

end
